(* ===== verification/Prelude.thy ===== *)
theory Prelude
  imports Main "HOL-Library.Multiset"
begin

text \<open>
  Shared material of the development: the named collections the component proofs feed to the
  simplifier, decimal printing of naturals (\<open>fmt.Sprintf("%d", n)\<close>) with its injectivity,
  \<open>strings.Join\<close>, \<open>strings.Split\<close> and \<open>strings.HasPrefix\<close> of the Go standard library, and
  the generic facts on lists, association lists and ordered deduplication the components share.
\<close>

named_theorems model_defs \<open>definitions of the model a component proof unfolds\<close>
named_theorems store_simps \<open>equations of the store operations\<close>

type_synonym id64 = nat
type_synonym ('e, 'a) outcome = "'e + 'a"

section \<open>Lists\<close>

lemma nth_append_last [simp]: "(xs @ [x]) ! length xs = x"
  by (simp add: nth_append)

lemma filter_id_set: "(\<And>x. x \<in> set xs \<Longrightarrow> P x) \<Longrightarrow> filter P xs = xs"
  by (induction xs) auto

lemma map_filter_commute: "(\<And>x. P (f x) = P x) \<Longrightarrow> filter P (map f xs) = map f (filter P xs)"
  by (induction xs) auto

lemma foldl_append_concat: "foldl (@) acc xss = acc @ concat xss"
  by (induction xss arbitrary: acc) auto

section \<open>Decimal printing\<close>

definition digit_char :: "nat \<Rightarrow> char" where
  "digit_char d = char_of (48 + d)"

fun show_nat :: "nat \<Rightarrow> string" where
  "show_nat n = (if n < 10 then [digit_char n] else show_nat (n div 10) @ [digit_char (n mod 10)])"

declare show_nat.simps [simp del]

definition show_int :: "int \<Rightarrow> string" where
  "show_int n = (if n < 0 then CHR ''-'' # show_nat (nat (- n)) else show_nat (nat n))"

lemma of_digit_char: "d < 10 \<Longrightarrow> of_char (digit_char d) = (48 + d :: nat)"
  by (subst digit_char_def, subst of_char_of, rule mod_less) simp

lemma digit_char_inj: "a < 10 \<Longrightarrow> b < 10 \<Longrightarrow> digit_char a = digit_char b \<Longrightarrow> a = b"
  by (metis add_left_cancel of_digit_char)

lemma show_nat_nonempty [simp]: "show_nat n \<noteq> []"
  by (subst show_nat.simps) simp

lemma Nil_neq_show_nat [simp]: "[] \<noteq> show_nat n"
  using show_nat_nonempty [of n] by (metis)

lemma show_nat_inj: "show_nat a = show_nat b \<Longrightarrow> a = b"
proof (induction a arbitrary: b rule: show_nat.induct)
  case (1 a)
  show ?case
  proof (cases "a < 10")
    case True
    with "1.prems" show ?thesis
      by (cases "b < 10") (auto simp: show_nat.simps [of a] show_nat.simps [of b] dest: digit_char_inj)
  next
    case False
    note ge = False
    with "1.prems" have "\<not> b < 10"
      by (auto simp: show_nat.simps [of a] show_nat.simps [of b] split: if_splits)
    with ge "1.prems" have "show_nat (a div 10) = show_nat (b div 10)"
      and "digit_char (a mod 10) = digit_char (b mod 10)"
      by (auto simp: show_nat.simps [of a] show_nat.simps [of b])
    with ge "1.IH" have "a div 10 = b div 10" by blast
    moreover from \<open>digit_char (a mod 10) = digit_char (b mod 10)\<close> have "a mod 10 = b mod 10"
      by (rule digit_char_inj [rotated 2]) simp_all
    ultimately show ?thesis by (metis div_mult_mod_eq)
  qed
qed

lemma show_nat_eq_iff [simp]: "show_nat a = show_nat b \<longleftrightarrow> a = b"
  by (auto dest: show_nat_inj)

definition is_digit :: "char \<Rightarrow> bool" where
  "is_digit c \<longleftrightarrow> 48 \<le> (of_char c :: nat) \<and> (of_char c :: nat) \<le> 57"

lemma digit_char_is_digit: "d < 10 \<Longrightarrow> is_digit (digit_char d)"
  by (simp add: is_digit_def of_digit_char)

lemma show_nat_digits: "c \<in> set (show_nat n) \<Longrightarrow> is_digit c"
proof (induction n rule: show_nat.induct)
  case (1 n)
  then show ?case
    by (auto simp: show_nat.simps [of n] digit_char_is_digit split: if_splits)
qed

section \<open>The strings package\<close>

text \<open>\<open>strings.Join\<close>, \<open>strings.HasPrefix\<close>, \<open>strings.Split\<close> and \<open>strings.ReplaceAll\<close> (the last
  two for a separator of one character, the only use the modelled code makes of them).\<close>

fun strings_join :: "string \<Rightarrow> string list \<Rightarrow> string" where
  "strings_join sep [] = []"
| "strings_join sep [x] = x"
| "strings_join sep (x # y # ys) = x @ sep @ strings_join sep (y # ys)"

definition HasPrefix :: "string \<Rightarrow> string \<Rightarrow> bool" where
  "HasPrefix s p \<longleftrightarrow> take (length p) s = p"

fun strings_split :: "char \<Rightarrow> string \<Rightarrow> string list" where
  "strings_split c [] = [[]]"
| "strings_split c (x # xs) =
     (if x = c then [] # strings_split c xs
      else (case strings_split c xs of [] \<Rightarrow> [[x]] | p # ps \<Rightarrow> (x # p) # ps))"

definition replace_char :: "char \<Rightarrow> string \<Rightarrow> string \<Rightarrow> string" where
  "replace_char c r s = concat (map (\<lambda>x. if x = c then r else [x]) s)"

lemma strings_split_nonempty [simp]: "strings_split c s \<noteq> []"
  by (induction s) (auto split: list.splits)

lemma strings_join_split: "strings_join [c] (strings_split c s) = s"
proof (induction s)
  case (Cons x xs)
  obtain p ps where "strings_split c xs = p # ps"
    by (cases "strings_split c xs") auto
  with Cons show ?case by (cases ps) auto
qed simp

lemma HasPrefix_append [simp]: "HasPrefix (p @ s) p"
  by (simp add: HasPrefix_def)

lemma strings_join_append_sep:
  "xs \<noteq> [] \<Longrightarrow> ys \<noteq> [] \<Longrightarrow> strings_join sep (xs @ ys) = strings_join sep xs @ sep @ strings_join sep ys"
proof (induction xs rule: induct_list012)
  case (2 x)
  then show ?case by (cases ys) auto
qed auto

text \<open>A separated pair \<open>fmt.Sprintf("%s:%s", a, b)\<close> determines its parts when one of them does
  not contain the separator.\<close>

lemma append_sep_inject:
  assumes "c \<notin> set a" "c \<notin> set a'" "a @ c # b = a' @ c # b'"
  shows "a = a' \<and> b = b'"
  using assms
proof (induction a arbitrary: a')
  case Nil
  then show ?case by (cases a') auto
next
  case (Cons x xs)
  then show ?case by (cases a') auto
qed

lemma append_sep_inject_right:
  assumes "c \<notin> set b" "c \<notin> set b'" "a @ c # b = a' @ c # b'"
  shows "a = a' \<and> b = b'"
proof -
  have "rev b @ c # rev a = rev b' @ c # rev a'"
    using arg_cong [OF assms(3), of rev] by simp
  with assms(1,2) have "rev b = rev b' \<and> rev a = rev a'"
    by (intro append_sep_inject) auto
  then show ?thesis by simp
qed

lemma filter_key_unique:
  "x \<in> set xs \<Longrightarrow> distinct (map k xs) \<Longrightarrow> filter (\<lambda>y. k y = k x) xs = [x]"
proof (induction xs)
  case (Cons y ys)
  show ?case
  proof (cases "x = y")
    case True
    with Cons.prems have "\<forall>z \<in> set ys. k z \<noteq> k x" by (metis distinct.simps(2) imageI list.map(2) list.set_map)
    with True show ?thesis by (simp add: filter_empty_conv)
  next
    case False
    with Cons.prems have x: "x \<in> set ys" by simp
    with Cons.prems have "k y \<noteq> k x" by (metis distinct.simps(2) imageI list.map(2) list.set_map)
    with Cons x show ?thesis by simp
  qed
qed simp

lemma distinct_map_fst_remove1: "distinct (map fst xs) \<Longrightarrow> distinct (map fst (remove1 x xs))"
proof (induction xs)
  case (Cons y ys)
  have "fst ` set (remove1 x ys) \<subseteq> fst ` set ys" using set_remove1_subset by (rule image_mono)
  with Cons show ?case by auto
qed simp

lemma fst_set_remove1:
  assumes "distinct (map fst xs)" "(a, b) \<in> set xs"
  shows "fst ` set (remove1 (a, b) xs) = fst ` set xs - {a}"
proof -
  from assms(1) have "distinct xs" "inj_on fst (set xs)" by (simp_all add: distinct_map)
  with assms(2) show ?thesis
    by (simp add: set_remove1_eq inj_on_image_set_diff [where C = "set xs"])
qed

text \<open>\<open>strings.Contains\<close>, and \<open>strings.ToLower\<close> on the letters of ASCII.\<close>

definition strings_Contains :: "string \<Rightarrow> string \<Rightarrow> bool" where
  "strings_Contains s t \<longleftrightarrow> list_ex (\<lambda>i. HasPrefix (drop i s) t) [0..<length s + 1]"

definition to_lower :: "string \<Rightarrow> string" where
  "to_lower s = map (\<lambda>c. if 65 \<le> (of_char c :: nat) \<and> (of_char c :: nat) \<le> 90
     then char_of ((of_char c :: nat) + 32) else c) s"

lemma Contains_lower_prefix: "to_lower p = q \<Longrightarrow> strings_Contains (to_lower (p @ s)) q"
  by (auto simp: strings_Contains_def to_lower_def list_ex_iff HasPrefix_def intro!: bexI [of _ 0])

section \<open>Keeping the first element of every key\<close>

text \<open>The loop \<open>if seen[key] { continue }; seen[key] = true; out = append(out, x)\<close>, which several
  components run.\<close>

fun dedup_on :: "('a \<Rightarrow> 'k) \<Rightarrow> 'k list \<Rightarrow> 'a list \<Rightarrow> 'a list" where
  "dedup_on k seen [] = []"
| "dedup_on k seen (x # xs) =
     (if k x \<in> set seen then dedup_on k seen xs else x # dedup_on k (k x # seen) xs)"

lemma set_dedup_on_subset: "set (dedup_on k seen xs) \<subseteq> set xs"
  by (induction xs arbitrary: seen) auto

lemma dedup_on_avoids: "x \<in> set (dedup_on k seen xs) \<Longrightarrow> k x \<notin> set seen"
proof (induction xs arbitrary: seen)
  case (Cons y xs)
  show ?case
  proof (cases "k y \<in> set seen")
    case False
    with Cons.prems Cons.IH [of "k y # seen"] show ?thesis by auto
  qed (use Cons in auto)
qed simp

lemma distinct_dedup_on: "distinct (map k (dedup_on k seen xs))"
  by (induction xs arbitrary: seen) (auto dest: dedup_on_avoids)

lemma dedup_on_keys: "k ` set (dedup_on k seen xs) = k ` set xs - set seen"
  by (induction xs arbitrary: seen) auto

text \<open>The element kept for a key is the first one with it.\<close>

lemma dedup_on_first:
  "x \<in> set (dedup_on k seen xs) \<Longrightarrow> \<exists>ys zs. xs = ys @ x # zs \<and> k x \<notin> k ` set ys"
proof (induction xs arbitrary: seen)
  case (Cons y xs)
  show ?case
  proof (cases "k y \<in> set seen")
    case True
    with Cons.prems have x: "x \<in> set (dedup_on k seen xs)" by simp
    then obtain ys zs where "xs = ys @ x # zs" "k x \<notin> k ` set ys" using Cons.IH by blast
    moreover have "k x \<noteq> k y" using dedup_on_avoids [OF x] True by auto
    ultimately show ?thesis by (intro exI [of _ "y # ys"] exI [of _ zs]) auto
  next
    case False
    with Cons.prems consider "x = y" | "x \<in> set (dedup_on k (k y # seen) xs)" by auto
    then show ?thesis
    proof cases
      case 1
      then show ?thesis by (intro exI [of _ "[]"] exI [of _ xs]) simp
    next
      case 2
      then obtain ys zs where "xs = ys @ x # zs" "k x \<notin> k ` set ys" using Cons.IH by blast
      moreover have "k x \<noteq> k y" using dedup_on_avoids [OF 2] by auto
      ultimately show ?thesis by (intro exI [of _ "y # ys"] exI [of _ zs]) auto
    qed
  qed
qed simp

text \<open>Two keys that separate the elements of a list alike keep the same elements.\<close>

lemma dedup_on_cong:
  assumes "\<And>x y. x \<in> A \<Longrightarrow> y \<in> A \<Longrightarrow> (k x = k y) = (h x = h y)"
    and "set xs \<subseteq> A" and "S \<subseteq> A" and "set seen = k ` S" and "set seen' = h ` S"
  shows "dedup_on k seen xs = dedup_on h seen' xs"
  using assms(2-)
proof (induction xs arbitrary: seen seen' S)
  case (Cons x xs)
  have "k x \<in> k ` S \<longleftrightarrow> h x \<in> h ` S"
    using assms(1) Cons.prems(1,2) by (auto simp: image_iff subset_iff)
  moreover have "dedup_on k (k x # seen) xs = dedup_on h (h x # seen') xs"
    using Cons.prems by (intro Cons.IH [of "insert x S"]) auto
  moreover have "dedup_on k seen xs = dedup_on h seen' xs"
    using Cons.prems by (intro Cons.IH [of S]) auto
  ultimately show ?case using Cons.prems by simp
qed simp

text \<open>On a list sorted by decreasing key \<open>v\<close>, the first element with a key is the largest.\<close>

lemma dedup_on_greatest:
  assumes "sorted_wrt (\<lambda>a b. v b \<le> (v a :: nat)) xs" and "x \<in> set (dedup_on k seen xs)"
    and "y \<in> set xs" and "k y = k x"
  shows "v y \<le> v x"
proof -
  from dedup_on_first [OF assms(2)] obtain ys zs where "xs = ys @ x # zs" "k x \<notin> k ` set ys"
    by blast
  moreover from this assms(3,4) have "y \<notin> set ys" by (metis image_eqI)
  ultimately show ?thesis using assms(1,3) by (auto simp: sorted_wrt_append)
qed

end
