(* ===== verification/CommitGraph.thy ===== *)
theory CommitGraph
  imports Prelude
begin

text \<open>
  The commit graph of the \<open>refdiff\<close> plugin
  (\<open>backend/plugins/refdiff/utils/commit_node_graph.go\<close>): building the graph edge by edge
  (\<open>AddParent\<close>) and computing the commits of a release that its predecessor does not have
  (\<open>CalculateLostSha\<close>), with the specification of the latter by reachability.

  A \<open>*CommitNode\<close> is named by its \<open>Sha\<close>: \<open>AddParent\<close> is the only place that creates nodes
  of a graph and it creates at most one per sha, so a pointer and the sha it carries determine
  each other. The Go map \<open>node\<close> is the association list of its entries in insertion order,
  each with the \<open>Parent\<close> slice of the node.
\<close>

type_synonym sha = string

record CommitNodeGraph =
  node :: "(sha \<times> sha list) list"

definition NewCommitNodeGraph :: CommitNodeGraph where
  "NewCommitNodeGraph = \<lparr>node = []\<rparr>"

definition ensure_node :: "sha \<Rightarrow> (sha \<times> sha list) list \<Rightarrow> (sha \<times> sha list) list" where
  "ensure_node s m = (case map_of m s of None \<Rightarrow> m @ [(s, [])] | Some _ \<Rightarrow> m)"

definition append_parent :: "sha \<Rightarrow> sha \<Rightarrow> (sha \<times> sha list) list \<Rightarrow> (sha \<times> sha list) list" where
  "append_parent s p m = map (\<lambda>(k, ps). if k = s then (k, ps @ [p]) else (k, ps)) m"

definition AddParent :: "CommitNodeGraph \<Rightarrow> sha \<Rightarrow> sha \<Rightarrow> CommitNodeGraph" where
  "AddParent cng commit_sha commit_parent_sha =
     (let m1 = ensure_node commit_sha (node cng);
          m2 = ensure_node commit_parent_sha m1
      in cng\<lparr>node := append_parent commit_sha commit_parent_sha m2\<rparr>)"

definition Size :: "CommitNodeGraph \<Rightarrow> nat" where
  "Size cng = length (node cng)"

text \<open>The \<open>Parent\<close> slice reached through a node; a sha without a node stands for the fresh
  node \<open>&CommitNode{Sha: sha}\<close>, whose \<open>Parent\<close> is nil.\<close>

definition Parent :: "CommitNodeGraph \<Rightarrow> sha \<Rightarrow> sha list" where
  "Parent cng s = (case map_of (node cng) s of None \<Rightarrow> [] | Some ps \<Rightarrow> ps)"

section \<open>Depth-first search\<close>

text \<open>
  Both closures \<open>dfs\<close> of \<open>CalculateLostSha\<close> are one function: \<open>blocked\<close> holds the shas the
  closure refuses beside those it has seen (none for the first, \<open>oldGroup\<close> for the second),
  the list argument is the rest of the loop \<open>for _, node := range now.Parent\<close>, and \<open>seen\<close> holds
  the keys of the group in the order of their insertion, which is \<open>lostSha\<close> for the second.
\<close>

function dfs :: "CommitNodeGraph \<Rightarrow> sha list \<Rightarrow> sha list \<Rightarrow> sha list \<Rightarrow> sha list" where
  "dfs cng blocked [] seen = seen"
| "dfs cng blocked (now # rest) seen =
     (if now \<in> set blocked \<or> now \<in> set seen then dfs cng blocked rest seen
      else dfs cng blocked rest (dfs cng blocked (Parent cng now) (seen @ [now])))"
  by pat_completeness auto

definition nodes_of :: "CommitNodeGraph \<Rightarrow> sha set" where
  "nodes_of cng = fst ` set (node cng)"

lemma finite_nodes_of [simp]: "finite (nodes_of cng)"
  by (simp add: nodes_of_def)

lemma Parent_outside: "s \<notin> nodes_of cng \<Longrightarrow> Parent cng s = []"
  by (simp add: nodes_of_def Parent_def map_of_eq_None_iff [THEN iffD2])

lemma dfs_seen_grows: "dfs_dom (cng, b, xs, seen) \<Longrightarrow> set seen \<subseteq> set (dfs cng b xs seen)"
  by (induction cng b xs seen rule: dfs.pinduct) (auto simp: dfs.psimps)

definition dfs_order :: "((CommitNodeGraph \<times> sha list \<times> sha list \<times> sha list) \<times>
    (CommitNodeGraph \<times> sha list \<times> sha list \<times> sha list)) set" where
  "dfs_order = measures [\<lambda>(cng, b, xs, seen). card (nodes_of cng - set seen),
                         \<lambda>(cng, b, xs, seen). length xs]"

lemma wf_dfs_order: "wf dfs_order"
  by (simp add: dfs_order_def)

lemma dfs_order_rest:
  "set seen \<subseteq> set seen' \<Longrightarrow> ((cng, b, rest, seen'), (cng, b, now # rest, seen)) \<in> dfs_order"
proof -
  assume "set seen \<subseteq> set seen'"
  then have "card (nodes_of cng - set seen') \<le> card (nodes_of cng - set seen)"
    by (intro card_mono) auto
  then show ?thesis by (auto simp: dfs_order_def)
qed

lemma dfs_order_visit:
  assumes "now \<notin> set seen"
  shows "((cng, b, Parent cng now, seen @ [now]), (cng, b, now # rest, seen)) \<in> dfs_order"
proof (cases "now \<in> nodes_of cng")
  case True
  with assms have "card (nodes_of cng - set (seen @ [now])) < card (nodes_of cng - set seen)"
    by (intro psubset_card_mono) auto
  then show ?thesis by (simp add: dfs_order_def)
next
  case False
  then have "nodes_of cng - set (seen @ [now]) = nodes_of cng - set seen" by auto
  with False show ?thesis by (simp add: dfs_order_def Parent_outside)
qed

termination dfs
proof (relation dfs_order)
  show "wf dfs_order" by (rule wf_dfs_order)
next
  fix cng b now rest and seen :: "sha list"
  assume dom: "dfs_dom (cng, b, Parent cng now, seen @ [now])"
  have "set seen \<subseteq> set (dfs cng b (Parent cng now) (seen @ [now]))"
    using dfs_seen_grows [OF dom] by auto
  then show "((cng, b, rest, dfs cng b (Parent cng now) (seen @ [now])), (cng, b, now # rest, seen))
      \<in> dfs_order"
    by (rule dfs_order_rest)
qed (auto intro: dfs_order_rest dfs_order_visit)

lemma dfs_mono: "set seen \<subseteq> set (dfs cng b xs seen)"
  by (induction cng b xs seen rule: dfs.induct) auto

lemma dfs_distinct: "distinct seen \<Longrightarrow> distinct (dfs cng b xs seen)"
  by (induction cng b xs seen rule: dfs.induct) auto

lemma dfs_avoids: "set seen \<inter> set b = {} \<Longrightarrow> set (dfs cng b xs seen) \<inter> set b = {}"
  by (induction cng b xs seen rule: dfs.induct) auto

lemma dfs_covers: "set xs \<subseteq> set (dfs cng b xs seen) \<union> set b"
proof (induction cng b xs seen rule: dfs.induct)
  case (2 cng b now rest seen)
  then show ?case
    using dfs_mono [of "seen @ [now]" cng b "Parent cng now"]
      dfs_mono [of "dfs cng b (Parent cng now) (seen @ [now])" cng b rest]
      dfs_mono [of seen cng b rest]
    by auto
qed simp

definition edges :: "CommitNodeGraph \<Rightarrow> (sha \<times> sha) set" where
  "edges cng = {(c, p). p \<in> set (Parent cng c)}"

lemma dfs_sound: "set (dfs cng b xs seen) \<subseteq> set seen \<union> (edges cng)\<^sup>* `` set xs"
proof (induction cng b xs seen rule: dfs.induct)
  case (2 cng b now rest seen)
  have "(edges cng)\<^sup>* `` set (Parent cng now) \<subseteq> (edges cng)\<^sup>* `` {now}"
    by (auto simp: edges_def intro: converse_rtrancl_into_rtrancl)
  moreover have "now \<in> (edges cng)\<^sup>* `` {now}" by simp
  moreover have "(edges cng)\<^sup>* `` insert now (set rest) =
      (edges cng)\<^sup>* `` {now} \<union> (edges cng)\<^sup>* `` set rest" by auto
  ultimately show ?case using 2 by (simp del: Image_singleton_iff) blast
qed simp

text \<open>Every newly visited node has all its parents visited or blocked when the search returns.\<close>

lemma dfs_closes:
  "x \<in> set (dfs cng b xs seen) - set seen \<Longrightarrow> set (Parent cng x) \<subseteq> set (dfs cng b xs seen) \<union> set b"
proof (induction cng b xs seen rule: dfs.induct)
  case (2 cng b now rest seen)
  let ?inner = "dfs cng b (Parent cng now) (seen @ [now])"
  show ?case
  proof (cases "now \<in> set b \<or> now \<in> set seen")
    case True
    with 2 show ?thesis by simp
  next
    case False
    have grow: "set ?inner \<subseteq> set (dfs cng b rest ?inner)" by (rule dfs_mono)
    consider "x \<notin> set ?inner" | "x = now" | "x \<in> set ?inner - set (seen @ [now])"
      using "2.prems" False by auto
    then show ?thesis
    proof cases
      case 1
      with 2 False show ?thesis by simp
    next
      case 2
      with grow dfs_covers [of "Parent cng now" cng b "seen @ [now]"] False show ?thesis by auto
    next
      case 3
      with "2.IH"(2) False have "set (Parent cng x) \<subseteq> set ?inner \<union> set b" by blast
      with grow False show ?thesis by auto
    qed
  qed
qed simp

lemma closed_Image_rtrancl: "r `` A \<subseteq> A \<Longrightarrow> r\<^sup>* `` A = A"
proof -
  assume cl: "r `` A \<subseteq> A"
  have "y \<in> A" if "(x, y) \<in> r\<^sup>*" "x \<in> A" for x y
    using that by (induction rule: rtrancl_induct) (use cl in auto)
  then show ?thesis by auto
qed

text \<open>Searching around a closed set of blocked nodes visits exactly the reachable rest.\<close>

lemma dfs_reachable:
  assumes "edges cng `` set b \<subseteq> set b"
  shows "set (dfs cng b xs []) = (edges cng)\<^sup>* `` set xs - set b"
proof
  show "set (dfs cng b xs []) \<subseteq> (edges cng)\<^sup>* `` set xs - set b"
    using dfs_sound [of cng b xs "[]"] dfs_avoids [of "[]" b cng xs] by auto
next
  let ?D = "set (dfs cng b xs []) \<union> set b"
  have "edges cng `` ?D \<subseteq> ?D"
    using assms dfs_closes [of _ cng b xs "[]"] by (auto simp: edges_def)
  then have "(edges cng)\<^sup>* `` ?D = ?D" by (rule closed_Image_rtrancl)
  moreover have "set xs \<subseteq> ?D" using dfs_covers by auto
  ultimately show "(edges cng)\<^sup>* `` set xs - set b \<subseteq> set (dfs cng b xs [])" by blast
qed

declare dfs.simps [simp del]

section \<open>CalculateLostSha\<close>

definition CalculateLostSha :: "CommitNodeGraph \<Rightarrow> sha \<Rightarrow> sha \<Rightarrow> sha list \<times> nat \<times> nat" where
  "CalculateLostSha cng source_sha target_sha =
     (let oldGroup = dfs cng [] [source_sha] [];
          lostSha = dfs cng oldGroup [target_sha] []
      in (lostSha, length oldGroup, length lostSha))"

abbreviation ancestry :: "CommitNodeGraph \<Rightarrow> sha \<Rightarrow> sha set" where
  "ancestry cng s \<equiv> (edges cng)\<^sup>* `` {s}"

lemma old_group: "set (dfs cng [] [s] []) = ancestry cng s"
  by (simp add: dfs_reachable)

lemma lost_sha_set:
  "set (fst (CalculateLostSha cng old new)) = ancestry cng new - ancestry cng old"
proof -
  have "edges cng `` ancestry cng old \<subseteq> ancestry cng old"
    by (auto intro: rtrancl_into_rtrancl)
  then show ?thesis
    by (simp add: CalculateLostSha_def Let_def dfs_reachable old_group)
qed

lemma lost_sha_distinct: "distinct (fst (CalculateLostSha cng old new))"
  by (simp add: CalculateLostSha_def Let_def dfs_distinct)

lemma lost_sha_counts:
  "CalculateLostSha cng old new = (lost, oldCount, newCount) \<Longrightarrow>
    oldCount = card (ancestry cng old) \<and> newCount = length lost"
  using old_group [of cng old] dfs_distinct [of "[]" cng "[]" "[old]"]
  by (auto simp: CalculateLostSha_def Let_def simp flip: distinct_card)

section \<open>Building the graph from the rows of commit_parents\<close>

definition graph_of_rows :: "(sha \<times> sha) list \<Rightarrow> CommitNodeGraph" where
  "graph_of_rows rows = foldl (\<lambda>g (c, p). AddParent g c p) NewCommitNodeGraph rows"

definition graph_ok :: "CommitNodeGraph \<Rightarrow> bool" where
  "graph_ok cng \<longleftrightarrow> distinct (map fst (node cng)) \<and>
     (\<forall>(k, ps) \<in> set (node cng). set ps \<subseteq> nodes_of cng)"

lemma map_of_ensure: "map_of (ensure_node s m) k =
    (if k = s \<and> map_of m s = None then Some [] else map_of m k)"
  by (auto simp: ensure_node_def map_add_def split: option.splits)

lemma fst_ensure: "fst ` set (ensure_node s m) = insert s (fst ` set m)"
  by (auto simp: ensure_node_def split: option.splits dest: map_of_SomeD intro: rev_image_eqI)

lemma distinct_ensure: "distinct (map fst m) \<Longrightarrow> distinct (map fst (ensure_node s m))"
  by (auto simp: ensure_node_def map_of_eq_None_iff split: option.splits)

lemma map_of_append_parent: "map_of (append_parent s p m) k =
    (if k = s then map_option (\<lambda>ps. ps @ [p]) (map_of m k) else map_of m k)"
  by (induction m) (auto simp: append_parent_def)

lemma fst_append_parent [simp]: "map fst (append_parent s p m) = map fst m"
  by (auto simp: append_parent_def)

lemma Parent_AddParent:
  "Parent (AddParent cng c p) k = (if k = c then Parent cng c @ [p] else Parent cng k)"
  by (auto simp: Parent_def AddParent_def Let_def map_of_append_parent map_of_ensure
      split: option.splits)

lemma edges_AddParent: "edges (AddParent cng c p) = insert (c, p) (edges cng)"
  by (auto simp: edges_def Parent_AddParent split: if_splits)

lemma nodes_AddParent: "nodes_of (AddParent cng c p) = {c, p} \<union> nodes_of cng"
proof -
  have "nodes_of (AddParent cng c p) =
      set (map fst (append_parent c p (ensure_node p (ensure_node c (node cng)))))"
    by (simp add: nodes_of_def AddParent_def Let_def del: fst_append_parent)
  then show ?thesis by (auto simp: fst_ensure nodes_of_def)
qed

lemma distinct_AddParent:
  "distinct (map fst (node cng)) \<Longrightarrow> distinct (map fst (node (AddParent cng c p)))"
  by (simp add: AddParent_def Let_def distinct_ensure)

lemma edges_graph_of_rows: "edges (graph_of_rows rows) = set rows"
proof (induction rows rule: rev_induct)
  case Nil
  then show ?case
    by (simp add: graph_of_rows_def NewCommitNodeGraph_def edges_def Parent_def)
next
  case (snoc row rows)
  obtain c p where "row = (c, p)" by (cases row)
  with snoc show ?case by (simp add: graph_of_rows_def edges_AddParent)
qed

lemma nodes_graph_of_rows: "nodes_of (graph_of_rows rows) = fst ` set rows \<union> snd ` set rows"
proof (induction rows rule: rev_induct)
  case Nil
  then show ?case by (simp add: graph_of_rows_def NewCommitNodeGraph_def nodes_of_def)
next
  case (snoc row rows)
  obtain c p where "row = (c, p)" by (cases row)
  with snoc show ?case by (auto simp: graph_of_rows_def nodes_AddParent)
qed

lemma distinct_graph_of_rows: "distinct (map fst (node (graph_of_rows rows)))"
proof (induction rows rule: rev_induct)
  case Nil
  then show ?case by (simp add: graph_of_rows_def NewCommitNodeGraph_def)
next
  case (snoc row rows)
  obtain c p where "row = (c, p)" by (cases row)
  with snoc show ?case by (simp add: graph_of_rows_def distinct_AddParent)
qed

lemma Size_graph_of_rows: "Size (graph_of_rows rows) = card (fst ` set rows \<union> snd ` set rows)"
  using distinct_card [OF distinct_graph_of_rows [of rows]] nodes_graph_of_rows [of rows]
  by (simp add: Size_def nodes_of_def)

section \<open>Properties\<close>

text \<open>C32. On the graph loaded from the rows of \<open>commit_parents\<close>, \<open>CalculateLostSha\<close> returns,
  without repetition, exactly the commits reachable from the new commit along the parent rows
  and not reachable from the old one; the counts it returns are the number of commits in the
  old history and the number of commits returned.\<close>

theorem CalculateLostSha_correct:
  "case CalculateLostSha (graph_of_rows rows) old new of (lost, oldCount, newCount) \<Rightarrow>
     set lost = (set rows)\<^sup>* `` {new} - (set rows)\<^sup>* `` {old} \<and> distinct lost \<and>
     oldCount = card ((set rows)\<^sup>* `` {old}) \<and> newCount = card (set lost)"
proof (cases "CalculateLostSha (graph_of_rows rows) old new")
  case (fields lost oldCount newCount)
  note E = edges_graph_of_rows [of rows]
  have "set lost = (set rows)\<^sup>* `` {new} - (set rows)\<^sup>* `` {old}"
    using lost_sha_set [of "graph_of_rows rows" old new] fields by (simp add: E)
  moreover have "distinct lost"
    using lost_sha_distinct [of "graph_of_rows rows" old new] fields by simp
  moreover have "oldCount = card ((set rows)\<^sup>* `` {old})" and "newCount = length lost"
    using lost_sha_counts [OF fields] by (simp_all add: E)
  ultimately show ?thesis using fields distinct_card [of lost] by simp
qed

end
