(* ===== verification/LakeErrors.thy ===== *)
theory LakeErrors
  imports Prelude
begin

text \<open>
  The error values of the backend (\<open>backend/core/errors\<close>): error types, wrapping with
  inheritance of the wrapped error's type, the message chain of an error, \<open>As\<close>, \<open>Combine\<close> and
  the conversion of foreign errors.

  A Go \<open>error\<close> is either a foreign error, of which the model keeps the text and identity, or a
  \<open>*crdbErrorImpl\<close> with its type, its own messages, its data and the error it wraps. A nil
  error is \<open>None\<close>. The data attached by \<open>WithData\<close> is the name of the subtask meta that
  \<open>RunPluginSubTasks\<close> attaches, the only use the program makes of it. The texts that
  \<open>Error()\<close> assembles with the cockroachdb package are not modelled.
\<close>

text \<open>Types are compared as pointers. The cache \<open>typesByHttpCode\<close> makes the pointer of a type
  with an http code unique per code, so a lazily created type is named by its code.\<close>

datatype err_type = Default | SubtaskErr | NotFound | BadInput | Unauthorized | Forbidden
  | Internal | Timeout | TypeHttp nat

datatype goerr = External string
  | Crdb (err_type: err_type) (err_msgs: "string list") (err_data: "string option")
      (err_wraps: "goerr option")

fun httpCode :: "err_type \<Rightarrow> nat" where
  "httpCode Default = 0"
| "httpCode SubtaskErr = 0"
| "httpCode NotFound = 404"
| "httpCode BadInput = 400"
| "httpCode Unauthorized = 401"
| "httpCode Forbidden = 403"
| "httpCode Internal = 500"
| "httpCode Timeout = 504"
| "httpCode (TypeHttp c) = c"

definition HttpStatus :: "nat \<Rightarrow> err_type" where
  "HttpStatus code =
     (if code = 0 then Default else if code = 404 then NotFound else if code = 400 then BadInput
      else if code = 401 then Unauthorized else if code = 403 then Forbidden
      else if code = 500 then Internal else if code = 504 then Timeout else TypeHttp code)"

definition GetHttpCode :: "err_type \<Rightarrow> nat" where
  "GetHttpCode t = (if httpCode t = 0 then 500 else httpCode t)"

section \<open>Messages\<close>

definition addMessage :: "err_type \<Rightarrow> string \<Rightarrow> string list \<Rightarrow> string list" where
  "addMessage t msg msgs =
     (if msg = [] then msgs
      else msgs @ [if httpCode t \<noteq> 0 then msg @ '' ('' @ show_nat (httpCode t) @ '')'' else msg])"

definition getMessage :: "string list \<Rightarrow> string" where
  "getMessage msgs = (if msgs = [] then [] else strings_join '','' msgs)"

definition newline :: string where
  "newline = [CHR 0x0A]"

definition getPrettifiedMessage :: "string list \<Rightarrow> string" where
  "getPrettifiedMessage msgs =
     (case msgs of [] \<Rightarrow> [] | [m] \<Rightarrow> m
      | _ \<Rightarrow> newline @ ''combined messages: '' @ newline @ ''{'' @ newline
          @ [CHR 0x09] @ replace_char (CHR 0x0A) [CHR 0x0A, CHR 0x09]
              (strings_join (newline @ ''====================='' @ newline) msgs)
          @ newline @ ''}'')"

section \<open>Construction\<close>

fun is_crdb :: "goerr \<Rightarrow> bool" where
  "is_crdb (External s) = False"
| "is_crdb (Crdb t m d w) = True"

definition newSingleCrdbError :: "err_type \<Rightarrow> goerr option \<Rightarrow> string \<Rightarrow> string option \<Rightarrow> goerr" where
  "newSingleCrdbError t err message data =
     (let t' = (case err of Some (Crdb ty _ _ _) \<Rightarrow> if t = Default then ty else t | _ \<Rightarrow> t)
      in Crdb t' (addMessage t' message []) data err)"

definition New :: "err_type \<Rightarrow> string \<Rightarrow> goerr" where
  "New t message = newSingleCrdbError t None message None"

definition Wrap :: "err_type \<Rightarrow> goerr option \<Rightarrow> string \<Rightarrow> string option \<Rightarrow> goerr option" where
  "Wrap t err message data =
     (case err of None \<Rightarrow> None | Some e \<Rightarrow> Some (newSingleCrdbError t (Some e) message data))"

definition wrapRaw :: "err_type \<Rightarrow> goerr option \<Rightarrow> bool \<Rightarrow> goerr option" where
  "wrapRaw t err forceWrap =
     (case err of None \<Rightarrow> None
      | Some e \<Rightarrow>
        if \<not> forceWrap \<and> is_crdb e then Some e
        else Some (newSingleCrdbError t (Some e) (case e of External s \<Rightarrow> s | _ \<Rightarrow> []) None))"

definition WrapRaw :: "err_type \<Rightarrow> goerr option \<Rightarrow> goerr option" where
  "WrapRaw t err = wrapRaw t err True"

definition Convert :: "goerr option \<Rightarrow> goerr option" where
  "Convert err = wrapRaw Default err False"

definition Combine :: "err_type \<Rightarrow> goerr list \<Rightarrow> goerr" where
  "Combine t errs =
     Crdb t (map (\<lambda>e. case e of Crdb _ m _ _ \<Rightarrow> getMessage m | External s \<Rightarrow> s) errs) None None"

section \<open>Inspection\<close>

fun As :: "goerr \<Rightarrow> err_type \<Rightarrow> goerr option" where
  "As (External s) t = None"
| "As (Crdb ty m d w) t =
     (if ty = t then Some (Crdb ty m d w)
      else (case w of None \<Rightarrow> None
            | Some c \<Rightarrow> (case As c t of None \<Rightarrow> None | Some _ \<Rightarrow> Some (Crdb ty m d w))))"

fun Messages :: "goerr \<Rightarrow> string list list" where
  "Messages (External s) = []"
| "Messages (Crdb ty m d w) =
     (if m \<noteq> [] then [m] else []) @ (case w of None \<Rightarrow> [] | Some c \<Rightarrow> Messages c)"

definition Format :: "string list list \<Rightarrow> string" where
  "Format ms = strings_join (newline @ ''caused by: '') (filter (\<lambda>m. m \<noteq> []) (map getMessage ms))"

fun GetMsg :: "string list list \<Rightarrow> string" where
  "GetMsg [] = []"
| "GetMsg (m # ms) = (if getMessage m \<noteq> [] then getMessage m else GetMsg ms)"

definition Causes :: "string list list \<Rightarrow> string list" where
  "Causes ms = (if length ms < 2 then [] else filter (\<lambda>m. m \<noteq> []) (map getMessage (tl ms)))"

text \<open>\<open>errors.Is(err, target)\<close> for a sentinel \<open>target\<close> of a foreign package: the chain of
  wrapped errors reaches it.\<close>

fun IsSentinel :: "goerr \<Rightarrow> string \<Rightarrow> bool" where
  "IsSentinel (External s) tgt \<longleftrightarrow> s = tgt"
| "IsSentinel (Crdb ty m d w) tgt \<longleftrightarrow> (case w of None \<Rightarrow> False | Some c \<Rightarrow> IsSentinel c tgt)"

definition Canceled :: string where
  "Canceled = ''context canceled''"

definition ErrRecordNotFound :: string where
  "ErrRecordNotFound = ''record not found''"

section \<open>Outcomes\<close>

text \<open>A call ends well, with an error, or with a panic.\<close>

datatype 'a outcome = Fine 'a | Fault goerr | Panic

fun bind_outcome :: "'a outcome \<Rightarrow> ('a \<Rightarrow> 'b outcome) \<Rightarrow> 'b outcome" where
  "bind_outcome (Fine x) f = f x"
| "bind_outcome (Fault e) f = Fault e"
| "bind_outcome Panic f = Panic"

end
