(* ===== verification/Tables.thy ===== *)
theory Tables
  imports LakeErrors
begin

text \<open>
  The rows of the tables the services keep (\<open>backend/core/models\<close>) and the state of the model:
  the tables, the registry of running tasks, the cron scheduler and the schedule of failures.

  The database is the list of rows of each table in insertion order (\<open>world\<close>). Columns that hold JSON
  keep what decoding the text yields (\<open>'a json\<close>), so that the encoding itself (\<open>encoding/json\<close>) is
  not modelled; decoding what was encoded gives the value back.
\<close>

section \<open>Rows\<close>

text \<open>\<open>models.TASK_*\<close>: the statuses of a task and of a pipeline.\<close>

datatype status = TASK_CREATED | TASK_RERUN | TASK_RUNNING | TASK_COMPLETED | TASK_FAILED
  | TASK_CANCELLED | TASK_PARTIAL

definition PendingTaskStatus :: "status list" where
  "PendingTaskStatus = [TASK_CREATED, TASK_RERUN, TASK_RUNNING]"

text \<open>The options of a task are a JSON object; the model keeps its members, each with the JSON
  text of its value, and leaves the encoding itself (\<open>encoding/json\<close>, the \<open>encdec\<close> serializer)
  out, so that decoding what was encoded gives the options back.\<close>

type_synonym options = "(string \<times> string) list"

record TaskProgressDetail =
  TotalSubTasks :: int
  FinishedSubTasks :: int
  TotalRecords :: int
  FinishedRecords :: int
  SubTaskName :: string
  SubTaskNumber :: int

record task =
  tID :: id64
  tPlugin :: string
  tSubtasks :: "string list"
  tOptions :: options
  tStatus :: status
  tMessage :: string
  tErrorName :: string
  tProgress :: "int \<times> int"
  tProgressDetail :: "TaskProgressDetail option"
  tFailedSubTask :: string
  tPipelineId :: id64
  tPipelineRow :: nat
  tPipelineCol :: nat
  tBeganAt :: "int option"
  tFinishedAt :: "int option"
  tSpentSeconds :: int

record pipeline =
  pID :: id64
  pName :: string
  pBlueprintId :: id64
  pTotalTasks :: nat
  pFinishedTasks :: nat
  pBeganAt :: "int option"
  pFinishedAt :: "int option"
  pStatus :: status
  pMessage :: string
  pErrorName :: string
  pSpentSeconds :: int
  pStage :: nat
  pLabels :: "string list"
  pSkipOnFail :: bool

record subtask_row =
  sTaskID :: id64
  sName :: string
  sNumber :: nat
  sSpentSeconds :: int

text \<open>The progress messages of \<open>plugin.RunningProgress\<close>.\<close>

datatype RunningProgress = TaskSetProgress int int | TaskIncProgress int int
  | SubTaskSetProgress int int | SubTaskIncProgress int int | SetCurrentSubTask string int

section \<open>Plans, blueprints and projects\<close>

record PipelineTask =
  ptPlugin :: string
  ptSubtasks :: "string list"
  ptOptions :: options

type_synonym PipelineStage = "PipelineTask list"
type_synonym PipelinePlan = "PipelineStage list"

text \<open>A \<open>json.RawMessage\<close>: absent, malformed, or the text of a value.\<close>

datatype 'a json = JsonNil | JsonBad string | JsonVal 'a

record BlueprintScope =
  bsId :: string
  bsName :: string
  bsEntities :: "string list"

text \<open>A connection of the settings; protocol 1.0.0 reads the member \<open>scope\<close>, 2.0.0 the member
  \<open>scopes\<close>. A scope of protocol 1.0.0 is passed on to the plugin as its JSON text.\<close>

record BlueprintConnection =
  bcPlugin :: string
  bcConnectionId :: id64
  bcScope :: "string list"
  bcScopes :: "BlueprintScope list"

record BlueprintSettings =
  sVersion :: string
  sTimeAfter :: "int option"
  sConnections :: "BlueprintConnection list json"
  sBeforePlan :: "PipelinePlan json"
  sAfterPlan :: "PipelinePlan json"

text \<open>The column \<open>enable\<close> is nullable; a null is read as false.\<close>

record blueprint =
  bpID :: id64
  bpName :: string
  bpProjectName :: string
  bpMode :: string
  bpPlan :: "PipelinePlan json"
  bpEnable :: "bool option"
  bpCronConfig :: string
  bpIsManual :: bool
  bpSkipOnFail :: bool
  bpLabels :: "string list"
  bpSettings :: "BlueprintSettings json"

record project =
  prName :: string
  prDescription :: string

record metric_setting =
  msProject :: string
  msPlugin :: string
  msOption :: string
  msEnable :: bool

text \<open>A domain scope (a repo, a board) by its table, its id and its name.\<close>

record scope_row =
  scTable :: string
  scId :: string
  scName :: string

section \<open>The state\<close>

text \<open>
  Beside the tables: \<open>w_running\<close> is the map \<open>runningTasks.tasks\<close> of \<open>task_runner.go\<close> with the
  progress detail of each running task, \<open>w_cancelled\<close> the tasks whose context was cancelled, and
  \<open>w_progress\<close> the messages sent on the progress channels, in order, with the task they are of.
  \<open>w_cron\<close> holds the blueprints of the scheduled jobs as they were loaded, \<open>w_cron_on\<close> whether the
  scheduler runs; the tables \<open>project_pr_metrics\<close>, \<open>project_issue_metrics\<close> and
  \<open>project_mapping\<close> hold the project name and the key of a row. The column \<open>progress\<close> of a task, a float quotient, is kept as the pair of its operands.
\<close>

record world =
  w_tasks :: "task list"
  w_pipelines :: "pipeline list"
  w_labels :: "(id64 \<times> string) list"
  w_subtasks :: "subtask_row list"
  w_blueprints :: "blueprint list"
  w_bp_labels :: "(id64 \<times> string) list"
  w_projects :: "project list"
  w_metrics :: "metric_setting list"
  w_pr_metrics :: "(string \<times> string) list"
  w_issue_metrics :: "(string \<times> string) list"
  w_mappings :: "(string \<times> string) list"
  w_scopes :: "scope_row list"
  w_cron :: "blueprint list"
  w_cron_on :: bool
  w_running :: "(id64 \<times> TaskProgressDetail) list"
  w_cancelled :: "id64 list"
  w_progress :: "(id64 \<times> RunningProgress) list"
  w_faults :: "string option list"

end
