(* ===== verification/Svc.thy ===== *)
theory Svc
  imports Tables
begin

text \<open>
  The state the services share and the monad their models are written in.

  The database is the list of rows of each table in insertion order (\<open>world\<close>); the SQL text of a
  query is translated where it is used, as a filter, a sort or an update of the rows. Every call of
  the \<open>dal.Dal\<close> interface may fail: \<open>w_faults\<close> is the schedule of the failures to come, one entry
  per call (\<open>None\<close> lets the call through, \<open>Some s\<close> makes it fail with the driver's error text
  \<open>s\<close>); the empty schedule means that no call fails. A failing call changes no row.

  A model of type \<open>'a svc\<close> returns a value, returns an error or panics, beside the new state.
  \<open>bind_svc\<close> is Go's \<open>if err != nil \<lbrace> return err \<rbrace>\<close>.
\<close>

section \<open>The monad\<close>

datatype 'a result = Ok 'a | Err goerr | Panic goerr

type_synonym ('w, 'a) sm = "'w \<Rightarrow> 'a result \<times> 'w"
type_synonym 'a svc = "(world, 'a) sm"

definition ret :: "'a \<Rightarrow> ('w, 'a) sm" where
  "ret x w = (Ok x, w)"

definition fail :: "goerr \<Rightarrow> ('w, 'a) sm" where
  "fail e w = (Err e, w)"

definition panic :: "goerr \<Rightarrow> ('w, 'a) sm" where
  "panic e w = (Panic e, w)"

definition bind_svc :: "('w, 'a) sm \<Rightarrow> ('a \<Rightarrow> ('w, 'b) sm) \<Rightarrow> ('w, 'b) sm" where
  "bind_svc m f w = (case m w of (Ok x, w') \<Rightarrow> f x w' | (Err e, w') \<Rightarrow> (Err e, w')
     | (Panic e, w') \<Rightarrow> (Panic e, w'))"

text \<open>\<open>attempt m\<close> hands the error of \<open>m\<close> to the code that inspects it; a panic passes.\<close>

definition attempt :: "('w, 'a) sm \<Rightarrow> ('w, goerr + 'a) sm" where
  "attempt m w = (case m w of (Ok x, w') \<Rightarrow> (Ok (Inr x), w') | (Err e, w') \<Rightarrow> (Ok (Inl e), w')
     | (Panic e, w') \<Rightarrow> (Panic e, w'))"

definition wrap_err :: "err_type \<Rightarrow> string \<Rightarrow> ('w, 'a) sm \<Rightarrow> ('w, 'a) sm" where
  "wrap_err t msg m w = (case m w of (Err e, w') \<Rightarrow> (Err (newSingleCrdbError t (Some e) msg None), w')
     | r \<Rightarrow> r)"

fun each :: "('x \<Rightarrow> ('w, unit) sm) \<Rightarrow> 'x list \<Rightarrow> ('w, unit) sm" where
  "each f [] = ret ()"
| "each f (x # xs) = bind_svc (f x) (\<lambda>_. each f xs)"

fun collect :: "('x \<Rightarrow> ('w, 'y) sm) \<Rightarrow> 'x list \<Rightarrow> ('w, 'y list) sm" where
  "collect f [] = ret []"
| "collect f (x # xs) = bind_svc (f x) (\<lambda>y. bind_svc (collect f xs) (\<lambda>ys. ret (y # ys)))"

lemma ret_simp [simp]: "ret x w = (Ok x, w)" by (simp add: ret_def)
lemma fail_simp [simp]: "fail e w = (Err e, w)" by (simp add: fail_def)
lemma panic_simp [simp]: "panic e w = (Panic e, w)" by (simp add: panic_def)

lemma bind_Ok: "m w = (Ok x, w') \<Longrightarrow> bind_svc m f w = f x w'"
  by (simp add: bind_svc_def)

lemma bind_Err: "m w = (Err e, w') \<Longrightarrow> bind_svc m f w = (Err e, w')"
  by (simp add: bind_svc_def)

lemma bind_Ok_iff: "bind_svc m f w = (Ok y, w2) \<longleftrightarrow> (\<exists>x w1. m w = (Ok x, w1) \<and> f x w1 = (Ok y, w2))"
  by (auto simp: bind_svc_def split: prod.splits result.splits)

lemma bind_ret [simp]: "bind_svc (ret x) f = f x"
  by (rule ext) (simp add: bind_svc_def)

section \<open>Database calls\<close>

text \<open>\<open>errors.Convert\<close> of a driver error, as every method of \<open>dalgorm.go\<close> returns it.\<close>

definition dal_error :: "string \<Rightarrow> goerr" where
  "dal_error s = newSingleCrdbError Default (Some (External s)) s None"

definition IsErrorNotFound :: "goerr \<Rightarrow> bool" where
  "IsErrorNotFound e \<longleftrightarrow> IsSentinel e ErrRecordNotFound"

definition db :: "(world \<Rightarrow> 'a \<times> world) \<Rightarrow> 'a svc" where
  "db f w = (case w_faults w of
       [] \<Rightarrow> (case f w of (x, w') \<Rightarrow> (Ok x, w'))
     | None # fs \<Rightarrow> (case f (w\<lparr>w_faults := fs\<rparr>) of (x, w') \<Rightarrow> (Ok x, w'))
     | Some s # fs \<Rightarrow> (Err (dal_error s), w\<lparr>w_faults := fs\<rparr>))"

definition db_get :: "(world \<Rightarrow> 'a) \<Rightarrow> 'a svc" where
  "db_get f = db (\<lambda>w. (f w, w))"

definition db_do :: "(world \<Rightarrow> world) \<Rightarrow> unit svc" where
  "db_do f = db (\<lambda>w. ((), f w))"

text \<open>\<open>db.First\<close>: the first row by primary key, or the not-found error.\<close>

definition db_first :: "(world \<Rightarrow> 'a list) \<Rightarrow> 'a svc" where
  "db_first f = bind_svc (db_get f)
     (\<lambda>rows. case rows of [] \<Rightarrow> fail (dal_error ErrRecordNotFound) | r # _ \<Rightarrow> ret r)"

definition update_where :: "('r \<Rightarrow> bool) \<Rightarrow> ('r \<Rightarrow> 'r) \<Rightarrow> 'r list \<Rightarrow> 'r list" where
  "update_where p f rows = map (\<lambda>r. if p r then f r else r) rows"

definition next_id :: "('r \<Rightarrow> id64) \<Rightarrow> 'r list \<Rightarrow> id64" where
  "next_id key rows = Suc (foldr (\<lambda>r m. max (key r) m) rows 0)"

definition UpdateTasks :: "(task \<Rightarrow> bool) \<Rightarrow> (task \<Rightarrow> task) \<Rightarrow> unit svc" where
  "UpdateTasks p f = db_do (\<lambda>w. w\<lparr>w_tasks := update_where p f (w_tasks w)\<rparr>)"

definition UpdatePipelines :: "(pipeline \<Rightarrow> bool) \<Rightarrow> (pipeline \<Rightarrow> pipeline) \<Rightarrow> unit svc" where
  "UpdatePipelines p f = db_do (\<lambda>w. w\<lparr>w_pipelines := update_where p f (w_pipelines w)\<rparr>)"

lemma db_no_faults: "w_faults w = [] \<Longrightarrow> db f w = (Ok (fst (f w)), snd (f w))"
  by (simp add: db_def split: prod.splits)

lemma db_get_no_faults [store_simps]: "w_faults w = [] \<Longrightarrow> db_get f w = (Ok (f w), w)"
  by (simp add: db_get_def db_no_faults)

lemma db_do_no_faults [store_simps]: "w_faults w = [] \<Longrightarrow> db_do f w = (Ok (), f w)"
  by (simp add: db_do_def db_no_faults)

lemma db_first_no_faults [store_simps]:
  "w_faults w = [] \<Longrightarrow> db_first f w =
     (case f w of [] \<Rightarrow> (Err (dal_error ErrRecordNotFound), w) | r # _ \<Rightarrow> (Ok r, w))"
  by (simp add: db_first_def bind_svc_def db_get_no_faults split: list.splits)

lemma dal_error_not_found [simp]: "IsErrorNotFound (dal_error s) \<longleftrightarrow> s = ErrRecordNotFound"
  by (simp add: IsErrorNotFound_def dal_error_def newSingleCrdbError_def)

lemma update_where_simps [simp]:
  "update_where p f [] = []"
  "update_where p f (r # rs) = (if p r then f r else r) # update_where p f rs"
  by (simp_all add: update_where_def)

lemma length_update_where [simp]: "length (update_where p f rs) = length rs"
  by (simp add: update_where_def)

lemma update_where_append [simp]: "update_where p f (rs @ rs') = update_where p f rs @ update_where p f rs'"
  by (simp add: update_where_def)

lemma map_update_where: "(\<And>r. p r \<Longrightarrow> g (f r) = g r) \<Longrightarrow> map g (update_where p f rs) = map g rs"
  by (auto simp: update_where_def)

lemma set_update_where: "r \<in> set (update_where p f rs) \<longleftrightarrow>
    (\<exists>r0 \<in> set rs. r = (if p r0 then f r0 else r0))"
  by (auto simp: update_where_def)

lemma update_where_all:
  "x \<in> set (update_where P f rs) \<Longrightarrow> (\<And>r. r \<in> set rs \<Longrightarrow> P r \<Longrightarrow> Q (f r)) \<Longrightarrow>
    (\<And>r. r \<in> set rs \<Longrightarrow> \<not> P r \<Longrightarrow> Q r) \<Longrightarrow> Q x"
  by (auto simp: update_where_def split: if_splits)

lemma update_where_gone: "(\<And>r. key (f r) \<noteq> k) \<Longrightarrow> k \<notin> key ` set (update_where (\<lambda>r. key r = k) f rs)"
proof
  assume f: "\<And>r. key (f r) \<noteq> k" and "k \<in> key ` set (update_where (\<lambda>r. key r = k) f rs)"
  then obtain x where "x \<in> set (update_where (\<lambda>r. key r = k) f rs)" "key x = k" by blast
  moreover from this(1) have "key x \<noteq> k" by (rule update_where_all) (simp_all add: f)
  ultimately show False by simp
qed

lemma next_id_fresh: "r \<in> set rows \<Longrightarrow> key r < next_id key rows"
proof -
  have "key r \<le> foldr (\<lambda>r m. max (key r) m) rows 0" if "r \<in> set rows"
    using that by (induction rows) (auto simp: le_max_iff_disj)
  then show "r \<in> set rows \<Longrightarrow> key r < next_id key rows" by (simp add: next_id_def le_imp_less_Suc)
qed

section \<open>Invariants under any fault schedule\<close>

text \<open>\<open>keeps I m\<close>: whatever fails, \<open>m\<close> started where \<open>I\<close> holds ends where \<open>I\<close> holds. The rules
  follow the combinators, so that an invariant proof is one goal per write.\<close>

named_theorems keeps_rules \<open>introduction rules of keeps\<close>

definition keeps :: "('w \<Rightarrow> bool) \<Rightarrow> ('w, 'a) sm \<Rightarrow> bool" where
  "keeps I m \<longleftrightarrow> (\<forall>w. I w \<longrightarrow> I (snd (m w)))"

lemma keepsD: "keeps I m \<Longrightarrow> I w \<Longrightarrow> I (snd (m w))"
  by (simp add: keeps_def)

lemma keeps_ret [keeps_rules]: "keeps I (ret x)" by (simp add: keeps_def)
lemma keeps_fail [keeps_rules]: "keeps I (fail e)" by (simp add: keeps_def)
lemma keeps_panic [keeps_rules]: "keeps I (panic e)" by (simp add: keeps_def)

lemma keeps_Pair [simp, intro]: "keeps I (Pair r)" by (simp add: keeps_def)

lemma keepsE: "keeps I m \<Longrightarrow> m w = (r, w') \<Longrightarrow> I w \<Longrightarrow> I w'"
  by (metis keepsD snd_conv)

lemma keepsI: "(\<And>w r w'. m w = (r, w') \<Longrightarrow> I w \<Longrightarrow> I w') \<Longrightarrow> keeps I m"
  by (simp add: keeps_def) (metis prod.collapse)

lemma keeps_bind [keeps_rules]:
  "keeps I m \<Longrightarrow> (\<And>x. keeps I (f x)) \<Longrightarrow> keeps I (bind_svc m f)"
  by (rule keepsI) (auto simp: bind_svc_def split: prod.splits result.splits dest: keepsE)

lemma keeps_if [keeps_rules]: "keeps I a \<Longrightarrow> keeps I b \<Longrightarrow> keeps I (if c then a else b)"
  by simp

lemma keeps_attempt [keeps_rules]: "keeps I m \<Longrightarrow> keeps I (attempt m)"
  by (rule keepsI) (auto simp: attempt_def split: prod.splits result.splits dest: keepsE)

lemma keeps_wrap [keeps_rules]: "keeps I m \<Longrightarrow> keeps I (wrap_err t s m)"
  by (rule keepsI) (auto simp: wrap_err_def split: prod.splits result.splits dest: keepsE)

lemma keeps_each [keeps_rules]: "(\<And>x. keeps I (f x)) \<Longrightarrow> keeps I (each f xs)"
  by (induction xs) (auto intro: keeps_rules)

lemma keeps_collect [keeps_rules]: "(\<And>x. keeps I (f x)) \<Longrightarrow> keeps I (collect f xs)"
  by (induction xs) (auto intro!: keeps_rules)

lemma keeps_db:
  "(\<And>w fs. I w \<Longrightarrow> I (w\<lparr>w_faults := fs\<rparr>)) \<Longrightarrow> (\<And>w. I w \<Longrightarrow> I (snd (f w))) \<Longrightarrow> keeps I (db f)"
  unfolding keeps_def db_def
  by (auto split: list.splits option.splits prod.splits) (metis snd_conv)+

text \<open>Predicates that do not read the schedule of failures.\<close>

definition fault_blind :: "(world \<Rightarrow> bool) \<Rightarrow> bool" where
  "fault_blind I \<longleftrightarrow> (\<forall>w fs. I (w\<lparr>w_faults := fs\<rparr>) = I w)"

lemma keeps_db_get [keeps_rules]: "fault_blind I \<Longrightarrow> keeps I (db_get f)"
  by (auto simp: db_get_def fault_blind_def intro!: keeps_db)

lemma keeps_db_do: "fault_blind I \<Longrightarrow> (\<And>w. I w \<Longrightarrow> I (f w)) \<Longrightarrow> keeps I (db_do f)"
  by (auto simp: db_do_def fault_blind_def intro!: keeps_db)

lemma keeps_db_first [keeps_rules]: "fault_blind I \<Longrightarrow> keeps I (db_first f)"
  by (auto simp: db_first_def split: list.splits intro!: keeps_rules)

section \<open>Operations that do not panic\<close>

named_theorems calm_rules \<open>introduction rules of calm\<close>

definition calm :: "('w, 'a) sm \<Rightarrow> bool" where
  "calm m \<longleftrightarrow> (\<forall>w e. fst (m w) \<noteq> Panic e)"

lemma calmI: "(\<And>w e w'. m w \<noteq> (Panic e, w')) \<Longrightarrow> calm m"
  unfolding calm_def by (metis prod.collapse)

lemma calmD: "calm m \<Longrightarrow> m w \<noteq> (Panic e, w')"
  unfolding calm_def by (metis fst_conv)

lemma calm_ret [calm_rules]: "calm (ret x)" by (simp add: calm_def)
lemma calm_fail [calm_rules]: "calm (fail e)" by (simp add: calm_def)

lemma calm_bind [calm_rules]: "calm m \<Longrightarrow> (\<And>x. calm (f x)) \<Longrightarrow> calm (bind_svc m f)"
  by (rule calmI) (auto simp: bind_svc_def split: prod.splits result.splits dest: calmD)

lemma calm_if [calm_rules]: "calm a \<Longrightarrow> calm b \<Longrightarrow> calm (if c then a else b)"
  by simp

lemma calm_attempt [calm_rules]: "calm m \<Longrightarrow> calm (attempt m)"
  by (rule calmI) (auto simp: attempt_def split: prod.splits result.splits dest: calmD)

lemma calm_wrap [calm_rules]: "calm m \<Longrightarrow> calm (wrap_err t s m)"
  by (rule calmI) (auto simp: wrap_err_def split: prod.splits result.splits dest: calmD)

lemma calm_each [calm_rules]: "(\<And>x. calm (f x)) \<Longrightarrow> calm (each f xs)"
  by (induction xs) (auto intro: calm_rules)

lemma calm_collect [calm_rules]: "(\<And>x. calm (f x)) \<Longrightarrow> calm (collect f xs)"
  by (induction xs) (auto intro!: calm_rules)

lemma calm_db [calm_rules]: "calm (db f)"
  by (rule calmI) (auto simp: db_def split: list.splits option.splits prod.splits)

lemma calm_db_get [calm_rules]: "calm (db_get f)"
  unfolding db_get_def by (rule calm_db)

lemma calm_db_do [calm_rules]: "calm (db_do f)"
  unfolding db_do_def by (rule calm_db)

lemma calm_db_first [calm_rules]: "calm (db_first f)"
  unfolding db_first_def by (auto intro!: calm_rules split: list.split)

lemma calm_value [calm_rules]: "calm (\<lambda>w. (Ok (f w), g w))"
  by (simp add: calm_def)

end
