(* ===== verification/TaskService.thy ===== *)
theory TaskService
  imports Svc
begin

text \<open>
  The task service (\<open>backend/server/services/task.go\<close>, \<open>task_runner.go\<close>, \<open>base.go\<close>): creating and
  querying tasks, the latest task of every position of a pipeline's plan, and the registry of
  running tasks with its cancel functions and progress details.
\<close>

section \<open>Pagination\<close>

record Pagination =
  Page :: int
  PageSize :: int

definition GetPage :: "Pagination \<Rightarrow> int" where
  "GetPage p = (if Page p < 1 then 1 else Page p)"

definition GetPageSizeOr :: "Pagination \<Rightarrow> int \<Rightarrow> int" where
  "GetPageSizeOr p defaultVal = (if PageSize p < 1 then defaultVal else PageSize p)"

definition GetPageSize :: "Pagination \<Rightarrow> int" where
  "GetPageSize p = GetPageSizeOr p 50"

definition GetSkip :: "Pagination \<Rightarrow> int" where
  "GetSkip p = (GetPage p - 1) * GetPageSize p"

text \<open>\<open>OFFSET skip LIMIT n\<close> of a query.\<close>

definition page_rows :: "int \<Rightarrow> int \<Rightarrow> 'a list \<Rightarrow> 'a list" where
  "page_rows skip n rows = take (nat n) (drop (nat skip) rows)"

text \<open>\<open>ORDER BY id DESC\<close>; ids are unique, so the order is determined.\<close>

definition by_id_desc :: "('r \<Rightarrow> id64) \<Rightarrow> 'r list \<Rightarrow> 'r list" where
  "by_id_desc key rows = rev (sort_key key rows)"

lemma set_by_id_desc [simp]: "set (by_id_desc key rows) = set rows"
  by (simp add: by_id_desc_def)

lemma sorted_by_id_desc: "sorted_wrt (\<lambda>a b. key b \<le> key a) (by_id_desc key rows)"
proof -
  have "sorted_wrt (\<lambda>a b. key a \<le> key b) (sort_key key rows)"
    using sorted_sort_key [of key rows] by (simp add: sorted_map)
  then show ?thesis by (simp add: by_id_desc_def sorted_wrt_rev)
qed

section \<open>The registry of running tasks\<close>

definition empty_detail :: TaskProgressDetail where
  "empty_detail = \<lparr>TotalSubTasks = 0, FinishedSubTasks = 0, TotalRecords = 0, FinishedRecords = 0,
     SubTaskName = [], SubTaskNumber = 0\<rparr>"

definition remove_key :: "'k \<Rightarrow> ('k \<times> 'v) list \<Rightarrow> ('k \<times> 'v) list" where
  "remove_key k m = filter (\<lambda>(k', _). k' \<noteq> k) m"

definition rt_add :: "id64 \<Rightarrow> unit svc" where
  "rt_add taskId w =
     (case map_of (w_running w) taskId of
        Some _ \<Rightarrow> (Err (New Default (''task with id '' @ show_nat taskId @ '' already running'')), w)
      | None \<Rightarrow> (Ok (), w\<lparr>w_running := (taskId, empty_detail) # w_running w\<rparr>))"

definition rt_remove :: "id64 \<Rightarrow> unit svc" where
  "rt_remove taskId w =
     (case map_of (w_running w) taskId of
        Some _ \<Rightarrow> (Ok (), w\<lparr>w_running := remove_key taskId (w_running w)\<rparr>)
      | None \<Rightarrow> (Err (New NotFound (''task with id '' @ show_nat taskId @ '' not found'')), w))"

definition rt_get :: "id64 \<Rightarrow> world \<Rightarrow> TaskProgressDetail option" where
  "rt_get taskId w = map_of (w_running w) taskId"

definition FillProgressDetailToTasks :: "task list \<Rightarrow> world \<Rightarrow> task list" where
  "FillProgressDetailToTasks tasks w =
     map (\<lambda>t. case map_of (w_running w) (tID t) of
            Some d \<Rightarrow> t\<lparr>tProgressDetail := Some d\<rparr> | None \<Rightarrow> t) tasks"

definition rt_setAll :: "(id64 \<times> TaskProgressDetail) list \<Rightarrow> world \<Rightarrow> world" where
  "rt_setAll progressDetails w =
     (let kept = filter (\<lambda>(k, _). map_of progressDetails k \<noteq> None) (w_running w)
      in w\<lparr>w_running := foldl (\<lambda>m (k, d). (k, d) # remove_key k m) kept progressDetails\<rparr>)"

text \<open>\<open>cancel()\<close> of \<open>context.WithCancel\<close>: the context of the task is done from then on.\<close>

definition CancelTask :: "id64 \<Rightarrow> unit svc" where
  "CancelTask taskId =
     bind_svc (rt_remove taskId) (\<lambda>_ w. (Ok (), w\<lparr>w_cancelled := taskId # w_cancelled w\<rparr>))"

text \<open>\<open>runner.UpdateProgressDetail\<close> on the detail alone; the progress column it writes for a
  \<open>TaskIncProgress\<close> is in \<open>UpdateProgress\<close>.\<close>

fun UpdateProgressDetail :: "TaskProgressDetail \<Rightarrow> RunningProgress \<Rightarrow> TaskProgressDetail" where
  "UpdateProgressDetail d (TaskSetProgress cur tot) =
     d\<lparr>TotalSubTasks := tot, FinishedSubTasks := cur\<rparr>"
| "UpdateProgressDetail d (TaskIncProgress cur tot) = d\<lparr>FinishedSubTasks := cur\<rparr>"
| "UpdateProgressDetail d (SubTaskSetProgress cur tot) =
     d\<lparr>TotalRecords := tot, FinishedRecords := cur\<rparr>"
| "UpdateProgressDetail d (SubTaskIncProgress cur tot) = d\<lparr>FinishedRecords := cur\<rparr>"
| "UpdateProgressDetail d (SetCurrentSubTask name num) =
     d\<lparr>SubTaskName := name, SubTaskNumber := num\<rparr>"

definition UpdateProgress :: "id64 \<Rightarrow> RunningProgress \<Rightarrow> unit svc" where
  "UpdateProgress taskId p =
     (case p of TaskIncProgress cur tot \<Rightarrow>
        bind_svc (attempt (UpdateTasks (\<lambda>t. tID t = taskId) (\<lambda>t. t\<lparr>tProgress := (cur, tot)\<rparr>)))
          (\<lambda>_. ret ())
      | _ \<Rightarrow> ret ())"

text \<open>\<open>updateTaskProgress\<close>: the consumer of one task's channel, for the messages it receives.\<close>

definition set_detail :: "id64 \<Rightarrow> (TaskProgressDetail \<Rightarrow> TaskProgressDetail) \<Rightarrow> world \<Rightarrow> world" where
  "set_detail taskId f w =
     w\<lparr>w_running := map (\<lambda>(k, d). if k = taskId then (k, f d) else (k, d)) (w_running w)\<rparr>"

definition updateTaskProgress :: "id64 \<Rightarrow> RunningProgress list \<Rightarrow> unit svc" where
  "updateTaskProgress taskId msgs w =
     (case rt_get taskId w of
        None \<Rightarrow> (Ok (), w)
      | Some _ \<Rightarrow>
        each (\<lambda>p. bind_svc (UpdateProgress taskId p)
            (\<lambda>_ w. (Ok (), set_detail taskId (\<lambda>d. UpdateProgressDetail d p) w))) msgs w)"

section \<open>Creating and querying tasks\<close>

record NewTask =
  ntPlugin :: string
  ntSubtasks :: "string list"
  ntOptions :: options
  ntPipelineId :: id64
  ntPipelineRow :: nat
  ntPipelineCol :: nat
  ntIsRerun :: bool

definition task_of_new :: "NewTask \<Rightarrow> id64 \<Rightarrow> task" where
  "task_of_new n i = \<lparr>tID = i, tPlugin = ntPlugin n, tSubtasks = ntSubtasks n,
     tOptions = ntOptions n, tStatus = (if ntIsRerun n then TASK_RERUN else TASK_CREATED),
     tMessage = [], tErrorName = [], tProgress = (0, 1), tProgressDetail = None,
     tFailedSubTask = [], tPipelineId = ntPipelineId n, tPipelineRow = ntPipelineRow n,
     tPipelineCol = ntPipelineCol n, tBeganAt = None, tFinishedAt = None, tSpentSeconds = 0\<rparr>"

definition insert_task :: "NewTask \<Rightarrow> world \<Rightarrow> task \<times> world" where
  "insert_task n w =
     (let t = task_of_new n (next_id tID (w_tasks w)) in (t, w\<lparr>w_tasks := w_tasks w @ [t]\<rparr>))"

definition CreateTask :: "NewTask \<Rightarrow> task svc" where
  "CreateTask newTask = wrap_err Internal ''save task failed'' (db (insert_task newTask))"

record TaskQuery =
  tqPagination :: Pagination
  tqStatus :: "status option"
  tqPlugin :: string
  tqPipelineId :: id64
  tqPending :: int

definition task_matches :: "TaskQuery \<Rightarrow> task \<Rightarrow> bool" where
  "task_matches q t \<longleftrightarrow>
     (case tqStatus q of None \<Rightarrow> True | Some s \<Rightarrow> tStatus t = s) \<and>
     (tqPlugin q \<noteq> [] \<longrightarrow> tPlugin t = tqPlugin q) \<and>
     (tqPipelineId q > 0 \<longrightarrow> tPipelineId t = tqPipelineId q) \<and>
     (tqPending q > 0 \<longrightarrow> tFinishedAt t = None)"

text \<open>The validator's answer on a struct, \<open>None\<close> where it finds nothing. A \<open>TaskQuery\<close> has no field with a
  \<open>validate\<close> tag, so the validator has nothing to check on one.\<close>

definition VerifyStruct :: "goerr option \<Rightarrow> unit svc" where
  "VerifyStruct answer = (case answer of
     Some e \<Rightarrow> fail (newSingleCrdbError BadInput (Some e) ''data verification failed'' None) | None \<Rightarrow> ret ())"

lemma VerifyStruct_None [simp]: "VerifyStruct None = ret ()"
  by (simp add: VerifyStruct_def)

definition GetTasks :: "TaskQuery \<Rightarrow> (task list \<times> nat) svc" where
  "GetTasks q =
     bind_svc (VerifyStruct None) (\<lambda>_.
     bind_svc (db_get (\<lambda>w. length (filter (task_matches q) (w_tasks w)))) (\<lambda>count.
     bind_svc (db_get (\<lambda>w. page_rows (GetSkip (tqPagination q)) (GetPageSizeOr (tqPagination q) 10000)
                 (by_id_desc tID (filter (task_matches q) (w_tasks w))))) (\<lambda>tasks w.
     (Ok (FillProgressDetailToTasks tasks w, count), w))))"

definition GetTask :: "id64 \<Rightarrow> task svc" where
  "GetTask taskId =
     bind_svc (attempt (db_first (\<lambda>w. filter (\<lambda>t. tID t = taskId) (w_tasks w)))) (\<lambda>r.
       case r of
         Inr t \<Rightarrow> ret t
       | Inl e \<Rightarrow>
           if IsErrorNotFound e then fail (New NotFound ''task not found'')
           else fail (newSingleCrdbError Internal (Some e) ''error getting the task from database'' None))"

definition pipeline_tasks_desc :: "id64 \<Rightarrow> world \<Rightarrow> task list" where
  "pipeline_tasks_desc pipelineId w =
     by_id_desc tID (filter (\<lambda>t. tPipelineId t = pipelineId) (w_tasks w))"

definition GetTasksWithLastStatus :: "id64 \<Rightarrow> task list svc" where
  "GetTasksWithLastStatus pipelineId =
     bind_svc (db_get (pipeline_tasks_desc pipelineId)) (\<lambda>tasks w.
       let maxCol = foldr (\<lambda>t m. max (tPipelineCol t) m) tasks 0;
           result = dedup_on (\<lambda>t. tPipelineRow t * maxCol + tPipelineCol t) [] tasks
       in (Ok (FillProgressDetailToTasks result w), w))"

text \<open>\<open>GetLatestTasksOfPipeline\<close> of \<open>pipeline_runner.go\<close>: every row of the cursor is fetched by a
  call that may fail.\<close>

fun latest_loop :: "(nat \<times> nat) list \<Rightarrow> task list \<Rightarrow> task list svc" where
  "latest_loop memorized [] = ret []"
| "latest_loop memorized (t # rest) =
     bind_svc (db_get (\<lambda>_. t)) (\<lambda>task.
       let key = (tPipelineRow task, tPipelineCol task)
       in if key \<in> set memorized then latest_loop memorized rest
          else bind_svc (latest_loop (key # memorized) rest) (\<lambda>ts. ret (task # ts)))"

definition GetLatestTasksOfPipeline :: "pipeline \<Rightarrow> task list svc" where
  "GetLatestTasksOfPipeline p =
     bind_svc (db_get (pipeline_tasks_desc (pID p))) (latest_loop [])"

lemma latest_loop_no_faults [store_simps]:
  "w_faults w = [] \<Longrightarrow> latest_loop seen ts w =
     (Ok (dedup_on (\<lambda>t. (tPipelineRow t, tPipelineCol t)) seen ts), w)"
  by (induction seen ts arbitrary: w rule: latest_loop.induct)
     (auto simp: bind_svc_def store_simps Let_def)

lemma GetLatest_no_faults [store_simps]:
  "w_faults w = [] \<Longrightarrow> GetLatestTasksOfPipeline p w =
     (Ok (dedup_on (\<lambda>t. (tPipelineRow t, tPipelineCol t)) [] (pipeline_tasks_desc (pID p) w)), w)"
  by (simp add: GetLatestTasksOfPipeline_def bind_svc_def store_simps)

end
