(* ===== verification/PipelineService.thy ===== *)
theory PipelineService
  imports TaskService
begin

text \<open>
  The pipeline service (\<open>pipeline_helper.go\<close>, \<open>pipeline_runner.go\<close> and the request handlers of
  \<open>pipeline.go\<close> under \<open>backend/server/services\<close>): creating a pipeline with the tasks of its plan,
  querying, computing the status of a finished run, cancelling, and rerunning the failed tasks.
\<close>

record NewPipeline =
  npName :: string
  npPlan :: PipelinePlan
  npLabels :: "string list"
  npSkipOnFail :: bool
  npBlueprintId :: id64

section \<open>Creating a pipeline\<close>

definition show_status :: "status \<Rightarrow> string" where
  "show_status s = (case s of TASK_CREATED \<Rightarrow> ''TASK_CREATED'' | TASK_RERUN \<Rightarrow> ''TASK_RERUN''
     | TASK_RUNNING \<Rightarrow> ''TASK_RUNNING'' | TASK_COMPLETED \<Rightarrow> ''TASK_COMPLETED''
     | TASK_FAILED \<Rightarrow> ''TASK_FAILED'' | TASK_CANCELLED \<Rightarrow> ''TASK_CANCELLED''
     | TASK_PARTIAL \<Rightarrow> ''TASK_PARTIAL'')"

definition pending_of_blueprint :: "id64 \<Rightarrow> world \<Rightarrow> pipeline list" where
  "pending_of_blueprint bid w =
     filter (\<lambda>p. pBlueprintId p = bid \<and> pStatus p \<in> set PendingTaskStatus) (w_pipelines w)"

definition insert_pipeline :: "NewPipeline \<Rightarrow> world \<Rightarrow> pipeline \<times> world" where
  "insert_pipeline np w =
     (let p = \<lparr>pID = next_id pID (w_pipelines w), pName = npName np,
                pBlueprintId = npBlueprintId np, pTotalTasks = 0, pFinishedTasks = 0,
                pBeganAt = None, pFinishedAt = None, pStatus = TASK_CREATED, pMessage = [],
                pErrorName = [], pSpentSeconds = 0, pStage = 0, pLabels = [],
                pSkipOnFail = npSkipOnFail np\<rparr>
      in (p, w\<lparr>w_pipelines := w_pipelines w @ [p]\<rparr>))"

text \<open>The tasks of a plan with their positions: row \<open>i + 1\<close>, column \<open>j + 1\<close>.\<close>

definition new_task_at :: "id64 \<Rightarrow> nat \<Rightarrow> nat \<Rightarrow> PipelineTask \<Rightarrow> NewTask" where
  "new_task_at pid i j pt = \<lparr>ntPlugin = ptPlugin pt, ntSubtasks = ptSubtasks pt,
     ntOptions = ptOptions pt, ntPipelineId = pid, ntPipelineRow = i + 1, ntPipelineCol = j + 1,
     ntIsRerun = False\<rparr>"

definition stage_tasks :: "id64 \<Rightarrow> nat \<Rightarrow> PipelineStage \<Rightarrow> NewTask list" where
  "stage_tasks pid i stage = map (\<lambda>(j, pt). new_task_at pid i j pt) (enumerate 0 stage)"

definition plan_tasks :: "id64 \<Rightarrow> PipelinePlan \<Rightarrow> NewTask list" where
  "plan_tasks pid plan = concat (map (\<lambda>(i, stage). stage_tasks pid i stage) (enumerate 0 plan))"

text \<open>\<open>db.Update\<close> is gorm's \<open>Save\<close>: every column of the row is written.\<close>

definition SavePipeline :: "pipeline \<Rightarrow> unit svc" where
  "SavePipeline p = UpdatePipelines (\<lambda>r. pID r = pID p) (\<lambda>r. p\<lparr>pLabels := []\<rparr>)"

definition running_message :: "pipeline list \<Rightarrow> string" where
  "running_message ps = concat (map (\<lambda>p. ''pipeline:['' @ show_nat (pID p) @ ''] on state:[''
       @ show_status (pStatus p) @ ''] Pending it'' @ [CHR 0x0D, CHR 0x0A]) ps)"

fun fetch_pending :: "nat \<Rightarrow> nat \<Rightarrow> pipeline list \<Rightarrow> pipeline list svc" where
  "fetch_pending cnt fetched [] = ret []"
| "fetch_pending cnt fetched (p # rest) =
     bind_svc (wrap_err Default (''failed to Fetch pipelines fetched:['' @ show_nat fetched
         @ ''],count:['' @ show_nat cnt @ '']'') (db_get (\<lambda>_. p))) (\<lambda>row.
     bind_svc (fetch_pending cnt (fetched + 1) rest) (\<lambda>rows. ret (row # rows)))"

definition check_blueprint_idle :: "id64 \<Rightarrow> unit svc" where
  "check_blueprint_idle bid =
     bind_svc (wrap_err Default ''query pipelines error''
       (db_get (\<lambda>w. length (pending_of_blueprint bid w)))) (\<lambda>count.
     if count > 0 then
       bind_svc (wrap_err Default (''query pipelines error but count it success. count:'' @ show_nat count)
         (db_get (pending_of_blueprint bid))) (\<lambda>cursor.
       bind_svc (fetch_pending count 0 cursor) (\<lambda>fetched.
       fail (New Default (''the blueprint is running fetched:['' @ show_nat (length fetched)
         @ ''],count:['' @ show_nat count @ '']:'' @ [CHR 0x0D, CHR 0x0A] @ running_message fetched))))
     else ret ())"

text \<open>\<open>CreateDbPipeline\<close> after the pipeline row is inserted: its labels, its tasks, its total.\<close>

definition create_labels :: "NewPipeline \<Rightarrow> id64 \<Rightarrow> unit svc" where
  "create_labels np pid =
     (if npLabels np \<noteq> [] then
        wrap_err Internal ''create pipeline's labelModels failed''
          (db_do (\<lambda>w. w\<lparr>w_labels := w_labels w @ map (Pair pid) (npLabels np)\<rparr>))
      else ret ())"

definition create_tasks :: "NewPipeline \<Rightarrow> pipeline \<Rightarrow> pipeline svc" where
  "create_tasks np p =
     bind_svc (create_labels np (pID p)) (\<lambda>_.
     bind_svc (collect CreateTask (plan_tasks (pID p) (npPlan np))) (\<lambda>tasks.
     if length tasks = 0 then fail (New Internal ''no task to run'')
     else bind_svc (wrap_err Internal ''update pipline state failed''
         (SavePipeline (p\<lparr>pTotalTasks := length tasks\<rparr>))) (\<lambda>_.
       ret (p\<lparr>pTotalTasks := length tasks, pLabels := npLabels np\<rparr>))))"

definition CreateDbPipeline :: "NewPipeline \<Rightarrow> pipeline svc" where
  "CreateDbPipeline np =
     bind_svc (if npBlueprintId np > 0 then check_blueprint_idle (npBlueprintId np) else ret ()) (\<lambda>_.
     bind_svc (wrap_err Internal ''create pipeline failed'' (db (insert_pipeline np)))
       (create_tasks np))"

definition CreatePipeline :: "NewPipeline \<Rightarrow> pipeline svc" where
  "CreatePipeline np = CreateDbPipeline np"

section \<open>Queries\<close>

definition fillPipelineDetail :: "pipeline \<Rightarrow> pipeline svc" where
  "fillPipelineDetail p =
     bind_svc (wrap_err Internal ''error getting the pipeline labels from database''
       (db_get (\<lambda>w. map snd (filter (\<lambda>(i, _). i = pID p) (w_labels w)))))
     (\<lambda>labels. ret (p\<lparr>pLabels := labels\<rparr>))"

definition GetDbPipeline :: "id64 \<Rightarrow> pipeline svc" where
  "GetDbPipeline pipelineId =
     bind_svc (attempt (db_first (\<lambda>w. filter (\<lambda>p. pID p = pipelineId) (w_pipelines w)))) (\<lambda>r.
       case r of
         Inr p \<Rightarrow> fillPipelineDetail p
       | Inl e \<Rightarrow>
           if IsErrorNotFound e then fail (New NotFound ''pipeline not found'')
           else fail (newSingleCrdbError Internal (Some e) ''error getting the pipeline from database'' None))"

definition GetPipeline :: "id64 \<Rightarrow> pipeline svc" where
  "GetPipeline pipelineId = bind_svc (GetDbPipeline pipelineId) fillPipelineDetail"

record PipelineQuery =
  pqPagination :: Pagination
  pqStatus :: "status option"
  pqPending :: int
  pqBlueprintId :: id64
  pqLabel :: string

text \<open>The \<open>LEFT JOIN\<close> with the labels followed by \<open>pl.name = ?\<close> yields a pipeline once for every
  label of that name it has.\<close>

definition pipeline_rows :: "PipelineQuery \<Rightarrow> world \<Rightarrow> pipeline list" where
  "pipeline_rows q w =
     (let base = filter (\<lambda>p. (pqBlueprintId q \<noteq> 0 \<longrightarrow> pBlueprintId p = pqBlueprintId q) \<and>
            (case pqStatus q of None \<Rightarrow> True | Some s \<Rightarrow> pStatus p = s) \<and>
            (pqPending q > 0 \<longrightarrow> pFinishedAt p = None \<and> pStatus p \<in> set PendingTaskStatus)) (w_pipelines w)
      in if pqLabel q = [] then base
         else concat (map (\<lambda>p. map (\<lambda>_. p)
                (filter (\<lambda>(i, n). i = pID p \<and> n = pqLabel q) (w_labels w))) base))"

definition GetDbPipelines :: "PipelineQuery \<Rightarrow> (pipeline list \<times> nat) svc" where
  "GetDbPipelines q =
     bind_svc (db_get (\<lambda>w. length (pipeline_rows q w))) (\<lambda>count.
     bind_svc (wrap_err Default ''error getting DB count of pipelines''
       (db_get (\<lambda>w. page_rows (GetSkip (pqPagination q)) (GetPageSize (pqPagination q))
          (by_id_desc pID (pipeline_rows q w))))) (\<lambda>ps.
     bind_svc (collect fillPipelineDetail ps) (\<lambda>ps'. ret (ps', count))))"

definition GetPipelines :: "PipelineQuery \<Rightarrow> (pipeline list \<times> nat) svc" where
  "GetPipelines q =
     bind_svc (GetDbPipelines q) (\<lambda>(ps, i).
     bind_svc (collect fillPipelineDetail ps) (\<lambda>ps'. ret (ps', i)))"

section \<open>The status of a finished run\<close>

text \<open>The four counters of \<open>ComputePipelineStatus\<close>: succeeded, failed, pending, running.\<close>

record counters =
  succeeded :: nat
  failed :: nat
  pending :: nat
  running :: nat

definition count_task :: "counters \<Rightarrow> task \<Rightarrow> counters" where
  "count_task c t =
     (if tStatus t = TASK_COMPLETED then c\<lparr>succeeded := succeeded c + 1\<rparr>
      else if tStatus t = TASK_FAILED \<or> tStatus t = TASK_CANCELLED then c\<lparr>failed := failed c + 1\<rparr>
      else if tStatus t = TASK_RUNNING then c\<lparr>running := running c + 1\<rparr>
      else c\<lparr>pending := pending c + 1\<rparr>)"

definition count_tasks :: "task list \<Rightarrow> counters" where
  "count_tasks ts = foldl count_task \<lparr>succeeded = 0, failed = 0, pending = 0, running = 0\<rparr> ts"

definition ComputePipelineStatus :: "pipeline \<Rightarrow> bool \<Rightarrow> status svc" where
  "ComputePipelineStatus p isCancelled =
     bind_svc (GetLatestTasksOfPipeline p) (\<lambda>tasks.
       let c = count_tasks tasks
       in if running c > 0 \<or> (\<not> isCancelled \<and> pSkipOnFail p \<and> pending c > 0)
          then fail (New Default ''unexpected status, did you call computePipelineStatus at a wrong timing?'')
          else if failed c = 0 then ret TASK_COMPLETED
          else if pSkipOnFail p \<and> succeeded c > 0 then ret TASK_PARTIAL
          else ret TASK_FAILED)"

section \<open>Cancelling\<close>

text \<open>\<open>temporal\<close> is \<open>temporalClient.CancelWorkflow\<close> when a temporal client is configured.\<close>

definition pending_query :: "id64 \<Rightarrow> TaskQuery" where
  "pending_query pid = \<lparr>tqPagination = \<lparr>Page = 0, PageSize = -1\<rparr>, tqStatus = None, tqPlugin = [],
     tqPipelineId = pid, tqPending = 1\<rparr>"

definition CancelPipeline :: "(id64 \<Rightarrow> goerr option) option \<Rightarrow> id64 \<Rightarrow> unit svc" where
  "CancelPipeline temporal pipelineId =
     bind_svc (attempt (db_first (\<lambda>w. filter (\<lambda>p. pID p = pipelineId) (w_pipelines w)))) (\<lambda>r.
       case r of Inl _ \<Rightarrow> fail (New BadInput ''pipeline not found'')
       | Inr p \<Rightarrow>
         if pStatus p = TASK_CREATED \<or> pStatus p = TASK_RERUN then
           bind_svc (wrap_err Default ''faile to update pipeline''
             (SavePipeline (p\<lparr>pStatus := TASK_CANCELLED\<rparr>))) (\<lambda>_.
           wrap_err Default ''faile to update pipeline tasks''
             (UpdateTasks (\<lambda>t. tPipelineId t = pipelineId) (\<lambda>t. t\<lparr>tStatus := TASK_CANCELLED\<rparr>)))
         else (case temporal of
           Some cancelWorkflow \<Rightarrow>
             (case Convert (cancelWorkflow pipelineId) of None \<Rightarrow> ret () | Some e \<Rightarrow> fail e)
         | None \<Rightarrow>
             bind_svc (GetTasks (pending_query pipelineId)) (\<lambda>(pendingTasks, count).
               if count = 0 then ret ()
               else each (\<lambda>t. bind_svc (attempt (CancelTask (tID t))) (\<lambda>_. ret ())) pendingTasks)))"

section \<open>Rerunning\<close>

definition rerun_of :: "task \<Rightarrow> NewTask" where
  "rerun_of t = \<lparr>ntPlugin = tPlugin t, ntSubtasks = tSubtasks t, ntOptions = tOptions t,
     ntPipelineId = tPipelineId t, ntPipelineRow = tPipelineRow t, ntPipelineCol = tPipelineCol t,
     ntIsRerun = True\<rparr>"

definition rerun_task :: "task \<Rightarrow> task svc" where
  "rerun_task t =
     bind_svc (UpdateTasks (\<lambda>r. tID r = tID t) (\<lambda>r. r\<lparr>tStatus := TASK_FAILED\<rparr>)) (\<lambda>_.
     CreateTask (rerun_of t))"

definition tasks_to_rerun :: "id64 \<Rightarrow> task option \<Rightarrow> task list svc" where
  "tasks_to_rerun pipelineId specified =
     (case specified of
        Some t \<Rightarrow>
          if tPipelineId t \<noteq> pipelineId
          then fail (New BadInput ''the task ID and pipeline ID doesn't match'')
          else ret [t]
      | None \<Rightarrow>
          bind_svc (wrap_err Default ''error getting tasks'' (GetTasksWithLastStatus pipelineId))
            (\<lambda>tasks. ret (filter (\<lambda>t. tStatus t \<noteq> TASK_COMPLETED) tasks)))"

definition RerunPipeline :: "id64 \<Rightarrow> task option \<Rightarrow> task list svc" where
  "RerunPipeline pipelineId specified =
     bind_svc (GetPipeline pipelineId) (\<lambda>p.
     if pStatus p = TASK_RUNNING then fail (New BadInput ''pipeline is running'')
     else if pStatus p = TASK_CREATED \<or> pStatus p = TASK_RERUN
     then fail (New BadInput ''pipeline is waiting to run'')
     else
       bind_svc (tasks_to_rerun pipelineId specified) (\<lambda>failedTasks.
       if failedTasks = [] then fail (New BadInput ''no tasks to be re-ran'')
       else
         bind_svc (collect rerun_task failedTasks) (\<lambda>rerunTasks.
         bind_svc (UpdatePipelines (\<lambda>r. pID r = pipelineId) (\<lambda>r. r\<lparr>pStatus := TASK_RERUN\<rparr>)) (\<lambda>_.
         ret rerunTasks))))"

definition RerunTask :: "id64 \<Rightarrow> task svc" where
  "RerunTask taskId =
     bind_svc (GetTask taskId) (\<lambda>t.
     bind_svc (RerunPipeline (tPipelineId t) (Some t)) (\<lambda>rerunTasks.
       case rerunTasks of [] \<Rightarrow> panic (External ''index out of range'') | r # _ \<Rightarrow> ret r))"

section \<open>Creating: the tasks of the plan\<close>

lemma next_id_snoc: "next_id key (rows @ [r]) = max (Suc (key r)) (next_id key rows)"
proof -
  have "foldr (\<lambda>r m. max (key r) m) rows n = max n (foldr (\<lambda>r m. max (key r) m) rows 0)" for n
    by (induction rows) auto
  from this [of "key r"] show ?thesis by (simp add: next_id_def)
qed

lemma tID_task_of_new [simp]: "tID (task_of_new n i) = i"
  by (simp add: task_of_new_def)

lemma CreateTask_no_faults [store_simps]:
  "w_faults w = [] \<Longrightarrow> CreateTask n w =
     (let t = task_of_new n (next_id tID (w_tasks w)) in (Ok t, w\<lparr>w_tasks := w_tasks w @ [t]\<rparr>))"
  by (simp add: CreateTask_def wrap_err_def db_no_faults insert_task_def Let_def)

definition numbered :: "id64 \<Rightarrow> NewTask list \<Rightarrow> task list" where
  "numbered k ns = map (\<lambda>(i, n). task_of_new n i) (enumerate k ns)"

lemma numbered_simps [simp]:
  "numbered k [] = []"
  "numbered k (n # ns) = task_of_new n k # numbered (Suc k) ns"
  by (simp_all add: numbered_def)

lemma length_numbered [simp]: "length (numbered k ns) = length ns"
  by (simp add: numbered_def)

lemma collect_CreateTask [store_simps]:
  "w_faults w = [] \<Longrightarrow> collect CreateTask ns w =
     (Ok (numbered (next_id tID (w_tasks w)) ns),
      w\<lparr>w_tasks := w_tasks w @ numbered (next_id tID (w_tasks w)) ns\<rparr>)"
proof (induction ns arbitrary: w)
  case (Cons n ns)
  then show ?case by (simp add: bind_svc_def store_simps Let_def next_id_snoc)
qed simp

lemma insert_pipeline_parts:
  "insert_pipeline np w = (p, w') \<Longrightarrow>
     pID p = next_id pID (w_pipelines w) \<and> pBlueprintId p = npBlueprintId np \<and>
     pStatus p = TASK_CREATED \<and> pLabels p = [] \<and> w' = w\<lparr>w_pipelines := w_pipelines w @ [p]\<rparr>"
  by (auto simp: insert_pipeline_def Let_def)

lemma length_plan_tasks: "length (plan_tasks pid plan) = sum_list (map length plan)"
proof -
  have "length (plan_tasks pid plan) = (\<Sum>(i, stage) \<leftarrow> enumerate 0 plan. length stage)"
    by (simp add: plan_tasks_def length_concat stage_tasks_def comp_def case_prod_unfold)
  also have "\<dots> = sum_list (map (length \<circ> snd) (enumerate 0 plan))"
    by (simp add: comp_def case_prod_unfold)
  also have "\<dots> = sum_list (map length plan)" by (simp flip: map_map)
  finally show ?thesis .
qed

lemma update_fresh_last:
  assumes "\<And>r. r \<in> set rows \<Longrightarrow> \<not> P r" and "P x"
  shows "update_where P f (rows @ [x]) = rows @ [f x]"
  using assms by (simp add: update_where_def map_idI)

text \<open>The result of \<open>CreateDbPipeline\<close> when no call fails and no run of the blueprint is pending.\<close>

lemma CreateDbPipeline_no_faults:
  assumes nf: "w_faults w = []"
    and idle: "npBlueprintId np = 0 \<or> pending_of_blueprint (npBlueprintId np) w = []"
    and tasks: "\<exists>stage \<in> set (npPlan np). stage \<noteq> []"
  shows "\<exists>p. CreateDbPipeline np w =
     (Ok (p\<lparr>pLabels := npLabels np\<rparr>),
      w\<lparr>w_pipelines := w_pipelines w @ [p],
        w_labels := w_labels w @ map (Pair (pID p)) (npLabels np),
        w_tasks := w_tasks w @ numbered (next_id tID (w_tasks w)) (plan_tasks (pID p) (npPlan np))\<rparr>) \<and>
     pID p = next_id pID (w_pipelines w) \<and> pStatus p = TASK_CREATED \<and>
     pTotalTasks p = sum_list (map length (npPlan np)) \<and> pBlueprintId p = npBlueprintId np \<and>
     pSkipOnFail p = npSkipOnFail np"
proof -
  obtain p0 w1 where ins: "insert_pipeline np w = (p0, w1)" by (cases "insert_pipeline np w")
  note parts = insert_pipeline_parts [OF ins]
  have fresh: "\<And>r. r \<in> set (w_pipelines w) \<Longrightarrow> pID r \<noteq> pID p0"
    using parts next_id_fresh [of _ "w_pipelines w" pID] by fastforce
  define n where "n = sum_list (map length (npPlan np))"
  have n: "n \<noteq> 0" using tasks by (auto simp: n_def)
  have ne: "numbered k (plan_tasks i (npPlan np)) \<noteq> []" for k i
    using n length_plan_tasks [of i "npPlan np"] length_numbered [of k "plan_tasks i (npPlan np)"]
    unfolding n_def by (metis length_0_conv)
  define p where "p = p0\<lparr>pTotalTasks := n\<rparr>"
  have labels: "p\<lparr>pLabels := []\<rparr> = p" using parts by (simp add: p_def)
  have chk: "bind_svc (if 0 < npBlueprintId np then check_blueprint_idle (npBlueprintId np) else ret ()) f w
      = f () w" for f :: "unit \<Rightarrow> pipeline svc"
    using idle nf by (auto simp: check_blueprint_idle_def bind_svc_def wrap_err_def store_simps)
  have upd: "update_where (\<lambda>r. pID r = pID p0) (\<lambda>r. p) (w_pipelines w @ [p0]) = w_pipelines w @ [p]"
    by (rule update_fresh_last) (use fresh in auto)
  have "CreateDbPipeline np w = (Ok (p\<lparr>pLabels := npLabels np\<rparr>),
      w\<lparr>w_pipelines := w_pipelines w @ [p],
        w_labels := w_labels w @ map (Pair (pID p)) (npLabels np),
        w_tasks := w_tasks w @ numbered (next_id tID (w_tasks w)) (plan_tasks (pID p) (npPlan np))\<rparr>)"
    unfolding CreateDbPipeline_def create_tasks_def create_labels_def chk
    using parts nf n labels upd ne
    by (cases "npLabels np = []")
       (simp_all add: bind_svc_def wrap_err_def store_simps db_no_faults ins Let_def
         length_plan_tasks SavePipeline_def UpdatePipelines_def flip: n_def p_def, simp_all add: p_def)
  moreover have "pID p = next_id pID (w_pipelines w) \<and> pStatus p = TASK_CREATED \<and>
      pTotalTasks p = n \<and> pBlueprintId p = npBlueprintId np \<and> pSkipOnFail p = npSkipOnFail np"
    using ins by (auto simp: p_def insert_pipeline_def Let_def)
  ultimately show ?thesis unfolding n_def by blast
qed

lemma enumerate_conv_upt: "enumerate 0 xs = map (\<lambda>i. (i, xs ! i)) [0..<length xs]"
  by (rule nth_equalityI) (simp_all add: nth_enumerate_eq)

lemma plan_tasks_conv:
  "plan_tasks pid plan =
     [new_task_at pid i j (plan ! i ! j). i \<leftarrow> [0..<length plan], j \<leftarrow> [0..<length (plan ! i)]]"
  by (simp add: plan_tasks_def stage_tasks_def enumerate_conv_upt comp_def)

lemma map_numbered:
  "(\<And>n i. f (task_of_new n i) = g n) \<Longrightarrow> map f (numbered k ns) = map g ns"
  by (induction ns arbitrary: k) auto

lemma map_tID_numbered: "map tID (numbered k ns) = [k..<k + length ns]"
proof (induction ns arbitrary: k)
  case (Cons n ns)
  then show ?case by (simp add: upt_conv_Cons del: upt_Suc)
qed simp

abbreviation task_payload :: "task \<Rightarrow> id64 \<times> nat \<times> nat \<times> PipelineTask \<times> status" where
  "task_payload t \<equiv> (tPipelineId t, tPipelineRow t, tPipelineCol t,
     \<lparr>ptPlugin = tPlugin t, ptSubtasks = tSubtasks t, ptOptions = tOptions t\<rparr>, tStatus t)"

lemma PipelineTask_eta [simp]:
  "\<lparr>ptPlugin = ptPlugin r, ptSubtasks = ptSubtasks r, ptOptions = ptOptions r\<rparr> = (r :: PipelineTask)"
  by simp

lemma payload_numbered_plan:
  "map task_payload (numbered k (plan_tasks pid plan)) =
     [(pid, i + 1, j + 1, plan ! i ! j, TASK_CREATED).
        i \<leftarrow> [0..<length plan], j \<leftarrow> [0..<length (plan ! i)]]"
proof -
  have "map task_payload (numbered k ns) =
      map (\<lambda>n. (ntPipelineId n, ntPipelineRow n, ntPipelineCol n, \<lparr>ptPlugin = ntPlugin n,
        ptSubtasks = ntSubtasks n, ptOptions = ntOptions n\<rparr>,
        if ntIsRerun n then TASK_RERUN else TASK_CREATED)) ns" for ns
    by (rule map_numbered) (simp add: task_of_new_def)
  then show ?thesis
    by (simp add: plan_tasks_conv new_task_at_def map_concat comp_def)
qed

text \<open>C1. When no database call fails and no run of the blueprint is pending, \<open>CreatePipeline\<close>
  inserts exactly one pipeline row, waiting to run, whose total is the number of tasks of the plan,
  and for every position of the plan, in order, one task row with that position (from 1), the
  plugin, subtasks and options of the plan, and status \<open>TASK_CREATED\<close>; the new ids are distinct
  and greater than every earlier one.\<close>

theorem CreatePipeline_creates_plan:
  assumes "w_faults w = []"
    and "npBlueprintId np = 0 \<or> pending_of_blueprint (npBlueprintId np) w = []"
    and "\<exists>stage \<in> set (npPlan np). stage \<noteq> []"
  shows "\<exists>p ts row. CreatePipeline np w = (Ok p, w\<lparr>w_pipelines := w_pipelines w @ [row],
           w_labels := w_labels w @ map (Pair (pID p)) (npLabels np), w_tasks := w_tasks w @ ts\<rparr>) \<and>
     p = row\<lparr>pLabels := npLabels np\<rparr> \<and> pStatus row = TASK_CREATED \<and>
     pTotalTasks row = length ts \<and> (\<forall>r \<in> set (w_pipelines w). pID r < pID row) \<and>
     map task_payload ts = [(pID p, i + 1, j + 1, npPlan np ! i ! j, TASK_CREATED).
        i \<leftarrow> [0..<length (npPlan np)], j \<leftarrow> [0..<length (npPlan np ! i)]] \<and>
     distinct (map tID ts) \<and> (\<forall>t \<in> set (w_tasks w). \<forall>t' \<in> set ts. tID t < tID t')"
proof -
  from CreateDbPipeline_no_faults [OF assms] obtain p where
    run: "CreateDbPipeline np w = (Ok (p\<lparr>pLabels := npLabels np\<rparr>),
      w\<lparr>w_pipelines := w_pipelines w @ [p],
        w_labels := w_labels w @ map (Pair (pID p)) (npLabels np),
        w_tasks := w_tasks w @ numbered (next_id tID (w_tasks w)) (plan_tasks (pID p) (npPlan np))\<rparr>)"
    and p: "pID p = next_id pID (w_pipelines w)" "pStatus p = TASK_CREATED"
      "pTotalTasks p = sum_list (map length (npPlan np))" by blast
  define ts where "ts = numbered (next_id tID (w_tasks w)) (plan_tasks (pID p) (npPlan np))"
  have ids: "map tID ts = [next_id tID (w_tasks w)..<next_id tID (w_tasks w) + length ts]"
    by (simp add: ts_def map_tID_numbered)
  have "distinct (map tID ts)" by (simp only: ids distinct_upt)
  moreover have "\<forall>t \<in> set (w_tasks w). \<forall>t' \<in> set ts. tID t < tID t'"
  proof (intro ballI)
    fix t t' assume t: "t \<in> set (w_tasks w)" and "t' \<in> set ts"
    then have "tID t' \<in> set (map tID ts)" by simp
    then have "next_id tID (w_tasks w) \<le> tID t'" unfolding ids by simp
    with next_id_fresh [OF t, of tID] show "tID t < tID t'" by simp
  qed
  moreover have "\<forall>r \<in> set (w_pipelines w). pID r < pID p"
    using p(1) next_id_fresh [of _ "w_pipelines w" pID] by auto
  moreover have "pTotalTasks p = length ts"
    by (simp add: ts_def p(3) length_plan_tasks)
  ultimately show ?thesis
    using run p(2) payload_numbered_plan [of "next_id tID (w_tasks w)" "pID p" "npPlan np"]
    by (intro exI [of _ "p\<lparr>pLabels := npLabels np\<rparr>"] exI [of _ ts] exI [of _ p])
       (simp add: CreatePipeline_def ts_def)
qed

text \<open>A world with nothing in it, and small rows the witnesses of this theory use.\<close>

definition world0 :: world where
  "world0 = \<lparr>w_tasks = [], w_pipelines = [], w_labels = [], w_subtasks = [], w_blueprints = [],
     w_bp_labels = [], w_projects = [], w_metrics = [], w_pr_metrics = [], w_issue_metrics = [],
     w_mappings = [], w_scopes = [], w_cron = [], w_cron_on = False, w_running = [],
     w_cancelled = [], w_progress = [], w_faults = []\<rparr>"

definition np_example :: NewPipeline where
  "np_example = \<lparr>npName = ''p'', npPlan = [[\<lparr>ptPlugin = ''github'', ptSubtasks = [], ptOptions = []\<rparr>],
     [\<lparr>ptPlugin = ''dora'', ptSubtasks = [''x''], ptOptions = []\<rparr>]], npLabels = [''parallel/a''],
     npSkipOnFail = True, npBlueprintId = 1\<rparr>"

theorem CreatePipeline_creates_plan_witness:
  "\<exists>p w'. CreatePipeline np_example world0 = (Ok p, w') \<and> pTotalTasks p = 2 \<and> length (w_tasks w') = 2"
proof -
  have "w_faults world0 = []"
    and "npBlueprintId np_example = 0 \<or> pending_of_blueprint (npBlueprintId np_example) world0 = []"
    and "\<exists>stage \<in> set (npPlan np_example). stage \<noteq> []"
    by (simp_all add: world0_def np_example_def pending_of_blueprint_def)
  from CreatePipeline_creates_plan [OF this] obtain p ts row where
    run: "CreatePipeline np_example world0 = (Ok p, world0\<lparr>w_pipelines := w_pipelines world0 @ [row],
        w_labels := w_labels world0 @ map (Pair (pID p)) (npLabels np_example),
        w_tasks := w_tasks world0 @ ts\<rparr>)"
    and p: "p = row\<lparr>pLabels := npLabels np_example\<rparr>" "pTotalTasks row = length ts"
    and ts: "map task_payload ts = [(pID p, i + 1, j + 1, npPlan np_example ! i ! j, TASK_CREATED).
        i \<leftarrow> [0..<length (npPlan np_example)], j \<leftarrow> [0..<length (npPlan np_example ! i)]]"
    by blast
  have "length ts = 2" using arg_cong [OF ts, of length] by (simp add: np_example_def upt_rec)
  with run p show ?thesis by (simp add: world0_def)
qed

section \<open>At most one pending run of a blueprint\<close>

definition one_pending :: "world \<Rightarrow> bool" where
  "one_pending w \<longleftrightarrow> (\<forall>bid > 0. length (pending_of_blueprint bid w) \<le> 1)"

lemma pending_of_blueprint_cong: "w_pipelines w = w_pipelines w' \<Longrightarrow>
    pending_of_blueprint bid w = pending_of_blueprint bid w'"
  by (simp add: pending_of_blueprint_def)

text \<open>What the rest of \<open>CreateDbPipeline\<close> maintains once the row \<open>p\<close> is in the table.\<close>

definition one_pending_with :: "pipeline \<Rightarrow> world \<Rightarrow> bool" where
  "one_pending_with p w \<longleftrightarrow> one_pending w \<and> (\<forall>r \<in> set (w_pipelines w).
     pID r = pID p \<longrightarrow> pBlueprintId r = pBlueprintId p \<and> pStatus r = pStatus p)"

lemma one_pending_blind: "fault_blind one_pending" "fault_blind (one_pending_with p)"
  by (simp_all add: fault_blind_def one_pending_def one_pending_with_def pending_of_blueprint_def)

lemma one_pending_with_other:
  "one_pending_with p w \<Longrightarrow> one_pending_with p (w\<lparr>w_tasks := ts\<rparr>)"
  "one_pending_with p w \<Longrightarrow> one_pending_with p (w\<lparr>w_labels := ls\<rparr>)"
  by (simp_all add: one_pending_def one_pending_with_def pending_of_blueprint_def)

lemma CreateTask_keeps: "fault_blind I \<Longrightarrow> (\<And>w ts. I w \<Longrightarrow> I (w\<lparr>w_tasks := ts\<rparr>)) \<Longrightarrow> keeps I (CreateTask n)"
  unfolding CreateTask_def
  by (auto intro!: keeps_wrap keeps_db simp: insert_task_def Let_def fault_blind_def)

lemma pending_update_same:
  assumes "\<And>r. r \<in> set rows \<Longrightarrow> P r \<Longrightarrow> pBlueprintId (f r) = pBlueprintId r \<and> pStatus (f r) = pStatus r"
  shows "length (filter (\<lambda>p. pBlueprintId p = bid \<and> pStatus p \<in> S) (update_where P f rows)) =
    length (filter (\<lambda>p. pBlueprintId p = bid \<and> pStatus p \<in> S) rows)"
  using assms by (induction rows) auto

lemma SavePipeline_keeps_one_pending:
  "pID p' = pID p \<Longrightarrow> pBlueprintId p' = pBlueprintId p \<Longrightarrow> pStatus p' = pStatus p \<Longrightarrow>
    keeps (one_pending_with p) (SavePipeline p')"
  unfolding SavePipeline_def UpdatePipelines_def
proof (rule keeps_db_do [OF one_pending_blind(2)])
  fix w assume eq: "pID p' = pID p" "pBlueprintId p' = pBlueprintId p" "pStatus p' = pStatus p"
    and I: "one_pending_with p w"
  from I eq have "length (filter (\<lambda>r. pBlueprintId r = bid \<and> pStatus r \<in> set PendingTaskStatus)
        (update_where (\<lambda>r. pID r = pID p') (\<lambda>r. p'\<lparr>pLabels := []\<rparr>) (w_pipelines w))) =
      length (pending_of_blueprint bid w)" for bid
    unfolding pending_of_blueprint_def
    by (intro pending_update_same) (auto simp: one_pending_with_def)
  with I eq show "one_pending_with p (w\<lparr>w_pipelines :=
      update_where (\<lambda>r. pID r = pID p') (\<lambda>r. p'\<lparr>pLabels := []\<rparr>) (w_pipelines w)\<rparr>)"
    by (auto simp: one_pending_with_def one_pending_def pending_of_blueprint_def set_update_where)
qed

lemma check_blueprint_idle_result:
  assumes "check_blueprint_idle bid w = (r, w')"
  shows "w_pipelines w' = w_pipelines w" and "r = Ok () \<Longrightarrow> pending_of_blueprint bid w = []"
proof -
  have "keeps (\<lambda>v. w_pipelines v = w_pipelines w) (check_blueprint_idle bid)"
  proof -
    have bl: "fault_blind (\<lambda>v. w_pipelines v = w_pipelines w)" by (simp add: fault_blind_def)
    have "keeps (\<lambda>v. w_pipelines v = w_pipelines w) (fetch_pending a b ps)" for a b ps
      by (induction ps arbitrary: b) (auto intro!: keeps_rules bl)
    then show ?thesis
      unfolding check_blueprint_idle_def by (auto intro!: keeps_rules bl)
  qed
  from keepsE [OF this assms] show same: "w_pipelines w' = w_pipelines w" by simp
  show "r = Ok () \<Longrightarrow> pending_of_blueprint bid w = []"
    using assms unfolding check_blueprint_idle_def
    by (auto simp: bind_svc_def wrap_err_def db_get_def db_def pending_of_blueprint_def
        split: prod.splits result.splits if_splits list.splits option.splits)
qed

lemma one_pending_insert:
  assumes "one_pending w" "insert_pipeline np w = (p, w')"
    and "npBlueprintId np > 0 \<Longrightarrow> pending_of_blueprint (npBlueprintId np) w = []"
  shows "one_pending_with p w'"
proof -
  note parts = insert_pipeline_parts [OF assms(2)]
  have "length (pending_of_blueprint bid w') \<le> 1" if "bid > 0" for bid
    using assms(1,3) parts that by (auto simp: one_pending_def pending_of_blueprint_def)
  moreover have "pID r \<noteq> pID p" if "r \<in> set (w_pipelines w)" for r
    using parts next_id_fresh [OF that, of pID] by auto
  ultimately show ?thesis
    using parts by (auto simp: one_pending_with_def one_pending_def)
qed

lemma after_insert_keeps:
  assumes "keeps (one_pending_with p) m"
  shows "one_pending_with p w \<Longrightarrow> one_pending (snd (m w))"
  by (drule keepsD [OF assms]) (simp add: one_pending_with_def)

lemma create_labels_keeps: "keeps (one_pending_with p) (create_labels np i)"
  unfolding create_labels_def
  by (rule keeps_if [OF keeps_wrap [OF keeps_db_do [OF one_pending_blind(2)]] keeps_ret])
    (erule one_pending_with_other(2))

lemma create_tasks_keeps: "keeps (one_pending_with p) (create_tasks np p)"
proof -
  have tasks: "keeps (one_pending_with p) (collect CreateTask ns)" for ns
    by (rule keeps_collect, rule CreateTask_keeps [OF one_pending_blind(2)])
      (erule one_pending_with_other(1))
  have "keeps (one_pending_with p) (SavePipeline (p\<lparr>pTotalTasks := n\<rparr>))" for n
    by (rule SavePipeline_keeps_one_pending) simp_all
  then show ?thesis
    unfolding create_tasks_def
    by (intro keeps_bind create_labels_keeps tasks keeps_if keeps_fail keeps_wrap keeps_ret)
qed

text \<open>At most one pipeline of a blueprint is pending (created, to rerun, or running):
  \<open>CreatePipeline\<close> keeps this for every blueprint, whichever of its database calls fail and
  whether it returns a pipeline or an error.\<close>

theorem CreatePipeline_keeps_one_pending:
  "one_pending w \<Longrightarrow> one_pending (snd (CreatePipeline np w))"
proof -
  assume I: "one_pending w"
  let ?chk = "if npBlueprintId np > 0 then check_blueprint_idle (npBlueprintId np) else ret ()"
  have body: "keeps (one_pending_with p) (create_tasks np p)" for p by (rule create_tasks_keeps)
  obtain r w1 where chk: "?chk w = (r, w1)" by (cases "?chk w")
  have w1: "w_pipelines w1 = w_pipelines w"
    using chk check_blueprint_idle_result(1) by (auto split: if_splits)
  then have I1: "one_pending w1" using I by (simp add: one_pending_def pending_of_blueprint_def)
  show ?thesis
  proof (cases r)
    case (Ok u)
    have idle: "npBlueprintId np > 0 \<Longrightarrow> pending_of_blueprint (npBlueprintId np) v = []"
      if "w_pipelines v = w_pipelines w" for v
      using chk Ok that check_blueprint_idle_result(2) [of "npBlueprintId np" w r w1]
      by (simp add: pending_of_blueprint_def)
    obtain q w2 where ins: "db (insert_pipeline np) w1 = (q, w2)" by (cases "db (insert_pipeline np) w1")
    have "(\<exists>p. q = Ok p \<and> one_pending_with p w2) \<or> (\<exists>e. q = Err e \<and> one_pending w2)"
    proof -
      have ins_ok: "one_pending_with p w2"
        if "insert_pipeline np v = (p, w2)" "w_pipelines v = w_pipelines w" for p v
        using that I idle by (intro one_pending_insert [of v np])
          (auto simp: one_pending_def pending_of_blueprint_def)
      have "one_pending (w1\<lparr>w_faults := fs\<rparr>)" for fs
        using I1 one_pending_blind(1) by (simp add: fault_blind_def)
      with ins ins_ok w1 show ?thesis
        by (auto simp: db_def split: list.splits option.splits prod.splits)
    qed
    then have "one_pending (snd (bind_svc (wrap_err Internal ''create pipeline failed''
        (db (insert_pipeline np))) (create_tasks np) w1))"
      using ins after_insert_keeps [OF body] by (auto simp: bind_svc_def wrap_err_def)
    then show ?thesis
      unfolding CreatePipeline_def CreateDbPipeline_def
      by (subst bind_Ok [where m = ?chk and w' = w1 and x = u]) (simp_all add: chk Ok)
  next
    case (Err e)
    with chk I1 show ?thesis
      unfolding CreatePipeline_def CreateDbPipeline_def
      by (subst bind_Err [where m = ?chk and w' = w1 and e = e]) simp_all
  next
    case (Panic e)
    with chk I1 show ?thesis
      unfolding CreatePipeline_def CreateDbPipeline_def bind_svc_def [of ?chk] by simp
  qed
qed

theorem CreatePipeline_keeps_one_pending_witness:
  "one_pending (snd (CreatePipeline np_example world0)) \<and> one_pending world0"
proof -
  have "one_pending world0" by (simp add: one_pending_def world0_def pending_of_blueprint_def)
  with CreatePipeline_keeps_one_pending [OF this, of np_example] show ?thesis by simp
qed

end
