(* ===== verification/PipelineFacts.thy ===== *)
theory PipelineFacts
  imports PipelineService
begin

text \<open>
  What the pipeline service promises beyond creation: which tasks of a pipeline count (the latest
  of every position), the status computed from them, cancelling, and rerunning.
\<close>

section \<open>The latest task of every position\<close>

text \<open>The specification of \<open>GetLatestTasksOfPipeline\<close>: the tasks of the pipeline that no later task
  of the same position replaced.\<close>

definition latest_tasks :: "id64 \<Rightarrow> world \<Rightarrow> task set" where
  "latest_tasks pid w = {t \<in> set (w_tasks w). tPipelineId t = pid \<and>
     (\<forall>t' \<in> set (w_tasks w). tPipelineId t' = pid \<and> tPipelineRow t' = tPipelineRow t \<and>
        tPipelineCol t' = tPipelineCol t \<longrightarrow> tID t' \<le> tID t)}"

lemma latest_dedup:
  assumes "distinct (map tID (w_tasks w))"
  shows "set (dedup_on (\<lambda>t. (tPipelineRow t, tPipelineCol t)) [] (pipeline_tasks_desc pid w)) =
    latest_tasks pid w" (is "set ?ds = _")
proof (intro set_eqI iffI)
  let ?k = "\<lambda>t. (tPipelineRow t, tPipelineCol t)"
  let ?xs = "pipeline_tasks_desc pid w"
  have xs: "t \<in> set ?xs \<longleftrightarrow> t \<in> set (w_tasks w) \<and> tPipelineId t = pid" for t
    by (simp add: pipeline_tasks_desc_def)
  have srt: "sorted_wrt (\<lambda>a b. tID b \<le> tID a) ?xs"
    unfolding pipeline_tasks_desc_def by (rule sorted_by_id_desc)
  have below: "tID y \<le> tID x" if "x \<in> set ?ds" "y \<in> set ?xs" "?k y = ?k x" for x y
    using dedup_on_greatest [OF srt that(1,2)] that(3) by simp
  {
    fix t assume t: "t \<in> set ?ds"
    then have "t \<in> set ?xs" using set_dedup_on_subset by fastforce
    with below [OF t] show "t \<in> latest_tasks pid w"
      by (auto simp: latest_tasks_def xs)
  next
    fix t assume t: "t \<in> latest_tasks pid w"
    then have "t \<in> set ?xs" by (simp add: latest_tasks_def xs)
    then have "?k t \<in> ?k ` set ?ds" by (simp only: dedup_on_keys) auto
    then obtain d where d: "d \<in> set ?ds" "?k d = ?k t" by (metis (no_types, lifting) imageE)
    then have dx: "d \<in> set ?xs" using set_dedup_on_subset by fastforce
    have "tID t \<le> tID d" using below [OF d(1) \<open>t \<in> set ?xs\<close>] d(2) by simp
    moreover have "tID d \<le> tID t" using t dx d(2) by (auto simp: latest_tasks_def xs)
    ultimately have "tID d = tID t" by simp
    moreover have "d \<in> set (w_tasks w)" "t \<in> set (w_tasks w)" using dx \<open>t \<in> set ?xs\<close> xs by auto
    ultimately have "d = t" using assms by (auto simp: distinct_map dest: inj_onD)
    with d(1) show "t \<in> set ?ds" by simp
  }
qed

text \<open>The tasks a pipeline's status is computed from are the latest of each position: when no
  call fails, \<open>GetLatestTasksOfPipeline\<close> returns exactly the tasks of the pipeline that no task of
  the same row and column with a greater id replaced, one for every occupied position.\<close>

theorem GetLatestTasks_latest:
  assumes "w_faults w = []" and "distinct (map tID (w_tasks w))"
  shows "\<exists>ts. GetLatestTasksOfPipeline p w = (Ok ts, w) \<and> set ts = latest_tasks (pID p) w \<and>
    distinct (map (\<lambda>t. (tPipelineRow t, tPipelineCol t)) ts) \<and>
    (\<lambda>t. (tPipelineRow t, tPipelineCol t)) ` set ts =
      (\<lambda>t. (tPipelineRow t, tPipelineCol t)) ` {t \<in> set (w_tasks w). tPipelineId t = pID p}"
proof -
  have "set (pipeline_tasks_desc (pID p) w) = {t \<in> set (w_tasks w). tPipelineId t = pID p}"
    by (auto simp: pipeline_tasks_desc_def)
  then show ?thesis
    using assms by (simp add: GetLatest_no_faults latest_dedup distinct_dedup_on dedup_on_keys
      flip: latest_dedup)
qed

definition task_example :: "id64 \<Rightarrow> nat \<Rightarrow> status \<Rightarrow> task" where
  "task_example i col s = (task_of_new \<lparr>ntPlugin = ''github'', ntSubtasks = [], ntOptions = [],
     ntPipelineId = 7, ntPipelineRow = 1, ntPipelineCol = col, ntIsRerun = False\<rparr> i)\<lparr>tStatus := s\<rparr>"

text \<open>A pipeline 7 with two tasks, the second of which was rerun with success.\<close>

definition pipeline_example :: "status \<Rightarrow> pipeline" where
  "pipeline_example s = \<lparr>pID = 7, pName = ''p'', pBlueprintId = 1, pTotalTasks = 2,
     pFinishedTasks = 0, pBeganAt = None, pFinishedAt = None, pStatus = s, pMessage = [],
     pErrorName = [], pSpentSeconds = 0, pStage = 0, pLabels = [], pSkipOnFail = True\<rparr>"

definition world_example :: world where
  "world_example = world0\<lparr>w_pipelines := [pipeline_example TASK_PARTIAL],
     w_tasks := [task_example 1 1 TASK_FAILED, task_example 2 2 TASK_FAILED,
       task_example 3 2 TASK_COMPLETED]\<rparr>"

lemma task_example_simps [simp]:
  "tID (task_example i c s) = i" "tStatus (task_example i c s) = s"
  "tPipelineId (task_example i c s) = 7" "tPipelineRow (task_example i c s) = 1"
  "tPipelineCol (task_example i c s) = c" "tSubtasks (task_example i c s) = []"
  "tOptions (task_example i c s) = []" "tPlugin (task_example i c s) = ''github''"
  by (simp_all add: task_example_def task_of_new_def)

lemma world_example_simps [simp]:
  "w_faults world_example = []" "distinct (map tID (w_tasks world_example))"
  by (simp_all add: world_example_def world0_def)

lemma latest_example:
  "latest_tasks 7 world_example = {task_example 1 1 TASK_FAILED, task_example 3 2 TASK_COMPLETED}"
  by (auto simp: latest_tasks_def world_example_def)

theorem GetLatestTasks_latest_witness:
  "\<exists>ts. GetLatestTasksOfPipeline (pipeline_example TASK_PARTIAL) world_example = (Ok ts, world_example) \<and>
     set ts = {task_example 1 1 TASK_FAILED, task_example 3 2 TASK_COMPLETED}"
  using GetLatestTasks_latest [of world_example "pipeline_example TASK_PARTIAL"] latest_example
  by (auto simp: pipeline_example_def)

lemma position_index_inj:
  assumes "1 \<le> c" "c \<le> m" "1 \<le> c'" "c' \<le> m"
  shows "(r * m + c = r' * m + c') = (r = r' \<and> c = (c' :: nat))"
proof
  assume eq: "r * m + c = r' * m + c'"
  obtain a where a: "c = Suc a" "a < m" using assms(1,2) by (cases c) auto
  obtain b where b: "c' = Suc b" "b < m" using assms(3,4) by (cases c') auto
  have "(a + r * m) div m = (b + r' * m) div m" using eq a b by (simp add: add.commute)
  with a b have "r = r'" by simp
  with eq show "r = r' \<and> c = c'" by simp
qed simp

lemma last_status_keys:
  assumes "\<forall>t \<in> set (w_tasks w). tPipelineId t = pid \<longrightarrow> 1 \<le> tPipelineCol t"
  shows "dedup_on (\<lambda>t. tPipelineRow t * foldr (\<lambda>t m. max (tPipelineCol t) m) (pipeline_tasks_desc pid w) 0 +
      tPipelineCol t) [] (pipeline_tasks_desc pid w) =
    dedup_on (\<lambda>t. (tPipelineRow t, tPipelineCol t)) [] (pipeline_tasks_desc pid w)"
proof (rule dedup_on_cong [where A = "set (pipeline_tasks_desc pid w)" and S = "{}"])
  let ?xs = "pipeline_tasks_desc pid w"
  let ?m = "foldr (\<lambda>t m. max (tPipelineCol t) m) ?xs 0"
  have le: "tPipelineCol t \<le> foldr (\<lambda>t m. max (tPipelineCol t) m) ts 0" if "t \<in> set ts" for t ts
    using that by (induction ts) (auto simp: le_max_iff_disj)
  fix x y assume x: "x \<in> set ?xs" and y: "y \<in> set ?xs"
  then have "1 \<le> tPipelineCol x" "1 \<le> tPipelineCol y"
    using assms by (auto simp: pipeline_tasks_desc_def)
  with le [OF x] le [OF y]
  show "(tPipelineRow x * ?m + tPipelineCol x = tPipelineRow y * ?m + tPipelineCol y) =
      ((tPipelineRow x, tPipelineCol x) = (tPipelineRow y, tPipelineCol y))"
    by (simp add: position_index_inj)
qed simp_all

text \<open>\<open>GetTasksWithLastStatus\<close>, which keys the tasks by \<open>row * maxCol + col\<close>, returns the same
  tasks in the same order as \<open>GetLatestTasksOfPipeline\<close>, with the progress of the running ones
  filled in, provided columns count from 1 as \<open>CreateDbPipeline\<close> numbers them.\<close>

theorem GetTasksWithLastStatus_eq_latest:
  assumes "w_faults w = []"
    and "\<forall>t \<in> set (w_tasks w). tPipelineId t = pID p \<longrightarrow> 1 \<le> tPipelineCol t"
  shows "\<exists>ts. GetLatestTasksOfPipeline p w = (Ok ts, w) \<and>
    GetTasksWithLastStatus (pID p) w = (Ok (FillProgressDetailToTasks ts w), w)"
  using assms last_status_keys [OF assms(2)]
  by (simp add: GetLatest_no_faults GetTasksWithLastStatus_def bind_svc_def store_simps Let_def)

theorem GetTasksWithLastStatus_eq_latest_witness:
  "\<exists>ts. GetTasksWithLastStatus 7 world_example = (Ok ts, world_example)"
proof -
  have "\<forall>t \<in> set (w_tasks world_example). tPipelineId t = pID (pipeline_example TASK_PARTIAL) \<longrightarrow>
      1 \<le> tPipelineCol t"
    by (simp add: world_example_def)
  from GetTasksWithLastStatus_eq_latest [OF world_example_simps(1) this] show ?thesis
    by (auto simp: pipeline_example_def)
qed

section \<open>The status of a finished run\<close>

lemma foldl_count:
  "foldl count_task c ts = \<lparr>succeeded = succeeded c + length (filter (\<lambda>t. tStatus t = TASK_COMPLETED) ts),
     failed = failed c + length (filter (\<lambda>t. tStatus t = TASK_FAILED \<or> tStatus t = TASK_CANCELLED) ts),
     pending = pending c + length (filter (\<lambda>t. tStatus t \<in> {TASK_CREATED, TASK_RERUN, TASK_PARTIAL}) ts),
     running = running c + length (filter (\<lambda>t. tStatus t = TASK_RUNNING) ts)\<rparr>"
proof (induction ts arbitrary: c)
  case (Cons t ts)
  then show ?case by (cases "tStatus t") (simp_all add: count_task_def)
qed simp

text \<open>\<open>ComputePipelineStatus\<close>, when no call fails, judges the latest tasks of the pipeline and
  changes nothing: it refuses a run with a task still running, or, with \<open>SkipOnFail\<close> and no
  cancellation, a task still to run; otherwise the run is completed exactly if no latest task failed or was
  cancelled, partial exactly if one did, \<open>SkipOnFail\<close> is set and another completed, failed otherwise.\<close>

theorem ComputePipelineStatus_judges_latest:
  assumes "w_faults w = []" and "distinct (map tID (w_tasks w))"
  shows "ComputePipelineStatus p cancelled w =
    (let S = tStatus ` latest_tasks (pID p) w
     in if TASK_RUNNING \<in> S \<or>
           (\<not> cancelled \<and> pSkipOnFail p \<and> S \<inter> {TASK_CREATED, TASK_RERUN, TASK_PARTIAL} \<noteq> {})
        then Err (New Default ''unexpected status, did you call computePipelineStatus at a wrong timing?'')
        else if S \<inter> {TASK_FAILED, TASK_CANCELLED} = {} then Ok TASK_COMPLETED
        else if pSkipOnFail p \<and> TASK_COMPLETED \<in> S then Ok TASK_PARTIAL
        else Ok TASK_FAILED, w)"
proof -
  define ts where "ts = dedup_on (\<lambda>t. (tPipelineRow t, tPipelineCol t)) [] (pipeline_tasks_desc (pID p) w)"
  have S: "tStatus ` latest_tasks (pID p) w = tStatus ` set ts"
    using assms(2) by (simp add: ts_def latest_dedup)
  have c: "count_tasks ts = \<lparr>succeeded = length (filter (\<lambda>t. tStatus t = TASK_COMPLETED) ts),
     failed = length (filter (\<lambda>t. tStatus t = TASK_FAILED \<or> tStatus t = TASK_CANCELLED) ts),
     pending = length (filter (\<lambda>t. tStatus t \<in> {TASK_CREATED, TASK_RERUN, TASK_PARTIAL}) ts),
     running = length (filter (\<lambda>t. tStatus t = TASK_RUNNING) ts)\<rparr>"
    by (simp add: count_tasks_def foldl_count)
  have pos: "0 < length (filter P ts) \<longleftrightarrow> (\<exists>t \<in> set ts. P t)" for P
    by (simp add: filter_empty_conv)
  have zero: "length (filter P ts) = 0 \<longleftrightarrow> (\<forall>t \<in> set ts. \<not> P t)" for P
    by (simp add: filter_empty_conv)
  have run: "TASK_RUNNING \<in> tStatus ` set ts \<longleftrightarrow> (\<exists>t \<in> set ts. tStatus t = TASK_RUNNING)"
    and ok: "TASK_COMPLETED \<in> tStatus ` set ts \<longleftrightarrow> (\<exists>t \<in> set ts. tStatus t = TASK_COMPLETED)"
    and pend: "tStatus ` set ts \<inter> {TASK_CREATED, TASK_RERUN, TASK_PARTIAL} \<noteq> {} \<longleftrightarrow>
      (\<exists>t \<in> set ts. tStatus t \<in> {TASK_CREATED, TASK_RERUN, TASK_PARTIAL})"
    and bad: "tStatus ` set ts \<inter> {TASK_FAILED, TASK_CANCELLED} = {} \<longleftrightarrow>
      (\<forall>t \<in> set ts. \<not> (tStatus t = TASK_FAILED \<or> tStatus t = TASK_CANCELLED))"
    by force+
  show ?thesis
    unfolding ComputePipelineStatus_def S
    by (simp only: bind_svc_def GetLatest_no_faults [OF assms(1)] flip: ts_def)
      (simp only: c Let_def counters.select_convs pos zero run ok pend bad prod.case result.case
        ret_simp fail_simp if_distrib [where f = "\<lambda>x. (x, w)"] if_distrib [where f = "\<lambda>f. f w"])
qed

theorem ComputePipelineStatus_judges_latest_witness:
  "fst (ComputePipelineStatus (pipeline_example TASK_RUNNING) False world_example) = Ok TASK_PARTIAL"
  using ComputePipelineStatus_judges_latest [OF world_example_simps, of "pipeline_example TASK_RUNNING" False]
  by (simp add: latest_example pipeline_example_def)

section \<open>Cancelling a pipeline that waits\<close>

text \<open>Cancelling a pipeline that waits to run, when no call fails, marks its row and every task of it
  cancelled and leaves the other pipelines and tasks, the running tasks and the labels alone.\<close>

theorem CancelPipeline_waiting:
  assumes "w_faults w = []" and "p \<in> set (w_pipelines w)" and "distinct (map pID (w_pipelines w))"
    and "pStatus p = TASK_CREATED \<or> pStatus p = TASK_RERUN"
  shows "CancelPipeline temporal (pID p) w = (Ok (), w\<lparr>
    w_pipelines := map (\<lambda>r. if pID r = pID p then p\<lparr>pStatus := TASK_CANCELLED, pLabels := []\<rparr> else r) (w_pipelines w),
    w_tasks := map (\<lambda>t. if tPipelineId t = pID p then t\<lparr>tStatus := TASK_CANCELLED\<rparr> else t) (w_tasks w)\<rparr>)"
proof -
  have "filter (\<lambda>r. pID r = pID p) (w_pipelines w) = [p]"
    using assms(2,3) by (rule filter_key_unique)
  with assms(1,4) show ?thesis
    by (simp add: CancelPipeline_def bind_svc_def attempt_def wrap_err_def store_simps SavePipeline_def
        UpdatePipelines_def UpdateTasks_def update_where_def)
qed

theorem CancelPipeline_waiting_witness:
  "fst (CancelPipeline None 7 (world_example\<lparr>w_pipelines := [pipeline_example TASK_RERUN]\<rparr>)) = Ok () \<and>
   map tStatus (w_tasks (snd (CancelPipeline None 7
     (world_example\<lparr>w_pipelines := [pipeline_example TASK_RERUN]\<rparr>)))) = replicate 3 TASK_CANCELLED"
  using CancelPipeline_waiting [of "world_example\<lparr>w_pipelines := [pipeline_example TASK_RERUN]\<rparr>"
    "pipeline_example TASK_RERUN" None]
  by (simp add: pipeline_example_def world_example_def world0_def numeral_3_eq_3)

section \<open>A plan without tasks\<close>

text \<open>\<open>CreatePipeline\<close> refuses a plan without tasks, but after inserting the pipeline row and its
  labels: when no call fails and the blueprint is idle, the refused pipeline stays in the table, waiting to run, and
  until it leaves that state the blueprint counts as running.\<close>

theorem CreatePipeline_no_task_leaves_row:
  assumes "w_faults w = []"
    and "npBlueprintId np = 0 \<or> pending_of_blueprint (npBlueprintId np) w = []"
    and "\<forall>stage \<in> set (npPlan np). stage = []"
  shows "\<exists>row. pStatus row = TASK_CREATED \<and> pBlueprintId row = npBlueprintId np \<and>
    CreatePipeline np w = (Err (New Internal ''no task to run''),
      w\<lparr>w_pipelines := w_pipelines w @ [row],
        w_labels := w_labels w @ map (Pair (pID row)) (npLabels np)\<rparr>) \<and>
    row \<in> set (pending_of_blueprint (npBlueprintId np) (snd (CreatePipeline np w)))"
proof -
  obtain p w1 where ins: "insert_pipeline np w = (p, w1)" by (cases "insert_pipeline np w")
  note parts = insert_pipeline_parts [OF ins]
  have none: "plan_tasks i (npPlan np) = []" for i
  proof -
    have "sum_list (map length (npPlan np)) = 0" using assms(3) by simp
    then show ?thesis using length_plan_tasks [of i "npPlan np"] by (metis length_0_conv)
  qed
  have chk: "(if 0 < npBlueprintId np then check_blueprint_idle (npBlueprintId np) else ret ()) w = (Ok (), w)"
    using assms(1,2) by (auto simp: check_blueprint_idle_def bind_svc_def wrap_err_def store_simps)
  have "CreatePipeline np w = (Err (New Internal ''no task to run''),
      w\<lparr>w_pipelines := w_pipelines w @ [p], w_labels := w_labels w @ map (Pair (pID p)) (npLabels np)\<rparr>)"
    unfolding CreatePipeline_def CreateDbPipeline_def create_tasks_def create_labels_def none
    using parts assms(1)
    by (subst bind_Ok [where m = "if 0 < npBlueprintId np then check_blueprint_idle (npBlueprintId np) else ret ()"
          and w' = w and x = "()", OF chk])
      (cases "npLabels np = []"; simp add: bind_svc_def wrap_err_def store_simps db_no_faults ins)
  then show ?thesis
    using parts by (intro exI [of _ p]) (simp add: pending_of_blueprint_def PendingTaskStatus_def)
qed

theorem CreatePipeline_no_task_leaves_row_witness:
  "\<exists>e w'. CreatePipeline (np_example\<lparr>npPlan := [[]]\<rparr>) world0 = (Err e, w') \<and> length (w_pipelines w') = 1"
proof -
  have "\<forall>stage \<in> set (npPlan (np_example\<lparr>npPlan := [[]]\<rparr>)). stage = []" by simp
  from CreatePipeline_no_task_leaves_row [OF _ _ this, of world0] show ?thesis
    by (auto simp: world0_def pending_of_blueprint_def)
qed

section \<open>Rerunning\<close>

lemma next_id_update_where [simp]: "(\<And>r. key (f r) = key r) \<Longrightarrow> next_id key (update_where P f rows) = next_id key rows"
  unfolding next_id_def update_where_def foldr_map
  by (simp add: comp_def if_distrib [of key] cong: if_cong)

lemma update_where_none [simp]: "(\<And>r. r \<in> set rows \<Longrightarrow> \<not> P r) \<Longrightarrow> update_where P f rows = rows"
  by (simp add: update_where_def map_idI)

lemma update_where_twice:
  "(\<And>r. f (f r) = f r) \<Longrightarrow> (\<And>r. Q (f r) = Q r) \<Longrightarrow>
    update_where Q f (update_where P f rows) = update_where (\<lambda>r. P r \<or> Q r) f rows"
  by (auto simp: update_where_def)

lemma collect_rerun_task:
  assumes "w_faults w = []" and "\<forall>t \<in> set ts. tID t < next_id tID (w_tasks w)"
  shows "collect rerun_task ts w =
    (Ok (numbered (next_id tID (w_tasks w)) (map rerun_of ts)),
     w\<lparr>w_tasks := update_where (\<lambda>r. tID r \<in> tID ` set ts) (\<lambda>r. r\<lparr>tStatus := TASK_FAILED\<rparr>) (w_tasks w) @
        numbered (next_id tID (w_tasks w)) (map rerun_of ts)\<rparr>)"
  using assms
proof (induction ts arbitrary: w)
  case (Cons t ts)
  let ?fl = "\<lambda>r. r\<lparr>tStatus := TASK_FAILED\<rparr>"
  let ?k = "next_id tID (w_tasks w)"
  let ?w1 = "w\<lparr>w_tasks := update_where (\<lambda>r. tID r = tID t) ?fl (w_tasks w) @ [task_of_new (rerun_of t) ?k]\<rparr>"
  have step: "rerun_task t w = (Ok (task_of_new (rerun_of t) ?k), ?w1)"
    using Cons.prems
    by (simp add: rerun_task_def UpdateTasks_def bind_svc_def store_simps Let_def)
  have k: "next_id tID (w_tasks ?w1) = Suc ?k" by (simp add: next_id_snoc)
  have "\<forall>x \<in> set ts. tID x < next_id tID (w_tasks ?w1)"
    using Cons.prems(2) unfolding k by auto
  moreover have "w_faults ?w1 = []" using Cons.prems(1) by simp
  ultimately have rest: "collect rerun_task ts ?w1 =
      (Ok (numbered (Suc ?k) (map rerun_of ts)), ?w1\<lparr>w_tasks :=
        update_where (\<lambda>r. tID r \<in> tID ` set ts) ?fl (w_tasks ?w1) @ numbered (Suc ?k) (map rerun_of ts)\<rparr>)"
    using Cons.IH [of ?w1] unfolding k by blast
  have "?k \<notin> tID ` set ts" using Cons.prems(2) by auto
  then have upd: "update_where (\<lambda>r. tID r \<in> tID ` set ts) ?fl (w_tasks ?w1) =
      update_where (\<lambda>r. tID r \<in> tID ` set (t # ts)) ?fl (w_tasks w) @ [task_of_new (rerun_of t) ?k]"
    by (simp add: update_where_twice)
  show ?case
    using rest upd by (simp add: bind_svc_def step)
qed simp

lemma in_numbered: "t \<in> set (numbered k ns) \<longleftrightarrow> (\<exists>i < length ns. t = task_of_new (ns ! i) (k + i))"
proof -
  have "numbered k ns ! i = task_of_new (ns ! i) (k + i)" if "i < length ns" for i
    using that by (simp add: numbered_def nth_enumerate_eq)
  then show ?thesis by (auto simp: in_set_conv_nth)
qed

lemma in_numbered_map:
  "t \<in> set (numbered k (map f xs)) \<longleftrightarrow> (\<exists>i < length xs. t = task_of_new (f (xs ! i)) (k + i))"
  by (simp add: in_numbered cong: conj_cong)

text \<open>The identity of a task's work: its position and what is to be run there.\<close>

abbreviation task_work :: "task \<Rightarrow> nat \<times> nat \<times> PipelineTask" where
  "task_work t \<equiv> (tPipelineRow t, tPipelineCol t,
     \<lparr>ptPlugin = tPlugin t, ptSubtasks = tSubtasks t, ptOptions = tOptions t\<rparr>)"

lemma rerun_of_fill [simp]: "map rerun_of (FillProgressDetailToTasks ts w) = map rerun_of ts"
  by (simp add: FillProgressDetailToTasks_def rerun_of_def split: option.split)

lemma filter_fill: "filter (\<lambda>t. tStatus t \<noteq> TASK_COMPLETED) (FillProgressDetailToTasks ts w) =
    FillProgressDetailToTasks (filter (\<lambda>t. tStatus t \<noteq> TASK_COMPLETED) ts) w"
  by (induction ts) (auto simp: FillProgressDetailToTasks_def split: option.split)

lemma tID_fill [simp]: "tID ` set (FillProgressDetailToTasks ts w) = tID ` set ts"
proof -
  have "map tID (FillProgressDetailToTasks ts w) = map tID ts"
    by (simp add: FillProgressDetailToTasks_def split: option.split)
  then show ?thesis by (metis list.set_map)
qed

text \<open>Which tasks are the latest once some of them were replaced by newer ones.\<close>

lemma latest_after_rerun:
  assumes dist: "distinct (map tID (w_tasks w))"
    and fs: "set fs = {t \<in> latest_tasks pid w. tStatus t \<noteq> TASK_COMPLETED}"
    and pos: "distinct (map (\<lambda>t. (tPipelineRow t, tPipelineCol t)) fs)"
    and k: "k = next_id tID (w_tasks w)"
    and new: "new = numbered k (map rerun_of fs)"
    and w': "w_tasks w' = update_where (\<lambda>r. tID r \<in> tID ` set fs) (\<lambda>r. r\<lparr>tStatus := TASK_FAILED\<rparr>) (w_tasks w) @ new"
  shows "latest_tasks pid w' = {t \<in> latest_tasks pid w. tStatus t = TASK_COMPLETED} \<union> set new"
proof -
  define g where "g r = (if tID r \<in> tID ` set fs then r\<lparr>tStatus := TASK_FAILED\<rparr> else r)" for r :: task
  have fl [simp]: "tID (g r) = tID r" "tPipelineId (g r) = tPipelineId r"
    "tPipelineRow (g r) = tPipelineRow r" "tPipelineCol (g r) = tPipelineCol r" for r
    by (simp_all add: g_def)
  have old: "tID r < k" if "r \<in> set (w_tasks w)" for r using next_id_fresh [OF that] k by simp
  have tasks: "set (w_tasks w') = g ` set (w_tasks w) \<union> set new"
    by (auto simp: w' update_where_def g_def)
  have newD: "\<exists>f \<in> set fs. k \<le> tID t \<and> tPipelineId t = pid \<and> tPipelineRow t = tPipelineRow f \<and>
      tPipelineCol t = tPipelineCol f" if "t \<in> set new" for t
  proof -
    from that [unfolded new in_numbered_map]
    obtain i where i: "i < length fs" "t = task_of_new (rerun_of (fs ! i)) (k + i)"
      by (elim exE conjE)
    then have "fs ! i \<in> set fs" by simp
    moreover from this fs have "tPipelineId (fs ! i) = pid" by (simp add: latest_tasks_def)
    ultimately show ?thesis using i(2) by (intro bexI [of _ "fs ! i"]) (simp_all add: task_of_new_def rerun_of_def)
  qed
  have newI: "\<exists>t \<in> set new. tPipelineId t = pid \<and> tPipelineRow t = tPipelineRow f \<and>
      tPipelineCol t = tPipelineCol f" if f: "f \<in> set fs" for f
  proof -
    obtain i where "i < length fs" "fs ! i = f" using f by (auto simp: in_set_conv_nth)
    moreover have "tPipelineId f = pid" using f fs by (simp add: latest_tasks_def)
    ultimately show ?thesis
      by (intro bexI [of _ "task_of_new (rerun_of f) (k + i)"])
        (auto simp: new in_numbered task_of_new_def rerun_of_def)
  qed
  have uniq: "t = t'" if "t \<in> set new" "t' \<in> set new" "tPipelineRow t = tPipelineRow t'"
      "tPipelineCol t = tPipelineCol t'" for t t'
  proof -
    from that(1,2) [unfolded new in_numbered_map]
    obtain i j where ij: "i < length fs" "j < length fs" "t = task_of_new (rerun_of (fs ! i)) (k + i)"
        "t' = task_of_new (rerun_of (fs ! j)) (k + j)"
      by (elim exE conjE)
    with that(3,4) have "map (\<lambda>t. (tPipelineRow t, tPipelineCol t)) fs ! i = map (\<lambda>t. (tPipelineRow t, tPipelineCol t)) fs ! j"
      by (simp add: task_of_new_def rerun_of_def)
    with pos ij(1,2) have "i = j" by (metis length_map nth_eq_iff_index_eq)
    with ij show ?thesis by simp
  qed
  have eq_id: "r = r'" if "r \<in> set (w_tasks w)" "r' \<in> set (w_tasks w)" "tID r = tID r'" for r r'
    using dist that by (auto simp: distinct_map dest: inj_onD)
  show ?thesis
  proof (intro set_eqI iffI)
    fix t assume t: "t \<in> latest_tasks pid w'"
    show "t \<in> {t \<in> latest_tasks pid w. tStatus t = TASK_COMPLETED} \<union> set new"
    proof (cases "t \<in> set new")
      case False
      then obtain r where r: "r \<in> set (w_tasks w)" "t = g r"
        using t tasks by (auto simp: latest_tasks_def)
      have pid: "tPipelineId r = pid" using t r(2) by (simp add: latest_tasks_def)
      have top: "tID r' \<le> tID r" if "r' \<in> set (w_tasks w')" "tPipelineId r' = pid"
          "tPipelineRow r' = tPipelineRow r" "tPipelineCol r' = tPipelineCol r" for r'
      proof -
        have "\<forall>t' \<in> set (w_tasks w'). tPipelineId t' = pid \<and> tPipelineRow t' = tPipelineRow (g r) \<and>
            tPipelineCol t' = tPipelineCol (g r) \<longrightarrow> tID t' \<le> tID (g r)"
          using t unfolding r(2) latest_tasks_def by blast
        with that show ?thesis by simp
      qed
      have "tID r' \<le> tID r" if r': "r' \<in> set (w_tasks w)" "tPipelineId r' = pid"
          "tPipelineRow r' = tPipelineRow r" "tPipelineCol r' = tPipelineCol r" for r'
      proof -
        have "g r' \<in> set (w_tasks w')" using r'(1) tasks by blast
        from top [OF this] show ?thesis using r'(2-) by simp
      qed
      with r(1) pid have lat: "r \<in> latest_tasks pid w" unfolding latest_tasks_def by blast
      have nf: "r \<notin> set fs"
      proof
        assume "r \<in> set fs"
        from newI [OF this] obtain n where "n \<in> set new" "tPipelineId n = pid"
          "tPipelineRow n = tPipelineRow r" "tPipelineCol n = tPipelineCol r" by blast
        moreover from this tasks have "n \<in> set (w_tasks w')" by blast
        ultimately have "tID n \<le> tID r" using top by metis
        with newD [OF \<open>n \<in> set new\<close>] old [OF r(1)] show False by auto
      qed
      then have "tID r \<notin> tID ` set fs"
        using fs eq_id [OF r(1)] by (auto simp: latest_tasks_def)
      with r(2) have "t = r" by (simp add: g_def)
      with lat nf fs show ?thesis by auto
    qed simp
  next
    fix t assume "t \<in> {t \<in> latest_tasks pid w. tStatus t = TASK_COMPLETED} \<union> set new"
    then consider (kept) "t \<in> latest_tasks pid w" "tStatus t = TASK_COMPLETED" | (rerun) "t \<in> set new" by blast
    then show "t \<in> latest_tasks pid w'"
    proof cases
      case kept
      then have t: "t \<in> set (w_tasks w)" "tPipelineId t = pid" by (auto simp: latest_tasks_def)
      have "tID t \<notin> tID ` set fs"
      proof
        assume "tID t \<in> tID ` set fs"
        then obtain f where f: "f \<in> set fs" "tID t = tID f" by blast
        with fs have "f \<in> set (w_tasks w)" "tStatus f \<noteq> TASK_COMPLETED" by (auto simp: latest_tasks_def)
        with eq_id [OF t(1)] f(2) kept(2) show False by metis
      qed
      then have "g t = t" by (simp add: g_def)
      with t(1) tasks have "t \<in> set (w_tasks w')" by (metis UnI1 imageI)
      moreover have "tID r \<le> tID t" if r: "r \<in> set (w_tasks w')" "tPipelineId r = pid"
          "tPipelineRow r = tPipelineRow t" "tPipelineCol r = tPipelineCol t" for r
      proof (cases "r \<in> set new")
        case True
        from newD [OF this] obtain f where f: "f \<in> set fs" "tPipelineRow f = tPipelineRow t"
          "tPipelineCol f = tPipelineCol t" using r by auto
        with fs have fl': "f \<in> latest_tasks pid w" "tStatus f \<noteq> TASK_COMPLETED" by auto
        with kept(1) f have "tID f = tID t" by (intro antisym) (auto simp: latest_tasks_def)
        with eq_id [of f t] fl' t kept(2) have False by (auto simp: latest_tasks_def)
        then show ?thesis ..
      next
        case False
        with r tasks obtain r0 where "r0 \<in> set (w_tasks w)" "r = g r0" by auto
        with r kept(1) fl [of r0] show ?thesis by (simp only: latest_tasks_def) auto
      qed
      ultimately show ?thesis using t(2) by (simp add: latest_tasks_def)
    next
      case rerun
      have "tID r \<le> tID t" if r: "r \<in> set (w_tasks w')" "tPipelineRow r = tPipelineRow t"
          "tPipelineCol r = tPipelineCol t" for r
      proof (cases "r \<in> set new")
        case True
        with uniq [OF this rerun] r show ?thesis by simp
      next
        case False
        with r(1) tasks obtain r0 where "r0 \<in> set (w_tasks w)" "r = g r0" by auto
        with old [of r0] newD [OF rerun] show ?thesis by auto
      qed
      moreover have "tPipelineId t = pid" "t \<in> set (w_tasks w')" using newD [OF rerun] rerun tasks by auto
      ultimately show ?thesis by (simp add: latest_tasks_def)
    qed
  qed
qed

lemma GetPipeline_no_faults [store_simps]:
  assumes "w_faults w = []" "p \<in> set (w_pipelines w)" "distinct (map pID (w_pipelines w))"
  shows "\<exists>ls. GetPipeline (pID p) w = (Ok (p\<lparr>pLabels := ls\<rparr>), w)"
  using assms filter_key_unique [OF assms(2,3)]
  by (simp add: GetPipeline_def GetDbPipeline_def fillPipelineDetail_def bind_svc_def attempt_def
      wrap_err_def store_simps) (rule exI, rule refl)

lemma GetTasksWithLastStatus_no_faults:
  assumes "w_faults w = []" and "\<forall>t \<in> set (w_tasks w). tPipelineId t = pid \<longrightarrow> 1 \<le> tPipelineCol t"
  shows "GetTasksWithLastStatus pid w = (Ok (FillProgressDetailToTasks
    (dedup_on (\<lambda>t. (tPipelineRow t, tPipelineCol t)) [] (pipeline_tasks_desc pid w)) w), w)"
  using last_status_keys [OF assms(2)] assms(1)
  by (simp add: GetTasksWithLastStatus_def bind_svc_def store_simps Let_def)

text \<open>C2. Rerunning a finished pipeline, when no call fails, puts every latest task that is not
  completed back to work: the pipeline waits to rerun, its latest tasks are then the completed ones as they were and
  one new task with status \<open>TASK_RERUN\<close> for each of the others, at the same position with the same
  plugin, subtasks and options; the row of the pipeline changes in its status only, and the rows and the tasks
  of the other pipelines are not touched.\<close>

theorem RerunPipeline_replaces_unfinished:
  assumes nf: "w_faults w = []" and p: "p \<in> set (w_pipelines w)"
    and dist: "distinct (map pID (w_pipelines w))" "distinct (map tID (w_tasks w))"
    and st: "pStatus p \<notin> {TASK_RUNNING, TASK_CREATED, TASK_RERUN}"
    and cols: "\<forall>t \<in> set (w_tasks w). tPipelineId t = pID p \<longrightarrow> 1 \<le> tPipelineCol t"
    and some: "\<exists>t \<in> latest_tasks (pID p) w. tStatus t \<noteq> TASK_COMPLETED"
  shows "\<exists>ts w'. RerunPipeline (pID p) None w = (Ok ts, w') \<and>
    latest_tasks (pID p) w' = {t \<in> latest_tasks (pID p) w. tStatus t = TASK_COMPLETED} \<union> set ts \<and>
    task_work ` set ts = task_work ` {t \<in> latest_tasks (pID p) w. tStatus t \<noteq> TASK_COMPLETED} \<and>
    (\<forall>t \<in> set ts. tStatus t = TASK_RERUN) \<and>
    [r \<leftarrow> w_pipelines w'. pID r = pID p] = [p\<lparr>pStatus := TASK_RERUN\<rparr>] \<and>
    [r \<leftarrow> w_pipelines w'. pID r \<noteq> pID p] = [r \<leftarrow> w_pipelines w. pID r \<noteq> pID p] \<and>
    filter (\<lambda>t. tPipelineId t \<noteq> pID p) (w_tasks w') = filter (\<lambda>t. tPipelineId t \<noteq> pID p) (w_tasks w)"
proof -
  let ?lat = "dedup_on (\<lambda>t. (tPipelineRow t, tPipelineCol t)) [] (pipeline_tasks_desc (pID p) w)"
  define fs where "fs = filter (\<lambda>t. tStatus t \<noteq> TASK_COMPLETED) ?lat"
  define k where "k = next_id tID (w_tasks w)"
  define new where "new = numbered k (map rerun_of fs)"
  define upd where "upd = update_where (\<lambda>r. tID r \<in> tID ` set fs) (\<lambda>r. r\<lparr>tStatus := TASK_FAILED\<rparr>) (w_tasks w)"
  define w' where "w' = w\<lparr>w_tasks := upd @ new, w_pipelines := update_where (\<lambda>r. pID r = pID p)
    (\<lambda>r. r\<lparr>pStatus := TASK_RERUN\<rparr>) (w_pipelines w)\<rparr>"
  have fs: "set fs = {t \<in> latest_tasks (pID p) w. tStatus t \<noteq> TASK_COMPLETED}"
    by (auto simp: fs_def latest_dedup [OF dist(2)])
  have fs_in: "t \<in> set (w_tasks w) \<and> tPipelineId t = pID p" if "t \<in> set fs" for t
    using that fs by (simp add: latest_tasks_def)
  have ne: "fs \<noteq> []" using some fs by auto
  have run: "RerunPipeline (pID p) None w = (Ok new, w')"
  proof -
    have "\<forall>t \<in> set (FillProgressDetailToTasks fs w). tID t < k"
    proof -
      have "tID ` set fs \<subseteq> {..<k}" using fs_in next_id_fresh [of _ "w_tasks w" tID] by (auto simp: k_def)
      then show ?thesis by (metis (no_types, lifting) imageI lessThan_iff subsetD tID_fill)
    qed
    then have coll: "collect rerun_task (FillProgressDetailToTasks fs w) w = (Ok new, w\<lparr>w_tasks := upd @ new\<rparr>)"
      using collect_rerun_task [OF nf, of "FillProgressDetailToTasks fs w"] by (simp add: k_def new_def upd_def)
    have get: "tasks_to_rerun (pID p) None w = (Ok (FillProgressDetailToTasks fs w), w)"
      by (simp add: tasks_to_rerun_def bind_svc_def wrap_err_def filter_fill fs_def
          GetTasksWithLastStatus_no_faults [OF nf cols])
    have "FillProgressDetailToTasks fs w \<noteq> []" using ne by (simp add: FillProgressDetailToTasks_def)
    with GetPipeline_no_faults [OF nf p dist(1)] st show ?thesis
      by (auto simp: RerunPipeline_def bind_svc_def get coll UpdatePipelines_def store_simps nf w'_def)
  qed
  have "distinct (map (\<lambda>t. (tPipelineRow t, tPipelineCol t)) fs)"
    unfolding fs_def by (rule distinct_map_filter) (rule distinct_dedup_on)
  then have "latest_tasks (pID p) w' = {t \<in> latest_tasks (pID p) w. tStatus t = TASK_COMPLETED} \<union> set new"
    using latest_after_rerun [OF dist(2) fs _ k_def new_def, of w'] by (simp add: w'_def upd_def)
  moreover have "task_work ` set new = task_work ` set fs"
  proof -
    have "map task_work (numbered j (map rerun_of xs)) = map task_work xs" for j xs
      by (induction xs arbitrary: j) (simp_all add: task_of_new_def rerun_of_def)
    from arg_cong [OF this [of k fs], of set] show ?thesis unfolding new_def set_map .
  qed
  moreover have "\<forall>t \<in> set new. tStatus t = TASK_RERUN"
    by (auto simp: new_def in_numbered_map task_of_new_def rerun_of_def)
  moreover have "[r \<leftarrow> w_pipelines w'. pID r \<noteq> pID p] = [r \<leftarrow> w_pipelines w. pID r \<noteq> pID p]"
  proof -
    have "[r \<leftarrow> update_where (\<lambda>r. pID r = pID p) (\<lambda>r. r\<lparr>pStatus := TASK_RERUN\<rparr>) ps. pID r \<noteq> pID p] =
        [r \<leftarrow> ps. pID r \<noteq> pID p]" for ps :: "pipeline list"
      by (induction ps) simp_all
    then show ?thesis by (simp add: w'_def)
  qed
  moreover have "[r \<leftarrow> w_pipelines w'. pID r = pID p] = [p\<lparr>pStatus := TASK_RERUN\<rparr>]"
  proof -
    have "[r \<leftarrow> update_where (\<lambda>r. pID r = pID p) (\<lambda>r. r\<lparr>pStatus := TASK_RERUN\<rparr>) ps. pID r = pID p] =
        map (\<lambda>r. r\<lparr>pStatus := TASK_RERUN\<rparr>) [r \<leftarrow> ps. pID r = pID p]" for ps :: "pipeline list"
      by (induction ps) simp_all
    with filter_key_unique [OF p dist(1)] show ?thesis by (simp add: w'_def)
  qed
  moreover have "filter (\<lambda>t. tPipelineId t \<noteq> pID p) (w_tasks w') = filter (\<lambda>t. tPipelineId t \<noteq> pID p) (w_tasks w)"
  proof -
    have "filter (\<lambda>t. tPipelineId t \<noteq> pID p) new = []"
      using fs_in by (auto simp: filter_empty_conv new_def in_numbered_map task_of_new_def rerun_of_def)
    moreover have "filter (\<lambda>t. tPipelineId t \<noteq> pID p) (update_where (\<lambda>r. tID r \<in> tID ` set fs)
        (\<lambda>r. r\<lparr>tStatus := TASK_FAILED\<rparr>) ts) = filter (\<lambda>t. tPipelineId t \<noteq> pID p) ts"
      if "set ts \<subseteq> set (w_tasks w)" for ts
      using that
    proof (induction ts)
      case (Cons t ts)
      show ?case
      proof (cases "tID t \<in> tID ` set fs")
        case True
        then obtain f where f: "f \<in> set fs" "tID t = tID f" by (elim imageE)
        with fs_in Cons.prems have "f \<in> set (w_tasks w)" "t \<in> set (w_tasks w)" by simp_all
        with f(2) dist(2) have "t = f" unfolding distinct_map by (metis inj_onD)
        with fs_in f(1) True Cons show ?thesis by simp
      next
        case False
        with Cons show ?thesis by simp
      qed
    qed simp
    ultimately show ?thesis by (simp add: w'_def upd_def)
  qed
  ultimately show ?thesis using run fs by blast
qed

theorem RerunPipeline_replaces_unfinished_witness:
  "\<exists>ts w'. RerunPipeline 7 None world_example = (Ok ts, w') \<and>
     task_work ` set ts = {task_work (task_example 1 1 TASK_FAILED)} \<and>
     (\<forall>t \<in> set ts. tStatus t = TASK_RERUN)"
proof -
  let ?p = "pipeline_example TASK_PARTIAL"
  have "?p \<in> set (w_pipelines world_example)" "distinct (map pID (w_pipelines world_example))"
    "pStatus ?p \<notin> {TASK_RUNNING, TASK_CREATED, TASK_RERUN}"
    "\<forall>t \<in> set (w_tasks world_example). tPipelineId t = pID ?p \<longrightarrow> 1 \<le> tPipelineCol t"
    "\<exists>t \<in> latest_tasks (pID ?p) world_example. tStatus t \<noteq> TASK_COMPLETED"
    using latest_example by (auto simp: world_example_def pipeline_example_def)
  from RerunPipeline_replaces_unfinished [OF world_example_simps(1) this(1,2) world_example_simps(2) this(3-5)]
  obtain ts w' where run: "RerunPipeline 7 None world_example = (Ok ts, w')"
    and work: "task_work ` set ts = task_work ` {t \<in> latest_tasks 7 world_example. tStatus t \<noteq> TASK_COMPLETED}"
    and st: "\<forall>t \<in> set ts. tStatus t = TASK_RERUN"
    by (auto simp: pipeline_example_def)
  have "{t \<in> latest_tasks 7 world_example. tStatus t \<noteq> TASK_COMPLETED} = {task_example 1 1 TASK_FAILED}"
    by (auto simp: latest_example)
  with run work st show ?thesis by (metis (no_types, lifting) image_empty image_insert)
qed

lemma collect_length: "collect f xs w = (Ok ys, w') \<Longrightarrow> length ys = length xs"
  by (induction xs arbitrary: w ys) (auto simp: bind_Ok_iff)

lemma calm_CreateTask [calm_rules]: "calm (CreateTask n)"
  unfolding CreateTask_def by (intro calm_rules)

lemma calm_GetTask [calm_rules]: "calm (GetTask i)"
  unfolding GetTask_def by (auto intro!: calm_rules split: sum.split)

lemma calm_fill [calm_rules]: "calm (fillPipelineDetail p)"
  unfolding fillPipelineDetail_def by (intro calm_rules)

lemma calm_GetDbPipeline [calm_rules]: "calm (GetDbPipeline i)"
  unfolding GetDbPipeline_def by (auto intro!: calm_rules split: sum.split)

lemma calm_GetPipeline [calm_rules]: "calm (GetPipeline i)"
  unfolding GetPipeline_def by (intro calm_rules)

lemma calm_last_status [calm_rules]: "calm (GetTasksWithLastStatus i)"
  unfolding GetTasksWithLastStatus_def Let_def by (intro calm_rules)

lemma calm_RerunPipeline [calm_rules]: "calm (RerunPipeline pid specified)"
  unfolding RerunPipeline_def tasks_to_rerun_def rerun_task_def UpdateTasks_def UpdatePipelines_def
  by (auto intro!: calm_rules split: option.split)

lemma RerunPipeline_nonempty: "RerunPipeline pid specified w = (Ok ts, w') \<Longrightarrow> ts \<noteq> []"
  unfolding RerunPipeline_def
  by (auto simp: bind_Ok_iff split: if_splits dest!: collect_length)

text \<open>\<open>RerunTask\<close> never panics: the index \<open>rerunTasks[0]\<close> it takes of the result of
  \<open>RerunPipeline\<close> exists whatever the state and whichever database calls fail.\<close>

theorem RerunTask_no_panic: "fst (RerunTask taskId w) \<noteq> Panic e"
proof
  assume "fst (RerunTask taskId w) = Panic e"
  then obtain w2 where "RerunTask taskId w = (Panic e, w2)" by (metis prod.collapse)
  then show False
    unfolding RerunTask_def
    by (auto simp: bind_svc_def calmD [OF calm_GetTask] calmD [OF calm_RerunPipeline]
        split: prod.splits result.splits list.splits dest: RerunPipeline_nonempty)
qed

end
