(* ===== verification/PluginHub.thy ===== *)
theory PluginHub
  imports LakeErrors "HOL-Library.AList"
begin

text \<open>
  The registry of plugins (\<open>backend/core/plugin/hub.go\<close>): a map from names to plugins that is nil
  until the first registration. The type of a plugin is a parameter.
\<close>

type_synonym 'p hub = "(string \<times> 'p) list option"

definition RegisterPlugin :: "string \<Rightarrow> 'p \<Rightarrow> 'p hub \<Rightarrow> 'p hub" where
  "RegisterPlugin name pl plugins =
     Some (AList.update name pl (case plugins of None \<Rightarrow> [] | Some ps \<Rightarrow> ps))"

definition GetPlugin :: "'p hub \<Rightarrow> string \<Rightarrow> goerr + 'p" where
  "GetPlugin plugins name =
     (case plugins of
        None \<Rightarrow> Inl (New Default ''RegisterPlugin have never been called.'')
      | Some ps \<Rightarrow> (case map_of ps name of
            Some pl \<Rightarrow> Inr pl
          | None \<Rightarrow> Inl (New Default (''Plugin `'' @ name @ ''` doesn't exist''))))"

text \<open>\<open>TraversalPlugin\<close> visits the plugins in the order \<open>ps\<close> of the map's iteration and stops at the
  first error.\<close>

fun TraversalPlugin :: "(string \<Rightarrow> 'p \<Rightarrow> goerr option) \<Rightarrow> (string \<times> 'p) list \<Rightarrow> goerr option" where
  "TraversalPlugin handle [] = None"
| "TraversalPlugin handle ((name, pl) # ps) =
     (case handle name pl of Some e \<Rightarrow> Some e | None \<Rightarrow> TraversalPlugin handle ps)"

definition FindPluginNameBySubPkgPath :: "('p \<Rightarrow> string) \<Rightarrow> (string \<times> 'p) list \<Rightarrow> string \<Rightarrow> goerr + string" where
  "FindPluginNameBySubPkgPath rootPkgPath ps subPkgPath =
     (case find (\<lambda>(name, pl). HasPrefix subPkgPath (rootPkgPath pl)) ps of
        Some (name, _) \<Rightarrow> Inr name
      | None \<Rightarrow> Inl (New Default (''Unable to find plugin for subPkgPath '' @ subPkgPath)))"

lemma GetPlugin_registered: "GetPlugin (RegisterPlugin name pl ps) name = Inr pl"
  by (simp add: GetPlugin_def RegisterPlugin_def update_conv')

lemma GetPlugin_other: "ps \<noteq> None \<Longrightarrow> n \<noteq> name \<Longrightarrow> GetPlugin (RegisterPlugin name pl ps) n = GetPlugin ps n"
  by (auto simp: GetPlugin_def RegisterPlugin_def update_conv')

end
