(* ===== verification/Runner.thy ===== *)
theory Runner
  imports PipelineFacts PluginHub
begin

text \<open>
  Running tasks and pipelines (\<open>backend/core/runner\<close>, \<open>backend/impls/context\<close>, and the runners of \<open>backend/server/services\<close>).

  A plugin is a value of \<open>plugin\<close>: its subtasks with their entry points, the preparation of the
  task data and the optional \<open>Close\<close>; the type of the task data is a parameter. An entry point is
  any operation of the services' monad: it may call the database, succeed, fail or panic. What the process
  reads from outside (clock, registered plugins, log files, the text of \<open>Error()\<close>, the order in which
  parallel tasks finish) is the record \<open>env\<close>.
\<close>

section \<open>Plugins\<close>

record 'd SubTaskMeta =
  smName :: string
  smEntryPoint :: "'d \<Rightarrow> unit svc"
  smRequired :: bool
  smEnabledByDefault :: bool

record 'd PluginTask =
  plSubTaskMetas :: "'d SubTaskMeta list"
  plPrepareTaskData :: "options \<Rightarrow> 'd svc"
  plClose :: "unit svc option"

datatype 'd plugin = PlainPlugin | TaskPlugin "'d PluginTask"

text \<open>\<open>task_schedule\<close> is the order in which the goroutines of \<open>RunTasksStandalone\<close> deliver their
  results; the model runs the tasks one after the other in that order.\<close>

record 'd env =
  env_plugins :: "'d plugin hub"
  began_at :: "id64 \<Rightarrow> int"
  finished_at :: "id64 \<Rightarrow> int"
  subtask_spent :: "id64 \<Rightarrow> nat \<Rightarrow> int"
  logger_err :: "id64 \<Rightarrow> goerr option"
  error_text :: "goerr \<Rightarrow> string"
  call_frames :: string
  task_schedule :: "id64 list \<Rightarrow> id64 list"
  pipeline_began :: "id64 \<Rightarrow> int"
  pipeline_finished :: "id64 \<Rightarrow> int"
  temporal_run :: "(id64 \<Rightarrow> unit svc) option"
  notify :: "(pipeline \<Rightarrow> goerr option) option"

section \<open>The subtasks of a task\<close>

type_synonym flags = "(string \<times> bool) list"

definition default_flags :: "'d SubTaskMeta list \<Rightarrow> flags" where
  "default_flags metas = fold (\<lambda>m. AList.update (smName m) (smEnabledByDefault m)) metas []"

fun enable_specified :: "string list \<Rightarrow> flags \<Rightarrow> goerr + flags" where
  "enable_specified [] fl = Inr fl"
| "enable_specified (t # ts) fl =
     (case map_of fl t of
        Some _ \<Rightarrow> enable_specified ts (AList.update t True fl)
      | None \<Rightarrow> Inl (New Default (''subtask '' @ t @ '' does not exist'')))"

definition enable_required :: "'d SubTaskMeta list \<Rightarrow> flags \<Rightarrow> flags" where
  "enable_required metas fl =
     fold (\<lambda>m fl. if smRequired m then AList.update (smName m) True fl else fl) metas fl"

definition subtask_flags :: "'d SubTaskMeta list \<Rightarrow> string list \<Rightarrow> goerr + flags" where
  "subtask_flags metas specified =
     (let fl = default_flags metas
      in case (if specified \<noteq> [] then enable_specified specified (map (\<lambda>(k, _). (k, False)) fl) else Inr fl) of
           Inl e \<Rightarrow> Inl e
         | Inr fl' \<Rightarrow> Inr (enable_required metas fl'))"

definition count_steps :: "flags \<Rightarrow> nat" where
  "count_steps fl = length (filter snd fl)"

definition send :: "id64 \<Rightarrow> RunningProgress \<Rightarrow> unit svc" where
  "send taskId p w = (Ok (), w\<lparr>w_progress := w_progress w @ [(taskId, p)]\<rparr>)"

text \<open>\<open>defer f()\<close> around a body: \<open>f\<close> runs when the body returns, fails or panics; its own error
  is dropped.\<close>

definition deferred :: "unit svc \<Rightarrow> 'a svc \<Rightarrow> 'a svc" where
  "deferred f m w = (case m w of (r, w1) \<Rightarrow>
     (case f w1 of (Panic e, w2) \<Rightarrow> (Panic e, w2) | (_, w2) \<Rightarrow> (r, w2)))"

definition recordSubtask :: "subtask_row \<Rightarrow> unit svc" where
  "recordSubtask s =
     bind_svc (attempt (db_do (\<lambda>w. w\<lparr>w_subtasks := w_subtasks w @ [s]\<rparr>))) (\<lambda>_. ret ())"

definition runSubtask :: "'d env \<Rightarrow> id64 \<Rightarrow> nat \<Rightarrow> 'd SubTaskMeta \<Rightarrow> 'd \<Rightarrow> unit svc" where
  "runSubtask env taskId num meta d =
     deferred (recordSubtask \<lparr>sTaskID = taskId, sName = smName meta, sNumber = num,
         sSpentSeconds = subtask_spent env taskId num\<rparr>)
       (smEntryPoint meta d)"

text \<open>The loop over the subtasks: \<open>num\<close> subtasks were started so far, of \<open>steps\<close> in all.\<close>

fun run_subtasks :: "'d env \<Rightarrow> id64 \<Rightarrow> flags \<Rightarrow> nat \<Rightarrow> 'd \<Rightarrow> nat \<Rightarrow> 'd SubTaskMeta list \<Rightarrow> unit svc" where
  "run_subtasks env taskId fl steps d num [] = ret ()"
| "run_subtasks env taskId fl steps d num (m # ms) =
     (case map_of fl (smName m) of
        None \<Rightarrow> fail (newSingleCrdbError Default (Some (New Default (''subtask '' @ smName m @ '' doesn't exist'')))
                  (''error getting context subtask '' @ smName m) None)
      | Some False \<Rightarrow> run_subtasks env taskId fl steps d num ms
      | Some True \<Rightarrow>
          bind_svc (send taskId (SetCurrentSubTask (smName m) (int num + 1))) (\<lambda>_.
          bind_svc (attempt (runSubtask env taskId (num + 1) m d)) (\<lambda>r.
            case r of
              Inl e \<Rightarrow> fail (newSingleCrdbError SubtaskErr (Some e)
                  (''subtask '' @ smName m @ '' ended unexpectedly'') (Some (smName m)))
            | Inr _ \<Rightarrow>
                bind_svc (send taskId (TaskIncProgress (int num + 1) (int steps))) (\<lambda>_.
                run_subtasks env taskId fl steps d (num + 1) ms))))"

definition prepare_and_run :: "'d env \<Rightarrow> task \<Rightarrow> 'd PluginTask \<Rightarrow> flags \<Rightarrow> unit svc" where
  "prepare_and_run env t pl fl =
     bind_svc (wrap_err Default (''error preparing task data for '' @ tPlugin t)
       (plPrepareTaskData pl (tOptions t))) (\<lambda>d.
     bind_svc (send (tID t) (TaskSetProgress 0 (int (count_steps fl)))) (\<lambda>_.
     run_subtasks env (tID t) fl (count_steps fl) d 0 (plSubTaskMetas pl)))"

definition RunPluginSubTasks :: "'d env \<Rightarrow> task \<Rightarrow> 'd PluginTask \<Rightarrow> unit svc" where
  "RunPluginSubTasks env t pl =
     (case subtask_flags (plSubTaskMetas pl) (tSubtasks t) of
        Inl e \<Rightarrow> fail e
      | Inr fl \<Rightarrow>
          (case plClose pl of
             None \<Rightarrow> prepare_and_run env t pl fl
           | Some close \<Rightarrow> deferred close (prepare_and_run env t pl fl)))"

definition RunPluginTask :: "'d env \<Rightarrow> task \<Rightarrow> unit svc" where
  "RunPluginTask env t =
     (case GetPlugin (env_plugins env) (tPlugin t) of
        Inl e \<Rightarrow> fail (newSingleCrdbError Default (Some e) [] None)
      | Inr PlainPlugin \<Rightarrow>
          fail (New Default (''plugin '' @ tPlugin t @ '' doesn't support PluginTask interface''))
      | Inr (TaskPlugin pl) \<Rightarrow> RunPluginSubTasks env t pl)"

section \<open>A task\<close>

definition task_failure :: "goerr \<Rightarrow> string \<times> goerr" where
  "task_failure e =
     (case As e SubtaskErr of
        Some le \<Rightarrow> (case err_data le of Some n \<Rightarrow> (n, le) | None \<Rightarrow> (''unknown'', le))
      | None \<Rightarrow> (''unknown'', the (Convert (Some e))))"

definition mark_failed :: "'d env \<Rightarrow> task \<Rightarrow> goerr \<Rightarrow> task \<Rightarrow> task" where
  "mark_failed env t e r = (case task_failure e of (name, le) \<Rightarrow>
     r\<lparr>tStatus := TASK_FAILED, tMessage := error_text env le, tErrorName := Format (Messages le),
       tFinishedAt := Some (finished_at env (tID t)),
       tSpentSeconds := finished_at env (tID t) - began_at env (tID t), tFailedSubTask := name\<rparr>)"

definition mark_completed :: "'d env \<Rightarrow> task \<Rightarrow> task \<Rightarrow> task" where
  "mark_completed env t r =
     r\<lparr>tStatus := TASK_COMPLETED, tMessage := [], tFinishedAt := Some (finished_at env (tID t)),
       tSpentSeconds := finished_at env (tID t) - began_at env (tID t)\<rparr>"

text \<open>The deferred function of \<open>RunTask\<close>, after \<open>recover\<close>: every error of the database is only
  logged.\<close>

definition finalize_task :: "'d env \<Rightarrow> task \<Rightarrow> goerr option \<Rightarrow> unit svc" where
  "finalize_task env t err =
     bind_svc (attempt (UpdateTasks (\<lambda>r. tID r = tID t)
       (case err of None \<Rightarrow> mark_completed env t | Some e \<Rightarrow> mark_failed env t e))) (\<lambda>_.
     bind_svc (attempt (UpdatePipelines (\<lambda>p. pID p = tPipelineId t)
       (\<lambda>p. p\<lparr>pFinishedTasks := pFinishedTasks p + 1\<rparr>))) (\<lambda>_. ret ()))"

definition start_task :: "'d env \<Rightarrow> task \<Rightarrow> unit svc" where
  "start_task env t =
     bind_svc (UpdateTasks (\<lambda>r. tID r = tID t)
       (\<lambda>r. r\<lparr>tStatus := TASK_RUNNING, tMessage := [], tBeganAt := Some (began_at env (tID t))\<rparr>)) (\<lambda>_.
     RunPluginTask env t)"

definition recovered :: "'d env \<Rightarrow> unit result \<Rightarrow> goerr option" where
  "recovered env r = (case r of Ok _ \<Rightarrow> None | Err e \<Rightarrow> Some e
     | Panic e \<Rightarrow> Wrap Default (Some e) (''run task failed with panic ('' @ call_frames env @ '')'') None)"

definition run_and_finalize :: "'d env \<Rightarrow> task \<Rightarrow> pipeline \<Rightarrow> unit svc" where
  "run_and_finalize env t p w =
     (case start_task env t w of (r, w1) \<Rightarrow>
        bind_svc (finalize_task env t (recovered env r))
          (\<lambda>_. if pSkipOnFail p then ret ()
               else case recovered env r of None \<Rightarrow> ret () | Some e \<Rightarrow> fail e) w1)"

definition RunTask :: "'d env \<Rightarrow> id64 \<Rightarrow> unit svc" where
  "RunTask env taskId =
     bind_svc (db_first (\<lambda>w. filter (\<lambda>t. tID t = taskId) (w_tasks w))) (\<lambda>t.
     if tStatus t = TASK_COMPLETED then fail (New Default ''invalid task status'')
     else
       bind_svc (db_first (\<lambda>w. filter (\<lambda>p. pID p = tPipelineId t) (w_pipelines w))) (\<lambda>p.
       case logger_err env taskId of Some e \<Rightarrow> fail e | None \<Rightarrow> run_and_finalize env t p))"

text \<open>The progress messages are consumed by a goroutine while the task runs; the model lets it
  work through those of the task when the task returns.\<close>

definition task_messages :: "id64 \<Rightarrow> world \<Rightarrow> RunningProgress list" where
  "task_messages taskId w = map snd (filter (\<lambda>(k, _). k = taskId) (w_progress w))"

definition drain_progress :: "id64 \<Rightarrow> unit svc" where
  "drain_progress taskId w =
     updateTaskProgress taskId (task_messages taskId w)
       (w\<lparr>w_progress := filter (\<lambda>(k, _). k \<noteq> taskId) (w_progress w)\<rparr>)"

definition runTaskStandalone :: "'d env \<Rightarrow> id64 \<Rightarrow> unit svc" where
  "runTaskStandalone env taskId =
     deferred (rt_remove taskId)
       (bind_svc (rt_add taskId) (\<lambda>_. deferred (drain_progress taskId) (RunTask env taskId)))"

text \<open>\<open>RunTasksStandalone\<close>: the errors in the order of arrival; the first cancelled one is returned
  as it is, otherwise their texts are joined.\<close>

fun join_errors :: "'d env \<Rightarrow> string \<Rightarrow> goerr list \<Rightarrow> goerr" where
  "join_errors env sb [] = New Default sb"
| "join_errors env sb (e # es) =
     (if IsSentinel e Canceled then e else join_errors env (sb @ error_text env e @ newline) es)"

fun gather_errors :: "(id64 \<Rightarrow> unit svc) \<Rightarrow> id64 list \<Rightarrow> goerr list svc" where
  "gather_errors run [] = ret []"
| "gather_errors run (i # is) =
     bind_svc (attempt (run i)) (\<lambda>r. bind_svc (gather_errors run is) (\<lambda>es.
       ret (case r of Inr _ \<Rightarrow> es
            | Inl e \<Rightarrow> newSingleCrdbError Default (Some e) (''Error running task '' @ show_nat i @ ''.'') None # es)))"

definition RunTasksStandalone :: "'d env \<Rightarrow> id64 list \<Rightarrow> unit svc" where
  "RunTasksStandalone env taskIds =
     (if taskIds = [] then ret ()
      else bind_svc (gather_errors (runTaskStandalone env) (task_schedule env taskIds)) (\<lambda>errs.
        if errs \<noteq> [] then fail (join_errors env [] errs) else ret ()))"

section \<open>A pipeline\<close>

text \<open>The tasks to run by row: the outer list grows until the row of the task exists. Row 0 would
  index \<open>-1\<close>, a panic, which is \<open>None\<close>.\<close>

definition add_to_row :: "id64 list list \<Rightarrow> task \<Rightarrow> id64 list list" where
  "add_to_row rows t =
     (let rows' = rows @ replicate (tPipelineRow t - length rows) []
      in rows'[tPipelineRow t - 1 := rows' ! (tPipelineRow t - 1) @ [tID t]])"

fun group_rows :: "id64 list list \<Rightarrow> task list \<Rightarrow> id64 list list option" where
  "group_rows rows [] = Some rows"
| "group_rows rows (t # ts) =
     (if tPipelineRow t = 0 then None else group_rows (add_to_row rows t) ts)"

definition runnable_tasks :: "id64 \<Rightarrow> world \<Rightarrow> task list" where
  "runnable_tasks pid w =
     sort_key (\<lambda>t. tPipelineRow t) (sort_key (\<lambda>t. tPipelineCol t)
       (filter (\<lambda>t. tPipelineId t = pid \<and> tStatus t \<in> {TASK_CREATED, TASK_RERUN}) (w_tasks w)))"

text \<open>\<open>runPipelineTasks\<close>: \<open>err\<close> is the variable of that name when a row is reached; leaving the loop
  reads \<open>dbPipeline.BeganAt\<close>, a nil dereference when the pipeline has none.\<close>

definition end_of_rows :: "pipeline \<Rightarrow> goerr option \<Rightarrow> unit svc" where
  "end_of_rows p err =
     (if pBeganAt p = None then panic (External ''nil pointer dereference'')
      else case err of None \<Rightarrow> ret () | Some e \<Rightarrow> fail e)"

fun run_rows :: "(id64 list \<Rightarrow> unit svc) \<Rightarrow> pipeline \<Rightarrow> nat \<Rightarrow> goerr option \<Rightarrow> id64 list list \<Rightarrow> unit svc" where
  "run_rows runTasks p i err [] = end_of_rows p err"
| "run_rows runTasks p i err (row # rows) =
     bind_svc (attempt (UpdatePipelines (\<lambda>r. pID r = pID p)
       (\<lambda>r. r\<lparr>pStatus := TASK_RUNNING, pStage := i + 1\<rparr>))) (\<lambda>u.
       case u of
         Inl e \<Rightarrow> end_of_rows p (Some e)
       | Inr _ \<Rightarrow>
           bind_svc (attempt (runTasks row)) (\<lambda>r.
             case r of
               Inl e \<Rightarrow> if IsSentinel e Canceled \<or> \<not> pSkipOnFail p then fail e
                         else run_rows runTasks p (i + 1) (Some e) rows
             | Inr _ \<Rightarrow> run_rows runTasks p (i + 1) None rows))"

definition runPipelineTasks :: "id64 \<Rightarrow> id64 list list \<Rightarrow> (id64 list \<Rightarrow> unit svc) \<Rightarrow> unit svc" where
  "runPipelineTasks pipelineId taskIds runTasks =
     bind_svc (db_first (\<lambda>w. filter (\<lambda>p. pID p = pipelineId) (w_pipelines w)))
       (\<lambda>p. run_rows runTasks p 0 None taskIds)"

definition RunPipeline :: "id64 \<Rightarrow> (id64 list \<Rightarrow> unit svc) \<Rightarrow> unit svc" where
  "RunPipeline pipelineId runTasks =
     bind_svc (db_get (runnable_tasks pipelineId)) (\<lambda>tasks.
       case group_rows [] tasks of
         None \<Rightarrow> panic (External ''index out of range'')
       | Some taskIds \<Rightarrow> runPipelineTasks pipelineId taskIds runTasks)"

definition runPipelineStandalone :: "'d env \<Rightarrow> pipeline \<Rightarrow> unit svc" where
  "runPipelineStandalone env p = RunPipeline (pID p) (RunTasksStandalone env)"

definition NotifyExternal :: "'d env \<Rightarrow> id64 \<Rightarrow> unit svc" where
  "NotifyExternal env pipelineId =
     (case notify env of
        None \<Rightarrow> ret ()
      | Some changed \<Rightarrow> bind_svc (GetPipeline pipelineId) (\<lambda>p.
          case changed p of None \<Rightarrow> ret () | Some e \<Rightarrow> fail e))"

definition finish_pipeline_row :: "'d env \<Rightarrow> goerr option \<Rightarrow> pipeline \<Rightarrow> pipeline" where
  "finish_pipeline_row env err p =
     (let fin = pipeline_finished env (pID p);
          p1 = p\<lparr>pFinishedAt := Some fin,
                 pSpentSeconds := (case pBeganAt p of None \<Rightarrow> pSpentSeconds p | Some b \<Rightarrow> fin - b)\<rparr>
      in case err of None \<Rightarrow> p1
         | Some e \<Rightarrow> p1\<lparr>pMessage := error_text env e, pErrorName := Format (Messages e)\<rparr>)"

definition finish_pipeline :: "'d env \<Rightarrow> id64 \<Rightarrow> bool \<Rightarrow> goerr option \<Rightarrow> unit svc" where
  "finish_pipeline env pipelineId isCancelled err =
     bind_svc (attempt (GetDbPipeline pipelineId)) (\<lambda>g.
       case g of
         Inl _ \<Rightarrow> (case Wrap Default err (''Unable to get pipeline '' @ show_nat pipelineId @ ''.'') None of
             None \<Rightarrow> ret () | Some e \<Rightarrow> fail e)
       | Inr p0 \<Rightarrow>
           let p = finish_pipeline_row env err p0
           in bind_svc (ComputePipelineStatus p isCancelled) (\<lambda>st.
              bind_svc (SavePipeline (p\<lparr>pStatus := st\<rparr>)) (\<lambda>_.
              NotifyExternal env pipelineId)))"

definition runPipeline :: "'d env \<Rightarrow> id64 \<Rightarrow> unit svc" where
  "runPipeline env pipelineId =
     bind_svc (GetPipeline pipelineId) (\<lambda>ppl.
     bind_svc (attempt (case temporal_run env of
         Some run \<Rightarrow> run (pID ppl) | None \<Rightarrow> runPipelineStandalone env ppl)) (\<lambda>r.
       let err = (case r of Inr _ \<Rightarrow> None | Inl e \<Rightarrow> Some e)
       in finish_pipeline env pipelineId
            (case err of None \<Rightarrow> False | Some e \<Rightarrow> IsSentinel e Canceled)
            (Wrap Default err (''Error running pipeline '' @ show_nat pipelineId @ ''.'') None)))"

text \<open>\<open>pipelineServiceInit\<close> in standalone mode: what a previous process left running failed.\<close>

definition reset_running :: "unit svc" where
  "reset_running =
     bind_svc (UpdatePipelines (\<lambda>p. pStatus p = TASK_RUNNING)
       (\<lambda>p. p\<lparr>pStatus := TASK_FAILED, pMessage := ''The process was terminated unexpectedly''\<rparr>)) (\<lambda>_.
     UpdateTasks (\<lambda>t. tStatus t = TASK_RUNNING)
       (\<lambda>t. t\<lparr>tStatus := TASK_FAILED, tMessage := ''The process was terminated unexpectedly''\<rparr>))"

end
