(* ===== verification/RunnerFacts.thy ===== *)
theory RunnerFacts
  imports Runner
begin

text \<open>
  What the runners promise: which subtasks of a plugin run and in which order, how a task is
  finalized whatever its plugin does, and what the registry of running tasks holds.
\<close>

section \<open>Which subtasks are enabled\<close>

definition enabled :: "string list \<Rightarrow> 'd SubTaskMeta \<Rightarrow> bool" where
  "enabled specified m \<longleftrightarrow> smRequired m \<or>
     (if specified = [] then smEnabledByDefault m else smName m \<in> set specified)"

text \<open>A pass over the subtasks that sets the flags of those with \<open>c\<close>.\<close>

abbreviation set_flags :: "('d SubTaskMeta \<Rightarrow> bool) \<Rightarrow> ('d SubTaskMeta \<Rightarrow> bool) \<Rightarrow> 'd SubTaskMeta list \<Rightarrow> flags \<Rightarrow> flags" where
  "set_flags c v metas fl \<equiv> fold (\<lambda>m fl. if c m then AList.update (smName m) (v m) fl else fl) metas fl"

lemma set_flags_other: "x \<notin> smName ` set metas \<Longrightarrow> map_of (set_flags c v metas fl) x = map_of fl x"
  by (induction metas arbitrary: fl) (auto simp: update_conv')

lemma set_flags_at:
  "distinct (map smName metas) \<Longrightarrow> m \<in> set metas \<Longrightarrow>
    map_of (set_flags c v metas fl) (smName m) = (if c m then Some (v m) else map_of fl (smName m))"
proof (induction metas arbitrary: fl)
  case (Cons x xs)
  have names: "smName x \<notin> smName ` set xs" using Cons.prems(1) by simp
  show ?case
  proof (cases "x = m")
    case True
    with names show ?thesis by (simp add: set_flags_other update_conv')
  next
    case False
    with Cons.prems have m: "m \<in> set xs" by simp
    then have "smName m \<noteq> smName x" using names by (metis imageI)
    with Cons.IH [OF _ m] Cons.prems(1) show ?thesis by (simp add: update_conv')
  qed
qed simp

lemma set_flags_keys:
  "distinct (map fst fl) \<Longrightarrow> distinct (map fst (set_flags c v metas fl))"
  by (induction metas arbitrary: fl) (auto intro: distinct_update)

lemma default_flags_as_pass: "default_flags metas = set_flags (\<lambda>_. True) smEnabledByDefault metas []"
  by (simp add: default_flags_def)

lemma enable_specified_Inr:
  "enable_specified ts fl = Inr fl' \<Longrightarrow> set ts \<subseteq> dom (map_of fl) \<and>
     map_of fl' x = (if x \<in> set ts then Some True else map_of fl x) \<and>
     (distinct (map fst fl) \<longrightarrow> distinct (map fst fl'))"
proof (induction ts fl rule: enable_specified.induct)
  case (2 t ts fl)
  then obtain b where b: "map_of fl t = Some b" by (auto split: option.splits)
  with 2 have "set ts \<subseteq> dom (map_of (AList.update t True fl)) \<and>
     map_of fl' x = (if x \<in> set ts then Some True else map_of (AList.update t True fl) x) \<and>
     (distinct (map fst (AList.update t True fl)) \<longrightarrow> distinct (map fst fl'))"
    by simp
  with b show ?case by (auto simp: update_conv' distinct_update)
qed simp

lemma enable_specified_Inl:
  "enable_specified ts fl = Inl e \<Longrightarrow> \<exists>t \<in> set ts. map_of fl t = None \<and>
     e = New Default (''subtask '' @ t @ '' does not exist'')"
proof (induction ts fl rule: enable_specified.induct)
  case (2 t ts fl)
  then show ?case by (auto simp: update_conv' split: option.splits if_splits)
qed simp

lemma count_steps_card: "distinct (map fst fl) \<Longrightarrow> count_steps fl = card {k. map_of fl k = Some True}"
proof -
  assume d: "distinct (map fst fl)"
  then have "distinct (map fst (filter snd fl))" by (rule distinct_map_filter)
  then have "count_steps fl = card (set (map fst (filter snd fl)))"
    unfolding count_steps_def by (metis distinct_card length_map)
  also have "set (map fst (filter snd fl)) = {k. map_of fl k = Some True}"
    using d by (force simp: map_of_eq_Some_iff image_iff)
  finally show ?thesis .
qed

lemma subtask_flags_spec:
  assumes dist: "distinct (map smName metas)" and fl: "subtask_flags metas specified = Inr fl"
  shows "set specified \<subseteq> smName ` set metas" and "distinct (map fst fl)"
    and "map_of fl x = (case find (\<lambda>m. smName m = x) metas of None \<Rightarrow> None | Some m \<Rightarrow> Some (enabled specified m))"
proof -
  let ?d = "default_flags metas"
  let ?off = "map (\<lambda>(k, _). (k, False)) ?d"
  have d_at: "map_of ?d (smName m) = Some (smEnabledByDefault m)" if "m \<in> set metas" for m
    using set_flags_at [OF dist that, of "\<lambda>_. True"] by (simp add: default_flags_as_pass)
  have d_none: "map_of ?d y = None" if "y \<notin> smName ` set metas" for y
    using set_flags_other [OF that, of "\<lambda>_. True"] by (simp add: default_flags_as_pass)
  have off: "map_of ?off y = map_option (\<lambda>_. False) (map_of ?d y)" for y
    using map_of_map [of "\<lambda>_. False" ?d] by (metis comp_apply)
  have d_keys: "distinct (map fst ?d)"
    using set_flags_keys [of "[]" "\<lambda>_. True" smEnabledByDefault metas] by (simp add: default_flags_def)
  then have off_keys: "distinct (map fst ?off)" by (simp add: comp_def case_prod_unfold)
  define base where "base = (if specified \<noteq> [] then enable_specified specified ?off else Inr ?d)"
  from fl obtain fl0 where fl0: "base = Inr fl0" and fl_eq: "fl = enable_required metas fl0"
    by (auto simp: subtask_flags_def Let_def base_def split: sum.splits)
  have "set specified \<subseteq> smName ` set metas \<and> distinct (map fst fl0) \<and>
     (\<forall>y. map_of fl0 y = (if specified = [] then map_of ?d y else
       if y \<in> set specified then Some True else map_of ?off y))"
  proof (cases "specified = []")
    case True
    with fl0 d_keys show ?thesis by (simp add: base_def)
  next
    case False
    with fl0 have "enable_specified specified ?off = Inr fl0" by (simp add: base_def)
    from enable_specified_Inr [OF this] off_keys False off d_none show ?thesis by (fastforce simp: dom_def)
  qed
  then have sub: "set specified \<subseteq> smName ` set metas" and keys0: "distinct (map fst fl0)"
    and at0: "\<And>y. map_of fl0 y = (if specified = [] then map_of ?d y else
       if y \<in> set specified then Some True else map_of ?off y)" by blast+
  show "set specified \<subseteq> smName ` set metas" by (rule sub)
  show "distinct (map fst fl)"
    unfolding fl_eq enable_required_def by (rule set_flags_keys [OF keys0])
  show "map_of fl x = (case find (\<lambda>m. smName m = x) metas of None \<Rightarrow> None | Some m \<Rightarrow> Some (enabled specified m))"
  proof (cases "find (\<lambda>m. smName m = x) metas")
    case None
    then have no: "x \<notin> smName ` set metas" by (auto simp: find_None_iff)
    with sub have "x \<notin> set specified" by blast
    with no show ?thesis
      unfolding fl_eq enable_required_def None
      by (simp add: set_flags_other at0 off d_none)
  next
    case (Some m)
    then have m: "m \<in> set metas" "x = smName m" by (auto simp: find_Some_iff)
    then show ?thesis
      unfolding fl_eq enable_required_def Some
      by (simp add: set_flags_at [OF dist] at0 off d_at enabled_def)
  qed
qed

lemma subtask_flags_enable_aux:
  assumes "distinct (map smName metas)"
  shows "case subtask_flags metas specified of
      Inl e \<Rightarrow> (\<exists>t \<in> set specified - smName ` set metas. e = New Default (''subtask '' @ t @ '' does not exist''))
    | Inr fl \<Rightarrow> set specified \<subseteq> smName ` set metas \<and>
        (\<forall>m \<in> set metas. map_of fl (smName m) = Some (enabled specified m)) \<and>
        count_steps fl = length (filter (enabled specified) metas)"
proof (cases "subtask_flags metas specified")
  case (Inl e)
  let ?off = "map (\<lambda>(k, _). (k, False)) (default_flags metas)"
  from Inl have "enable_specified specified ?off = Inl e"
    by (auto simp: subtask_flags_def Let_def split: sum.splits if_splits)
  from enable_specified_Inl [OF this] obtain t where
    t: "t \<in> set specified" "map_of ?off t = None" "e = New Default (''subtask '' @ t @ '' does not exist'')"
    by blast
  have "t \<notin> smName ` set metas"
  proof
    assume "t \<in> smName ` set metas"
    then obtain m where m: "m \<in> set metas" "t = smName m" by blast
    with set_flags_at [OF assms m(1), of "\<lambda>_. True" smEnabledByDefault "[]"]
    have "t \<in> fst ` set (default_flags metas)"
      by (auto simp: default_flags_as_pass dest: map_of_SomeD intro: rev_image_eqI)
    with t(2) show False by (simp add: map_of_eq_None_iff image_image case_prod_unfold)
  qed
  with t Inl show ?thesis by auto
next
  case (Inr fl)
  note spec = subtask_flags_spec [OF assms Inr]
  have at: "map_of fl (smName m) = Some (enabled specified m)" if "m \<in> set metas" for m
  proof -
    have "find (\<lambda>m'. smName m' = smName m) metas = Some m"
      using that assms
      by (induction metas) (auto simp: image_iff)
    then show ?thesis using spec(3) by simp
  qed
  have "{k. map_of fl k = Some True} = smName ` set (filter (enabled specified) metas)"
  proof (intro set_eqI iffI)
    fix k assume "k \<in> {k. map_of fl k = Some True}"
    then obtain m where "find (\<lambda>m. smName m = k) metas = Some m" "enabled specified m"
      using spec(3) [of k] by (auto split: option.splits)
    then show "k \<in> smName ` set (filter (enabled specified) metas)" by (auto simp: find_Some_iff)
  next
    fix k assume "k \<in> smName ` set (filter (enabled specified) metas)"
    with at show "k \<in> {k. map_of fl k = Some True}" by auto
  qed
  moreover have "distinct (map smName (filter (enabled specified) metas))"
    using assms by (rule distinct_map_filter)
  then have "card (smName ` set (filter (enabled specified) metas)) = length (filter (enabled specified) metas)"
    by (metis distinct_card length_map list.set_map)
  ultimately have "count_steps fl = length (filter (enabled specified) metas)"
    using count_steps_card [OF spec(2)] by simp
  with Inr spec(1) at show ?thesis by simp
qed

text \<open>Which subtasks a task enables: with subtask names unique in the plugin, the flags are
  refused exactly if a specified subtask is unknown; otherwise a subtask is enabled if it is required, or, with
  nothing specified, by its default, or if it is specified, and the announced number of steps is
  the number of enabled subtasks.\<close>

theorem subtask_flags_enable:
  assumes "distinct (map smName metas)"
  shows "case subtask_flags metas specified of
      Inl e \<Rightarrow> (\<exists>t \<in> set specified - smName ` set metas. e = New Default (''subtask '' @ t @ '' does not exist''))
    | Inr fl \<Rightarrow> set specified \<subseteq> smName ` set metas \<and>
        (\<forall>m \<in> set metas. map_of fl (smName m) = Some (enabled specified m)) \<and>
        count_steps fl = length (filter (enabled specified) metas)"
  using assms by (rule subtask_flags_enable_aux)

definition meta_example :: "string \<Rightarrow> bool \<Rightarrow> bool \<Rightarrow> unit svc \<Rightarrow> nat SubTaskMeta" where
  "meta_example name req def run =
     \<lparr>smName = name, smEntryPoint = (\<lambda>_. run), smRequired = req, smEnabledByDefault = def\<rparr>"

lemma meta_example_simps [simp]:
  "smName (meta_example n r d m) = n" "smRequired (meta_example n r d m) = r"
  "smEnabledByDefault (meta_example n r d m) = d" "smEntryPoint (meta_example n r d m) x = m"
  by (simp_all add: meta_example_def)

text \<open>A plugin with three subtasks of which the last fails.\<close>

definition plugin_example :: "nat PluginTask" where
  "plugin_example = \<lparr>plSubTaskMetas = [meta_example ''collect'' True False (ret ()),
      meta_example ''extract'' False True (ret ()),
      meta_example ''convert'' False True (fail (External ''boom''))],
    plPrepareTaskData = (\<lambda>_. ret 0), plClose = None\<rparr>"

theorem subtask_flags_enable_witness:
  "case subtask_flags (plSubTaskMetas plugin_example) [''convert''] of Inl e \<Rightarrow> False | Inr fl \<Rightarrow> count_steps fl = 2"
proof -
  have "distinct (map smName (plSubTaskMetas plugin_example))" by (simp add: plugin_example_def)
  from subtask_flags_enable [OF this, of "[''convert'']"] show ?thesis
    by (auto simp: plugin_example_def enabled_def split: sum.splits)
qed

section \<open>The order of the subtasks\<close>

text \<open>What code outside the services leaves alone: it reads and writes its own tables only.\<close>

definition tables :: "world \<Rightarrow> task list \<times> pipeline list \<times> (id64 \<times> string) list \<times> subtask_row list \<times> string option list" where
  "tables w = (w_tasks w, w_pipelines w, w_labels w, w_subtasks w, w_faults w)"

definition hands_off :: "'a svc \<Rightarrow> bool" where
  "hands_off m \<longleftrightarrow> (\<forall>w. w_faults w = [] \<longrightarrow> tables (snd (m w)) = tables w)"

lemma hands_offD: "hands_off m \<Longrightarrow> m w = (r, w') \<Longrightarrow> w_faults w = [] \<Longrightarrow> tables w' = tables w"
  unfolding hands_off_def by (metis snd_conv)

lemma hands_off_simps [simp]: "hands_off (ret x)" "hands_off (fail e)" "hands_off (panic e)" "hands_off (send i p)"
  by (simp_all add: hands_off_def tables_def send_def)

text \<open>The rows the loop records for the subtasks \<open>ms\<close> it starts after \<open>num\<close> others.\<close>

definition subtask_rows :: "'d env \<Rightarrow> id64 \<Rightarrow> nat \<Rightarrow> 'd SubTaskMeta list \<Rightarrow> subtask_row list" where
  "subtask_rows env i num ms = map (\<lambda>(n, m). \<lparr>sTaskID = i, sName = smName m, sNumber = n + 1,
     sSpentSeconds = subtask_spent env i (n + 1)\<rparr>) (enumerate num ms)"

lemma subtask_rows_simps [simp]:
  "subtask_rows env i num [] = []"
  "subtask_rows env i num (m # ms) = \<lparr>sTaskID = i, sName = smName m, sNumber = Suc num,
     sSpentSeconds = subtask_spent env i (Suc num)\<rparr> # subtask_rows env i (Suc num) ms"
  by (simp_all add: subtask_rows_def)

lemma runSubtask_tables:
  assumes "w_faults w = []" "hands_off (smEntryPoint m d)" "runSubtask env i n m d w = (r, w')"
  shows "r = fst (smEntryPoint m d w) \<and> w_faults w' = [] \<and> w_tasks w' = w_tasks w \<and>
    w_pipelines w' = w_pipelines w \<and> w_labels w' = w_labels w \<and>
    w_subtasks w' = w_subtasks w @ [\<lparr>sTaskID = i, sName = smName m, sNumber = n, sSpentSeconds = subtask_spent env i n\<rparr>]"
proof -
  obtain r1 w1 where e: "smEntryPoint m d w = (r1, w1)" by (cases "smEntryPoint m d w")
  from hands_offD [OF assms(2) e assms(1)] assms(1) have t: "tables w1 = tables w" and f: "w_faults w1 = []"
    by (simp_all add: tables_def)
  show ?thesis
    using assms(3) f t
    by (auto simp: runSubtask_def deferred_def e recordSubtask_def bind_svc_def attempt_def store_simps
        tables_def)
qed

text \<open>The outcome of starting subtasks in order, \<open>vs\<close> being the worlds in which they were started: all
  of them ran and returned nil, or all but the last one started did and the last one stopped the run.\<close>

definition went_well :: "'d \<Rightarrow> 'd SubTaskMeta list \<Rightarrow> world list \<Rightarrow> bool" where
  "went_well d ms vs \<longleftrightarrow> list_all2 (\<lambda>m v. fst (smEntryPoint m d v) = Ok ()) ms vs"

definition stopped_at :: "'d \<Rightarrow> 'd SubTaskMeta list \<Rightarrow> world list \<Rightarrow> unit result \<Rightarrow> bool" where
  "stopped_at d run vs r \<longleftrightarrow> (case r of
      Ok _ \<Rightarrow> went_well d run vs
    | Err e \<Rightarrow> (\<exists>m ms us v c. run = us @ m # ms \<and> vs \<noteq> [] \<and> went_well d us (butlast vs) \<and> v = last vs \<and>
        fst (smEntryPoint m d v) = Err c \<and>
        e = newSingleCrdbError SubtaskErr (Some c) (''subtask '' @ smName m @ '' ended unexpectedly'') (Some (smName m)))
    | Panic e \<Rightarrow> (\<exists>m ms us v. run = us @ m # ms \<and> vs \<noteq> [] \<and> went_well d us (butlast vs) \<and> v = last vs \<and>
        fst (smEntryPoint m d v) = Panic e))"

lemma stopped_at_Suc:
  assumes "stopped_at d run vs r" "fst (smEntryPoint m d v) = Ok ()"
  shows "stopped_at d (m # run) (v # vs) r"
proof (cases r)
  case (Ok u)
  with assms show ?thesis by (simp add: stopped_at_def went_well_def)
next
  case (Err e)
  with assms obtain n ms us c where s: "run = us @ n # ms" "vs \<noteq> []" "went_well d us (butlast vs)"
      "fst (smEntryPoint n d (last vs)) = Err c"
      "e = newSingleCrdbError SubtaskErr (Some c) (''subtask '' @ smName n @ '' ended unexpectedly'') (Some (smName n))"
    by (auto simp: stopped_at_def)
  from s(1) have "m # run = (m # us) @ n # ms" by simp
  with s(2-) assms(2) show ?thesis unfolding Err stopped_at_def result.case
    by (intro exI [of _ n] exI [of _ ms] exI [of _ "m # us"] exI [of _ "last vs"] exI [of _ c]) (simp add: went_well_def)
next
  case (Panic e)
  with assms obtain n ms us where s: "run = us @ n # ms" "vs \<noteq> []" "went_well d us (butlast vs)"
      "fst (smEntryPoint n d (last vs)) = Panic e"
    by (auto simp: stopped_at_def)
  from s(1) have "m # run = (m # us) @ n # ms" by simp
  with s(2-) assms(2) show ?thesis unfolding Panic stopped_at_def result.case
    by (intro exI [of _ n] exI [of _ ms] exI [of _ "m # us"] exI [of _ "last vs"]) (simp add: went_well_def)
qed

lemma run_subtasks_order:
  assumes "w_faults w = []" "\<forall>m \<in> set ms. hands_off (smEntryPoint m d) \<and> map_of fl (smName m) \<noteq> None"
    and "run_subtasks env i fl steps d num ms w = (r, w')"
  shows "\<exists>vs. stopped_at d (filter (\<lambda>m. map_of fl (smName m) = Some True) ms) vs r \<and>
    (\<forall>j < length vs. w_subtasks (vs ! j) = w_subtasks w @
       subtask_rows env i num (take j (filter (\<lambda>m. map_of fl (smName m) = Some True) ms))) \<and>
    w_subtasks w' = w_subtasks w @
      subtask_rows env i num (take (length vs) (filter (\<lambda>m. map_of fl (smName m) = Some True) ms)) \<and>
    w_faults w' = [] \<and> w_tasks w' = w_tasks w \<and> w_pipelines w' = w_pipelines w \<and> w_labels w' = w_labels w"
  using assms
proof (induction ms arbitrary: num w)
  case Nil
  then show ?case by (intro exI [of _ "[]"]) (auto simp: stopped_at_def went_well_def)
next
  case (Cons m ms)
  let ?run = "filter (\<lambda>m. map_of fl (smName m) = Some True) ms"
  from Cons.prems(2) obtain b where b: "map_of fl (smName m) = Some b" by auto
  have off: "\<forall>m \<in> set ms. hands_off (smEntryPoint m d) \<and> map_of fl (smName m) \<noteq> None"
    and offm: "hands_off (smEntryPoint m d)" using Cons.prems(2) by auto
  show ?case
  proof (cases b)
    case False
    with Cons.prems(3) b have "run_subtasks env i fl steps d num ms w = (r, w')" by simp
    from Cons.IH [OF Cons.prems(1) off this] b False show ?thesis by simp
  next
    case True
    define w1 where "w1 = w\<lparr>w_progress := w_progress w @ [(i, SetCurrentSubTask (smName m) (int num + 1))]\<rparr>"
    have f1: "w_faults w1 = []" using Cons.prems(1) by (simp add: w1_def)
    obtain r2 w2 where sub: "runSubtask env i (Suc num) m d w1 = (r2, w2)" by (cases "runSubtask env i (Suc num) m d w1")
    note t2 = runSubtask_tables [OF f1 offm sub]
    have loop: "run_subtasks env i fl steps d num (m # ms) w = (case r2 of
        Ok _ \<Rightarrow> run_subtasks env i fl steps d (Suc num) ms
          (w2\<lparr>w_progress := w_progress w2 @ [(i, TaskIncProgress (int num + 1) (int steps))]\<rparr>)
      | Err c \<Rightarrow> (Err (newSingleCrdbError SubtaskErr (Some c) (''subtask '' @ smName m @ '' ended unexpectedly'')
              (Some (smName m))), w2)
      | Panic c \<Rightarrow> (Panic c, w2))"
      using b True sub by (simp add: bind_svc_def send_def attempt_def flip: w1_def split: result.splits)
    show ?thesis
    proof (cases r2)
      case (Ok u)
      let ?w3 = "w2\<lparr>w_progress := w_progress w2 @ [(i, TaskIncProgress (int num + 1) (int steps))]\<rparr>"
      from loop Ok Cons.prems(3) have "run_subtasks env i fl steps d (Suc num) ms ?w3 = (r, w')" by simp
      from Cons.IH [OF _ off this] t2 obtain vs where vs: "stopped_at d ?run vs r"
        "\<forall>j < length vs. w_subtasks (vs ! j) = w_subtasks ?w3 @ subtask_rows env i (Suc num) (take j ?run)"
        "w_subtasks w' = w_subtasks ?w3 @ subtask_rows env i (Suc num) (take (length vs) ?run)"
        "w_faults w' = []" "w_tasks w' = w_tasks ?w3" "w_pipelines w' = w_pipelines ?w3" "w_labels w' = w_labels ?w3"
        by auto
      have "fst (smEntryPoint m d w1) = Ok ()" using t2 Ok by simp
      from stopped_at_Suc [OF vs(1) this] vs(2-) t2 b True show ?thesis
        by (intro exI [of _ "w1 # vs"]) (simp add: w1_def All_less_Suc2)
    next
      case (Err c)
      with loop Cons.prems(3) have "r = Err (newSingleCrdbError SubtaskErr (Some c)
          (''subtask '' @ smName m @ '' ended unexpectedly'') (Some (smName m)))" "w' = w2" by simp_all
      moreover have "fst (smEntryPoint m d w1) = Err c" using t2 Err by simp
      ultimately show ?thesis using t2 b True
        by (intro exI [of _ "[w1]"]) (auto simp: stopped_at_def went_well_def w1_def)
    next
      case (Panic c)
      with loop Cons.prems(3) have "r = Panic c" "w' = w2" by simp_all
      moreover have "fst (smEntryPoint m d w1) = Panic c" using t2 Panic by simp
      ultimately show ?thesis using t2 b True
        by (intro exI [of _ "[w1]"]) (auto simp: stopped_at_def went_well_def w1_def)
    qed
  qed
qed

text \<open>C34. \<open>RunPluginSubTasks\<close> starts the enabled subtasks of the plugin in the order of its
  \<open>SubTaskMetas\<close>, one only after those before it returned nil and were recorded, records a row for
  each one started, failed ones included, numbered from 1, and stops at the first that fails or panics: the
  error it returns is then the subtask's, wrapped as \<open>SubtaskErr\<close> with that subtask as its data; it
  returns nil only if all of them ran and returned nil. \<open>vs\<close> are the worlds the subtasks started in.\<close>

theorem RunPluginSubTasks_order:
  assumes "w_faults w = []" and "distinct (map smName (plSubTaskMetas pl))"
    and "set (tSubtasks t) \<subseteq> smName ` set (plSubTaskMetas pl)"
    and "\<And>v. plPrepareTaskData pl (tOptions t) v = (Ok d, v)"
    and "\<And>m. m \<in> set (plSubTaskMetas pl) \<Longrightarrow> hands_off (smEntryPoint m d)"
    and "plClose pl = None"
  shows "\<exists>vs. let run = filter (enabled (tSubtasks t)) (plSubTaskMetas pl); (r, w') = RunPluginSubTasks env t pl w
    in stopped_at d run vs r \<and>
       (\<forall>j < length vs. w_subtasks (vs ! j) = w_subtasks w @ subtask_rows env (tID t) 0 (take j run)) \<and>
       w_subtasks w' = w_subtasks w @ subtask_rows env (tID t) 0 (take (length vs) run) \<and>
       w_tasks w' = w_tasks w \<and> w_pipelines w' = w_pipelines w"
proof -
  note flags = subtask_flags_enable_aux [OF assms(2), of "tSubtasks t"]
  from flags assms(3) obtain fl where fl: "subtask_flags (plSubTaskMetas pl) (tSubtasks t) = Inr fl"
    and at: "\<forall>m \<in> set (plSubTaskMetas pl). map_of fl (smName m) = Some (enabled (tSubtasks t) m)"
    by (auto split: sum.splits)
  let ?w1 = "w\<lparr>w_progress := w_progress w @ [(tID t, TaskSetProgress 0 (int (count_steps fl)))]\<rparr>"
  obtain r w' where run: "run_subtasks env (tID t) fl (count_steps fl) d 0 (plSubTaskMetas pl) ?w1 = (r, w')"
    by (cases "run_subtasks env (tID t) fl (count_steps fl) d 0 (plSubTaskMetas pl) ?w1")
  have all: "RunPluginSubTasks env t pl w = (r, w')"
    using assms(4,6) fl run by (simp add: RunPluginSubTasks_def prepare_and_run_def bind_svc_def wrap_err_def send_def)
  have run_eq: "filter (\<lambda>m. map_of fl (smName m) = Some True) (plSubTaskMetas pl) =
      filter (enabled (tSubtasks t)) (plSubTaskMetas pl)"
    using at by (intro filter_cong) auto
  have "w_faults ?w1 = []" using assms(1) by simp
  moreover have "\<forall>m \<in> set (plSubTaskMetas pl). hands_off (smEntryPoint m d) \<and> map_of fl (smName m) \<noteq> None"
    using at assms(5) by simp
  ultimately obtain vs where "stopped_at d (filter (enabled (tSubtasks t)) (plSubTaskMetas pl)) vs r \<and>
      (\<forall>j < length vs. w_subtasks (vs ! j) = w_subtasks w @
         subtask_rows env (tID t) 0 (take j (filter (enabled (tSubtasks t)) (plSubTaskMetas pl)))) \<and>
      w_subtasks w' = w_subtasks w @
        subtask_rows env (tID t) 0 (take (length vs) (filter (enabled (tSubtasks t)) (plSubTaskMetas pl))) \<and>
      w_tasks w' = w_tasks w \<and> w_pipelines w' = w_pipelines w"
    using run_subtasks_order [OF _ _ run] unfolding run_eq by auto
  then show ?thesis unfolding all Let_def prod.case by (rule exI)
qed

definition env_example :: "nat env" where
  "env_example = \<lparr>env_plugins = Some [(''github'', TaskPlugin plugin_example)], began_at = (\<lambda>_. 0),
     finished_at = (\<lambda>_. 5), subtask_spent = (\<lambda>_ _. 1), logger_err = (\<lambda>_. None),
     error_text = (\<lambda>e. Format (Messages e)), call_frames = [], task_schedule = (\<lambda>is. is),
     pipeline_began = (\<lambda>_. 0), pipeline_finished = (\<lambda>_. 9), temporal_run = None, notify = None\<rparr>"

theorem RunPluginSubTasks_order_witness:
  "\<exists>vs. let run = filter (enabled []) (plSubTaskMetas plugin_example);
      (r, w') = RunPluginSubTasks env_example (task_example 1 1 TASK_CREATED) plugin_example world0
    in map smName run = [''collect'', ''extract'', ''convert''] \<and> stopped_at 0 run vs r"
proof -
  let ?t = "task_example 1 1 TASK_CREATED"
  have sub: "tSubtasks ?t = []" by simp
  have "w_faults world0 = []" by (simp add: world0_def)
  moreover have "distinct (map smName (plSubTaskMetas plugin_example))" by (simp add: plugin_example_def)
  moreover have "set (tSubtasks ?t) \<subseteq> smName ` set (plSubTaskMetas plugin_example)" by simp
  moreover have "\<And>v. plPrepareTaskData plugin_example (tOptions ?t) v = (Ok 0, v)" by (simp add: plugin_example_def)
  moreover have "\<And>m. m \<in> set (plSubTaskMetas plugin_example) \<Longrightarrow> hands_off (smEntryPoint m 0)"
    by (auto simp: plugin_example_def)
  moreover have "plClose plugin_example = None" by (simp add: plugin_example_def)
  ultimately have "\<exists>vs. let run = filter (enabled (tSubtasks ?t)) (plSubTaskMetas plugin_example);
      (r, w') = RunPluginSubTasks env_example ?t plugin_example world0
    in stopped_at 0 run vs r \<and>
       (\<forall>j < length vs. w_subtasks (vs ! j) = w_subtasks world0 @ subtask_rows env_example (tID ?t) 0 (take j run)) \<and>
       w_subtasks w' = w_subtasks world0 @ subtask_rows env_example (tID ?t) 0 (take (length vs) run) \<and>
       w_tasks w' = w_tasks world0 \<and> w_pipelines w' = w_pipelines world0"
    by (rule RunPluginSubTasks_order)
  then show ?thesis
    unfolding sub by (auto simp: Let_def plugin_example_def enabled_def)
qed

section \<open>Finalizing a task\<close>

text \<open>Code that leaves the tasks, the pipelines and the failure schedule alone, as
  \<open>RunPluginTask\<close> does when its plugin does.\<close>

definition rows_off :: "'a svc \<Rightarrow> bool" where
  "rows_off m \<longleftrightarrow> (\<forall>w. w_faults w = [] \<longrightarrow> w_faults (snd (m w)) = [] \<and>
     w_tasks (snd (m w)) = w_tasks w \<and> w_pipelines (snd (m w)) = w_pipelines w)"

text \<open>C4. However the plugin of a task ends, \<open>RunTask\<close> leaves the task finished: when no database
  call fails, the row is \<open>TASK_COMPLETED\<close> if the plugin returned nil and \<open>TASK_FAILED\<close> if it
  returned an error or panicked, with the times of the run; the other tasks are as before, the
  pipeline counts one more finished task, and the error is reported unless the pipeline is to skip failures.\<close>

theorem RunTask_finalizes:
  assumes "w_faults w = []" and t: "t \<in> set (w_tasks w)" "distinct (map tID (w_tasks w))"
    and p: "p \<in> set (w_pipelines w)" "distinct (map pID (w_pipelines w))" "pID p = tPipelineId t"
    and "tStatus t \<noteq> TASK_COMPLETED" and "logger_err env (tID t) = None"
    and off: "rows_off (RunPluginTask env t)"
  shows "\<exists>row out w'. RunTask env (tID t) w = (out, w') \<and>
    w_tasks w' = map (\<lambda>r. if tID r = tID t then row else r) (w_tasks w) \<and>
    w_pipelines w' = map (\<lambda>r. if pID r = pID p then r\<lparr>pFinishedTasks := pFinishedTasks r + 1\<rparr> else r) (w_pipelines w) \<and>
    tID row = tID t \<and> tBeganAt row = Some (began_at env (tID t)) \<and> tFinishedAt row = Some (finished_at env (tID t)) \<and>
    (let r = fst (RunPluginTask env t (w\<lparr>w_tasks := map (\<lambda>r. if tID r = tID t then t\<lparr>tStatus := TASK_RUNNING,
          tMessage := [], tBeganAt := Some (began_at env (tID t))\<rparr> else r) (w_tasks w)\<rparr>))
     in tStatus row = (if r = Ok () then TASK_COMPLETED else TASK_FAILED) \<and>
        (out = Ok () \<longleftrightarrow> r = Ok () \<or> pSkipOnFail p))"
proof -
  have one: "filter (\<lambda>r. tID r = tID t) (w_tasks w) = [t]" using t by (rule filter_key_unique)
  have onep: "filter (\<lambda>q. pID q = tPipelineId t) (w_pipelines w) = [p]"
    using filter_key_unique [OF p(1,2)] p(3) by simp
  let ?run = "t\<lparr>tStatus := TASK_RUNNING, tMessage := [], tBeganAt := Some (began_at env (tID t))\<rparr>"
  have uniq: "r = t" if "r \<in> set (w_tasks w)" "tID r = tID t" for r
    using that t by (auto simp: distinct_map dest: inj_onD)
  define w1 where "w1 = w\<lparr>w_tasks := map (\<lambda>r. if tID r = tID t then ?run else r) (w_tasks w)\<rparr>"
  have start: "update_where (\<lambda>r. tID r = tID t) (\<lambda>r. r\<lparr>tStatus := TASK_RUNNING, tMessage := [],
      tBeganAt := Some (began_at env (tID t))\<rparr>) (w_tasks w) = w_tasks w1"
    using uniq by (auto simp: w1_def update_where_def)
  obtain r w2 where run: "RunPluginTask env t w1 = (r, w2)" by (cases "RunPluginTask env t w1")
  have f1: "w_faults w1 = []" and p1: "w_pipelines w1 = w_pipelines w" using assms(1) by (simp_all add: w1_def)
  from off [unfolded rows_off_def, rule_format, OF f1] run p1
  have w2: "w_faults w2 = []" "w_tasks w2 = w_tasks w1" "w_pipelines w2 = w_pipelines w" by simp_all
  define fin where "fin = (case recovered env r of None \<Rightarrow> mark_completed env t ?run | Some e \<Rightarrow> mark_failed env t e ?run)"
  have upd: "update_where (\<lambda>r. tID r = tID t) (case recovered env r of None \<Rightarrow> mark_completed env t
      | Some e \<Rightarrow> mark_failed env t e) (w_tasks w1) = map (\<lambda>r. if tID r = tID t then fin else r) (w_tasks w)"
    by (auto simp: w1_def update_where_def fin_def split: option.splits)
  let ?w3 = "w2\<lparr>w_tasks := map (\<lambda>r. if tID r = tID t then fin else r) (w_tasks w),
    w_pipelines := map (\<lambda>r. if pID r = pID p then r\<lparr>pFinishedTasks := pFinishedTasks r + 1\<rparr> else r) (w_pipelines w)\<rparr>"
  have st: "start_task env t w = (r, w2)"
    using assms(1) run by (simp add: start_task_def UpdateTasks_def bind_svc_def store_simps start flip: w1_def)
      (simp add: w1_def)
  have "RunTask env (tID t) w = (if pSkipOnFail p then Ok () else case recovered env r of None \<Rightarrow> Ok () | Some e \<Rightarrow> Err e, ?w3)"
    using assms(1,7,8) w2 p(3)
    by (auto simp: RunTask_def bind_svc_def store_simps one onep run_and_finalize_def st finalize_task_def
        attempt_def UpdateTasks_def UpdatePipelines_def upd update_where_def [where f = "\<lambda>p. p\<lparr>pFinishedTasks := X p\<rparr>" for X]
        split: option.splits)
  moreover have "recovered env r = None \<longleftrightarrow> r = Ok ()"
    by (cases r) (simp_all add: recovered_def Wrap_def)
  moreover have "tID fin = tID t \<and> tBeganAt fin = Some (began_at env (tID t)) \<and>
      tFinishedAt fin = Some (finished_at env (tID t)) \<and>
      tStatus fin = (if recovered env r = None then TASK_COMPLETED else TASK_FAILED)"
    by (auto simp: fin_def mark_completed_def mark_failed_def split: option.splits prod.splits)
  ultimately show ?thesis
    using run unfolding w1_def
    by (intro exI [of _ fin] exI [of _ "fst (RunTask env (tID t) w)"] exI [of _ ?w3])
      (auto simp: Let_def split: option.splits)
qed

theorem RunTask_finalizes_witness:
  "\<exists>row w'. RunTask env_example 1 world_example = (Ok (), w') \<and> row \<in> set (w_tasks w') \<and>
     tID row = 1 \<and> tStatus row = TASK_FAILED \<and> tFinishedAt row = Some 5"
proof -
  let ?t = "task_example 1 1 TASK_FAILED" and ?p = "pipeline_example TASK_PARTIAL"
  have "?t \<in> set (w_tasks world_example)" "?p \<in> set (w_pipelines world_example)"
    "distinct (map pID (w_pipelines world_example))" "pID ?p = tPipelineId ?t"
    "tStatus ?t \<noteq> TASK_COMPLETED" "logger_err env_example (tID ?t) = None"
    by (simp_all add: world_example_def pipeline_example_def env_example_def)
  moreover have fails: "RunPluginTask env_example ?t v = (Err e, v') \<Longrightarrow> True" for v e v' by simp
  have run: "\<exists>e v'. RunPluginTask env_example ?t v = (Err e, v') \<and> w_faults v' = [] \<and>
      w_tasks v' = w_tasks v \<and> w_pipelines v' = w_pipelines v" if "w_faults v = []" for v
    using that
    by (simp add: RunPluginTask_def GetPlugin_def env_example_def RunPluginSubTasks_def plugin_example_def
        subtask_flags_def default_flags_def enable_required_def prepare_and_run_def bind_svc_def wrap_err_def
        send_def attempt_def runSubtask_def deferred_def recordSubtask_def store_simps Let_def)
  then have "rows_off (RunPluginTask env_example ?t)" unfolding rows_off_def by (metis snd_conv)
  ultimately obtain row out w' where fin: "RunTask env_example (tID ?t) world_example = (out, w')"
    "w_tasks w' = map (\<lambda>r. if tID r = tID ?t then row else r) (w_tasks world_example)"
    "tID row = tID ?t" "tFinishedAt row = Some (finished_at env_example (tID ?t))"
    "let r = fst (RunPluginTask env_example ?t (world_example\<lparr>w_tasks := map (\<lambda>r. if tID r = tID ?t then ?t\<lparr>tStatus := TASK_RUNNING,
          tMessage := [], tBeganAt := Some (began_at env_example (tID ?t))\<rparr> else r) (w_tasks world_example)\<rparr>))
     in tStatus row = (if r = Ok () then TASK_COMPLETED else TASK_FAILED) \<and> (out = Ok () \<longleftrightarrow> r = Ok () \<or> pSkipOnFail ?p)"
    using RunTask_finalizes [of world_example ?t ?p env_example] world_example_simps by blast
  let ?v = "world_example\<lparr>w_tasks := map (\<lambda>r. if tID r = tID ?t then ?t\<lparr>tStatus := TASK_RUNNING,
          tMessage := [], tBeganAt := Some (began_at env_example (tID ?t))\<rparr> else r) (w_tasks world_example)\<rparr>"
  have "w_faults ?v = []" by simp
  from run [OF this] have "fst (RunPluginTask env_example ?t ?v) \<noteq> Ok ()" by (metis fst_conv result.distinct(1))
  with fin(5) have "tStatus row = TASK_FAILED" "out = Ok ()"
    by (simp_all add: Let_def pipeline_example_def)
  with fin(1-4) show ?thesis
    by (intro exI [of _ row] exI [of _ w']) (simp add: world_example_def env_example_def)
qed

section \<open>The registry of running tasks\<close>

text \<open>Starting a task that runs already is refused, but the deferred cleanup of the refused start drops the
  running task from the registry: it can no longer be cancelled.\<close>

theorem runTaskStandalone_twice:
  assumes "map_of (w_running w) taskId = Some d"
  shows "runTaskStandalone env taskId w = (Err (New Default (''task with id '' @ show_nat taskId @ '' already running'')),
      w\<lparr>w_running := remove_key taskId (w_running w)\<rparr>) \<and>
    rt_get taskId (snd (runTaskStandalone env taskId w)) = None \<and>
    CancelTask taskId (snd (runTaskStandalone env taskId w)) =
      (Err (New NotFound (''task with id '' @ show_nat taskId @ '' not found'')), snd (runTaskStandalone env taskId w))"
proof -
  have "map_of (remove_key taskId (w_running w)) taskId = None"
    by (auto simp: remove_key_def map_of_eq_None_iff)
  with assms show ?thesis
    by (simp add: runTaskStandalone_def deferred_def bind_svc_def rt_add_def rt_remove_def rt_get_def CancelTask_def)
qed

theorem runTaskStandalone_twice_witness:
  "fst (CancelTask 1 (snd (runTaskStandalone env_example 1 (world_example\<lparr>w_running := [(1, empty_detail)]\<rparr>)))) =
     Err (New NotFound (''task with id '' @ show_nat 1 @ '' not found''))"
proof -
  have "map_of (w_running (world_example\<lparr>w_running := [(1, empty_detail)]\<rparr>)) 1 = Some empty_detail" by simp
  from runTaskStandalone_twice [OF this, of env_example] show ?thesis by (metis fst_conv)
qed

section \<open>The rows of a pipeline\<close>

lemma mset_concat_update:
  "i < length xs \<Longrightarrow> mset (concat (xs[i := xs ! i @ [a]])) = add_mset a (mset (concat xs))"
  by (induction xs arbitrary: i) (auto split: nat.splits)

lemma add_to_row_facts:
  assumes "tPipelineRow t \<noteq> 0"
  shows "length (add_to_row rows t) = max (length rows) (tPipelineRow t)"
    and "mset (concat (add_to_row rows t)) = add_mset (tID t) (mset (concat rows))"
    and "i < length (add_to_row rows t) \<Longrightarrow> add_to_row rows t ! i =
      (if i < length rows then rows ! i else []) @ (if tPipelineRow t = i + 1 then [tID t] else [])"
proof -
  let ?rows' = "rows @ replicate (tPipelineRow t - length rows) []"
  have len: "length ?rows' = max (length rows) (tPipelineRow t)" by simp
  then show "length (add_to_row rows t) = max (length rows) (tPipelineRow t)" by (simp add: add_to_row_def Let_def)
  have "tPipelineRow t - 1 < length ?rows'" using assms len by simp
  from mset_concat_update [OF this, of "tID t"]
  show "mset (concat (add_to_row rows t)) = add_mset (tID t) (mset (concat rows))"
    by (simp add: add_to_row_def Let_def)
  assume "i < length (add_to_row rows t)"
  then have i: "i < length ?rows'" by (simp add: add_to_row_def Let_def)
  have "?rows' ! i = (if i < length rows then rows ! i else [])" using i by (simp add: nth_append)
  with i assms show "add_to_row rows t ! i =
      (if i < length rows then rows ! i else []) @ (if tPipelineRow t = i + 1 then [tID t] else [])"
    by (auto simp: add_to_row_def Let_def nth_list_update)
qed

lemma group_rows_facts:
  assumes "\<forall>t \<in> set ts. tPipelineRow t \<noteq> 0"
  shows "\<exists>rows'. group_rows rows ts = Some rows' \<and> length rows \<le> length rows' \<and>
    mset (concat rows') = mset (concat rows) + mset (map tID ts) \<and>
    (\<forall>i < length rows'. rows' ! i = (if i < length rows then rows ! i else []) @
       map tID (filter (\<lambda>t. tPipelineRow t = i + 1) ts))"
  using assms
proof (induction ts arbitrary: rows)
  case (Cons t ts)
  then have t: "tPipelineRow t \<noteq> 0" by simp
  note add = add_to_row_facts [OF t, where rows = rows]
  from Cons obtain rows' where rows': "group_rows (add_to_row rows t) ts = Some rows'"
    "length (add_to_row rows t) \<le> length rows'"
    "mset (concat rows') = mset (concat (add_to_row rows t)) + mset (map tID ts)"
    "\<forall>i < length rows'. rows' ! i = (if i < length (add_to_row rows t) then add_to_row rows t ! i else []) @
       map tID (filter (\<lambda>t. tPipelineRow t = i + 1) ts)"
    by (metis list.set_intros(2))
  have "rows' ! i = (if i < length rows then rows ! i else []) @ map tID (filter (\<lambda>t. tPipelineRow t = i + 1) (t # ts))"
    if "i < length rows'" for i
    using rows'(4) that add(1) add(3) [of i] by (auto simp: max_def split: if_splits)
  with rows' t add(1,2) show ?case by auto
qed simp

text \<open>C3. \<open>RunPipeline\<close> runs exactly the waiting tasks of the pipeline (created or to rerun), row by row: when no
  call fails and rows count from 1, it hands \<open>runPipelineTasks\<close> a list whose row \<open>i\<close> holds the ids of the waiting tasks
  of that row by increasing column, every waiting task in one of them.\<close>

theorem RunPipeline_rows:
  assumes "w_faults w = []"
    and "\<forall>t \<in> set (w_tasks w). tPipelineId t = pid \<longrightarrow> 1 \<le> tPipelineRow t"
  shows "\<exists>rows. RunPipeline pid runTasks w = runPipelineTasks pid rows runTasks w \<and>
    (\<forall>i < length rows. \<exists>ts. rows ! i = map tID ts \<and> sorted (map tPipelineCol ts) \<and>
       set ts = {t \<in> set (w_tasks w). tPipelineId t = pid \<and> tStatus t \<in> {TASK_CREATED, TASK_RERUN} \<and> tPipelineRow t = i + 1}) \<and>
    mset (concat rows) = mset (map tID (filter (\<lambda>t. tPipelineId t = pid \<and> tStatus t \<in> {TASK_CREATED, TASK_RERUN}) (w_tasks w)))"
proof -
  have set_r: "set (runnable_tasks pid w) = {t \<in> set (w_tasks w). tPipelineId t = pid \<and> tStatus t \<in> {TASK_CREATED, TASK_RERUN}}"
    by (auto simp: runnable_tasks_def)
  have mset_r: "mset (runnable_tasks pid w) = mset (filter (\<lambda>t. tPipelineId t = pid \<and> tStatus t \<in> {TASK_CREATED, TASK_RERUN}) (w_tasks w))"
    by (simp add: runnable_tasks_def)
  have "\<forall>t \<in> set (runnable_tasks pid w). tPipelineRow t \<noteq> 0" using assms(2) set_r by force
  from group_rows_facts [OF this, of "[]"] obtain rows where
    g: "group_rows [] (runnable_tasks pid w) = Some rows" and m: "mset (concat rows) = mset (map tID (runnable_tasks pid w))"
    and nth: "\<forall>i < length rows. rows ! i = map tID (filter (\<lambda>t. tPipelineRow t = i + 1) (runnable_tasks pid w))"
    by auto
  have run: "RunPipeline pid runTasks w = runPipelineTasks pid rows runTasks w"
    using assms(1) g by (simp add: RunPipeline_def bind_svc_def store_simps)
  have srt: "sorted (map tPipelineCol (filter (\<lambda>t. tPipelineRow t = r) (runnable_tasks pid w)))" for r
  proof -
    have "filter (\<lambda>t. tPipelineRow t = r) (runnable_tasks pid w) = filter (\<lambda>t. tPipelineRow t = r)
        (sort_key tPipelineCol (filter (\<lambda>t. tPipelineId t = pid \<and> tStatus t \<in> {TASK_CREATED, TASK_RERUN}) (w_tasks w)))"
      unfolding runnable_tasks_def by (rule sort_key_stable)
    then show ?thesis by (simp add: sorted_filter)
  qed
  have "mset (map tID (runnable_tasks pid w)) = mset (map tID (filter (\<lambda>t. tPipelineId t = pid \<and>
      tStatus t \<in> {TASK_CREATED, TASK_RERUN}) (w_tasks w)))"
    unfolding mset_map mset_r ..
  with m have "mset (concat rows) = mset (map tID (filter (\<lambda>t. tPipelineId t = pid \<and>
      tStatus t \<in> {TASK_CREATED, TASK_RERUN}) (w_tasks w)))" by (rule trans)
  moreover have "\<exists>ts. rows ! i = map tID ts \<and> sorted (map tPipelineCol ts) \<and>
      set ts = {t \<in> set (w_tasks w). tPipelineId t = pid \<and> tStatus t \<in> {TASK_CREATED, TASK_RERUN} \<and> tPipelineRow t = i + 1}"
    if "i < length rows" for i
    using nth that srt [of "i + 1"] set_r
    by (intro exI [of _ "filter (\<lambda>t. tPipelineRow t = i + 1) (runnable_tasks pid w)"]) auto
  ultimately show ?thesis using run by blast
qed

definition waiting_example :: world where
  "waiting_example = world0\<lparr>w_pipelines := [(pipeline_example TASK_RUNNING)\<lparr>pBeganAt := Some 0\<rparr>],
     w_tasks := [task_example 1 2 TASK_CREATED, task_example 2 1 TASK_CREATED, task_example 3 3 TASK_COMPLETED]\<rparr>"

theorem RunPipeline_rows_witness:
  "\<exists>rows. RunPipeline 7 (\<lambda>_. ret ()) waiting_example = runPipelineTasks 7 rows (\<lambda>_. ret ()) waiting_example \<and>
     mset (concat rows) = {#1, 2#}"
proof -
  have "w_faults waiting_example = []" "\<forall>t \<in> set (w_tasks waiting_example). tPipelineId t = 7 \<longrightarrow> 1 \<le> tPipelineRow t"
    by (simp_all add: waiting_example_def world0_def)
  from RunPipeline_rows [OF this, of "\<lambda>_. ret ()"] show ?thesis
    by (auto simp: waiting_example_def)
qed

section \<open>Stages\<close>

text \<open>One stage of a pipeline: its number is recorded, then its tasks run.\<close>

definition stage_step :: "(id64 list \<Rightarrow> unit svc) \<Rightarrow> pipeline \<Rightarrow> nat \<times> id64 list \<Rightarrow> unit svc" where
  "stage_step runTasks p s = (case s of (i, row) \<Rightarrow>
     bind_svc (UpdatePipelines (\<lambda>r. pID r = pID p) (\<lambda>r. r\<lparr>pStatus := TASK_RUNNING, pStage := i + 1\<rparr>))
       (\<lambda>_. runTasks row))"

text \<open>Without \<open>SkipOnFail\<close> the stages of a pipeline that began run one after the other, and the first
  error of a stage, of its update or of its tasks, ends the run with that error: the loop of \<open>runPipelineTasks\<close> is the
  sequence of its stages.\<close>

theorem run_rows_sequence:
  assumes "\<not> pSkipOnFail p" and "pBeganAt p \<noteq> None"
  shows "run_rows runTasks p i None rows w = each (stage_step runTasks p) (enumerate i rows) w"
proof (induction rows arbitrary: i w)
  case Nil
  with assms show ?case by (simp add: end_of_rows_def)
next
  case (Cons row rows)
  let ?upd = "UpdatePipelines (\<lambda>r. pID r = pID p) (\<lambda>r. r\<lparr>pStatus := TASK_RUNNING, pStage := i + 1\<rparr>)"
  obtain u w1 where u: "?upd w = (u, w1)" by (cases "?upd w")
  obtain r w2 where r: "runTasks row w1 = (r, w2)" by (cases "runTasks row w1")
  show ?case
    using assms u r Cons.IH [of "i + 1" w2]
    by (cases u; cases r) (simp_all add: bind_svc_def attempt_def stage_step_def end_of_rows_def)
qed

theorem run_rows_sequence_witness:
  "run_rows (\<lambda>row. if row = [2] then fail (External ''x'') else ret ())
     ((pipeline_example TASK_RUNNING)\<lparr>pBeganAt := Some 0, pSkipOnFail := False\<rparr>) 0 None [[1], [2], [3]] world0 =
   each (stage_step (\<lambda>row. if row = [2] then fail (External ''x'') else ret ())
     ((pipeline_example TASK_RUNNING)\<lparr>pBeganAt := Some 0, pSkipOnFail := False\<rparr>)) [(0, [1]), (1, [2]), (2, [3])] world0"
  using run_rows_sequence [of "(pipeline_example TASK_RUNNING)\<lparr>pBeganAt := Some 0, pSkipOnFail := False\<rparr>"
    "\<lambda>row. if row = [2] then fail (External ''x'') else ret ()" 0 "[[1], [2], [3]]" world0]
  by (simp add: numeral_2_eq_2)

section \<open>The end of a run\<close>

text \<open>When a run succeeded but reading the pipeline back fails, \<open>runPipeline\<close> returns nil: it wraps
  the error of the run, which is nil, instead of the new one, and the row keeps whatever status it had.\<close>

theorem runPipeline_drops_read_error:
  assumes "temporal_run env = None" and "GetPipeline pid w = (Ok ppl, w0)"
    and "runPipelineStandalone env ppl w0 = (Ok (), w1)" and "w_faults w1 = Some s # fs"
  shows "runPipeline env pid w = (Ok (), w1\<lparr>w_faults := fs\<rparr>)"
proof -
  have read: "\<exists>e. GetDbPipeline pid w1 = (Err e, w1\<lparr>w_faults := fs\<rparr>)"
    using assms(4)
    by (auto simp: GetDbPipeline_def bind_svc_def attempt_def db_first_def db_get_def db_def)
  then show ?thesis
    using assms(1-3)
    by (auto simp: runPipeline_def bind_svc_def attempt_def finish_pipeline_def Wrap_def Let_def)
qed

theorem runPipeline_drops_read_error_witness:
  "\<exists>w'. runPipeline env_example 7 (waiting_example\<lparr>w_tasks := [],
       w_faults := [None, None, None, None, None, Some ''connection lost'']\<rparr>) = (Ok (), w') \<and>
     map pStatus (w_pipelines w') = [TASK_RUNNING]"
proof -
  let ?w = "waiting_example\<lparr>w_tasks := [], w_faults := [None, None, None, None, None, Some ''connection lost'']\<rparr>"
  let ?p = "(pipeline_example TASK_RUNNING)\<lparr>pBeganAt := Some 0\<rparr>"
  have "GetPipeline 7 ?w = (Ok ?p, ?w\<lparr>w_faults := [None, None, Some ''connection lost'']\<rparr>)"
    by (simp add: GetPipeline_def GetDbPipeline_def fillPipelineDetail_def bind_svc_def attempt_def wrap_err_def
        db_first_def db_get_def db_def waiting_example_def world0_def pipeline_example_def)
  moreover have "runPipelineStandalone env_example ?p (?w\<lparr>w_faults := [None, None, Some ''connection lost'']\<rparr>) =
      (Ok (), ?w\<lparr>w_faults := [Some ''connection lost'']\<rparr>)"
    by (simp add: runPipelineStandalone_def RunPipeline_def runPipelineTasks_def bind_svc_def attempt_def
        db_first_def db_get_def db_def waiting_example_def world0_def pipeline_example_def runnable_tasks_def end_of_rows_def)
  ultimately have "runPipeline env_example 7 ?w = (Ok (), (?w\<lparr>w_faults := [Some ''connection lost'']\<rparr>)\<lparr>w_faults := []\<rparr>)"
    by (intro runPipeline_drops_read_error) (simp_all add: env_example_def)
  then show ?thesis by (simp add: waiting_example_def pipeline_example_def)
qed

text \<open>How a run is recorded: when no call fails and no notification is configured, \<open>finish_pipeline\<close>
  stores the status computed from the latest tasks, the time of the end and, if the run returned an error, its text, in the
  row of the pipeline and nowhere else; if the status cannot be computed the row is left as it was. The error itself has no
  say in the status: with no task failed the run is completed even if it returned one.\<close>

theorem finish_pipeline_records:
  assumes "w_faults w = []" and p: "p \<in> set (w_pipelines w)" "distinct (map pID (w_pipelines w))"
    and "notify env = None"
  shows "case fst (ComputePipelineStatus p cancelled w) of
     Ok st \<Rightarrow> \<exists>row. finish_pipeline env (pID p) cancelled err w =
         (Ok (), w\<lparr>w_pipelines := map (\<lambda>r. if pID r = pID p then row else r) (w_pipelines w)\<rparr>) \<and>
       pStatus row = st \<and> pFinishedAt row = Some (pipeline_finished env (pID p)) \<and>
       pMessage row = (case err of None \<Rightarrow> pMessage p | Some e \<Rightarrow> error_text env e)
   | Err e \<Rightarrow> finish_pipeline env (pID p) cancelled err w = (Err e, w)
   | Panic e \<Rightarrow> False"
proof -
  have one: "filter (\<lambda>q. pID q = pID p) (w_pipelines w) = [p]" using p by (rule filter_key_unique)
  define ls where "ls = map snd (filter (\<lambda>(i, _). i = pID p) (w_labels w))"
  define q where "q = finish_pipeline_row env err (p\<lparr>pLabels := ls\<rparr>)"
  have q: "pID q = pID p" "pSkipOnFail q = pSkipOnFail p" "pFinishedAt q = Some (pipeline_finished env (pID p))"
    "pMessage q = (case err of None \<Rightarrow> pMessage p | Some e \<Rightarrow> error_text env e)"
    by (simp_all add: q_def finish_pipeline_row_def Let_def split: option.splits)
  have get: "GetDbPipeline (pID p) w = (Ok (p\<lparr>pLabels := ls\<rparr>), w)"
    using assms(1) one by (simp add: GetDbPipeline_def fillPipelineDetail_def bind_svc_def attempt_def wrap_err_def
        store_simps ls_def)
  have same: "ComputePipelineStatus q cancelled w = ComputePipelineStatus p cancelled w"
    using q(1,2) assms(1) by (simp add: ComputePipelineStatus_def bind_svc_def store_simps Let_def cong: if_cong)
  define st where "st = fst (ComputePipelineStatus p cancelled w)"
  have st: "ComputePipelineStatus p cancelled w = (st, w)" "st \<noteq> Panic e" for e
    using assms(1) by (simp_all add: st_def ComputePipelineStatus_def bind_svc_def store_simps Let_def)
  show ?thesis
  proof (cases st)
    case (Ok s)
    then show ?thesis
      using st same assms(1,4) get q
      by (auto simp: finish_pipeline_def bind_svc_def attempt_def store_simps Let_def SavePipeline_def UpdatePipelines_def
          NotifyExternal_def update_where_def simp flip: q_def
          intro!: exI [of _ "q\<lparr>pStatus := s, pLabels := []\<rparr>"])
  next
    case (Err e)
    then show ?thesis
      using st same get by (simp add: finish_pipeline_def bind_svc_def attempt_def Let_def flip: q_def)
  qed (use st in simp)
qed

theorem finish_pipeline_records_witness:
  "\<exists>w'. finish_pipeline env_example 7 False (Some (External ''tasks could not be loaded''))
     (world_example\<lparr>w_tasks := [task_example 1 1 TASK_CREATED], w_pipelines := [(pipeline_example TASK_RUNNING)\<lparr>pSkipOnFail := False\<rparr>]\<rparr>) = (Ok (), w') \<and>
     map pStatus (w_pipelines w') = [TASK_COMPLETED]"
proof -
  let ?p = "(pipeline_example TASK_RUNNING)\<lparr>pSkipOnFail := False\<rparr>"
  let ?w = "world_example\<lparr>w_tasks := [task_example 1 1 TASK_CREATED], w_pipelines := [?p]\<rparr>"
  have "w_faults ?w = []" by simp
  then have "fst (ComputePipelineStatus ?p False ?w) = Ok TASK_COMPLETED"
    by (simp add: ComputePipelineStatus_def bind_svc_def store_simps Let_def count_tasks_def count_task_def
        pipeline_tasks_desc_def by_id_desc_def pipeline_example_def)
  moreover have "?p \<in> set (w_pipelines ?w)" "distinct (map pID (w_pipelines ?w))" "notify env_example = None"
    by (simp_all add: env_example_def)
  ultimately obtain row where "finish_pipeline env_example (pID ?p) False (Some (External ''tasks could not be loaded'')) ?w =
         (Ok (), ?w\<lparr>w_pipelines := map (\<lambda>r. if pID r = pID ?p then row else r) (w_pipelines ?w)\<rparr>)"
       "pStatus row = TASK_COMPLETED"
    using finish_pipeline_records [of ?w ?p env_example False "Some (External ''tasks could not be loaded'')"]
    by auto
  then show ?thesis by (simp add: pipeline_example_def)
qed

end
