(* ===== verification/PipelineQueue.thy ===== *)
theory PipelineQueue
  imports RunnerFacts
begin

text \<open>
  The pipeline queue (\<open>RunPipelineInQueue\<close> of \<open>backend/server/services/pipeline.go\<close>) as a state
  machine. One goroutine takes a slot of the semaphore, looks for the oldest waiting pipeline none of
  whose \<open>parallel/\<close> labels is in use, marks it running and starts a goroutine that runs it and then gives the labels and
  the slot back. Every statement of the first goroutine, and the reading and writing of the labels in
  use, is a step of its own, so that the goroutines that end and the requests of the service
  interleave with them; a run of a pipeline, and a request, which holds \<open>cronLocker\<close> from its first statement to its last, is one step.
  The labels in use are read without the lock that guards them, while another goroutine may write them:
  the model takes it that the reader sees the list as it is at one moment.
\<close>

section \<open>Labels and the next pipeline\<close>

definition SliceRemove :: "'a list \<Rightarrow> 'a list \<Rightarrow> 'a list" where
  "SliceRemove source toRemoves = filter (\<lambda>v. v \<notin> set toRemoves) source"

definition is_parallel_label :: "string \<Rightarrow> bool" where
  "is_parallel_label l = HasPrefix l ''parallel/''"

definition labels_of :: "id64 \<Rightarrow> world \<Rightarrow> string list" where
  "labels_of pid w = map snd (filter (\<lambda>(i, _). i = pid) (w_labels w))"

text \<open>The query of the dequeue: \<open>LEFT JOIN\<close> with the labels in use, \<open>HAVING count = 0\<close>,
  \<open>ORDER BY id ASC LIMIT 1\<close>.\<close>

definition next_pipelines :: "string list \<Rightarrow> world \<Rightarrow> pipeline list" where
  "next_pipelines inUse w = sort_key pID (filter (\<lambda>p. pStatus p \<in> {TASK_CREATED, TASK_RERUN} \<and>
     filter (\<lambda>l. is_parallel_label l \<and> l \<in> set inUse) (labels_of (pID p) w) = []) (w_pipelines w))"

definition mark_running :: "'d env \<Rightarrow> id64 \<Rightarrow> unit svc" where
  "mark_running env pid = UpdatePipelines (\<lambda>p. pID p = pid)
     (\<lambda>p. p\<lparr>pStatus := TASK_RUNNING, pMessage := [], pBeganAt := Some (pipeline_began env pid)\<rparr>)"

text \<open>The labels of a pipeline that the loop records, from \<open>fillPipelineDetail\<close>.\<close>

definition parallel_labels :: "pipeline \<Rightarrow> string list" where
  "parallel_labels p = filter is_parallel_label (pLabels p)"

section \<open>The state machine\<close>

text \<open>Where the goroutine of the loop is: at the semaphore; with a slot; holding \<open>cronLocker\<close>, with the labels in use that it read for its
  query; with the pipeline found; marked; and with its labels known. An error in the last two phases is a panic, which ends the process.\<close>

datatype q_phase = Acquiring | Holding | Querying "string list" | Found pipeline | Marked pipeline | Filled id64 "string list"

text \<open>\<open>q_running\<close> are the goroutines that were started and have not given their labels back, with these and whether \<open>runPipeline\<close> has
  returned; \<open>q_closing\<close> are those that only have the slot left to release.\<close>

record qstate =
  q_world :: world
  q_slots :: nat
  q_labels :: "string list"
  q_main :: q_phase
  q_running :: "(id64 \<times> string list \<times> bool) list"
  q_closing :: nat

definition q_start :: "world \<Rightarrow> nat \<Rightarrow> qstate" where
  "q_start w pipelineMaxParallel =
     \<lparr>q_world = w, q_slots = pipelineMaxParallel, q_labels = [], q_main = Acquiring, q_running = [], q_closing = 0\<rparr>"

definition cron_locked :: "qstate \<Rightarrow> bool" where
  "cron_locked s \<longleftrightarrow> (case q_main s of Querying L \<Rightarrow> True | _ \<Rightarrow> False)"

inductive q_step :: "'d env \<Rightarrow> qstate \<Rightarrow> qstate \<Rightarrow> bool" for env :: "'d env" where
  acquire: "q_main s = Acquiring \<Longrightarrow> 0 < q_slots s \<Longrightarrow>
    q_step env s (s\<lparr>q_slots := q_slots s - 1, q_main := Holding\<rparr>)"
| read: "q_main s = Holding \<Longrightarrow> q_step env s (s\<lparr>q_main := Querying (q_labels s)\<rparr>)"
| found: "q_main s = Querying L \<Longrightarrow> db_first (next_pipelines L) (q_world s) = (Ok p, w1) \<Longrightarrow>
    q_step env s (s\<lparr>q_world := w1, q_main := Found p\<rparr>)"
| none: "q_main s = Querying L \<Longrightarrow> db_first (next_pipelines L) (q_world s) = (Err e, w1) \<Longrightarrow>
    q_step env s (s\<lparr>q_world := w1, q_main := Holding\<rparr>)"
| mark: "q_main s = Found p \<Longrightarrow> mark_running env (pID p) (q_world s) = (Ok (), w1) \<Longrightarrow>
    q_step env s (s\<lparr>q_world := w1, q_main := Marked p\<rparr>)"
| fill: "q_main s = Marked p \<Longrightarrow> fillPipelineDetail p (q_world s) = (Ok q, w1) \<Longrightarrow>
    q_step env s (s\<lparr>q_world := w1, q_main := Filled (pID q) (parallel_labels q)\<rparr>)"
| launch: "q_main s = Filled pid ls \<Longrightarrow>
    q_step env s (s\<lparr>q_main := Acquiring, q_labels := q_labels s @ ls, q_running := q_running s @ [(pid, ls, False)]\<rparr>)"
| run: "k < length (q_running s) \<Longrightarrow> q_running s ! k = (pid, ls, False) \<Longrightarrow>
    runPipeline env pid (q_world s) = (r, w1) \<Longrightarrow> r = Ok () \<or> r = Err e \<Longrightarrow>
    q_step env s (s\<lparr>q_world := w1, q_running := (q_running s)[k := (pid, ls, True)]\<rparr>)"
| give_back: "k < length (q_running s) \<Longrightarrow> q_running s ! k = (pid, ls, True) \<Longrightarrow>
    q_step env s (s\<lparr>q_labels := SliceRemove (q_labels s) ls,
      q_running := take k (q_running s) @ drop (Suc k) (q_running s), q_closing := q_closing s + 1\<rparr>)"
| release: "0 < q_closing s \<Longrightarrow> q_step env s (s\<lparr>q_closing := q_closing s - 1, q_slots := q_slots s + 1\<rparr>)"
| create: "\<not> cron_locked s \<Longrightarrow> CreatePipeline np (q_world s) = (r, w1) \<Longrightarrow> q_step env s (s\<lparr>q_world := w1\<rparr>)"
| cancel: "\<not> cron_locked s \<Longrightarrow> CancelPipeline temporal pid (q_world s) = (u, w1) \<Longrightarrow> q_step env s (s\<lparr>q_world := w1\<rparr>)"
| rerun: "\<not> cron_locked s \<Longrightarrow> RerunPipeline pid t (q_world s) = (ts, w1) \<Longrightarrow> q_step env s (s\<lparr>q_world := w1\<rparr>)"

inductive q_reachable :: "'d env \<Rightarrow> nat \<Rightarrow> qstate \<Rightarrow> bool" for env :: "'d env" and n :: nat where
  start: "q_reachable env n (q_start w n)"
| step: "q_reachable env n s \<Longrightarrow> q_step env s s' \<Longrightarrow> q_reachable env n s'"

inductive_cases q_stepE: "q_step env s s'"

section \<open>Queries and updates of the loop\<close>

lemma set_SliceRemove [simp]: "set (SliceRemove xs ys) = set xs - set ys"
  by (auto simp: SliceRemove_def)

lemma fill_labels:
  "fillPipelineDetail p w = (Ok q, w1) \<Longrightarrow> q = p\<lparr>pLabels := labels_of (pID p) w\<rparr> \<and> w_pipelines w1 = w_pipelines w \<and> w_labels w1 = w_labels w"
  by (cases "w_faults w"; cases "hd (w_faults w)")
    (auto simp: fillPipelineDetail_def bind_svc_def wrap_err_def db_get_def db_def labels_of_def)

lemma mark_running_result:
  "mark_running env pid w = (Ok (), w1) \<Longrightarrow> w_labels w1 = w_labels w \<and> w_pipelines w1 =
     update_where (\<lambda>p. pID p = pid) (\<lambda>p. p\<lparr>pStatus := TASK_RUNNING, pMessage := [], pBeganAt := Some (pipeline_began env pid)\<rparr>)
       (w_pipelines w)"
  by (cases "w_faults w"; cases "hd (w_faults w)")
    (auto simp: mark_running_def UpdatePipelines_def db_do_def db_def)

lemma db_first_next: "db_first (next_pipelines L) w = (Ok p, w1) \<Longrightarrow>
    p \<in> set (next_pipelines L w) \<and> w_labels w1 = w_labels w \<and> w_pipelines w1 = w_pipelines w"
proof -
  have blind: "next_pipelines L (w\<lparr>w_faults := fs\<rparr>) = next_pipelines L w" for fs
    by (simp add: next_pipelines_def labels_of_def)
  assume "db_first (next_pipelines L) w = (Ok p, w1)"
  then show ?thesis
    by (cases "next_pipelines L w"; cases "w_faults w"; cases "hd (w_faults w)")
      (auto simp: db_first_def bind_svc_def db_get_def db_def blind)
qed

lemma next_pipelines_free:
  assumes "p \<in> set (next_pipelines L w)"
  shows "set (filter is_parallel_label (labels_of (pID p) w)) \<inter> set L = {}"
    and "p \<in> set (w_pipelines w)" and "pStatus p = TASK_CREATED \<or> pStatus p = TASK_RERUN"
  using assms by (auto simp: next_pipelines_def filter_empty_conv)

section \<open>No pipeline runs twice at once\<close>

text \<open>The rows of pipeline \<open>i\<close> exist and say that it is running; or they exist, and its labels are \<open>L\<close>.\<close>

definition busy :: "id64 \<Rightarrow> world \<Rightarrow> bool" where
  "busy i w \<longleftrightarrow> (\<exists>r \<in> set (w_pipelines w). pID r = i) \<and>
     (\<forall>r \<in> set (w_pipelines w). pID r = i \<longrightarrow> pStatus r = TASK_RUNNING)"

definition tagged :: "id64 \<Rightarrow> string list \<Rightarrow> world \<Rightarrow> bool" where
  "tagged i L w \<longleftrightarrow> (\<exists>r \<in> set (w_pipelines w). pID r = i) \<and> labels_of i w = L"

definition off_pipelines :: "'a svc \<Rightarrow> bool" where
  "off_pipelines m \<longleftrightarrow> (\<forall>w. w_pipelines (snd (m w)) = w_pipelines w \<and> w_labels (snd (m w)) = w_labels w)"

text \<open>The plugins do not write the tables of pipelines and of their labels.\<close>

definition quiet_plugins :: "'d env \<Rightarrow> bool" where
  "quiet_plugins env \<longleftrightarrow> (\<forall>ps name pl. env_plugins env = Some ps \<longrightarrow> map_of ps name = Some (TaskPlugin pl) \<longrightarrow>
     (\<forall>opts. off_pipelines (plPrepareTaskData pl opts)) \<and>
     (\<forall>m \<in> set (plSubTaskMetas pl). \<forall>d. off_pipelines (smEntryPoint m d)) \<and>
     (\<forall>close. plClose pl = Some close \<longrightarrow> off_pipelines close))"

lemma off_each: "(\<And>x. off_pipelines (f x)) \<Longrightarrow> off_pipelines (each f xs)"
proof (induction xs)
  case (Cons x xs)
  then show ?case by (auto simp: off_pipelines_def bind_svc_def split: prod.splits result.splits) (metis snd_conv)+
qed (simp add: off_pipelines_def)

lemma off_drain: "off_pipelines (drain_progress t)"
proof -
  have upd: "off_pipelines (UpdateProgress t p)" for p
    by (auto simp: off_pipelines_def UpdateProgress_def bind_svc_def attempt_def UpdateTasks_def db_do_def db_def
        split: RunningProgress.split prod.splits list.splits option.splits)
  have "off_pipelines (bind_svc (UpdateProgress t p) (\<lambda>_ w. (Ok (), set_detail t (\<lambda>d. UpdateProgressDetail d p) w)))" for p
    using upd [of p] by (auto simp: off_pipelines_def bind_svc_def set_detail_def split: prod.splits result.splits) (metis snd_conv)+
  from off_each [where f = "\<lambda>p. bind_svc (UpdateProgress t p) (\<lambda>_ w. (Ok (), set_detail t (\<lambda>d. UpdateProgressDetail d p) w))",
      OF this] have "off_pipelines (updateTaskProgress t msgs)" for msgs
    unfolding off_pipelines_def updateTaskProgress_def by (simp split: option.split)
  then show ?thesis by (simp add: off_pipelines_def drain_progress_def)
qed

lemma GetDbPipeline_id: "GetDbPipeline pid w = (Ok p, w') \<Longrightarrow> pID p = pid"
proof -
  assume g: "GetDbPipeline pid w = (Ok p, w')"
  have first: "pID q = pid" if "db_first (\<lambda>w. filter (\<lambda>p. pID p = pid) (w_pipelines w)) w = (Ok q, w1)" for q w1
  proof -
    from that obtain rows where "rows = filter (\<lambda>p. pID p = pid) (w_pipelines w)" "q \<in> set rows"
      by (cases "filter (\<lambda>p. pID p = pid) (w_pipelines w)"; cases "w_faults w"; cases "hd (w_faults w)")
        (auto simp: db_first_def bind_svc_def db_get_def db_def)
    then show ?thesis by simp
  qed
  obtain r w1 where r: "db_first (\<lambda>w. filter (\<lambda>p. pID p = pid) (w_pipelines w)) w = (r, w1)"
    by (cases "db_first (\<lambda>w. filter (\<lambda>p. pID p = pid) (w_pipelines w)) w")
  from g r obtain q where q: "r = Ok q" "fillPipelineDetail q w1 = (Ok p, w')"
    by (cases r) (auto simp: GetDbPipeline_def bind_svc_def attempt_def split: if_splits)
  have "pID q = pid" using first [of q w1] r q(1) by blast
  then show ?thesis using fill_labels [OF q(2)] by simp
qed

lemma first_by_id:
  assumes "db_first (\<lambda>w. filter (\<lambda>p. pID p = pid) (w_pipelines w)) w = (Ok q, w1)"
  shows "pID q = pid \<and> q \<in> set (w_pipelines w) \<and> w_pipelines w1 = w_pipelines w"
proof -
  from assms have "q \<in> set (filter (\<lambda>p. pID p = pid) (w_pipelines w)) \<and> w_pipelines w1 = w_pipelines w"
    by (cases "filter (\<lambda>p. pID p = pid) (w_pipelines w)"; cases "w_faults w"; cases "hd (w_faults w)")
      (auto simp: db_first_def bind_svc_def db_get_def db_def)
  then show ?thesis by simp
qed

named_theorems busy_rules \<open>operations that keep what is watched of a pipeline\<close>

text \<open>What every operation of the service keeps of a pipeline that has a row. \<open>loose\<close> says that its status may change; if not, it is
  running, and only an update that keeps this may touch it.\<close>

locale watched =
  fixes i :: id64 and loose :: bool and I :: "world \<Rightarrow> bool"
  assumes frame: "I w \<Longrightarrow> w_pipelines w' = w_pipelines w \<Longrightarrow> w_labels w' = w_labels w \<Longrightarrow> I w'"
    and update: "I w \<Longrightarrow> (\<And>r. P r \<Longrightarrow> pID (f r) = pID r) \<Longrightarrow>
      (\<And>r. P r \<Longrightarrow> pID r = i \<Longrightarrow> pStatus r = TASK_RUNNING \<Longrightarrow> loose \<or> pStatus (f r) = TASK_RUNNING) \<Longrightarrow>
      I (w\<lparr>w_pipelines := update_where P f (w_pipelines w)\<rparr>)"
    and tight: "I w \<Longrightarrow> r \<in> set (w_pipelines w) \<Longrightarrow> pID r = i \<Longrightarrow> loose \<or> pStatus r = TASK_RUNNING"
    and there: "I w \<Longrightarrow> \<exists>r \<in> set (w_pipelines w). pID r = i"
    and insert_row: "I w \<Longrightarrow> pID p \<noteq> i \<Longrightarrow> I (w\<lparr>w_pipelines := w_pipelines w @ [p]\<rparr>)"
    and add_labels: "I w \<Longrightarrow> pid \<noteq> i \<Longrightarrow> I (w\<lparr>w_labels := w_labels w @ map (Pair pid) ls\<rparr>)"
begin

lemma watch_blind [busy_rules]: "fault_blind I"
proof -
  have "I (w\<lparr>w_faults := fs\<rparr>) = I w" for w fs
    using frame [of w "w\<lparr>w_faults := fs\<rparr>"] frame [of "w\<lparr>w_faults := fs\<rparr>" w] by auto
  then show ?thesis by (simp add: fault_blind_def)
qed

lemma watch_off [busy_rules]: "off_pipelines m \<Longrightarrow> keeps I m"
  unfolding keeps_def off_pipelines_def using frame by blast

lemma watch_do [busy_rules]: "(\<And>w. w_pipelines (f w) = w_pipelines w) \<Longrightarrow> (\<And>w. w_labels (f w) = w_labels w) \<Longrightarrow> keeps I (db_do f)"
  by (rule keeps_db_do [OF watch_blind]) (rule frame)

lemma watch_UpdateTasks [busy_rules]: "keeps I (UpdateTasks P f)"
  unfolding UpdateTasks_def by (rule watch_do) simp_all

lemma watch_UpdatePipelines [busy_rules]:
  assumes "\<And>r. P r \<Longrightarrow> pID (f r) = pID r"
    and "\<And>r. P r \<Longrightarrow> pID r = i \<Longrightarrow> pStatus r = TASK_RUNNING \<Longrightarrow> loose \<or> pStatus (f r) = TASK_RUNNING"
  shows "keeps I (UpdatePipelines P f)"
  unfolding UpdatePipelines_def
  by (rule keeps_db_do [OF watch_blind]) (rule update [OF _ assms])

lemma watch_deferred [busy_rules]:
  "keeps I f \<Longrightarrow> keeps I m \<Longrightarrow> keeps I (deferred f m)"
  unfolding keeps_def deferred_def by (auto split: prod.splits result.splits)

lemma watch_send [busy_rules]: "keeps I (send t p)"
  by (rule watch_off) (simp add: off_pipelines_def send_def)

lemma watch_recordSubtask [busy_rules]: "keeps I (recordSubtask s)"
  unfolding recordSubtask_def by (intro keeps_bind keeps_attempt keeps_ret busy_rules) simp_all

lemma watch_run_subtasks:
  "(\<And>m. m \<in> set ms \<Longrightarrow> off_pipelines (smEntryPoint m d)) \<Longrightarrow> keeps I (run_subtasks env t fl steps d num ms)"
proof (induction ms arbitrary: num)
  case (Cons m ms)
  have "keeps I (runSubtask env t (num + 1) m d)"
    unfolding runSubtask_def by (intro busy_rules Cons.prems) simp
  moreover have "keeps I (run_subtasks env t fl steps d n ms)" for n by (rule Cons.IH) (use Cons.prems in simp)
  ultimately show ?case
    by (auto intro!: keeps_bind keeps_attempt keeps_fail watch_send split: option.split bool.split sum.split)
qed (simp add: keeps_ret)

lemma watch_RunPluginTask: "quiet_plugins env \<Longrightarrow> keeps I (RunPluginTask env t)"
proof -
  assume q: "quiet_plugins env"
  have body: "keeps I (RunPluginSubTasks env t pl)"
    if "env_plugins env = Some ps" "map_of ps (tPlugin t) = Some (TaskPlugin pl)" for ps pl
  proof -
    from q that have o: "\<And>opts. off_pipelines (plPrepareTaskData pl opts)"
      "\<And>m d. m \<in> set (plSubTaskMetas pl) \<Longrightarrow> off_pipelines (smEntryPoint m d)"
      "\<And>close. plClose pl = Some close \<Longrightarrow> off_pipelines close"
      unfolding quiet_plugins_def by blast+
    have "keeps I (prepare_and_run env t pl fl)" for fl
      unfolding prepare_and_run_def
      by (intro keeps_bind keeps_wrap watch_off watch_send watch_run_subtasks o)
    moreover have "keeps I (deferred close (prepare_and_run env t pl fl))" if "plClose pl = Some close" for close fl
      by (rule watch_deferred [OF watch_off [OF o(3) [OF that]] calculation])
    ultimately show ?thesis
      unfolding RunPluginSubTasks_def by (auto intro: keeps_fail split: sum.split option.split)
  qed
  show ?thesis
    unfolding RunPluginTask_def GetPlugin_def
    by (auto intro!: keeps_fail body split: option.split plugin.split)
qed

lemma watch_finalize [busy_rules]: "keeps I (finalize_task env t e)"
  unfolding finalize_task_def by (intro keeps_bind keeps_attempt keeps_ret busy_rules) simp_all

lemma watch_RunTask: "quiet_plugins env \<Longrightarrow> keeps I (RunTask env taskId)"
proof -
  assume q: "quiet_plugins env"
  have start: "keeps I (start_task env t)" for t
    unfolding start_task_def by (intro keeps_bind watch_UpdateTasks watch_RunPluginTask q)
  have fin: "keeps I (bind_svc (finalize_task env t e) (\<lambda>_. if b then ret () else f))"
    if "keeps I f" for t e b and f :: "unit svc"
    by (intro keeps_bind watch_finalize keeps_if keeps_ret that)
  have "keeps I (run_and_finalize env t p)" for t p
  proof (rule keepsI)
    fix w r w' assume run: "run_and_finalize env t p w = (r, w')" and b: "I w"
    obtain r1 w1 where s: "start_task env t w = (r1, w1)" by (cases "start_task env t w")
    have "I w1" using keepsE [OF start s b] .
    moreover have "keeps I ((case recovered env r1 of None \<Rightarrow> ret () | Some e \<Rightarrow> fail e) :: unit svc)"
      by (auto intro: keeps_ret keeps_fail split: option.split)
    from fin [OF this] run s have "I w1 \<Longrightarrow> I w'"
      unfolding run_and_finalize_def by (auto dest: keepsE)
    ultimately show "I w'" by blast
  qed
  then show ?thesis
    unfolding RunTask_def
    by (auto intro!: keeps_bind keeps_db_first watch_blind keeps_fail split: option.split)
qed

lemma watch_runTaskStandalone: "quiet_plugins env \<Longrightarrow> keeps I (runTaskStandalone env t)"
proof -
  assume q: "quiet_plugins env"
  have "off_pipelines (rt_add t)" "off_pipelines (rt_remove t)"
    by (auto simp: off_pipelines_def rt_add_def rt_remove_def split: option.split)
  with q show ?thesis
    unfolding runTaskStandalone_def
    by (intro watch_deferred keeps_bind watch_RunTask) (auto intro: watch_off off_drain)
qed

lemma watch_RunTasksStandalone: "quiet_plugins env \<Longrightarrow> keeps I (RunTasksStandalone env ids)"
proof -
  assume q: "quiet_plugins env"
  have "keeps I (gather_errors (runTaskStandalone env) is)" for "is"
    by (induction "is") (auto intro!: keeps_bind keeps_ret keeps_attempt watch_runTaskStandalone q)
  then show ?thesis
    unfolding RunTasksStandalone_def by (intro keeps_if keeps_ret keeps_bind keeps_fail)
qed

lemma watch_run_rows:
  assumes "\<And>row. keeps I (runTasks row)"
  shows "keeps I (run_rows runTasks p n err rows)"
proof (induction rows arbitrary: n err)
  case Nil
  show ?case by (auto simp: end_of_rows_def intro: keeps_panic keeps_ret keeps_fail split: option.split)
next
  case (Cons row rows)
  have fin: "keeps I (end_of_rows p e)" for e
    by (auto simp: end_of_rows_def intro: keeps_panic keeps_ret keeps_fail split: option.split)
  have "keeps I (UpdatePipelines (\<lambda>r. pID r = pID p) (\<lambda>r. r\<lparr>pStatus := TASK_RUNNING, pStage := n + 1\<rparr>))"
    by (rule watch_UpdatePipelines) simp_all
  with Cons.IH assms fin show ?case
    by (auto intro!: keeps_bind keeps_attempt keeps_fail split: sum.split)
qed

lemma watch_GetDbPipeline: "keeps I (GetDbPipeline pid)"
  unfolding GetDbPipeline_def fillPipelineDetail_def
  by (auto intro!: keeps_bind keeps_attempt keeps_db_first keeps_wrap keeps_db_get watch_blind keeps_ret keeps_fail split: sum.split)

lemma watch_GetPipeline: "keeps I (GetPipeline pid)"
  unfolding GetPipeline_def fillPipelineDetail_def
  by (intro keeps_bind keeps_wrap keeps_db_get watch_blind keeps_ret watch_GetDbPipeline)

lemma watch_latest_loop: "keeps I (latest_loop m ts)"
  by (induction m ts rule: latest_loop.induct)
    (auto simp: Let_def intro!: keeps_ret keeps_bind keeps_db_get watch_blind)

lemma watch_SavePipeline: "pID p \<noteq> i \<or> loose \<Longrightarrow> keeps I (SavePipeline p)"
  unfolding SavePipeline_def by (rule watch_UpdatePipelines) simp_all

lemma watch_finish_pipeline: "pid \<noteq> i \<or> loose \<Longrightarrow> keeps I (finish_pipeline env pid c err)"
proof -
  assume ne: "pid \<noteq> i \<or> loose"
  have status: "keeps I (ComputePipelineStatus p c)" for p c
    unfolding ComputePipelineStatus_def GetLatestTasksOfPipeline_def Let_def
    by (intro keeps_bind keeps_db_get watch_blind watch_latest_loop keeps_if keeps_fail keeps_ret)
  have note_ext: "keeps I (NotifyExternal env pid)"
    unfolding NotifyExternal_def
    by (auto intro!: keeps_bind keeps_ret keeps_fail watch_GetPipeline split: option.split)
  show ?thesis
  proof (rule keepsI)
    fix w r w' assume f: "finish_pipeline env pid c err w = (r, w')" and b: "I w"
    obtain g w1 where g: "GetDbPipeline pid w = (g, w1)" by (cases "GetDbPipeline pid w")
    have b1: "I w1" using keepsE [OF watch_GetDbPipeline g b] .
    show "I w'"
    proof (cases g)
      case (Ok p)
      let ?p = "finish_pipeline_row env err p"
      have "pID ?p = pid" using GetDbPipeline_id g Ok
        by (auto simp: finish_pipeline_row_def Let_def split: option.split)
      then have "keeps I (bind_svc (ComputePipelineStatus ?p c) (\<lambda>st.
          bind_svc (SavePipeline (?p\<lparr>pStatus := st\<rparr>)) (\<lambda>_. NotifyExternal env pid)))"
        using ne by (intro keeps_bind status watch_SavePipeline note_ext) simp
      moreover have "bind_svc (ComputePipelineStatus ?p c) (\<lambda>st.
          bind_svc (SavePipeline (?p\<lparr>pStatus := st\<rparr>)) (\<lambda>_. NotifyExternal env pid)) w1 = (r, w')"
        using f g Ok by (simp add: finish_pipeline_def bind_svc_def attempt_def Let_def)
      ultimately show ?thesis using b1 by (blast intro: keepsE)
    next
      case (Err e)
      with f g b1 show ?thesis by (auto simp: finish_pipeline_def bind_svc_def attempt_def split: option.splits)
    next
      case (Panic e)
      with f g b1 show ?thesis by (auto simp: finish_pipeline_def bind_svc_def attempt_def)
    qed
  qed
qed

lemma watch_runPipeline:
  assumes "quiet_plugins env" "temporal_run env = None" "pid \<noteq> i \<or> loose"
  shows "keeps I (runPipeline env pid)"
proof -
  have "keeps I (RunPipeline n (RunTasksStandalone env))" for n
    unfolding RunPipeline_def runPipelineTasks_def
    by (auto intro!: keeps_bind keeps_db_get keeps_db_first watch_blind keeps_panic watch_run_rows
        watch_RunTasksStandalone assms split: option.split)
  then show ?thesis
    unfolding runPipeline_def runPipelineStandalone_def Let_def
    by (auto simp: assms(2) intro!: keeps_bind keeps_attempt watch_GetPipeline watch_finish_pipeline assms(3))
qed

lemma watch_CreateTask: "keeps I (CreateTask n)"
  by (rule CreateTask_keeps [OF watch_blind]) (erule frame; simp)

lemma watch_CreatePipeline: "keeps I (CreatePipeline np)"
proof -
  have labels: "keeps I (create_labels np n)" if "n \<noteq> i" for n
    unfolding create_labels_def by (intro keeps_if keeps_wrap keeps_db_do [OF watch_blind] keeps_ret add_labels that)
  have tasks: "keeps I (create_tasks np p)" if "pID p \<noteq> i" for p
    unfolding create_tasks_def using that
    by (intro keeps_bind labels keeps_collect watch_CreateTask keeps_if keeps_fail keeps_wrap watch_SavePipeline keeps_ret) simp_all
  have chk: "keeps I (check_blueprint_idle b)" for b
  proof -
    have "keeps I (fetch_pending n k ps)" for n k ps
      by (induction ps arbitrary: k) (auto intro!: keeps_bind keeps_wrap keeps_db_get watch_blind keeps_ret)
    then show ?thesis
      unfolding check_blueprint_idle_def
      by (intro keeps_bind keeps_wrap keeps_db_get watch_blind keeps_if keeps_fail keeps_ret)
  qed
  have ins: "I w1 \<and> (\<forall>p. r = Ok p \<longrightarrow> pID p \<noteq> i)" if "db (insert_pipeline np) w = (r, w1)" "I w" for w r w1
  proof -
    have new: "I w2 \<and> pID p \<noteq> i" if "insert_pipeline np v = (p, w2)" "I v" for p v w2
    proof -
      from there [OF that(2)] obtain r where "r \<in> set (w_pipelines v)" "pID r = i" by blast
      then have "pID p \<noteq> i"
        using insert_pipeline_parts [OF that(1)] next_id_fresh [of r "w_pipelines v" pID] by auto
      with insert_pipeline_parts [OF that(1)] insert_row [OF that(2)] show ?thesis by simp
    qed
    have blind: "I (w\<lparr>w_faults := fs\<rparr>)" for fs using that(2) watch_blind by (simp add: fault_blind_def)
    show ?thesis
      using that(1) new [of w] new [of "w\<lparr>w_faults := tl (w_faults w)\<rparr>"] that(2) blind
      by (cases "w_faults w"; cases "hd (w_faults w)") (auto simp: db_def split: prod.splits)
  qed
  have "keeps I (bind_svc (wrap_err Internal ''create pipeline failed'' (db (insert_pipeline np))) (create_tasks np))"
  proof (rule keepsI)
    fix w r w' assume run: "bind_svc (wrap_err Internal ''create pipeline failed'' (db (insert_pipeline np))) (create_tasks np) w = (r, w')"
      and b: "I w"
    obtain q w1 where q: "db (insert_pipeline np) w = (q, w1)" by (cases "db (insert_pipeline np) w")
    with run ins [OF q b] show "I w'"
      by (cases q) (auto simp: bind_svc_def wrap_err_def dest: keepsE [OF tasks])
  qed
  note body = this
  show ?thesis
    unfolding CreatePipeline_def CreateDbPipeline_def
    by (rule keeps_bind [OF keeps_if [OF chk keeps_ret] body])
qed

lemma watch_CancelPipeline: "keeps I (CancelPipeline temporal pid)"
proof (rule keepsI)
  fix w r w' assume run: "CancelPipeline temporal pid w = (r, w')" and b: "I w"
  have off: "off_pipelines (CancelTask t)" for t
    by (auto simp: off_pipelines_def CancelTask_def rt_remove_def bind_svc_def split: option.split)
  have rest: "keeps I (bind_svc (GetTasks q) (\<lambda>(pendingTasks, count).
      if count = 0 then ret () else each (\<lambda>t. bind_svc (attempt (CancelTask (tID t))) (\<lambda>_. ret ())) pendingTasks))" for q
  proof -
    have "keeps I (GetTasks q)"
      unfolding GetTasks_def VerifyStruct_None bind_ret by (intro keeps_bind keeps_db_get watch_blind keeps_Pair) (simp add: keeps_def)
    moreover have "keeps I (each (\<lambda>t. bind_svc (attempt (CancelTask (tID t))) (\<lambda>_. ret ())) ts)" for ts
      by (intro keeps_each keeps_bind keeps_attempt keeps_ret watch_off [OF off])
    ultimately show ?thesis by (intro keeps_bind) (auto split: prod.split intro: keeps_ret)
  qed
  obtain f w1 where f: "db_first (\<lambda>w. filter (\<lambda>p. pID p = pid) (w_pipelines w)) w = (f, w1)"
    by (cases "db_first (\<lambda>w. filter (\<lambda>p. pID p = pid) (w_pipelines w)) w")
  have b1: "I w1" using keepsE [OF keeps_db_first [OF watch_blind] f b] .
  show "I w'"
  proof (cases f)
    case (Ok p)
    note p = first_by_id [OF f [unfolded Ok]]
    show ?thesis
    proof (cases "pStatus p = TASK_CREATED \<or> pStatus p = TASK_RERUN")
      case True
      with p b tight [of w p] have "pID p \<noteq> i \<or> loose" by auto
      then have "keeps I (bind_svc (wrap_err Default ''faile to update pipeline''
             (SavePipeline (p\<lparr>pStatus := TASK_CANCELLED\<rparr>))) (\<lambda>_.
           wrap_err Default ''faile to update pipeline tasks''
             (UpdateTasks (\<lambda>t. tPipelineId t = pid) (\<lambda>t. t\<lparr>tStatus := TASK_CANCELLED\<rparr>))))"
        by (intro keeps_bind keeps_wrap watch_SavePipeline watch_UpdateTasks) simp
      with run f Ok True b1 show ?thesis
        by (simp add: CancelPipeline_def bind_svc_def [of "attempt X" for X] attempt_def) (blast intro: keepsE)
    next
      case False
      with run f Ok have "(case temporal of
           Some cancelWorkflow \<Rightarrow> (case Convert (cancelWorkflow pid) of None \<Rightarrow> ret () | Some e \<Rightarrow> fail e)
         | None \<Rightarrow> bind_svc (GetTasks (pending_query pid)) (\<lambda>(pendingTasks, count).
               if count = 0 then ret ()
               else each (\<lambda>t. bind_svc (attempt (CancelTask (tID t))) (\<lambda>_. ret ())) pendingTasks)) w1 = (r, w')"
        by (simp add: CancelPipeline_def bind_svc_def [of "attempt X" for X] attempt_def)
      with rest b1 show ?thesis by (auto split: option.splits dest: keepsE)
    qed
  next
    case (Err e)
    with run f b1 show ?thesis by (auto simp: CancelPipeline_def bind_svc_def attempt_def)
  next
    case (Panic e)
    with run f b1 show ?thesis by (auto simp: CancelPipeline_def bind_svc_def attempt_def)
  qed
qed

lemma watch_GetPipeline_status:
  assumes "GetPipeline i w = (Ok p, w1)" "I w"
  shows "loose \<or> pStatus p = TASK_RUNNING"
proof -
  obtain q w2 where q: "GetDbPipeline i w = (Ok q, w2)" "fillPipelineDetail q w2 = (Ok p, w1)"
    using assms(1) by (auto simp: GetPipeline_def bind_Ok_iff)
  obtain r w3 where r: "db_first (\<lambda>w. filter (\<lambda>p. pID p = i) (w_pipelines w)) w = (r, w3)"
    by (cases "db_first (\<lambda>w. filter (\<lambda>p. pID p = i) (w_pipelines w)) w")
  from q(1) r obtain q0 where q0: "r = Ok q0" "fillPipelineDetail q0 w3 = (Ok q, w2)"
    by (cases r) (auto simp: GetDbPipeline_def bind_svc_def attempt_def split: if_splits)
  have "loose \<or> pStatus q0 = TASK_RUNNING" using first_by_id [OF r [unfolded q0(1)]] tight [OF assms(2)] by auto
  with fill_labels [OF q0(2)] fill_labels [OF q(2)] show ?thesis by simp
qed

lemma watch_RerunPipeline: "keeps I (RerunPipeline pid t)"
proof (rule keepsI)
  fix w r w' assume run: "RerunPipeline pid t w = (r, w')" and b: "I w"
  have get: "keeps I (tasks_to_rerun pid t)"
    unfolding tasks_to_rerun_def GetTasksWithLastStatus_def Let_def
    by (auto intro!: keeps_bind keeps_wrap keeps_db_get watch_blind keeps_if keeps_fail keeps_ret split: option.split)
      (simp add: keeps_def)
  have coll: "keeps I (collect rerun_task ts)" for ts
    unfolding rerun_task_def by (intro keeps_collect keeps_bind watch_UpdateTasks watch_CreateTask)
  obtain g w1 where g: "GetPipeline pid w = (g, w1)" by (cases "GetPipeline pid w")
  have b1: "I w1" using keepsE [OF watch_GetPipeline g b] .
  show "I w'"
  proof (cases "pid = i \<and> \<not> loose")
    case True
    with g b watch_GetPipeline_status [of w] run b1 show ?thesis
      by (cases g) (auto simp: RerunPipeline_def bind_svc_def)
  next
    case False
    have upd: "keeps I (UpdatePipelines (\<lambda>r. pID r = pid) (\<lambda>r. r\<lparr>pStatus := TASK_RERUN\<rparr>))"
      by (rule watch_UpdatePipelines) (use False in simp_all)
    have "keeps I (RerunPipeline pid t)"
      unfolding RerunPipeline_def
      by (intro keeps_bind watch_GetPipeline keeps_if keeps_fail get coll upd keeps_ret)
    then show ?thesis using run b by (blast intro: keepsE)
  qed
qed

end

interpretation watch_busy: watched i False "busy i" for i :: id64
proof
  fix w :: world and P :: "pipeline \<Rightarrow> bool" and f :: "pipeline \<Rightarrow> pipeline"
  assume b: "busy i w" and f: "\<And>r. P r \<Longrightarrow> pID (f r) = pID r"
    "\<And>r. P r \<Longrightarrow> pID r = i \<Longrightarrow> pStatus r = TASK_RUNNING \<Longrightarrow> False \<or> pStatus (f r) = TASK_RUNNING"
  from b obtain r where "r \<in> set (w_pipelines w)" "pID r = i" by (auto simp: busy_def)
  then have "(if P r then f r else r) \<in> set (update_where P f (w_pipelines w)) \<and> pID (if P r then f r else r) = i"
    using f(1) by (auto simp: update_where_def)
  moreover have "pStatus q = TASK_RUNNING" if q: "q \<in> set (update_where P f (w_pipelines w))" "pID q = i" for q
  proof -
    from q(1) obtain r0 where r0: "r0 \<in> set (w_pipelines w)" "q = (if P r0 then f r0 else r0)"
      by (auto simp: set_update_where)
    with q(2) f(1) have "pID r0 = i" by (auto split: if_splits)
    with r0 b f(2) show ?thesis by (auto simp: busy_def)
  qed
  ultimately show "busy i (w\<lparr>w_pipelines := update_where P f (w_pipelines w)\<rparr>)" by (auto simp: busy_def)
qed (auto simp: busy_def)

interpretation watch_tagged: watched i True "tagged i L" for i :: id64 and L :: "string list"
proof
  fix w :: world and P :: "pipeline \<Rightarrow> bool" and f :: "pipeline \<Rightarrow> pipeline"
  assume b: "tagged i L w" and f: "\<And>r. P r \<Longrightarrow> pID (f r) = pID r"
  from b obtain r where "r \<in> set (w_pipelines w)" "pID r = i" by (auto simp: tagged_def)
  then have "(if P r then f r else r) \<in> set (update_where P f (w_pipelines w)) \<and> pID (if P r then f r else r) = i"
    using f by (auto simp: update_where_def)
  with b show "tagged i L (w\<lparr>w_pipelines := update_where P f (w_pipelines w)\<rparr>)" by (auto simp: tagged_def labels_of_def)
next
  fix w and pid :: id64 and ls :: "string list" assume "tagged i L w" "pid \<noteq> i"
  moreover from this(2) have "filter (\<lambda>(j, _). j = i) (map (Pair pid) ls) = []" by (induction ls) simp_all
  ultimately show "tagged i L (w\<lparr>w_labels := w_labels w @ map (Pair pid) ls\<rparr>)" by (simp add: tagged_def labels_of_def)
qed (simp_all add: tagged_def labels_of_def)

section \<open>Mutual exclusion of labels\<close>









lemma mark_keeps: "keeps (busy i) (mark_running env pid)" "keeps (tagged i L) (mark_running env pid)"
  unfolding mark_running_def by (rule watch_busy.watch_UpdatePipelines watch_tagged.watch_UpdatePipelines; simp)+

lemma fill_keeps: "keeps (busy i) (fillPipelineDetail p)" "keeps (tagged i L) (fillPipelineDetail p)"
  unfolding fillPipelineDetail_def
  by (intro keeps_bind keeps_wrap keeps_db_get keeps_ret watch_busy.watch_blind watch_tagged.watch_blind)+

lemma next_keeps: "keeps (busy i) (db_first f)" "keeps (tagged i L) (db_first f)"
  by (intro keeps_db_first watch_busy.watch_blind watch_tagged.watch_blind)+

lemma list_update_split: "k < length xs \<Longrightarrow> \<exists>ys zs. xs = ys @ xs ! k # zs \<and> xs[k := x] = ys @ x # zs \<and> take k xs @ drop (Suc k) xs = ys @ zs"
  by (intro exI [of _ "take k xs"] exI [of _ "drop (Suc k) xs"]) (simp add: id_take_nth_drop [symmetric] upd_conv_take_nth_drop)



lemma env_example_quiet: "quiet_plugins env_example" "temporal_run env_example = None"
  by (auto simp: quiet_plugins_def env_example_def plugin_example_def off_pipelines_def split: if_splits)

lemma q_reach: "q_step env s s' \<Longrightarrow> q_reachable env n s \<Longrightarrow> q_reachable env n s'"
  by (rule q_reachable.step)

text \<open>A queue of two slots and two waiting pipelines, the labels of which share \<open>parallel/a\<close>: the first is started, and the second is not found.\<close>

definition two_waiting :: world where
  "two_waiting = world0\<lparr>w_pipelines := [pipeline_example TASK_CREATED, (pipeline_example TASK_CREATED)\<lparr>pID := 8\<rparr>],
     w_labels := [(7, ''parallel/a''), (8, ''parallel/a'')]\<rparr>"

definition one_marked :: world where
  "one_marked = snd (mark_running env_example 7 two_waiting)"

lemma two_waiting_start:
  "q_reachable env_example 2 \<lparr>q_world = one_marked, q_slots = 1, q_labels = [''parallel/a''], q_main = Acquiring,
     q_running = [(7, [''parallel/a''], False)], q_closing = 0\<rparr>"
proof -
  let ?p = "pipeline_example TASK_CREATED"
  have first: "db_first (next_pipelines []) two_waiting = (Ok ?p, two_waiting)"
    by (simp add: store_simps two_waiting_def world0_def next_pipelines_def pipeline_example_def)
  have marked: "mark_running env_example 7 two_waiting = (Ok (), one_marked)" "w_faults one_marked = []"
    "w_labels one_marked = [(7, ''parallel/a''), (8, ''parallel/a'')]"
    by (simp_all add: one_marked_def mark_running_def UpdatePipelines_def store_simps two_waiting_def world0_def)
  have filled: "fillPipelineDetail ?p one_marked = (Ok (?p\<lparr>pLabels := [''parallel/a'']\<rparr>), one_marked)"
    using marked by (simp add: fillPipelineDetail_def bind_svc_def wrap_err_def store_simps pipeline_example_def)
  have par: "parallel_labels (?p\<lparr>pLabels := [''parallel/a'']\<rparr>) = [''parallel/a'']"
    by (simp add: parallel_labels_def is_parallel_label_def HasPrefix_def)
  have "q_reachable env_example 2 (q_start two_waiting 2)" by (rule q_reachable.start)
  from q_reach [OF q_step.acquire this] have "q_reachable env_example 2 ((q_start two_waiting 2)\<lparr>q_slots := 1, q_main := Holding\<rparr>)"
    by (simp add: q_start_def)
  from q_reach [OF q_step.read this] have "q_reachable env_example 2 ((q_start two_waiting 2)\<lparr>q_slots := 1, q_main := Querying []\<rparr>)"
    by (simp add: q_start_def)
  from q_reach [OF q_step.found [where L = "[]" and p = ?p and ?w1.0 = two_waiting] this] first
  have "q_reachable env_example 2 ((q_start two_waiting 2)\<lparr>q_slots := 1, q_main := Found ?p\<rparr>)" by (simp add: q_start_def)
  from q_reach [OF q_step.mark [where p = ?p and ?w1.0 = one_marked] this] marked(1)
  have "q_reachable env_example 2 ((q_start one_marked 2)\<lparr>q_slots := 1, q_main := Marked ?p\<rparr>)"
    by (simp add: q_start_def pipeline_example_def)
  from q_reach [OF q_step.fill [where p = ?p and q = "?p\<lparr>pLabels := [''parallel/a'']\<rparr>" and ?w1.0 = one_marked] this] filled
  have "q_reachable env_example 2 ((q_start one_marked 2)\<lparr>q_slots := 1, q_main := Filled 7 [''parallel/a'']\<rparr>)"
    by (simp add: q_start_def par) (simp add: pipeline_example_def)
  from q_reach [OF q_step.launch [where pid = 7 and ls = "[''parallel/a'']"] this] show ?thesis by (simp add: q_start_def)
qed


section \<open>No pipeline runs twice at once\<close>

text \<open>The pipelines whose run has not returned.\<close>

definition active :: "qstate \<Rightarrow> id64 list" where
  "active s = map fst (filter (\<lambda>(_, _, ended). \<not> ended) (q_running s))"

lemma active_world [simp]: "active (s\<lparr>q_world := w\<rparr>) = active s"
  by (simp add: active_def)

definition q_busy :: "qstate \<Rightarrow> bool" where
  "q_busy s \<longleftrightarrow> distinct (active s) \<and> (\<forall>pid \<in> set (active s). busy pid (q_world s)) \<and>
     (case q_main s of Found p \<Rightarrow> pID p \<notin> set (active s) \<and> (\<exists>r \<in> set (w_pipelines (q_world s)). pID r = pID p)
      | Marked p \<Rightarrow> pID p \<notin> set (active s) \<and> busy (pID p) (q_world s)
      | Filled pid ls \<Rightarrow> pid \<notin> set (active s) \<and> busy pid (q_world s) | _ \<Rightarrow> True)"

lemma busy_there: "busy i w \<Longrightarrow> \<exists>r \<in> set (w_pipelines w). pID r = i"
  by (simp add: busy_def)

text \<open>An operation that keeps every busy pipeline but \<open>j\<close> busy, and removes none.\<close>

lemma q_busy_world:
  assumes "q_busy s" "\<And>i. i \<noteq> j \<Longrightarrow> keeps (busy i) m" "\<And>i L. keeps (tagged i L) m" "m (q_world s) = (r, w1)"
    and "j \<notin> set (active s)" "case q_main s of Marked p \<Rightarrow> pID p \<noteq> j | Filled pid ls \<Rightarrow> pid \<noteq> j | _ \<Rightarrow> True"
  shows "q_busy (s\<lparr>q_world := w1\<rparr>)"
proof -
  have kept: "busy i w1" if "i \<noteq> j" "busy i (q_world s)" for i using assms(2) that assms(4) by (blast intro: keepsE)
  have "\<exists>r \<in> set (w_pipelines w1). pID r = i" if "\<exists>r \<in> set (w_pipelines (q_world s)). pID r = i" for i
  proof -
    from that have "tagged i (labels_of i (q_world s)) (q_world s)" by (simp add: tagged_def)
    with keepsE [OF assms(3) assms(4)] show ?thesis by (auto simp: tagged_def)
  qed
  moreover have "\<forall>i \<in> set (active s). i \<noteq> j" using assms(5) by auto
  ultimately show ?thesis using kept assms(1,6) by (cases "q_main s") (simp_all add: q_busy_def)
qed

lemma q_busy_keeps:
  assumes "q_busy s" "\<And>i. keeps (busy i) m" "\<And>i L. keeps (tagged i L) m" "m (q_world s) = (r, w1)"
  shows "q_busy (s\<lparr>q_world := w1\<rparr>)"
proof -
  have "\<exists>r \<in> set (w_pipelines w1). pID r = i" if "\<exists>r \<in> set (w_pipelines (q_world s)). pID r = i" for i
  proof -
    from that have "tagged i (labels_of i (q_world s)) (q_world s)" by (simp add: tagged_def)
    with keepsE [OF assms(3) assms(4)] show ?thesis by (auto simp: tagged_def)
  qed
  moreover have "busy i w1" if "busy i (q_world s)" for i using keepsE [OF assms(2) assms(4) that] .
  ultimately show ?thesis using assms(1) by (cases "q_main s") (simp_all add: q_busy_def)
qed

lemma q_busy_step:
  assumes "quiet_plugins env" "temporal_run env = None" "q_busy s" "q_step env s s'"
  shows "q_busy s'"
  using assms(4)
proof cases
  case acquire
  with assms(3) show ?thesis by (simp add: q_busy_def active_def)
next
  case read
  with assms(3) show ?thesis by (simp add: q_busy_def active_def)
next
  case (found L p w1)
  have b: "q_busy (s\<lparr>q_world := w1\<rparr>)" by (rule q_busy_keeps [OF assms(3) next_keeps found(3)])
  note first = db_first_next [OF found(3)]
  have p: "p \<in> set (w_pipelines (q_world s))" "pStatus p \<noteq> TASK_RUNNING"
    using next_pipelines_free(2,3) first by force+
  then have "pID p \<notin> set (active s)" using assms(3) by (auto simp: q_busy_def busy_def)
  moreover have "p \<in> set (w_pipelines w1)" using p first by simp
  ultimately show ?thesis using b unfolding found(1) by (auto simp: q_busy_def active_def)
next
  case (none L e w1)
  have "q_busy (s\<lparr>q_world := w1\<rparr>)" by (rule q_busy_keeps [OF assms(3) next_keeps none(3)])
  then show ?thesis unfolding none(1) by (simp add: q_busy_def active_def)
next
  case (mark p w1)
  have b: "q_busy (s\<lparr>q_world := w1\<rparr>)" by (rule q_busy_keeps [OF assms(3) mark_keeps mark(3)])
  from assms(3) mark(2) obtain r where r: "r \<in> set (w_pipelines (q_world s))" "pID r = pID p" by (auto simp: q_busy_def)
  note res = mark_running_result [OF mark(3)]
  have "\<exists>r \<in> set (w_pipelines w1). pID r = pID p"
    unfolding res [THEN conjunct2] using r
    by (intro bexI [of _ "r\<lparr>pStatus := TASK_RUNNING, pMessage := [], pBeganAt := Some (pipeline_began env (pID p))\<rparr>"])
      (auto simp: update_where_def)
  then have "busy (pID p) w1" by (auto simp: busy_def res set_update_where)
  with b show ?thesis unfolding mark(1) by (simp add: q_busy_def active_def mark(2))
next
  case (fill p q w1)
  have b: "q_busy (s\<lparr>q_world := w1\<rparr>)" by (rule q_busy_keeps [OF assms(3) fill_keeps fill(3)])
  with fill_labels [OF fill(3)] show ?thesis unfolding fill(1) by (simp add: q_busy_def active_def fill(2))
next
  case (launch pid ls)
  with assms(3) show ?thesis by (auto simp: q_busy_def active_def)
next
  case (run k pid ls r w1 e)
  obtain ys zs where l: "q_running s = ys @ (pid, ls, False) # zs" "(q_running s)[k := (pid, ls, True)] = ys @ (pid, ls, True) # zs"
    using list_update_split [OF run(2), of "(pid, ls, True)"] run(3) by auto
  define t where "t = s\<lparr>q_running := ys @ (pid, ls, True) # zs\<rparr>"
  have t: "q_busy t" "pid \<notin> set (active t)" "case q_main t of Marked p \<Rightarrow> pID p \<noteq> pid | Filled i ls \<Rightarrow> i \<noteq> pid | _ \<Rightarrow> True"
    using assms(3) unfolding q_busy_def active_def t_def by (auto simp: l(1) split: q_phase.splits)
  have "q_busy (t\<lparr>q_world := w1\<rparr>)"
  proof (rule q_busy_world [OF t(1) _ _ _ t(2,3)])
    show "keeps (busy i) (runPipeline env pid)" if "i \<noteq> pid" for i
      using that by (intro watch_busy.watch_runPipeline assms(1,2)) simp
    show "keeps (tagged i L) (runPipeline env pid)" for i L
      by (intro watch_tagged.watch_runPipeline assms(1,2)) simp
    show "runPipeline env pid (q_world t) = (r, w1)" using run(4) by (simp add: t_def)
  qed
  moreover have "t\<lparr>q_world := w1\<rparr> = s\<lparr>q_world := w1, q_running := ys @ (pid, ls, True) # zs\<rparr>" by (simp add: t_def)
  ultimately show ?thesis unfolding run(1) l(2) by (simp only:)
next
  case (give_back k pid ls)
  obtain ys zs where l: "q_running s = ys @ (pid, ls, True) # zs" "take k (q_running s) @ drop (Suc k) (q_running s) = ys @ zs"
    using list_update_split [OF give_back(2), of undefined] give_back(3) by auto
  show ?thesis using assms(3) unfolding give_back(1) l(2) by (cases "q_main s") (simp_all add: q_busy_def active_def l(1))
next
  case release
  with assms(3) show ?thesis by (cases "q_main s") (simp_all add: q_busy_def active_def)
next
  case (create np r w1)
  show ?thesis unfolding create(1)
    by (rule q_busy_keeps [OF assms(3) watch_busy.watch_CreatePipeline watch_tagged.watch_CreatePipeline create(3)])
next
  case (cancel temporal pid u w1)
  show ?thesis unfolding cancel(1)
    by (rule q_busy_keeps [OF assms(3) watch_busy.watch_CancelPipeline watch_tagged.watch_CancelPipeline cancel(3)])
next
  case (rerun pid t ts w1)
  show ?thesis unfolding rerun(1)
    by (rule q_busy_keeps [OF assms(3) watch_busy.watch_RerunPipeline watch_tagged.watch_RerunPipeline rerun(3)])
qed

text \<open>No pipeline is run by two goroutines at once, and every pipeline that a goroutine runs is marked
  running in the database, in every state the queue can reach, provided the plugins do not write the
  tables of pipelines and labels.\<close>

theorem queue_runs_once:
  assumes "quiet_plugins env" and "temporal_run env = None" and "q_reachable env n s"
  shows "distinct (active s) \<and>
    (\<forall>pid \<in> set (active s). \<forall>r \<in> set (w_pipelines (q_world s)). pID r = pid \<longrightarrow> pStatus r = TASK_RUNNING)"
proof -
  from assms(3) have "q_busy s"
  proof (induction rule: q_reachable.induct)
    case start
    show ?case by (simp add: q_busy_def q_start_def active_def)
  next
    case (step s s')
    then show ?case by (blast intro: q_busy_step assms(1,2))
  qed
  then show ?thesis by (auto simp: q_busy_def busy_def)
qed

theorem queue_runs_once_witness:
  "\<exists>s. q_reachable env_example 2 s \<and> active s = [7] \<and> distinct (active s)"
  using queue_runs_once [OF env_example_quiet two_waiting_start] two_waiting_start by (intro exI conjI) (auto simp: active_def)

text \<open>The update that marks a pipeline running holds no lock and looks at the id alone: a pipeline that was cancelled between the query
  that found it and this update, and whose cancellation was reported as done, is marked running all the same.\<close>

theorem cancelled_pipeline_marked:
  assumes "q_main s = Found p" "CancelPipeline temporal (pID p) (q_world s) = (Ok (), w1)" "w_faults w1 = []"
  shows "\<exists>w2. q_step env s (s\<lparr>q_world := w1\<rparr>) \<and> q_step env (s\<lparr>q_world := w1\<rparr>) (s\<lparr>q_world := w2, q_main := Marked p\<rparr>) \<and>
    (\<forall>r \<in> set (w_pipelines w2). pID r = pID p \<longrightarrow> pStatus r = TASK_RUNNING)"
proof -
  obtain w2 where w2: "mark_running env (pID p) w1 = (Ok (), w2)"
    using assms(3) by (simp add: mark_running_def UpdatePipelines_def store_simps)
  have "q_step env s (s\<lparr>q_world := w1\<rparr>)" using assms(1) by (intro q_step.cancel [OF _ assms(2)]) (simp add: cron_locked_def)
  moreover have "q_step env (s\<lparr>q_world := w1\<rparr>) ((s\<lparr>q_world := w1\<rparr>)\<lparr>q_world := w2, q_main := Marked p\<rparr>)"
    using assms(1) w2 by (intro q_step.mark) simp_all
  then have "q_step env (s\<lparr>q_world := w1\<rparr>) (s\<lparr>q_world := w2, q_main := Marked p\<rparr>)" by simp
  ultimately show ?thesis using mark_running_result [OF w2] by (intro exI [of _ w2]) (auto simp: set_update_where)
qed

end
