(* ===== verification/PlanMaking.thy ===== *)
theory PlanMaking
  imports PipelineFacts PluginHub
begin

text \<open>
  Making the plan of a blueprint (\<open>blueprint.go\<close>, \<open>blueprint_makeplan_v100.go\<close> and
  \<open>blueprint_makeplan_v200.go\<close> under \<open>backend/server/services\<close>): merging plans that may run in parallel or
  must run in sequence, the plans of the two versions of the settings, and the plan around them.

  What the plugins contribute is the record \<open>bp_plugin\<close>: for each interface of
  \<open>plugin_blueprint.go\<close> the plugin implements, its method.
\<close>

section \<open>Merging plans\<close>

text \<open>Go's \<open>append(merged[index], stage...)\<close> for the stages of a plan, from \<open>index\<close> on.\<close>

fun merge_stages :: "nat \<Rightarrow> PipelinePlan \<Rightarrow> PipelinePlan \<Rightarrow> PipelinePlan" where
  "merge_stages index merged [] = merged"
| "merge_stages index merged (stage # stages) =
     (let merged' = (if index \<ge> length merged then merged @ [[]] else merged)
      in merge_stages (index + 1) (merged'[index := merged' ! index @ stage]) stages)"

definition ParallelizePipelinePlans :: "PipelinePlan list \<Rightarrow> PipelinePlan" where
  "ParallelizePipelinePlans plans = foldl (\<lambda>merged plan. merge_stages 0 merged plan) [] plans"

definition SequencializePipelinePlans :: "PipelinePlan list \<Rightarrow> PipelinePlan" where
  "SequencializePipelinePlans plans = foldl (\<lambda>merged plan. merged @ plan) [] plans"

section \<open>JSON columns\<close>

definition json_decode :: "'a json \<Rightarrow> goerr + 'a" where
  "json_decode j = (case j of JsonNil \<Rightarrow> Inl (the (Convert (Some (External ''unexpected end of JSON input''))))
     | JsonBad s \<Rightarrow> Inl (the (Convert (Some (External s)))) | JsonVal v \<Rightarrow> Inr v)"

definition WrapPipelinePlans :: "PipelinePlan json \<Rightarrow> PipelinePlan \<Rightarrow> PipelinePlan json \<Rightarrow> goerr + PipelinePlan" where
  "WrapPipelinePlans beforeJson mainPlan afterJson =
     (case (if beforeJson = JsonNil then Inr [] else json_decode beforeJson) of
        Inl e \<Rightarrow> Inl e
      | Inr beforePlan \<Rightarrow>
         (case (if afterJson = JsonNil then Inr [] else json_decode afterJson) of
            Inl e \<Rightarrow> Inl e
          | Inr afterPlan \<Rightarrow> Inr (SequencializePipelinePlans [beforePlan, mainPlan, afterPlan])))"

section \<open>The plugins' part\<close>

record sync_policy =
  spTimeAfter :: "int option"

record bp_plugin =
  MakePipelinePlan :: "(id64 \<Rightarrow> string list \<Rightarrow> goerr + PipelinePlan) option"
  MakeDataSourcePipelinePlanV200 ::
    "(id64 \<Rightarrow> BlueprintScope list \<Rightarrow> sync_policy \<Rightarrow> goerr + (PipelinePlan \<times> scope_row list)) option"
  MakeMetricPluginPipelinePlanV200 :: "(string \<Rightarrow> string \<Rightarrow> goerr + PipelinePlan) option"
  MapProject :: "(string \<Rightarrow> scope_row list \<Rightarrow> goerr + PipelinePlan) option"

section \<open>Version 1.0.0\<close>

fun plans_v100 :: "bp_plugin hub \<Rightarrow> nat \<Rightarrow> BlueprintConnection list \<Rightarrow> goerr + PipelinePlan list" where
  "plans_v100 hub i [] = Inr []"
| "plans_v100 hub i (c # cs) =
     (if bcScope c = [] then Inl (New Default (''connections['' @ show_nat i @ ''].scope is empty''))
      else case GetPlugin hub (bcPlugin c) of
        Inl e \<Rightarrow> Inl e
      | Inr p \<Rightarrow> (case MakePipelinePlan p of
          None \<Rightarrow> Inl (New Default (''plugin '' @ bcPlugin c @ '' does not support blueprint protocol version 1.0.0''))
        | Some mk \<Rightarrow> (case mk (bcConnectionId c) (bcScope c) of
            Inl e \<Rightarrow> Inl e
          | Inr plan \<Rightarrow> (case plans_v100 hub (i + 1) cs of Inl e \<Rightarrow> Inl e | Inr plans \<Rightarrow> Inr (plan # plans)))))"

text \<open>The dora tasks of the plans: whether there is one, and their options merged, later ones winning.\<close>

definition dora_tasks :: "PipelinePlan list \<Rightarrow> PipelineTask list" where
  "dora_tasks plans = filter (\<lambda>t. ptPlugin t = ''dora'') (concat (concat plans))"

definition dora_rules :: "PipelinePlan list \<Rightarrow> options" where
  "dora_rules plans = fold (\<lambda>t. fold (\<lambda>(k, v). AList.update k v) (ptOptions t)) (dora_tasks plans) []"

definition GeneratePlanJsonV100 :: "bp_plugin hub \<Rightarrow> BlueprintSettings \<Rightarrow> goerr + PipelinePlan" where
  "GeneratePlanJsonV100 hub settings =
     (case json_decode (sConnections settings) of
        Inl e \<Rightarrow> Inl e
      | Inr connections \<Rightarrow> (case plans_v100 hub 0 connections of
          Inl e \<Rightarrow> Inl e
        | Inr plans \<Rightarrow>
            let merged = ParallelizePipelinePlans plans
            in Inr (if dora_tasks plans \<noteq> []
                 then merged @ [[\<lparr>ptPlugin = ''dora'',
                        ptSubtasks = [''calculateChangeLeadTimeOld'', ''connectIncidentToDeploymentOld''],
                        ptOptions = dora_rules plans\<rparr>]]
                 else merged)))"

section \<open>Version 2.0.0\<close>

fun plans_v200 :: "bp_plugin hub \<Rightarrow> sync_policy \<Rightarrow> nat \<Rightarrow> BlueprintConnection list \<Rightarrow>
    goerr + (PipelinePlan \<times> scope_row list) list" where
  "plans_v200 hub policy i [] = Inr []"
| "plans_v200 hub policy i (c # cs) =
     (if bcScopes c = [] \<and> bcPlugin c \<noteq> ''webhook'' \<and> bcPlugin c \<noteq> ''jenkins''
      then Inl (New Default (''connections['' @ show_nat i @ ''].scopes is empty''))
      else case GetPlugin hub (bcPlugin c) of
        Inl e \<Rightarrow> Inl e
      | Inr p \<Rightarrow> (case MakeDataSourcePipelinePlanV200 p of
          None \<Rightarrow> Inl (New Default (''plugin '' @ bcPlugin c @ '' does not support DataSourcePluginBlueprintV200''))
        | Some mk \<Rightarrow> (case mk (bcConnectionId c) (bcScopes c) policy of
            Inl e \<Rightarrow> Inl e
          | Inr r \<Rightarrow> (case plans_v200 hub policy (i + 1) cs of Inl e \<Rightarrow> Inl e | Inr rs \<Rightarrow> Inr (r # rs)))))"

text \<open>\<open>metrics\<close> lists the map's entries in the order of its iteration.\<close>

fun metric_plans :: "bp_plugin hub \<Rightarrow> string \<Rightarrow> (string \<times> string) list \<Rightarrow> goerr + PipelinePlan list" where
  "metric_plans hub projectName [] = Inr []"
| "metric_plans hub projectName ((name, opt) # ms) =
     (case GetPlugin hub name of
        Inl e \<Rightarrow> Inl e
      | Inr p \<Rightarrow> (case MakeMetricPluginPipelinePlanV200 p of
          None \<Rightarrow> Inl (New Default (''plugin '' @ name @ '' does not support MetricPluginBlueprintV200''))
        | Some mk \<Rightarrow> (case mk projectName (if opt = [] then ''{}'' else opt) of
            Inl e \<Rightarrow> Inl e
          | Inr plan \<Rightarrow> (case metric_plans hub projectName ms of Inl e \<Rightarrow> Inl e | Inr plans \<Rightarrow> Inr (plan # plans)))))"

definition mapping_plan :: "bp_plugin hub \<Rightarrow> string \<Rightarrow> scope_row list \<Rightarrow> goerr + PipelinePlan" where
  "mapping_plan hub projectName scopes =
     (if projectName = [] then Inr []
      else case GetPlugin hub ''org'' of
        Inl e \<Rightarrow> Inl e
      | Inr p \<Rightarrow> (case MapProject p of None \<Rightarrow> Inr [] | Some mapper \<Rightarrow> mapper projectName scopes))"

definition genPlanJsonV200 :: "bp_plugin hub \<Rightarrow> string \<Rightarrow> sync_policy \<Rightarrow> BlueprintSettings \<Rightarrow> (string \<times> string) list \<Rightarrow>
    goerr + (PipelinePlan \<times> scope_row list)" where
  "genPlanJsonV200 hub projectName policy sources metrics =
     (case json_decode (sConnections sources) of
        Inl e \<Rightarrow> Inl e
      | Inr connections \<Rightarrow> (case plans_v200 hub policy 0 connections of
          Inl e \<Rightarrow> Inl e
        | Inr rs \<Rightarrow> (case metric_plans hub projectName metrics of
            Inl e \<Rightarrow> Inl e
          | Inr metricPlans \<Rightarrow>
              let scopes = concat (map snd rs)
              in case mapping_plan hub projectName scopes of
                Inl e \<Rightarrow> Inl e
              | Inr mappingPlan \<Rightarrow> Inr (SequencializePipelinePlans
                  [mappingPlan, ParallelizePipelinePlans (map fst rs), ParallelizePipelinePlans metricPlans], scopes))))"

definition save_scope :: "scope_row \<Rightarrow> unit svc" where
  "save_scope s =
     wrap_err Default (''failed to create scopes:[[Id:'' @ scId s @ ''][Name:'' @ scName s @ ''][TableName:'' @ scTable s @ '']]'')
       (db_do (\<lambda>w. w\<lparr>w_scopes := filter (\<lambda>r. (scTable r, scId r) \<noteq> (scTable s, scId s)) (w_scopes w) @ [s]\<rparr>))"

definition GeneratePlanJsonV200 :: "bp_plugin hub \<Rightarrow> string \<Rightarrow> sync_policy \<Rightarrow> BlueprintSettings \<Rightarrow>
    (string \<times> string) list \<Rightarrow> PipelinePlan svc" where
  "GeneratePlanJsonV200 hub projectName policy sources metrics =
     (case genPlanJsonV200 hub projectName policy sources metrics of
        Inl e \<Rightarrow> fail e
      | Inr (plan, scopes) \<Rightarrow> bind_svc (each save_scope scopes) (\<lambda>_. ret plan))"

section \<open>The plan of a blueprint\<close>

definition from_sum :: "goerr + 'a \<Rightarrow> 'a svc" where
  "from_sum r = (case r of Inl e \<Rightarrow> fail e | Inr x \<Rightarrow> ret x)"

text \<open>The enabled metrics of the project as a map from plugin names: of two rows with one name the
  later wins, in its first position.\<close>

definition project_metrics :: "string \<Rightarrow> world \<Rightarrow> (string \<times> string) list" where
  "project_metrics projectName w =
     fold (\<lambda>r. AList.update (msPlugin r) (msOption r))
       (filter (\<lambda>r. msProject r = projectName \<and> msEnable r) (w_metrics w)) []"

definition MakePlanForBlueprint :: "bp_plugin hub \<Rightarrow> blueprint \<Rightarrow> PipelinePlan svc" where
  "MakePlanForBlueprint hub bp =
     bind_svc (wrap_err Default ''settings:'' (from_sum (json_decode (bpSettings bp)))) (\<lambda>settings.
     bind_svc
       (if sVersion settings = ''1.0.0'' then from_sum (GeneratePlanJsonV100 hub settings)
        else if sVersion settings = ''2.0.0'' then
          bind_svc (if bpProjectName bp \<noteq> [] then db_get (project_metrics (bpProjectName bp)) else ret []) (\<lambda>metrics.
          GeneratePlanJsonV200 hub (bpProjectName bp) \<lparr>spTimeAfter = sTimeAfter settings\<rparr> settings metrics)
        else fail (New Default (''unknown version of blueprint settings: '' @ sVersion settings)))
       (\<lambda>plan. from_sum (WrapPipelinePlans (sBeforePlan settings) plan (sAfterPlan settings))))"

section \<open>What the merged plans hold\<close>

lemma SequencializePipelinePlans_concat: "SequencializePipelinePlans plans = concat plans"
proof -
  have "foldl (\<lambda>m p. m @ p) acc plans = acc @ concat plans" for acc
    by (induction plans arbitrary: acc) auto
  then show ?thesis by (simp add: SequencializePipelinePlans_def)
qed

definition stage_at :: "PipelinePlan \<Rightarrow> nat \<Rightarrow> PipelineStage" where
  "stage_at plan i = (if i < length plan then plan ! i else [])"

lemma stage_at_Nil [simp]: "stage_at [] i = []"
  by (simp add: stage_at_def)

lemma merge_stages_spec:
  assumes "index \<le> length merged"
  shows "length (merge_stages index merged plan) = max (length merged) (index + length plan)"
    and "stage_at (merge_stages index merged plan) i =
      stage_at merged i @ (if index \<le> i then stage_at plan (i - index) else [])"
proof -
  have "length (merge_stages index merged plan) = max (length merged) (index + length plan) \<and>
    stage_at (merge_stages index merged plan) i =
      stage_at merged i @ (if index \<le> i then stage_at plan (i - index) else [])"
    using assms
  proof (induction index merged plan rule: merge_stages.induct)
    case (1 index merged)
    then show ?case by (simp add: stage_at_def)
  next
    case (2 index merged stage stages)
    define m where "m = (if index \<ge> length merged then merged @ [[]] else merged)"
    let ?m = "m[index := m ! index @ stage]"
    have len: "length m = max (length merged) (index + 1)" "index < length m"
      using "2.prems" by (auto simp: m_def)
    have IH: "length (merge_stages (index + 1) ?m stages) = max (length ?m) (index + 1 + length stages)"
      "stage_at (merge_stages (index + 1) ?m stages) i =
        stage_at ?m i @ (if index + 1 \<le> i then stage_at stages (i - (index + 1)) else [])"
      using "2.IH" [OF m_def] len by simp_all
    have "stage_at m i = stage_at merged i"
      using "2.prems" by (auto simp: m_def stage_at_def nth_append)
    moreover have "stage_at ?m i = stage_at m i @ (if i = index then stage else [])"
      using len(2) by (auto simp: stage_at_def)
    ultimately have "stage_at ?m i = stage_at merged i @ (if i = index then stage else [])" by simp
    moreover have "stage_at (stage # stages) (i - index) =
        (if i = index then stage else stage_at stages (i - (index + 1)))" if "index \<le> i"
      using that by (cases "i = index") (auto simp: stage_at_def nth_Cons' Suc_diff_Suc)
    ultimately show ?case
      using IH len by (auto simp: Let_def simp flip: m_def)
  qed
  then show "length (merge_stages index merged plan) = max (length merged) (index + length plan)"
    "stage_at (merge_stages index merged plan) i =
      stage_at merged i @ (if index \<le> i then stage_at plan (i - index) else [])" by blast+
qed

text \<open>\<open>ParallelizePipelinePlans\<close> runs the plans side by side: the merged plan has as many stages as
  the longest one, and its stage \<open>i\<close> is the tasks of the stages \<open>i\<close> of the plans that have one, in the
  order of the plans.\<close>

theorem ParallelizePipelinePlans_stages:
  "length (ParallelizePipelinePlans plans) = foldr (\<lambda>p m. max (length p) m) plans 0 \<and>
   (\<forall>i. stage_at (ParallelizePipelinePlans plans) i = concat (map (\<lambda>p. stage_at p i) plans))"
proof -
  have "length (foldl (\<lambda>m p. merge_stages 0 m p) acc plans) = max (length acc) (foldr (\<lambda>p m. max (length p) m) plans 0) \<and>
    (\<forall>i. stage_at (foldl (\<lambda>m p. merge_stages 0 m p) acc plans) i = stage_at acc i @ concat (map (\<lambda>p. stage_at p i) plans))" for acc
    by (induction plans arbitrary: acc) (simp_all add: merge_stages_spec max.assoc)
  from this [of "[]"] show ?thesis by (simp add: ParallelizePipelinePlans_def)
qed

lemma map_of_fold_AList_update:
  "map_of (fold (\<lambda>(k, v). AList.update k v) kvs al) k = map_of (rev kvs @ al) k"
proof (induction kvs arbitrary: al)
  case (Cons kv kvs)
  then show ?case by (cases kv) (auto simp: update_conv' map_add_def split: option.splits)
qed simp

lemma dora_rules_last:
  "map_of (dora_rules plans) k = map_of (rev (concat (map ptOptions (dora_tasks plans)))) k"
proof -
  have "fold (\<lambda>t. fold (\<lambda>(k, v). AList.update k v) (ptOptions t)) ts al =
      fold (\<lambda>(k, v). AList.update k v) (concat (map ptOptions ts)) al" for ts :: "PipelineTask list" and al
    by (induction ts arbitrary: al) simp_all
  then show ?thesis by (simp add: dora_rules_def map_of_fold_AList_update)
qed

lemma mset_merge_stages:
  "index \<le> length merged \<Longrightarrow> mset (concat (merge_stages index merged plan)) = mset (concat merged) + mset (concat plan)"
proof (induction index merged plan rule: merge_stages.induct)
  case (2 index merged stage stages)
  define m where "m = (if index \<ge> length merged then merged @ [[]] else merged)"
  have len: "index < length m" using "2.prems" by (auto simp: m_def)
  have "mset (concat (m[index := m ! index @ stage])) = mset (concat m) + mset stage"
  proof -
    have "m = take index m @ m ! index # drop (Suc index) m" using len by (rule id_take_nth_drop)
    then have "mset (concat m) = mset (concat (take index m)) + mset (m ! index) + mset (concat (drop (Suc index) m))"
      by (metis concat.simps(2) concat_append mset_append union_assoc)
    then show ?thesis using len by (simp add: upd_conv_take_nth_drop)
  qed
  moreover have "mset (concat m) = mset (concat merged)" by (simp add: m_def)
  moreover have "mset (concat (merge_stages (index + 1) (m[index := m ! index @ stage]) stages)) =
      mset (concat (m[index := m ! index @ stage])) + mset (concat stages)"
    using "2.IH" [OF m_def] len by simp
  ultimately show ?case by (simp add: Let_def flip: m_def)
qed simp

text \<open>A plan of protocol 1.0.0 holds every task the plugins of the connections planned, and nothing else
  but one closing dora stage, added exactly if one of them planned a dora task; that task takes the options of
  all of them, a later one winning over an earlier one for the same key.\<close>

theorem GeneratePlanJsonV100_tasks:
  "case GeneratePlanJsonV100 hub settings of
     Inl e \<Rightarrow> (case sConnections settings of
         JsonVal connections \<Rightarrow> plans_v100 hub 0 connections = Inl e | _ \<Rightarrow> True)
   | Inr plan \<Rightarrow> \<exists>connections plans closing. sConnections settings = JsonVal connections \<and>
       plans_v100 hub 0 connections = Inr plans \<and>
       mset (concat plan) = mset (concat (concat plans)) + mset closing \<and>
       (if \<exists>t \<in> set (concat (concat plans)). ptPlugin t = ''dora''
        then \<exists>t. closing = [t] \<and> last plan = [t] \<and> ptPlugin t = ''dora'' \<and>
          (\<forall>k. map_of (ptOptions t) k = map_of (rev (concat (map ptOptions (dora_tasks plans)))) k)
        else closing = [])"
proof (cases "GeneratePlanJsonV100 hub settings")
  case (Inl e)
  then show ?thesis
    by (auto simp: GeneratePlanJsonV100_def json_decode_def Let_def split: json.splits sum.splits)
next
  case (Inr plan)
  then obtain connections plans where c: "sConnections settings = JsonVal connections" "plans_v100 hub 0 connections = Inr plans"
    by (auto simp: GeneratePlanJsonV100_def json_decode_def split: json.splits sum.splits)
  have merged: "mset (concat (foldl (\<lambda>m p. merge_stages 0 m p) acc ps)) = mset (concat acc) + mset (concat (concat ps))" for acc ps
    by (induction ps arbitrary: acc) (simp_all add: mset_merge_stages)
  have all: "mset (concat (ParallelizePipelinePlans plans)) = mset (concat (concat plans))"
    using merged [of "[]" plans] by (simp add: ParallelizePipelinePlans_def)
  have dora: "dora_tasks plans \<noteq> [] \<longleftrightarrow> (\<exists>t \<in> set (concat (concat plans)). ptPlugin t = ''dora'')"
    by (simp only: dora_tasks_def filter_empty_conv) blast
  let ?t = "\<lparr>ptPlugin = ''dora'', ptSubtasks = [''calculateChangeLeadTimeOld'', ''connectIncidentToDeploymentOld''],
    ptOptions = dora_rules plans\<rparr>"
  have plan: "plan = (if dora_tasks plans \<noteq> [] then ParallelizePipelinePlans plans @ [[?t]] else ParallelizePipelinePlans plans)"
    using Inr c by (simp add: GeneratePlanJsonV100_def json_decode_def Let_def)
  show ?thesis
  proof (cases "dora_tasks plans = []")
    case True
    with Inr c plan all dora show ?thesis by auto
  next
    case False
    with Inr c plan all dora dora_rules_last show ?thesis
      by (simp only: sum.case if_True simp_thms) (intro exI conjI, auto)
  qed
qed

end
