(* ===== verification/BlueprintService.thy ===== *)
theory BlueprintService
  imports PlanMaking
begin

text \<open>
  The blueprint and the project services (\<open>blueprint.go\<close>, \<open>blueprint_helper.go\<close> and
  \<open>project.go\<close> under \<open>backend/server/services\<close>): validating and saving a blueprint, scheduling the
  enabled ones, creating a pipeline from one, and creating and patching projects in a transaction.

  The validator (\<open>go-playground/validator\<close>), the cron parser (\<open>robfig/cron\<close>) and the decoding of a
  patch are the members of \<open>bp_env\<close>.
\<close>

record project_metric =
  pmPlugin :: string
  pmOption :: string
  pmEnable :: bool

record ApiInputProject =
  piName :: string
  piDescription :: string
  piEnable :: "bool option"
  piMetrics :: "project_metric list option"

record ApiOutputProject =
  poName :: string
  poDescription :: string
  poMetrics :: "project_metric list option"
  poBlueprint :: "blueprint option"

record bp_env =
  be_hub :: "bp_plugin hub"
  be_validate :: "blueprint \<Rightarrow> string option"
  be_verify :: "ApiInputProject \<Rightarrow> string option"
  be_cron_parse :: "string \<Rightarrow> goerr option"

section \<open>Rows of blueprints\<close>

definition fillBlueprintDetail :: "blueprint \<Rightarrow> blueprint svc" where
  "fillBlueprintDetail bp =
     bind_svc (wrap_err Internal ''error getting the blueprint labels from database''
       (db_get (\<lambda>w. map snd (filter (\<lambda>(i, _). i = bpID bp) (w_bp_labels w))))) (\<lambda>ls. ret (bp\<lparr>bpLabels := ls\<rparr>))"

definition store_blueprint :: "blueprint \<Rightarrow> blueprint svc" where
  "store_blueprint bp = wrap_err Default ''error creating DB blueprint''
     (if bpID bp \<noteq> 0
      then bind_svc (db_do (\<lambda>w. w\<lparr>w_blueprints :=
          (if bpID bp \<in> bpID ` set (w_blueprints w)
           then update_where (\<lambda>r. bpID r = bpID bp) (\<lambda>r. bp\<lparr>bpLabels := []\<rparr>) (w_blueprints w)
           else w_blueprints w @ [bp\<lparr>bpLabels := []\<rparr>])\<rparr>)) (\<lambda>_. ret bp)
      else db (\<lambda>w. let bp' = bp\<lparr>bpID := next_id bpID (w_blueprints w)\<rparr>
          in (bp', w\<lparr>w_blueprints := w_blueprints w @ [bp'\<lparr>bpLabels := []\<rparr>]\<rparr>)))"

definition SaveDbBlueprint :: "blueprint \<Rightarrow> blueprint svc" where
  "SaveDbBlueprint bp0 =
     bind_svc (store_blueprint bp0) (\<lambda>bp.
     bind_svc (wrap_err Default ''error delete DB blueprint's old labelModels''
       (db_do (\<lambda>w. w\<lparr>w_bp_labels := filter (\<lambda>(i, _). i \<noteq> bpID bp) (w_bp_labels w)\<rparr>))) (\<lambda>_.
     bind_svc (if bpLabels bp \<noteq> [] then
          wrap_err Default ''error creating DB blueprint's labelModels''
            (db_do (\<lambda>w. w\<lparr>w_bp_labels := w_bp_labels w @ map (Pair (bpID bp)) (bpLabels bp)\<rparr>))
        else ret ()) (\<lambda>_. ret bp)))"

record BlueprintQuery =
  bqPagination :: Pagination
  bqEnable :: "bool option"
  bqIsManual :: "bool option"
  bqLabel :: string

definition blueprint_rows :: "BlueprintQuery \<Rightarrow> world \<Rightarrow> blueprint list" where
  "blueprint_rows q w =
     (let base = filter (\<lambda>b. (case bqEnable q of None \<Rightarrow> True | Some e \<Rightarrow> bpEnable b = Some e) \<and>
            (case bqIsManual q of None \<Rightarrow> True | Some m \<Rightarrow> bpIsManual b = m)) (w_blueprints w)
      in if bqLabel q = [] then base
         else concat (map (\<lambda>b. map (\<lambda>_. b)
                (filter (\<lambda>(i, n). i = bpID b \<and> n = bqLabel q) (w_bp_labels w))) base))"

definition GetDbBlueprints :: "BlueprintQuery \<Rightarrow> (blueprint list \<times> nat) svc" where
  "GetDbBlueprints q =
     bind_svc (db_get (\<lambda>w. length (blueprint_rows q w))) (\<lambda>count.
     bind_svc (wrap_err Default ''error getting DB count of blueprints''
       (db_get (\<lambda>w. page_rows (GetSkip (bqPagination q)) (GetPageSize (bqPagination q))
          (by_id_desc bpID (blueprint_rows q w))))) (\<lambda>bps.
     bind_svc (collect fillBlueprintDetail bps) (\<lambda>bps'. ret (bps', count))))"

definition GetBlueprints :: "BlueprintQuery \<Rightarrow> (blueprint list \<times> nat) svc" where
  "GetBlueprints q = GetDbBlueprints q"

definition load_blueprint :: "(blueprint \<Rightarrow> bool) \<Rightarrow> string \<Rightarrow> string \<Rightarrow> blueprint svc" where
  "load_blueprint P notFound otherwise =
     bind_svc (attempt (db_first (\<lambda>w. filter P (w_blueprints w)))) (\<lambda>r.
       case r of
         Inl e \<Rightarrow> if IsErrorNotFound e then fail (newSingleCrdbError NotFound (Some e) notFound None)
                  else fail (newSingleCrdbError Default (Some e) otherwise None)
       | Inr bp \<Rightarrow> fillBlueprintDetail bp)"

definition GetDbBlueprint :: "id64 \<Rightarrow> blueprint svc" where
  "GetDbBlueprint i = load_blueprint (\<lambda>b. bpID b = i) ''could not find blueprint in DB'' ''error getting blueprint from DB''"

definition GetDbBlueprintByProjectName :: "string \<Rightarrow> blueprint svc" where
  "GetDbBlueprintByProjectName name = load_blueprint (\<lambda>b. bpProjectName b = name)
     (''could not find blueprint in DB by projectName '' @ name) (''error getting blueprint from DB by projectName '' @ name)"

definition GetBlueprint :: "id64 \<Rightarrow> blueprint svc" where
  "GetBlueprint i =
     bind_svc (attempt (GetDbBlueprint i)) (\<lambda>r. case r of
       Inr bp \<Rightarrow> ret bp
     | Inl e \<Rightarrow> if IsErrorNotFound e then fail (New NotFound ''blueprint not found'')
                else fail (newSingleCrdbError Internal (Some e) ''error getting the blueprint from database'' None))"

definition GetBlueprintByProjectName :: "string \<Rightarrow> blueprint option svc" where
  "GetBlueprintByProjectName name =
     (if name = [] then fail (New Internal ''can not use the empty projectName to search the unique blueprint'')
      else bind_svc (attempt (GetDbBlueprintByProjectName name)) (\<lambda>r. case r of
          Inr bp \<Rightarrow> ret (Some bp)
        | Inl e \<Rightarrow> if IsErrorNotFound e then ret None
            else fail (newSingleCrdbError Internal (Some e)
              (''error getting the blueprint from database with project '' @ name) None)))"

section \<open>Projects\<close>

definition to_project_metric :: "metric_setting \<Rightarrow> project_metric" where
  "to_project_metric m = \<lparr>pmPlugin = msPlugin m, pmOption = msOption m, pmEnable = msEnable m\<rparr>"

definition makeProjectOutput :: "string \<Rightarrow> string \<Rightarrow> ApiOutputProject svc" where
  "makeProjectOutput name desc =
     bind_svc (wrap_err Default ''failed to load project metrics''
       (db_get (\<lambda>w. filter (\<lambda>m. msProject m = name) (w_metrics w)))) (\<lambda>ms.
     bind_svc (wrap_err Default ''Error to get blueprint by project'' (GetBlueprintByProjectName name)) (\<lambda>bp.
     ret \<lparr>poName = name, poDescription = desc,
       poMetrics = (if ms = [] then None else Some (map to_project_metric ms)), poBlueprint = bp\<rparr>))"

definition GetProject :: "string \<Rightarrow> ApiOutputProject svc" where
  "GetProject name =
     (if name = [] then fail (New BadInput ''project name is missing'')
      else bind_svc (attempt (db_first (\<lambda>w. filter (\<lambda>p. prName p = name) (w_projects w)))) (\<lambda>r. case r of
          Inl e \<Rightarrow> if IsErrorNotFound e
            then fail (newSingleCrdbError NotFound (Some e) (''could not find project ['' @ name @ ''] in DB'') None)
            else fail (newSingleCrdbError Default (Some e) ''error getting project from DB'' None)
        | Inr p \<Rightarrow> makeProjectOutput (prName p) (prDescription p)))"

definition refreshProjectMetrics :: "string \<Rightarrow> project_metric list \<Rightarrow> unit svc" where
  "refreshProjectMetrics name ms =
     bind_svc (db_do (\<lambda>w. w\<lparr>w_metrics := filter (\<lambda>m. msProject m \<noteq> name) (w_metrics w)\<rparr>)) (\<lambda>_.
     each (\<lambda>m. db_do (\<lambda>w. w\<lparr>w_metrics := w_metrics w @
        [\<lparr>msProject = name, msPlugin = pmPlugin m, msOption = pmOption m, msEnable = pmEnable m\<rparr>]\<rparr>)) ms)"

text \<open>\<open>IsDuplicationError\<close> looks for the word in the text of the driver's error.\<close>

fun root_text :: "goerr \<Rightarrow> string" where
  "root_text (External s) = s"
| "root_text (Crdb t m d w) = (case w of Some c \<Rightarrow> root_text c | None \<Rightarrow> getMessage m)"

definition IsDuplicationError :: "goerr \<Rightarrow> bool" where
  "IsDuplicationError e \<longleftrightarrow> strings_Contains (to_lower (root_text e)) ''duplicate''"

definition insert_project :: "string \<Rightarrow> string \<Rightarrow> unit svc" where
  "insert_project name desc =
     bind_svc (db (\<lambda>w. if name \<in> prName ` set (w_projects w) then (False, w)
         else (True, w\<lparr>w_projects := w_projects w @ [\<lparr>prName = name, prDescription = desc\<rparr>]\<rparr>))) (\<lambda>ok.
     if ok then ret () else fail (dal_error (''Duplicate entry '' @ name)))"

text \<open>A transaction: when the body or the commit fails, \<open>restore\<close> undoes what its statements did.\<close>

definition transaction :: "(world \<Rightarrow> world \<Rightarrow> world) \<Rightarrow> unit svc \<Rightarrow> unit svc" where
  "transaction restore body w =
     (case bind_svc body (\<lambda>_. wrap_err Default ''failed to commit transaction'' (db_do (\<lambda>w. w))) w of
        (Ok u, w1) \<Rightarrow> (Ok u, w1)
      | (r, w1) \<Rightarrow> (r, restore w w1))"

text \<open>\<open>CreateProject\<close> opens a transaction but inserts the project with \<open>db\<close>, outside of it: a
  rollback undoes the metrics only.\<close>

definition CreateProject :: "bp_env \<Rightarrow> ApiInputProject \<Rightarrow> ApiOutputProject svc" where
  "CreateProject env inp =
     (case be_verify env inp of
        Some s \<Rightarrow> fail (newSingleCrdbError BadInput (Some (External s)) ''data verification failed'' None)
      | None \<Rightarrow>
        bind_svc (transaction (\<lambda>w0 w. w\<lparr>w_metrics := w_metrics w0\<rparr>)
          (bind_svc (attempt (insert_project (piName inp) (piDescription inp))) (\<lambda>r. case r of
             Inl e \<Rightarrow> if IsDuplicationError e
               then fail (New BadInput (''A project with name ['' @ piName inp @ ''] already exists''))
               else fail (newSingleCrdbError Default (Some e) ''error creating DB project'' None)
           | Inr _ \<Rightarrow> (case piMetrics inp of None \<Rightarrow> ret () | Some ms \<Rightarrow> refreshProjectMetrics (piName inp) ms))))
        (\<lambda>_. makeProjectOutput (piName inp) (piDescription inp)))"

definition rename_key :: "string \<Rightarrow> string \<Rightarrow> (string \<times> string) list \<Rightarrow> (string \<times> string) list" where
  "rename_key name new rows = map (\<lambda>(p, k). (if p = name then new else p, k)) rows"

text \<open>The error of the last statement, renaming the project itself, is overwritten, also the violation
  of the primary key when a project with the new name exists.\<close>

definition rename_project :: "string \<Rightarrow> string \<Rightarrow> unit svc" where
  "rename_project name new =
     bind_svc (db_do (\<lambda>w. w\<lparr>w_metrics := update_where (\<lambda>m. msProject m = name) (\<lambda>m. m\<lparr>msProject := new\<rparr>) (w_metrics w)\<rparr>)) (\<lambda>_.
     bind_svc (db_do (\<lambda>w. w\<lparr>w_pr_metrics := rename_key name new (w_pr_metrics w)\<rparr>)) (\<lambda>_.
     bind_svc (db_do (\<lambda>w. w\<lparr>w_issue_metrics := rename_key name new (w_issue_metrics w)\<rparr>)) (\<lambda>_.
     bind_svc (db_do (\<lambda>w. w\<lparr>w_mappings := rename_key name new (w_mappings w)\<rparr>)) (\<lambda>_.
     bind_svc (db_do (\<lambda>w. w\<lparr>w_blueprints := update_where (\<lambda>b. bpProjectName b = name)
       (\<lambda>b. b\<lparr>bpProjectName := new\<rparr>) (w_blueprints w)\<rparr>)) (\<lambda>_.
     bind_svc (attempt (bind_svc (db (\<lambda>w. if new \<in> prName ` set (w_projects w) then (False, w)
         else (True, w\<lparr>w_projects := update_where (\<lambda>p. prName p = name) (\<lambda>p. p\<lparr>prName := new\<rparr>) (w_projects w)\<rparr>)))
       (\<lambda>ok. if ok then ret () else fail (dal_error (''Duplicate entry '' @ new))))) (\<lambda>_. ret ()))))))"

definition save_project :: "project \<Rightarrow> world \<Rightarrow> world" where
  "save_project p w = w\<lparr>w_projects :=
     (if prName p \<in> prName ` set (w_projects w) then update_where (\<lambda>r. prName r = prName p) (\<lambda>_. p) (w_projects w)
      else w_projects w @ [p])\<rparr>"

definition patch_project :: "string \<Rightarrow> ApiInputProject \<Rightarrow> unit svc" where
  "patch_project name inp =
     bind_svc (db_first (\<lambda>w. filter (\<lambda>p. prName p = name) (w_projects w))) (\<lambda>_.
     bind_svc (if name \<noteq> piName inp then rename_project name (piName inp) else ret ()) (\<lambda>_.
     bind_svc (db_do (\<lambda>w. w\<lparr>w_blueprints := update_where (\<lambda>b. bpProjectName b = name)
       (\<lambda>b. b\<lparr>bpEnable := piEnable inp\<rparr>) (w_blueprints w)\<rparr>)) (\<lambda>_.
     bind_svc (case piMetrics inp of None \<Rightarrow> ret () | Some ms \<Rightarrow> refreshProjectMetrics (piName inp) ms) (\<lambda>_.
     db_do (save_project \<lparr>prName = piName inp, prDescription = piDescription inp\<rparr>)))))"

text \<open>\<open>body\<close> is the decoded request; a name left out is the present one.\<close>

definition PatchProject :: "string \<Rightarrow> goerr + ApiInputProject \<Rightarrow> ApiOutputProject svc" where
  "PatchProject name body =
     (case body of
        Inl e \<Rightarrow> fail e
      | Inr inp0 \<Rightarrow>
          let inp = (if piName inp0 = [] then inp0\<lparr>piName := name\<rparr> else inp0)
          in bind_svc (transaction (\<lambda>w0 w. w0\<lparr>w_faults := w_faults w\<rparr>) (patch_project name inp))
               (\<lambda>_. makeProjectOutput (piName inp) (piDescription inp)))"

section \<open>Validating, saving and scheduling blueprints\<close>

definition check_project :: "blueprint \<Rightarrow> unit svc" where
  "check_project bp =
     (if bpProjectName bp = [] then ret ()
      else
        bind_svc (wrap_err Default (''invalid projectName: ['' @ bpProjectName bp @ ''] for the blueprint ['' @ bpName bp @ '']'')
          (GetProject (bpProjectName bp))) (\<lambda>_.
        bind_svc (GetBlueprintByProjectName (bpProjectName bp)) (\<lambda>other. case other of
          None \<Rightarrow> ret ()
        | Some b \<Rightarrow> if bpID b \<noteq> bpID bp
            then fail (New Default (''Each project can only be used by one blueprint. The currently selected projectName: [''
                @ bpProjectName b @ ''] has been used by blueprint: [id:'' @ show_nat (bpID b) @ ''] [name:'' @ bpName b
                @ ''] and cannot be reused.''))
            else ret ())))"

definition check_cron :: "bp_env \<Rightarrow> blueprint \<Rightarrow> goerr + blueprint" where
  "check_cron env bp0 =
     (let bp = (if to_lower (bpCronConfig bp0) = ''manual'' then bp0\<lparr>bpIsManual := True\<rparr> else bp0)
      in if bpIsManual bp then Inr bp
         else case be_cron_parse env (bpCronConfig bp) of
           None \<Rightarrow> Inr bp
         | Some e \<Rightarrow> Inl (newSingleCrdbError Default (Some e) ''invalid cronConfig'' None))"

definition check_plan :: "bp_env \<Rightarrow> blueprint \<Rightarrow> blueprint svc" where
  "check_plan env bp =
     (if bpMode bp = ''ADVANCED'' then
        bind_svc (wrap_err Default ''invalid plan'' (from_sum (json_decode (bpPlan bp)))) (\<lambda>plan.
        if plan = [] \<or> hd plan = [] then fail (New Default ''empty plan'') else ret bp)
      else if bpMode bp = ''NORMAL'' then
        bind_svc (wrap_err Default ''make plan for blueprint failed'' (MakePlanForBlueprint (be_hub env) bp)) (\<lambda>plan.
        ret (bp\<lparr>bpPlan := JsonVal plan\<rparr>))
      else ret bp)"

definition validateBlueprintAndMakePlan :: "bp_env \<Rightarrow> blueprint \<Rightarrow> blueprint svc" where
  "validateBlueprintAndMakePlan env bp =
     (case be_validate env bp of
        Some s \<Rightarrow> fail (newSingleCrdbError BadInput (Some (External s)) s None)
      | None \<Rightarrow>
        bind_svc (check_project bp) (\<lambda>_.
        bind_svc (from_sum (check_cron env bp)) (check_plan env)))"

text \<open>\<open>ReloadBlueprints\<close>: one job for each blueprint loaded, the scheduler stopped meanwhile.\<close>

fun add_jobs :: "bp_env \<Rightarrow> blueprint list \<Rightarrow> unit svc" where
  "add_jobs env [] = ret ()"
| "add_jobs env (bp # bps) =
     (case be_cron_parse env (bpCronConfig bp) of
        Some e \<Rightarrow> fail (newSingleCrdbError Default (Some e) ''created cron job failed'' None)
      | None \<Rightarrow> bind_svc (\<lambda>w. (Ok (), w\<lparr>w_cron := w_cron w @ [bp]\<rparr>)) (\<lambda>_. add_jobs env bps))"

definition schedule_query :: BlueprintQuery where
  "schedule_query = \<lparr>bqPagination = \<lparr>Page = 0, PageSize = 0\<rparr>, bqEnable = Some True, bqIsManual = Some False, bqLabel = []\<rparr>"

definition ReloadBlueprints :: "bp_env \<Rightarrow> unit svc" where
  "ReloadBlueprints env =
     bind_svc (GetDbBlueprints schedule_query) (\<lambda>(bps, _).
     bind_svc (\<lambda>w. (Ok (), w\<lparr>w_cron := [], w_cron_on := False\<rparr>)) (\<lambda>_.
     bind_svc (add_jobs env bps) (\<lambda>_ w.
     (Ok (), if bps \<noteq> [] then w\<lparr>w_cron_on := True\<rparr> else w))))"

definition CreateBlueprint :: "bp_env \<Rightarrow> blueprint \<Rightarrow> blueprint svc" where
  "CreateBlueprint env bp0 =
     bind_svc (validateBlueprintAndMakePlan env bp0) (\<lambda>bp1.
     bind_svc (SaveDbBlueprint bp1) (\<lambda>bp.
     bind_svc (wrap_err Internal ''error reloading blueprints'' (ReloadBlueprints env)) (\<lambda>_. ret bp)))"

definition saveBlueprint :: "bp_env \<Rightarrow> blueprint \<Rightarrow> blueprint svc" where
  "saveBlueprint env bp0 =
     bind_svc (attempt (validateBlueprintAndMakePlan env bp0)) (\<lambda>r. case r of
       Inl e \<Rightarrow> fail (the (WrapRaw BadInput (Some e)))
     | Inr bp1 \<Rightarrow>
         bind_svc (SaveDbBlueprint bp1) (\<lambda>bp.
         bind_svc (wrap_err Internal ''error reloading blueprints'' (ReloadBlueprints env)) (\<lambda>_. ret bp)))"

definition PatchBlueprint :: "bp_env \<Rightarrow> id64 \<Rightarrow> (blueprint \<Rightarrow> goerr + blueprint) \<Rightarrow> blueprint svc" where
  "PatchBlueprint env i body =
     bind_svc (GetBlueprint i) (\<lambda>bp.
     bind_svc (from_sum (body bp)) (\<lambda>bp1.
     if bpMode bp \<noteq> bpMode bp1 then fail (New Default ''mode is not updatable'')
     else saveBlueprint env bp1))"

section \<open>Running a blueprint\<close>

definition createPipelineByBlueprint :: "bp_env \<Rightarrow> blueprint \<Rightarrow> pipeline svc" where
  "createPipelineByBlueprint env bp =
     bind_svc (if bpMode bp = ''NORMAL'' then MakePlanForBlueprint (be_hub env) bp
               else wrap_err Default ''unmarshal plan fail'' (from_sum (json_decode (bpPlan bp)))) (\<lambda>plan.
     CreatePipeline \<lparr>npName = bpName bp, npPlan = plan, npLabels = bpLabels bp, npSkipOnFail = bpSkipOnFail bp,
       npBlueprintId = bpID bp\<rparr>)"

definition TriggerBlueprint :: "bp_env \<Rightarrow> id64 \<Rightarrow> pipeline svc" where
  "TriggerBlueprint env i = bind_svc (GetBlueprint i) (createPipelineByBlueprint env)"

text \<open>A tick of a scheduled job runs the blueprint as it was loaded.\<close>

definition BlueprintJob_Run :: "bp_env \<Rightarrow> blueprint \<Rightarrow> unit svc" where
  "BlueprintJob_Run env bp = bind_svc (attempt (createPipelineByBlueprint env bp)) (\<lambda>_. ret ())"

end
