(* ===== verification/BlueprintFacts.thy ===== *)
theory BlueprintFacts
  imports BlueprintService
begin

text \<open>
  What the blueprint and project services promise: patching and renaming projects, what a failed
  creation leaves behind, one blueprint for each project, and which blueprints are scheduled.
\<close>

section \<open>Calls when nothing fails\<close>

lemma load_blueprint_no_faults [store_simps]:
  "w_faults w = [] \<Longrightarrow> load_blueprint P a b w =
     (case filter P (w_blueprints w) of
        [] \<Rightarrow> (Err (newSingleCrdbError NotFound (Some (dal_error ErrRecordNotFound)) a None), w)
      | bp # _ \<Rightarrow> (Ok (bp\<lparr>bpLabels := map snd (filter (\<lambda>(i, _). i = bpID bp) (w_bp_labels w))\<rparr>), w))"
  by (simp add: load_blueprint_def bind_svc_def attempt_def store_simps fillBlueprintDetail_def wrap_err_def split: list.splits)

lemma not_found_wrapped [simp]:
  "IsErrorNotFound (newSingleCrdbError t (Some e) m d) = IsErrorNotFound e"
  by (simp add: IsErrorNotFound_def newSingleCrdbError_def Let_def)

lemma GetBlueprintByProjectName_no_faults [store_simps]:
  "w_faults w = [] \<Longrightarrow> name \<noteq> [] \<Longrightarrow> GetBlueprintByProjectName name w =
     (Ok (case filter (\<lambda>b. bpProjectName b = name) (w_blueprints w) of [] \<Rightarrow> None
        | bp # _ \<Rightarrow> Some (bp\<lparr>bpLabels := map snd (filter (\<lambda>(i, _). i = bpID bp) (w_bp_labels w))\<rparr>)), w)"
  by (simp add: GetBlueprintByProjectName_def GetDbBlueprintByProjectName_def bind_svc_def attempt_def store_simps
      split: list.splits)

lemma makeProjectOutput_no_faults [store_simps]:
  "w_faults w = [] \<Longrightarrow> name \<noteq> [] \<Longrightarrow> \<exists>out. makeProjectOutput name desc w = (Ok out, w)"
  by (simp add: makeProjectOutput_def bind_svc_def wrap_err_def store_simps)

lemma each_db_do_no_faults [store_simps]:
  "w_faults w = [] \<Longrightarrow> (\<And>x v. w_faults v = [] \<Longrightarrow> w_faults (f x v) = []) \<Longrightarrow>
     each (\<lambda>x. db_do (f x)) xs w = (Ok (), fold f xs w)"
  by (induction xs arbitrary: w) (simp_all add: bind_svc_def store_simps)

section \<open>Patching a project\<close>

lemma refresh_no_faults [store_simps]:
  "w_faults w = [] \<Longrightarrow> refreshProjectMetrics name ms w = (Ok (), w\<lparr>w_metrics := filter (\<lambda>m. msProject m \<noteq> name) (w_metrics w) @
      map (\<lambda>m. \<lparr>msProject = name, msPlugin = pmPlugin m, msOption = pmOption m, msEnable = pmEnable m\<rparr>) ms\<rparr>)"
proof -
  let ?f = "\<lambda>m (w :: world). w\<lparr>w_metrics := w_metrics w @ [\<lparr>msProject = name, msPlugin = pmPlugin m, msOption = pmOption m, msEnable = pmEnable m\<rparr>]\<rparr>"
  have "fold ?f ms v = v\<lparr>w_metrics := w_metrics v @
      map (\<lambda>m. \<lparr>msProject = name, msPlugin = pmPlugin m, msOption = pmOption m, msEnable = pmEnable m\<rparr>) ms\<rparr>" for v :: world
    by (induction ms arbitrary: v) simp_all
  then show "w_faults w = [] \<Longrightarrow> ?thesis"
    by (simp add: refreshProjectMetrics_def bind_svc_def store_simps)
qed

text \<open>The transaction of \<open>PatchProject\<close> when no call fails.\<close>

lemma transaction_no_faults [store_simps]:
  "body w = (Ok (), w1) \<Longrightarrow> w_faults w1 = [] \<Longrightarrow> transaction restore body w = (Ok (), w1)"
  by (simp add: transaction_def bind_svc_def wrap_err_def store_simps)

definition patched :: "string \<Rightarrow> ApiInputProject \<Rightarrow> world \<Rightarrow> world" where
  "patched name inp w =
     (let new = piName inp;
          w1 = (if name \<noteq> new then w\<lparr>w_metrics := update_where (\<lambda>m. msProject m = name) (\<lambda>m. m\<lparr>msProject := new\<rparr>) (w_metrics w),
                  w_pr_metrics := rename_key name new (w_pr_metrics w), w_issue_metrics := rename_key name new (w_issue_metrics w),
                  w_mappings := rename_key name new (w_mappings w),
                  w_blueprints := update_where (\<lambda>b. bpProjectName b = name) (\<lambda>b. b\<lparr>bpProjectName := new\<rparr>) (w_blueprints w),
                  w_projects := (if new \<in> prName ` set (w_projects w) then w_projects w
                    else update_where (\<lambda>p. prName p = name) (\<lambda>p. p\<lparr>prName := new\<rparr>) (w_projects w))\<rparr> else w);
          w2 = w1\<lparr>w_blueprints := update_where (\<lambda>b. bpProjectName b = name) (\<lambda>b. b\<lparr>bpEnable := piEnable inp\<rparr>) (w_blueprints w1)\<rparr>;
          w3 = (case piMetrics inp of None \<Rightarrow> w2 | Some ms \<Rightarrow> w2\<lparr>w_metrics := filter (\<lambda>m. msProject m \<noteq> new) (w_metrics w2) @
                  map (\<lambda>m. \<lparr>msProject = new, msPlugin = pmPlugin m, msOption = pmOption m, msEnable = pmEnable m\<rparr>) ms\<rparr>)
      in save_project \<lparr>prName = new, prDescription = piDescription inp\<rparr> w3)"

lemma patched_parts [simp]:
  "w_faults (patched name inp w) = w_faults w"
  "w_bp_labels (patched name inp w) = w_bp_labels w"
  by (simp_all add: patched_def Let_def save_project_def split: option.splits)

lemma PatchProject_no_faults:
  assumes nf: "w_faults w = []" and ex: "name \<in> prName ` set (w_projects w)" and ne: "name \<noteq> []"
  shows "\<exists>out. PatchProject name (Inr inp) w =
    (Ok out, patched name (if piName inp = [] then inp\<lparr>piName := name\<rparr> else inp) w)"
proof -
  define new where "new = (if piName inp = [] then inp\<lparr>piName := name\<rparr> else inp)"
  have first: "\<exists>p. db_first (\<lambda>w. filter (\<lambda>p. prName p = name) (w_projects w)) w = (Ok p, w)"
    using nf ex by (cases "filter (\<lambda>p. prName p = name) (w_projects w)")
      (auto simp: store_simps filter_empty_conv)
  then obtain p where p: "db_first (\<lambda>w. filter (\<lambda>p. prName p = name) (w_projects w)) w = (Ok p, w)" by blast
  have body: "patch_project name new w = (Ok (), patched name new w)"
    unfolding patch_project_def
    using nf by (subst bind_Ok [where m = "db_first (\<lambda>w. filter (\<lambda>p. prName p = name) (w_projects w))" and x = p and w' = w, OF p];
        cases "piMetrics new"; cases "name = piName new"; cases "piName new \<in> prName ` set (w_projects w)")
      (simp_all add: bind_svc_def rename_project_def attempt_def store_simps db_no_faults patched_def Let_def)
  have "piName new \<noteq> []" using ne by (simp add: new_def)
  with nf makeProjectOutput_no_faults [of "patched name new w" "piName new" "piDescription new"] obtain out where
    out: "makeProjectOutput (piName new) (piDescription new) (patched name new w) = (Ok out, patched name new w)" by auto
  have "transaction (\<lambda>w0 w. w0\<lparr>w_faults := w_faults w\<rparr>) (patch_project name new) w = (Ok (), patched name new w)"
    using nf body by (intro transaction_no_faults) simp_all
  with out have "PatchProject name (Inr inp) w = (Ok out, patched name new w)"
    by (simp only: PatchProject_def sum.case Let_def new_def [symmetric] bind_svc_def prod.case result.case)
  then show ?thesis unfolding new_def by blast
qed

text \<open>Patching a project without the member \<open>enable\<close> disables its blueprint: the missing value is
  written to the column, and the blueprints of the project are no longer among those the scheduler loads.\<close>

theorem PatchProject_disables_blueprint:
  assumes "w_faults w = []" and "name \<in> prName ` set (w_projects w)" and "name \<noteq> []"
    and "piName inp = [] \<or> piName inp = name" and "piEnable inp = None"
  shows "\<exists>out w'. PatchProject name (Inr inp) w = (Ok out, w') \<and>
    map bpID (w_blueprints w') = map bpID (w_blueprints w) \<and>
    (\<forall>b \<in> set (w_blueprints w'). bpProjectName b = name \<longrightarrow> bpEnable b = None \<and> b \<notin> set (blueprint_rows schedule_query w'))"
proof -
  define n where "n = (if piName inp = [] then inp\<lparr>piName := name\<rparr> else inp)"
  have new: "piName n = name" "piEnable n = None" using assms(4,5) by (auto simp: n_def)
  have bps: "w_blueprints (patched name n w) =
      update_where (\<lambda>b. bpProjectName b = name) (\<lambda>b. b\<lparr>bpEnable := None\<rparr>) (w_blueprints w)"
    using new by (simp add: patched_def Let_def save_project_def split: option.splits)
  have none: "bpEnable b = None" if "b \<in> set (w_blueprints (patched name n w))" "bpProjectName b = name" for b
  proof -
    have "bpProjectName b = name \<longrightarrow> bpEnable b = None"
      using that(1) unfolding bps by (rule update_where_all) simp_all
    then show ?thesis using that(2) by simp
  qed
  have "b \<notin> set (blueprint_rows schedule_query (patched name n w))"
    if "b \<in> set (w_blueprints (patched name n w))" "bpProjectName b = name" for b
    using none [OF that] by (simp add: blueprint_rows_def schedule_query_def)
  moreover have "map bpID (w_blueprints (patched name n w)) = map bpID (w_blueprints w)"
    unfolding bps by (rule map_update_where) simp
  ultimately show ?thesis
    using PatchProject_no_faults [OF assms(1-3), of inp] none unfolding n_def [symmetric] by blast
qed

definition bp_example :: "id64 \<Rightarrow> string \<Rightarrow> blueprint" where
  "bp_example i project = \<lparr>bpID = i, bpName = ''bp'', bpProjectName = project, bpMode = ''NORMAL'', bpPlan = JsonNil,
     bpEnable = Some True, bpCronConfig = ''0 0 * * 1'', bpIsManual = False, bpSkipOnFail = False, bpLabels = [],
     bpSettings = JsonNil\<rparr>"

definition project_world :: world where
  "project_world = world0\<lparr>w_projects := [\<lparr>prName = ''shop'', prDescription = []\<rparr>],
     w_blueprints := [bp_example 1 ''shop''], w_mappings := [(''shop'', ''repos/1'')]\<rparr>"

theorem PatchProject_disables_blueprint_witness:
  "\<exists>out w'. PatchProject ''shop'' (Inr \<lparr>piName = [], piDescription = ''the shop'', piEnable = None, piMetrics = None\<rparr>) project_world = (Ok out, w') \<and>
     map bpEnable (w_blueprints w') = [None]"
proof -
  let ?inp = "\<lparr>piName = [], piDescription = ''the shop'', piEnable = None, piMetrics = None\<rparr> :: ApiInputProject"
  have "w_faults project_world = []" "''shop'' \<in> prName ` set (w_projects project_world)" "''shop'' \<noteq> []"
    "piName ?inp = [] \<or> piName ?inp = ''shop''" "piEnable ?inp = None"
    by (simp_all add: project_world_def world0_def)
  from PatchProject_disables_blueprint [OF this] obtain out w' where
    run: "PatchProject ''shop'' (Inr ?inp) project_world = (Ok out, w')"
    and ids: "map bpID (w_blueprints w') = [1]"
    and dis: "\<forall>b \<in> set (w_blueprints w'). bpProjectName b = ''shop'' \<longrightarrow> bpEnable b = None"
    by (auto simp: project_world_def bp_example_def)
  have "w_blueprints w' = update_where (\<lambda>b. bpProjectName b = ''shop'') (\<lambda>b. b\<lparr>bpEnable := None\<rparr>) (w_blueprints project_world)"
    using PatchProject_no_faults [of project_world "''shop''" ?inp] run
    by (auto simp: patched_def Let_def save_project_def project_world_def world0_def)
  with run show ?thesis by (auto simp: project_world_def bp_example_def)
qed

text \<open>Renaming a project to a name that is free, when no call fails, moves everything that refers to it to the new name: no metric,
  pull request metric, issue metric, mapping, blueprint or project keeps the old name; but the member \<open>enable\<close> of
  the request is lost, since the blueprints are then looked up by the old name.\<close>

theorem PatchProject_renames:
  assumes "w_faults w = []" and "name \<in> prName ` set (w_projects w)" and "name \<noteq> []"
    and "piName inp \<noteq> []" and "piName inp \<noteq> name" and "piName inp \<notin> prName ` set (w_projects w)"
  shows "\<exists>out w'. PatchProject name (Inr inp) w = (Ok out, w') \<and>
    name \<notin> prName ` set (w_projects w') \<and> piName inp \<in> prName ` set (w_projects w') \<and>
    name \<notin> msProject ` set (w_metrics w') \<and> name \<notin> fst ` set (w_pr_metrics w') \<and>
    name \<notin> fst ` set (w_issue_metrics w') \<and> name \<notin> fst ` set (w_mappings w') \<and>
    name \<notin> bpProjectName ` set (w_blueprints w') \<and>
    map (\<lambda>b. (bpID b, bpEnable b)) (w_blueprints w') = map (\<lambda>b. (bpID b, bpEnable b)) (w_blueprints w)"
proof -
  have new: "(if piName inp = [] then inp\<lparr>piName := name\<rparr> else inp) = inp" using assms(4) by simp
  let ?w = "patched name inp w"
  have gone: "update_where (\<lambda>b. bpProjectName b = name) f (update_where (\<lambda>b. bpProjectName b = name)
      (\<lambda>b. b\<lparr>bpProjectName := piName inp\<rparr>) bs) = update_where (\<lambda>b. bpProjectName b = name) (\<lambda>b. b\<lparr>bpProjectName := piName inp\<rparr>) bs" for f and bs :: "blueprint list"
    using update_where_gone [of bpProjectName "\<lambda>b. b\<lparr>bpProjectName := piName inp\<rparr>" name bs] assms(5)
    by (intro update_where_none) force
  have bps: "w_blueprints ?w = update_where (\<lambda>b. bpProjectName b = name) (\<lambda>b. b\<lparr>bpProjectName := piName inp\<rparr>) (w_blueprints w)"
    using assms(5) gone by (simp add: patched_def Let_def save_project_def split: option.splits)
  have "name \<notin> bpProjectName ` set (w_blueprints ?w)"
    unfolding bps by (rule update_where_gone) (use assms(5) in simp)
  moreover have "map (\<lambda>b. (bpID b, bpEnable b)) (w_blueprints ?w) = map (\<lambda>b. (bpID b, bpEnable b)) (w_blueprints w)"
    unfolding bps by (rule map_update_where) simp
  moreover have "name \<notin> fst ` set (rename_key name (piName inp) rows)" for rows
    using assms(5) by (auto simp: rename_key_def split: if_splits)
  moreover have "name \<notin> msProject ` set (w_metrics ?w)"
  proof -
    let ?ms = "update_where (\<lambda>m. msProject m = name) (\<lambda>m. m\<lparr>msProject := piName inp\<rparr>) (w_metrics w)"
    have "name \<notin> msProject ` set ?ms" by (rule update_where_gone) (use assms(5) in simp)
    then show ?thesis
      using assms(5) by (auto simp: patched_def Let_def save_project_def split: option.splits)
  qed
  moreover have "name \<notin> prName ` set (w_projects ?w) \<and> piName inp \<in> prName ` set (w_projects ?w)"
  proof -
    let ?ps = "update_where (\<lambda>p. prName p = name) (\<lambda>p. p\<lparr>prName := piName inp\<rparr>) (w_projects w)"
    have ps: "w_projects ?w = w_projects (save_project \<lparr>prName = piName inp, prDescription = piDescription inp\<rparr> (w\<lparr>w_projects := ?ps\<rparr>))"
      using assms(5,6) by (simp add: patched_def Let_def save_project_def split: option.splits)
    have old: "name \<notin> prName ` set ?ps" by (rule update_where_gone) (use assms(5) in simp)
    obtain p where "p \<in> set (w_projects w)" "prName p = name" using assms(2) by blast
    then have "p\<lparr>prName := piName inp\<rparr> \<in> set ?ps" by (auto simp: update_where_def)
    then have ex: "piName inp \<in> prName ` set ?ps" by (rule rev_image_eqI) simp
    have "map prName (update_where (\<lambda>r. prName r = piName inp) (\<lambda>_. \<lparr>prName = piName inp, prDescription = piDescription inp\<rparr>) ?ps) =
        map prName ?ps"
      by (auto simp: update_where_def)
    from arg_cong [OF this, of set] old ex show ?thesis
      unfolding ps by (simp add: save_project_def)
  qed
  moreover have "w_pr_metrics ?w = rename_key name (piName inp) (w_pr_metrics w)"
    "w_issue_metrics ?w = rename_key name (piName inp) (w_issue_metrics w)"
    "w_mappings ?w = rename_key name (piName inp) (w_mappings w)"
    using assms(5) by (simp_all add: patched_def Let_def save_project_def split: option.splits)
  moreover obtain out where "PatchProject name (Inr inp) w = (Ok out, ?w)"
    using PatchProject_no_faults [OF assms(1-3), of inp] unfolding new by blast
  ultimately show ?thesis by (intro exI [of _ out] exI [of _ ?w]) simp
qed

theorem PatchProject_renames_witness:
  "\<exists>out w'. PatchProject ''shop'' (Inr \<lparr>piName = ''store'', piDescription = [], piEnable = Some False, piMetrics = None\<rparr>) project_world = (Ok out, w') \<and>
     ''shop'' \<notin> fst ` set (w_mappings w') \<and> map bpEnable (w_blueprints w') = [Some True]"
proof -
  let ?inp = "\<lparr>piName = ''store'', piDescription = [], piEnable = Some False, piMetrics = None\<rparr> :: ApiInputProject"
  have "w_faults project_world = []" "''shop'' \<in> prName ` set (w_projects project_world)" "''shop'' \<noteq> []"
    "piName ?inp \<noteq> []" "piName ?inp \<noteq> ''shop''" "piName ?inp \<notin> prName ` set (w_projects project_world)"
    by (simp_all add: project_world_def world0_def)
  from PatchProject_renames [OF this] obtain out w' where
    "PatchProject ''shop'' (Inr ?inp) project_world = (Ok out, w')" "''shop'' \<notin> fst ` set (w_mappings w')"
    "map (\<lambda>b. (bpID b, bpEnable b)) (w_blueprints w') = map (\<lambda>b. (bpID b, bpEnable b)) (w_blueprints project_world)"
    by blast
  moreover have "map bpEnable (w_blueprints w') = map bpEnable (w_blueprints project_world)"
    using arg_cong [OF calculation(3), of "map snd"] by (simp add: comp_def)
  ultimately show ?thesis by (auto simp: project_world_def bp_example_def)
qed

text \<open>Renaming a project to the name of another one succeeds, when no call fails: the violated key of
  the projects is ignored, both projects stay, and the blueprints of both now belong to the other one, although each
  project can be used by one blueprint only.\<close>

theorem PatchProject_merges_blueprints:
  assumes "w_faults w = []" and "name \<in> prName ` set (w_projects w)" and "name \<noteq> []"
    and "piName inp \<noteq> []" and "piName inp \<noteq> name" and "piName inp \<in> prName ` set (w_projects w)"
    and "b1 \<in> set (w_blueprints w)" "bpProjectName b1 = name"
    and "b2 \<in> set (w_blueprints w)" "bpProjectName b2 = piName inp"
  shows "\<exists>out w'. PatchProject name (Inr inp) w = (Ok out, w') \<and>
    map prName (w_projects w') = map prName (w_projects w) \<and>
    {bpID b1, bpID b2} \<subseteq> bpID ` {b \<in> set (w_blueprints w'). bpProjectName b = piName inp}"
proof -
  have new: "(if piName inp = [] then inp\<lparr>piName := name\<rparr> else inp) = inp" using assms(4) by simp
  let ?w = "patched name inp w"
  let ?bs = "update_where (\<lambda>b. bpProjectName b = name) (\<lambda>b. b\<lparr>bpProjectName := piName inp\<rparr>) (w_blueprints w)"
  have gone: "update_where (\<lambda>b. bpProjectName b = name) f ?bs = ?bs" for f
    using update_where_gone [of bpProjectName "\<lambda>b. b\<lparr>bpProjectName := piName inp\<rparr>" name "w_blueprints w"] assms(5)
    by (intro update_where_none) force
  have bps: "w_blueprints ?w = ?bs"
    using assms(5) gone by (simp add: patched_def Let_def save_project_def split: option.splits)
  have "b1\<lparr>bpProjectName := piName inp\<rparr> \<in> set ?bs" "b2 \<in> set ?bs"
    using assms(5,7-10) by (auto simp: update_where_def)
  then have "{bpID b1, bpID b2} \<subseteq> bpID ` {b \<in> set (w_blueprints ?w). bpProjectName b = piName inp}"
    unfolding bps using assms(10) by (auto intro: rev_image_eqI)
  moreover have "map prName (w_projects ?w) = map prName (w_projects w)"
    using assms(5,6) by (auto simp: patched_def Let_def save_project_def update_where_def split: option.splits)
  moreover obtain out where "PatchProject name (Inr inp) w = (Ok out, ?w)"
    using PatchProject_no_faults [OF assms(1-3), of inp] unfolding new by blast
  ultimately show ?thesis by (intro exI [of _ out] exI [of _ ?w]) simp
qed

theorem PatchProject_merges_blueprints_witness:
  "\<exists>out w'. PatchProject ''shop'' (Inr \<lparr>piName = ''store'', piDescription = [], piEnable = None, piMetrics = None\<rparr>)
      (project_world\<lparr>w_projects := [\<lparr>prName = ''shop'', prDescription = []\<rparr>, \<lparr>prName = ''store'', prDescription = []\<rparr>],
        w_blueprints := [bp_example 1 ''shop'', bp_example 2 ''store'']\<rparr>) = (Ok out, w') \<and>
    {1, 2} \<subseteq> bpID ` {b \<in> set (w_blueprints w'). bpProjectName b = ''store''}"
proof -
  let ?w = "project_world\<lparr>w_projects := [\<lparr>prName = ''shop'', prDescription = []\<rparr>, \<lparr>prName = ''store'', prDescription = []\<rparr>],
        w_blueprints := [bp_example 1 ''shop'', bp_example 2 ''store'']\<rparr>"
  let ?inp = "\<lparr>piName = ''store'', piDescription = [], piEnable = None, piMetrics = None\<rparr> :: ApiInputProject"
  have "w_faults ?w = []" "''shop'' \<in> prName ` set (w_projects ?w)" "''shop'' \<noteq> []" "piName ?inp \<noteq> []"
    "piName ?inp \<noteq> ''shop''" "piName ?inp \<in> prName ` set (w_projects ?w)"
    "bp_example 1 ''shop'' \<in> set (w_blueprints ?w)" "bpProjectName (bp_example 1 ''shop'') = ''shop''"
    "bp_example 2 ''store'' \<in> set (w_blueprints ?w)" "bpProjectName (bp_example 2 ''store'') = piName ?inp"
    by (simp_all add: project_world_def world0_def bp_example_def)
  from PatchProject_merges_blueprints [OF this] show ?thesis by (auto simp: bp_example_def)
qed

section \<open>A project whose creation fails\<close>

text \<open>\<open>CreateProject\<close> is not atomic: when the project is inserted and the next statement, deleting its old
  metrics, fails, the error is returned and the metrics are as before, but the new project stays in the table, so that
  repeating the request is refused because the name exists.\<close>

theorem CreateProject_not_atomic:
  assumes "be_verify env inp = None" and "piName inp \<notin> prName ` set (w_projects w)"
    and "piMetrics inp = Some ms" and "w_faults w = [None, Some s]"
  shows "\<exists>w'. CreateProject env inp w = (Err (dal_error s), w') \<and>
    w_projects w' = w_projects w @ [\<lparr>prName = piName inp, prDescription = piDescription inp\<rparr>] \<and>
    w_metrics w' = w_metrics w \<and>
    fst (CreateProject env inp w') = Err (New BadInput (''A project with name ['' @ piName inp @ ''] already exists''))"
proof -
  let ?w1 = "w\<lparr>w_faults := [], w_projects := w_projects w @ [\<lparr>prName = piName inp, prDescription = piDescription inp\<rparr>]\<rparr>"
  have "CreateProject env inp w = (Err (dal_error s), ?w1)"
    using assms by (simp add: CreateProject_def transaction_def bind_svc_def attempt_def insert_project_def
        refreshProjectMetrics_def db_do_def db_def)
  moreover have "IsDuplicationError (dal_error (''Duplicate entry '' @ piName inp))"
  proof -
    have "to_lower ''Duplicate'' = ''duplicate''" by code_simp
    from Contains_lower_prefix [OF this, of "'' entry '' @ piName inp"] show ?thesis
      by (simp add: IsDuplicationError_def dal_error_def newSingleCrdbError_def Let_def)
  qed
  then have "fst (CreateProject env inp ?w1) = Err (New BadInput (''A project with name ['' @ piName inp @ ''] already exists''))"
    using assms(1) by (simp add: CreateProject_def transaction_def bind_svc_def attempt_def insert_project_def db_def)
  ultimately show ?thesis by (intro exI [of _ ?w1]) simp
qed

definition bp_env_example :: bp_env where
  "bp_env_example = \<lparr>be_hub = Some [], be_validate = (\<lambda>_. None), be_verify = (\<lambda>_. None),
     be_cron_parse = (\<lambda>s. if s = [] then Some (External ''empty spec string'') else None)\<rparr>"

theorem CreateProject_not_atomic_witness:
  "\<exists>w'. CreateProject bp_env_example \<lparr>piName = ''shop'', piDescription = [], piEnable = None, piMetrics = Some []\<rparr>
      (world0\<lparr>w_faults := [None, Some ''connection lost'']\<rparr>) = (Err (dal_error ''connection lost''), w') \<and>
    length (w_projects w') = 1"
proof -
  let ?inp = "\<lparr>piName = ''shop'', piDescription = [], piEnable = None, piMetrics = Some []\<rparr> :: ApiInputProject"
  have "be_verify bp_env_example ?inp = None" "piName ?inp \<notin> prName ` set (w_projects (world0\<lparr>w_faults := [None, Some ''connection lost'']\<rparr>))"
    "piMetrics ?inp = Some []" "w_faults (world0\<lparr>w_faults := [None, Some ''connection lost'']\<rparr>) = [None, Some ''connection lost'']"
    by (simp_all add: bp_env_example_def world0_def)
  from CreateProject_not_atomic [OF this] show ?thesis by (auto simp: world0_def)
qed

section \<open>The schedule\<close>

lemma collect_fill_no_faults [store_simps]:
  "w_faults w = [] \<Longrightarrow> collect fillBlueprintDetail bps w =
     (Ok (map (\<lambda>b. b\<lparr>bpLabels := map snd (filter (\<lambda>(i, _). i = bpID b) (w_bp_labels w))\<rparr>) bps), w)"
  by (induction bps) (simp_all add: bind_svc_def fillBlueprintDetail_def wrap_err_def store_simps)

lemma GetDbBlueprints_no_faults [store_simps]:
  "w_faults w = [] \<Longrightarrow> GetDbBlueprints q w =
     (Ok (map (\<lambda>b. b\<lparr>bpLabels := map snd (filter (\<lambda>(i, _). i = bpID b) (w_bp_labels w))\<rparr>)
         (page_rows (GetSkip (bqPagination q)) (GetPageSize (bqPagination q)) (by_id_desc bpID (blueprint_rows q w))),
       length (blueprint_rows q w)), w)"
  by (simp add: GetDbBlueprints_def bind_svc_def wrap_err_def store_simps)

lemma add_jobs_all:
  "\<forall>b \<in> set bps. be_cron_parse env (bpCronConfig b) = None \<Longrightarrow> add_jobs env bps w = (Ok (), w\<lparr>w_cron := w_cron w @ bps\<rparr>)"
  by (induction bps arbitrary: w) (simp_all add: bind_svc_def)

lemma add_jobs_bad:
  "\<exists>b \<in> set bps. be_cron_parse env (bpCronConfig b) \<noteq> None \<Longrightarrow>
     \<exists>e bps'. add_jobs env bps w = (Err e, w\<lparr>w_cron := w_cron w @ bps'\<rparr>)"
proof (induction bps arbitrary: w)
  case (Cons b bps)
  show ?case
  proof (cases "be_cron_parse env (bpCronConfig b)")
    case (Some e)
    then show ?thesis by (auto intro!: exI [of _ "[]"])
  next
    case None
    with Cons.prems have "\<exists>b \<in> set bps. be_cron_parse env (bpCronConfig b) \<noteq> None" by auto
    from Cons.IH [OF this, of "w\<lparr>w_cron := w_cron w @ [b]\<rparr>"] None show ?thesis
      by (auto simp: bind_svc_def)
  qed
qed simp

text \<open>What the scheduler runs after a reload, when no call fails: of the enabled blueprints that are not manual, the
  fifty with the greatest ids, one default page of the query, each with its labels. If the configuration of one of
  them does not parse the reload fails and the scheduler stays stopped, whatever it ran before.\<close>

theorem ReloadBlueprints_schedule:
  assumes "w_faults w = []"
  shows "let page = take 50 (by_id_desc bpID (filter (\<lambda>b. bpEnable b = Some True \<and> \<not> bpIsManual b) (w_blueprints w)));
      (r, w') = ReloadBlueprints env w
    in if \<forall>b \<in> set page. be_cron_parse env (bpCronConfig b) = None
       then r = Ok () \<and> w_cron_on w' = (page \<noteq> []) \<and>
         w_cron w' = map (\<lambda>b. b\<lparr>bpLabels := map snd (filter (\<lambda>(i, _). i = bpID b) (w_bp_labels w))\<rparr>) page
       else r \<noteq> Ok () \<and> \<not> w_cron_on w'"
proof -
  let ?page = "take 50 (by_id_desc bpID (filter (\<lambda>b. bpEnable b = Some True \<and> \<not> bpIsManual b) (w_blueprints w)))"
  let ?full = "map (\<lambda>b. b\<lparr>bpLabels := map snd (filter (\<lambda>(i, _). i = bpID b) (w_bp_labels w))\<rparr>) ?page"
  let ?w1 = "w\<lparr>w_cron := [], w_cron_on := False\<rparr>"
  have rows: "GetDbBlueprints schedule_query w = (Ok (?full, length (blueprint_rows schedule_query w)), w)"
    using assms by (simp add: store_simps schedule_query_def page_rows_def GetSkip_def GetPage_def GetPageSize_def
        GetPageSizeOr_def blueprint_rows_def)
  have run: "ReloadBlueprints env w = bind_svc (add_jobs env ?full) (\<lambda>_ w. (Ok (), if ?full \<noteq> [] then w\<lparr>w_cron_on := True\<rparr> else w)) ?w1"
    by (simp add: ReloadBlueprints_def bind_svc_def [of "GetDbBlueprints q" for q] rows)
      (simp add: bind_svc_def)
  show ?thesis
  proof (cases "\<forall>b \<in> set ?page. be_cron_parse env (bpCronConfig b) = None")
    case True
    then have "\<forall>b \<in> set ?full. be_cron_parse env (bpCronConfig b) = None" by auto
    from add_jobs_all [OF this, of ?w1] True run show ?thesis by (simp add: bind_svc_def Let_def)
  next
    case False
    then have "\<exists>b \<in> set ?full. be_cron_parse env (bpCronConfig b) \<noteq> None" by auto
    from add_jobs_bad [OF this, of ?w1] False run show ?thesis by (auto simp: bind_svc_def Let_def)
  qed
qed

theorem ReloadBlueprints_schedule_witness:
  "\<not> w_cron_on (snd (ReloadBlueprints bp_env_example (project_world\<lparr>w_cron_on := True,
      w_blueprints := [(bp_example 1 ''shop'')\<lparr>bpCronConfig := []\<rparr>]\<rparr>)))"
proof -
  let ?w = "project_world\<lparr>w_cron_on := True, w_blueprints := [(bp_example 1 ''shop'')\<lparr>bpCronConfig := []\<rparr>]\<rparr>"
  have "w_faults ?w = []" by (simp add: project_world_def world0_def)
  from ReloadBlueprints_schedule [OF this, of bp_env_example] show ?thesis
    by (simp add: Let_def case_prod_unfold by_id_desc_def bp_example_def bp_env_example_def)
qed

section \<open>One blueprint for each project\<close>

definition one_blueprint :: "world \<Rightarrow> bool" where
  "one_blueprint w \<longleftrightarrow> (\<forall>b \<in> set (w_blueprints w). bpID b \<noteq> 0) \<and> distinct (map bpID (w_blueprints w)) \<and>
     (\<forall>b \<in> set (w_blueprints w). \<forall>b' \<in> set (w_blueprints w). bpProjectName b = bpProjectName b' \<longrightarrow>
        bpProjectName b \<noteq> [] \<longrightarrow> bpID b = bpID b')"

lemma one_blueprintD:
  "one_blueprint w \<Longrightarrow> b \<in> set (w_blueprints w) \<Longrightarrow> b' \<in> set (w_blueprints w) \<Longrightarrow>
    bpProjectName b = bpProjectName b' \<Longrightarrow> bpProjectName b \<noteq> [] \<Longrightarrow> bpID b = bpID b'"
  unfolding one_blueprint_def by blast

lemma one_blueprintD':
  "one_blueprint w \<Longrightarrow> b \<in> set (w_blueprints w) \<Longrightarrow> bpID b \<noteq> 0"
  "one_blueprint w \<Longrightarrow> distinct (map bpID (w_blueprints w))"
  unfolding one_blueprint_def by blast+

lemma one_blueprintI:
  "(\<And>b. b \<in> set (w_blueprints w) \<Longrightarrow> bpID b \<noteq> 0) \<Longrightarrow> distinct (map bpID (w_blueprints w)) \<Longrightarrow>
    (\<And>b b'. b \<in> set (w_blueprints w) \<Longrightarrow> b' \<in> set (w_blueprints w) \<Longrightarrow> bpProjectName b = bpProjectName b' \<Longrightarrow>
      bpProjectName b \<noteq> [] \<Longrightarrow> bpID b = bpID b') \<Longrightarrow> one_blueprint w"
  unfolding one_blueprint_def by blast

lemma save_scopes_no_faults:
  "w_faults w = [] \<Longrightarrow> \<exists>S. each save_scope ss w = (Ok (), w\<lparr>w_scopes := S\<rparr>)"
proof (induction ss arbitrary: w)
  case Nil
  show ?case by (intro exI [of _ "w_scopes w"]) simp
next
  case (Cons s ss)
  let ?w1 = "w\<lparr>w_scopes := filter (\<lambda>r. (scTable r, scId r) \<noteq> (scTable s, scId s)) (w_scopes w) @ [s]\<rparr>"
  have "save_scope s w = (Ok (), ?w1)" using Cons.prems by (simp add: save_scope_def wrap_err_def store_simps)
  moreover have "w_faults ?w1 = []" using Cons.prems by simp
  with Cons.IH obtain S where "each save_scope ss ?w1 = (Ok (), ?w1\<lparr>w_scopes := S\<rparr>)" by blast
  ultimately show ?case by (auto simp: bind_svc_def)
qed

lemma MakePlan_no_faults:
  assumes "w_faults w = []"
  shows "\<exists>r S. MakePlanForBlueprint hub bp w = (r, w\<lparr>w_scopes := S\<rparr>)"
proof -
  have fs: "from_sum r v = (case r of Inl e \<Rightarrow> (Err e, v) | Inr x \<Rightarrow> (Ok x, v))" for r :: "goerr + 'x" and v
    by (simp add: from_sum_def split: sum.split)
  have v200: "\<exists>r S. GeneratePlanJsonV200 hub n p s ms w = (r, w\<lparr>w_scopes := S\<rparr>)" for n p s ms
  proof (cases "genPlanJsonV200 hub n p s ms")
    case (Inl e)
    then show ?thesis by (auto simp: GeneratePlanJsonV200_def intro!: exI [of _ "w_scopes w"])
  next
    case (Inr r)
    obtain plan scopes where r: "r = (plan, scopes)" by (cases r)
    from save_scopes_no_faults [OF assms, of scopes] Inr r show ?thesis
      by (auto simp: GeneratePlanJsonV200_def bind_svc_def)
  qed
  have wrap: "\<exists>r S. bind_svc m f w = (r, w\<lparr>w_scopes := S\<rparr>)"
    if "\<exists>r S. m w = (r, w\<lparr>w_scopes := S\<rparr>)" "\<And>x S. \<exists>r. f x (w\<lparr>w_scopes := S\<rparr>) = (r, w\<lparr>w_scopes := S\<rparr>)"
    for m :: "'x svc" and f :: "'x \<Rightarrow> 'y svc"
  proof -
    from that(1) obtain r S where m: "m w = (r, w\<lparr>w_scopes := S\<rparr>)" by blast
    show ?thesis
    proof (cases r)
      case (Ok x)
      from that(2) obtain r' where "f x (w\<lparr>w_scopes := S\<rparr>) = (r', w\<lparr>w_scopes := S\<rparr>)" by blast
      with m Ok show ?thesis by (auto simp: bind_svc_def)
    qed (use m in \<open>auto simp: bind_svc_def\<close>)
  qed
  show ?thesis
  proof (cases "json_decode (bpSettings bp)")
    case (Inl e)
    then show ?thesis by (auto simp: MakePlanForBlueprint_def bind_svc_def wrap_err_def fs intro!: exI [of _ "w_scopes w"])
  next
    case (Inr settings)
    let ?metrics = "if bpProjectName bp \<noteq> [] then project_metrics (bpProjectName bp) w else []"
    define pl where "pl = (if sVersion settings = ''1.0.0'' then from_sum (GeneratePlanJsonV100 hub settings)
        else if sVersion settings = ''2.0.0'' then
          GeneratePlanJsonV200 hub (bpProjectName bp) \<lparr>spTimeAfter = sTimeAfter settings\<rparr> settings ?metrics
        else fail (New Default (''unknown version of blueprint settings: '' @ sVersion settings)))"
    define g where "g = (\<lambda>plan. from_sum (WrapPipelinePlans (sBeforePlan settings) plan (sAfterPlan settings)) :: PipelinePlan svc)"
    have run: "MakePlanForBlueprint hub bp w = bind_svc pl g w"
      using assms Inr by (simp add: MakePlanForBlueprint_def bind_svc_def wrap_err_def fs store_simps pl_def g_def)
    have b: "\<exists>r S. pl w = (r, w\<lparr>w_scopes := S\<rparr>)"
      using v200 by (auto simp: pl_def fs intro!: exI [of _ "w_scopes w"] split: sum.split)
    have c: "\<exists>r. g plan v = (r, v)" for plan v
      by (simp add: g_def fs split: sum.split)
    from wrap [of pl g, OF b c] run show ?thesis by simp
  qed
qed

text \<open>The project of a blueprint has no blueprint, or the first one found is the blueprint itself.\<close>

definition project_free :: "world \<Rightarrow> blueprint \<Rightarrow> bool" where
  "project_free w bp \<longleftrightarrow> (bpProjectName bp \<noteq> [] \<longrightarrow>
     (case filter (\<lambda>b. bpProjectName b = bpProjectName bp) (w_blueprints w) of [] \<Rightarrow> True | b # _ \<Rightarrow> bpID b = bpID bp))"

lemma check_project_no_faults:
  assumes "w_faults w = []"
  shows "snd (check_project bp w) = w \<and> (fst (check_project bp w) = Ok () \<longrightarrow> project_free w bp)"
proof (cases "bpProjectName bp = []")
  case False
  have get: "\<exists>r. GetProject (bpProjectName bp) w = (r, w)"
  proof -
    have out: "\<exists>r. makeProjectOutput n d w = (r, w)" for n d
    proof (cases "n = []")
      case True
      with assms show ?thesis
        by (simp add: makeProjectOutput_def bind_svc_def wrap_err_def store_simps GetBlueprintByProjectName_def)
    next
      case False
      with makeProjectOutput_no_faults [OF assms] show ?thesis by blast
    qed
    show ?thesis
      using assms False out
      by (cases "filter (\<lambda>p. prName p = bpProjectName bp) (w_projects w)")
        (auto simp: GetProject_def bind_svc_def attempt_def store_simps)
  qed
  then obtain r where r: "GetProject (bpProjectName bp) w = (r, w)" by blast
  show ?thesis
    using assms False r
    by (cases r; cases "filter (\<lambda>b. bpProjectName b = bpProjectName bp) (w_blueprints w)")
      (auto simp: check_project_def bind_svc_def wrap_err_def store_simps project_free_def)
qed (simp add: check_project_def project_free_def)

lemma validate_no_faults:
  assumes "w_faults w = []"
  shows "\<exists>r S. validateBlueprintAndMakePlan env bp w = (r, w\<lparr>w_scopes := S\<rparr>) \<and>
    (\<forall>bp'. r = Ok bp' \<longrightarrow> bpID bp' = bpID bp \<and> bpProjectName bp' = bpProjectName bp \<and>
      project_free w bp)"
proof -
  obtain c where c: "check_project bp w = (c, w)"
    and cok: "c = Ok () \<longrightarrow> project_free w bp"
    using check_project_no_faults [OF assms, of bp] by (metis fst_conv prod.collapse snd_conv)
  have cron: "bpID b = bpID bp \<and> bpProjectName b = bpProjectName bp" if "check_cron env bp = Inr b" for b
    using that by (auto simp: check_cron_def Let_def split: if_splits option.splits)
  have plan: "\<exists>r S. check_plan env b w = (r, w\<lparr>w_scopes := S\<rparr>) \<and>
      (\<forall>b'. r = Ok b' \<longrightarrow> bpID b' = bpID b \<and> bpProjectName b' = bpProjectName b)" for b
  proof -
    obtain r S where m: "MakePlanForBlueprint (be_hub env) b w = (r, w\<lparr>w_scopes := S\<rparr>)"
      using MakePlan_no_faults [OF assms] by blast
    show ?thesis
    proof (cases "bpMode b = ''NORMAL''")
      case True
      then show ?thesis using m by (cases r) (auto simp: check_plan_def bind_svc_def wrap_err_def)
    next
      case False
      then show ?thesis
        by (cases "json_decode (bpPlan b)")
          (auto simp: check_plan_def bind_svc_def wrap_err_def from_sum_def intro!: exI [of _ "w_scopes w"])
    qed
  qed
  show ?thesis
  proof (cases "be_validate env bp")
    case (Some s)
    then show ?thesis by (auto simp: validateBlueprintAndMakePlan_def intro!: exI [of _ "w_scopes w"])
  next
    case None
    show ?thesis
    proof (cases "c = Ok ()")
      case False
      then obtain e where "validateBlueprintAndMakePlan env bp w = (Err e, w) \<or>
          validateBlueprintAndMakePlan env bp w = (Panic e, w)"
        using None c by (cases c) (auto simp: validateBlueprintAndMakePlan_def bind_svc_def)
      then show ?thesis
        by (elim disjE) (intro exI [of _ "Err e"] exI [of _ "w_scopes w"] conjI, simp_all,
          intro exI [of _ "Panic e"] exI [of _ "w_scopes w"] conjI, simp_all)
    next
      case True
      show ?thesis
      proof (cases "check_cron env bp")
        case (Inl e)
        then have "validateBlueprintAndMakePlan env bp w = (Err e, w)"
          using None c True by (simp add: validateBlueprintAndMakePlan_def bind_svc_def from_sum_def)
        then show ?thesis by (intro exI [of _ "Err e"] exI [of _ "w_scopes w"] conjI) simp_all
      next
        case (Inr b)
        from plan [of b] obtain r S where p: "check_plan env b w = (r, w\<lparr>w_scopes := S\<rparr>)"
          "\<forall>b'. r = Ok b' \<longrightarrow> bpID b' = bpID b \<and> bpProjectName b' = bpProjectName b" by blast
        have "validateBlueprintAndMakePlan env bp w = (r, w\<lparr>w_scopes := S\<rparr>)"
          using None c True Inr p(1) by (simp add: validateBlueprintAndMakePlan_def bind_svc_def from_sum_def)
        then show ?thesis using p(2) cron [OF Inr] cok True by (intro exI conjI) auto
      qed
    qed
  qed
qed

lemma one_blueprint_store:
  assumes inv: "one_blueprint w"
    and free: "project_free w bp"
    and nf: "w_faults w = []"
  shows "\<exists>bp' w1. store_blueprint bp w = (Ok bp', w1) \<and> w_faults w1 = [] \<and> one_blueprint w1"
proof -
  have same: "bpID b = bpID bp" if b: "b \<in> set (w_blueprints w)" "bpProjectName b = bpProjectName bp" "bpProjectName bp \<noteq> []" for b
  proof -
    obtain x xs where x: "filter (\<lambda>b. bpProjectName b = bpProjectName bp) (w_blueprints w) = x # xs"
      using b(1,2) by (cases "filter (\<lambda>b. bpProjectName b = bpProjectName bp) (w_blueprints w)") (auto simp: filter_empty_conv)
    then have "x \<in> set (filter (\<lambda>b. bpProjectName b = bpProjectName bp) (w_blueprints w))" by simp
    then have "x \<in> set (w_blueprints w)" "bpProjectName x = bpProjectName bp" by simp_all
    with one_blueprintD [OF inv b(1)] b(2,3) have "bpID b = bpID x" by simp
    with x free b(3) show ?thesis by (simp add: project_free_def)
  qed
  show ?thesis
  proof (cases "bpID bp = 0")
    case True
    let ?i = "next_id bpID (w_blueprints w)"
    let ?row = "bp\<lparr>bpID := ?i, bpLabels := []\<rparr>"
    have fresh: "bpID b < ?i" if "b \<in> set (w_blueprints w)" for b using that by (rule next_id_fresh)
    have other: "bpProjectName b \<noteq> bpProjectName bp" if "b \<in> set (w_blueprints w)" "bpProjectName bp \<noteq> []" for b
      using same [OF that(1) _ that(2)] one_blueprintD'(1) [OF inv that(1)] True by auto
    have "one_blueprint (w\<lparr>w_blueprints := w_blueprints w @ [?row]\<rparr>)"
    proof (rule one_blueprintI)
      fix b assume "b \<in> set (w_blueprints (w\<lparr>w_blueprints := w_blueprints w @ [?row]\<rparr>))"
      then consider "b \<in> set (w_blueprints w)" | "b = ?row" by auto
      then show "bpID b \<noteq> 0" using one_blueprintD'(1) [OF inv] by cases (simp_all add: next_id_def)
    next
      show "distinct (map bpID (w_blueprints (w\<lparr>w_blueprints := w_blueprints w @ [?row]\<rparr>)))"
        using one_blueprintD'(2) [OF inv] fresh by force
    next
      fix b b' assume mem: "b \<in> set (w_blueprints (w\<lparr>w_blueprints := w_blueprints w @ [?row]\<rparr>))"
          "b' \<in> set (w_blueprints (w\<lparr>w_blueprints := w_blueprints w @ [?row]\<rparr>))"
        and eq: "bpProjectName b = bpProjectName b'" "bpProjectName b \<noteq> []"
      from mem have c: "b \<in> set (w_blueprints w) \<or> b = ?row" "b' \<in> set (w_blueprints w) \<or> b' = ?row" by auto
      show "bpID b = bpID b'"
      proof (cases "b = ?row \<or> b' = ?row")
        case True
        with c eq other [of b] other [of b'] have "b = ?row \<and> b' = ?row" by (elim disjE) simp_all
        then show ?thesis by simp
      qed (use c eq one_blueprintD [OF inv] in blast)
    qed
    then show ?thesis
      using True nf by (simp add: store_blueprint_def wrap_err_def db_no_faults Let_def)
  next
    case False
    let ?row = "bp\<lparr>bpLabels := []\<rparr>"
    let ?bs = "if bpID bp \<in> bpID ` set (w_blueprints w)
      then update_where (\<lambda>r. bpID r = bpID bp) (\<lambda>r. ?row) (w_blueprints w) else w_blueprints w @ [?row]"
    have st: "store_blueprint bp w = (Ok bp, w\<lparr>w_blueprints := ?bs\<rparr>)"
      using False nf by (simp add: store_blueprint_def wrap_err_def bind_svc_def store_simps)
    have ids: "distinct (map bpID ?bs)"
    proof (cases "bpID bp \<in> bpID ` set (w_blueprints w)")
      case True
      have "map bpID (update_where (\<lambda>r. bpID r = bpID bp) (\<lambda>r. ?row) (w_blueprints w)) = map bpID (w_blueprints w)"
        by (auto simp: update_where_def)
      with True one_blueprintD'(2) [OF inv] show ?thesis by simp
    qed (use one_blueprintD'(2) [OF inv] in auto)
    have mem: "b = ?row \<or> b \<in> set (w_blueprints w) \<and> bpID b \<noteq> bpID bp" if "b \<in> set ?bs" for b
    proof (cases "bpID bp \<in> bpID ` set (w_blueprints w)")
      case True
      with that show ?thesis by (auto simp: update_where_def split: if_splits)
    next
      case False
      with that have "b = ?row \<or> b \<in> set (w_blueprints w)" by auto
      moreover have "bpID b \<noteq> bpID bp" if "b \<in> set (w_blueprints w)" using False that by (metis imageI)
      ultimately show ?thesis by blast
    qed
    have nz: "\<forall>b \<in> set ?bs. bpID b \<noteq> 0"
    proof
      fix b assume "b \<in> set ?bs"
      from mem [OF this] False one_blueprintD'(1) [OF inv, of b] show "bpID b \<noteq> 0" by auto
    qed
    have uniq: "bpID b = bpID b'" if "b \<in> set ?bs" "b' \<in> set ?bs" "bpProjectName b = bpProjectName b'" "bpProjectName b \<noteq> []" for b b'
      using mem [OF that(1)] mem [OF that(2)] that(3,4) same [of b] same [of b'] one_blueprintD [OF inv, of b b']
      by (elim disjE conjE) simp_all
    have set_rows: "one_blueprint (w\<lparr>w_blueprints := bs\<rparr>)" if "\<forall>b \<in> set bs. bpID b \<noteq> 0" "distinct (map bpID bs)"
      "\<And>b b'. b \<in> set bs \<Longrightarrow> b' \<in> set bs \<Longrightarrow> bpProjectName b = bpProjectName b' \<Longrightarrow> bpProjectName b \<noteq> [] \<Longrightarrow>
        bpID b = bpID b'" for bs
    proof -
      have eq: "w_blueprints (w\<lparr>w_blueprints := bs\<rparr>) = bs" by simp
      show ?thesis unfolding one_blueprint_def eq using that by blast
    qed
    note inv1 = set_rows [OF nz ids uniq]
    show ?thesis by (intro exI conjI, rule st, use nf in simp, rule inv1)
  qed
qed

lemma one_blueprint_cong: "w_blueprints w = w_blueprints w' \<Longrightarrow> one_blueprint w = one_blueprint w'"
  by (simp add: one_blueprint_def)

text \<open>What follows the validation in both handlers: the rows of the blueprints are those stored.\<close>

lemma save_and_reload_blueprints:
  assumes "store_blueprint bp w = (Ok bp', w1)" and "w_faults w1 = []"
  shows "w_blueprints (snd (bind_svc (SaveDbBlueprint bp) (\<lambda>b. bind_svc (wrap_err t s (ReloadBlueprints env)) (\<lambda>_. ret b)) w)) =
    w_blueprints w1"
proof -
  define ok where "ok v = (w_faults v = [] \<and> w_blueprints v = w_blueprints w1)" for v :: world
  have labels: "ok (snd (SaveDbBlueprint bp w))"
    using assms by (simp add: SaveDbBlueprint_def bind_svc_def wrap_err_def store_simps ok_def)
  have step: "keeps ok (\<lambda>w. (Ok (), f w))" if "\<And>v. ok v \<Longrightarrow> ok (f v)" for f
    using that by (simp add: keeps_def)
  have job: "keeps ok (\<lambda>w. (Ok (), w\<lparr>w_cron := w_cron w @ [b]\<rparr>))" for b
    by (simp add: keeps_def ok_def)
  have jobs: "keeps ok (add_jobs env bps)" for bps
    by (induction bps) (auto intro!: keeps_bind keeps_ret keeps_fail job split: option.split)
  have "keeps ok (ReloadBlueprints env)"
    unfolding ReloadBlueprints_def
  proof (intro keeps_bind)
    show "keeps ok (GetDbBlueprints schedule_query)" by (auto simp: keeps_def ok_def GetDbBlueprints_no_faults)
  next
    fix x :: "blueprint list \<times> nat"
    show "keeps ok (case x of (bps, _) \<Rightarrow> bind_svc (\<lambda>w. (Ok (), w\<lparr>w_cron := [], w_cron_on := False\<rparr>)) (\<lambda>_.
     bind_svc (add_jobs env bps) (\<lambda>_ w. (Ok (), if bps \<noteq> [] then w\<lparr>w_cron_on := True\<rparr> else w))))"
      by (cases x) (auto intro!: keeps_bind jobs step, simp_all add: ok_def)
  qed
  then have "keeps ok (bind_svc (wrap_err t s (ReloadBlueprints env)) (\<lambda>_. ret b))" for b :: blueprint
    by (intro keeps_bind keeps_wrap keeps_ret)
  with labels have "ok (snd (bind_svc (SaveDbBlueprint bp) (\<lambda>b. bind_svc (wrap_err t s (ReloadBlueprints env)) (\<lambda>_. ret b)) w))"
    by (cases "SaveDbBlueprint bp w"; cases "fst (SaveDbBlueprint bp w)") (auto simp: bind_svc_def [of "SaveDbBlueprint bp"] dest: keepsD)
  then show ?thesis by (simp add: ok_def)
qed

text \<open>Each project is used by one blueprint at most: creating or saving a blueprint keeps the blueprint rows
  with distinct ids and no two of one project, whatever the request and whether it is accepted, when no call of the
  database fails.\<close>

theorem save_keeps_one_blueprint:
  assumes "w_faults w = []" and "one_blueprint w"
  shows "one_blueprint (snd (CreateBlueprint env bp w)) \<and> one_blueprint (snd (saveBlueprint env bp w))"
proof -
  from validate_no_faults [OF assms(1), of env bp] obtain r S where
    v: "validateBlueprintAndMakePlan env bp w = (r, w\<lparr>w_scopes := S\<rparr>)"
    and ok: "\<forall>bp'. r = Ok bp' \<longrightarrow> bpID bp' = bpID bp \<and> bpProjectName bp' = bpProjectName bp \<and>
      project_free w bp"
    by (elim exE conjE) (rule that)
  let ?w = "w\<lparr>w_scopes := S\<rparr>"
  have inv: "one_blueprint ?w" using assms(2) one_blueprint_cong [of w ?w] by simp
  show ?thesis
  proof (cases r)
    case (Ok bp1)
    with ok have eqs: "bpID bp1 = bpID bp" "bpProjectName bp1 = bpProjectName bp" "project_free w bp" by simp_all
    then have "project_free ?w bp1" by (simp add: project_free_def split: list.splits)
    from one_blueprint_store [OF inv this] assms(1) obtain bp' w1 where
      st: "store_blueprint bp1 ?w = (Ok bp', w1)" "w_faults w1 = []" and inv1: "one_blueprint w1"
      by auto
    note rows = save_and_reload_blueprints [OF st, of Internal "''error reloading blueprints''" env]
    have "w_blueprints (snd (CreateBlueprint env bp w)) = w_blueprints w1"
      using rows v Ok by (simp add: CreateBlueprint_def bind_svc_def [of "validateBlueprintAndMakePlan env bp"])
    moreover have "w_blueprints (snd (saveBlueprint env bp w)) = w_blueprints w1"
      using rows v Ok by (simp add: saveBlueprint_def bind_svc_def [of "attempt X" for X] attempt_def)
    ultimately show ?thesis using inv1 one_blueprint_cong by blast
  next
    case (Err e)
    then show ?thesis using v inv by (simp add: CreateBlueprint_def saveBlueprint_def bind_svc_def attempt_def)
  next
    case (Panic e)
    then show ?thesis using v inv by (simp add: CreateBlueprint_def saveBlueprint_def bind_svc_def attempt_def)
  qed
qed

theorem save_keeps_one_blueprint_witness:
  "one_blueprint (snd (CreateBlueprint bp_env_example ((bp_example 0 ''shop'')\<lparr>bpMode := ''ADVANCED'',
     bpPlan := JsonVal (npPlan np_example)\<rparr>) project_world)) \<and> one_blueprint project_world"
proof -
  have "w_faults project_world = []" and inv: "one_blueprint project_world"
    by (simp_all add: project_world_def world0_def one_blueprint_def bp_example_def)
  from save_keeps_one_blueprint [OF this] inv show ?thesis by simp
qed

end
