(* ===== verification/HelperQueue.thy ===== *)
theory HelperQueue
  imports Prelude
begin

text \<open>
  The work queue of the plugin helpers (\<open>helpers/pluginhelper/api/queue.go\<close>) and the iterator over
  it (\<open>iterator.go\<close>): a singly linked list of nodes with head, tail and count, and a counter of
  the items that workers have pulled and not finished yet.

  Nodes live in a heap, a list indexed by address, because the code mutates them through shared
  pointers. Every operation holds \<open>q.mux\<close> for its whole body, so it is one atomic function; the two
  blocking operations release the lock between the rounds of their loop, so one round is a function
  and the rounds are interleaved by the step relation of the last section.
\<close>

section \<open>Nodes and the queue\<close>

type_synonym addr = nat

record 'a QueueIteratorNode =
  node_next :: "addr option"
  node_data :: 'a

type_synonym 'a node_heap = "'a QueueIteratorNode list"

record Queue =
  q_count :: int
  q_head :: "addr option"
  q_tail :: "addr option"
  q_working :: int

definition NewQueue :: Queue where
  "NewQueue = \<lparr>q_count = 0, q_head = None, q_tail = None, q_working = 0\<rparr>"

definition NewQueueIteratorNode :: "'a \<Rightarrow> 'a QueueIteratorNode" where
  "NewQueueIteratorNode d = \<lparr>node_next = None, node_data = d\<rparr>"

definition Node_Next :: "'a node_heap \<Rightarrow> addr \<Rightarrow> addr option" where
  "Node_Next h n = node_next (h ! n)"

definition Node_SetNext :: "'a node_heap \<Rightarrow> addr \<Rightarrow> addr option \<Rightarrow> 'a node_heap" where
  "Node_SetNext h n nx = h[n := (h ! n)\<lparr>node_next := nx\<rparr>]"

definition Node_Data :: "'a node_heap \<Rightarrow> addr \<Rightarrow> 'a" where
  "Node_Data h n = node_data (h ! n)"

definition PushWithoutLock :: "'a node_heap \<Rightarrow> Queue \<Rightarrow> addr \<Rightarrow> 'a node_heap \<times> Queue" where
  "PushWithoutLock h q n =
     (case q_tail q of
        None \<Rightarrow> (h, q\<lparr>q_head := Some n, q_tail := Some n, q_count := 1\<rparr>)
      | Some t \<Rightarrow> (Node_SetNext h t (Some n), q\<lparr>q_tail := Some n, q_count := q_count q + 1\<rparr>))"

definition PullWithOutLock :: "'a node_heap \<Rightarrow> Queue \<Rightarrow> addr option \<times> 'a node_heap \<times> Queue" where
  "PullWithOutLock h q =
     (case q_head q of
        None \<Rightarrow> (None, h, q\<lparr>q_count := 0\<rparr>)
      | Some n \<Rightarrow>
          let q1 = q\<lparr>q_head := Node_Next h n\<rparr>;
              q2 = (if q_head q1 = None then q1\<lparr>q_tail := None\<rparr> else q1)
          in (Some n, Node_SetNext h n None, q2\<lparr>q_count := q_count q2 - 1\<rparr>))"

definition CleanWithOutLock :: "Queue \<Rightarrow> Queue" where
  "CleanWithOutLock q = q\<lparr>q_count := 0, q_head := None, q_tail := None\<rparr>"

definition Finish :: "Queue \<Rightarrow> int \<Rightarrow> Queue" where
  "Finish q n = q\<lparr>q_working := q_working q - n\<rparr>"

definition GetCount :: "Queue \<Rightarrow> int" where
  "GetCount q = q_count q"

text \<open>One round of the loop of \<open>PullWithWorkingBlock\<close>: it returns a node, sleeps and tries again,
  or returns nil.\<close>

datatype pull_round = PullNode addr | PullSleep | PullNil

definition PullWithWorkingBlock ::
    "'a node_heap \<Rightarrow> Queue \<Rightarrow> pull_round \<times> 'a node_heap \<times> Queue" where
  "PullWithWorkingBlock h q =
     (case PullWithOutLock h q of
        (Some n, h', q') \<Rightarrow> (PullNode n, h', q'\<lparr>q_working := q_working q' + 1\<rparr>)
      | (None, h', q') \<Rightarrow> (if q_working q' > 0 then PullSleep else PullNil, h', q'))"

text \<open>One round of the loop of \<open>GetCountWithWorkingBlock\<close>: \<open>None\<close> when it sleeps.\<close>

definition GetCountWithWorkingBlock :: "Queue \<Rightarrow> int option" where
  "GetCountWithWorkingBlock q =
     (if q_count q = 0 \<and> q_working q > 0 then None else Some (q_count q))"

section \<open>The iterator\<close>

type_synonym 'a QueueIterator = "'a node_heap \<times> Queue"

definition NewQueueIterator :: "'a QueueIterator" where
  "NewQueueIterator = ([], NewQueue)"

definition QueueIterator_HasNext :: "'a QueueIterator \<Rightarrow> bool" where
  "QueueIterator_HasNext it = (GetCount (snd it) > 0)"

definition QueueIterator_Fetch :: "'a QueueIterator \<Rightarrow> 'a option \<times> 'a QueueIterator" where
  "QueueIterator_Fetch it =
     (case PullWithOutLock (fst it) (snd it) of
        (None, h, q) \<Rightarrow> (None, h, q)
      | (Some n, h, q) \<Rightarrow> (Some (Node_Data h n), h, q))"

definition QueueIterator_Push :: "'a QueueIterator \<Rightarrow> 'a \<Rightarrow> 'a QueueIterator" where
  "QueueIterator_Push it d =
     PushWithoutLock (fst it @ [NewQueueIteratorNode d]) (snd it) (length (fst it))"

definition QueueIterator_Close :: "'a QueueIterator \<Rightarrow> 'a QueueIterator" where
  "QueueIterator_Close it = (fst it, CleanWithOutLock (snd it))"

section \<open>The list a queue holds\<close>

fun chain :: "'a node_heap \<Rightarrow> addr option \<Rightarrow> addr list \<Rightarrow> bool" where
  "chain h a [] \<longleftrightarrow> a = None"
| "chain h a (n # ns) \<longleftrightarrow> a = Some n \<and> n < length h \<and> chain h (node_next (h ! n)) ns"

definition queue_rep :: "'a node_heap \<Rightarrow> Queue \<Rightarrow> addr list \<Rightarrow> bool" where
  "queue_rep h q ns \<longleftrightarrow> chain h (q_head q) ns \<and> distinct ns
     \<and> q_tail q = (if ns = [] then None else Some (last ns)) \<and> q_count q = int (length ns)"

definition it_inv :: "'a QueueIterator \<Rightarrow> bool" where
  "it_inv it \<longleftrightarrow> (\<exists>ns. queue_rep (fst it) (snd it) ns)"

fun walk :: "'a node_heap \<Rightarrow> nat \<Rightarrow> addr option \<Rightarrow> 'a list" where
  "walk h 0 a = []"
| "walk h (Suc k) None = []"
| "walk h (Suc k) (Some n) = node_data (h ! n) # walk h k (node_next (h ! n))"

definition it_items :: "'a QueueIterator \<Rightarrow> 'a list" where
  "it_items it = walk (fst it) (nat (q_count (snd it))) (q_head (snd it))"

lemma chain_walk: "chain h a ns \<Longrightarrow> walk h (length ns) a = map (\<lambda>n. node_data (h ! n)) ns"
  by (induction ns arbitrary: a) auto

lemma queue_rep_items: "queue_rep h q ns \<Longrightarrow> it_items (h, q) = map (\<lambda>n. node_data (h ! n)) ns"
  by (simp add: queue_rep_def it_items_def chain_walk)

lemma chain_bound: "chain h a ns \<Longrightarrow> n \<in> set ns \<Longrightarrow> n < length h"
  by (induction ns arbitrary: a) auto

lemma chain_unchanged:
  "chain h a ns \<Longrightarrow> m \<notin> set ns \<Longrightarrow> chain (Node_SetNext h m b) a ns"
  by (induction ns arbitrary: a) (auto simp: Node_SetNext_def)

lemma chain_append_heap: "chain h a ns \<Longrightarrow> chain (h @ e) a ns"
  by (induction ns arbitrary: a) (auto simp: nth_append)

lemma chain_snoc:
  assumes "chain h a ns" "ns \<noteq> []" "distinct ns" "n < length h" "n \<notin> set ns"
    "node_next (h ! n) = None"
  shows "chain (Node_SetNext h (last ns) (Some n)) a (ns @ [n])"
  using assms
proof (induction ns arbitrary: a)
  case (Cons m ns)
  show ?case
  proof (cases "ns = []")
    case True
    with Cons.prems show ?thesis by (auto simp: Node_SetNext_def)
  next
    case False
    then have "last ns \<in> set ns" by simp
    with Cons.prems(3) have ne: "m \<noteq> last ns" by auto
    from Cons False have "chain (Node_SetNext h (last ns) (Some n)) (node_next (h ! m)) (ns @ [n])"
      by simp
    with Cons.prems False ne show ?thesis by (simp add: Node_SetNext_def)
  qed
qed simp

lemma node_data_SetNext [simp]: "node_data (Node_SetNext h m b ! n) = node_data (h ! n)"
  by (cases "m < length h"; cases "m = n") (auto simp: Node_SetNext_def list_update_beyond)

lemma length_SetNext [simp]: "length (Node_SetNext h m b) = length h"
  by (simp add: Node_SetNext_def)

lemma queue_rep_Push:
  assumes "queue_rep h q ns" "n < length h" "n \<notin> set ns" "node_next (h ! n) = None"
    "PushWithoutLock h q n = (h', q')"
  shows "queue_rep h' q' (ns @ [n]) \<and> q_working q' = q_working q \<and> length h' = length h
    \<and> (\<forall>m. node_data (h' ! m) = node_data (h ! m))"
proof (cases "ns = []")
  case True
  with assms show ?thesis by (auto simp: queue_rep_def PushWithoutLock_def)
next
  case False
  with assms(1,5) have "h' = Node_SetNext h (last ns) (Some n)"
    and "q' = q\<lparr>q_tail := Some n, q_count := q_count q + 1\<rparr>"
    by (auto simp: queue_rep_def PushWithoutLock_def)
  with False assms(1-4) show ?thesis by (simp add: queue_rep_def chain_snoc)
qed

lemma queue_rep_Pull_Nil:
  "queue_rep h q [] \<Longrightarrow> PullWithOutLock h q = (None, h, q) \<and> q_count q = 0"
  by (cases q) (auto simp: queue_rep_def PullWithOutLock_def)

lemma queue_rep_Pull_Cons:
  assumes "queue_rep h q (n # ns)"
  shows "\<exists>q'. PullWithOutLock h q = (Some n, Node_SetNext h n None, q')
    \<and> queue_rep (Node_SetNext h n None) q' ns \<and> q_working q' = q_working q"
proof -
  have chain: "q_head q = Some n" "n < length h" "chain h (node_next (h ! n)) ns" "n \<notin> set ns"
    "distinct ns" "q_tail q = Some (last (n # ns))" "q_count q = 1 + int (length ns)"
    using assms by (auto simp: queue_rep_def)
  then have "chain (Node_SetNext h n None) (node_next (h ! n)) ns" by (simp add: chain_unchanged)
  with chain show ?thesis
    by (cases ns) (auto simp: PullWithOutLock_def Let_def Node_Next_def queue_rep_def)
qed

lemmas queue_reps = queue_rep_Pull_Nil queue_rep_Pull_Cons queue_rep_Push

lemma it_new [simp]: "it_inv NewQueueIterator" "it_items NewQueueIterator = []"
  by (auto simp: it_inv_def NewQueueIterator_def NewQueue_def queue_rep_def it_items_def
      intro!: exI [of _ "[]"])

lemma it_push:
  assumes "it_inv it"
  shows "it_inv (QueueIterator_Push it d)" "it_items (QueueIterator_Push it d) = it_items it @ [d]"
    "q_working (snd (QueueIterator_Push it d)) = q_working (snd it)"
proof -
  obtain h q where it: "it = (h, q)" by (cases it)
  with assms obtain ns where rep: "queue_rep h q ns" by (auto simp: it_inv_def)
  obtain h' q' where push: "PushWithoutLock (h @ [NewQueueIteratorNode d]) q (length h) = (h', q')"
    by (cases "PushWithoutLock (h @ [NewQueueIteratorNode d]) q (length h)")
  have fresh: "n < length h" if "n \<in> set ns" for n
    using rep that by (auto simp: queue_rep_def dest: chain_bound)
  have "queue_rep (h @ [NewQueueIteratorNode d]) q ns"
    using rep by (simp add: queue_rep_def chain_append_heap)
  with push fresh have rep': "queue_rep h' q' (ns @ [length h]) \<and> q_working q' = q_working q
      \<and> (\<forall>m. node_data (h' ! m) = node_data ((h @ [NewQueueIteratorNode d]) ! m))"
    using queue_rep_Push [of "h @ [NewQueueIteratorNode d]" q ns "length h" h' q']
    by (fastforce simp: NewQueueIteratorNode_def)
  show "it_inv (QueueIterator_Push it d)"
    using rep' push it by (auto simp: it_inv_def QueueIterator_Push_def)
  show "it_items (QueueIterator_Push it d) = it_items it @ [d]"
    using rep rep' push it fresh
    by (auto simp: QueueIterator_Push_def queue_rep_items nth_append NewQueueIteratorNode_def)
  show "q_working (snd (QueueIterator_Push it d)) = q_working (snd it)"
    using rep' push it by (simp add: QueueIterator_Push_def)
qed

lemma it_fetch_Nil:
  assumes "it_inv it" "it_items it = []"
  shows "QueueIterator_Fetch it = (None, it)"
proof -
  from assms obtain ns where rep: "queue_rep (fst it) (snd it) ns" by (auto simp: it_inv_def)
  with assms(2) have "ns = []" using queue_rep_items [OF rep] by simp
  with rep show ?thesis by (auto simp: QueueIterator_Fetch_def dest!: queue_rep_Pull_Nil)
qed

lemma it_fetch_Cons:
  assumes "it_inv it" "it_items it = x # xs"
  obtains it' where "QueueIterator_Fetch it = (Some x, it')" "it_inv it'" "it_items it' = xs"
    "q_working (snd it') = q_working (snd it)"
proof -
  obtain h q where it: "it = (h, q)" by (cases it)
  with assms obtain ns where rep: "queue_rep h q ns" by (auto simp: it_inv_def)
  with assms(2) it obtain n ms where ns: "ns = n # ms" "node_data (h ! n) = x"
    "map (\<lambda>n. node_data (h ! n)) ms = xs" using queue_rep_items [OF rep] by auto
  from rep ns(1) obtain q' where pull: "PullWithOutLock h q = (Some n, Node_SetNext h n None, q')"
    "queue_rep (Node_SetNext h n None) q' ms" "q_working q' = q_working q"
    by (auto dest!: queue_rep_Pull_Cons)
  show thesis
  proof
    show "QueueIterator_Fetch it = (Some x, (Node_SetNext h n None, q'))"
      using pull ns it by (simp add: QueueIterator_Fetch_def Node_Data_def)
    show "it_inv (Node_SetNext h n None, q')" using pull by (auto simp: it_inv_def)
    show "it_items (Node_SetNext h n None, q') = xs"
      using pull ns by (simp add: queue_rep_items)
    show "q_working (snd (Node_SetNext h n None, q')) = q_working (snd it)"
      using pull it by simp
  qed
qed

lemma it_hasnext:
  assumes "it_inv it"
  shows "QueueIterator_HasNext it \<longleftrightarrow> it_items it \<noteq> []"
proof -
  from assms obtain ns where rep: "queue_rep (fst it) (snd it) ns" by (auto simp: it_inv_def)
  then have "it_items it = map (\<lambda>n. node_data (fst it ! n)) ns" using queue_rep_items by fastforce
  with rep show ?thesis by (simp add: QueueIterator_HasNext_def GetCount_def queue_rep_def)
qed

lemma it_close: "it_inv (QueueIterator_Close it)" "it_items (QueueIterator_Close it) = []"
  by (auto simp: it_inv_def QueueIterator_Close_def CleanWithOutLock_def queue_rep_def it_items_def
      intro!: exI [of _ "[]"])

section \<open>First in, first out\<close>

text \<open>What the users of the iterator rely on: it holds a list, \<open>Push\<close> appends, \<open>Fetch\<close> takes the
  first element and \<open>HasNext\<close> tells whether there is one.\<close>

datatype 'a queue_op = OpPush 'a | OpFetch

fun run_ops :: "('q \<Rightarrow> 'a \<Rightarrow> 'q) \<Rightarrow> ('q \<Rightarrow> 'a option \<times> 'q) \<Rightarrow> 'q \<Rightarrow> 'a queue_op list
    \<Rightarrow> 'a option list \<times> 'q" where
  "run_ops push fetch q [] = ([], q)"
| "run_ops push fetch q (OpPush x # ops) = run_ops push fetch (push q x) ops"
| "run_ops push fetch q (OpFetch # ops) =
     (case fetch q of (r, q') \<Rightarrow> case run_ops push fetch q' ops of (rs, q'') \<Rightarrow> (r # rs, q''))"

definition fetched :: "'a option list \<Rightarrow> 'a list" where
  "fetched rs = concat (map (case_option [] (\<lambda>x. [x])) rs)"

definition pushes :: "'a queue_op list \<Rightarrow> 'a list" where
  "pushes ops = concat (map (case_queue_op (\<lambda>x. [x]) []) ops)"

text \<open>The loop \<open>for it.HasNext() { x := it.Fetch(); ... it.Push(y) ... }\<close> with the items \<open>step\<close>
  pushes for every item it fetches, and the breadth first order of the items.\<close>

primrec drain :: "('q \<Rightarrow> 'a \<Rightarrow> 'q) \<Rightarrow> ('q \<Rightarrow> 'a option \<times> 'q) \<Rightarrow> ('q \<Rightarrow> bool) \<Rightarrow> ('a \<Rightarrow> 'a list)
    \<Rightarrow> nat \<Rightarrow> 'q \<Rightarrow> 'a list option" where
  "drain push fetch has_next step 0 q = None"
| "drain push fetch has_next step (Suc k) q =
     (if has_next q
      then (case fetch q of
              (None, q') \<Rightarrow> None
            | (Some x, q') \<Rightarrow>
                map_option (Cons x) (drain push fetch has_next step k (foldl push q' (step x))))
      else Some [])"

primrec breadth_first :: "('a \<Rightarrow> 'a list) \<Rightarrow> nat \<Rightarrow> 'a list \<Rightarrow> 'a list option" where
  "breadth_first step 0 xs = None"
| "breadth_first step (Suc k) xs =
     (case xs of [] \<Rightarrow> Some []
      | x # ys \<Rightarrow> map_option (Cons x) (breadth_first step k (ys @ step x)))"

text \<open>The loop ends when what an item pushes weighs less than the item.\<close>

lemma breadth_first_ends:
  assumes "\<And>x. sum_list (map w (step x)) < (w x :: nat)"
  shows "sum_list (map w xs) < k \<Longrightarrow> \<exists>ys. breadth_first step k xs = Some ys"
proof (induction k arbitrary: xs)
  case (Suc k)
  show ?case
  proof (cases xs)
    case (Cons x ys)
    from assms [of x] Suc.prems Cons have "sum_list (map w (ys @ step x)) < k" by simp
    from Suc.IH [OF this] Cons show ?thesis by auto
  qed simp
qed simp

locale fifo_iterator =
  fixes inv :: "'q \<Rightarrow> bool"
    and items :: "'q \<Rightarrow> 'a list"
    and push :: "'q \<Rightarrow> 'a \<Rightarrow> 'q"
    and fetch :: "'q \<Rightarrow> 'a option \<times> 'q"
    and has_next :: "'q \<Rightarrow> bool"
  assumes push_inv: "inv q \<Longrightarrow> inv (push q x)"
    and push_items: "inv q \<Longrightarrow> items (push q x) = items q @ [x]"
    and fetch_none: "inv q \<Longrightarrow> items q = [] \<Longrightarrow> fetch q = (None, q)"
    and fetch_some: "inv q \<Longrightarrow> items q = y # ys \<Longrightarrow> \<exists>q'. fetch q = (Some y, q') \<and> inv q' \<and> items q' = ys"
    and has_next_iff: "inv q \<Longrightarrow> has_next q \<longleftrightarrow> items q \<noteq> []"
begin

lemma fetch_inv: "inv q \<Longrightarrow> inv (snd (fetch q))"
  using fetch_none fetch_some by (cases "items q") fastforce+

lemma run_ops_fifo:
  "inv q \<Longrightarrow> run_ops push fetch q ops = (rs, q') \<Longrightarrow> inv q' \<and> fetched rs @ items q' = items q @ pushes ops"
proof (induction ops arbitrary: q rs q')
  case (Cons op ops)
  show ?case
  proof (cases op)
    case (OpPush x)
    with Cons.prems(2) have "run_ops push fetch (push q x) ops = (rs, q')" by simp
    from Cons.IH [OF push_inv [OF Cons.prems(1)] this] show ?thesis
      using push_items [OF Cons.prems(1)] OpPush by (simp add: pushes_def)
  next
    case OpFetch
    obtain r q1 where f: "fetch q = (r, q1)" by (cases "fetch q")
    obtain rs1 where r: "run_ops push fetch q1 ops = (rs1, q')" "rs = r # rs1"
      using Cons.prems(2) f OpFetch by (auto split: prod.splits)
    have "inv q1" using fetch_inv [OF Cons.prems(1)] f by simp
    from Cons.IH [OF this r(1)] have IH: "inv q' \<and> fetched rs1 @ items q' = items q1 @ pushes ops" .
    moreover have "fetched rs @ items q' = fetched [r] @ items q1 @ pushes ops"
      using IH r(2) by (simp add: fetched_def)
    moreover have "fetched [r] @ items q1 = items q"
      using fetch_none [OF Cons.prems(1)] fetch_some [OF Cons.prems(1)] f
      by (cases "items q") (auto simp: fetched_def)
    ultimately show ?thesis using OpFetch by (simp add: pushes_def)
  qed
qed (simp add: fetched_def pushes_def)

lemma push_many: "inv q \<Longrightarrow> inv (foldl push q ys) \<and> items (foldl push q ys) = items q @ ys"
  by (induction ys arbitrary: q) (auto simp: push_inv push_items)

lemma drain_eq: "inv q \<Longrightarrow> drain push fetch has_next step k q = breadth_first step k (items q)"
proof (induction k arbitrary: q)
  case (Suc k)
  show ?case
  proof (cases "items q")
    case (Cons x ys)
    then obtain q' where "fetch q = (Some x, q')" "inv q'" "items q' = ys"
      using fetch_some Suc.prems by blast
    then show ?thesis
      using Suc.IH [of "foldl push q' (step x)"] push_many [of q' "step x"] Cons
        has_next_iff [OF Suc.prems] by simp
  qed (simp add: has_next_iff [OF Suc.prems])
qed simp

end

interpretation lq: fifo_iterator it_inv it_items QueueIterator_Push QueueIterator_Fetch QueueIterator_HasNext
proof
  show "\<exists>q'. QueueIterator_Fetch q = (Some y, q') \<and> it_inv q' \<and> it_items q' = ys"
    if "it_inv q" "it_items q = y # ys" for q :: "'a QueueIterator" and y ys
    using that by (metis it_fetch_Cons)
qed (auto simp: it_push it_hasnext it_fetch_Nil)

text \<open>C33. Any sequence of \<open>Push\<close> and \<open>Fetch\<close> on an iterator over the linked queue hands the pushed
  data out in the order they were pushed: what was fetched, followed by what the queue still
  holds, is what it held followed by what was pushed. No node is lost, repeated or reordered by
  the pointer updates.\<close>

theorem queue_iterator_fifo:
  assumes "run_ops QueueIterator_Push QueueIterator_Fetch NewQueueIterator ops = (rs, it)"
  shows "fetched rs @ it_items it = pushes ops \<and> (QueueIterator_HasNext it \<longleftrightarrow> it_items it \<noteq> [])"
  using lq.run_ops_fifo [OF it_new(1) assms] by (simp add: it_hasnext)

theorem queue_iterator_fifo_witness:
  "fetched [Some 1, Some 2, None] @ it_items ([\<lparr>node_next = None, node_data = 1\<rparr>,
     \<lparr>node_next = None, node_data = 2\<rparr>, \<lparr>node_next = None, node_data = (3 :: nat)\<rparr>],
     \<lparr>q_count = 1, q_head = Some 2, q_tail = Some 2, q_working = 0\<rparr>) = [1, 2, 3]"
proof -
  have "run_ops QueueIterator_Push QueueIterator_Fetch NewQueueIterator
      [OpPush 1, OpPush 2, OpFetch, OpFetch, OpFetch, OpPush (3 :: nat)]
    = ([Some 1, Some 2, None], [\<lparr>node_next = None, node_data = 1\<rparr>,
        \<lparr>node_next = None, node_data = 2\<rparr>, \<lparr>node_next = None, node_data = 3\<rparr>],
        \<lparr>q_count = 1, q_head = Some 2, q_tail = Some 2, q_working = 0\<rparr>)"
    by code_simp
  from queue_iterator_fifo [OF this] show ?thesis by (simp add: pushes_def)
qed

section \<open>Workers on a shared queue\<close>

text \<open>Workers loop over \<open>PullWithWorkingBlock\<close>, push the follow-up items of the item they hold and call
  \<open>Finish(1)\<close> when they are through with it. A state has the queue, the items in the hands of the
  workers, the items pushed and finished so far, and whether a worker has been given nil.\<close>

record 'a crew =
  c_queue :: "'a QueueIterator"
  c_busy :: "'a list"
  c_pushed :: "'a list"
  c_finished :: "'a list"
  c_saw_nil :: bool

definition crew_start :: "'a list \<Rightarrow> 'a crew" where
  "crew_start xs = \<lparr>c_queue = foldl QueueIterator_Push NewQueueIterator xs, c_busy = [],
     c_pushed = xs, c_finished = [], c_saw_nil = False\<rparr>"

definition crew_pull :: "'a crew \<Rightarrow> 'a crew" where
  "crew_pull s =
     (case PullWithWorkingBlock (fst (c_queue s)) (snd (c_queue s)) of
        (PullNode n, it) \<Rightarrow> s\<lparr>c_queue := it, c_busy := Node_Data (fst it) n # c_busy s\<rparr>
      | (PullSleep, it) \<Rightarrow> s\<lparr>c_queue := it\<rparr>
      | (PullNil, it) \<Rightarrow> s\<lparr>c_queue := it, c_saw_nil := True\<rparr>)"

inductive crew_step :: "'a crew \<Rightarrow> 'a crew \<Rightarrow> bool" where
  crew_pulls: "crew_step s (crew_pull s)"
| crew_pushes: "c_busy s \<noteq> [] \<Longrightarrow>
    crew_step s (s\<lparr>c_queue := QueueIterator_Push (c_queue s) y, c_pushed := c_pushed s @ [y]\<rparr>)"
| crew_finishes: "x \<in> set (c_busy s) \<Longrightarrow>
    crew_step s (s\<lparr>c_queue := (fst (c_queue s), Finish (snd (c_queue s)) 1),
      c_busy := remove1 x (c_busy s), c_finished := x # c_finished s\<rparr>)"

inductive_cases crew_stepE: "crew_step s s'"

inductive crew_reach :: "'a list \<Rightarrow> 'a crew \<Rightarrow> bool" for xs where
  crew_init: "crew_reach xs (crew_start xs)"
| crew_more: "crew_reach xs s \<Longrightarrow> crew_step s s' \<Longrightarrow> crew_reach xs s'"

definition crew_inv :: "'a crew \<Rightarrow> bool" where
  "crew_inv s \<longleftrightarrow> it_inv (c_queue s) \<and> q_working (snd (c_queue s)) = int (length (c_busy s))
     \<and> mset (c_pushed s) = mset (it_items (c_queue s)) + mset (c_busy s) + mset (c_finished s)
     \<and> (c_saw_nil s \<longrightarrow> it_items (c_queue s) = [] \<and> c_busy s = [])"

lemma crew_pull_Cons:
  assumes "it_inv (c_queue s)" "it_items (c_queue s) = x # xs"
  obtains it where "crew_pull s = s\<lparr>c_queue := it, c_busy := x # c_busy s\<rparr>" "it_inv it"
    "it_items it = xs" "q_working (snd it) = q_working (snd (c_queue s)) + 1"
proof -
  obtain it1 where f: "QueueIterator_Fetch (c_queue s) = (Some x, it1)" "it_inv it1"
    "it_items it1 = xs" "q_working (snd it1) = q_working (snd (c_queue s))"
    using it_fetch_Cons [OF assms] by blast
  then obtain n h q where p: "PullWithOutLock (fst (c_queue s)) (snd (c_queue s)) = (Some n, h, q)"
    "it1 = (h, q)" "Node_Data h n = x"
    by (auto simp: QueueIterator_Fetch_def split: prod.splits option.splits)
  show thesis
  proof
    show "crew_pull s = s\<lparr>c_queue := (h, q\<lparr>q_working := q_working q + 1\<rparr>), c_busy := x # c_busy s\<rparr>"
      using p by (simp add: crew_pull_def PullWithWorkingBlock_def)
    show "it_inv (h, q\<lparr>q_working := q_working q + 1\<rparr>)"
      using f(2) p(2) by (simp add: it_inv_def queue_rep_def)
    show "it_items (h, q\<lparr>q_working := q_working q + 1\<rparr>) = xs"
      using f(3) p(2) by (simp add: it_items_def)
  qed (use f(4) p(2) in simp)
qed

lemma crew_pull_Nil:
  assumes "it_inv (c_queue s)" "it_items (c_queue s) = []"
  shows "crew_pull s = (if q_working (snd (c_queue s)) > 0 then s else s\<lparr>c_saw_nil := True\<rparr>)"
proof -
  obtain h q where it: "c_queue s = (h, q)" by (cases "c_queue s")
  from assms it obtain ns where rep: "queue_rep h q ns" by (auto simp: it_inv_def)
  with assms(2) it have "ns = []" using queue_rep_items [OF rep] by simp
  with rep have "PullWithOutLock h q = (None, h, q)" by (auto dest: queue_rep_Pull_Nil)
  with it show ?thesis by (simp add: crew_pull_def PullWithWorkingBlock_def)
qed

lemma crew_step_inv: "crew_step s s' \<Longrightarrow> crew_inv s \<Longrightarrow> crew_inv s'"
proof (induction rule: crew_step.induct)
  case (crew_pulls s)
  then have inv: "it_inv (c_queue s)" by (simp add: crew_inv_def)
  show ?case
  proof (cases "it_items (c_queue s)")
    case Nil
    then show ?thesis using crew_pulls crew_pull_Nil [OF inv] by (auto simp: crew_inv_def)
  next
    case (Cons x xs)
    obtain it where "crew_pull s = s\<lparr>c_queue := it, c_busy := x # c_busy s\<rparr>" "it_inv it"
      "it_items it = xs" "q_working (snd it) = q_working (snd (c_queue s)) + 1"
      using crew_pull_Cons [OF inv Cons] .
    then show ?thesis using crew_pulls Cons by (simp add: crew_inv_def)
  qed
next
  case (crew_pushes s y)
  then show ?case by (auto simp: crew_inv_def it_push)
next
  case (crew_finishes x s)
  then have "it_inv (fst (c_queue s), Finish (snd (c_queue s)) 1)"
    "it_items (fst (c_queue s), Finish (snd (c_queue s)) 1) = it_items (c_queue s)"
    by (simp_all add: crew_inv_def it_inv_def queue_rep_def Finish_def it_items_def)
  moreover have "c_busy s \<noteq> []" using crew_finishes.hyps by auto
  ultimately show ?case
    using crew_finishes by (auto simp: crew_inv_def Finish_def length_remove1 of_nat_diff Suc_leI)
qed

lemma crew_start_inv: "crew_inv (crew_start xs)"
proof -
  have "q_working (snd (foldl QueueIterator_Push it xs)) = q_working (snd it)" if "it_inv it"
    for it :: "'a QueueIterator"
    using that by (induction xs arbitrary: it) (simp_all add: it_push)
  then show ?thesis
    using lq.push_many [OF it_new(1), of xs] it_new
    by (simp add: crew_inv_def crew_start_def) (simp add: NewQueueIterator_def NewQueue_def)
qed

lemma crew_reach_inv: "crew_reach xs s \<Longrightarrow> crew_inv s"
  by (induction rule: crew_reach.induct) (auto simp: crew_start_inv crew_step_inv)

text \<open>A worker is told that there is no more work only when there is none: in every state the
  workers can reach where some \<open>PullWithWorkingBlock\<close> has returned nil, the queue is empty, no item is
  in the hands of a worker, and every item ever pushed has been finished. While items are left, a
  pull never returns nil.\<close>

theorem crew_finishes_all:
  assumes "crew_reach xs s"
  shows "if c_saw_nil s
    then it_items (c_queue s) = [] \<and> c_busy s = [] \<and> mset (c_finished s) = mset (c_pushed s)
    else c_saw_nil (crew_pull s) = (it_items (c_queue s) = [] \<and> c_busy s = [])"
proof (cases "c_saw_nil s")
  case True
  then show ?thesis using crew_reach_inv [OF assms] by (simp add: crew_inv_def)
next
  case False
  have inv: "it_inv (c_queue s)" "q_working (snd (c_queue s)) = int (length (c_busy s))"
    using crew_reach_inv [OF assms] by (simp_all add: crew_inv_def)
  show ?thesis
  proof (cases "it_items (c_queue s)")
    case Nil
    then show ?thesis using crew_pull_Nil [OF inv(1) Nil] inv False by auto
  next
    case (Cons x xs)
    obtain it where "crew_pull s = s\<lparr>c_queue := it, c_busy := x # c_busy s\<rparr>"
      using crew_pull_Cons [OF inv(1) Cons] .
    then show ?thesis using Cons False by simp
  qed
qed

theorem crew_finishes_all_witness:
  "\<exists>s. crew_reach [7 :: nat] s \<and> c_saw_nil s \<and> mset (c_finished s) = mset (c_pushed s)"
proof -
  define s0 where "s0 = crew_pull (crew_start [7 :: nat])"
  define s1 where "s1 = s0\<lparr>c_queue := (fst (c_queue s0), Finish (snd (c_queue s0)) 1),
      c_busy := remove1 7 (c_busy s0), c_finished := 7 # c_finished s0\<rparr>"
  have "c_busy s0 = [7]" unfolding s0_def by code_simp
  then have "7 \<in> set (c_busy s0)" by simp
  then have "crew_step s0 s1" unfolding s1_def by (rule crew_finishes)
  moreover have "crew_reach [7] s0"
    unfolding s0_def by (rule crew_more [OF crew_init]) (rule crew_pulls)
  ultimately have "crew_reach [7] s1" by (rule crew_more [rotated])
  then have reach: "crew_reach [7] (crew_pull s1)" by (rule crew_more) (rule crew_pulls)
  moreover have "c_saw_nil (crew_pull s1)" unfolding s1_def s0_def by code_simp
  ultimately show ?thesis using crew_finishes_all [OF reach] by auto
qed

end
