(* ===== verification/BatchSave.thy ===== *)
theory BatchSave
  imports LakeErrors
begin

text \<open>
  Batched persistence (\<open>helpers/pluginhelper/api/batch_save.go\<close>): records of one Go type are
  collected in a slice of \<open>size\<close> slots, deduplicated by the text of their primary key, and written
  by one \<open>CreateOrUpdate\<close> statement when the slice is full or the batch is closed.

  The database is a parameter: the statement \<open>store\<close> and the table contents \<open>look\<close> an observer can
  query, with the laws of the locale \<open>upsert_store\<close>: \<open>INSERT ... ON CONFLICT UPDATE\<close> of a list of rows
  (\<open>dal.CreateOrUpdate\<close>) either inserts or replaces each of them or fails and changes nothing.
\<close>

section \<open>Records seen through reflection\<close>

text \<open>A field holds a string, a number or a value of another type, of which \<open>%v\<close> prints a text.\<close>

datatype fval = FStr string | FNum int | FOther string

fun print_v :: "fval \<Rightarrow> string" where
  "print_v (FStr s) = s"
| "print_v (FNum n) = show_int n"
| "print_v (FOther s) = s"

text \<open>A \<open>reflect.Type\<close>: its text, the name of the type it points to, whether it is a pointer, the names of its primary key fields, and
  whether it embeds \<open>common.RawDataOrigin\<close>.\<close>

record slot_type =
  st_name :: string
  st_elem :: string
  st_ptr :: bool
  st_primary :: "string list"
  st_origin :: bool

record RawDataOrigin =
  RawDataParams :: string
  RawDataTable :: string
  RawDataId :: nat
  RawDataRemark :: string

text \<open>A record: its type, the fields of the struct itself, those promoted from embedded structs, and
  the embedded \<open>RawDataOrigin\<close>.\<close>

record row =
  r_type :: slot_type
  r_fields :: "(string \<times> fval) list"
  r_embedded :: "(string \<times> fval) list"
  r_origin :: RawDataOrigin

definition FieldByName :: "row \<Rightarrow> string \<Rightarrow> fval option" where
  "FieldByName r n =
     (case map_of (r_fields r) n of Some v \<Rightarrow> Some v | None \<Rightarrow> map_of (r_embedded r) n)"

definition strip_nul :: "string \<Rightarrow> string" where
  "strip_nul s = filter (\<lambda>c. c \<noteq> CHR 0x00) s"

fun strip_field :: "fval \<Rightarrow> fval" where
  "strip_field (FStr s) = FStr (strip_nul s)"
| "strip_field v = v"

definition stripZeroByte :: "row \<Rightarrow> row" where
  "stripZeroByte r = r\<lparr>r_fields := map (\<lambda>(n, v). (n, strip_field v)) (r_fields r)\<rparr>"

text \<open>\<open>None\<close> is the panic of \<open>v.Interface()\<close> on a field the struct does not have.\<close>

fun key_parts :: "row \<Rightarrow> string list \<Rightarrow> string list option" where
  "key_parts r [] = Some []"
| "key_parts r (n # ns) =
     (case FieldByName r n of None \<Rightarrow> None
      | Some v \<Rightarrow> map_option (\<lambda>ss. if print_v v \<noteq> [] then print_v v # ss else ss) (key_parts r ns))"

definition getKeyValue :: "row \<Rightarrow> string list \<Rightarrow> string option" where
  "getKeyValue r primaryKey = map_option (strings_join '':'') (key_parts r primaryKey)"

text \<open>The primary key as the database compares it.\<close>

definition row_pk :: "row \<Rightarrow> fval option list" where
  "row_pk r = map (FieldByName r) (st_primary (r_type r))"

section \<open>The batch\<close>

text \<open>Where a statement writes: the table named by \<open>dal.From\<close>, or the table of the type.\<close>

datatype target = FromTable string | TypeTable slot_type

type_synonym 'db store_fn = "target \<Rightarrow> row list \<Rightarrow> 'db \<Rightarrow> goerr option \<times> 'db"

record batch_save =
  bs_type :: slot_type
  bs_slots :: "row option list"
  bs_current :: nat
  bs_size :: nat
  bs_index :: "string \<rightharpoonup> nat"
  bs_table :: string

datatype bs_result = BsOk | BsErr goerr | BsPanic

definition NewBatchSave :: "slot_type \<Rightarrow> nat \<Rightarrow> string list \<Rightarrow> goerr + batch_save" where
  "NewBatchSave t sz tableName =
     (if \<not> st_ptr t then Inl (New Default ''slotType must be a pointer'')
      else if st_primary t = [] then Inl (New Default (st_name t @ '' no primary key''))
      else Inr \<lparr>bs_type = t, bs_slots = replicate sz None, bs_current = 0, bs_size = sz,
                bs_index = Map.empty, bs_table = (if length tableName = 1 then hd tableName else [])\<rparr>)"

definition bs_target :: "batch_save \<Rightarrow> target" where
  "bs_target c = (if bs_table c \<noteq> [] then FromTable (bs_table c) else TypeTable (bs_type c))"

definition bs_cached :: "batch_save \<Rightarrow> row list" where
  "bs_cached c = map the (take (bs_current c) (bs_slots c))"

definition Flush :: "'db store_fn \<Rightarrow> batch_save \<Rightarrow> 'db \<Rightarrow> bs_result \<times> batch_save \<times> 'db" where
  "Flush store c db =
     (if bs_current c = 0 then (BsOk, c, db)
      else (case store (bs_target c) (bs_cached c) db of
              (Some e, db') \<Rightarrow> (BsErr e, c, db')
            | (None, db') \<Rightarrow> (BsOk, c\<lparr>bs_current := 0, bs_index := Map.empty\<rparr>, db')))"

definition bs_append :: "'db store_fn \<Rightarrow> row \<Rightarrow> batch_save \<Rightarrow> 'db \<Rightarrow> bs_result \<times> batch_save \<times> 'db" where
  "bs_append store slot c db =
     (if bs_current c < length (bs_slots c)
      then let c' = c\<lparr>bs_slots := (bs_slots c)[bs_current c := Some slot],
                      bs_current := bs_current c + 1\<rparr>
           in if bs_current c' = bs_size c' then Flush store c' db else (BsOk, c', db)
      else (BsPanic, c, db))"

definition Add :: "'db store_fn \<Rightarrow> row \<Rightarrow> batch_save \<Rightarrow> 'db \<Rightarrow> bs_result \<times> batch_save \<times> 'db" where
  "Add store slot c db =
     (if r_type slot \<noteq> bs_type c then (BsErr (New Default ''sub cache type mismatched''), c, db)
      else if \<not> st_ptr (r_type slot) then (BsErr (New Default ''slot is not a pointer''), c, db)
      else let slot' = stripZeroByte slot in
        case getKeyValue slot' (st_primary (bs_type c)) of
          None \<Rightarrow> (BsPanic, c, db)
        | Some key \<Rightarrow>
            if key = [] then bs_append store slot' c db
            else (case bs_index c key of
                    None \<Rightarrow> bs_append store slot' (c\<lparr>bs_index := (bs_index c)(key \<mapsto> bs_current c)\<rparr>) db
                  | Some i \<Rightarrow> (BsOk, c\<lparr>bs_slots := (bs_slots c)[i := Some slot']\<rparr>, db)))"

definition bs_close :: "'db store_fn \<Rightarrow> batch_save \<Rightarrow> 'db \<Rightarrow> bs_result \<times> batch_save \<times> 'db" where
  "bs_close store c db = (if bs_current c > 0 then Flush store c db else (BsOk, c, db))"

text \<open>A caller adds rows until one fails.\<close>

primrec add_all :: "'db store_fn \<Rightarrow> row list \<Rightarrow> batch_save \<Rightarrow> 'db \<Rightarrow> bs_result \<times> batch_save \<times> 'db" where
  "add_all store [] c db = (BsOk, c, db)"
| "add_all store (r # rs) c db =
     (case Add store r c db of
        (BsOk, c', db') \<Rightarrow> add_all store rs c' db'
      | failed \<Rightarrow> failed)"

section \<open>Upserts\<close>

type_synonym table_view = "fval option list \<rightharpoonup> row"

definition upserts :: "row list \<Rightarrow> table_view \<Rightarrow> table_view" where
  "upserts rs m = fold (\<lambda>r m. m(row_pk r \<mapsto> r)) rs m"

lemma upserts_simps [simp]:
  "upserts [] m = m" "upserts (r # rs) m = upserts rs (m(row_pk r \<mapsto> r))"
  "upserts (rs @ rs') m = upserts rs' (upserts rs m)"
  by (simp_all add: upserts_def)

lemma upserts_commute:
  "k \<notin> row_pk ` set rs \<Longrightarrow> upserts rs (m(k \<mapsto> r)) = (upserts rs m)(k \<mapsto> r)"
proof (induction rs arbitrary: m)
  case (Cons a rs)
  then have "k \<noteq> row_pk a" and notin: "k \<notin> row_pk ` set rs" by simp_all
  then have "m(k \<mapsto> r, row_pk a \<mapsto> a) = m(row_pk a \<mapsto> a, k \<mapsto> r)" by (intro fun_upd_twist)
  then show ?case by (simp only: upserts_simps Cons.IH [OF notin])
qed simp

lemma upserts_replace:
  assumes "distinct (map row_pk rs)" "i < length rs" "row_pk (rs ! i) = row_pk r"
  shows "upserts (rs[i := r]) m = (upserts rs m)(row_pk r \<mapsto> r)"
proof -
  have split: "rs = take i rs @ rs ! i # drop (Suc i) rs" by (rule id_take_nth_drop [OF assms(2)])
  have notin: "row_pk r \<notin> row_pk ` set (drop (Suc i) rs)"
  proof -
    have "distinct (map row_pk (take i rs @ rs ! i # drop (Suc i) rs))" using assms(1) split by simp
    then show ?thesis using assms(3) by auto
  qed
  have "upserts (rs[i := r]) m = (upserts (drop (Suc i) rs) (upserts (take i rs) m))(row_pk r \<mapsto> r)"
    using upserts_commute [OF notin] by (simp add: upd_conv_take_nth_drop [OF assms(2)])
  moreover have "upserts rs m = (upserts (drop (Suc i) rs) (upserts (take i rs) m))(row_pk r \<mapsto> rs ! i)"
    using upserts_commute [OF notin] assms(3) by (subst split) simp
  ultimately show ?thesis by simp
qed

text \<open>What the batch relies on: a statement on rows with different keys inserts or replaces them all, or
  fails and leaves the tables as they were. Nothing is assumed of a statement with two rows of one
  key, which some databases refuse.\<close>

locale upsert_store =
  fixes store :: "'db store_fn"
    and look :: "'db \<Rightarrow> target \<Rightarrow> table_view"
  assumes store_ok: "distinct (map row_pk rs) \<Longrightarrow> store t rs db = (None, db') \<Longrightarrow> look db' = (look db)(t := upserts rs (look db t))"
    and store_err: "store t rs db = (Some e, db') \<Longrightarrow> look db' = look db"

section \<open>Keys\<close>

text \<open>The text of the key tells two rows apart exactly when the database does.\<close>

definition row_key :: "row \<Rightarrow> string option" where
  "row_key r = getKeyValue r (st_primary (r_type r))"

definition keys_separate :: "row list \<Rightarrow> bool" where
  "keys_separate rs \<longleftrightarrow>
     (\<forall>r \<in> set rs. \<exists>k. k \<noteq> [] \<and> row_key r = Some k)
     \<and> (\<forall>r \<in> set rs. \<forall>r' \<in> set rs. r_type r = r_type r' \<longrightarrow>
         (row_key r = row_key r' \<longleftrightarrow> row_pk r = row_pk r'))"

lemma strings_join_inject:
  assumes "\<forall>x \<in> set xs. c \<notin> set x" "\<forall>x \<in> set ys. c \<notin> set x" "length xs = length ys"
    "strings_join [c] xs = strings_join [c] ys"
  shows "xs = ys"
  using assms
proof (induction xs arbitrary: ys rule: induct_list012)
  case (2 x)
  then show ?case by (cases ys rule: list.exhaust [case_product list.exhaust]) (auto simp: Suc_length_conv)
next
  case (3 x y zs)
  from "3.prems"(3) obtain x' y' zs' where ys: "ys = x' # y' # zs'" by (cases ys) (auto simp: Suc_length_conv)
  from "3.prems" ys have "x @ c # strings_join [c] (y # zs) = x' @ c # strings_join [c] (y' # zs')"
    by simp
  then have "x = x' \<and> strings_join [c] (y # zs) = strings_join [c] (y' # zs')"
    using "3.prems"(1,2) ys by (intro append_sep_inject) auto
  with "3.IH"(2) [of "y' # zs'"] "3.prems" ys show ?case by simp
qed simp

lemma show_int_inj: "show_int a = show_int b \<Longrightarrow> a = b"
proof -
  assume eq: "show_int a = show_int b"
  have minus: "CHR ''-'' \<notin> set (show_nat n)" for n
    by (auto dest!: show_nat_digits simp: is_digit_def)
  have "a < 0 \<longleftrightarrow> b < 0"
    using eq minus by (auto simp: show_int_def split: if_splits) (metis list.set_intros(1))+
  with eq show "a = b" by (auto simp: show_int_def split: if_splits)
qed

fun same_kind :: "fval \<Rightarrow> fval \<Rightarrow> bool" where
  "same_kind (FStr _) (FStr _) = True"
| "same_kind (FNum _) (FNum _) = True"
| "same_kind (FOther _) (FOther _) = True"
| "same_kind _ _ = False"

lemma print_v_inj: "same_kind v w \<Longrightarrow> print_v v = print_v w \<Longrightarrow> v = w"
  by (cases "(v, w)" rule: same_kind.cases) (auto dest: show_int_inj)

definition plain_value :: "fval option \<Rightarrow> bool" where
  "plain_value v \<longleftrightarrow> (case v of None \<Rightarrow> False | Some w \<Rightarrow> print_v w \<noteq> [] \<and> CHR '':'' \<notin> set (print_v w))"

lemma key_parts_plain:
  "list_all (\<lambda>n. plain_value (FieldByName r n)) ns \<Longrightarrow>
    key_parts r ns = Some (map (\<lambda>n. print_v (the (FieldByName r n))) ns)"
  by (induction ns) (auto simp: plain_value_def split: option.splits)

lemma strings_join_nonempty: "xs \<noteq> [] \<Longrightarrow> \<forall>x \<in> set xs. x \<noteq> [] \<Longrightarrow> strings_join sep xs \<noteq> []"
  by (cases xs rule: remdups_adj.cases) auto

lemma plain_keys_separate:
  assumes "\<And>r. r \<in> set rs \<Longrightarrow> st_primary (r_type r) \<noteq> []
      \<and> list_all (\<lambda>n. plain_value (FieldByName r n)) (st_primary (r_type r))"
    and "\<And>r r' n. r \<in> set rs \<Longrightarrow> r' \<in> set rs \<Longrightarrow> r_type r = r_type r' \<Longrightarrow>
      n \<in> set (st_primary (r_type r)) \<Longrightarrow> same_kind (the (FieldByName r n)) (the (FieldByName r' n))"
  shows "keys_separate rs"
proof -
  define texts where "texts r = map (\<lambda>n. print_v (the (FieldByName r n))) (st_primary (r_type r))" for r
  have key: "row_key r = Some (strings_join '':'' (texts r))"
    and plain: "\<forall>x \<in> set (texts r). x \<noteq> [] \<and> CHR '':'' \<notin> set x"
    and nonempty: "texts r \<noteq> []"
    and some: "\<And>n. n \<in> set (st_primary (r_type r)) \<Longrightarrow> \<exists>v. FieldByName r n = Some v"
    if "r \<in> set rs" for r
    using assms(1) [OF that] key_parts_plain [of r "st_primary (r_type r)"]
    by (auto simp: row_key_def getKeyValue_def texts_def list_all_iff plain_value_def split: option.splits)
  have "strings_join '':'' (texts r) = strings_join '':'' (texts r') \<longleftrightarrow> row_pk r = row_pk r'"
    if r: "r \<in> set rs" "r' \<in> set rs" "r_type r = r_type r'" for r r'
  proof
    assume "strings_join '':'' (texts r) = strings_join '':'' (texts r')"
    then have "texts r = texts r'"
      using plain r by (intro strings_join_inject) (auto simp: texts_def)
    then have the_eq: "the (FieldByName r n) = the (FieldByName r' n)" if "n \<in> set (st_primary (r_type r))" for n
      using that r(3) print_v_inj [OF assms(2) [OF r that]] by (auto simp: texts_def)
    have "FieldByName r n = FieldByName r' n" if n: "n \<in> set (st_primary (r_type r'))" for n
    proof -
      have "n \<in> set (st_primary (r_type r))" using n r(3) by simp
      then obtain v v' where "FieldByName r n = Some v" "FieldByName r' n = Some v'"
        using some [OF r(1), of n] some [OF r(2) n] by blast
      then show ?thesis using the_eq [OF \<open>n \<in> set (st_primary (r_type r))\<close>] by simp
    qed
    then show "row_pk r = row_pk r'" by (simp add: row_pk_def r(3))
  next
    assume "row_pk r = row_pk r'"
    then have "texts r = texts r'" using r(3) by (auto simp: row_pk_def texts_def)
    then show "strings_join '':'' (texts r) = strings_join '':'' (texts r')" by simp
  qed
  moreover have "strings_join '':'' (texts r) \<noteq> []" if "r \<in> set rs" for r
    using plain [OF that] nonempty [OF that] by (intro strings_join_nonempty) auto
  ultimately show ?thesis by (simp add: keys_separate_def key)
qed

section \<open>The invariant of a batch\<close>

definition bs_inv :: "batch_save \<Rightarrow> bool" where
  "bs_inv c \<longleftrightarrow> length (bs_slots c) = bs_size c \<and> bs_current c < bs_size c
     \<and> (\<forall>i < bs_current c. \<exists>r. bs_slots c ! i = Some r \<and> r_type r = bs_type c)
     \<and> (\<forall>k i. k \<noteq> [] \<longrightarrow> bs_index c k = Some i \<longleftrightarrow>
          i < bs_current c \<and> row_key (the (bs_slots c ! i)) = Some k)"

lemma NewBatchSave_inv: "NewBatchSave t n tn = Inr c \<Longrightarrow> 0 < n \<Longrightarrow> bs_inv c \<and> bs_cached c = []"
  by (auto simp: NewBatchSave_def bs_inv_def bs_cached_def split: if_splits)

lemma bs_cached_nth: "bs_inv c \<Longrightarrow> i < bs_current c \<Longrightarrow> bs_cached c ! i = the (bs_slots c ! i)"
  by (simp add: bs_cached_def bs_inv_def)

lemma length_bs_cached: "bs_inv c \<Longrightarrow> length (bs_cached c) = bs_current c"
  by (simp add: bs_cached_def bs_inv_def)

lemma bs_cached_keys_distinct:
  assumes "bs_inv c" "i < bs_current c" "j < bs_current c" "k \<noteq> []"
    "row_key (bs_cached c ! i) = Some k" "row_key (bs_cached c ! j) = Some k"
  shows "i = j"
proof -
  have "bs_index c k = Some i" "bs_index c k = Some j"
    using assms by (simp_all add: bs_inv_def bs_cached_nth [OF assms(1)])
  then show ?thesis by simp
qed

lemma row_key_nonempty_Some: "keys_separate rs \<Longrightarrow> r \<in> set rs \<Longrightarrow> \<exists>k. k \<noteq> [] \<and> row_key r = Some k"
  by (simp add: keys_separate_def)

lemma keys_separateD:
  "keys_separate rs \<Longrightarrow> r \<in> set rs \<Longrightarrow> r' \<in> set rs \<Longrightarrow> r_type r = r_type r' \<Longrightarrow>
    row_key r = row_key r' \<longleftrightarrow> row_pk r = row_pk r'"
  by (simp add: keys_separate_def)

lemma keys_separate_mono: "keys_separate rs \<Longrightarrow> set rs' \<subseteq> set rs \<Longrightarrow> keys_separate rs'"
  by (simp add: keys_separate_def subset_iff)

text \<open>The rows of a batch that holds rows of separate keys have different primary keys, which is what
  makes one statement for all of them possible.\<close>

lemma bs_cached_type: "bs_inv c \<Longrightarrow> r \<in> set (bs_cached c) \<Longrightarrow> r_type r = bs_type c"
  by (auto simp: in_set_conv_nth length_bs_cached bs_cached_nth) (auto simp: bs_inv_def)

lemma bs_cached_distinct:
  assumes "bs_inv c" "keys_separate (bs_cached c)"
  shows "distinct (map row_pk (bs_cached c))"
proof (simp add: distinct_conv_nth length_bs_cached [OF assms(1)], intro allI impI notI)
  fix i j
  assume ij: "i < bs_current c" "j < bs_current c" "i \<noteq> j"
    and eq: "row_pk (bs_cached c ! i) = row_pk (bs_cached c ! j)"
  have "bs_cached c ! i \<in> set (bs_cached c)" "bs_cached c ! j \<in> set (bs_cached c)"
    using ij by (simp_all add: length_bs_cached [OF assms(1)])
  moreover from this have "row_key (bs_cached c ! i) = row_key (bs_cached c ! j)"
    using keys_separateD [OF assms(2)] eq bs_cached_type [OF assms(1)] by metis
  moreover obtain k where "k \<noteq> []" "row_key (bs_cached c ! i) = Some k"
    using row_key_nonempty_Some [OF assms(2)] calculation by blast
  ultimately show False using bs_cached_keys_distinct [OF assms(1) ij(1,2)] ij(3) by metis
qed

lemma bs_inv_replace:
  assumes "bs_inv c" "bs_index c k = Some i" "k \<noteq> []" "row_key r = Some k" "r_type r = bs_type c"
  shows "bs_inv (c\<lparr>bs_slots := (bs_slots c)[i := Some r]\<rparr>)
    \<and> bs_cached (c\<lparr>bs_slots := (bs_slots c)[i := Some r]\<rparr>) = (bs_cached c)[i := r]
    \<and> i < bs_current c \<and> row_key (bs_cached c ! i) = Some k"
proof -
  have i: "i < bs_current c" "row_key (the (bs_slots c ! i)) = Some k"
    using assms by (simp_all add: bs_inv_def)
  have "bs_inv (c\<lparr>bs_slots := (bs_slots c)[i := Some r]\<rparr>)"
    using assms i by (auto simp: bs_inv_def nth_list_update)
  then show ?thesis using i assms(1) by (simp add: bs_cached_def take_update_swap map_update bs_inv_def)
qed

lemma bs_inv_append:
  assumes "bs_inv c" "bs_index c k = None" "k \<noteq> []" "row_key r = Some k" "r_type r = bs_type c"
    and c': "c' = c\<lparr>bs_index := (bs_index c)(k \<mapsto> bs_current c),
      bs_slots := (bs_slots c)[bs_current c := Some r], bs_current := bs_current c + 1\<rparr>"
  shows "bs_cached c' = bs_cached c @ [r]" "bs_current c' < bs_size c' \<Longrightarrow> bs_inv c'"
proof -
  have len: "bs_current c < length (bs_slots c)" using assms(1) by (simp add: bs_inv_def)
  show "bs_cached c' = bs_cached c @ [r]"
    using len by (simp add: c' bs_cached_def take_Suc_conv_app_nth)
  assume "bs_current c' < bs_size c'"
  moreover have "row_key (the (bs_slots c ! i)) \<noteq> Some k" if "i < bs_current c" for i
    using assms(1-3) that by (auto simp: bs_inv_def)
  ultimately show "bs_inv c'"
    using assms(1,4,5) len unfolding bs_inv_def c'
    by (auto simp: nth_list_update less_Suc_eq)
qed

definition batch_view :: "('db \<Rightarrow> target \<Rightarrow> table_view) \<Rightarrow> batch_save \<Rightarrow> 'db \<Rightarrow> target \<Rightarrow> table_view" where
  "batch_view look c db = (look db)(bs_target c := upserts (bs_cached c) (look db (bs_target c)))"

lemma strip_type [simp]: "r_type (stripZeroByte r) = r_type r"
  by (simp add: stripZeroByte_def)

lemma Add_cases:
  assumes "r_type r = bs_type c" "st_ptr (r_type r)" "row_key (stripZeroByte r) = Some k" "k \<noteq> []"
  shows "Add store r c db =
    (case bs_index c k of
       None \<Rightarrow> bs_append store (stripZeroByte r) (c\<lparr>bs_index := (bs_index c)(k \<mapsto> bs_current c)\<rparr>) db
     | Some i \<Rightarrow> (BsOk, c\<lparr>bs_slots := (bs_slots c)[i := Some (stripZeroByte r)]\<rparr>, db))"
  using assms by (simp add: Add_def row_key_def Let_def)

lemma Add_ok_typed: "Add store r c db = (BsOk, c', db') \<Longrightarrow> r_type r = bs_type c \<and> st_ptr (r_type r)"
  by (auto simp: Add_def split: if_splits)

context upsert_store begin

lemma Flush_ok:
  assumes "Flush store c db = (BsOk, c', db')" "distinct (map row_pk (bs_cached c))"
  shows "c' = c \<and> bs_current c = 0 \<and> db' = db
      \<or> c' = c\<lparr>bs_current := 0, bs_index := Map.empty\<rparr>"
    and "look db' = batch_view look c db" "bs_cached c' = []"
  using assms store_ok by (auto simp: Flush_def batch_view_def bs_cached_def split: if_splits prod.splits option.splits)

lemma Add_ok:
  assumes inv: "bs_inv c" and sep: "keys_separate (bs_cached c @ [stripZeroByte r])"
    and add: "Add store r c db = (BsOk, c', db')"
  shows "bs_inv c'" and "bs_target c' = bs_target c"
    and "set (bs_cached c') \<subseteq> set (bs_cached c) \<union> {stripZeroByte r}"
    and "batch_view look c' db' = (batch_view look c db)(bs_target c :=
      (batch_view look c db (bs_target c))(row_pk (stripZeroByte r) \<mapsto> stripZeroByte r))"
proof -
  define s where "s = stripZeroByte r"
  obtain k where k: "k \<noteq> []" "row_key s = Some k"
    using row_key_nonempty_Some [OF sep, of s] by (auto simp: s_def)
  have ty: "r_type s = bs_type c" "r_type r = bs_type c" "st_ptr (r_type r)"
    using Add_ok_typed [OF add] by (auto simp: s_def)
  have cases: "(case bs_index c k of
       None \<Rightarrow> bs_append store s (c\<lparr>bs_index := (bs_index c)(k \<mapsto> bs_current c)\<rparr>) db
     | Some i \<Rightarrow> (BsOk, c\<lparr>bs_slots := (bs_slots c)[i := Some s]\<rparr>, db)) = (BsOk, c', db')"
    using Add_cases [OF ty(2,3), of k store db] k add unfolding s_def by simp
  have dist: "distinct (map row_pk (bs_cached c))"
    using bs_cached_distinct [OF inv] keys_separate_mono [OF sep] by auto
  have "bs_inv c' \<and> bs_target c' = bs_target c \<and> set (bs_cached c') \<subseteq> set (bs_cached c) \<union> {s} \<and>
    batch_view look c' db' =
      (batch_view look c db)(bs_target c := (batch_view look c db (bs_target c))(row_pk s \<mapsto> s))"
  proof (cases "bs_index c k")
    case (Some i)
    note rep = bs_inv_replace [OF inv Some k(1,2) ty(1)]
    have c': "c' = c\<lparr>bs_slots := (bs_slots c)[i := Some s]\<rparr>" "db' = db" using cases Some by simp_all
    have mem: "bs_cached c ! i \<in> set (bs_cached c)" using rep by (simp add: length_bs_cached [OF inv])
    have "row_pk (bs_cached c ! i) = row_pk s"
      using keys_separateD [OF sep, of "bs_cached c ! i" s] rep k mem ty(1) bs_cached_type [OF inv mem]
      by (simp add: s_def)
    then have "upserts ((bs_cached c)[i := s]) m = (upserts (bs_cached c) m)(row_pk s \<mapsto> s)" for m
      using rep by (intro upserts_replace [OF dist]) (simp_all add: length_bs_cached [OF inv])
    then show ?thesis using rep c' set_update_subset_insert [of "bs_cached c" i s]
      by (auto simp: batch_view_def bs_target_def)
  next
    case None
    define c1 where "c1 = c\<lparr>bs_index := (bs_index c)(k \<mapsto> bs_current c),
      bs_slots := (bs_slots c)[bs_current c := Some s], bs_current := bs_current c + 1\<rparr>"
    note app = bs_inv_append [OF inv None k(1,2) ty(1) c1_def]
    have tgt: "bs_target c1 = bs_target c" by (simp add: c1_def bs_target_def)
    have view: "batch_view look c1 db =
        (batch_view look c db)(bs_target c := (batch_view look c db (bs_target c))(row_pk s \<mapsto> s))"
      by (simp add: batch_view_def tgt app(1))
    have len: "bs_current c < length (bs_slots c)" using inv by (simp add: bs_inv_def)
    have step: "(if bs_current c1 = bs_size c1 then Flush store c1 db else (BsOk, c1, db)) = (BsOk, c', db')"
      using cases None len by (auto simp: bs_append_def Let_def c1_def split: if_splits)
    show ?thesis
    proof (cases "bs_current c1 = bs_size c1")
      case False
      then have "bs_current c1 < bs_size c1" using inv by (simp add: c1_def bs_inv_def)
      with False step app view tgt show ?thesis by auto
    next
      case True
      have "row_pk s \<notin> row_pk ` set (bs_cached c)"
      proof
        assume "row_pk s \<in> row_pk ` set (bs_cached c)"
        then obtain i where i: "i < bs_current c" "row_pk (bs_cached c ! i) = row_pk s"
          by (auto simp: in_set_conv_nth length_bs_cached [OF inv])
        then have mem: "bs_cached c ! i \<in> set (bs_cached c)" by (simp add: length_bs_cached [OF inv])
        then have "row_key (bs_cached c ! i) = Some k"
          using keys_separateD [OF sep, of "bs_cached c ! i" s] i k bs_cached_type [OF inv mem] ty(1)
          by (simp add: s_def)
        then have "bs_index c k = Some i"
          using inv i k by (simp add: bs_inv_def bs_cached_nth [OF inv])
        with None show False by simp
      qed
      then have "distinct (map row_pk (bs_cached c1))" using dist app(1) by simp
      from Flush_ok [OF _ this] True step
      have fl: "look db' = batch_view look c1 db" "bs_cached c' = []"
        "c' = c1\<lparr>bs_current := 0, bs_index := Map.empty\<rparr>" by (auto simp: c1_def)
      then have "bs_inv c'" "bs_target c' = bs_target c"
        using inv by (auto simp: bs_inv_def c1_def bs_target_def)
      moreover have "batch_view look c' db' = look db'" by (simp add: batch_view_def fl(2))
      ultimately show ?thesis using fl(1,2) view by simp
    qed
  qed
  then show "bs_inv c'" and "bs_target c' = bs_target c"
    and "set (bs_cached c') \<subseteq> set (bs_cached c) \<union> {stripZeroByte r}"
    and "batch_view look c' db' = (batch_view look c db)(bs_target c :=
      (batch_view look c db (bs_target c))(row_pk (stripZeroByte r) \<mapsto> stripZeroByte r))"
    by (simp_all add: s_def)
qed

lemma add_all_ok:
  assumes "bs_inv c" "keys_separate (bs_cached c @ map stripZeroByte rs)"
    "add_all store rs c db = (BsOk, c', db')"
  shows "bs_inv c' \<and> bs_target c' = bs_target c \<and> keys_separate (bs_cached c') \<and>
    batch_view look c' db' = (batch_view look c db)(bs_target c :=
      upserts (map stripZeroByte rs) (batch_view look c db (bs_target c)))"
  using assms
proof (induction rs arbitrary: c db)
  case Nil
  then show ?case by simp
next
  case (Cons r rs)
  obtain c1 db1 where add: "Add store r c db = (BsOk, c1, db1)"
    and rest: "add_all store rs c1 db1 = (BsOk, c', db')"
    using Cons.prems(3) by (auto split: prod.splits bs_result.splits)
  have "keys_separate (bs_cached c @ [stripZeroByte r])"
    by (rule keys_separate_mono [OF Cons.prems(2)]) auto
  note one = Add_ok [OF Cons.prems(1) this add]
  have "keys_separate (bs_cached c1 @ map stripZeroByte rs)"
    using one(3) by (intro keys_separate_mono [OF Cons.prems(2)]) auto
  note IH = Cons.IH [OF one(1) this rest]
  from IH have "batch_view look c' db' = (batch_view look c db)(bs_target c :=
      upserts (map stripZeroByte (r # rs)) (batch_view look c db (bs_target c)))"
    by (simp only: one(2,4) upserts_simps list.map fun_upd_upd fun_upd_same)
  with IH one(2) show ?case by simp
qed

lemma close_ok:
  assumes "bs_inv c" "keys_separate (bs_cached c)" "bs_close store c db = (BsOk, c', db')"
  shows "look db' = batch_view look c db"
proof (cases "bs_current c = 0")
  case True
  then show ?thesis using assms(3) by (simp add: bs_close_def batch_view_def bs_cached_def)
next
  case False
  then show ?thesis
    using Flush_ok(2) [OF _ bs_cached_distinct [OF assms(1,2)]] assms(3) by (simp add: bs_close_def)
qed

end

section \<open>A store in memory\<close>

text \<open>The laws hold of tables kept as functions, where a statement fails when it has two rows of one key,
  as PostgreSQL does, or when the number of statements left is used up.\<close>

type_synonym mem_db = "nat \<times> (target \<Rightarrow> table_view)"

definition mem_store :: "mem_db store_fn" where
  "mem_store t rs = (\<lambda>(n, m).
     if n = 0 then (Some (External ''connection lost''), (n, m))
     else if \<not> distinct (map row_pk rs)
     then (Some (External ''ON CONFLICT DO UPDATE command cannot affect row a second time''), (n - 1, m))
     else (None, (n - 1, m(t := upserts rs (m t)))))"

interpretation mem: upsert_store mem_store snd
  by unfold_locales (auto simp: mem_store_def split: if_splits prod.splits)

section \<open>What a batch saves\<close>

text \<open>C19. Saving in batches is saving one by one: if all the \<open>Add\<close>s and the \<open>Close\<close> return nil and the key texts
  tell the rows apart as the database does, then the table ends up exactly as if each row, without
  zero bytes, had been inserted or updated on its own in that order, whatever the batch size and
  wherever the flushes fell. No statement had two rows of one primary key.\<close>

theorem batch_save_upserts:
  assumes "upsert_store store look" and "NewBatchSave t n tableName = Inr c" and "0 < n"
    and "keys_separate (map stripZeroByte rs)"
    and "add_all store rs c db = (BsOk, c1, db1)" and "bs_close store c1 db1 = (BsOk, c2, db2)"
  shows "look db2 = (look db)(bs_target c := upserts (map stripZeroByte rs) (look db (bs_target c)))"
proof -
  have new: "bs_inv c" "bs_cached c = []" using NewBatchSave_inv [OF assms(2,3)] by simp_all
  with assms(4) have "keys_separate (bs_cached c @ map stripZeroByte rs)" by simp
  note run = upsert_store.add_all_ok [OF assms(1) new(1) this assms(5)]
  have "batch_view look c db = look db" by (simp add: batch_view_def new(2))
  with run have "batch_view look c1 db1 =
      (look db)(bs_target c := upserts (map stripZeroByte rs) (look db (bs_target c)))" by (simp only:)
  with run show ?thesis using upsert_store.close_ok [OF assms(1) _ _ assms(6)] by (simp only:)
qed

definition sample_type :: slot_type where
  "sample_type = \<lparr>st_name = ''*models.Sample'', st_elem = ''Sample'', st_ptr = True, st_primary = [''A'', ''B''], st_origin = True\<rparr>"

definition no_origin :: RawDataOrigin where
  "no_origin = \<lparr>RawDataParams = [], RawDataTable = [], RawDataId = 0, RawDataRemark = []\<rparr>"

definition sample_row :: "string \<Rightarrow> string \<Rightarrow> int \<Rightarrow> row" where
  "sample_row a b v = \<lparr>r_type = sample_type, r_fields = [(''A'', FStr a), (''B'', FStr b), (''V'', FNum v)],
     r_embedded = [], r_origin = no_origin\<rparr>"

lemmas samples = sample_row_def sample_type_def no_origin_def

theorem batch_save_upserts_witness:
  "\<exists>c1 db1 c2 db2. NewBatchSave sample_type 2 [] = Inr c1 \<and>
    add_all mem_store [sample_row ''x'' ''1'' 5, sample_row ''x'' ''1'' 6, sample_row ''y'' ''1'' 7] c1
      (9, \<lambda>_. Map.empty) = (BsOk, c2, db1) \<and>
    snd db2 = (\<lambda>_. Map.empty)(TypeTable sample_type := upserts
      [sample_row ''x'' ''1'' 5, sample_row ''x'' ''1'' 6, sample_row ''y'' ''1'' 7] Map.empty)"
proof -
  define rs where "rs = [sample_row ''x'' ''1'' 5, sample_row ''x'' ''1'' 6, sample_row ''y'' ''1'' 7]"
  have strip: "map stripZeroByte rs = rs"
    by (simp add: rs_def samples stripZeroByte_def strip_nul_def)
  obtain c1 where c1: "NewBatchSave sample_type 2 [] = Inr c1" "bs_target c1 = TypeTable sample_type"
    by (auto simp: NewBatchSave_def sample_type_def bs_target_def)
  have sep: "keys_separate (map stripZeroByte rs)"
    unfolding strip
    by (rule plain_keys_separate) (auto simp: rs_def samples FieldByName_def plain_value_def)
  obtain r c2 db1 where run: "add_all mem_store rs c1 (9, \<lambda>_. Map.empty) = (r, c2, db1)"
    by (cases "add_all mem_store rs c1 (9, \<lambda>_. Map.empty)")
  have c1_eq: "c1 = \<lparr>bs_type = sample_type, bs_slots = [None, None], bs_current = 0, bs_size = 2,
      bs_index = Map.empty, bs_table = []\<rparr>"
    using c1(1) by (auto simp: NewBatchSave_def sample_type_def numeral_2_eq_2)
  have "fst (add_all mem_store rs c1 (9, \<lambda>_. Map.empty)) = BsOk"
    "fst (bs_close mem_store (fst (snd (add_all mem_store rs c1 (9, \<lambda>_. Map.empty))))
       (snd (snd (add_all mem_store rs c1 (9, \<lambda>_. Map.empty))))) = BsOk"
    unfolding c1_eq rs_def by (code_simp, code_simp)
  then have "r = BsOk \<and> (\<exists>c3 db2. bs_close mem_store c2 db1 = (BsOk, c3, db2))"
    using run by (cases "bs_close mem_store c2 db1") simp
  then obtain c3 db2 where "r = BsOk" "bs_close mem_store c2 db1 = (BsOk, c3, db2)" by blast
  with batch_save_upserts [OF mem.upsert_store_axioms c1(1) _ sep, of "(9, \<lambda>_. Map.empty)" c2 db1 c3 db2]
    run c1 strip
  show ?thesis by (simp add: rs_def)
qed

text \<open>The key text does not always tell rows apart: it skips empty fields and joins the others with a
  colon that they may contain. Two rows of different primary keys with one key text share a slot,
  so the first of them is never written although every call returns nil.\<close>

theorem batch_key_collision:
  assumes "NewBatchSave t n tableName = Inr c" and "2 \<le> n" and "r_type r1 = t" and "r_type r2 = t"
    and "row_key (stripZeroByte r1) = Some k" and "row_key (stripZeroByte r2) = Some k" and "k \<noteq> []"
  shows "\<exists>c'. add_all store [r1, r2] c db = (BsOk, c', db) \<and> bs_cached c' = [stripZeroByte r2] \<and>
    bs_close store c' db = Flush store c' db"
proof -
  have c: "bs_type c = t" "st_ptr t" "bs_slots c = replicate n None" "bs_current c = 0" "bs_size c = n"
    "bs_index c = Map.empty"
    using assms(1) by (auto simp: NewBatchSave_def split: if_splits)
  define c1 where "c1 = c\<lparr>bs_index := [k \<mapsto> 0], bs_slots := (replicate n None)[0 := Some (stripZeroByte r1)],
    bs_current := 1\<rparr>"
  have "Add store r1 c db = (BsOk, c1, db)"
    using assms(2) c by (auto simp: Add_cases [of r1 c k] assms(3,5,7) bs_append_def Let_def c1_def)
  moreover have "Add store r2 c1 db =
      (BsOk, c1\<lparr>bs_slots := (replicate n None)[0 := Some (stripZeroByte r2)]\<rparr>, db)"
    using c by (subst Add_cases [of r2 c1 k]) (auto simp: assms c1_def)
  moreover have "take 1 ((replicate n None)[0 := Some (stripZeroByte r2)]) = [Some (stripZeroByte r2)]"
    using assms(2) by (cases n) auto
  ultimately show ?thesis by (simp add: bs_cached_def bs_close_def c1_def)
qed

theorem batch_key_collision_witness:
  "\<exists>c c'. NewBatchSave sample_type 2 [] = Inr c \<and>
    add_all mem_store [sample_row ''a:b'' ''c'' 5, sample_row ''a'' ''b:c'' 6] c (9, \<lambda>_. Map.empty)
      = (BsOk, c', (9, \<lambda>_. Map.empty)) \<and> bs_cached c' = [sample_row ''a'' ''b:c'' 6] \<and>
    row_pk (sample_row ''a:b'' ''c'' 5) \<noteq> row_pk (sample_row ''a'' ''b:c'' 6)"
proof -
  obtain c where c: "NewBatchSave sample_type 2 [] = Inr c"
    by (auto simp: NewBatchSave_def sample_type_def)
  have k: "row_key (stripZeroByte (sample_row ''a:b'' ''c'' 5)) = Some ''a:b:c''"
    "row_key (stripZeroByte (sample_row ''a'' ''b:c'' 6)) = Some ''a:b:c''"
    by (code_simp, code_simp)
  have "stripZeroByte (sample_row ''a'' ''b:c'' 6) = sample_row ''a'' ''b:c'' 6"
    by (simp add: stripZeroByte_def samples strip_nul_def)
  moreover have "row_pk (sample_row ''a:b'' ''c'' 5) \<noteq> row_pk (sample_row ''a'' ''b:c'' 6)"
    by code_simp
  ultimately show ?thesis
    using batch_key_collision [OF c _ _ _ k, of mem_store "(9, \<lambda>_. Map.empty)"] c
    by (auto simp: sample_row_def)
qed

text \<open>A failed flush loses nothing but leaves the batch full: when the statement of the \<open>Add\<close> that filled
  the batch fails, the error is returned, every cached row is kept and \<open>Flush\<close> can send the same
  statement again; but another \<open>Add\<close> of a row with a new key panics, out of the range of the slots,
  and the key it registered makes the next \<open>Add\<close> of that row panic too.\<close>

theorem failed_flush_keeps_batch:
  assumes "bs_inv c" and "r_type r = bs_type c" and "row_key (stripZeroByte r) = Some k" and "k \<noteq> []"
    and "Add store r c db = (BsErr e, c', db')" and "st_ptr (bs_type c)"
    and "r_type r2 = bs_type c" and "row_key (stripZeroByte r2) = Some k2" and "k2 \<noteq> []"
    and "bs_index c' k2 = None"
  shows "bs_cached c' = bs_cached c @ [stripZeroByte r] \<and>
    store (bs_target c) (bs_cached c') db = (Some e, db') \<and>
    (\<forall>db2. Flush store c' db2 = (case store (bs_target c) (bs_cached c') db2 of
       (Some e, db3) \<Rightarrow> (BsErr e, c', db3)
     | (None, db3) \<Rightarrow> (BsOk, c'\<lparr>bs_current := 0, bs_index := Map.empty\<rparr>, db3))) \<and>
    fst (Add store r2 c' db2) = BsPanic"
proof -
  note add = assms(5) [unfolded Add_cases [OF assms(2) assms(6) [folded assms(2)] assms(3,4)]]
  have None: "bs_index c k = None" using add by (auto split: option.splits)
  define c1 where "c1 = c\<lparr>bs_index := (bs_index c)(k \<mapsto> bs_current c),
      bs_slots := (bs_slots c)[bs_current c := Some (stripZeroByte r)], bs_current := bs_current c + 1\<rparr>"
  have len: "bs_current c < length (bs_slots c)" "length (bs_slots c) = bs_size c"
    using assms(1) by (simp_all add: bs_inv_def)
  have fl: "Flush store c1 db = (BsErr e, c', db')" and full: "bs_current c1 = bs_size c1"
    using add None len by (auto simp: bs_append_def Let_def c1_def split: if_splits)
  have tgt: "bs_target c1 = bs_target c" by (simp add: c1_def bs_target_def)
  have c': "c' = c1" and st: "store (bs_target c) (bs_cached c1) db = (Some e, db')"
    using fl tgt by (auto simp: Flush_def split: if_splits prod.splits option.splits)
  have cached: "bs_cached c1 = bs_cached c @ [stripZeroByte r]"
    using bs_inv_append(1) [OF assms(1) None assms(4,3) _ c1_def] assms(2) by simp
  have "bs_current c1 = length (bs_slots c1)" using full len by (simp add: c1_def)
  moreover have "r_type r2 = bs_type c1" "st_ptr (r_type r2)" using assms(6,7) by (simp_all add: c1_def)
  ultimately have "fst (Add store r2 c1 db2) = BsPanic"
    using assms(10) c' by (subst Add_cases [OF _ _ assms(8,9)]) (auto simp: bs_append_def)
  moreover have "bs_current c1 \<noteq> 0" by (simp add: c1_def)
  ultimately show ?thesis using c' st cached tgt by (auto simp: Flush_def)
qed

theorem failed_flush_keeps_batch_witness:
  "\<exists>c c'. NewBatchSave sample_type 1 [] = Inr c \<and>
    Add mem_store (sample_row ''a'' ''b'' 5) c (0, \<lambda>_. Map.empty)
      = (BsErr (External ''connection lost''), c', (0, \<lambda>_. Map.empty)) \<and>
    bs_cached c' = [sample_row ''a'' ''b'' 5] \<and>
    fst (Add mem_store (sample_row ''a'' ''c'' 5) c' (9, \<lambda>_. Map.empty)) = BsPanic"
proof -
  define c where "c = \<lparr>bs_type = sample_type, bs_slots = [None], bs_current = 0, bs_size = 1,
      bs_index = Map.empty, bs_table = []\<rparr>"
  define c' where "c' = \<lparr>bs_type = sample_type, bs_slots = [Some (sample_row ''a'' ''b'' 5)], bs_current = 1,
      bs_size = 1, bs_index = [''a:b'' \<mapsto> 0], bs_table = []\<rparr>"
  have new: "NewBatchSave sample_type 1 [] = Inr c" by (simp add: NewBatchSave_def c_def sample_type_def)
  have inv: "bs_inv c" using NewBatchSave_inv [OF new] by simp
  have keys: "row_key (stripZeroByte (sample_row ''a'' ''b'' 5)) = Some ''a:b''"
    "row_key (stripZeroByte (sample_row ''a'' ''c'' 5)) = Some ''a:c''" by (code_simp, code_simp)
  have ty: "r_type (sample_row ''a'' ''b'' 5) = bs_type c" "r_type (sample_row ''a'' ''c'' 5) = bs_type c"
    "st_ptr (bs_type c)" by (simp_all add: c_def samples)
  have strip: "stripZeroByte (sample_row ''a'' ''b'' 5) = sample_row ''a'' ''b'' 5"
    by (simp add: stripZeroByte_def samples strip_nul_def)
  have add: "Add mem_store (sample_row ''a'' ''b'' 5) c (0, \<lambda>_. Map.empty)
      = (BsErr (External ''connection lost''), c', (0, \<lambda>_. Map.empty))"
    using ty(3) by (subst Add_cases [OF ty(1) _ keys(1)])
      (auto simp: ty(1) strip c_def c'_def bs_append_def Flush_def mem_store_def)
  have "bs_index c' ''a:c'' = None" by (simp add: c'_def)
  from failed_flush_keeps_batch [OF inv ty(1) keys(1) _ add ty(3,2) keys(2) _ this, of "(9, \<lambda>_. Map.empty)"]
  show ?thesis using new add by (auto simp: bs_cached_def c_def c'_def)
qed

end
