(* ===== verification/Divider.thy ===== *)
theory Divider
  imports BatchSave
begin

text \<open>
  Extraction and conversion of records: \<open>BatchSaveDivider\<close> (\<open>batch_save_divider.go\<close>) keeps one batch
  per record type and deletes, the first time it meets a type, the records an earlier run derived from
  the same raw data; \<open>ApiExtractor.Execute\<close> (\<open>api_extractor.go\<close>) and \<open>DataConverter.Execute\<close>
  (\<open>data_convertor.go\<close>) push what the plugin makes of each input row through a divider.

  The batches are an association list of types, in the order they were created; Go iterates a map in
  any order, so \<open>Close\<close> takes the order it happens to use as an argument. The plugin's handler is an
  argument, a function from input rows to records or an error.
\<close>

section \<open>The divider\<close>

type_synonym 'db delete_fn = "slot_type \<Rightarrow> string \<Rightarrow> string \<Rightarrow> 'db \<Rightarrow> goerr option \<times> 'db"

record divider =
  dv_batches :: "(slot_type \<times> batch_save) list"
  dv_size :: nat
  dv_table :: string
  dv_params :: string

definition NewBatchSaveDivider :: "nat \<Rightarrow> string \<Rightarrow> string \<Rightarrow> divider" where
  "NewBatchSaveDivider n table params =
     \<lparr>dv_batches = [], dv_size = n, dv_table = table, dv_params = params\<rparr>"

text \<open>\<open>ForType\<close> returns nil or an error; the batch is then the one registered for the type.\<close>

definition ForType :: "'db delete_fn \<Rightarrow> slot_type \<Rightarrow> divider \<Rightarrow> 'db \<Rightarrow> goerr option \<times> divider \<times> 'db" where
  "ForType del t d db =
     (case map_of (dv_batches d) t of
        Some b \<Rightarrow> (None, d, db)
      | None \<Rightarrow>
        (case NewBatchSave t (dv_size d) [] of
           Inl e \<Rightarrow> (Some e, d, db)
         | Inr b \<Rightarrow>
             let d' = d\<lparr>dv_batches := dv_batches d @ [(t, b)]\<rparr> in
             if \<not> st_origin t
             then (Some (New Default (''type '' @ st_elem t @ '' must have RawDataOrigin embeded'')), d', db)
             else if dv_table d \<noteq> [] \<and> dv_params d \<noteq> []
             then (case del t (dv_table d) (dv_params d) db of (e, db') \<Rightarrow> (e, d', db'))
             else (None, d', db)))"

fun put_batch :: "slot_type \<Rightarrow> batch_save \<Rightarrow> (slot_type \<times> batch_save) list \<Rightarrow> (slot_type \<times> batch_save) list" where
  "put_batch t b [] = []"
| "put_batch t b ((u, c) # bs) = (if u = t then (u, b) # bs else (u, c) # put_batch t b bs)"

definition divider_add :: "'db store_fn \<Rightarrow> row \<Rightarrow> divider \<Rightarrow> 'db \<Rightarrow> bs_result \<times> divider \<times> 'db" where
  "divider_add store r d db =
     (case map_of (dv_batches d) (r_type r) of
        None \<Rightarrow> (BsPanic, d, db)
      | Some b \<Rightarrow> (case Add store r b db of
          (res, b', db') \<Rightarrow> (res, d\<lparr>dv_batches := put_batch (r_type r) b' (dv_batches d)\<rparr>, db')))"

primrec divider_close :: "'db store_fn \<Rightarrow> slot_type list \<Rightarrow> divider \<Rightarrow> 'db \<Rightarrow> bs_result \<times> divider \<times> 'db" where
  "divider_close store [] d db = (BsOk, d, db)"
| "divider_close store (t # ts) d db =
     (case map_of (dv_batches d) t of
        None \<Rightarrow> divider_close store ts d db
      | Some b \<Rightarrow> (case bs_close store b db of
          (BsOk, b', db') \<Rightarrow> divider_close store ts (d\<lparr>dv_batches := put_batch t b' (dv_batches d)\<rparr>) db'
        | (res, b', db') \<Rightarrow> (res, d\<lparr>dv_batches := put_batch t b' (dv_batches d)\<rparr>, db')))"

section \<open>Extraction and conversion\<close>

text \<open>What a row of the input carries: its id and parameters (a raw row) or its origin (a tool layer
  row), and the payload the handler reads.\<close>

record 'x input_row =
  in_id :: nat
  in_params :: string
  in_origin :: RawDataOrigin
  in_data :: 'x

text \<open>The parts that differ between the two subtasks: the messages of their errors and how they set the
  origin of a record.\<close>

record 'x etl =
  etl_fetch_msg :: string
  etl_call_msg :: string
  etl_origin :: "'x input_row \<Rightarrow> row \<Rightarrow> row"
  etl_handler :: "'x input_row \<Rightarrow> goerr + row list"

definition zero_origin :: RawDataOrigin where
  "zero_origin = \<lparr>RawDataParams = [], RawDataTable = [], RawDataId = 0, RawDataRemark = []\<rparr>"

definition extract_origin :: "string \<Rightarrow> 'x input_row \<Rightarrow> row \<Rightarrow> row" where
  "extract_origin table inp r =
     (if st_origin (r_type r) \<and> r_origin r = zero_origin
      then r\<lparr>r_origin := \<lparr>RawDataParams = in_params inp, RawDataTable = table, RawDataId = in_id inp,
             RawDataRemark = []\<rparr>\<rparr>
      else r)"

definition convert_origin :: "'x input_row \<Rightarrow> row \<Rightarrow> row" where
  "convert_origin inp r = (if st_origin (r_type r) then r\<lparr>r_origin := in_origin inp\<rparr> else r)"

definition wrap_result :: "string \<Rightarrow> bs_result \<Rightarrow> bs_result" where
  "wrap_result msg res =
     (case res of BsErr e \<Rightarrow> BsErr (newSingleCrdbError Default (Some e) msg None) | _ \<Rightarrow> res)"

primrec save_results :: "'db store_fn \<Rightarrow> 'db delete_fn \<Rightarrow> (row \<Rightarrow> row) \<Rightarrow> row list \<Rightarrow> divider \<Rightarrow> 'db
    \<Rightarrow> bs_result \<times> divider \<times> 'db" where
  "save_results store del origin [] d db = (BsOk, d, db)"
| "save_results store del origin (r # rs) d db =
     (case ForType del (r_type r) d db of
        (Some e, d', db') \<Rightarrow> (wrap_result ''error getting batch from result'' (BsErr e), d', db')
      | (None, d', db') \<Rightarrow>
        (case divider_add store (origin r) d' db' of
           (BsOk, d'', db'') \<Rightarrow> save_results store del origin rs d'' db''
         | (res, d'', db'') \<Rightarrow> (wrap_result ''error adding result to batch'' res, d'', db'')))"

text \<open>The loop over the cursor. \<open>ctx i\<close> is the error of the context when row \<open>i\<close> is reached, \<open>fetch i\<close> that of
  reading it; the last component counts the calls of \<open>IncProgress(1)\<close>.\<close>

primrec etl_rows :: "'db store_fn \<Rightarrow> 'db delete_fn \<Rightarrow> 'x etl \<Rightarrow> (nat \<Rightarrow> goerr option) \<Rightarrow> (nat \<Rightarrow> goerr option)
    \<Rightarrow> nat \<Rightarrow> 'x input_row list \<Rightarrow> divider \<Rightarrow> 'db \<Rightarrow> bs_result \<times> divider \<times> 'db \<times> nat" where
  "etl_rows store del t ctx fetch i [] d db = (BsOk, d, db, i)"
| "etl_rows store del t ctx fetch i (inp # inps) d db =
     (case ctx i of
        Some e \<Rightarrow> (BsErr (the (Convert (Some e))), d, db, i)
      | None \<Rightarrow>
        (case fetch i of
           Some e \<Rightarrow> (wrap_result (etl_fetch_msg t) (BsErr e), d, db, i)
         | None \<Rightarrow>
           (case etl_handler t inp of
              Inl e \<Rightarrow> (wrap_result (etl_call_msg t) (BsErr e), d, db, i)
            | Inr rs \<Rightarrow>
              (case save_results store del (etl_origin t inp) rs d db of
                 (BsOk, d', db') \<Rightarrow> etl_rows store del t ctx fetch (i + 1) inps d' db'
               | (res, d', db') \<Rightarrow> (res, d', db', i)))))"

definition etl_run :: "'db store_fn \<Rightarrow> 'db delete_fn \<Rightarrow> 'x etl \<Rightarrow> (nat \<Rightarrow> goerr option) \<Rightarrow> (nat \<Rightarrow> goerr option)
    \<Rightarrow> slot_type list \<Rightarrow> 'x input_row list \<Rightarrow> divider \<Rightarrow> 'db \<Rightarrow> bs_result \<times> 'db \<times> nat" where
  "etl_run store del t ctx fetch order inps d db =
     (case etl_rows store del t ctx fetch 0 inps d db of
        (BsOk, d', db', n) \<Rightarrow> (case divider_close store order d' db' of (res, _, db'') \<Rightarrow> (res, db'', n))
      | (res, d', db', n) \<Rightarrow> (res, db', n))"

definition batch_size :: "nat \<Rightarrow> nat" where
  "batch_size n = (if n = 0 then 500 else n)"

text \<open>The query of the extractor: the rows of the raw table with the parameters, by id.\<close>

definition raw_query :: "string \<Rightarrow> 'x input_row list \<Rightarrow> 'x input_row list" where
  "raw_query params rows = sort_key in_id (filter (\<lambda>r. in_params r = params) rows)"

definition extract_etl :: "string \<Rightarrow> ('x input_row \<Rightarrow> goerr + row list) \<Rightarrow> 'x etl" where
  "extract_etl table handler = \<lparr>etl_fetch_msg = ''error fetching row'',
     etl_call_msg = ''error calling plugin Extract implementation'',
     etl_origin = extract_origin table, etl_handler = handler\<rparr>"

definition convert_etl :: "('x input_row \<Rightarrow> goerr + row list) \<Rightarrow> 'x etl" where
  "convert_etl handler = \<lparr>etl_fetch_msg = ''error fetching rows'',
     etl_call_msg = ''error calling Converter plugin implementation'',
     etl_origin = convert_origin, etl_handler = handler\<rparr>"

definition ApiExtractor_Execute :: "'db store_fn \<Rightarrow> 'db delete_fn \<Rightarrow> goerr option \<Rightarrow> goerr option \<Rightarrow>
    (nat \<Rightarrow> goerr option) \<Rightarrow> (nat \<Rightarrow> goerr option) \<Rightarrow> slot_type list \<Rightarrow> string \<Rightarrow> string \<Rightarrow> nat \<Rightarrow>
    ('x input_row \<Rightarrow> goerr + row list) \<Rightarrow> 'x input_row list \<Rightarrow> 'db \<Rightarrow> bs_result \<times> 'db \<times> nat" where
  "ApiExtractor_Execute store del count_err cursor_err ctx fetch order table params n handler raw db =
     (case count_err of
        Some e \<Rightarrow> (wrap_result ''error getting count of clauses'' (BsErr e), db, 0)
      | None \<Rightarrow>
        (case cursor_err of
           Some e \<Rightarrow> (wrap_result ''error running DB query'' (BsErr e), db, 0)
         | None \<Rightarrow> etl_run store del (extract_etl table handler) ctx fetch order (raw_query params raw)
             (NewBatchSaveDivider (batch_size n) table params) db))"

definition DataConverter_Execute :: "'db store_fn \<Rightarrow> 'db delete_fn \<Rightarrow>
    (nat \<Rightarrow> goerr option) \<Rightarrow> (nat \<Rightarrow> goerr option) \<Rightarrow> slot_type list \<Rightarrow> string \<Rightarrow> string \<Rightarrow> nat \<Rightarrow>
    ('x input_row \<Rightarrow> goerr + row list) \<Rightarrow> 'x input_row list \<Rightarrow> 'db \<Rightarrow> bs_result \<times> 'db \<times> nat" where
  "DataConverter_Execute store del ctx fetch order table params n handler inputs db =
     etl_run store del (convert_etl handler) ctx fetch order inputs
       (NewBatchSaveDivider (batch_size n) table params) db"

text \<open>\<open>NewRawDataSubTask\<close> with the serialized parameters: the raw table and the parameters, or an error.\<close>

definition NewRawDataSubTask :: "string \<Rightarrow> string \<Rightarrow> goerr + (string \<times> string)" where
  "NewRawDataSubTask table params =
     (if table = [] then Inl (New Default ''Table is required for RawDataSubTask'')
      else Inr (''_raw_'' @ table, params))"

text \<open>\<open>DataEnricher.Execute\<close> (\<open>data_enricher.go\<close>): the same loop with a divider that deletes nothing, marking
  every record it saves with the name of the enricher. The handler keeps variables from row to row, so it is a
  function that threads a state through the rows.\<close>

primrec thread :: "('s \<Rightarrow> 'x \<Rightarrow> 'y \<times> 's) \<Rightarrow> 's \<Rightarrow> 'x list \<Rightarrow> 'y list" where
  "thread f s [] = []"
| "thread f s (x # xs) = (case f s x of (y, s') \<Rightarrow> y # thread f s' xs)"

definition is_word_char :: "char \<Rightarrow> bool" where
  "is_word_char c \<longleftrightarrow> (let n = of_char c :: nat in
     (48 \<le> n \<and> n \<le> 57) \<or> (65 \<le> n \<and> n \<le> 90) \<or> (97 \<le> n \<and> n \<le> 122) \<or> n = 95)"

definition NewDataEnricher :: "string \<Rightarrow> goerr option" where
  "NewDataEnricher name =
     (if name = [] \<or> \<not> list_all is_word_char name
      then Some (New Default ''DataEnricher: Name is require and should contain only word characters(a-zA-Z0-9_)'')
      else None)"

definition enrich_origin :: "string \<Rightarrow> 'x input_row \<Rightarrow> row \<Rightarrow> row" where
  "enrich_origin name inp r =
     (if st_origin (r_type r) \<and> \<not> strings_Contains (RawDataRemark (r_origin r)) (name @ '','')
      then r\<lparr>r_origin := (r_origin r)\<lparr>RawDataRemark := RawDataRemark (r_origin r) @ name @ '',''\<rparr>\<rparr>
      else r)"

definition enrich_etl :: "string \<Rightarrow> ('x input_row \<Rightarrow> goerr + row list) \<Rightarrow> 'x etl" where
  "enrich_etl name handler = \<lparr>etl_fetch_msg = ''error fetching rows'',
     etl_call_msg = ''error calling plugin implementation'',
     etl_origin = enrich_origin name, etl_handler = handler\<rparr>"

definition DataEnricher_Execute :: "'db store_fn \<Rightarrow> 'db delete_fn \<Rightarrow>
    (nat \<Rightarrow> goerr option) \<Rightarrow> (nat \<Rightarrow> goerr option) \<Rightarrow> slot_type list \<Rightarrow> string \<Rightarrow> nat \<Rightarrow>
    ('s \<Rightarrow> 'x input_row \<Rightarrow> (goerr + row list) \<times> 's) \<Rightarrow> 's \<Rightarrow> 'x input_row list \<Rightarrow> 'db \<Rightarrow> bs_result \<times> 'db \<times> nat" where
  "DataEnricher_Execute store del ctx fetch order name n handler s inputs db =
     etl_run store del (enrich_etl name in_data) ctx fetch order
       (thread (\<lambda>s inp. case handler s inp of (out, s') \<Rightarrow>
          (\<lparr>in_id = in_id inp, in_params = in_params inp, in_origin = in_origin inp, in_data = out\<rparr>, s')) s inputs)
       (NewBatchSaveDivider (batch_size n) [] []) db"

section \<open>The tables after a run\<close>

definition purge :: "string \<Rightarrow> string \<Rightarrow> table_view \<Rightarrow> table_view" where
  "purge table params m = (\<lambda>k. case m k of
     None \<Rightarrow> None
   | Some r \<Rightarrow> if RawDataTable (r_origin r) = table \<and> RawDataParams (r_origin r) = params then None else Some r)"

definition outdated :: "divider \<Rightarrow> table_view \<Rightarrow> table_view" where
  "outdated d m = (if dv_table d \<noteq> [] \<and> dv_params d \<noteq> [] then purge (dv_table d) (dv_params d) m else m)"

text \<open>A run that saves the rows \<open>rs\<close> replaces, in the table of every type among them, what an earlier run
  left by the upserts of the rows of that type, and touches no other table.\<close>

definition replaced :: "divider \<Rightarrow> row list \<Rightarrow> (target \<Rightarrow> table_view) \<Rightarrow> target \<Rightarrow> table_view" where
  "replaced d rs V tgt =
     (case tgt of
        FromTable n \<Rightarrow> V tgt
      | TypeTable t \<Rightarrow>
          (if filter (\<lambda>r. r_type r = t) rs = [] then V tgt
           else upserts (filter (\<lambda>r. r_type r = t) rs) (outdated d (V tgt))))"

locale record_store = upsert_store store look
  for store :: "'db store_fn" and look :: "'db \<Rightarrow> target \<Rightarrow> table_view" +
  fixes del :: "'db delete_fn"
  assumes del_ok: "del t table params db = (None, db') \<Longrightarrow>
      look db' = (look db)(TypeTable t := purge table params (look db (TypeTable t)))"
    and del_err: "del t table params db = (Some e, db') \<Longrightarrow> look db' = look db"

definition div_ok :: "row list \<Rightarrow> divider \<Rightarrow> bool" where
  "div_ok S d \<longleftrightarrow> 0 < dv_size d \<and> (\<forall>t b. map_of (dv_batches d) t = Some b \<longrightarrow>
     bs_inv b \<and> bs_target b = TypeTable t \<and> set (bs_cached b) \<subseteq> set S)"

definition div_view :: "('db \<Rightarrow> target \<Rightarrow> table_view) \<Rightarrow> divider \<Rightarrow> 'db \<Rightarrow> target \<Rightarrow> table_view" where
  "div_view look d db tgt =
     (case tgt of
        FromTable n \<Rightarrow> look db tgt
      | TypeTable t \<Rightarrow> (case map_of (dv_batches d) t of
          None \<Rightarrow> look db tgt | Some b \<Rightarrow> upserts (bs_cached b) (look db tgt)))"

lemma map_of_put_batch:
  "map_of (put_batch t b bs) = (if t \<in> fst ` set bs then (map_of bs)(t \<mapsto> b) else map_of bs)"
  by (induction bs rule: put_batch.induct [of _ t b]) (auto simp: fun_eq_iff)

lemma map_of_put_present: "map_of bs t = Some c \<Longrightarrow> map_of (put_batch t b bs) = (map_of bs)(t \<mapsto> b)"
  by (simp add: map_of_put_batch) (metis map_of_eq_None_iff option.distinct(1))

lemma put_batch_keys [simp]: "map fst (put_batch t b bs) = map fst bs"
  by (induction t b bs rule: put_batch.induct) auto

lemma target_type: "bs_target b = TypeTable t \<Longrightarrow> bs_type b = t"
  by (simp add: bs_target_def split: if_splits)

lemma map_of_keys: "t \<in> dom (map_of bs) \<longleftrightarrow> t \<in> set (map fst bs)"
  by (simp add: dom_map_of_conv_image_fst)

context upsert_store begin

lemma Add_tables:
  assumes "bs_inv c" "keys_separate (bs_cached c @ [stripZeroByte r])" "Add store r c db = (BsOk, c', db')"
  shows "tgt \<noteq> bs_target c \<Longrightarrow> look db' tgt = look db tgt"
    and "upserts (bs_cached c') (look db' (bs_target c)) =
      (upserts (bs_cached c) (look db (bs_target c)))(row_pk (stripZeroByte r) \<mapsto> stripZeroByte r)"
  using fun_cong [OF Add_ok(4) [OF assms], of tgt] fun_cong [OF Add_ok(4) [OF assms], of "bs_target c"]
    Add_ok(2) [OF assms] by (simp_all add: batch_view_def)

lemma close_tables:
  assumes "bs_inv c" "keys_separate (bs_cached c)" "bs_close store c db = (BsOk, c', db')"
  shows "bs_inv c'" "bs_cached c' = []" "bs_target c' = bs_target c"
    "tgt \<noteq> bs_target c \<Longrightarrow> look db' tgt = look db tgt"
    "look db' (bs_target c) = upserts (bs_cached c) (look db (bs_target c))"
proof -
  have view: "look db' = (look db)(bs_target c := upserts (bs_cached c) (look db (bs_target c)))"
    using close_ok [OF assms] by (simp add: batch_view_def)
  show "tgt \<noteq> bs_target c \<Longrightarrow> look db' tgt = look db tgt"
    "look db' (bs_target c) = upserts (bs_cached c) (look db (bs_target c))" using view by simp_all
  show "bs_inv c'" "bs_cached c' = []" "bs_target c' = bs_target c"
    using assms(1,3)
    by (auto simp: bs_close_def Flush_def bs_inv_def bs_cached_def bs_target_def
        split: if_splits prod.splits option.splits)
qed

lemma divider_add_ok:
  assumes ok: "div_ok S d" and sep: "keys_separate S" and mem: "stripZeroByte r \<in> set S"
    and add: "divider_add store r d db = (BsOk, d', db')"
  shows "div_ok S d' \<and> map fst (dv_batches d') = map fst (dv_batches d) \<and>
    dv_size d' = dv_size d \<and> dv_table d' = dv_table d \<and> dv_params d' = dv_params d \<and>
    div_view look d' db' = (div_view look d db)(TypeTable (r_type r) :=
      (div_view look d db (TypeTable (r_type r)))(row_pk (stripZeroByte r) \<mapsto> stripZeroByte r))"
proof -
  obtain b b' where b: "map_of (dv_batches d) (r_type r) = Some b" "Add store r b db = (BsOk, b', db')"
    and d': "d' = d\<lparr>dv_batches := put_batch (r_type r) b' (dv_batches d)\<rparr>"
    using add by (auto simp: divider_add_def split: option.splits prod.splits)
  have inv: "bs_inv b" "bs_target b = TypeTable (r_type r)" "set (bs_cached b) \<subseteq> set S"
    using ok b(1) by (simp_all add: div_ok_def)
  have "keys_separate (bs_cached b @ [stripZeroByte r])"
    by (rule keys_separate_mono [OF sep]) (use inv(3) mem in auto)
  note one = Add_ok(1-3) [OF inv(1) this b(2)] and tables = Add_tables [OF inv(1) this b(2)]
  have upd: "map_of (put_batch (r_type r) b' (dv_batches d)) = (map_of (dv_batches d))(r_type r \<mapsto> b')"
    using b(1) by (simp add: map_of_put_present)
  have "div_ok S d'" using ok one inv mem by (auto simp: div_ok_def upd d')
  moreover have "div_view look d' db' tgt = ((div_view look d db)(TypeTable (r_type r) :=
      (div_view look d db (TypeTable (r_type r)))(row_pk (stripZeroByte r) \<mapsto> stripZeroByte r))) tgt" for tgt
    using tables(1) [of tgt] tables(2) b(1) inv(2) by (cases tgt) (auto simp: div_view_def upd d' split: option.splits)
  ultimately show ?thesis by (auto simp: d')
qed

lemma divider_close_ok:
  assumes "div_ok S d" "keys_separate S" "divider_close store ts d db = (BsOk, d', db')"
  shows "div_ok S d' \<and> map fst (dv_batches d') = map fst (dv_batches d) \<and>
    div_view look d' db' = div_view look d db \<and>
    (\<forall>t b'. map_of (dv_batches d') t = Some b' \<longrightarrow>
       t \<in> set ts \<or> (\<exists>b. map_of (dv_batches d) t = Some b \<and> bs_cached b = []) \<longrightarrow> bs_cached b' = [])"
  using assms
proof (induction ts arbitrary: d db)
  case Nil
  then show ?case by simp
next
  case (Cons t ts)
  show ?case
  proof (cases "map_of (dv_batches d) t")
    case None
    with Cons.prems have "divider_close store ts d db = (BsOk, d', db')" by simp
    note IH = Cons.IH [OF Cons.prems(1,2) this]
    moreover have "map_of (dv_batches d') t = None"
      using None IH by (metis map_of_eq_None_iff list.set_map)
    ultimately show ?thesis by auto
  next
    case (Some b)
    then obtain b' db1 where cl: "bs_close store b db = (BsOk, b', db1)"
      and rest: "divider_close store ts (d\<lparr>dv_batches := put_batch t b' (dv_batches d)\<rparr>) db1 = (BsOk, d', db')"
      using Cons.prems(3) by (auto split: prod.splits bs_result.splits)
    let ?d = "d\<lparr>dv_batches := put_batch t b' (dv_batches d)\<rparr>"
    have inv: "bs_inv b" "bs_target b = TypeTable t" "set (bs_cached b) \<subseteq> set S"
      using Cons.prems(1) Some by (simp_all add: div_ok_def)
    note tab = close_tables [OF inv(1) keys_separate_mono [OF Cons.prems(2) inv(3)] cl]
    have upd: "map_of (put_batch t b' (dv_batches d)) = (map_of (dv_batches d))(t \<mapsto> b')"
      using Some by (simp add: map_of_put_present)
    have "div_ok S ?d" using Cons.prems(1) tab(1-3) inv(2) by (auto simp: div_ok_def upd)
    note IH = Cons.IH [OF this Cons.prems(2) rest]
    have "div_view look ?d db1 tgt = div_view look d db tgt" for tgt
      using tab(2,5) tab(4) [of tgt] Some inv(2) by (cases tgt) (auto simp: div_view_def upd split: option.splits)
    with IH have "div_view look d' db' = div_view look d db" by auto
    then show ?thesis using IH tab(2) by (auto simp: upd split: if_splits)
  qed
qed

end

context record_store begin

lemma ForType_ok:
  assumes ok: "div_ok S d" and ft: "ForType del t d db = (None, d', db')"
  shows "div_ok S d' \<and> set (map fst (dv_batches d')) = insert t (set (map fst (dv_batches d))) \<and>
    dv_table d' = dv_table d \<and> dv_params d' = dv_params d \<and>
    div_view look d' db' = (if t \<in> set (map fst (dv_batches d)) then div_view look d db
      else (div_view look d db)(TypeTable t := outdated d (div_view look d db (TypeTable t))))"
proof (cases "map_of (dv_batches d) t")
  case (Some b)
  then have "t \<in> set (map fst (dv_batches d))" by (metis domI map_of_keys)
  with Some ok ft show ?thesis by (auto simp: ForType_def)
next
  case None
  then have new: "t \<notin> set (map fst (dv_batches d))" by (metis domIff map_of_keys)
  obtain b where b: "NewBatchSave t (dv_size d) [] = Inr b"
    using None ft by (auto simp: ForType_def split: sum.splits)
  have inv: "bs_inv b" "bs_cached b = []" "bs_target b = TypeTable t"
    using NewBatchSave_inv [OF b] ok b
    by (auto simp: div_ok_def bs_target_def NewBatchSave_def split: if_splits)
  have d': "d' = d\<lparr>dv_batches := dv_batches d @ [(t, b)]\<rparr>"
    and db': "if dv_table d \<noteq> [] \<and> dv_params d \<noteq> [] then del t (dv_table d) (dv_params d) db = (None, db') else db' = db"
    using None ft b by (auto simp: ForType_def Let_def split: if_splits prod.splits)
  have upd: "map_of (dv_batches d @ [(t, b)]) = (map_of (dv_batches d))(t \<mapsto> b)"
    using None by (auto simp: map_add_def fun_eq_iff split: option.splits)
  have look: "look db' = (look db)(TypeTable t := outdated d (look db (TypeTable t)))"
    using db' del_ok by (auto simp: outdated_def split: if_splits)
  have "div_ok S d'" using ok inv by (auto simp: div_ok_def d' split: if_splits option.splits)
  moreover have "div_view look d' db' tgt =
      ((div_view look d db)(TypeTable t := outdated d (div_view look d db (TypeTable t)))) tgt" for tgt
    using None inv(2) by (cases tgt) (auto simp: div_view_def d' upd look split: option.splits)
  ultimately show ?thesis using new by (auto simp: d')
qed

text \<open>The state of a run that has saved the rows \<open>rs\<close>.\<close>

definition saved :: "row list \<Rightarrow> divider \<Rightarrow> (target \<Rightarrow> table_view) \<Rightarrow> row list \<Rightarrow> divider \<Rightarrow> 'db \<Rightarrow> bool" where
  "saved S d0 V rs d db \<longleftrightarrow> div_ok S d \<and> r_type ` set rs = set (map fst (dv_batches d)) \<and>
     dv_table d = dv_table d0 \<and> dv_params d = dv_params d0 \<and> div_view look d db = replaced d0 rs V"

lemma replaced_snoc:
  "replaced d0 (rs @ [s]) V = (if r_type s \<in> r_type ` set rs then replaced d0 rs V
     else (replaced d0 rs V)(TypeTable (r_type s) := outdated d0 (replaced d0 rs V (TypeTable (r_type s)))))
   (TypeTable (r_type s) := (if r_type s \<in> r_type ` set rs then replaced d0 rs V (TypeTable (r_type s))
     else outdated d0 (replaced d0 rs V (TypeTable (r_type s))))(row_pk s \<mapsto> s))"
  (is "?l = ?r")
proof
  fix tgt
  have none: "r_type s \<notin> r_type ` set rs \<Longrightarrow> filter (\<lambda>r. r_type r = r_type s) rs = []"
    and some: "r_type s \<in> r_type ` set rs \<Longrightarrow> filter (\<lambda>r. r_type r = r_type s) rs \<noteq> []"
    by (simp_all add: filter_empty_conv image_iff) metis+
  show "?l tgt = ?r tgt"
    using none some by (cases tgt) (auto simp: replaced_def)
qed

lemma save_one_ok:
  assumes sv: "saved S d0 V rs d db" and sep: "keys_separate S" and mem: "stripZeroByte r \<in> set S"
    and ft: "ForType del (r_type r) d db = (None, d1, db1)"
    and add: "divider_add store r d1 db1 = (BsOk, d2, db2)"
  shows "saved S d0 V (rs @ [stripZeroByte r]) d2 db2"
proof -
  note f = ForType_ok [OF _ ft, of S]
  have ok: "div_ok S d" and ty: "r_type ` set rs = set (map fst (dv_batches d))"
    and out: "outdated d = outdated d0" and view: "div_view look d db = replaced d0 rs V"
    using sv by (auto simp: saved_def outdated_def fun_eq_iff)
  note f = ForType_ok [OF ok ft]
  note a = divider_add_ok [OF conjunct1 [OF f] sep mem add]
  have "div_view look d2 db2 = replaced d0 (rs @ [stripZeroByte r]) V"
    using f a by (simp only: replaced_snoc strip_type ty view out fun_upd_same if_distrib [of "\<lambda>f. f _"] fun_upd_upd cong: if_cong)
  then show ?thesis using f a sv ty by (auto simp: saved_def)
qed

lemma save_results_ok:
  assumes "saved S d0 V rs d db" "keys_separate S" "stripZeroByte ` origin ` set rows \<subseteq> set S"
    "\<And>r. r_type (origin r) = r_type r"
    "save_results store del origin rows d db = (BsOk, d', db')"
  shows "saved S d0 V (rs @ map (\<lambda>r. stripZeroByte (origin r)) rows) d' db'"
  using assms(1,3,5)
proof (induction rows arbitrary: rs d db)
  case (Cons r rows)
  obtain d1 db1 d2 db2 where ft: "ForType del (r_type (origin r)) d db = (None, d1, db1)"
    and add: "divider_add store (origin r) d1 db1 = (BsOk, d2, db2)"
    and rest: "save_results store del origin rows d2 db2 = (BsOk, d', db')"
    using Cons.prems(3) assms(4)
    by (auto simp: wrap_result_def split: prod.splits option.splits bs_result.splits)
  have "saved S d0 V (rs @ [stripZeroByte (origin r)]) d2 db2"
    using Cons.prems(2) by (intro save_one_ok [OF Cons.prems(1) assms(2) _ ft add]) simp
  from Cons.IH [OF this _ rest] Cons.prems(2) show ?case by simp
qed simp

end

text \<open>The rows a run makes of its input, as they are stored.\<close>

definition etl_output :: "'x etl \<Rightarrow> 'x input_row list \<Rightarrow> row list" where
  "etl_output t inps = concat (map (\<lambda>inp. case etl_handler t inp of
     Inl e \<Rightarrow> [] | Inr rs \<Rightarrow> map (\<lambda>r. stripZeroByte (etl_origin t inp r)) rs) inps)"

context record_store begin

lemma etl_rows_ok:
  assumes "saved S d0 V rs d db" "keys_separate S" "set (etl_output t inps) \<subseteq> set S"
    "\<And>inp r. r_type (etl_origin t inp r) = r_type r"
    "etl_rows store del t ctx fetch i inps d db = (BsOk, d', db', n)"
  shows "saved S d0 V (rs @ etl_output t inps) d' db' \<and> n = i + length inps"
  using assms(1,3,5)
proof (induction inps arbitrary: rs d db i)
  case Nil
  then show ?case by (simp add: etl_output_def)
next
  case (Cons inp inps)
  obtain rows d1 db1 where h: "etl_handler t inp = Inr rows"
    and s: "save_results store del (etl_origin t inp) rows d db = (BsOk, d1, db1)"
    and rest: "etl_rows store del t ctx fetch (i + 1) inps d1 db1 = (BsOk, d', db', n)"
    using Cons.prems(3)
    by (auto simp: wrap_result_def split: prod.splits option.splits bs_result.splits sum.splits)
  have "saved S d0 V (rs @ map (\<lambda>r. stripZeroByte (etl_origin t inp r)) rows) d1 db1"
    using Cons.prems(2) h
    by (intro save_results_ok [OF Cons.prems(1) assms(2) _ assms(4) s]) (auto simp: etl_output_def)
  from Cons.IH [OF this _ rest] Cons.prems(2) h show ?case by (simp add: etl_output_def)
qed

lemma etl_run_ok:
  assumes "keys_separate (etl_output t inps)" "\<And>inp r. r_type (etl_origin t inp r) = r_type r"
    "0 < n" "r_type ` set (etl_output t inps) \<subseteq> set order"
    "etl_run store del t ctx fetch order inps (NewBatchSaveDivider n table params) db = (BsOk, db', k)"
  shows "look db' = replaced (NewBatchSaveDivider n table params) (etl_output t inps) (look db) \<and> k = length inps"
proof -
  define d0 where "d0 = NewBatchSaveDivider n table params"
  define S where "S = etl_output t inps"
  obtain d1 db1 d2 where run: "etl_rows store del t ctx fetch 0 inps d0 db = (BsOk, d1, db1, k)"
    and close: "divider_close store order d1 db1 = (BsOk, d2, db')"
    using assms(5) by (auto simp: etl_run_def d0_def split: prod.splits bs_result.splits)
  have "div_view look d0 db = replaced d0 [] (look db)"
    by (auto simp: fun_eq_iff div_view_def replaced_def d0_def NewBatchSaveDivider_def split: target.splits)
  then have "saved S d0 (look db) [] d0 db"
    using assms(3) by (simp add: saved_def div_ok_def d0_def NewBatchSaveDivider_def)
  from etl_rows_ok [OF this _ _ assms(2) run]
  have sv: "saved S d0 (look db) S d1 db1" "k = length inps"
    using assms(1) by (simp_all add: S_def)
  have ok: "div_ok S d1" using sv(1) by (simp add: saved_def)
  note cl = divider_close_ok [OF ok _ close]
  have sep: "keys_separate S" using assms(1) by (simp add: S_def)
  have keys: "set (map fst (dv_batches d2)) \<subseteq> set order"
    using cl [OF sep] sv(1) assms(4) by (simp add: saved_def S_def)
  have "look db' tgt = div_view look d2 db' tgt" for tgt
  proof (cases tgt)
    case (TypeTable u)
    show ?thesis
    proof (cases "map_of (dv_batches d2) u")
      case (Some b)
      then have "u \<in> set order" using keys by (metis domI map_of_keys subsetD)
      then have "bs_cached b = []" using cl [OF sep] Some by blast
      then show ?thesis using TypeTable Some by (simp add: div_view_def)
    qed (simp add: div_view_def TypeTable)
  qed (simp add: div_view_def)
  then have "look db' = div_view look d2 db'" by blast
  with cl [OF sep] sv show ?thesis by (simp add: saved_def d0_def S_def)
qed

end

lemma extract_origin_type [simp]: "r_type (etl_origin (extract_etl table h) inp r) = r_type r"
  by (simp add: extract_etl_def extract_origin_def)

lemma convert_origin_type [simp]: "r_type (etl_origin (convert_etl h) inp r) = r_type r"
  by (simp add: convert_etl_def convert_origin_def)

lemma enrich_origin_type [simp]: "r_type (etl_origin (enrich_etl name h) inp r) = r_type r"
  by (simp add: enrich_etl_def enrich_origin_def)

lemma length_thread [simp]: "length (thread f s xs) = length xs"
  by (induction xs arbitrary: s) (auto split: prod.splits)

lemma upserts_other: "k \<notin> row_pk ` set rs \<Longrightarrow> upserts rs m k = m k"
  by (induction rs arbitrary: m) auto

lemma upserts_unique:
  "r \<in> set rs \<Longrightarrow> (\<And>r'. r' \<in> set rs \<Longrightarrow> row_pk r' = row_pk r \<Longrightarrow> r' = r) \<Longrightarrow> upserts rs m (row_pk r) = Some r"
proof (induction rs arbitrary: m)
  case (Cons x rs)
  show ?case
  proof (cases "row_pk r \<in> row_pk ` set rs")
    case True
    then have "r \<in> set rs" using Cons.prems(2) by (metis imageE list.set_intros(2))
    then show ?thesis using Cons.IH Cons.prems(2) by simp
  next
    case False
    then have "x = r" using Cons.prems by auto
    with False show ?thesis by (simp add: upserts_other)
  qed
qed simp

lemma upserts_own: "k \<in> row_pk ` set rs \<Longrightarrow> upserts rs m k = upserts rs m' k"
proof (induction rs arbitrary: m m')
  case (Cons r rs)
  show ?case
  proof (cases "k \<in> row_pk ` set rs")
    case True
    then show ?thesis using Cons.IH by (simp only: upserts_simps)
  next
    case False
    with Cons.prems have "k = row_pk r" by simp
    with False show ?thesis by (simp add: upserts_other)
  qed
qed simp

lemma replaced_idem: "replaced d rs (replaced d rs V) = replaced d rs V"
proof
  fix tgt
  have "upserts R (outdated d (upserts R (outdated d m))) = upserts R (outdated d m)" for R m
  proof
    fix k
    show "upserts R (outdated d (upserts R (outdated d m))) k = upserts R (outdated d m) k"
    proof (cases "k \<in> row_pk ` set R")
      case True
      then show ?thesis by (rule upserts_own)
    next
      case False
      then show ?thesis by (simp add: upserts_other outdated_def purge_def split: option.splits)
    qed
  qed
  then show "replaced d rs (replaced d rs V) tgt = replaced d rs V tgt"
    by (cases tgt) (auto simp: replaced_def)
qed

section \<open>A store in memory\<close>

definition mem_delete :: "mem_db delete_fn" where
  "mem_delete t table params = (\<lambda>(n, m).
     if n = 0 then (Some (External ''connection lost''), (n, m))
     else (None, (n - 1, m(TypeTable t := purge table params (m (TypeTable t))))))"

interpretation memrec: record_store mem_store snd mem_delete
  by unfold_locales (auto simp: mem_delete_def split: if_splits prod.splits)

section \<open>What an extraction and a conversion leave\<close>

text \<open>C18. An extraction that returns nil has replaced what earlier ones derived from the same raw rows: with
  keys that tell the rows apart, the table of every type the handler produced holds its old rows without
  those of this raw table and parameters, updated by every row the handler made of the raw rows with
  these parameters in the order of their ids, and no other table changed; progress was reported once
  for each raw row.\<close>

theorem extractor_replaces:
  assumes "record_store store look del"
    and "keys_separate (etl_output (extract_etl table handler) (raw_query params raw))"
    and "r_type ` set (etl_output (extract_etl table handler) (raw_query params raw)) \<subseteq> set order"
    and "ApiExtractor_Execute store del count_err cursor_err ctx fetch order table params n handler raw db
      = (BsOk, db', k)"
  shows "look db' = replaced (NewBatchSaveDivider (batch_size n) table params)
      (etl_output (extract_etl table handler) (raw_query params raw)) (look db) \<and>
    k = length (raw_query params raw)"
  using assms(4) by (intro record_store.etl_run_ok [OF assms(1,2) _ _ assms(3)])
    (auto simp: ApiExtractor_Execute_def batch_size_def wrap_result_def split: option.splits)

definition sample_input :: "nat \<Rightarrow> string \<Rightarrow> string input_row" where
  "sample_input i s = \<lparr>in_id = i, in_params = ''{}'', in_origin = no_origin, in_data = s\<rparr>"

definition sample_handler :: "string input_row \<Rightarrow> goerr + row list" where
  "sample_handler inp = Inr [sample_row (in_data inp) ''1'' 0]"

text \<open>Extracting again the same raw rows changes nothing: once a run has returned nil, another one over the
  same raw rows that returns nil leaves every table as it was.\<close>

theorem extractor_idempotent:
  assumes "record_store store look del"
    and "keys_separate (etl_output (extract_etl table handler) (raw_query params raw))"
    and "r_type ` set (etl_output (extract_etl table handler) (raw_query params raw)) \<subseteq> set order"
    and "ApiExtractor_Execute store del c1 u1 ctx1 fetch1 order table params n handler raw db = (BsOk, db1, k1)"
    and "ApiExtractor_Execute store del c2 u2 ctx2 fetch2 order table params n handler raw db1 = (BsOk, db2, k2)"
  shows "look db2 = look db1"
proof -
  have run: "look db' = replaced (NewBatchSaveDivider (batch_size n) table params)
      (etl_output (extract_etl table handler) (raw_query params raw)) (look db0)"
    if "ApiExtractor_Execute store del c u ctx fetch order table params n handler raw db0 = (BsOk, db', k)"
    for c u ctx fetch db0 db' k
    using that by (intro conjunct1 [OF record_store.etl_run_ok [OF assms(1,2) _ _ assms(3)]])
      (auto simp: ApiExtractor_Execute_def batch_size_def wrap_result_def split: option.splits)
  show ?thesis using run [OF assms(4)] run [OF assms(5)] by (simp only: replaced_idem)
qed

lemma sample_separate:
  "keys_separate (etl_output (extract_etl ''_raw_x'' sample_handler) (raw_query ''{}'' [sample_input 2 ''b'', sample_input 1 ''a'']))"
proof -
  have "etl_output (extract_etl ''_raw_x'' sample_handler) (raw_query ''{}'' [sample_input 2 ''b'', sample_input 1 ''a''])
    = [(sample_row ''a'' ''1'' 0)\<lparr>r_origin := \<lparr>RawDataParams = ''{}'', RawDataTable = ''_raw_x'', RawDataId = 1, RawDataRemark = []\<rparr>\<rparr>,
       (sample_row ''b'' ''1'' 0)\<lparr>r_origin := \<lparr>RawDataParams = ''{}'', RawDataTable = ''_raw_x'', RawDataId = 2, RawDataRemark = []\<rparr>\<rparr>]"
    by (simp add: etl_output_def extract_etl_def sample_handler_def raw_query_def sample_input_def extract_origin_def
        samples zero_origin_def stripZeroByte_def strip_nul_def)
  then show ?thesis
    by (simp only:, intro plain_keys_separate) (auto simp: samples FieldByName_def plain_value_def)
qed

lemma sample_types:
  "r_type ` set (etl_output (extract_etl ''_raw_x'' sample_handler) raws) \<subseteq> set [sample_type]"
  by (auto simp: etl_output_def extract_etl_def sample_handler_def extract_origin_def sample_row_def)

lemma sample_run:
  "fst (ApiExtractor_Execute mem_store mem_delete None None (\<lambda>_. None) (\<lambda>_. None) [sample_type] ''_raw_x'' ''{}'' 1
     sample_handler [sample_input 2 ''b'', sample_input 1 ''a''] (100, \<lambda>_. Map.empty)) = BsOk"
  by code_simp

theorem extractor_replaces_witness:
  "\<exists>db' :: mem_db. snd db' (TypeTable sample_type) [Some (FStr ''a''), Some (FStr ''1'')] =
    Some ((sample_row ''a'' ''1'' 0)\<lparr>r_origin :=
      \<lparr>RawDataParams = ''{}'', RawDataTable = ''_raw_x'', RawDataId = 1, RawDataRemark = []\<rparr>\<rparr>)"
proof -
  obtain r db' k where run: "ApiExtractor_Execute mem_store mem_delete None None (\<lambda>_. None) (\<lambda>_. None) [sample_type]
      ''_raw_x'' ''{}'' 1 sample_handler [sample_input 2 ''b'', sample_input 1 ''a''] (100, \<lambda>_. Map.empty) = (r, db', k)"
    by (metis prod_cases3)
  with sample_run have "r = BsOk" by simp
  with extractor_replaces [OF memrec.record_store_axioms sample_separate sample_types] run
  have "snd db' = replaced (NewBatchSaveDivider (batch_size 1) ''_raw_x'' ''{}'')
      (etl_output (extract_etl ''_raw_x'' sample_handler) (raw_query ''{}'' [sample_input 2 ''b'', sample_input 1 ''a'']))
      (snd (100 :: nat, \<lambda>_. Map.empty))" by blast
  then have "snd db' (TypeTable sample_type) [Some (FStr ''a''), Some (FStr ''1'')] =
      Some ((sample_row ''a'' ''1'' 0)\<lparr>r_origin :=
        \<lparr>RawDataParams = ''{}'', RawDataTable = ''_raw_x'', RawDataId = 1, RawDataRemark = []\<rparr>\<rparr>)"
    by (simp add: replaced_def etl_output_def extract_etl_def sample_handler_def raw_query_def sample_input_def
        extract_origin_def samples zero_origin_def stripZeroByte_def strip_nul_def row_pk_def FieldByName_def outdated_def purge_def)
  then show ?thesis by blast
qed

theorem extractor_idempotent_witness:
  "\<exists>db1 db2 k1 k2. ApiExtractor_Execute mem_store mem_delete None None (\<lambda>_. None) (\<lambda>_. None) [sample_type] ''_raw_x'' ''{}'' 1
      sample_handler [sample_input 2 ''b'', sample_input 1 ''a''] (100, \<lambda>_. Map.empty) = (BsOk, db1, k1) \<and>
    ApiExtractor_Execute mem_store mem_delete None None (\<lambda>_. None) (\<lambda>_. None) [sample_type] ''_raw_x'' ''{}'' 1
      sample_handler [sample_input 2 ''b'', sample_input 1 ''a''] db1 = (BsOk, db2, k2) \<and> snd db2 = snd db1"
proof -
  define run where "run = ApiExtractor_Execute mem_store mem_delete None None (\<lambda>_. None) (\<lambda>_. None) [sample_type]
      ''_raw_x'' ''{}'' 1 sample_handler [sample_input 2 ''b'', sample_input 1 ''a'']"
  have "fst (run (100, \<lambda>_. Map.empty)) = BsOk" unfolding run_def by code_simp
  then obtain db1 k1 where run1: "run (100, \<lambda>_. Map.empty) = (BsOk, db1, k1)"
    by (cases "run (100, \<lambda>_. Map.empty)") auto
  have "fst (run (fst (snd (run (100, \<lambda>_. Map.empty))))) = BsOk" unfolding run_def by code_simp
  then obtain db2 k2 where run2: "run db1 = (BsOk, db2, k2)" using run1 by (cases "run db1") auto
  show ?thesis
    using extractor_idempotent [OF memrec.record_store_axioms sample_separate sample_types
        run1 [unfolded run_def] run2 [unfolded run_def]]
      run1 [unfolded run_def] run2 [unfolded run_def] by blast
qed

text \<open>A run that stops halfway loses records: when the context is cancelled after the first row, the records an
  earlier run derived are already deleted from the table of the type that row produced, but the new
  record is still in its batch, which is dropped without being written.\<close>

theorem cancelled_run_loses_rows:
  assumes "record_store store look del" and "handler inp = Inr [r]" and "1 < n" and "table \<noteq> []" and "params \<noteq> []"
    and "st_ptr (r_type r)" and "st_primary (r_type r) \<noteq> []" and "st_origin (r_type r)"
    and "row_key (stripZeroByte (convert_origin inp r)) = Some key" and "key \<noteq> []"
    and "del (r_type r) table params db = (None, db1)" and "ctx 0 = None" and "fetch 0 = None" and "ctx 1 = Some e"
  shows "DataConverter_Execute store del ctx fetch order table params n handler (inp # inp2 # inps) db
      = (BsErr (the (Convert (Some e))), db1, 1) \<and>
    look db1 = (look db)(TypeTable (r_type r) := purge table params (look db (TypeTable (r_type r))))"
proof -
  define b where "b = \<lparr>bs_type = r_type r, bs_slots = replicate n None, bs_current = 0, bs_size = n,
      bs_index = Map.empty, bs_table = []\<rparr>"
  define d where "d = \<lparr>dv_batches = [(r_type r, b)], dv_size = n, dv_table = table, dv_params = params\<rparr>"
  have ty: "r_type (convert_origin inp r) = r_type r" by (simp add: convert_origin_def)
  have "ForType del (r_type r) (NewBatchSaveDivider n table params) db = (None, d, db1)"
    using assms(4-8,11) by (simp add: ForType_def NewBatchSave_def NewBatchSaveDivider_def b_def d_def)
  moreover have "\<exists>b'. Add store (convert_origin inp r) b db1 = (BsOk, b', db1)"
    using assms(3,6,10) ty
    by (subst Add_cases [OF _ _ assms(9,10)]) (auto simp: b_def bs_append_def Let_def)
  ultimately have "\<exists>d'. save_results store del (convert_origin inp) [r] (NewBatchSaveDivider n table params) db = (BsOk, d', db1)"
    by (auto simp: divider_add_def d_def ty)
  then show ?thesis
    using assms(2,3,12-14) record_store.del_ok [OF assms(1,11)]
    by (auto simp: DataConverter_Execute_def etl_run_def convert_etl_def batch_size_def)
qed

theorem cancelled_run_loses_rows_witness:
  "\<exists>db1. DataConverter_Execute mem_store mem_delete (\<lambda>i. if i = 0 then None else Some (External Canceled)) (\<lambda>_. None)
      [sample_type] ''_raw_x'' ''{}'' 5 sample_handler [sample_input 1 ''a'', sample_input 2 ''b''] (100, \<lambda>_. Map.empty)
      = (BsErr (the (Convert (Some (External Canceled)))), db1, 1) \<and> snd db1 (TypeTable sample_type) = Map.empty"
proof -
  have key: "row_key (stripZeroByte (convert_origin (sample_input 1 ''a'') (sample_row ''a'' ''1'' 0))) = Some ''a:1''"
    by code_simp
  have handler: "sample_handler (sample_input 1 ''a'') = Inr [sample_row ''a'' ''1'' 0]"
    by (simp add: sample_handler_def sample_input_def)
  have type: "r_type (sample_row ''a'' ''1'' 0) = sample_type" by (simp add: sample_row_def)
  have del: "mem_delete (r_type (sample_row ''a'' ''1'' 0)) ''_raw_x'' ''{}'' (100, \<lambda>_. Map.empty) =
      (None, 99, (\<lambda>_. Map.empty)(TypeTable sample_type := purge ''_raw_x'' ''{}'' Map.empty))"
    by (simp add: mem_delete_def type)
  have flags: "st_ptr (r_type (sample_row ''a'' ''1'' 0))" "st_primary (r_type (sample_row ''a'' ''1'' 0)) \<noteq> []"
    "st_origin (r_type (sample_row ''a'' ''1'' 0))" by (simp_all add: type sample_type_def)
  show ?thesis
    using cancelled_run_loses_rows [where store = mem_store and look = snd and del = mem_delete
        and handler = sample_handler and inp = "sample_input 1 ''a''" and r = "sample_row ''a'' ''1'' 0" and n = 5
        and ctx = "\<lambda>i. if i = 0 then None else Some (External Canceled)" and e = "External Canceled"
        and fetch = "\<lambda>_. None" and table = "''_raw_x''" and params = "''{}''" and order = "[sample_type]"
        and ?inp2.0 = "sample_input 2 ''b''" and inps = "[]",
        OF memrec.record_store_axioms handler _ _ _ flags key _ del]
    by (auto simp: purge_def)
qed

end
