(* ===== verification/ErrorFacts.thy ===== *)
theory ErrorFacts
  imports LakeErrors
begin

text \<open>
  Facts about the error values: what survives wrapping (\<open>Type.Wrap\<close>, \<open>WrapRaw\<close>, \<open>Convert\<close>), what \<open>As\<close>
  finds, the messages of a chain, and the types of HTTP codes.
\<close>

section \<open>One wrap\<close>

lemma new_single_type:
  "err_type (newSingleCrdbError t (Some (Crdb ty m d w)) msg data) = (if t = Default then ty else t)"
  by (simp add: newSingleCrdbError_def)

lemma As_Crdb_iff: "As (Crdb ty m d w) t \<noteq> None \<longleftrightarrow> ty = t \<or> (\<exists>c. w = Some c \<and> As c t \<noteq> None)"
  by (auto split: option.splits)

text \<open>\<open>As\<close> returns the error it is called on, not the one in the chain that has the type.\<close>

lemma As_returns_self: "As e t = Some x \<Longrightarrow> x = e"
  by (cases e) (auto split: option.splits if_splits)

section \<open>A chain of wraps\<close>

text \<open>The effect of \<open>t.Wrap(err, msg, WithData(data))\<close> repeated on an error, innermost first.\<close>

type_synonym wrapping = "err_type \<times> string \<times> string option"

fun wraps :: "wrapping list \<Rightarrow> goerr \<Rightarrow> goerr" where
  "wraps [] e = e"
| "wraps ((t, msg, data) # ws) e = wraps ws (the (Wrap t (Some e) msg data))"

fun chain_types :: "err_type \<Rightarrow> wrapping list \<Rightarrow> err_type list" where
  "chain_types ty [] = [ty]"
| "chain_types ty ((t, msg, data) # ws) = ty # chain_types (if t = Default then ty else t) ws"

fun chain_messages :: "err_type \<Rightarrow> wrapping list \<Rightarrow> string list list" where
  "chain_messages ty [] = []"
| "chain_messages ty ((t, msg, data) # ws) =
     (let ty' = (if t = Default then ty else t)
      in chain_messages ty' ws @ (if msg = [] then [] else [addMessage ty' msg []]))"

lemma wraps_chain:
  "err_type (wraps ws (Crdb ty m d w)) = last (chain_types ty ws)
   \<and> (\<forall>s. IsSentinel (wraps ws (Crdb ty m d w)) s = IsSentinel (Crdb ty m d w) s)
   \<and> (\<forall>t. As (wraps ws (Crdb ty m d w)) t \<noteq> None \<longleftrightarrow>
        t \<in> set (chain_types ty ws) \<or> As (Crdb ty m d w) t \<noteq> None)
   \<and> Messages (wraps ws (Crdb ty m d w)) = chain_messages ty ws @ Messages (Crdb ty m d w)"
proof (induction ws arbitrary: ty m d w)
  case Nil
  then show ?case by auto
next
  case (Cons x ws)
  obtain t msg data where x: "x = (t, msg, data)" by (cases x)
  define ty' where "ty' = (if t = Default then ty else t)"
  have step: "wraps (x # ws) (Crdb ty m d w) = wraps ws (Crdb ty' (addMessage ty' msg []) data (Some (Crdb ty m d w)))"
    by (simp add: x Wrap_def newSingleCrdbError_def ty'_def)
  have mem: "ty' \<in> set (chain_types ty' ws)" by (cases ws) auto
  have types: "chain_types ty (x # ws) = ty # chain_types ty' ws" by (simp add: x ty'_def)
  have nonempty: "chain_types ty' ws \<noteq> []" by (cases ws) auto
  have as: "As (Crdb ty' (addMessage ty' msg []) data (Some (Crdb ty m d w))) u \<noteq> None \<longleftrightarrow>
      ty' = u \<or> As (Crdb ty m d w) u \<noteq> None" for u
    by (subst As_Crdb_iff) (simp del: As.simps)
  have self: "As (Crdb ty m d w) ty \<noteq> None" by simp
  have msgs: "Messages (Crdb ty' (addMessage ty' msg []) data (Some (Crdb ty m d w))) =
      (if msg = [] then [] else [addMessage ty' msg []]) @ Messages (Crdb ty m d w)"
    by (simp add: addMessage_def)
  have cm: "chain_messages ty (x # ws) =
      chain_messages ty' ws @ (if msg = [] then [] else [addMessage ty' msg []])"
    by (simp add: x ty'_def Let_def)
  note IH = Cons.IH [of ty' "addMessage ty' msg []" data "Some (Crdb ty m d w)"]
  have "err_type (wraps (x # ws) (Crdb ty m d w)) = last (chain_types ty (x # ws))"
    using IH nonempty by (simp add: step types)
  moreover have "IsSentinel (wraps (x # ws) (Crdb ty m d w)) s = IsSentinel (Crdb ty m d w) s" for s
    using IH by (simp add: step)
  moreover have "As (wraps (x # ws) (Crdb ty m d w)) u \<noteq> None \<longleftrightarrow>
      u \<in> set (chain_types ty (x # ws)) \<or> As (Crdb ty m d w) u \<noteq> None" for u
    using IH as [of u] mem self unfolding step types by (cases "u = ty") auto
  moreover have "Messages (wraps (x # ws) (Crdb ty m d w)) = chain_messages ty (x # ws) @ Messages (Crdb ty m d w)"
    using IH unfolding step cm msgs by simp
  ultimately show ?case by blast
qed

text \<open>What survives wrapping an error any number of times: a wrap of type \<open>Default\<close> takes over the type, so the
  outermost error has the type of the last wrap that names one, and its HTTP code; \<open>As\<close> finds a type
  exactly if some error of the chain has it and returns the outermost error; a sentinel is found
  as before; and the messages are those of the wraps, outermost first, empty ones left out,
  before those of the wrapped error.\<close>

theorem wrapping_keeps:
  "let e = wraps ws (Crdb ty m d w)
   in GetHttpCode (err_type e) = GetHttpCode (last (chain_types ty ws)) \<and>
      As e t = (if t \<in> set (chain_types ty ws) then Some e else map_option (\<lambda>_. e) (As (Crdb ty m d w) t)) \<and>
      IsSentinel e s = IsSentinel (Crdb ty m d w) s \<and>
      Messages e = chain_messages ty ws @ Messages (Crdb ty m d w)"
proof -
  define e where "e = wraps ws (Crdb ty m d w)"
  note chain = wraps_chain [of ws ty m d w, folded e_def]
  have "As e t = (if t \<in> set (chain_types ty ws) then Some e else map_option (\<lambda>_. e) (As (Crdb ty m d w) t))"
  proof (cases "As e t")
    case None
    then have "t \<notin> set (chain_types ty ws)" "As (Crdb ty m d w) t = None"
      using chain by (metis, metis)
    with None show ?thesis by (simp del: As.simps)
  next
    case (Some x)
    then have "x = e" by (rule As_returns_self)
    with Some show ?thesis using chain by (auto simp del: As.simps)
  qed
  with chain show ?thesis unfolding e_def [symmetric] Let_def by (simp del: As.simps)
qed

section \<open>Types of HTTP codes\<close>

text \<open>\<open>HttpStatus\<close> gives every HTTP code a type of its own, the predefined one for the codes that have one,
  and \<open>GetHttpCode\<close> reads the code back; the types without a code answer 500.\<close>

theorem HttpStatus_roundtrip:
  "GetHttpCode (HttpStatus code) = (if code = 0 then 500 else code) \<and>
   (HttpStatus code = HttpStatus code' \<longleftrightarrow> code = code') \<and>
   HttpStatus (httpCode NotFound) = NotFound \<and> HttpStatus (httpCode BadInput) = BadInput \<and>
   HttpStatus (httpCode Internal) = Internal \<and> GetHttpCode SubtaskErr = 500"
  by (auto simp: GetHttpCode_def HttpStatus_def)

text \<open>\<open>Convert\<close> leaves an error of the package alone and turns a foreign one into one of type \<open>Default\<close> with its
  text as message.\<close>

lemma Convert_idem: "Convert (Convert e) = Convert e"
  by (cases e rule: option.exhaust; cases "the e") (auto simp: Convert_def wrapRaw_def newSingleCrdbError_def)

lemma Convert_sentinel: "Convert (Some e) = Some e' \<Longrightarrow> IsSentinel e' s = IsSentinel e s"
  by (cases e) (auto simp: Convert_def wrapRaw_def newSingleCrdbError_def)

text \<open>\<open>Combine\<close> keeps one message per error, in order, but neither their types nor their chains.\<close>

lemma Combine_forgets: "length (err_msgs (Combine t es)) = length es \<and> err_wraps (Combine t es) = None \<and>
    (As (Combine t es) u \<noteq> None \<longleftrightarrow> u = t)"
  by (auto simp: Combine_def)

end
