(* ===== verification/RefPairs.thy ===== *)
theory RefPairs
  imports LakeErrors
begin

text \<open>
  The refs and commit pairs of the \<open>refdiff\<close> plugin
  (\<open>backend/plugins/refdiff/tasks/refdiff_task_data.go\<close>): the four orders of refs, the selection of
  tags by a pattern, the commit pairs compared, and the pairs of ref ids of the issue diff.

  Refs are rows of the table \<open>refs\<close>. Regular expressions are a parameter: \<open>compile p\<close> is \<open>None\<close> when the
  pattern does not parse and the predicate it matches otherwise. The four \<open>sort.Interface\<close> types are orders on keys
  of a ref, instances of the type class \<open>linorder\<close>; \<open>sort.Sort\<close> may return refs of equal keys in any
  order, which the model resolves by their order in the query.
\<close>

section \<open>Lexicographic orders\<close>

fun lex_less :: "('a \<Rightarrow> 'a \<Rightarrow> bool) \<Rightarrow> 'a list \<Rightarrow> 'a list \<Rightarrow> bool" where
  "lex_less lt xs [] = False"
| "lex_less lt [] (y # ys) = True"
| "lex_less lt (x # xs) (y # ys) = (lt x y \<or> (x = y \<and> lex_less lt xs ys))"

locale strict_linear =
  fixes lt :: "'a \<Rightarrow> 'a \<Rightarrow> bool"
  assumes irrefl: "\<not> lt x x"
    and trans: "lt x y \<Longrightarrow> lt y z \<Longrightarrow> lt x z"
    and total: "x \<noteq> y \<Longrightarrow> lt x y \<or> lt y x"
begin

lemma asym: "lt x y \<Longrightarrow> \<not> lt y x"
  using irrefl trans by blast

lemma lex_irrefl: "\<not> lex_less lt xs xs"
  by (induction xs) (auto simp: irrefl)

lemma lex_trans: "lex_less lt xs ys \<Longrightarrow> lex_less lt ys zs \<Longrightarrow> lex_less lt xs zs"
proof (induction xs arbitrary: ys zs)
  case Nil
  then show ?case by (cases ys; cases zs) auto
next
  case (Cons x xs)
  then obtain y ys' where ys: "ys = y # ys'" by (cases ys) auto
  with Cons.prems obtain z zs' where zs: "zs = z # zs'" by (cases zs) auto
  from Cons ys zs trans show ?case by auto
qed

lemma lex_total: "xs \<noteq> ys \<Longrightarrow> lex_less lt xs ys \<or> lex_less lt ys xs"
proof (induction xs arbitrary: ys)
  case Nil
  then show ?case by (cases ys) auto
next
  case (Cons x xs)
  then show ?case using total by (cases ys) auto
qed

lemma lex_strict_linear: "strict_linear (lex_less lt)"
  using lex_irrefl lex_trans lex_total by unfold_locales blast+

lemma order_laws:
  "(lt x y) = ((x = y \<or> lt x y) \<and> \<not> (y = x \<or> lt y x))"
  "x = y \<or> lt x y \<Longrightarrow> y = z \<or> lt y z \<Longrightarrow> x = z \<or> lt x z"
  "x = y \<or> lt x y \<Longrightarrow> y = x \<or> lt y x \<Longrightarrow> x = y"
  "(x = y \<or> lt x y) \<or> (y = x \<or> lt y x)"
  using irrefl trans total asym by blast+

end

section \<open>The orders of refs\<close>

definition char_less :: "char \<Rightarrow> char \<Rightarrow> bool" where
  "char_less a b \<longleftrightarrow> (of_char a :: nat) < of_char b"

text \<open>The operator \<open><\<close> on Go strings.\<close>

definition str_less :: "string \<Rightarrow> string \<Rightarrow> bool" where
  "str_less = lex_less char_less"

text \<open>\<open>RefsSemver.Less\<close>: the loop over the parts of \<open>rs[j].Name\<close>.\<close>

fun semver_loop :: "string list \<Rightarrow> string list \<Rightarrow> bool" where
  "semver_loop parti [] = False"
| "semver_loop [] (b # partj) = True"
| "semver_loop (a # parti) (b # partj) =
     (if length a < length b then True
      else if length a > length b then False
      else if str_less a b then True
      else if str_less b a then False
      else semver_loop parti partj)"

definition semver_less :: "string \<Rightarrow> string \<Rightarrow> bool" where
  "semver_less namei namej = semver_loop (strings_split (CHR ''.'') namei) (strings_split (CHR ''.'') namej)"

definition part_less :: "string \<Rightarrow> string \<Rightarrow> bool" where
  "part_less a b \<longleftrightarrow> length a < length b \<or> (length a = length b \<and> str_less a b)"

interpretation chars: strict_linear char_less
proof unfold_locales
  show "x \<noteq> y \<Longrightarrow> char_less x y \<or> char_less y x" for x y
    unfolding char_less_def by (metis linorder_neqE_nat of_char_eq_iff)
qed (auto simp: char_less_def)

interpretation strings: strict_linear str_less
  unfolding str_less_def by (rule chars.lex_strict_linear)

interpretation parts: strict_linear part_less
proof unfold_locales
  fix x y z
  show "\<not> part_less x x" by (simp add: part_less_def strings.irrefl)
  show "part_less x y \<Longrightarrow> part_less y z \<Longrightarrow> part_less x z"
    unfolding part_less_def by (elim disjE conjE) (auto intro: strings.trans)
  show "x \<noteq> y \<Longrightarrow> part_less x y \<or> part_less y x"
    unfolding part_less_def using strings.total [of x y] linorder_less_linear [of "length x" "length y"] by metis
qed

interpretation part_lists: strict_linear "lex_less part_less"
  by (rule parts.lex_strict_linear)

lemma semver_loop_lex: "semver_loop xs ys = lex_less part_less xs ys"
  by (induction xs ys rule: semver_loop.induct)
    (auto simp: part_less_def strings.irrefl dest: strings.asym strings.total)

lemma split_inject: "strings_split c s = strings_split c t \<Longrightarrow> s = t"
  by (metis strings_join_split)

interpretation semver: strict_linear semver_less
proof unfold_locales
  fix x y z
  show "\<not> semver_less x x" by (simp add: semver_less_def semver_loop_lex part_lists.irrefl)
  show "semver_less x y \<Longrightarrow> semver_less y z \<Longrightarrow> semver_less x z"
    using part_lists.trans by (auto simp: semver_less_def semver_loop_lex)
  show "x \<noteq> y \<Longrightarrow> semver_less x y \<or> semver_less y x"
    using part_lists.total split_inject by (metis semver_less_def semver_loop_lex)
qed

text \<open>Names compared as Go strings and as versions, as instances of \<open>linorder\<close>.\<close>

datatype text_key = TextKey string
datatype semver_key = SemverKey string

instantiation text_key :: linorder
begin

fun less_text_key :: "text_key \<Rightarrow> text_key \<Rightarrow> bool" where
  "less_text_key (TextKey a) (TextKey b) = str_less a b"

definition less_eq_text_key :: "text_key \<Rightarrow> text_key \<Rightarrow> bool" where
  "less_eq_text_key a b \<longleftrightarrow> a = b \<or> a < b"

instance
proof
  fix x y z :: text_key
  obtain a b c where k: "x = TextKey a" "y = TextKey b" "z = TextKey c"
    by (cases x; cases y; cases z) blast
  show "(x < y) = (x \<le> y \<and> \<not> y \<le> x)"
    using strings.order_laws(1) [of a b] by (simp add: less_eq_text_key_def k)
  show "x \<le> x" by (simp add: less_eq_text_key_def)
  show "x \<le> y \<Longrightarrow> y \<le> z \<Longrightarrow> x \<le> z"
    using strings.order_laws(2) [of a b c] by (simp add: less_eq_text_key_def k)
  show "x \<le> y \<Longrightarrow> y \<le> x \<Longrightarrow> x = y"
    using strings.order_laws(3) [of a b] by (simp add: less_eq_text_key_def k)
  show "x \<le> y \<or> y \<le> x"
    using strings.order_laws(4) [of a b] by (simp add: less_eq_text_key_def k)
qed

end

instantiation semver_key :: linorder
begin

fun less_semver_key :: "semver_key \<Rightarrow> semver_key \<Rightarrow> bool" where
  "less_semver_key (SemverKey a) (SemverKey b) = semver_less a b"

definition less_eq_semver_key :: "semver_key \<Rightarrow> semver_key \<Rightarrow> bool" where
  "less_eq_semver_key a b \<longleftrightarrow> a = b \<or> a < b"

instance
proof
  fix x y z :: semver_key
  obtain a b c where k: "x = SemverKey a" "y = SemverKey b" "z = SemverKey c"
    by (cases x; cases y; cases z) blast
  show "(x < y) = (x \<le> y \<and> \<not> y \<le> x)"
    using semver.order_laws(1) [of a b] by (simp add: less_eq_semver_key_def k)
  show "x \<le> x" by (simp add: less_eq_semver_key_def)
  show "x \<le> y \<Longrightarrow> y \<le> z \<Longrightarrow> x \<le> z"
    using semver.order_laws(2) [of a b c] by (simp add: less_eq_semver_key_def k)
  show "x \<le> y \<Longrightarrow> y \<le> x \<Longrightarrow> x = y"
    using semver.order_laws(3) [of a b] by (simp add: less_eq_semver_key_def k)
  show "x \<le> y \<or> y \<le> x"
    using semver.order_laws(4) [of a b] by (simp add: less_eq_semver_key_def k)
qed

end

section \<open>Versions made of numbers\<close>

definition digits_value :: "string \<Rightarrow> nat" where
  "digits_value s = foldl (\<lambda>n c. 10 * n + (of_char c - 48)) 0 s"

lemma digits_value_snoc [simp]: "digits_value (s @ [c]) = 10 * digits_value s + (of_char c - 48)"
  by (simp add: digits_value_def)

lemma digits_value_show [simp]: "digits_value (show_nat n) = n"
proof (induction n rule: show_nat.induct)
  case (1 n)
  show ?case
  proof (cases "n < 10")
    case True
    then show ?thesis by (simp add: show_nat.simps [of n] digits_value_def of_digit_char)
  next
    case False
    then show ?thesis using "1.IH" by (simp add: show_nat.simps [of n] of_digit_char)
  qed
qed

lemma digits_value_cons:
  "digits_value (c # s) = (of_char c - 48) * 10 ^ length s + digits_value s"
  by (induction s rule: rev_induct) (simp_all add: digits_value_def algebra_simps)

lemma digits_value_bound: "\<forall>c \<in> set s. is_digit c \<Longrightarrow> digits_value s < 10 ^ length s"
proof (induction s)
  case (Cons c s)
  then have "(of_char c - 48 :: nat) \<le> 9" "digits_value s < 10 ^ length s" by (auto simp: is_digit_def)
  then have "(of_char c - 48) * 10 ^ length s + digits_value s < 9 * 10 ^ length s + (10 :: nat) ^ length s"
    by (intro add_le_less_mono mult_le_mono) auto
  then show ?case by (simp add: digits_value_cons)
qed (simp add: digits_value_def)

lemma lex_digits:
  "length s = length t \<Longrightarrow> \<forall>c \<in> set s. is_digit c \<Longrightarrow> \<forall>c \<in> set t. is_digit c \<Longrightarrow>
    str_less s t \<longleftrightarrow> digits_value s < digits_value t"
proof (induction s t rule: list_induct2)
  case (Cons a s b t)
  have digits: "is_digit a" "is_digit b" using Cons.prems by simp_all
  have bounds: "digits_value s < 10 ^ length t" "digits_value t < 10 ^ length t"
    using Cons.prems Cons.hyps digits_value_bound [of s] digits_value_bound [of t] by simp_all
  consider "(of_char a :: nat) < of_char b" | "(of_char b :: nat) < of_char a" | "a = b"
    by (metis linorder_neqE_nat of_char_eq_iff)
  then show ?case
  proof cases
    case 1
    then have "(of_char a - 48 :: nat) + 1 \<le> of_char b - 48" using digits by (auto simp: is_digit_def)
    then have "((of_char a - 48 :: nat) + 1) * 10 ^ length t \<le> (of_char b - 48) * 10 ^ length t"
      by (rule mult_le_mono1)
    with bounds have "digits_value (a # s) < digits_value (b # t)"
      using Cons.hyps by (simp add: digits_value_cons)
    with 1 show ?thesis by (simp add: str_less_def char_less_def)
  next
    case 2
    then have "(of_char b - 48 :: nat) + 1 \<le> of_char a - 48" using digits by (auto simp: is_digit_def)
    then have "((of_char b - 48 :: nat) + 1) * 10 ^ length t \<le> (of_char a - 48) * 10 ^ length t"
      by (rule mult_le_mono1)
    with bounds have "digits_value (b # t) < digits_value (a # s)"
      using Cons.hyps by (simp add: digits_value_cons)
    moreover have "a \<noteq> b" using 2 by auto
    ultimately show ?thesis using 2 by (simp add: str_less_def char_less_def)
  next
    case 3
    then show ?thesis using Cons by (simp add: str_less_def char_less_def digits_value_cons)
  qed
qed (simp add: str_less_def digits_value_def)

lemma show_nat_leading: "10 \<le> n \<Longrightarrow> 10 ^ (length (show_nat n) - 1) \<le> n"
proof (induction n rule: show_nat.induct)
  case (1 n)
  have len: "length (show_nat n) = Suc (length (show_nat (n div 10)))"
    using "1.prems" by (simp add: show_nat.simps [of n])
  have "10 ^ (length (show_nat (n div 10)) - 1) \<le> n div 10"
  proof (cases "n div 10 < 10")
    case True
    with "1.prems" show ?thesis by (simp add: show_nat.simps [of "n div 10"])
  next
    case False
    with "1.IH" "1.prems" show ?thesis by simp
  qed
  then have "10 * 10 ^ (length (show_nat (n div 10)) - 1) \<le> n" by linarith
  then show ?case using len by (cases "show_nat (n div 10)") auto
qed

lemma show_nat_length_less:
  assumes "length (show_nat a) < length (show_nat b)"
  shows "a < b"
proof -
  have "\<not> b < 10"
    using assms by (auto simp: show_nat.simps [of b] split: if_splits)
  then have "10 ^ (length (show_nat b) - 1) \<le> b" by (intro show_nat_leading) simp
  moreover have "a < 10 ^ length (show_nat a)"
    using digits_value_bound [of "show_nat a"] show_nat_digits by simp
  moreover have "(10 :: nat) ^ length (show_nat a) \<le> 10 ^ (length (show_nat b) - 1)"
    using assms by (intro power_increasing) auto
  ultimately show ?thesis by linarith
qed

lemma part_less_numbers: "part_less (show_nat a) (show_nat b) \<longleftrightarrow> a < b"
proof -
  consider "length (show_nat a) < length (show_nat b)" | "length (show_nat b) < length (show_nat a)"
    | "length (show_nat a) = length (show_nat b)" by linarith
  then show ?thesis
  proof cases
    case 1
    then show ?thesis using show_nat_length_less by (simp add: part_less_def)
  next
    case 2
    then show ?thesis using show_nat_length_less [OF 2] by (simp add: part_less_def)
  next
    case 3
    then show ?thesis using lex_digits [OF 3] show_nat_digits by (simp add: part_less_def)
  qed
qed

lemma lex_parts_numbers: "lex_less part_less (map show_nat xs) (map show_nat ys) \<longleftrightarrow> lex_less (<) xs ys"
  by (induction "(<) :: nat \<Rightarrow> nat \<Rightarrow> bool" xs ys rule: lex_less.induct) (simp_all add: part_less_numbers)

lemma part_less_prefix: "part_less (p @ a) (p @ b) \<longleftrightarrow> part_less a b"
proof -
  have "str_less (p @ a) (p @ b) \<longleftrightarrow> str_less a b"
    by (induction p) (simp_all add: str_less_def char_less_def)
  then show ?thesis by (simp add: part_less_def)
qed

lemma split_no_sep: "c \<notin> set s \<Longrightarrow> strings_split c s = [s]"
  by (induction s) auto

lemma split_append_sep: "c \<notin> set s \<Longrightarrow> strings_split c (s @ c # t) = s # strings_split c t"
  by (induction s) auto

lemma split_join: "xs \<noteq> [] \<Longrightarrow> \<forall>x \<in> set xs. c \<notin> set x \<Longrightarrow> strings_split c (strings_join [c] xs) = xs"
  by (induction xs rule: induct_list012) (simp_all add: split_no_sep split_append_sep)

lemma show_nat_no_dot: "CHR ''.'' \<notin> set (show_nat n)"
  by (auto dest!: show_nat_digits simp: is_digit_def)

definition version_name :: "string \<Rightarrow> nat list \<Rightarrow> string" where
  "version_name p ns = p @ strings_join ''.'' (map show_nat ns)"

lemma split_version:
  assumes "ns \<noteq> []" "CHR ''.'' \<notin> set p"
  shows "strings_split (CHR ''.'') (version_name p ns) = (p @ show_nat (hd ns)) # map show_nat (tl ns)"
proof -
  obtain m ms where ns: "ns = m # ms" using assms(1) by (cases ns) auto
  have "version_name p ns = strings_join ''.'' ((p @ show_nat m) # map show_nat ms)"
    by (cases ms) (simp_all add: version_name_def ns)
  moreover have "strings_split (CHR ''.'') (strings_join ''.'' ((p @ show_nat m) # map show_nat ms))
      = (p @ show_nat m) # map show_nat ms"
    using assms(2) show_nat_no_dot by (intro split_join) auto
  ultimately show ?thesis by (simp add: ns)
qed

text \<open>The order \<open>semver\<close> of tags is the numerical order of versions: for names made of the same prefix, such
  as \<open>v\<close>, and of numbers separated by dots, \<open>RefsSemver.Less\<close> holds exactly if the list of numbers is less
  in the lexicographic order of naturals, a proper prefix being less; so \<open>v1.9\<close> comes before \<open>v1.10\<close>.\<close>

theorem semver_less_numeric:
  assumes "xs \<noteq> []" and "ys \<noteq> []" and "CHR ''.'' \<notin> set p"
  shows "semver_less (version_name p xs) (version_name p ys) \<longleftrightarrow> lex_less (<) xs ys"
proof -
  obtain x xs' y ys' where "xs = x # xs'" "ys = y # ys'" using assms(1,2) by (cases xs; cases ys) auto
  then show ?thesis
    using split_version [OF assms(1,3)] split_version [OF assms(2,3)]
    by (simp add: semver_less_def semver_loop_lex part_less_prefix part_less_numbers lex_parts_numbers)
qed

theorem semver_less_numeric_witness:
  "semver_less (version_name ''v'' [1, 9, 3]) (version_name ''v'' [1, 10])"
  using semver_less_numeric [of "[1, 9, 3]" "[1, 10]" "''v''"] by simp

section \<open>Tags and pairs\<close>

record ref =
  refId :: string
  refRepoId :: string
  refName :: string
  refCommitSha :: string
  refCreatedDate :: "int option"

record RefPair =
  rpNewRef :: string
  rpOldRef :: string

record RefdiffOptions =
  roRepoId :: string
  roPairs :: "RefPair list"
  roTagsPattern :: string
  roTagsLimit :: int
  roTagsOrder :: string
  roAllPairs :: "(string \<times> string \<times> string \<times> string) list"
  roProjectName :: string

text \<open>\<open>ORDER BY created_date DESC\<close>, rows without a date last.\<close>

definition newest_first :: "ref list \<Rightarrow> ref list" where
  "newest_first rs = sort_key (\<lambda>r. - the (refCreatedDate r)) (filter (\<lambda>r. refCreatedDate r \<noteq> None) rs)
     @ filter (\<lambda>r. refCreatedDate r = None) rs"

text \<open>Ties keep the order of the query, as the insertion sort that \<open>sort.Sort\<close> uses on short slices does.\<close>

definition order_refs :: "string \<Rightarrow> ref list \<Rightarrow> ref list" where
  "order_refs tagsOrder rs =
     (if tagsOrder = ''alphabetically'' then sort_key (\<lambda>r. TextKey (refId r)) rs
      else if tagsOrder = ''reverse alphabetically'' then rev (sort_key (\<lambda>r. TextKey (refId r)) (rev rs))
      else if tagsOrder = ''semver'' then sort_key (\<lambda>r. SemverKey (refName r)) rs
      else if tagsOrder = ''reverse semver'' then rev (sort_key (\<lambda>r. SemverKey (refName r)) (rev rs))
      else rs)"

text \<open>The rows up to the first that cannot be read.\<close>

fun fetch_refs :: "(nat \<Rightarrow> goerr option) \<Rightarrow> nat \<Rightarrow> (string \<Rightarrow> bool) \<Rightarrow> ref list \<Rightarrow> goerr + ref list" where
  "fetch_refs fetch i matches [] = Inr []"
| "fetch_refs fetch i matches (r # rs) =
     (case fetch i of
        Some e \<Rightarrow> Inl e
      | None \<Rightarrow> (case fetch_refs fetch (i + 1) matches rs of
          Inl e \<Rightarrow> Inl e
        | Inr out \<Rightarrow> Inr (if matches (refName r) then r # out else out)))"

definition CalculateTagPattern :: "(string \<Rightarrow> (string \<Rightarrow> bool) option) \<Rightarrow> goerr option \<Rightarrow> (nat \<Rightarrow> goerr option) \<Rightarrow>
    ref list \<Rightarrow> string \<Rightarrow> int \<Rightarrow> string \<Rightarrow> goerr + ref list" where
  "CalculateTagPattern compile cursor_err fetch refs tagsPattern tagsLimit tagsOrder =
     (if tagsPattern = [] \<or> tagsLimit \<le> 1 then Inr []
      else (case cursor_err of
        Some e \<Rightarrow> Inl e
      | None \<Rightarrow> (case compile tagsPattern of
          None \<Rightarrow> Inl (newSingleCrdbError Default (Some (External ''error parsing regexp''))
                    (''unable to parse: '' @ tagsPattern) None)
        | Some matches \<Rightarrow> (case fetch_refs fetch 0 matches (newest_first refs) of
            Inl e \<Rightarrow> Inl e
          | Inr rs \<Rightarrow>
              let rs = order_refs tagsOrder rs
              in Inr (if tagsLimit < int (length rs) then take (nat tagsLimit) rs else rs)))))"

text \<open>\<open>ref2sha\<close>: a name without a ref gives the empty sha, because a missing row is not an error. \<open>first\<close> is the
  failure of the query for an id, if any.\<close>

definition ref2sha :: "(string \<Rightarrow> goerr option) \<Rightarrow> ref list \<Rightarrow> string \<Rightarrow> string \<Rightarrow> goerr + string" where
  "ref2sha first refs repoId name =
     (if name = [] then Inl (New Default ''ref name is empty'')
      else let i = repoId @ '':'' @ name in
        case first i of
          Some e \<Rightarrow> Inl (newSingleCrdbError NotFound (Some e)
              (''faild to load Ref info for repoId:'' @ repoId @ '', refName:'' @ name) None)
        | None \<Rightarrow> Inr (case find (\<lambda>r. refId r = i) refs of None \<Rightarrow> [] | Some r \<Rightarrow> refCommitSha r))"

type_synonym RefCommitPair = "string \<times> string \<times> string \<times> string"

fun tag_pairs :: "ref list \<Rightarrow> RefCommitPair list" where
  "tag_pairs (a # b # rs) = (refCommitSha a, refCommitSha b, refName a, refName b) # tag_pairs (b # rs)"
| "tag_pairs rs = []"

definition same_commits :: "RefCommitPair \<Rightarrow> RefCommitPair \<Rightarrow> bool" where
  "same_commits a b \<longleftrightarrow> fst a = fst b \<and> fst (snd a) = fst (snd b)"

fun option_pairs :: "(string \<Rightarrow> goerr option) \<Rightarrow> ref list \<Rightarrow> string \<Rightarrow> nat \<Rightarrow> RefPair list \<Rightarrow> RefCommitPair list
    \<Rightarrow> goerr + RefCommitPair list" where
  "option_pairs first refs repoId i [] acc = Inr acc"
| "option_pairs first refs repoId i (p # ps) acc =
     (case ref2sha first refs repoId (rpNewRef p) of
        Inl e \<Rightarrow> Inl (newSingleCrdbError Default (Some e)
            (''failed to load commit sha for NewRef on pair #'' @ show_nat i) None)
      | Inr newCommit \<Rightarrow>
        (case ref2sha first refs repoId (rpOldRef p) of
           Inl e \<Rightarrow> Inl (newSingleCrdbError Default (Some e)
               (''failed to load commit sha for OleRef on pair #'' @ show_nat i) None)
         | Inr oldCommit \<Rightarrow>
             let pair = (newCommit, oldCommit, rpNewRef p, rpOldRef p)
             in option_pairs first refs repoId (i + 1) ps
                  (if list_ex (same_commits pair) acc then acc else acc @ [pair])))"

definition CalculateCommitPairs :: "(string \<Rightarrow> goerr option) \<Rightarrow> ref list \<Rightarrow> string \<Rightarrow> RefPair list \<Rightarrow> ref list
    \<Rightarrow> goerr + RefCommitPair list" where
  "CalculateCommitPairs first refs repoId pairs rs = option_pairs first refs repoId 0 pairs (tag_pairs rs)"

definition PrepareTaskData :: "(string \<Rightarrow> (string \<Rightarrow> bool) option) \<Rightarrow> goerr option \<Rightarrow> (nat \<Rightarrow> goerr option) \<Rightarrow>
    (string \<Rightarrow> goerr option) \<Rightarrow> ref list \<Rightarrow> goerr + RefdiffOptions \<Rightarrow> goerr + RefdiffOptions" where
  "PrepareTaskData compile cursor_err fetch first refs decoded =
     (case decoded of
        Inl e \<Rightarrow> Inl e
      | Inr op \<Rightarrow>
        (case CalculateTagPattern compile cursor_err fetch refs (roTagsPattern op) (roTagsLimit op) (roTagsOrder op) of
           Inl e \<Rightarrow> Inl e
         | Inr rs \<Rightarrow> (case CalculateCommitPairs first refs (roRepoId op) (roPairs op) rs of
             Inl e \<Rightarrow> Inl e
           | Inr pairs \<Rightarrow> Inr (op\<lparr>roAllPairs := pairs\<rparr>))))"

definition CaculatePairList :: "string \<Rightarrow> RefCommitPair list \<Rightarrow> (string \<times> string) list" where
  "CaculatePairList repoId pairs =
     map (\<lambda>(n, old, newRef, oldRef). (repoId @ '':'' @ newRef, repoId @ '':'' @ oldRef)) pairs"

lemma option_pairs_spec:
  "option_pairs first refs repoId i ps acc = Inr out \<Longrightarrow>
    \<exists>added. out = acc @ added \<and> distinct (map (\<lambda>p. (fst p, fst (snd p))) added) \<and>
      (\<forall>p \<in> set added. \<not> list_ex (same_commits p) acc) \<and>
      (\<forall>p \<in> set ps. \<exists>q \<in> set out. ref2sha first refs repoId (rpNewRef p) = Inr (fst q) \<and>
         ref2sha first refs repoId (rpOldRef p) = Inr (fst (snd q)))"
proof (induction first refs repoId i ps acc rule: option_pairs.induct)
  case (2 first refs repoId i p ps acc)
  obtain newCommit oldCommit where sha: "ref2sha first refs repoId (rpNewRef p) = Inr newCommit"
    "ref2sha first refs repoId (rpOldRef p) = Inr oldCommit"
    using "2.prems" by (auto split: sum.splits)
  define pair where "pair = (newCommit, oldCommit, rpNewRef p, rpOldRef p)"
  define acc' where "acc' = (if list_ex (same_commits pair) acc then acc else acc @ [pair])"
  have "option_pairs first refs repoId (i + 1) ps acc' = Inr out"
    using "2.prems" sha unfolding pair_def acc'_def by (simp add: Let_def split del: if_split)
  then obtain added where added: "out = acc' @ added" "distinct (map (\<lambda>p. (fst p, fst (snd p))) added)"
    "\<forall>p \<in> set added. \<not> list_ex (same_commits p) acc'"
    "\<forall>p \<in> set ps. \<exists>q \<in> set out. ref2sha first refs repoId (rpNewRef p) = Inr (fst q) \<and>
         ref2sha first refs repoId (rpOldRef p) = Inr (fst (snd q))"
    using "2.IH" [OF sha refl] unfolding acc'_def pair_def by blast
  have "\<exists>q \<in> set acc'. same_commits pair q" by (auto simp: acc'_def list_ex_iff same_commits_def)
  then have here: "\<exists>q \<in> set out. ref2sha first refs repoId (rpNewRef p) = Inr (fst q) \<and>
      ref2sha first refs repoId (rpOldRef p) = Inr (fst (snd q))"
    using added(1) sha by (auto simp: same_commits_def pair_def)
  define added' where "added' = (if list_ex (same_commits pair) acc then added else pair # added)"
  have "out = acc @ added'" using added(1) by (simp add: acc'_def added'_def)
  moreover have "distinct (map (\<lambda>p. (fst p, fst (snd p))) added')"
    using added(2,3) by (auto simp: added'_def acc'_def same_commits_def)
  moreover have "\<forall>p \<in> set added'. \<not> list_ex (same_commits p) acc"
    using added(3) by (auto simp: added'_def acc'_def split: if_splits)
  ultimately show ?case using added(4) here by (auto intro!: exI [of _ added'])
qed auto

lemma length_tag_pairs: "length (tag_pairs rs) = length rs - 1"
  by (induction rs rule: tag_pairs.induct) auto

lemma nth_tag_pairs: "i + 1 < length rs \<Longrightarrow>
    tag_pairs rs ! i = (refCommitSha (rs ! i), refCommitSha (rs ! (i + 1)), refName (rs ! i), refName (rs ! (i + 1)))"
proof (induction rs arbitrary: i rule: tag_pairs.induct)
  case (1 a b rs)
  then show ?case by (cases i) auto
qed auto

text \<open>The pairs a refdiff task compares: first every two consecutive tags of the selected list, the earlier one as
  the new side, then the requested pairs, each of which is present with the commits its refs point to, where
  no requested pair repeats the commits of a tag pair or of another requested pair.\<close>

theorem CalculateCommitPairs_pairs:
  assumes "CalculateCommitPairs first refs repoId pairs rs = Inr out"
  shows "\<exists>added. length out = length rs - 1 + length added \<and>
    (\<forall>i < length rs - 1. out ! i =
       (refCommitSha (rs ! i), refCommitSha (rs ! (i + 1)), refName (rs ! i), refName (rs ! (i + 1)))) \<and>
    drop (length rs - 1) out = added \<and> distinct (map (\<lambda>p. (fst p, fst (snd p))) added) \<and>
    (\<forall>p \<in> set added. \<forall>q \<in> set (take (length rs - 1) out). \<not> same_commits p q) \<and>
    (\<forall>p \<in> set pairs. \<exists>q \<in> set out. ref2sha first refs repoId (rpNewRef p) = Inr (fst q) \<and>
       ref2sha first refs repoId (rpOldRef p) = Inr (fst (snd q)))"
proof -
  obtain added where out: "out = tag_pairs rs @ added" "distinct (map (\<lambda>p. (fst p, fst (snd p))) added)"
    "\<forall>p \<in> set added. \<not> list_ex (same_commits p) (tag_pairs rs)"
    "\<forall>p \<in> set pairs. \<exists>q \<in> set out. ref2sha first refs repoId (rpNewRef p) = Inr (fst q) \<and>
       ref2sha first refs repoId (rpOldRef p) = Inr (fst (snd q))"
    using option_pairs_spec assms unfolding CalculateCommitPairs_def by blast
  have "\<forall>i < length rs - 1. out ! i =
      (refCommitSha (rs ! i), refCommitSha (rs ! (i + 1)), refName (rs ! i), refName (rs ! (i + 1)))"
    using nth_tag_pairs by (auto simp: out(1) nth_append length_tag_pairs)
  moreover have "take (length rs - 1) out = tag_pairs rs" "drop (length rs - 1) out = added"
    using length_tag_pairs [of rs] by (simp_all add: out(1))
  ultimately show ?thesis using out by (auto simp: length_tag_pairs list_ex_iff)
qed

theorem CalculateCommitPairs_pairs_witness:
  "\<exists>out. CalculateCommitPairs (\<lambda>_. None)
      [\<lparr>refId = ''r:a'', refRepoId = ''r'', refName = ''a'', refCommitSha = ''1'', refCreatedDate = None\<rparr>,
       \<lparr>refId = ''r:b'', refRepoId = ''r'', refName = ''b'', refCommitSha = ''2'', refCreatedDate = None\<rparr>]
      ''r'' [\<lparr>rpNewRef = ''a'', rpOldRef = ''b''\<rparr>] [] = Inr out \<and> (\<exists>q \<in> set out. fst q = ''1'' \<and> fst (snd q) = ''2'')"
proof -
  define refs where "refs =
    [\<lparr>refId = ''r:a'', refRepoId = ''r'', refName = ''a'', refCommitSha = ''1'', refCreatedDate = None\<rparr>,
     \<lparr>refId = ''r:b'', refRepoId = ''r'', refName = ''b'', refCommitSha = ''2'', refCreatedDate = None :: int option\<rparr>]"
  have eq: "CalculateCommitPairs (\<lambda>_. None) refs ''r'' [\<lparr>rpNewRef = ''a'', rpOldRef = ''b''\<rparr>] []
      = Inr [(''1'', ''2'', ''a'', ''b'')]"
    "ref2sha (\<lambda>_. None) refs ''r'' ''a'' = Inr ''1''" "ref2sha (\<lambda>_. None) refs ''r'' ''b'' = Inr ''2''"
    by (simp_all add: refs_def CalculateCommitPairs_def ref2sha_def Let_def)
  from CalculateCommitPairs_pairs [OF eq(1)] eq show ?thesis unfolding refs_def by auto
qed

end
