(* ===== verification/Conn.thy ===== *)
theory Conn
  imports LakeErrors
begin

text \<open>
  Subtasks that talk to the database directly. A connection holds the tables a subtask works on, the
  scripted failures of its next statements (\<open>None\<close>, or the end of the list, is a statement that
  succeeds) and the calls of \<open>IncProgress\<close> so far. An action returns an error or a value and the
  connection after it; a statement that fails changes no table.
\<close>

record 'd conn =
  cn_data :: 'd
  cn_faults :: "goerr option list"
  cn_progress :: nat

type_synonym ('d, 'a) act = "'d conn \<Rightarrow> (goerr + 'a) \<times> 'd conn"

definition act_ret :: "'a \<Rightarrow> ('d, 'a) act" where
  "act_ret x s = (Inr x, s)"

definition act_fail :: "goerr \<Rightarrow> ('d, 'a) act" where
  "act_fail e s = (Inl e, s)"

definition act_bind :: "('d, 'a) act \<Rightarrow> ('a \<Rightarrow> ('d, 'b) act) \<Rightarrow> ('d, 'b) act" where
  "act_bind m f s = (case m s of (Inl e, s') \<Rightarrow> (Inl e, s') | (Inr x, s') \<Rightarrow> f x s')"

definition act_when :: "bool \<Rightarrow> ('d, unit) act \<Rightarrow> ('d, unit) act" where
  "act_when b m = (if b then m else act_ret ())"

primrec act_each :: "('a \<Rightarrow> ('d, unit) act) \<Rightarrow> 'a list \<Rightarrow> ('d, unit) act" where
  "act_each f [] = act_ret ()"
| "act_each f (x # xs) = act_bind (f x) (\<lambda>_. act_each f xs)"

text \<open>A statement of the database, and the check of the context at the head of a loop.\<close>

definition stmt :: "('d \<Rightarrow> 'a \<times> 'd) \<Rightarrow> ('d, 'a) act" where
  "stmt f s =
     (let s' = s\<lparr>cn_faults := tl (cn_faults s)\<rparr>
      in if cn_faults s \<noteq> [] \<and> hd (cn_faults s) \<noteq> None then (Inl (the (hd (cn_faults s))), s')
         else (case f (cn_data s) of (x, d) \<Rightarrow> (Inr x, s'\<lparr>cn_data := d\<rparr>)))"

definition query :: "('d \<Rightarrow> 'a) \<Rightarrow> ('d, 'a) act" where
  "query f = stmt (\<lambda>d. (f d, d))"

definition exec :: "('d \<Rightarrow> 'd) \<Rightarrow> ('d, unit) act" where
  "exec f = stmt (\<lambda>d. ((), f d))"

definition check_ctx :: "goerr option \<Rightarrow> ('d, unit) act" where
  "check_ctx err = (case err of None \<Rightarrow> act_ret () | Some e \<Rightarrow> act_fail (the (Convert (Some e))))"

text \<open>Results of plain functions, and errors that are wrapped.\<close>

definition on_error :: "(goerr \<Rightarrow> goerr) \<Rightarrow> ('d, 'a) act \<Rightarrow> ('d, 'a) act" where
  "on_error f m s = (case m s of (Inl e, s') \<Rightarrow> (Inl (f e), s') | (Inr x, s') \<Rightarrow> (Inr x, s'))"

definition wrap :: "err_type \<Rightarrow> string \<Rightarrow> goerr \<Rightarrow> goerr" where
  "wrap t msg e = newSingleCrdbError t (Some e) msg None"

definition of_sum :: "goerr + 'a \<Rightarrow> ('d, 'a) act" where
  "of_sum r = (case r of Inl e \<Rightarrow> act_fail e | Inr x \<Rightarrow> act_ret x)"

definition of_check :: "goerr option \<Rightarrow> ('d, unit) act" where
  "of_check r = (case r of Some e \<Rightarrow> act_fail e | None \<Rightarrow> act_ret ())"

definition IncProgress1 :: "('d, unit) act" where
  "IncProgress1 s = (Inr (), s\<lparr>cn_progress := cn_progress s + 1\<rparr>)"

named_theorems act_simps \<open>running actions on a connection without faults\<close>

lemma act_ret_run [act_simps]: "act_ret x s = (Inr x, s)"
  by (simp add: act_ret_def)

lemma act_bind_Inr [act_simps]: "m s = (Inr x, s') \<Longrightarrow> act_bind m f s = f x s'"
  by (simp add: act_bind_def)

lemma act_bind_Inl [act_simps]: "m s = (Inl e, s') \<Longrightarrow> act_bind m f s = (Inl e, s')"
  by (simp add: act_bind_def)

lemma stmt_calm [act_simps]:
  "cn_faults s = [] \<Longrightarrow> stmt f s = (Inr (fst (f (cn_data s))), s\<lparr>cn_data := snd (f (cn_data s))\<rparr>)"
  by (simp add: stmt_def Let_def split: prod.splits)

lemma query_calm [act_simps]: "cn_faults s = [] \<Longrightarrow> query f s = (Inr (f (cn_data s)), s)"
  by (simp add: query_def stmt_calm)

lemma exec_calm [act_simps]: "cn_faults s = [] \<Longrightarrow> exec f s = (Inr (), s\<lparr>cn_data := f (cn_data s)\<rparr>)"
  by (simp add: exec_def stmt_calm)

lemma check_ctx_run [act_simps]: "check_ctx None s = (Inr (), s)"
  by (simp add: check_ctx_def act_ret_def)

lemma act_when_run [act_simps]: "act_when True m = m" "act_when False m s = (Inr (), s)"
  by (simp_all add: act_when_def act_ret_def)

lemma IncProgress1_run [act_simps]: "IncProgress1 s = (Inr (), s\<lparr>cn_progress := cn_progress s + 1\<rparr>)"
  by (simp add: IncProgress1_def)

text \<open>A loop of actions that all succeed folds their effects.\<close>

lemma act_each_calm:
  assumes "\<And>x s. x \<in> set xs \<Longrightarrow> cn_faults s = [] \<Longrightarrow> f x s = (Inr (), g x s) \<and> cn_faults (g x s) = []"
  shows "cn_faults s = [] \<Longrightarrow> act_each f xs s = (Inr (), fold g xs s) \<and> cn_faults (fold g xs s) = []"
  using assms
proof (induction xs arbitrary: s)
  case (Cons x xs)
  have x: "f x s = (Inr (), g x s)" "cn_faults (g x s) = []" using Cons.prems by simp_all
  have "act_each f xs (g x s) = (Inr (), fold g xs (g x s)) \<and> cn_faults (fold g xs (g x s)) = []"
    using Cons.prems(2) by (intro Cons.IH x(2)) simp
  with x show ?case by (simp add: act_bind_def)
qed (simp add: act_ret_def)

section \<open>Rows with a key\<close>

text \<open>\<open>CreateIfNotExist\<close> inserts the rows whose key is free, \<open>CreateOrUpdate\<close> inserts or replaces.\<close>

definition insert_new :: "('a \<Rightarrow> 'k) \<Rightarrow> 'a \<Rightarrow> 'a list \<Rightarrow> 'a list" where
  "insert_new k r rows = (if k r \<in> k ` set rows then rows else rows @ [r])"

definition CreateIfNotExist :: "('a \<Rightarrow> 'k) \<Rightarrow> 'a list \<Rightarrow> 'a list \<Rightarrow> 'a list" where
  "CreateIfNotExist k rs rows = fold (insert_new k) rs rows"

definition CreateOrUpdate :: "('a \<Rightarrow> 'k) \<Rightarrow> 'a \<Rightarrow> 'a list \<Rightarrow> 'a list" where
  "CreateOrUpdate k r rows =
     (if k r \<in> k ` set rows then map (\<lambda>x. if k x = k r then r else x) rows else rows @ [r])"

lemma CreateIfNotExist_append:
  "CreateIfNotExist k (rs @ rs') rows = CreateIfNotExist k rs' (CreateIfNotExist k rs rows)"
  by (simp add: CreateIfNotExist_def)

lemma CreateIfNotExist_Nil [simp]: "CreateIfNotExist k [] rows = rows"
  by (simp add: CreateIfNotExist_def)

lemma CreateIfNotExist_Cons:
  "CreateIfNotExist k (r # rs) rows = CreateIfNotExist k rs (CreateIfNotExist k [r] rows)"
  by (simp add: CreateIfNotExist_def)

lemma CreateIfNotExist_keys: "k ` set (CreateIfNotExist k rs rows) = k ` set rows \<union> k ` set rs"
  by (induction rs arbitrary: rows) (auto simp: CreateIfNotExist_def insert_new_def)

lemma CreateIfNotExist_rows:
  "set rows \<subseteq> set (CreateIfNotExist k rs rows) \<and> set (CreateIfNotExist k rs rows) \<subseteq> set rows \<union> set rs"
proof (induction rs arbitrary: rows)
  case (Cons r rs)
  from Cons [of "insert_new k r rows"] show ?case
    by (auto simp: CreateIfNotExist_def insert_new_def split: if_splits)
qed simp

lemma CreateOrUpdate_keys: "k ` set (CreateOrUpdate k r rows) = insert (k r) (k ` set rows)"
  by (auto simp: CreateOrUpdate_def image_iff split: if_splits)

end
