(* ===== verification/Refdiff.thy ===== *)
theory Refdiff
  imports CommitGraph RefPairs Conn
begin

text \<open>
  \<open>CalculateCommitsDiff\<close> (\<open>backend/plugins/refdiff/tasks/commit_diff_calculator.go\<close>): for every commit pair of
  the task that was not compared before, the commits the new side has and the old one has not are
  stored in \<open>commits_diffs\<close>, the pair in \<open>finished_commits_diffs\<close>, and the refs in \<open>ref_commits\<close>.

  The tables are lists of rows in the order of insertion. \<open>load\<close> and \<open>loop\<close> give the error of the context, if any,
  when the loop over the parent rows or over the pairs is at an index.
\<close>

record CommitsDiff =
  cdNewCommitSha :: sha
  cdOldCommitSha :: sha
  cdCommitSha :: sha
  cdSortingIndex :: nat

record RefCommit =
  rcNewRefId :: string
  rcOldRefId :: string
  rcNewCommitSha :: sha
  rcOldCommitSha :: sha

record diff_tables =
  dt_parents :: "(sha \<times> sha) list"
  dt_repo_commits :: "(string \<times> sha) list"
  dt_diffs :: "CommitsDiff list"
  dt_finished :: "(sha \<times> sha) list"
  dt_ref_commits :: "RefCommit list"

definition diff_key :: "CommitsDiff \<Rightarrow> sha \<times> sha \<times> sha" where
  "diff_key r = (cdNewCommitSha r, cdOldCommitSha r, cdCommitSha r)"

definition ref_commit_key :: "RefCommit \<Rightarrow> string \<times> string" where
  "ref_commit_key r = (rcNewRefId r, rcOldRefId r)"

text \<open>\<open>refCommit\<close> of the code is one variable, overwritten for every pair whose ids differ from the names
  of its refs.\<close>

definition ref_commit_of :: "string \<Rightarrow> RefCommitPair \<Rightarrow> RefCommit \<Rightarrow> RefCommit" where
  "ref_commit_of repoId pair rc =
     (case pair of (new, old, newRef, oldRef) \<Rightarrow>
        let newRefId = repoId @ '':'' @ newRef; oldRefId = repoId @ '':'' @ oldRef
        in if newRef \<noteq> newRefId \<or> oldRef \<noteq> oldRefId
           then \<lparr>rcNewRefId = newRefId, rcOldRefId = oldRefId, rcNewCommitSha = new, rcOldCommitSha = old\<rparr>
           else rc)"

fun select_pairs :: "string \<Rightarrow> RefCommitPair list \<Rightarrow> RefCommitPair list \<Rightarrow> RefCommit
    \<Rightarrow> (diff_tables, RefCommitPair list \<times> RefCommit) act" where
  "select_pairs repoId [] acc rc = act_ret (acc, rc)"
| "select_pairs repoId (pair # pairs) acc rc =
     act_bind (query (\<lambda>d. length (filter (\<lambda>f. f = (fst pair, fst (snd pair))) (dt_finished d))))
       (\<lambda>n. select_pairs repoId pairs (if n = 0 then acc @ [pair] else acc) (ref_commit_of repoId pair rc))"

text \<open>The rows of \<open>commit_parents\<close> joined with the commits of the repository.\<close>

definition repo_parents :: "string \<Rightarrow> diff_tables \<Rightarrow> (sha \<times> sha) list" where
  "repo_parents repoId d = concat (map (\<lambda>(c, p).
     map (\<lambda>_. (c, p)) (filter (\<lambda>(r, c'). c' = c \<and> r = repoId) (dt_repo_commits d))) (dt_parents d))"

fun load_graph :: "(nat \<Rightarrow> goerr option) \<Rightarrow> nat \<Rightarrow> (sha \<times> sha) list \<Rightarrow> CommitNodeGraph
    \<Rightarrow> (diff_tables, CommitNodeGraph) act" where
  "load_graph load i [] g = act_ret g"
| "load_graph load i ((c, p) # rows) g =
     act_bind (check_ctx (load i)) (\<lambda>_. \<lambda>s.
       case query (\<lambda>_. (c, p)) s of
         (Inl e, s') \<Rightarrow> (Inl (newSingleCrdbError Default (Some e) ''failed to read commit from database'' None), s')
       | (Inr (commit, parent), s') \<Rightarrow> load_graph load (i + 1) rows (AddParent g commit parent) s')"

definition insertCountLimitOfCommitsDiff :: nat where
  "insertCountLimitOfCommitsDiff = 65535 div 4"

definition insert_diffs :: "CommitsDiff list \<Rightarrow> (diff_tables, unit) act" where
  "insert_diffs rs = exec (\<lambda>d. d\<lparr>dt_diffs := CreateIfNotExist diff_key rs (dt_diffs d)\<rparr>)"

text \<open>The loop over the lost commits: \<open>i\<close> is \<open>SortingIndex\<close>, \<open>rs\<close> the rows collected since the last insert.\<close>

fun diff_loop :: "sha \<Rightarrow> sha \<Rightarrow> nat \<Rightarrow> CommitsDiff list \<Rightarrow> sha list \<Rightarrow> (diff_tables, unit) act" where
  "diff_loop new old i rs [] = act_when (rs \<noteq> []) (insert_diffs rs)"
| "diff_loop new old i rs (sha # shas) =
     (let rs' = rs @ [\<lparr>cdNewCommitSha = new, cdOldCommitSha = old, cdCommitSha = sha, cdSortingIndex = i\<rparr>]
      in if i mod insertCountLimitOfCommitsDiff = 0
         then act_bind (insert_diffs rs') (\<lambda>_. diff_loop new old (i + 1) [] shas)
         else diff_loop new old (i + 1) rs' shas)"

definition diff_pair :: "CommitNodeGraph \<Rightarrow> RefCommit \<Rightarrow> RefCommitPair \<Rightarrow> (diff_tables, unit) act" where
  "diff_pair g rc pair =
     (case pair of (new, old, _, _) \<Rightarrow>
        if new = old then act_ret ()
        else act_bind (diff_loop new old 1 [] (fst (CalculateLostSha g old new))) (\<lambda>_.
          act_bind (exec (\<lambda>d. d\<lparr>dt_ref_commits := CreateIfNotExist ref_commit_key [rc] (dt_ref_commits d)\<rparr>)) (\<lambda>_.
            act_bind (exec (\<lambda>d. d\<lparr>dt_finished := CreateIfNotExist id [(new, old)] (dt_finished d)\<rparr>)) (\<lambda>_.
              IncProgress1))))"

fun diff_pairs :: "(nat \<Rightarrow> goerr option) \<Rightarrow> CommitNodeGraph \<Rightarrow> RefCommit \<Rightarrow> nat \<Rightarrow> RefCommitPair list
    \<Rightarrow> (diff_tables, unit) act" where
  "diff_pairs loop g rc i [] = act_ret ()"
| "diff_pairs loop g rc i (pair # pairs) =
     act_bind (check_ctx (loop i)) (\<lambda>_. act_bind (diff_pair g rc pair) (\<lambda>_. diff_pairs loop g rc (i + 1) pairs))"

definition CalculateCommitsDiff :: "(nat \<Rightarrow> goerr option) \<Rightarrow> (nat \<Rightarrow> goerr option) \<Rightarrow> RefdiffOptions
    \<Rightarrow> (diff_tables, unit) act" where
  "CalculateCommitsDiff load loop op =
     (if roProjectName op \<noteq> [] then act_ret ()
      else act_bind (select_pairs (roRepoId op) (roAllPairs op) []
             \<lparr>rcNewRefId = [], rcOldRefId = [], rcNewCommitSha = [], rcOldCommitSha = []\<rparr>) (\<lambda>(pairs, rc).
        if pairs = [] then act_ret ()
        else act_bind (query (repo_parents (roRepoId op))) (\<lambda>rows.
          act_bind (load_graph load 0 rows NewCommitNodeGraph) (\<lambda>g.
            diff_pairs loop g rc 0 pairs))))"

section \<open>Runs without failures\<close>

lemma select_pairs_calm:
  "cn_faults s = [] \<Longrightarrow> select_pairs repoId pairs acc rc s =
    (Inr (acc @ filter (\<lambda>p. (fst p, fst (snd p)) \<notin> set (dt_finished (cn_data s))) pairs,
       fold (ref_commit_of repoId) pairs rc), s)"
proof (induction pairs arbitrary: acc rc)
  case (Cons p ps)
  have "length (filter (\<lambda>f. f = (fst p, fst (snd p))) fs) = 0 \<longleftrightarrow> (fst p, fst (snd p)) \<notin> set fs" for fs
    by (auto simp: filter_empty_conv)
  with Cons show ?case by (simp add: act_bind_def query_calm)
qed (simp add: act_simps)

lemma load_graph_calm:
  "cn_faults s = [] \<Longrightarrow> (\<And>i. load i = None) \<Longrightarrow>
    load_graph load i rows g s = (Inr (foldl (\<lambda>g (c, p). AddParent g c p) g rows), s)"
proof (induction rows arbitrary: i g)
  case (Cons row rows)
  then show ?case by (cases row) (simp add: act_bind_def act_simps)
qed (simp add: act_simps)

definition diff_rows :: "sha \<Rightarrow> sha \<Rightarrow> nat \<Rightarrow> sha list \<Rightarrow> CommitsDiff list" where
  "diff_rows new old i shas = map (\<lambda>(i, sha).
     \<lparr>cdNewCommitSha = new, cdOldCommitSha = old, cdCommitSha = sha, cdSortingIndex = i\<rparr>) (enumerate i shas)"

text \<open>The pieces in which the rows are inserted do not matter.\<close>

lemma diff_loop_calm:
  "cn_faults s = [] \<Longrightarrow> diff_loop new old i rs shas s =
    (Inr (), s\<lparr>cn_data := (cn_data s)\<lparr>dt_diffs :=
       CreateIfNotExist diff_key (rs @ diff_rows new old i shas) (dt_diffs (cn_data s))\<rparr>\<rparr>)"
proof (induction new old i rs shas arbitrary: s rule: diff_loop.induct)
  case (1 new old i rs)
  then show ?case
    by (cases "rs = []") (simp_all add: diff_rows_def act_when_def act_ret_def insert_diffs_def exec_calm)
next
  case (2 new old i rs sha shas)
  define r where "r = \<lparr>cdNewCommitSha = new, cdOldCommitSha = old, cdCommitSha = sha, cdSortingIndex = i\<rparr>"
  have rows: "rs @ diff_rows new old i (sha # shas) = (rs @ [r]) @ diff_rows new old (i + 1) shas"
    by (simp add: diff_rows_def r_def)
  show ?case
  proof (cases "i mod insertCountLimitOfCommitsDiff = 0")
    case True
    with 2 show ?thesis
      by (simp only: rows CreateIfNotExist_append) (simp add: Let_def act_bind_def insert_diffs_def exec_calm r_def
        flip: CreateIfNotExist_append)
  next
    case False
    with 2 show ?thesis by (simp only: rows) (simp add: Let_def r_def)
  qed
qed

definition pair_effect :: "CommitNodeGraph \<Rightarrow> RefCommit \<Rightarrow> RefCommitPair \<Rightarrow> diff_tables \<Rightarrow> diff_tables" where
  "pair_effect g rc pair d = (case pair of (new, old, _, _) \<Rightarrow>
     if new = old then d
     else d\<lparr>dt_diffs := CreateIfNotExist diff_key (diff_rows new old 1 (fst (CalculateLostSha g old new))) (dt_diffs d),
            dt_ref_commits := CreateIfNotExist ref_commit_key [rc] (dt_ref_commits d),
            dt_finished := CreateIfNotExist id [(new, old)] (dt_finished d)\<rparr>)"

lemma diff_pair_calm:
  "cn_faults s = [] \<Longrightarrow> \<exists>k. diff_pair g rc pair s =
    (Inr (), s\<lparr>cn_data := pair_effect g rc pair (cn_data s), cn_progress := k\<rparr>)"
  by (cases pair) (auto simp: diff_pair_def pair_effect_def act_bind_def diff_loop_calm exec_calm act_simps
      intro: exI [of _ "cn_progress s"])

lemma diff_pairs_calm:
  "cn_faults s = [] \<Longrightarrow> (\<And>i. loop i = None) \<Longrightarrow> \<exists>k. diff_pairs loop g rc i pairs s =
    (Inr (), s\<lparr>cn_data := fold (pair_effect g rc) pairs (cn_data s), cn_progress := k\<rparr>)"
proof (induction pairs arbitrary: i s)
  case Nil
  then show ?case by (auto simp: act_simps intro: exI [of _ "cn_progress s"])
next
  case (Cons p ps)
  obtain k where k: "diff_pair g rc p s = (Inr (), s\<lparr>cn_data := pair_effect g rc p (cn_data s), cn_progress := k\<rparr>)"
    using diff_pair_calm [OF Cons.prems(1)] by blast
  from Cons.IH [of "s\<lparr>cn_data := pair_effect g rc p (cn_data s), cn_progress := k\<rparr>" "i + 1"] Cons.prems
  show ?case by (simp add: act_bind_def act_simps k)
qed

lemma fold_last: "xs \<noteq> [] \<Longrightarrow> (\<And>x a b. f x a = f x b) \<Longrightarrow> fold f xs a = f (last xs) b"
  by (induction xs rule: rev_induct) auto

text \<open>A prefix makes every name longer, so \<open>refCommit\<close> is overwritten by every pair.\<close>

lemma ref_commit_of_const: "ref_commit_of repoId p rc = ref_commit_of repoId p rc'"
proof (cases p)
  case (fields new old newRef oldRef)
  have "newRef \<noteq> repoId @ '':'' @ newRef" by (metis append_Cons append_is_Nil_conv append_self_conv2 list.distinct(1) append_assoc)
  with fields show ?thesis by (simp add: ref_commit_of_def Let_def)
qed

definition last_ref_commit :: "RefdiffOptions \<Rightarrow> RefCommit" where
  "last_ref_commit op = ref_commit_of (roRepoId op) (last (roAllPairs op))
     \<lparr>rcNewRefId = [], rcOldRefId = [], rcNewCommitSha = [], rcOldCommitSha = []\<rparr>"

definition todo :: "RefdiffOptions \<Rightarrow> diff_tables \<Rightarrow> RefCommitPair list" where
  "todo op d = filter (\<lambda>p. (fst p, fst (snd p)) \<notin> set (dt_finished d)) (roAllPairs op)"

lemma CalculateCommitsDiff_calm:
  assumes "cn_faults s = []" "\<And>i. load i = None" "\<And>i. loop i = None" "roProjectName op = []"
  shows "\<exists>k. CalculateCommitsDiff load loop op s = (Inr (), s\<lparr>cn_data :=
    fold (pair_effect (graph_of_rows (repo_parents (roRepoId op) (cn_data s))) (last_ref_commit op))
      (todo op (cn_data s)) (cn_data s), cn_progress := k\<rparr>)"
proof (cases "todo op (cn_data s) = []")
  case True
  then show ?thesis
    using assms(1,4) unfolding todo_def
    by (intro exI [of _ "cn_progress s"])
      (simp add: CalculateCommitsDiff_def act_bind_def select_pairs_calm act_simps)
next
  case False
  then have "roAllPairs op \<noteq> []" by (auto simp: todo_def)
  then have rc: "fold (ref_commit_of (roRepoId op)) (roAllPairs op)
      \<lparr>rcNewRefId = [], rcOldRefId = [], rcNewCommitSha = [], rcOldCommitSha = []\<rparr> = last_ref_commit op"
    unfolding last_ref_commit_def by (rule fold_last) (rule ref_commit_of_const)
  obtain k where "diff_pairs loop (graph_of_rows (repo_parents (roRepoId op) (cn_data s))) (last_ref_commit op) 0
      (todo op (cn_data s)) s = (Inr (), s\<lparr>cn_data :=
      fold (pair_effect (graph_of_rows (repo_parents (roRepoId op) (cn_data s))) (last_ref_commit op))
      (todo op (cn_data s)) (cn_data s), cn_progress := k\<rparr>)"
    using diff_pairs_calm [where loop = loop, OF assms(1,3)] by blast
  then show ?thesis
    using assms(1,2,4) False
    by (auto simp: CalculateCommitsDiff_def act_bind_def select_pairs_calm query_calm load_graph_calm rc
        graph_of_rows_def simp flip: todo_def)
qed

section \<open>What is stored\<close>

lemma set_repo_parents:
  "set (repo_parents repoId d) = {(c, p) \<in> set (dt_parents d). (repoId, c) \<in> set (dt_repo_commits d)}"
  by (auto simp: repo_parents_def)

lemma diff_rows_keys: "diff_key ` set (diff_rows new old i shas) = {(new, old, c) | c. c \<in> set shas}"
proof -
  have "diff_key ` set (diff_rows new old i shas) = (\<lambda>c. (new, old, c)) ` snd ` set (enumerate i shas)"
    by (simp add: diff_rows_def image_image diff_key_def case_prod_beta)
  also have "snd ` set (enumerate i shas) = set shas" by (metis map_snd_enumerate set_map)
  finally show ?thesis by auto
qed

lemma diff_rows_index: "r \<in> set (diff_rows new old i shas) \<Longrightarrow> i \<le> cdSortingIndex r \<and>
    cdSortingIndex r < i + length shas \<and> shas ! (cdSortingIndex r - i) = cdCommitSha r \<and>
    cdNewCommitSha r = new \<and> cdOldCommitSha r = old"
  by (auto simp: diff_rows_def in_set_enumerate_eq)

lemma pair_effects:
  assumes "d' = fold (pair_effect g rc) ps d"
  shows "diff_key ` set (dt_diffs d') = diff_key ` set (dt_diffs d) \<union>
      {(n, old, c). (\<exists>a b. (n, old, a, b) \<in> set ps) \<and> n \<noteq> old \<and> c \<in> set (fst (CalculateLostSha g old n))}"
    and "set (dt_finished d') = set (dt_finished d) \<union> {(n, old). (\<exists>a b. (n, old, a, b) \<in> set ps) \<and> n \<noteq> old}"
    and "set (dt_diffs d) \<subseteq> set (dt_diffs d')"
    and "r \<in> set (dt_diffs d') \<Longrightarrow> r \<notin> set (dt_diffs d) \<Longrightarrow> 1 \<le> cdSortingIndex r \<and>
      fst (CalculateLostSha g (cdOldCommitSha r) (cdNewCommitSha r)) ! (cdSortingIndex r - 1) = cdCommitSha r"
    and "length (dt_ref_commits d') \<le> length (dt_ref_commits d) + 1"
    and "set (dt_ref_commits d') \<subseteq> insert rc (set (dt_ref_commits d))"
proof -
  have "diff_key ` set (dt_diffs d') = diff_key ` set (dt_diffs d) \<union>
      {(n, old, c). (\<exists>a b. (n, old, a, b) \<in> set ps) \<and> n \<noteq> old \<and> c \<in> set (fst (CalculateLostSha g old n))} \<and>
    set (dt_finished d') = set (dt_finished d) \<union> {(n, old). (\<exists>a b. (n, old, a, b) \<in> set ps) \<and> n \<noteq> old} \<and>
    set (dt_diffs d) \<subseteq> set (dt_diffs d') \<and>
    (\<forall>r \<in> set (dt_diffs d') - set (dt_diffs d). 1 \<le> cdSortingIndex r \<and>
      fst (CalculateLostSha g (cdOldCommitSha r) (cdNewCommitSha r)) ! (cdSortingIndex r - 1) = cdCommitSha r) \<and>
    (dt_ref_commits d' = dt_ref_commits d \<or> dt_ref_commits d' = CreateIfNotExist ref_commit_key [rc] (dt_ref_commits d))"
    using assms
  proof (induction ps arbitrary: d)
    case (Cons p ps)
    obtain n old a b where p: "p = (n, old, a, b)" by (cases p)
    show ?case
    proof (cases "n = old")
      case True
      with Cons p show ?thesis by (auto simp: pair_effect_def)
    next
      case False
      define shas where "shas = fst (CalculateLostSha g old n)"
      define d1 where "d1 = pair_effect g rc p d"
      have d1: "dt_diffs d1 = CreateIfNotExist diff_key (diff_rows n old 1 shas) (dt_diffs d)"
        "dt_finished d1 = CreateIfNotExist id [(n, old)] (dt_finished d)"
        "dt_ref_commits d1 = CreateIfNotExist ref_commit_key [rc] (dt_ref_commits d)"
        using False by (simp_all add: d1_def p pair_effect_def shas_def)
      have keys: "diff_key ` set (dt_diffs d1) = diff_key ` set (dt_diffs d) \<union> {(n, old, c) | c. c \<in> set shas}"
        by (simp add: d1 CreateIfNotExist_keys diff_rows_keys)
      have fin: "set (dt_finished d1) = insert (n, old) (set (dt_finished d))"
        using CreateIfNotExist_keys [of id "[(n, old)]" "dt_finished d"] by (simp add: d1)
      have rows: "set (dt_diffs d) \<subseteq> set (dt_diffs d1)"
        "set (dt_diffs d1) \<subseteq> set (dt_diffs d) \<union> set (diff_rows n old 1 shas)"
        using CreateIfNotExist_rows d1(1) by metis+
      have idem: "CreateIfNotExist ref_commit_key [rc] (CreateIfNotExist ref_commit_key [rc] rs) =
          CreateIfNotExist ref_commit_key [rc] rs" for rs
        by (simp add: CreateIfNotExist_def insert_new_def)
      have "d' = fold (pair_effect g rc) ps d1" using Cons.prems by (simp add: d1_def)
      from Cons.IH [OF this] have IH:
        "diff_key ` set (dt_diffs d') = diff_key ` set (dt_diffs d1) \<union>
          {(n, old, c). (\<exists>a b. (n, old, a, b) \<in> set ps) \<and> n \<noteq> old \<and> c \<in> set (fst (CalculateLostSha g old n))}"
        "set (dt_finished d') = set (dt_finished d1) \<union> {(n, old). (\<exists>a b. (n, old, a, b) \<in> set ps) \<and> n \<noteq> old}"
        "set (dt_diffs d1) \<subseteq> set (dt_diffs d')"
        "\<forall>r \<in> set (dt_diffs d') - set (dt_diffs d1). 1 \<le> cdSortingIndex r \<and>
          fst (CalculateLostSha g (cdOldCommitSha r) (cdNewCommitSha r)) ! (cdSortingIndex r - 1) = cdCommitSha r"
        "dt_ref_commits d' = dt_ref_commits d1 \<or> dt_ref_commits d' = CreateIfNotExist ref_commit_key [rc] (dt_ref_commits d1)"
        by blast+
      have "\<forall>r \<in> set (dt_diffs d') - set (dt_diffs d). 1 \<le> cdSortingIndex r \<and>
          fst (CalculateLostSha g (cdOldCommitSha r) (cdNewCommitSha r)) ! (cdSortingIndex r - 1) = cdCommitSha r"
      proof
        fix r
        assume r: "r \<in> set (dt_diffs d') - set (dt_diffs d)"
        show "1 \<le> cdSortingIndex r \<and>
          fst (CalculateLostSha g (cdOldCommitSha r) (cdNewCommitSha r)) ! (cdSortingIndex r - 1) = cdCommitSha r"
        proof (cases "r \<in> set (dt_diffs d1)")
          case True
          with r rows(2) have "r \<in> set (diff_rows n old 1 shas)" by auto
          from diff_rows_index [OF this] show ?thesis by (simp add: shas_def)
        next
          case False
          with r IH(4) show ?thesis by simp
        qed
      qed
      moreover have "diff_key ` set (dt_diffs d') = diff_key ` set (dt_diffs d) \<union>
          {(n, old, c). (\<exists>a b. (n, old, a, b) \<in> set (p # ps)) \<and> n \<noteq> old \<and> c \<in> set (fst (CalculateLostSha g old n))}"
        using IH(1) keys False by (auto simp: p shas_def)
      moreover have "set (dt_finished d') = set (dt_finished d) \<union>
          {(n, old). (\<exists>a b. (n, old, a, b) \<in> set (p # ps)) \<and> n \<noteq> old}"
        using IH(2) fin False by (auto simp: p)
      ultimately show ?thesis using IH(3,5) rows(1) idem d1(3) by auto
    qed
  qed auto
  then show "diff_key ` set (dt_diffs d') = diff_key ` set (dt_diffs d) \<union>
      {(n, old, c). (\<exists>a b. (n, old, a, b) \<in> set ps) \<and> n \<noteq> old \<and> c \<in> set (fst (CalculateLostSha g old n))}"
    and "set (dt_finished d') = set (dt_finished d) \<union> {(n, old). (\<exists>a b. (n, old, a, b) \<in> set ps) \<and> n \<noteq> old}"
    and "set (dt_diffs d) \<subseteq> set (dt_diffs d')"
    and "r \<in> set (dt_diffs d') \<Longrightarrow> r \<notin> set (dt_diffs d) \<Longrightarrow> 1 \<le> cdSortingIndex r \<and>
      fst (CalculateLostSha g (cdOldCommitSha r) (cdNewCommitSha r)) ! (cdSortingIndex r - 1) = cdCommitSha r"
    and "length (dt_ref_commits d') \<le> length (dt_ref_commits d) + 1"
    and "set (dt_ref_commits d') \<subseteq> insert rc (set (dt_ref_commits d))"
    by (auto simp: CreateIfNotExist_def insert_new_def split: if_splits)
qed

text \<open>C15. What a refdiff task stores: without failures or cancellation, \<open>CalculateCommitsDiff\<close> adds to
  \<open>commits_diffs\<close>, for every pair of different commits not compared before, exactly the commits reachable
  from the new side along the parent rows of the repository and not from the old one, numbered from 1 in the
  order the search found them, whatever the size of the inserts; it marks exactly those pairs as finished and
  keeps all earlier rows.\<close>

theorem CalculateCommitsDiff_stores:
  assumes "cn_faults s = []" and "\<And>i. load i = None" and "\<And>i. loop i = None" and "roProjectName op = []"
  shows "let d = cn_data s; E = {(c, p) \<in> set (dt_parents d). (roRepoId op, c) \<in> set (dt_repo_commits d)};
      new = {(n, old). (\<exists>a b. (n, old, a, b) \<in> set (roAllPairs op)) \<and> (n, old) \<notin> set (dt_finished d) \<and> n \<noteq> old};
      (r, s') = CalculateCommitsDiff load loop op s; d' = cn_data s'
    in r = Inr () \<and>
      diff_key ` set (dt_diffs d') = diff_key ` set (dt_diffs d) \<union>
        {(n, old, c). (n, old) \<in> new \<and> c \<in> E\<^sup>* `` {n} - E\<^sup>* `` {old}} \<and>
      set (dt_finished d') = set (dt_finished d) \<union> new \<and> set (dt_diffs d) \<subseteq> set (dt_diffs d') \<and>
      (\<forall>r \<in> set (dt_diffs d') - set (dt_diffs d). 1 \<le> cdSortingIndex r \<and>
        fst (CalculateLostSha (graph_of_rows (repo_parents (roRepoId op) d)) (cdOldCommitSha r) (cdNewCommitSha r))
          ! (cdSortingIndex r - 1) = cdCommitSha r)"
proof -
  define d where "d = cn_data s"
  define g where "g = graph_of_rows (repo_parents (roRepoId op) d)"
  define d' where "d' = fold (pair_effect g (last_ref_commit op)) (todo op d) d"
  obtain k where run: "CalculateCommitsDiff load loop op s = (Inr (), s\<lparr>cn_data := d', cn_progress := k\<rparr>)"
    using CalculateCommitsDiff_calm [where load = load and loop = loop, OF assms] unfolding d'_def g_def d_def by blast
  have lost: "set (fst (CalculateLostSha g old n)) =
      {(c, p) \<in> set (dt_parents d). (roRepoId op, c) \<in> set (dt_repo_commits d)}\<^sup>* `` {n} -
      {(c, p) \<in> set (dt_parents d). (roRepoId op, c) \<in> set (dt_repo_commits d)}\<^sup>* `` {old}" for n old
    by (simp add: g_def lost_sha_set edges_graph_of_rows set_repo_parents)
  have todo: "(\<exists>a b. (n, old, a, b) \<in> set (todo op d)) \<longleftrightarrow>
      (\<exists>a b. (n, old, a, b) \<in> set (roAllPairs op)) \<and> (n, old) \<notin> set (dt_finished d)" for n old
    by (auto simp: todo_def)
  note eff = pair_effects [OF d'_def]
  show ?thesis
    using eff(1-4) by (simp add: run Let_def lost todo flip: d_def g_def)
qed

definition sample_options :: RefdiffOptions where
  "sample_options = \<lparr>roRepoId = ''r'', roPairs = [], roTagsPattern = [], roTagsLimit = 0, roTagsOrder = [],
     roAllPairs = [(''c'', ''b'', ''v2'', ''v1''), (''b'', ''a'', ''v1'', ''v0'')], roProjectName = []\<rparr>"

definition sample_conn :: "diff_tables conn" where
  "sample_conn = \<lparr>cn_data = \<lparr>dt_parents = [(''c'', ''b''), (''b'', ''a'')],
     dt_repo_commits = [(''r'', ''a''), (''r'', ''b''), (''r'', ''c'')], dt_diffs = [], dt_finished = [],
     dt_ref_commits = []\<rparr>, cn_faults = [], cn_progress = 0\<rparr>"

theorem CalculateCommitsDiff_stores_witness:
  "fst (CalculateCommitsDiff (\<lambda>_. None) (\<lambda>_. None) sample_options sample_conn) = Inr () \<and>
   set (dt_finished (cn_data (snd (CalculateCommitsDiff (\<lambda>_. None) (\<lambda>_. None) sample_options sample_conn))))
     = {(''c'', ''b''), (''b'', ''a'')}"
proof -
  have h: "cn_faults sample_conn = []" "roProjectName sample_options = []"
    by (simp_all add: sample_conn_def sample_options_def)
  have new: "{(n, old). (\<exists>a b. (n, old, a, b) \<in> set (roAllPairs sample_options)) \<and>
      (n, old) \<notin> set (dt_finished (cn_data sample_conn)) \<and> n \<noteq> old} = {(''c'', ''b''), (''b'', ''a'')}"
    "set (dt_finished (cn_data sample_conn)) = {}"
    by (auto simp: sample_options_def sample_conn_def)
  obtain r s' where run: "CalculateCommitsDiff (\<lambda>_. None) (\<lambda>_. None) sample_options sample_conn = (r, s')"
    by (cases "CalculateCommitsDiff (\<lambda>_. None) (\<lambda>_. None) sample_options sample_conn")
  from CalculateCommitsDiff_stores [where load = "\<lambda>_. None" and loop = "\<lambda>_. None", OF h(1) refl refl h(2)]
  have "r = Inr () \<and> set (dt_finished (cn_data s')) = set (dt_finished (cn_data sample_conn)) \<union> {(''c'', ''b''), (''b'', ''a'')}"
    unfolding run Let_def prod.case new(1) by (elim conjE) (rule conjI)
  then show ?thesis by (simp add: run new(2))
qed

text \<open>\<open>CalculateCommitsDiff\<close> stores the refs of one pair only: the row it inserts for every pair is the one it
  filled for the last pair of the task, so a run adds at most one row to \<open>ref_commits\<close>, that of the
  last pair, however many pairs it compares.\<close>

theorem CalculateCommitsDiff_one_ref_commit:
  assumes "cn_faults s = []" and "\<And>i. load i = None" and "\<And>i. loop i = None" and "roProjectName op = []"
  shows "let rows = dt_ref_commits (cn_data s);
      rows' = dt_ref_commits (cn_data (snd (CalculateCommitsDiff load loop op s)))
    in length rows' \<le> length rows + 1 \<and> set rows' \<subseteq> insert (last_ref_commit op) (set rows)"
proof -
  define d' where "d' = fold (pair_effect (graph_of_rows (repo_parents (roRepoId op) (cn_data s))) (last_ref_commit op))
      (todo op (cn_data s)) (cn_data s)"
  obtain k where run: "CalculateCommitsDiff load loop op s = (Inr (), s\<lparr>cn_data := d', cn_progress := k\<rparr>)"
    using CalculateCommitsDiff_calm [where load = load and loop = loop, OF assms] unfolding d'_def by blast
  then show ?thesis using pair_effects(5,6) [OF d'_def] by (simp add: run Let_def)
qed

theorem CalculateCommitsDiff_one_ref_commit_witness:
  "length (roAllPairs sample_options) = 2 \<and>
   length (dt_ref_commits (cn_data (snd (CalculateCommitsDiff (\<lambda>_. None) (\<lambda>_. None) sample_options sample_conn)))) \<le> 1"
proof -
  have h: "cn_faults sample_conn = []" "roProjectName sample_options = []"
    "dt_ref_commits (cn_data sample_conn) = []" "length (roAllPairs sample_options) = 2"
    by (simp_all add: sample_conn_def sample_options_def)
  show ?thesis
    using CalculateCommitsDiff_one_ref_commit [where load = "\<lambda>_. None" and loop = "\<lambda>_. None", OF h(1) refl refl h(2)]
      h(3,4) by (simp add: Let_def)
qed

end
