(* ===== verification/Dora.thy ===== *)
theory Dora
  imports RefPairs Divider "HOL-Library.Product_Lexorder" "HOL-Library.Option_ord"
begin

text \<open>
  The \<open>dora\<close> plugin (\<open>backend/plugins/dora\<close>): generating deployment commits from pipelines, connecting every
  deployment to the previous successful one, the lead time of changes, connecting incidents to
  deployments, and the plan of the metric.

  The tables are lists of rows with the columns the subtasks use; a query is the list comprehension of
  its joins and conditions, ordered by its keys, rows of equal keys in table order. Times are
  milliseconds, the resolution of the columns; a missing date is \<open>None\<close>, ordered first as in MySQL. The subtasks
  are instances of \<open>DataConverter\<close> and \<open>DataEnricher\<close>.
\<close>

section \<open>Tables\<close>

type_synonym time = int

record CicdDeploymentCommit =
  dcId :: string
  dcCicdScopeId :: string
  dcCicdDeploymentId :: string
  dcName :: string
  dcResult :: string
  dcStatus :: string
  dcEnvironment :: string
  dcCreatedDate :: time
  dcStartedDate :: "time option"
  dcFinishedDate :: "time option"
  dcDurationSec :: "nat option"
  dcCommitSha :: string
  dcRefName :: string
  dcRepoId :: string
  dcRepoUrl :: string
  dcPrevSuccessDeploymentCommitId :: string
  dcOrigin :: RawDataOrigin

record CICDPipeline =
  plId :: string
  plName :: string
  plResult :: string
  plStatus :: string
  plType :: string
  plDurationSec :: "nat option"
  plEnvironment :: string
  plCreatedDate :: "time option"
  plFinishedDate :: "time option"
  plCicdScopeId :: string

record CiCDPipelineCommit =
  pcPipelineId :: string
  pcCommitSha :: string
  pcBranch :: string
  pcRepoId :: string
  pcRepoUrl :: string
  pcOrigin :: RawDataOrigin

record CICDTask =
  ctPipelineId :: string
  ctType :: string
  ctEnvironment :: string

record ProjectMapping =
  pmProjectName :: string
  pmTable :: string
  pmRowId :: string

record PullRequest =
  prId :: string
  prBaseRepoId :: string
  prAuthorId :: string
  prCreatedDate :: time
  prMergedDate :: "time option"
  prMergeCommitSha :: string
  prOrigin :: RawDataOrigin

record PullRequestCommit =
  prcCommitSha :: string
  prcPullRequestId :: string
  prcCommitAuthoredDate :: time

record PullRequestComment =
  cmId :: string
  cmPullRequestId :: string
  cmAccountId :: string
  cmCreatedDate :: time

record Issue =
  isId :: string
  isType :: string
  isCreatedDate :: "time option"
  isOrigin :: RawDataOrigin

record dora_tables =
  d_deployments :: "CicdDeploymentCommit list"
  d_pipelines :: "CICDPipeline list"
  d_pipeline_commits :: "CiCDPipelineCommit list"
  d_tasks :: "CICDTask list"
  d_mappings :: "ProjectMapping list"
  d_prs :: "PullRequest list"
  d_pr_commits :: "PullRequestCommit list"
  d_pr_comments :: "PullRequestComment list"
  d_diffs :: "(string \<times> string \<times> string) list"
  d_issues :: "Issue list"
  d_board_issues :: "(string \<times> string) list"

text \<open>The rows of \<open>project_mapping\<close> of a project that join with an id: one for each row.\<close>

definition mapped :: "dora_tables \<Rightarrow> string \<Rightarrow> string \<Rightarrow> string \<Rightarrow> ProjectMapping list" where
  "mapped t project table rowId =
     filter (\<lambda>m. pmTable m = table \<and> pmRowId m = rowId \<and> pmProjectName m = project) (d_mappings t)"

definition left_join :: "('b \<Rightarrow> bool) \<Rightarrow> 'b list \<Rightarrow> 'b option list" where
  "left_join p xs = (if filter p xs = [] then [None] else map Some (filter p xs))"

definition input_of :: "'x \<Rightarrow> RawDataOrigin \<Rightarrow> 'x input_row" where
  "input_of x origin = \<lparr>in_id = 0, in_params = [], in_origin = origin, in_data = x\<rparr>"

section \<open>Records to save\<close>

definition opt_val :: "int option \<Rightarrow> fval" where
  "opt_val v = (case v of None \<Rightarrow> FOther ''<nil>'' | Some n \<Rightarrow> FNum n)"

definition deployment_type :: slot_type where
  "deployment_type = \<lparr>st_name = ''*devops.CicdDeploymentCommit'', st_elem = ''CicdDeploymentCommit'', st_ptr = True,
     st_primary = [''Id'', ''CommitSha''], st_origin = True\<rparr>"

definition deployment_row :: "CicdDeploymentCommit \<Rightarrow> row" where
  "deployment_row d = \<lparr>r_type = deployment_type,
     r_fields = [(''CicdScopeId'', FStr (dcCicdScopeId d)), (''CicdDeploymentId'', FStr (dcCicdDeploymentId d)),
       (''Name'', FStr (dcName d)), (''Result'', FStr (dcResult d)), (''Status'', FStr (dcStatus d)),
       (''Environment'', FStr (dcEnvironment d)), (''CreatedDate'', FNum (dcCreatedDate d)),
       (''StartedDate'', opt_val (dcStartedDate d)), (''FinishedDate'', opt_val (dcFinishedDate d)),
       (''DurationSec'', opt_val (map_option int (dcDurationSec d))), (''CommitSha'', FStr (dcCommitSha d)),
       (''RefName'', FStr (dcRefName d)), (''RepoId'', FStr (dcRepoId d)), (''RepoUrl'', FStr (dcRepoUrl d)),
       (''PrevSuccessDeploymentCommitId'', FStr (dcPrevSuccessDeploymentCommitId d))],
     r_embedded = [(''Id'', FStr (dcId d))], r_origin = dcOrigin d\<rparr>"

record ProjectPrMetric =
  mId :: string
  mProjectName :: string
  mFirstCommitSha :: string
  mPrCodingTime :: "int option"
  mFirstReviewId :: string
  mPrPickupTime :: "int option"
  mPrReviewTime :: "int option"
  mDeploymentCommitId :: string
  mPrDeployTime :: "int option"
  mPrCycleTime :: "int option"

definition pr_metric_type :: slot_type where
  "pr_metric_type = \<lparr>st_name = ''*crossdomain.ProjectPrMetric'', st_elem = ''ProjectPrMetric'', st_ptr = True,
     st_primary = [''Id'', ''ProjectName''], st_origin = True\<rparr>"

definition pr_metric_row :: "ProjectPrMetric \<Rightarrow> row" where
  "pr_metric_row m = \<lparr>r_type = pr_metric_type,
     r_fields = [(''ProjectName'', FStr (mProjectName m)), (''FirstCommitSha'', FStr (mFirstCommitSha m)),
       (''PrCodingTime'', opt_val (mPrCodingTime m)), (''FirstReviewId'', FStr (mFirstReviewId m)),
       (''PrPickupTime'', opt_val (mPrPickupTime m)), (''PrReviewTime'', opt_val (mPrReviewTime m)),
       (''DeploymentCommitId'', FStr (mDeploymentCommitId m)), (''PrDeployTime'', opt_val (mPrDeployTime m)),
       (''PrCycleTime'', opt_val (mPrCycleTime m))],
     r_embedded = [(''Id'', FStr (mId m))], r_origin = zero_origin\<rparr>"

definition issue_metric_type :: slot_type where
  "issue_metric_type = \<lparr>st_name = ''*crossdomain.ProjectIssueMetric'', st_elem = ''ProjectIssueMetric'', st_ptr = True,
     st_primary = [''Id'', ''ProjectName''], st_origin = True\<rparr>"

definition issue_metric_row :: "string \<Rightarrow> string \<Rightarrow> string \<Rightarrow> row" where
  "issue_metric_row issueId projectName deploymentId = \<lparr>r_type = issue_metric_type,
     r_fields = [(''ProjectName'', FStr projectName), (''DeploymentId'', FStr deploymentId)],
     r_embedded = [(''Id'', FStr issueId)], r_origin = zero_origin\<rparr>"

section \<open>Lead time of changes\<close>

text \<open>\<open>time.Time.Sub\<close> saturates at the range of \<open>time.Duration\<close>, 64 bits of nanoseconds.\<close>

definition time_Sub :: "time \<Rightarrow> time \<Rightarrow> int" where
  "time_Sub a b = max (- (2 ^ 63)) (min (2 ^ 63 - 1) ((a - b) * 1000000))"

definition minutes_ceil :: "int \<Rightarrow> int" where
  "minutes_ceil nanos = - ((- nanos) div 60000000000)"

definition computeTimeSpan :: "time option \<Rightarrow> time option \<Rightarrow> int option" where
  "computeTimeSpan start finish =
     (case (start, finish) of
        (Some s, Some e) \<Rightarrow>
          let minutes = minutes_ceil (time_Sub e s)
          in if minutes < 0 then None else Some minutes
      | _ \<Rightarrow> None)"

text \<open>The queries of \<open>CalculateChangeLeadTime\<close>. \<open>err\<close> is the failure of a query, if any; a row that is not
  found is not an error.\<close>

definition head_option :: "'a list \<Rightarrow> 'a option" where
  "head_option xs = (case xs of [] \<Rightarrow> None | x # _ \<Rightarrow> Some x)"

definition getFirstCommit :: "goerr option \<Rightarrow> dora_tables \<Rightarrow> string \<Rightarrow> goerr + PullRequestCommit option" where
  "getFirstCommit err t pr =
     (case err of
        Some e \<Rightarrow> Inl e
      | None \<Rightarrow> Inr (head_option (sort_key prcCommitAuthoredDate
          (filter (\<lambda>c. prcPullRequestId c = pr) (d_pr_commits t)))))"

definition getFirstReview :: "goerr option \<Rightarrow> dora_tables \<Rightarrow> string \<Rightarrow> string \<Rightarrow> goerr + PullRequestComment option" where
  "getFirstReview err t pr creator =
     (case err of
        Some e \<Rightarrow> Inl e
      | None \<Rightarrow> Inr (head_option (sort_key cmCreatedDate
          (filter (\<lambda>c. cmPullRequestId c = pr \<and> cmAccountId c \<noteq> creator) (d_pr_comments t)))))"

definition deployments_with :: "dora_tables \<Rightarrow> string \<Rightarrow> string \<Rightarrow> CicdDeploymentCommit list" where
  "deployments_with t project mergeSha =
     sort_key (\<lambda>dc. (dcStartedDate dc, TextKey (dcId dc)))
       (concat (map (\<lambda>dc. concat (map (\<lambda>p. concat (map (\<lambda>m.
          map (\<lambda>_. dc) (filter (\<lambda>(new, old, c). new = dcCommitSha dc \<and>
              old = (case p of None \<Rightarrow> [] | Some q \<Rightarrow> dcCommitSha q) \<and> c = mergeSha) (d_diffs t)))
          (mapped t project ''cicd_scopes'' (dcCicdScopeId dc))))
        (left_join (\<lambda>q. dcId q = dcPrevSuccessDeploymentCommitId dc) (d_deployments t))))
       (filter (\<lambda>dc. dcEnvironment dc = ''PRODUCTION'') (d_deployments t))))"

definition getDeploymentCommit :: "goerr option \<Rightarrow> dora_tables \<Rightarrow> string \<Rightarrow> string
    \<Rightarrow> goerr + CicdDeploymentCommit option" where
  "getDeploymentCommit err t mergeSha project =
     (case err of Some e \<Rightarrow> Inl e | None \<Rightarrow> Inr (head_option (take 1 (deployments_with t project mergeSha))))"

definition lead_time :: "string \<Rightarrow> PullRequest \<Rightarrow> PullRequestCommit option \<Rightarrow> PullRequestComment option
    \<Rightarrow> CicdDeploymentCommit option \<Rightarrow> ProjectPrMetric" where
  "lead_time project pr firstCommit firstReview deployment =
     (let m = \<lparr>mId = prId pr, mProjectName = project, mFirstCommitSha = [], mPrCodingTime = None, mFirstReviewId = [],
            mPrPickupTime = None, mPrReviewTime = None, mDeploymentCommitId = [], mPrDeployTime = None,
            mPrCycleTime = None\<rparr>;
          m = (case firstCommit of None \<Rightarrow> m | Some c \<Rightarrow>
            m\<lparr>mPrCodingTime := computeTimeSpan (Some (prcCommitAuthoredDate c)) (Some (prCreatedDate pr)),
              mFirstCommitSha := prcCommitSha c\<rparr>);
          prDuring = computeTimeSpan (Some (prCreatedDate pr)) (prMergedDate pr);
          m = (case firstReview of None \<Rightarrow> m | Some r \<Rightarrow>
            m\<lparr>mPrPickupTime := computeTimeSpan (Some (prCreatedDate pr)) (Some (cmCreatedDate r)),
              mPrReviewTime := computeTimeSpan (Some (cmCreatedDate r)) (prMergedDate pr),
              mFirstReviewId := cmId r\<rparr>);
          m = (case deployment of None \<Rightarrow> m | Some d \<Rightarrow>
            if dcFinishedDate d = None then m
            else m\<lparr>mPrDeployTime := computeTimeSpan (prMergedDate pr) (dcFinishedDate d),
                   mDeploymentCommitId := dcId d\<rparr>)
      in (case mPrDeployTime m of None \<Rightarrow> m | Some deploy \<Rightarrow>
            m\<lparr>mPrCycleTime := Some (case_option 0 id (mPrCodingTime m) + case_option 0 id prDuring + deploy)\<rparr>))"

text \<open>The failures of the three queries for a pull request.\<close>

type_synonym query_failures = "string \<Rightarrow> goerr option \<times> goerr option \<times> goerr option"

definition convert_pr :: "query_failures \<Rightarrow> dora_tables \<Rightarrow> string \<Rightarrow> PullRequest input_row \<Rightarrow> goerr + row list" where
  "convert_pr fails t project inp =
     (let pr = in_data inp in
      case fails (prId pr) of (f1, f2, f3) \<Rightarrow>
      (case getFirstCommit f1 t (prId pr) of
         Inl e \<Rightarrow> Inl e
       | Inr firstCommit \<Rightarrow>
         (case getFirstReview f2 t (prId pr) (prAuthorId pr) of
            Inl e \<Rightarrow> Inl e
          | Inr firstReview \<Rightarrow>
            (case getDeploymentCommit f3 t (prMergeCommitSha pr) project of
               Inl e \<Rightarrow> Inl e
             | Inr deployment \<Rightarrow> Inr [pr_metric_row (lead_time project pr firstCommit firstReview deployment)]))))"

definition merged_prs :: "dora_tables \<Rightarrow> string \<Rightarrow> PullRequest input_row list" where
  "merged_prs t project = concat (map (\<lambda>pr. map (\<lambda>_. input_of pr (prOrigin pr))
     (mapped t project ''repos'' (prBaseRepoId pr))) (filter (\<lambda>pr. prMergedDate pr \<noteq> None) (d_prs t)))"

text \<open>The parameters of the raw table, \<open>json.Marshal(DoraApiParams{...})\<close>, are a function of the project name.\<close>

definition CalculateChangeLeadTime :: "'db store_fn \<Rightarrow> 'db delete_fn \<Rightarrow> goerr option \<Rightarrow> (nat \<Rightarrow> goerr option) \<Rightarrow>
    (nat \<Rightarrow> goerr option) \<Rightarrow> query_failures \<Rightarrow> slot_type list \<Rightarrow> (string \<Rightarrow> string) \<Rightarrow> dora_tables \<Rightarrow> string \<Rightarrow> 'db
    \<Rightarrow> bs_result \<times> 'db \<times> nat" where
  "CalculateChangeLeadTime store del cursor_err ctx fetch fails order params t project db =
     (case cursor_err of
        Some e \<Rightarrow> (BsErr e, db, 0)
      | None \<Rightarrow> (case NewRawDataSubTask ''pull_requests'' (params project) of
          Inl e \<Rightarrow> (BsErr e, db, 0)
        | Inr (table, ps) \<Rightarrow>
            DataConverter_Execute store del ctx fetch order table ps 100 (convert_pr fails t project)
              (merged_prs t project) db))"

section \<open>Deployment commits\<close>

record pipelineCommitEx =
  xPipelineId :: string
  xCommitSha :: string
  xBranch :: string
  xRepoId :: string
  xRepoUrl :: string
  xPipelineName :: string
  xResult :: string
  xStatus :: string
  xDurationSec :: "nat option"
  xCreatedDate :: "time option"
  xFinishedDate :: "time option"
  xEnvironment :: string
  xCicdScopeId :: string
  xHasTestingTasks :: bool
  xHasStagingTasks :: bool
  xHasProductionTasks :: bool

definition has_task :: "dora_tables \<Rightarrow> (CICDTask \<Rightarrow> bool) \<Rightarrow> string \<Rightarrow> bool" where
  "has_task t p pipeline = list_ex (\<lambda>k. ctPipelineId k = pipeline \<and> p k) (d_tasks t)"

text \<open>The query: the commits of the pipelines of the project that are deployments or have a deployment task.\<close>

definition deployment_pipelines :: "dora_tables \<Rightarrow> string \<Rightarrow> pipelineCommitEx input_row list" where
  "deployment_pipelines t project = concat (map (\<lambda>pc. concat (map (\<lambda>p. map (\<lambda>_. input_of
       \<lparr>xPipelineId = pcPipelineId pc, xCommitSha = pcCommitSha pc, xBranch = pcBranch pc, xRepoId = pcRepoId pc,
        xRepoUrl = pcRepoUrl pc, xPipelineName = plName p, xResult = plResult p, xStatus = plStatus p,
        xDurationSec = plDurationSec p, xCreatedDate = plCreatedDate p, xFinishedDate = plFinishedDate p,
        xEnvironment = plEnvironment p, xCicdScopeId = plCicdScopeId p,
        xHasTestingTasks = has_task t (\<lambda>k. ctEnvironment k = ''TESTING'') (plId p),
        xHasStagingTasks = has_task t (\<lambda>k. ctEnvironment k = ''STAGING'') (plId p),
        xHasProductionTasks = has_task t (\<lambda>k. ctEnvironment k = ''PRODUCTION'') (plId p)\<rparr> (pcOrigin pc))
     (filter (\<lambda>m. plType p = ''DEPLOYMENT'' \<or> has_task t (\<lambda>k. ctType k = ''DEPLOYMENT'') (plId p))
       (mapped t project ''cicd_scopes'' (plCicdScopeId p))))
     (filter (\<lambda>p. plId p = pcPipelineId pc) (d_pipelines t)))) (d_pipeline_commits t))"

definition infer_environment :: "pipelineCommitEx \<Rightarrow> string" where
  "infer_environment x =
     (if xEnvironment x = []
      then (if xHasProductionTasks x then ''PRODUCTION''
            else if xHasStagingTasks x then ''STAGING''
            else if xHasTestingTasks x then ''TESTING'' else [])
      else xEnvironment x)"

text \<open>\<open>None\<close> is the panic of \<open>*pipelineCommit.CreatedDate\<close> on a pipeline without one.\<close>

definition deployment_of :: "pipelineCommitEx \<Rightarrow> CicdDeploymentCommit option" where
  "deployment_of x = map_option (\<lambda>created.
     \<lparr>dcId = xPipelineId x @ '':'' @ xRepoUrl x, dcCicdScopeId = xCicdScopeId x, dcCicdDeploymentId = xPipelineId x,
      dcName = xPipelineName x, dcResult = xResult x, dcStatus = xStatus x, dcEnvironment = infer_environment x,
      dcCreatedDate = created,
      dcStartedDate = (case (xFinishedDate x, xDurationSec x) of
          (Some f, Some s) \<Rightarrow> Some (f - int s * 1000) | _ \<Rightarrow> None),
      dcFinishedDate = xFinishedDate x, dcDurationSec = xDurationSec x, dcCommitSha = xCommitSha x,
      dcRefName = xBranch x, dcRepoId = xRepoId x, dcRepoUrl = xRepoUrl x,
      dcPrevSuccessDeploymentCommitId = [], dcOrigin = zero_origin\<rparr>) (xCreatedDate x)"

definition generated_deployments :: "dora_tables \<Rightarrow> string \<Rightarrow> CicdDeploymentCommit option list" where
  "generated_deployments t project = map (\<lambda>inp. deployment_of (in_data inp)) (deployment_pipelines t project)"

text \<open>A panic of the handler ends the subtask; it is the error the runner makes of it.\<close>

definition GenerateDeploymentCommits :: "'db store_fn \<Rightarrow> 'db delete_fn \<Rightarrow> goerr option \<Rightarrow> (nat \<Rightarrow> goerr option) \<Rightarrow>
    (nat \<Rightarrow> goerr option) \<Rightarrow> goerr \<Rightarrow> slot_type list \<Rightarrow> (string \<Rightarrow> string) \<Rightarrow> dora_tables \<Rightarrow> string \<Rightarrow> 'db
    \<Rightarrow> bs_result \<times> 'db \<times> nat" where
  "GenerateDeploymentCommits store del cursor_err ctx fetch panic_err order params t project db =
     (case cursor_err of
        Some e \<Rightarrow> (BsErr e, db, 0)
      | None \<Rightarrow> (case NewRawDataSubTask ''cicd_pipeline_commits'' (params project) of
          Inl e \<Rightarrow> (BsErr e, db, 0)
        | Inr (table, ps) \<Rightarrow>
            DataConverter_Execute store del ctx fetch order table ps 0
              (\<lambda>inp. case deployment_of (in_data inp) of
                 None \<Rightarrow> Inl panic_err | Some d \<Rightarrow> Inr [deployment_row d])
              (deployment_pipelines t project) db))"

section \<open>The previous successful deployment\<close>

definition deployment_group :: "CicdDeploymentCommit \<Rightarrow> string \<times> string \<times> string" where
  "deployment_group d = (dcCicdScopeId d, dcRepoUrl d, dcEnvironment d)"

definition successful_deployments :: "dora_tables \<Rightarrow> string \<Rightarrow> CicdDeploymentCommit list" where
  "successful_deployments t project =
     sort_key (\<lambda>d. (TextKey (dcCicdScopeId d), TextKey (dcRepoUrl d), TextKey (dcEnvironment d), dcFinishedDate d))
       (concat (map (\<lambda>d. map (\<lambda>_. d) (mapped t project ''cicd_scopes'' (dcCicdScopeId d)))
         (filter (\<lambda>d. dcFinishedDate d \<noteq> None \<and> dcEnvironment d \<noteq> [] \<and> dcRepoUrl d \<noteq> [] \<and>
            dcResult d = ''SUCCESS'') (d_deployments t))))"

text \<open>The four variables of the closure.\<close>

type_synonym prev_vars = "(string \<times> string \<times> string) \<times> string"

definition enrich_prev :: "prev_vars \<Rightarrow> CicdDeploymentCommit \<Rightarrow> CicdDeploymentCommit \<times> prev_vars" where
  "enrich_prev vars d =
     (let prev_id = (if fst vars \<noteq> deployment_group d then [] else snd vars)
      in (d\<lparr>dcPrevSuccessDeploymentCommitId := prev_id\<rparr>, (deployment_group d, dcId d)))"

definition EnrichPrevSuccessDeploymentCommit :: "'db store_fn \<Rightarrow> 'db delete_fn \<Rightarrow> goerr option \<Rightarrow> (nat \<Rightarrow> goerr option) \<Rightarrow>
    (nat \<Rightarrow> goerr option) \<Rightarrow> slot_type list \<Rightarrow> dora_tables \<Rightarrow> string \<Rightarrow> 'db \<Rightarrow> bs_result \<times> 'db \<times> nat" where
  "EnrichPrevSuccessDeploymentCommit store del cursor_err ctx fetch order t project db =
     (case cursor_err of
        Some e \<Rightarrow> (BsErr e, db, 0)
      | None \<Rightarrow> (case NewDataEnricher ''prev_deployment_commit_id_enricher'' of
          Some e \<Rightarrow> (BsErr e, db, 0)
        | None \<Rightarrow>
            DataEnricher_Execute store del ctx fetch order ''prev_deployment_commit_id_enricher'' 0
              (\<lambda>vars inp. case enrich_prev vars (in_data inp) of
                 (d, vars') \<Rightarrow> (Inr [deployment_row d], vars')) (([], [], []), [])
              (map (\<lambda>d. input_of d (dcOrigin d)) (successful_deployments t project)) db))"

section \<open>Incidents\<close>

definition incidents :: "dora_tables \<Rightarrow> string \<Rightarrow> Issue input_row list" where
  "incidents t project = concat (map (\<lambda>i. concat (map (\<lambda>b. map (\<lambda>_. input_of i (isOrigin i))
       (mapped t project ''boards'' (fst b)))
     (filter (\<lambda>b. snd b = isId i) (d_board_issues t))))
     (filter (\<lambda>i. isType i = ''INCIDENT'') (d_issues t)))"

text \<open>The last successful production deployment of the project finished before a moment; a comparison with NULL
  is not true.\<close>

definition deployments_before :: "dora_tables \<Rightarrow> string \<Rightarrow> time option \<Rightarrow> CicdDeploymentCommit list" where
  "deployments_before t project created =
     sort_key (\<lambda>d. - the (dcFinishedDate d))
       (concat (map (\<lambda>d. map (\<lambda>_. d) (mapped t project ''cicd_scopes'' (dcCicdScopeId d)))
         (filter (\<lambda>d. (case (dcFinishedDate d, created) of (Some f, Some c) \<Rightarrow> f < c | _ \<Rightarrow> False) \<and>
            dcResult d = ''SUCCESS'' \<and> dcEnvironment d = ''PRODUCTION'') (d_deployments t))))"

definition connect_incident :: "(string \<Rightarrow> goerr option) \<Rightarrow> (goerr \<Rightarrow> bool) \<Rightarrow> dora_tables \<Rightarrow> string
    \<Rightarrow> Issue input_row \<Rightarrow> goerr + row list" where
  "connect_incident fails not_found t project inp =
     (let issue = in_data inp in
      case fails (isId issue) of
        Some e \<Rightarrow> if not_found e then Inr [] else Inl e
      | None \<Rightarrow>
          (case head_option (take 1 (deployments_before t project (isCreatedDate issue))) of
             None \<Rightarrow> Inr []
           | Some d \<Rightarrow>
               if dcCicdDeploymentId d \<noteq> []
               then Inr [issue_metric_row (isId issue) project (dcCicdDeploymentId d)] else Inr []))"

definition ConnectIncidentToDeployment :: "'db store_fn \<Rightarrow> 'db delete_fn \<Rightarrow> goerr option \<Rightarrow> (nat \<Rightarrow> goerr option) \<Rightarrow>
    (nat \<Rightarrow> goerr option) \<Rightarrow> (string \<Rightarrow> goerr option) \<Rightarrow> (goerr \<Rightarrow> bool) \<Rightarrow> slot_type list \<Rightarrow> (string \<Rightarrow> string) \<Rightarrow>
    dora_tables \<Rightarrow> string \<Rightarrow> 'db \<Rightarrow> bs_result \<times> 'db \<times> nat" where
  "ConnectIncidentToDeployment store del cursor_err ctx fetch fails not_found order params t project db =
     (case cursor_err of
        Some e \<Rightarrow> (BsErr e, db, 0)
      | None \<Rightarrow> (case NewRawDataSubTask ''issues'' (params project) of
          Inl e \<Rightarrow> (BsErr e, db, 0)
        | Inr (table, ps) \<Rightarrow>
            DataConverter_Execute store del ctx fetch order table ps 0 (connect_incident fails not_found t project)
              (incidents t project) db))"

end
