(* ===== verification/DoraFacts.thy ===== *)
theory DoraFacts
  imports Dora
begin

text \<open>
  Facts about the \<open>dora\<close> plugin: the minutes of a time span, the deployment of a change, the lead time metric and
  what the subtask stores, the chain of successful deployments, and the deployment of an incident.
\<close>

section \<open>Time spans\<close>

lemma minutes_ceil_bounds:
  "60000000000 * (minutes_ceil n - 1) < n \<and> n \<le> 60000000000 * minutes_ceil n"
proof -
  define q r where "q = (- n) div 60000000000" and "r = (- n) mod 60000000000"
  have eq: "60000000000 * q + r = - n" by (simp add: q_def r_def)
  have "0 \<le> r" "r < 60000000000" by (simp_all add: r_def)
  moreover have "minutes_ceil n = - q" by (simp add: minutes_ceil_def q_def)
  ultimately show ?thesis using eq by auto
qed

text \<open>C31. \<open>computeTimeSpan\<close> counts started minutes: for moments less than 292 years apart it returns the least
  number of minutes that covers the span, and nil exactly if the end lies a minute or more before the
  start, so that a span of less than a minute backwards counts as zero minutes.\<close>

theorem computeTimeSpan_minutes:
  assumes "\<bar>e - s\<bar> \<le> 9223372036854"
  shows "case computeTimeSpan (Some s) (Some e) of
      None \<Rightarrow> e - s \<le> - 60000
    | Some m \<Rightarrow> 0 \<le> m \<and> 60000 * (m - 1) < e - s \<and> e - s \<le> 60000 * m"
proof -
  have "time_Sub e s = (e - s) * 1000000" using assms by (simp add: time_Sub_def)
  then show ?thesis
    using minutes_ceil_bounds [of "(e - s) * 1000000"] by (auto simp: computeTimeSpan_def Let_def)
qed

theorem computeTimeSpan_minutes_witness:
  "computeTimeSpan (Some 0) (Some 60001) = Some 2 \<and> computeTimeSpan (Some 59000) (Some 0) = Some 0"
proof -
  have "(0 :: int) \<le> 2 \<and> 60000 * (2 - 1) < (60001 :: int) - 0 \<and> 60001 - 0 \<le> 60000 * (2 :: int)" by simp
  moreover have "computeTimeSpan (Some 0) (Some 60001) \<noteq> None" "computeTimeSpan (Some 59000) (Some 0) \<noteq> None"
    using computeTimeSpan_minutes [of 60001 0] computeTimeSpan_minutes [of 0 59000] by (auto split: option.splits)
  ultimately show ?thesis
    using computeTimeSpan_minutes [of 60001 0] computeTimeSpan_minutes [of 0 59000]
    by (auto split: option.splits)
qed

section \<open>The deployment of a change\<close>

definition deploys_commit :: "dora_tables \<Rightarrow> string \<Rightarrow> string \<Rightarrow> CicdDeploymentCommit \<Rightarrow> bool" where
  "deploys_commit t project sha d \<longleftrightarrow> d \<in> set (d_deployments t) \<and> dcEnvironment d = ''PRODUCTION'' \<and>
     (\<exists>m \<in> set (d_mappings t). pmTable m = ''cicd_scopes'' \<and> pmRowId m = dcCicdScopeId d \<and> pmProjectName m = project) \<and>
     (\<exists>old. (dcCommitSha d, old, sha) \<in> set (d_diffs t) \<and>
        (if \<exists>q \<in> set (d_deployments t). dcId q = dcPrevSuccessDeploymentCommitId d
         then \<exists>q \<in> set (d_deployments t). dcId q = dcPrevSuccessDeploymentCommitId d \<and> old = dcCommitSha q
         else old = []))"

lemma set_left_join:
  "set (left_join p xs) = (if \<exists>x \<in> set xs. p x then Some ` {x \<in> set xs. p x} else {None})"
  by (auto simp: left_join_def filter_empty_conv)

lemma set_deployments_with: "set (deployments_with t project sha) = {d. deploys_commit t project sha d}"
proof -
  have "d \<in> set (deployments_with t project sha) \<longleftrightarrow> deploys_commit t project sha d" for d
    unfolding deployments_with_def deploys_commit_def
    by (auto simp: mapped_def set_left_join split: if_splits option.splits)
  then show ?thesis by blast
qed

lemma head_of_sorted:
  assumes "head_option (take 1 (sort_key k xs)) = r"
  shows "case r of None \<Rightarrow> xs = [] | Some x \<Rightarrow> x \<in> set xs \<and> (\<forall>y \<in> set xs. k x \<le> k y)"
proof (cases "sort_key k xs")
  case Nil
  then have "xs = []" by (metis length_0_conv length_sort)
  with assms Nil show ?thesis by (auto simp: head_option_def)
next
  case (Cons x ys)
  have "sorted (map k (x # ys))" using sorted_sort_key [of k xs] Cons by simp
  moreover have "set xs = set (x # ys)" by (metis Cons set_sort)
  ultimately show ?thesis using assms Cons by (auto simp: head_option_def)
qed

lemma getDeploymentCommit_aux:
  "case getDeploymentCommit None t sha project of
     Inl e \<Rightarrow> False
   | Inr None \<Rightarrow> \<not> (\<exists>d. deploys_commit t project sha d)
   | Inr (Some d) \<Rightarrow> deploys_commit t project sha d \<and>
       {d'. deploys_commit t project sha d' \<and> dcStartedDate d' < dcStartedDate d} = {}"
proof -
  define xs where "xs = concat (map (\<lambda>dc. concat (map (\<lambda>p. concat (map (\<lambda>m.
          map (\<lambda>_. dc) (filter (\<lambda>(new, old, c). new = dcCommitSha dc \<and>
              old = (case p of None \<Rightarrow> [] | Some q \<Rightarrow> dcCommitSha q) \<and> c = sha) (d_diffs t)))
          (mapped t project ''cicd_scopes'' (dcCicdScopeId dc))))
        (left_join (\<lambda>q. dcId q = dcPrevSuccessDeploymentCommitId dc) (d_deployments t))))
       (filter (\<lambda>dc. dcEnvironment dc = ''PRODUCTION'') (d_deployments t)))"
  have all: "deployments_with t project sha = sort_key (\<lambda>dc. (dcStartedDate dc, TextKey (dcId dc))) xs"
    by (simp add: deployments_with_def xs_def)
  have set_xs: "set xs = {d. deploys_commit t project sha d}"
    using set_deployments_with [of t project sha] by (simp add: all)
  show ?thesis
  proof (cases "head_option (take 1 (deployments_with t project sha))")
    case None
    with head_of_sorted [of _ xs None] have "xs = []" by (simp add: all)
    with set_xs None show ?thesis by (simp add: getDeploymentCommit_def)
  next
    case (Some d)
    with head_of_sorted [of "\<lambda>dc. (dcStartedDate dc, TextKey (dcId dc))" xs "Some d"]
    have "d \<in> set xs" "\<forall>y \<in> set xs. (dcStartedDate d, TextKey (dcId d)) \<le> (dcStartedDate y, TextKey (dcId y))"
      by (simp_all add: all)
    with set_xs Some show ?thesis by (auto simp: getDeploymentCommit_def less_eq_prod_def dest: leD)
  qed
qed

text \<open>The deployment that delivered a change: \<open>getDeploymentCommit\<close> finds nothing exactly if no production
  deployment of the project has the merge commit among the commits by which it differs from the previous
  successful deployment (from nothing when it has none), and otherwise returns one of those started first.\<close>

theorem getDeploymentCommit_first:
  "case getDeploymentCommit None t sha project of
     Inl e \<Rightarrow> False
   | Inr None \<Rightarrow> \<not> (\<exists>d. deploys_commit t project sha d)
   | Inr (Some d) \<Rightarrow> deploys_commit t project sha d \<and>
       {d'. deploys_commit t project sha d' \<and> dcStartedDate d' < dcStartedDate d} = {}"
  by (rule getDeploymentCommit_aux)

section \<open>The lead time metric\<close>

text \<open>The metric of a change: it has a deployment time only if a finished deployment of the merge commit was found, and a
  cycle time exactly then, the sum of the coding time and of the time from creation to merge, where they are
  known, and of the deployment time; no time of it is negative, and the ids name the first commit, the first
  review and the deployment the times were computed from.\<close>

theorem lead_time_metric:
  "let m = lead_time project pr firstCommit firstReview deployment;
     merge = computeTimeSpan (Some (prCreatedDate pr)) (prMergedDate pr)
   in mId m = prId pr \<and> mProjectName m = project \<and>
     mPrDeployTime m = (case deployment of None \<Rightarrow> None | Some d \<Rightarrow> computeTimeSpan (prMergedDate pr) (dcFinishedDate d)) \<and>
     mPrCycleTime m = map_option (\<lambda>deploy. case_option 0 id (mPrCodingTime m) + case_option 0 id merge + deploy)
       (mPrDeployTime m) \<and>
     set_option (mPrCodingTime m) \<union> set_option (mPrPickupTime m) \<union> set_option (mPrReviewTime m) \<union>
       set_option (mPrDeployTime m) \<union> set_option (mPrCycleTime m) \<subseteq> {0..} \<and>
     mFirstCommitSha m = case_option [] prcCommitSha firstCommit \<and>
     mFirstReviewId m = case_option [] cmId firstReview \<and>
     mDeploymentCommitId m = (case deployment of None \<Rightarrow> []
       | Some d \<Rightarrow> if dcFinishedDate d = None then [] else dcId d)"
proof -
  have nonneg: "set_option (computeTimeSpan a b) \<subseteq> {0..}" for a b
    by (auto simp: computeTimeSpan_def Let_def split: option.splits)
  have none: "computeTimeSpan a None = None" for a by (simp add: computeTimeSpan_def split: option.splits)
  have pos: "0 \<le> n" if "computeTimeSpan a b = Some n" for a b n
    using nonneg [of a b] that by simp
  show ?thesis
    by (cases firstCommit; cases firstReview; cases deployment)
      (auto simp: lead_time_def Let_def none split: option.splits intro!: add_nonneg_nonneg intro: pos)
qed

section \<open>The previous successful deployment\<close>

lemma nth_thread_enrich:
  "i < length ds \<Longrightarrow> thread enrich_prev (g, prev) ds ! i = (ds ! i)\<lparr>dcPrevSuccessDeploymentCommitId :=
     (if i = 0 then (if g = deployment_group (ds ! 0) then prev else [])
      else if deployment_group (ds ! (i - 1)) = deployment_group (ds ! i) then dcId (ds ! (i - 1)) else [])\<rparr>"
proof (induction ds arbitrary: i g prev)
  case (Cons d ds)
  show ?case
  proof (cases i)
    case 0
    then show ?thesis by (simp add: enrich_prev_def Let_def)
  next
    case (Suc j)
    then have j: "j < length ds" using Cons.prems by simp
    have "thread enrich_prev (g, prev) (d # ds) ! i = thread enrich_prev (deployment_group d, dcId d) ds ! j"
      using Suc by (simp add: enrich_prev_def Let_def)
    also have "\<dots> = (ds ! j)\<lparr>dcPrevSuccessDeploymentCommitId :=
        (if j = 0 then (if deployment_group d = deployment_group (ds ! 0) then dcId d else [])
         else if deployment_group (ds ! (j - 1)) = deployment_group (ds ! j) then dcId (ds ! (j - 1)) else [])\<rparr>"
      using Cons.IH [OF j] .
    finally show ?thesis using Suc by (cases j) auto
  qed
qed simp

definition group_key :: "CicdDeploymentCommit \<Rightarrow> text_key \<times> text_key \<times> text_key" where
  "group_key d = (TextKey (dcCicdScopeId d), TextKey (dcRepoUrl d), TextKey (dcEnvironment d))"

lemma group_key_eq: "group_key a = group_key b \<longleftrightarrow> deployment_group a = deployment_group b"
  by (simp add: group_key_def deployment_group_def)

lemma successful_sorted:
  assumes "j \<le> i" "i < length (successful_deployments t project)"
  defines "ds \<equiv> successful_deployments t project"
  shows "group_key (ds ! j) \<le> group_key (ds ! i)"
    and "deployment_group (ds ! j) = deployment_group (ds ! i) \<Longrightarrow> dcFinishedDate (ds ! j) \<le> dcFinishedDate (ds ! i)"
proof -
  have "sorted (map (\<lambda>d. (TextKey (dcCicdScopeId d), TextKey (dcRepoUrl d), TextKey (dcEnvironment d), dcFinishedDate d)) ds)"
    unfolding ds_def successful_deployments_def by (rule sorted_sort_key)
  then have le: "(TextKey (dcCicdScopeId (ds ! j)), TextKey (dcRepoUrl (ds ! j)), TextKey (dcEnvironment (ds ! j)), dcFinishedDate (ds ! j))
      \<le> (TextKey (dcCicdScopeId (ds ! i)), TextKey (dcRepoUrl (ds ! i)), TextKey (dcEnvironment (ds ! i)), dcFinishedDate (ds ! i))"
    using assms(1,2) sorted_nth_mono [of _ j i] unfolding ds_def by fastforce
  then show "group_key (ds ! j) \<le> group_key (ds ! i)"
    by (auto simp: group_key_def less_eq_prod_def intro: less_imp_le)
  show "deployment_group (ds ! j) = deployment_group (ds ! i) \<Longrightarrow> dcFinishedDate (ds ! j) \<le> dcFinishedDate (ds ! i)"
    using le by (auto simp: deployment_group_def less_eq_prod_def)
qed

text \<open>Every successful deployment is connected to the one before it: of the successful deployments of a project in
  the order of the query, one that has an earlier one of the same scope, repository and environment gets the id
  of the last of those, which finished no later than itself and no earlier than any other of them; the first of a
  group gets the empty id.\<close>

theorem prev_deployment_chain:
  assumes "i < length (successful_deployments t project)"
  shows "let ds = successful_deployments t project;
      es = thread enrich_prev (([], [], []), []) ds;
      earlier = {j. j < i \<and> deployment_group (ds ! j) = deployment_group (ds ! i)}
    in es ! i = (ds ! i)\<lparr>dcPrevSuccessDeploymentCommitId := dcPrevSuccessDeploymentCommitId (es ! i)\<rparr> \<and>
      (if earlier = {} then dcPrevSuccessDeploymentCommitId (es ! i) = []
       else \<exists>p \<in> earlier. dcPrevSuccessDeploymentCommitId (es ! i) = dcId (ds ! p) \<and>
         dcFinishedDate (ds ! p) \<le> dcFinishedDate (ds ! i) \<and>
         (\<forall>j \<in> earlier. dcFinishedDate (ds ! j) \<le> dcFinishedDate (ds ! p)))"
proof -
  define ds where "ds = successful_deployments t project"
  define earlier where "earlier = {j. j < i \<and> deployment_group (ds ! j) = deployment_group (ds ! i)}"
  define e where "e = thread enrich_prev (([], [], []), []) ds ! i"
  have e: "e = (ds ! i)\<lparr>dcPrevSuccessDeploymentCommitId := (if i = 0 then []
      else if deployment_group (ds ! (i - 1)) = deployment_group (ds ! i) then dcId (ds ! (i - 1)) else [])\<rparr>"
    using nth_thread_enrich [of i ds "([], [], [])" "[]"] assms by (simp add: e_def ds_def)
  have last: "i - 1 \<in> earlier" if "earlier \<noteq> {}"
  proof -
    from that obtain j where j: "j < i" "deployment_group (ds ! j) = deployment_group (ds ! i)"
      by (auto simp: earlier_def)
    then have "group_key (ds ! j) \<le> group_key (ds ! (i - 1))" "group_key (ds ! (i - 1)) \<le> group_key (ds ! i)"
      using assms successful_sorted(1) [of j "i - 1" t project] successful_sorted(1) [of "i - 1" i t project]
      by (simp_all add: ds_def)
    with j have "deployment_group (ds ! (i - 1)) = deployment_group (ds ! i)"
      by (metis group_key_eq order_antisym)
    with j show ?thesis by (simp add: earlier_def)
  qed
  have "if earlier = {} then dcPrevSuccessDeploymentCommitId e = []
     else \<exists>p \<in> earlier. dcPrevSuccessDeploymentCommitId e = dcId (ds ! p) \<and>
       dcFinishedDate (ds ! p) \<le> dcFinishedDate (ds ! i) \<and>
       (\<forall>j \<in> earlier. dcFinishedDate (ds ! j) \<le> dcFinishedDate (ds ! p))"
  proof (cases "earlier = {}")
    case True
    then have "i = 0 \<or> deployment_group (ds ! (i - 1)) \<noteq> deployment_group (ds ! i)"
      by (cases i) (auto simp: earlier_def)
    with True show ?thesis by (auto simp: e)
  next
    case False
    note prev = last [OF False]
    then have i: "0 < i" "deployment_group (ds ! (i - 1)) = deployment_group (ds ! i)" by (auto simp: earlier_def)
    have "dcFinishedDate (ds ! j) \<le> dcFinishedDate (ds ! (i - 1))" if "j \<in> earlier" for j
      using that i assms successful_sorted(2) [of j "i - 1" t project] by (auto simp: earlier_def ds_def)
    moreover have "dcFinishedDate (ds ! (i - 1)) \<le> dcFinishedDate (ds ! i)"
      using i assms successful_sorted(2) [of "i - 1" i t project] by (simp add: ds_def)
    ultimately show ?thesis using False prev i by (auto simp: e intro!: bexI [of _ "i - 1"])
  qed
  moreover have "e = (ds ! i)\<lparr>dcPrevSuccessDeploymentCommitId := dcPrevSuccessDeploymentCommitId e\<rparr>"
    by (subst (1) e) (simp add: e)
  ultimately show ?thesis unfolding Let_def e_def earlier_def ds_def by blast
qed

definition sample_deployment :: "string \<Rightarrow> time \<Rightarrow> CicdDeploymentCommit" where
  "sample_deployment i f = \<lparr>dcId = i, dcCicdScopeId = ''s'', dcCicdDeploymentId = i, dcName = [], dcResult = ''SUCCESS'',
     dcStatus = ''DONE'', dcEnvironment = ''PRODUCTION'', dcCreatedDate = 0, dcStartedDate = Some 0,
     dcFinishedDate = Some f, dcDurationSec = None, dcCommitSha = i, dcRefName = [], dcRepoId = [], dcRepoUrl = ''u'',
     dcPrevSuccessDeploymentCommitId = [], dcOrigin = no_origin\<rparr>"

definition sample_pr :: PullRequest where
  "sample_pr = \<lparr>prId = ''p'', prBaseRepoId = ''r'', prAuthorId = ''a'', prCreatedDate = 0, prMergedDate = Some 60000,
     prMergeCommitSha = ''d2'', prOrigin = no_origin\<rparr>"

definition sample_dora :: dora_tables where
  "sample_dora = \<lparr>d_deployments = [sample_deployment ''d2'' 120000, sample_deployment ''d1'' 50],
     d_pipelines = [], d_pipeline_commits = [], d_tasks = [],
     d_mappings = [\<lparr>pmProjectName = ''P'', pmTable = ''cicd_scopes'', pmRowId = ''s''\<rparr>,
       \<lparr>pmProjectName = ''P'', pmTable = ''repos'', pmRowId = ''r''\<rparr>],
     d_prs = [sample_pr], d_pr_commits = [], d_pr_comments = [], d_diffs = [(''d2'', [], ''d2'')],
     d_issues = [], d_board_issues = []\<rparr>"

lemmas dora_samples = sample_deployment_def sample_pr_def sample_dora_def

theorem prev_deployment_chain_witness:
  "map dcPrevSuccessDeploymentCommitId (thread enrich_prev (([], [], []), []) (successful_deployments sample_dora ''P'')) ! 1
     = ''d1''"
proof -
  have ds: "successful_deployments sample_dora ''P'' = [sample_deployment ''d1'' 50, sample_deployment ''d2'' 120000]"
    by (simp add: successful_deployments_def dora_samples mapped_def less_eq_prod_def less_eq_text_key_def)
  have earlier: "{j. j < 1 \<and> deployment_group (successful_deployments sample_dora ''P'' ! j) =
      deployment_group (successful_deployments sample_dora ''P'' ! 1)} = {0}"
    by (auto simp: ds deployment_group_def sample_deployment_def)
  have len: "1 < length (successful_deployments sample_dora ''P'')" by (simp add: ds)
  from prev_deployment_chain [OF len] have "dcPrevSuccessDeploymentCommitId
      (thread enrich_prev (([], [], []), []) (successful_deployments sample_dora ''P'') ! 1)
      = dcId (successful_deployments sample_dora ''P'' ! 0)"
    unfolding earlier Let_def by simp
  moreover have "dcId (successful_deployments sample_dora ''P'' ! 0) = ''d1''"
    by (simp add: ds sample_deployment_def)
  ultimately show ?thesis using len by (subst nth_map) (simp_all only: length_thread)
qed

section \<open>Incidents\<close>

definition blames :: "dora_tables \<Rightarrow> string \<Rightarrow> time option \<Rightarrow> CicdDeploymentCommit \<Rightarrow> bool" where
  "blames t project created d \<longleftrightarrow> d \<in> set (d_deployments t) \<and> dcResult d = ''SUCCESS'' \<and> dcEnvironment d = ''PRODUCTION'' \<and>
     (\<exists>m \<in> set (d_mappings t). pmTable m = ''cicd_scopes'' \<and> pmRowId m = dcCicdScopeId d \<and> pmProjectName m = project) \<and>
     (\<exists>f c. dcFinishedDate d = Some f \<and> created = Some c \<and> f < c)"

text \<open>The deployment of an incident: when its query does not fail, \<open>ConnectIncidentToDeployment\<close> makes a record of an issue
  exactly if a successful production deployment of the project finished before the issue was created, with the
  deployment of one that finished last among those, unless that one names no deployment.\<close>

theorem connect_incident_latest:
  "let Q = {d. blames t project (isCreatedDate (in_data inp)) d}
   in if Q = {} then connect_incident (\<lambda>_. None) not_found t project inp = Inr []
      else \<exists>d \<in> Q. {d' \<in> Q. the (dcFinishedDate d) < the (dcFinishedDate d')} = {} \<and>
        connect_incident (\<lambda>_. None) not_found t project inp = Inr (if dcCicdDeploymentId d = [] then []
          else [issue_metric_row (isId (in_data inp)) project (dcCicdDeploymentId d)])"
proof -
  define created where "created = isCreatedDate (in_data inp)"
  define xs where "xs = concat (map (\<lambda>d. map (\<lambda>_. d) (mapped t project ''cicd_scopes'' (dcCicdScopeId d)))
         (filter (\<lambda>d. (case (dcFinishedDate d, created) of (Some f, Some c) \<Rightarrow> f < c | _ \<Rightarrow> False) \<and>
            dcResult d = ''SUCCESS'' \<and> dcEnvironment d = ''PRODUCTION'') (d_deployments t)))"
  have all: "deployments_before t project created = sort_key (\<lambda>d. - the (dcFinishedDate d)) xs"
    by (simp add: deployments_before_def xs_def)
  have set_xs: "set xs = {d. blames t project created d}"
    by (auto simp: xs_def blames_def mapped_def split: option.splits)
  show ?thesis
  proof (cases "head_option (take 1 (deployments_before t project created))")
    case None
    with head_of_sorted [of _ xs None] have "xs = []" by (simp add: all)
    with set_xs None show ?thesis by (simp add: connect_incident_def Let_def flip: created_def)
  next
    case (Some d)
    with head_of_sorted [of "\<lambda>d. - the (dcFinishedDate d)" xs "Some d"]
    have d: "d \<in> set xs" "\<forall>y \<in> set xs. the (dcFinishedDate y) \<le> the (dcFinishedDate d)" by (simp_all add: all)
    then have "{d' \<in> {d. blames t project created d}. the (dcFinishedDate d) < the (dcFinishedDate d')} = {}"
      using set_xs by fastforce
    with d set_xs Some show ?thesis
      by (auto simp: connect_incident_def Let_def simp flip: created_def intro!: bexI [of _ d])
  qed
qed

section \<open>The table of lead times\<close>

lemma etl_rows_handled:
  "etl_rows store del t ctx fetch i inps d db = (BsOk, d', db', n) \<Longrightarrow> inp \<in> set inps \<Longrightarrow> \<exists>rs. etl_handler t inp = Inr rs"
proof (induction inps arbitrary: i d db)
  case (Cons x inps)
  then obtain rs d1 db1 where "etl_handler t x = Inr rs"
    "etl_rows store del t ctx fetch (i + 1) inps d1 db1 = (BsOk, d', db', n)"
    by (auto simp: wrap_result_def split: prod.splits option.splits bs_result.splits sum.splits)
  with Cons show ?case by auto
qed simp

text \<open>The rows the subtask saves all carry the same project name, so the ids tell them apart.\<close>

lemma pr_metric_stored:
  assumes "r = stripZeroByte (convert_origin inp (pr_metric_row m))"
  shows "r_type r = pr_metric_type" and "row_pk r = [Some (FStr (mId m)), Some (FStr (strip_nul (mProjectName m)))]"
    and "mId m \<noteq> [] \<Longrightarrow> row_key r = Some (if strip_nul (mProjectName m) = [] then mId m
      else mId m @ '':'' @ strip_nul (mProjectName m))"
  by (simp_all add: assms convert_origin_def pr_metric_row_def stripZeroByte_def row_pk_def pr_metric_type_def
      FieldByName_def row_key_def getKeyValue_def)

lemma convert_pr_rows:
  assumes "convert_pr fails t project inp = Inr rs"
  shows "\<exists>c r d. getFirstCommit None t (prId (in_data inp)) = Inr c \<and>
    getFirstReview None t (prId (in_data inp)) (prAuthorId (in_data inp)) = Inr r \<and>
    getDeploymentCommit None t (prMergeCommitSha (in_data inp)) project = Inr d \<and>
    rs = [pr_metric_row (lead_time project (in_data inp) c r d)]"
  using assms by (auto simp: convert_pr_def Let_def getFirstCommit_def getFirstReview_def getDeploymentCommit_def
      split: prod.splits option.splits)

lemma lead_time_ids [simp]:
  "mId (lead_time project pr c r d) = prId pr" "mProjectName (lead_time project pr c r d) = project"
  by (simp_all add: lead_time_def Let_def split: option.splits)

text \<open>What the lead time subtask leaves: when \<open>CalculateChangeLeadTime\<close> returns nil, the table of metrics holds, for every
  merged pull request of the project, the metric computed from its first commit, its first review by someone
  else and the deployment of its merge commit, as the queries find them.\<close>

theorem CalculateChangeLeadTime_table:
  assumes "record_store store look del" and "distinct (map prId (d_prs t))" and "[] \<notin> prId ` set (d_prs t)"
    and "pr_metric_type \<in> set order"
    and "CalculateChangeLeadTime store del cursor_err ctx fetch fails order params t project db = (BsOk, db', n)"
    and "inp \<in> set (merged_prs t project)"
  shows "\<exists>c r d. getFirstCommit None t (prId (in_data inp)) = Inr c \<and>
    getFirstReview None t (prId (in_data inp)) (prAuthorId (in_data inp)) = Inr r \<and>
    getDeploymentCommit None t (prMergeCommitSha (in_data inp)) project = Inr d \<and>
    look db' (TypeTable pr_metric_type) [Some (FStr (prId (in_data inp))), Some (FStr (strip_nul project))] =
      Some (stripZeroByte (convert_origin inp (pr_metric_row (lead_time project (in_data inp) c r d))))"
proof -
  define T where "T = convert_etl (convert_pr fails t project)"
  define inps where "inps = merged_prs t project"
  define d0 where "d0 = NewBatchSaveDivider (batch_size 100) ''_raw_pull_requests'' (params project)"
  have handler: "etl_handler T = convert_pr fails t project" "etl_origin T = convert_origin"
    by (simp_all add: T_def convert_etl_def)
  have run: "etl_run store del T ctx fetch order inps d0 db = (BsOk, db', n)"
    using assms(5) by (simp add: CalculateChangeLeadTime_def NewRawDataSubTask_def DataConverter_Execute_def T_def
      inps_def d0_def split: option.splits)
  then obtain d1 db1 where loop: "etl_rows store del T ctx fetch 0 inps d0 db = (BsOk, d1, db1, n)"
    by (auto simp: etl_run_def split: prod.splits bs_result.splits)
  have out: "\<exists>inp \<in> set inps. \<exists>c r d. row = stripZeroByte (convert_origin inp (pr_metric_row (lead_time project (in_data inp) c r d))) \<and>
      convert_pr fails t project inp = Inr [pr_metric_row (lead_time project (in_data inp) c r d)]"
    if "row \<in> set (etl_output T inps)" for row
  proof -
    from that obtain inp rs where inp: "inp \<in> set inps" "convert_pr fails t project inp = Inr rs"
      "row \<in> (\<lambda>r. stripZeroByte (convert_origin inp r)) ` set rs"
      by (auto simp: etl_output_def handler split: sum.splits) (metis imageI)
    from convert_pr_rows [OF inp(2)] obtain c r d where "rs = [pr_metric_row (lead_time project (in_data inp) c r d)]"
      by blast
    with inp show ?thesis by auto
  qed
  have in_prs: "in_data i \<in> set (d_prs t) \<and> i = input_of (in_data i) (prOrigin (in_data i))" if "i \<in> set inps" for i
    using that by (auto simp: inps_def merged_prs_def input_of_def)
  have same: "i = j" if "i \<in> set inps" "j \<in> set inps" "prId (in_data i) = prId (in_data j)" for i j
  proof -
    have "in_data i = in_data j"
      using in_prs [OF that(1)] in_prs [OF that(2)] that(3) assms(2) by (metis distinct_map inj_onD)
    then show ?thesis using in_prs [OF that(1)] in_prs [OF that(2)] by metis
  qed
  have id: "prId (in_data i) \<noteq> []" if "i \<in> set inps" for i using in_prs [OF that] assms(3) by force
  have sep: "keys_separate (etl_output T inps)"
    unfolding keys_separate_def
  proof (intro conjI ballI impI)
    fix row assume "row \<in> set (etl_output T inps)"
    from out [OF this] obtain i c r d where "i \<in> set inps"
      "row = stripZeroByte (convert_origin i (pr_metric_row (lead_time project (in_data i) c r d)))" by blast
    with pr_metric_stored(3) [OF this(2)] id show "\<exists>k. k \<noteq> [] \<and> row_key row = Some k" by simp
  next
    fix row row' assume "row \<in> set (etl_output T inps)" "row' \<in> set (etl_output T inps)"
    from out [OF this(1)] out [OF this(2)] obtain i c r d j c' r' d' where i: "i \<in> set inps" "j \<in> set inps"
      "row = stripZeroByte (convert_origin i (pr_metric_row (lead_time project (in_data i) c r d)))"
      "row' = stripZeroByte (convert_origin j (pr_metric_row (lead_time project (in_data j) c' r' d')))" by blast
    show "(row_key row = row_key row') = (row_pk row = row_pk row')"
      using pr_metric_stored [OF i(3)] pr_metric_stored [OF i(4)] id [OF i(1)] id [OF i(2)] by auto
  qed
  have types: "r_type ` set (etl_output T inps) \<subseteq> set order"
    using out pr_metric_stored(1) assms(4) by fastforce
  have look: "look db' = replaced d0 (etl_output T inps) (look db)"
    using record_store.etl_run_ok [OF assms(1) sep _ _ types run [unfolded d0_def]]
    by (simp add: d0_def batch_size_def T_def)
  from etl_rows_handled [OF loop] assms(6) obtain rs where rs: "convert_pr fails t project inp = Inr rs"
    by (auto simp: handler inps_def)
  from convert_pr_rows [OF rs] obtain c r d where q: "getFirstCommit None t (prId (in_data inp)) = Inr c"
    "getFirstReview None t (prId (in_data inp)) (prAuthorId (in_data inp)) = Inr r"
    "getDeploymentCommit None t (prMergeCommitSha (in_data inp)) project = Inr d"
    "rs = [pr_metric_row (lead_time project (in_data inp) c r d)]" by blast
  define row where "row = stripZeroByte (convert_origin inp (pr_metric_row (lead_time project (in_data inp) c r d)))"
  note stored = pr_metric_stored [OF row_def]
  have row: "row \<in> set (etl_output T inps)"
    using assms(6) rs q(4) by (auto simp: etl_output_def handler row_def inps_def intro!: bexI [of _ inp])
  have only: "row' = row" if "row' \<in> set (etl_output T inps)" "row_pk row' = row_pk row" for row'
  proof -
    from out [OF that(1)] obtain i c' r' d' where i: "i \<in> set inps"
      "row' = stripZeroByte (convert_origin i (pr_metric_row (lead_time project (in_data i) c' r' d')))"
      "convert_pr fails t project i = Inr [pr_metric_row (lead_time project (in_data i) c' r' d')]" by blast
    then have "i = inp" using same [OF i(1)] assms(6) that(2) stored(2) pr_metric_stored(2) [OF i(2)]
      by (simp add: inps_def)
    with i rs q(4) show ?thesis by (simp add: row_def)
  qed
  have "look db' (TypeTable pr_metric_type) (row_pk row) = Some row"
  proof -
    define R where "R = filter (\<lambda>r. r_type r = pr_metric_type) (etl_output T inps)"
    have "row \<in> set R" using row stored(1) by (simp add: R_def)
    moreover from this have "upserts R m (row_pk row) = Some row" for m
      using only by (intro upserts_unique) (auto simp: R_def)
    ultimately show ?thesis by (auto simp: look replaced_def simp flip: R_def)
  qed
  then show ?thesis using q stored(2) by (auto simp: row_def)
qed

theorem CalculateChangeLeadTime_table_witness:
  "\<exists>db' n. CalculateChangeLeadTime mem_store mem_delete None (\<lambda>_. None) (\<lambda>_. None) (\<lambda>_. (None, None, None)) [pr_metric_type]
      id sample_dora ''P'' (9, \<lambda>_. Map.empty) = (BsOk, db', n) \<and>
    snd db' (TypeTable pr_metric_type) [Some (FStr ''p''), Some (FStr ''P'')] \<noteq> None"
proof -
  define out where "out = CalculateChangeLeadTime mem_store mem_delete None (\<lambda>_. None) (\<lambda>_. None) (\<lambda>_. (None, None, None))
      [pr_metric_type] id sample_dora ''P'' (9, \<lambda>_. Map.empty)"
  have "fst out = BsOk" unfolding out_def by code_simp
  then obtain db' n where run: "CalculateChangeLeadTime mem_store mem_delete None (\<lambda>_. None) (\<lambda>_. None)
      (\<lambda>_. (None, None, None)) [pr_metric_type] id sample_dora ''P'' (9, \<lambda>_. Map.empty) = (BsOk, db', n)"
    by (cases out) (auto simp: out_def)
  have prs: "distinct (map prId (d_prs sample_dora))" "[] \<notin> prId ` set (d_prs sample_dora)"
    "input_of sample_pr no_origin \<in> set (merged_prs sample_dora ''P'')"
    by (simp_all add: dora_samples merged_prs_def mapped_def)
  have "snd db' (TypeTable pr_metric_type) [Some (FStr (prId (in_data (input_of sample_pr no_origin)))),
      Some (FStr (strip_nul ''P''))] \<noteq> None"
    using CalculateChangeLeadTime_table [OF memrec.record_store_axioms prs(1,2) _ run prs(3)] by auto
  then show ?thesis using run by (auto simp: input_of_def sample_pr_def strip_nul_def)
qed

end
