(* ===== verification/DeploymentDiff.thy ===== *)
theory DeploymentDiff
  imports CommitGraph DoraFacts
begin

text \<open>
  \<open>CalculateDeploymentCommitsDiff\<close> of the \<open>refdiff\<close> plugin
  (\<open>backend/plugins/refdiff/tasks/deployment_commit_diff_calculator.go\<close>): for every deployment of a project whose
  commits were not compared with those of its previous successful deployment, the commits it brought are stored in
  \<open>commits_diffs\<close> through a batch, and the pair is marked in \<open>finished_commits_diffs\<close>.

  The tables the subtask reads are those of the \<open>dora\<close> model and the commit graph of the project; what it writes goes to
  the database of the batch, a parameter with the laws of \<open>upsert_store\<close>.
\<close>

record graph_tables =
  g_parents :: "(sha \<times> sha) list"
  g_repo_commits :: "(string \<times> sha) list"
  g_finished :: "(sha \<times> sha) list"

record deploymentCommitPair =
  dpId :: string
  dpCommitSha :: sha
  dpPrevCommitSha :: sha

definition commits_diff_type :: slot_type where
  "commits_diff_type = \<lparr>st_name = ''*code.CommitsDiff'', st_elem = ''CommitsDiff'', st_ptr = True,
     st_primary = [''NewCommitSha'', ''OldCommitSha'', ''CommitSha''], st_origin = False\<rparr>"

definition commits_diff_row :: "sha \<Rightarrow> sha \<Rightarrow> sha \<Rightarrow> nat \<Rightarrow> row" where
  "commits_diff_row new old sha i = \<lparr>r_type = commits_diff_type,
     r_fields = [(''NewCommitSha'', FStr new), (''OldCommitSha'', FStr old), (''CommitSha'', FStr sha),
       (''SortingIndex'', FNum (int i))], r_embedded = [], r_origin = zero_origin\<rparr>"

definition finished_type :: slot_type where
  "finished_type = \<lparr>st_name = ''*code.FinishedCommitsDiff'', st_elem = ''FinishedCommitsDiff'', st_ptr = True,
     st_primary = [''NewCommitSha'', ''OldCommitSha''], st_origin = False\<rparr>"

definition finished_row :: "sha \<Rightarrow> sha \<Rightarrow> row" where
  "finished_row new old = \<lparr>r_type = finished_type,
     r_fields = [(''NewCommitSha'', FStr new), (''OldCommitSha'', FStr old)], r_embedded = [], r_origin = zero_origin\<rparr>"

text \<open>The pairs to compare. The sha of a missing previous deployment is NULL, which equals no sha of a finished
  pair, and is scanned into the empty string.\<close>

definition deployment_pairs :: "dora_tables \<Rightarrow> graph_tables \<Rightarrow> string \<Rightarrow> deploymentCommitPair list" where
  "deployment_pairs t g project =
     map (\<lambda>(dc, p). \<lparr>dpId = dcId dc, dpCommitSha = dcCommitSha dc,
        dpPrevCommitSha = (case p of None \<Rightarrow> [] | Some q \<Rightarrow> dcCommitSha q)\<rparr>)
       (sort_key (\<lambda>(dc, p). (TextKey (dcCicdScopeId dc), TextKey (dcRepoUrl dc), TextKey (dcEnvironment dc), dcStartedDate dc))
         (concat (map (\<lambda>dc. concat (map (\<lambda>m. map (Pair dc)
             (filter (\<lambda>p. case p of None \<Rightarrow> True | Some q \<Rightarrow> (dcCommitSha dc, dcCommitSha q) \<notin> set (g_finished g))
               (left_join (\<lambda>q. dcId q = dcPrevSuccessDeploymentCommitId dc) (d_deployments t))))
           (mapped t project ''cicd_scopes'' (dcCicdScopeId dc)))) (d_deployments t))))"

definition project_parents :: "dora_tables \<Rightarrow> graph_tables \<Rightarrow> string \<Rightarrow> (sha \<times> sha) list" where
  "project_parents t g project = concat (map (\<lambda>(c, p). concat (map (\<lambda>(repo, c').
      map (\<lambda>_. (c, p)) (mapped t project ''repos'' repo))
     (filter (\<lambda>(repo, c'). c' = c) (g_repo_commits g)))) (g_parents g))"

fun loadCommitGraph :: "(nat \<Rightarrow> goerr option) \<Rightarrow> (nat \<Rightarrow> goerr option) \<Rightarrow> nat \<Rightarrow> (sha \<times> sha) list \<Rightarrow> CommitNodeGraph
    \<Rightarrow> goerr + CommitNodeGraph" where
  "loadCommitGraph ctx fetch i [] g = Inr g"
| "loadCommitGraph ctx fetch i ((c, p) # rows) g =
     (case ctx i of
        Some e \<Rightarrow> Inl (the (Convert (Some e)))
      | None \<Rightarrow> (case fetch i of
          Some e \<Rightarrow> Inl e
        | None \<Rightarrow> loadCommitGraph ctx fetch (i + 1) rows (AddParent g c p)))"

definition pair_rows :: "CommitNodeGraph \<Rightarrow> deploymentCommitPair \<Rightarrow> row list" where
  "pair_rows g pair = map (\<lambda>(i, sha). commits_diff_row (dpCommitSha pair) (dpPrevCommitSha pair) sha (i + 1))
     (enumerate 0 (fst (CalculateLostSha g (dpPrevCommitSha pair) (dpCommitSha pair))))"

text \<open>The loop over the pairs; the last component counts \<open>IncProgress(1)\<close>.\<close>

fun diff_deployments :: "'db store_fn \<Rightarrow> (nat \<Rightarrow> goerr option) \<Rightarrow> CommitNodeGraph \<Rightarrow> nat \<Rightarrow> deploymentCommitPair list
    \<Rightarrow> batch_save \<Rightarrow> 'db \<Rightarrow> bs_result \<times> 'db \<times> nat" where
  "diff_deployments store ctx g i [] b db = (BsOk, db, i)"
| "diff_deployments store ctx g i (pair # pairs) b db =
     (case ctx i of
        Some e \<Rightarrow> (BsErr (the (Convert (Some e))), db, i)
      | None \<Rightarrow>
        (case add_all store (pair_rows g pair) b db of
           (BsOk, b1, db1) \<Rightarrow>
             (case Flush store b1 db1 of
                (BsOk, b2, db2) \<Rightarrow>
                  (case store (TypeTable finished_type) [finished_row (dpCommitSha pair) (dpPrevCommitSha pair)] db2 of
                     (Some e, db3) \<Rightarrow> (BsErr e, db3, i)
                   | (None, db3) \<Rightarrow> diff_deployments store ctx g (i + 1) pairs b2 db3)
              | (res, b2, db2) \<Rightarrow> (res, db2, i))
         | (res, b1, db1) \<Rightarrow> (res, db1, i)))"

definition CalculateDeploymentCommitsDiff :: "'db store_fn \<Rightarrow> goerr option \<Rightarrow> goerr option \<Rightarrow> (nat \<Rightarrow> goerr option) \<Rightarrow>
    (nat \<Rightarrow> goerr option) \<Rightarrow> (nat \<Rightarrow> goerr option) \<Rightarrow> dora_tables \<Rightarrow> graph_tables \<Rightarrow> string \<Rightarrow> 'db
    \<Rightarrow> bs_result \<times> 'db \<times> nat" where
  "CalculateDeploymentCommitsDiff store all_err cursor_err load fetch ctx t g project db =
     (if project = [] then (BsOk, db, 0)
      else (case all_err of
        Some e \<Rightarrow> (BsErr e, db, 0)
      | None \<Rightarrow>
        let pairs = deployment_pairs t g project in
        if pairs = [] then (BsOk, db, 0)
        else (case cursor_err of
          Some e \<Rightarrow> (BsErr e, db, 0)
        | None \<Rightarrow>
          (case loadCommitGraph load fetch 0 (project_parents t g project) NewCommitNodeGraph of
             Inl e \<Rightarrow> (BsErr e, db, 0)
           | Inr graph \<Rightarrow>
             (case NewBatchSave commits_diff_type 1000 [] of
                Inl e \<Rightarrow> (BsErr e, db, 0)
              | Inr b \<Rightarrow> diff_deployments store ctx graph 0 pairs b db)))))"

section \<open>The rows of a pair\<close>

text \<open>Shas without zero bytes and not empty, as git has them.\<close>

definition plain_sha :: "sha \<Rightarrow> bool" where
  "plain_sha s \<longleftrightarrow> s \<noteq> [] \<and> CHR 0x00 \<notin> set s"

lemma strip_nul_plain: "CHR 0x00 \<notin> set s \<Longrightarrow> strip_nul s = s"
  by (auto simp: strip_nul_def intro: filter_id_set)

lemma strip_diff_row: "CHR 0x00 \<notin> set new \<union> set old \<union> set sha \<Longrightarrow>
    stripZeroByte (commits_diff_row new old sha i) = commits_diff_row new old sha i"
  by (simp add: stripZeroByte_def commits_diff_row_def strip_nul_plain)

lemma diff_row_pk: "row_pk (commits_diff_row new old sha i) = [Some (FStr new), Some (FStr old), Some (FStr sha)]"
  by (simp add: row_pk_def commits_diff_row_def commits_diff_type_def FieldByName_def)

lemma diff_row_key: "new \<noteq> [] \<Longrightarrow> sha \<noteq> [] \<Longrightarrow> row_key (commits_diff_row new old sha i) =
    Some (new @ '':'' @ (if old = [] then [] else old @ '':'') @ sha)"
  by (simp add: row_key_def getKeyValue_def commits_diff_row_def commits_diff_type_def FieldByName_def)

lemma diff_row_type [simp]: "r_type (commits_diff_row new old sha i) = commits_diff_type"
  by (simp add: commits_diff_row_def)

text \<open>Within a pair, the key text tells the commits apart.\<close>

lemma pair_rows_separate:
  assumes "plain_sha (dpCommitSha pair)" "CHR 0x00 \<notin> set (dpPrevCommitSha pair)"
    "\<forall>s \<in> set (fst (CalculateLostSha g (dpPrevCommitSha pair) (dpCommitSha pair))). plain_sha s"
  shows "keys_separate (map stripZeroByte (pair_rows g pair)) \<and> map stripZeroByte (pair_rows g pair) = pair_rows g pair"
proof -
  have strip: "map stripZeroByte (pair_rows g pair) = pair_rows g pair"
    unfolding pair_rows_def map_map
    by (rule map_cong [OF refl]) (use assms in \<open>auto simp: plain_sha_def intro!: strip_diff_row dest!: in_set_enumerate_eq [THEN iffD1]\<close>)
  have rows: "\<exists>sha i. r = commits_diff_row (dpCommitSha pair) (dpPrevCommitSha pair) sha i \<and> plain_sha sha"
    if "r \<in> set (pair_rows g pair)" for r
    using that assms(3) by (auto simp: pair_rows_def in_set_enumerate_eq)
  have "keys_separate (pair_rows g pair)"
    unfolding keys_separate_def
  proof (intro conjI ballI impI)
    fix r assume "r \<in> set (pair_rows g pair)"
    from rows [OF this] obtain sha i where
      r: "r = commits_diff_row (dpCommitSha pair) (dpPrevCommitSha pair) sha i" "plain_sha sha" by blast
    have "row_key r = Some (dpCommitSha pair @ '':'' @ (if dpPrevCommitSha pair = [] then [] else dpPrevCommitSha pair @ '':'') @ sha)"
      unfolding r(1) using assms(1) r(2) by (intro diff_row_key) (auto simp: plain_sha_def)
    then show "\<exists>k. k \<noteq> [] \<and> row_key r = Some k" by simp
  next
    fix r r' assume "r \<in> set (pair_rows g pair)" "r' \<in> set (pair_rows g pair)"
    from rows [OF this(1)] rows [OF this(2)] obtain sha i sha' i' where
      r: "r = commits_diff_row (dpCommitSha pair) (dpPrevCommitSha pair) sha i" "plain_sha sha"
        "r' = commits_diff_row (dpCommitSha pair) (dpPrevCommitSha pair) sha' i'" "plain_sha sha'" by blast
    show "(row_key r = row_key r') = (row_pk r = row_pk r')"
      using assms(1) r(2,4) by (simp add: r(1,3) diff_row_key diff_row_pk plain_sha_def)
  qed
  with strip show ?thesis by simp
qed

lemma finished_row_type [simp]: "r_type (finished_row new old) = finished_type"
  by (simp add: finished_row_def)

lemma diff_tables_differ: "TypeTable commits_diff_type \<noteq> TypeTable finished_type"
  by (simp add: commits_diff_type_def finished_type_def)

lemma bs_inv_flushed: "bs_inv b \<Longrightarrow> bs_inv (b\<lparr>bs_current := 0, bs_index := Map.empty\<rparr>)"
  by (auto simp: bs_inv_def)

lemma bs_target_flushed: "bs_target (b\<lparr>bs_current := 0, bs_index := Map.empty\<rparr>) = bs_target b"
  by (simp add: bs_target_def)

lemma two_tables: "a \<noteq> b \<Longrightarrow> (f(a := u, b := v))(a := h ((f(a := u, b := v)) a), b := k ((f(a := u, b := v)) b)) =
    f(a := h u, b := k v)"
  by auto

section \<open>A run\<close>

definition plain_pair :: "CommitNodeGraph \<Rightarrow> deploymentCommitPair \<Rightarrow> bool" where
  "plain_pair g pair \<longleftrightarrow> plain_sha (dpCommitSha pair) \<and> CHR 0x00 \<notin> set (dpPrevCommitSha pair) \<and>
     (\<forall>s \<in> set (fst (CalculateLostSha g (dpPrevCommitSha pair) (dpCommitSha pair))). plain_sha s)"

definition finished_rows :: "deploymentCommitPair list \<Rightarrow> row list" where
  "finished_rows pairs = map (\<lambda>p. finished_row (dpCommitSha p) (dpPrevCommitSha p)) pairs"

lemma diff_deployments_ok:
  assumes store: "upsert_store store look"
    and "bs_inv b" "bs_cached b = []" "bs_target b = TypeTable commits_diff_type"
    and "list_all (plain_pair g) pairs"
    and "diff_deployments store ctx g i pairs b db = (BsOk, db', n)"
  shows "n = i + length pairs \<and> look db' =
    (look db)(TypeTable commits_diff_type := upserts (concat (map (pair_rows g) pairs)) (look db (TypeTable commits_diff_type)),
      TypeTable finished_type := upserts (finished_rows pairs) (look db (TypeTable finished_type)))"
  using assms(2-)
proof (induction pairs arbitrary: i b db)
  case Nil
  then show ?case by (simp add: finished_rows_def)
next
  case (Cons pair pairs)
  define rs where "rs = pair_rows g pair"
  have "keys_separate (map stripZeroByte rs) \<and> map stripZeroByte rs = rs"
    unfolding rs_def by (rule pair_rows_separate) (use Cons.prems(4) in \<open>simp_all add: plain_pair_def\<close>)
  note rs = conjunct1 [OF this] conjunct2 [OF this]
  from Cons.prems(5) obtain b1 db1 b2 db2 db3 where run:
    "add_all store rs b db = (BsOk, b1, db1)" "Flush store b1 db1 = (BsOk, b2, db2)"
    "store (TypeTable finished_type) [finished_row (dpCommitSha pair) (dpPrevCommitSha pair)] db2 = (None, db3)"
    "diff_deployments store ctx g (i + 1) pairs b2 db3 = (BsOk, db', n)"
    by (auto simp: rs_def split: option.splits prod.splits bs_result.splits)
  have "keys_separate (bs_cached b @ map stripZeroByte rs)" using Cons.prems(2) rs(1) by simp
  note added = upsert_store.add_all_ok [OF store Cons.prems(1) this run(1)]
  have view: "batch_view look b db = look db" using Cons.prems(2) by (simp add: batch_view_def)
  from added have b1: "bs_inv b1" "bs_target b1 = TypeTable commits_diff_type" "keys_separate (bs_cached b1)"
    "batch_view look b1 db1 = (look db)(TypeTable commits_diff_type := upserts rs (look db (TypeTable commits_diff_type)))"
    by (simp_all only: view rs(2) Cons.prems(3))
  note fl = upsert_store.Flush_ok [OF store run(2) bs_cached_distinct [OF b1(1,3)]]
  have b2: "bs_inv b2" "bs_target b2 = TypeTable commits_diff_type"
    using fl(1) b1(1,2) bs_inv_flushed [OF b1(1)] bs_target_flushed [of b1] by metis+
  have look3: "look db3 = (look db2)(TypeTable finished_type :=
      upserts [finished_row (dpCommitSha pair) (dpPrevCommitSha pair)] (look db2 (TypeTable finished_type)))"
    by (rule upsert_store.store_ok [OF store _ run(3)]) simp
  have "list_all (plain_pair g) pairs" using Cons.prems(4) by simp
  note IH = Cons.IH [OF b2(1) fl(3) b2(2) this run(4)]
  have step: "look db3 = (look db)(TypeTable commits_diff_type := upserts rs (look db (TypeTable commits_diff_type)),
      TypeTable finished_type := upserts [finished_row (dpCommitSha pair) (dpPrevCommitSha pair)]
        (look db (TypeTable finished_type)))"
    unfolding look3 fl(2) b1(4) by (simp only: fun_upd_other [OF diff_tables_differ [symmetric]])
  have "look db' = (look db)(TypeTable commits_diff_type :=
        upserts (concat (map (pair_rows g) pairs)) (upserts rs (look db (TypeTable commits_diff_type))),
      TypeTable finished_type := upserts (finished_rows pairs)
        (upserts [finished_row (dpCommitSha pair) (dpPrevCommitSha pair)] (look db (TypeTable finished_type))))"
    using conjunct2 [OF IH] unfolding step by (simp only: two_tables [OF diff_tables_differ])
  moreover have "n = i + length (pair # pairs)" using IH by simp
  ultimately show ?case
    by (simp only: rs_def finished_rows_def list.map concat.simps upserts_simps simp_thms)
qed

lemma loadCommitGraph_ok:
  "loadCommitGraph ctx fetch i rows g = Inr g' \<Longrightarrow> g' = foldl (\<lambda>g (c, p). AddParent g c p) g rows"
  by (induction ctx fetch i rows g rule: loadCommitGraph.induct) (auto split: option.splits)

text \<open>The commits to compare, said with the tables: those of a deployment of the project and of its previous
  successful deployment, unless that pair is marked; a deployment without a previous one is compared with
  nothing.\<close>

definition to_compare :: "dora_tables \<Rightarrow> graph_tables \<Rightarrow> string \<Rightarrow> sha \<Rightarrow> sha \<Rightarrow> bool" where
  "to_compare t g project new old \<longleftrightarrow> (\<exists>d \<in> set (d_deployments t). new = dcCommitSha d \<and>
     mapped t project ''cicd_scopes'' (dcCicdScopeId d) \<noteq> [] \<and>
     (if \<exists>q \<in> set (d_deployments t). dcId q = dcPrevSuccessDeploymentCommitId d
      then \<exists>q \<in> set (d_deployments t). dcId q = dcPrevSuccessDeploymentCommitId d \<and> old = dcCommitSha q \<and>
        (new, old) \<notin> set (g_finished g)
      else old = []))"

lemma joined_pairs:
  "(\<lambda>p. (new, case p of None \<Rightarrow> [] | Some q \<Rightarrow> dcCommitSha q)) `
     {p \<in> set (left_join P ds). case p of None \<Rightarrow> True | Some q \<Rightarrow> (new, dcCommitSha q) \<notin> F} =
   (if \<exists>q \<in> set ds. P q then {(new, dcCommitSha q) | q. q \<in> set ds \<and> P q \<and> (new, dcCommitSha q) \<notin> F} else {(new, [])})"
proof (cases "\<exists>q \<in> set ds. P q")
  case True
  then have "set (left_join P ds) = Some ` {q \<in> set ds. P q}" by (auto simp: left_join_def filter_empty_conv)
  then have "{p \<in> set (left_join P ds). case p of None \<Rightarrow> True | Some q \<Rightarrow> (new, dcCommitSha q) \<notin> F} =
      Some ` {q \<in> set ds. P q \<and> (new, dcCommitSha q) \<notin> F}" by auto
  then show ?thesis unfolding if_P [OF True] by (simp add: image_image) auto
next
  case False
  then have none: "set (left_join P ds) = {None}" by (auto simp: left_join_def filter_empty_conv)
  have only: "{p \<in> {None}. case p of None \<Rightarrow> True | Some q \<Rightarrow> (new, dcCommitSha q) \<notin> F} = {None}"
    by (intro set_eqI) (simp cong: conj_cong)
  show ?thesis unfolding none only if_not_P [OF False] by simp
qed

lemma set_deployment_pairs:
  "(\<lambda>p. (dpCommitSha p, dpPrevCommitSha p)) ` set (deployment_pairs t g project) =
     {(new, old). to_compare t g project new old}"
proof -
  have "(\<lambda>p. (dpCommitSha p, dpPrevCommitSha p)) ` set (deployment_pairs t g project) =
      (\<Union>dc \<in> set (d_deployments t). \<Union>m \<in> set (mapped t project ''cicd_scopes'' (dcCicdScopeId dc)).
        (\<lambda>p. (dcCommitSha dc, case p of None \<Rightarrow> [] | Some q \<Rightarrow> dcCommitSha q)) `
        {p \<in> set (left_join (\<lambda>q. dcId q = dcPrevSuccessDeploymentCommitId dc) (d_deployments t)).
          case p of None \<Rightarrow> True | Some q \<Rightarrow> (dcCommitSha dc, dcCommitSha q) \<notin> set (g_finished g)})"
    by (simp add: deployment_pairs_def image_UN image_image case_prod_beta)
  also have "\<dots> = {(new, old). to_compare t g project new old}" (is "?lhs = _")
  proof (rule set_eqI)
    fix pair :: "sha \<times> sha"
    obtain new old where pair: "pair = (new, old)" by (cases pair)
    have one: "(new, old) \<in> (if \<exists>q \<in> Q. P q then {(a, dcCommitSha q) | q. q \<in> Q \<and> P q \<and> (a, dcCommitSha q) \<notin> F} else {(a, [])}) \<longleftrightarrow>
        new = a \<and> (if \<exists>q \<in> Q. P q then \<exists>q \<in> Q. P q \<and> old = dcCommitSha q \<and> (new, old) \<notin> F else old = [])"
      for Q P F and a :: sha
      by (cases "\<exists>q \<in> Q. P q") auto
    show "pair \<in> ?lhs \<longleftrightarrow> pair \<in> {(new, old). to_compare t g project new old}"
      unfolding pair joined_pairs UN_iff one to_compare_def mem_Collect_eq prod.case ex_in_conv [symmetric] set_empty [symmetric]
      by blast
  qed
  finally show ?thesis .
qed

lemma set_project_parents:
  "set (project_parents t g project) \<subseteq> set (g_parents g)"
  by (auto simp: project_parents_def)

lemma ancestry_plain:
  assumes "E \<subseteq> {(c, p). plain_sha c \<and> plain_sha p}" "plain_sha s" "c \<in> E\<^sup>* `` {s}"
  shows "plain_sha c"
proof -
  have "(s, c) \<in> E\<^sup>*" using assms(3) by simp
  then show ?thesis by (induction rule: rtrancl_induct) (use assms in auto)
qed

lemma finished_row_pk: "row_pk (finished_row new old) = [Some (FStr new), Some (FStr old)]"
  by (simp add: row_pk_def finished_row_def finished_type_def FieldByName_def)

lemma dom_upserts: "dom (upserts rs m) = dom m \<union> row_pk ` set rs"
  by (induction rs arbitrary: m) auto

lemma set_pair_rows:
  "r \<in> set (pair_rows g pair) \<longleftrightarrow> (\<exists>i < length (fst (CalculateLostSha g (dpPrevCommitSha pair) (dpCommitSha pair))).
     r = commits_diff_row (dpCommitSha pair) (dpPrevCommitSha pair)
       (fst (CalculateLostSha g (dpPrevCommitSha pair) (dpCommitSha pair)) ! i) (i + 1))"
proof -
  have "r \<in> (\<lambda>(i, s). f i s) ` set (enumerate 0 xs) \<longleftrightarrow> (\<exists>i < length xs. r = f i (xs ! i))" for f and xs :: "sha list"
    by (force simp: in_set_enumerate_eq)
  then show ?thesis by (simp add: pair_rows_def)
qed

lemma pair_rows_pks:
  "row_pk ` set (pair_rows g pair) = (\<lambda>c. [Some (FStr (dpCommitSha pair)), Some (FStr (dpPrevCommitSha pair)), Some (FStr c)]) `
     set (fst (CalculateLostSha g (dpPrevCommitSha pair) (dpCommitSha pair)))"
  (is "_ = ?f ` set ?lost")
proof -
  have "row_pk ` set (pair_rows g pair) = ?f ` snd ` set (enumerate 0 ?lost)"
    by (simp add: pair_rows_def image_image case_prod_beta diff_row_pk)
  also have "snd ` set (enumerate 0 ?lost) = set ?lost" by (metis map_snd_enumerate set_map)
  finally show ?thesis .
qed

abbreviation pair_shas :: "deploymentCommitPair \<Rightarrow> sha \<times> sha" where
  "pair_shas p \<equiv> (dpCommitSha p, dpPrevCommitSha p)"

lemma finished_rows_pks:
  "row_pk ` set (finished_rows pairs) = {[Some (FStr new), Some (FStr old)] | new old. (new, old) \<in> pair_shas ` set pairs}"
  by (auto simp: finished_rows_def finished_row_pk image_iff)

lemma set_diff_rows:
  "r \<in> set (concat (map (pair_rows g) pairs)) \<longleftrightarrow> (\<exists>(new, old) \<in> pair_shas ` set pairs.
     \<exists>i < length (fst (CalculateLostSha g old new)).
       r = commits_diff_row new old (fst (CalculateLostSha g old new) ! i) (i + 1))"
  by (simp add: set_pair_rows)

lemma diff_rows_pks:
  "row_pk ` set (concat (map (pair_rows g) pairs)) = {[Some (FStr new), Some (FStr old), Some (FStr c)] | new old c.
     (new, old) \<in> pair_shas ` set pairs \<and> c \<in> set (fst (CalculateLostSha g old new))}"
proof -
  have "row_pk ` set (concat (map (pair_rows g) pairs)) = (\<Union>(new, old) \<in> pair_shas ` set pairs.
      (\<lambda>c. [Some (FStr new), Some (FStr old), Some (FStr c)]) ` set (fst (CalculateLostSha g old new)))"
    by (simp add: image_UN pair_rows_pks)
  then show ?thesis by auto
qed

lemma diff_row_found:
  assumes "(new, old) \<in> pair_shas ` set pairs" "i < length (fst (CalculateLostSha g old new))"
    "c = fst (CalculateLostSha g old new) ! i"
  shows "upserts (concat (map (pair_rows g) pairs)) m [Some (FStr new), Some (FStr old), Some (FStr c)] =
    Some (commits_diff_row new old c (i + 1))"
proof -
  define r where "r = commits_diff_row new old c (i + 1)"
  have "r \<in> set (concat (map (pair_rows g) pairs))"
    unfolding set_diff_rows using assms by (auto simp: r_def intro!: bexI [of _ "(new, old)"])
  moreover have "r' = r" if r': "r' \<in> set (concat (map (pair_rows g) pairs))" "row_pk r' = row_pk r" for r'
  proof -
    from r'(1) [unfolded set_diff_rows] obtain new' old' j where j: "j < length (fst (CalculateLostSha g old' new'))"
      "r' = commits_diff_row new' old' (fst (CalculateLostSha g old' new') ! j) (j + 1)" by blast
    from r'(2) have eq: "new' = new" "old' = old" "fst (CalculateLostSha g old' new') ! j = c"
      unfolding r_def j(2) diff_row_pk by auto
    from eq(3) have "fst (CalculateLostSha g old new) ! j = fst (CalculateLostSha g old new) ! i"
      using assms(3) by (simp only: eq(1,2))
    then have "j = i" using lost_sha_distinct [of g old new] assms(2) j(1) by (simp add: nth_eq_iff_index_eq eq(1,2))
    then show ?thesis unfolding j(2) eq(3) r_def by (simp add: eq(1,2))
  qed
  ultimately have "upserts (concat (map (pair_rows g) pairs)) m (row_pk r) = Some r" by (rule upserts_unique)
  then show ?thesis by (simp add: r_def diff_row_pk)
qed

lemma stores_aux:
  assumes "upsert_store store look" and "project \<noteq> []"
    and "\<forall>d \<in> set (d_deployments t). plain_sha (dcCommitSha d)"
    and "set (g_parents g) \<subseteq> {(c, p). plain_sha c \<and> plain_sha p}"
    and "CalculateDeploymentCommitsDiff store all_err cursor_err load fetch ctx t g project db = (BsOk, db', n)"
  shows "let E = set (project_parents t g project); graph = graph_of_rows (project_parents t g project);
      diffs = look db (TypeTable commits_diff_type); diffs' = look db' (TypeTable commits_diff_type);
      finished = look db (TypeTable finished_type); finished' = look db' (TypeTable finished_type)
    in n = length (deployment_pairs t g project) \<and>
      (\<forall>T. T \<noteq> TypeTable commits_diff_type \<longrightarrow> T \<noteq> TypeTable finished_type \<longrightarrow> look db' T = look db T) \<and>
      dom diffs' = dom diffs \<union> {[Some (FStr new), Some (FStr old), Some (FStr c)] | new old c.
        to_compare t g project new old \<and> c \<in> E\<^sup>* `` {new} - E\<^sup>* `` {old}} \<and>
      (\<forall>new old i. to_compare t g project new old \<longrightarrow> i < length (fst (CalculateLostSha graph old new)) \<longrightarrow>
        (let c = fst (CalculateLostSha graph old new) ! i
         in diffs' [Some (FStr new), Some (FStr old), Some (FStr c)] = Some (commits_diff_row new old c (i + 1)))) \<and>
      dom finished' = dom finished \<union> {[Some (FStr new), Some (FStr old)] | new old. to_compare t g project new old}"
proof -
  define pairs where "pairs = deployment_pairs t g project"
  define rows where "rows = project_parents t g project"
  define graph where "graph = graph_of_rows rows"
  define diffs where "diffs = look db (TypeTable commits_diff_type)"
  define finished where "finished = look db (TypeTable finished_type)"
  define rs where "rs = concat (map (pair_rows graph) pairs)"
  have pairs: "pair_shas ` set pairs = {(new, old). to_compare t g project new old}"
    unfolding pairs_def by (rule set_deployment_pairs)
  have E: "set rows \<subseteq> {(c, p). plain_sha c \<and> plain_sha p}"
    using set_project_parents assms(4) unfolding rows_def by fast
  have lost: "set (fst (CalculateLostSha graph old new)) = (set rows)\<^sup>* `` {new} - (set rows)\<^sup>* `` {old}" for old new
    by (simp add: graph_def lost_sha_set edges_graph_of_rows)
  have nul: "CHR 0x00 \<notin> set old" and new: "plain_sha new" if "to_compare t g project new old" for new old
    using that assms(3) by (auto simp: to_compare_def plain_sha_def split: if_splits)
  have plain: "list_all (plain_pair graph) pairs"
    unfolding list_all_iff
  proof
    fix p assume "p \<in> set pairs"
    then have "to_compare t g project (dpCommitSha p) (dpPrevCommitSha p)" using pairs by blast
    from nul [OF this] new [OF this] show "plain_pair graph p"
      using ancestry_plain [OF E] by (auto simp: plain_pair_def lost)
  qed
  have "n = length pairs \<and> look db' = (look db)(TypeTable commits_diff_type := upserts rs diffs,
      TypeTable finished_type := upserts (finished_rows pairs) finished)"
  proof (cases "pairs = []")
    case True
    with assms(2,5) show ?thesis
      by (simp add: CalculateDeploymentCommitsDiff_def rs_def finished_rows_def diffs_def finished_def Let_def
        split: option.splits flip: pairs_def)
  next
    case False
    from assms(5) False obtain b gr where run: "loadCommitGraph load fetch 0 rows NewCommitNodeGraph = Inr gr"
      "NewBatchSave commits_diff_type 1000 [] = Inr b" "diff_deployments store ctx gr 0 pairs b db = (BsOk, db', n)"
      using assms(2) by (auto simp: CalculateDeploymentCommitsDiff_def Let_def split: option.splits sum.splits
        simp flip: pairs_def rows_def)
    have gr: "gr = graph" using loadCommitGraph_ok [OF run(1)] by (simp add: graph_def graph_of_rows_def)
    have b: "bs_inv b" "bs_cached b = []" using NewBatchSave_inv [OF run(2)] by simp_all
    have tgt: "bs_target b = TypeTable commits_diff_type"
      using run(2) by (auto simp: NewBatchSave_def bs_target_def commits_diff_type_def split: if_splits)
    from diff_deployments_ok [OF assms(1) b tgt plain run(3) [unfolded gr]]
    show ?thesis by (simp add: rs_def diffs_def finished_def)
  qed
  then have n: "n = length pairs" and look: "look db' T = (if T = TypeTable finished_type then upserts (finished_rows pairs) finished
      else if T = TypeTable commits_diff_type then upserts rs diffs else look db T)" for T
    by simp_all
  have pair: "(new, old) \<in> pair_shas ` set pairs \<longleftrightarrow> to_compare t g project new old" for new old
    unfolding pairs by simp
  have types: "commits_diff_type \<noteq> finished_type" by (simp add: commits_diff_type_def finished_type_def)
  note rows = diff_rows_pks [of graph pairs, folded rs_def, unfolded pair lost]
    diff_row_found [of _ _ pairs _ graph, folded rs_def, unfolded pair]
  show ?thesis
    unfolding Let_def rows_def [symmetric] graph_def [symmetric] pairs_def [symmetric] diffs_def [symmetric]
      finished_def [symmetric]
    using n rows(2) types by (simp add: look dom_upserts finished_rows_pks pair rows(1))
qed

text \<open>C16. What the deployment comparison stores: when \<open>CalculateDeploymentCommitsDiff\<close> returns nil, it has added to
  \<open>commits_diffs\<close>, for every pair of a deployment of the project and its previous one not marked before, exactly
  the commits reachable from the new deployment along the parent rows of the project and not from the previous
  one, each numbered by its place in the search, has marked exactly those pairs and left every other table alone,
  wherever the flushes of the batch fell; progress was counted once for every pair.\<close>

theorem CalculateDeploymentCommitsDiff_stores:
  assumes "upsert_store store look" and "project \<noteq> []"
    and "\<forall>d \<in> set (d_deployments t). plain_sha (dcCommitSha d)"
    and "set (g_parents g) \<subseteq> {(c, p). plain_sha c \<and> plain_sha p}"
    and "CalculateDeploymentCommitsDiff store all_err cursor_err load fetch ctx t g project db = (BsOk, db', n)"
  shows "let E = set (project_parents t g project); graph = graph_of_rows (project_parents t g project);
      diffs = look db (TypeTable commits_diff_type); diffs' = look db' (TypeTable commits_diff_type);
      finished = look db (TypeTable finished_type); finished' = look db' (TypeTable finished_type)
    in n = length (deployment_pairs t g project) \<and>
      (\<forall>T. T \<noteq> TypeTable commits_diff_type \<longrightarrow> T \<noteq> TypeTable finished_type \<longrightarrow> look db' T = look db T) \<and>
      dom diffs' = dom diffs \<union> {[Some (FStr new), Some (FStr old), Some (FStr c)] | new old c.
        to_compare t g project new old \<and> c \<in> E\<^sup>* `` {new} - E\<^sup>* `` {old}} \<and>
      (\<forall>new old i. to_compare t g project new old \<longrightarrow> i < length (fst (CalculateLostSha graph old new)) \<longrightarrow>
        (let c = fst (CalculateLostSha graph old new) ! i
         in diffs' [Some (FStr new), Some (FStr old), Some (FStr c)] = Some (commits_diff_row new old c (i + 1)))) \<and>
      dom finished' = dom finished \<union> {[Some (FStr new), Some (FStr old)] | new old. to_compare t g project new old}"
  using assms by (rule stores_aux)

definition sample_graph :: graph_tables where
  "sample_graph = \<lparr>g_parents = [(''d2'', ''d1'')], g_repo_commits = [(''r'', ''d1''), (''r'', ''d2'')], g_finished = []\<rparr>"

theorem CalculateDeploymentCommitsDiff_stores_witness:
  "\<exists>db' n. CalculateDeploymentCommitsDiff mem_store None None (\<lambda>_. None) (\<lambda>_. None) (\<lambda>_. None) sample_dora sample_graph ''P''
      (9, \<lambda>_. Map.empty) = (BsOk, db', n) \<and>
    snd db' (TypeTable commits_diff_type) [Some (FStr ''d2''), Some (FStr []), Some (FStr ''d2'')] =
      Some (commits_diff_row ''d2'' [] ''d2'' 1)"
proof -
  define out where "out = CalculateDeploymentCommitsDiff mem_store None None (\<lambda>_. None) (\<lambda>_. None) (\<lambda>_. None)
      sample_dora sample_graph ''P'' (9, \<lambda>_. Map.empty)"
  have "fst out = BsOk" unfolding out_def by code_simp
  then obtain db' n where run: "CalculateDeploymentCommitsDiff mem_store None None (\<lambda>_. None) (\<lambda>_. None) (\<lambda>_. None)
      sample_dora sample_graph ''P'' (9, \<lambda>_. Map.empty) = (BsOk, db', n)"
    by (cases out) (auto simp: out_def)
  have plain: "\<forall>d \<in> set (d_deployments sample_dora). plain_sha (dcCommitSha d)"
    "set (g_parents sample_graph) \<subseteq> {(c, p). plain_sha c \<and> plain_sha p}"
    by (simp_all add: dora_samples sample_graph_def plain_sha_def)
  have lost: "fst (CalculateLostSha (graph_of_rows (project_parents sample_dora sample_graph ''P'')) [] ''d2'') = [''d2'', ''d1'']"
    by code_simp
  have cmp: "to_compare sample_dora sample_graph ''P'' ''d2'' []"
    by (simp add: to_compare_def dora_samples mapped_def)
  have P: "''P'' \<noteq> []" by simp
  from CalculateDeploymentCommitsDiff_stores [OF mem.upsert_store_axioms P plain run]
  have "\<forall>new old i. to_compare sample_dora sample_graph ''P'' new old \<longrightarrow>
      i < length (fst (CalculateLostSha (graph_of_rows (project_parents sample_dora sample_graph ''P'')) old new)) \<longrightarrow>
      (let c = fst (CalculateLostSha (graph_of_rows (project_parents sample_dora sample_graph ''P'')) old new) ! i
       in snd db' (TypeTable commits_diff_type) [Some (FStr new), Some (FStr old), Some (FStr c)]
          = Some (commits_diff_row new old c (i + 1)))"
    unfolding Let_def by (elim conjE) assumption
  from this [rule_format, OF cmp, of 0] run show ?thesis by (simp add: lost Let_def)
qed

section \<open>The deployment of a change, through both subtasks\<close>

text \<open>A production deployment of the project that brought a commit: the commit is in the history of the deployment
  and, when there is a previous successful deployment, not in the history of that one.\<close>

definition delivers :: "dora_tables \<Rightarrow> (sha \<times> sha) set \<Rightarrow> string \<Rightarrow> sha \<Rightarrow> CicdDeploymentCommit \<Rightarrow> bool" where
  "delivers t E project sha d \<longleftrightarrow> d \<in> set (d_deployments t) \<and> dcEnvironment d = ''PRODUCTION'' \<and>
     mapped t project ''cicd_scopes'' (dcCicdScopeId d) \<noteq> [] \<and> sha \<in> E\<^sup>* `` {dcCommitSha d} \<and>
     ((\<exists>q \<in> set (d_deployments t). dcId q = dcPrevSuccessDeploymentCommitId d) \<longrightarrow>
      (\<exists>q \<in> set (d_deployments t). dcId q = dcPrevSuccessDeploymentCommitId d \<and> sha \<notin> E\<^sup>* `` {dcCommitSha q}))"

lemma deploys_delivers:
  assumes diffs: "\<And>new old c. (new, old, c) \<in> set (d_diffs t') \<longleftrightarrow> to_compare t g project new old \<and> c \<in> E\<^sup>* `` {new} - E\<^sup>* `` {old}"
    and t': "t' = t\<lparr>d_diffs := ds\<rparr>" and fin: "g_finished g = []" and root: "E \<subseteq> {(c, p). plain_sha c \<and> plain_sha p}"
    and plain: "\<forall>d \<in> set (d_deployments t). plain_sha (dcCommitSha d)"
  shows "deploys_commit t' project sha d \<longleftrightarrow> delivers t E project sha d"
proof -
  have empty: "c \<notin> E\<^sup>* `` {[]}" if "plain_sha c" for c
  proof
    assume "c \<in> E\<^sup>* `` {[]}"
    then have "([], c) \<in> E\<^sup>*" by simp
    then show False
      by (cases rule: converse_rtranclE) (use that root in \<open>auto simp: plain_sha_def\<close>)
  qed
  have tabs: "d_deployments t' = d_deployments t" "d_mappings t' = d_mappings t" by (simp_all add: t')
  have proj: "mapped t project ''cicd_scopes'' s \<noteq> [] \<longleftrightarrow>
      (\<exists>m \<in> set (d_mappings t). pmTable m = ''cicd_scopes'' \<and> pmRowId m = s \<and> pmProjectName m = project)" for s
    by (auto simp: mapped_def filter_empty_conv)
  show ?thesis
  proof (cases "d \<in> set (d_deployments t) \<and> mapped t project ''cicd_scopes'' (dcCicdScopeId d) \<noteq> []")
    case False
    then show ?thesis unfolding deploys_commit_def delivers_def tabs proj by blast
  next
    case True
    note d = conjunct1 [OF True]
    have anc: "plain_sha c" if "c \<in> E\<^sup>* `` {dcCommitSha d}" for c
      using ancestry_plain [OF root _ that] plain d by blast
    show ?thesis
    proof (cases "\<exists>q \<in> set (d_deployments t). dcId q = dcPrevSuccessDeploymentCommitId d")
      case prev: True
      have "to_compare t g project (dcCommitSha d) (dcCommitSha q)"
        if "q \<in> set (d_deployments t)" "dcId q = dcPrevSuccessDeploymentCommitId d" for q
        unfolding to_compare_def using True that fin by (intro bexI [OF _ d]) (auto simp: prev)
      with True prev show ?thesis unfolding deploys_commit_def delivers_def tabs proj diffs by auto
    next
      case none: False
      have "to_compare t g project (dcCommitSha d) []"
        unfolding to_compare_def using True none by (intro bexI [OF _ d]) auto
      with True none anc empty show ?thesis unfolding deploys_commit_def delivers_def tabs proj diffs by auto
    qed
  qed
qed

text \<open>C17. The deployment of a change, through both plugins: once \<open>CalculateDeploymentCommitsDiff\<close> has returned nil on
  empty tables and the rows it stored are the \<open>commits_diffs\<close> the lead time subtask reads, \<open>getDeploymentCommit\<close>
  finds for a merge commit a production deployment of the project whose history has the commit while that of its
  previous successful deployment has not, no such deployment having started earlier, and finds none exactly if there
  is no such deployment.\<close>

theorem deployment_of_change:
  assumes "upsert_store store look" and "project \<noteq> []"
    and "\<forall>d \<in> set (d_deployments t). plain_sha (dcCommitSha d)"
    and "set (g_parents g) \<subseteq> {(c, p). plain_sha c \<and> plain_sha p}"
    and "CalculateDeploymentCommitsDiff store all_err cursor_err load fetch ctx t g project db = (BsOk, db', n)"
    and "look db (TypeTable commits_diff_type) = Map.empty" and "g_finished g = []"
    and "set diffs = {(new, old, c). look db' (TypeTable commits_diff_type)
           [Some (FStr new), Some (FStr old), Some (FStr c)] \<noteq> None}"
  shows "case getDeploymentCommit None (t\<lparr>d_diffs := diffs\<rparr>) sha project of
      Inl e \<Rightarrow> False
    | Inr None \<Rightarrow> \<not> (\<exists>d. delivers t (set (project_parents t g project)) project sha d)
    | Inr (Some d) \<Rightarrow> delivers t (set (project_parents t g project)) project sha d \<and>
        {d'. delivers t (set (project_parents t g project)) project sha d' \<and> dcStartedDate d' < dcStartedDate d} = {}"
proof -
  define E where "E = set (project_parents t g project)"
  have dom: "dom (look db' (TypeTable commits_diff_type)) = {[Some (FStr new), Some (FStr old), Some (FStr c)] | new old c.
        to_compare t g project new old \<and> c \<in> E\<^sup>* `` {new} - E\<^sup>* `` {old}}"
    using stores_aux [OF assms(1-5)] assms(6) by (simp add: E_def Let_def)
  have "(new, old, c) \<in> set (d_diffs (t\<lparr>d_diffs := diffs\<rparr>)) \<longleftrightarrow>
      to_compare t g project new old \<and> c \<in> E\<^sup>* `` {new} - E\<^sup>* `` {old}" for new old c
  proof -
    have "(new, old, c) \<in> set diffs \<longleftrightarrow>
        [Some (FStr new), Some (FStr old), Some (FStr c)] \<in> dom (look db' (TypeTable commits_diff_type))"
      by (simp add: assms(8) domIff)
    then show ?thesis unfolding dom by auto
  qed
  moreover have "E \<subseteq> {(c, p). plain_sha c \<and> plain_sha p}"
    using set_project_parents assms(4) unfolding E_def by fast
  ultimately have same: "deploys_commit (t\<lparr>d_diffs := diffs\<rparr>) project sha d = delivers t E project sha d" for d
    using assms(3,7) by (intro deploys_delivers) auto
  show ?thesis
    using getDeploymentCommit_aux [where t = "t\<lparr>d_diffs := diffs\<rparr>" and sha = sha and project = project]
    unfolding same E_def .
qed

theorem deployment_of_change_witness:
  "\<exists>db' n d. CalculateDeploymentCommitsDiff mem_store None None (\<lambda>_. None) (\<lambda>_. None) (\<lambda>_. None) sample_dora sample_graph ''P''
      (9, \<lambda>_. Map.empty) = (BsOk, db', n) \<and>
    getDeploymentCommit None (sample_dora\<lparr>d_diffs := [(''d2'', [], ''d2''), (''d2'', [], ''d1''), (''d1'', [], ''d1'')]\<rparr>)
      ''d2'' ''P'' = Inr (Some d) \<and> delivers sample_dora (set (project_parents sample_dora sample_graph ''P'')) ''P'' ''d2'' d"
proof -
  define diffs :: "(string \<times> string \<times> string) list" where
    "diffs = [(''d2'', [], ''d2''), (''d2'', [], ''d1''), (''d1'', [], ''d1'')]"
  define out where "out = CalculateDeploymentCommitsDiff mem_store None None (\<lambda>_. None) (\<lambda>_. None) (\<lambda>_. None)
      sample_dora sample_graph ''P'' (9, \<lambda>_. Map.empty)"
  have "fst out = BsOk" unfolding out_def by code_simp
  then obtain db' n where run: "CalculateDeploymentCommitsDiff mem_store None None (\<lambda>_. None) (\<lambda>_. None) (\<lambda>_. None)
      sample_dora sample_graph ''P'' (9, \<lambda>_. Map.empty) = (BsOk, db', n)"
    by (cases out) (auto simp: out_def)
  have plain: "\<forall>d \<in> set (d_deployments sample_dora). plain_sha (dcCommitSha d)"
    "set (g_parents sample_graph) \<subseteq> {(c, p). plain_sha c \<and> plain_sha p}"
    by (simp_all add: dora_samples sample_graph_def plain_sha_def)
  define E where "E = set (project_parents sample_dora sample_graph ''P'')"
  have lost: "E\<^sup>* `` {''d2''} - E\<^sup>* `` {[]} = {''d2'', ''d1''}" "E\<^sup>* `` {''d1''} - E\<^sup>* `` {[]} = {''d1''}"
  proof -
    have "fst (CalculateLostSha (graph_of_rows (project_parents sample_dora sample_graph ''P'')) [] ''d2'') = [''d2'', ''d1'']"
      "fst (CalculateLostSha (graph_of_rows (project_parents sample_dora sample_graph ''P'')) [] ''d1'') = [''d1'']"
      by (code_simp, code_simp)
    note found = this [THEN arg_cong [where f = set], unfolded lost_sha_set edges_graph_of_rows, folded E_def]
    show "E\<^sup>* `` {''d2''} - E\<^sup>* `` {[]} = {''d2'', ''d1''}" using found(1) by simp
    show "E\<^sup>* `` {''d1''} - E\<^sup>* `` {[]} = {''d1''}" using found(2) by simp
  qed
  have cmp: "to_compare sample_dora sample_graph ''P'' new old \<longleftrightarrow> new \<in> {''d2'', ''d1''} \<and> old = []" for new old
    by (auto simp: to_compare_def dora_samples mapped_def)
  have P: "''P'' \<noteq> []" by simp
  have dom: "dom (snd db' (TypeTable commits_diff_type)) = {[Some (FStr new), Some (FStr old), Some (FStr c)] | new old c.
      to_compare sample_dora sample_graph ''P'' new old \<and> c \<in> E\<^sup>* `` {new} - E\<^sup>* `` {old}}"
    using stores_aux [OF mem.upsert_store_axioms P plain run] by (simp add: Let_def E_def)
  have "(snd db' (TypeTable commits_diff_type) [Some (FStr new), Some (FStr old), Some (FStr c)] \<noteq> None) \<longleftrightarrow>
      (new, old, c) \<in> set diffs" for new old c
  proof -
    have "[Some (FStr new), Some (FStr old), Some (FStr c)] \<in> dom (snd db' (TypeTable commits_diff_type)) \<longleftrightarrow>
        new \<in> {''d2'', ''d1''} \<and> old = [] \<and> c \<in> E\<^sup>* `` {new} - E\<^sup>* `` {[]}"
      unfolding dom cmp by blast
    also have "\<dots> \<longleftrightarrow> (new, old, c) \<in> set diffs" using lost by (auto simp: diffs_def)
    finally show ?thesis by (simp add: domIff)
  qed
  then have set: "set diffs = {(new, old, c). snd db' (TypeTable commits_diff_type)
      [Some (FStr new), Some (FStr old), Some (FStr c)] \<noteq> None}" by auto
  have "delivers sample_dora E ''P'' ''d2'' (sample_deployment ''d2'' 120000)"
    by (simp add: delivers_def dora_samples mapped_def)
  then show ?thesis
    using deployment_of_change [OF mem.upsert_store_axioms P plain run _ _ set, of "''d2''"] run
    by (auto simp: sample_graph_def E_def diffs_def split: sum.splits option.splits)
qed

end
