(* ===== verification/DoraPlan.thy ===== *)
theory DoraPlan
  imports RunnerFacts PlanMaking
begin

text \<open>
  How the services reach the \<open>dora\<close> and \<open>refdiff\<close> plugins: the subtasks the plugins offer
  (\<open>SubTaskMetas\<close> of \<open>backend/plugins/dora/impl/impl.go\<close> and \<open>backend/plugins/refdiff/impl/impl.go\<close>), the plan
  \<open>dora\<close> makes for a project of protocol 2.0.0, and the stage the service itself appends to a plan of protocol
  1.0.0. The properties join plan making, the creation of task rows and the runner.

  The entry points are an argument: the subtasks themselves are modelled in the theories of the plugins.
\<close>

definition sub_task :: "(string \<Rightarrow> 'd \<Rightarrow> unit svc) \<Rightarrow> string \<Rightarrow> bool \<Rightarrow> 'd SubTaskMeta" where
  "sub_task entry name byDefault =
     \<lparr>smName = name, smEntryPoint = entry name, smRequired = False, smEnabledByDefault = byDefault\<rparr>"

definition dora_SubTaskMetas :: "(string \<Rightarrow> 'd \<Rightarrow> unit svc) \<Rightarrow> 'd SubTaskMeta list" where
  "dora_SubTaskMetas entry =
     [sub_task entry ''generateDeploymentCommits'' False,
      sub_task entry ''enrichPrevSuccessDeploymentCommits'' False,
      sub_task entry ''EnrichTaskEnv'' False,
      sub_task entry ''calculateChangeLeadTime'' True,
      sub_task entry ''ConnectIncidentToDeployment'' True]"

definition refdiff_SubTaskMetas :: "(string \<Rightarrow> 'd \<Rightarrow> unit svc) \<Rightarrow> 'd SubTaskMeta list" where
  "refdiff_SubTaskMetas entry =
     [sub_task entry ''calculateCommitsDiff'' True,
      sub_task entry ''calculateIssuesDiff'' True,
      sub_task entry ''calculatePrCherryPick'' True,
      sub_task entry ''calculateDeploymentCommitsDiff'' True]"

text \<open>\<open>unmarshal\<close> is the error of decoding the options, if any, and \<open>quote\<close> writes a string as JSON.\<close>

definition dora_metric_plan :: "(string \<Rightarrow> goerr option) \<Rightarrow> (string \<Rightarrow> string) \<Rightarrow> string \<Rightarrow> string \<Rightarrow> goerr + PipelinePlan" where
  "dora_metric_plan unmarshal quote projectName opts =
     (case unmarshal opts of
        Some e \<Rightarrow> Inl (the (WrapRaw Default (Some e)))
      | None \<Rightarrow>
          Inr [[\<lparr>ptPlugin = ''dora'', ptSubtasks = [''generateDeploymentCommits'', ''enrichPrevSuccessDeploymentCommits''],
                 ptOptions = [(''projectName'', quote projectName)]\<rparr>],
               [\<lparr>ptPlugin = ''refdiff'', ptSubtasks = [''calculateDeploymentCommitsDiff''],
                 ptOptions = [(''projectName'', quote projectName)]\<rparr>],
               [\<lparr>ptPlugin = ''dora'', ptSubtasks = [''calculateChangeLeadTime'', ''ConnectIncidentToDeployment''],
                 ptOptions = [(''projectName'', quote projectName)]\<rparr>]])"

definition metas_of :: "(string \<Rightarrow> 'd \<Rightarrow> unit svc) \<Rightarrow> string \<Rightarrow> 'd SubTaskMeta list" where
  "metas_of entry plugin = (if plugin = ''dora'' then dora_SubTaskMetas entry
     else if plugin = ''refdiff'' then refdiff_SubTaskMetas entry else [])"

section \<open>The plan of protocol 2.0.0\<close>

lemma dora_names [simp]: "map smName (dora_SubTaskMetas entry) = [''generateDeploymentCommits'',
    ''enrichPrevSuccessDeploymentCommits'', ''EnrichTaskEnv'', ''calculateChangeLeadTime'', ''ConnectIncidentToDeployment'']"
  by (simp add: dora_SubTaskMetas_def sub_task_def)

lemma refdiff_names [simp]: "map smName (refdiff_SubTaskMetas entry) =
    [''calculateCommitsDiff'', ''calculateIssuesDiff'', ''calculatePrCherryPick'', ''calculateDeploymentCommitsDiff'']"
  by (simp add: refdiff_SubTaskMetas_def sub_task_def)

text \<open>The subtasks a task runs, in the order of the plugin.\<close>

definition runs :: "'d SubTaskMeta list \<Rightarrow> string list \<Rightarrow> goerr + string list" where
  "runs metas specified = (case subtask_flags metas specified of
      Inl e \<Rightarrow> Inl e
    | Inr fl \<Rightarrow> Inr (map smName (filter (\<lambda>m. map_of fl (smName m) = Some True) metas)))"

lemma runs_eq:
  assumes "distinct (map smName metas)"
  shows "runs metas specified = (case runs metas specified of Inl e \<Rightarrow> Inl e
      | Inr _ \<Rightarrow> Inr (map smName (filter (enabled specified) metas))) \<and>
    ((\<exists>e. runs metas specified = Inl e) \<longleftrightarrow> \<not> set specified \<subseteq> smName ` set metas)"
proof (cases "subtask_flags metas specified")
  case (Inl e)
  with subtask_flags_enable_aux [OF assms, of specified] show ?thesis by (auto simp: runs_def)
next
  case (Inr fl)
  with subtask_flags_enable_aux [OF assms, of specified]
  have at: "\<forall>m \<in> set metas. map_of fl (smName m) = Some (enabled specified m)" and
    sub: "set specified \<subseteq> smName ` set metas" by simp_all
  have "filter (\<lambda>m. map_of fl (smName m) = Some True) metas = filter (enabled specified) metas"
    by (rule filter_cong [OF refl]) (use at in simp)
  with Inr sub show ?thesis by (simp add: runs_def)
qed

text \<open>The metric plan of \<open>dora\<close> does what it names: the task rows made of it are three, one to a row of the pipeline, and each
  task runs exactly the subtasks it names, in that order, all of which its plugin offers, so that the deployments
  are generated, linked to their predecessors, compared by \<open>refdiff\<close> and only then used for the lead time and
  the incidents; the order within a task is that of the plugin and the order of the tasks that of the rows.\<close>

theorem metric_plan_runs:
  "case dora_metric_plan unmarshal quote projectName opts of
     Inl e \<Rightarrow> unmarshal opts \<noteq> None
   | Inr plan \<Rightarrow>
       map (\<lambda>t. (ntPipelineRow t, ntPipelineCol t, ntPlugin t, runs (metas_of entry (ntPlugin t)) (ntSubtasks t))) (plan_tasks pid plan) =
         [(1, 1, ''dora'', Inr [''generateDeploymentCommits'', ''enrichPrevSuccessDeploymentCommits'']),
          (2, 1, ''refdiff'', Inr [''calculateDeploymentCommitsDiff'']),
          (3, 1, ''dora'', Inr [''calculateChangeLeadTime'', ''ConnectIncidentToDeployment''])]"
proof -
  have "runs (dora_SubTaskMetas entry) [''generateDeploymentCommits'', ''enrichPrevSuccessDeploymentCommits''] =
      Inr [''generateDeploymentCommits'', ''enrichPrevSuccessDeploymentCommits'']"
    "runs (dora_SubTaskMetas entry) [''calculateChangeLeadTime'', ''ConnectIncidentToDeployment''] =
      Inr [''calculateChangeLeadTime'', ''ConnectIncidentToDeployment'']"
    "runs (refdiff_SubTaskMetas entry) [''calculateDeploymentCommitsDiff''] = Inr [''calculateDeploymentCommitsDiff'']"
    by (simp_all add: runs_def subtask_flags_def default_flags_def enable_required_def dora_SubTaskMetas_def
        refdiff_SubTaskMetas_def sub_task_def Let_def)
  then show ?thesis
    by (simp add: dora_metric_plan_def plan_tasks_def stage_tasks_def new_task_at_def metas_of_def split: option.split)
qed

section \<open>The closing stage of protocol 1.0.0\<close>

text \<open>The closing stage of a plan of protocol 1.0.0 cannot run: if a plugin planned a \<open>dora\<close> task, the plan ends with one task
  whose subtasks the \<open>dora\<close> plugin does not have, so whatever its options the runner refuses it before any
  subtask, with an error that names the first of them, and the world is as before.\<close>

theorem v100_closing_stage_refused:
  assumes "GeneratePlanJsonV100 hub settings = Inr plan" and "json_decode (sConnections settings) = Inr connections"
    and "plans_v100 hub 0 connections = Inr plans" and "dora_tasks plans \<noteq> []"
    and "GetPlugin (env_plugins env) ''dora'' = Inr (TaskPlugin pl)" and "plSubTaskMetas pl = dora_SubTaskMetas entry"
    and "last plan = [task]" and "tPlugin t = ptPlugin task" and "tSubtasks t = ptSubtasks task"
  shows "RunPluginTask env t w =
    (Err (New Default (''subtask calculateChangeLeadTimeOld does not exist'')), w)"
proof -
  have "last plan = [\<lparr>ptPlugin = ''dora'', ptSubtasks = [''calculateChangeLeadTimeOld'', ''connectIncidentToDeploymentOld''],
      ptOptions = dora_rules plans\<rparr>]"
    using assms(1-4) by (auto simp: GeneratePlanJsonV100_def Let_def)
  with assms(7-9) have t: "tPlugin t = ''dora''"
    "tSubtasks t = [''calculateChangeLeadTimeOld'', ''connectIncidentToDeploymentOld'']" by auto
  have "subtask_flags (dora_SubTaskMetas entry) [''calculateChangeLeadTimeOld'', ''connectIncidentToDeploymentOld''] =
      Inl (New Default (''subtask calculateChangeLeadTimeOld does not exist''))"
    by (simp add: subtask_flags_def default_flags_def dora_SubTaskMetas_def sub_task_def Let_def)
  then show ?thesis
    using t assms(5,6) by (simp add: RunPluginTask_def RunPluginSubTasks_def fail_def)
qed

definition hub_v100 :: "bp_plugin hub" where
  "hub_v100 = Some [(''jenkins'', \<lparr>MakePipelinePlan = Some (\<lambda>_ _. Inr [[\<lparr>ptPlugin = ''jenkins'', ptSubtasks = [''collectApiBuilds''],
       ptOptions = []\<rparr>], [\<lparr>ptPlugin = ''dora'', ptSubtasks = [''EnrichTaskEnv''], ptOptions = []\<rparr>]]),
     MakeDataSourcePipelinePlanV200 = None, MakeMetricPluginPipelinePlanV200 = None, MapProject = None\<rparr>)]"

definition settings_v100 :: BlueprintSettings where
  "settings_v100 = \<lparr>sVersion = ''1.0.0'', sTimeAfter = None,
     sConnections = JsonVal [\<lparr>bcPlugin = ''jenkins'', bcConnectionId = 1, bcScope = [''{}''], bcScopes = []\<rparr>],
     sBeforePlan = JsonNil, sAfterPlan = JsonNil\<rparr>"

definition dora_plugin :: "nat PluginTask" where
  "dora_plugin = \<lparr>plSubTaskMetas = dora_SubTaskMetas (\<lambda>_ _. ret ()), plPrepareTaskData = (\<lambda>_. ret 0), plClose = None\<rparr>"

theorem v100_closing_stage_refused_witness:
  "\<exists>plan task. GeneratePlanJsonV100 hub_v100 settings_v100 = Inr plan \<and> last plan = [task] \<and>
    RunPluginTask (env_example\<lparr>env_plugins := Some [(''dora'', TaskPlugin dora_plugin)]\<rparr>)
      ((task_example 1 1 TASK_CREATED)\<lparr>tPlugin := ptPlugin task, tSubtasks := ptSubtasks task\<rparr>) world0 =
    (Err (New Default (''subtask calculateChangeLeadTimeOld does not exist'')), world0)"
proof -
  obtain connections plans plan where c: "json_decode (sConnections settings_v100) = Inr connections"
    "plans_v100 hub_v100 0 connections = Inr plans" "dora_tasks plans \<noteq> []"
    "GeneratePlanJsonV100 hub_v100 settings_v100 = Inr plan"
    by (simp add: settings_v100_def hub_v100_def json_decode_def GetPlugin_def dora_tasks_def GeneratePlanJsonV100_def Let_def)
  then obtain task where task: "last plan = [task]"
    by (auto simp: GeneratePlanJsonV100_def Let_def)
  from v100_closing_stage_refused [OF c(4,1-3) _ _ task, where env = "env_example\<lparr>env_plugins := Some [(''dora'', TaskPlugin dora_plugin)]\<rparr>"
    and t = "(task_example 1 1 TASK_CREATED)\<lparr>tPlugin := ptPlugin task, tSubtasks := ptSubtasks task\<rparr>" and w = world0
    and pl = dora_plugin]
  show ?thesis using c(4) task by (auto simp: GetPlugin_def dora_plugin_def)
qed

end
