(* ===== verification/Collector.thy ===== *)
theory Collector
  imports LakeErrors
begin

text \<open>
  The collector of an API (\<open>backend/helpers/pluginhelper/api/api_collector.go\<close>) on top of the asynchronous client
  (\<open>api_async_client.go\<close>) and the worker scheduler (\<open>worker_scheduler.go\<close>), as a machine of threads.

  A thread is the goroutine of \<open>Execute\<close>, a worker of the pool, or a goroutine that \<open>NextTick\<close> started. One step
  of the machine is the part of a thread between two points where another can run: a call of \<open>SubmitBlocking\<close>,
  which waits for a free worker; the check of \<open>HasError\<close> at the start of a job; the request itself with all that its
  handler does. \<open>choice\<close> names the thread that makes the next step, so a run is a list of choices.

  The API, the plugin's callbacks and the database are an argument: \<open>serve\<close> is the outcome of the \<open>n\<close>th attempt at a
  request, \<open>prepare\<close> the error of building one, if any. A raw row is kept as the request it came from, which
  determines its url and input, and its data.
\<close>

section \<open>Requests\<close>

record ('i, 'c) request =
  rq_input :: "'i option"
  rq_page :: int
  rq_skip :: int
  rq_size :: int
  rq_custom :: "'c option"

text \<open>What the handler does after a page: the second argument of \<open>fetchAsync\<close>.\<close>

datatype cont = Single | Sequentially | Determined | Undetermined int

datatype 'd parsed = ParseError goerr | Parsed "'d list" | ParsedLast "'d list"

datatype 'd reply = DoError goerr | Ignored | Reply nat string "'d parsed"

record ('i, 'c, 'd) api =
  prepare :: "('i, 'c) request \<Rightarrow> goerr option"
  serve :: "('i, 'c) request \<Rightarrow> nat \<Rightarrow> 'd reply"
  next_custom :: "('i, 'c) request \<Rightarrow> goerr + 'c"
  is_finish :: "goerr \<Rightarrow> bool"
  total_pages :: "('i, 'c) request \<Rightarrow> goerr + int"
  insert_err :: "('i, 'c) request \<Rightarrow> goerr option"
  url_of :: "('i, 'c) request \<Rightarrow> string"
  error_text :: "goerr \<Rightarrow> string"

text \<open>\<open>ca_cap\<close> is the size of the pool, \<open>None\<close> for the unlimited one that \<open>ants\<close> makes of a size of 0 or less.\<close>

record ApiCollectorArgs =
  ca_PageSize :: int
  ca_Sequential :: bool
  ca_Total :: bool
  ca_Concurrency :: int
  ca_HasInput :: bool
  ca_NumOfWorkers :: int
  ca_cap :: "nat option"
  ca_maxRetry :: nat
  ca_Method :: string
  ca_table :: string

definition first_request :: "ApiCollectorArgs \<Rightarrow> 'i option \<Rightarrow> ('i, 'c) request" where
  "first_request a inp = \<lparr>rq_input = inp, rq_page = 1, rq_skip = 0, rq_size = ca_PageSize a, rq_custom = None\<rparr>"

definition concurrency_of :: "ApiCollectorArgs \<Rightarrow> int" where
  "concurrency_of a =
     (if ca_Concurrency a = 0
      then (if ca_HasInput a then 2
            else let c = ca_NumOfWorkers a div 10 in if c < 10 then 10 else c)
      else ca_Concurrency a)"

definition determined_pages :: "ApiCollectorArgs \<Rightarrow> ('i, 'c) request \<Rightarrow> int \<Rightarrow> ('i, 'c) request list" where
  "determined_pages a rq totalPages = map (\<lambda>page.
     \<lparr>rq_input = rq_input rq, rq_page = page, rq_skip = ca_PageSize a * (page - 1), rq_size = ca_PageSize a,
      rq_custom = None\<rparr>) [2..totalPages]"

definition undetermined_first :: "ApiCollectorArgs \<Rightarrow> ('i, 'c) request \<Rightarrow> int \<Rightarrow> ('i, 'c) request list" where
  "undetermined_first a rq c = map (\<lambda>i.
     \<lparr>rq_input = rq_input rq, rq_page = i + 1, rq_skip = ca_PageSize a * i, rq_size = ca_PageSize a,
      rq_custom = None\<rparr>) [0..c - 1]"

definition next_page :: "ApiCollectorArgs \<Rightarrow> int \<Rightarrow> ('i, 'c) request \<Rightarrow> ('i, 'c) request" where
  "next_page a c rq = rq\<lparr>rq_skip := rq_skip rq + ca_PageSize a * c, rq_page := rq_page rq + c\<rparr>"

section \<open>The handler of a response\<close>

text \<open>A call of \<open>fetchAsync\<close>, the submission of another attempt, and a submission that has passed the check for errors
  and waits for a free worker.\<close>

datatype ('i, 'c) submission = Fetch "('i, 'c) request" cont | Resubmit "('i, 'c) request" nat cont
  | Enter "('i, 'c) request" nat cont

text \<open>What is left to do after a page: nothing, an error, a submission by the worker itself, or submissions by a new
  goroutine.\<close>

datatype ('i, 'c) after = Finished | Failed goerr | Chain "('i, 'c) request" cont | Spawn "('i, 'c) submission list"

definition after_page :: "ApiCollectorArgs \<Rightarrow> ('i, 'c, 'd) api \<Rightarrow> ('i, 'c) request \<Rightarrow> cont \<Rightarrow> nat \<Rightarrow> ('i, 'c) after" where
  "after_page a api rq cont n =
     (case cont of
        Single \<Rightarrow> Finished
      | Sequentially \<Rightarrow>
          if int n < ca_PageSize a then Finished
          else (case next_custom api rq of
              Inl e \<Rightarrow> if is_finish api e then Finished else Failed e
            | Inr c \<Rightarrow> Chain (next_page a 1 (rq\<lparr>rq_custom := Some c\<rparr>)) Sequentially)
      | Determined \<Rightarrow>
          (case total_pages api rq of
             Inl e \<Rightarrow> Failed (newSingleCrdbError Default (Some e) ''fetchPagesDetermined get totalPages failed'' None)
           | Inr t \<Rightarrow> Spawn (map (\<lambda>r. Fetch r Single) (determined_pages a rq t)))
      | Undetermined c \<Rightarrow>
          if int n < ca_PageSize a then Finished else Spawn [Fetch (next_page a c rq) (Undetermined c)])"

definition save_page :: "ApiCollectorArgs \<Rightarrow> ('i, 'c, 'd) api \<Rightarrow> ('i, 'c) request \<Rightarrow> 'd list \<Rightarrow> ('i, 'c) after
    \<Rightarrow> (('i, 'c) request \<times> 'd) list \<times> nat \<times> ('i, 'c) after" where
  "save_page a api rq items next =
     (if items = [] then ([], 1, Finished)
      else (case insert_err api rq of
          Some e \<Rightarrow> ([], 0, Failed (newSingleCrdbError Default (Some e)
              (''error inserting raw rows into '' @ ca_table a) None))
        | None \<Rightarrow> (map (Pair rq) items, 1, next)))"

definition responseHandler :: "ApiCollectorArgs \<Rightarrow> ('i, 'c, 'd) api \<Rightarrow> ('i, 'c) request \<Rightarrow> cont \<Rightarrow> 'd parsed
    \<Rightarrow> (('i, 'c) request \<times> 'd) list \<times> nat \<times> ('i, 'c) after" where
  "responseHandler a api rq cont p =
     (case p of
        ParseError e \<Rightarrow> ([], 0, Failed (newSingleCrdbError Default (Some e)
            (''error parsing response from '' @ url_of api rq) None))
      | Parsed items \<Rightarrow> save_page a api rq items (after_page a api rq cont (length items))
      | ParsedLast items \<Rightarrow> save_page a api rq items Finished)"

section \<open>The machine\<close>

text \<open>A job in the pool: not yet started; past its check for errors and waiting for the ticker; in a call of
  \<open>SubmitBlocking\<close> from its own handler. A job that panics first tells the wait group that it is done; its error
  is recorded later, when the pool has recovered from the panic: \<open>cs_panics\<close> are the errors on their way.\<close>

datatype ('i, 'c) worker = Queued "('i, 'c) request" nat cont | Ready "('i, 'c) request" nat cont
  | Blocked "('i, 'c) submission"

datatype ('i, 'c) main_thread = Feeding "(goerr + 'i) list"
  | Submitting "('i, 'c) submission" "(goerr + 'i) list option" | Joining | Returned "goerr option" | Panicked goerr

record ('i, 'c, 'd) cstate =
  cs_main :: "('i, 'c) main_thread"
  cs_workers :: "('i, 'c) worker list"
  cs_ticks :: "('i, 'c) submission list list"
  cs_rows :: "(('i, 'c) request \<times> 'd) list"
  cs_panics :: "goerr list"
  cs_errors :: "goerr list"
  cs_progress :: nat
  cs_cancelled :: bool
  cs_crashed :: bool

definition HasError :: "('i, 'c, 'd) cstate \<Rightarrow> bool" where
  "HasError s \<longleftrightarrow> cs_errors s \<noteq> []"

definition pool_full :: "ApiCollectorArgs \<Rightarrow> ('i, 'c, 'd) cstate \<Rightarrow> bool" where
  "pool_full a s \<longleftrightarrow> (case ca_cap a of None \<Rightarrow> False | Some n \<Rightarrow> n \<le> length (cs_workers s))"

definition idle :: "('i, 'c, 'd) cstate \<Rightarrow> bool" where
  "idle s \<longleftrightarrow> cs_workers s = [] \<and> cs_ticks s = []"

text \<open>\<open>WaitAsync\<close> on an idle scheduler.\<close>

definition wait_result :: "goerr list \<Rightarrow> goerr option" where
  "wait_result errs =
     (if errs = [] then None
      else (case find (\<lambda>e. IsSentinel e Canceled) errs of
          Some e \<Rightarrow> Some (newSingleCrdbError Default (Some e) ''task canceled'' None)
        | None \<Rightarrow> Some (Combine Default errs)))"

text \<open>\<open>fetchAsync\<close> up to the submission, and \<open>SubmitBlocking\<close>.\<close>

datatype ('i, 'c) submitted = Accepted "('i, 'c) worker" | Waiting "('i, 'c) submission" | Dropped | Full | Unprepared goerr

definition SubmitBlocking :: "ApiCollectorArgs \<Rightarrow> ('i, 'c, 'd) cstate \<Rightarrow> ('i, 'c) request \<Rightarrow> nat \<Rightarrow> cont
    \<Rightarrow> ('i, 'c) submitted" where
  "SubmitBlocking a s rq n cont =
     (if HasError s then Dropped else if pool_full a s then Waiting (Enter rq n cont) else Accepted (Queued rq n cont))"

fun submit :: "ApiCollectorArgs \<Rightarrow> ('i, 'c, 'd) api \<Rightarrow> ('i, 'c, 'd) cstate \<Rightarrow> ('i, 'c) submission \<Rightarrow> ('i, 'c) submitted" where
  "submit a api s (Fetch rq cont) =
     (case prepare api rq of Some e \<Rightarrow> Unprepared e | None \<Rightarrow> SubmitBlocking a s rq 0 cont)"
| "submit a api s (Resubmit rq n cont) = SubmitBlocking a s rq n cont"
| "submit a api s (Enter rq n cont) = (if pool_full a s then Full else Accepted (Queued rq n cont))"

text \<open>\<open>exec\<close>: the submission the caller makes itself, if any, and the goroutines it starts.\<close>

definition exec_input :: "ApiCollectorArgs \<Rightarrow> 'i option \<Rightarrow> ('i, 'c) submission option \<times> ('i, 'c) submission list list" where
  "exec_input a inp =
     (let rq = first_request a inp in
      if ca_PageSize a \<le> 0 then (Some (Fetch rq Single), [])
      else if ca_Sequential a then (None, [[Fetch rq Sequentially]])
      else if ca_Total a then (Some (Fetch rq Determined), [])
      else (None, map (\<lambda>r. [Fetch r (Undetermined (concurrency_of a))]) (undetermined_first a rq (concurrency_of a))))"

definition resume :: "(goerr + 'i) list option \<Rightarrow> ('i, 'c) main_thread" where
  "resume k = (case k of None \<Rightarrow> Joining | Some inputs \<Rightarrow> Feeding inputs)"

definition start_exec :: "ApiCollectorArgs \<Rightarrow> 'i option \<Rightarrow> (goerr + 'i) list option \<Rightarrow> ('i, 'c, 'd) cstate \<Rightarrow> ('i, 'c, 'd) cstate" where
  "start_exec a inp k s =
     (case exec_input a inp of (direct, ticks) \<Rightarrow>
        s\<lparr>cs_ticks := cs_ticks s @ ticks,
          cs_main := (case direct of None \<Rightarrow> resume k | Some sub \<Rightarrow> Submitting sub k)\<rparr>)"

definition join_result :: "goerr option \<Rightarrow> goerr option" where
  "join_result err = Wrap Default err ''Error waiting for async Collector execution'' None"

definition main_step :: "ApiCollectorArgs \<Rightarrow> ('i, 'c, 'd) api \<Rightarrow> ('i, 'c, 'd) cstate \<Rightarrow> ('i, 'c, 'd) cstate option" where
  "main_step a api s =
     (case cs_main s of
        Feeding inputs \<Rightarrow>
          (if HasError s then (if idle s then Some (s\<lparr>cs_main := Returned (wait_result (cs_errors s))\<rparr>) else None)
           else case inputs of
               [] \<Rightarrow> if idle s then Some (s\<lparr>cs_main := Joining\<rparr>) else None
             | Inl e # rest \<Rightarrow>
                 Some (s\<lparr>cs_main := Returned (Some (newSingleCrdbError Default (Some e) ''error executing collector'' None))\<rparr>)
             | Inr i # rest \<Rightarrow> Some (start_exec a (Some i) (Some rest) s))
      | Submitting sub k \<Rightarrow>
          (case submit a api s sub of
             Accepted w \<Rightarrow> Some (s\<lparr>cs_workers := cs_workers s @ [w], cs_main := resume k\<rparr>)
           | Waiting sub' \<Rightarrow> Some (s\<lparr>cs_main := Submitting sub' k\<rparr>)
           | Dropped \<Rightarrow> Some (s\<lparr>cs_main := resume k\<rparr>)
           | Full \<Rightarrow> None
           | Unprepared e \<Rightarrow> Some (s\<lparr>cs_main := Panicked e\<rparr>))
      | Joining \<Rightarrow> if idle s then Some (s\<lparr>cs_main := Returned (join_result (wait_result (cs_errors s)))\<rparr>) else None
      | Returned r \<Rightarrow> None
      | Panicked e \<Rightarrow> None)"

text \<open>A goroutine of \<open>NextTick\<close>; a panic in it is not recovered and ends the process.\<close>

definition del_nth :: "nat \<Rightarrow> 'a list \<Rightarrow> 'a list" where
  "del_nth i xs = take i xs @ drop (Suc i) xs"

definition tick_step :: "ApiCollectorArgs \<Rightarrow> ('i, 'c, 'd) api \<Rightarrow> nat \<Rightarrow> ('i, 'c, 'd) cstate \<Rightarrow> ('i, 'c, 'd) cstate option" where
  "tick_step a api i s =
     (if i < length (cs_ticks s)
      then (case cs_ticks s ! i of
          [] \<Rightarrow> Some (s\<lparr>cs_ticks := del_nth i (cs_ticks s)\<rparr>)
        | sub # rest \<Rightarrow>
            (case submit a api s sub of
               Accepted w \<Rightarrow> Some (s\<lparr>cs_workers := cs_workers s @ [w], cs_ticks := (cs_ticks s)[i := rest]\<rparr>)
             | Waiting sub' \<Rightarrow> Some (s\<lparr>cs_ticks := (cs_ticks s)[i := sub' # rest]\<rparr>)
             | Dropped \<Rightarrow> Some (s\<lparr>cs_ticks := (cs_ticks s)[i := rest]\<rparr>)
             | Full \<Rightarrow> None
             | Unprepared e \<Rightarrow> Some (s\<lparr>cs_crashed := True\<rparr>)))
      else None)"

text \<open>\<open>DoAsync\<close>: the error of an attempt, and whether another attempt is made.\<close>

definition attempt_error :: "ApiCollectorArgs \<Rightarrow> ('i, 'c, 'd) api \<Rightarrow> ('i, 'c) request \<Rightarrow> 'd reply \<Rightarrow> (goerr \<times> string) option" where
  "attempt_error a api rq reply =
     (case reply of
        DoError e \<Rightarrow> Some (e, error_text api e)
      | Ignored \<Rightarrow> None
      | Reply status body p \<Rightarrow>
          if status \<ge> 400
          then (let msg = ''Http DoAsync error calling ['' @ (if ca_Method a = [] then ''GET'' else ca_Method a) @ '' ''
                  @ url_of api rq @ '']. Response: '' @ body
                in Some (New (HttpStatus status) msg, msg))
          else None)"

definition exhausted :: "('i, 'c, 'd) api \<Rightarrow> ('i, 'c) request \<Rightarrow> nat \<Rightarrow> goerr \<times> string \<Rightarrow> goerr" where
  "exhausted api rq n e = newSingleCrdbError Default (Some (fst e)) (''Retry exceeded '' @ show_nat n @ '' times calling ''
     @ url_of api rq @ ''. The last error was: '' @ snd e) None"

definition run_request :: "ApiCollectorArgs \<Rightarrow> ('i, 'c, 'd) api \<Rightarrow> nat \<Rightarrow> ('i, 'c) request \<Rightarrow> nat \<Rightarrow> cont
    \<Rightarrow> ('i, 'c, 'd) cstate \<Rightarrow> ('i, 'c, 'd) cstate" where
  "run_request a api i rq n cont s =
     (let reply = serve api rq n; s' = s\<lparr>cs_workers := del_nth i (cs_workers s)\<rparr> in
      case attempt_error a api rq reply of
        Some e \<Rightarrow>
          if n < ca_maxRetry a \<and> fst e \<noteq> External Canceled
          then s'\<lparr>cs_ticks := cs_ticks s @ [[Resubmit rq (n + 1) cont]]\<rparr>
          else s'\<lparr>cs_panics := cs_panics s @ [exhausted api rq n e]\<rparr>
      | None \<Rightarrow>
          (case reply of
             Reply status body p \<Rightarrow>
               (case responseHandler a api rq cont p of (rows, inc, next) \<Rightarrow>
                  let s1 = s\<lparr>cs_rows := cs_rows s @ rows, cs_progress := cs_progress s + inc\<rparr> in
                  case next of
                    Finished \<Rightarrow> s1\<lparr>cs_workers := del_nth i (cs_workers s)\<rparr>
                  | Failed e \<Rightarrow> s1\<lparr>cs_workers := del_nth i (cs_workers s), cs_panics := cs_panics s @ [e]\<rparr>
                  | Chain rq' cont' \<Rightarrow> s1\<lparr>cs_workers := (cs_workers s)[i := Blocked (Fetch rq' cont')]\<rparr>
                  | Spawn subs \<Rightarrow> s1\<lparr>cs_workers := del_nth i (cs_workers s), cs_ticks := cs_ticks s @ [subs]\<rparr>)
           | _ \<Rightarrow> s'))"

definition worker_step :: "ApiCollectorArgs \<Rightarrow> ('i, 'c, 'd) api \<Rightarrow> nat \<Rightarrow> ('i, 'c, 'd) cstate \<Rightarrow> ('i, 'c, 'd) cstate option" where
  "worker_step a api i s =
     (if i < length (cs_workers s)
      then (case cs_workers s ! i of
          Queued rq n cont \<Rightarrow>
            if HasError s then Some (s\<lparr>cs_workers := del_nth i (cs_workers s)\<rparr>)
            else Some (s\<lparr>cs_workers := (cs_workers s)[i := Ready rq n cont]\<rparr>)
        | Ready rq n cont \<Rightarrow> Some (run_request a api i rq n cont s)
        | Blocked sub \<Rightarrow>
            (case submit a api s sub of
               Accepted w \<Rightarrow> Some (s\<lparr>cs_workers := del_nth i (cs_workers s) @ [w]\<rparr>)
             | Waiting sub' \<Rightarrow> Some (s\<lparr>cs_workers := (cs_workers s)[i := Blocked sub']\<rparr>)
             | Dropped \<Rightarrow> Some (s\<lparr>cs_workers := del_nth i (cs_workers s)\<rparr>)
             | Full \<Rightarrow> None
             | Unprepared e \<Rightarrow> Some (s\<lparr>cs_workers := del_nth i (cs_workers s), cs_panics := cs_panics s @ [e]\<rparr>)))
      else None)"

text \<open>Where both the context is done and the ticker fired, \<open>select\<close> takes either.\<close>

definition abort_step :: "nat \<Rightarrow> ('i, 'c, 'd) cstate \<Rightarrow> ('i, 'c, 'd) cstate option" where
  "abort_step i s =
     (if i < length (cs_workers s) \<and> cs_cancelled s
      then (case cs_workers s ! i of
          Ready rq n cont \<Rightarrow> Some (s\<lparr>cs_workers := del_nth i (cs_workers s), cs_panics := cs_panics s @ [External Canceled]\<rparr>)
        | _ \<Rightarrow> None)
      else None)"

text \<open>The pool's panic handler: \<open>checkError\<close> on the error of a job.\<close>

definition recover_step :: "nat \<Rightarrow> ('i, 'c, 'd) cstate \<Rightarrow> ('i, 'c, 'd) cstate option" where
  "recover_step i s =
     (if i < length (cs_panics s)
      then Some (s\<lparr>cs_panics := del_nth i (cs_panics s), cs_errors := cs_errors s @ [cs_panics s ! i]\<rparr>)
      else None)"

datatype choice = Main | Worker nat | Abort nat | Recover nat | Tick nat | Cancel

definition cstep :: "ApiCollectorArgs \<Rightarrow> ('i, 'c, 'd) api \<Rightarrow> choice \<Rightarrow> ('i, 'c, 'd) cstate \<Rightarrow> ('i, 'c, 'd) cstate option" where
  "cstep a api c s =
     (if cs_crashed s then None
      else case c of
        Main \<Rightarrow> main_step a api s
      | Worker i \<Rightarrow> worker_step a api i s
      | Abort i \<Rightarrow> abort_step i s
      | Recover i \<Rightarrow> recover_step i s
      | Tick i \<Rightarrow> tick_step a api i s
      | Cancel \<Rightarrow> if cs_cancelled s then None else Some (s\<lparr>cs_cancelled := True\<rparr>))"

fun crun :: "ApiCollectorArgs \<Rightarrow> ('i, 'c, 'd) api \<Rightarrow> choice list \<Rightarrow> ('i, 'c, 'd) cstate \<Rightarrow> ('i, 'c, 'd) cstate option" where
  "crun a api [] s = Some s"
| "crun a api (c # cs) s = (case cstep a api c s of None \<Rightarrow> None | Some s' \<Rightarrow> crun a api cs s')"

definition blank :: "(goerr + 'i) list option \<Rightarrow> ('i, 'c, 'd) cstate" where
  "blank k = \<lparr>cs_main = resume k, cs_workers = [], cs_ticks = [], cs_rows = [], cs_panics = [], cs_errors = [], cs_progress = 0,
     cs_cancelled = False, cs_crashed = False\<rparr>"

definition start :: "ApiCollectorArgs \<Rightarrow> (goerr + 'i) list \<Rightarrow> ('i, 'c, 'd) cstate" where
  "start a inputs = (if ca_HasInput a then blank (Some inputs) else start_exec a None None (blank None))"

text \<open>The beginning of \<open>Execute\<close>: creating the table, deleting the data of an earlier full collection and slowing the
  client down. The result is an early return or the tick interval to collect with; \<open>raw\<close> are the rows of the raw
  table with their parameters.\<close>

definition Execute_begin :: "goerr option \<Rightarrow> goerr option \<Rightarrow> bool \<Rightarrow> int option \<Rightarrow> int \<Rightarrow> string \<Rightarrow> (string \<times> 'r) list
    \<Rightarrow> (goerr option + int) \<times> (string \<times> 'r) list" where
  "Execute_begin migrate_err delete_err incremental minTick tick params raw =
     (case migrate_err of
        Some e \<Rightarrow> (Inl (Some (newSingleCrdbError Default (Some e) ''error auto-migrating collector'' None)), raw)
      | None \<Rightarrow>
          (case (if incremental then None else delete_err) of
             Some e \<Rightarrow> (Inl (Some (newSingleCrdbError Default (Some e) ''error deleting data from collector'' None)), raw)
           | None \<Rightarrow>
               let raw' = (if incremental then raw else filter (\<lambda>r. fst r \<noteq> params) raw) in
               (case minTick of
                  None \<Rightarrow> (Inr tick, raw')
                | Some m \<Rightarrow>
                    if m \<le> 0 then (Inl (Wrap Default None ''MinTickInterval must be greater than 0'' None), raw')
                    else (Inr (if tick < m then m else tick), raw'))))"

end
