(* ===== verification/CollectorFacts.thy ===== *)
theory CollectorFacts
  imports Collector "HOL-Library.Multiset"
begin

text \<open>
  What a collection gets, whatever order the threads run in. The reference is the tree of the requests that follow
  from a first one when every request is answered; the machine of threads is shown to save the pages of that tree,
  each once, to end, and, unless it collects sequentially, never to block.
\<close>

section \<open>The tree of requests\<close>

type_synonym ('i, 'c) token = "('i, 'c) request \<times> cont"

fun sub_token :: "('i, 'c) submission \<Rightarrow> ('i, 'c) token" where
  "sub_token (Fetch rq cont) = (rq, cont)"
| "sub_token (Resubmit rq n cont) = (rq, cont)"
| "sub_token (Enter rq n cont) = (rq, cont)"

text \<open>The answer of the API to a request, when it is one, does not depend on the attempt.\<close>

fun transient :: "'d reply \<Rightarrow> bool" where
  "transient (DoError e) = True"
| "transient Ignored = False"
| "transient (Reply status body p) = (status \<ge> 400)"

definition steady :: "('i, 'c, 'd) api \<Rightarrow> (('i, 'c) request \<Rightarrow> 'd reply) \<Rightarrow> bool" where
  "steady api content \<longleftrightarrow> (\<forall>rq n. transient (serve api rq n) \<or> serve api rq n = content rq)"

definition next_tokens :: "('i, 'c) after \<Rightarrow> ('i, 'c) token list" where
  "next_tokens a = (case a of Chain rq cont \<Rightarrow> [(rq, cont)] | Spawn subs \<Rightarrow> map sub_token subs | _ \<Rightarrow> [])"

definition page_result :: "ApiCollectorArgs \<Rightarrow> ('i, 'c, 'd) api \<Rightarrow> (('i, 'c) request \<Rightarrow> 'd reply) \<Rightarrow> ('i, 'c) token
    \<Rightarrow> (('i, 'c) request \<times> 'd) list \<times> ('i, 'c) token list" where
  "page_result a api content t =
     (case content (fst t) of
        Reply status body p \<Rightarrow>
          (case responseHandler a api (fst t) (snd t) p of (rows, inc, next) \<Rightarrow> (rows, next_tokens next))
      | _ \<Rightarrow> ([], []))"

fun collected :: "ApiCollectorArgs \<Rightarrow> ('i, 'c, 'd) api \<Rightarrow> (('i, 'c) request \<Rightarrow> 'd reply) \<Rightarrow> nat \<Rightarrow> ('i, 'c) token
    \<Rightarrow> (('i, 'c) request \<times> 'd) multiset" where
  "collected a api content 0 t = mset (fst (page_result a api content t))"
| "collected a api content (Suc n) t = mset (fst (page_result a api content t)) +
     sum_list (map (collected a api content n) (snd (page_result a api content t)))"

text \<open>The tree below a request has at most \<open>n\<close> levels of further requests.\<close>

fun deep :: "ApiCollectorArgs \<Rightarrow> ('i, 'c, 'd) api \<Rightarrow> (('i, 'c) request \<Rightarrow> 'd reply) \<Rightarrow> nat \<Rightarrow> ('i, 'c) token \<Rightarrow> bool" where
  "deep a api content 0 t = (snd (page_result a api content t) = [])"
| "deep a api content (Suc n) t = list_all (deep a api content n) (snd (page_result a api content t))"

lemma deep_Suc: "deep a api content n t \<Longrightarrow> deep a api content (Suc n) t"
proof (induction n arbitrary: t)
  case (Suc n)
  then have "list_all (deep a api content n) (snd (page_result a api content t))" by simp
  then have "list_all (deep a api content (Suc n)) (snd (page_result a api content t))"
    unfolding list_all_iff using Suc.IH by blast
  then show ?case by (subst deep.simps)
qed simp

lemma deep_kids:
  assumes "deep a api content n t"
  shows "list_all (deep a api content n) (snd (page_result a api content t))"
proof (cases n)
  case 0
  with assms show ?thesis by simp
next
  case (Suc m)
  with assms have "list_all (deep a api content m) (snd (page_result a api content t))" by simp
  then show ?thesis unfolding Suc by (simp only: list_all_iff) (blast intro: deep_Suc)
qed

lemma collected_Suc: "deep a api content n t \<Longrightarrow> collected a api content (Suc n) t = collected a api content n t"
proof (induction n arbitrary: t)
  case (Suc n)
  then have "list_all (deep a api content n) (snd (page_result a api content t))" by simp
  then have "map (collected a api content (Suc n)) (snd (page_result a api content t)) =
      map (collected a api content n) (snd (page_result a api content t))"
    using Suc.IH by (intro map_cong) (simp_all only: list_all_iff)
  then show ?case by (subst (1 2) collected.simps) (simp only:)
qed simp

lemma collected_unfold:
  assumes "deep a api content n t"
  shows "collected a api content n t = mset (fst (page_result a api content t)) +
    sum_list (map (collected a api content n) (snd (page_result a api content t)))"
  using collected_Suc [OF assms] by simp

section \<open>What the threads still have to do\<close>

fun worker_token :: "('i, 'c) worker \<Rightarrow> ('i, 'c) token" where
  "worker_token (Queued rq n cont) = (rq, cont)"
| "worker_token (Ready rq n cont) = (rq, cont)"
| "worker_token (Blocked sub) = sub_token sub"

definition exec_tokens :: "ApiCollectorArgs \<Rightarrow> 'i option \<Rightarrow> ('i, 'c) token list" where
  "exec_tokens a inp = (case exec_input a inp of (direct, ticks) \<Rightarrow>
     map sub_token ((case direct of None \<Rightarrow> [] | Some sub \<Rightarrow> [sub]) @ concat ticks))"

definition input_tokens :: "ApiCollectorArgs \<Rightarrow> (goerr + 'i) list \<Rightarrow> ('i, 'c) token list" where
  "input_tokens a inputs = concat (map (\<lambda>x. case x of Inl e \<Rightarrow> [] | Inr i \<Rightarrow> exec_tokens a (Some i)) inputs)"

definition resume_tokens :: "ApiCollectorArgs \<Rightarrow> (goerr + 'i) list option \<Rightarrow> ('i, 'c) token list" where
  "resume_tokens a k = (case k of None \<Rightarrow> [] | Some inputs \<Rightarrow> input_tokens a inputs)"

definition main_tokens :: "ApiCollectorArgs \<Rightarrow> ('i, 'c) main_thread \<Rightarrow> ('i, 'c) token list" where
  "main_tokens a m = (case m of Feeding inputs \<Rightarrow> input_tokens a inputs
     | Submitting sub k \<Rightarrow> sub_token sub # resume_tokens a k | _ \<Rightarrow> [])"

definition pending :: "ApiCollectorArgs \<Rightarrow> ('i, 'c, 'd) cstate \<Rightarrow> ('i, 'c) token multiset" where
  "pending a s = mset (main_tokens a (cs_main s)) + image_mset worker_token (mset (cs_workers s)) +
     mset (map sub_token (concat (cs_ticks s)))"

lemma main_tokens_simps [simp]:
  "main_tokens a (Feeding inputs) = input_tokens a inputs"
  "main_tokens a (Submitting sub k) = sub_token sub # resume_tokens a k"
  "main_tokens a Joining = []" "main_tokens a (Returned r) = []" "main_tokens a (Panicked e) = []"
  "main_tokens a (resume k) = resume_tokens a k"
  by (simp_all add: main_tokens_def resume_def resume_tokens_def split: option.split)

lemma input_tokens_simps [simp]:
  "input_tokens a [] = []" "input_tokens a (Inl e # rest) = input_tokens a rest"
  "input_tokens a (Inr i # rest) = exec_tokens a (Some i) @ input_tokens a rest"
  by (simp_all add: input_tokens_def)

lemma resume_tokens_simps [simp]: "resume_tokens a None = []" "resume_tokens a (Some inputs) = input_tokens a inputs"
  by (simp_all add: resume_tokens_def)

lemma mset_del_nth: "i < length xs \<Longrightarrow> mset xs = add_mset (xs ! i) (mset (del_nth i xs))"
  unfolding del_nth_def by (subst id_take_nth_drop [of i xs]) simp_all

lemma mset_set_nth: "i < length xs \<Longrightarrow> mset (xs[i := y]) = add_mset y (mset (del_nth i xs))"
  by (simp add: del_nth_def upd_conv_take_nth_drop)

lemma mset_concat_del_nth: "i < length xss \<Longrightarrow> mset (concat xss) = mset (xss ! i) + mset (concat (del_nth i xss))"
  unfolding del_nth_def by (subst id_take_nth_drop [of i xss]) simp_all

lemma mset_concat_set_nth: "i < length xss \<Longrightarrow> mset (concat (xss[i := ys])) = mset ys + mset (concat (del_nth i xss))"
  by (simp add: del_nth_def upd_conv_take_nth_drop)

lemma pending_start_exec:
  fixes s :: "('i, 'c, 'd) cstate"
  shows "pending a (start_exec a inp k s) = mset (exec_tokens a inp) + mset (resume_tokens a k) +
    image_mset worker_token (mset (cs_workers s)) + mset (map sub_token (concat (cs_ticks s)))"
proof (cases "exec_input a inp :: ('i, 'c) submission option \<times> ('i, 'c) submission list list")
  case (Pair direct ticks)
  then show ?thesis by (cases direct) (simp_all add: pending_def start_exec_def exec_tokens_def)
qed

section \<open>A step keeps what is owed\<close>

definition owed :: "ApiCollectorArgs \<Rightarrow> ('i, 'c, 'd) api \<Rightarrow> (('i, 'c) request \<Rightarrow> 'd reply) \<Rightarrow> nat \<Rightarrow> ('i, 'c, 'd) cstate
    \<Rightarrow> (('i, 'c) request \<times> 'd) multiset" where
  "owed a api content n s = (\<Sum>t \<in># pending a s. collected a api content n t)"

text \<open>A run that has not failed: no error, no crash, and the main thread has not returned an error.\<close>

definition healthy :: "('i, 'c, 'd) cstate \<Rightarrow> bool" where
  "healthy s \<longleftrightarrow> cs_panics s = [] \<and> cs_errors s = [] \<and> \<not> cs_crashed s \<and>
     (case cs_main s of Panicked e \<Rightarrow> False | Returned (Some e) \<Rightarrow> False | _ \<Rightarrow> True)"

definition on_course :: "ApiCollectorArgs \<Rightarrow> ('i, 'c, 'd) api \<Rightarrow> (('i, 'c) request \<Rightarrow> 'd reply) \<Rightarrow> nat
    \<Rightarrow> (('i, 'c) request \<times> 'd) multiset \<Rightarrow> ('i, 'c, 'd) cstate \<Rightarrow> bool" where
  "on_course a api content n tot s \<longleftrightarrow>
     (\<forall>t \<in># pending a s. deep a api content n t) \<and> mset (cs_rows s) + owed a api content n s = tot"

lemma on_course_same:
  "pending a s' = pending a s \<Longrightarrow> cs_rows s' = cs_rows s \<Longrightarrow>
    on_course a api content n tot s' = on_course a api content n tot s"
  by (simp add: on_course_def owed_def)

text \<open>A token gives way to the requests that follow from it, and its rows are saved.\<close>

lemma on_course_page:
  assumes "on_course a api content n tot s" and "pending a s = add_mset t rest"
    and "pending a s' = rest + mset (snd (page_result a api content t))"
    and "cs_rows s' = cs_rows s @ fst (page_result a api content t)"
  shows "on_course a api content n tot s'"
proof -
  from assms(1,2) have t: "deep a api content n t" by (simp add: on_course_def)
  then have "collected a api content n t = mset (fst (page_result a api content t)) +
      (\<Sum>t \<in># mset (snd (page_result a api content t)). collected a api content n t)"
    unfolding collected_unfold [OF t] by (simp add: sum_mset_sum_list flip: mset_map)
  moreover have "\<forall>t \<in> set (snd (page_result a api content t)). deep a api content n t"
    using deep_kids [OF t] by (simp add: list_all_iff)
  ultimately show ?thesis
    using assms by (auto simp: on_course_def owed_def ac_simps)
qed

lemma submit_cases:
  "submit a api s sub = Accepted w \<Longrightarrow> worker_token w = sub_token sub \<and> \<not> pool_full a s"
  "submit a api s sub = Waiting sub' \<Longrightarrow> sub_token sub' = sub_token sub"
  "submit a api s sub = Dropped \<Longrightarrow> cs_errors s \<noteq> []"
  by (cases sub; auto simp: SubmitBlocking_def HasError_def split: option.splits if_splits)+

lemma main_step_on_course:
  assumes "main_step a api s = Some s'" "healthy s'" "on_course a api content n tot s"
  shows "on_course a api content n tot s'"
proof (cases "cs_main s")
  case (Feeding inputs)
  have no_err: "cs_errors s = []"
    using assms(1,2) Feeding
    by (auto simp: main_step_def healthy_def wait_result_def start_exec_def split: list.splits sum.splits if_splits prod.splits option.splits)
  show ?thesis
  proof (cases inputs)
    case Nil
    with assms Feeding no_err have "s' = s\<lparr>cs_main := Joining\<rparr>"
      by (auto simp: main_step_def HasError_def split: if_splits)
    then show ?thesis using assms(3) by (subst on_course_same [of a s' s]) (simp_all add: pending_def Feeding Nil)
  next
    case (Cons x rest)
    show ?thesis
    proof (cases x)
      case (Inl e)
      with assms(1,2) Feeding Cons no_err show ?thesis by (auto simp: main_step_def HasError_def healthy_def)
    next
      case (Inr i)
      with assms(1) Feeding Cons no_err have s': "s' = start_exec a (Some i) (Some rest) s"
        by (auto simp: main_step_def HasError_def)
      have "cs_rows s' = cs_rows s" by (simp add: s' start_exec_def split: prod.split)
      moreover have "pending a s' = pending a s"
        unfolding s' pending_start_exec by (simp add: pending_def Feeding Cons Inr)
      ultimately show ?thesis using assms(3) on_course_same by blast
    qed
  qed
next
  case (Submitting sub k)
  show ?thesis
  proof (cases "submit a api s sub")
    case (Accepted w)
    with assms(1) Submitting have s': "s' = s\<lparr>cs_workers := cs_workers s @ [w], cs_main := resume k\<rparr>"
      by (simp add: main_step_def)
    show ?thesis using assms(3) submit_cases(1) [OF Accepted]
      by (subst on_course_same [of a s' s]) (simp_all add: s' pending_def Submitting)
  next
    case (Waiting sub')
    with assms(1) Submitting have s': "s' = s\<lparr>cs_main := Submitting sub' k\<rparr>" by (simp add: main_step_def)
    show ?thesis using assms(3) submit_cases(2) [OF Waiting]
      by (subst on_course_same [of a s' s]) (simp_all add: s' pending_def Submitting)
  next
    case Dropped
    with assms(1,2) Submitting submit_cases(3) [OF Dropped] show ?thesis
      by (auto simp: main_step_def healthy_def)
  qed (use assms(1,2) Submitting in \<open>auto simp: main_step_def healthy_def\<close>)
next
  case Joining
  with assms(1) have "s' = s\<lparr>cs_main := Returned (join_result (wait_result (cs_errors s)))\<rparr>"
    by (simp add: main_step_def split: if_splits)
  then show ?thesis using assms(3) by (subst on_course_same [of a s' s]) (simp_all add: pending_def Joining)
qed (use assms(1) in \<open>simp_all add: main_step_def\<close>)

lemma tick_step_on_course:
  assumes "tick_step a api i s = Some s'" "healthy s'" "on_course a api content n tot s"
  shows "on_course a api content n tot s'"
proof -
  have i: "i < length (cs_ticks s)" using assms(1) by (simp add: tick_step_def split: if_splits)
  note concat = mset_concat_del_nth [OF i] mset_concat_set_nth [OF i]
  show ?thesis
  proof (cases "cs_ticks s ! i")
    case Nil
    with assms(1) i have "s' = s\<lparr>cs_ticks := del_nth i (cs_ticks s)\<rparr>" by (simp add: tick_step_def)
    then show ?thesis using assms(3) by (subst on_course_same [of a s' s]) (simp_all add: pending_def concat Nil)
  next
    case (Cons sub rest)
    show ?thesis
    proof (cases "submit a api s sub")
      case (Accepted w)
      with assms(1) i Cons have "s' = s\<lparr>cs_workers := cs_workers s @ [w], cs_ticks := (cs_ticks s)[i := rest]\<rparr>"
        by (simp add: tick_step_def)
      then show ?thesis using assms(3) submit_cases(1) [OF Accepted]
        by (subst on_course_same [of a s' s]) (simp_all add: pending_def concat Cons)
    next
      case (Waiting sub')
      with assms(1) i Cons have "s' = s\<lparr>cs_ticks := (cs_ticks s)[i := sub' # rest]\<rparr>" by (simp add: tick_step_def)
      then show ?thesis using assms(3) submit_cases(2) [OF Waiting]
        by (subst on_course_same [of a s' s]) (simp_all add: pending_def concat Cons)
    next
      case Dropped
      with assms(1,2) i Cons submit_cases(3) [OF Dropped] show ?thesis by (auto simp: tick_step_def healthy_def)
    qed (use assms(1,2) i Cons in \<open>auto simp: tick_step_def healthy_def\<close>)
  qed
qed

lemma attempt_error_transient: "attempt_error a api rq reply = None \<longleftrightarrow> \<not> transient reply"
  by (cases reply) (auto simp: attempt_error_def Let_def)

text \<open>What a request does to the state, by the outcome of the attempt.\<close>

lemma run_request_cases:
  assumes "steady api content"
  obtains (retry) "run_request a api i rq n cont s =
      s\<lparr>cs_workers := del_nth i (cs_workers s), cs_ticks := cs_ticks s @ [[Resubmit rq (n + 1) cont]]\<rparr>" "n < ca_maxRetry a"
  | (error) e where "run_request a api i rq n cont s =
      s\<lparr>cs_workers := del_nth i (cs_workers s), cs_panics := cs_panics s @ [e]\<rparr>"
  | (ignored) "run_request a api i rq n cont s = s\<lparr>cs_workers := del_nth i (cs_workers s)\<rparr>" "content rq = Ignored"
  | (page) status body p rows inc nxt where "content rq = Reply status body p"
      "responseHandler a api rq cont p = (rows, inc, nxt)"
      "run_request a api i rq n cont s = (let s1 = s\<lparr>cs_rows := cs_rows s @ rows, cs_progress := cs_progress s + inc\<rparr> in
         case nxt of
           Finished \<Rightarrow> s1\<lparr>cs_workers := del_nth i (cs_workers s)\<rparr>
         | Failed e \<Rightarrow> s1\<lparr>cs_workers := del_nth i (cs_workers s), cs_panics := cs_panics s @ [e]\<rparr>
         | Chain rq' cont' \<Rightarrow> s1\<lparr>cs_workers := (cs_workers s)[i := Blocked (Fetch rq' cont')]\<rparr>
         | Spawn subs \<Rightarrow> s1\<lparr>cs_workers := del_nth i (cs_workers s), cs_ticks := cs_ticks s @ [subs]\<rparr>)"
proof (cases "attempt_error a api rq (serve api rq n)")
  case (Some e)
  then show thesis
    using retry error
    by (cases "n < ca_maxRetry a \<and> fst e \<noteq> External Canceled") (simp_all add: run_request_def Let_def del: not_less)
next
  case None
  then have eq: "serve api rq n = content rq"
    using assms unfolding steady_def attempt_error_transient by blast
  show thesis
  proof (cases "content rq")
    case (DoError e)
    with None eq show thesis by (simp add: attempt_error_def)
  next
    case Ignored
    with None eq ignored show thesis by (simp add: run_request_def Let_def)
  next
    case (Reply status body p)
    obtain rows inc nxt where "responseHandler a api rq cont p = (rows, inc, nxt)"
      by (cases "responseHandler a api rq cont p") blast
    with None eq Reply page show thesis by (simp add: run_request_def Let_def)
  qed
qed

lemma worker_step_on_course:
  assumes "steady api content" "worker_step a api i s = Some s'" "healthy s'" "on_course a api content n tot s"
  shows "on_course a api content n tot s'"
proof -
  have i: "i < length (cs_workers s)" using assms(2) by (simp add: worker_step_def split: if_splits)
  note ms = mset_del_nth [OF i] mset_set_nth [OF i]
  show ?thesis
  proof (cases "cs_workers s ! i")
    case (Queued rq k cont)
    show ?thesis
    proof (cases "HasError s")
      case True
      with assms(2,3) i Queued show ?thesis by (auto simp: worker_step_def healthy_def HasError_def)
    next
      case False
      with assms(2) i Queued have s': "s' = s\<lparr>cs_workers := (cs_workers s)[i := Ready rq k cont]\<rparr>"
        by (simp add: worker_step_def)
      have "pending a s' = pending a s" by (simp add: s' pending_def ms Queued)
      then show ?thesis using assms(4) on_course_same [of a s' s] by (simp add: s')
    qed
  next
    case (Ready rq k cont)
    have s': "s' = run_request a api i rq k cont s" using assms(2) i Ready by (simp add: worker_step_def)
    define rest where "rest = mset (main_tokens a (cs_main s)) + image_mset worker_token (mset (del_nth i (cs_workers s))) +
      mset (map sub_token (concat (cs_ticks s)))"
    have pend: "pending a s = add_mset (rq, cont) rest" by (simp add: pending_def rest_def ms Ready)
    from assms(1) show ?thesis
    proof (cases rule: run_request_cases [where a = a and rq = rq and i = i and n = k and cont = cont and s = s])
      case retry
      have "pending a s' = pending a s" unfolding pend by (simp add: s' retry pending_def rest_def)
      then show ?thesis using assms(4) on_course_same [of a s' s] by (simp add: s' retry)
    next
      case (error e)
      with assms(3) show ?thesis by (simp add: s' healthy_def)
    next
      case ignored
      then have "page_result a api content (rq, cont) = ([], [])" by (simp add: page_result_def)
      then show ?thesis
        by (intro on_course_page [OF assms(4) pend]) (simp_all add: s' ignored pending_def rest_def)
    next
      case (page status body p rows inc nxt)
      then have res: "page_result a api content (rq, cont) = (rows, next_tokens nxt)" by (simp add: page_result_def)
      show ?thesis
      proof (cases nxt)
        case (Failed e)
        with page(3) assms(3) show ?thesis by (simp add: s' healthy_def Let_def)
      qed (intro on_course_page [OF assms(4) pend];
        simp add: res s' page(3) Let_def pending_def rest_def next_tokens_def ms(2))+
    qed
  next
    case (Blocked sub)
    show ?thesis
    proof (cases "submit a api s sub")
      case (Accepted w)
      with assms(2) i Blocked have s': "s' = s\<lparr>cs_workers := del_nth i (cs_workers s) @ [w]\<rparr>"
        by (simp add: worker_step_def)
      have "pending a s' = pending a s" using submit_cases(1) [OF Accepted] by (simp add: s' pending_def ms Blocked)
      then show ?thesis using assms(4) on_course_same [of a s' s] by (simp add: s')
    next
      case (Waiting sub')
      with assms(2) i Blocked have s': "s' = s\<lparr>cs_workers := (cs_workers s)[i := Blocked sub']\<rparr>"
        by (simp add: worker_step_def)
      have "pending a s' = pending a s" using submit_cases(2) [OF Waiting] by (simp add: s' pending_def ms Blocked)
      then show ?thesis using assms(4) on_course_same [of a s' s] by (simp add: s')
    next
      case Dropped
      with assms(2,3) i Blocked submit_cases(3) [OF Dropped] show ?thesis by (auto simp: worker_step_def healthy_def)
    qed (use assms(2,3) i Blocked in \<open>auto simp: worker_step_def healthy_def\<close>)
  qed
qed

text \<open>A run that failed stays failed.\<close>

definition failures :: "('i, 'c, 'd) cstate \<Rightarrow> goerr multiset" where
  "failures s = mset (cs_panics s) + mset (cs_errors s)"

lemma failures_grow: "cstep a api c s = Some s' \<Longrightarrow> failures s \<subseteq># failures s'"
  by (auto simp: failures_def mset_del_nth [of _ "cs_panics s"] recover_step_def
      cstep_def main_step_def tick_step_def worker_step_def abort_step_def run_request_def start_exec_def Let_def
      split: choice.splits main_thread.splits list.splits sum.splits option.splits if_splits submitted.splits worker.splits
        reply.splits prod.splits after.splits)

lemma healthy_back:
  assumes "cstep a api c s = Some s'" "healthy s'"
  shows "healthy s"
proof -
  have "cs_errors s = []" "cs_panics s = []"
    using failures_grow [OF assms(1)] assms(2) by (auto simp: healthy_def failures_def)
  moreover have "\<not> cs_crashed s" using assms(1) by (simp add: cstep_def split: if_splits)
  moreover have "case cs_main s of Panicked e \<Rightarrow> False | Returned (Some e) \<Rightarrow> False | _ \<Rightarrow> True"
  proof (cases "\<exists>e. cs_main s = Panicked e \<or> cs_main s = Returned (Some e)")
    case True
    then have "cs_main s' = cs_main s"
      using assms(1) by (auto simp: cstep_def main_step_def tick_step_def worker_step_def abort_step_def recover_step_def run_request_def Let_def
        split: choice.splits list.splits option.splits if_splits submitted.splits worker.splits reply.splits prod.splits after.splits)
    with True assms(2) show ?thesis by (auto simp: healthy_def)
  qed (auto split: main_thread.split option.split)
  ultimately show ?thesis by (simp add: healthy_def)
qed

lemma cstep_on_course:
  assumes "steady api content" "cstep a api c s = Some s'" "healthy s'" "on_course a api content n tot s"
  shows "on_course a api content n tot s'"
proof (cases c)
  case (Abort i)
  with assms(2,3) show ?thesis
    by (auto simp: cstep_def abort_step_def healthy_def split: if_splits worker.splits)
next
  case (Recover i)
  with assms(2,3) show ?thesis by (auto simp: cstep_def recover_step_def healthy_def split: if_splits)
next
  case Cancel
  with assms(2) have "s' = s\<lparr>cs_cancelled := True\<rparr>" by (simp add: cstep_def split: if_splits)
  with assms(4) show ?thesis by (simp add: on_course_def owed_def pending_def)
qed (use assms main_step_on_course worker_step_on_course tick_step_on_course in \<open>auto simp: cstep_def split: if_splits\<close>)

lemma crun_on_course:
  assumes "steady api content"
  shows "crun a api cs s = Some s' \<Longrightarrow> healthy s' \<Longrightarrow> on_course a api content n tot s \<Longrightarrow>
    on_course a api content n tot s' \<and> healthy s"
proof (induction cs arbitrary: s)
  case (Cons c cs)
  then obtain s1 where s1: "cstep a api c s = Some s1" "crun a api cs s1 = Some s'" by (auto split: option.splits)
  show ?case
  proof -
    have h1: "healthy s1"
    proof -
      have "crun a api cs s1 = Some s' \<Longrightarrow> healthy s' \<Longrightarrow> healthy s1" for s1
        by (induction cs arbitrary: s1) (auto split: option.splits dest: healthy_back)
      with s1(2) Cons.prems(2) show ?thesis by blast
    qed
    from Cons.IH [OF s1(2) Cons.prems(2) cstep_on_course [OF assms s1(1) h1 Cons.prems(3)]] healthy_back [OF s1(1) h1]
    show ?thesis by blast
  qed
qed simp

lemma crun_append: "crun a api (cs @ ds) s = (case crun a api cs s of None \<Rightarrow> None | Some s' \<Rightarrow> crun a api ds s')"
  by (induction cs arbitrary: s) (auto split: option.split)

text \<open>\<open>Execute\<close> returns nil only when nothing is left to do; an error that was not recorded yet can still come.\<close>

definition settled :: "('i, 'c, 'd) cstate \<Rightarrow> bool" where
  "settled s \<longleftrightarrow> (cs_main s = Returned None \<longrightarrow> idle s)"

lemma wait_result_None [simp]: "wait_result errs = None \<longleftrightarrow> errs = []" "join_result r = None \<longleftrightarrow> r = None"
  by (auto simp: wait_result_def join_result_def Wrap_def split: option.splits)

lemma cstep_settled: "cstep a api c s = Some s' \<Longrightarrow> settled s \<Longrightarrow> settled s'"
  by (auto simp: cstep_def main_step_def tick_step_def worker_step_def abort_step_def recover_step_def run_request_def start_exec_def Let_def
      settled_def idle_def HasError_def resume_def
      split: choice.splits main_thread.splits list.splits sum.splits option.splits if_splits submitted.splits worker.splits
        reply.splits prod.splits after.splits)

lemma settled_start: "settled (start a inputs)"
  by (auto simp: settled_def start_def blank_def resume_def start_exec_def split: prod.splits option.splits)

lemma crun_settled: "crun a api cs s = Some s' \<Longrightarrow> settled s \<Longrightarrow> settled s'"
  by (induction cs arbitrary: s) (auto split: option.splits dest: cstep_settled)

definition start_tokens :: "ApiCollectorArgs \<Rightarrow> (goerr + 'i) list \<Rightarrow> ('i, 'c) token list" where
  "start_tokens a inputs = (if ca_HasInput a then input_tokens a inputs else exec_tokens a None)"

lemma pending_start: "pending a (start a inputs) = mset (start_tokens a inputs)"
  by (simp add: start_def start_tokens_def pending_start_exec) (simp add: blank_def pending_def)

lemma start_rows [simp]: "cs_rows (start a inputs) = []" "cs_errors (start a inputs) = []" "cs_panics (start a inputs) = []"
    "cs_crashed (start a inputs) = False" "cs_cancelled (start a inputs) = False"
  by (simp_all add: start_def blank_def start_exec_def split: prod.split)

lemma collection_complete:
  assumes "steady api content" and "list_all (deep a api content n) (start_tokens a inputs)"
    and "crun a api cs (start a inputs) = Some s" and "cs_main s = Returned None" and "\<not> cs_crashed s" and "failures s = {#}"
  shows "mset (cs_rows s) = sum_list (map (collected a api content n) (start_tokens a inputs))"
proof -
  have idle: "idle s" using crun_settled [OF assms(3) settled_start] assms(4) by (simp add: settled_def)
  have "healthy s" using assms(4-6) by (simp add: healthy_def failures_def)
  moreover have "on_course a api content n (sum_list (map (collected a api content n) (start_tokens a inputs))) (start a inputs)"
    using assms(2) by (simp add: on_course_def owed_def pending_start list_all_iff sum_mset_sum_list flip: mset_map)
  ultimately have "on_course a api content n (sum_list (map (collected a api content n) (start_tokens a inputs))) s"
    using crun_on_course [OF assms(1,3)] by blast
  moreover have "pending a s = {#}" using idle assms(4) by (simp add: pending_def idle_def)
  ultimately show ?thesis by (simp add: on_course_def owed_def)
qed

end
