(* ===== verification/CollectorPages.thy ===== *)
theory CollectorPages
  imports CollectorFacts
begin

text \<open>
  A collection from an API that serves a list in pages: the three ways of paging of \<open>exec\<close> save every item of the
  list once, whatever the concurrency, the order of the threads and the number of retries.
\<close>

section \<open>Pages of a list\<close>

definition page_of :: "nat \<Rightarrow> 'd list \<Rightarrow> nat \<Rightarrow> 'd list" where
  "page_of ps xs i = take ps (drop (i * ps) xs)"

lemma page_of_empty: "length xs < Suc i * ps \<Longrightarrow> i < j \<Longrightarrow> page_of ps xs j = []"
proof -
  assume "length xs < Suc i * ps" "i < j"
  moreover have "Suc i * ps \<le> j * ps" using \<open>i < j\<close> by (intro mult_le_mono1) simp
  ultimately show ?thesis by (simp add: page_of_def)
qed

lemma page_of_short: "length (page_of ps xs i) < ps \<longleftrightarrow> length xs < Suc i * ps"
  by (cases "ps = 0") (auto simp: page_of_def)

lemma pages_all: "(\<Sum>i < n. mset (page_of ps xs i)) = mset (take (n * ps) xs)"
proof (induction n)
  case (Suc n)
  have "take (Suc n * ps) xs = take (n * ps) xs @ page_of ps xs n"
    by (simp add: page_of_def add.commute flip: take_add)
  with Suc show ?case by simp
qed simp

text \<open>The pages of a class of residues, for every class, are all pages.\<close>

lemma sum_strided:
  fixes g :: "nat \<Rightarrow> 'b :: comm_monoid_add"
  shows "(\<Sum>i < c. \<Sum>j < n. g (i + j * c)) = (\<Sum>k < n * c. g k)"
proof -
  have "(\<Sum>i < c. \<Sum>j < n. g (i + j * c)) = (\<Sum>j < n. \<Sum>i < c. g (i + j * c))"
    by (rule sum.swap)
  also have "\<dots> = (\<Sum>j < n. \<Sum>k \<in> {j * c ..< j * c + c}. g k)"
  proof (rule sum.cong [OF refl])
    fix j
    show "(\<Sum>i < c. g (i + j * c)) = (\<Sum>k \<in> {j * c ..< j * c + c}. g k)"
      using sum.shift_bounds_nat_ivl [of g 0 "j * c" c] by (simp add: atLeast0LessThan add.commute)
  qed
  also have "\<dots> = (\<Sum>k < n * c. g k)" by (rule sum.nat_group)
  finally show ?thesis .
qed

lemma pages_strided: "(\<Sum>i < c. \<Sum>j < n. mset (page_of ps xs (i + j * c))) = mset (take (n * c * ps) xs)"
  by (simp only: sum_strided [of "\<lambda>k. mset (page_of ps xs k)"] pages_all)

section \<open>An API that serves lists\<close>

definition page_reply :: "ApiCollectorArgs \<Rightarrow> ('i option \<Rightarrow> 'd list) \<Rightarrow> ('i, 'c) request \<Rightarrow> 'd reply" where
  "page_reply a items rq =
     Reply 200 [] (Parsed (take (nat (ca_PageSize a)) (drop (nat (rq_skip rq)) (items (rq_input rq)))))"

definition serves_lists :: "ApiCollectorArgs \<Rightarrow> ('i, 'c, 'd) api \<Rightarrow> ('i option \<Rightarrow> 'd list) \<Rightarrow> bool" where
  "serves_lists a api items \<longleftrightarrow> steady api (page_reply a items) \<and> (\<forall>rq. insert_err api rq = None) \<and>
     (\<forall>rq. \<exists>c. next_custom api rq = Inr c) \<and>
     (\<forall>rq. total_pages api rq = Inr ((int (length (items (rq_input rq))) + ca_PageSize a - 1) div ca_PageSize a))"

abbreviation saved :: "ApiCollectorArgs \<Rightarrow> ('i, 'c, 'd) api \<Rightarrow> ('i option \<Rightarrow> 'd list) \<Rightarrow> nat \<Rightarrow> ('i, 'c) token \<Rightarrow> 'd multiset" where
  "saved a api items n t \<equiv> image_mset snd (collected a api (page_reply a items) n t)"

text \<open>A chain of pages \<open>c\<close> apart: the sequential collection, and one of the parallel ones.\<close>

definition chain_cont :: "nat \<Rightarrow> cont \<Rightarrow> bool" where
  "chain_cont c cont \<longleftrightarrow> cont = Sequentially \<and> c = 1 \<or> cont = Undetermined (int c)"

lemma page_result_chain:
  assumes "serves_lists a api items" "ca_PageSize a = int ps" "0 < ps" "chain_cont c cont" "rq_skip rq = int (i * ps)"
  shows "map snd (fst (page_result a api (page_reply a items) (rq, cont))) = page_of ps (items (rq_input rq)) i"
    and "length (items (rq_input rq)) < Suc i * ps \<Longrightarrow> snd (page_result a api (page_reply a items) (rq, cont)) = []"
    and "Suc i * ps \<le> length (items (rq_input rq)) \<Longrightarrow> \<exists>rq'. snd (page_result a api (page_reply a items) (rq, cont)) = [(rq', cont)] \<and>
      rq_input rq' = rq_input rq \<and> rq_skip rq' = int ((i + c) * ps)"
proof -
  define xs where "xs = page_of ps (items (rq_input rq)) i"
  have reply: "page_reply a items rq = Reply 200 [] (Parsed xs)"
    by (simp add: page_reply_def assms(2,5) xs_def page_of_def nat_mult_distrib)
  have ins: "insert_err api rq = None" and custom: "\<exists>c. next_custom api rq = Inr c"
    using assms(1) by (auto simp: serves_lists_def)
  show "map snd (fst (page_result a api (page_reply a items) (rq, cont))) = page_of ps (items (rq_input rq)) i"
    by (simp add: page_result_def reply responseHandler_def save_page_def ins comp_def flip: xs_def)
  show "snd (page_result a api (page_reply a items) (rq, cont)) = []" if "length (items (rq_input rq)) < Suc i * ps"
  proof -
    from that have "length xs < ps" unfolding xs_def page_of_short .
    then show ?thesis using assms(2,4)
      by (auto simp: page_result_def reply responseHandler_def save_page_def ins after_page_def next_tokens_def chain_cont_def)
  qed
  show "\<exists>rq'. snd (page_result a api (page_reply a items) (rq, cont)) = [(rq', cont)] \<and>
      rq_input rq' = rq_input rq \<and> rq_skip rq' = int ((i + c) * ps)" if "Suc i * ps \<le> length (items (rq_input rq))"
  proof -
    from that have "\<not> length xs < ps" unfolding xs_def page_of_short by simp
    then have full: "ps \<le> length xs" "xs \<noteq> []" using assms(3) by auto
    then show ?thesis using assms(2,4,5) custom
      by (auto simp: page_result_def reply responseHandler_def save_page_def ins after_page_def next_tokens_def chain_cont_def
        next_page_def algebra_simps)
  qed
qed

text \<open>What a chain of pages \<open>c\<close> apart saves, when page \<open>p\<close> has the rows \<open>f p\<close> and after a page where it stops all are empty.\<close>

lemma chain_collected:
  fixes f :: "nat \<Rightarrow> 'd list"
  assumes page: "\<And>rq p. is_page rq p \<Longrightarrow> map snd (fst (page_result a api content (rq, cont))) = f p \<and>
      (if stop p then snd (page_result a api content (rq, cont)) = []
       else \<exists>rq'. snd (page_result a api content (rq, cont)) = [(rq', cont)] \<and> is_page rq' (p + c))"
    and after: "\<And>p q. stop p \<Longrightarrow> p < q \<Longrightarrow> f q = []" and c: "0 < c"
  shows "is_page rq i \<Longrightarrow> stop (i + n * c) \<Longrightarrow>
    deep a api content n (rq, cont) \<and>
    image_mset snd (collected a api content n (rq, cont)) = (\<Sum>j < Suc n. mset (f (i + j * c)))"
proof (induction n arbitrary: rq i)
  case 0
  with page [OF 0(1)] show ?case by (simp flip: mset_map)
next
  case (Suc n)
  show ?case
  proof (cases "stop i")
    case True
    have "f (i + (c + j * c)) = []" for j using after [OF True] c by simp
    then have "(\<Sum>j < Suc (Suc n). mset (f (i + j * c))) = mset (f i)" by (subst sum.lessThan_Suc_shift) simp
    with page [OF Suc.prems(1)] True show ?thesis by (simp flip: mset_map)
  next
    case False
    with page [OF Suc.prems(1)] obtain rq' where rq': "snd (page_result a api content (rq, cont)) = [(rq', cont)]" "is_page rq' (i + c)"
      by auto
    have "stop (i + c + n * c)" using Suc.prems(2) by (simp add: algebra_simps)
    note IH = Suc.IH [OF rq'(2) this]
    have "(\<Sum>j < Suc (Suc n). mset (f (i + j * c))) = mset (f i) + (\<Sum>j < Suc n. mset (f (i + c + j * c)))"
      by (subst sum.lessThan_Suc_shift) (simp add: algebra_simps)
    with IH page [OF Suc.prems(1)] show ?thesis by (simp add: rq'(1) flip: mset_map)
  qed
qed

lemma chain_saved:
  assumes "serves_lists a api items" "ca_PageSize a = int ps" "0 < ps" "chain_cont c cont" "0 < c"
    and "rq_skip rq = int (i * ps)" "length (items (rq_input rq)) < Suc (i + n * c) * ps"
  shows "deep a api (page_reply a items) n (rq, cont) \<and>
    saved a api items n (rq, cont) = (\<Sum>j < Suc n. mset (page_of ps (items (rq_input rq)) (i + j * c)))"
proof (rule chain_collected [where is_page = "\<lambda>r p. rq_skip r = int (p * ps) \<and> rq_input r = rq_input rq"
      and stop = "\<lambda>p. length (items (rq_input rq)) < Suc p * ps" and f = "page_of ps (items (rq_input rq))"])
  fix r :: "('a, 'b) request" and p
  assume r: "rq_skip r = int (p * ps) \<and> rq_input r = rq_input rq"
  note page = page_result_chain [OF assms(1-4) conjunct1 [OF r]]
  show "map snd (fst (page_result a api (page_reply a items) (r, cont))) = page_of ps (items (rq_input rq)) p \<and>
      (if length (items (rq_input rq)) < Suc p * ps then snd (page_result a api (page_reply a items) (r, cont)) = []
       else \<exists>rq'. snd (page_result a api (page_reply a items) (r, cont)) = [(rq', cont)] \<and>
         rq_skip rq' = int ((p + c) * ps) \<and> rq_input rq' = rq_input rq)"
    using page r by (auto simp: not_less simp del: mult_Suc)
qed (use assms in \<open>auto intro: page_of_empty simp del: mult_Suc\<close>)

section \<open>The three ways of paging\<close>

lemma image_mset_sum_list: "image_mset f (sum_list (map g xs)) = (\<Sum>x \<leftarrow> xs. image_mset f (g x))"
  by (induction xs) simp_all

lemma upto_from: "[b..b + int k - 1] = map (\<lambda>i. b + int i) [0..<k]"
proof (induction k)
  case (Suc k)
  then show ?case by (subst upto_rec2) (simp_all add: algebra_simps)
qed simp

lemma upto_nats: "[0..int k - 1] = map int [0..<k]"
  using upto_from [of 0 k] by simp

lemma first_request_simps [simp]: "rq_input (first_request a inp) = inp" "rq_skip (first_request a inp) = 0"
  by (simp_all add: first_request_def)

lemma enough_pages: "0 < ps \<Longrightarrow> 0 < c \<Longrightarrow> m \<le> n \<Longrightarrow> m < Suc (i + n * c) * ps"
proof -
  assume "0 < ps" "0 < c" "m \<le> n"
  moreover from this have "n \<le> n * c" by simp
  ultimately have "m < Suc (i + n * c)" by linarith
  also have "\<dots> \<le> Suc (i + n * c) * ps"
    using \<open>0 < ps\<close> mult_le_mono2 [of 1 ps "Suc (i + n * c)"] by (simp del: mult_Suc)
  finally show ?thesis .
qed

lemma sequential_saved:
  assumes "serves_lists a api items" "ca_PageSize a = int ps" "0 < ps" "length (items inp) \<le> n" "ca_Sequential a"
  shows "list_all (deep a api (page_reply a items) n) (exec_tokens a inp) \<and>
    sum_list (map (saved a api items n) (exec_tokens a inp)) = mset (items inp)"
proof -
  have tok: "exec_tokens a inp = [(first_request a inp, Sequentially)]"
    using assms(2,3,5) by (simp add: exec_tokens_def exec_input_def Let_def)
  from chain_saved [OF assms(1-3), of 1 Sequentially "first_request a inp" 0 n] enough_pages [OF assms(3) _ assms(4), of 1 0]
  have "deep a api (page_reply a items) n (first_request a inp, Sequentially)"
    "saved a api items n (first_request a inp, Sequentially) = (\<Sum>j < Suc n. mset (page_of ps (items inp) j))"
    by (simp_all add: chain_cont_def)
  moreover have "length (items inp) \<le> Suc n * ps" using enough_pages [OF assms(3) _ assms(4), of 1 0] by simp
  ultimately show ?thesis by (simp add: tok pages_all del: sum.lessThan_Suc mult_Suc)
qed

lemma undetermined_saved:
  assumes "serves_lists a api items" "ca_PageSize a = int ps" "0 < ps" "length (items inp) \<le> n"
    "\<not> ca_Sequential a" "\<not> ca_Total a" "concurrency_of a = int c" "0 < c"
  shows "list_all (deep a api (page_reply a items) n) (exec_tokens a inp) \<and>
    sum_list (map (saved a api items n) (exec_tokens a inp)) = mset (items inp)"
proof -
  define rq :: "int \<Rightarrow> ('a, 'b) request" where "rq i = \<lparr>rq_input = inp, rq_page = i + 1, rq_skip = ca_PageSize a * i,
      rq_size = ca_PageSize a, rq_custom = None\<rparr>" for i
  have tok: "exec_tokens a inp = map (\<lambda>i. (rq (int i), Undetermined (int c))) [0..<c]"
    using assms(2,3,5-7)
    by (simp add: exec_tokens_def exec_input_def Let_def undetermined_first_def first_request_def rq_def upto_nats
        map_concat comp_def concat_map_singleton)
  have one: "deep a api (page_reply a items) n (rq (int i), Undetermined (int c)) \<and>
      saved a api items n (rq (int i), Undetermined (int c)) = (\<Sum>j < Suc n. mset (page_of ps (items inp) (i + j * c)))" for i
  proof -
    have "rq_skip (rq (int i)) = int (i * ps)" "rq_input (rq (int i)) = inp" by (simp_all add: rq_def assms(2))
    from chain_saved [OF assms(1-3) _ assms(8) this(1), of "Undetermined (int c)" n] this(2)
      enough_pages [OF assms(3,8,4), of i]
    show ?thesis by (simp add: chain_cont_def)
  qed
  have "sum_list (map (saved a api items n) (exec_tokens a inp)) =
      (\<Sum>i < c. \<Sum>j < Suc n. mset (page_of ps (items inp) (i + j * c)))"
    using one by (simp add: tok comp_def sum_list_distinct_conv_sum_set atLeast0LessThan)
  also have "\<dots> = mset (items inp)"
  proof -
    have "length (items inp) < Suc (0 + n * c) * ps" by (rule enough_pages [OF assms(3,8,4)])
    also have "\<dots> \<le> Suc n * c * ps" using assms(8) by (intro mult_le_mono1) simp
    finally show ?thesis unfolding pages_strided by simp
  qed
  finally show ?thesis using one by (simp add: tok list_all_iff)
qed

lemma determined_saved:
  assumes "serves_lists a api items" "ca_PageSize a = int ps" "0 < ps" "\<not> ca_Sequential a" "ca_Total a" "0 < n"
  shows "list_all (deep a api (page_reply a items) n) (exec_tokens a inp) \<and>
    sum_list (map (saved a api items n) (exec_tokens a inp)) = mset (items inp)"
proof -
  define xs where "xs = items inp"
  define T where "T = (length xs + ps - 1) div ps"
  define kid :: "nat \<Rightarrow> ('a, 'b) token" where "kid i = (\<lparr>rq_input = inp, rq_page = int i + 1, rq_skip = ca_PageSize a * int i,
      rq_size = ca_PageSize a, rq_custom = None\<rparr>, Single)" for i
  define first :: "('a, 'b) token" where "first = (first_request a inp, Determined)"
  have tok: "exec_tokens a inp = [first]"
    using assms(2-5) by (simp add: exec_tokens_def exec_input_def Let_def first_def)
  have ins: "insert_err api rq = None" for rq using assms(1) by (simp add: serves_lists_def)
  have reply: "page_reply a items rq = Reply 200 [] (Parsed (page_of ps xs i))"
    if "rq_skip rq = ca_PageSize a * int i" "rq_input rq = inp" for rq :: "('a, 'b) request" and i
    using that by (simp add: page_reply_def assms(2) page_of_def xs_def nat_mult_distrib mult.commute)
  have kids: "page_result a api (page_reply a items) (kid i) = (map (Pair (fst (kid i))) (page_of ps xs i), [])" for i
    by (auto simp: page_result_def reply [of _ i] kid_def responseHandler_def save_page_def ins after_page_def next_tokens_def)
  have deep_kid: "deep a api (page_reply a items) m (kid i) \<and> saved a api items m (kid i) = mset (page_of ps xs i)" for m i
    by (cases m) (simp_all add: kids comp_def flip: mset_map)
  obtain m where m: "n = Suc m" using assms(6) by (cases n) simp_all
  have first_reply: "page_reply a items (fst first) = Reply 200 [] (Parsed (page_of ps xs 0))"
    by (intro reply) (simp_all add: first_def first_request_def)
  show ?thesis
  proof (cases "xs = []")
    case True
    then have "page_result a api (page_reply a items) first = ([], [])"
      by (simp add: page_result_def first_reply page_of_def responseHandler_def save_page_def next_tokens_def)
    with True show ?thesis by (simp add: tok m xs_def)
  next
    case False
    have total: "total_pages api (fst first) = Inr (int T)"
    proof -
      have "total_pages api (fst first) = Inr ((int (length (items (rq_input (fst first)))) + ca_PageSize a - 1) div ca_PageSize a)"
        using assms(1) unfolding serves_lists_def by blast
      also have "(int (length (items (rq_input (fst first)))) + ca_PageSize a - 1) div ca_PageSize a = int T"
        using assms(3) by (simp add: first_def xs_def [symmetric] assms(2) T_def zdiv_int of_nat_diff)
      finally show ?thesis .
    qed
    have "0 < length xs" using False by simp
    then have T: "0 < T" using assms(3) unfolding T_def div_greater_zero_iff by linarith
    have pages: "determined_pages a (fst first) (int T) = map (fst \<circ> kid \<circ> Suc) [0..<T - 1]"
      using upto_from [of 2 "T - 1"] T
      by (simp add: determined_pages_def kid_def first_def first_request_def of_nat_diff)
    have first: "page_result a api (page_reply a items) first =
        (map (Pair (fst first)) (page_of ps xs 0), map (kid \<circ> Suc) [0..<T - 1])"
    proof -
      have "page_of ps xs 0 \<noteq> []" using False assms(3) by (simp add: page_of_def)
      then show ?thesis
        using pages by (simp add: page_result_def first_reply [unfolded first_def fst_conv] responseHandler_def save_page_def ins after_page_def first_def
          next_tokens_def total [unfolded first_def fst_conv] kid_def)
    qed
    have "saved a api items n first = mset (page_of ps xs 0) + (\<Sum>i \<leftarrow> [0..<T - 1]. saved a api items m (kid (Suc i)))"
      by (simp only: m collected.simps first fst_conv snd_conv image_mset_union image_mset_sum_list map_map comp_def)
        (simp flip: mset_map add: comp_def)
    also have "(\<Sum>i \<leftarrow> [0..<T - 1]. saved a api items m (kid (Suc i))) = (\<Sum>i < T - 1. mset (page_of ps xs (Suc i)))"
      using deep_kid by (simp add: sum_list_distinct_conv_sum_set atLeast0LessThan)
    also have "mset (page_of ps xs 0) + (\<Sum>i < T - 1. mset (page_of ps xs (Suc i))) = (\<Sum>i < T. mset (page_of ps xs i))"
      using sum.lessThan_Suc_shift [of "\<lambda>i. mset (page_of ps xs i)" "T - 1"] T by simp
    also have "\<dots> = mset xs"
    proof -
      have "length xs \<le> T * ps" using dividend_less_div_times [OF assms(3), of "length xs + ps - 1"] unfolding T_def by linarith
      then show ?thesis by (simp add: pages_all)
    qed
    finally show ?thesis using deep_kid by (simp add: tok m first list_all_iff xs_def)
  qed
qed

section \<open>A collection that returns nil\<close>

definition fed :: "ApiCollectorArgs \<Rightarrow> (goerr + 'i) list \<Rightarrow> 'i option list" where
  "fed a inputs = (if ca_HasInput a then concat (map (\<lambda>x. case x of Inl e \<Rightarrow> [] | Inr i \<Rightarrow> [Some i]) inputs) else [None])"

lemma start_tokens_fed: "start_tokens a inputs = concat (map (exec_tokens a) (fed a inputs))"
proof (cases "ca_HasInput a")
  case True
  then show ?thesis unfolding start_tokens_def fed_def if_P [OF True]
    by (induction inputs) (auto simp: input_tokens_def split: sum.split)
qed (simp add: start_tokens_def fed_def)

lemma exec_saved:
  assumes "serves_lists a api items" "0 < ca_PageSize a" "0 < concurrency_of a" "length (items inp) \<le> n" "0 < n"
  shows "list_all (deep a api (page_reply a items) n) (exec_tokens a inp) \<and>
    sum_list (map (saved a api items n) (exec_tokens a inp)) = mset (items inp)"
proof -
  obtain ps where ps: "ca_PageSize a = int ps" "0 < ps"
    using assms(2) by (metis zero_less_imp_eq_int)
  obtain c where c: "concurrency_of a = int c" "0 < c"
    using assms(3) by (metis zero_less_imp_eq_int)
  consider "ca_Sequential a" | "\<not> ca_Sequential a" "ca_Total a" | "\<not> ca_Sequential a" "\<not> ca_Total a" by blast
  then show ?thesis
  proof cases
    case 1
    then show ?thesis by (rule sequential_saved [OF assms(1) ps assms(4)])
  next
    case 2
    then show ?thesis by (rule determined_saved [OF assms(1) ps _ _ assms(5)])
  next
    case 3
    then show ?thesis by (rule undetermined_saved [OF assms(1) ps assms(4) _ _ c])
  qed
qed

text \<open>The levels of the trees of a collection from lists.\<close>

definition list_depth :: "ApiCollectorArgs \<Rightarrow> ('i option \<Rightarrow> 'd list) \<Rightarrow> (goerr + 'i) list \<Rightarrow> nat" where
  "list_depth a items inputs = Suc (sum_list (map (length \<circ> items) (fed a inputs)))"

lemma start_saved:
  assumes "serves_lists a api items" "0 < ca_PageSize a" "0 < concurrency_of a"
  shows "list_all (deep a api (page_reply a items) (list_depth a items inputs)) (start_tokens a inputs) \<and>
    sum_list (map (saved a api items (list_depth a items inputs)) (start_tokens a inputs)) = mset (concat (map items (fed a inputs)))"
proof -
  have one: "list_all (deep a api (page_reply a items) (list_depth a items inputs)) (exec_tokens a inp) \<and>
      sum_list (map (saved a api items (list_depth a items inputs)) (exec_tokens a inp)) = mset (items inp)"
    if "inp \<in> set (fed a inputs)" for inp
  proof (rule exec_saved [OF assms])
    from that have "length (items inp) \<le> sum_list (map (length \<circ> items) (fed a inputs))"
      by (intro member_le_sum_list) auto
    then show "length (items inp) \<le> list_depth a items inputs" by (simp add: list_depth_def)
  qed (simp add: list_depth_def)
  have "sum_list (map f (concat (map g xs))) = mset (concat (map h xs))"
    if "\<And>x. x \<in> set xs \<Longrightarrow> sum_list (map f (g x)) = mset (h x)" for f g h and xs :: "'a option list"
    using that by (induction xs) auto
  from this [of "fed a inputs" "saved a api items (list_depth a items inputs)" "exec_tokens a" items] one
  show ?thesis by (auto simp: start_tokens_fed list_all_iff)
qed

text \<open>C7. A collection is complete and exact: from an API that serves a list in pages, whose answers to a request, when they are
  not errors, are always the same, a run of \<open>Execute\<close> that returns nil and in which no job failed has saved every item of the list of every
  input once and nothing else, whichever way the pages are found (from the first page, one after the
  other, or in parallel without knowing how many there are), whatever the concurrency, the size of the pool, the order of
  the threads and the number of retries.\<close>

theorem collection_exact:
  assumes "serves_lists a api items" and "0 < ca_PageSize a" and "0 < concurrency_of a"
    and "crun a api cs (start a inputs) = Some s" and "cs_main s = Returned None" and "\<not> cs_crashed s"
    and "failures s = {#}"
  shows "mset (map snd (cs_rows s)) = mset (concat (map items (fed a inputs)))"
proof -
  have st: "steady api (page_reply a items)" using assms(1) by (simp only: serves_lists_def)
  note start = start_saved [OF assms(1-3), of inputs]
  have "mset (map snd (cs_rows s)) = image_mset snd (mset (cs_rows s))" by simp
  also have "\<dots> = sum_list (map (saved a api items (list_depth a items inputs)) (start_tokens a inputs))"
    unfolding collection_complete [OF st conjunct1 [OF start] assms(4-7)] image_mset_sum_list ..
  also have "\<dots> = mset (concat (map items (fed a inputs)))" using start by (rule conjunct2)
  finally show ?thesis .
qed

definition sample_args :: ApiCollectorArgs where
  "sample_args = \<lparr>ca_PageSize = 2, ca_Sequential = False, ca_Total = False, ca_Concurrency = 2, ca_HasInput = False,
     ca_NumOfWorkers = 1, ca_cap = Some 1, ca_maxRetry = 1, ca_Method = [], ca_table = ''_raw_sample''\<rparr>"

text \<open>An API with the items 1 to 5, whose first attempt at the second page fails.\<close>

definition sample_api :: "(unit, unit, nat) api" where
  "sample_api = \<lparr>prepare = (\<lambda>_. None),
     serve = (\<lambda>rq n. if rq_page rq = 2 \<and> n = 0 then DoError (External ''timeout'') else page_reply sample_args (\<lambda>_. [1, 2, 3, 4, 5]) rq),
     next_custom = (\<lambda>_. Inr ()), is_finish = (\<lambda>_. False), total_pages = (\<lambda>_. Inr 3), insert_err = (\<lambda>_. None),
     url_of = (\<lambda>_. ''x''), error_text = (\<lambda>_. [])\<rparr>"

definition sample_run :: "choice list" where
  "sample_run = [Tick 1, Worker 0, Worker 0, Tick 1, Tick 1, Worker 0, Worker 0, Tick 1, Tick 1, Worker 0, Worker 0, Tick 1,
     Tick 0, Worker 0, Worker 0, Tick 1, Worker 0, Worker 0, Tick 1, Tick 0, Main]"

lemma sample_serves: "serves_lists sample_args sample_api (\<lambda>_. [1, 2, 3, 4, 5])"
proof -
  have "steady sample_api (page_reply sample_args (\<lambda>_. [1, 2, 3, 4, 5]))"
    unfolding steady_def by (simp add: sample_api_def)
  then show ?thesis unfolding serves_lists_def by (simp add: sample_api_def sample_args_def)
qed

theorem collection_exact_witness:
  "\<exists>s. crun sample_args sample_api sample_run (start sample_args ([] :: (goerr + unit) list)) = Some s \<and>
    cs_main s = Returned None \<and> mset (map snd (cs_rows s)) = mset [1, 2, 3, 4, 5]"
proof -
  have "case crun sample_args sample_api sample_run (start sample_args ([] :: (goerr + unit) list)) of None \<Rightarrow> False
      | Some s \<Rightarrow> cs_main s = Returned None \<and> \<not> cs_crashed s \<and> failures s = {#}"
    by code_simp
  then obtain s where s: "crun sample_args sample_api sample_run (start sample_args ([] :: (goerr + unit) list)) = Some s"
    "cs_main s = Returned None" "\<not> cs_crashed s" "failures s = {#}" by (auto split: option.splits)
  have "fed sample_args ([] :: (goerr + unit) list) = [None]" "0 < ca_PageSize sample_args" "0 < concurrency_of sample_args"
    by (simp_all add: fed_def sample_args_def concurrency_of_def)
  with collection_exact [OF sample_serves _ _ s] s show ?thesis by simp
qed

end
