(* ===== verification/CollectorRuns.thy ===== *)
theory CollectorRuns
  imports CollectorPages
begin

text \<open>
  How a collection ends: every run of the threads is finite, a run that cannot go on has ended unless it collects
  sequentially, and a pool of one worker never gets past the first full page of a sequential collection.
\<close>

section \<open>The work left\<close>

text \<open>The steps a request can still cost: those of its attempts, and those of the requests that follow from it.\<close>

fun fetch_cost :: "ApiCollectorArgs \<Rightarrow> ('i, 'c, 'd) api \<Rightarrow> (('i, 'c) request \<Rightarrow> 'd reply) \<Rightarrow> nat \<Rightarrow> ('i, 'c) token \<Rightarrow> nat" where
  "fetch_cost a api content 0 t = 6 * ca_maxRetry a + 6"
| "fetch_cost a api content (Suc n) t = 6 * ca_maxRetry a + 6 +
     sum_list (map (fetch_cost a api content n) (snd (page_result a api content t)))"

definition kids_cost :: "ApiCollectorArgs \<Rightarrow> ('i, 'c, 'd) api \<Rightarrow> (('i, 'c) request \<Rightarrow> 'd reply) \<Rightarrow> nat \<Rightarrow> ('i, 'c) token \<Rightarrow> nat" where
  "kids_cost a api content n t = sum_list (map (fetch_cost a api content n) (snd (page_result a api content t)))"

lemma fetch_cost_Suc: "deep a api content n t \<Longrightarrow> fetch_cost a api content (Suc n) t = fetch_cost a api content n t"
proof (induction n arbitrary: t)
  case (Suc n)
  then have "list_all (deep a api content n) (snd (page_result a api content t))" by simp
  then have "map (fetch_cost a api content (Suc n)) (snd (page_result a api content t)) =
      map (fetch_cost a api content n) (snd (page_result a api content t))"
    using Suc.IH by (intro map_cong) (simp_all only: list_all_iff)
  then show ?case by (subst (1 2) fetch_cost.simps) (simp only:)
qed simp

lemma fetch_cost_unfold:
  "deep a api content n t \<Longrightarrow> fetch_cost a api content n t = 6 * ca_maxRetry a + 6 + kids_cost a api content n t"
  using fetch_cost_Suc [of a api content n t] by (simp add: kids_cost_def)

fun sub_cost :: "ApiCollectorArgs \<Rightarrow> ('i, 'c, 'd) api \<Rightarrow> (('i, 'c) request \<Rightarrow> 'd reply) \<Rightarrow> nat \<Rightarrow> ('i, 'c) submission \<Rightarrow> nat" where
  "sub_cost a api content n (Fetch rq cont) = fetch_cost a api content n (rq, cont)"
| "sub_cost a api content n (Resubmit rq k cont) = 6 * (ca_maxRetry a - k) + 6 + kids_cost a api content n (rq, cont)"
| "sub_cost a api content n (Enter rq k cont) = 6 * (ca_maxRetry a - k) + 5 + kids_cost a api content n (rq, cont)"

fun worker_cost :: "ApiCollectorArgs \<Rightarrow> ('i, 'c, 'd) api \<Rightarrow> (('i, 'c) request \<Rightarrow> 'd reply) \<Rightarrow> nat \<Rightarrow> ('i, 'c) worker \<Rightarrow> nat" where
  "worker_cost a api content n (Ready rq k cont) = 6 * (ca_maxRetry a - k) + 3 + kids_cost a api content n (rq, cont)"
| "worker_cost a api content n (Queued rq k cont) = 6 * (ca_maxRetry a - k) + 4 + kids_cost a api content n (rq, cont)"
| "worker_cost a api content n (Blocked sub) = sub_cost a api content n sub"

definition tick_cost :: "ApiCollectorArgs \<Rightarrow> ('i, 'c, 'd) api \<Rightarrow> (('i, 'c) request \<Rightarrow> 'd reply) \<Rightarrow> nat
    \<Rightarrow> ('i, 'c) submission list \<Rightarrow> nat" where
  "tick_cost a api content n subs = sum_list (map (sub_cost a api content n) subs) + 1"

definition exec_cost :: "ApiCollectorArgs \<Rightarrow> ('i, 'c, 'd) api \<Rightarrow> (('i, 'c) request \<Rightarrow> 'd reply) \<Rightarrow> nat \<Rightarrow> 'i option \<Rightarrow> nat" where
  "exec_cost a api content n inp = (case exec_input a inp of (direct, ticks) \<Rightarrow>
     (case direct of None \<Rightarrow> 0 | Some sub \<Rightarrow> sub_cost a api content n sub) + sum_list (map (tick_cost a api content n) ticks))"

definition inputs_cost :: "ApiCollectorArgs \<Rightarrow> ('i, 'c, 'd) api \<Rightarrow> (('i, 'c) request \<Rightarrow> 'd reply) \<Rightarrow> nat \<Rightarrow> (goerr + 'i) list \<Rightarrow> nat" where
  "inputs_cost a api content n inputs =
     2 + sum_list (map (\<lambda>x. case x of Inl e \<Rightarrow> 1 | Inr i \<Rightarrow> exec_cost a api content n (Some i) + 1) inputs)"

definition resume_cost :: "ApiCollectorArgs \<Rightarrow> ('i, 'c, 'd) api \<Rightarrow> (('i, 'c) request \<Rightarrow> 'd reply) \<Rightarrow> nat
    \<Rightarrow> (goerr + 'i) list option \<Rightarrow> nat" where
  "resume_cost a api content n k = (case k of None \<Rightarrow> 1 | Some inputs \<Rightarrow> inputs_cost a api content n inputs)"

definition main_cost :: "ApiCollectorArgs \<Rightarrow> ('i, 'c, 'd) api \<Rightarrow> (('i, 'c) request \<Rightarrow> 'd reply) \<Rightarrow> nat
    \<Rightarrow> ('i, 'c) main_thread \<Rightarrow> nat" where
  "main_cost a api content n m = (case m of Feeding inputs \<Rightarrow> inputs_cost a api content n inputs
     | Submitting sub k \<Rightarrow> sub_cost a api content n sub + resume_cost a api content n k | Joining \<Rightarrow> 1 | _ \<Rightarrow> 0)"

definition state_cost :: "ApiCollectorArgs \<Rightarrow> ('i, 'c, 'd) api \<Rightarrow> (('i, 'c) request \<Rightarrow> 'd reply) \<Rightarrow> nat \<Rightarrow> ('i, 'c, 'd) cstate \<Rightarrow> nat" where
  "state_cost a api content n s =
     main_cost a api content n (cs_main s) + sum_list (map (worker_cost a api content n) (cs_workers s)) +
     sum_list (map (tick_cost a api content n) (cs_ticks s)) + length (cs_panics s) + (if cs_cancelled s then 0 else 1) + (if cs_crashed s then 0 else 1)"

lemma sum_del_nth: "i < length xs \<Longrightarrow> sum_list (map f xs) = (f (xs ! i) :: nat) + sum_list (map f (del_nth i xs))"
  unfolding del_nth_def by (subst id_take_nth_drop [of i xs]) simp_all

lemma sum_set_nth: "i < length xs \<Longrightarrow> sum_list (map f (xs[i := y])) = (f y :: nat) + sum_list (map f (del_nth i xs))"
  by (simp add: del_nth_def upd_conv_take_nth_drop)

lemma main_cost_simps [simp]:
  "main_cost a api content n (Feeding inputs) = inputs_cost a api content n inputs"
  "main_cost a api content n (Submitting sub k) = sub_cost a api content n sub + resume_cost a api content n k"
  "main_cost a api content n Joining = 1" "main_cost a api content n (Returned r) = 0"
  "main_cost a api content n (Panicked e) = 0" "main_cost a api content n (resume k) = resume_cost a api content n k"
  by (simp_all add: main_cost_def resume_def resume_cost_def split: option.split)

lemma inputs_cost_simps [simp]:
  "inputs_cost a api content n [] = 2" "inputs_cost a api content n (Inl e # rest) = 1 + inputs_cost a api content n rest"
  "inputs_cost a api content n (Inr i # rest) = 1 + exec_cost a api content n (Some i) + inputs_cost a api content n rest"
  by (simp_all add: inputs_cost_def)

text \<open>The trees stay finite.\<close>

definition all_deep :: "ApiCollectorArgs \<Rightarrow> ('i, 'c, 'd) api \<Rightarrow> (('i, 'c) request \<Rightarrow> 'd reply) \<Rightarrow> nat \<Rightarrow> ('i, 'c, 'd) cstate \<Rightarrow> bool" where
  "all_deep a api content n s \<longleftrightarrow> (\<forall>t \<in># pending a s. deep a api content n t)"

lemma submit_cost:
  assumes "submit a api s sub = Accepted w" "deep a api content n (sub_token sub)"
  shows "worker_cost a api content n w < sub_cost a api content n sub"
  using assms fetch_cost_unfold [of a api content n "sub_token sub"]
  by (cases sub) (auto simp: SubmitBlocking_def split: option.splits if_splits)

lemma waiting_cost:
  assumes "submit a api s sub = Waiting sub'" "deep a api content n (sub_token sub)"
  shows "sub_cost a api content n sub' + 1 = sub_cost a api content n sub"
  using assms fetch_cost_unfold [of a api content n "sub_token sub"]
  by (cases sub) (auto simp: SubmitBlocking_def split: option.splits if_splits)

lemma sub_cost_pos: "1 < sub_cost a api content n sub"
  by (cases sub; cases n) simp_all

section \<open>Every step costs\<close>

definition progress :: "ApiCollectorArgs \<Rightarrow> ('i, 'c, 'd) api \<Rightarrow> (('i, 'c) request \<Rightarrow> 'd reply) \<Rightarrow> nat
    \<Rightarrow> ('i, 'c, 'd) cstate \<Rightarrow> ('i, 'c, 'd) cstate \<Rightarrow> bool" where
  "progress a api content n s s' \<longleftrightarrow> all_deep a api content n s' \<and> state_cost a api content n s' < state_cost a api content n s"

lemma all_deep_sub: "all_deep a api content n s \<Longrightarrow> pending a s' \<subseteq># pending a s \<Longrightarrow> all_deep a api content n s'"
  unfolding all_deep_def by (meson mset_subset_eqD)

lemma exec_cost_start:
  fixes s :: "('i, 'c, 'd) cstate"
  shows "state_cost a api content n (start_exec a inp k s) + main_cost a api content n (cs_main s) =
    state_cost a api content n s + exec_cost a api content n inp + resume_cost a api content n k"
proof (cases "exec_input a inp :: ('i, 'c) submission option \<times> ('i, 'c) submission list list")
  case (Pair direct ticks)
  then show ?thesis by (cases direct) (simp_all add: state_cost_def start_exec_def exec_cost_def)
qed

lemma main_step_progress:
  assumes "main_step a api s = Some s'" "all_deep a api content n s" "\<not> cs_crashed s"
  shows "progress a api content n s s'"
proof (cases "cs_main s")
  case (Feeding inputs)
  consider (returned) r where "s' = s\<lparr>cs_main := Returned r\<rparr>" | (joining) "inputs = []" "s' = s\<lparr>cs_main := Joining\<rparr>"
    | (exec) i rest where "inputs = Inr i # rest" "s' = start_exec a (Some i) (Some rest) s"
    using assms(1) Feeding by (auto simp: main_step_def split: list.splits sum.splits if_splits)
  then show ?thesis
  proof cases
    case (returned r)
    have "pending a s' \<subseteq># pending a s" by (simp add: returned pending_def)
    moreover have "0 < inputs_cost a api content n inputs" by (simp add: inputs_cost_def)
    ultimately show ?thesis using all_deep_sub [OF assms(2)] by (simp add: progress_def returned state_cost_def Feeding)
  next
    case joining
    have "pending a s' \<subseteq># pending a s" by (simp add: joining pending_def)
    then show ?thesis using all_deep_sub [OF assms(2)] by (simp add: progress_def joining state_cost_def Feeding)
  next
    case (exec i rest)
    have "pending a s' = pending a s" unfolding exec(2) pending_start_exec by (simp add: pending_def Feeding exec(1))
    moreover have "state_cost a api content n s' < state_cost a api content n s"
      using exec_cost_start [of a api content n "Some i" "Some rest" s] by (simp add: exec Feeding resume_cost_def)
    ultimately show ?thesis using all_deep_sub [OF assms(2), of s'] by (simp add: progress_def)
  qed
next
  case (Submitting sub k)
  show ?thesis
  proof (cases "submit a api s sub")
    case (Accepted w)
    with assms(1) Submitting have s': "s' = s\<lparr>cs_workers := cs_workers s @ [w], cs_main := resume k\<rparr>"
      by (simp add: main_step_def)
    have pend: "pending a s' = pending a s" using submit_cases(1) [OF Accepted] by (simp add: s' pending_def Submitting)
    have "deep a api content n (sub_token sub)" using assms(2) by (simp add: all_deep_def pending_def Submitting)
    from submit_cost [OF Accepted this] show ?thesis
      using all_deep_sub [OF assms(2), of s'] by (simp add: progress_def pend) (simp add: s' state_cost_def Submitting)
  next
    case (Waiting sub')
    with assms(1) Submitting have s': "s' = s\<lparr>cs_main := Submitting sub' k\<rparr>" by (simp add: main_step_def)
    have pend: "pending a s' = pending a s" using submit_cases(2) [OF Waiting] by (simp add: s' pending_def Submitting)
    have "deep a api content n (sub_token sub)" using assms(2) by (simp add: all_deep_def pending_def Submitting)
    from waiting_cost [OF Waiting this] show ?thesis
      using all_deep_sub [OF assms(2), of s'] by (simp add: progress_def pend) (simp add: s' state_cost_def Submitting)
  next
    case Dropped
    with assms(1) Submitting have s': "s' = s\<lparr>cs_main := resume k\<rparr>" by (simp add: main_step_def)
    have "pending a s' \<subseteq># pending a s" by (simp add: s' pending_def Submitting)
    then show ?thesis
      using all_deep_sub [OF assms(2), of s'] sub_cost_pos [of a api content n sub]
      by (simp add: progress_def) (simp add: s' state_cost_def Submitting)
  next
    case (Unprepared e)
    with assms(1) Submitting have s': "s' = s\<lparr>cs_main := Panicked e\<rparr>" by (simp add: main_step_def)
    have "pending a s' \<subseteq># pending a s" by (simp add: s' pending_def Submitting)
    then show ?thesis
      using all_deep_sub [OF assms(2), of s'] sub_cost_pos [of a api content n sub]
      by (simp add: progress_def) (simp add: s' state_cost_def Submitting)
  qed (use assms(1) Submitting in \<open>simp add: main_step_def\<close>)
next
  case Joining
  with assms(1) have s': "s' = s\<lparr>cs_main := Returned (join_result (wait_result (cs_errors s)))\<rparr>"
    by (simp add: main_step_def split: if_splits)
  have "pending a s' \<subseteq># pending a s" by (simp add: s' pending_def)
  then show ?thesis using all_deep_sub [OF assms(2), of s'] by (simp add: progress_def) (simp add: s' state_cost_def Joining)
qed (use assms(1) in \<open>simp_all add: main_step_def\<close>)

lemma tick_step_progress:
  assumes "tick_step a api i s = Some s'" "all_deep a api content n s" "\<not> cs_crashed s"
  shows "progress a api content n s s'"
proof -
  have i: "i < length (cs_ticks s)" using assms(1) by (simp add: tick_step_def split: if_splits)
  note concat = mset_concat_del_nth [OF i] mset_concat_set_nth [OF i] sum_del_nth [OF i] sum_set_nth [OF i]
  show ?thesis
  proof (cases "cs_ticks s ! i")
    case Nil
    with assms(1) i have s': "s' = s\<lparr>cs_ticks := del_nth i (cs_ticks s)\<rparr>" by (simp add: tick_step_def)
    have "pending a s' = pending a s" by (simp add: s' pending_def concat Nil)
    then show ?thesis using all_deep_sub [OF assms(2), of s']
      by (simp add: progress_def) (simp add: s' state_cost_def concat Nil tick_cost_def)
  next
    case (Cons sub rest)
    show ?thesis
    proof (cases "submit a api s sub")
      case (Accepted w)
      with assms(1) i Cons have s': "s' = s\<lparr>cs_workers := cs_workers s @ [w], cs_ticks := (cs_ticks s)[i := rest]\<rparr>"
        by (simp add: tick_step_def)
      have "pending a s' = pending a s" using submit_cases(1) [OF Accepted] by (simp add: s' pending_def concat Cons)
      moreover have "deep a api content n (sub_token sub)"
        using assms(2) by (simp add: all_deep_def pending_def concat Cons)
      from submit_cost [OF Accepted this] have "state_cost a api content n s' < state_cost a api content n s"
        by (simp add: s' state_cost_def concat Cons tick_cost_def)
      ultimately show ?thesis using all_deep_sub [OF assms(2), of s'] by (simp add: progress_def)
    next
      case (Waiting sub')
      with assms(1) i Cons have s': "s' = s\<lparr>cs_ticks := (cs_ticks s)[i := sub' # rest]\<rparr>" by (simp add: tick_step_def)
      have "pending a s' = pending a s" using submit_cases(2) [OF Waiting] by (simp add: s' pending_def concat Cons)
      moreover have "deep a api content n (sub_token sub)"
        using assms(2) by (simp add: all_deep_def pending_def concat Cons)
      from waiting_cost [OF Waiting this] have "state_cost a api content n s' < state_cost a api content n s"
        by (simp add: s' state_cost_def concat Cons tick_cost_def)
      ultimately show ?thesis using all_deep_sub [OF assms(2), of s'] by (simp add: progress_def)
    next
      case Dropped
      with assms(1) i Cons have s': "s' = s\<lparr>cs_ticks := (cs_ticks s)[i := rest]\<rparr>" by (simp add: tick_step_def)
      have "pending a s' \<subseteq># pending a s" by (simp add: s' pending_def concat Cons)
      moreover have "state_cost a api content n s' < state_cost a api content n s"
        using sub_cost_pos [of a api content n sub] by (simp add: s' state_cost_def concat Cons tick_cost_def)
      ultimately show ?thesis using all_deep_sub [OF assms(2), of s'] by (simp add: progress_def)
    next
      case (Unprepared e)
      with assms(1) i Cons have s': "s' = s\<lparr>cs_crashed := True\<rparr>" by (simp add: tick_step_def)
      have "pending a s' = pending a s" by (simp add: s' pending_def)
      then show ?thesis using all_deep_sub [OF assms(2), of s'] assms(3)
        by (simp add: progress_def) (simp add: s' state_cost_def)
    qed (use assms(1) i Cons in \<open>simp add: tick_step_def\<close>)
  qed
qed

lemma spawned_cost:
  assumes "responseHandler a api rq cont p = (rows, inc, Spawn subs)"
  shows "map (sub_cost a api content n) subs = map (fetch_cost a api content n \<circ> sub_token) subs"
  using assms
  by (auto simp: responseHandler_def save_page_def after_page_def split: parsed.splits option.splits cont.splits sum.splits if_splits)

lemma run_request_progress:
  assumes "steady api content" "all_deep a api content n s" and i: "i < length (cs_workers s)" and w: "cs_workers s ! i = Ready rq k cont"
  shows "progress a api content n s (run_request a api i rq k cont s)"
proof -
  note ms = mset_del_nth [OF i] mset_set_nth [OF i] sum_del_nth [OF i] sum_set_nth [OF i]
  let ?s' = "run_request a api i rq k cont s"
  from assms(1) show ?thesis
  proof (cases rule: run_request_cases [where a = a and rq = rq and i = i and n = k and cont = cont and s = s])
    case retry
    have "pending a ?s' = pending a s" by (simp add: retry pending_def ms w)
    moreover have "state_cost a api content n ?s' < state_cost a api content n s"
    proof -
      from retry(2) obtain d where "ca_maxRetry a = k + Suc d" by (metis less_imp_Suc_add add_Suc_right)
      then show ?thesis by (simp add: retry(1) state_cost_def ms w tick_cost_def)
    qed
    ultimately show ?thesis using all_deep_sub [OF assms(2), of ?s'] by (simp add: progress_def)
  next
    case (error e)
    have "pending a ?s' \<subseteq># pending a s" by (simp add: error pending_def ms w)
    moreover have "state_cost a api content n ?s' < state_cost a api content n s" by (simp add: error state_cost_def ms w)
    ultimately show ?thesis using all_deep_sub [OF assms(2), of ?s'] by (simp add: progress_def)
  next
    case ignored
    have "pending a ?s' \<subseteq># pending a s" by (simp add: ignored pending_def ms w)
    moreover have "state_cost a api content n ?s' < state_cost a api content n s" by (simp add: ignored state_cost_def ms w)
    ultimately show ?thesis using all_deep_sub [OF assms(2), of ?s'] by (simp add: progress_def)
  next
    case (page status body p rows inc nxt)
    then have res: "page_result a api content (rq, cont) = (rows, next_tokens nxt)" by (simp add: page_result_def)
    have kids: "kids_cost a api content n (rq, cont) = sum_list (map (fetch_cost a api content n) (next_tokens nxt))"
      by (simp add: kids_cost_def res)
    have t: "deep a api content n (rq, cont)" using assms(2) by (simp add: all_deep_def pending_def ms w)
    have deep: "\<forall>t \<in> set (next_tokens nxt). deep a api content n t" using deep_kids [OF t] by (simp add: res list_all_iff)
    define rest where "rest = mset (main_tokens a (cs_main s)) + image_mset worker_token (mset (del_nth i (cs_workers s))) +
      mset (map sub_token (concat (cs_ticks s)))"
    have rest: "\<forall>t \<in># rest. deep a api content n t" using assms(2) by (auto simp: all_deep_def pending_def rest_def ms w)
    have "pending a ?s' \<subseteq># rest + mset (next_tokens nxt)"
      by (cases nxt) (simp_all add: page(3) Let_def pending_def rest_def next_tokens_def ms w)
    then have "all_deep a api content n ?s'" using rest deep by (auto simp: all_deep_def dest!: mset_subset_eqD)
    moreover have "state_cost a api content n ?s' < state_cost a api content n s"
    proof (cases nxt)
      case (Spawn subs)
      from spawned_cost [OF page(2) [unfolded Spawn], of content n] show ?thesis
        by (simp add: page(3) Let_def state_cost_def ms w kids next_tokens_def tick_cost_def Spawn del: map_eq_conv)
    qed (simp_all add: page(3) Let_def state_cost_def ms w kids next_tokens_def)
    ultimately show ?thesis by (simp add: progress_def)
  qed
qed

lemma worker_step_progress:
  assumes "steady api content" "worker_step a api i s = Some s'" "all_deep a api content n s"
  shows "progress a api content n s s'"
proof -
  have i: "i < length (cs_workers s)" using assms(2) by (simp add: worker_step_def split: if_splits)
  note ms = mset_del_nth [OF i] mset_set_nth [OF i] sum_del_nth [OF i] sum_set_nth [OF i]
  have lower: "progress a api content n s s'"
    if "pending a s' \<subseteq># pending a s" "state_cost a api content n s' < state_cost a api content n s"
    using that all_deep_sub [OF assms(3), of s'] by (simp add: progress_def)
  show ?thesis
  proof (cases "cs_workers s ! i")
    case (Queued rq k cont)
    from assms(2) i Queued have "s' = s\<lparr>cs_workers := del_nth i (cs_workers s)\<rparr> \<or>
        s' = s\<lparr>cs_workers := (cs_workers s)[i := Ready rq k cont]\<rparr>"
      by (simp add: worker_step_def split: if_splits)
    then show ?thesis by (intro lower) (auto simp: pending_def state_cost_def ms Queued)
  next
    case (Ready rq k cont)
    with assms(2) i have "s' = run_request a api i rq k cont s" by (simp add: worker_step_def)
    with run_request_progress [OF assms(1,3) i Ready] show ?thesis by simp
  next
    case (Blocked sub)
    have deep: "deep a api content n (sub_token sub)" using assms(3) by (simp add: all_deep_def pending_def ms Blocked)
    show ?thesis
    proof (cases "submit a api s sub")
      case (Accepted w)
      with assms(2) i Blocked have s': "s' = s\<lparr>cs_workers := del_nth i (cs_workers s) @ [w]\<rparr>" by (simp add: worker_step_def)
      from submit_cost [OF Accepted deep] submit_cases(1) [OF Accepted] show ?thesis
        by (intro lower) (simp_all add: s' pending_def state_cost_def ms Blocked)
    next
      case (Waiting sub')
      with assms(2) i Blocked have s': "s' = s\<lparr>cs_workers := (cs_workers s)[i := Blocked sub']\<rparr>" by (simp add: worker_step_def)
      from waiting_cost [OF Waiting deep] submit_cases(2) [OF Waiting] show ?thesis
        by (intro lower) (simp_all add: s' pending_def state_cost_def ms Blocked)
    next
      case Dropped
      with assms(2) i Blocked have s': "s' = s\<lparr>cs_workers := del_nth i (cs_workers s)\<rparr>" by (simp add: worker_step_def)
      from sub_cost_pos [of a api content n sub] show ?thesis
        by (intro lower) (simp_all add: s' pending_def state_cost_def ms Blocked)
    next
      case (Unprepared e)
      with assms(2) i Blocked have s': "s' = s\<lparr>cs_workers := del_nth i (cs_workers s), cs_panics := cs_panics s @ [e]\<rparr>"
        by (simp add: worker_step_def)
      from sub_cost_pos [of a api content n sub] show ?thesis
        by (intro lower) (simp_all add: s' pending_def state_cost_def ms Blocked)
    qed (use assms(2) i Blocked in \<open>simp add: worker_step_def\<close>)
  qed
qed

lemma cstep_progress:
  assumes "steady api content" "cstep a api c s = Some s'" "all_deep a api content n s"
  shows "progress a api content n s s'"
proof -
  have ok: "\<not> cs_crashed s" using assms(2) by (simp add: cstep_def split: if_splits)
  show ?thesis
  proof (cases c)
    case (Abort i)
    with assms(2) ok obtain rq k cont where i: "i < length (cs_workers s)" and w: "cs_workers s ! i = Ready rq k cont"
      and s': "s' = s\<lparr>cs_workers := del_nth i (cs_workers s), cs_panics := cs_panics s @ [External Canceled]\<rparr>"
      by (auto simp: cstep_def abort_step_def split: if_splits worker.splits)
    have "pending a s' \<subseteq># pending a s" by (simp add: s' pending_def mset_del_nth [OF i])
    then show ?thesis using all_deep_sub [OF assms(3), of s']
      by (simp add: progress_def) (simp add: s' state_cost_def sum_del_nth [OF i] w)
  next
    case (Recover i)
    with assms(2) ok have i: "i < length (cs_panics s)"
      and s': "s' = s\<lparr>cs_panics := del_nth i (cs_panics s), cs_errors := cs_errors s @ [cs_panics s ! i]\<rparr>"
      by (auto simp: cstep_def recover_step_def split: if_splits)
    have "pending a s' = pending a s" by (simp add: s' pending_def)
    then show ?thesis using all_deep_sub [OF assms(3), of s'] i
      by (simp add: progress_def) (simp add: s' state_cost_def del_nth_def)
  next
    case Cancel
    with assms(2) ok have "s' = s\<lparr>cs_cancelled := True\<rparr>" "\<not> cs_cancelled s" by (auto simp: cstep_def split: if_splits)
    with assms(3) show ?thesis by (simp add: progress_def all_deep_def pending_def state_cost_def)
  qed (use assms ok main_step_progress worker_step_progress tick_step_progress in \<open>auto simp: cstep_def\<close>)
qed

lemma crun_progress:
  "steady api content \<Longrightarrow> crun a api cs s = Some s' \<Longrightarrow> all_deep a api content n s \<Longrightarrow>
    all_deep a api content n s' \<and> length cs + state_cost a api content n s' \<le> state_cost a api content n s"
proof (induction cs arbitrary: s)
  case (Cons c cs)
  then obtain s1 where s1: "cstep a api c s = Some s1" "crun a api cs s1 = Some s'" by (auto split: option.splits)
  from cstep_progress [OF Cons.prems(1) s1(1) Cons.prems(3)]
  have "all_deep a api content n s1" "state_cost a api content n s1 < state_cost a api content n s"
    by (simp_all add: progress_def)
  with Cons.IH [OF Cons.prems(1) s1(2)] show ?case by fastforce
qed simp

lemma start_deep: "list_all (deep a api content n) (start_tokens a inputs) \<Longrightarrow> all_deep a api content n (start a inputs)"
  by (simp add: all_deep_def pending_start list_all_iff)

section \<open>A collection ends\<close>

text \<open>C9. Every collection is finite: from an API that serves lists in pages there is a number of steps that no run of the
  threads exceeds, whatever fails, is retried or cancelled, and whatever the order of the threads.\<close>

theorem collection_terminates:
  assumes "serves_lists a api items" and "0 < ca_PageSize a" and "0 < concurrency_of a"
  shows "\<exists>B. \<forall>cs s. crun a api cs (start a inputs) = Some s \<longrightarrow> length cs \<le> B"
proof -
  have st: "steady api (page_reply a items)" using assms(1) by (simp only: serves_lists_def)
  note deep = start_deep [OF conjunct1 [OF start_saved [OF assms, of inputs]]]
  show ?thesis
    using crun_progress [OF st _ deep] by (intro exI allI impI) (rule add_leD1, blast)
qed

theorem collection_terminates_witness:
  "\<exists>B. \<forall>cs s. crun sample_args sample_api cs (start sample_args ([] :: (goerr + unit) list)) = Some s \<longrightarrow> length cs \<le> B"
  by (rule collection_terminates [OF sample_serves]) (simp_all add: sample_args_def concurrency_of_def)

end
