(* ===== verification/CollectorLive.thy ===== *)
theory CollectorLive
  imports CollectorRuns
begin

text \<open>
  A collection that does not page sequentially never blocks: a thread that can go on is there until \<open>Execute\<close> has
  returned, so, every run being finite, it returns.
\<close>

section \<open>What the requests lead to\<close>

text \<open>A property of requests that the pages of a request with it keep.\<close>

definition hereditary :: "ApiCollectorArgs \<Rightarrow> ('i, 'c, 'd) api \<Rightarrow> (('i, 'c) token \<Rightarrow> bool) \<Rightarrow> bool" where
  "hereditary a api P \<longleftrightarrow> (\<forall>rq cont p. P (rq, cont) \<longrightarrow>
     (\<forall>t \<in> set (next_tokens (snd (snd (responseHandler a api rq cont p)))). P t))"

definition pending_all :: "ApiCollectorArgs \<Rightarrow> (('i, 'c) token \<Rightarrow> bool) \<Rightarrow> ('i, 'c, 'd) cstate \<Rightarrow> bool" where
  "pending_all a P s \<longleftrightarrow> (\<forall>t \<in># pending a s. P t)"

lemma pending_all_parts: "pending_all a P s \<longleftrightarrow> list_all P (main_tokens a (cs_main s)) \<and>
    list_all (\<lambda>w. P (worker_token w)) (cs_workers s) \<and> list_all (list_all (\<lambda>sub. P (sub_token sub))) (cs_ticks s)"
  by (auto simp: pending_all_def pending_def list_all_iff)

lemma pending_all_start_exec:
  "pending_all a P (start_exec a inp k s) \<longleftrightarrow> list_all P (exec_tokens a inp) \<and> list_all P (resume_tokens a k) \<and>
    list_all (\<lambda>w. P (worker_token w)) (cs_workers s) \<and> list_all (list_all (\<lambda>sub. P (sub_token sub))) (cs_ticks s)"
  unfolding pending_all_def pending_start_exec by (auto simp: list_all_iff)

lemma list_all_del_nth: "list_all Q xs \<Longrightarrow> list_all Q (del_nth i xs)"
  by (auto simp: list_all_iff del_nth_def dest: in_set_takeD in_set_dropD)

lemma list_all_set_nth: "list_all Q xs \<Longrightarrow> Q y \<Longrightarrow> list_all Q (xs[i := y])"
  using set_update_subset_insert [of xs i y] by (auto simp: list_all_iff)

lemma list_all_nth: "list_all Q xs \<Longrightarrow> i < length xs \<Longrightarrow> Q (xs ! i)"
  by (simp add: list_all_length)

lemma main_step_pending:
  assumes "main_step a api s = Some s'" "pending_all a P s"
  shows "pending_all a P s'"
proof (cases "cs_main s")
  case (Feeding inputs)
  consider (returned) r where "s' = s\<lparr>cs_main := Returned r\<rparr>" | (joining) "s' = s\<lparr>cs_main := Joining\<rparr>"
    | (exec) i rest where "inputs = Inr i # rest" "s' = start_exec a (Some i) (Some rest) s"
    using assms(1) Feeding by (auto simp: main_step_def split: list.splits sum.splits if_splits)
  then show ?thesis
  proof cases
    case (exec i rest)
    from assms(2) Feeding show ?thesis unfolding exec pending_all_start_exec by (auto simp: exec pending_all_parts)
  qed (use assms(2) in \<open>auto simp: pending_all_parts\<close>)
next
  case (Submitting sub k)
  with assms show ?thesis
    by (cases "submit a api s sub") (auto simp: main_step_def pending_all_parts dest!: submit_cases)
qed (use assms in \<open>auto simp: main_step_def pending_all_parts split: if_splits\<close>)

lemma tick_step_pending:
  assumes "tick_step a api i s = Some s'" "pending_all a P s"
  shows "pending_all a P s'"
proof -
  have i: "i < length (cs_ticks s)" using assms(1) by (simp add: tick_step_def split: if_splits)
  have "list_all (list_all (\<lambda>sub. P (sub_token sub))) (cs_ticks s)" using assms(2) by (simp add: pending_all_parts)
  from list_all_nth [OF this i] have mem: "list_all (\<lambda>sub. P (sub_token sub)) (cs_ticks s ! i)" .
  show ?thesis
  proof (cases "cs_ticks s ! i")
    case Nil
    with assms i show ?thesis by (auto simp: tick_step_def pending_all_parts intro: list_all_del_nth)
  next
    case (Cons sub rest)
    with assms i mem show ?thesis
      by (cases "submit a api s sub") (auto simp: tick_step_def pending_all_parts dest!: submit_cases intro!: list_all_set_nth)
  qed
qed

lemma run_request_pending:
  assumes "hereditary a api P" "pending_all a P s" and i: "i < length (cs_workers s)" and w: "cs_workers s ! i = Ready rq k cont"
  shows "pending_all a P (run_request a api i rq k cont s)"
proof -
  have t: "P (rq, cont)" using assms(2) list_all_nth [OF _ i] by (fastforce simp: pending_all_parts w)
  show ?thesis
  proof (cases "attempt_error a api rq (serve api rq k)")
    case (Some e)
    then show ?thesis using assms(2) t by (auto simp: run_request_def Let_def pending_all_parts intro: list_all_del_nth)
  next
    case None
    show ?thesis
    proof (cases "serve api rq k")
      case (Reply status body p)
      obtain rows inc nxt where res: "responseHandler a api rq cont p = (rows, inc, nxt)"
        by (cases "responseHandler a api rq cont p") blast
      with assms(1) t have kids: "list_all P (next_tokens nxt)"
        unfolding hereditary_def list_all_iff by (metis snd_conv)
      show ?thesis
        using assms(2) kids
        by (cases nxt) (auto simp: run_request_def Let_def pending_all_parts None [unfolded Reply] Reply res next_tokens_def list.pred_map comp_def
          intro!: list_all_set_nth list_all_del_nth)
    qed (use assms(2) None in \<open>auto simp: attempt_error_def run_request_def Let_def pending_all_parts intro: list_all_del_nth\<close>)
  qed
qed

lemma worker_step_pending:
  assumes "hereditary a api P" "worker_step a api i s = Some s'" "pending_all a P s"
  shows "pending_all a P s'"
proof -
  have i: "i < length (cs_workers s)" using assms(2) by (simp add: worker_step_def split: if_splits)
  then have mem: "P (worker_token (cs_workers s ! i))" using assms(3) list_all_nth [OF _ i] by (fastforce simp: pending_all_parts)
  show ?thesis
  proof (cases "cs_workers s ! i")
    case (Queued rq k cont)
    with assms(2,3) i mem show ?thesis
      by (auto simp: worker_step_def pending_all_parts split: if_splits intro!: list_all_del_nth list_all_set_nth)
  next
    case (Ready rq k cont)
    with assms(2) i run_request_pending [OF assms(1,3) i Ready] show ?thesis by (simp add: worker_step_def)
  next
    case (Blocked sub)
    with assms(2,3) i mem show ?thesis
      by (cases "submit a api s sub")
        (auto simp: worker_step_def pending_all_parts dest!: submit_cases intro!: list_all_del_nth list_all_set_nth)
  qed
qed

lemma cstep_pending:
  assumes "hereditary a api P" "cstep a api c s = Some s'" "pending_all a P s"
  shows "pending_all a P s'"
proof (cases c)
  case (Abort i)
  with assms(2,3) show ?thesis
    by (auto simp: cstep_def abort_step_def pending_all_parts split: if_splits worker.splits intro: list_all_del_nth)
next
  case (Recover i)
  with assms(2,3) show ?thesis by (auto simp: cstep_def recover_step_def pending_all_parts split: if_splits)
next
  case Cancel
  with assms(2,3) show ?thesis by (auto simp: cstep_def pending_all_parts split: if_splits)
qed (use assms in \<open>auto simp: cstep_def split: if_splits intro: main_step_pending worker_step_pending tick_step_pending\<close>)

lemma crun_pending:
  "hereditary a api P \<Longrightarrow> crun a api cs s = Some s' \<Longrightarrow> pending_all a P s \<Longrightarrow> pending_all a P s'"
  by (induction cs arbitrary: s) (auto split: option.splits intro: cstep_pending)

section \<open>A collection without a sequential page\<close>

text \<open>No worker waits for another: the handler of a page of a parallel collection submits through \<open>NextTick\<close>.\<close>

definition parallel :: "('i, 'c) token \<Rightarrow> bool" where
  "parallel t \<longleftrightarrow> snd t \<noteq> Sequentially"

definition unblocked :: "('i, 'c, 'd) cstate \<Rightarrow> bool" where
  "unblocked s \<longleftrightarrow> list_all (\<lambda>w. case w of Blocked sub \<Rightarrow> False | _ \<Rightarrow> True) (cs_workers s)"

lemma after_page_parallel:
  "cont \<noteq> Sequentially \<Longrightarrow> responseHandler a api rq cont p = (rows, inc, nxt) \<Longrightarrow>
    list_all parallel (next_tokens nxt) \<and> (\<forall>rq' cont'. nxt \<noteq> Chain rq' cont')"
  by (auto simp: responseHandler_def save_page_def after_page_def next_tokens_def parallel_def list.pred_map comp_def
      list.pred_True split: parsed.splits option.splits cont.splits sum.splits if_splits)

lemma hereditary_parallel:
  fixes api :: "('i, 'c, 'd) api"
  shows "hereditary a api parallel"
  unfolding hereditary_def
proof (intro allI impI)
  fix rq :: "('i, 'c) request" and cont p
  assume "parallel (rq, cont)"
  then show "\<forall>t \<in> set (next_tokens (snd (snd (responseHandler a api rq cont p)))). parallel t"
    using after_page_parallel [of cont a api rq p] by (cases "responseHandler a api rq cont p") (auto simp: parallel_def list_all_iff)
qed

lemma submit_unblocked: "submit a api s sub = Accepted w \<Longrightarrow> (case w of Blocked sub \<Rightarrow> False | _ \<Rightarrow> True)"
  by (cases sub) (auto simp: SubmitBlocking_def split: option.splits if_splits)

lemma run_request_unblocked:
  assumes "unblocked s" "cont \<noteq> Sequentially"
  shows "unblocked (run_request a api i rq k cont s)"
proof -
  have del: "unblocked s' \<longleftrightarrow> True" if "cs_workers s' = del_nth i (cs_workers s)" for s'
    using assms(1) list_all_del_nth by (auto simp: unblocked_def that)
  show ?thesis
  proof (cases "attempt_error a api rq (serve api rq k)")
    case (Some e)
    then show ?thesis by (simp add: run_request_def Let_def del)
  next
    case None
    show ?thesis
    proof (cases "serve api rq k")
      case (Reply status body p)
      obtain rows inc nxt where res: "responseHandler a api rq cont p = (rows, inc, nxt)"
        by (cases "responseHandler a api rq cont p") blast
      with after_page_parallel [OF assms(2) res] None Reply show ?thesis
        by (cases nxt) (simp_all add: run_request_def Let_def del)
    qed (use None in \<open>simp_all add: run_request_def Let_def del attempt_error_def\<close>)
  qed
qed

lemma main_step_unblocked: "main_step a api s = Some s' \<Longrightarrow> unblocked s \<Longrightarrow> unblocked s'"
  by (auto simp: unblocked_def main_step_def start_exec_def split: main_thread.splits list.splits sum.splits if_splits submitted.splits
      prod.splits dest: submit_unblocked)

lemma tick_step_unblocked: "tick_step a api i s = Some s' \<Longrightarrow> unblocked s \<Longrightarrow> unblocked s'"
  by (auto simp: unblocked_def tick_step_def split: list.splits if_splits submitted.splits dest: submit_unblocked)

lemma worker_step_unblocked:
  assumes "worker_step a api i s = Some s'" "unblocked s" "pending_all a parallel s"
  shows "unblocked s'"
proof -
  have i: "i < length (cs_workers s)" using assms(1) by (simp add: worker_step_def split: if_splits)
  have del: "unblocked (s\<lparr>cs_workers := del_nth i (cs_workers s)\<rparr>)"
    using assms(2) list_all_del_nth by (auto simp: unblocked_def)
  show ?thesis
  proof (cases "cs_workers s ! i")
    case (Queued rq k cont)
    with assms(1,2) i del show ?thesis
      by (auto simp: worker_step_def unblocked_def split: if_splits intro!: list_all_set_nth)
  next
    case (Ready rq k cont)
    have "list_all (\<lambda>w. parallel (worker_token w)) (cs_workers s)" using assms(3) by (simp add: pending_all_parts)
    from list_all_nth [OF this i] have "cont \<noteq> Sequentially" by (simp add: Ready parallel_def)
    from run_request_unblocked [OF assms(2) this] show ?thesis using assms(1) i Ready by (auto simp: worker_step_def)
  next
    case (Blocked sub)
    have "list_all (\<lambda>w. case w of Blocked sub \<Rightarrow> False | _ \<Rightarrow> True) (cs_workers s)" using assms(2) by (simp add: unblocked_def)
    from list_all_nth [OF this i] Blocked show ?thesis by simp
  qed
qed

lemma cstep_unblocked:
  assumes "cstep a api c s = Some s'" "unblocked s" "pending_all a parallel s"
  shows "unblocked s'"
proof (cases c)
  case (Abort i)
  with assms(1,2) show ?thesis
    by (auto simp: cstep_def abort_step_def unblocked_def split: if_splits worker.splits intro: list_all_del_nth)
next
  case (Recover i)
  with assms(1,2) show ?thesis by (auto simp: cstep_def recover_step_def unblocked_def split: if_splits)
next
  case Cancel
  with assms(1,2) show ?thesis by (auto simp: cstep_def unblocked_def split: if_splits)
qed (use assms in \<open>auto simp: cstep_def split: if_splits
  intro: main_step_unblocked tick_step_unblocked worker_step_unblocked\<close>)

lemma crun_unblocked:
  "crun a api cs s = Some s' \<Longrightarrow> unblocked s \<Longrightarrow> pending_all a parallel s \<Longrightarrow> unblocked s' \<and> pending_all a parallel s'"
proof (induction cs arbitrary: s)
  case (Cons c cs)
  then obtain s1 where s1: "cstep a api c s = Some s1" "crun a api cs s1 = Some s'" by (auto split: option.splits)
  from Cons.IH [OF s1(2) cstep_unblocked [OF s1(1) Cons.prems(2,3)] cstep_pending [OF hereditary_parallel s1(1) Cons.prems(3)]]
  show ?case .
qed simp

section \<open>A thread that can go on\<close>

definition ended :: "('i, 'c, 'd) cstate \<Rightarrow> bool" where
  "ended s \<longleftrightarrow> cs_crashed s \<or> (\<exists>r. cs_main s = Returned r) \<or> (\<exists>e. cs_main s = Panicked e)"

lemma submit_not_full: "\<not> pool_full a s \<Longrightarrow> submit a api s sub \<noteq> Full"
  by (cases sub) (auto simp: SubmitBlocking_def split: option.splits)

lemma not_stuck:
  assumes "unblocked s" "ca_cap a \<noteq> Some 0" "\<not> ended s"
  obtains c s' where "c \<noteq> Cancel" "cstep a api c s = Some s'"
proof -
  have ok: "\<not> cs_crashed s" using assms(3) by (simp add: ended_def)
  show thesis
  proof (cases "cs_workers s")
    case (Cons w ws)
    then have "worker_step a api 0 s \<noteq> None"
      using assms(1) by (auto simp: worker_step_def unblocked_def split: worker.splits)
    then show thesis using that [of "Worker 0"] ok by (auto simp: cstep_def)
  next
    case Nil
    then have free: "\<not> pool_full a s" using assms(2) by (auto simp: pool_full_def split: option.splits)
    show thesis
    proof (cases "cs_ticks s")
      case (Cons subs ts)
      then have "tick_step a api 0 s \<noteq> None"
        using submit_not_full [OF free] by (auto simp: tick_step_def split: list.splits submitted.splits)
      then show thesis using that [of "Tick 0"] ok by (auto simp: cstep_def)
    next
      case Nil
      with \<open>cs_workers s = []\<close> have "idle s" by (simp add: idle_def)
      then have "main_step a api s \<noteq> None"
        using assms(3) submit_not_full [OF free]
        by (auto simp: main_step_def ended_def split: main_thread.splits list.splits sum.splits submitted.splits)
      then show thesis using that [of Main] ok by (auto simp: cstep_def)
    qed
  qed
qed

section \<open>Execute returns\<close>

lemma exec_parallel: "\<not> ca_Sequential a \<Longrightarrow> list_all parallel (exec_tokens a inp)"
  by (auto simp: exec_tokens_def exec_input_def Let_def parallel_def list_all_iff)

lemma input_parallel: "\<not> ca_Sequential a \<Longrightarrow> list_all parallel (input_tokens a inputs)"
proof (induction inputs)
  case (Cons x inputs)
  then show ?case by (cases x) (simp_all add: exec_parallel)
qed simp

lemma start_parallel:
  assumes "\<not> ca_Sequential a"
  shows "pending_all a parallel (start a inputs)" "unblocked (start a inputs)"
proof -
  show "pending_all a parallel (start a inputs)"
    using exec_parallel [OF assms] input_parallel [OF assms]
    unfolding pending_all_def pending_start start_tokens_def by (auto simp: list_all_iff)
  show "unblocked (start a inputs)" by (simp add: unblocked_def start_def start_exec_def blank_def split: prod.split)
qed

lemma runs_end:
  "steady api content \<Longrightarrow> all_deep a api content n s \<Longrightarrow> ca_cap a \<noteq> Some 0 \<Longrightarrow> unblocked s \<Longrightarrow> pending_all a parallel s \<Longrightarrow>
    \<exists>cs s'. Cancel \<notin> set cs \<and> crun a api cs s = Some s' \<and> ended s'"
proof (induction "state_cost a api content n s" arbitrary: s rule: less_induct)
  case less
  show ?case
  proof (cases "ended s")
    case True
    then show ?thesis by (intro exI [of _ "[]"] exI [of _ s]) simp
  next
    case False
    from not_stuck [OF less.prems(4,3) False] obtain c s1 where c: "c \<noteq> Cancel" "cstep a api c s = Some s1" by blast
    have "all_deep a api content n s1" "state_cost a api content n s1 < state_cost a api content n s"
      using cstep_progress [OF less.prems(1) c(2) less.prems(2)] by (simp_all add: progress_def)
    from less.hyps [OF this(2) less.prems(1) this(1) less.prems(3) cstep_unblocked [OF c(2) less.prems(4,5)]
        cstep_pending [OF hereditary_parallel c(2) less.prems(5)]]
    obtain cs s' where "Cancel \<notin> set cs" "crun a api cs s1 = Some s'" "ended s'" by blast
    with c show ?thesis by (intro exI [of _ "c # cs"] exI [of _ s']) simp
  qed
qed

text \<open>C8. A collection cannot hang: when it does not page sequentially, in every state its threads can reach, after errors, retries
  and cancellations too, and with any pool of at least one worker, either \<open>Execute\<close> has ended or a thread can go on
  without a cancellation, and the collection can be driven to its end that way. With the termination of all runs,
  every fair execution ends.\<close>

theorem collection_live:
  assumes "serves_lists a api items" and "0 < ca_PageSize a" and "0 < concurrency_of a"
    and "\<not> ca_Sequential a" and "ca_cap a \<noteq> Some 0" and "crun a api cs (start a inputs) = Some s"
  shows "(ended s \<or> (\<exists>c s'. c \<noteq> Cancel \<and> cstep a api c s = Some s')) \<and>
    (\<exists>cs' s'. Cancel \<notin> set cs' \<and> crun a api cs' s = Some s' \<and> ended s')"
proof -
  have st: "steady api (page_reply a items)" using assms(1) by (simp only: serves_lists_def)
  note deep = start_deep [OF conjunct1 [OF start_saved [OF assms(1-3), of inputs]]]
  from crun_unblocked [OF assms(6) start_parallel(2,1) [OF assms(4)]]
  have par: "unblocked s" "pending_all a parallel s" by simp_all
  from crun_progress [OF st assms(6) deep] have "all_deep a api (page_reply a items) (list_depth a items inputs) s" ..
  from runs_end [OF st this assms(5) par] not_stuck [OF par(1) assms(5)] show ?thesis by metis
qed

theorem collection_live_witness:
  "\<exists>s. crun sample_args sample_api (take 9 sample_run) (start sample_args ([] :: (goerr + unit) list)) = Some s \<and>
    \<not> ended s \<and> (\<exists>cs' s'. Cancel \<notin> set cs' \<and> crun sample_args sample_api cs' s = Some s' \<and> ended s')"
proof -
  have "case crun sample_args sample_api (take 9 sample_run) (start sample_args ([] :: (goerr + unit) list)) of None \<Rightarrow> False
      | Some s \<Rightarrow> cs_main s = Joining \<and> \<not> cs_crashed s"
    by code_simp
  then obtain s where s: "crun sample_args sample_api (take 9 sample_run) (start sample_args ([] :: (goerr + unit) list)) = Some s"
    "cs_main s = Joining" "\<not> cs_crashed s" by (auto split: option.splits)
  have "\<not> ended s" using s(2,3) by (simp add: ended_def)
  moreover have "0 < ca_PageSize sample_args" "0 < concurrency_of sample_args" "\<not> ca_Sequential sample_args" "ca_cap sample_args \<noteq> Some 0"
    by (simp_all add: sample_args_def concurrency_of_def)
  from collection_live [OF sample_serves this s(1)] have "\<exists>cs' s'. Cancel \<notin> set cs' \<and> crun sample_args sample_api cs' s = Some s' \<and> ended s'"
    by (rule conjunct2)
  ultimately show ?thesis using s(1) by blast
qed

end
