(* ===== verification/CollectorFaults.thy ===== *)
theory CollectorFaults
  imports CollectorLive
begin

text \<open>
  Where the collector does not do what it means to: a sequential collection with a pool of one worker, the error of the
  last job, a request that cannot be built, and an invalid tick interval.
\<close>

section \<open>A sequential collection with one worker\<close>

text \<open>The threads of a sequential collection whose first page is full, up to the call of \<open>SubmitBlocking\<close> by the only worker.\<close>

definition first_page_states :: "('i, 'c) request \<Rightarrow> ('i, 'c) request \<Rightarrow> ('i, 'c) worker list \<Rightarrow> ('i, 'c) submission list list \<Rightarrow> bool" where
  "first_page_states rq rq' ws ts \<longleftrightarrow> ws = [] \<and> ts = [[Fetch rq Sequentially]] \<or> ts \<in> {[[]], []} \<and>
     ws \<in> {[Queued rq 0 Sequentially], [Ready rq 0 Sequentially], [Blocked (Fetch rq' Sequentially)],
       [Blocked (Enter rq' 0 Sequentially)]}"

definition second_request :: "ApiCollectorArgs \<Rightarrow> 'c \<Rightarrow> ('i, 'c) request" where
  "second_request a c = next_page a 1 ((first_request a None)\<lparr>rq_custom := Some c\<rparr>)"

definition full_first_page :: "ApiCollectorArgs \<Rightarrow> ('i, 'c, 'd) api \<Rightarrow> 'd list \<Rightarrow> 'c \<Rightarrow> bool" where
  "full_first_page a api items c \<longleftrightarrow> 0 < ca_PageSize a \<and> int (length items) = ca_PageSize a \<and>
     serve api (first_request a None) 0 = Reply 200 [] (Parsed items) \<and> insert_err api (first_request a None) = None \<and>
     next_custom api (first_request a None) = Inr c \<and> prepare api (first_request a None) = None \<and>
     prepare api (second_request a c) = None"

definition stuck_course :: "ApiCollectorArgs \<Rightarrow> 'd list \<Rightarrow> 'c \<Rightarrow> ('i, 'c, 'd) cstate \<Rightarrow> bool" where
  "stuck_course a items c s \<longleftrightarrow> cs_main s = Joining \<and> \<not> cs_crashed s \<and> cs_errors s = [] \<and> cs_panics s = [] \<and>
     first_page_states (first_request a None) (second_request a c) (cs_workers s) (cs_ticks s) \<and>
     cs_rows s = (if \<exists>sub. cs_workers s = [Blocked sub] then map (Pair (first_request a None)) items else []) \<and>
     (cs_cancelled s \<longrightarrow> (\<exists>sub. cs_workers s = [Blocked sub]))"

lemma first_page_handler:
  assumes "full_first_page a api items c"
  shows "responseHandler a api (first_request a None) Sequentially (Parsed items) =
    (map (Pair (first_request a None)) items, 1, Chain (second_request a c) Sequentially)"
  using assms by (auto simp: full_first_page_def responseHandler_def save_page_def after_page_def second_request_def)

lemma stuck_step:
  assumes "full_first_page a api items c" "ca_cap a = Some 1" "stuck_course a items c s" "cstep a api ch s = Some s'"
    "ch = Cancel \<Longrightarrow> \<exists>sub. cs_workers s = [Blocked sub]"
  shows "stuck_course a items c s'"
proof -
  note st = assms(3) [unfolded stuck_course_def]
  have full: "prepare api (first_request a None) = None" "prepare api (second_request a c) = None"
    "serve api (first_request a None) 0 = Reply 200 [] (Parsed items)"
    using assms(1) by (simp_all add: full_first_page_def)
  show ?thesis
  proof (cases ch)
    case Main
    then show ?thesis using assms(3,4) 
      by (auto simp: cstep_def main_step_def idle_def stuck_course_def first_page_states_def)
  next
    case (Worker i)
    with assms(4) st have i: "i = 0" and ws: "worker_step a api 0 s = Some s'" and ts: "cs_ticks s \<in> {[[]], []}"
      by (auto simp: cstep_def worker_step_def first_page_states_def split: if_splits)
    from st i Worker assms(4) consider (queued) "cs_workers s = [Queued (first_request a None) 0 Sequentially]"
      | (ready) "cs_workers s = [Ready (first_request a None) 0 Sequentially]"
      | (calling) "cs_workers s = [Blocked (Fetch (second_request a c) Sequentially)]"
      | (blocked) "cs_workers s = [Blocked (Enter (second_request a c) 0 Sequentially)]"
      by (auto simp: cstep_def worker_step_def first_page_states_def)
    then show ?thesis
    proof cases
      case queued
      with ws st have "s' = s\<lparr>cs_workers := [Ready (first_request a None) 0 Sequentially]\<rparr>"
        by (simp add: worker_step_def HasError_def)
      with st ts queued show ?thesis by (simp add: stuck_course_def first_page_states_def)
    next
      case ready
      with ws have "s' = s\<lparr>cs_rows := cs_rows s @ map (Pair (first_request a None)) items, cs_progress := cs_progress s + 1,
          cs_workers := [Blocked (Fetch (second_request a c) Sequentially)]\<rparr>"
        by (simp add: worker_step_def run_request_def full(3) attempt_error_def first_page_handler [OF assms(1)])
      with st ts ready show ?thesis by (auto simp: stuck_course_def first_page_states_def)
    next
      case calling
      with ws st full(2) assms(2) have "s' = s\<lparr>cs_workers := [Blocked (Enter (second_request a c) 0 Sequentially)]\<rparr>"
        by (simp add: worker_step_def HasError_def SubmitBlocking_def pool_full_def)
      with st ts calling show ?thesis by (simp add: stuck_course_def first_page_states_def)
    next
      case blocked
      with ws assms(2) show ?thesis by (simp add: worker_step_def pool_full_def)
    qed
  next
    case (Abort i)
    then show ?thesis using assms(3,4) by (auto simp: cstep_def abort_step_def stuck_course_def split: if_splits worker.splits)
  next
    case (Recover i)
    then show ?thesis using assms(3,4) by (auto simp: cstep_def recover_step_def stuck_course_def split: if_splits)
  next
    case (Tick i)
    then show ?thesis using assms(1-4)
      by (auto simp: cstep_def tick_step_def stuck_course_def first_page_states_def HasError_def del_nth_def
          full_first_page_def SubmitBlocking_def pool_full_def split: if_splits)
  next
    case Cancel
    then show ?thesis using assms(3-5) by (auto simp: cstep_def stuck_course_def split: if_splits)
  qed
qed

lemma stuck_run:
  assumes "full_first_page a api items c" "ca_cap a = Some 1"
  shows "stuck_course a items c s \<Longrightarrow> crun a api cs s = Some s' \<Longrightarrow>
    Cancel \<notin> set cs \<or> (\<exists>sub. cs_workers s = [Blocked sub]) \<Longrightarrow> stuck_course a items c s'"
proof (induction cs arbitrary: s)
  case (Cons ch cs)
  then obtain s1 where s1: "cstep a api ch s = Some s1" "crun a api cs s1 = Some s'" by (auto split: option.splits)
  have pr: "prepare api (second_request a c) = None" using assms(1) by (simp add: full_first_page_def)
  from Cons.prems(3) have "ch = Cancel \<Longrightarrow> \<exists>sub. cs_workers s = [Blocked sub]" by auto
  from stuck_step [OF assms Cons.prems(1) s1(1) this] have st: "stuck_course a items c s1" .
  have "\<exists>sub. cs_workers s1 = [Blocked sub]" if b: "cs_workers s = [Blocked sub]" for sub
    using s1(1) Cons.prems(1) b assms(2) pr
    by (cases ch; cases sub) (auto simp: stuck_course_def first_page_states_def cstep_def main_step_def idle_def worker_step_def
      abort_step_def recover_step_def tick_step_def HasError_def SubmitBlocking_def pool_full_def
      split: if_splits list.splits option.splits)
  with Cons.prems(3) have "Cancel \<notin> set cs \<or> (\<exists>sub. cs_workers s1 = [Blocked sub])" by auto
  from Cons.IH [OF st s1(2) this] show ?case .
qed simp

lemma stuck_start:
  assumes "full_first_page a api items c" "ca_Sequential a" "\<not> ca_HasInput a"
  shows "stuck_course a items c (start a inputs)"
  using assms by (simp add: stuck_course_def start_def start_exec_def exec_input_def full_first_page_def blank_def resume_def
      first_page_states_def)

lemma stuck_reaches:
  fixes s :: "('i, 'c, 'd) cstate"
  assumes "full_first_page a api items c" "ca_cap a = Some 1" "stuck_course a items c s"
  obtains cs s' sub where "Cancel \<notin> set cs" "crun a api cs s = Some s'" "cs_workers s' = [Blocked sub]"
proof -
  note st = assms(3) [unfolded stuck_course_def]
  have full: "prepare api (first_request a None) = None" "serve api (first_request a None) 0 = Reply 200 [] (Parsed items)"
    using assms(1) by (simp_all add: full_first_page_def)
  have ready: "\<exists>s' sub. worker_step a api 0 t = Some s' \<and> cs_workers s' = [Blocked sub]"
    if "cs_workers t = [Ready (first_request a None) 0 Sequentially]" for t :: "('i, 'c, 'd) cstate"
    using that by (simp add: worker_step_def run_request_def full(2) attempt_error_def first_page_handler [OF assms(1)])
  have queued: "\<exists>cs s' sub. Cancel \<notin> set cs \<and> crun a api cs t = Some s' \<and> cs_workers s' = [Blocked sub]"
    if t: "cs_workers t = [Queued (first_request a None) 0 Sequentially]" "cs_errors t = []" "\<not> cs_crashed t"
    for t :: "('i, 'c, 'd) cstate"
  proof -
    let ?t = "t\<lparr>cs_workers := [Ready (first_request a None) 0 Sequentially]\<rparr>"
    have "worker_step a api 0 t = Some ?t" using t by (simp add: worker_step_def HasError_def)
    with ready [of ?t] t(3) show ?thesis by (intro exI [of _ "[Worker 0, Worker 0]"]) (auto simp: cstep_def)
  qed
  from st consider "cs_workers s = []" "cs_ticks s = [[Fetch (first_request a None) Sequentially]]"
    | "cs_workers s = [Queued (first_request a None) 0 Sequentially]" | "cs_workers s = [Ready (first_request a None) 0 Sequentially]"
    | sub where "cs_workers s = [Blocked sub]" by (auto simp: first_page_states_def)
  then show thesis
  proof cases
    case 1
    let ?t = "s\<lparr>cs_workers := [Queued (first_request a None) 0 Sequentially], cs_ticks := [[]]\<rparr>"
    have "tick_step a api 0 s = Some ?t"
      using 1 st full(1) assms(2) by (simp add: tick_step_def SubmitBlocking_def HasError_def pool_full_def)
    then have "crun a api (Tick 0 # cs) s = crun a api cs ?t" for cs using st by (simp add: cstep_def)
    moreover obtain cs s' sub where "Cancel \<notin> set cs" "crun a api cs ?t = Some s'" "cs_workers s' = [Blocked sub]"
      using queued [of ?t] st by auto
    ultimately show thesis using that [of "Tick 0 # cs" s' sub] by simp
  next
    case 2
    with queued [of s] st that show thesis by blast
  next
    case 3
    from ready [OF this] st that [of "[Worker 0]"] show thesis by (auto simp: cstep_def)
  next
    case 4
    with that [of "[]"] show thesis by simp
  qed
qed

text \<open>C35. A sequential collection with one worker deadlocks at the first full page: the handler of the page calls
  \<open>SubmitBlocking\<close> for the next one from inside the only worker and waits for itself. In no run without a cancellation does
  \<open>Execute\<close> return or a second page get saved, and every such run can reach a state from which nothing ends it, not even a
  cancellation.\<close>

theorem sequential_deadlock:
  assumes "full_first_page a api items c" and "ca_cap a = Some 1" and "ca_Sequential a" and "\<not> ca_HasInput a"
    and "crun a api cs (start a inputs) = Some s" and "Cancel \<notin> set cs"
  shows "cs_main s = Joining \<and> set (map fst (cs_rows s)) \<subseteq> {first_request a None} \<and>
    (\<exists>cs' s'. crun a api cs' s = Some s' \<and> (\<forall>ds t. crun a api ds s' = Some t \<longrightarrow> cs_main t = Joining))"
proof -
  from stuck_run [OF assms(1,2) stuck_start [OF assms(1,3,4)] assms(5)] assms(6)
  have st: "stuck_course a items c s" by simp
  from stuck_reaches [OF assms(1,2) st] obtain cs' s' sub
    where s': "Cancel \<notin> set cs'" "crun a api cs' s = Some s'" "cs_workers s' = [Blocked sub]" .
  have st': "stuck_course a items c s'" using stuck_run [OF assms(1,2) st s'(2)] s'(1) by blast
  have "cs_main t = Joining" if "crun a api ds s' = Some t" for ds t
    using stuck_run [OF assms(1,2) st' that] s'(3) by (simp add: stuck_course_def)
  moreover have "cs_main s = Joining" "set (map fst (cs_rows s)) \<subseteq> {first_request a None}"
    using st by (auto simp: stuck_course_def)
  ultimately show ?thesis using s'(2) by blast
qed

definition one_worker_args :: ApiCollectorArgs where
  "one_worker_args = sample_args\<lparr>ca_Sequential := True\<rparr>"

theorem sequential_deadlock_witness:
  "\<exists>s. crun one_worker_args sample_api [Tick 0, Worker 0, Worker 0, Worker 0] (start one_worker_args ([] :: (goerr + unit) list)) = Some s \<and>
    (\<exists>cs' s'. crun one_worker_args sample_api cs' s = Some s' \<and>
      (\<forall>ds t. crun one_worker_args sample_api ds s' = Some t \<longrightarrow> cs_main t = Joining))"
proof -
  have full: "full_first_page one_worker_args sample_api [1, 2] ()" by code_simp
  have "crun one_worker_args sample_api [Tick 0, Worker 0, Worker 0, Worker 0] (start one_worker_args ([] :: (goerr + unit) list)) \<noteq> None"
    by code_simp
  then obtain s where s: "crun one_worker_args sample_api [Tick 0, Worker 0, Worker 0, Worker 0]
      (start one_worker_args ([] :: (goerr + unit) list)) = Some s" by blast
  have "ca_cap one_worker_args = Some 1" "ca_Sequential one_worker_args" "\<not> ca_HasInput one_worker_args"
    by (simp_all add: one_worker_args_def sample_args_def)
  from sequential_deadlock [OF full this s] s show ?thesis by simp
qed

section \<open>The error of the last job\<close>

text \<open>A request that fails at every attempt.\<close>

definition always_fails :: "('i, 'c, 'd) api \<Rightarrow> ('i, 'c) request \<Rightarrow> bool" where
  "always_fails api rq \<longleftrightarrow> prepare api rq = None \<and> (\<forall>n. transient (serve api rq n))"

definition between_jobs :: "('i, 'c) worker list \<Rightarrow> ('i, 'c, 'd) cstate \<Rightarrow> bool" where
  "between_jobs ws s \<longleftrightarrow> cs_main s = Joining \<and> cs_workers s = ws \<and> cs_ticks s = [] \<and> cs_errors s = [] \<and> cs_rows s = [] \<and>
     \<not> cs_crashed s"

lemma failing_attempts:
  fixes s :: "('i, 'c, 'd) cstate"
  assumes "always_fails api rq" "ca_cap a \<noteq> Some 0"
  shows "between_jobs [Queued rq k Single] s \<Longrightarrow> \<exists>cs s'. crun a api cs s = Some s' \<and> between_jobs [] s' \<and> cs_panics s' \<noteq> []"
proof (induction "ca_maxRetry a - k" arbitrary: k s rule: less_induct)
  case less
  obtain e where e: "attempt_error a api rq (serve api rq k) = Some e"
    using assms(1) attempt_error_transient [of a api rq "serve api rq k"] by (auto simp: always_fails_def)
  let ?s1 = "s\<lparr>cs_workers := [Ready rq k Single]\<rparr>"
  have one: "cstep a api (Worker 0) s = Some ?s1"
    using less.prems by (simp add: between_jobs_def cstep_def worker_step_def HasError_def)
  have two: "cstep a api (Worker 0) ?s1 = Some (run_request a api 0 rq k Single ?s1)"
    using less.prems by (simp add: between_jobs_def cstep_def worker_step_def)
  show ?case
  proof (cases "k < ca_maxRetry a \<and> fst e \<noteq> External Canceled")
    case True
    let ?s2 = "?s1\<lparr>cs_workers := [], cs_ticks := [[Resubmit rq (k + 1) Single]]\<rparr>"
    let ?s3 = "?s2\<lparr>cs_workers := [Queued rq (k + 1) Single], cs_ticks := [[]]\<rparr>"
    let ?s4 = "?s3\<lparr>cs_ticks := []\<rparr>"
    have "run_request a api 0 rq k Single ?s1 = ?s2"
      using less.prems e True by (simp add: between_jobs_def run_request_def Let_def del_nth_def)
    moreover have "cstep a api (Tick 0) ?s2 = Some ?s3"
      using less.prems assms(2) by (simp add: between_jobs_def cstep_def tick_step_def SubmitBlocking_def HasError_def pool_full_def
          split: option.split)
    moreover have "cstep a api (Tick 0) ?s3 = Some ?s4"
      using less.prems by (simp add: between_jobs_def cstep_def tick_step_def del_nth_def)
    ultimately have run: "crun a api (Worker 0 # Worker 0 # Tick 0 # Tick 0 # cs) s = crun a api cs ?s4" for cs
      using one two by simp
    have "between_jobs [Queued rq (k + 1) Single] ?s4" using less.prems by (simp add: between_jobs_def)
    then obtain cs s' where "crun a api cs ?s4 = Some s'" "between_jobs [] s'" "cs_panics s' \<noteq> []"
      using less.hyps [of "k + 1" ?s4] True by fastforce
    then show ?thesis using run by metis
  next
    case False
    let ?s2 = "?s1\<lparr>cs_workers := [], cs_panics := cs_panics s @ [exhausted api rq k e]\<rparr>"
    have "run_request a api 0 rq k Single ?s1 = ?s2"
      using less.prems e False by (simp add: between_jobs_def run_request_def Let_def del_nth_def)
    then have "crun a api [Worker 0, Worker 0] s = Some ?s2" using one two by simp
    moreover have "between_jobs [] ?s2" using less.prems by (simp add: between_jobs_def)
    ultimately show ?thesis by fastforce
  qed
qed

text \<open>C36. The error of a failing job can be lost: the wait group learns that a job is done before the pool's panic handler records
  its error, so \<open>WaitAsync\<close> can return nil between the two. A collection of one request that fails at every attempt has a run
  in which \<open>Execute\<close> returns nil although nothing was saved, and the error is recorded too late.\<close>

theorem lost_error:
  assumes "always_fails api (first_request a None)" and "ca_PageSize a \<le> 0" and "\<not> ca_HasInput a" and "ca_cap a \<noteq> Some 0"
  shows "\<exists>cs s. crun a api cs (start a []) = Some s \<and> cs_main s = Returned None \<and> cs_rows s = [] \<and> failures s \<noteq> {#}"
proof -
  let ?rq = "first_request a None :: ('a, 'b) request"
  let ?s1 = "(blank None :: ('a, 'b, 'c) cstate)\<lparr>cs_workers := [Queued ?rq 0 Single]\<rparr>"
  have start: "crun a api (Main # cs) (start a []) = crun a api cs ?s1" for cs
    using assms by (simp add: start_def start_exec_def exec_input_def cstep_def main_step_def blank_def resume_def always_fails_def
        SubmitBlocking_def HasError_def pool_full_def split: option.split)
  have "between_jobs [Queued ?rq 0 Single] ?s1" by (simp add: between_jobs_def blank_def resume_def)
  from failing_attempts [OF assms(1,4) this] obtain cs s where s: "crun a api cs ?s1 = Some s" "between_jobs [] s" "cs_panics s \<noteq> []"
    by blast
  let ?t = "s\<lparr>cs_main := Returned None\<rparr>"
  have "cstep a api Main s = Some ?t"
    using s(2) by (simp add: between_jobs_def cstep_def main_step_def idle_def)
  then have "crun a api ((Main # cs) @ [Main]) (start a []) = Some ?t"
    unfolding crun_append by (simp add: start s(1) del: crun.simps(2)) simp
  moreover have "cs_rows ?t = []" "failures ?t \<noteq> {#}" using s by (simp_all add: between_jobs_def failures_def)
  ultimately show ?thesis by fastforce
qed

definition broken_api :: "(unit, unit, nat) api" where
  "broken_api = sample_api\<lparr>serve := \<lambda>rq n. Reply 500 [] (Parsed [])\<rparr>"

theorem lost_error_witness:
  "\<exists>cs s. crun (sample_args\<lparr>ca_PageSize := 0\<rparr>) broken_api cs (start (sample_args\<lparr>ca_PageSize := 0\<rparr>) []) = Some s \<and>
    cs_main s = Returned None \<and> cs_rows s = [] \<and> failures s \<noteq> {#}"
  by (rule lost_error) (simp_all add: always_fails_def broken_api_def sample_api_def sample_args_def)

section \<open>A request that cannot be built\<close>

definition unbuilt :: "('i, 'c) request \<Rightarrow> ('i, 'c, 'd) cstate \<Rightarrow> bool" where
  "unbuilt rq s \<longleftrightarrow> cs_main s = Joining \<and> cs_workers s = [] \<and> cs_ticks s = [[Fetch rq Sequentially]] \<and> cs_panics s = []"

lemma unbuilt_step:
  assumes "prepare api rq = Some e" "unbuilt rq s" "cstep a api c s = Some s'"
  shows "unbuilt rq s'"
  using assms by (cases c) (auto simp: unbuilt_def cstep_def main_step_def idle_def worker_step_def abort_step_def recover_step_def
    tick_step_def split: if_splits)

lemma unbuilt_run: "prepare api rq = Some e \<Longrightarrow> unbuilt rq s \<Longrightarrow> crun a api cs s = Some s' \<Longrightarrow> unbuilt rq s'"
  by (induction cs arbitrary: s) (auto split: option.splits dest: unbuilt_step)

text \<open>A request that cannot be built takes the server down: where the first page is fetched by a goroutine of \<open>NextTick\<close>, the
  panic of \<open>fetchAsync\<close> on a query or header that fails is not recovered. No run of such a collection returns, and from every
  state that is not the crash the next step of the goroutine is the crash.\<close>

theorem unbuilt_request_crashes:
  assumes "prepare api (first_request a None) = Some e" and "0 < ca_PageSize a" and "ca_Sequential a" and "\<not> ca_HasInput a"
    and "crun a api cs (start a inputs) = Some s"
  shows "cs_main s = Joining \<and> (cs_crashed s \<or> (\<exists>s'. cstep a api (Tick 0) s = Some s' \<and> cs_crashed s'))"
proof -
  have "unbuilt (first_request a None) (start a inputs)"
    using assms(2-4) by (simp add: unbuilt_def start_def start_exec_def exec_input_def blank_def resume_def)
  from unbuilt_run [OF assms(1) this assms(5)] have "unbuilt (first_request a None) s" .
  with assms(1) show ?thesis by (simp add: unbuilt_def cstep_def tick_step_def)
qed

theorem unbuilt_request_crashes_witness:
  "\<exists>s. crun one_worker_args (sample_api\<lparr>prepare := \<lambda>_. Some (External ''query'')\<rparr>) [Tick 0]
      (start one_worker_args ([] :: (goerr + unit) list)) = Some s \<and>
    cs_main s = Joining"
proof -
  let ?api = "sample_api\<lparr>prepare := \<lambda>_. Some (External ''query'')\<rparr>"
  have "crun one_worker_args ?api [Tick 0] (start one_worker_args ([] :: (goerr + unit) list)) \<noteq> None" by code_simp
  then obtain s where s: "crun one_worker_args ?api [Tick 0] (start one_worker_args ([] :: (goerr + unit) list)) = Some s" by blast
  have "prepare ?api (first_request one_worker_args None) = Some (External ''query'')" "0 < ca_PageSize one_worker_args"
    "ca_Sequential one_worker_args" "\<not> ca_HasInput one_worker_args"
    by (simp_all add: one_worker_args_def sample_args_def)
  from unbuilt_request_crashes [OF this s] s show ?thesis by blast
qed

section \<open>The tick interval\<close>

text \<open>An invalid \<open>MinTickInterval\<close> is not reported: \<open>Execute\<close> wraps the nil error of the step before, so it returns nil
  without collecting anything, after it has deleted what an earlier collection with these parameters saved, and only that.\<close>

theorem bad_interval_returns_nil:
  assumes "m \<le> 0"
  shows "fst (Execute_begin None None False (Some m) tick params raw) = Inl None \<and>
    filter (\<lambda>r. fst r = params) (snd (Execute_begin None None False (Some m) tick params raw)) = [] \<and>
    filter (\<lambda>r. fst r \<noteq> params) (snd (Execute_begin None None False (Some m) tick params raw)) = filter (\<lambda>r. fst r \<noteq> params) raw"
  using assms by (simp add: Execute_begin_def Wrap_def Let_def filter_empty_conv)

theorem bad_interval_returns_nil_witness:
  "fst (Execute_begin None None False (Some 0) 200 ''p'' [(''p'', 1), (''q'', 2 :: nat)]) = Inl None \<and>
    snd (Execute_begin None None False (Some 0) 200 ''p'' [(''p'', 1), (''q'', 2 :: nat)]) = [(''q'', 2)]"
  using bad_interval_returns_nil [of 0 200 "''p''" "[(''p'', 1), (''q'', 2 :: nat)]"]
  by (simp add: Execute_begin_def Wrap_def)

end
