(* ===== verification/RateLimit.thy ===== *)
theory RateLimit
  imports LakeErrors "HOL-Library.Signed_Division"
begin

text \<open>
  The size and the pace of an asynchronous client (\<open>api_ratelimit_calc.go\<close>, \<open>CalcTickInterval\<close> of
  \<open>worker_scheduler.go\<close>, \<open>CreateAsyncApiClient\<close> of \<open>api_async_client.go\<close>) and the rate limits that two plugins read from
  a response (\<open>plugins/github\<close>, \<open>plugins/gitlab\<close>).

  Durations are nanoseconds. Go divides integers towards zero, \<open>sdiv\<close>. The scaling of a limit by 0.95 is done in
  32-bit floating point, so the model rounds to 24 significant bits, to even on a tie.
\<close>

section \<open>Numbers\<close>

definition second :: int where
  "second = 1000000000"

definition hour :: int where
  "hour = 3600 * second"

fun bit_length :: "nat \<Rightarrow> nat" where
  "bit_length n = (if n = 0 then 0 else Suc (bit_length (n div 2)))"

declare bit_length.simps [simp del]

definition round24 :: "nat \<Rightarrow> nat" where
  "round24 n =
     (let k = bit_length n - 24; q = n div 2 ^ k; r = n mod 2 ^ k in
      if 2 * r < 2 ^ k \<or> 2 * r = 2 ^ k \<and> even q then q * 2 ^ k else (q + 1) * 2 ^ k)"

text \<open>\<open>int(float32(requests) * 0.95)\<close>: the constant is 15938355 / 2^24 in 32 bits.\<close>

definition scale95 :: "int \<Rightarrow> int" where
  "scale95 r = sgn r * int (round24 (round24 (nat \<bar>r\<bar>) * 15938355) div 2 ^ 24)"

text \<open>\<open>strconv.Atoi\<close>: an optional sign and decimal digits, in the range of 64 bits.\<close>

definition Atoi :: "string \<Rightarrow> goerr + int" where
  "Atoi s =
     (let negative = (s \<noteq> [] \<and> hd s = CHR ''-''); digits = (if s \<noteq> [] \<and> (hd s = CHR ''-'' \<or> hd s = CHR ''+'') then tl s else s);
          n = foldl (\<lambda>n c. 10 * n + (int (of_char c) - 48)) 0 digits; v = (if negative then - n else n) in
      if digits = [] \<or> \<not> list_all is_digit digits then Inl (External (''strconv.Atoi: parsing '' @ s @ '': invalid syntax''))
      else if v < - (2 ^ 63) \<or> 2 ^ 63 \<le> v then Inl (External (''strconv.Atoi: parsing '' @ s @ '': value out of range''))
      else Inr v)"

definition StrToIntOr :: "string \<Rightarrow> int \<Rightarrow> goerr + int" where
  "StrToIntOr text defaultValue =
     (if text = [] then Inr defaultValue
      else (case Atoi text of Inl e \<Rightarrow> Inl (newSingleCrdbError Default (Some e) (case e of External s \<Rightarrow> s | _ \<Rightarrow> []) None)
        | Inr v \<Rightarrow> Inr v))"

section \<open>The rate limit\<close>

definition CalcTickInterval :: "int \<Rightarrow> int \<Rightarrow> goerr + int" where
  "CalcTickInterval numOfWorks duration =
     (if numOfWorks \<le> 0 then Inl (New Default ''numOfWorks must be greater than 0'')
      else if duration \<le> 0 then Inl (New Default ''duration must be greater than 0'')
      else Inr (duration sdiv numOfWorks))"

record 'r ApiRateLimitCalculator =
  UserRateLimitPerHour :: int
  GlobalRateLimitPerHour :: int
  lim_MaxRetry :: int
  DynamicRateLimit :: "('r \<Rightarrow> int \<times> int \<times> goerr option) option"

text \<open>The attempts at asking the API, \<open>do i\<close> the outcome of the \<open>i\<close>th. \<open>None\<close> where every attempt failed.\<close>

fun ask_limit :: "(nat \<Rightarrow> goerr + 'r) \<Rightarrow> ('r \<Rightarrow> int \<times> int \<times> goerr option) \<Rightarrow> int \<Rightarrow> nat \<Rightarrow> nat \<Rightarrow> (int \<times> int \<times> goerr option) option" where
  "ask_limit do dyn glob i 0 = None"
| "ask_limit do dyn glob i (Suc n) =
     (case do i of Inl e \<Rightarrow> ask_limit do dyn glob (Suc i) n
      | Inr res \<Rightarrow>
          (case dyn res of (requests, duration, err) \<Rightarrow>
             if err \<noteq> None then Some (requests, duration, err)
             else if duration = 0 then Some (glob, hour, None)
             else Some (scale95 requests, duration, None)))"

definition Calculate :: "'r ApiRateLimitCalculator \<Rightarrow> (nat \<Rightarrow> goerr + 'r) \<Rightarrow> int \<times> int \<times> goerr option" where
  "Calculate c do =
     (if 0 < UserRateLimitPerHour c then (UserRateLimitPerHour c, hour, None)
      else (case DynamicRateLimit c of None \<Rightarrow> (GlobalRateLimitPerHour c, hour, None)
        | Some dyn \<Rightarrow>
            (case ask_limit do dyn (GlobalRateLimitPerHour c) 0 (nat (lim_MaxRetry c)) of
               None \<Rightarrow> (GlobalRateLimitPerHour c, hour, None)
             | Some res \<Rightarrow> res)))"

section \<open>The client\<close>

record ApiAsyncClient =
  cl_timeout :: int
  cl_maxRetry :: int
  cl_numOfWorkers :: int
  cl_tickInterval :: int

datatype created = Client ApiAsyncClient | NotCreated goerr | Panic string

definition RESPONSE_TIME :: int where
  "RESPONSE_TIME = 5 * second"

definition defaultTimeout :: int where
  "defaultTimeout = 120 * second"

text \<open>\<open>timeout\<close> is that of the client before; \<open>parse_duration\<close> is \<open>time.ParseDuration\<close>. \<open>time.NewTicker\<close> panics on
  an interval that is not positive.\<close>

definition create_timeout :: "(string \<Rightarrow> goerr + int) \<Rightarrow> string \<Rightarrow> int \<Rightarrow> goerr + int" where
  "create_timeout parse_duration conf timeout =
     (if conf \<noteq> [] then parse_duration conf else if timeout = 0 then Inr defaultTimeout else Inr timeout)"

definition start_scheduler :: "int \<Rightarrow> int \<Rightarrow> int \<Rightarrow> int \<Rightarrow> created" where
  "start_scheduler timeout retry requests duration =
     (let d = duration sdiv RESPONSE_TIME in
      if d = 0 then Panic ''integer divide by zero''
      else (case CalcTickInterval requests duration of
          Inl e \<Rightarrow> NotCreated e
        | Inr tickInterval \<Rightarrow>
            if tickInterval \<le> 0 then Panic ''non-positive interval for NewTicker''
            else Client \<lparr>cl_timeout = timeout, cl_maxRetry = retry, cl_numOfWorkers = requests sdiv d, cl_tickInterval = tickInterval\<rparr>))"

definition CreateAsyncApiClient :: "(string \<Rightarrow> goerr + int) \<Rightarrow> (string \<Rightarrow> string) \<Rightarrow> int \<Rightarrow> 'r ApiRateLimitCalculator option
    \<Rightarrow> (nat \<Rightarrow> goerr + 'r) \<Rightarrow> created" where
  "CreateAsyncApiClient parse_duration config timeout rateLimiter do =
     (case StrToIntOr (config ''API_RETRY'') 3 of
        Inl e \<Rightarrow> NotCreated (newSingleCrdbError BadInput (Some e) ''failed to parse API_RETRY'' None)
      | Inr retry \<Rightarrow>
          (case create_timeout parse_duration (config ''API_TIMEOUT'') timeout of
             Inl e \<Rightarrow> NotCreated (newSingleCrdbError BadInput (Some e) ''failed to parse API_TIMEOUT'' None)
           | Inr timeout' \<Rightarrow>
               (case StrToIntOr (config ''API_REQUESTS_PER_HOUR'') 18000 of
                  Inl e \<Rightarrow> NotCreated (newSingleCrdbError Default (Some e) ''failed to parse API_REQUESTS_PER_HOUR'' None)
                | Inr globalRateLimitPerHour \<Rightarrow>
                    let lim = (case rateLimiter of None \<Rightarrow> \<lparr>UserRateLimitPerHour = 0, GlobalRateLimitPerHour = globalRateLimitPerHour,
                            lim_MaxRetry = retry, DynamicRateLimit = None\<rparr>
                          | Some l \<Rightarrow> l\<lparr>GlobalRateLimitPerHour := globalRateLimitPerHour, lim_MaxRetry := retry\<rparr>) in
                    (case Calculate lim do of (requests, duration, err) \<Rightarrow>
                       (case err of
                          Some e \<Rightarrow> NotCreated (newSingleCrdbError Default (Some e) ''failed to calculate rateLimit for api'' None)
                        | None \<Rightarrow> start_scheduler timeout' retry requests duration)))))"

text \<open>The pool that \<open>ants\<close> makes of the number of workers: unlimited when it is not positive.\<close>

definition pool_capacity :: "int \<Rightarrow> nat option" where
  "pool_capacity n = (if n \<le> 0 then None else Some (nat n))"

section \<open>The limits of two plugins\<close>

text \<open>\<open>plugins/github\<close>: \<open>header\<close> is \<open>X-RateLimit-Limit\<close>. A header that is no number is wrapped with the error variable of the enclosing
  function, which is nil.\<close>

definition GithubRateLimit :: "nat \<Rightarrow> string \<Rightarrow> int \<times> int \<times> goerr option" where
  "GithubRateLimit tokens header =
     (if header = [] then (0, 0, None)
      else (case Atoi header of
          Inl e \<Rightarrow> (0, 0, Wrap Default None ''failed to parse X-RateLimit-Limit header'' None)
        | Inr rateLimit \<Rightarrow> (rateLimit * int tokens, hour, None)))"

text \<open>\<open>plugins/gitlab\<close>: \<open>RateLimit-Limit\<close>, a limit per minute.\<close>

definition GitlabRateLimit :: "string \<Rightarrow> int \<times> int \<times> goerr option" where
  "GitlabRateLimit header =
     (if header = [] then (0, 0, None)
      else (case Atoi header of
          Inl e \<Rightarrow> (0, 0, Wrap Default (Some e) ''failed to parse RateLimit-Limit header'' None)
        | Inr rateLimit \<Rightarrow> (rateLimit, 60 * second, None)))"

end
