(* ===== verification/RateFacts.thy ===== *)
theory RateFacts
  imports RateLimit
begin

text \<open>
  The rate limit of an asynchronous client: the rounding of the scaled limit, the client of a limit a user sets, the
  fallback to the global limit, and the limits that make no client.
\<close>

section \<open>Rounding\<close>

lemma bit_length_bounds: "0 < n \<Longrightarrow> n < 2 ^ bit_length n \<and> 2 ^ bit_length n \<le> 2 * n"
proof (induction n rule: bit_length.induct)
  case (1 n)
  show ?case
  proof (cases "n = 1")
    case True
    then show ?thesis by (simp add: bit_length.simps)
  next
    case False
    with 1 have "n div 2 < 2 ^ bit_length (n div 2) \<and> 2 ^ bit_length (n div 2) \<le> 2 * (n div 2)" by auto
    moreover have "bit_length n = Suc (bit_length (n div 2))" using 1(2) by (subst bit_length.simps) simp
    ultimately show ?thesis by auto
  qed
qed

lemma round24_small: "n < 2 ^ 24 \<Longrightarrow> round24 n = n"
proof -
  assume "n < 2 ^ 24"
  have "bit_length n - 24 = 0"
  proof (rule ccontr)
    assume "bit_length n - 24 \<noteq> 0"
    then have b: "25 \<le> bit_length n" and "0 < n" by (auto simp: bit_length.simps [of 0] intro: gr0I)
    from bit_length_bounds [OF this(2)] have "2 ^ bit_length n \<le> 2 * n" ..
    moreover have "(2 :: nat) ^ 25 \<le> 2 ^ bit_length n" using b by (intro power_increasing) simp_all
    ultimately show False using \<open>n < 2 ^ 24\<close> by simp
  qed
  then show ?thesis by (simp add: round24_def)
qed

text \<open>The rounding is off by at most one part in 2^24.\<close>

lemma round24_close: "2 ^ 24 * \<bar>int (round24 n) - int n\<bar> \<le> int n"
proof (cases "bit_length n - 24 = 0")
  case True
  then show ?thesis by (simp add: round24_def)
next
  case False
  define k where "k = bit_length n - 24"
  define q where "q = n div 2 ^ k"
  define r where "r = n mod 2 ^ k"
  from False have "0 < n" by (auto simp: bit_length.simps [of 0] intro: gr0I)
  from bit_length_bounds [OF this] have "2 ^ bit_length n \<le> 2 * n" ..
  moreover have "bit_length n = k + 24" using False by (simp add: k_def)
  ultimately have big: "2 ^ 23 * 2 ^ k \<le> n" by (simp add: power_add)
  have n: "n = q * 2 ^ k + r" unfolding q_def r_def by (rule div_mult_mod_eq [symmetric])
  have r: "r < 2 ^ k" by (simp add: r_def)
  have rnd: "round24 n = (if 2 * r < 2 ^ k \<or> 2 * r = 2 ^ k \<and> even q then q * 2 ^ k else (q + 1) * 2 ^ k)"
    by (simp only: round24_def Let_def k_def q_def r_def)
  have "2 * \<bar>int (round24 n) - int n\<bar> \<le> 2 ^ k"
  proof (cases "2 * r < 2 ^ k \<or> 2 * r = 2 ^ k \<and> even q")
    case True
    then have "int (round24 n) - int n = - int r" unfolding rnd by (simp add: n)
    moreover have "int (2 * r) \<le> int (2 ^ k)" unfolding of_nat_le_iff using True by auto
    ultimately show ?thesis by simp
  next
    case False
    then have "int (round24 n) - int n = 2 ^ k - int r" unfolding rnd by (simp add: n algebra_simps)
    moreover have "2 ^ k \<le> 2 * int r" using False
      by (metis linorder_le_less_linear of_nat_le_iff of_nat_mult of_nat_numeral of_nat_power)
    moreover have "int r < 2 ^ k" using r by (metis of_nat_less_iff of_nat_numeral of_nat_power)
    ultimately show ?thesis by simp
  qed
  then have "2 ^ 23 * (2 * \<bar>int (round24 n) - int n\<bar>) \<le> 2 ^ 23 * 2 ^ k" by (rule mult_left_mono) simp
  also have "\<dots> = int (2 ^ 23 * 2 ^ k)" by simp
  also have "\<dots> \<le> int n" unfolding of_nat_le_iff by (rule big)
  finally show ?thesis by simp
qed

text \<open>The limit an API reports is scaled to 95%: for up to a million requests, 32-bit floating point loses at most one
  request and never gives one too many.\<close>

theorem scale95_bounds:
  assumes "0 \<le> r" and "r \<le> 1000000"
  shows "95 * r - 105 \<le> 100 * scale95 r \<and> 100 * scale95 r \<le> 95 * r"
proof -
  define n where "n = nat r"
  have r: "r = int n" and n: "n \<le> 1000000" using assms by (simp_all add: n_def)
  define m where "m = round24 (n * 15938355)"
  have "round24 n = n" using n by (intro round24_small) simp
  then have "scale95 r = sgn (int n) * int (m div 2 ^ 24)" by (simp add: scale95_def r m_def)
  moreover have "m = 0" if "n = 0" unfolding m_def that by (simp add: round24_small)
  ultimately have sc: "scale95 r = int (m div 2 ^ 24)" by (cases "n = 0") simp_all
  define s where "s = int m div 2 ^ 24"
  define x where "x = \<bar>int m - int n * 15938355\<bar>"
  have "16777216 * x \<le> int n * 15938355" using round24_close [of "n * 15938355"] by (simp add: m_def x_def)
  moreover have "int m - int n * 15938355 \<le> x" "- (int m - int n * 15938355) \<le> x"
    unfolding x_def by (rule abs_ge_self) (rule abs_ge_minus_self)
  ultimately have upper: "16777216 * int m \<le> 267401240458035 * int n" and lower: "267401208581325 * int n \<le> 16777216 * int m"
    by linarith+
  have "16777216 * s + int m mod 16777216 = int m" unfolding s_def by simp
  moreover have "0 \<le> int m mod 16777216" "int m mod 16777216 < 16777216" by simp_all
  ultimately have s: "16777216 * s \<le> int m" "int m < 16777216 * s + 16777216" by linarith+
  have nn: "int n \<le> 1000000" "0 \<le> int n" using n by simp_all
  have "20 * s - 19 * int n < 1" using upper s(1) nn by linarith
  moreover have "19 * int n - 20 * s < 22" using lower s(2) nn by linarith
  moreover have "scale95 r = s" unfolding sc s_def by (simp add: zdiv_int)
  ultimately show ?thesis unfolding r by linarith
qed

theorem scale95_bounds_witness:
  "95 * 5000 - 105 \<le> 100 * scale95 5000 \<and> 100 * scale95 5000 \<le> 95 * 5000"
  by (rule scale95_bounds) simp_all

section \<open>Clients\<close>

lemma sdiv_pos: "0 \<le> a \<Longrightarrow> 0 < b \<Longrightarrow> (a :: int) sdiv b = a div b"
  by (cases "a = 0") (simp_all add: signed_divide_int_def)

text \<open>The pace of a client keeps to its limit: an interval is made for a positive number of requests in a positive time only, and it
  is the longest whole number of nanoseconds at which that many requests still fit into the time.\<close>

theorem tick_interval_longest:
  "(case CalcTickInterval n d of Inl e \<Rightarrow> n \<le> 0 \<or> d \<le> 0 | Inr t \<Rightarrow> 0 < n \<and> 0 < d \<and> n * t \<le> d \<and> d < n * (t + 1))"
proof (cases "n \<le> 0 \<or> d \<le> 0")
  case False
  then have "CalcTickInterval n d = Inr (d div n)" by (simp add: CalcTickInterval_def sdiv_pos)
  moreover have "n * (d div n) + d mod n = d" by simp
  moreover have "0 \<le> d mod n" "d mod n < n" using False by simp_all
  ultimately have "n * (d div n) \<le> d" "d < n * (d div n) + n" by linarith+
  then show ?thesis using False \<open>CalcTickInterval n d = Inr (d div n)\<close> by (simp add: algebra_simps)
qed (auto simp: CalcTickInterval_def)

text \<open>The configuration parses.\<close>

definition good_config :: "(string \<Rightarrow> goerr + int) \<Rightarrow> (string \<Rightarrow> string) \<Rightarrow> int \<Rightarrow> int \<Rightarrow> bool" where
  "good_config parse_duration config retry glob \<longleftrightarrow> StrToIntOr (config ''API_RETRY'') 3 = Inr retry \<and>
     StrToIntOr (config ''API_REQUESTS_PER_HOUR'') 18000 = Inr glob \<and>
     (config ''API_TIMEOUT'' = [] \<or> (\<exists>t. parse_duration (config ''API_TIMEOUT'') = Inr t))"

lemma create_good:
  assumes "good_config parse_duration config retry glob"
    and "Calculate (l\<lparr>GlobalRateLimitPerHour := glob, lim_MaxRetry := retry\<rparr>) do = (requests, duration, None)"
  obtains t where "CreateAsyncApiClient parse_duration config timeout (Some l) do = start_scheduler t retry requests duration"
proof -
  have "\<exists>t. create_timeout parse_duration (config ''API_TIMEOUT'') timeout = Inr t"
    using assms(1) by (auto simp: create_timeout_def good_config_def)
  then obtain t where "create_timeout parse_duration (config ''API_TIMEOUT'') timeout = Inr t" ..
  with assms that show thesis by (simp add: CreateAsyncApiClient_def good_config_def)
qed

text \<open>The client of a limit that a user sets: whatever the API says, a positive limit of \<open>u\<close> requests per hour gives \<open>u / 720\<close>
  workers, a pool without bound below 720 requests, and the single worker with which a sequential collection deadlocks exactly for
  720 to 1439 requests.\<close>

theorem user_limit_client:
  assumes "good_config parse_duration config retry glob" and "UserRateLimitPerHour l = u" and "0 < u" and "u \<le> hour"
  shows "\<exists>c. CreateAsyncApiClient parse_duration config timeout (Some l) do = Client c \<and> cl_maxRetry c = retry \<and>
    cl_numOfWorkers c = u div 720 \<and> cl_tickInterval c = hour div u \<and>
    (pool_capacity (cl_numOfWorkers c) = None \<longleftrightarrow> u < 720) \<and>
    (pool_capacity (cl_numOfWorkers c) = Some 1 \<longleftrightarrow> 720 \<le> u \<and> u < 1440)"
proof -
  have "Calculate (l\<lparr>GlobalRateLimitPerHour := glob, lim_MaxRetry := retry\<rparr>) do = (u, hour, None)"
    using assms(2,3) by (simp add: Calculate_def)
  from create_good [OF assms(1) this] obtain t
    where t: "CreateAsyncApiClient parse_duration config timeout (Some l) do = start_scheduler t retry u hour" .
  have d: "hour sdiv RESPONSE_TIME = 720" by (simp add: sdiv_pos hour_def RESPONSE_TIME_def second_def)
  have "0 < hour" by (simp add: hour_def second_def)
  then have i: "CalcTickInterval u hour = Inr (hour div u)" "0 < hour div u"
    using assms(3,4) by (simp_all add: CalcTickInterval_def sdiv_pos pos_imp_zdiv_pos_iff)
  have made: "start_scheduler t retry u hour = Client \<lparr>cl_timeout = t, cl_maxRetry = retry, cl_numOfWorkers = u div 720, cl_tickInterval = hour div u\<rparr>"
    using i assms(3) by (simp add: start_scheduler_def d sdiv_pos)
  have "720 * (u div 720) + u mod 720 = u" "0 \<le> u mod 720" "u mod 720 < 720" by simp_all
  then have none: "u div 720 \<le> 0 \<longleftrightarrow> u < 720" and one: "u div 720 = 1 \<longleftrightarrow> 720 \<le> u \<and> u < 1440" by linarith+
  have cap: "pool_capacity w = None \<longleftrightarrow> w \<le> 0" "pool_capacity w = Some 1 \<longleftrightarrow> w = 1" for w
    by (auto simp: pool_capacity_def nat_eq_iff)
  show ?thesis unfolding t made
    by (intro exI conjI, rule refl) (simp_all only: ApiAsyncClient.simps cap none one)
qed

definition no_config :: "string \<Rightarrow> string" where
  "no_config key = []"

definition unlimited :: "unit ApiRateLimitCalculator" where
  "unlimited = \<lparr>UserRateLimitPerHour = 0, GlobalRateLimitPerHour = 0, lim_MaxRetry = 0, DynamicRateLimit = None\<rparr>"

lemma good_no_config: "good_config (\<lambda>s. Inl (External s)) no_config 3 18000"
  by (simp add: good_config_def no_config_def StrToIntOr_def)

theorem user_limit_client_witness:
  "\<exists>c. CreateAsyncApiClient (\<lambda>s. Inl (External s)) no_config 0 (Some (unlimited\<lparr>UserRateLimitPerHour := 1000\<rparr>)) (\<lambda>_. Inr ()) = Client c \<and>
    pool_capacity (cl_numOfWorkers c) = Some 1"
  using user_limit_client [OF good_no_config, of "unlimited\<lparr>UserRateLimitPerHour := 1000\<rparr>" 1000 0 "\<lambda>_. Inr ()"]
  by (auto simp: hour_def second_def)

section \<open>Limits that an API reports\<close>

definition first_answer :: "(nat \<Rightarrow> goerr + 'r) \<Rightarrow> nat \<Rightarrow> nat \<Rightarrow> 'r \<Rightarrow> bool" where
  "first_answer do i k res \<longleftrightarrow> i \<le> k \<and> do k = Inr res \<and> (\<forall>j. i \<le> j \<longrightarrow> j < k \<longrightarrow> (\<exists>e. do j = Inl e))"

lemma ask_limit_answer:
  "first_answer do i k res \<Longrightarrow> k < i + n \<Longrightarrow> ask_limit do dyn glob i n =
    (case dyn res of (requests, duration, err) \<Rightarrow>
       if err \<noteq> None then Some (requests, duration, err)
       else if duration = 0 then Some (glob, hour, None) else Some (scale95 requests, duration, None))"
proof (induction n arbitrary: i)
  case (Suc n)
  show ?case
  proof (cases "do i")
    case (Inl e)
    with Suc.prems have "first_answer do (Suc i) k res" by (auto simp: first_answer_def Suc_le_eq le_less)
    with Suc Inl show ?thesis by simp
  next
    case (Inr r)
    with Suc.prems have "k = i" by (auto simp: first_answer_def le_less)
    with Suc.prems Inr show ?thesis by (simp add: first_answer_def)
  qed
qed (simp add: first_answer_def)

lemma ask_limit_silent: "(\<forall>j. i \<le> j \<longrightarrow> j < i + n \<longrightarrow> (\<exists>e. do j = Inl e)) \<Longrightarrow> ask_limit do dyn glob i n = None"
proof (induction n arbitrary: i)
  case (Suc n)
  then obtain e where "do i = Inl e" by force
  with Suc show ?case by simp
qed simp

text \<open>A reported window of less than five seconds takes the process down: when the API's first answer, after any number of failed
  attempts within the retries, gives a limit whose duration is not zero but shorter than the 5 seconds of a response, in the past or the
  future, \<open>CreateAsyncApiClient\<close> divides by zero.\<close>

theorem short_window_panics:
  assumes "good_config parse_duration config retry glob" and "UserRateLimitPerHour l \<le> 0" and "DynamicRateLimit l = Some dyn"
    and "first_answer do 0 k res" and "int k < retry"
    and "dyn res = (requests, d, None)" and "d \<noteq> 0" and "\<bar>d\<bar> < RESPONSE_TIME"
  shows "CreateAsyncApiClient parse_duration config timeout (Some l) do = Panic ''integer divide by zero''"
proof -
  have "k < 0 + nat retry" using assms(5) by simp
  from ask_limit_answer [OF assms(4) this, of dyn glob]
  have "Calculate (l\<lparr>GlobalRateLimitPerHour := glob, lim_MaxRetry := retry\<rparr>) do = (scale95 requests, d, None)"
    using assms(2,3,6,7) by (simp add: Calculate_def)
  from create_good [OF assms(1) this] obtain t where
    "CreateAsyncApiClient parse_duration config timeout (Some l) do = start_scheduler t retry (scale95 requests) d" .
  moreover have "d sdiv RESPONSE_TIME = 0"
    using assms(8) by (simp add: signed_divide_int_def RESPONSE_TIME_def second_def)
  ultimately show ?thesis by (simp add: start_scheduler_def)
qed

theorem short_window_panics_witness:
  "CreateAsyncApiClient (\<lambda>s. Inl (External s)) no_config 0 (Some (unlimited\<lparr>DynamicRateLimit := Some (\<lambda>_. (10, 2 * second, None))\<rparr>))
     (\<lambda>i. if i = 0 then Inl (External ''timeout'') else Inr ()) = Panic ''integer divide by zero''"
  by (rule short_window_panics [OF good_no_config, where k = 1 and res = "()" and requests = 10 and d = "2 * second"])
    (auto simp: unlimited_def first_answer_def second_def RESPONSE_TIME_def)

text \<open>The global limit is the fallback of the limit an API reports: when no user set a limit, and the API has no limit to report, or
  does not answer in any attempt, or answers without one, the client is that of \<open>API_REQUESTS_PER_HOUR\<close>.\<close>

theorem limit_fallback:
  assumes "good_config parse_duration config retry glob" and "UserRateLimitPerHour l \<le> 0"
    and "DynamicRateLimit l = None \<or> (\<forall>j. int j < retry \<longrightarrow> (\<exists>e. do j = Inl e)) \<or>
      (\<exists>dyn k res requests. DynamicRateLimit l = Some dyn \<and> first_answer do 0 k res \<and> int k < retry \<and> dyn res = (requests, 0, None))"
  shows "\<exists>t. CreateAsyncApiClient parse_duration config timeout (Some l) do = start_scheduler t retry glob hour"
proof -
  let ?l = "l\<lparr>GlobalRateLimitPerHour := glob, lim_MaxRetry := retry\<rparr>"
  have "Calculate ?l do = (glob, hour, None)"
  proof (cases "DynamicRateLimit l")
    case (Some dyn)
    with assms(3) consider "\<forall>j. int j < retry \<longrightarrow> (\<exists>e. do j = Inl e)"
      | k res requests where "first_answer do 0 k res" "int k < retry" "dyn res = (requests, 0, None)" by fastforce
    then show ?thesis
    proof cases
      case 1
      then have "ask_limit do dyn glob 0 (nat retry) = None" by (intro ask_limit_silent) (simp add: zless_nat_eq_int_zless)
      with assms(2) Some show ?thesis by (simp add: Calculate_def)
    next
      case 2
      then have "k < 0 + nat retry" by simp
      from ask_limit_answer [OF 2(1) this, of dyn glob] 2(3) assms(2) Some show ?thesis by (simp add: Calculate_def)
    qed
  qed (use assms(2) in \<open>simp add: Calculate_def\<close>)
  from create_good [OF assms(1) this] show ?thesis by metis
qed

theorem limit_fallback_witness:
  "\<exists>t. CreateAsyncApiClient (\<lambda>s. Inl (External s)) no_config 0 (Some (unlimited\<lparr>DynamicRateLimit := Some (\<lambda>_. (10, 0, None))\<rparr>)) (\<lambda>i. Inr ()) =
    start_scheduler t 3 18000 hour"
proof (rule limit_fallback [OF good_no_config])
  show "UserRateLimitPerHour (unlimited\<lparr>DynamicRateLimit := Some (\<lambda>_. (10, 0, None))\<rparr>) \<le> 0" by (simp add: unlimited_def)
  have "first_answer (\<lambda>i. Inr ()) 0 0 ()" by (simp add: first_answer_def)
  then show "DynamicRateLimit (unlimited\<lparr>DynamicRateLimit := Some (\<lambda>_. (10, 0, None))\<rparr>) = None \<or>
      (\<forall>j. int j < 3 \<longrightarrow> (\<exists>e :: goerr. Inr () = Inl e)) \<or>
      (\<exists>dyn k res requests. DynamicRateLimit (unlimited\<lparr>DynamicRateLimit := Some (\<lambda>_. (10, 0, None))\<rparr>) = Some dyn \<and>
        first_answer (\<lambda>i. Inr ()) 0 k res \<and> int k < 3 \<and> dyn res = (requests, 0, None))"
    by (intro disjI2) (rule exI [of _ "\<lambda>_. (10, 0, None)"], rule exI [of _ 0], auto)
qed

text \<open>GitHub's unreadable limit goes unnoticed: a header \<open>X-RateLimit-Limit\<close> that is no number has the effect of a missing header,
  no error and the global limit, because the nil error of the enclosing function is wrapped in place of the one of the parser; GitLab
  reports the same header as an error.\<close>

theorem github_limit_unreadable:
  assumes "Atoi header = Inl e" and "header \<noteq> []"
  shows "GithubRateLimit tokens header = GithubRateLimit tokens [] \<and> (\<exists>err. GitlabRateLimit header = (0, 0, Some err) \<and> IsSentinel err (case e of External s \<Rightarrow> s | _ \<Rightarrow> []))"
proof -
  obtain s where "e = External s" using assms(1) by (auto simp: Atoi_def Let_def split: if_splits)
  then show ?thesis using assms by (simp add: GithubRateLimit_def GitlabRateLimit_def Wrap_def newSingleCrdbError_def)
qed

theorem github_limit_unreadable_witness:
  "GithubRateLimit 2 ''5k'' = GithubRateLimit 2 [] \<and> (\<exists>err. GitlabRateLimit ''5k'' = (0, 0, Some err))"
proof -
  have "\<exists>e. Atoi ''5k'' = Inl e" by (simp add: Atoi_def is_digit_def)
  then obtain e where "Atoi ''5k'' = Inl e" ..
  from github_limit_unreadable [OF this] show ?thesis by auto
qed

end
