(* ===== verification/Base64.thy ===== *)
theory Base64
  imports LakeErrors "HOL-Library.Word"
begin

text \<open>
  Base 64 as \<open>encoding/base64\<close> has it: the standard alphabet with padding, three bytes to four characters. The
  decoder skips carriage returns and newlines and accepts any bits in the unused part of the last character. The
  offset in the text of its error is not modelled. The encryption of secrets and the page tokens of remote
  scopes use it.
\<close>

type_synonym bytes = "8 word list"

definition bytes_of :: "string \<Rightarrow> bytes" where
  "bytes_of s = map (\<lambda>c. word_of_nat (of_char c)) s"

definition string_of :: "bytes \<Rightarrow> string" where
  "string_of bs = map (\<lambda>b. char_of (unat b)) bs"

lemma bytes_of_string_of [simp]: "string_of (bytes_of s) = s"
  by (induction s) (simp_all add: string_of_def bytes_of_def unat_of_nat take_bit_eq_mod)

lemma string_of_bytes_of [simp]: "bytes_of (string_of bs) = bs"
proof (induction bs)
  case (Cons b bs)
  have "unat b < 256" using unsigned_less [of b, where 'a = nat] by simp
  then have "unat b mod 256 = unat b" by simp
  with Cons show ?case by (simp add: string_of_def bytes_of_def)
qed (simp add: string_of_def bytes_of_def)

lemma length_bytes_of [simp]: "length (bytes_of s) = length s"
  by (simp add: bytes_of_def)

section \<open>The alphabet\<close>

definition alphabet :: string where
  "alphabet = ''ABCDEFGHIJKLMNOPQRSTUVWXYZabcdefghijklmnopqrstuvwxyz0123456789+/''"

definition encode_char :: "nat \<Rightarrow> char" where
  "encode_char i = alphabet ! i"

fun index_of :: "char \<Rightarrow> string \<Rightarrow> nat \<Rightarrow> nat option" where
  "index_of c [] i = None"
| "index_of c (x # xs) i = (if x = c then Some i else index_of c xs (Suc i))"

definition decode_char :: "char \<Rightarrow> nat option" where
  "decode_char c = index_of c alphabet 0"

lemma index_of_nth: "distinct xs \<Longrightarrow> i < length xs \<Longrightarrow> index_of (xs ! i) xs k = Some (k + i)"
proof (induction xs arbitrary: i k)
  case (Cons x xs)
  then show ?case by (cases i) auto
qed simp

lemma length_alphabet: "length alphabet = 64"
  by (simp add: alphabet_def)

lemma distinct_alphabet: "distinct alphabet"
  by code_simp

lemma decode_encode_char [simp]: "i < 64 \<Longrightarrow> decode_char (encode_char i) = Some i"
  using index_of_nth [OF distinct_alphabet, of i 0] by (simp add: decode_char_def encode_char_def length_alphabet)

definition pad_char :: char where
  "pad_char = CHR ''=''"

lemma encode_char_alphabet: "i < 64 \<Longrightarrow> encode_char i \<in> set alphabet"
  by (simp add: encode_char_def length_alphabet)

lemma alphabet_special: "pad_char \<notin> set alphabet \<and> CHR 0x0A \<notin> set alphabet \<and> CHR 0x0D \<notin> set alphabet"
  by code_simp

lemma encode_char_special [simp]:
  "i < 64 \<Longrightarrow> encode_char i \<noteq> pad_char" "i < 64 \<Longrightarrow> encode_char i \<noteq> CHR 0x0A" "i < 64 \<Longrightarrow> encode_char i \<noteq> CHR 0x0D"
  using encode_char_alphabet [of i] alphabet_special by auto

section \<open>Encoding\<close>

fun EncodeToString :: "bytes \<Rightarrow> string" where
  "EncodeToString (a # b # c # rest) =
     (let v = unat a * 65536 + unat b * 256 + unat c in
      encode_char (v div 262144 mod 64) # encode_char (v div 4096 mod 64) # encode_char (v div 64 mod 64) # encode_char (v mod 64) #
      EncodeToString rest)"
| "EncodeToString [a, b] =
     (let v = unat a * 65536 + unat b * 256 in
      [encode_char (v div 262144 mod 64), encode_char (v div 4096 mod 64), encode_char (v div 64 mod 64), pad_char])"
| "EncodeToString [a] =
     (let v = unat a * 65536 in [encode_char (v div 262144 mod 64), encode_char (v div 4096 mod 64), pad_char, pad_char])"
| "EncodeToString [] = []"

fun decode_quads :: "string \<Rightarrow> bytes option" where
  "decode_quads [] = Some []"
| "decode_quads (p # q # r # s # rest) =
     (case (decode_char p, decode_char q) of
        (Some i, Some j) \<Rightarrow>
          if r = pad_char
          then (if s = pad_char \<and> rest = [] then Some [word_of_nat ((i * 262144 + j * 4096) div 65536)] else None)
          else (case decode_char r of
              None \<Rightarrow> None
            | Some k \<Rightarrow>
                if s = pad_char
                then (if rest = []
                      then (let v = i * 262144 + j * 4096 + k * 64 in Some [word_of_nat (v div 65536), word_of_nat (v div 256 mod 256)])
                      else None)
                else (case (decode_char s, decode_quads rest) of
                    (Some l, Some bs) \<Rightarrow>
                      (let v = i * 262144 + j * 4096 + k * 64 + l in
                       Some (word_of_nat (v div 65536) # word_of_nat (v div 256 mod 256) # word_of_nat (v mod 256) # bs))
                  | _ \<Rightarrow> None))
      | _ \<Rightarrow> None)"
| "decode_quads _ = None"

definition DecodeString :: "string \<Rightarrow> goerr + bytes" where
  "DecodeString s =
     (case decode_quads (filter (\<lambda>c. c \<noteq> CHR 0x0A \<and> c \<noteq> CHR 0x0D) s) of
        None \<Rightarrow> Inl (External ''illegal base64 data'') | Some bs \<Rightarrow> Inr bs)"

section \<open>The round trip\<close>

lemma byte_nat: "unat (b :: 8 word) < 256"
  using unsigned_less [of b] by simp

lemma horner: "(v :: nat) = ((a * 64 + b) * 64 + c) * 64 + d \<Longrightarrow> a * 262144 + b * 4096 + c * 64 + d = v"
  by simp

lemma sextets:
  fixes v :: nat
  assumes "v < 16777216"
  shows "(v div 262144 mod 64) * 262144 + (v div 4096 mod 64) * 4096 + (v div 64 mod 64) * 64 + v mod 64 = v"
proof -
  have "v = v div 64 * 64 + v mod 64" by simp
  moreover have "v div 64 = v div 64 div 64 * 64 + v div 64 mod 64" by simp
  moreover have "v div 64 div 64 = v div 64 div 64 div 64 * 64 + v div 64 div 64 mod 64" by simp
  moreover have "v div 64 div 64 div 64 < 64" using assms by (simp flip: div_mult2_eq)
  then have "v div 64 div 64 div 64 mod 64 = v div 64 div 64 div 64" by simp
  ultimately have v: "v = (((v div 64 div 64 div 64 mod 64) * 64 + v div 64 div 64 mod 64) * 64 + v div 64 mod 64) * 64 + v mod 64"
    by presburger
  have e: "v div 64 div 64 = v div 4096" "v div 4096 div 64 = v div 262144" by (simp_all flip: div_mult2_eq)
  from v [unfolded e(1), unfolded e(2)] show ?thesis by (rule horner)
qed

lemma triple:
  fixes a b c :: "8 word"
  defines "v \<equiv> unat a * 65536 + unat b * 256 + unat c"
  shows "v < 16777216" "word_of_nat (v div 65536) = a" "word_of_nat (v div 256 mod 256) = b" "word_of_nat (v mod 256) = c"
proof -
  note lt = byte_nat [of a] byte_nat [of b] byte_nat [of c]
  show "v < 16777216" using lt unfolding v_def by linarith
  have v: "v = unat c + (unat a * 256 + unat b) * 256" by (simp add: v_def)
  have d: "v div 256 = unat a * 256 + unat b" "v mod 256 = unat c"
    unfolding v using lt(3) by (simp_all only: div_mult_self1 mod_mult_self1 div_less mod_less zero_neq_numeral simp_thms not_False_eq_True add_0_right add_0)
  then show "word_of_nat (v mod 256) = c" by simp
  have "v div 65536 = v div 256 div 256" by (simp flip: div_mult2_eq)
  then show "word_of_nat (v div 65536) = a" using d(1) lt(2) by simp
  show "word_of_nat (v div 256 mod 256) = b" using d(1) lt(2) by simp
qed

lemma sextet_less: "(n :: nat) mod 64 < 64"
  by simp

lemma decode_encode_quads: "decode_quads (EncodeToString bs) = Some bs"
proof (induction bs rule: EncodeToString.induct)
  case (1 a b c rest)
  define v where "v = unat a * 65536 + unat b * 256 + unat c"
  note t = triple [of a b c, folded v_def]
  note s = sextets [OF t(1)]
  show ?case
    using 1 by (simp add: Let_def s t(2-4) flip: v_def)
next
  case (2 a b)
  define v where "v = unat a * 65536 + unat b * 256 + unat (0 :: 8 word)"
  note t = triple [of a b 0, folded v_def]
  have z: "v mod 64 = 0" by (simp add: v_def mod_simps)
  note s = sextets [OF t(1), unfolded z]
  have "unat a * 65536 + unat b * 256 = v" by (simp add: v_def)
  then show ?case
    by (simp only: EncodeToString.simps decode_quads.simps Let_def decode_encode_char sextet_less prod.case option.case if_True if_False
        encode_char_special simp_thms s [simplified add_0_right] t(2-3))
next
  case (3 a)
  define v where "v = unat a * 65536 + unat (0 :: 8 word) * 256 + unat (0 :: 8 word)"
  note t = triple [of a 0 0, folded v_def]
  have z: "v mod 64 = 0" "v div 64 mod 64 = 0" by (simp_all add: v_def)
  note s = sextets [OF t(1), unfolded z]
  have "unat a * 65536 = v" by (simp add: v_def)
  then show ?case
    by (simp only: EncodeToString.simps decode_quads.simps Let_def decode_encode_char sextet_less prod.case option.case if_True if_False
        encode_char_special simp_thms s [simplified add_0_right mult_0] t(2))
qed simp

lemma encode_plain: "filter (\<lambda>c. c \<noteq> CHR 0x0A \<and> c \<noteq> CHR 0x0D) (EncodeToString bs) = EncodeToString bs"
  by (induction bs rule: EncodeToString.induct) (simp_all add: Let_def pad_char_def)

lemma decode_encode [simp]: "DecodeString (EncodeToString bs) = Inr bs"
  by (simp add: DecodeString_def encode_plain decode_encode_quads)

end
