(* ===== verification/Secrets.thy ===== *)
theory Secrets
  imports Base64
begin

unbundle bit_operations_syntax

text \<open>
  The encryption of connection secrets (\<open>backend/core/plugin/plugin_utils.go\<close>): a mark at the end of the text, PKCS 7
  padding, a block cipher in CBC mode under a key that is a hash of the configured one, and base 64.

  The hash and the block cipher of Go's \<open>crypto\<close> packages are parameters: \<open>sha256\<close>, and for a key the pair of the
  encryption and the decryption of a block.
\<close>

type_synonym block_cipher = "(bytes \<Rightarrow> bytes) \<times> (bytes \<Rightarrow> bytes)"

record crypto =
  sha256 :: "bytes \<Rightarrow> bytes"
  NewCipher :: "bytes \<Rightarrow> goerr + block_cipher"

definition BlockSize :: nat where
  "BlockSize = 16"

section \<open>Padding\<close>

definition PKCS7Padding :: "bytes \<Rightarrow> nat \<Rightarrow> bytes" where
  "PKCS7Padding ciphertext blockSize =
     (let padding = blockSize - length ciphertext mod blockSize in ciphertext @ replicate padding (word_of_nat padding))"

definition PKCS7UnPadding :: "bytes \<Rightarrow> bytes" where
  "PKCS7UnPadding origData =
     (if origData = [] then []
      else let unpadding = unat (last origData) in
        if unpadding \<ge> length origData then [] else take (length origData - unpadding) origData)"

section \<open>CBC\<close>

definition xor_bytes :: "bytes \<Rightarrow> bytes \<Rightarrow> bytes" where
  "xor_bytes xs ys = map2 (XOR) xs ys"

fun cbc_encrypt :: "(bytes \<Rightarrow> bytes) \<Rightarrow> nat \<Rightarrow> bytes \<Rightarrow> bytes \<Rightarrow> bytes" where
  "cbc_encrypt enc 0 iv data = []"
| "cbc_encrypt enc (Suc n) iv data =
     (let c = enc (xor_bytes iv (take BlockSize data)) in c @ cbc_encrypt enc n c (drop BlockSize data))"

fun cbc_decrypt :: "(bytes \<Rightarrow> bytes) \<Rightarrow> nat \<Rightarrow> bytes \<Rightarrow> bytes \<Rightarrow> bytes" where
  "cbc_decrypt dec 0 iv data = []"
| "cbc_decrypt dec (Suc n) iv data =
     (let c = take BlockSize data in xor_bytes iv (dec c) @ cbc_decrypt dec n c (drop BlockSize data))"

definition AesEncrypt :: "crypto \<Rightarrow> bytes \<Rightarrow> bytes \<Rightarrow> goerr + bytes" where
  "AesEncrypt lib origData key =
     (let key' = sha256 lib key in
      case NewCipher lib key' of
        Inl e \<Rightarrow> Inl (newSingleCrdbError Default (Some e) (case e of External s \<Rightarrow> s | _ \<Rightarrow> []) None)
      | Inr (enc, dec) \<Rightarrow>
          let origData' = PKCS7Padding origData BlockSize in
          Inr (cbc_encrypt enc (length origData' div BlockSize) (take BlockSize key') origData'))"

definition AesDecrypt :: "crypto \<Rightarrow> bytes \<Rightarrow> bytes \<Rightarrow> goerr + bytes" where
  "AesDecrypt lib crypted key =
     (let key' = sha256 lib key in
      case NewCipher lib key' of
        Inl e \<Rightarrow> Inl (newSingleCrdbError Default (Some e) (case e of External s \<Rightarrow> s | _ \<Rightarrow> []) None)
      | Inr (enc, dec) \<Rightarrow>
          if length crypted mod BlockSize \<noteq> 0
          then Inl (New Default (''The length of the data to be decrypted is ['' @ show_nat (length crypted)
            @ ''], so cannot match the required block size ['' @ show_nat BlockSize @ '']''))
          else Inr (PKCS7UnPadding (cbc_decrypt dec (length crypted div BlockSize) (take BlockSize key') crypted)))"

section \<open>Secrets\<close>

definition mark :: bytes where
  "mark = [123, 110, 100, 100, 116, 102, 125]"

text \<open>The result is an error with the text to keep, or the encrypted text.\<close>

definition Encrypt :: "crypto \<Rightarrow> string \<Rightarrow> string \<Rightarrow> goerr + string" where
  "Encrypt lib encKey plainText =
     (case AesEncrypt lib (bytes_of plainText @ mark) (bytes_of encKey) of
        Inl e \<Rightarrow> Inl e | Inr output \<Rightarrow> Inr (EncodeToString output))"

definition Decrypt :: "crypto \<Rightarrow> string \<Rightarrow> string \<Rightarrow> goerr + string" where
  "Decrypt lib encKey encryptedText =
     (if encKey = [] then Inl (New Default ''encKey is required'')
      else (case DecodeString encryptedText of
          Inl e \<Rightarrow> Inl (newSingleCrdbError Default (Some e) (case e of External s \<Rightarrow> s | _ \<Rightarrow> []) None)
        | Inr decoded \<Rightarrow>
            (case AesDecrypt lib decoded (bytes_of encKey) of
               Inl e \<Rightarrow> Inl e
             | Inr output \<Rightarrow>
                 if length output \<ge> 7 \<and> drop (length output - 7) output = mark
                 then Inr (string_of (take (length output - 7) output))
                 else Inl (New Default ''invalid encKey''))))"

section \<open>Laws\<close>

text \<open>A block cipher permutes blocks.\<close>

definition permutes_blocks :: "block_cipher \<Rightarrow> bool" where
  "permutes_blocks bc \<longleftrightarrow> (\<forall>b. length b = BlockSize \<longrightarrow> length (fst bc b) = BlockSize \<and> snd bc (fst bc b) = b)"

lemma xor_bytes_twice: "length xs = length ys \<Longrightarrow> xor_bytes xs (xor_bytes xs ys) = ys"
  unfolding xor_bytes_def
proof (induction xs ys rule: list_induct2)
  case (Cons x xs y ys)
  have "x XOR (x XOR y) = y" by (metis bit.xor_left_self)
  with Cons show ?case by simp
qed simp

lemma length_xor_bytes [simp]: "length (xor_bytes xs ys) = min (length xs) (length ys)"
  by (simp add: xor_bytes_def)

lemma cbc_round_trip:
  assumes "permutes_blocks (enc, dec)"
  shows "length data = n * BlockSize \<Longrightarrow> length iv = BlockSize \<Longrightarrow>
    length (cbc_encrypt enc n iv data) = n * BlockSize \<and> cbc_decrypt dec n iv (cbc_encrypt enc n iv data) = data"
proof (induction n arbitrary: iv data)
  case (Suc n)
  define c where "c = enc (xor_bytes iv (take BlockSize data))"
  have len: "length (xor_bytes iv (take BlockSize data)) = BlockSize" using Suc.prems by simp
  then have c: "length c = BlockSize" "dec c = xor_bytes iv (take BlockSize data)"
    using assms by (simp_all add: permutes_blocks_def c_def)
  have "length (drop BlockSize data) = n * BlockSize" using Suc.prems(1) by simp
  note IH = Suc.IH [OF this c(1)]
  have "xor_bytes iv (dec c) = take BlockSize data" unfolding c(2) using Suc.prems by (intro xor_bytes_twice) simp
  then show ?case using IH c(1) by (simp add: Let_def flip: c_def)
qed (simp add: BlockSize_def)

lemma padded_length: "length (PKCS7Padding xs BlockSize) = (length xs div BlockSize + 1) * BlockSize"
proof -
  have "length (PKCS7Padding xs 16) = length xs + (16 - length xs mod 16)" by (simp add: PKCS7Padding_def Let_def)
  moreover have "length xs mod 16 < 16" "length xs div 16 * 16 + length xs mod 16 = length xs" by simp_all
  moreover have "l = n + (16 - r) \<Longrightarrow> r < 16 \<Longrightarrow> q * 16 + r = n \<Longrightarrow> l = (q + 1) * 16" for l n q r :: nat by simp
  ultimately show ?thesis unfolding BlockSize_def by blast
qed

lemma unpad_pad: "PKCS7UnPadding (PKCS7Padding xs BlockSize) = xs"
proof -
  define padding where "padding = BlockSize - length xs mod BlockSize"
  have p: "0 < padding" "padding \<le> 16" by (simp_all add: padding_def BlockSize_def)
  have pad: "PKCS7Padding xs BlockSize = xs @ replicate padding (word_of_nat padding)"
    by (simp add: PKCS7Padding_def Let_def padding_def)
  have "last (PKCS7Padding xs BlockSize) = word_of_nat padding" unfolding pad using p(1) by (simp add: last_append)
  moreover have "unat (word_of_nat padding :: 8 word) = padding" using p(2) by (simp add: unat_of_nat)
  ultimately show ?thesis using p(1) by (auto simp: PKCS7UnPadding_def Let_def pad)
qed

text \<open>C26. A secret survives its encryption: under any key that is not empty, with a hash of at least a block and a cipher that permutes
  blocks, decrypting what \<open>Encrypt\<close> returned gives the text back, whatever its length and bytes.\<close>

theorem secret_roundtrip:
  assumes "key \<noteq> []" and "BlockSize \<le> length (sha256 lib (bytes_of key))"
    and "NewCipher lib (sha256 lib (bytes_of key)) = Inr bc" and "permutes_blocks bc"
  shows "\<exists>c. Encrypt lib key text = Inr c \<and> Decrypt lib key c = Inr text"
proof -
  obtain enc dec where bc: "bc = (enc, dec)" by (cases bc)
  define iv where "iv = take BlockSize (sha256 lib (bytes_of key))"
  define plain where "plain = bytes_of text @ mark"
  define padded where "padded = PKCS7Padding plain BlockSize"
  define n where "n = length plain div BlockSize + 1"
  define out where "out = cbc_encrypt enc n iv padded"
  have iv: "length iv = BlockSize" using assms(2) by (simp add: iv_def)
  have pad: "length padded = n * BlockSize" unfolding padded_def n_def by (rule padded_length)
  from cbc_round_trip [OF assms(4) [unfolded bc] pad iv] have out: "length out = n * BlockSize" "cbc_decrypt dec n iv out = padded"
    by (simp_all add: out_def)
  have "0 < BlockSize" by (simp add: BlockSize_def)
  then have blocks: "length padded div BlockSize = n" "length out div BlockSize = n" "length out mod BlockSize = 0"
    by (simp_all add: pad out(1))
  have enc: "AesEncrypt lib plain (bytes_of key) = Inr out"
    using blocks(1) assms(3) by (simp add: AesEncrypt_def bc Let_def out_def flip: padded_def iv_def)
  have dec: "AesDecrypt lib out (bytes_of key) = Inr plain"
    using blocks assms(3) out(2) by (simp add: AesDecrypt_def bc Let_def padded_def unpad_pad flip: iv_def)
  have "Encrypt lib key text = Inr (EncodeToString out)" using enc by (simp add: Encrypt_def plain_def)
  moreover have "Decrypt lib key (EncodeToString out) = Inr text"
    using dec assms(1) by (simp add: Decrypt_def plain_def mark_def)
  ultimately show ?thesis by blast
qed

definition rotate_lib :: crypto where
  "rotate_lib = \<lparr>sha256 = (\<lambda>key. replicate 32 (word_of_nat (length key))), NewCipher = (\<lambda>key. Inr (rotate1, \<lambda>b. last b # butlast b))\<rparr>"

lemma rotate_permutes: "permutes_blocks (rotate1, \<lambda>b. last b # butlast b)"
  unfolding permutes_blocks_def
proof (intro allI impI)
  fix b :: bytes
  assume "length b = BlockSize"
  then obtain x xs where "b = x # xs" by (cases b) (auto simp: BlockSize_def)
  with \<open>length b = BlockSize\<close> show "length (fst (rotate1, \<lambda>b. last b # butlast b) b) = BlockSize \<and>
      snd (rotate1, \<lambda>b. last b # butlast b) (fst (rotate1, \<lambda>b. last b # butlast b) b) = b" by simp
qed

theorem secret_roundtrip_witness:
  "\<exists>c. Encrypt rotate_lib ''key'' ''a token'' = Inr c \<and> Decrypt rotate_lib ''key'' c = Inr ''a token''"
  by (rule secret_roundtrip [OF _ _ _ rotate_permutes]) (simp_all add: rotate_lib_def BlockSize_def)

end
