(* ===== verification/Migrator.thy ===== *)
theory Migrator
  imports LakeErrors
begin

text \<open>
  The migrator (\<open>core/migration/migrator.go\<close>) and its use at start-up (\<open>server/services/init.go\<close>): scripts are registered,
  those not in the history are pending, \<open>Execute\<close> applies the pending ones by version and records each.

  A script is its name, its version and its effect on the database, an arbitrary \<open>'db\<close>. Scripts of one version are taken in the order
  they were registered in; \<open>sort.Slice\<close> leaves that open. \<open>create_err\<close> is the error of recording a script, if any.
\<close>

record 'db MigrationScript =
  ms_Name :: string
  ms_Version :: nat
  ms_Up :: "'db \<Rightarrow> goerr option \<times> 'db"

record 'db scriptWithComment =
  swc_script :: "'db MigrationScript"
  swc_comment :: string

record MigrationHistory =
  ScriptVersion :: nat
  ScriptName :: string
  mh_Comment :: string

record 'db migratorImpl =
  mi_executed :: "string set"
  mi_scripts :: "'db scriptWithComment list"
  mi_pending :: "'db scriptWithComment list"

definition getScriptId :: "string \<Rightarrow> nat \<Rightarrow> string" where
  "getScriptId scriptName scriptVersion = scriptName @ '':'' @ show_nat scriptVersion"

definition script_id :: "'db scriptWithComment \<Rightarrow> string" where
  "script_id swc = getScriptId (ms_Name (swc_script swc)) (ms_Version (swc_script swc))"

definition loadExecuted :: "goerr option \<Rightarrow> goerr option \<Rightarrow> MigrationHistory list \<Rightarrow> goerr + string set" where
  "loadExecuted migrate_err all_err records =
     (case migrate_err of Some e \<Rightarrow> Inl (newSingleCrdbError Default (Some e) ''error performing migrations'' None)
      | None \<Rightarrow>
          (case all_err of Some e \<Rightarrow> Inl (newSingleCrdbError Default (Some e) ''error finding migration history records'' None)
           | None \<Rightarrow> Inr (set (map (\<lambda>r. getScriptId (ScriptName r) (ScriptVersion r)) records))))"

definition NewMigrator :: "goerr option \<Rightarrow> goerr option \<Rightarrow> MigrationHistory list \<Rightarrow> goerr + 'db migratorImpl" where
  "NewMigrator migrate_err all_err records =
     (case loadExecuted migrate_err all_err records of Inl e \<Rightarrow> Inl e
      | Inr ids \<Rightarrow> Inr \<lparr>mi_executed = ids, mi_scripts = [], mi_pending = []\<rparr>)"

definition register_one :: "string \<Rightarrow> 'db migratorImpl \<Rightarrow> 'db MigrationScript \<Rightarrow> 'db migratorImpl" where
  "register_one comment m script =
     (let swc = \<lparr>swc_script = script, swc_comment = comment\<rparr> in
      m\<lparr>mi_scripts := mi_scripts m @ [swc],
        mi_pending := (if script_id swc \<in> mi_executed m then mi_pending m else mi_pending m @ [swc])\<rparr>)"

definition Register :: "'db migratorImpl \<Rightarrow> 'db MigrationScript list \<Rightarrow> string \<Rightarrow> 'db migratorImpl" where
  "Register m scripts comment = foldl (register_one comment) m scripts"

definition version_of :: "'db scriptWithComment \<Rightarrow> nat" where
  "version_of swc = ms_Version (swc_script swc)"

definition history_of :: "'db scriptWithComment \<Rightarrow> MigrationHistory" where
  "history_of swc = \<lparr>ScriptVersion = version_of swc, ScriptName = ms_Name (swc_script swc), mh_Comment = swc_comment swc\<rparr>"

fun execute_scripts :: "(MigrationHistory \<Rightarrow> goerr option) \<Rightarrow> 'db scriptWithComment list \<Rightarrow> 'db migratorImpl \<Rightarrow> MigrationHistory list \<Rightarrow> 'db
    \<Rightarrow> goerr option \<times> 'db migratorImpl \<times> MigrationHistory list \<times> 'db" where
  "execute_scripts create_err [] m hist db = (None, m, hist, db)"
| "execute_scripts create_err (swc # rest) m hist db =
     (case ms_Up (swc_script swc) db of
        (Some e, db') \<Rightarrow> (Some e, m, hist, db')
      | (None, db') \<Rightarrow>
          (case create_err (history_of swc) of
             Some e \<Rightarrow> (Some (newSingleCrdbError Default (Some e) (''failed to execute migration script '' @ script_id swc) None), m, hist, db')
           | None \<Rightarrow> execute_scripts create_err rest
               (m\<lparr>mi_executed := insert (script_id swc) (mi_executed m), mi_pending := tl (mi_pending m)\<rparr>)
               (hist @ [history_of swc]) db'))"

definition migrator_Execute :: "(MigrationHistory \<Rightarrow> goerr option) \<Rightarrow> 'db migratorImpl \<Rightarrow> MigrationHistory list \<Rightarrow> 'db
    \<Rightarrow> goerr option \<times> 'db migratorImpl \<times> MigrationHistory list \<times> 'db" where
  "migrator_Execute create_err m hist db =
     (let sorted = sort_key version_of (mi_pending m) in execute_scripts create_err sorted (m\<lparr>mi_pending := sorted\<rparr>) hist db)"

definition HasPendingScripts :: "'db migratorImpl \<Rightarrow> bool" where
  "HasPendingScripts m \<longleftrightarrow> mi_executed m \<noteq> {} \<and> mi_pending m \<noteq> []"

text \<open>Start-up: the migrations run at once unless there are pending ones on a database that has a history, which wait for a
  confirmation.\<close>

definition init_migrates :: "'db migratorImpl \<Rightarrow> bool \<Rightarrow> bool" where
  "init_migrates m forceMigration \<longleftrightarrow> \<not> HasPendingScripts m \<or> forceMigration"

section \<open>Restarts\<close>

text \<open>The migrator of a new process on a history, with the scripts of the framework and of the plugins.\<close>

definition all_scripts :: "('db MigrationScript list \<times> string) list \<Rightarrow> 'db scriptWithComment list" where
  "all_scripts regs = concat (map (\<lambda>(scripts, comment). map (\<lambda>s. \<lparr>swc_script = s, swc_comment = comment\<rparr>) scripts) regs)"

definition restart :: "('db MigrationScript list \<times> string) list \<Rightarrow> MigrationHistory list \<Rightarrow> 'db migratorImpl" where
  "restart regs hist =
     foldl (\<lambda>m (scripts, comment). Register m scripts comment)
       \<lparr>mi_executed = set (map (\<lambda>r. getScriptId (ScriptName r) (ScriptVersion r)) hist), mi_scripts = [], mi_pending = []\<rparr> regs"

lemma restart_is_new: "NewMigrator None None hist = Inr (restart [] hist)"
  by (simp add: NewMigrator_def loadExecuted_def restart_def)

lemma Register_eq:
  "Register m scripts comment = (let new = map (\<lambda>s. \<lparr>swc_script = s, swc_comment = comment\<rparr>) scripts in
     m\<lparr>mi_scripts := mi_scripts m @ new, mi_pending := mi_pending m @ filter (\<lambda>swc. script_id swc \<notin> mi_executed m) new\<rparr>)"
  unfolding Register_def
  by (induction scripts arbitrary: m) (simp_all add: register_one_def Let_def)

lemma restart_eq:
  "restart regs hist = \<lparr>mi_executed = set (map (\<lambda>r. getScriptId (ScriptName r) (ScriptVersion r)) hist), mi_scripts = all_scripts regs,
     mi_pending = filter (\<lambda>swc. script_id swc \<notin> set (map (\<lambda>r. getScriptId (ScriptName r) (ScriptVersion r)) hist)) (all_scripts regs)\<rparr>"
proof -
  have "foldl (\<lambda>m (scripts, comment). Register m scripts comment) m regs =
      m\<lparr>mi_scripts := mi_scripts m @ all_scripts regs,
        mi_pending := mi_pending m @ filter (\<lambda>swc. script_id swc \<notin> mi_executed m) (all_scripts regs)\<rparr>" for m :: "'a migratorImpl"
    by (induction regs arbitrary: m) (auto simp: Register_eq Let_def all_scripts_def)
  then show ?thesis by (simp add: restart_def)
qed

lemma history_id [simp]: "getScriptId (ScriptName (history_of swc)) (ScriptVersion (history_of swc)) = script_id swc"
  by (simp add: history_of_def script_id_def version_of_def)

section \<open>A run\<close>

text \<open>The effect of scripts that succeed; \<open>None\<close> if one fails.\<close>

fun apply_ups :: "'db scriptWithComment list \<Rightarrow> 'db \<Rightarrow> 'db option" where
  "apply_ups [] db = Some db"
| "apply_ups (swc # rest) db = (case ms_Up (swc_script swc) db of (None, db') \<Rightarrow> apply_ups rest db' | (Some e, db') \<Rightarrow> None)"

lemma execute_scripts_prefix:
  "execute_scripts create_err todo m hist db = (err, m', hist', db') \<Longrightarrow> mi_pending m = todo \<Longrightarrow>
    \<exists>k \<le> length todo. hist' = hist @ map history_of (take k todo) \<and> mi_pending m' = drop k todo \<and>
      mi_executed m' = mi_executed m \<union> script_id ` set (take k todo) \<and> mi_scripts m' = mi_scripts m \<and> (err = None \<longleftrightarrow> k = length todo) \<and>
      (\<exists>mid. apply_ups (take k todo) db = Some mid \<and>
        (db' = mid \<or> k < length todo \<and> db' = snd (ms_Up (swc_script (todo ! k)) mid)))"
proof (induction todo arbitrary: m hist db)
  case (Cons swc rest)
  obtain e db1 where up: "ms_Up (swc_script swc) db = (e, db1)" by fastforce
  show ?case
  proof (cases e)
    case (Some e')
    with Cons.prems up show ?thesis by (intro exI [of _ 0]) auto
  next
    case None
    show ?thesis
    proof (cases "create_err (history_of swc)")
      case (Some e')
      with Cons.prems up None show ?thesis by (intro exI [of _ 0]) auto
    next
      case created: None
      let ?m = "m\<lparr>mi_executed := insert (script_id swc) (mi_executed m), mi_pending := tl (mi_pending m)\<rparr>"
      from Cons.prems up None created
      have "execute_scripts create_err rest ?m (hist @ [history_of swc]) db1 = (err, m', hist', db')" "mi_pending ?m = rest" by simp_all
      from Cons.IH [OF this] obtain k where k: "k \<le> length rest" "hist' = (hist @ [history_of swc]) @ map history_of (take k rest)"
        "mi_pending m' = drop k rest" "mi_executed m' = mi_executed ?m \<union> script_id ` set (take k rest)" "mi_scripts m' = mi_scripts m"
        "err = None \<longleftrightarrow> k = length rest"
        "\<exists>mid. apply_ups (take k rest) db1 = Some mid \<and> (db' = mid \<or> k < length rest \<and> db' = snd (ms_Up (swc_script (rest ! k)) mid))"
        by auto
      then show ?thesis by (intro exI [of _ "Suc k"]) (auto simp: up None)
    qed
  qed
qed simp

lemma pending_sorted_filter: "sort_key version_of (filter P xs) = filter P (sort_key version_of xs)"
  by (simp add: filter_sort)

lemma filter_drop_ids:
  assumes "distinct (map f xs)"
  shows "filter (\<lambda>x. f x \<notin> f ` set (take k xs)) xs = drop k xs"
proof -
  have "distinct (map f (take k xs) @ map f (drop k xs))" using assms by (simp flip: map_append)
  then have "f ` set (take k xs) \<inter> f ` set (drop k xs) = {}" by simp
  then have "filter (\<lambda>x. f x \<notin> f ` set (take k xs)) (drop k xs) = drop k xs" by (intro filter_True) auto
  moreover have "filter (\<lambda>x. f x \<notin> f ` set (take k xs)) (take k xs) = []" by (auto simp: filter_empty_conv)
  ultimately have "filter (\<lambda>x. f x \<notin> f ` set (take k xs)) (take k xs @ drop k xs) = drop k xs" unfolding filter_append by simp
  then show ?thesis by simp
qed

text \<open>C27. Migrations resume where they stopped: a run applies the pending scripts by version up to the first that fails or cannot be recorded,
  and records each one it applied. After a restart with the same scripts, of different names or versions, exactly the others are pending, in the
  same order, none if the run returned nil; only a script whose recording failed can be applied again.\<close>

theorem migration_resumes:
  assumes "distinct (map script_id (all_scripts regs))"
    and "migrator_Execute create_err (restart regs hist) hist db = (err, m', hist', db')"
    and "todo = sort_key version_of (mi_pending (restart regs hist))"
  shows "\<exists>k \<le> length todo. hist' = hist @ map history_of (take k todo) \<and> (err = None \<longleftrightarrow> k = length todo) \<and>
    sort_key version_of (mi_pending (restart regs hist')) = drop k todo \<and> (err = None \<longrightarrow> \<not> HasPendingScripts (restart regs hist')) \<and>
    (\<exists>mid. apply_ups (take k todo) db = Some mid \<and> (db' = mid \<or> k < length todo \<and> db' = snd (ms_Up (swc_script (todo ! k)) mid)))"
proof -
  let ?m = "restart regs hist :: 'a migratorImpl"
  define ids where "ids = set (map (\<lambda>r. getScriptId (ScriptName r) (ScriptVersion r)) hist)"
  have run: "execute_scripts create_err todo (?m\<lparr>mi_pending := todo\<rparr>) hist db = (err, m', hist', db')"
    using assms(2,3) by (simp add: migrator_Execute_def Let_def)
  from execute_scripts_prefix [OF run] obtain k where k: "k \<le> length todo" "hist' = hist @ map history_of (take k todo)"
    "err = None \<longleftrightarrow> k = length todo"
    "\<exists>mid. apply_ups (take k todo) db = Some mid \<and> (db' = mid \<or> k < length todo \<and> db' = snd (ms_Up (swc_script (todo ! k)) mid))"
    by auto
  have todo: "todo = filter (\<lambda>swc. script_id swc \<notin> ids) (sort_key version_of (all_scripts regs))"
    unfolding assms(3) restart_eq by (simp add: pending_sorted_filter ids_def)
  have "distinct (map script_id todo)"
  proof -
    have "mset (map script_id (sort_key version_of (all_scripts regs))) = mset (map script_id (all_scripts regs))" by simp
    then have "distinct (map script_id (sort_key version_of (all_scripts regs)))"
      using assms(1) by (metis mset_eq_imp_distinct_iff)
    then show ?thesis unfolding todo by (rule distinct_map_filter)
  qed
  from filter_drop_ids [OF this, of k] have rest: "filter (\<lambda>x. script_id x \<notin> script_id ` set (take k todo)) todo = drop k todo" .
  have "set (map (\<lambda>r. getScriptId (ScriptName r) (ScriptVersion r)) hist') = ids \<union> script_id ` set (take k todo)"
    by (auto simp: k(2) ids_def image_image)
  then have "sort_key version_of (mi_pending (restart regs hist')) =
      filter (\<lambda>swc. script_id swc \<notin> ids \<union> script_id ` set (take k todo)) (sort_key version_of (all_scripts regs))"
    unfolding restart_eq by (simp add: pending_sorted_filter del: set_map)
  also have "\<dots> = filter (\<lambda>x. script_id x \<notin> script_id ` set (take k todo)) todo" unfolding todo by (simp add: conj_commute)
  finally have pend: "sort_key version_of (mi_pending (restart regs hist')) = drop k todo" unfolding rest .
  moreover have "\<not> HasPendingScripts (restart regs hist')" if "err = None"
  proof -
    from that k(3) pend have "sort_key version_of (mi_pending (restart regs hist' :: 'a migratorImpl)) = []" by simp
    then have "mi_pending (restart regs hist' :: 'a migratorImpl) = []" by (metis length_0_conv length_sort)
    then show ?thesis by (simp add: HasPendingScripts_def)
  qed
  ultimately show ?thesis using k by blast
qed

definition sample_script :: "nat \<Rightarrow> bool \<Rightarrow> nat list MigrationScript" where
  "sample_script v ok = \<lparr>ms_Name = ''s'', ms_Version = v, ms_Up = (\<lambda>db. (if ok then None else Some (External ''ddl''), db @ [v]))\<rparr>"

definition sample_regs :: "(nat list MigrationScript list \<times> string) list" where
  "sample_regs = [([sample_script 2 True, sample_script 1 True], ''Framework''), ([sample_script 3 False], ''dora'')]"

text \<open>Two scripts are applied, the third leaves its trace and fails, and is the one that is pending after a restart.\<close>

theorem migration_resumes_witness:
  "\<exists>m' hist'. migrator_Execute (\<lambda>_. None) (restart sample_regs []) [] [] = (Some (External ''ddl''), m', hist', [1, 2, 3]) \<and>
    map version_of (sort_key version_of (mi_pending (restart sample_regs hist'))) = [3]"
proof -
  have dist: "distinct (map script_id (all_scripts sample_regs))" by code_simp
  have run: "fst (migrator_Execute (\<lambda>_. None) (restart sample_regs []) [] []) = Some (External ''ddl'')"
    "map ScriptVersion (fst (snd (snd (migrator_Execute (\<lambda>_. None) (restart sample_regs []) [] [])))) = [1, 2]"
    "snd (snd (snd (migrator_Execute (\<lambda>_. None) (restart sample_regs []) [] []))) = [1, 2, 3]"
    "map version_of (sort_key version_of (mi_pending (restart sample_regs []))) = [1, 2, 3]"
    by (code_simp, code_simp, code_simp, code_simp)
  obtain err m' hist' db' where res: "migrator_Execute (\<lambda>_. None) (restart sample_regs []) [] [] = (err, m', hist', db')"
    by (metis prod_cases4)
  from migration_resumes [OF dist res refl] obtain k where
    k: "k \<le> length (sort_key version_of (mi_pending (restart sample_regs [])))"
    "hist' = [] @ map history_of (take k (sort_key version_of (mi_pending (restart sample_regs []))))"
    "sort_key version_of (mi_pending (restart sample_regs hist')) = drop k (sort_key version_of (mi_pending (restart sample_regs [])))"
    by blast
  have len: "length (sort_key version_of (mi_pending (restart sample_regs []))) = 3" using arg_cong [OF run(4), of length] by simp
  have "length hist' = 2" using arg_cong [OF run(2), of length] res by simp
  then have "k = 2" using k(1,2) len by simp
  then have "map version_of (sort_key version_of (mi_pending (restart sample_regs hist'))) = [3]"
    using k(3) run(4) by (simp flip: drop_map)
  then show ?thesis using run res by auto
qed

end
