(* ===== verification/ApiInput.thy ===== *)
theory ApiInput
  imports RateLimit
begin

text \<open>
  What the handlers of a plugin's API read from a request: path parameters, query values, pages
  (\<open>helpers/pluginhelper/api/pagenation.go\<close>, \<open>extractFromReqParam\<close> of \<open>scope_helper.go\<close>). Integers of Go are 64 bits wide.
\<close>

type_synonym params = "string \<rightharpoonup> string"
type_synonym url_values = "string \<rightharpoonup> string list"

text \<open>\<open>strconv.ParseUint(s, 10, 64)\<close>.\<close>

definition ParseUint :: "string \<Rightarrow> goerr + nat" where
  "ParseUint s =
     (let n = foldl (\<lambda>n c. 10 * n + (of_char c - 48)) 0 s in
      if s = [] \<or> \<not> list_all is_digit s then Inl (External (''strconv.ParseUint: parsing '' @ s @ '': invalid syntax''))
      else if 2 ^ 64 \<le> n then Inl (External (''strconv.ParseUint: parsing '' @ s @ '': value out of range''))
      else Inr n)"

definition param :: "params \<Rightarrow> string \<Rightarrow> string" where
  "param ps k = (case ps k of None \<Rightarrow> [] | Some v \<Rightarrow> v)"

definition extractFromReqParam :: "params \<Rightarrow> nat \<times> string" where
  "extractFromReqParam ps =
     (case ParseUint (param ps ''connectionId'') of Inl e \<Rightarrow> (0, []) | Inr connectionId \<Rightarrow> (connectionId, param ps ''scopeId''))"

section \<open>Pages\<close>

definition pageSize :: int where
  "pageSize = 50"

text \<open>The value of \<open>strconv.Atoi\<close> where its error is ignored: 0 for what is no number, the nearest number for what is out of range.\<close>

definition Atoi_value :: "string \<Rightarrow> int" where
  "Atoi_value s =
     (let negative = (s \<noteq> [] \<and> hd s = CHR ''-''); digits = (if s \<noteq> [] \<and> (hd s = CHR ''-'' \<or> hd s = CHR ''+'') then tl s else s);
          n = foldl (\<lambda>n c. 10 * n + (int (of_char c) - 48)) 0 digits; v = (if negative then - n else n) in
      if digits = [] \<or> \<not> list_all is_digit digits then 0 else max (- (2 ^ 63)) (min (2 ^ 63 - 1) v))"

definition first_value :: "url_values \<Rightarrow> string \<Rightarrow> int" where
  "first_value q k = (case q k of Some (v # _) \<Rightarrow> Atoi_value v | _ \<Rightarrow> 0)"

definition getPageParam :: "url_values \<Rightarrow> string \<Rightarrow> string \<Rightarrow> int \<times> int" where
  "getPageParam q pageSizeKey pageKey =
     (let sz = first_value q pageSizeKey; page = first_value q pageKey in
      (if sz < 1 then pageSize else sz, if page < 1 then 1 else page))"

text \<open>A product of integers of Go wraps around.\<close>

definition wrap64 :: "int \<Rightarrow> int" where
  "wrap64 n = (n + 2 ^ 63) mod 2 ^ 64 - 2 ^ 63"

definition GetLimitOffset :: "url_values \<Rightarrow> string \<Rightarrow> string \<Rightarrow> int \<times> int" where
  "GetLimitOffset q pageSizeKey pageKey =
     (case getPageParam q pageSizeKey pageKey of (sz, page) \<Rightarrow> (sz, wrap64 ((page - 1) * sz)))"

text \<open>\<open>LIMIT\<close> and \<open>OFFSET\<close> of a url_values.\<close>

definition sql_page :: "int \<times> int \<Rightarrow> 'a list \<Rightarrow> 'a list" where
  "sql_page lo rows = take (nat (fst lo)) (drop (nat (snd lo)) rows)"

lemma wrap64_id: "- (2 ^ 63) \<le> n \<Longrightarrow> n < 2 ^ 63 \<Longrightarrow> wrap64 n = n"
  by (simp add: wrap64_def)

end
