(* ===== verification/RemoteScopes.thy ===== *)
theory RemoteScopes
  imports Base64 ApiInput
begin

text \<open>
  Browsing the scopes of a remote service (\<open>helpers/pluginhelper/api/remote_api_helper.go\<close>): groups first, then scopes,
  in pages that a token links. The token is base 64 of the JSON of \<open>RemoteQueryData\<close>; the JSON codec and the two callbacks
  of a plugin are arguments, the callbacks already applied to the connection.
\<close>

record RemoteQueryData =
  qd_Page :: int
  PerPage :: int
  CustomInfo :: string
  qd_Tag :: string
  qd_Search :: "string list"

datatype 'd child_data = NoData | ScopeData 'd

record 'd RemoteScopesChild =
  ch_Type :: string
  ch_ParentId :: "string option"
  ch_Id :: string
  ch_Name :: string
  ch_Data :: "'d child_data"

record ('g, 's) remote =
  marshal :: "RemoteQueryData \<Rightarrow> bytes"
  unmarshal :: "bytes \<Rightarrow> goerr + RemoteQueryData"
  GroupId :: "'g \<Rightarrow> string"
  GroupName :: "'g \<Rightarrow> string"
  ScopeId :: "'s \<Rightarrow> string"
  ScopeName :: "'s \<Rightarrow> string"
  getGroup :: "(string \<Rightarrow> RemoteQueryData \<Rightarrow> goerr + 'g list) option"
  getScope :: "(string \<Rightarrow> RemoteQueryData \<Rightarrow> goerr + 's list) option"

definition remoteScopesPerPage :: int where
  "remoteScopesPerPage = 100"

definition TypeGroup :: string where
  "TypeGroup = ''group''"

definition TypeProject :: string where
  "TypeProject = ''scope''"

section \<open>Tokens\<close>

definition getPageTokenFromPageData :: "('g, 's) remote \<Rightarrow> RemoteQueryData \<Rightarrow> string" where
  "getPageTokenFromPageData r pageData = EncodeToString (marshal r pageData)"

definition first_page :: RemoteQueryData where
  "first_page = \<lparr>qd_Page = 1, PerPage = remoteScopesPerPage, CustomInfo = [], qd_Tag = ''group'', qd_Search = []\<rparr>"

definition getPageDataFromPageToken :: "('g, 's) remote \<Rightarrow> string \<Rightarrow> goerr + RemoteQueryData" where
  "getPageDataFromPageToken r pageToken =
     (if pageToken = [] then Inr first_page
      else (case DecodeString pageToken of
          Inl e \<Rightarrow> Inl (newSingleCrdbError Default (Some e) (''decode pageToken failed '' @ pageToken) None)
        | Inr decoded \<Rightarrow>
            (case unmarshal r decoded of
               Inl e \<Rightarrow> Inl (newSingleCrdbError Default (Some e) (''json Unmarshal pageTokenDecode failed '' @ string_of decoded) None)
             | Inr pt \<Rightarrow> Inr pt)))"

definition PrepareFirstPageToken :: "('g, 's) remote \<Rightarrow> string \<Rightarrow> string" where
  "PrepareFirstPageToken r customInfo = getPageTokenFromPageData r (first_page\<lparr>CustomInfo := customInfo\<rparr>)"

section \<open>A page\<close>

definition parent_of :: "string \<Rightarrow> string option" where
  "parent_of gid = (if gid = [] then None else Some gid)"

definition group_child :: "('g, 's) remote \<Rightarrow> string \<Rightarrow> 'g \<Rightarrow> 's RemoteScopesChild" where
  "group_child r gid g = \<lparr>ch_Type = TypeGroup, ch_ParentId = parent_of gid, ch_Id = GroupId r g, ch_Name = GroupName r g, ch_Data = NoData\<rparr>"

definition scope_child :: "('g, 's) remote \<Rightarrow> string \<Rightarrow> 's \<Rightarrow> 's RemoteScopesChild" where
  "scope_child r gid s = \<lparr>ch_Type = TypeProject, ch_ParentId = parent_of gid, ch_Id = ScopeId r s, ch_Name = ScopeName r s, ch_Data = ScopeData s\<rparr>"

definition list_groups :: "('g, 's) remote \<Rightarrow> string \<Rightarrow> RemoteQueryData \<Rightarrow> goerr + ('s RemoteScopesChild list \<times> RemoteQueryData)" where
  "list_groups r gid q =
     (if qd_Tag q = TypeGroup
      then (case (case getGroup r of None \<Rightarrow> Inr [] | Some get \<Rightarrow> get gid q) of
          Inl e \<Rightarrow> Inl e
        | Inr resBody \<Rightarrow>
            Inr (map (group_child r gid) resBody,
              if int (length resBody) < PerPage q
              then q\<lparr>qd_Tag := TypeProject, qd_Page := 1, PerPage := PerPage q - int (length resBody)\<rparr> else q))
      else Inr ([], q))"

definition list_scopes :: "('g, 's) remote \<Rightarrow> string \<Rightarrow> RemoteQueryData \<Rightarrow> goerr + ('s RemoteScopesChild list \<times> RemoteQueryData option)" where
  "list_scopes r gid q =
     (case getScope r of
        None \<Rightarrow> Inr ([], Some q)
      | Some get \<Rightarrow>
          if qd_Tag q = TypeProject
          then (case get gid q of
              Inl e \<Rightarrow> Inl e
            | Inr resBody \<Rightarrow> Inr (map (scope_child r gid) resBody, if int (length resBody) < PerPage q then None else Some q))
          else Inr ([], Some q))"

definition next_query :: "RemoteQueryData \<Rightarrow> RemoteQueryData" where
  "next_query q = q\<lparr>qd_Page := qd_Page q + 1, PerPage := remoteScopesPerPage\<rparr>"

definition remote_page :: "('g, 's) remote \<Rightarrow> string \<Rightarrow> RemoteQueryData \<Rightarrow> goerr + ('s RemoteScopesChild list \<times> string)" where
  "remote_page r gid q =
     (case list_groups r gid q of
        Inl e \<Rightarrow> Inl e
      | Inr (groups, q1) \<Rightarrow>
          (case list_scopes r gid q1 of
             Inl e \<Rightarrow> Inl e
           | Inr (scopes, q2) \<Rightarrow>
               Inr (groups @ scopes, case q2 of None \<Rightarrow> [] | Some q' \<Rightarrow> getPageTokenFromPageData r (next_query q'))))"

definition query_first :: "url_values \<Rightarrow> string \<Rightarrow> string" where
  "query_first q k = (case q k of Some (v # _) \<Rightarrow> v | _ \<Rightarrow> [])"

definition GetScopesFromRemote :: "('g, 's) remote \<Rightarrow> params \<Rightarrow> goerr option \<Rightarrow> url_values \<Rightarrow> goerr + ('s RemoteScopesChild list \<times> string)" where
  "GetScopesFromRemote r ps connErr q =
     (if fst (extractFromReqParam ps) = 0 then Inl (New BadInput ''invalid connectionId'')
      else (case connErr of Some e \<Rightarrow> Inl e
        | None \<Rightarrow>
            (case getPageDataFromPageToken r (query_first q ''pageToken'') of
               Inl e \<Rightarrow> Inl (New BadInput ''failed to get page token'')
             | Inr queryData \<Rightarrow> remote_page r (query_first q ''groupId'') queryData)))"

section \<open>A search\<close>

text \<open>The error of reading the page is tested under the name of another variable, which is nil there.\<close>

definition SearchRemoteScopes :: "('g, 's) remote \<Rightarrow> params \<Rightarrow> goerr option \<Rightarrow> url_values \<Rightarrow> (RemoteQueryData \<Rightarrow> goerr + 's list)
    \<Rightarrow> goerr + ('s RemoteScopesChild list \<times> int \<times> int)" where
  "SearchRemoteScopes r ps connErr q searchScope =
     (if fst (extractFromReqParam ps) = 0 then Inl (New BadInput ''invalid connectionId'')
      else (case connErr of Some e \<Rightarrow> Inl e
        | None \<Rightarrow>
            let search = (case q ''search'' of None \<Rightarrow> [[]] | Some [] \<Rightarrow> [[]] | Some vs \<Rightarrow> vs);
                p = (case q ''page'' of Some (v # _) \<Rightarrow> Atoi_value v | _ \<Rightarrow> 1) in
            (case (case q ''pageSize'' of
                Some (v # _) \<Rightarrow>
                  (case Atoi v of
                     Inl e \<Rightarrow> Inl (newSingleCrdbError BadInput (Some e) (''failed to Atoi pageSize:'' @ v) None)
                   | Inr n \<Rightarrow> Inr n)
              | _ \<Rightarrow> Inr remoteScopesPerPage) of
               Inl e \<Rightarrow> Inl e
             | Inr n \<Rightarrow>
                 (case searchScope \<lparr>qd_Page = p, PerPage = n, CustomInfo = [], qd_Tag = [], qd_Search = search\<rparr> of
                    Inl e \<Rightarrow> Inl e
                  | Inr resBody \<Rightarrow> Inr (map (scope_child r []) resBody, p, n)))))"

end
