(* ===== verification/RemoteFacts.thy ===== *)
theory RemoteFacts
  imports RemoteScopes
begin

text \<open>
  What a client gets that follows the page tokens of a remote service to the end: all groups, and of the scopes all but
  those that the page shared by both leaves no room for.
\<close>

section \<open>Following the tokens\<close>

fun browse :: "('g, 's) remote \<Rightarrow> string \<Rightarrow> nat \<Rightarrow> string \<Rightarrow> (goerr + 's RemoteScopesChild list) option" where
  "browse r gid 0 token = None"
| "browse r gid (Suc n) token =
     (case getPageDataFromPageToken r token of
        Inl e \<Rightarrow> Some (Inl e)
      | Inr q \<Rightarrow>
          (case remote_page r gid q of
             Inl e \<Rightarrow> Some (Inl e)
           | Inr (children, token') \<Rightarrow>
               if token' = [] then Some (Inr children)
               else (case browse r gid n token' of
                   None \<Rightarrow> None | Some (Inl e) \<Rightarrow> Some (Inl e) | Some (Inr later) \<Rightarrow> Some (Inr (children @ later)))))"

definition group_query :: "nat \<Rightarrow> RemoteQueryData" where
  "group_query k = first_page\<lparr>qd_Page := int k + 1\<rparr>"

definition scope_query :: "nat \<Rightarrow> RemoteQueryData" where
  "scope_query k = first_page\<lparr>qd_Tag := TypeProject, qd_Page := int k + 1\<rparr>"

text \<open>A service that holds lists and cuts pages out of them.\<close>

definition page_slice :: "RemoteQueryData \<Rightarrow> 'a list \<Rightarrow> 'a list" where
  "page_slice q xs = take (nat (PerPage q)) (drop (nat ((qd_Page q - 1) * PerPage q)) xs)"

definition holds_lists :: "('g, 's) remote \<Rightarrow> string \<Rightarrow> 'g list \<Rightarrow> 's list \<Rightarrow> bool" where
  "holds_lists r gid gs ss \<longleftrightarrow>
     (\<exists>get. getGroup r = Some get \<and> (\<forall>q. 1 \<le> qd_Page q \<longrightarrow> 0 < PerPage q \<longrightarrow> get gid q = Inr (page_slice q gs))) \<and>
     (\<exists>get. getScope r = Some get \<and> (\<forall>q. 1 \<le> qd_Page q \<longrightarrow> 0 < PerPage q \<longrightarrow> get gid q = Inr (page_slice q ss))) \<and>
     (\<forall>k. \<forall>q \<in> {group_query k, scope_query k}. marshal r q \<noteq> [] \<and> unmarshal r (marshal r q) = Inr q)"

lemma token_round_trip:
  assumes "holds_lists r gid gs ss" "q \<in> {group_query k, scope_query k}"
  shows "getPageDataFromPageToken r (getPageTokenFromPageData r q) = Inr q" "getPageTokenFromPageData r q \<noteq> []"
proof -
  have m: "marshal r q \<noteq> []" "unmarshal r (marshal r q) = Inr q" using assms by (auto simp: holds_lists_def)
  show "getPageTokenFromPageData r q \<noteq> []"
    using m(1) by (cases "marshal r q" rule: EncodeToString.cases) (simp_all add: getPageTokenFromPageData_def Let_def)
  then show "getPageDataFromPageToken r (getPageTokenFromPageData r q) = Inr q"
    using m(2) by (simp add: getPageDataFromPageToken_def getPageTokenFromPageData_def)
qed

lemma group_slice: "page_slice (group_query k) xs = take 100 (drop (100 * k) xs)"
  by (simp add: page_slice_def group_query_def first_page_def remoteScopesPerPage_def nat_mult_distrib mult.commute)

lemma scope_slice: "page_slice (scope_query k) xs = take 100 (drop (100 * k) xs)"
  by (simp add: page_slice_def scope_query_def first_page_def remoteScopesPerPage_def nat_mult_distrib mult.commute)

lemma query_simps [simp]:
  "qd_Page (group_query k) = int k + 1" "PerPage (group_query k) = 100" "qd_Tag (group_query k) = TypeGroup"
  "qd_Page (scope_query k) = int k + 1" "PerPage (scope_query k) = 100" "qd_Tag (scope_query k) = TypeProject"
  "TypeProject \<noteq> TypeGroup" "TypeGroup \<noteq> TypeProject"
  by (simp_all add: group_query_def scope_query_def first_page_def remoteScopesPerPage_def TypeProject_def TypeGroup_def)

lemma holds_listsD:
  assumes "holds_lists r gid gs ss"
  obtains get get' where "getGroup r = Some get" "getScope r = Some get'"
    "\<And>q. 1 \<le> qd_Page q \<Longrightarrow> 0 < PerPage q \<Longrightarrow> get gid q = Inr (page_slice q gs)"
    "\<And>q. 1 \<le> qd_Page q \<Longrightarrow> 0 < PerPage q \<Longrightarrow> get' gid q = Inr (page_slice q ss)"
  using assms unfolding holds_lists_def by (elim conjE exE) blast

lemma scope_page:
  assumes "holds_lists r gid gs ss"
  shows "remote_page r gid (scope_query k) = Inr (map (scope_child r gid) (take 100 (drop (100 * k) ss)),
    if length ss < 100 * Suc k then [] else getPageTokenFromPageData r (scope_query (Suc k)))"
proof -
  obtain get where get: "getScope r = Some get" "get gid (scope_query k) = Inr (take 100 (drop (100 * k) ss))"
    by (rule holds_listsD [OF assms]) (simp add: scope_slice)
  have "next_query (scope_query k) = scope_query (Suc k)"
    by (simp add: next_query_def scope_query_def first_page_def)
  moreover have "int (length (take 100 (drop (100 * k) ss))) < 100 \<longleftrightarrow> length ss < 100 * Suc k" by auto
  ultimately show ?thesis using get by (simp add: remote_page_def list_groups_def list_scopes_def)
qed

lemma browse_scopes:
  assumes "holds_lists r gid gs ss"
  shows "\<exists>n. browse r gid n (getPageTokenFromPageData r (scope_query k)) = Some (Inr (map (scope_child r gid) (drop (100 * k) ss)))"
proof (induction "length ss - 100 * k" arbitrary: k rule: less_induct)
  case less
  note tok = token_round_trip [OF assms, of "scope_query j" j for j, simplified]
  show ?case
  proof (cases "length ss < 100 * Suc k")
    case True
    then have "browse r gid (Suc 0) (getPageTokenFromPageData r (scope_query k)) =
        Some (Inr (map (scope_child r gid) (drop (100 * k) ss)))"
      by (simp add: tok scope_page [OF assms])
    then show ?thesis by blast
  next
    case False
    then have "length ss - 100 * Suc k < length ss - 100 * k" by simp
    from less [OF this] obtain n where
      n: "browse r gid n (getPageTokenFromPageData r (scope_query (Suc k))) = Some (Inr (map (scope_child r gid) (drop (100 * Suc k) ss)))"
      by blast
    have "drop (100 * k) ss = take 100 (drop (100 * k) ss) @ drop (100 * Suc k) ss"
      by (metis append_take_drop_id drop_drop mult_Suc_right add.commute)
    then have "map (scope_child r gid) (drop (100 * k) ss) =
        map (scope_child r gid) (take 100 (drop (100 * k) ss)) @ map (scope_child r gid) (drop (100 * Suc k) ss)"
      by (metis map_append)
    then have "browse r gid (Suc n) (getPageTokenFromPageData r (scope_query k)) =
        Some (Inr (map (scope_child r gid) (drop (100 * k) ss)))"
      using False n by (simp add: tok scope_page [OF assms] del: mult_Suc_right)
    then show ?thesis by blast
  qed
qed

lemma group_page_full:
  assumes "holds_lists r gid gs ss" and "100 * Suc k \<le> length gs"
  shows "remote_page r gid (group_query k) =
    Inr (map (group_child r gid) (take 100 (drop (100 * k) gs)), getPageTokenFromPageData r (group_query (Suc k)))"
proof -
  obtain get where get: "getGroup r = Some get" "get gid (group_query k) = Inr (take 100 (drop (100 * k) gs))"
    by (rule holds_listsD [OF assms(1)]) (simp add: group_slice)
  obtain get' where "getScope r = Some get'" by (rule holds_listsD [OF assms(1)])
  moreover have "next_query (group_query k) = group_query (Suc k)"
    by (simp add: next_query_def group_query_def first_page_def)
  moreover have "length (take 100 (drop (100 * k) gs)) = 100" using assms(2) by simp
  ultimately show ?thesis using get by (simp add: remote_page_def list_groups_def list_scopes_def)
qed

lemma group_page_last:
  assumes "holds_lists r gid gs ss" and "length gs < 100 * Suc k" and "room = 100 - length (drop (100 * k) gs)"
  shows "remote_page r gid (group_query k) =
    Inr (map (group_child r gid) (drop (100 * k) gs) @ map (scope_child r gid) (take room ss),
      if length ss < room then [] else getPageTokenFromPageData r (scope_query 1))"
proof -
  have take: "take 100 (drop (100 * k) gs) = drop (100 * k) gs" using assms(2) by simp
  obtain get where get: "getGroup r = Some get" "get gid (group_query k) = Inr (drop (100 * k) gs)"
    by (rule holds_listsD [OF assms(1)]) (simp add: group_slice take)
  have room: "0 < room" "int room = 100 - int (length (drop (100 * k) gs))" using assms(2,3) by simp_all
  define q where "q = (group_query k)\<lparr>qd_Tag := TypeProject, qd_Page := 1, PerPage := 100 - int (length (drop (100 * k) gs))\<rparr>"
  have q: "qd_Tag q = TypeProject" "qd_Page q = 1" "PerPage q = int room" by (simp_all add: q_def room(2))
  obtain get' where get': "getScope r = Some get'" "get' gid q = Inr (take room ss)"
    by (rule holds_listsD [OF assms(1)]) (use room(1) q in \<open>simp add: page_slice_def\<close>)
  have groups: "list_groups r gid (group_query k) = Inr (map (group_child r gid) (drop (100 * k) gs), q)"
    using get room by (simp add: list_groups_def q_def)
  have nxt: "next_query q = scope_query 1"
    by (simp add: next_query_def q_def scope_query_def group_query_def first_page_def remoteScopesPerPage_def)
  have scopes: "list_scopes r gid q = Inr (map (scope_child r gid) (take room ss), if length ss < room then None else Some q)"
    using get' q by (auto simp: list_scopes_def)
  show ?thesis by (simp add: remote_page_def groups scopes nxt)
qed

lemma browse_groups:
  assumes "holds_lists r gid gs ss"
  shows "100 * k \<le> length gs \<Longrightarrow> \<exists>n. browse r gid n (getPageTokenFromPageData r (group_query k)) =
    Some (Inr (map (group_child r gid) (drop (100 * k) gs) @
      map (scope_child r gid) (take (100 - length gs mod 100) ss @ drop 100 ss)))"
proof (induction "length gs - 100 * k" arbitrary: k rule: less_induct)
  case less
  note tok = token_round_trip [OF assms, of "group_query j" j for j, simplified]
    token_round_trip [OF assms, of "scope_query j" j for j, simplified]
  show ?case
  proof (cases "length gs < 100 * Suc k")
    case True
    define room where "room = 100 - length (drop (100 * k) gs)"
    have "length gs mod 100 = length (drop (100 * k) gs)"
    proof -
      define rest where "rest = length (drop (100 * k) gs)"
      have "length gs = rest + 100 * k" "rest < 100" using True less.prems by (simp_all add: rest_def)
      then show ?thesis by (simp flip: rest_def)
    qed
    then have room: "room = 100 - length gs mod 100" by (simp add: room_def)
    note page = group_page_last [OF assms True room_def]
    show ?thesis
    proof (cases "length ss < room")
      case True
      then have "drop 100 ss = []" by (simp add: room)
      with True have "browse r gid (Suc 0) (getPageTokenFromPageData r (group_query k)) =
          Some (Inr (map (group_child r gid) (drop (100 * k) gs) @
            map (scope_child r gid) (take (100 - length gs mod 100) ss @ drop 100 ss)))"
        by (simp add: tok page flip: room)
      then show ?thesis by blast
    next
      case False
      obtain n where "browse r gid n (getPageTokenFromPageData r (scope_query 1)) = Some (Inr (map (scope_child r gid) (drop 100 ss)))"
        using browse_scopes [OF assms, of 1] by auto
      with False have "browse r gid (Suc n) (getPageTokenFromPageData r (group_query k)) =
          Some (Inr (map (group_child r gid) (drop (100 * k) gs) @
            map (scope_child r gid) (take (100 - length gs mod 100) ss @ drop 100 ss)))"
        by (simp add: tok page flip: room)
      then show ?thesis by blast
    qed
  next
    case False
    then have "length gs - 100 * Suc k < length gs - 100 * k" "100 * Suc k \<le> length gs" by simp_all
    from less.hyps [OF this] obtain n where
      n: "browse r gid n (getPageTokenFromPageData r (group_query (Suc k))) = Some (Inr (map (group_child r gid) (drop (100 * Suc k) gs) @
        map (scope_child r gid) (take (100 - length gs mod 100) ss @ drop 100 ss)))"
      by blast
    have "drop (100 * k) gs = take 100 (drop (100 * k) gs) @ drop (100 * Suc k) gs"
      by (metis append_take_drop_id drop_drop mult_Suc_right add.commute)
    then have "map (group_child r gid) (drop (100 * k) gs) =
        map (group_child r gid) (take 100 (drop (100 * k) gs)) @ map (group_child r gid) (drop (100 * Suc k) gs)"
      by (metis map_append)
    then have "browse r gid (Suc n) (getPageTokenFromPageData r (group_query k)) =
        Some (Inr (map (group_child r gid) (drop (100 * k) gs) @
          map (scope_child r gid) (take (100 - length gs mod 100) ss @ drop 100 ss)))"
      using n group_page_full [OF assms \<open>100 * Suc k \<le> length gs\<close>] by (simp add: tok del: mult_Suc_right map_append)
    then show ?thesis by blast
  qed
qed

text \<open>C38. What browsing a remote service to the end lists: every group once, in order, and the scopes without those numbered from
  100 less the groups on the last page of groups up to 100. So nothing is lost exactly if the last page of groups is full or the
  scopes fit beside its groups; the page that both share counts as the first full page of scopes.\<close>

theorem browse_lists:
  assumes "holds_lists r gid gs ss"
  shows "\<exists>n. browse r gid n [] = Some (Inr (map (group_child r gid) gs @
    map (scope_child r gid) (take (100 - length gs mod 100) ss @ drop 100 ss)))"
proof -
  have "getPageDataFromPageToken r [] = getPageDataFromPageToken r (getPageTokenFromPageData r (group_query 0))"
    using token_round_trip(1) [OF assms, of "group_query 0" 0] by (simp add: getPageDataFromPageToken_def group_query_def first_page_def)
  then have "browse r gid n [] = browse r gid n (getPageTokenFromPageData r (group_query 0))" for n by (cases n) simp_all
  with browse_groups [OF assms, of 0] show ?thesis by simp
qed

text \<open>A service with 30 groups and 120 scopes, with a codec for its queries.\<close>

definition sample_marshal :: "RemoteQueryData \<Rightarrow> bytes" where
  "sample_marshal q = (if qd_Tag q = TypeGroup then 1 else 2) # replicate (nat (qd_Page q - 1)) 0"

definition sample_unmarshal :: "bytes \<Rightarrow> goerr + RemoteQueryData" where
  "sample_unmarshal bs = (case bs of [] \<Rightarrow> Inl (External ''json'') | b # rest \<Rightarrow>
     Inr (if b = 1 then group_query (length rest) else scope_query (length rest)))"

definition sample_remote :: "(nat, nat) remote" where
  "sample_remote = \<lparr>marshal = sample_marshal, unmarshal = sample_unmarshal, GroupId = show_nat, GroupName = show_nat, ScopeId = show_nat,
     ScopeName = show_nat, getGroup = Some (\<lambda>gid q. Inr (page_slice q [0..<30])), getScope = Some (\<lambda>gid q. Inr (page_slice q [0..<120]))\<rparr>"

lemma sample_holds: "holds_lists sample_remote [] [0..<30] [0..<120]"
  by (auto simp: holds_lists_def sample_remote_def sample_marshal_def sample_unmarshal_def)

theorem browse_lists_witness:
  "\<exists>n. browse sample_remote [] n [] = Some (Inr (map (group_child sample_remote []) [0..<30] @
    map (scope_child sample_remote []) ([0..<70] @ [100..<120])))"
proof -
  have "take (100 - length [0..<30] mod 100) [0..<120] @ drop 100 [0..<120] = [0..<70] @ [100..<120]"
    by (simp add: drop_upt take_upt)
  with browse_lists [OF sample_holds] show ?thesis by simp
qed

section \<open>A search\<close>

text \<open>The page of a search is not checked: a \<open>page\<close> that is no number is taken for page 0 without an error, since the error of reading it
  is tested under the wrong name, while the same value as \<open>pageSize\<close> is refused.\<close>

theorem search_page_unchecked:
  assumes "Atoi v = Inl e" and "Atoi_value v = 0" and "fst (extractFromReqParam ps) \<noteq> 0"
    and "q ''page'' = Some [v]" and "q ''pageSize'' = None" and "q ''search'' = Some [w]"
    and "searchScope \<lparr>qd_Page = 0, PerPage = 100, CustomInfo = [], qd_Tag = [], qd_Search = [w]\<rparr> = Inr found"
  shows "SearchRemoteScopes r ps None q searchScope = Inr (map (scope_child r []) found, 0, 100) \<and>
    (\<exists>err. SearchRemoteScopes r ps None (q(''page'' := None, ''pageSize'' := Some [v])) searchScope = Inl err)"
  using assms by (simp add: SearchRemoteScopes_def Let_def remoteScopesPerPage_def)

theorem search_page_unchecked_witness:
  "\<exists>children. SearchRemoteScopes sample_remote [''connectionId'' \<mapsto> ''1''] None [''page'' \<mapsto> [''next''], ''search'' \<mapsto> [''a'']] (\<lambda>_. Inr [7]) =
    Inr (children, 0, 100)"
proof -
  have "\<exists>e. Atoi ''next'' = Inl e" "Atoi_value ''next'' = 0" by (simp_all add: Atoi_def Atoi_value_def is_digit_def)
  moreover have "fst (extractFromReqParam [''connectionId'' \<mapsto> ''1'']) \<noteq> 0"
    by (simp add: extractFromReqParam_def param_def ParseUint_def is_digit_def)
  ultimately show ?thesis
    using search_page_unchecked [of "''next''" _ "[''connectionId'' \<mapsto> ''1'']" "[''page'' \<mapsto> [''next''], ''search'' \<mapsto> [''a'']]"
      "''a''" "\<lambda>_. Inr [7]" "[7]" sample_remote] by auto
qed

end
