(* ===== verification/Stateful.thy ===== *)
theory Stateful
  imports CollectorPages
begin

text \<open>
  Collections that remember how far they got (\<open>helpers/pluginhelper/api/api_collector_with_state.go\<close>,
  \<open>core/models/collector_state.go\<close>): the row of the latest success decides whether a run is incremental, and the parser of a list
  sorted by creation stops the paging at the first record that an earlier run has collected. Times are nanoseconds.
\<close>

record CollectorLatestState =
  cl_RawDataTable :: string
  cl_RawDataParams :: string
  LatestSuccessStart :: "int option"
  cl_TimeAfter :: "int option"

record ApiCollectorStateManager =
  am_LatestState :: CollectorLatestState
  am_TimeAfter :: "int option"
  ExecuteStart :: int

definition state_row :: "string \<Rightarrow> string \<Rightarrow> CollectorLatestState list \<Rightarrow> CollectorLatestState option" where
  "state_row table params rows = find (\<lambda>r. cl_RawDataTable r = table \<and> cl_RawDataParams r = params) rows"

definition NewStatefulApiCollector :: "string \<Rightarrow> string \<Rightarrow> int option \<Rightarrow> int \<Rightarrow> goerr option \<Rightarrow> CollectorLatestState list
    \<Rightarrow> goerr + ApiCollectorStateManager" where
  "NewStatefulApiCollector table params timeAfter now first_err rows =
     (case first_err of
        Some e \<Rightarrow> Inl (newSingleCrdbError Default (Some e) ''failed to load JiraLatestCollectorMeta'' None)
      | None \<Rightarrow>
          Inr \<lparr>am_LatestState = (case state_row table params rows of Some r \<Rightarrow> r
              | None \<Rightarrow> \<lparr>cl_RawDataTable = table, cl_RawDataParams = params, LatestSuccessStart = None, cl_TimeAfter = None\<rparr>),
            am_TimeAfter = timeAfter, ExecuteStart = now\<rparr>)"

definition IsIncremental :: "ApiCollectorStateManager \<Rightarrow> bool" where
  "IsIncremental m =
     (if LatestSuccessStart (am_LatestState m) = None then False
      else (case am_TimeAfter m of
          Some t \<Rightarrow> (case cl_TimeAfter (am_LatestState m) of None \<Rightarrow> True | Some t0 \<Rightarrow> \<not> t < t0)
        | None \<Rightarrow> cl_TimeAfter (am_LatestState m) = None))"

definition created_after :: "ApiCollectorStateManager \<Rightarrow> int option" where
  "created_after m = (if IsIncremental m then LatestSuccessStart (am_LatestState m) else am_TimeAfter m)"

text \<open>\<open>CreateOrUpdate\<close> of the row.\<close>

definition save_state :: "CollectorLatestState \<Rightarrow> CollectorLatestState list \<Rightarrow> CollectorLatestState list" where
  "save_state r rows =
     (if state_row (cl_RawDataTable r) (cl_RawDataParams r) rows = None then rows @ [r]
      else map (\<lambda>x. if cl_RawDataTable x = cl_RawDataTable r \<and> cl_RawDataParams x = cl_RawDataParams r then r else x) rows)"

text \<open>A collector of the manager, as a function of the raw table: the rows, with their parameters. \<open>outcome\<close> is what the threads of
  the collection return and the data they save.\<close>

type_synonym 'd raw_table = "(string \<times> 'd) list"

definition collector_subtask :: "bool \<Rightarrow> string \<Rightarrow> goerr option \<times> 'd list \<Rightarrow> 'd raw_table \<Rightarrow> goerr option \<times> 'd raw_table" where
  "collector_subtask incremental params outcome raw =
     (case Execute_begin None None incremental None 1 params raw of
        (Inl r, raw') \<Rightarrow> (r, raw')
      | (Inr tick, raw') \<Rightarrow> (fst outcome, raw' @ map (Pair params) (snd outcome)))"

fun run_collectors :: "('d raw_table \<Rightarrow> goerr option \<times> 'd raw_table) list \<Rightarrow> 'd raw_table \<Rightarrow> goerr option \<times> 'd raw_table" where
  "run_collectors [] raw = (None, raw)"
| "run_collectors (f # fs) raw =
     (case f raw of
        (Some err, raw') \<Rightarrow> (Some err, raw')
      | (None, raw') \<Rightarrow> run_collectors fs raw')"

definition manager_Execute :: "ApiCollectorStateManager \<Rightarrow> ('d raw_table \<Rightarrow> goerr option \<times> 'd raw_table) list \<Rightarrow> goerr option
    \<Rightarrow> 'd raw_table \<Rightarrow> CollectorLatestState list \<Rightarrow> goerr option \<times> 'd raw_table \<times> CollectorLatestState list" where
  "manager_Execute m subtasks save_err raw rows =
     (case run_collectors subtasks raw of
        (Some err, raw') \<Rightarrow> (Some err, raw', rows)
      | (None, raw') \<Rightarrow>
          let r = (am_LatestState m)\<lparr>LatestSuccessStart := Some (ExecuteStart m), cl_TimeAfter := am_TimeAfter m\<rparr> in
          if save_err \<noteq> None then (save_err, raw', rows) else (None, raw', save_state r rows))"

text \<open>The collectors of an entity that is finalized: new records by a list, then the details of the unfinished ones.\<close>

definition finalizable_subtasks :: "ApiCollectorStateManager \<Rightarrow> goerr option \<times> 'd list \<Rightarrow> goerr option \<times> 'd list
    \<Rightarrow> ('d raw_table \<Rightarrow> goerr option \<times> 'd raw_table) list" where
  "finalizable_subtasks m new details =
     [collector_subtask (IsIncremental m) (cl_RawDataParams (am_LatestState m)) new,
      collector_subtask True (cl_RawDataParams (am_LatestState m)) details]"

section \<open>The parser of a sorted list\<close>

definition finalizable_parser :: "int option \<Rightarrow> ('d \<Rightarrow> goerr + int) option \<Rightarrow> 'd parsed \<Rightarrow> 'd parsed" where
  "finalizable_parser createdAfter getCreated p =
     (case p of
        ParseError e \<Rightarrow> ParseError e
      | ParsedLast items \<Rightarrow> ParsedLast []
      | Parsed items \<Rightarrow>
          if items = [] then Parsed []
          else (case (createdAfter, getCreated) of
              (Some t, Some get) \<Rightarrow>
                (case get (hd items) of
                   Inl e \<Rightarrow> ParseError e
                 | Inr firstCreated \<Rightarrow>
                     if firstCreated < t then ParsedLast []
                     else (case get (last items) of
                         Inl e \<Rightarrow> ParseError e
                       | Inr lastCreated \<Rightarrow> if lastCreated < t then ParsedLast items else Parsed items))
            | _ \<Rightarrow> Parsed items))"

end
