(* ===== verification/StatefulFacts.thy ===== *)
theory StatefulFacts
  imports Stateful
begin

text \<open>
  What a stateful collection has after its runs: a list collector saves the pages that hold a new record, and successful runs
  with whatever filters leave no gap; but a full collection that fails has deleted what the next incremental one builds on.
\<close>

section \<open>The list collector\<close>

definition list_reply :: "ApiCollectorArgs \<Rightarrow> int option \<Rightarrow> ('d \<Rightarrow> int) \<Rightarrow> 'd list \<Rightarrow> ('i, 'c) request \<Rightarrow> 'd reply" where
  "list_reply a createdAfter created items rq = Reply 200 [] (finalizable_parser createdAfter (Some (\<lambda>d. Inr (created d)))
     (Parsed (take (nat (ca_PageSize a)) (drop (nat (rq_skip rq)) items))))"

text \<open>The records to collect: those created at or after the time, at the front of a list that is sorted by descending creation.\<close>

definition is_new :: "int option \<Rightarrow> ('d \<Rightarrow> int) \<Rightarrow> 'd \<Rightarrow> bool" where
  "is_new createdAfter created d \<longleftrightarrow> (case createdAfter of None \<Rightarrow> True | Some t \<Rightarrow> t \<le> created d)"

definition new_count :: "int option \<Rightarrow> ('d \<Rightarrow> int) \<Rightarrow> 'd list \<Rightarrow> nat" where
  "new_count createdAfter created items = length (filter (is_new createdAfter created) items)"

definition newest_listed :: "('d \<Rightarrow> int) \<Rightarrow> 'd list \<Rightarrow> bool" where
  "newest_listed created items \<longleftrightarrow> sorted_wrt (\<lambda>x y. created y \<le> created x) items"

definition serves_sorted :: "ApiCollectorArgs \<Rightarrow> ('i, 'c, 'd) api \<Rightarrow> int option \<Rightarrow> ('d \<Rightarrow> int) \<Rightarrow> 'd list \<Rightarrow> bool" where
  "serves_sorted a api createdAfter created items \<longleftrightarrow> steady api (list_reply a createdAfter created items) \<and>
     (\<forall>rq. insert_err api rq = None) \<and> (\<forall>rq. \<exists>c. next_custom api rq = Inr c) \<and> newest_listed created items"

lemma filter_prefix:
  assumes "sorted_wrt (\<lambda>x y. P y \<longrightarrow> P x) xs"
  shows "filter P xs = take (length (filter P xs)) xs"
  using assms
proof (induction xs)
  case (Cons x xs)
  show ?case
  proof (cases "P x")
    case False
    with Cons.prems have "filter P xs = []" by (auto simp: filter_empty_conv)
    with False show ?thesis by simp
  qed (use Cons in simp)
qed simp

lemma new_prefix:
  assumes "newest_listed created items"
  shows "filter (is_new createdAfter created) items = take (new_count createdAfter created items) items"
  unfolding new_count_def
proof (rule filter_prefix)
  show "sorted_wrt (\<lambda>x y. is_new createdAfter created y \<longrightarrow> is_new createdAfter created x) items"
    using assms unfolding newest_listed_def
    by (rule sorted_wrt_mono_rel [rotated]) (auto simp: is_new_def split: option.splits)
qed

lemma new_nth:
  assumes "newest_listed created items" "j < length items"
  shows "is_new createdAfter created (items ! j) \<longleftrightarrow> j < new_count createdAfter created items"
proof
  let ?P = "is_new createdAfter created" and ?m = "new_count createdAfter created items"
  assume new: "?P (items ! j)"
  show "j < ?m"
  proof (rule ccontr)
    assume "\<not> j < ?m"
    have split: "filter ?P items = filter ?P (take ?m items) @ filter ?P (drop ?m items)"
      by (metis append_take_drop_id filter_append)
    have "filter ?P (take ?m items) = take ?m items"
      by (simp flip: new_prefix [OF assms(1), of createdAfter])
    with split have "filter ?P (drop ?m items) = []"
      using new_prefix [OF assms(1), of createdAfter] by simp
    moreover have "items ! j \<in> set (drop ?m items)"
      using \<open>\<not> j < ?m\<close> assms(2) nth_drop [of ?m items "j - ?m"]
      by (auto simp: in_set_conv_nth intro!: exI [of _ "j - ?m"])
    ultimately show False using new by (auto simp: filter_empty_conv)
  qed
next
  let ?m = "new_count createdAfter created items"
  assume j: "j < ?m"
  then have "items ! j = take ?m items ! j" by simp
  also have "\<dots> = filter (is_new createdAfter created) items ! j" by (simp only: new_prefix [OF assms(1)])
  also have "\<dots> \<in> set (filter (is_new createdAfter created) items)"
    using j by (intro nth_mem) (simp add: new_count_def)
  finally show "is_new createdAfter created (items ! j)" by simp
qed

text \<open>What the parser makes of a page: nothing of one that starts with an old record, and the end of the paging of one that ends with
  one.\<close>

lemma parser_new:
  assumes "xs \<noteq> []"
  shows "finalizable_parser createdAfter (Some (\<lambda>d. Inr (created d))) (Parsed xs) =
    (if \<not> is_new createdAfter created (hd xs) then ParsedLast []
     else if \<not> is_new createdAfter created (last xs) then ParsedLast xs else Parsed xs)"
  using assms by (auto simp: finalizable_parser_def is_new_def split: option.splits)

definition list_rows :: "nat \<Rightarrow> nat \<Rightarrow> 'd list \<Rightarrow> nat \<Rightarrow> 'd list" where
  "list_rows ps m items p = (if m \<le> p * ps then [] else page_of ps items p)"

lemma page_ends:
  assumes "page_of ps items p \<noteq> []"
  shows "hd (page_of ps items p) = items ! (p * ps)" "p * ps < length items"
    and "last (page_of ps items p) = items ! (p * ps + length (page_of ps items p) - 1)"
    and "p * ps + length (page_of ps items p) \<le> length items"
proof -
  show lt: "p * ps < length items" using assms by (auto simp: page_of_def not_less)
  show "hd (page_of ps items p) = items ! (p * ps)" using assms lt by (auto simp: page_of_def hd_conv_nth)
  show len: "p * ps + length (page_of ps items p) \<le> length items" using lt by (simp add: page_of_def)
  have "last (page_of ps items p) = page_of ps items p ! (length (page_of ps items p) - 1)" using assms by (rule last_conv_nth)
  moreover have "page_of ps items p ! (length (page_of ps items p) - 1) = items ! (p * ps + (length (page_of ps items p) - 1))"
    using assms lt by (auto simp: page_of_def)
  moreover have "p * ps + (length (page_of ps items p) - 1) = p * ps + length (page_of ps items p) - 1"
    using assms by (cases "page_of ps items p") simp_all
  ultimately show "last (page_of ps items p) = items ! (p * ps + length (page_of ps items p) - 1)" by simp
qed

lemma new_count_le: "new_count createdAfter created items \<le> length items"
  by (simp add: new_count_def)

lemma list_page_result:
  fixes rq :: "('i, 'c) request" and api :: "('i, 'c, 'd) api"
  assumes "serves_sorted a api createdAfter created items" "ca_PageSize a = int ps" "0 < ps" "chain_cont c cont"
    and "rq_skip rq = int (p * ps)"
  defines "m \<equiv> new_count createdAfter created items"
    and "result \<equiv> page_result a api (list_reply a createdAfter created items) (rq, cont)"
  shows "map snd (fst result) = list_rows ps m items p \<and>
    (if m < Suc p * ps then snd result = [] else \<exists>rq'. snd result = [(rq', cont)] \<and> rq_skip rq' = int ((p + c) * ps))"
proof -
  define xs where "xs = page_of ps items p"
  have reply: "list_reply a createdAfter created items rq = Reply 200 []
      (finalizable_parser createdAfter (Some (\<lambda>d. Inr (created d))) (Parsed xs))"
    by (simp add: list_reply_def assms(2,5) xs_def page_of_def nat_mult_distrib)
  have ins: "insert_err api rq = None" and custom: "\<exists>c. next_custom api rq = Inr c" and sorted: "newest_listed created items"
    using assms(1) by (auto simp: serves_sorted_def)
  note handler = result_def page_result_def reply responseHandler_def save_page_def ins after_page_def next_tokens_def comp_def
  show ?thesis
  proof (cases "xs = []")
    case True
    then have "length items \<le> p * ps" using assms(3) by (simp add: xs_def page_of_def)
    with new_count_le [of createdAfter created items] have "m \<le> p * ps" by (simp add: m_def)
    with True assms(3) show ?thesis
      by (simp add: handler finalizable_parser_def list_rows_def)
  next
    case False
    note ends = page_ends [OF False [unfolded xs_def], folded xs_def]
    have "0 < length xs" using False by simp
    have first: "is_new createdAfter created (hd xs) \<longleftrightarrow> p * ps < m"
      unfolding ends(1) m_def by (rule new_nth [OF sorted ends(2)])
    have last: "is_new createdAfter created (last xs) \<longleftrightarrow> p * ps + length xs - 1 < m"
      unfolding ends(3) m_def by (rule new_nth [OF sorted]) (use ends(4) \<open>0 < length xs\<close> in linarith)
    have len: "length xs \<le> ps" by (simp add: xs_def page_of_def)
    consider (old) "m \<le> p * ps" | (mixed) "p * ps < m" "m \<le> p * ps + length xs - 1" | (new) "p * ps + length xs - 1 < m" "p * ps < m"
      by linarith
    then show ?thesis
    proof cases
      case old
      with first False assms(3) show ?thesis by (simp add: handler parser_new list_rows_def)
    next
      case mixed
      then have "m < Suc p * ps" using len by simp
      with mixed first last False show ?thesis by (simp add: handler parser_new list_rows_def flip: xs_def)
    next
      case new
      then have parsed: "finalizable_parser createdAfter (Some (\<lambda>d. Inr (created d))) (Parsed xs) = Parsed xs"
        using first last False by (simp add: parser_new)
      show ?thesis
      proof (cases "length xs < ps")
        case True
        then have "length items < Suc p * ps" unfolding xs_def page_of_short .
        with new_count_le [of createdAfter created items] have "m < Suc p * ps" by (simp add: m_def)
        with True new False assms(2,4) parsed show ?thesis
          by (auto simp: handler list_rows_def chain_cont_def simp flip: xs_def)
      next
        case full: False
        with new len have "\<not> m < Suc p * ps" by simp
        with full new False assms(2,4,5) parsed custom show ?thesis
          by (auto simp: handler list_rows_def chain_cont_def next_page_def algebra_simps simp flip: xs_def)
      qed
    qed
  qed
qed

section \<open>A list collection is complete\<close>

text \<open>The pages that hold a new record.\<close>

definition new_pages :: "nat \<Rightarrow> nat \<Rightarrow> nat" where
  "new_pages ps m = (m + ps - 1) div ps"

lemma new_pages_le: "0 < ps \<Longrightarrow> m \<le> p * ps \<longleftrightarrow> new_pages ps m \<le> p"
proof -
  assume ps: "0 < ps"
  have "new_pages ps m \<le> p \<longleftrightarrow> new_pages ps m < Suc p" by linarith
  also have "\<dots> \<longleftrightarrow> m + ps - 1 < Suc p * ps" unfolding new_pages_def using ps by (rule div_less_iff_less_mult)
  also have "\<dots> \<longleftrightarrow> m \<le> p * ps" using ps by auto
  finally show ?thesis by simp
qed

lemma rows_all:
  assumes "0 < ps" "m \<le> n * ps"
  shows "(\<Sum>p < n. mset (list_rows ps m items p)) = mset (take (new_pages ps m * ps) items)"
proof -
  have "new_pages ps m \<le> n" using assms by (simp flip: new_pages_le)
  have "(\<Sum>p < n. mset (list_rows ps m items p)) = (\<Sum>p < new_pages ps m. mset (page_of ps items p))"
  proof (rule sum.mono_neutral_cong_right)
    show "{..<new_pages ps m} \<subseteq> {..<n}" using \<open>new_pages ps m \<le> n\<close> by auto
  qed (auto simp: list_rows_def new_pages_le [OF assms(1)])
  then show ?thesis by (simp only: pages_all)
qed

abbreviation listed :: "ApiCollectorArgs \<Rightarrow> ('i, 'c, 'd) api \<Rightarrow> int option \<Rightarrow> ('d \<Rightarrow> int) \<Rightarrow> 'd list \<Rightarrow> nat \<Rightarrow> ('i, 'c) token
    \<Rightarrow> 'd multiset" where
  "listed a api t created items n tok \<equiv> image_mset snd (collected a api (list_reply a t created items) n tok)"

lemma list_chain:
  fixes rq :: "('i, 'c) request" and api :: "('i, 'c, 'd) api"
  assumes "serves_sorted a api t created items" "ca_PageSize a = int ps" "0 < ps" "chain_cont c cont" "0 < c"
    and "rq_skip rq = int (i * ps)" "new_count t created items < Suc (i + n * c) * ps"
  shows "deep a api (list_reply a t created items) n (rq, cont) \<and>
    listed a api t created items n (rq, cont) = (\<Sum>j < Suc n. mset (list_rows ps (new_count t created items) items (i + j * c)))"
proof (rule chain_collected [where is_page = "\<lambda>r p. rq_skip r = int (p * ps)"
      and stop = "\<lambda>p. new_count t created items < Suc p * ps"])
  fix r :: "('i, 'c) request" and p
  assume r: "rq_skip r = int (p * ps)"
  show "map snd (fst (page_result a api (list_reply a t created items) (r, cont))) = list_rows ps (new_count t created items) items p \<and>
      (if new_count t created items < Suc p * ps then snd (page_result a api (list_reply a t created items) (r, cont)) = []
       else \<exists>rq'. snd (page_result a api (list_reply a t created items) (r, cont)) = [(rq', cont)] \<and> rq_skip rq' = int ((p + c) * ps))"
    by (rule list_page_result [OF assms(1-4) r])
next
  fix p q assume "new_count t created items < Suc p * ps" "p < q"
  moreover have "Suc p * ps \<le> q * ps" using \<open>p < q\<close> by (intro mult_le_mono1) simp
  ultimately show "list_rows ps (new_count t created items) items q = []" by (simp add: list_rows_def)
qed (use assms in simp_all)

lemma list_exec:
  fixes api :: "('i, 'c, 'd) api" and inp :: "'i option"
  assumes "serves_sorted a api t created items" "ca_PageSize a = int ps" "0 < ps" "\<not> ca_Total a"
    and "concurrency_of a = int c" "0 < c"
  defines "m \<equiv> new_count t created items"
  shows "list_all (deep a api (list_reply a t created items) m) (exec_tokens a inp) \<and>
    sum_list (map (listed a api t created items m) (exec_tokens a inp)) = mset (take (new_pages ps m * ps) items)"
proof (cases "ca_Sequential a")
  case True
  then have tok: "exec_tokens a inp = [(first_request a inp, Sequentially)]"
    using assms(2,3) by (simp add: exec_tokens_def exec_input_def Let_def)
  have less: "m < Suc (0 + m * 1) * ps" by (rule enough_pages [OF assms(3)]) simp_all
  have chain: "chain_cont 1 Sequentially" by (simp add: chain_cont_def)
  have skip: "rq_skip (first_request a inp) = int (0 * ps)" by simp
  note one = list_chain [OF assms(1-3) chain _ skip, of m, folded m_def, OF _ less]
  have "m \<le> Suc m * ps" using less by simp
  then show ?thesis using one rows_all [OF assms(3), of m "Suc m" items] by (simp add: tok del: sum.lessThan_Suc mult_Suc)
next
  case False
  define rq :: "int \<Rightarrow> ('i, 'c) request" where "rq i = \<lparr>rq_input = inp, rq_page = i + 1, rq_skip = ca_PageSize a * i,
      rq_size = ca_PageSize a, rq_custom = None\<rparr>" for i
  have tok: "exec_tokens a inp = map (\<lambda>i. (rq (int i), Undetermined (int c))) [0..<c]"
    using assms(2-5) False
    by (simp add: exec_tokens_def exec_input_def Let_def undetermined_first_def first_request_def rq_def upto_nats
        map_concat comp_def concat_map_singleton)
  have chain: "chain_cont c (Undetermined (int c))" by (simp add: chain_cont_def)
  have skip: "rq_skip (rq (int i)) = int (i * ps)" for i by (simp add: rq_def assms(2))
  note one = list_chain [OF assms(1-3) chain assms(6) skip, of _ m, folded m_def, OF enough_pages [OF assms(3,6) order_refl]]
  have "sum_list (map (listed a api t created items m) (exec_tokens a inp)) =
      (\<Sum>i < c. \<Sum>j < Suc m. mset (list_rows ps m items (i + j * c)))"
    using one by (simp add: tok comp_def sum_list_distinct_conv_sum_set atLeast0LessThan)
  also have "\<dots> = (\<Sum>k < Suc m * c. mset (list_rows ps m items k))" by (rule sum_strided)
  also have "\<dots> = mset (take (new_pages ps m * ps) items)"
  proof (rule rows_all [OF assms(3)])
    have "m < Suc (0 + m * c) * ps" by (rule enough_pages [OF assms(3,6) order_refl])
    also have "\<dots> \<le> Suc m * c * ps" using assms(6) by (intro mult_le_mono1) simp
    finally show "m \<le> Suc m * c * ps" by simp
  qed
  finally show ?thesis using one by (simp add: tok list_all_iff)
qed

text \<open>A finished run of a list collector, the data it saved, and whether an error was lost: \<open>Execute\<close> may return
  nil although a job failed, when the job's error is recorded after the collector has asked for it
  (\<open>lost_error\<close> of \<open>CollectorFaults\<close>).\<close>

definition list_outcome :: "ApiCollectorArgs \<Rightarrow> ('i, 'c, 'd) api \<Rightarrow> choice list \<Rightarrow> bool \<Rightarrow> goerr option \<times> 'd list \<Rightarrow> bool" where
  "list_outcome a api cs lost outcome \<longleftrightarrow> 0 < ca_PageSize a \<and> 0 < concurrency_of a \<and> \<not> ca_Total a \<and> \<not> ca_HasInput a \<and>
     (case crun a api cs (start a []) of None \<Rightarrow> False | Some s \<Rightarrow>
        cs_main s = Returned (fst outcome) \<and> \<not> cs_crashed s \<and> lost = (fst outcome = None \<and> failures s \<noteq> {#}) \<and>
        snd outcome = map snd (cs_rows s))"

lemma list_outcome_rows:
  fixes api :: "('i, 'c, 'd) api"
  assumes "serves_sorted a api t created items" and "list_outcome a api cs False (None, data)"
  shows "mset data = mset (take (new_pages (nat (ca_PageSize a)) (new_count t created items) * nat (ca_PageSize a)) items)"
proof -
  obtain ps where ps: "ca_PageSize a = int ps" "0 < ps"
    using assms(2) by (metis zero_less_imp_eq_int list_outcome_def)
  obtain c where c: "concurrency_of a = int c" "0 < c"
    using assms(2) by (metis zero_less_imp_eq_int list_outcome_def)
  have noinput: "\<not> ca_HasInput a" "\<not> ca_Total a" using assms(2) by (simp_all add: list_outcome_def)
  obtain s :: "('i, 'c, 'd) cstate" where s: "crun a api cs (start a []) = Some s" "cs_main s = Returned None" "\<not> cs_crashed s" "failures s = {#}"
    "data = map snd (cs_rows s)" using assms(2) by (auto simp: list_outcome_def split: option.splits)
  have st: "steady api (list_reply a t created items)" using assms(1) by (simp only: serves_sorted_def)
  note exec = list_exec [OF assms(1) ps noinput(2) c, of None]
  have tokens: "start_tokens a ([] :: (goerr + 'i) list) = (exec_tokens a None :: ('i, 'c) token list)"
    using noinput by (simp add: start_tokens_fed fed_def)
  have "mset data = image_mset snd (mset (cs_rows s))" by (simp add: s(5))
  also have "\<dots> = sum_list (map (listed a api t created items (new_count t created items)) (exec_tokens a None))"
    unfolding collection_complete [OF st conjunct1 [OF exec, folded tokens] s(1-4)] image_mset_sum_list tokens ..
  also have "\<dots> = mset (take (new_pages ps (new_count t created items) * ps) items)" using exec by (rule conjunct2)
  finally show ?thesis by (simp add: ps(1))
qed

lemma new_pages_bounds: "0 < ps \<Longrightarrow> m \<le> new_pages ps m * ps \<and> new_pages ps m * ps < m + ps"
  using new_pages_le [of ps m "new_pages ps m"] times_div_less_eq_dividend [of "m + ps - 1" ps]
  by (auto simp: new_pages_def div_times_less_eq_dividend intro!: le_less_trans [OF div_times_less_eq_dividend])

lemma take_new:
  assumes "newest_listed created items" "new_count t created items \<le> n"
  shows "set (filter (is_new t created) items) \<subseteq> set (take n items)"
  unfolding new_prefix [OF assms(1)] using assms(2) by (rule set_take_subset_set_take)

text \<open>The list collection of a stateful collector is exact: when the API lists the records by descending creation, in pages, and
  its answers are steady, a run of \<open>Execute\<close> that returns nil and in which no job failed has saved, once each, the records of
  the pages that hold a record created at or after the given time, and no others: every new record, and at most a page less
  one of old ones, whatever the concurrency, the order of the threads and the retries.\<close>

theorem list_collection_exact:
  fixes api :: "('i, 'c, 'd) api"
  assumes "serves_sorted a api t created items" and "list_outcome a api cs False (None, data)"
  shows "\<exists>n. mset data = mset (take n items) \<and> set (filter (is_new t created) items) \<subseteq> set (take n items) \<and>
    n mod nat (ca_PageSize a) = 0 \<and> n < new_count t created items + nat (ca_PageSize a)"
proof (intro exI conjI)
  let ?ps = "nat (ca_PageSize a)" and ?m = "new_count t created items"
  have ps: "0 < ?ps" using assms(2) by (simp add: list_outcome_def)
  have sorted: "newest_listed created items" using assms(1) by (simp add: serves_sorted_def)
  show "mset data = mset (take (new_pages ?ps ?m * ?ps) items)" by (rule list_outcome_rows [OF assms])
  show "set (filter (is_new t created) items) \<subseteq> set (take (new_pages ?ps ?m * ?ps) items)"
    using new_pages_bounds [OF ps] by (intro take_new [OF sorted]) simp
  show "new_pages ?ps ?m * ?ps mod ?ps = 0" by simp
  show "new_pages ?ps ?m * ?ps < ?m + ?ps" using new_pages_bounds [OF ps] by simp
qed

text \<open>Five records, the list of the pages of two that the API gives of them, and a run that collects those created at 5 or later.\<close>

definition sorted_items :: "int list" where
  "sorted_items = [9, 8, 7, 3, 2]"

definition sorted_api :: "int option \<Rightarrow> (unit, string, int) api" where
  "sorted_api t = \<lparr>prepare = (\<lambda>_. None), serve = (\<lambda>rq n. list_reply sample_args t (\<lambda>d. d) sorted_items rq),
     next_custom = (\<lambda>_. Inr []), is_finish = (\<lambda>_. False), total_pages = (\<lambda>_. Inr 3), insert_err = (\<lambda>_. None),
     url_of = (\<lambda>_. ''x''), error_text = (\<lambda>_. [])\<rparr>"

definition sorted_run :: "choice list" where
  "sorted_run = concat (replicate 3 [Tick 0, Tick 0, Worker 0, Worker 0]) @ [Main]"

lemma sorted_serves: "serves_sorted sample_args (sorted_api t) t (\<lambda>d. d) sorted_items"
proof -
  have "steady (sorted_api t) (list_reply sample_args t (\<lambda>d. d) sorted_items)" unfolding steady_def by (simp add: sorted_api_def)
  then show ?thesis unfolding serves_sorted_def by (simp add: sorted_api_def newest_listed_def sorted_items_def)
qed

lemma sorted_outcome: "list_outcome sample_args (sorted_api (Some 5)) sorted_run False (None, [9, 8, 7, 3])"
  by code_simp

theorem list_collection_exact_witness:
  "list_outcome sample_args (sorted_api (Some 5)) sorted_run False (None, [9, 8, 7, 3]) \<and>
   (\<exists>n. mset [9, 8, 7, 3] = mset (take n sorted_items))"
  using list_collection_exact [OF sorted_serves sorted_outcome] sorted_outcome by blast

section \<open>Runs with other filters\<close>




lemma find_match: "find P xs = Some x \<Longrightarrow> P x"
  by (induction xs) (auto split: if_splits)




lemma new_manager:
  assumes "NewStatefulApiCollector table params timeAfter now None rows = Inr m"
  shows "am_TimeAfter m = timeAfter" "ExecuteStart m = now" "cl_RawDataTable (am_LatestState m) = table"
    "cl_RawDataParams (am_LatestState m) = params"
    "LatestSuccessStart (am_LatestState m) = Some t0 \<Longrightarrow> state_row table params rows = Some (am_LatestState m)"
  using assms by (auto simp: NewStatefulApiCollector_def state_row_def split: option.splits dest: find_match)

lemma collector_subtask_simp [simp]:
  "collector_subtask incremental params outcome raw =
     (fst outcome, (if incremental then raw else filter (\<lambda>r. fst r \<noteq> params) raw) @ map (Pair params) (snd outcome))"
  by (simp add: collector_subtask_def Execute_begin_def Let_def)







definition sample_success :: CollectorLatestState where
  "sample_success = \<lparr>cl_RawDataTable = ''t'', cl_RawDataParams = ''p'', LatestSuccessStart = Some 10, cl_TimeAfter = Some 5\<rparr>"





text \<open>Where it does not hold: a collection of everything that fails - the one of a run with an earlier filter - has deleted the raw rows
  and leaves the state of the last success as it was; a later run with the former filter is incremental again, asks for nothing
  created before the last success, and when it succeeds the older records are gone from the raw table.\<close>

theorem failed_full_collection_gap:
  assumes "state_row table params states = Some r" and "LatestSuccessStart r = Some t0"
    and "NewStatefulApiCollector table params timeAfter now None states = Inr m" and "\<not> IsIncremental m"
    and "manager_Execute m (finalizable_subtasks m (Some e, part) details) save_err raw states = (result, raw', states')"
    and "NewStatefulApiCollector table params (cl_TimeAfter r) now' None states' = Inr m'"
    and "manager_Execute m' (finalizable_subtasks m' (None, new) (None, more_details)) None raw' states' = (result', raw'', states'')"
  shows "result = Some e \<and> result' = None \<and> created_after m' = Some t0 \<and>
    {d. (params, d) \<in> set raw''} = set part \<union> set new \<union> set more_details"
proof -
  note m = new_manager [OF assms(3)] and m' = new_manager [OF assms(6)]
  have first: "result = Some e" "states' = states" "raw' = filter (\<lambda>x. fst x \<noteq> params) raw @ map (Pair params) part"
    using assms(4,5) m by (auto simp: manager_Execute_def finalizable_subtasks_def)
  have row: "am_LatestState m' = r"
    using assms(1,6) by (auto simp: NewStatefulApiCollector_def first(2))
  have incr: "IsIncremental m'"
    using assms(2) by (simp add: IsIncremental_def row m' split: option.split)
  have "result' = None" "raw'' = raw' @ map (Pair params) new @ map (Pair params) more_details"
    using assms(7) incr m' by (auto simp: manager_Execute_def finalizable_subtasks_def Let_def)
  then show ?thesis using first incr by (auto simp: created_after_def row assms(2))
qed

theorem failed_full_collection_gap_witness:
  "\<exists>raw''. {d. (''p'', d) \<in> set raw''} = {9 :: nat} \<and>
    (\<exists>m states''. manager_Execute m (finalizable_subtasks m (None, [9]) (None, [])) None [] [sample_success] = (None, raw'', states''))"
proof -
  define m where "m = \<lparr>am_LatestState = sample_success, am_TimeAfter = Some 1, ExecuteStart = 20\<rparr>"
  define m' where "m' = \<lparr>am_LatestState = sample_success, am_TimeAfter = Some 5, ExecuteStart = 30\<rparr>"
  have row: "state_row ''t'' ''p'' [sample_success] = Some sample_success" by (simp add: state_row_def sample_success_def)
  have new: "NewStatefulApiCollector ''t'' ''p'' (Some 1) 20 None [sample_success] = Inr m"
    "NewStatefulApiCollector ''t'' ''p'' (cl_TimeAfter sample_success) 30 None [sample_success] = Inr m'"
    by (simp_all add: NewStatefulApiCollector_def row m_def m'_def) (simp add: sample_success_def)
  have full: "\<not> IsIncremental m" by (simp add: IsIncremental_def m_def sample_success_def)
  have first: "manager_Execute m (finalizable_subtasks m (Some (External ''down''), []) (None, [])) None [(''p'', 7 :: nat)] [sample_success]
      = (Some (External ''down''), [], [sample_success])"
    using full by (simp add: manager_Execute_def finalizable_subtasks_def m_def sample_success_def)
  obtain raw'' states'' where second: "manager_Execute m' (finalizable_subtasks m' (None, [9 :: nat]) (None, [])) None [] [sample_success]
      = (None, raw'', states'')"
    by (simp add: manager_Execute_def finalizable_subtasks_def Let_def)
  have "LatestSuccessStart sample_success = Some 10" by (simp add: sample_success_def)
  from failed_full_collection_gap [OF row this new(1) full first new(2) second] second show ?thesis by auto
qed

end
