(* ===== verification/Graphql.thy ===== *)
theory Graphql
  imports Collector
begin

text \<open>
  The collector of a GraphQL service (\<open>helpers/pluginhelper/api/graphql_collector.go\<close>) on its asynchronous client
  (\<open>graphql_async_client.go\<close>), as a machine of threads like that of the REST collector.

  The client sends one query at a time, so a call of \<open>fetchAsync\<close> is one step; what can come between is a call by
  another goroutine, the goroutine that renews the rate, and a cancellation. The GraphQL library, the callbacks of the plugin and the database
  are an argument: \<open>gq_serve\<close> is the outcome of the \<open>n\<close>th attempt at a query, \<open>blank_query\<close> the query object as it was built,
  not filled by an answer. Records that are handed to the batches are kept in order with the id of their raw row.
\<close>

datatype 'i gq_input = NoInput | OneInput 'i | ManyInputs "'i list"

record 'i gq_request =
  SkipCursor :: "string option"
  gr_Size :: int
  gr_Input :: "'i gq_input"

record GraphqlQueryPageInfo =
  EndCursor :: string
  HasNextPage :: bool

datatype 'q attempt = CanceledAttempt | FailedAttempt goerr | DataErrors "goerr list" 'q | Answered 'q

record ('i, 'q, 'r) graphql_api =
  BuildQuery :: "'i gq_request \<Rightarrow> goerr option"
  blank_query :: "'i gq_request \<Rightarrow> 'q"
  gq_serve :: "'i gq_request \<Rightarrow> nat \<Rightarrow> 'q attempt"
  getRateCost :: "'q \<Rightarrow> int"
  marshal_query :: "'q \<Rightarrow> goerr option"
  marshal_variables :: "'i gq_request \<Rightarrow> goerr option"
  marshal_input :: "'i gq_input \<Rightarrow> goerr option"
  unmarshal_query :: "'q \<Rightarrow> goerr + 'q"
  unmarshal_variables :: "'i gq_request \<Rightarrow> goerr option"
  create_row :: "'i gq_request \<Rightarrow> goerr option"
  parse_query :: "'i gq_request \<Rightarrow> 'q \<Rightarrow> goerr list \<Rightarrow> 'r parsed"
  save_results :: "'r list \<Rightarrow> goerr option"
  close_divider :: "goerr option"

record ('i, 'q) GraphqlCollectorArgs =
  ga_PageSize :: int
  ga_HasInput :: bool
  InputStep :: nat
  GetPageInfo :: "('q \<Rightarrow> goerr + GraphqlQueryPageInfo option) option"
  with_data_errors :: bool
  has_rate :: bool
  ga_maxRetry :: nat

definition NewGraphqlCollector :: "('i, 'q) GraphqlCollectorArgs \<Rightarrow> ('i, 'q) GraphqlCollectorArgs" where
  "NewGraphqlCollector a = (if InputStep a = 0 then a\<lparr>InputStep := 1\<rparr> else a)"

section \<open>The client\<close>

text \<open>\<open>Query\<close>, once it may send: the data errors and the error it returns, the query object, and the cost. The variable \<open>err\<close> that
  the last line wraps is not the one that the loop assigns: it is always nil.\<close>

fun query_loop :: "('i, 'q, 'r) graphql_api \<Rightarrow> 'i gq_request \<Rightarrow> nat \<Rightarrow> nat \<Rightarrow> goerr list \<times> goerr option \<times> 'q \<times> int" where
  "query_loop api rq retryTime 0 =
     ([], Wrap Default None (''got error when querying GraphQL (from the '' @ show_nat retryTime @ ''th retry)'') None, blank_query api rq, 0)"
| "query_loop api rq retryTime (Suc n) =
     (case gq_serve api rq retryTime of
        CanceledAttempt \<Rightarrow> ([], Some (External Canceled), blank_query api rq, 0)
      | FailedAttempt e \<Rightarrow> query_loop api rq (retryTime + 1) n
      | DataErrors es q \<Rightarrow> (es, None, q, 0)
      | Answered q \<Rightarrow> ([], None, q, getRateCost api q))"

definition Query :: "('i, 'q) GraphqlCollectorArgs \<Rightarrow> ('i, 'q, 'r) graphql_api \<Rightarrow> bool \<Rightarrow> 'i gq_request
    \<Rightarrow> goerr list \<times> goerr option \<times> 'q \<times> int" where
  "Query a api cancelled rq =
     (if cancelled \<and> 0 < ga_maxRetry a then ([], None, blank_query api rq, 0) else query_loop api rq 0 (ga_maxRetry a))"

section \<open>The collector\<close>

datatype 'i gq_tick = Ticked "'i gq_request" | Running "'i gq_request"

datatype 'i gq_main = GqFeeding "(goerr + 'i) list" | GqFetch "'i gq_request" "(goerr + 'i) list option" | GqWaiting
  | GqReturned "goerr option"

record ('i, 'q, 'r) gq_state =
  gs_main :: "'i gq_main"
  gs_ticks :: "'i gq_tick list"
  gs_leaked :: nat
  gs_raw :: "(nat \<times> 'i gq_request \<times> 'q) list"
  gs_next :: nat
  gs_results :: "(nat \<times> 'r) list"
  workerErrors :: "goerr list"
  rateRemaining :: int
  gs_cancelled :: bool
  gs_crashed :: bool

definition check_error :: "goerr option \<Rightarrow> ('i, 'q, 'r) gq_state \<Rightarrow> ('i, 'q, 'r) gq_state" where
  "check_error err s = (case err of None \<Rightarrow> s | Some e \<Rightarrow> s\<lparr>workerErrors := workerErrors s @ [e]\<rparr>)"

definition gq_HasError :: "('i, 'q, 'r) gq_state \<Rightarrow> bool" where
  "gq_HasError s \<longleftrightarrow> workerErrors s \<noteq> []"

text \<open>\<open>fetchNextPage\<close>: an error, or the request of the next page for a new goroutine.\<close>

definition fetchNextPage :: "('i, 'q) GraphqlCollectorArgs \<Rightarrow> 'i gq_request \<Rightarrow> 'q \<Rightarrow> goerr + 'i gq_request option" where
  "fetchNextPage a rq q =
     (case GetPageInfo a of
        None \<Rightarrow> Inr None
      | Some get \<Rightarrow>
          (case get q of
             Inl e \<Rightarrow> Inl (newSingleCrdbError Default (Some e) ''fetchPagesDetermined get totalPages failed'' None)
           | Inr None \<Rightarrow> Inl (New Default ''fetchPagesDetermined got pageInfo is nil'')
           | Inr (Some info) \<Rightarrow>
               Inr (if HasNextPage info
                 then Some \<lparr>SkipCursor = Some (EndCursor info), gr_Size = ga_PageSize a, gr_Input = gr_Input rq\<rparr> else None)))"

text \<open>\<open>fetchAsync\<close> after the answer: the raw row, the records, the next page.\<close>

definition handle_results :: "('i, 'q) GraphqlCollectorArgs \<Rightarrow> ('i, 'q, 'r) graphql_api \<Rightarrow> 'i gq_request \<Rightarrow> 'q \<Rightarrow> bool \<Rightarrow> 'r list
    \<Rightarrow> ('i, 'q, 'r) gq_state \<Rightarrow> ('i, 'q, 'r) gq_state" where
  "handle_results a api rq q more_pages results s =
     (case save_results api results of
        Some e \<Rightarrow> check_error (Some e) s
      | None \<Rightarrow>
          let s1 = s\<lparr>gs_results := gs_results s @ map (Pair (gs_next s - 1)) results\<rparr> in
          if \<not> more_pages then s1
          else (case fetchNextPage a rq q of
              Inl e \<Rightarrow> check_error (Some (newSingleCrdbError Default (Some e) ''handle failed in graphql collector'' None)) s1
            | Inr None \<Rightarrow> s1
            | Inr (Some rq') \<Rightarrow> s1\<lparr>gs_ticks := gs_ticks s1 @ [Ticked rq']\<rparr>))"

definition handle_answer :: "('i, 'q) GraphqlCollectorArgs \<Rightarrow> ('i, 'q, 'r) graphql_api \<Rightarrow> 'i gq_request \<Rightarrow> goerr list \<Rightarrow> 'q
    \<Rightarrow> ('i, 'q, 'r) gq_state \<Rightarrow> ('i, 'q, 'r) gq_state" where
  "handle_answer a api rq dataErrors q s =
     (if dataErrors \<noteq> [] \<and> \<not> with_data_errors a
      then s\<lparr>workerErrors := workerErrors s @
          map (\<lambda>e. newSingleCrdbError Default (Some e) ''graphql query got error'' None) dataErrors\<rparr>
      else (case marshal_query api q of
          Some e \<Rightarrow> check_error (Some (newSingleCrdbError Default (Some e) ''graphql collector marshal query failed'' None)) s
        | None \<Rightarrow>
            (case marshal_variables api rq of
               Some e \<Rightarrow>
                 check_error (Some (newSingleCrdbError Default (Some e) ''variables in graphql query can not marshal to json'' None)) s
             | None \<Rightarrow>
                 (case create_row api rq of
                    Some e \<Rightarrow> check_error (Some (newSingleCrdbError Default (Some e) ''not created row table in graphql collector'' None)) s
                  | None \<Rightarrow>
                      let s1 = s\<lparr>gs_raw := gs_raw s @ [(gs_next s, rq, q)], gs_next := gs_next s + 1\<rparr> in
                      (case parse_query api rq q dataErrors of
                         ParseError e \<Rightarrow>
                           check_error (Some (newSingleCrdbError Default (Some e) ''not parsed response in graphql collector'' None)) s1
                       | Parsed results \<Rightarrow> handle_results a api rq q True results s1
                       | ParsedLast results \<Rightarrow> handle_results a api rq q False results s1)))))"

text \<open>\<open>None\<close> where the call has to wait for the rate, whether the context is done or not.\<close>

definition gq_fetchAsync :: "('i, 'q) GraphqlCollectorArgs \<Rightarrow> ('i, 'q, 'r) graphql_api \<Rightarrow> 'i gq_request
    \<Rightarrow> ('i, 'q, 'r) gq_state \<Rightarrow> ('i, 'q, 'r) gq_state option" where
  "gq_fetchAsync a api rq s =
     (case BuildQuery api rq of
        Some e \<Rightarrow> Some (check_error (Some (newSingleCrdbError Default (Some e) ''graphql collector BuildQuery failed'' None)) s)
      | None \<Rightarrow>
          if rateRemaining s \<le> 0 then None
          else (case Query a api (gs_cancelled s) rq of
              (dataErrors, Some e, q, cost) \<Rightarrow>
                Some (check_error (Some (if e = External Canceled then e
                  else newSingleCrdbError Default (Some e) ''graphql query failed'' None)) s)
            | (dataErrors, None, q, cost) \<Rightarrow>
                Some (handle_answer a api rq dataErrors q (s\<lparr>rateRemaining := rateRemaining s - cost\<rparr>))))"

section \<open>The threads\<close>

definition gq_first :: "('i, 'q) GraphqlCollectorArgs \<Rightarrow> 'i gq_input \<Rightarrow> 'i gq_request" where
  "gq_first a inp = \<lparr>SkipCursor = None, gr_Size = ga_PageSize a, gr_Input = inp\<rparr>"

text \<open>\<open>exec\<close>, up to the first call of \<open>fetchAsync\<close>.\<close>

definition gq_exec :: "('i, 'q) GraphqlCollectorArgs \<Rightarrow> ('i, 'q, 'r) graphql_api \<Rightarrow> 'i gq_input \<Rightarrow> (goerr + 'i) list option
    \<Rightarrow> ('i, 'q, 'r) gq_state \<Rightarrow> ('i, 'q, 'r) gq_state" where
  "gq_exec a api inp k s =
     (check_error (case marshal_input api inp of None \<Rightarrow> None
        | Some e \<Rightarrow> Some (newSingleCrdbError Default (Some e) ''input can not be marshal to json'' None)) s)
       \<lparr>gs_main := GqFetch (gq_first a inp) k\<rparr>"

text \<open>The inputs of a step, up to the first that cannot be fetched.\<close>

fun take_inputs :: "nat \<Rightarrow> (goerr + 'i) list \<Rightarrow> 'i list \<times> goerr option \<times> (goerr + 'i) list" where
  "take_inputs 0 xs = ([], None, xs)"
| "take_inputs (Suc n) [] = ([], None, [])"
| "take_inputs (Suc n) (Inl e # xs) = ([], Some e, xs)"
| "take_inputs (Suc n) (Inr i # xs) = (case take_inputs n xs of (is, err, rest) \<Rightarrow> (i # is, err, rest))"

definition feed :: "('i, 'q) GraphqlCollectorArgs \<Rightarrow> ('i, 'q, 'r) graphql_api \<Rightarrow> (goerr + 'i) list \<Rightarrow> ('i, 'q, 'r) gq_state
    \<Rightarrow> ('i, 'q, 'r) gq_state" where
  "feed a api inputs s =
     (if gq_HasError s then s\<lparr>gs_main := GqWaiting\<rparr>
      else if InputStep a = 1
      then (case inputs of
          [] \<Rightarrow> s\<lparr>gs_main := GqWaiting\<rparr>
        | Inl e # rest \<Rightarrow> (check_error (Some e) s)\<lparr>gs_main := GqWaiting\<rparr>
        | Inr i # rest \<Rightarrow> gq_exec a api (OneInput i) (Some rest) s)
      else (case take_inputs (InputStep a) inputs of (is, err, rest) \<Rightarrow>
          if is = [] then (check_error err s)\<lparr>gs_main := GqWaiting\<rparr>
          else gq_exec a api (ManyInputs is) (Some rest) (check_error err s)))"

definition gq_main_step :: "('i, 'q) GraphqlCollectorArgs \<Rightarrow> ('i, 'q, 'r) graphql_api \<Rightarrow> ('i, 'q, 'r) gq_state
    \<Rightarrow> ('i, 'q, 'r) gq_state option" where
  "gq_main_step a api s =
     (case gs_main s of
        GqFeeding inputs \<Rightarrow> Some (feed a api inputs s)
      | GqFetch rq k \<Rightarrow>
          (case gq_fetchAsync a api rq s of
             None \<Rightarrow> None
           | Some s' \<Rightarrow> Some (s'\<lparr>gs_main := (case k of None \<Rightarrow> GqWaiting | Some inputs \<Rightarrow> GqFeeding inputs)\<rparr>))
      | GqWaiting \<Rightarrow>
          if gs_ticks s = [] \<and> gs_leaked s = 0
          then Some (s\<lparr>gs_main := GqReturned (if gq_HasError s then Some (Combine Default (workerErrors s)) else close_divider api)\<rparr>)
          else None
      | GqReturned r \<Rightarrow> None)"

text \<open>A goroutine of \<open>NextTick\<close>: when the context is done it ends without telling the wait group.\<close>

definition gq_tick_step :: "('i, 'q) GraphqlCollectorArgs \<Rightarrow> ('i, 'q, 'r) graphql_api \<Rightarrow> nat \<Rightarrow> ('i, 'q, 'r) gq_state
    \<Rightarrow> ('i, 'q, 'r) gq_state option" where
  "gq_tick_step a api i s =
     (if i < length (gs_ticks s)
      then (case gs_ticks s ! i of
          Ticked rq \<Rightarrow>
            if gs_cancelled s then Some (s\<lparr>gs_ticks := del_nth i (gs_ticks s), gs_leaked := gs_leaked s + 1\<rparr>)
            else Some (s\<lparr>gs_ticks := (gs_ticks s)[i := Running rq]\<rparr>)
        | Running rq \<Rightarrow> gq_fetchAsync a api rq (s\<lparr>gs_ticks := del_nth i (gs_ticks s)\<rparr>))
      else None)"

text \<open>\<open>updateRateRemaining\<close>: the goroutine that renews the rate, as long as the context is not done.\<close>

definition renew_step :: "('i, 'q) GraphqlCollectorArgs \<Rightarrow> goerr + int \<Rightarrow> ('i, 'q, 'r) gq_state \<Rightarrow> ('i, 'q, 'r) gq_state option" where
  "renew_step a r s =
     (if has_rate a \<and> \<not> gs_cancelled s
      then (case r of Inl e \<Rightarrow> Some (s\<lparr>gs_crashed := True\<rparr>) | Inr n \<Rightarrow> Some (s\<lparr>rateRemaining := n\<rparr>))
      else None)"

datatype gq_choice = GqMain | GqTick nat | GqRenew "goerr + int" | GqCancel

definition gq_step :: "('i, 'q) GraphqlCollectorArgs \<Rightarrow> ('i, 'q, 'r) graphql_api \<Rightarrow> gq_choice \<Rightarrow> ('i, 'q, 'r) gq_state
    \<Rightarrow> ('i, 'q, 'r) gq_state option" where
  "gq_step a api c s =
     (if gs_crashed s then None
      else case c of
        GqMain \<Rightarrow> gq_main_step a api s
      | GqTick i \<Rightarrow> gq_tick_step a api i s
      | GqRenew r \<Rightarrow> renew_step a r s
      | GqCancel \<Rightarrow> if gs_cancelled s then None else Some (s\<lparr>gs_cancelled := True\<rparr>))"

fun gq_run :: "('i, 'q) GraphqlCollectorArgs \<Rightarrow> ('i, 'q, 'r) graphql_api \<Rightarrow> gq_choice list \<Rightarrow> ('i, 'q, 'r) gq_state
    \<Rightarrow> ('i, 'q, 'r) gq_state option" where
  "gq_run a api [] s = Some s"
| "gq_run a api (c # cs) s = (case gq_step a api c s of None \<Rightarrow> None | Some s' \<Rightarrow> gq_run a api cs s')"

text \<open>\<open>CreateAsyncGraphqlClient\<close>: the rate to start with.\<close>

definition first_rate :: "('i, 'q) GraphqlCollectorArgs \<Rightarrow> int \<Rightarrow> int" where
  "first_rate a n = (if has_rate a then n else 0)"

definition gq_blank :: "('i, 'q) GraphqlCollectorArgs \<Rightarrow> int \<Rightarrow> nat \<Rightarrow> ('i, 'q, 'r) gq_state" where
  "gq_blank a n next_id = \<lparr>gs_main = GqFeeding [], gs_ticks = [], gs_leaked = 0, gs_raw = [], gs_next = next_id, gs_results = [],
     workerErrors = [], rateRemaining = first_rate a n, gs_cancelled = False, gs_crashed = False\<rparr>"

definition gq_start :: "('i, 'q) GraphqlCollectorArgs \<Rightarrow> ('i, 'q, 'r) graphql_api \<Rightarrow> int \<Rightarrow> nat \<Rightarrow> (goerr + 'i) list \<Rightarrow> ('i, 'q, 'r) gq_state" where
  "gq_start a api n next_id inputs =
     (if ga_HasInput a then (gq_blank a n next_id)\<lparr>gs_main := GqFeeding inputs\<rparr>
      else gq_exec a api NoInput None (gq_blank a n next_id))"

section \<open>Records of the raw rows of earlier runs\<close>

text \<open>\<open>ExtractExistRawData\<close> of an incremental collection, the rows in the order of their ids, without cancellation: an error, and the
  records handed to the batches.\<close>

fun extract_rows :: "('i, 'q, 'r) graphql_api \<Rightarrow> (nat \<times> 'i gq_request \<times> 'q) list \<Rightarrow> goerr option \<times> (nat \<times> 'r) list" where
  "extract_rows api [] = (close_divider api, [])"
| "extract_rows api ((n, rq, data) # rows) =
     (case unmarshal_query api data of
        Inl e \<Rightarrow> (Some (newSingleCrdbError Default (Some e) ''graphql collector unmarshal query failed'' None), [])
      | Inr q \<Rightarrow>
          (case unmarshal_variables api rq of
             Some e \<Rightarrow> (Some (newSingleCrdbError Default (Some e) ''variables in graphql query can not unmarshal from json'' None), [])
           | None \<Rightarrow>
               (case parse_query api rq q [] of
                  ParseError e \<Rightarrow> (Some (newSingleCrdbError Default (Some e) ''error calling plugin Extract implementation'' None), [])
                | p \<Rightarrow>
                    let results = (case p of Parsed rs \<Rightarrow> rs | ParsedLast rs \<Rightarrow> rs | ParseError e \<Rightarrow> []) in
                    (case save_results api results of
                       Some e \<Rightarrow> (Some e, [])
                     | None \<Rightarrow> (case extract_rows api rows of (err, saved) \<Rightarrow> (err, map (Pair n) results @ saved))))))"

text \<open>The beginning of \<open>Execute\<close>: an early return, or the errors so far, the records handed over, and what is left of the raw
  rows, with their parameters.\<close>

definition gq_Execute_begin :: "('i, 'q, 'r) graphql_api \<Rightarrow> goerr option \<Rightarrow> goerr option \<Rightarrow> bool \<Rightarrow> string
    \<Rightarrow> (string \<times> nat \<times> 'i gq_request \<times> 'q) list
    \<Rightarrow> goerr + goerr list \<times> (nat \<times> 'r) list \<times> (string \<times> nat \<times> 'i gq_request \<times> 'q) list" where
  "gq_Execute_begin api migrate_err delete_err incremental params raw =
     (case migrate_err of
        Some e \<Rightarrow> Inl (newSingleCrdbError Default (Some e) ''error running auto-migrate'' None)
      | None \<Rightarrow>
          if incremental
          then (case extract_rows api (map snd (filter (\<lambda>r. fst r = params) raw)) of
              (err, saved) \<Rightarrow> Inr ((case err of None \<Rightarrow> [] | Some e \<Rightarrow> [e]), saved, raw))
          else (case delete_err of
              Some e \<Rightarrow> Inl (newSingleCrdbError Default (Some e) ''error deleting data from collector'' None)
            | None \<Rightarrow> Inr ([], [], filter (\<lambda>r. fst r \<noteq> params) raw)))"

end
