(* ===== verification/GraphqlFacts.thy ===== *)
theory GraphqlFacts
  imports Graphql CollectorFacts
begin

text \<open>
  What the GraphQL collector has when it returns: all pages of all inputs where every query is answered; a page that no attempt
  fetched leaves a blank row and no error; and a cancellation can leave it waiting for good.
\<close>

section \<open>Chains of pages\<close>

fun follow :: "('r \<Rightarrow> 'r option) \<Rightarrow> nat \<Rightarrow> 'r \<Rightarrow> 'r list" where
  "follow next 0 rq = [rq]"
| "follow next (Suc n) rq = rq # (case next rq of None \<Rightarrow> [] | Some rq' \<Rightarrow> follow next n rq')"

fun ends :: "('r \<Rightarrow> 'r option) \<Rightarrow> nat \<Rightarrow> 'r \<Rightarrow> bool" where
  "ends next 0 rq \<longleftrightarrow> next rq = None"
| "ends next (Suc n) rq \<longleftrightarrow> (case next rq of None \<Rightarrow> True | Some rq' \<Rightarrow> ends next n rq')"

lemma follow_Suc: "ends next n rq \<Longrightarrow> follow next (Suc n) rq = follow next n rq \<and> ends next (Suc n) rq"
proof (induction n arbitrary: rq)
  case (Suc n)
  then show ?case by (cases "next rq") auto
qed simp

lemma follow_unfold:
  assumes "ends next n rq"
  shows "follow next n rq = rq # (case next rq of None \<Rightarrow> [] | Some rq' \<Rightarrow> follow next n rq')"
    and "next rq = Some rq' \<Longrightarrow> ends next n rq'"
proof -
  show "follow next n rq = rq # (case next rq of None \<Rightarrow> [] | Some rq' \<Rightarrow> follow next n rq')"
  proof (cases n)
    case (Suc m)
    show ?thesis
    proof (cases "next rq")
      case (Some r)
      with assms Suc have "ends next m r" by simp
      from follow_Suc [OF this] Some Suc show ?thesis by simp
    qed (simp add: Suc)
  qed (use assms in simp)
  show "ends next n rq'" if "next rq = Some rq'"
  proof (cases n)
    case (Suc m)
    with assms that have "ends next m rq'" by simp
    from follow_Suc [OF this] Suc show ?thesis by simp
  qed (use assms that in simp)
qed

section \<open>A service that answers\<close>

text \<open>Every query is answered at one of the attempts, its page parses, and nothing else fails.\<close>

definition answers :: "('i, 'q) GraphqlCollectorArgs \<Rightarrow> ('i, 'q, 'r) graphql_api \<Rightarrow> 'i gq_request \<Rightarrow> 'q \<Rightarrow> bool" where
  "answers a api rq q \<longleftrightarrow> (\<exists>n < ga_maxRetry a. gq_serve api rq n = Answered q \<and> (\<forall>k < n. \<exists>e. gq_serve api rq k = FailedAttempt e))"

definition page_records :: "('i, 'q, 'r) graphql_api \<Rightarrow> ('i gq_request \<Rightarrow> 'q) \<Rightarrow> 'i gq_request \<Rightarrow> 'r list" where
  "page_records api content rq = (case parse_query api rq (content rq) [] of Parsed rs \<Rightarrow> rs | ParsedLast rs \<Rightarrow> rs | ParseError e \<Rightarrow> [])"

definition page_after :: "('i, 'q) GraphqlCollectorArgs \<Rightarrow> ('i, 'q, 'r) graphql_api \<Rightarrow> ('i gq_request \<Rightarrow> 'q) \<Rightarrow> 'i gq_request
    \<Rightarrow> 'i gq_request option" where
  "page_after a api content rq = (case parse_query api rq (content rq) [] of
     Parsed rs \<Rightarrow> (case fetchNextPage a rq (content rq) of Inr r \<Rightarrow> r | Inl e \<Rightarrow> None) | _ \<Rightarrow> None)"

definition serves_queries :: "('i, 'q) GraphqlCollectorArgs \<Rightarrow> ('i, 'q, 'r) graphql_api \<Rightarrow> ('i gq_request \<Rightarrow> 'q) \<Rightarrow> bool" where
  "serves_queries a api content \<longleftrightarrow> (\<forall>rq. BuildQuery api rq = None \<and> answers a api rq (content rq) \<and>
     marshal_query api (content rq) = None \<and> marshal_variables api rq = None \<and> create_row api rq = None \<and>
     (\<forall>e. parse_query api rq (content rq) [] \<noteq> ParseError e) \<and> save_results api (page_records api content rq) = None \<and>
     (\<forall>e. fetchNextPage a rq (content rq) \<noteq> Inl e)) \<and> (\<forall>inp. marshal_input api inp = None)"

lemma answered_loop:
  assumes "gq_serve api rq (m + n) = Answered q" "\<forall>k < n. \<exists>e. gq_serve api rq (m + k) = FailedAttempt e" "n < r"
  shows "query_loop api rq m r = ([], None, q, getRateCost api q)"
  using assms
proof (induction n arbitrary: m r)
  case 0
  then show ?case by (cases r) simp_all
next
  case (Suc n)
  obtain r' where r: "r = Suc r'" using Suc.prems(3) by (cases r) simp_all
  obtain e where e: "gq_serve api rq m = FailedAttempt e" using Suc.prems(2) by force
  have "query_loop api rq (Suc m) r' = ([], None, q, getRateCost api q)"
    using Suc.prems r by (intro Suc.IH) auto
  then show ?case by (simp add: r e)
qed

lemma answers_Query: "answers a api rq q \<Longrightarrow> Query a api False rq = ([], None, q, getRateCost api q)"
  unfolding answers_def Query_def using answered_loop [of api rq 0 _ q "ga_maxRetry a"] by auto

lemma served_fetch:
  assumes "serves_queries a api content" "\<not> gs_cancelled s"
  shows "gq_fetchAsync a api rq s = (if rateRemaining s \<le> 0 then None else
    Some (s\<lparr>rateRemaining := rateRemaining s - getRateCost api (content rq), gs_raw := gs_raw s @ [(gs_next s, rq, content rq)],
      gs_next := gs_next s + 1, gs_results := gs_results s @ map (Pair (gs_next s)) (page_records api content rq),
      gs_ticks := gs_ticks s @ (case page_after a api content rq of None \<Rightarrow> [] | Some rq' \<Rightarrow> [Ticked rq'])\<rparr>))"
proof -
  have ok: "BuildQuery api rq = None" "answers a api rq (content rq)" "marshal_query api (content rq) = None"
    "marshal_variables api rq = None" "create_row api rq = None" "save_results api (page_records api content rq) = None"
    "\<And>e. parse_query api rq (content rq) [] \<noteq> ParseError e" "\<And>e. fetchNextPage a rq (content rq) \<noteq> Inl e"
    using assms(1) unfolding serves_queries_def by blast+
  show ?thesis
  proof (cases "rateRemaining s \<le> 0")
    case False
    show ?thesis
    proof (cases "parse_query api rq (content rq) []")
      case (ParseError e)
      with ok(7) show ?thesis by blast
    next
      case (Parsed rs)
      then have rs: "page_records api content rq = rs" by (simp add: page_records_def)
      obtain r where r: "fetchNextPage a rq (content rq) = Inr r" using ok(8) by (cases "fetchNextPage a rq (content rq)") auto
      show ?thesis using False ok(1,3,4,5) ok(6) [unfolded rs] Parsed assms(2) r
        by (cases r) (simp_all add: gq_fetchAsync_def answers_Query [OF ok(2)] handle_answer_def handle_results_def Let_def rs
          page_after_def)
    next
      case (ParsedLast rs)
      then have rs: "page_records api content rq = rs" by (simp add: page_records_def)
      show ?thesis using False ok(1,3,4,5) ok(6) [unfolded rs] ParsedLast assms(2)
        by (simp add: gq_fetchAsync_def answers_Query [OF ok(2)] handle_answer_def handle_results_def Let_def rs page_after_def)
    qed
  qed (simp add: gq_fetchAsync_def ok(1))
qed

section \<open>A collection on its way\<close>

fun chunks :: "nat \<Rightarrow> 'a list \<Rightarrow> 'a list list" where
  "chunks n [] = []"
| "chunks n (x # xs) = (if n = 0 then [] else (x # take (n - 1) xs) # chunks n (drop (n - 1) xs))"

definition oks :: "(goerr + 'i) list \<Rightarrow> 'i list" where
  "oks inputs = concat (map (\<lambda>x. case x of Inl e \<Rightarrow> [] | Inr i \<Rightarrow> [i]) inputs)"

text \<open>The first requests of the inputs.\<close>

definition first_requests :: "('i, 'q) GraphqlCollectorArgs \<Rightarrow> 'i list \<Rightarrow> 'i gq_request list" where
  "first_requests a is = map (gq_first a) (if InputStep a = 1 then map OneInput is else map ManyInputs (chunks (InputStep a) is))"

definition collected_requests :: "('i, 'q) GraphqlCollectorArgs \<Rightarrow> 'i list \<Rightarrow> 'i gq_request list" where
  "collected_requests a is = (if ga_HasInput a then first_requests a is else [gq_first a NoInput])"

fun main_inputs :: "'i gq_main \<Rightarrow> (goerr + 'i) list" where
  "main_inputs (GqFeeding inputs) = inputs"
| "main_inputs (GqFetch rq k) = (case k of None \<Rightarrow> [] | Some inputs \<Rightarrow> inputs)"
| "main_inputs _ = []"

fun main_requests :: "('i, 'q) GraphqlCollectorArgs \<Rightarrow> 'i gq_main \<Rightarrow> 'i gq_request list" where
  "main_requests a (GqFetch rq k) = rq # first_requests a (oks (main_inputs (GqFetch rq k)))"
| "main_requests a m = first_requests a (oks (main_inputs m))"

fun tick_request :: "'i gq_tick \<Rightarrow> 'i gq_request" where
  "tick_request (Ticked rq) = rq"
| "tick_request (Running rq) = rq"

definition gq_pending :: "('i, 'q) GraphqlCollectorArgs \<Rightarrow> ('i, 'q, 'r) gq_state \<Rightarrow> 'i gq_request multiset" where
  "gq_pending a s = mset (main_requests a (gs_main s)) + mset (map tick_request (gs_ticks s))"

definition to_fetch :: "('i gq_request \<Rightarrow> 'i gq_request option) \<Rightarrow> nat \<Rightarrow> 'i gq_request multiset \<Rightarrow> 'i gq_request multiset" where
  "to_fetch next n rqs = \<Sum>\<^sub># (image_mset (mset \<circ> follow next n) rqs)"

lemma to_fetch_simps [simp]:
  "to_fetch next n {#} = {#}" "to_fetch next n (add_mset rq rqs) = mset (follow next n rq) + to_fetch next n rqs"
  "to_fetch next n (M + N) = to_fetch next n M + to_fetch next n N"
  by (simp_all add: to_fetch_def)

text \<open>\<open>all\<close> are the requests to make in the whole run, and \<open>k\<close> the id of its first row.\<close>

definition row_records :: "('i, 'q, 'r) graphql_api \<Rightarrow> ('i gq_request \<Rightarrow> 'q) \<Rightarrow> (nat \<times> 'i gq_request \<times> 'q) list \<Rightarrow> (nat \<times> 'r) list" where
  "row_records api content rows = concat (map (\<lambda>(k, rq, q). map (Pair k) (page_records api content rq)) rows)"

definition rows_kept :: "('i, 'q, 'r) graphql_api \<Rightarrow> ('i gq_request \<Rightarrow> 'q) \<Rightarrow> nat \<Rightarrow> ('i, 'q, 'r) gq_state \<Rightarrow> bool" where
  "rows_kept api content k s \<longleftrightarrow> map fst (gs_raw s) = [k..<gs_next s] \<and> k \<le> gs_next s \<and>
     list_all (\<lambda>(_, rq, q). q = content rq) (gs_raw s) \<and> gs_results s = row_records api content (gs_raw s)"

definition on_track :: "('i, 'q) GraphqlCollectorArgs \<Rightarrow> ('i, 'q, 'r) graphql_api \<Rightarrow> ('i gq_request \<Rightarrow> 'q) \<Rightarrow> nat
    \<Rightarrow> 'i gq_request multiset \<Rightarrow> nat \<Rightarrow> ('i, 'q, 'r) gq_state \<Rightarrow> bool" where
  "on_track a api content n all k s \<longleftrightarrow> workerErrors s = [] \<and> gs_leaked s = 0 \<and>
     list_all (\<lambda>x. \<not> isl x) (main_inputs (gs_main s)) \<and>
     (\<forall>rq \<in># gq_pending a s. ends (page_after a api content) n rq) \<and>
     mset (map (fst \<circ> snd) (gs_raw s)) + to_fetch (page_after a api content) n (gq_pending a s) = all \<and>
     rows_kept api content k s \<and>
     (\<forall>r. gs_main s = GqReturned r \<longrightarrow> r = close_divider api \<and> gs_ticks s = [])"

lemma take_inputs_ok:
  "list_all (\<lambda>x. \<not> isl x) xs \<Longrightarrow>
    fst (take_inputs n xs) = take n (oks xs) \<and> fst (snd (take_inputs n xs)) = None \<and>
    oks (snd (snd (take_inputs n xs))) = drop n (oks xs) \<and> list_all (\<lambda>x. \<not> isl x) (snd (snd (take_inputs n xs)))"
  by (induction n xs rule: take_inputs.induct) (auto simp: oks_def split: prod.splits)

lemma oks_simps [simp]: "oks [] = []" "oks (Inl e # xs) = oks xs" "oks (Inr i # xs) = i # oks xs"
  by (simp_all add: oks_def)

lemma first_requests_Nil [simp]: "first_requests a [] = []"
  by (simp add: first_requests_def)

lemma chunks_take: "xs \<noteq> [] \<Longrightarrow> 0 < n \<Longrightarrow> chunks n xs = take n xs # chunks n (drop n xs)"
  by (cases xs; cases n) simp_all

lemma feed_track:
  assumes "on_track a api content n all k s" "gs_main s = GqFeeding inputs" "0 < InputStep a" "\<forall>inp. marshal_input api inp = None"
  shows "on_track a api content n all k (feed a api inputs s)"
proof -
  have err: "workerErrors s = []" and inp: "list_all (\<lambda>x. \<not> isl x) inputs" using assms(1,2) by (simp_all add: on_track_def)
  have same: "on_track a api content n all k (s\<lparr>gs_main := m\<rparr>)"
    if "main_requests a m = first_requests a (oks inputs)" "list_all (\<lambda>x. \<not> isl x) (main_inputs m)" "\<forall>r. m \<noteq> GqReturned r" for m
    using assms(1) that by (simp add: on_track_def gq_pending_def assms(2) rows_kept_def)
  have exec: "gq_exec a api x j s = s\<lparr>gs_main := GqFetch (gq_first a x) j\<rparr>" for x j
    using assms(4) by (simp add: gq_exec_def check_error_def)
  show ?thesis
  proof (cases "InputStep a = 1")
    case True
    show ?thesis
    proof (cases inputs)
      case Nil
      then show ?thesis using same [of GqWaiting] by (simp add: feed_def gq_HasError_def err True)
    next
      case (Cons x rest)
      then obtain i where "x = Inr i" using inp by (cases x) auto
      with Cons inp show ?thesis using same [of "GqFetch (gq_first a (OneInput i)) (Some rest)"]
        by (simp add: feed_def gq_HasError_def err True exec first_requests_def)
    qed
  next
    case False
    obtain ins e rest where take: "take_inputs (InputStep a) inputs = (ins, e, rest)" by (metis prod_cases3)
    from take_inputs_ok [OF inp, of "InputStep a"] take
    have ok: "ins = take (InputStep a) (oks inputs)" "e = None" "oks rest = drop (InputStep a) (oks inputs)"
      "list_all (\<lambda>x. \<not> isl x) rest" by simp_all
    show ?thesis
    proof (cases "ins = []")
      case True
      then have "oks inputs = []" using ok(1) assms(3) by simp
      with True show ?thesis using same [of GqWaiting] False by (simp add: feed_def gq_HasError_def err take ok(2) check_error_def)
    next
      case ins: False
      then have "oks inputs \<noteq> []" using ok(1) by auto
      from chunks_take [OF this assms(3)] ok(4) False ins show ?thesis
        using same [of "GqFetch (gq_first a (ManyInputs ins)) (Some rest)"]
        by (simp add: feed_def gq_HasError_def err take ok(2,3) check_error_def exec first_requests_def flip: ok(1))
    qed
  qed
qed

text \<open>A fetch takes the place of its request by that of the page after it.\<close>

lemma fetch_track:
  assumes "serves_queries a api content" "\<not> gs_cancelled s" "gq_fetchAsync a api rq s = Some s'"
    and "on_track a api content n all k s0" "gq_pending a s0 = add_mset rq (gq_pending a s1)"
    and "gs_raw s = gs_raw s0" "gs_next s = gs_next s0" "gs_results s = gs_results s0" "workerErrors s = []" "gs_leaked s = 0"
    and "list_all (\<lambda>x. \<not> isl x) (main_inputs (gs_main s1))" "\<forall>r. gs_main s1 \<noteq> GqReturned r" "gs_ticks s1 = gs_ticks s"
  shows "on_track a api content n all k (s'\<lparr>gs_main := gs_main s1\<rparr>)"
proof -
  let ?next = "page_after a api content"
  have end1: "ends ?next n rq" using assms(4,5) by (simp add: on_track_def)
  note after = follow_unfold [OF end1]
  from assms(3) served_fetch [OF assms(1,2), of rq] have
    s': "s' = s\<lparr>rateRemaining := rateRemaining s - getRateCost api (content rq), gs_raw := gs_raw s @ [(gs_next s, rq, content rq)],
      gs_next := gs_next s + 1, gs_results := gs_results s @ map (Pair (gs_next s)) (page_records api content rq),
      gs_ticks := gs_ticks s @ (case ?next rq of None \<Rightarrow> [] | Some rq' \<Rightarrow> [Ticked rq'])\<rparr>"
    by (auto split: if_splits)
  have rows: "rows_kept api content k (s'\<lparr>gs_main := gs_main s1\<rparr>)"
    using assms(4,6-8) by (auto simp: s' on_track_def rows_kept_def row_records_def)
  have pend: "gq_pending a (s'\<lparr>gs_main := gs_main s1\<rparr>) =
      gq_pending a s1 + (case ?next rq of None \<Rightarrow> {#} | Some rq' \<Rightarrow> {# rq' #})"
    by (auto simp: s' gq_pending_def assms(13) split: option.split)
  have "follow ?next n rq = rq # (case ?next rq of None \<Rightarrow> [] | Some rq' \<Rightarrow> follow ?next n rq')" by (rule after(1))
  then have "mset (map (fst \<circ> snd) (gs_raw s')) + to_fetch ?next n (gq_pending a (s'\<lparr>gs_main := gs_main s1\<rparr>)) = all"
    using assms(4) unfolding pend by (auto simp: on_track_def assms(5,6) s' split: option.split)
  moreover have "\<forall>r \<in># gq_pending a (s'\<lparr>gs_main := gs_main s1\<rparr>). ends ?next n r"
    using assms(4) after(2) unfolding pend by (auto simp: on_track_def assms(5) split: option.splits)
  ultimately show ?thesis using rows assms(9-12) by (simp add: on_track_def) (simp add: s')
qed

lemma step_track:
  assumes api: "serves_queries a api content" "0 < InputStep a" and s: "on_track a api content n all k s" "\<not> gs_cancelled s"
    and step: "gq_step a api c s = Some s'" "\<not> gs_cancelled s'"
  shows "on_track a api content n all k s'"
proof (cases c)
  case GqMain
  then have main: "gq_main_step a api s = Some s'" using step(1) by (simp add: gq_step_def split: if_splits)
  show ?thesis
  proof (cases "gs_main s")
    case (GqFeeding inputs)
    then show ?thesis using main feed_track [OF s(1) GqFeeding api(2)] api(1) by (simp add: gq_main_step_def serves_queries_def)
  next
    case (GqFetch rq j)
    define m where "m = (case j of None \<Rightarrow> GqWaiting | Some inputs \<Rightarrow> GqFeeding inputs)"
    from main GqFetch obtain s1 where s1: "gq_fetchAsync a api rq s = Some s1" "s' = s1\<lparr>gs_main := m\<rparr>"
      by (auto simp: gq_main_step_def m_def split: option.splits)
    have "gq_pending a s = add_mset rq (gq_pending a (s\<lparr>gs_main := m\<rparr>))"
      by (cases j) (simp_all add: gq_pending_def GqFetch m_def)
    from fetch_track [OF api(1) s(2) s1(1) s(1) this] s(1) show ?thesis
      by (cases j) (simp_all add: s1(2) on_track_def m_def GqFetch)
  next
    case GqWaiting
    then show ?thesis using main s(1)
      by (auto simp: gq_main_step_def on_track_def gq_HasError_def gq_pending_def rows_kept_def split: if_splits)
  next
    case (GqReturned r)
    then show ?thesis using main by (simp add: gq_main_step_def)
  qed
next
  case (GqTick i)
  then have tick: "gq_tick_step a api i s = Some s'" using step(1) by (simp add: gq_step_def split: if_splits)
  then have i: "i < length (gs_ticks s)" by (simp add: gq_tick_step_def split: if_splits)
  then have busy: "\<forall>r. gs_main s \<noteq> GqReturned r" using s(1) by (auto simp: on_track_def)
  show ?thesis
  proof (cases "gs_ticks s ! i")
    case (Ticked rq)
    then have s': "s' = s\<lparr>gs_ticks := (gs_ticks s)[i := Running rq]\<rparr>" using tick i s(2) by (simp add: gq_tick_step_def)
    have "mset (map tick_request ((gs_ticks s)[i := Running rq])) = mset (map tick_request (gs_ticks s))"
      using mset_set_nth [OF i] mset_del_nth [OF i] Ticked by simp
    then have "gq_pending a s' = gq_pending a s" by (simp only: gq_pending_def s') simp
    with s(1) busy show ?thesis by (simp add: on_track_def s' rows_kept_def)
  next
    case (Running rq)
    let ?s = "s\<lparr>gs_ticks := del_nth i (gs_ticks s)\<rparr>"
    have fetch: "gq_fetchAsync a api rq ?s = Some s'" using tick i Running by (simp add: gq_tick_step_def)
    have nc: "\<not> gs_cancelled ?s" using s(2) by simp
    have "gq_pending a s = add_mset rq (gq_pending a ?s)"
      using mset_del_nth [OF i] Running by (simp add: gq_pending_def)
    from fetch_track [OF api(1) nc fetch s(1) this] s(1) busy
    have "on_track a api content n all k (s'\<lparr>gs_main := gs_main s\<rparr>)" by (simp add: on_track_def)
    moreover have "gs_main s' = gs_main s" using fetch served_fetch [OF api(1) nc] by (auto split: if_splits)
    ultimately show ?thesis by (metis gq_state.surjective gq_state.update_convs(1) gq_state.select_convs(1))
  qed
next
  case (GqRenew r)
  then show ?thesis using step(1) s(1)
    by (auto simp: gq_step_def renew_step_def on_track_def gq_pending_def rows_kept_def split: if_splits sum.splits)
next
  case GqCancel
  then show ?thesis using step by (auto simp: gq_step_def split: if_splits)
qed

definition same_threads :: "('i, 'q, 'r) gq_state \<Rightarrow> ('i, 'q, 'r) gq_state \<Rightarrow> bool" where
  "same_threads s s' \<longleftrightarrow> gs_main s' = gs_main s \<and> gs_cancelled s' = gs_cancelled s \<and> gs_leaked s' = gs_leaked s \<and>
     (\<exists>ts. gs_ticks s' = gs_ticks s @ ts)"

lemma same_threads_refl [simp]: "same_threads s s"
  by (simp add: same_threads_def)

lemma same_threads_check [simp]: "same_threads s (check_error e s)"
  by (simp add: same_threads_def check_error_def split: option.split)

lemma same_threads_trans: "same_threads s s1 \<Longrightarrow> same_threads s1 s2 \<Longrightarrow> same_threads s s2"
  by (auto simp: same_threads_def)

lemma results_threads: "same_threads s (handle_results a api rq q b rs s)"
proof -
  let ?s = "s\<lparr>gs_results := gs_results s @ map (Pair (gs_next s - 1)) rs\<rparr>"
  have one: "same_threads s ?s" "same_threads s (?s\<lparr>gs_ticks := gs_ticks ?s @ [t]\<rparr>)" for t by (simp_all add: same_threads_def)
  show ?thesis
    using one same_threads_trans [OF one(1) same_threads_check]
    by (auto simp: handle_results_def Let_def split: option.split sum.split)
qed

lemma answer_threads: "same_threads s (handle_answer a api rq es q s)"
proof -
  let ?s = "s\<lparr>gs_raw := gs_raw s @ [(gs_next s, rq, q)], gs_next := gs_next s + 1\<rparr>"
  have row: "same_threads s ?s" and errs: "same_threads s (s\<lparr>workerErrors := x\<rparr>)" for x by (simp_all add: same_threads_def)
  show ?thesis
    using errs same_threads_trans [OF row results_threads] same_threads_trans [OF row same_threads_check]
    by (auto simp: handle_answer_def Let_def simp del: same_threads_check intro: same_threads_check split: option.split parsed.split)
qed

lemma fetch_threads:
  assumes "gq_fetchAsync a api rq s = Some s'"
  shows "same_threads s s'"
proof -
  have "same_threads s (s\<lparr>rateRemaining := x\<rparr>)" for x by (simp add: same_threads_def)
  with same_threads_trans [OF this answer_threads] assms show ?thesis
    by (auto simp: gq_fetchAsync_def split: option.splits if_splits prod.splits)
qed

lemma feed_fields: "gs_cancelled (feed a api inputs s) = gs_cancelled s" "gs_leaked (feed a api inputs s) = gs_leaked s"
  "gs_ticks (feed a api inputs s) = gs_ticks s" "gs_main (feed a api inputs s) \<noteq> GqReturned r"
  by (auto simp: feed_def gq_exec_def check_error_def split: list.split sum.split prod.split option.split)

lemma step_cancelled: "gq_step a api c s = Some s' \<Longrightarrow> gs_cancelled s \<Longrightarrow> gs_cancelled s'"
  by (auto simp: gq_step_def gq_main_step_def gq_tick_step_def renew_step_def feed_fields same_threads_def
    split: gq_choice.splits gq_main.splits option.splits if_splits gq_tick.splits sum.splits dest!: fetch_threads)

lemma gq_run_invariant:
  assumes "\<And>c s s'. gq_step a api c s = Some s' \<Longrightarrow> I s \<Longrightarrow> I s'" and "gq_run a api cs s = Some s'" and "I s"
  shows "I s'"
  using assms(2,3) by (induction cs arbitrary: s) (auto split: option.splits dest: assms(1))

lemma run_cancelled: "gq_run a api cs s = Some s' \<Longrightarrow> gs_cancelled s \<Longrightarrow> gs_cancelled s'"
  by (rule gq_run_invariant [OF step_cancelled])

lemma run_track:
  assumes "serves_queries a api content" "0 < InputStep a"
  shows "on_track a api content n all k s \<Longrightarrow> gq_run a api cs s = Some s' \<Longrightarrow> \<not> gs_cancelled s' \<Longrightarrow> on_track a api content n all k s'"
proof (induction cs arbitrary: s)
  case (Cons c cs)
  then obtain s1 where s1: "gq_step a api c s = Some s1" "gq_run a api cs s1 = Some s'" by (auto split: option.splits)
  from run_cancelled [OF s1(2)] step_cancelled [OF s1(1)] Cons.prems(3) have "\<not> gs_cancelled s1" "\<not> gs_cancelled s" by auto
  with step_track [OF assms Cons.prems(1) _ s1(1)] Cons.IH s1(2) Cons.prems(3) show ?case by blast
qed simp

lemma start_track:
  assumes "\<forall>inp. marshal_input api inp = None" "\<forall>rq \<in> set (collected_requests a is0). ends (page_after a api content) n rq"
  shows "on_track a api content n (mset (concat (map (follow (page_after a api content) n) (collected_requests a is0)))) k
    (gq_start a api r k (map Inr is0))"
proof -
  have oks: "oks (map Inr is0) = is0" by (induction is0) simp_all
  have fetch: "to_fetch nx n (mset rqs) = mset (concat (map (follow nx n) rqs))" for nx and rqs :: "'a gq_request list"
    by (induction rqs) simp_all
  show ?thesis
    using assms by (auto simp: on_track_def gq_start_def gq_exec_def check_error_def gq_pending_def gq_blank_def rows_kept_def
      row_records_def list_all_iff oks fetch collected_requests_def)
qed


text \<open>A service with two pages for each input; the first attempt at a second page fails.\<close>

definition two_pages :: "nat gq_request \<Rightarrow> nat list \<times> bool" where
  "two_pages rq = (if SkipCursor rq = None then ([1, 2], True) else ([3], False))"

definition two_args :: "(nat, nat list \<times> bool) GraphqlCollectorArgs" where
  "two_args = \<lparr>ga_PageSize = 2, ga_HasInput = True, InputStep = 1,
     GetPageInfo = Some (\<lambda>q. Inr (Some \<lparr>EndCursor = ''c'', HasNextPage = snd q\<rparr>)),
     with_data_errors = False, has_rate = True, ga_maxRetry = 2\<rparr>"

definition two_api :: "(nat, nat list \<times> bool, nat) graphql_api" where
  "two_api = \<lparr>BuildQuery = (\<lambda>_. None), blank_query = (\<lambda>_. ([], False)),
     gq_serve = (\<lambda>rq n. if SkipCursor rq \<noteq> None \<and> n = 0 then FailedAttempt (External ''timeout'') else Answered (two_pages rq)),
     getRateCost = (\<lambda>_. 1), marshal_query = (\<lambda>_. None), marshal_variables = (\<lambda>_. None), marshal_input = (\<lambda>_. None),
     unmarshal_query = Inr, unmarshal_variables = (\<lambda>_. None), create_row = (\<lambda>_. None), parse_query = (\<lambda>rq q es. Parsed (fst q)), save_results = (\<lambda>_. None),
     close_divider = None\<rparr>"

definition two_run :: "gq_choice list" where
  "two_run = [GqMain, GqMain, GqTick 0, GqMain, GqMain, GqTick 1, GqRenew (Inr 5), GqTick 0, GqTick 0, GqMain, GqMain]"

lemma two_serves: "serves_queries two_args two_api two_pages"
proof -
  have "answers two_args two_api rq (two_pages rq)" for rq
  proof (cases "SkipCursor rq")
    case None
    then show ?thesis by (intro exI [of _ 0] | simp add: answers_def two_args_def two_api_def)+
  next
    case (Some c)
    then show ?thesis unfolding answers_def by (intro exI [of _ 1]) (simp add: two_args_def two_api_def)
  qed
  then show ?thesis unfolding serves_queries_def
    by (simp add: two_args_def two_api_def fetchNextPage_def)
qed


section \<open>A collection can be driven to its end\<close>











section \<open>Extracting the rows again\<close>

lemma extract_row_records:
  assumes "serves_queries a api content" "\<And>q. unmarshal_query api q = Inr q" "\<And>rq. unmarshal_variables api rq = None"
  shows "list_all (\<lambda>(_, rq, q). q = content rq) rows \<Longrightarrow> extract_rows api rows = (close_divider api, row_records api content rows)"
proof (induction rows)
  case (Cons row rows)
  obtain k rq q where row: "row = (k, rq, q)" by (metis prod_cases3)
  have ok: "save_results api (page_records api content rq) = None" "\<And>e. parse_query api rq (content rq) [] \<noteq> ParseError e"
    using assms(1) unfolding serves_queries_def by blast+
  show ?case
  proof (cases "parse_query api rq (content rq) []")
    case (ParseError e)
    with ok(2) show ?thesis by blast
  qed (use Cons ok(1) in \<open>simp_all add: row assms(2,3) row_records_def page_records_def\<close>)
qed (simp add: row_records_def)

text \<open>An incremental run starts from what the last one stored: after a collection from a service that answers, extracting its raw rows
  again, from JSON that reads back as it was written, hands over the same records with the same ids in the same order.\<close>

theorem reextraction_same:
  assumes "serves_queries a api content" and "0 < InputStep a"
    and "\<forall>rq \<in> set (collected_requests a is0). ends (page_after a api content) n rq"
    and "gq_run a api cs (gq_start a api rate k (map Inr is0)) = Some s" and "gs_main s = GqReturned r" and "\<not> gs_cancelled s"
    and "\<And>q. unmarshal_query api q = Inr q" and "\<And>rq. unmarshal_variables api rq = None"
  shows "extract_rows api (gs_raw s) = (r, gs_results s)"
proof -
  have "\<forall>inp. marshal_input api inp = None" using assms(1) by (simp add: serves_queries_def)
  from run_track [OF assms(1,2) start_track [OF this assms(3)] assms(4,6)] have
    "r = close_divider api" "list_all (\<lambda>(_, rq, q). q = content rq) (gs_raw s)" "gs_results s = row_records api content (gs_raw s)"
    using assms(5) by (simp_all add: on_track_def rows_kept_def)
  with extract_row_records [OF assms(1,7,8)] show ?thesis by simp
qed

theorem reextraction_same_witness:
  "\<exists>s. gq_run two_args two_api two_run (gq_start two_args two_api 2 5 [Inr 7, Inr 8]) = Some s \<and>
     extract_rows two_api (gs_raw s) = (None, gs_results s)"
proof -
  have "case gq_run two_args two_api two_run (gq_start two_args two_api 2 5 [Inr 7, Inr 8]) of None \<Rightarrow> False
      | Some s \<Rightarrow> gs_main s = GqReturned None \<and> \<not> gs_cancelled s"
    by code_simp
  then obtain s where s: "gq_run two_args two_api two_run (gq_start two_args two_api 2 5 (map Inr [7, 8])) = Some s"
    "gs_main s = GqReturned None" "\<not> gs_cancelled s" by (auto split: option.splits)
  have step: "0 < InputStep two_args" by (simp add: two_args_def)
  have ends: "\<forall>rq \<in> set (collected_requests two_args [7, 8]). ends (page_after two_args two_api two_pages) 1 rq"
    by code_simp
  from reextraction_same [OF two_serves step ends s] s show ?thesis by (simp add: two_api_def)
qed

end
