(* ===== verification/GraphqlFaults.thy ===== *)
theory GraphqlFaults
  imports GraphqlFacts
begin

text \<open>
  Where the GraphQL collector does not do what it means to: a query that no attempt got an answer to passes for an empty answer,
  and a client without a rate, or a cancellation between two pages, leaves the collection waiting for good.
\<close>

section \<open>A query without an answer\<close>

text \<open>All attempts at a query fail, and the plugin finds no record and no further page in a query object that was not filled.\<close>

definition unreachable :: "('i, 'q) GraphqlCollectorArgs \<Rightarrow> ('i, 'q, 'r) graphql_api \<Rightarrow> 'i gq_request \<Rightarrow> bool" where
  "unreachable a api rq \<longleftrightarrow> (\<forall>n. \<exists>e. gq_serve api rq n = FailedAttempt e) \<and> BuildQuery api rq = None \<and>
     marshal_query api (blank_query api rq) = None \<and> marshal_variables api rq = None \<and> create_row api rq = None \<and>
     parse_query api rq (blank_query api rq) [] = Parsed [] \<and> save_results api [] = None \<and>
     fetchNextPage a rq (blank_query api rq) = Inr None"

lemma failing_loop: "\<forall>n. \<exists>e. gq_serve api rq n = FailedAttempt e \<Longrightarrow> query_loop api rq m n = ([], None, blank_query api rq, 0)"
proof (induction n arbitrary: m)
  case (Suc n)
  then obtain e where "gq_serve api rq m = FailedAttempt e" by blast
  with Suc show ?case by simp
qed (simp add: Wrap_def)

lemma unreachable_fetch:
  assumes "unreachable a api rq" "0 < rateRemaining s"
  shows "gq_fetchAsync a api rq s = Some (s\<lparr>gs_raw := gs_raw s @ [(gs_next s, rq, blank_query api rq)], gs_next := gs_next s + 1\<rparr>)"
  using assms failing_loop [of api rq 0 "ga_maxRetry a"]
  by (simp add: unreachable_def gq_fetchAsync_def Query_def handle_answer_def handle_results_def Let_def)

definition unanswered_course :: "('i, 'q) GraphqlCollectorArgs \<Rightarrow> ('i, 'q, 'r) graphql_api \<Rightarrow> nat \<Rightarrow> ('i, 'q, 'r) gq_state \<Rightarrow> bool" where
  "unanswered_course a api k s \<longleftrightarrow> gs_ticks s = [] \<and> workerErrors s = [] \<and> gs_results s = [] \<and>
     (if gs_main s = GqFetch (gq_first a NoInput) None then gs_raw s = [] \<and> gs_next s = k
      else gs_raw s = [(k, gq_first a NoInput, blank_query api (gq_first a NoInput))] \<and>
        (gs_main s = GqWaiting \<or> gs_main s = GqReturned (close_divider api)))"

lemma unanswered_step:
  assumes "unreachable a api (gq_first a NoInput)" "gq_step a api c s = Some s'" "unanswered_course a api k s"
  shows "unanswered_course a api k s'"
proof (cases c)
  case GqMain
  then have main: "gq_main_step a api s = Some s'" using assms(2) by (simp add: gq_step_def split: if_splits)
  show ?thesis
  proof (cases "gs_main s")
    case (GqFetch rq j)
    then have "rq = gq_first a NoInput" "j = None" using assms(3) by (auto simp: unanswered_course_def split: if_splits)
    moreover from this have "0 < rateRemaining s"
      using main GqFetch assms(1) by (simp add: gq_main_step_def gq_fetchAsync_def unreachable_def split: if_splits)
    ultimately show ?thesis using main GqFetch assms(3) unreachable_fetch [OF assms(1)]
      by (auto simp: gq_main_step_def unanswered_course_def)
  qed (use main assms(3) in \<open>auto simp: gq_main_step_def unanswered_course_def gq_HasError_def split: if_splits\<close>)
qed (use assms(3,2) in \<open>auto simp: gq_step_def gq_tick_step_def renew_step_def unanswered_course_def split: if_splits sum.splits\<close>)

text \<open>A query that no attempt got an answer to passes for an empty answer: when every attempt at the only query fails, every run of
  the collection that returns has returned no error but that of the batches, and has left a raw row with the query object as it was
  built; since the error that \<open>Query\<close> wraps at its end is not the variable that the attempts assign.\<close>

theorem unanswered_query_lost:
  assumes "unreachable a api (gq_first a NoInput)" and "\<not> ga_HasInput a" and "marshal_input api NoInput = None"
    and "gq_run a api cs (gq_start a api rate k inputs) = Some s" and "gs_main s = GqReturned r"
  shows "r = close_divider api \<and> gs_raw s = [(k, gq_first a NoInput, blank_query api (gq_first a NoInput))]"
proof -
  have "unanswered_course a api k (gq_start a api rate k inputs)"
    using assms(2,3) by (simp add: unanswered_course_def gq_start_def gq_exec_def check_error_def gq_blank_def)
  from gq_run_invariant [where I = "unanswered_course a api k", OF unanswered_step [OF assms(1)] assms(4) this] assms(5)
  show ?thesis by (auto simp: unanswered_course_def split: if_splits)
qed

definition down_api :: "(nat, nat list \<times> bool, nat) graphql_api" where
  "down_api = two_api\<lparr>gq_serve := \<lambda>rq n. FailedAttempt (External ''no route to host'')\<rparr>"

theorem unanswered_query_lost_witness:
  "\<exists>s. gq_run (two_args\<lparr>ga_HasInput := False\<rparr>) down_api [GqMain, GqMain] (gq_start (two_args\<lparr>ga_HasInput := False\<rparr>) down_api 9 1 []) = Some s \<and>
     gs_main s = GqReturned None \<and> map (snd \<circ> snd) (gs_raw s) = [([], False)]"
proof -
  let ?a = "two_args\<lparr>ga_HasInput := False\<rparr>"
  have "case gq_run ?a down_api [GqMain, GqMain] (gq_start ?a down_api 9 1 []) of None \<Rightarrow> False | Some s \<Rightarrow> gs_main s = GqReturned None"
    by code_simp
  then obtain s where s: "gq_run ?a down_api [GqMain, GqMain] (gq_start ?a down_api 9 1 []) = Some s" "gs_main s = GqReturned None"
    by (auto split: option.splits)
  have "unreachable ?a down_api (gq_first ?a NoInput)" "\<not> ga_HasInput ?a" "marshal_input down_api NoInput = None"
    by (simp_all add: unreachable_def down_api_def two_api_def two_args_def fetchNextPage_def)
  from unanswered_query_lost [OF this s] s show ?thesis by (simp add: down_api_def two_api_def)
qed

section \<open>Collections that can no longer end\<close>

lemma leaked_step:
  assumes "gq_step a api c s = Some s'" "gs_cancelled s" "0 < gs_leaked s \<or> (\<exists>rq. Ticked rq \<in> set (gs_ticks s))" "\<forall>r. gs_main s \<noteq> GqReturned r"
  shows "gs_cancelled s' \<and> (0 < gs_leaked s' \<or> (\<exists>rq. Ticked rq \<in> set (gs_ticks s'))) \<and> (\<forall>r. gs_main s' \<noteq> GqReturned r)"
proof (cases c)
  case GqMain
  then have main: "gq_main_step a api s = Some s'" using assms(1) by (simp add: gq_step_def split: if_splits)
  show ?thesis
  proof (cases "gs_main s")
    case (GqFeeding inputs)
    then have s': "s' = feed a api inputs s" using main by (simp add: gq_main_step_def)
    show ?thesis using assms(2,3) by (simp add: s' feed_fields)
  next
    case (GqFetch rq j)
    with main obtain s1 where "gq_fetchAsync a api rq s = Some s1"
      "s' = s1\<lparr>gs_main := (case j of None \<Rightarrow> GqWaiting | Some inputs \<Rightarrow> GqFeeding inputs)\<rparr>"
      by (auto simp: gq_main_step_def split: option.splits)
    with fetch_threads [OF this(1)] assms(2-4) show ?thesis by (auto simp: same_threads_def split: option.splits)
  next
    case GqWaiting
    then have "gs_ticks s = [] \<and> gs_leaked s = 0" using main by (simp add: gq_main_step_def split: if_splits)
    with assms(3) show ?thesis by simp
  next
    case (GqReturned r)
    with assms(4) show ?thesis by blast
  qed
next
  case (GqTick i)
  then have tick: "gq_tick_step a api i s = Some s'" using assms(1) by (simp add: gq_step_def split: if_splits)
  then have i: "i < length (gs_ticks s)" by (simp add: gq_tick_step_def split: if_splits)
  show ?thesis
  proof (cases "gs_ticks s ! i")
    case (Ticked rq)
    then show ?thesis using tick i assms(2-4) by (auto simp: gq_tick_step_def)
  next
    case (Running rq)
    then have "gq_fetchAsync a api rq (s\<lparr>gs_ticks := del_nth i (gs_ticks s)\<rparr>) = Some s'" using tick i by (simp add: gq_tick_step_def)
    from fetch_threads [OF this] have same: "same_threads (s\<lparr>gs_ticks := del_nth i (gs_ticks s)\<rparr>) s'" .
    have "set (gs_ticks s) = insert (Running rq) (set (del_nth i (gs_ticks s)))"
      using arg_cong [OF mset_del_nth [OF i], of set_mset] Running by simp
    with same assms(2-4) show ?thesis by (auto simp: same_threads_def)
  qed
next
  case (GqRenew r)
  with assms(1,2) show ?thesis by (simp add: gq_step_def renew_step_def split: if_splits)
next
  case GqCancel
  with assms(1,2) show ?thesis by (simp add: gq_step_def split: if_splits)
qed

text \<open>A cancellation between two pages leaves the collection waiting for good: when the context is done while the goroutine of a next
  page has not yet looked at it, that goroutine ends without telling the wait group, and no run from there ever returns.\<close>

theorem cancelled_collection_hangs:
  assumes "gs_cancelled s" and "Ticked rq \<in> set (gs_ticks s)" and "\<forall>r. gs_main s \<noteq> GqReturned r" and "gq_run a api cs s = Some s'"
  shows "gs_main s' \<noteq> GqReturned r'"
proof -
  let ?I = "\<lambda>s. gs_cancelled s \<and> (0 < gs_leaked s \<or> (\<exists>rq. Ticked rq \<in> set (gs_ticks s))) \<and> (\<forall>r. gs_main s \<noteq> GqReturned r)"
  have "?I s'" by (rule gq_run_invariant [OF _ assms(4)]) (use leaked_step assms(1-3) in blast)+
  then show ?thesis by blast
qed

text \<open>The first page of the collection is fetched, and the context done before its next one is asked for.\<close>

theorem cancelled_collection_hangs_witness:
  "\<exists>s. gq_run two_args two_api [GqMain, GqMain, GqCancel] (gq_start two_args two_api 9 1 [Inr 7]) = Some s \<and>
     (\<forall>cs s' r. gq_run two_args two_api cs s = Some s' \<longrightarrow> gs_main s' \<noteq> GqReturned r)"
proof -
  have "case gq_run two_args two_api [GqMain, GqMain, GqCancel] (gq_start two_args two_api 9 1 [Inr 7]) of None \<Rightarrow> False
      | Some s \<Rightarrow> gs_cancelled s \<and> gs_main s = GqFeeding [] \<and> gs_ticks s = [Ticked \<lparr>SkipCursor = Some ''c'', gr_Size = 2, gr_Input = OneInput 7\<rparr>]"
    by code_simp
  then obtain s where s: "gq_run two_args two_api [GqMain, GqMain, GqCancel] (gq_start two_args two_api 9 1 [Inr 7]) = Some s"
    "gs_cancelled s" "gs_main s = GqFeeding []" "gs_ticks s = [Ticked \<lparr>SkipCursor = Some ''c'', gr_Size = 2, gr_Input = OneInput 7\<rparr>]"
    by (auto split: option.splits)
  have "Ticked \<lparr>SkipCursor = Some ''c'', gr_Size = 2, gr_Input = OneInput 7\<rparr> \<in> set (gs_ticks s)" "\<forall>r. gs_main s \<noteq> GqReturned r"
    using s(3,4) by simp_all
  with cancelled_collection_hangs [OF s(2)] s(1) show ?thesis by blast
qed

text \<open>A client that was created without a way to ask for its rate never sends: its remaining rate is 0 and nothing renews it, so every
  run of a collection without input is still at its first query.\<close>

theorem rateless_client_blocks:
  fixes api :: "('i, 'q, 'r) graphql_api"
  assumes "\<not> has_rate a" and "\<not> ga_HasInput a" and "BuildQuery api (gq_first a NoInput) = None"
    and "gq_run a api cs (gq_start a api rate k inputs) = Some s"
  shows "gs_main s = GqFetch (gq_first a NoInput) None \<and> gs_raw s = []"
proof -
  define stuck where "stuck s \<longleftrightarrow> gs_main s = GqFetch (gq_first a NoInput) None \<and> gs_raw s = [] \<and> gs_ticks s = [] \<and> rateRemaining s = 0"
    for s :: "('i, 'q, 'r) gq_state"
  have step: "stuck s'" if "gq_step a api c s = Some s'" "stuck s" for s s' c
    using that assms(1,3) by (cases c) (auto simp: stuck_def gq_step_def gq_main_step_def gq_fetchAsync_def gq_tick_step_def
      renew_step_def split: if_splits)
  have "stuck (gq_start a api rate k inputs)"
    using assms(1,2) by (simp add: stuck_def gq_start_def gq_exec_def check_error_def gq_blank_def first_rate_def split: option.split)
  from gq_run_invariant [where I = stuck, OF step assms(4) this] show ?thesis by (simp add: stuck_def)
qed

theorem rateless_client_blocks_witness:
  "gq_run (two_args\<lparr>ga_HasInput := False, has_rate := False\<rparr>) two_api [GqCancel]
     (gq_start (two_args\<lparr>ga_HasInput := False, has_rate := False\<rparr>) two_api 9 1 []) \<noteq> None \<and>
   (\<forall>cs s. gq_run (two_args\<lparr>ga_HasInput := False, has_rate := False\<rparr>) two_api cs
     (gq_start (two_args\<lparr>ga_HasInput := False, has_rate := False\<rparr>) two_api 9 1 []) = Some s \<longrightarrow> gs_raw s = [])"
proof (intro conjI allI impI)
  let ?a = "two_args\<lparr>ga_HasInput := False, has_rate := False\<rparr>"
  show "gq_run ?a two_api [GqCancel] (gq_start ?a two_api 9 1 []) \<noteq> None" by code_simp
  fix cs s
  assume "gq_run ?a two_api cs (gq_start ?a two_api 9 1 []) = Some s"
  from rateless_client_blocks [OF _ _ _ this] show "gs_raw s = []" by (simp add: two_args_def two_api_def)
qed

end
