(* ===== verification/FileBlame.thy ===== *)
theory FileBlame
  imports Prelude
begin

text \<open>
  The lines of a file with the commit each comes from (\<open>plugins/gitextractor/models/fileblame.go\<close>): a linked list with
  a finger that remembers an element and its number. An element is its position in the list; nil is \<open>None\<close>. An operation
  gives \<open>None\<close> where the code would follow a nil pointer.
\<close>

record FileBlame =
  fb_Idx :: int
  fb_It :: "nat option"
  fb_Lines :: "string option list"

definition fb_Front :: "FileBlame \<Rightarrow> nat option" where
  "fb_Front fb = (if fb_Lines fb = [] then None else Some 0)"

definition fb_Back :: "FileBlame \<Rightarrow> nat option" where
  "fb_Back fb = (if fb_Lines fb = [] then None else Some (length (fb_Lines fb) - 1))"

definition elem_Next :: "FileBlame \<Rightarrow> nat \<Rightarrow> nat option" where
  "elem_Next fb p = (if Suc p < length (fb_Lines fb) then Some (Suc p) else None)"

definition elem_Prev :: "nat \<Rightarrow> nat option" where
  "elem_Prev p = (if p = 0 then None else Some (p - 1))"

section \<open>The operations\<close>

function walk_up :: "int \<Rightarrow> FileBlame \<Rightarrow> FileBlame option" where
  "walk_up num fb =
     (if fb_Idx fb < num \<and> fb_It fb \<noteq> fb_Back fb
      then (case fb_It fb of None \<Rightarrow> None
        | Some p \<Rightarrow> walk_up num (fb\<lparr>fb_Idx := fb_Idx fb + 1, fb_It := elem_Next fb p\<rparr>))
      else Some fb)"
  by auto
termination by (relation "measure (\<lambda>(num, fb). nat (num - fb_Idx fb))") auto

function walk_down :: "int \<Rightarrow> FileBlame \<Rightarrow> FileBlame option" where
  "walk_down num fb =
     (if fb_Idx fb > num \<and> fb_It fb \<noteq> fb_Front fb
      then (case fb_It fb of None \<Rightarrow> None
        | Some p \<Rightarrow> walk_down num (fb\<lparr>fb_Idx := fb_Idx fb - 1, fb_It := elem_Prev p\<rparr>))
      else Some fb)"
  by auto
termination by (relation "measure (\<lambda>(num, fb). nat (fb_Idx fb - num))") auto

declare walk_up.simps [simp del] walk_down.simps [simp del]

definition Walk :: "int \<Rightarrow> FileBlame \<Rightarrow> FileBlame option" where
  "Walk num fb = (case walk_up num fb of None \<Rightarrow> None | Some fb1 \<Rightarrow> walk_down num fb1)"

text \<open>The position of the element found, if any.\<close>

definition Find :: "int \<Rightarrow> FileBlame \<Rightarrow> (nat option \<times> FileBlame) option" where
  "Find num fb = (case Walk num fb of None \<Rightarrow> None
     | Some fb1 \<Rightarrow> Some (if fb_Idx fb1 = num then fb_It fb1 else None, fb1))"

text \<open>The loop of \<open>AddLine\<close> that pads the list, and whether it ran.\<close>

function pad_back :: "int \<Rightarrow> bool \<Rightarrow> FileBlame \<Rightarrow> bool \<times> FileBlame" where
  "pad_back num flag fb =
     (if fb_It fb = fb_Back fb \<and> fb_Idx fb < num
      then pad_back num True (fb\<lparr>fb_It := Some (length (fb_Lines fb)), fb_Lines := fb_Lines fb @ [None], fb_Idx := fb_Idx fb + 1\<rparr>)
      else (flag, fb))"
  by auto
termination by (relation "measure (\<lambda>(num, flag, fb). nat (num - fb_Idx fb))") auto

declare pad_back.simps [simp del]

definition AddLine :: "int \<Rightarrow> string \<Rightarrow> FileBlame \<Rightarrow> FileBlame option" where
  "AddLine num commit fb =
     (case Walk num fb of None \<Rightarrow> None
      | Some fb1 \<Rightarrow>
          (case pad_back num False fb1 of (flag, fb2) \<Rightarrow>
             (case fb_It fb2 of
                None \<Rightarrow> Some (fb2\<lparr>fb_It := Some (length (fb_Lines fb2)), fb_Lines := fb_Lines fb2 @ [Some commit]\<rparr>)
              | Some p \<Rightarrow>
                  if flag then Some (fb2\<lparr>fb_Lines := (fb_Lines fb2)[p := Some commit]\<rparr>)
                  else Some (fb2\<lparr>fb_Lines := take p (fb_Lines fb2) @ [Some commit] @ drop p (fb_Lines fb2)\<rparr>))))"

definition remove_at :: "nat \<Rightarrow> 'a list \<Rightarrow> 'a list" where
  "remove_at p xs = take p xs @ drop (Suc p) xs"

text \<open>Removing an element before another lowers the position of the other.\<close>

definition RemoveLine :: "int \<Rightarrow> FileBlame \<Rightarrow> FileBlame option" where
  "RemoveLine num fb =
     (case Walk num fb of None \<Rightarrow> None
      | Some fb1 \<Rightarrow>
          if fb_Idx fb1 < 0 \<or> num < 1 then Some fb1
          else (case (fb_Idx fb1 = num, fb_It fb1) of
              (True, Some a) \<Rightarrow>
                if length (fb_Lines fb1) = 1 then Some (fb1\<lparr>fb_Idx := 0, fb_Lines := [], fb_It := None\<rparr>)
                else if fb_Idx fb1 = 1
                then (case elem_Next fb1 a of None \<Rightarrow> None
                  | Some n \<Rightarrow> Some (fb1\<lparr>fb_It := Some (n - 1), fb_Lines := remove_at (n - 1) (fb_Lines fb1)\<rparr>))
                else if Some a \<noteq> fb_Back fb1
                then Some (fb1\<lparr>fb_It := map_option (\<lambda>n. n - 1) (elem_Next fb1 a), fb_Lines := remove_at a (fb_Lines fb1)\<rparr>)
                else Some (fb1\<lparr>fb_It := elem_Prev a, fb_Idx := fb_Idx fb1 - 1, fb_Lines := remove_at a (fb_Lines fb1)\<rparr>)
            | _ \<Rightarrow> Some fb1))"

definition NewFileBlame :: FileBlame where
  "NewFileBlame = \<lparr>fb_Idx = 0, fb_It = None, fb_Lines = []\<rparr>"

section \<open>The finger\<close>

text \<open>The finger stands on the element of its number, or nowhere in an empty list.\<close>

definition finger_ok :: "FileBlame \<Rightarrow> bool" where
  "finger_ok fb \<longleftrightarrow> (case fb_It fb of None \<Rightarrow> fb_Lines fb = [] \<and> fb_Idx fb = 0
     | Some p \<Rightarrow> p < length (fb_Lines fb) \<and> fb_Idx fb = int p + 1)"

lemma finger_new: "finger_ok NewFileBlame"
  by (simp add: finger_ok_def NewFileBlame_def)

text \<open>Where a walk ends: at the line, or at the end nearest to it.\<close>

definition at_line :: "int \<Rightarrow> FileBlame \<Rightarrow> FileBlame" where
  "at_line num fb = (if fb_Lines fb = [] then fb else
     let p = nat (min (max num 1) (int (length (fb_Lines fb))) - 1) in fb\<lparr>fb_Idx := int p + 1, fb_It := Some p\<rparr>)"

lemma walk_up_finger:
  "finger_ok fb \<Longrightarrow> \<exists>fb'. walk_up num fb = Some fb' \<and> finger_ok fb' \<and> fb_Lines fb' = fb_Lines fb \<and>
    (fb_Lines fb = [] \<longrightarrow> fb' = fb) \<and> fb_Idx fb' = max (fb_Idx fb) (min num (int (length (fb_Lines fb))))"
proof (induction num fb rule: walk_up.induct)
  case (1 num fb)
  show ?case
  proof (cases "fb_Idx fb < num \<and> fb_It fb \<noteq> fb_Back fb")
    case True
    with 1(2) obtain p where p: "fb_It fb = Some p" "p < length (fb_Lines fb)" "p \<noteq> length (fb_Lines fb) - 1" "fb_Idx fb = int p + 1"
      by (auto simp: finger_ok_def fb_Back_def split: option.splits if_splits)
    then have "Suc p < length (fb_Lines fb)" by linarith
    note p = p(1) this p(4)
    let ?fb = "fb\<lparr>fb_Idx := fb_Idx fb + 1, fb_It := elem_Next fb p\<rparr>"
    have "finger_ok ?fb" using p by (simp add: finger_ok_def elem_Next_def)
    from 1(1) [OF True p(1) this] obtain fb' where "walk_up num ?fb = Some fb'" "finger_ok fb'" "fb_Lines fb' = fb_Lines fb"
      "fb_Idx fb' = max (fb_Idx fb + 1) (min num (int (length (fb_Lines fb))))" by auto
    with True p show ?thesis by (subst walk_up.simps) auto
  next
    case False
    then show ?thesis using 1(2) by (subst walk_up.simps) (auto simp: finger_ok_def fb_Back_def split: option.splits if_splits)
  qed
qed

lemma walk_down_finger:
  "finger_ok fb \<Longrightarrow> \<exists>fb'. walk_down num fb = Some fb' \<and> finger_ok fb' \<and> fb_Lines fb' = fb_Lines fb \<and>
    (fb_Lines fb = [] \<longrightarrow> fb' = fb) \<and> (fb_Lines fb \<noteq> [] \<longrightarrow> fb_Idx fb' = min (fb_Idx fb) (max num 1))"
proof (induction num fb rule: walk_down.induct)
  case (1 num fb)
  show ?case
  proof (cases "fb_Idx fb > num \<and> fb_It fb \<noteq> fb_Front fb")
    case True
    with 1(2) obtain p where p: "fb_It fb = Some p" "0 < p" "p < length (fb_Lines fb)" "fb_Idx fb = int p + 1"
      by (auto simp: finger_ok_def fb_Front_def split: option.splits if_splits)
    let ?fb = "fb\<lparr>fb_Idx := fb_Idx fb - 1, fb_It := elem_Prev p\<rparr>"
    have "finger_ok ?fb" using p by (simp add: finger_ok_def elem_Prev_def)
    from 1(1) [OF True p(1) this] obtain fb' where "walk_down num ?fb = Some fb'" "finger_ok fb'" "fb_Lines fb' = fb_Lines fb"
      "fb_Lines fb \<noteq> [] \<longrightarrow> fb_Idx fb' = min (fb_Idx fb - 1) (max num 1)" by auto
    with True p show ?thesis by (subst walk_down.simps) auto
  next
    case False
    then show ?thesis using 1(2) by (subst walk_down.simps) (auto simp: finger_ok_def fb_Front_def split: option.splits if_splits)
  qed
qed

lemma finger_at: "finger_ok fb \<Longrightarrow> fb_Lines fb \<noteq> [] \<Longrightarrow> fb_It fb = Some (nat (fb_Idx fb - 1)) \<and> 1 \<le> fb_Idx fb \<and> fb_Idx fb \<le> int (length (fb_Lines fb))"
  by (auto simp: finger_ok_def split: option.splits)

lemma Walk_finger:
  assumes "finger_ok fb"
  shows "Walk num fb = Some (at_line num fb) \<and> finger_ok (at_line num fb)"
proof -
  from walk_up_finger [OF assms] obtain fb1 where fb1: "walk_up num fb = Some fb1" "finger_ok fb1" "fb_Lines fb1 = fb_Lines fb"
    "fb_Lines fb = [] \<longrightarrow> fb1 = fb" "fb_Idx fb1 = max (fb_Idx fb) (min num (int (length (fb_Lines fb))))" by blast
  from walk_down_finger [OF fb1(2)] fb1(3) obtain fb2 where fb2: "walk_down num fb1 = Some fb2" "finger_ok fb2" "fb_Lines fb2 = fb_Lines fb"
    "fb_Lines fb = [] \<longrightarrow> fb2 = fb1" "fb_Lines fb \<noteq> [] \<longrightarrow> fb_Idx fb2 = min (fb_Idx fb1) (max num 1)" by auto
  have "fb2 = at_line num fb"
  proof (cases "fb_Lines fb = []")
    case True
    then show ?thesis using fb1(4) fb2(4) by (simp add: at_line_def)
  next
    case False
    have "1 \<le> fb_Idx fb" "fb_Idx fb \<le> int (length (fb_Lines fb))" using finger_at [OF assms False] by simp_all
    define l where "l = min (max num 1) (int (length (fb_Lines fb)))"
    have idx: "fb_Idx fb2 = l" using \<open>1 \<le> fb_Idx fb\<close> \<open>fb_Idx fb \<le> _\<close> fb1(5) fb2(5) [rule_format, OF False] unfolding l_def by linarith
    have it: "fb_It fb2 = Some (nat (l - 1))" "1 \<le> l" using finger_at [OF fb2(2)] False fb2(3) idx by simp_all
    then have at: "at_line num fb = fb\<lparr>fb_Idx := l, fb_It := Some (nat (l - 1))\<rparr>"
      using False by (simp add: at_line_def Let_def flip: l_def)
    show ?thesis unfolding at using idx it(1) fb2(3) by (intro FileBlame.equality) simp_all
  qed
  with fb1(1) fb2(1,2) show ?thesis by (simp add: Walk_def)
qed

section \<open>A list of lines\<close>

text \<open>What the operations mean for the lines.\<close>

definition line_at :: "int \<Rightarrow> 'a option list \<Rightarrow> 'a option" where
  "line_at num xs = (if 1 \<le> num \<and> num \<le> int (length xs) then xs ! nat (num - 1) else None)"

definition line_add :: "int \<Rightarrow> 'a \<Rightarrow> 'a option list \<Rightarrow> 'a option list" where
  "line_add num c xs = (let k = nat (num - 1) in
     if k < length xs then take k xs @ Some c # drop k xs else xs @ replicate (k - length xs) None @ [Some c])"

definition line_remove :: "int \<Rightarrow> 'a list \<Rightarrow> 'a list" where
  "line_remove num xs = (if 1 \<le> num \<and> num \<le> int (length xs) then remove_at (nat (num - 1)) xs else xs)"

lemma at_line_fields: "fb_Lines (at_line num fb) = fb_Lines fb"
  by (simp add: at_line_def Let_def)

lemma at_line_here:
  assumes "1 \<le> num" "num \<le> int (length (fb_Lines fb))"
  shows "fb_Idx (at_line num fb) = num" "fb_It (at_line num fb) = Some (nat (num - 1))"
proof -
  have "min (max num 1) (int (length (fb_Lines fb))) = num" "fb_Lines fb \<noteq> []" using assms by auto
  then show "fb_Idx (at_line num fb) = num" "fb_It (at_line num fb) = Some (nat (num - 1))"
    using assms(1) by (simp_all add: at_line_def Let_def)
qed

lemma at_line_beyond:
  assumes "finger_ok fb" "int (length (fb_Lines fb)) < num"
  shows "fb_Idx (at_line num fb) = int (length (fb_Lines fb)) \<and> fb_It (at_line num fb) = fb_Back fb"
proof (cases "fb_Lines fb = []")
  case True
  then show ?thesis using assms(1) by (auto simp: at_line_def finger_ok_def fb_Back_def split: option.splits)
next
  case False
  then have "min (max num 1) (int (length (fb_Lines fb))) = int (length (fb_Lines fb))" "1 \<le> length (fb_Lines fb)"
    using assms(2) by (auto simp: Suc_le_eq)
  then show ?thesis using False by (simp add: at_line_def Let_def fb_Back_def nat_diff_distrib of_nat_diff)
qed

lemma replicate_Suc_conv_snoc: "replicate (Suc k) x = replicate k x @ [x]"
  by (simp add: replicate_append_same)

lemma pad_back_end:
  "fb_It fb = fb_Back fb \<Longrightarrow> fb_Idx fb = int (length (fb_Lines fb)) \<Longrightarrow> fb_Idx fb < num \<Longrightarrow>
    pad_back num flag fb = (True, fb\<lparr>fb_It := Some (nat (num - 1)), fb_Idx := num,
      fb_Lines := fb_Lines fb @ replicate (nat (num - int (length (fb_Lines fb)))) None\<rparr>)"
proof (induction num flag fb rule: pad_back.induct)
  case (1 num flag fb)
  let ?fb = "fb\<lparr>fb_It := Some (length (fb_Lines fb)), fb_Lines := fb_Lines fb @ [None], fb_Idx := fb_Idx fb + 1\<rparr>"
  have unfold: "pad_back num flag fb = pad_back num True ?fb" using 1(2,4) by (subst pad_back.simps) simp
  have step: "fb_It ?fb = fb_Back ?fb" "fb_Idx ?fb = int (length (fb_Lines ?fb))" using 1(3) by (simp_all add: fb_Back_def)
  show ?case
  proof (cases "fb_Idx ?fb < num")
    case True
    have "nat (num - int (length (fb_Lines fb))) = Suc (nat (num - int (length (fb_Lines fb)) - 1))" using True 1(3) by simp
    then have "fb_Lines fb @ [None] @ replicate (nat (num - int (length (fb_Lines fb)) - 1)) None =
        fb_Lines fb @ replicate (nat (num - int (length (fb_Lines fb)))) None" by simp
    with 1(1) [OF conjI [OF 1(2,4)] step True] show ?thesis unfolding unfold by (simp add: algebra_simps)
  next
    case False
    then have "num = fb_Idx fb + 1" using 1(4) by simp
    with False 1(3) show ?thesis unfolding unfold by (subst pad_back.simps) simp
  qed
qed

lemma Find_line:
  assumes "finger_ok fb"
  shows "\<exists>pos fb'. Find num fb = Some (pos, fb') \<and> finger_ok fb' \<and> fb_Lines fb' = fb_Lines fb \<and>
    (case pos of None \<Rightarrow> None | Some p \<Rightarrow> fb_Lines fb ! p) = line_at num (fb_Lines fb)"
proof -
  have "(if fb_Idx (at_line num fb) = num then fb_It (at_line num fb) else None) =
      (if 1 \<le> num \<and> num \<le> int (length (fb_Lines fb)) then Some (nat (num - 1)) else None)"
  proof (cases "1 \<le> num \<and> num \<le> int (length (fb_Lines fb))")
    case True
    with at_line_here [of num fb] show ?thesis by simp
  next
    case False
    have "finger_ok (at_line num fb)" using Walk_finger [OF assms] by blast
    with False show ?thesis by (auto simp: finger_ok_def at_line_fields split: option.splits)
  qed
  with Walk_finger [OF assms, of num] show ?thesis by (simp add: Find_def at_line_fields line_at_def)
qed

lemma AddLine_line:
  assumes "finger_ok fb" "1 \<le> num"
  shows "\<exists>fb'. AddLine num c fb = Some fb' \<and> finger_ok fb' \<and> fb_Lines fb' = line_add num c (fb_Lines fb)"
proof (cases "num \<le> int (length (fb_Lines fb))")
  case True
  note here = at_line_here [OF assms(2) True]
  have "pad_back num False (at_line num fb) = (False, at_line num fb)" using here(1) by (subst pad_back.simps) simp
  moreover have "nat (num - 1) < length (fb_Lines fb)" using assms(2) True by simp
  ultimately show ?thesis using Walk_finger [OF assms(1), of num] here assms(2)
    by (simp add: AddLine_def at_line_fields line_add_def Let_def finger_ok_def)
next
  case False
  let ?fb = "at_line num fb" and ?n = "int (length (fb_Lines fb))"
  have beyond: "fb_It ?fb = fb_Back ?fb" "fb_Idx ?fb = int (length (fb_Lines ?fb))" "fb_Idx ?fb < num"
    using at_line_beyond [OF assms(1), of num] False by (simp_all add: at_line_fields fb_Back_def)
  define k where "k = nat (num - 1) - length (fb_Lines fb)"
  have k: "nat (num - ?n) = Suc k" "nat (num - 1) = length (fb_Lines fb) + k" using False by (auto simp: k_def)
  have num: "num = int (length (fb_Lines fb)) + int k + 1" using False by (simp add: k_def)
  have lines: "(fb_Lines fb @ replicate (Suc k) None)[length (fb_Lines fb) + k := Some c] = fb_Lines fb @ replicate k None @ [Some c]"
    by (simp add: list_update_append replicate_Suc_conv_snoc del: replicate.simps)
  have pad: "pad_back num False ?fb = (True, ?fb\<lparr>fb_It := Some (length (fb_Lines fb) + k), fb_Idx := num,
      fb_Lines := fb_Lines fb @ replicate (Suc k) None\<rparr>)"
    using pad_back_end [OF beyond, of False] by (simp add: at_line_fields k del: replicate.simps)
  have "AddLine num c fb = Some (?fb\<lparr>fb_It := Some (length (fb_Lines fb) + k), fb_Idx := num,
      fb_Lines := fb_Lines fb @ replicate k None @ [Some c]\<rparr>)"
    using Walk_finger [OF assms(1), of num] lines by (simp add: AddLine_def pad del: replicate.simps)
  moreover have "line_add num c (fb_Lines fb) = fb_Lines fb @ replicate k None @ [Some c]"
    by (simp add: line_add_def k)
  ultimately show ?thesis using num by (simp add: finger_ok_def)
qed

lemma RemoveLine_line:
  assumes "finger_ok fb"
  shows "\<exists>fb'. RemoveLine num fb = Some fb' \<and> finger_ok fb' \<and> fb_Lines fb' = line_remove num (fb_Lines fb)"
proof (cases "1 \<le> num \<and> num \<le> int (length (fb_Lines fb))")
  case True
  then have here: "fb_Idx (at_line num fb) = num" "fb_It (at_line num fb) = Some (nat (num - 1))" using at_line_here by simp_all
  define p where "p = nat (num - 1)"
  have p: "p < length (fb_Lines fb)" "num = int p + 1" using True by (auto simp: p_def)
  let ?n = "length (fb_Lines fb)"
  have spec: "line_remove num (fb_Lines fb) = remove_at p (fb_Lines fb)" using True by (simp add: line_remove_def p_def)
  have len: "length (remove_at p (fb_Lines fb)) = ?n - 1" using p(1) by (simp add: remove_at_def)
  define g where "g = at_line num fb"
  have g: "Walk num fb = Some g" "fb_Idx g = num" "fb_It g = Some p" "fb_Lines g = fb_Lines fb"
    using Walk_finger [OF assms, of num] here by (simp_all add: g_def at_line_fields p_def)
  have remove: "RemoveLine num fb =
      (if ?n = 1 then Some (g\<lparr>fb_Idx := 0, fb_Lines := [], fb_It := None\<rparr>)
       else if num = 1 then (case elem_Next g p of None \<Rightarrow> None
         | Some n \<Rightarrow> Some (g\<lparr>fb_It := Some (n - 1), fb_Lines := remove_at (n - 1) (fb_Lines g)\<rparr>))
       else if Some p \<noteq> fb_Back g then Some (g\<lparr>fb_It := map_option (\<lambda>n. n - 1) (elem_Next g p), fb_Lines := remove_at p (fb_Lines g)\<rparr>)
       else Some (g\<lparr>fb_It := elem_Prev p, fb_Idx := fb_Idx g - 1, fb_Lines := remove_at p (fb_Lines g)\<rparr>))"
    using True by (simp add: RemoveLine_def g)
  consider (only) "?n = 1" | (first) "?n \<noteq> 1" "p = 0" | (inner) "?n \<noteq> 1" "0 < p" "Suc p < ?n" | (last) "?n \<noteq> 1" "0 < p" "Suc p = ?n"
    using p(1) by linarith
  then show ?thesis
  proof cases
    case only
    then obtain x where "fb_Lines fb = [x]" by (auto simp: length_Suc_conv)
    with p(1) only spec have "line_remove num (fb_Lines fb) = []" by (simp add: remove_at_def)
    with only show ?thesis by (simp add: remove finger_ok_def)
  next
    case first
    then have "Suc 0 < ?n" using p(1) by linarith
    moreover have "num = 1" using first p(2) by simp
    ultimately show ?thesis unfolding remove spec using first len g by (simp add: finger_ok_def elem_Next_def)
  next
    case inner
    then have "num \<noteq> 1" "fb_Back g = Some (?n - 1)" "p \<noteq> ?n - 1" using p g by (auto simp: fb_Back_def)
    then show ?thesis unfolding remove spec using inner len g p by (simp add: finger_ok_def elem_Next_def)
  next
    case last
    then have "num \<noteq> 1" "fb_Back g = Some p" using p g by (auto simp: fb_Back_def)
    then show ?thesis unfolding remove spec using last len g p by (simp add: finger_ok_def elem_Prev_def)
  qed
next
  case False
  have at: "finger_ok (at_line num fb)" "fb_Idx (at_line num fb) = num \<Longrightarrow> fb_It (at_line num fb) = None \<or> num < 1"
    using Walk_finger [OF assms, of num] False by (auto simp: finger_ok_def at_line_fields split: option.splits)
  have "RemoveLine num fb = Some (at_line num fb)"
    using Walk_finger [OF assms, of num] at(2) by (auto simp: RemoveLine_def split: option.split bool.split)
  moreover have "line_remove num (fb_Lines fb) = fb_Lines fb" unfolding line_remove_def using False by (rule if_not_P)
  ultimately show ?thesis using at(1) by (simp add: at_line_fields)
qed

section \<open>Sequences of operations\<close>

datatype blame_op = FindOp int | AddOp int string | RemoveOp int

fun blame_run :: "blame_op list \<Rightarrow> FileBlame \<Rightarrow> FileBlame option" where
  "blame_run [] fb = Some fb"
| "blame_run (FindOp n # ops) fb = (case Find n fb of None \<Rightarrow> None | Some (_, fb') \<Rightarrow> blame_run ops fb')"
| "blame_run (AddOp n c # ops) fb = (case AddLine n c fb of None \<Rightarrow> None | Some fb' \<Rightarrow> blame_run ops fb')"
| "blame_run (RemoveOp n # ops) fb = (case RemoveLine n fb of None \<Rightarrow> None | Some fb' \<Rightarrow> blame_run ops fb')"

fun line_op :: "blame_op \<Rightarrow> string option list \<Rightarrow> string option list" where
  "line_op (FindOp n) xs = xs"
| "line_op (AddOp n c) xs = line_add n c xs"
| "line_op (RemoveOp n) xs = line_remove n xs"

fun add_number_ok :: "blame_op \<Rightarrow> bool" where
  "add_number_ok (AddOp n c) \<longleftrightarrow> 1 \<le> n"
| "add_number_ok _ \<longleftrightarrow> True"

lemma blame_run_lines:
  "finger_ok fb \<Longrightarrow> list_all add_number_ok ops \<Longrightarrow>
    \<exists>fb'. blame_run ops fb = Some fb' \<and> finger_ok fb' \<and> fb_Lines fb' = fold line_op ops (fb_Lines fb)"
proof (induction ops arbitrary: fb)
  case (Cons op ops)
  show ?case
  proof (cases op)
    case (FindOp n)
    with Cons Find_line [OF Cons.prems(1), of n] show ?thesis by fastforce
  next
    case (AddOp n c)
    with Cons.prems(2) have "1 \<le> n" by simp
    from AddLine_line [OF Cons.prems(1) this, of c] obtain fb1 where
      "AddLine n c fb = Some fb1" "finger_ok fb1" "fb_Lines fb1 = line_add n c (fb_Lines fb)" by blast
    with Cons.IH [of fb1] Cons.prems(2) AddOp show ?thesis by simp
  next
    case (RemoveOp n)
    from RemoveLine_line [OF Cons.prems(1), of n] obtain fb1 where
      "RemoveLine n fb = Some fb1" "finger_ok fb1" "fb_Lines fb1 = line_remove n (fb_Lines fb)" by blast
    with Cons.IH [of fb1] Cons.prems(2) RemoveOp show ?thesis by simp
  qed
qed simp

text \<open>C28. The list with its finger refines a plain list of lines: whatever operations are made one after the other on a new one, with line
  numbers from 1 where a line is added, no nil pointer is followed, the lines are those of the same operations on a
  list, and what is found next under a number is the line there.\<close>

theorem blame_refines_lines:
  assumes "list_all add_number_ok ops"
  shows "\<exists>fb pos fb'. blame_run ops NewFileBlame = Some fb \<and> fb_Lines fb = fold line_op ops [] \<and> Find n fb = Some (pos, fb') \<and>
    (case pos of None \<Rightarrow> None | Some p \<Rightarrow> fb_Lines fb' ! p) = line_at n (fold line_op ops [])"
proof -
  from blame_run_lines [OF finger_new assms] obtain fb where fb: "blame_run ops NewFileBlame = Some fb" "finger_ok fb"
    "fb_Lines fb = fold line_op ops []" by (auto simp: NewFileBlame_def)
  from Find_line [OF fb(2), of n] obtain pos fb' where "Find n fb = Some (pos, fb')" "fb_Lines fb' = fb_Lines fb"
    "(case pos of None \<Rightarrow> None | Some p \<Rightarrow> fb_Lines fb ! p) = line_at n (fb_Lines fb)" by blast
  with fb have "blame_run ops NewFileBlame = Some fb \<and> fb_Lines fb = fold line_op ops [] \<and> Find n fb = Some (pos, fb') \<and>
      (case pos of None \<Rightarrow> None | Some p \<Rightarrow> fb_Lines fb' ! p) = line_at n (fold line_op ops [])" by (cases pos) simp_all
  then show ?thesis by blast
qed

theorem blame_refines_lines_witness:
  "\<exists>fb. blame_run [AddOp 1 ''a'', AddOp 2 ''b'', AddOp 1 ''c'', FindOp 3, RemoveOp 2, AddOp 5 ''d''] NewFileBlame = Some fb \<and>
     fb_Lines fb = [Some ''c'', Some ''b'', None, None, Some ''d'']"
proof -
  let ?ops = "[AddOp 1 ''a'', AddOp 2 ''b'', AddOp 1 ''c'', FindOp 3, RemoveOp 2, AddOp 5 ''d'']"
  have "list_all add_number_ok ?ops" by simp
  moreover have "fold line_op ?ops [] = [Some ''c'', Some ''b'', None, None, Some ''d'']" by code_simp
  ultimately show ?thesis using blame_refines_lines [of ?ops] by auto
qed

end
