(* ===== verification/GitRepo.thy ===== *)
theory GitRepo
  imports LakeErrors FileBlame
begin

text \<open>
  The extraction of a git repository (\<open>plugins/gitextractor/parser/repo.go\<close>, \<open>store/database.go\<close>). The repository is
  an argument: its commits with their parents and the differences that libgit2 reports, as the callbacks see them:
  a delta for each file, with hunks of lines. The store is a function that can refuse a record; what it accepted is kept in order.
\<close>

fun each :: "('a \<Rightarrow> 's \<Rightarrow> 's outcome) \<Rightarrow> 'a list \<Rightarrow> 's \<Rightarrow> 's outcome" where
  "each f [] s = Fine s"
| "each f (x # xs) s = bind_outcome (f x s) (each f xs)"

definition some_or_panic :: "'a option \<Rightarrow> 'a outcome" where
  "some_or_panic x = (case x of None \<Rightarrow> Panic | Some y \<Rightarrow> Fine y)"

datatype line_origin = DiffLineContext | DiffLineAddition | DiffLineDeletion | OtherLine string

record diff_line =
  dl_Origin :: line_origin
  OldLineno :: int
  NewLineno :: int
  NumLines :: int

record diff_delta =
  OldFile :: string
  NewFile :: string
  dd_Hunks :: "diff_line list list"

record git_commit =
  gc_Id :: string
  gc_Parents :: "string list"
  gc_Message :: string
  gc_Author :: "(string \<times> string \<times> int) option"
  gc_Committer :: "(string \<times> string \<times> int) option"
  gc_Diff :: "diff_delta list"
  gc_Stats :: "int \<times> int"

section \<open>The lines of a diff\<close>

record CommitLineChange =
  lc_Id :: string
  lc_CommitSha :: string
  lc_NewFilePath :: string
  lc_LineNoNew :: int
  lc_LineNoOld :: int
  lc_OldFilePath :: string
  lc_HunkNum :: nat
  lc_ChangedType :: line_origin
  lc_PrevCommit :: string

record diff_state =
  ds_snapshot :: "string \<rightharpoonup> FileBlame"
  ds_deleted :: "diff_line list"
  ds_added :: "diff_line list"
  ds_lastFile :: string
  ds_changes :: "CommitLineChange list"

definition with_blame :: "(FileBlame \<Rightarrow> FileBlame option) \<Rightarrow> string \<Rightarrow> (string \<rightharpoonup> FileBlame) \<Rightarrow> (string \<rightharpoonup> FileBlame) outcome" where
  "with_blame f path snapshot =
     (case snapshot path of None \<Rightarrow> Panic
      | Some fb \<Rightarrow> bind_outcome (some_or_panic (f fb)) (\<lambda>fb'. Fine (snapshot(path \<mapsto> fb'))))"

text \<open>\<open>sort.Sort\<close> by \<open>DiffLines.Less\<close>: the larger old number first.\<close>

definition updateSnapshotFileBlame :: "string \<Rightarrow> diff_line list \<Rightarrow> diff_line list \<Rightarrow> string \<Rightarrow> (string \<rightharpoonup> FileBlame)
    \<Rightarrow> (string \<rightharpoonup> FileBlame) outcome" where
  "updateSnapshotFileBlame sha deleted added lastFile snapshot =
     bind_outcome (each (\<lambda>l. with_blame (RemoveLine (OldLineno l)) lastFile) (sort_key (\<lambda>l. - OldLineno l) deleted) snapshot)
       (each (\<lambda>l. with_blame (AddLine (NewLineno l) sha) lastFile) added)"

definition line_change :: "string \<Rightarrow> diff_delta \<Rightarrow> nat \<Rightarrow> diff_line \<Rightarrow> string \<Rightarrow> CommitLineChange" where
  "line_change sha file hunkNum line prev =
     \<lparr>lc_Id = sha @ '':'' @ NewFile file @ '':'' @ show_int (OldLineno line) @ '':'' @ show_int (NewLineno line),
      lc_CommitSha = sha, lc_NewFilePath = NewFile file, lc_LineNoNew = NewLineno line, lc_LineNoOld = OldLineno line,
      lc_OldFilePath = OldFile file, lc_HunkNum = hunkNum, lc_ChangedType = dl_Origin line, lc_PrevCommit = prev\<rparr>"

definition store_change :: "(CommitLineChange \<Rightarrow> goerr option) \<Rightarrow> CommitLineChange \<Rightarrow> diff_state \<Rightarrow> diff_state outcome" where
  "store_change store c st = (case store c of Some e \<Rightarrow> Fault e | None \<Rightarrow> Fine (st\<lparr>ds_changes := ds_changes st @ [c]\<rparr>))"

text \<open>The callback of a line. The commit of a deleted line is the one found in the lines of the old file.\<close>

definition diff_line_step :: "(CommitLineChange \<Rightarrow> goerr option) \<Rightarrow> string \<Rightarrow> diff_delta \<Rightarrow> nat \<Rightarrow> diff_line \<Rightarrow> diff_state
    \<Rightarrow> diff_state outcome" where
  "diff_line_step store sha file hunkNum line st =
     (case dl_Origin line of
        DiffLineAddition \<Rightarrow> store_change store (line_change sha file hunkNum line []) (st\<lparr>ds_added := ds_added st @ [line]\<rparr>)
      | DiffLineDeletion \<Rightarrow>
          (case ds_snapshot st (OldFile file) of
             None \<Rightarrow> Panic
           | Some fb \<Rightarrow>
               bind_outcome (some_or_panic (Find (OldLineno line) fb)) (\<lambda>(pos, fb').
                 let prev = (case pos of None \<Rightarrow> [] | Some p \<Rightarrow> (case fb_Lines fb' ! p of None \<Rightarrow> [] | Some c \<Rightarrow> c)) in
                 store_change store (line_change sha file hunkNum line prev)
                   (st\<lparr>ds_snapshot := (ds_snapshot st)(OldFile file \<mapsto> fb'), ds_deleted := ds_deleted st @ [line]\<rparr>)))
      | _ \<Rightarrow> store_change store (line_change sha file hunkNum line []) st)"

text \<open>The callback of a file.\<close>

definition file_start :: "string \<Rightarrow> diff_delta \<Rightarrow> diff_state \<Rightarrow> diff_state outcome" where
  "file_start sha file st =
     (let st1 = (if ds_snapshot st (OldFile file) = None
        then st\<lparr>ds_snapshot := (ds_snapshot st)(OldFile file \<mapsto> NewFileBlame)\<rparr> else st) in
      if ds_lastFile st1 = [] then Fine (st1\<lparr>ds_lastFile := NewFile file\<rparr>)
      else if ds_lastFile st1 \<noteq> NewFile file
      then bind_outcome (updateSnapshotFileBlame sha (ds_deleted st1) (ds_added st1) (ds_lastFile st1) (ds_snapshot st1))
          (\<lambda>snapshot. Fine (st1\<lparr>ds_snapshot := snapshot, ds_deleted := [], ds_added := [], ds_lastFile := NewFile file\<rparr>))
      else Fine st1)"

definition file_step :: "(CommitLineChange \<Rightarrow> goerr option) \<Rightarrow> string \<Rightarrow> diff_delta \<Rightarrow> diff_state \<Rightarrow> diff_state outcome" where
  "file_step store sha file st =
     bind_outcome (file_start sha file st)
       (each (\<lambda>(hunkNum, line). diff_line_step store sha file hunkNum line)
         (concat (map (\<lambda>(i, hunk). map (Pair (i + 1)) hunk) (enumerate 0 (dd_Hunks file)))))"

text \<open>The diff of a commit, and the rest of its last file.\<close>

definition commit_step :: "(CommitLineChange \<Rightarrow> goerr option) \<Rightarrow> git_commit
    \<Rightarrow> (string \<rightharpoonup> FileBlame) \<times> CommitLineChange list \<Rightarrow> ((string \<rightharpoonup> FileBlame) \<times> CommitLineChange list) outcome" where
  "commit_step store c s =
     bind_outcome (each (file_step store (gc_Id c)) (gc_Diff c)
         \<lparr>ds_snapshot = fst s, ds_deleted = [], ds_added = [], ds_lastFile = [], ds_changes = snd s\<rparr>)
       (\<lambda>st. bind_outcome (updateSnapshotFileBlame (gc_Id c) (ds_deleted st) (ds_added st) (ds_lastFile st) (ds_snapshot st))
         (\<lambda>snapshot. Fine (snapshot, ds_changes st)))"

section \<open>The history of the head\<close>

text \<open>The first parents from the head, latest first; \<open>lookup\<close> finds a commit by its id.\<close>

partial_function (option) first_parents :: "(string \<Rightarrow> goerr + git_commit) \<Rightarrow> string \<Rightarrow> (goerr + git_commit list) option" where
  "first_parents lookup sha =
     (case lookup sha of
        Inl e \<Rightarrow> Some (Inl e)
      | Inr c \<Rightarrow>
          (case gc_Parents c of
             [] \<Rightarrow> Some (Inr [c])
           | p # ps \<Rightarrow>
               Option.bind (first_parents lookup p)
                 (\<lambda>r. Some (case r of Inl e \<Rightarrow> Inl e | Inr cs \<Rightarrow> Inr (c # cs)))))"

record RepoSnapshot =
  rs_RepoId :: string
  rs_CommitSha :: string
  rs_FilePath :: string
  rs_LineNo :: nat

text \<open>The rows of a file. A line without a commit is no string: reading it panics.\<close>

fun snapshot_rows :: "(RepoSnapshot \<Rightarrow> goerr option) \<Rightarrow> string \<Rightarrow> string \<Rightarrow> nat \<Rightarrow> string option list \<Rightarrow> RepoSnapshot list outcome" where
  "snapshot_rows store repo path n [] = Fine []"
| "snapshot_rows store repo path n (None # xs) = Panic"
| "snapshot_rows store repo path n (Some sha # xs) =
     (let row = \<lparr>rs_RepoId = repo, rs_CommitSha = sha, rs_FilePath = path, rs_LineNo = n + 1\<rparr> in
      case store row of
        Some e \<Rightarrow> Fault e
      | None \<Rightarrow> bind_outcome (snapshot_rows store repo path (n + 1) xs) (\<lambda>rows. Fine (row # rows)))"

fun converted_outcome :: "'a outcome \<Rightarrow> 'a outcome" where
  "converted_outcome (Fault e) = Fault (case Convert (Some e) of None \<Rightarrow> e | Some e' \<Rightarrow> e')"
| "converted_outcome r = r"

text \<open>\<open>fault\<close> is the error of reading the trees of a commit or their difference; \<open>order\<close> is the order in which the map of the
  files is walked.\<close>

definition CollectDiffLine :: "(git_commit \<Rightarrow> goerr option) \<Rightarrow> (CommitLineChange \<Rightarrow> goerr option) \<Rightarrow> (RepoSnapshot \<Rightarrow> goerr option)
    \<Rightarrow> goerr option \<Rightarrow> string list \<Rightarrow> string \<Rightarrow> (string \<Rightarrow> goerr + git_commit) \<Rightarrow> goerr + string
    \<Rightarrow> (CommitLineChange list \<times> RepoSnapshot list) outcome option" where
  "CollectDiffLine fault store store_row delete_err order repo lookup head = map_option converted_outcome
     (case head of Inl e \<Rightarrow> Some (Fault e) | Inr sha \<Rightarrow>
     (case first_parents lookup sha of
        None \<Rightarrow> None
      | Some (Inl e) \<Rightarrow> Some (Fault e)
      | Some (Inr cs) \<Rightarrow>
          Some (bind_outcome (each (\<lambda>c s. case fault c of Some e \<Rightarrow> Fault e | None \<Rightarrow> commit_step store c s) (rev cs) (Map.empty, []))
            (\<lambda>(snapshot, changes).
               case delete_err of
                 Some e \<Rightarrow> Fault e
               | None \<Rightarrow>
                   bind_outcome (each (\<lambda>path rows. case snapshot path of None \<Rightarrow> Fine rows
                       | Some fb \<Rightarrow> bind_outcome (snapshot_rows store_row repo path 0 (fb_Lines fb)) (\<lambda>new. Fine (rows @ new))) order [])
                     (\<lambda>rows. Fine (changes, rows))))))"

end
