(* ===== verification/GitFacts.thy ===== *)
theory GitFacts
  imports GitRepo
begin

text \<open>
  What the extraction of a repository finds: the snapshot names, for every line at the head, a commit that added the line.
\<close>

section \<open>The lines of the files\<close>

definition lines_of :: "(string \<rightharpoonup> FileBlame) \<Rightarrow> string \<Rightarrow> string option list" where
  "lines_of snapshot f = (case snapshot f of None \<Rightarrow> [] | Some fb \<Rightarrow> fb_Lines fb)"

definition fingers_ok :: "(string \<rightharpoonup> FileBlame) \<Rightarrow> bool" where
  "fingers_ok snapshot \<longleftrightarrow> (\<forall>f fb. snapshot f = Some fb \<longrightarrow> finger_ok fb)"

lemma lines_of_update [simp]: "lines_of (snapshot(f \<mapsto> fb)) = (lines_of snapshot)(f := fb_Lines fb)"
  by (rule ext) (simp add: lines_of_def)

lemma fingers_ok_update [intro]: "fingers_ok snapshot \<Longrightarrow> finger_ok fb \<Longrightarrow> fingers_ok (snapshot(f \<mapsto> fb))"
  by (simp add: fingers_ok_def)

lemma fingers_okD: "fingers_ok snapshot \<Longrightarrow> snapshot f = Some fb \<Longrightarrow> finger_ok fb"
  by (simp add: fingers_ok_def)

definition diff_lines :: "diff_delta \<Rightarrow> diff_line list" where
  "diff_lines d = concat (dd_Hunks d)"

definition deletions :: "diff_delta \<Rightarrow> diff_line list" where
  "deletions d = filter (\<lambda>l. dl_Origin l = DiffLineDeletion) (diff_lines d)"

definition additions :: "diff_delta \<Rightarrow> diff_line list" where
  "additions d = filter (\<lambda>l. dl_Origin l = DiffLineAddition) (diff_lines d)"

definition changed_lines :: "string \<Rightarrow> diff_line list \<Rightarrow> diff_line list \<Rightarrow> string option list \<Rightarrow> string option list" where
  "changed_lines sha deleted added xs =
     fold (\<lambda>l. line_add (NewLineno l) sha) added (fold (\<lambda>l. line_remove (OldLineno l)) (sort_key (\<lambda>l. - OldLineno l) deleted) xs)"

lemma each_removed:
  "snapshot f = Some fb \<Longrightarrow> fingers_ok snapshot \<Longrightarrow>
    \<exists>snapshot'. each (\<lambda>l. with_blame (RemoveLine (OldLineno l)) f) ls snapshot = Fine snapshot' \<and> fingers_ok snapshot' \<and>
      lines_of snapshot' = (lines_of snapshot)(f := fold (\<lambda>l. line_remove (OldLineno l)) ls (fb_Lines fb)) \<and> dom snapshot' = dom snapshot"
proof (induction ls arbitrary: snapshot fb)
  case Nil
  then have "(lines_of snapshot)(f := fb_Lines fb) = lines_of snapshot" by (auto simp: lines_of_def)
  with Nil show ?case by simp
next
  case (Cons l ls)
  from RemoveLine_line [OF fingers_okD [OF Cons.prems(2,1)], of "OldLineno l"] obtain fb' where
    fb': "RemoveLine (OldLineno l) fb = Some fb'" "finger_ok fb'" "fb_Lines fb' = line_remove (OldLineno l) (fb_Lines fb)" by blast
  then have step: "with_blame (RemoveLine (OldLineno l)) f snapshot = Fine (snapshot(f \<mapsto> fb'))"
    using Cons.prems(1) by (simp add: with_blame_def some_or_panic_def)
  have here: "(snapshot(f \<mapsto> fb')) f = Some fb'" by simp
  have ok: "fingers_ok (snapshot(f \<mapsto> fb'))" using Cons.prems(2) fb'(2) by blast
  from Cons.IH [OF here ok] obtain s' where
    "each (\<lambda>l. with_blame (RemoveLine (OldLineno l)) f) ls (snapshot(f \<mapsto> fb')) = Fine s'" "fingers_ok s'" "dom s' = dom (snapshot(f \<mapsto> fb'))"
    "lines_of s' = (lines_of (snapshot(f \<mapsto> fb')))(f := fold (\<lambda>l. line_remove (OldLineno l)) ls (fb_Lines fb'))" by blast
  moreover have "dom (snapshot(f \<mapsto> fb')) = dom snapshot" using Cons.prems(1) by auto
  ultimately show ?case by (intro exI [of _ s']) (simp add: step fb'(3))
qed

lemma each_added:
  "snapshot f = Some fb \<Longrightarrow> fingers_ok snapshot \<Longrightarrow> list_all (\<lambda>l. 1 \<le> NewLineno l) ls \<Longrightarrow>
    \<exists>snapshot'. each (\<lambda>l. with_blame (AddLine (NewLineno l) sha) f) ls snapshot = Fine snapshot' \<and> fingers_ok snapshot' \<and>
      lines_of snapshot' = (lines_of snapshot)(f := fold (\<lambda>l. line_add (NewLineno l) sha) ls (fb_Lines fb)) \<and>
      dom snapshot' = dom snapshot"
proof (induction ls arbitrary: snapshot fb)
  case Nil
  then have "(lines_of snapshot)(f := fb_Lines fb) = lines_of snapshot" by (auto simp: lines_of_def)
  with Nil show ?case by simp
next
  case (Cons l ls)
  from Cons.prems(3) have "1 \<le> NewLineno l" by simp
  from AddLine_line [OF fingers_okD [OF Cons.prems(2,1)] this, of sha] obtain fb' where
    fb': "AddLine (NewLineno l) sha fb = Some fb'" "finger_ok fb'" "fb_Lines fb' = line_add (NewLineno l) sha (fb_Lines fb)" by blast
  then have step: "with_blame (AddLine (NewLineno l) sha) f snapshot = Fine (snapshot(f \<mapsto> fb'))"
    using Cons.prems(1) by (simp add: with_blame_def some_or_panic_def)
  have here: "(snapshot(f \<mapsto> fb')) f = Some fb'" by simp
  have ok: "fingers_ok (snapshot(f \<mapsto> fb'))" using Cons.prems(2) fb'(2) by blast
  have "list_all (\<lambda>l. 1 \<le> NewLineno l) ls" using Cons.prems(3) by simp
  from Cons.IH [OF here ok this] obtain s' where
    "each (\<lambda>l. with_blame (AddLine (NewLineno l) sha) f) ls (snapshot(f \<mapsto> fb')) = Fine s'" "fingers_ok s'"
    "dom s' = dom (snapshot(f \<mapsto> fb'))"
    "lines_of s' = (lines_of (snapshot(f \<mapsto> fb')))(f := fold (\<lambda>l. line_add (NewLineno l) sha) ls (fb_Lines fb'))" by blast
  moreover have "dom (snapshot(f \<mapsto> fb')) = dom snapshot" using Cons.prems(1) by auto
  ultimately show ?case by (intro exI [of _ s']) (simp add: step fb'(3))
qed

lemma update_lines:
  assumes "snapshot f \<noteq> None \<or> deleted = [] \<and> added = []" "fingers_ok snapshot" "list_all (\<lambda>l. 1 \<le> NewLineno l) added"
  shows "\<exists>snapshot'. updateSnapshotFileBlame sha deleted added f snapshot = Fine snapshot' \<and> fingers_ok snapshot' \<and>
    lines_of snapshot' = (lines_of snapshot)(f := changed_lines sha deleted added (lines_of snapshot f)) \<and> dom snapshot' = dom snapshot"
proof (cases "snapshot f")
  case None
  with assms have "deleted = []" "added = []" by simp_all
  with assms(2) show ?thesis by (simp add: updateSnapshotFileBlame_def changed_lines_def)
next
  case (Some fb)
  from each_removed [OF Some assms(2), of "sort_key (\<lambda>l. - OldLineno l) deleted"] obtain s1 where
    s1: "each (\<lambda>l. with_blame (RemoveLine (OldLineno l)) f) (sort_key (\<lambda>l. - OldLineno l) deleted) snapshot = Fine s1" "fingers_ok s1"
    "lines_of s1 = (lines_of snapshot)(f := fold (\<lambda>l. line_remove (OldLineno l)) (sort_key (\<lambda>l. - OldLineno l) deleted) (fb_Lines fb))"
    "dom s1 = dom snapshot" by blast
  then obtain fb1 where fb1: "s1 f = Some fb1" using Some by blast
  have "fb_Lines fb1 = lines_of s1 f" by (simp add: lines_of_def fb1)
  with each_added [OF fb1 s1(2) assms(3), of sha] s1 Some show ?thesis
    by (auto simp: updateSnapshotFileBlame_def changed_lines_def lines_of_def [of snapshot])
qed

section \<open>The diff of a commit\<close>

text \<open>The rows of the lines of a file, the earlier commits as in the lines \<open>xs\<close> of the old file.\<close>

definition numbered_lines :: "diff_delta \<Rightarrow> (nat \<times> diff_line) list" where
  "numbered_lines d = concat (map (\<lambda>(i, hunk). map (Pair (i + 1)) hunk) (enumerate 0 (dd_Hunks d)))"

definition prev_commit :: "diff_line \<Rightarrow> string option list \<Rightarrow> string" where
  "prev_commit l xs = (if dl_Origin l = DiffLineDeletion then (case line_at (OldLineno l) xs of None \<Rightarrow> [] | Some c \<Rightarrow> c) else [])"

definition changes_of :: "string \<Rightarrow> string option list \<Rightarrow> diff_delta \<Rightarrow> CommitLineChange list" where
  "changes_of sha xs d = map (\<lambda>(h, l). line_change sha d h l (prev_commit l xs)) (numbered_lines d)"

lemma map_snd_numbered: "map snd (concat (map (\<lambda>(i, hunk). map (Pair (f i)) hunk) (enumerate n hs))) = concat hs"
  by (induction hs arbitrary: n) (simp_all add: comp_def)

lemma line_steps:
  assumes "\<And>c. store c = None"
  shows "ds_snapshot st (OldFile d) \<noteq> None \<Longrightarrow> fingers_ok (ds_snapshot st) \<Longrightarrow>
    \<exists>st'. each (\<lambda>(h, l). diff_line_step store sha d h l) hls st = Fine st' \<and> fingers_ok (ds_snapshot st') \<and>
      lines_of (ds_snapshot st') = lines_of (ds_snapshot st) \<and> dom (ds_snapshot st') = dom (ds_snapshot st) \<and>
      ds_lastFile st' = ds_lastFile st \<and>
      ds_deleted st' = ds_deleted st @ filter (\<lambda>l. dl_Origin l = DiffLineDeletion) (map snd hls) \<and>
      ds_added st' = ds_added st @ filter (\<lambda>l. dl_Origin l = DiffLineAddition) (map snd hls) \<and>
      ds_changes st' = ds_changes st @ map (\<lambda>(h, l). line_change sha d h l (prev_commit l (lines_of (ds_snapshot st) (OldFile d)))) hls"
proof (induction hls arbitrary: st)
  case (Cons hl hls)
  obtain h l where hl: "hl = (h, l)" by (cases hl)
  from Cons.prems(1) obtain fb where fb: "ds_snapshot st (OldFile d) = Some fb" by blast
  have lines: "lines_of (ds_snapshot st) (OldFile d) = fb_Lines fb" by (simp add: lines_of_def fb)
  have "\<exists>st1. diff_line_step store sha d h l st = Fine st1 \<and> fingers_ok (ds_snapshot st1) \<and>
      lines_of (ds_snapshot st1) = lines_of (ds_snapshot st) \<and> dom (ds_snapshot st1) = dom (ds_snapshot st) \<and>
      ds_lastFile st1 = ds_lastFile st \<and>
      ds_deleted st1 = ds_deleted st @ (if dl_Origin l = DiffLineDeletion then [l] else []) \<and>
      ds_added st1 = ds_added st @ (if dl_Origin l = DiffLineAddition then [l] else []) \<and>
      ds_changes st1 = ds_changes st @ [line_change sha d h l (prev_commit l (fb_Lines fb))]"
  proof (cases "dl_Origin l = DiffLineDeletion")
    case True
    from Find_line [OF fingers_okD [OF Cons.prems(2) fb], of "OldLineno l"] obtain pos fb' where
      find: "Find (OldLineno l) fb = Some (pos, fb')" "finger_ok fb'" "fb_Lines fb' = fb_Lines fb"
      "(case pos of None \<Rightarrow> None | Some p \<Rightarrow> fb_Lines fb ! p) = line_at (OldLineno l) (fb_Lines fb)" by blast
    have prev: "(case pos of None \<Rightarrow> [] | Some p \<Rightarrow> (case fb_Lines fb' ! p of None \<Rightarrow> [] | Some c \<Rightarrow> c)) = prev_commit l (fb_Lines fb)"
      using find(3,4) True by (auto simp: prev_commit_def split: option.splits)
    have same: "(lines_of (ds_snapshot st))(OldFile d := fb_Lines fb) = lines_of (ds_snapshot st)" by (auto simp: lines [symmetric])
    have dom: "insert (OldFile d) (dom (ds_snapshot st)) = dom (ds_snapshot st)" using fb by auto
    have "diff_line_step store sha d h l st = Fine (st\<lparr>ds_snapshot := (ds_snapshot st)(OldFile d \<mapsto> fb'),
        ds_deleted := ds_deleted st @ [l], ds_changes := ds_changes st @ [line_change sha d h l (prev_commit l (fb_Lines fb))]\<rparr>)"
      using True fb find(1) by (simp add: diff_line_step_def some_or_panic_def store_change_def assms prev Let_def)
    moreover have "fingers_ok ((ds_snapshot st)(OldFile d \<mapsto> fb'))" using Cons.prems(2) find(2) by blast
    ultimately show ?thesis using True same dom by (simp add: find(3))
  next
    case False
    then have "prev_commit l (fb_Lines fb) = []" by (simp add: prev_commit_def)
    with False Cons.prems(2) show ?thesis
      by (cases "dl_Origin l") (simp_all add: diff_line_step_def store_change_def assms)
  qed
  then obtain st1 where st1: "diff_line_step store sha d h l st = Fine st1" "fingers_ok (ds_snapshot st1)"
    "lines_of (ds_snapshot st1) = lines_of (ds_snapshot st)" "dom (ds_snapshot st1) = dom (ds_snapshot st)"
    "ds_lastFile st1 = ds_lastFile st" "ds_deleted st1 = ds_deleted st @ (if dl_Origin l = DiffLineDeletion then [l] else [])"
    "ds_added st1 = ds_added st @ (if dl_Origin l = DiffLineAddition then [l] else [])"
    "ds_changes st1 = ds_changes st @ [line_change sha d h l (prev_commit l (fb_Lines fb))]" by blast
  have "ds_snapshot st1 (OldFile d) \<noteq> None" using st1(4) fb by auto
  from Cons.IH [OF this st1(2)] st1 show ?case by (auto simp: hl lines)
qed simp

lemma bind_outcome_assoc: "bind_outcome (bind_outcome x f) g = bind_outcome x (\<lambda>y. bind_outcome (f y) g)"
  by (cases x) simp_all

lemma each_append: "each f (xs @ ys) s = bind_outcome (each f xs s) (each f ys)"
proof (induction xs arbitrary: s)
  case (Cons x xs)
  then show ?case by (cases "f x s") simp_all
qed simp

definition file_change :: "string \<Rightarrow> diff_delta \<Rightarrow> (string \<Rightarrow> string option list) \<Rightarrow> string \<Rightarrow> string option list" where
  "file_change sha d L = L(NewFile d := changed_lines sha (deletions d) (additions d) (L (NewFile d)))"

definition file_diff_ok :: "diff_delta \<Rightarrow> bool" where
  "file_diff_ok d \<longleftrightarrow> OldFile d = NewFile d \<and> NewFile d \<noteq> [] \<and> list_all (\<lambda>l. 1 \<le> NewLineno l) (additions d)"

definition after_files :: "string \<Rightarrow> (string \<Rightarrow> string option list) \<Rightarrow> CommitLineChange list \<Rightarrow> diff_delta list \<Rightarrow> diff_state \<Rightarrow> bool" where
  "after_files sha L ch ds st \<longleftrightarrow> fingers_ok (ds_snapshot st) \<and>
     ds_changes st = ch @ concat (map (\<lambda>d. changes_of sha (L (OldFile d)) d) ds) \<and>
     lines_of (ds_snapshot st) = fold (file_change sha) (butlast ds) L \<and>
     (if ds = [] then ds_lastFile st = [] \<and> ds_deleted st = [] \<and> ds_added st = []
      else ds_lastFile st = NewFile (last ds) \<and> ds_deleted st = deletions (last ds) \<and> ds_added st = additions (last ds) \<and>
        ds_snapshot st (NewFile (last ds)) \<noteq> None)"

lemma file_changes_other: "f \<notin> NewFile ` set ds \<Longrightarrow> fold (file_change sha) ds L f = L f"
  by (induction ds arbitrary: L) (auto simp: file_change_def)

lemma after_files_update:
  assumes "after_files sha L ch ds st" "list_all file_diff_ok ds"
  shows "\<exists>snapshot'. updateSnapshotFileBlame sha (ds_deleted st) (ds_added st) (ds_lastFile st) (ds_snapshot st) = Fine snapshot' \<and>
    fingers_ok snapshot' \<and> lines_of snapshot' = fold (file_change sha) ds L \<and> dom snapshot' = dom (ds_snapshot st)"
proof (cases ds rule: rev_exhaust)
  case Nil
  with assms(1) show ?thesis by (simp add: after_files_def updateSnapshotFileBlame_def)
next
  case (snoc es d)
  with assms(1) have st: "fingers_ok (ds_snapshot st)" "lines_of (ds_snapshot st) = fold (file_change sha) es L"
    "ds_lastFile st = NewFile d" "ds_deleted st = deletions d" "ds_added st = additions d" "ds_snapshot st (NewFile d) \<noteq> None"
    by (simp_all add: after_files_def)
  have "list_all (\<lambda>l. 1 \<le> NewLineno l) (additions d)" using assms(2) snoc by (simp add: file_diff_ok_def)
  from update_lines [OF disjI1 [OF st(6)] st(1) this, of sha "deletions d"] show ?thesis
    by (auto simp: st(2-5) snoc file_change_def)
qed

lemma file_start_after:
  assumes "after_files sha L ch ds st" "list_all file_diff_ok ds" "file_diff_ok d" "NewFile d \<notin> NewFile ` set ds"
  shows "\<exists>st'. file_start sha d st = Fine st' \<and> fingers_ok (ds_snapshot st') \<and> ds_changes st' = ds_changes st \<and>
    lines_of (ds_snapshot st') = fold (file_change sha) ds L \<and> ds_lastFile st' = NewFile d \<and> ds_deleted st' = [] \<and>
    ds_added st' = [] \<and> ds_snapshot st' (OldFile d) \<noteq> None"
proof -
  have d: "OldFile d = NewFile d" "NewFile d \<noteq> []" using assms(3) by (simp_all add: file_diff_ok_def)
  define st1 where "st1 = (if ds_snapshot st (OldFile d) = None
      then st\<lparr>ds_snapshot := (ds_snapshot st)(OldFile d \<mapsto> NewFileBlame)\<rparr> else st)"
  have fresh: "lines_of (ds_snapshot st1) = lines_of (ds_snapshot st)"
    by (rule ext) (simp add: st1_def lines_of_def NewFileBlame_def)
  have st1: "after_files sha L ch ds st1" "ds_snapshot st1 (OldFile d) \<noteq> None" "ds_changes st1 = ds_changes st"
    using assms(1) fresh finger_new by (auto simp: after_files_def st1_def split: if_splits)
  from after_files_update [OF st1(1) assms(2)] obtain snapshot' where
    upd: "updateSnapshotFileBlame sha (ds_deleted st1) (ds_added st1) (ds_lastFile st1) (ds_snapshot st1) = Fine snapshot'"
    "fingers_ok snapshot'" "lines_of snapshot' = fold (file_change sha) ds L" "dom snapshot' = dom (ds_snapshot st1)" by blast
  have start: "file_start sha d st =
      (if ds_lastFile st1 = [] then Fine (st1\<lparr>ds_lastFile := NewFile d\<rparr>)
       else if ds_lastFile st1 \<noteq> NewFile d
       then bind_outcome (updateSnapshotFileBlame sha (ds_deleted st1) (ds_added st1) (ds_lastFile st1) (ds_snapshot st1))
           (\<lambda>snapshot. Fine (st1\<lparr>ds_snapshot := snapshot, ds_deleted := [], ds_added := [], ds_lastFile := NewFile d\<rparr>))
       else Fine st1)"
    by (simp only: file_start_def Let_def st1_def)
  show ?thesis
  proof (cases "ds = []")
    case True
    with st1 show ?thesis unfolding start by (simp add: after_files_def)
  next
    case False
    then have "ds_lastFile st1 = NewFile (last ds)" "NewFile (last ds) \<in> NewFile ` set ds"
      using st1(1) by (simp_all add: after_files_def)
    moreover from this(2) have "NewFile (last ds) \<noteq> NewFile d" using assms(4) by auto
    moreover have "NewFile (last ds) \<noteq> []" using assms(2) False by (auto simp: list_all_iff file_diff_ok_def)
    ultimately have "file_start sha d st = Fine (st1\<lparr>ds_snapshot := snapshot', ds_deleted := [], ds_added := [], ds_lastFile := NewFile d\<rparr>)"
      using upd(1) unfolding start by simp
    moreover have "snapshot' (OldFile d) \<noteq> None" using st1(2) upd(4) by blast
    ultimately show ?thesis using upd st1(3) by simp
  qed
qed

lemma file_steps:
  assumes "\<And>c. store c = None" "fingers_ok snapshot"
  shows "list_all file_diff_ok ds \<Longrightarrow> distinct (map NewFile ds) \<Longrightarrow>
    \<exists>st. each (file_step store sha) ds \<lparr>ds_snapshot = snapshot, ds_deleted = [], ds_added = [], ds_lastFile = [], ds_changes = ch\<rparr> = Fine st \<and>
      after_files sha (lines_of snapshot) ch ds st"
proof (induction ds rule: rev_induct)
  case Nil
  with assms(2) show ?case by (simp add: after_files_def)
next
  case (snoc d ds)
  let ?L = "lines_of snapshot"
  from snoc obtain st where st: "each (file_step store sha) ds
      \<lparr>ds_snapshot = snapshot, ds_deleted = [], ds_added = [], ds_lastFile = [], ds_changes = ch\<rparr> = Fine st"
    "after_files sha ?L ch ds st" by auto
  have ok: "list_all file_diff_ok ds" "file_diff_ok d" "NewFile d \<notin> NewFile ` set ds" using snoc.prems by simp_all
  from file_start_after [OF st(2) ok] obtain st1 where st1: "file_start sha d st = Fine st1" "fingers_ok (ds_snapshot st1)"
    "ds_changes st1 = ds_changes st" "lines_of (ds_snapshot st1) = fold (file_change sha) ds ?L" "ds_lastFile st1 = NewFile d"
    "ds_deleted st1 = []" "ds_added st1 = []" "ds_snapshot st1 (OldFile d) \<noteq> None" by blast
  have same: "OldFile d = NewFile d" using ok(2) by (simp add: file_diff_ok_def)
  have lines: "map snd (numbered_lines d) = diff_lines d"
    using map_snd_numbered [of "\<lambda>i. i + 1" 0 "dd_Hunks d"] by (simp add: numbered_lines_def diff_lines_def)
  from line_steps [of store, OF assms(1) st1(8,2), of sha "numbered_lines d"] obtain st2 where
    st2: "each (\<lambda>(h, l). diff_line_step store sha d h l) (numbered_lines d) st1 = Fine st2" "fingers_ok (ds_snapshot st2)"
    "lines_of (ds_snapshot st2) = lines_of (ds_snapshot st1)" "dom (ds_snapshot st2) = dom (ds_snapshot st1)"
    "ds_lastFile st2 = ds_lastFile st1" "ds_deleted st2 = deletions d" "ds_added st2 = additions d"
    "ds_changes st2 = ds_changes st1 @ changes_of sha (lines_of (ds_snapshot st1) (OldFile d)) d"
    using st1(6,7) by (auto simp: lines deletions_def additions_def changes_of_def)
  have "lines_of (ds_snapshot st1) (OldFile d) = ?L (OldFile d)"
    using file_changes_other [OF ok(3)] by (simp add: st1(4) same)
  moreover have "ds_snapshot st2 (NewFile d) \<noteq> None" using st1(8) st2(4) same by auto
  ultimately have "after_files sha ?L ch (ds @ [d]) st2"
    using st(2) st1 st2 by (simp add: after_files_def)
  moreover have "file_step store sha d st = Fine st2"
    using st1(1) st2(1) by (simp add: file_step_def numbered_lines_def)
  ultimately show ?case by (simp add: each_append st(1))
qed

lemma commit_step_lines:
  assumes "\<And>c. store c = None" "fingers_ok snapshot" "list_all file_diff_ok (gc_Diff c)" "distinct (map NewFile (gc_Diff c))"
  shows "\<exists>snapshot'. commit_step store c (snapshot, ch) = Fine (snapshot',
      ch @ concat (map (\<lambda>d. changes_of (gc_Id c) (lines_of snapshot (OldFile d)) d) (gc_Diff c))) \<and> fingers_ok snapshot' \<and>
    lines_of snapshot' = fold (file_change (gc_Id c)) (gc_Diff c) (lines_of snapshot)"
proof -
  from file_steps [of store, OF assms, of "gc_Id c" ch] obtain st where
    st: "each (file_step store (gc_Id c)) (gc_Diff c)
      \<lparr>ds_snapshot = snapshot, ds_deleted = [], ds_added = [], ds_lastFile = [], ds_changes = ch\<rparr> = Fine st"
    "after_files (gc_Id c) (lines_of snapshot) ch (gc_Diff c) st" by blast
  from after_files_update [OF st(2) assms(3)] st show ?thesis by (auto simp: commit_step_def after_files_def)
qed

lemma file_change_here: "file_change sha d L (NewFile d) = changed_lines sha (deletions d) (additions d) (L (NewFile d))"
  by (simp add: file_change_def)

lemma file_change_other: "f \<noteq> NewFile d \<Longrightarrow> file_change sha d L f = L f"
  by (simp add: file_change_def)

lemma file_changes_at:
  assumes "distinct (map NewFile ds)" "d \<in> set ds"
  shows "fold (file_change sha) ds L (NewFile d) = changed_lines sha (deletions d) (additions d) (L (NewFile d))"
  using assms
proof (induction ds arbitrary: L)
  case (Cons e ds)
  show ?case
  proof (cases "d = e")
    case True
    with Cons.prems(1) have "NewFile d \<notin> NewFile ` set ds" by simp
    from file_changes_other [OF this] True show ?thesis by (simp add: file_change_here)
  next
    case False
    with Cons.prems have d: "d \<in> set ds" by simp
    then have "NewFile d \<in> NewFile ` set ds" by (rule imageI)
    with Cons.prems(1) have "NewFile d \<noteq> NewFile e" by auto
    note d = d this
    with Cons.IH [OF _ d(1)] Cons.prems(1) show ?thesis by (simp add: file_change_other)
  qed
qed simp

section \<open>Removing and adding lines\<close>

definition kept :: "int set \<Rightarrow> 'a list \<Rightarrow> 'a list" where
  "kept ns xs = nths xs {i. int i + 1 \<notin> ns}"

lemma kept_all: "(\<And>n. n \<in> ns \<Longrightarrow> n < 1 \<or> int (length xs) < n) \<Longrightarrow> kept ns xs = xs"
  unfolding kept_def by (rule nths_all) force

lemma kept_none [simp]: "kept {} xs = xs"
  by (rule kept_all) simp

lemma kept_split:
  assumes "\<And>n. n \<in> ns \<Longrightarrow> n \<le> int (length xs)"
  shows "kept ns (xs @ ys) = kept ns xs @ ys"
proof -
  have "nths ys {j. j + length xs \<in> {i. int i + 1 \<notin> ns}} = ys" using assms by (intro nths_all) force
  then show ?thesis by (simp add: kept_def nths_append)
qed

lemma kept_last: "(\<And>n. n \<in> ns \<Longrightarrow> n \<le> int (length xs)) \<Longrightarrow> kept (insert (int (length xs) + 1) ns) (xs @ y # ys) = kept ns xs @ ys"
proof -
  assume le: "\<And>n. n \<in> ns \<Longrightarrow> n \<le> int (length xs)"
  have "nths xs {i. int i + 1 \<notin> insert (int (length xs) + 1) ns} = nths xs {i. int i + 1 \<notin> ns}"
    unfolding nths_def by (intro arg_cong [of _ _ "map fst"] filter_cong refl) (auto dest: set_zip_rightD)
  moreover have "nths (y # ys) {j. j + length xs \<in> {i. int i + 1 \<notin> insert (int (length xs) + 1) ns}} = ys"
    by (auto simp: nths_Cons intro!: nths_all dest: le)
  ultimately show ?thesis by (simp add: kept_def nths_append)
qed

lemma removed_lines:
  "sorted_wrt (>) ns \<Longrightarrow> set ns \<subseteq> {1..int (length xs)} \<Longrightarrow> fold line_remove ns xs = kept (set ns) xs"
proof (induction ns arbitrary: xs)
  case Nil
  then show ?case by simp
next
  case (Cons n ns)
  define k where "k = nat (n - 1)"
  have n: "1 \<le> n" "n \<le> int (length xs)" "n = int k + 1" "k < length xs" using Cons.prems(2) by (auto simp: k_def)
  have less: "\<And>m. m \<in> set ns \<Longrightarrow> m \<le> int k" using Cons.prems(1) n(3) by auto
  have xs: "xs = take k xs @ xs ! k # drop (Suc k) xs" using n(4) by (rule id_take_nth_drop)
  have rem: "line_remove n xs = take k xs @ drop (Suc k) xs" using n(1,2) by (simp add: line_remove_def remove_at_def k_def)
  have "set ns \<subseteq> {1..int (length (line_remove n xs))}" using less Cons.prems(2) n(4) unfolding rem by force
  with Cons.IH Cons.prems(1) have "fold line_remove ns (line_remove n xs) = kept (set ns) (line_remove n xs)" by simp
  also have "\<dots> = kept (set ns) (take k xs) @ drop (Suc k) xs" unfolding rem using less n(4) by (intro kept_split) simp
  also have "\<dots> = kept (insert (int (length (take k xs)) + 1) (set ns)) (take k xs @ xs ! k # drop (Suc k) xs)"
    using less n(4) by (intro kept_last [symmetric]) simp
  also have "\<dots> = kept (set (n # ns)) xs" using xs n(3,4) by simp
  finally show ?case by simp
qed

lemma added_lines:
  "sorted_wrt (<) ns \<Longrightarrow> set ns \<subseteq> {1..int (length xs + length ns)} \<Longrightarrow>
    length (fold (\<lambda>n. line_add n c) ns xs) = length xs + length ns \<and> kept (set ns) (fold (\<lambda>n. line_add n c) ns xs) = xs \<and>
    (\<forall>n \<in> set ns. fold (\<lambda>n. line_add n c) ns xs ! nat (n - 1) = Some c)"
proof (induction ns rule: rev_induct)
  case Nil
  then show ?case by simp
next
  case (snoc n ns)
  let ?ys = "fold (\<lambda>n. line_add n c) ns xs"
  define k where "k = nat (n - 1)"
  have less: "\<And>m. m \<in> set ns \<Longrightarrow> m < n" using snoc.prems(1) by (simp add: sorted_wrt_append)
  have n: "1 \<le> n" "n \<le> int (length xs + length ns) + 1" "n = int k + 1" using snoc.prems(2) by (auto simp: k_def)
  have sub: "set ns \<subseteq> {1..int (length xs + length ns)}" using less snoc.prems(2) n(2) by force
  from snoc.IH [OF _ sub] snoc.prems(1) have IH: "length ?ys = length xs + length ns" "kept (set ns) ?ys = xs"
    "\<forall>m \<in> set ns. ?ys ! nat (m - 1) = Some c" by (simp_all add: sorted_wrt_append)
  have k: "k \<le> length ?ys" using n IH(1) by linarith
  have add: "line_add n c ?ys = take k ?ys @ Some c # drop k ?ys"
    using k by (auto simp: line_add_def Let_def k_def [symmetric])
  have le: "\<And>m. m \<in> set ns \<Longrightarrow> m \<le> int (length (take k ?ys))" using less n(3) k by force
  have "kept (set ns) (take k ?ys) @ drop k ?ys = kept (set ns) (take k ?ys @ drop k ?ys)"
    using le by (intro kept_split [symmetric])
  then have "kept (set (ns @ [n])) (line_add n c ?ys) = xs"
    using kept_last [where ns = "set ns" and xs = "take k ?ys" and y = "Some c" and ys = "drop k ?ys", OF le] IH(2) k n(3)
    unfolding add by simp
  moreover have "line_add n c ?ys ! nat (m - 1) = Some c" if "m \<in> set (ns @ [n])" for m
  proof (cases "m = n")
    case True
    then show ?thesis using k by (simp add: add k_def [symmetric] nth_append)
  next
    case False
    with that have m: "m \<in> set ns" by simp
    from less [OF m] sub m have "nat (m - 1) < k" using n(3) by force
    with IH(3) m k show ?thesis by (simp add: add nth_append)
  qed
  ultimately show ?case using IH(1) k by (simp add: add)
qed

lemma nths_zip: "length xs = length ys \<Longrightarrow> nths (zip xs ys) I = zip (nths xs I) (nths ys I)"
  by (induction xs ys arbitrary: I rule: list_induct2) (simp_all add: nths_Cons)

lemma kept_zip: "length xs = length ys \<Longrightarrow> kept ns (zip xs ys) = zip (kept ns xs) (kept ns ys)"
  by (simp add: kept_def nths_zip)

lemma kept_length: "set ns \<subseteq> {1..int (length xs)} \<Longrightarrow> distinct ns \<Longrightarrow> length (kept (set ns) xs) + length ns = length xs"
proof -
  assume ns: "set ns \<subseteq> {1..int (length xs)}" "distinct ns"
  have "(\<lambda>i. int i + 1) ` {i. i < length xs \<and> int i + 1 \<in> set ns} = set ns"
  proof (intro equalityI subsetI)
    fix n assume n: "n \<in> set ns"
    then have "1 \<le> n" "n \<le> int (length xs)" using ns(1) by auto
    then obtain i where "n = int i + 1" "i < length xs" by (intro that [of "nat (n - 1)"]) linarith+
    with n show "n \<in> (\<lambda>i. int i + 1) ` {i. i < length xs \<and> int i + 1 \<in> set ns}" by blast
  qed auto
  then have "card {i. i < length xs \<and> int i + 1 \<in> set ns} = length ns"
    using card_image [of "\<lambda>i. int i + 1" "{i. i < length xs \<and> int i + 1 \<in> set ns}"] distinct_card [OF ns(2)] by (simp add: inj_on_def)
  moreover have "card {i. i < length xs \<and> int i + 1 \<notin> set ns} + card {i. i < length xs \<and> int i + 1 \<in> set ns} = card {i. i < length xs}"
  proof -
    have "{i. i < length xs \<and> int i + 1 \<notin> set ns} \<union> {i. i < length xs \<and> int i + 1 \<in> set ns} = {i. i < length xs}" by auto
    then show ?thesis by (subst card_Un_disjoint [symmetric]) auto
  qed
  ultimately show ?thesis by (simp add: kept_def length_nths)
qed

lemma kept_nth: "j < length xs \<Longrightarrow> int j + 1 \<notin> ns \<Longrightarrow> xs ! j \<in> set (kept ns xs)"
  by (auto simp: kept_def set_nths)

lemma kept_subset: "set (kept ns xs) \<subseteq> set xs"
  by (simp add: kept_def set_nths_subset)

section \<open>A history\<close>

text \<open>The diff of a file turns its old lines into its new ones.\<close>

definition proper_diff :: "'l list \<Rightarrow> 'l list \<Rightarrow> diff_delta \<Rightarrow> bool" where
  "proper_diff old new d \<longleftrightarrow> OldFile d = NewFile d \<and> NewFile d \<noteq> [] \<and>
     sorted_wrt (<) (map OldLineno (deletions d)) \<and> set (map OldLineno (deletions d)) \<subseteq> {1..int (length old)} \<and>
     sorted_wrt (<) (map NewLineno (additions d)) \<and> set (map NewLineno (additions d)) \<subseteq> {1..int (length new)} \<and>
     kept (set (map OldLineno (deletions d))) old = kept (set (map NewLineno (additions d))) new"

lemma strictly_descending: "sorted_wrt (\<ge>) xs \<Longrightarrow> distinct xs \<Longrightarrow> sorted_wrt (>) (xs :: int list)"
  by (induction xs) (auto simp: order.strict_iff_order)

lemma descending_deletions:
  assumes "sorted_wrt (<) (map OldLineno ls)"
  shows "sorted_wrt (>) (map OldLineno (sort_key (\<lambda>l. - OldLineno l) ls))"
proof -
  let ?s = "map OldLineno (sort_key (\<lambda>l. - OldLineno l) ls)"
  have "sorted (map (\<lambda>l. - OldLineno l) (sort_key (\<lambda>l. - OldLineno l) ls))" by (rule sorted_sort_key)
  then have "sorted_wrt (\<ge>) ?s" by (simp add: sorted_map sorted_wrt_map)
  moreover have "distinct ?s"
  proof -
    have "distinct (map OldLineno ls)" using assms by (simp add: strict_sorted_iff)
    moreover have "mset ?s = mset (map OldLineno ls)" by simp
    ultimately show ?thesis using mset_eq_imp_distinct_iff by blast
  qed
  ultimately show ?thesis by (rule strictly_descending)
qed

lemma changed_proper:
  fixes old new :: "'l list" and sha :: string
  assumes "proper_diff old new d" "length xs = length old"
  defines "ys \<equiv> changed_lines sha (deletions d) (additions d) xs"
  shows "length ys = length new"
    and "kept (set (map NewLineno (additions d))) (zip new ys) = kept (set (map OldLineno (deletions d))) (zip old xs)"
    and "l \<in> set (additions d) \<Longrightarrow> ys ! nat (NewLineno l - 1) = Some sha"
proof -
  let ?D = "map OldLineno (deletions d)" and ?A = "map NewLineno (additions d)"
  let ?s = "sort_key (\<lambda>l. - OldLineno l) (deletions d)"
  have diff: "sorted_wrt (<) ?D" "set ?D \<subseteq> {1..int (length old)}" "sorted_wrt (<) ?A" "set ?A \<subseteq> {1..int (length new)}"
    "kept (set ?D) old = kept (set ?A) new" using assms(1) by (simp_all only: proper_diff_def)
  have "set (map OldLineno ?s) \<subseteq> {1..int (length xs)}" using diff(2) assms(2) by simp
  from removed_lines [OF descending_deletions [OF diff(1)] this]
  have removed: "fold (\<lambda>l. line_remove (OldLineno l)) ?s xs = kept (set ?D) xs" by (simp add: fold_map comp_def)
  then have ys: "ys = fold (\<lambda>n. line_add n sha) ?A (kept (set ?D) xs)"
    by (simp add: ys_def changed_lines_def fold_map comp_def)
  have distinct: "distinct ?D" "distinct ?A" using diff(1,3) by (simp_all add: strict_sorted_iff)
  have len: "length (kept (set ?D) xs) + length ?A = length new"
    using kept_length [OF diff(2) distinct(1)] kept_length [OF diff(4) distinct(2)] kept_length [of ?D xs] assms(2) diff(2,5) distinct(1)
    by simp
  then have "set ?A \<subseteq> {1..int (length (kept (set ?D) xs) + length ?A)}" using diff(4) by simp
  note added = added_lines [OF diff(3) this, of sha, folded ys]
  show length: "length ys = length new" using added len by simp
  show "kept (set ?A) (zip new ys) = kept (set ?D) (zip old xs)"
    using added unfolding kept_zip [OF length [symmetric]] kept_zip [OF assms(2) [symmetric]] diff(5) by simp
  show "ys ! nat (NewLineno l - 1) = Some sha" if "l \<in> set (additions d)" using added that by simp
qed

text \<open>A commit changes the files of its diff and no others.\<close>

definition proper_commit :: "git_commit \<Rightarrow> (string \<Rightarrow> 'l list) \<Rightarrow> (string \<Rightarrow> 'l list) \<Rightarrow> bool" where
  "proper_commit c t t' \<longleftrightarrow> distinct (map NewFile (gc_Diff c)) \<and>
     (\<forall>d \<in> set (gc_Diff c). proper_diff (t (NewFile d)) (t' (NewFile d)) d) \<and> (\<forall>f. f \<notin> NewFile ` set (gc_Diff c) \<longrightarrow> t' f = t f)"

text \<open>A history from the empty tree: each commit with the files it leaves.\<close>

fun history :: "(string \<Rightarrow> 'l list) \<Rightarrow> (git_commit \<times> (string \<Rightarrow> 'l list)) list \<Rightarrow> bool" where
  "history t [] \<longleftrightarrow> True"
| "history t ((c, t') # h) \<longleftrightarrow> proper_commit c t t' \<and> history t' h"

definition last_tree :: "(git_commit \<times> (string \<Rightarrow> 'l list)) list \<Rightarrow> string \<Rightarrow> 'l list" where
  "last_tree h = (if h = [] then (\<lambda>_. []) else snd (last h))"

definition adds_line :: "git_commit \<Rightarrow> (string \<Rightarrow> 'l list) \<Rightarrow> string \<Rightarrow> 'l \<Rightarrow> bool" where
  "adds_line c t f x \<longleftrightarrow> (\<exists>d \<in> set (gc_Diff c). NewFile d = f \<and> (\<exists>l \<in> set (additions d). t f ! nat (NewLineno l - 1) = x))"

definition blamed :: "(git_commit \<times> (string \<Rightarrow> 'l list)) list \<Rightarrow> (string \<Rightarrow> 'l list) \<Rightarrow> (string \<Rightarrow> string option list) \<Rightarrow> bool" where
  "blamed h t L \<longleftrightarrow> (\<forall>f. length (L f) = length (t f) \<and>
     (\<forall>(x, s) \<in> set (zip (t f) (L f)). \<exists>(c, u) \<in> set h. s = Some (gc_Id c) \<and> adds_line c u f x))"

lemma blamed_more: "blamed h t L \<Longrightarrow> set h \<subseteq> set h' \<Longrightarrow> blamed h' t L"
  unfolding blamed_def by fast

lemma commit_blamed:
  fixes t t' :: "string \<Rightarrow> 'l list"
  assumes "blamed h t L" "proper_commit c t t'"
  shows "blamed (h @ [(c, t')]) t' (fold (file_change (gc_Id c)) (gc_Diff c) L)"
  unfolding blamed_def
proof (intro allI)
  fix f
  let ?L = "fold (file_change (gc_Id c)) (gc_Diff c) L" and ?h = "h @ [(c, t')]"
  have old: "length (L f) = length (t f)" "\<forall>(x, s) \<in> set (zip (t f) (L f)). \<exists>(e, u) \<in> set ?h. s = Some (gc_Id e) \<and> adds_line e u f x"
    using blamed_more [OF assms(1), of ?h] by (auto simp: blamed_def)
  show "length (?L f) = length (t' f) \<and> (\<forall>(x, s) \<in> set (zip (t' f) (?L f)). \<exists>(e, u) \<in> set ?h. s = Some (gc_Id e) \<and> adds_line e u f x)"
  proof (cases "f \<in> NewFile ` set (gc_Diff c)")
    case False
    then have "?L f = L f" "t' f = t f" using file_changes_other [OF False] assms(2) by (simp_all add: proper_commit_def)
    with old show ?thesis by simp
  next
    case True
    then obtain d where d: "d \<in> set (gc_Diff c)" "f = NewFile d" by blast
    have dist: "distinct (map NewFile (gc_Diff c))" and diff: "proper_diff (t f) (t' f) d"
      using assms(2) d by (simp_all add: proper_commit_def)
    have L: "?L f = changed_lines (gc_Id c) (deletions d) (additions d) (L f)"
      using file_changes_at [OF dist d(1)] d(2) by simp
    note changed = changed_proper [OF diff old(1), where sha = "gc_Id c", folded L]
    have "\<exists>(e, u) \<in> set ?h. s = Some (gc_Id e) \<and> adds_line e u f x" if xs: "(x, s) \<in> set (zip (t' f) (?L f))" for x s
    proof -
      from xs obtain j where j: "j < length (t' f)" "x = t' f ! j" "s = ?L f ! j" by (auto simp: in_set_zip)
      show ?thesis
      proof (cases "int j + 1 \<in> set (map NewLineno (additions d))")
        case True
        then obtain l where l: "l \<in> set (additions d)" "NewLineno l = int j + 1" by auto
        from changed(3) [OF l(1)] j l(2) have "s = Some (gc_Id c)" by simp
        moreover have "adds_line c t' f x" unfolding adds_line_def using d l j(2)
          by (intro bexI [OF _ d(1)] conjI bexI [OF _ l(1)]) simp_all
        ultimately show ?thesis by auto
      next
        case False
        have "zip (t' f) (?L f) ! j \<in> set (kept (set (map NewLineno (additions d))) (zip (t' f) (?L f)))"
          using j(1) changed(1) False by (intro kept_nth) simp_all
        then have "(x, s) \<in> set (zip (t f) (L f))"
          using j changed(1) kept_subset [of "set (map OldLineno (deletions d))" "zip (t f) (L f)"] unfolding changed(2) by auto
        with old(2) show ?thesis by blast
      qed
    qed
    with changed(1) show ?thesis by auto
  qed
qed

section \<open>The snapshot of the head\<close>

lemma proper_file_diff: "proper_diff old new d \<Longrightarrow> file_diff_ok d"
  unfolding proper_diff_def file_diff_ok_def list_all_iff by fastforce

lemma proper_file_diffs: "proper_commit c t t' \<Longrightarrow> list_all file_diff_ok (gc_Diff c)"
  unfolding proper_commit_def list_all_iff using proper_file_diff by blast

lemma history_blamed:
  assumes "\<And>c. store c = None"
  shows "history t h \<Longrightarrow> fingers_ok snapshot \<Longrightarrow> blamed h0 t (lines_of snapshot) \<Longrightarrow>
    \<exists>snapshot' changes. each (commit_step store) (map fst h) (snapshot, ch) = Fine (snapshot', changes) \<and> fingers_ok snapshot' \<and>
      blamed (h0 @ h) (if h = [] then t else snd (last h)) (lines_of snapshot')"
proof (induction h arbitrary: t snapshot h0 ch)
  case (Cons ct h)
  obtain c t' where ct: "ct = (c, t')" by (cases ct)
  with Cons.prems(1) have c: "proper_commit c t t'" "history t' h" by simp_all
  have dist: "distinct (map NewFile (gc_Diff c))" using c(1) by (simp add: proper_commit_def)
  from commit_step_lines [of store, OF assms Cons.prems(2) proper_file_diffs [OF c(1)] dist] obtain snapshot1 ch1 where
    one: "commit_step store c (snapshot, ch) = Fine (snapshot1, ch1)" "fingers_ok snapshot1"
    "lines_of snapshot1 = fold (file_change (gc_Id c)) (gc_Diff c) (lines_of snapshot)" by blast
  from commit_blamed [OF Cons.prems(3) c(1)] have "blamed (h0 @ [(c, t')]) t' (lines_of snapshot1)" by (simp only: one(3))
  from Cons.IH [OF c(2) one(2) this, of ch1] one(1) show ?case by (auto simp: ct)
qed simp

lemma snapshot_rows_fine:
  "list_all (\<lambda>x. x \<noteq> None) xs \<Longrightarrow> snapshot_rows (\<lambda>_. None) repo path n xs =
    Fine (map (\<lambda>(i, x). \<lparr>rs_RepoId = repo, rs_CommitSha = the x, rs_FilePath = path, rs_LineNo = i + 1\<rparr>) (enumerate n xs))"
proof (induction xs arbitrary: n)
  case (Cons x xs)
  then obtain s where x: "x = Some s" by auto
  have "snapshot_rows (\<lambda>_. None) repo path (Suc n) xs =
      Fine (map (\<lambda>(i, x). \<lparr>rs_RepoId = repo, rs_CommitSha = the x, rs_FilePath = path, rs_LineNo = i + 1\<rparr>) (enumerate (Suc n) xs))"
    using Cons by simp
  then show ?case by (simp add: x)
qed simp

definition file_rows :: "string \<Rightarrow> (string \<Rightarrow> string option list) \<Rightarrow> string \<Rightarrow> RepoSnapshot list" where
  "file_rows repo L f = map (\<lambda>(i, x). \<lparr>rs_RepoId = repo, rs_CommitSha = the x, rs_FilePath = f, rs_LineNo = i + 1\<rparr>) (enumerate 0 (L f))"

lemma all_file_rows:
  assumes "\<And>f. list_all (\<lambda>x. x \<noteq> None) (lines_of snapshot f)"
  shows "each (\<lambda>path rows. case snapshot path of None \<Rightarrow> Fine rows
      | Some fb \<Rightarrow> bind_outcome (snapshot_rows (\<lambda>_. None) repo path 0 (fb_Lines fb)) (\<lambda>new. Fine (rows @ new))) order rows0 =
    Fine (rows0 @ concat (map (file_rows repo (lines_of snapshot)) order))"
proof (induction order arbitrary: rows0)
  case (Cons f order)
  show ?case
  proof (cases "snapshot f")
    case None
    then have "file_rows repo (lines_of snapshot) f = []" by (simp add: file_rows_def lines_of_def)
    with None Cons show ?thesis by simp
  next
    case (Some fb)
    then have "lines_of snapshot f = fb_Lines fb" by (simp add: lines_of_def)
    with assms [of f] Some Cons show ?thesis by (simp add: snapshot_rows_fine file_rows_def)
  qed
qed simp

lemma blamed_some:
  assumes "blamed h t L"
  shows "list_all (\<lambda>x. x \<noteq> None) (L f)"
proof -
  have len: "length (L f) = length (t f)" using assms by (simp add: blamed_def)
  have "x \<noteq> None" if "x \<in> set (L f)" for x
  proof -
    from that obtain j where "j < length (L f)" "x = L f ! j" by (auto simp: in_set_conv_nth)
    then have "(t f ! j, x) \<in> set (zip (t f) (L f))" using len by (auto simp: in_set_zip)
    with assms show ?thesis by (fastforce simp: blamed_def)
  qed
  then show ?thesis by (simp add: list_all_iff)
qed

text \<open>C11. The snapshot of a repository blames every line on a commit that added it: for a history along the first parents in which each diff
  turns the files before a commit into the files after it, the rows of \<open>CollectDiffLine\<close> number the lines of each file at the
  head from 1, and each row names a commit of the history whose diff added that line, with the same text, to that file.\<close>

theorem snapshot_blames_adders:
  assumes "history (\<lambda>_. []) h" and "first_parents lookup head = Some (Inr (rev (map fst h)))" and "distinct order"
  shows "\<exists>changes rows. CollectDiffLine (\<lambda>_. None) (\<lambda>_. None) (\<lambda>_. None) None order repo lookup (Inr head) = Some (Fine (changes, rows)) \<and>
    (\<forall>f \<in> set order. map rs_LineNo (filter (\<lambda>r. rs_FilePath r = f) rows) = [1..<Suc (length (last_tree h f))]) \<and>
    (\<forall>r \<in> set rows. rs_FilePath r \<in> set order \<and>
      (\<exists>(c, t) \<in> set h. rs_CommitSha r = gc_Id c \<and> adds_line c t (rs_FilePath r) (last_tree h (rs_FilePath r) ! (rs_LineNo r - 1))))"
proof -
  have "fingers_ok Map.empty" "blamed [] (\<lambda>_. [] :: 'a list) (lines_of Map.empty)"
    by (simp_all add: fingers_ok_def blamed_def lines_of_def)
  from history_blamed [OF refl assms(1) this, of "[]"] obtain snapshot changes where
    run: "each (commit_step (\<lambda>_. None)) (map fst h) (Map.empty, []) = Fine (snapshot, changes)" and
    blamed: "blamed h (last_tree h) (lines_of snapshot)" by (auto simp: last_tree_def)
  define rows where "rows = concat (map (file_rows repo (lines_of snapshot)) order)"
  have "CollectDiffLine (\<lambda>_. None) (\<lambda>_. None) (\<lambda>_. None) None order repo lookup (Inr head) = Some (Fine (changes, rows))"
    using all_file_rows [OF blamed_some [OF blamed], of repo order "[]"]
    by (simp add: CollectDiffLine_def assms(2) rev_map [symmetric] run rows_def)
  moreover have "map rs_LineNo (filter (\<lambda>r. rs_FilePath r = f) rows) = [1..<Suc (length (last_tree h f))]" if "f \<in> set order" for f
  proof -
    have path: "filter (\<lambda>r. rs_FilePath r = f) (file_rows repo L g) = (if g = f then file_rows repo L g else [])" for L g
      by (auto simp: file_rows_def filter_empty_conv filter_id_conv)
    have "filter (\<lambda>r. rs_FilePath r = f) rows = file_rows repo (lines_of snapshot) f"
      using that assms(3) unfolding rows_def
    proof (induction order)
      case (Cons g gs)
      have "f \<notin> set gs \<Longrightarrow> filter (\<lambda>r. rs_FilePath r = f) (concat (map (file_rows repo (lines_of snapshot)) gs)) = []"
        by (auto simp: filter_empty_conv file_rows_def)
      with Cons show ?case by (auto simp: path)
    qed simp
    moreover have "length (lines_of snapshot f) = length (last_tree h f)" using blamed by (simp add: blamed_def)
    moreover have "map rs_LineNo (file_rows repo L f) = [1..<Suc (length (L f))]" for L
    proof -
      have "map rs_LineNo (file_rows repo L f) = map Suc (map fst (enumerate 0 (L f)))"
        by (simp add: file_rows_def comp_def split_beta del: map_fst_enumerate)
      also have "\<dots> = map Suc [0..<length (L f)]" by simp
      finally show ?thesis by (simp only: map_Suc_upt) simp
    qed
    ultimately show ?thesis by simp
  qed
  moreover have "rs_FilePath r \<in> set order \<and> (\<exists>(c, t) \<in> set h. rs_CommitSha r = gc_Id c \<and>
      adds_line c t (rs_FilePath r) (last_tree h (rs_FilePath r) ! (rs_LineNo r - 1)))" if "r \<in> set rows" for r
  proof -
    from that obtain f j where f: "f \<in> set order" "j < length (lines_of snapshot f)"
      "r = \<lparr>rs_RepoId = repo, rs_CommitSha = the (lines_of snapshot f ! j), rs_FilePath = f, rs_LineNo = j + 1\<rparr>"
      by (auto simp: rows_def file_rows_def in_set_enumerate_eq)
    then have "(last_tree h f ! j, lines_of snapshot f ! j) \<in> set (zip (last_tree h f) (lines_of snapshot f))"
      using blamed by (auto simp: blamed_def in_set_zip)
    with blamed f show ?thesis by (fastforce simp: blamed_def)
  qed
  ultimately show ?thesis by blast
qed

text \<open>A file of two lines, of which the second commit replaces the second and appends a third.\<close>

definition sample_line :: "line_origin \<Rightarrow> int \<Rightarrow> int \<Rightarrow> diff_line" where
  "sample_line orig old new = \<lparr>dl_Origin = orig, OldLineno = old, NewLineno = new, NumLines = 1\<rparr>"

definition sample_commit :: "string \<Rightarrow> string list \<Rightarrow> diff_line list \<Rightarrow> git_commit" where
  "sample_commit sha parents ls = \<lparr>gc_Id = sha, gc_Parents = parents, gc_Message = [], gc_Author = None, gc_Committer = None,
     gc_Diff = [\<lparr>OldFile = ''f'', NewFile = ''f'', dd_Hunks = [ls]\<rparr>], gc_Stats = (0, 0)\<rparr>"

definition sample_c1 :: git_commit where
  "sample_c1 = sample_commit ''c1'' [] [sample_line DiffLineAddition (-1) 1, sample_line DiffLineAddition (-1) 2]"

definition sample_c2 :: git_commit where
  "sample_c2 = sample_commit ''c2'' [''c1''] [sample_line DiffLineContext 1 1, sample_line DiffLineDeletion 2 (-1),
     sample_line DiffLineAddition (-1) 2, sample_line DiffLineAddition (-1) 3]"

definition sample_tree :: "string list \<Rightarrow> string \<Rightarrow> string list" where
  "sample_tree ls f = (if f = ''f'' then ls else [])"

definition sample_history :: "(git_commit \<times> (string \<Rightarrow> string list)) list" where
  "sample_history = [(sample_c1, sample_tree [''one'', ''two'']), (sample_c2, sample_tree [''one'', ''zwei'', ''drei''])]"

definition sample_lookup :: "string \<Rightarrow> goerr + git_commit" where
  "sample_lookup sha = (if sha = ''c1'' then Inr sample_c1 else if sha = ''c2'' then Inr sample_c2 else Inl (External ''not found''))"

lemma sample_history_ok: "history (\<lambda>_. []) sample_history"
  by (auto simp: sample_history_def proper_commit_def proper_diff_def sample_c1_def sample_c2_def sample_commit_def sample_line_def
      deletions_def additions_def diff_lines_def sample_tree_def kept_def nths_Cons)

theorem snapshot_blames_adders_witness:
  "\<exists>changes rows. CollectDiffLine (\<lambda>_. None) (\<lambda>_. None) (\<lambda>_. None) None [''f''] ''r'' sample_lookup (Inr ''c2'') = Some (Fine (changes, rows)) \<and>
     map rs_LineNo rows = [1, 2, 3]"
proof -
  have "first_parents sample_lookup ''c1'' = Some (Inr [sample_c1])"
    by (subst first_parents.simps) (simp add: sample_lookup_def sample_c1_def sample_commit_def)
  then have "first_parents sample_lookup ''c2'' = Some (Inr (rev (map fst sample_history)))"
    by (subst first_parents.simps) (simp add: sample_lookup_def sample_c2_def sample_commit_def sample_history_def)
  from snapshot_blames_adders [OF sample_history_ok this, of "[''f'']" "''r''"] obtain changes rows where
    rows: "CollectDiffLine (\<lambda>_. None) (\<lambda>_. None) (\<lambda>_. None) None [''f''] ''r'' sample_lookup (Inr ''c2'') = Some (Fine (changes, rows))"
    "map rs_LineNo (filter (\<lambda>r. rs_FilePath r = ''f'') rows) = [1..<Suc (length (last_tree sample_history ''f''))]"
    "\<forall>r \<in> set rows. rs_FilePath r = ''f''" by auto
  have "length (last_tree sample_history ''f'') = 3" by (simp add: last_tree_def sample_history_def sample_tree_def)
  moreover have "filter (\<lambda>r. rs_FilePath r = ''f'') rows = rows" using rows(3) by (simp add: filter_id_conv)
  ultimately show ?thesis using rows(1,2) by (simp add: upt_rec)
qed

end
