(* ===== verification/GitStore.thy ===== *)
theory GitStore
  imports GitFacts
begin

text \<open>
  The rows of the commits, files, tags and branches of a repository (\<open>plugins/gitextractor/parser/repo.go\<close>) and the
  store that takes them (\<open>store/database.go\<close>). The store is the list of the records it took; \<open>refuse\<close> is the error of adding a
  record, if any. A walk over the objects of the repository gets them in a list, each with whether the context is cancelled by then
  and with what libgit2 answers when the object is looked up.
\<close>

section \<open>The store\<close>

type_synonym raw_origin = "string \<times> string"

record Account =
  ac_Id :: string
  ac_Email :: string
  ac_FullName :: string
  ac_UserName :: string
  ac_Origin :: raw_origin

record Commit =
  cm_Sha :: string
  cm_Message :: string
  cm_AuthorName :: string
  cm_AuthorEmail :: string
  cm_AuthorId :: string
  cm_AuthoredDate :: int
  cm_CommitterName :: string
  cm_CommitterEmail :: string
  cm_CommitterId :: string
  cm_CommittedDate :: int
  cm_Additions :: int
  cm_Deletions :: int
  cm_Origin :: raw_origin

record CommitFile =
  cf_Id :: string
  cf_CommitSha :: string
  cf_FilePath :: string
  cf_Additions :: int
  cf_Deletions :: int

record CommitFileComponent =
  cc_CommitFileId :: string
  cc_ComponentName :: string

record git_ref =
  rf_Id :: string
  rf_RepoId :: string
  rf_Name :: string
  rf_CommitSha :: string
  rf_IsDefault :: bool
  rf_RefType :: string

datatype git_row = AccountRow Account | CommitRow Commit | ParentRow string string | FileRow CommitFile
  | ComponentRow CommitFileComponent | RepoCommitRow string string | RefRow git_ref

type_synonym git_store = "git_row list"

definition add_row :: "(git_row \<Rightarrow> goerr option) \<Rightarrow> git_row \<Rightarrow> git_store \<Rightarrow> goerr option \<times> git_store" where
  "add_row refuse r db = (case refuse r of Some e \<Rightarrow> (Some e, db) | None \<Rightarrow> (None, db @ [r]))"

fun add_rows :: "(git_row \<Rightarrow> goerr option) \<Rightarrow> git_row list \<Rightarrow> git_store \<Rightarrow> goerr option \<times> git_store" where
  "add_rows refuse [] db = (None, db)"
| "add_rows refuse (r # rs) db = (case add_row refuse r db of
     (Some e, db') \<Rightarrow> (Some e, db') | (None, db') \<Rightarrow> add_rows refuse rs db')"

text \<open>\<open>Commits\<close> sets the origin of the account twice, and never that of the commit.\<close>

definition db_Commits :: "(git_row \<Rightarrow> goerr option) \<Rightarrow> string \<Rightarrow> Commit \<Rightarrow> git_store \<Rightarrow> goerr option \<times> git_store" where
  "db_Commits refuse repo c db =
     (let account = \<lparr>ac_Id = cm_AuthorEmail c, ac_Email = cm_AuthorEmail c, ac_FullName = cm_AuthorName c, ac_UserName = cm_AuthorName c,
        ac_Origin = (''gitextractor'', repo)\<rparr> in
      add_rows refuse [AccountRow account, CommitRow c] db)"

section \<open>The files of a commit\<close>

text \<open>The loop over the files keeps the file it is at and its component; \<open>components\<close> are the names with their patterns as tests, in
  the order in which the map is walked.\<close>

record file_loop =
  fl_file :: "CommitFile option"
  fl_component :: "CommitFileComponent option"
  fl_db :: git_store

definition file_component :: "(string \<times> (string \<Rightarrow> bool)) list \<Rightarrow> string \<Rightarrow> string" where
  "file_component components path =
     (let name = (case find (\<lambda>(n, p). p path) components of None \<Rightarrow> [] | Some (n, p) \<Rightarrow> n) in
      if name = [] then ''Default'' else name)"

definition new_commit_file :: "(string \<Rightarrow> string) \<Rightarrow> string \<Rightarrow> diff_delta \<Rightarrow> CommitFile" where
  "new_commit_file sha256_hex sha d = \<lparr>cf_Id = sha @ '':'' @ sha256_hex (NewFile d), cf_CommitSha = sha, cf_FilePath = NewFile d,
     cf_Additions = sum_list (map NumLines (additions d)), cf_Deletions = sum_list (map NumLines (deletions d))\<rparr>"

fun files_loop :: "(git_row \<Rightarrow> goerr option) \<Rightarrow> (string \<Rightarrow> string) \<Rightarrow> (string \<times> (string \<Rightarrow> bool)) list \<Rightarrow> string \<Rightarrow> diff_delta list
    \<Rightarrow> file_loop \<Rightarrow> goerr option \<times> file_loop" where
  "files_loop refuse sha256_hex components sha [] s = (None, s)"
| "files_loop refuse sha256_hex components sha (d # ds) s =
     (case (case fl_file s of None \<Rightarrow> (None, fl_db s) | Some f \<Rightarrow> add_row refuse (FileRow f) (fl_db s)) of
        (Some e, db) \<Rightarrow> (Some e, s\<lparr>fl_db := db\<rparr>)
      | (None, db) \<Rightarrow>
          let f = new_commit_file sha256_hex sha d in
          files_loop refuse sha256_hex components sha ds
            \<lparr>fl_file = Some f, fl_component = Some \<lparr>cc_CommitFileId = cf_Id f, cc_ComponentName = file_component components (NewFile d)\<rparr>,
             fl_db = db\<rparr>)"

text \<open>What is left after the loop: each error takes the place of the one before.\<close>

definition storeCommitFilesFromDiff :: "(git_row \<Rightarrow> goerr option) \<Rightarrow> (string \<Rightarrow> string) \<Rightarrow> (string \<times> (string \<Rightarrow> bool)) list \<Rightarrow> string
    \<Rightarrow> diff_delta list \<Rightarrow> git_store \<Rightarrow> goerr option \<times> git_store" where
  "storeCommitFilesFromDiff refuse sha256_hex components sha ds db =
     (case files_loop refuse sha256_hex components sha ds \<lparr>fl_file = None, fl_component = None, fl_db = db\<rparr> of
        (err, s) \<Rightarrow>
          (case (case fl_component s of None \<Rightarrow> (err, fl_db s) | Some c \<Rightarrow> add_row refuse (ComponentRow c) (fl_db s)) of
             (err1, db1) \<Rightarrow>
               (case fl_file s of None \<Rightarrow> (err1, db1) | Some f \<Rightarrow> add_row refuse (FileRow f) db1)))"

section \<open>Walks over the objects\<close>

fun for_each :: "('a \<Rightarrow> 's \<Rightarrow> goerr option \<times> 's) \<Rightarrow> (bool \<times> 'a) list \<Rightarrow> 's \<Rightarrow> goerr option \<times> 's" where
  "for_each f [] s = (None, s)"
| "for_each f ((cancelled, x) # xs) s =
     (if cancelled then (Some (External Canceled), s)
      else case f x s of (Some e, s') \<Rightarrow> (Some e, s') | (None, s') \<Rightarrow> for_each f xs s')"

definition converted :: "goerr option \<times> 's \<Rightarrow> goerr option \<times> 's" where
  "converted r = (Convert (fst r), snd r)"

definition TypeNotMatchError :: string where
  "TypeNotMatchError = ''the requested type does not match the type in the ODB''"

definition reported :: "goerr \<Rightarrow> goerr option" where
  "reported e = (if e = External TypeNotMatchError then None else Some e)"

section \<open>The commits\<close>

definition commit_row :: "git_commit \<Rightarrow> Commit" where
  "commit_row c =
     (let author = (case gc_Author c of None \<Rightarrow> ([], [], 0) | Some a \<Rightarrow> a);
          committer = (case gc_Committer c of None \<Rightarrow> ([], [], 0) | Some a \<Rightarrow> a) in
      \<lparr>cm_Sha = gc_Id c, cm_Message = gc_Message c, cm_AuthorName = fst author, cm_AuthorEmail = fst (snd author),
       cm_AuthorId = fst (snd author), cm_AuthoredDate = snd (snd author), cm_CommitterName = fst committer, cm_CommitterEmail = fst (snd committer),
       cm_CommitterId = fst (snd committer), cm_CommittedDate = snd (snd committer), cm_Additions = fst (gc_Stats c), cm_Deletions = snd (gc_Stats c), cm_Origin = ([], [])\<rparr>)"

text \<open>What libgit2 answers when it reads the trees of a commit and their difference, and when it sums the difference up.\<close>

record git_reads =
  tree_fault :: "git_commit \<Rightarrow> goerr option"
  stats_fault :: "git_commit \<Rightarrow> goerr option"

definition getDiffComparedToParent :: "git_reads \<Rightarrow> (git_row \<Rightarrow> goerr option) \<Rightarrow> (string \<Rightarrow> string) \<Rightarrow> (string \<times> (string \<Rightarrow> bool)) list
    \<Rightarrow> git_commit \<Rightarrow> git_store \<Rightarrow> goerr option \<times> git_store" where
  "getDiffComparedToParent reads refuse sha256_hex components c db =
     (case tree_fault reads c of
        Some e \<Rightarrow> (Convert (Some e), db)
      | None \<Rightarrow>
          (case storeCommitFilesFromDiff refuse sha256_hex components (gc_Id c) (gc_Diff c) db of
             (Some e, db') \<Rightarrow> (Convert (Some e), db')
           | (None, db') \<Rightarrow> (Convert (stats_fault reads c), db')))"

definition storeParentCommits :: "(git_row \<Rightarrow> goerr option) \<Rightarrow> git_commit \<Rightarrow> git_store \<Rightarrow> goerr option \<times> git_store" where
  "storeParentCommits refuse c db = add_rows refuse (map (ParentRow (gc_Id c)) (gc_Parents c)) db"

definition CollectCommit :: "git_reads \<Rightarrow> (git_row \<Rightarrow> goerr option) \<Rightarrow> (string \<Rightarrow> string) \<Rightarrow> (string \<times> (string \<Rightarrow> bool)) list
    \<Rightarrow> string \<Rightarrow> goerr + git_commit \<Rightarrow> git_store \<Rightarrow> goerr option \<times> git_store" where
  "CollectCommit reads refuse sha256_hex components repo obj db =
     (case obj of
        Inl e \<Rightarrow> (Convert (reported e), db)
      | Inr c \<Rightarrow>
          (case storeParentCommits refuse c db of
             (Some e, db1) \<Rightarrow> (Some e, db1)
           | (None, db1) \<Rightarrow>
               (case getDiffComparedToParent reads refuse sha256_hex components c db1 of
                  (Some e, db2) \<Rightarrow> (Some e, db2)
                | (None, db2) \<Rightarrow>
                    (case db_Commits refuse repo (commit_row c) db2 of
                       (Some e, db3) \<Rightarrow> (Some e, db3)
                     | (None, db3) \<Rightarrow> add_row refuse (RepoCommitRow repo (gc_Id c)) db3))))"

definition CollectCommits :: "git_reads \<Rightarrow> (git_row \<Rightarrow> goerr option) \<Rightarrow> (string \<Rightarrow> string) \<Rightarrow> (string \<times> (string \<Rightarrow> bool)) list
    \<Rightarrow> string \<Rightarrow> (bool \<times> (goerr + git_commit)) list \<Rightarrow> git_store \<Rightarrow> goerr option \<times> git_store" where
  "CollectCommits reads refuse sha256_hex components repo objs db =
     converted (for_each (CollectCommit reads refuse sha256_hex components repo) objs db)"

definition CountCommits :: "(bool \<times> (goerr + git_commit)) list \<Rightarrow> goerr option \<times> nat" where
  "CountCommits objs =
     converted (for_each (\<lambda>obj n. case obj of Inl e \<Rightarrow> (Convert (reported e), n) | Inr c \<Rightarrow> (None, n + 1)) objs 0)"

section \<open>Tags and branches\<close>

text \<open>A tag is a name with the object it names; looking the object up gives what an annotated tag points to.\<close>

record git_tag =
  tg_name :: string
  tg_id :: string
  tg_target :: "goerr + string"

definition collect_tag :: "(git_row \<Rightarrow> goerr option) \<Rightarrow> string \<Rightarrow> git_tag \<Rightarrow> git_store \<Rightarrow> goerr option \<times> git_store" where
  "collect_tag refuse repo tag db =
     (let store = (\<lambda>tagCommit. if tagCommit = [] then (None, db)
        else add_row refuse (RefRow \<lparr>rf_Id = repo @ '':'' @ tg_name tag, rf_RepoId = repo, rf_Name = tg_name tag, rf_CommitSha = tagCommit,
          rf_IsDefault = False, rf_RefType = ''TAG''\<rparr>) db) in
      case tg_target tag of
        Inr target \<Rightarrow> store target
      | Inl e \<Rightarrow> (case reported e of Some e' \<Rightarrow> (Convert (Some e'), db) | None \<Rightarrow> store (tg_id tag)))"

definition CollectTags :: "(git_row \<Rightarrow> goerr option) \<Rightarrow> string \<Rightarrow> (bool \<times> git_tag) list \<Rightarrow> git_store \<Rightarrow> goerr option \<times> git_store" where
  "CollectTags refuse repo tags db = converted (for_each (collect_tag refuse repo) tags db)"

record git_branch =
  br_listed :: bool
  br_name :: "goerr + string"
  br_target :: "string option"
  br_head :: "goerr + bool"

definition quiet :: "'a \<Rightarrow> goerr + 'a \<Rightarrow> goerr + 'a" where
  "quiet otherwise r = (case r of Inr x \<Rightarrow> Inr x | Inl e \<Rightarrow> (case reported e of None \<Rightarrow> Inr otherwise | Some e' \<Rightarrow> Inl e'))"

definition collect_branch :: "(git_row \<Rightarrow> goerr option) \<Rightarrow> string \<Rightarrow> git_branch \<Rightarrow> git_store \<Rightarrow> goerr option \<times> git_store" where
  "collect_branch refuse repo b db =
     (if \<not> br_listed b then (None, db)
      else case quiet [] (br_name b) of
        Inl e \<Rightarrow> (Some e, db)
      | Inr name \<Rightarrow>
          (case quiet False (br_head b) of
             Inl e \<Rightarrow> (Some e, db)
           | Inr head \<Rightarrow>
               (case add_row refuse (RefRow \<lparr>rf_Id = repo @ '':'' @ name, rf_RepoId = repo, rf_Name = name,
                   rf_CommitSha = (case br_target b of None \<Rightarrow> [] | Some oid \<Rightarrow> oid), rf_IsDefault = head, rf_RefType = ''BRANCH''\<rparr>) db of
                  (None, db') \<Rightarrow> (None, db')
                | (Some e, db') \<Rightarrow> (reported e, db'))))"

definition CollectBranches :: "(git_row \<Rightarrow> goerr option) \<Rightarrow> string \<Rightarrow> (bool \<times> git_branch) list \<Rightarrow> git_store \<Rightarrow> goerr option \<times> git_store" where
  "CollectBranches refuse repo branches db = converted (for_each (collect_branch refuse repo) branches db)"

definition CountBranches :: "(bool \<times> git_branch) list \<Rightarrow> goerr option \<times> nat" where
  "CountBranches branches = converted (for_each (\<lambda>b n. (None, if br_listed b then n + 1 else n)) branches 0)"

section \<open>The whole extraction\<close>

text \<open>The repository as the extraction sees it, and the answers of the database to the rows of the line differences.\<close>

record git_view =
  gv_tags :: "(bool \<times> git_tag) list"
  gv_branches :: "(bool \<times> git_branch) list"
  gv_objects :: "(bool \<times> (goerr + git_commit)) list"
  gv_lookup :: "string \<Rightarrow> goerr + git_commit"
  gv_head :: "goerr + string"
  gv_order :: "string list"

record line_refusals =
  refuse_change :: "CommitLineChange \<Rightarrow> goerr option"
  refuse_snapshot :: "RepoSnapshot \<Rightarrow> goerr option"
  refuse_delete :: "goerr option"

definition CollectAll :: "git_reads \<Rightarrow> (git_row \<Rightarrow> goerr option) \<Rightarrow> line_refusals \<Rightarrow> (string \<Rightarrow> string)
    \<Rightarrow> (string \<times> (string \<Rightarrow> bool)) list \<Rightarrow> string \<Rightarrow> git_view \<Rightarrow> git_store
    \<Rightarrow> (CommitLineChange list \<times> RepoSnapshot list) outcome option \<times> git_store" where
  "CollectAll reads refuse lines sha256_hex components repo v db =
     (case CollectTags refuse repo (gv_tags v) db of
        (Some e, db1) \<Rightarrow> (Some (Fault e), db1)
      | (None, db1) \<Rightarrow>
          (case CollectBranches refuse repo (gv_branches v) db1 of
             (Some e, db2) \<Rightarrow> (Some (Fault e), db2)
           | (None, db2) \<Rightarrow>
               (case CollectCommits reads refuse sha256_hex components repo (gv_objects v) db2 of
                  (Some e, db3) \<Rightarrow> (Some (Fault e), db3)
                | (None, db3) \<Rightarrow>
                    (CollectDiffLine (tree_fault reads) (refuse_change lines) (refuse_snapshot lines) (refuse_delete lines) (gv_order v) repo
                       (gv_lookup v) (gv_head v), db3))))"

section \<open>What a run stores\<close>

text \<open>A store that refuses nothing but components; \<open>answer\<close> is its error for them.\<close>

definition only_components :: "(CommitFileComponent \<Rightarrow> goerr option) \<Rightarrow> git_row \<Rightarrow> goerr option" where
  "only_components answer r = (case r of ComponentRow c \<Rightarrow> answer c | _ \<Rightarrow> None)"

definition taken_row :: "(CommitFileComponent \<Rightarrow> goerr option) \<Rightarrow> git_row \<Rightarrow> bool" where
  "taken_row answer r \<longleftrightarrow> only_components answer r = None"

fun component_row :: "git_row \<Rightarrow> bool" where
  "component_row (ComponentRow c) \<longleftrightarrow> True"
| "component_row _ \<longleftrightarrow> False"

lemma taken_other [simp]: "\<not> component_row r \<Longrightarrow> taken_row answer r"
  by (cases r) (simp_all add: taken_row_def only_components_def)

lemma add_row_taken [simp]: "\<not> component_row r \<Longrightarrow> add_row (only_components answer) r db = (None, db @ [r])"
  by (cases r) (simp_all add: add_row_def only_components_def)

lemma add_rows_taken [simp]: "list_all (\<lambda>r. \<not> component_row r) rs \<Longrightarrow> add_rows (only_components answer) rs db = (None, db @ rs)"
  by (induction rs arbitrary: db) simp_all

lemma snd_add_component [simp]: "snd (add_row (only_components answer) r db) = db @ filter (taken_row answer) [r]"
  by (auto simp: add_row_def taken_row_def split: option.split)

lemma add_component:
  obtains e where "add_row (only_components answer) r db = (e, db @ filter (taken_row answer) [r])"
  by (metis prod.collapse snd_add_component)

lemma files_loop_all:
  assumes "ds \<noteq> []"
  shows "files_loop (only_components answer) h cs sha ds s = (None,
    \<lparr>fl_file = Some (new_commit_file h sha (last ds)),
     fl_component = Some \<lparr>cc_CommitFileId = cf_Id (new_commit_file h sha (last ds)), cc_ComponentName = file_component cs (NewFile (last ds))\<rparr>,
     fl_db = fl_db s @ (case fl_file s of None \<Rightarrow> [] | Some f \<Rightarrow> [FileRow f]) @ map (FileRow \<circ> new_commit_file h sha) (butlast ds)\<rparr>)"
  using assms
proof (induction ds arbitrary: s)
  case (Cons d ds)
  show ?case
  proof (cases "ds = []")
    case True
    then show ?thesis by (cases "fl_file s") (simp_all add: Let_def)
  next
    case False
    with Cons.IH show ?thesis by (cases "fl_file s") (simp_all add: Let_def)
  qed
qed simp

definition account_of :: "string \<Rightarrow> Commit \<Rightarrow> Account" where
  "account_of repo c = \<lparr>ac_Id = cm_AuthorEmail c, ac_Email = cm_AuthorEmail c, ac_FullName = cm_AuthorName c,
     ac_UserName = cm_AuthorName c, ac_Origin = (''gitextractor'', repo)\<rparr>"

definition last_component :: "(string \<Rightarrow> string) \<Rightarrow> (string \<times> (string \<Rightarrow> bool)) list \<Rightarrow> git_commit \<Rightarrow> CommitFileComponent" where
  "last_component h cs c = (let d = last (gc_Diff c) in
     \<lparr>cc_CommitFileId = cf_Id (new_commit_file h (gc_Id c) d), cc_ComponentName = file_component cs (NewFile d)\<rparr>)"

definition commit_rows :: "(string \<Rightarrow> string) \<Rightarrow> (string \<times> (string \<Rightarrow> bool)) list \<Rightarrow> string \<Rightarrow> git_commit \<Rightarrow> git_row list" where
  "commit_rows h cs repo c = map (ParentRow (gc_Id c)) (gc_Parents c) @
     (if gc_Diff c = [] then []
      else map (FileRow \<circ> new_commit_file h (gc_Id c)) (butlast (gc_Diff c)) @
        [ComponentRow (last_component h cs c), FileRow (new_commit_file h (gc_Id c) (last (gc_Diff c)))]) @
     [AccountRow (account_of repo (commit_row c)), CommitRow (commit_row c), RepoCommitRow repo (gc_Id c)]"

definition clean_reads :: git_reads where
  "clean_reads = \<lparr>tree_fault = \<lambda>_. None, stats_fault = \<lambda>_. None\<rparr>"

lemma Convert_None [simp]: "Convert None = None"
  by (simp add: Convert_def wrapRaw_def)

lemma filter_taken [simp]: "list_all (\<lambda>r. \<not> component_row r) rs \<Longrightarrow> filter (taken_row answer) rs = rs"
  by (induction rs) simp_all

lemma no_component_rows [simp]:
  "list_all (\<lambda>r. \<not> component_row r) (map (ParentRow sha) ps)"
  "list_all (\<lambda>r. \<not> component_row r) (map (FileRow \<circ> f) ds)"
  by (simp_all add: list_all_iff)

lemma CollectCommit_rows:
  "CollectCommit clean_reads (only_components answer) h cs repo (Inr c) db = (None, db @ filter (taken_row answer) (commit_rows h cs repo c))"
proof (cases "gc_Diff c = []")
  case True
  then show ?thesis
    by (simp add: CollectCommit_def storeParentCommits_def getDiffComparedToParent_def clean_reads_def storeCommitFilesFromDiff_def
      db_Commits_def commit_rows_def account_of_def Let_def)
next
  case False
  let ?db = "db @ map (ParentRow (gc_Id c)) (gc_Parents c) @ map (FileRow \<circ> new_commit_file h (gc_Id c)) (butlast (gc_Diff c))"
  obtain e where e: "add_row (only_components answer) (ComponentRow (last_component h cs c)) ?db =
      (e, ?db @ filter (taken_row answer) [ComponentRow (last_component h cs c)])"
    by (rule add_component)
  from False show ?thesis
    by (simp add: CollectCommit_def storeParentCommits_def getDiffComparedToParent_def clean_reads_def storeCommitFilesFromDiff_def
      files_loop_all db_Commits_def commit_rows_def account_of_def e [unfolded last_component_def Let_def, simplified]
      last_component_def Let_def)
qed

definition commits_of :: "(bool \<times> (goerr + git_commit)) list \<Rightarrow> git_commit list" where
  "commits_of objs = concat (map (\<lambda>(cancelled, obj). case obj of Inl e \<Rightarrow> [] | Inr c \<Rightarrow> [c]) objs)"

text \<open>Every object is a commit or an object of another type, and the context lives on.\<close>

definition readable :: "(bool \<times> (goerr + git_commit)) list \<Rightarrow> bool" where
  "readable objs = list_all (\<lambda>(cancelled, obj). \<not> cancelled \<and> (case obj of Inl e \<Rightarrow> e = External TypeNotMatchError | Inr c \<Rightarrow> True)) objs"

lemma CollectCommit_other [simp]: "CollectCommit reads refuse h cs repo (Inl (External TypeNotMatchError)) db = (None, db)"
  by (simp add: CollectCommit_def reported_def)

lemma no_commit_origin: "cm_Origin (commit_row c) = ([], [])"
  by (simp add: commit_row_def Let_def)

lemma for_each_commits:
  "readable objs \<Longrightarrow> for_each (CollectCommit clean_reads (only_components answer) h cs repo) objs db =
    (None, db @ filter (taken_row answer) (concat (map (commit_rows h cs repo) (commits_of objs))))"
proof (induction objs arbitrary: db)
  case (Cons x objs)
  then have rest: "for_each (CollectCommit clean_reads (only_components answer) h cs repo) objs db' =
      (None, db' @ filter (taken_row answer) (concat (map (commit_rows h cs repo) (commits_of objs))))" for db'
    by (simp add: readable_def)
  obtain cancelled obj where x: "x = (cancelled, obj)" by fastforce
  show ?case
  proof (cases obj)
    case (Inl e)
    with Cons.prems x show ?thesis by (auto simp: readable_def rest commits_of_def)
  next
    case (Inr c)
    with Cons.prems x show ?thesis by (simp add: readable_def CollectCommit_rows rest commits_of_def)
  qed
qed (simp add: commits_of_def)

lemma count_commits:
  "readable objs \<Longrightarrow> for_each (\<lambda>obj n. case obj of Inl e \<Rightarrow> (Convert (reported e), n) | Inr c \<Rightarrow> (None, n + 1)) objs k =
    (None, k + length (commits_of objs))"
proof (induction objs arbitrary: k)
  case (Cons x objs)
  obtain cancelled obj where "x = (cancelled, obj)" by fastforce
  with Cons show ?case by (cases obj) (auto simp: readable_def reported_def commits_of_def)
qed (simp add: commits_of_def)

lemma files_of_rows: "FileRow f \<in> set (commit_rows h cs repo c) \<longleftrightarrow> (\<exists>d \<in> set (gc_Diff c). f = new_commit_file h (gc_Id c) d)"
  by (cases "gc_Diff c" rule: rev_cases) (auto simp: commit_rows_def)

lemma components_of_rows: "ComponentRow x \<in> set (commit_rows h cs repo c) \<longleftrightarrow> gc_Diff c \<noteq> [] \<and> x = last_component h cs c"
  by (auto simp: commit_rows_def)

lemma commits_of_rows: "CommitRow x \<in> set (commit_rows h cs repo c) \<longleftrightarrow> x = commit_row c"
  by (auto simp: commit_rows_def)

text \<open>When every object of the repository can be read and the database takes all rows, the extraction of the commits ends
  without an error and stores one row for each file of each difference and one for each commit, as many as \<open>CountCommits\<close>
  announces, none of which says from where it was extracted. Of the components of the files it stores one for each commit
  that changes files: that of its last file.\<close>

theorem one_component_per_commit:
  assumes "readable objs"
  shows "\<exists>rows. CollectCommits clean_reads (only_components (\<lambda>_. None)) h cs repo objs db = (None, db @ rows) \<and>
    {f. FileRow f \<in> set rows} = {new_commit_file h (gc_Id c) d |c d. c \<in> set (commits_of objs) \<and> d \<in> set (gc_Diff c)} \<and>
    {x. ComponentRow x \<in> set rows} = {last_component h cs c |c. c \<in> set (commits_of objs) \<and> gc_Diff c \<noteq> []} \<and>
    {x. CommitRow x \<in> set rows} = commit_row ` set (commits_of objs) \<and> cm_Origin ` {x. CommitRow x \<in> set rows} \<subseteq> {([], [])} \<and>
    CountCommits objs = (None, length (commits_of objs))"
proof -
  have all: "filter (taken_row (\<lambda>_. None)) rows = rows" for rows
    by (simp add: filter_id_conv taken_row_def only_components_def split: git_row.split)
  have "CollectCommits clean_reads (only_components (\<lambda>_. None)) h cs repo objs db =
      (None, db @ concat (map (commit_rows h cs repo) (commits_of objs)))"
    by (simp add: CollectCommits_def converted_def for_each_commits [OF assms] all)
  moreover have "CountCommits objs = (None, length (commits_of objs))"
    by (simp add: CountCommits_def converted_def count_commits [OF assms])
  ultimately show ?thesis
    by (intro exI [of _ "concat (map (commit_rows h cs repo) (commits_of objs))"])
      (auto simp: files_of_rows components_of_rows commits_of_rows no_commit_origin)
qed

theorem one_component_per_commit_witness:
  "\<exists>rows. CollectCommits clean_reads (only_components (\<lambda>_. None)) id [] ''r'' [(False, Inr sample_c1), (False, Inl (External TypeNotMatchError))] []
     = (None, rows) \<and> CommitRow (commit_row sample_c1) \<in> set rows"
proof -
  have "readable [(False, Inr sample_c1), (False, Inl (External TypeNotMatchError))]" by (simp add: readable_def)
  from one_component_per_commit [OF this, of id "[]" "''r''" "[]"] show ?thesis
    by (auto simp: commits_of_def commit_row_def Let_def)
qed

text \<open>When the database refuses every component and takes all other rows, the extraction of the commits ends without an
  error: the error is overwritten when the last file is stored. All rows but the components are in the database.\<close>

theorem component_refusal_lost:
  assumes "readable objs"
  shows "\<exists>rows. CollectCommits clean_reads (only_components (\<lambda>_. Some refusal)) h cs repo objs db = (None, db @ rows) \<and>
    {x. ComponentRow x \<in> set rows} = {} \<and>
    {f. FileRow f \<in> set rows} = {new_commit_file h (gc_Id c) d |c d. c \<in> set (commits_of objs) \<and> d \<in> set (gc_Diff c)}"
proof -
  let ?rows = "filter (taken_row (\<lambda>_. Some refusal)) (concat (map (commit_rows h cs repo) (commits_of objs)))"
  have "CollectCommits clean_reads (only_components (\<lambda>_. Some refusal)) h cs repo objs db = (None, db @ ?rows)"
    by (simp add: CollectCommits_def converted_def for_each_commits [OF assms])
  moreover have "{x. ComponentRow x \<in> set ?rows} = {}" by (simp add: taken_row_def only_components_def)
  moreover have "{f. FileRow f \<in> set ?rows} = {new_commit_file h (gc_Id c) d |c d. c \<in> set (commits_of objs) \<and> d \<in> set (gc_Diff c)}"
    by (auto simp: files_of_rows)
  ultimately show ?thesis by blast
qed

theorem component_refusal_lost_witness:
  "\<exists>rows. CollectCommits clean_reads (only_components (\<lambda>_. Some (External ''disk full''))) id [] ''r'' [(False, Inr sample_c1)] [] = (None, rows)"
proof -
  have "readable [(False, Inr sample_c1)]" by (simp add: readable_def)
  from component_refusal_lost [OF this, of "External ''disk full''" id "[]" "''r''" "[]"] show ?thesis by auto
qed

end
