(* ===== verification/Metrics.thy ===== *)
theory Metrics
  imports Complex_Main Dora
begin

text \<open>
  The four DORA metrics that the server reports (\<open>server/services/metrics.go\<close>): their SQL queries as functions on lists of
  rows, and the functions around them. NULL is \<open>None\<close>; a comparison with NULL is not true, an aggregate leaves it out, an order
  starts with it. The list of projects that is pasted into a query is a list of names, a moment is in milliseconds,
  a day the number of days since the epoch. The decimal digits at which the database cuts a quotient are not modelled.
\<close>

section \<open>Parameters, tables and the calendar of the database\<close>

record metric_params =
  pa_projects :: "string list"
  pa_dateFrom :: time
  pa_dateTo :: time

record metric_issue = Issue +
  isLeadTimeMinutes :: "int option"

record metric_tables =
  mt_deployments :: "CicdDeploymentCommit list"
  mt_mappings :: "ProjectMapping list"
  mt_prs :: "PullRequest list"
  mt_pr_metrics :: "ProjectPrMetric list"
  mt_issues :: "metric_issue list"
  mt_boards :: "string list"
  mt_board_issues :: "(string \<times> string) list"
  mt_issue_metrics :: "(string \<times> string) list"

text \<open>\<open>SYSDATE()\<close>, the day of the month of a day, the format \<open>'%y/%m'\<close> of a moment, and that of the moment a number of months ago.\<close>

record calendar =
  sysdate :: time
  day_of_month :: "int \<Rightarrow> int"
  month_label :: "time \<Rightarrow> string"
  months_ago :: "nat \<Rightarrow> string"

definition day_of :: "time \<Rightarrow> int" where
  "day_of t = t div 86400000"

text \<open>\<open>DATE_ADD(day, INTERVAL -WEEKDAY(day) DAY)\<close>; day 0 was a Thursday.\<close>

definition week_of :: "int \<Rightarrow> int" where
  "week_of d = d - (d + 3) mod 7"

definition month_of :: "calendar \<Rightarrow> int \<Rightarrow> int" where
  "month_of cal d = d - day_of_month cal d + 1"

section \<open>Expressions\<close>

fun sql_max :: "'a::linorder option list \<Rightarrow> 'a option" where
  "sql_max [] = None"
| "sql_max (x # xs) = max x (sql_max xs)"

definition between :: "time \<Rightarrow> time \<Rightarrow> time option \<Rightarrow> bool" where
  "between a b t = (case t of None \<Rightarrow> False | Some x \<Rightarrow> a \<le> x \<and> x \<le> b)"

definition percent_rank :: "'a::linorder list \<Rightarrow> 'a \<Rightarrow> rat" where
  "percent_rank xs x =
     (if length xs \<le> 1 then 0 else of_nat (length (filter (\<lambda>y. y < x) xs)) / of_nat (length xs - 1))"

text \<open>The largest value of which the rank is at most a half.\<close>

definition rank_median :: "'a::linorder option list \<Rightarrow> 'a option" where
  "rank_median xs = sql_max (filter (\<lambda>x. percent_rank xs x \<le> 1 / 2) xs)"

definition at_least :: "int \<Rightarrow> int option \<Rightarrow> bool" where
  "at_least c v = (case v of None \<Rightarrow> False | Some n \<Rightarrow> c \<le> n)"

definition below :: "int \<Rightarrow> int option \<Rightarrow> bool" where
  "below c v = (case v of None \<Rightarrow> False | Some n \<Rightarrow> n < c)"

section \<open>Deployments\<close>

definition mapped_any :: "metric_tables \<Rightarrow> metric_params \<Rightarrow> string \<Rightarrow> string \<Rightarrow> ProjectMapping list" where
  "mapped_any t p table rowId =
     filter (\<lambda>m. pmTable m = table \<and> pmRowId m = rowId \<and> pmProjectName m \<in> set (pa_projects p)) (mt_mappings t)"

definition production_commits :: "metric_tables \<Rightarrow> metric_params \<Rightarrow> CicdDeploymentCommit list" where
  "production_commits t p =
     concat (map (\<lambda>d. map (\<lambda>_. d) (mapped_any t p ''cicd_scopes'' (dcCicdScopeId d)))
       (filter (\<lambda>d. dcResult d = ''SUCCESS'' \<and> dcEnvironment d = ''PRODUCTION'') (mt_deployments t)))"

text \<open>\<open>GROUP BY cicd_deployment_id\<close>\<close>

definition commits_of_deployment :: "metric_tables \<Rightarrow> metric_params \<Rightarrow> string \<Rightarrow> CicdDeploymentCommit list" where
  "commits_of_deployment t p i = filter (\<lambda>d. dcCicdDeploymentId d = i) (production_commits t p)"

definition production_deployments :: "metric_tables \<Rightarrow> metric_params \<Rightarrow> string list" where
  "production_deployments t p = remdups (map dcCicdDeploymentId (production_commits t p))"

definition finished_date :: "metric_tables \<Rightarrow> metric_params \<Rightarrow> string \<Rightarrow> time option" where
  "finished_date t p i = sql_max (map dcFinishedDate (commits_of_deployment t p i))"

text \<open>\<open>HAVING max(finished_date BETWEEN ...)\<close>: one of the commits of the deployment is in the window.\<close>

definition window_deployments :: "metric_tables \<Rightarrow> metric_params \<Rightarrow> string list" where
  "window_deployments t p = filter (\<lambda>i. list_ex (\<lambda>d. between (pa_dateFrom p) (pa_dateTo p) (dcFinishedDate d))
     (commits_of_deployment t p i)) (production_deployments t p)"

definition deployment_days :: "metric_tables \<Rightarrow> metric_params \<Rightarrow> int option list" where
  "deployment_days t p = map (\<lambda>i. sql_max (map (map_option day_of \<circ> dcFinishedDate) (commits_of_deployment t p i)))
     (production_deployments t p)"

section \<open>Deployment frequency\<close>

text \<open>The days that the cross join of hundreds, tens and units counts back from now.\<close>

definition last_days :: "calendar \<Rightarrow> metric_params \<Rightarrow> int list" where
  "last_days cal p = map (\<lambda>k. day_of (sysdate cal - int k * 86400000))
     (filter (\<lambda>k. pa_dateFrom p < sysdate cal - int k * 86400000)
       (concat (map (\<lambda>h. concat (map (\<lambda>t. map (\<lambda>u. h + t + u) [0..<10]) (map (\<lambda>t. 10 * t) [0..<10]))) [0, 100, 200, 300])))"

definition days_deployed :: "calendar \<Rightarrow> metric_tables \<Rightarrow> metric_params \<Rightarrow> int \<Rightarrow> nat" where
  "days_deployed cal t p w =
     length (remdups (filter (\<lambda>d. week_of d = w \<and> Some d \<in> set (deployment_days t p)) (last_days cal p)))"

definition months_deployed :: "calendar \<Rightarrow> metric_tables \<Rightarrow> metric_params \<Rightarrow> int \<Rightarrow> nat" where
  "months_deployed cal t p m =
     (if list_ex (\<lambda>d. month_of cal d = m \<and> Some d \<in> set (deployment_days t p)) (last_days cal p) then 1 else 0)"

definition frequency_class :: "int option \<Rightarrow> int option \<Rightarrow> string" where
  "frequency_class perWeek perMonth =
     (if at_least 3 perWeek then ''On-demand''
      else if at_least 1 perWeek then ''Between once per week and once per month''
      else if at_least 1 perMonth then ''Between once per month and once every 6 months''
      else ''Fewer than once per six months'')"

definition DEPLOYMENT_FREQUENCY_QUERY :: "calendar \<Rightarrow> metric_tables \<Rightarrow> metric_params \<Rightarrow> string" where
  "DEPLOYMENT_FREQUENCY_QUERY cal t p = frequency_class
     (rank_median (map (\<lambda>w. Some (int (days_deployed cal t p w))) (remdups (map week_of (last_days cal p)))))
     (rank_median (map (\<lambda>m. Some (int (months_deployed cal t p m))) (remdups (map (month_of cal) (last_days cal p)))))"

definition calendar_months :: "calendar \<Rightarrow> string list" where
  "calendar_months cal = sort_key TextKey (map (months_ago cal) [0..<12])"

definition month_of_deployment :: "calendar \<Rightarrow> metric_tables \<Rightarrow> metric_params \<Rightarrow> string \<Rightarrow> string option" where
  "month_of_deployment cal t p i = map_option (month_label cal) (finished_date t p i)"

definition DEPLOYMENT_FREQUENCY_CHART_DATA_QUERY :: "calendar \<Rightarrow> metric_tables \<Rightarrow> metric_params \<Rightarrow> (string \<times> nat) list" where
  "DEPLOYMENT_FREQUENCY_CHART_DATA_QUERY cal t p =
     map (\<lambda>m. (m, length (filter (\<lambda>i. month_of_deployment cal t p i = Some m) (window_deployments t p)))) (calendar_months cal)"

section \<open>Lead time for changes\<close>

text \<open>\<open>_pr_stats\<close>: the pull requests with the cycle time of their metric and the finish of its deployment.\<close>

definition pr_deployments :: "metric_tables \<Rightarrow> metric_params \<Rightarrow> (string \<times> int \<times> time option) list" where
  "pr_deployments t p =
     concat (map (\<lambda>pr. concat (map (\<lambda>m. concat (map (\<lambda>_. map (\<lambda>d. (prId pr, the (mPrCycleTime m), dcFinishedDate d))
         (filter (\<lambda>d. dcId d = mDeploymentCommitId m \<and> between (pa_dateFrom p) (pa_dateTo p) (dcFinishedDate d)) (mt_deployments t)))
       (mapped_any t p ''repos'' (prBaseRepoId pr))))
     (filter (\<lambda>m. mId m = prId pr \<and> mPrCycleTime m \<noteq> None) (mt_pr_metrics t))))
     (filter (\<lambda>pr. prMergedDate pr \<noteq> None) (mt_prs t)))"

definition lead_time_class :: "int option \<Rightarrow> string" where
  "lead_time_class m =
     (if below 60 m then ''Less than one hour''
      else if below (7 * 24 * 60) m then ''Less than one week''
      else if below (180 * 24 * 60) m then ''Between one week and six months''
      else ''More than six months'')"

definition MEDIAN_LEAD_TIME_FOR_CHANGES :: "metric_tables \<Rightarrow> metric_params \<Rightarrow> string" where
  "MEDIAN_LEAD_TIME_FOR_CHANGES t p =
     lead_time_class (rank_median (map (Some \<circ> snd) (remdups (map (\<lambda>(i, c, f). (i, c)) (pr_deployments t p)))))"

text \<open>Median minutes of each month, in hours, and 0 for a month without any.\<close>

definition monthly_medians :: "calendar \<Rightarrow> (string \<times> int \<times> string option) list \<Rightarrow> (string \<times> rat) list" where
  "monthly_medians cal rows =
     map (\<lambda>m. (m, case rank_median (map (\<lambda>(i, v, l). Some v) (filter (\<lambda>(i, v, l). l = Some m) rows)) of
         None \<Rightarrow> 0 | Some v \<Rightarrow> of_int v / 60)) (calendar_months cal)"

definition MEDIAN_LEAD_TIME_FOR_CHANGES_CHART_QUERY :: "calendar \<Rightarrow> metric_tables \<Rightarrow> metric_params \<Rightarrow> (string \<times> rat) list" where
  "MEDIAN_LEAD_TIME_FOR_CHANGES_CHART_QUERY cal t p =
     monthly_medians cal (remdups (map (\<lambda>(i, c, f). (i, c, map_option (month_label cal) f)) (pr_deployments t p)))"

section \<open>Time to restore service\<close>

definition project_incidents :: "metric_tables \<Rightarrow> metric_params \<Rightarrow> metric_issue list" where
  "project_incidents t p =
     concat (map (\<lambda>i. concat (map (\<lambda>bi. concat (map (\<lambda>b. map (\<lambda>_. i) (mapped_any t p ''boards'' b))
       (filter (\<lambda>b. b = fst bi) (mt_boards t))))
     (filter (\<lambda>bi. snd bi = isId i) (mt_board_issues t))))
     (filter (\<lambda>i. isType i = ''INCIDENT'') (mt_issues t)))"

definition restore_class :: "int option \<Rightarrow> string" where
  "restore_class m =
     (if below 60 m then ''Less than one hour''
      else if below (24 * 60) m then ''Less than one Day''
      else if below (7 * 24 * 60) m then ''Between one day and one week''
      else ''More than one week'')"

definition MEDIAN_TIME_TO_RESTORE :: "metric_tables \<Rightarrow> metric_params \<Rightarrow> string" where
  "MEDIAN_TIME_TO_RESTORE t p =
     restore_class (rank_median (map snd (remdups (map (\<lambda>i. (isId i, isLeadTimeMinutes i))
       (filter (\<lambda>i. between (pa_dateFrom p) (pa_dateTo p) (isCreatedDate i)) (project_incidents t p))))))"

definition MEDIAN_TIME_TO_RESTORE_SERVICE_CHART_QUERY :: "calendar \<Rightarrow> metric_tables \<Rightarrow> metric_params \<Rightarrow> (string \<times> rat) list" where
  "MEDIAN_TIME_TO_RESTORE_SERVICE_CHART_QUERY cal t p =
     monthly_medians cal (remdups (map (\<lambda>i. (isId i, the (isLeadTimeMinutes i), map_option (month_label cal) (isCreatedDate i)))
       (filter (\<lambda>i. isLeadTimeMinutes i \<noteq> None) (project_incidents t p))))"

section \<open>Change failure rate\<close>

definition has_incident :: "metric_tables \<Rightarrow> string \<Rightarrow> nat" where
  "has_incident t i =
     (if list_ex (\<lambda>(issue, d). d = i \<and> list_ex (\<lambda>x. isId x = issue \<and> isType x = ''INCIDENT'') (mt_issues t)) (mt_issue_metrics t)
      then 1 else 0)"

text \<open>\<open>sum(has_incident)/count(deployment_id)\<close>: the sum of no rows is NULL.\<close>

definition failure_rate :: "metric_tables \<Rightarrow> string list \<Rightarrow> rat option" where
  "failure_rate t is =
     (if is = [] then None else Some (of_nat (sum_list (map (has_incident t) is)) / of_nat (length is)))"

definition at_most :: "rat \<Rightarrow> rat option \<Rightarrow> bool" where
  "at_most c v = (case v of None \<Rightarrow> False | Some r \<Rightarrow> r \<le> c)"

definition failure_class :: "rat option \<Rightarrow> string" where
  "failure_class r =
     (if at_most (15 / 100) r then ''0-15%''
      else if at_most (20 / 100) r then ''16%-20%''
      else if at_most (30 / 100) r then ''21%-30%''
      else ''> 30%'')"

definition CHANGE_FAILURE_RATE :: "metric_tables \<Rightarrow> metric_params \<Rightarrow> string" where
  "CHANGE_FAILURE_RATE t p = failure_class (failure_rate t (window_deployments t p))"

definition CHANGE_FAILURE_RATE_CHART_QUERY :: "calendar \<Rightarrow> metric_tables \<Rightarrow> metric_params \<Rightarrow> (string \<times> rat option) list" where
  "CHANGE_FAILURE_RATE_CHART_QUERY cal t p =
     map (\<lambda>m. (m, failure_rate t (filter (\<lambda>i. month_of_deployment cal t p i = Some m) (window_deployments t p)))) (calendar_months cal)"

section \<open>The functions of the service\<close>

text \<open>What fails: formatting and executing the two queries, reading the row of the first and the rows of the second.\<close>

record metric_faults =
  format_error :: "nat \<Rightarrow> goerr option"
  cursor_error :: "nat \<Rightarrow> goerr option"
  fetch_error :: "goerr option"
  chart_fetch_error :: "nat \<Rightarrow> goerr option"

text \<open>A map that could not be filled is \<open>None\<close>: the errors of \<open>Fetch\<close> are dropped.\<close>

record 'r metric_data =
  md_class :: "string option"
  md_chartData :: "'r option list"

definition went_wrong :: "goerr \<Rightarrow> goerr" where
  "went_wrong e = newSingleCrdbError Default (Some e) ''Something went wrong!'' None"

definition fetched_class :: "metric_faults \<Rightarrow> string \<Rightarrow> string option" where
  "fetched_class f c = (if fetch_error f = None then Some c else None)"

definition chart_answer :: "metric_faults \<Rightarrow> string \<Rightarrow> 'r list \<Rightarrow> 'r metric_data outcome" where
  "chart_answer f c rows =
     (case format_error f 1 of
        Some e \<Rightarrow> Fault (went_wrong e)
      | None \<Rightarrow> (case cursor_error f 1 of
          Some e \<Rightarrow> Fault (went_wrong e)
        | None \<Rightarrow> Fine \<lparr>md_class = fetched_class f c,
            md_chartData = map (\<lambda>(i, r). if chart_fetch_error f i = None then Some r else None) (enumerate 0 rows)\<rparr>))"

text \<open>\<open>GetMetrics\<close> reads the rows, and \<open>GetDeploymentFrequency\<close> closes them, before they look at the error: they panic.\<close>

definition GetMetrics :: "metric_faults \<Rightarrow> calendar \<Rightarrow> metric_tables \<Rightarrow> metric_params \<Rightarrow> string option outcome" where
  "GetMetrics f cal t p =
     (case format_error f 0 of
        Some e \<Rightarrow> Fault (went_wrong e)
      | None \<Rightarrow> (case cursor_error f 0 of
          Some e \<Rightarrow> Panic
        | None \<Rightarrow> Fine (fetched_class f (DEPLOYMENT_FREQUENCY_QUERY cal t p))))"

definition GetDeploymentFrequency :: "metric_faults \<Rightarrow> calendar \<Rightarrow> metric_tables \<Rightarrow> metric_params
    \<Rightarrow> (string \<times> nat) metric_data outcome" where
  "GetDeploymentFrequency f cal t p =
     (case format_error f 0 of
        Some e \<Rightarrow> Fault (went_wrong e)
      | None \<Rightarrow> (case cursor_error f 0 of
          Some e \<Rightarrow> Panic
        | None \<Rightarrow> chart_answer f (DEPLOYMENT_FREQUENCY_QUERY cal t p) (DEPLOYMENT_FREQUENCY_CHART_DATA_QUERY cal t p)))"

definition GetLeadTimeForChanges :: "metric_faults \<Rightarrow> calendar \<Rightarrow> metric_tables \<Rightarrow> metric_params
    \<Rightarrow> (string \<times> rat) metric_data outcome" where
  "GetLeadTimeForChanges f cal t p =
     (case format_error f 0 of
        Some e \<Rightarrow> Fault (went_wrong e)
      | None \<Rightarrow> (case cursor_error f 0 of
          Some e \<Rightarrow> Fault (went_wrong e)
        | None \<Rightarrow> chart_answer f (MEDIAN_LEAD_TIME_FOR_CHANGES t p) (MEDIAN_LEAD_TIME_FOR_CHANGES_CHART_QUERY cal t p)))"

definition GetMedianTimeToRestore :: "metric_faults \<Rightarrow> calendar \<Rightarrow> metric_tables \<Rightarrow> metric_params
    \<Rightarrow> (string \<times> rat) metric_data outcome" where
  "GetMedianTimeToRestore f cal t p =
     (case format_error f 0 of
        Some e \<Rightarrow> Fault (went_wrong e)
      | None \<Rightarrow> (case cursor_error f 0 of
          Some e \<Rightarrow> Fault (went_wrong e)
        | None \<Rightarrow> chart_answer f (MEDIAN_TIME_TO_RESTORE t p) (MEDIAN_TIME_TO_RESTORE_SERVICE_CHART_QUERY cal t p)))"

definition GetChangeFailureRate :: "metric_faults \<Rightarrow> calendar \<Rightarrow> metric_tables \<Rightarrow> metric_params
    \<Rightarrow> (string \<times> rat option) metric_data outcome" where
  "GetChangeFailureRate f cal t p =
     (case format_error f 0 of
        Some e \<Rightarrow> Fault (went_wrong e)
      | None \<Rightarrow> (case cursor_error f 0 of
          Some e \<Rightarrow> Fault (went_wrong e)
        | None \<Rightarrow> chart_answer f (CHANGE_FAILURE_RATE t p) (CHANGE_FAILURE_RATE_CHART_QUERY cal t p)))"

end
