(* ===== verification/MetricsFacts.thy ===== *)
theory MetricsFacts
  imports Metrics DoraFacts
begin

text \<open>
  What the DORA metrics of the server say: the median by percent rank is the lower median of the sorted values; each class and
  each chart in terms of the deployments, pull requests and incidents that count.
\<close>

section \<open>The median\<close>

definition lower_median :: "'a::linorder option list \<Rightarrow> 'a option" where
  "lower_median xs = (if xs = [] then None else sort xs ! ((length xs - 1) div 2))"

lemma sql_max_upper: "x \<in> set xs \<Longrightarrow> x \<le> sql_max xs"
  by (induction xs) (auto simp: le_max_iff_disj)

lemma sql_max_in: "xs \<noteq> [] \<Longrightarrow> sql_max xs \<in> set xs"
proof (induction xs)
  case (Cons x xs)
  show ?case
  proof (cases xs)
    case Nil
    then show ?thesis by (cases x) (simp_all add: max_def)
  next
    case Cons
    with Cons.IH show ?thesis by (auto simp: max_def)
  qed
qed simp

lemma sql_max_eq: "m \<in> set xs \<Longrightarrow> \<forall>x \<in> set xs. x \<le> m \<Longrightarrow> sql_max xs = m"
  using sql_max_in [of xs] sql_max_upper [of m xs] by (cases xs) (auto intro: antisym)

lemma half_rank:
  assumes "x \<in> set xs"
  shows "percent_rank xs x \<le> 1 / 2 \<longleftrightarrow> length (filter (\<lambda>y. y < x) xs) \<le> (length xs - 1) div 2"
proof (cases "length xs \<le> 1")
  case True
  with assms obtain "xs = [x]" by (cases xs) auto
  then show ?thesis by (simp add: percent_rank_def)
next
  case False
  let ?k = "length (filter (\<lambda>y. y < x) xs)"
  from False have "percent_rank xs x \<le> 1 / 2 \<longleftrightarrow> (of_nat (2 * ?k) :: rat) \<le> of_nat (length xs - 1)"
    by (simp add: percent_rank_def divide_le_eq field_simps)
  also have "\<dots> \<longleftrightarrow> 2 * ?k \<le> length xs - 1" by (rule of_nat_le_iff)
  also have "\<dots> \<longleftrightarrow> ?k \<le> (length xs - 1) div 2" by linarith
  finally show ?thesis .
qed

lemma smaller_in_sorted:
  assumes "sorted xs" "k < length xs"
  shows "length (filter (\<lambda>y. y < xs ! k) xs) \<le> k"
proof -
  have "filter (\<lambda>y. y < xs ! k) (drop k xs) = []"
    using assms by (auto simp: filter_empty_conv in_set_conv_nth not_less sorted_nth_mono)
  then have "filter (\<lambda>y. y < xs ! k) xs = filter (\<lambda>y. y < xs ! k) (take k xs)"
    by (metis append_Nil2 append_take_drop_id filter_append)
  also have "length \<dots> \<le> length (take k xs)" by (rule length_filter_le)
  finally show ?thesis using assms(2) by simp
qed

lemma larger_in_sorted:
  assumes "sorted xs" "k < length xs" "xs ! k < x"
  shows "k < length (filter (\<lambda>y. y < x) xs)"
proof -
  have "y < x" if "y \<in> set (take (Suc k) xs)" for y
  proof -
    from that obtain j where j: "j < length (take (Suc k) xs)" "take (Suc k) xs ! j = y" unfolding in_set_conv_nth by blast
    then have "xs ! j \<le> xs ! k" using assms by (intro sorted_nth_mono) simp_all
    with j assms(3) show ?thesis by simp
  qed
  then have "filter (\<lambda>y. y < x) (take (Suc k) xs) = take (Suc k) xs" by (simp add: filter_id_conv)
  then have "length (filter (\<lambda>y. y < x) xs) = Suc k + length (filter (\<lambda>y. y < x) (drop (Suc k) xs))"
    using assms(2) by (metis append_take_drop_id filter_append length_append length_take min_absorb2 Suc_leI)
  then show ?thesis by simp
qed

lemma rank_median_lower: "rank_median xs = lower_median xs"
proof (cases "xs = []")
  case False
  let ?k = "(length xs - 1) div 2"
  have k: "?k < length (sort xs)" using False by (cases xs) simp_all
  have count: "length (filter (\<lambda>y. y < x) xs) = length (filter (\<lambda>y. y < x) (sort xs))" for x
    by (metis mset_filter mset_sort size_mset)
  have "rank_median xs = sort xs ! ?k"
    unfolding rank_median_def
  proof (rule sql_max_eq)
    have here: "sort xs ! ?k \<in> set xs" using nth_mem [OF k] by simp
    then show "sort xs ! ?k \<in> set (filter (\<lambda>x. percent_rank xs x \<le> 1 / 2) xs)"
      using half_rank [OF here] smaller_in_sorted [OF sorted_sort k] count by simp
    show "\<forall>x \<in> set (filter (\<lambda>x. percent_rank xs x \<le> 1 / 2) xs). x \<le> sort xs ! ?k"
    proof (intro ballI)
      fix x assume "x \<in> set (filter (\<lambda>x. percent_rank xs x \<le> 1 / 2) xs)"
      then have "x \<in> set xs" "percent_rank xs x \<le> 1 / 2" by simp_all
      then have "length (filter (\<lambda>y. y < x) xs) \<le> ?k" using half_rank by blast
      then show "x \<le> sort xs ! ?k" using larger_in_sorted [OF sorted_sort k] count by (metis leD leI)
    qed
  qed
  with False show ?thesis by (simp add: lower_median_def)
qed (simp add: rank_median_def lower_median_def)

section \<open>What counts\<close>

definition on_project :: "metric_tables \<Rightarrow> metric_params \<Rightarrow> string \<Rightarrow> string \<Rightarrow> bool" where
  "on_project t p table r \<longleftrightarrow>
     (\<exists>m \<in> set (mt_mappings t). pmTable m = table \<and> pmRowId m = r \<and> pmProjectName m \<in> set (pa_projects p))"

lemma mapped_any_some: "mapped_any t p table r \<noteq> [] \<longleftrightarrow> on_project t p table r"
  by (auto simp: mapped_any_def on_project_def filter_empty_conv)

definition in_window :: "metric_params \<Rightarrow> time option \<Rightarrow> bool" where
  "in_window p f \<longleftrightarrow> (\<exists>x. f = Some x \<and> pa_dateFrom p \<le> x \<and> x \<le> pa_dateTo p)"

lemma between_window: "between (pa_dateFrom p) (pa_dateTo p) f \<longleftrightarrow> in_window p f"
  by (cases f) (auto simp: between_def in_window_def)

definition production :: "metric_tables \<Rightarrow> metric_params \<Rightarrow> CicdDeploymentCommit set" where
  "production t p = {d \<in> set (mt_deployments t). dcResult d = ''SUCCESS'' \<and> dcEnvironment d = ''PRODUCTION'' \<and>
     on_project t p ''cicd_scopes'' (dcCicdScopeId d)}"

lemma set_production_commits: "set (production_commits t p) = production t p"
  by (auto simp: production_commits_def production_def image_constant_conv simp flip: mapped_any_some split: if_splits)

lemma set_commits_of_deployment: "set (commits_of_deployment t p i) = {d \<in> production t p. dcCicdDeploymentId d = i}"
  by (auto simp: commits_of_deployment_def set_production_commits)

definition window_ids :: "metric_tables \<Rightarrow> metric_params \<Rightarrow> string set" where
  "window_ids t p = dcCicdDeploymentId ` {d \<in> production t p. in_window p (dcFinishedDate d)}"

lemma window_deployments_ids: "set (window_deployments t p) = window_ids t p" "distinct (window_deployments t p)"
  by (auto simp: window_deployments_def production_deployments_def window_ids_def list_ex_iff set_commits_of_deployment
      set_production_commits between_window image_iff, metis)

definition no_faults :: metric_faults where
  "no_faults = \<lparr>format_error = \<lambda>_. None, cursor_error = \<lambda>_. None, fetch_error = None, chart_fetch_error = \<lambda>_. None\<rparr>"

lemma map_enumerate_snd [simp]: "map (\<lambda>(i, r). f r) (enumerate n xs) = map f xs"
  by (induction xs arbitrary: n) simp_all

lemma chart_answer_fine [simp]: "chart_answer no_faults c rows = Fine \<lparr>md_class = Some c, md_chartData = map Some rows\<rparr>"
  by (simp add: chart_answer_def no_faults_def fetched_class_def)

lemma no_faults_simps [simp]: "format_error no_faults n = None" "cursor_error no_faults n = None"
  by (simp_all add: no_faults_def)

section \<open>Change failure rate\<close>

definition fails :: "metric_tables \<Rightarrow> string \<Rightarrow> bool" where
  "fails t i \<longleftrightarrow> (\<exists>x \<in> set (mt_issues t). isType x = ''INCIDENT'' \<and> (isId x, i) \<in> set (mt_issue_metrics t))"

lemma has_incident_fails: "has_incident t i = (if fails t i then 1 else 0)"
  by (auto simp: has_incident_def fails_def list_ex_iff)

definition failed_share :: "metric_tables \<Rightarrow> string set \<Rightarrow> rat option" where
  "failed_share t D = (if D = {} then None else Some (of_nat (card {i \<in> D. fails t i}) / of_nat (card D)))"

lemma failure_rate_share: "distinct is \<Longrightarrow> failure_rate t is = failed_share t (set is)"
proof -
  assume d: "distinct is"
  have "sum_list (map (has_incident t) is) = length (filter (fails t) is)"
    by (induction "is") (simp_all add: has_incident_fails)
  also have "\<dots> = card {i \<in> set is. fails t i}" using d by (metis distinct_card distinct_filter set_filter)
  finally show ?thesis using d by (simp add: failure_rate_def failed_share_def distinct_card)
qed

text \<open>C20. The change failure rate is the share of the production deployments with a commit finished in the window that an incident is
  attributed to, classed, and for the chart taken over the deployments of each of the last twelve months by their last finish.
  A window without deployments has the worst class.\<close>

theorem change_failure_rate_share:
  "GetChangeFailureRate no_faults cal t p = Fine
    \<lparr>md_class = Some (if window_ids t p = {} then ''> 30%'' else failure_class (failed_share t (window_ids t p))),
     md_chartData = map (\<lambda>m. Some (m, failed_share t {i \<in> window_ids t p. month_of_deployment cal t p i = Some m})) (calendar_months cal)\<rparr>"
proof -
  have "failure_rate t (filter P (window_deployments t p)) = failed_share t {i \<in> window_ids t p. P i}" for P
    using failure_rate_share [OF distinct_filter [OF window_deployments_ids(2)], of t P] by (simp add: window_deployments_ids(1))
  from this [of "\<lambda>_. True"] this show ?thesis
    by (simp add: GetChangeFailureRate_def CHANGE_FAILURE_RATE_def CHANGE_FAILURE_RATE_CHART_QUERY_def failed_share_def
        failure_class_def at_most_def)
qed

section \<open>Lead time for changes\<close>

text \<open>A merged pull request of the projects, its cycle time, and the finish in the window of the deployment it is attributed to.\<close>

definition deployed_pr :: "metric_tables \<Rightarrow> metric_params \<Rightarrow> string \<Rightarrow> int \<Rightarrow> time \<Rightarrow> bool" where
  "deployed_pr t p i c f \<longleftrightarrow> (\<exists>pr \<in> set (mt_prs t). \<exists>m \<in> set (mt_pr_metrics t). \<exists>d \<in> set (mt_deployments t).
     prId pr = i \<and> prMergedDate pr \<noteq> None \<and> mId m = i \<and> mPrCycleTime m = Some c \<and> on_project t p ''repos'' (prBaseRepoId pr) \<and>
     dcId d = mDeploymentCommitId m \<and> dcFinishedDate d = Some f \<and> pa_dateFrom p \<le> f \<and> f \<le> pa_dateTo p)"

lemma in_concat_map: "y \<in> set xs \<Longrightarrow> x \<in> set (f y) \<Longrightarrow> x \<in> set (concat (map f xs))"
  by auto

lemma pr_deployments_iff: "(i, c, g) \<in> set (pr_deployments t p) \<longleftrightarrow> (\<exists>f. g = Some f \<and> deployed_pr t p i c f)"
proof
  assume "(i, c, g) \<in> set (pr_deployments t p)"
  then show "\<exists>f. g = Some f \<and> deployed_pr t p i c f"
    by (fastforce simp: pr_deployments_def deployed_pr_def between_window in_window_def simp flip: mapped_any_some)
next
  assume "\<exists>f. g = Some f \<and> deployed_pr t p i c f"
  then obtain f pr m d where
    here: "pr \<in> set (mt_prs t)" "m \<in> set (mt_pr_metrics t)" "d \<in> set (mt_deployments t)" and
    eqs: "prId pr = i" "mPrCycleTime m = Some c" "g = Some f" "dcFinishedDate d = Some f" and
    conds: "prMergedDate pr \<noteq> None" "mId m = i" "mapped_any t p ''repos'' (prBaseRepoId pr) \<noteq> []" "dcId d = mDeploymentCommitId m"
      "pa_dateFrom p \<le> f" "f \<le> pa_dateTo p"
    by (auto simp: deployed_pr_def simp flip: mapped_any_some)
  from conds(3) obtain pm where pm: "pm \<in> set (mapped_any t p ''repos'' (prBaseRepoId pr))"
    by (meson last_in_set)
  have d: "d \<in> set (filter (\<lambda>d. dcId d = mDeploymentCommitId m \<and> between (pa_dateFrom p) (pa_dateTo p) (dcFinishedDate d)) (mt_deployments t))"
    using here(3) eqs(4) conds(4-6) by (simp add: between_window in_window_def)
  show "(i, c, g) \<in> set (pr_deployments t p)"
    unfolding pr_deployments_def
    by (rule in_concat_map [of pr], use here(1) conds(1) in simp, rule in_concat_map [of m], use here(2) eqs conds(2) in simp,
        rule in_concat_map [OF pm]) (use d eqs in \<open>auto intro!: image_eqI [of _ _ d]\<close>)
qed

lemma set_pr_deployments: "set (pr_deployments t p) = {(i, c, Some f) |i c f. deployed_pr t p i c f}"
  using pr_deployments_iff by fastforce

definition hours :: "int option \<Rightarrow> rat" where
  "hours v = (case v of None \<Rightarrow> 0 | Some n \<Rightarrow> of_int n / 60)"

lemma monthly_medians_lower:
  "monthly_medians cal rows =
    map (\<lambda>m. (m, hours (lower_median (map (\<lambda>(i, v, l). Some v) (filter (\<lambda>(i, v, l). l = Some m) rows))))) (calendar_months cal)"
  by (simp add: monthly_medians_def rank_median_lower hours_def)

text \<open>C6. The lead time for changes is the class of the lower median of the cycle times of the merged pull requests of the projects whose
  deployment finished in the window, and the chart has the lower median of each of the last twelve months, by the month of
  that finish, in hours, and 0 for a month without any.\<close>

theorem lead_time_lower_median:
  "\<exists>ps qs. distinct ps \<and> set ps = {(i, c) |i c. \<exists>f. deployed_pr t p i c f} \<and>
    distinct qs \<and> set qs = {(i, c, Some (month_label cal f)) |i c f. deployed_pr t p i c f} \<and>
    GetLeadTimeForChanges no_faults cal t p = Fine
      \<lparr>md_class = Some (lead_time_class (lower_median (map (Some \<circ> snd) ps))),
       md_chartData = map (\<lambda>m. Some (m, hours (lower_median (map (\<lambda>(i, c, l). Some c) (filter (\<lambda>(i, c, l). l = Some m) qs)))))
         (calendar_months cal)\<rparr>"
proof (intro exI conjI)
  show "set (remdups (map (\<lambda>(i, c, f). (i, c)) (pr_deployments t p))) = {(i, c) |i c. \<exists>f. deployed_pr t p i c f}"
    by (force simp: set_pr_deployments)
  show "set (remdups (map (\<lambda>(i, c, f). (i, c, map_option (month_label cal) f)) (pr_deployments t p))) =
      {(i, c, Some (month_label cal f)) |i c f. deployed_pr t p i c f}"
    by (force simp: set_pr_deployments)
  show "GetLeadTimeForChanges no_faults cal t p = Fine
      \<lparr>md_class = Some (lead_time_class (lower_median (map (Some \<circ> snd) (remdups (map (\<lambda>(i, c, f). (i, c)) (pr_deployments t p)))))),
       md_chartData = map (\<lambda>m. Some (m, hours (lower_median (map (\<lambda>(i, c, l). Some c) (filter (\<lambda>(i, c, l). l = Some m)
         (remdups (map (\<lambda>(i, c, f). (i, c, map_option (month_label cal) f)) (pr_deployments t p)))))))) (calendar_months cal)\<rparr>"
    by (simp add: GetLeadTimeForChanges_def MEDIAN_LEAD_TIME_FOR_CHANGES_def MEDIAN_LEAD_TIME_FOR_CHANGES_CHART_QUERY_def
        rank_median_lower monthly_medians_lower comp_def)
qed simp_all

section \<open>Time to restore service\<close>

definition window_incidents :: "metric_tables \<Rightarrow> metric_params \<Rightarrow> (string \<times> int option) set" where
  "window_incidents t p = {(isId x, isLeadTimeMinutes x) |x. x \<in> set (mt_issues t) \<and> isType x = ''INCIDENT'' \<and>
     in_window p (isCreatedDate x) \<and>
     (\<exists>b \<in> set (mt_boards t). (b, isId x) \<in> set (mt_board_issues t) \<and> on_project t p ''boards'' b)}"

lemma set_project_incidents:
  "set (project_incidents t p) = {x \<in> set (mt_issues t). isType x = ''INCIDENT'' \<and>
     (\<exists>b \<in> set (mt_boards t). (b, isId x) \<in> set (mt_board_issues t) \<and> on_project t p ''boards'' b)}"
  by (auto simp: project_incidents_def image_constant_conv simp flip: mapped_any_some split: if_splits) blast

text \<open>The median time to restore service is the class of the lower median of the lead times of the incidents of the projects that
  were created in the window.\<close>

theorem restore_time_lower_median:
  "\<exists>xs. distinct xs \<and> set xs = window_incidents t p \<and>
    (\<exists>chart. GetMedianTimeToRestore no_faults cal t p = Fine \<lparr>md_class = Some (restore_class (lower_median (map snd xs))), md_chartData = chart\<rparr>)"
proof (intro exI conjI)
  show "set (remdups (map (\<lambda>i. (isId i, isLeadTimeMinutes i))
      (filter (\<lambda>i. between (pa_dateFrom p) (pa_dateTo p) (isCreatedDate i)) (project_incidents t p)))) = window_incidents t p"
    by (auto simp: window_incidents_def set_project_incidents between_window)
qed (simp_all add: GetMedianTimeToRestore_def MEDIAN_TIME_TO_RESTORE_def rank_median_lower)

lemma few_below_sorted:
  assumes "sorted xs" "k < length xs" "c < xs ! k"
  shows "length (filter (\<lambda>y. y \<le> c) xs) \<le> k"
proof -
  have "c < y" if "y \<in> set (drop k xs)" for y
  proof -
    from that obtain i where i: "i < length xs - k" "y = xs ! (k + i)" by (auto simp: in_set_conv_nth)
    then have "xs ! k \<le> y" using assms(1) by (auto intro: sorted_nth_mono)
    with assms(3) show ?thesis by simp
  qed
  then have "filter (\<lambda>y. y \<le> c) (drop k xs) = []" by (simp add: filter_empty_conv not_le)
  then have "filter (\<lambda>y. y \<le> c) xs = filter (\<lambda>y. y \<le> c) (take k xs)"
    by (metis append_Nil2 append_take_drop_id filter_append)
  also have "length \<dots> \<le> length (take k xs)" by (rule length_filter_le)
  finally show ?thesis using assms(2) by simp
qed

lemma lower_median_below:
  assumes "xs \<noteq> []" "length xs \<le> 2 * length (filter (\<lambda>y. y \<le> c) xs)"
  shows "lower_median xs \<le> c" "lower_median xs \<in> set xs"
proof -
  let ?k = "(length xs - 1) div 2"
  have k: "?k < length (sort xs)" using assms(1) by (cases xs) simp_all
  have "length (filter (\<lambda>y. y \<le> c) (sort xs)) = length (filter (\<lambda>y. y \<le> c) xs)"
    by (metis mset_filter mset_sort size_mset)
  with assms have "?k < length (filter (\<lambda>y. y \<le> c) (sort xs))" by (cases xs) auto
  then show "lower_median xs \<le> c"
    using few_below_sorted [OF sorted_sort k, of c] assms(1) by (fastforce simp: lower_median_def not_le)
  show "lower_median xs \<in> set xs" using nth_mem [OF k] assms(1) by (simp add: lower_median_def)
qed

text \<open>Incidents that are still open count as restored at once: when at least half of the incidents of the window have lead time 0, which
  is what an issue has that was not resolved, the time to restore service is less than one hour, whatever the resolved
  ones took.\<close>

theorem open_incidents_restore_fast:
  assumes "window_incidents t p \<noteq> {}" and "None \<notin> snd ` window_incidents t p"
    and "card (window_incidents t p) \<le> 2 * card {x \<in> window_incidents t p. snd x = Some 0}"
  shows "\<exists>chart. GetMedianTimeToRestore no_faults cal t p = Fine \<lparr>md_class = Some ''Less than one hour'', md_chartData = chart\<rparr>"
proof -
  define xs where "xs = remdups (map (\<lambda>i. (isId i, isLeadTimeMinutes i))
      (filter (\<lambda>i. between (pa_dateFrom p) (pa_dateTo p) (isCreatedDate i)) (project_incidents t p)))"
  have set_xs: "set xs = window_incidents t p" "distinct xs"
    by (auto simp: xs_def window_incidents_def set_project_incidents between_window)
  have "card {x \<in> window_incidents t p. snd x = Some 0} = length (filter (\<lambda>x. snd x = Some 0) xs)"
    using distinct_card [OF distinct_filter [OF set_xs(2)], of "\<lambda>x. snd x = Some 0"] by (simp add: set_xs(1))
  also have "\<dots> \<le> length (filter (\<lambda>y. y \<le> Some 0) (map snd xs))"
    by (induction xs) auto
  finally have half: "length (map snd xs) \<le> 2 * length (filter (\<lambda>y. y \<le> Some 0) (map snd xs))"
    using assms(3) set_xs distinct_card [of xs] by simp
  have ne: "map snd xs \<noteq> []" using assms(1) set_xs(1) by (cases xs) simp_all
  have "lower_median (map snd xs) \<noteq> None"
    using lower_median_below(2) [OF ne half] assms(2) set_xs(1) by (metis set_map)
  moreover note lower_median_below(1) [OF ne half]
  ultimately have "restore_class (lower_median (map snd xs)) = ''Less than one hour''"
    by (cases "lower_median (map snd xs)") (simp_all add: restore_class_def below_def)
  then show ?thesis
    by (simp add: GetMedianTimeToRestore_def MEDIAN_TIME_TO_RESTORE_def rank_median_lower flip: xs_def)
qed

definition sample_incident :: "string \<Rightarrow> int \<Rightarrow> metric_issue" where
  "sample_incident i minutes = \<lparr>isId = i, isType = ''INCIDENT'', isCreatedDate = Some 5, isOrigin = no_origin, isLeadTimeMinutes = Some minutes\<rparr>"

definition sample_metrics :: metric_tables where
  "sample_metrics = \<lparr>mt_deployments = [], mt_mappings = [\<lparr>pmProjectName = ''P'', pmTable = ''boards'', pmRowId = ''b''\<rparr>], mt_prs = [],
     mt_pr_metrics = [], mt_issues = [sample_incident ''i1'' 90000, sample_incident ''i2'' 0], mt_boards = [''b''],
     mt_board_issues = [(''b'', ''i1''), (''b'', ''i2'')], mt_issue_metrics = []\<rparr>"

definition sample_params :: metric_params where
  "sample_params = \<lparr>pa_projects = [''P''], pa_dateFrom = 0, pa_dateTo = 10\<rparr>"

theorem open_incidents_restore_fast_witness:
  "\<exists>chart. GetMedianTimeToRestore no_faults cal sample_metrics sample_params =
     Fine \<lparr>md_class = Some ''Less than one hour'', md_chartData = chart\<rparr>"
proof -
  have both: "window_incidents sample_metrics sample_params = {(''i1'', Some 90000), (''i2'', Some 0)}"
    by (auto simp: window_incidents_def sample_metrics_def sample_params_def sample_incident_def in_window_def on_project_def
        conj_disj_distribL conj_disj_distribR ex_disj_distrib)
  have "{x \<in> window_incidents sample_metrics sample_params. snd x = Some 0} = {(''i2'', Some 0)}" by (auto simp: both)
  then show ?thesis by (intro open_incidents_restore_fast) (simp_all add: both)
qed

section \<open>Deployment frequency\<close>

lemma sql_max_map_mono: "mono f \<Longrightarrow> sql_max (map (map_option f) xs) = map_option f (sql_max xs)"
proof (induction xs)
  case (Cons x xs)
  have some: "max (Some a) (Some b) = Some (max a b)" for a b :: "'c::linorder" by (simp add: max_def)
  from Cons show ?case by (cases x; cases "sql_max xs") (simp_all add: max_def [of None] max_def [of _ None] some max_of_mono)
qed simp

lemma mono_day_of: "mono day_of"
  by (simp add: mono_def day_of_def zdiv_mono1)

text \<open>The days on which a deployment of the projects finished for the last time.\<close>

definition deployed_days :: "metric_tables \<Rightarrow> metric_params \<Rightarrow> int set" where
  "deployed_days t p = {day_of f |f d. d \<in> production t p \<and> finished_date t p (dcCicdDeploymentId d) = Some f}"

lemma set_deployment_days: "Some d \<in> set (deployment_days t p) \<longleftrightarrow> d \<in> deployed_days t p"
proof -
  have day: "sql_max (map (map_option day_of \<circ> dcFinishedDate) (commits_of_deployment t p i)) = map_option day_of (finished_date t p i)" for i
    by (simp add: finished_date_def flip: sql_max_map_mono [OF mono_day_of])
  have "Some d \<in> set (deployment_days t p) \<longleftrightarrow> (\<exists>c \<in> production t p. map_option day_of (finished_date t p (dcCicdDeploymentId c)) = Some d)"
    by (auto simp: deployment_days_def production_deployments_def set_production_commits day image_iff eq_commute)
  then show ?thesis by (auto simp: deployed_days_def)
qed

lemma finished_date_last:
  "finished_date t p i = Some f \<longleftrightarrow> (\<exists>d \<in> production t p. dcCicdDeploymentId d = i \<and> dcFinishedDate d = Some f) \<and>
    (\<forall>d \<in> production t p. dcCicdDeploymentId d = i \<longrightarrow> dcFinishedDate d \<le> Some f)"
proof -
  let ?xs = "map dcFinishedDate (commits_of_deployment t p i)"
  have mem: "x \<in> set ?xs \<longleftrightarrow> (\<exists>d \<in> production t p. dcCicdDeploymentId d = i \<and> dcFinishedDate d = x)" for x
    by (auto simp: set_commits_of_deployment)
  show ?thesis
  proof
    assume *: "finished_date t p i = Some f"
    then have "?xs \<noteq> []" by (auto simp: finished_date_def)
    from sql_max_in [OF this] sql_max_upper [of _ ?xs] * show
      "(\<exists>d \<in> production t p. dcCicdDeploymentId d = i \<and> dcFinishedDate d = Some f) \<and>
       (\<forall>d \<in> production t p. dcCicdDeploymentId d = i \<longrightarrow> dcFinishedDate d \<le> Some f)"
      using mem by (auto simp: finished_date_def)
  next
    assume last: "(\<exists>d \<in> production t p. dcCicdDeploymentId d = i \<and> dcFinishedDate d = Some f) \<and>
       (\<forall>d \<in> production t p. dcCicdDeploymentId d = i \<longrightarrow> dcFinishedDate d \<le> Some f)"
    have "Some f \<in> set ?xs" unfolding mem using last by blast
    moreover have "\<forall>x \<in> set ?xs. x \<le> Some f" unfolding Ball_def mem using last by blast
    ultimately show "finished_date t p i = Some f" unfolding finished_date_def by (rule sql_max_eq)
  qed
qed

text \<open>The days that count: those of the last 400 that are after the start of the window.\<close>

definition counted_days :: "calendar \<Rightarrow> metric_params \<Rightarrow> int set" where
  "counted_days cal p = {day_of (sysdate cal) - int k |k. k < 400 \<and> pa_dateFrom p < sysdate cal - int k * 86400000}"

lemma set_last_days: "set (last_days cal p) = counted_days cal p"
proof -
  have digits: "set (concat (map (\<lambda>h. concat (map (\<lambda>t. map (\<lambda>u. h + t + u) [0..<10]) (map (\<lambda>t. 10 * t) [0..<10]))) [0, 100, 200, 300])) =
      {..<400::nat}" (is "?L = _")
  proof (intro set_eqI iffI)
    fix x assume "x \<in> ?L"
    then show "x \<in> {..<400}" by auto
  next
    fix x :: nat assume "x \<in> {..<400}"
    moreover have "x div 10 div 10 = x div 100" using div_mult2_eq [of x 10 10] by simp
    ultimately have x: "x = 100 * (x div 100) + 10 * (x div 10 mod 10) + x mod 10" "x div 100 < 4"
      using div_mult_mod_eq [of x 10] div_mult_mod_eq [of "x div 10" 10] by (linarith, simp)
    then consider "x div 100 = 0" | "x div 100 = 1" | "x div 100 = 2" | "x div 100 = 3" by linarith
    then have "100 * (x div 100) \<in> set [0, 100, 200, 300]" by cases simp_all
    then show "x \<in> ?L"
      by (rule in_concat_map, rule_tac in_concat_map [of "10 * (x div 10 mod 10)"]) (use x(1) in auto)
  qed
  moreover have "day_of (sysdate cal - int k * 86400000) = day_of (sysdate cal) - int k" for k
    using div_mult_self1 [of 86400000 "sysdate cal" "- int k"] by (simp add: day_of_def mult.commute)
  ultimately show ?thesis unfolding last_days_def counted_days_def set_map set_filter digits by auto
qed

text \<open>C5. The deployment frequency is the class of two lower medians: of the number of days of each week on which a production deployment
  finished for the last time, and of whether each month has such a day, over the weeks and months of the last 400 days that are
  after the start of the window, whatever its end; the chart counts the deployments with a commit finished in the window by the month of
  their last finish.\<close>

theorem deployment_frequency_classes:
  "\<exists>ws ms. distinct ws \<and> set ws = week_of ` counted_days cal p \<and> distinct ms \<and> set ms = month_of cal ` counted_days cal p \<and>
    GetDeploymentFrequency no_faults cal t p = Fine
      \<lparr>md_class = Some (frequency_class
         (lower_median (map (\<lambda>w. Some (int (card {d \<in> counted_days cal p \<inter> deployed_days t p. week_of d = w}))) ws))
         (lower_median (map (\<lambda>m. Some (if \<exists>d \<in> counted_days cal p \<inter> deployed_days t p. month_of cal d = m then 1 else 0)) ms))),
       md_chartData = map (\<lambda>m. Some (m, card {i \<in> window_ids t p. month_of_deployment cal t p i = Some m})) (calendar_months cal)\<rparr>"
proof (intro exI conjI)
  let ?days = "last_days cal p"
  have week: "days_deployed cal t p w = card {d \<in> counted_days cal p \<inter> deployed_days t p. week_of d = w}" for w
    by (simp add: days_deployed_def set_deployment_days length_remdups_card_conv set_last_days Int_def conj_ac)
  have month: "int (months_deployed cal t p m) = (if \<exists>d \<in> counted_days cal p \<inter> deployed_days t p. month_of cal d = m then 1 else 0)" for m
    by (auto simp: months_deployed_def list_ex_iff set_deployment_days set_last_days)
  have chart: "length (filter P (window_deployments t p)) = card {i \<in> window_ids t p. P i}" for P
    using distinct_card [OF distinct_filter [OF window_deployments_ids(2)], of P] by (simp add: window_deployments_ids(1))
  show "GetDeploymentFrequency no_faults cal t p = Fine
      \<lparr>md_class = Some (frequency_class
         (lower_median (map (\<lambda>w. Some (int (card {d \<in> counted_days cal p \<inter> deployed_days t p. week_of d = w}))) (remdups (map week_of ?days))))
         (lower_median (map (\<lambda>m. Some (if \<exists>d \<in> counted_days cal p \<inter> deployed_days t p. month_of cal d = m then 1 else 0))
           (remdups (map (month_of cal) ?days))))),
       md_chartData = map (\<lambda>m. Some (m, card {i \<in> window_ids t p. month_of_deployment cal t p i = Some m})) (calendar_months cal)\<rparr>"
    by (simp add: GetDeploymentFrequency_def DEPLOYMENT_FREQUENCY_QUERY_def DEPLOYMENT_FREQUENCY_CHART_DATA_QUERY_def rank_median_lower
        week month chart comp_def del: of_nat_eq_iff)
qed (simp_all add: set_last_days)

section \<open>Incidents of the dora plugin\<close>

text \<open>The rows of \<open>project_issue_metrics\<close> that the dora plugin makes for a project.\<close>

definition connected_incidents :: "(goerr \<Rightarrow> bool) \<Rightarrow> dora_tables \<Rightarrow> string \<Rightarrow> (string \<times> string) set" where
  "connected_incidents not_found dt project = {(i, d). \<exists>inp \<in> set (incidents dt project). \<exists>rows.
     connect_incident (\<lambda>_. None) not_found dt project inp = Inr rows \<and> issue_metric_row i project d \<in> set rows}"

lemma issue_metric_row_eq: "issue_metric_row i p d = issue_metric_row i' p d' \<longleftrightarrow> i = i' \<and> d = d'"
  by (auto simp: issue_metric_row_def)

text \<open>An incident on a board of the project, and the deployments it can be blamed on: the successful production deployments of the
  project that finished before it was created and that none of these finished after.\<close>

definition project_incident :: "dora_tables \<Rightarrow> string \<Rightarrow> Issue \<Rightarrow> bool" where
  "project_incident dt project x \<longleftrightarrow> x \<in> set (d_issues dt) \<and> isType x = ''INCIDENT'' \<and>
     (\<exists>b. (b, isId x) \<in> set (d_board_issues dt) \<and>
       (\<exists>m \<in> set (d_mappings dt). pmTable m = ''boards'' \<and> pmRowId m = b \<and> pmProjectName m = project))"

definition blamed :: "dora_tables \<Rightarrow> string \<Rightarrow> Issue \<Rightarrow> CicdDeploymentCommit set" where
  "blamed dt project x = {d. blames dt project (isCreatedDate x) d \<and>
     (\<forall>d'. blames dt project (isCreatedDate x) d' \<longrightarrow> the (dcFinishedDate d') \<le> the (dcFinishedDate d))}"

lemma set_incidents: "(\<exists>inp \<in> set (incidents dt project). P (in_data inp)) \<longleftrightarrow> (\<exists>x. project_incident dt project x \<and> P x)"
proof -
  have "mapped dt project ''boards'' b \<noteq> [] \<longleftrightarrow>
      (\<exists>m \<in> set (d_mappings dt). pmTable m = ''boards'' \<and> pmRowId m = b \<and> pmProjectName m = project)" for b
    by (auto simp: mapped_def filter_empty_conv)
  then have "project_incident dt project x \<longleftrightarrow> x \<in> set (d_issues dt) \<and> isType x = ''INCIDENT'' \<and>
      (\<exists>b. (b, isId x) \<in> set (d_board_issues dt) \<and> mapped dt project ''boards'' b \<noteq> [])" for x
    by (simp add: project_incident_def)
  then show ?thesis by (fastforce simp: incidents_def input_of_def image_constant_conv split: if_splits)
qed

text \<open>What an incident adds to the rows, from the theorem on \<open>ConnectIncidentToDeployment\<close>.\<close>

lemma connected_blamed:
  assumes "connect_incident (\<lambda>_. None) not_found dt project inp = Inr rs" "issue_metric_row j project i \<in> set rs"
  shows "j = isId (in_data inp) \<and> i \<noteq> [] \<and> i \<in> dcCicdDeploymentId ` blamed dt project (in_data inp)"
  using connect_incident_latest [of dt project inp not_found] assms
  by (auto simp: Let_def blamed_def issue_metric_row_eq not_less intro!: imageI split: if_splits)

lemma blamed_connected:
  assumes "blamed dt project (in_data inp) \<noteq> {}" "\<forall>d \<in> blamed dt project (in_data inp). dcCicdDeploymentId d = i" "i \<noteq> []"
  shows "connect_incident (\<lambda>_. None) not_found dt project inp = Inr [issue_metric_row (isId (in_data inp)) project i]"
proof -
  have "{d. blames dt project (isCreatedDate (in_data inp)) d} \<noteq> {}" using assms(1) by (auto simp: blamed_def)
  with connect_incident_latest [of dt project inp not_found]
  have "\<exists>d \<in> {d. blames dt project (isCreatedDate (in_data inp)) d}.
      {d' \<in> {d. blames dt project (isCreatedDate (in_data inp)) d}. the (dcFinishedDate d) < the (dcFinishedDate d')} = {} \<and>
      connect_incident (\<lambda>_. None) not_found dt project inp = Inr (if dcCicdDeploymentId d = [] then []
        else [issue_metric_row (isId (in_data inp)) project (dcCicdDeploymentId d)])"
    unfolding Let_def by (simp only: if_False)
  then obtain d where d: "blames dt project (isCreatedDate (in_data inp)) d"
      "{d' \<in> {d. blames dt project (isCreatedDate (in_data inp)) d}. the (dcFinishedDate d) < the (dcFinishedDate d')} = {}"
    and rows: "connect_incident (\<lambda>_. None) not_found dt project inp = Inr (if dcCicdDeploymentId d = [] then []
        else [issue_metric_row (isId (in_data inp)) project (dcCicdDeploymentId d)])"
    by blast
  from d have "d \<in> blamed dt project (in_data inp)" by (auto simp: blamed_def not_less)
  with assms(2,3) rows show ?thesis by simp
qed

text \<open>C21. What the dora plugin and the metric say together, when the issue metrics are those that \<open>ConnectIncidentToDeployment\<close> makes for
  a project: a deployment that counts as failed is the one of a successful production deployment of the project, finished
  before the creation of an incident on a board of the project and last among those; and the deployment that alone is last
  before such an incident counts as failed.\<close>

theorem incidents_fail_deployments:
  assumes "set (mt_issue_metrics t) = connected_incidents not_found dt project" and "map Issue.truncate (mt_issues t) = d_issues dt"
  shows "(has_incident t i = 1 \<longrightarrow>
      i \<noteq> [] \<and> (\<exists>x. project_incident dt project x \<and> i \<in> dcCicdDeploymentId ` blamed dt project x)) \<and>
    (i \<noteq> [] \<and> (\<exists>x. project_incident dt project x \<and> dcCicdDeploymentId ` blamed dt project x = {i}) \<longrightarrow> has_incident t i = 1) \<and>
    has_incident t i \<le> 1"
proof -
  have issues: "(\<exists>y \<in> set (mt_issues t). isId y = j \<and> isType y = ''INCIDENT'') \<longleftrightarrow>
      (\<exists>x \<in> set (d_issues dt). isId x = j \<and> isType x = ''INCIDENT'')" for j
    by (auto simp: Issue.truncate_def simp flip: assms(2))
  have "fails t i \<longleftrightarrow> (\<exists>j. (\<exists>y \<in> set (mt_issues t). isId y = j \<and> isType y = ''INCIDENT'') \<and> (j, i) \<in> connected_incidents not_found dt project)"
    by (auto simp: fails_def assms(1))
  then have fails: "fails t i \<longleftrightarrow> (\<exists>j. (\<exists>x \<in> set (d_issues dt). isId x = j \<and> isType x = ''INCIDENT'') \<and>
      (j, i) \<in> connected_incidents not_found dt project)" unfolding issues .
  have "i \<noteq> [] \<and> (\<exists>x. project_incident dt project x \<and> i \<in> dcCicdDeploymentId ` blamed dt project x)" if f: "fails t i"
  proof -
    from f obtain inp rs j where inp: "inp \<in> set (incidents dt project)"
        "connect_incident (\<lambda>_. None) not_found dt project inp = Inr rs" "issue_metric_row j project i \<in> set rs"
      unfolding fails connected_incidents_def by blast
    from connected_blamed [OF inp(2,3)] inp(1) show ?thesis
      using set_incidents [of dt project "\<lambda>x. i \<in> dcCicdDeploymentId ` blamed dt project x"] by blast
  qed
  moreover have "fails t i" if i: "i \<noteq> []" and x: "project_incident dt project x" "dcCicdDeploymentId ` blamed dt project x = {i}" for x
  proof -
    from set_incidents [of dt project "\<lambda>y. y = x"] x(1) obtain inp where inp: "inp \<in> set (incidents dt project)" "in_data inp = x"
      by blast
    have "blamed dt project (in_data inp) \<noteq> {}" "\<forall>d \<in> blamed dt project (in_data inp). dcCicdDeploymentId d = i"
      using x(2) inp(2) by auto
    from blamed_connected [OF this i, of not_found] inp have "(isId x, i) \<in> connected_incidents not_found dt project"
      unfolding connected_incidents_def by (auto intro!: bexI [of _ inp])
    with x(1) show ?thesis unfolding fails project_incident_def by blast
  qed
  ultimately show ?thesis unfolding has_incident_fails by auto
qed

definition incident_dora :: dora_tables where
  "incident_dora = sample_dora\<lparr>d_issues := [Issue.truncate (sample_incident ''i1'' 9\<lparr>isCreatedDate := Some 100\<rparr>)],
     d_board_issues := [(''b'', ''i1'')],
     d_mappings := \<lparr>pmProjectName = ''P'', pmTable = ''boards'', pmRowId = ''b''\<rparr> # d_mappings sample_dora\<rparr>"

definition incident_metrics :: metric_tables where
  "incident_metrics = sample_metrics\<lparr>mt_issues := [sample_incident ''i1'' 9\<lparr>isCreatedDate := Some 100\<rparr>],
     mt_issue_metrics := [(''i1'', ''d1'')]\<rparr>"

lemmas incident_samples = incident_dora_def incident_metrics_def sample_dora_def sample_metrics_def sample_incident_def sample_deployment_def

theorem incidents_fail_deployments_witness: "has_incident incident_metrics ''d1'' = 1 \<and> has_incident incident_metrics ''d2'' \<noteq> 1"
proof -
  let ?x = "Issue.truncate (sample_incident ''i1'' 9\<lparr>isCreatedDate := Some 100\<rparr>)"
  have before: "deployments_before incident_dora ''P'' (Some 100) = [sample_deployment ''d1'' 50]"
    by (simp add: deployments_before_def incident_samples mapped_def)
  have incs: "incidents incident_dora ''P'' = [input_of ?x no_origin]"
    by (simp add: incidents_def incident_samples mapped_def Issue.truncate_def)
  have "connect_incident (\<lambda>_. None) (\<lambda>_. False) incident_dora ''P'' (input_of ?x no_origin) = Inr [issue_metric_row ''i1'' ''P'' ''d1'']"
    by (simp add: connect_incident_def input_of_def Issue.truncate_def sample_incident_def before head_option_def sample_deployment_def)
  then have metrics: "set (mt_issue_metrics incident_metrics) = connected_incidents (\<lambda>_. False) incident_dora ''P''"
    by (auto simp: connected_incidents_def incs issue_metric_row_eq incident_metrics_def)
  have issues: "map Issue.truncate (mt_issues incident_metrics) = d_issues incident_dora"
    by (simp add: incident_metrics_def incident_dora_def)
  have blames: "blames incident_dora ''P'' (Some 100) d \<longleftrightarrow> d = sample_deployment ''d1'' 50" for d
    by (auto simp: blames_def incident_samples)
  then have "blamed incident_dora ''P'' x = {sample_deployment ''d1'' 50}" if "isCreatedDate x = Some 100" for x
    using that by (auto simp: blamed_def)
  then have blamed: "dcCicdDeploymentId ` blamed incident_dora ''P'' x = {''d1''}" if "isCreatedDate x = Some 100" for x
    using that by (simp add: sample_deployment_def)
  have incident: "project_incident incident_dora ''P'' x \<longleftrightarrow> x = ?x" for x
    by (auto simp: project_incident_def incident_samples Issue.truncate_def)
  have "isCreatedDate ?x = Some 100" by (simp add: Issue.truncate_def sample_incident_def)
  with incidents_fail_deployments [OF metrics issues, of "''d1''"] incidents_fail_deployments [OF metrics issues, of "''d2''"]
  show ?thesis by (simp add: incident blamed)
qed

end
