(* ===== verification/CherryPick.thy ===== *)
theory CherryPick
  imports Dora RateLimit Conn
begin

text \<open>
  \<open>CalculatePrCherryPick\<close> (\<open>plugins/refdiff/tasks/refs_pr_cherry_pick_calculator.go\<close>): the pull requests whose title names the number
  of another are linked to it as their parent, and a row for each parent lists its cherry-picks. \<open>title_key\<close> is the first group of
  the configured pattern in a title, empty without a match or a pattern.
\<close>

record pick_pr =
  pkId :: string
  pkBaseRepoId :: string
  pkTitle :: string
  pkParentPrId :: string
  pkPullRequestKey :: int
  pkCreatedDate :: int
  pkBaseRef :: string

record pick_repo =
  pickRepoId :: string
  pickRepoName :: string
  pickRepoUrl :: string

record RefsPrCherrypick =
  rpRepoName :: string
  rpParentPrKey :: int
  rpCherrypickBaseBranches :: string
  rpCherrypickPrKeys :: string
  rpParentPrUrl :: string
  rpParentPrId :: string

record pick_tables =
  ck_prs :: "pick_pr list"
  ck_repos :: "pick_repo list"
  ck_picks :: "RefsPrCherrypick list"

section \<open>Linking\<close>

definition repo_prs :: "string \<Rightarrow> pick_tables \<Rightarrow> pick_pr list" where
  "repo_prs repoId d = concat (map (\<lambda>pr. map (\<lambda>_. pr)
     (filter (\<lambda>r. pickRepoId r = pkBaseRepoId pr \<and> pickRepoId r = repoId) (ck_repos d))) (ck_prs d))"

text \<open>\<open>Pluck\<close> into a string keeps the last row.\<close>

definition parent_pr :: "int \<Rightarrow> string \<Rightarrow> pick_tables \<Rightarrow> string" where
  "parent_pr key repoId d =
     (let ids = map pkId (filter (\<lambda>p. pkPullRequestKey p = key \<and> pkBaseRepoId p = repoId) (ck_prs d)) in
      if ids = [] then [] else last ids)"

definition update_pr :: "pick_pr \<Rightarrow> pick_tables \<Rightarrow> pick_tables" where
  "update_pr pr d = d\<lparr>ck_prs := map (\<lambda>p. if pkId p = pkId pr then pr else p) (ck_prs d)\<rparr>"

fun link_parents :: "(nat \<Rightarrow> goerr option) \<Rightarrow> (string \<Rightarrow> string) \<Rightarrow> string \<Rightarrow> nat \<Rightarrow> pick_pr list \<Rightarrow> (pick_tables, unit) act" where
  "link_parents ctx title_key repoId i [] = act_ret ()"
| "link_parents ctx title_key repoId i (row # rows) =
     act_bind (check_ctx (ctx i)) (\<lambda>_. act_bind (query (\<lambda>_. row)) (\<lambda>pr.
       case Atoi (title_key (pkTitle pr)) of
         Inl e \<Rightarrow> link_parents ctx title_key repoId (i + 1) rows
       | Inr key \<Rightarrow>
           act_bind (query (parent_pr key repoId)) (\<lambda>parentPrId.
             if parentPrId = [] then link_parents ctx title_key repoId (i + 1) rows
             else act_bind (exec (update_pr (pr\<lparr>pkParentPrId := parentPrId\<rparr>))) (\<lambda>_.
               act_bind IncProgress1 (\<lambda>_. link_parents ctx title_key repoId (i + 1) rows)))))"

section \<open>Listing\<close>

record cherryPick =
  cpRepoName :: string
  cpParentPrKey :: int
  cpCherrypickBaseBranch :: string
  cpCherrypickPrKey :: int
  cpParentPrUrl :: string
  cpParentPrId :: string
  cpCreatedDate :: "int option"

text \<open>What a row of the joins is read into: the zero value for NULL, and for a text with a NULL part.\<close>

definition cherry_pick_of :: "pick_pr \<Rightarrow> pick_pr option \<Rightarrow> pick_repo option \<Rightarrow> cherryPick" where
  "cherry_pick_of pr1 pr2 repo =
     \<lparr>cpRepoName = (case repo of None \<Rightarrow> [] | Some r \<Rightarrow> pickRepoName r),
      cpParentPrKey = (case pr2 of None \<Rightarrow> 0 | Some p \<Rightarrow> pkPullRequestKey p),
      cpCherrypickBaseBranch = pkBaseRef pr1, cpCherrypickPrKey = pkPullRequestKey pr1,
      cpParentPrUrl = (case (repo, pr2) of (Some r, Some p) \<Rightarrow> pickRepoUrl r @ ''/pull/'' @ show_int (pkPullRequestKey p) | _ \<Rightarrow> []),
      cpParentPrId = pkParentPrId pr1, cpCreatedDate = map_option pkCreatedDate pr2\<rparr>"

definition cherry_picks :: "pick_tables \<Rightarrow> cherryPick list" where
  "cherry_picks d =
     sort_key (\<lambda>c. (TextKey (cpParentPrId c), cpCreatedDate c, TextKey (cpCherrypickBaseBranch c)))
       (concat (map (\<lambda>pr1. concat (map (\<lambda>pr2. map (cherry_pick_of pr1 pr2)
           (case pr2 of None \<Rightarrow> [None] | Some p \<Rightarrow> left_join (\<lambda>r. pickRepoId r = pkBaseRepoId p) (ck_repos d)))
         (left_join (\<lambda>p. pkId p = pkParentPrId pr1) (ck_prs d)))) (filter (\<lambda>pr1. pkParentPrId pr1 \<noteq> []) (ck_prs d))))"

definition pick_of :: "cherryPick \<Rightarrow> RefsPrCherrypick" where
  "pick_of c = \<lparr>rpRepoName = cpRepoName c, rpParentPrKey = cpParentPrKey c, rpCherrypickBaseBranches = [], rpCherrypickPrKeys = [],
     rpParentPrUrl = cpParentPrUrl c, rpParentPrId = cpParentPrId c\<rparr>"

record pick_vars =
  pv_pick :: "RefsPrCherrypick option"
  pv_lastParentPrId :: string
  pv_lastCreatedDate :: "int option"
  pv_branches :: "string list"
  pv_keys :: "string list"

definition store_pick :: "RefsPrCherrypick \<Rightarrow> (pick_tables, unit) act" where
  "store_pick r = exec (\<lambda>d. d\<lparr>ck_picks := CreateOrUpdate rpParentPrId r (ck_picks d)\<rparr>)"

text \<open>The lists are filled in when the next parent begins; after the loop the last row is stored as it is.\<close>

fun list_picks :: "pick_vars \<Rightarrow> cherryPick list \<Rightarrow> (pick_tables, unit) act" where
  "list_picks v [] = (case pv_pick v of None \<Rightarrow> act_ret () | Some r \<Rightarrow> store_pick r)"
| "list_picks v (row # rows) =
     act_bind (query (\<lambda>_. row)) (\<lambda>item.
       if cpParentPrId item = pv_lastParentPrId v \<and> cpCreatedDate item = pv_lastCreatedDate v
       then list_picks (v\<lparr>pv_branches := pv_branches v @ [cpCherrypickBaseBranch item],
           pv_keys := pv_keys v @ [show_int (cpCherrypickPrKey item)]\<rparr>) rows
       else act_bind (case pv_pick v of None \<Rightarrow> act_ret ()
           | Some r \<Rightarrow> store_pick (r\<lparr>rpCherrypickBaseBranches := strings_join '','' (pv_branches v),
               rpCherrypickPrKeys := strings_join '','' (pv_keys v)\<rparr>)) (\<lambda>_.
         list_picks \<lparr>pv_pick = Some (pick_of item), pv_lastParentPrId = cpParentPrId item, pv_lastCreatedDate = cpCreatedDate item,
           pv_branches = [cpCherrypickBaseBranch item], pv_keys = [show_int (cpCherrypickPrKey item)]\<rparr> rows))"

definition CalculatePrCherryPick :: "(nat \<Rightarrow> goerr option) \<Rightarrow> goerr option \<Rightarrow> (string \<Rightarrow> string) \<Rightarrow> RefdiffOptions
    \<Rightarrow> (pick_tables, unit) act" where
  "CalculatePrCherryPick ctx compile_err title_key op =
     (if roProjectName op \<noteq> [] then act_ret ()
      else case compile_err of
        Some e \<Rightarrow> act_fail (newSingleCrdbError Default (Some e) ''regexp Compile prTitlePattern failed'' None)
      | None \<Rightarrow>
          act_bind (query (repo_prs (roRepoId op))) (\<lambda>prs.
            act_bind (link_parents ctx title_key (roRepoId op) 0 prs) (\<lambda>_.
              act_bind (query cherry_picks)
                (list_picks \<lparr>pv_pick = None, pv_lastParentPrId = [], pv_lastCreatedDate = None, pv_branches = [], pv_keys = []\<rparr>))))"

end
