(* ===== verification/CherryPickFacts.thy ===== *)
theory CherryPickFacts
  imports CherryPick
begin

text \<open>
  What \<open>CalculatePrCherryPick\<close> stores: the parents of the pull requests, and the rows of the parents with their cherry-picks.
\<close>

section \<open>Linking\<close>

definition linked_parent :: "(string \<Rightarrow> string) \<Rightarrow> string \<Rightarrow> pick_tables \<Rightarrow> pick_pr \<Rightarrow> string option" where
  "linked_parent title_key repoId d pr =
     (if pkBaseRepoId pr = repoId \<and> repoId \<in> pickRepoId ` set (ck_repos d)
      then (case Atoi (title_key (pkTitle pr)) of Inl e \<Rightarrow> None
        | Inr key \<Rightarrow> if parent_pr key repoId d = [] then None else Some (parent_pr key repoId d))
      else None)"

definition with_parent :: "string option \<Rightarrow> pick_pr \<Rightarrow> pick_pr" where
  "with_parent parent pr = (case parent of None \<Rightarrow> pr | Some i \<Rightarrow> pr\<lparr>pkParentPrId := i\<rparr>)"

lemma with_parent_fields [simp]:
  "pkId (with_parent q pr) = pkId pr" "pkPullRequestKey (with_parent q pr) = pkPullRequestKey pr"
  "pkBaseRepoId (with_parent q pr) = pkBaseRepoId pr" "pkCreatedDate (with_parent q pr) = pkCreatedDate pr"
  by (simp_all add: with_parent_def split: option.split)

text \<open>The tables when the pull requests in \<open>S\<close> have been linked.\<close>

definition linked :: "(string \<Rightarrow> string) \<Rightarrow> string \<Rightarrow> pick_tables \<Rightarrow> pick_pr set \<Rightarrow> pick_tables" where
  "linked title_key repoId d S =
     d\<lparr>ck_prs := map (\<lambda>p. if p \<in> S then with_parent (linked_parent title_key repoId d p) p else p) (ck_prs d)\<rparr>"

lemma parent_pr_linked [simp]: "parent_pr key repoId (linked title_key repoId' d S) = parent_pr key repoId d"
proof -
  have "map pkId (filter (\<lambda>p. pkPullRequestKey p = key \<and> pkBaseRepoId p = repoId) (map (\<lambda>p. if p \<in> S then with_parent (h p) p else p) ps)) =
      map pkId (filter (\<lambda>p. pkPullRequestKey p = key \<and> pkBaseRepoId p = repoId) ps)" for h ps
    by (induction ps) auto
  then show ?thesis by (simp add: parent_pr_def linked_def)
qed

lemma update_linked:
  assumes "distinct (map pkId (ck_prs d))" "pr \<in> set (ck_prs d)" "linked_parent title_key repoId d pr = Some i"
  shows "update_pr (pr\<lparr>pkParentPrId := i\<rparr>) (linked title_key repoId d S) = linked title_key repoId d (insert pr S)"
proof -
  have here: "with_parent (linked_parent title_key repoId d pr) pr = pr\<lparr>pkParentPrId := i\<rparr>"
    by (simp add: assms(3) with_parent_def)
  have "(if pkId q = pkId pr then pr\<lparr>pkParentPrId := i\<rparr> else q) =
      (if p \<in> insert pr S then with_parent (linked_parent title_key repoId d p) p else p)"
    if "p \<in> set (ck_prs d)" "q = (if p \<in> S then with_parent (linked_parent title_key repoId d p) p else p)" for p q
  proof (cases "p = pr")
    case True
    with that here show ?thesis by (auto split: if_splits)
  next
    case False
    with assms(1,2) that(1) have "pkId p \<noteq> pkId pr" by (auto simp: distinct_map inj_on_def)
    with that(2) False show ?thesis by (auto split: if_splits)
  qed
  then show ?thesis by (simp add: update_pr_def linked_def cong: map_cong)
qed

lemma unlinked: "linked_parent title_key repoId d pr = None \<Longrightarrow> linked title_key repoId d (insert pr S) = linked title_key repoId d S"
  by (auto simp: linked_def with_parent_def)

lemma link_parents_run:
  assumes "distinct (map pkId (ck_prs d))" and "\<And>i. ctx i = None"
  shows "set rows \<subseteq> set (repo_prs repoId d) \<Longrightarrow> cn_faults s = [] \<Longrightarrow> cn_data s = linked title_key repoId d S \<Longrightarrow>
    \<exists>s'. link_parents ctx title_key repoId i rows s = (Inr (), s') \<and> cn_faults s' = [] \<and>
      cn_data s' = linked title_key repoId d (set rows \<union> S)"
proof (induction rows arbitrary: i s S)
  case Nil
  then show ?case by (simp add: act_ret_def)
next
  case (Cons row rows)
  have row: "row \<in> set (ck_prs d)" "pkBaseRepoId row = repoId" "repoId \<in> pickRepoId ` set (ck_repos d)"
    using Cons.prems(1) by (auto simp: repo_prs_def)
  have head: "act_bind (check_ctx (ctx i)) (\<lambda>_. act_bind (query (\<lambda>_. row)) f) s = f row s" for f :: "pick_pr \<Rightarrow> (pick_tables, unit) act"
    by (simp add: act_bind_def assms(2) act_simps Cons.prems(2))
  show ?case
  proof (cases "linked_parent title_key repoId d row")
    case None
    then have next_row: "link_parents ctx title_key repoId i (row # rows) s = link_parents ctx title_key repoId (i + 1) rows s"
      using row(2,3) unfolding link_parents.simps head linked_parent_def
      by (auto simp: act_bind_def act_simps Cons.prems(2,3) split: sum.splits if_splits)
    from Cons.IH [OF _ Cons.prems(2), of "insert row S" "i + 1"] Cons.prems(1,3) show ?thesis
      unfolding next_row by (simp add: unlinked [OF None])
  next
    case (Some p)
    then obtain key where key: "Atoi (title_key (pkTitle row)) = Inr key" "parent_pr key repoId d = p" "p \<noteq> []"
      using row(2,3) by (auto simp: linked_parent_def split: sum.splits if_splits)
    define s1 where "s1 = s\<lparr>cn_data := linked title_key repoId d (insert row S), cn_progress := cn_progress s + 1\<rparr>"
    have "link_parents ctx title_key repoId i (row # rows) s = link_parents ctx title_key repoId (i + 1) rows s1"
      unfolding link_parents.simps head
      by (simp add: key act_bind_def act_simps Cons.prems(2,3) update_linked [OF assms(1) row(1) Some] s1_def)
    moreover have "cn_faults s1 = []" "cn_data s1 = linked title_key repoId d (insert row S)" using Cons.prems(2) by (simp_all add: s1_def)
    ultimately show ?thesis using Cons.IH [of s1 "insert row S" "i + 1"] Cons.prems(1) by simp
  qed
qed

section \<open>Rows in groups\<close>

text \<open>In a list where equal keys are neighbours, the groups by key are the list.\<close>

fun neighbours :: "('a \<Rightarrow> 'k) \<Rightarrow> 'a list \<Rightarrow> bool" where
  "neighbours f (x # y # zs) \<longleftrightarrow> (f x \<in> f ` set (y # zs) \<longrightarrow> f x = f y) \<and> neighbours f (y # zs)"
| "neighbours f _ \<longleftrightarrow> True"

definition group_of :: "('a \<Rightarrow> 'k) \<Rightarrow> 'a list \<Rightarrow> 'k \<Rightarrow> 'a list" where
  "group_of f xs k = filter (\<lambda>x. f x = k) xs"

lemma groups_concat: "neighbours f xs \<Longrightarrow> concat (map (group_of f xs) (remdups (map f xs))) = xs"
proof (induction xs)
  case (Cons x xs)
  have IH: "concat (map (group_of f xs) (remdups (map f xs))) = xs" using Cons by (cases xs) auto
  show ?case
  proof (cases "f x \<in> f ` set xs")
    case True
    then obtain y zs where xs: "xs = y # zs" "f x = f y" using Cons.prems by (cases xs) auto
    obtain k ks where ks: "remdups (map f xs) = k # ks" using xs(1) by (metis list.exhaust list.simps(9) map_is_Nil_conv remdups_eq_nil_iff)
    have "k \<in> f ` set xs" using ks by (metis list.set_intros(1) set_map set_remdups)
    then obtain z where "z \<in> set (group_of f xs k)" by (auto simp: group_of_def)
    then obtain g gs where g: "group_of f xs k = g # gs" by (cases "group_of f xs k") auto
    then have "g \<in> set (group_of f xs k)" by simp
    then have "f g = k" by (simp add: group_of_def)
    with IH ks xs(1) g have "g = y" by simp
    with \<open>f g = k\<close> xs(2) have k: "k = f x" by simp
    have "group_of f (x # xs) k' = group_of f xs k'" if "k' \<in> set ks" for k'
      using that ks k distinct_remdups [of "map f xs"] by (auto simp: group_of_def)
    then have m: "map (group_of f (x # xs)) ks = map (group_of f xs) ks" by simp
    have h: "group_of f (x # xs) k = x # group_of f xs k" by (simp add: group_of_def k)
    have r: "remdups (map f (x # xs)) = k # ks" using True ks by simp
    have "concat (map (group_of f (x # xs)) (remdups (map f (x # xs)))) = x # (group_of f xs k @ concat (map (group_of f xs) ks))"
      unfolding r by (simp only: list.map concat.simps m h append_Cons)
    with IH ks show ?thesis by simp
  next
    case False
    then have "group_of f (x # xs) k' = group_of f xs k'" if "k' \<in> set (remdups (map f xs))" for k'
      using that by (auto simp: group_of_def)
    then have m: "map (group_of f (x # xs)) (remdups (map f xs)) = map (group_of f xs) (remdups (map f xs))" by simp
    have "f y \<noteq> f x" if "y \<in> set xs" for y using False that by (metis imageI)
    then have h: "group_of f (x # xs) (f x) = [x]" by (simp add: group_of_def filter_empty_conv)
    have r: "remdups (map f (x # xs)) = f x # remdups (map f xs)" using False by simp
    have "concat (map (group_of f (x # xs)) (remdups (map f (x # xs)))) = [x] @ concat (map (group_of f xs) (remdups (map f xs)))"
      unfolding r by (simp only: list.map concat.simps m h)
    with IH show ?thesis by simp
  qed
qed simp

lemma sorted_neighbours:
  assumes "sorted (map (\<lambda>x. (K (f x), g x)) xs)" "inj K"
  shows "neighbours f xs"
  using assms(1)
proof (induction f xs rule: neighbours.induct)
  case (1 f x y zs)
  have first: "f x = f y" if "f x = f z" "z \<in> set (y # zs)" for z
  proof -
    have "(K (f x), g x) \<le> (K (f y), g y)" using "1.prems" by simp
    moreover have "(K (f y), g y) \<le> (K (f z), g z)"
    proof (cases "z = y")
      case False
      with that(2) have "z \<in> set zs" by simp
      with "1.prems" show ?thesis by simp
    qed simp
    ultimately have "K (f x) \<le> K (f y)" "K (f y) \<le> K (f z)" by (auto simp: less_eq_prod_def)
    with that(1) have "K (f x) = K (f y)" by simp
    with assms(2) show ?thesis by (auto dest: injD)
  qed
  have "sorted (map (\<lambda>x. (K (f x), g x)) (y # zs))" using "1.prems" by simp
  note "1.IH" [OF this]
  moreover have "f x \<in> f ` set (y # zs) \<longrightarrow> f x = f y" using first by blast
  ultimately show ?case by (simp only: neighbours.simps simp_thms)
qed simp_all

section \<open>Listing\<close>

definition listed_pick :: "cherryPick list \<Rightarrow> RefsPrCherrypick" where
  "listed_pick cs = (pick_of (hd cs))\<lparr>rpCherrypickBaseBranches := strings_join '','' (map cpCherrypickBaseBranch cs),
     rpCherrypickPrKeys := strings_join '','' (map (show_int \<circ> cpCherrypickPrKey) cs)\<rparr>"

definition vars_of :: "cherryPick list \<Rightarrow> pick_vars" where
  "vars_of cs = \<lparr>pv_pick = Some (pick_of (hd cs)), pv_lastParentPrId = cpParentPrId (hd cs), pv_lastCreatedDate = cpCreatedDate (hd cs),
     pv_branches = map cpCherrypickBaseBranch cs, pv_keys = map (show_int \<circ> cpCherrypickPrKey) cs\<rparr>"

definition same_parent :: "cherryPick \<Rightarrow> cherryPick \<Rightarrow> bool" where
  "same_parent c c' \<longleftrightarrow> cpParentPrId c = cpParentPrId c' \<and> cpCreatedDate c = cpCreatedDate c'"

definition one_parent :: "cherryPick list \<Rightarrow> bool" where
  "one_parent cs \<longleftrightarrow> cs \<noteq> [] \<and> (\<forall>c \<in> set cs. same_parent c (hd cs))"

definition store_picks :: "RefsPrCherrypick list \<Rightarrow> pick_tables conn \<Rightarrow> pick_tables conn" where
  "store_picks rs s = s\<lparr>cn_data := (cn_data s)\<lparr>ck_picks := fold (CreateOrUpdate rpParentPrId) rs (ck_picks (cn_data s))\<rparr>\<rparr>"

lemma store_pick_run: "cn_faults s = [] \<Longrightarrow> store_pick r s = (Inr (), store_picks [r] s)"
  by (simp add: store_pick_def act_simps store_picks_def)

lemma store_picks_simps [simp]: "cn_faults (store_picks rs s) = cn_faults s" "store_picks rs' (store_picks rs s) = store_picks (rs @ rs') s"
  by (simp_all add: store_picks_def)

lemma list_group:
  "cn_faults s = [] \<Longrightarrow> cs \<noteq> [] \<Longrightarrow> \<forall>c \<in> set others. same_parent c (hd cs) \<Longrightarrow>
    list_picks (vars_of cs) (others @ rest) s = list_picks (vars_of (cs @ others)) rest s"
proof (induction others arbitrary: cs)
  case (Cons c others)
  then have "list_picks (vars_of cs) ((c # others) @ rest) s = list_picks (vars_of (cs @ [c])) (others @ rest) s"
    by (simp add: act_bind_def act_simps vars_of_def same_parent_def)
  with Cons.IH [of "cs @ [c]"] Cons.prems show ?case by (cases cs) simp_all
qed simp

lemma list_groups:
  "cn_faults s = [] \<Longrightarrow> one_parent g \<Longrightarrow> list_all one_parent gs \<Longrightarrow> distinct (map (cpParentPrId \<circ> hd) (g # gs)) \<Longrightarrow>
    list_picks (vars_of g) (concat gs) s =
      (Inr (), store_picks (map listed_pick (butlast (g # gs)) @ [pick_of (hd (last (g # gs)))]) s)"
proof (induction gs arbitrary: g s)
  case Nil
  then show ?case by (simp add: vars_of_def store_pick_run)
next
  case (Cons g' gs)
  obtain c cs where g': "g' = c # cs" "\<forall>x \<in> set cs. same_parent x c" using Cons.prems(3) by (cases g') (auto simp: one_parent_def)
  have "cpParentPrId c \<noteq> cpParentPrId (hd g)" using Cons.prems(4) g'(1) by auto
  moreover have "pick_of (hd g)\<lparr>rpCherrypickBaseBranches := strings_join '','' (map cpCherrypickBaseBranch g),
      rpCherrypickPrKeys := strings_join '','' (map (show_int \<circ> cpCherrypickPrKey) g)\<rparr> = listed_pick g"
    by (simp add: listed_pick_def)
  ultimately have "list_picks (vars_of g) (concat (g' # gs)) s = list_picks (vars_of [c]) (cs @ concat gs) (store_picks [listed_pick g] s)"
    using Cons.prems(1) by (simp add: g'(1) act_bind_def act_simps vars_of_def store_pick_run)
  also have "\<dots> = list_picks (vars_of g') (concat gs) (store_picks [listed_pick g] s)"
    using list_group [of "store_picks [listed_pick g] s" "[c]" cs] Cons.prems(1) g' by simp
  also have "\<dots> = (Inr (), store_picks (map listed_pick (butlast (g' # gs)) @ [pick_of (hd (last (g' # gs)))]) (store_picks [listed_pick g] s))"
    using Cons.prems by (intro Cons.IH) simp_all
  finally show ?case by simp
qed

lemma CreateOrUpdate_set: "set (CreateOrUpdate k r rows) = insert r {x \<in> set rows. k x \<noteq> k r}"
  by (auto simp: CreateOrUpdate_def image_iff split: if_splits)

lemma fold_CreateOrUpdate_set:
  "distinct (map k rs) \<Longrightarrow> set (fold (CreateOrUpdate k) rs rows) = set rs \<union> {x \<in> set rows. k x \<notin> k ` set rs}"
  by (induction rs arbitrary: rows) (auto simp: CreateOrUpdate_set)

lemma parent_created:
  assumes "distinct (map pkId (ck_prs d))" "c \<in> set (cherry_picks d)"
  shows "cpParentPrId c \<noteq> []"
    "cpCreatedDate c = map_option pkCreatedDate (find (\<lambda>p. pkId p = cpParentPrId c) (ck_prs d))"
proof -
  from assms(2) obtain pr1 pr2 repo where c: "c = cherry_pick_of pr1 pr2 repo" "pkParentPrId pr1 \<noteq> []"
    "pr2 \<in> set (left_join (\<lambda>p. pkId p = pkParentPrId pr1) (ck_prs d))"
    by (auto simp: cherry_picks_def)
  then show "cpParentPrId c \<noteq> []" by (simp add: cherry_pick_of_def)
  have "pr2 = find (\<lambda>p. pkId p = pkParentPrId pr1) (ck_prs d)"
  proof (cases "find (\<lambda>p. pkId p = pkParentPrId pr1) (ck_prs d)")
    case None
    then have "filter (\<lambda>p. pkId p = pkParentPrId pr1) (ck_prs d) = []" by (auto simp: find_None_iff filter_empty_conv)
    with c(3) None show ?thesis by (simp add: left_join_def)
  next
    case (Some q)
    then have q: "q \<in> set (ck_prs d)" "pkId q = pkParentPrId pr1" by (auto simp: find_Some_iff)
    then have "filter (\<lambda>p. pkId p = pkParentPrId pr1) (ck_prs d) \<noteq> []" by (auto simp: filter_empty_conv)
    with c(3) obtain p where "pr2 = Some p" "p \<in> set (ck_prs d)" "pkId p = pkParentPrId pr1" by (auto simp: left_join_def)
    moreover from this q assms(1) have "p = q" by (auto simp: distinct_map inj_on_def)
    ultimately show ?thesis using Some by simp
  qed
  then show "cpCreatedDate c = map_option pkCreatedDate (find (\<lambda>p. pkId p = cpParentPrId c) (ck_prs d))"
    using c(1) by (simp add: cherry_pick_of_def)
qed

lemma cherry_picks_neighbours: "neighbours cpParentPrId (cherry_picks d)"
  using sorted_neighbours [of TextKey cpParentPrId "\<lambda>c. (cpCreatedDate c, TextKey (cpCherrypickBaseBranch c))" "cherry_picks d"]
  by (simp add: cherry_picks_def inj_def)

lemma list_picks_run:
  assumes "distinct (map pkId (ck_prs d))" "cn_faults s = []"
  defines "ps \<equiv> remdups (map cpParentPrId (cherry_picks d))" and "G \<equiv> group_of cpParentPrId (cherry_picks d)"
  shows "list_picks \<lparr>pv_pick = None, pv_lastParentPrId = [], pv_lastCreatedDate = None, pv_branches = [], pv_keys = []\<rparr> (cherry_picks d) s =
    (Inr (), store_picks (map (listed_pick \<circ> G) (butlast ps) @ map (pick_of \<circ> hd \<circ> G) (drop (length ps - 1) ps)) s)"
proof (cases ps)
  case Nil
  then have "cherry_picks d = []" by (simp add: ps_def)
  then show ?thesis by (simp add: Nil act_ret_def store_picks_def)
next
  case (Cons q qs)
  have parent: "\<forall>c \<in> set (G P). cpParentPrId c = P \<and> c \<in> set (cherry_picks d)" for P by (simp add: G_def group_of_def)
  have one: "one_parent (G P)" "cpParentPrId (hd (G P)) = P" if "P \<in> set ps" for P
  proof -
    from that have "G P \<noteq> []" by (auto simp: ps_def G_def group_of_def filter_empty_conv)
    with parent [of P] show "cpParentPrId (hd (G P)) = P" by simp
    with \<open>G P \<noteq> []\<close> parent [of P] parent_created(2) [OF assms(1)] show "one_parent (G P)"
      by (auto simp: one_parent_def same_parent_def)
  qed
  have all: "cherry_picks d = G q @ concat (map G qs)"
    using groups_concat [OF cherry_picks_neighbours, of d] Cons by (simp add: ps_def G_def)
  obtain c cs where c: "G q = c # cs" using one(1) [of q] Cons by (cases "G q") (auto simp: one_parent_def)
  have "c \<in> set (cherry_picks d)" using all c by simp
  then have "cpParentPrId c \<noteq> []" by (rule parent_created(1) [OF assms(1)])
  then have "list_picks \<lparr>pv_pick = None, pv_lastParentPrId = [], pv_lastCreatedDate = None, pv_branches = [], pv_keys = []\<rparr>
      (cherry_picks d) s = list_picks (vars_of [c]) (cs @ concat (map G qs)) s"
    using assms(2) by (simp add: all c act_bind_def act_simps vars_of_def)
  also have "\<dots> = list_picks (vars_of (G q)) (concat (map G qs)) s"
    using list_group [of s "[c]" cs] one(1) [of q] assms(2) Cons c by (simp add: one_parent_def)
  also have "\<dots> = (Inr (), store_picks (map listed_pick (butlast (G q # map G qs)) @ [pick_of (hd (last (G q # map G qs)))]) s)"
  proof (rule list_groups [OF assms(2)])
    have "map (cpParentPrId \<circ> hd) (G q # map G qs) = ps" using one(2) Cons by (simp cong: map_cong)
    then show "distinct (map (cpParentPrId \<circ> hd) (G q # map G qs))" by (simp add: ps_def)
  qed (use one(1) Cons in \<open>simp_all add: list_all_iff\<close>)
  also have "G q # map G qs = map G ps" by (simp add: Cons)
  also have "drop (length ps - 1) ps = [last ps]"
    using Cons by (metis append_butlast_last_id append_eq_conv_conj length_butlast list.distinct(1))
  ultimately show ?thesis using Cons by (simp add: map_butlast last_map)
qed

definition picked_parents :: "pick_tables \<Rightarrow> string list" where
  "picked_parents d = remdups (map cpParentPrId (cherry_picks d))"

definition picks_of :: "pick_tables \<Rightarrow> string \<Rightarrow> cherryPick list" where
  "picks_of d = group_of cpParentPrId (cherry_picks d)"

text \<open>C30. The cherry-picks of the pull requests: a run without failures links every pull request of the repository whose title names the number
  of one of its pull requests to that as its parent, and stores one row for each parent, over those of earlier runs, with the base
  branches and the numbers of its cherry-picks; but the row of the last parent is stored without them.\<close>

theorem last_parent_unlisted:
  fixes s :: "pick_tables conn"
  assumes "roProjectName op = []" and "\<And>i. ctx i = None" and "cn_faults s = []" and "distinct (map pkId (ck_prs (cn_data s)))"
    and "d = linked title_key (roRepoId op) (cn_data s) UNIV" and "ps = picked_parents d"
  shows "\<exists>s'. CalculatePrCherryPick ctx None title_key op s = (Inr (), s') \<and> ck_prs (cn_data s') = ck_prs d \<and>
    set (ck_picks (cn_data s')) = (listed_pick \<circ> picks_of d) ` set (butlast ps) \<union> (pick_of \<circ> hd \<circ> picks_of d) ` set (drop (length ps - 1) ps) \<union>
      {r \<in> set (ck_picks (cn_data s)). rpParentPrId r \<notin> set ps}"
proof -
  define G where "G = picks_of d"
  note d_def = assms(5)
  have ps_def: "ps = remdups (map cpParentPrId (cherry_picks d))" by (simp add: assms(6) picked_parents_def)
  have G_eq: "G = group_of cpParentPrId (cherry_picks d)" by (simp add: G_def picks_of_def)
  let ?rows = "repo_prs (roRepoId op) (cn_data s)"
  have "linked title_key (roRepoId op) (cn_data s) {} = cn_data s" by (simp add: linked_def)
  then obtain s1 where s1: "link_parents ctx title_key (roRepoId op) 0 ?rows s = (Inr (), s1)" "cn_faults s1 = []"
    "cn_data s1 = linked title_key (roRepoId op) (cn_data s) (set ?rows)"
    using link_parents_run [where d = "cn_data s" and ctx = ctx and repoId = "roRepoId op" and title_key = title_key and rows = ?rows
      and s = s and S = "{}" and i = 0] assms(2-4) by auto
  have "linked_parent title_key (roRepoId op) (cn_data s) p = None" if "p \<in> set (ck_prs (cn_data s))" "p \<notin> set ?rows" for p
    using that by (auto simp: linked_parent_def repo_prs_def filter_empty_conv)
  then have d: "cn_data s1 = d" unfolding s1(3) d_def by (auto simp: linked_def with_parent_def)
  have ids: "distinct (map pkId (ck_prs d))"
  proof -
    have "map pkId (ck_prs d) = map pkId (ck_prs (cn_data s))" by (simp add: d_def linked_def)
    with assms(4) show ?thesis by simp
  qed
  let ?rs = "map (listed_pick \<circ> G) (butlast ps) @ map (pick_of \<circ> hd \<circ> G) (drop (length ps - 1) ps)"
  have "CalculatePrCherryPick ctx None title_key op s = (Inr (), store_picks ?rs s1)"
    using assms(1,3) s1(1,2) list_picks_run [OF ids s1(2)]
    by (simp add: CalculatePrCherryPick_def act_bind_def act_simps d ps_def G_eq)
  moreover have "map rpParentPrId ?rs = ps"
  proof -
    have "cpParentPrId (hd (G P)) = P" if "P \<in> set ps" for P
    proof -
      from that have "G P \<noteq> []" by (auto simp: ps_def G_eq group_of_def filter_empty_conv)
      then have "hd (G P) \<in> set (G P)" by simp
      then show ?thesis by (simp add: G_eq group_of_def)
    qed
    then have "map rpParentPrId ?rs = butlast ps @ drop (length ps - 1) ps"
      by (simp add: listed_pick_def pick_of_def) (intro conjI map_idI, auto simp: listed_pick_def pick_of_def dest: in_set_butlastD in_set_dropD)
    then show ?thesis by (cases ps rule: rev_cases) simp_all
  qed
  then have "set (fold (CreateOrUpdate rpParentPrId) ?rs rows) = set ?rs \<union> {r \<in> set rows. rpParentPrId r \<notin> set ps}" for rows
    using fold_CreateOrUpdate_set [of rpParentPrId ?rs rows] by (metis distinct_remdups ps_def set_map)
  moreover have "ck_picks d = ck_picks (cn_data s)" by (simp add: d_def linked_def)
  ultimately show ?thesis
    by (intro exI [of _ "store_picks ?rs s1"]) (simp add: store_picks_def d Un_assoc G_def)
qed

definition picked_pr :: "string \<Rightarrow> string \<Rightarrow> int \<Rightarrow> pick_pr" where
  "picked_pr i title key = \<lparr>pkId = i, pkBaseRepoId = ''r'', pkTitle = title, pkParentPrId = [], pkPullRequestKey = key, pkCreatedDate = key,
     pkBaseRef = ''v1''\<rparr>"

definition picked_sample :: "pick_tables conn" where
  "picked_sample = \<lparr>cn_data = \<lparr>ck_prs = [picked_pr ''p1'' ''fix'' 1, picked_pr ''p2'' ''1'' 2],
     ck_repos = [\<lparr>pickRepoId = ''r'', pickRepoName = ''repo'', pickRepoUrl = ''u''\<rparr>], ck_picks = []\<rparr>, cn_faults = [], cn_progress = 0\<rparr>"

definition picked_options :: RefdiffOptions where
  "picked_options = \<lparr>roRepoId = ''r'', roPairs = [], roTagsPattern = [], roTagsLimit = 0, roTagsOrder = [], roAllPairs = [], roProjectName = []\<rparr>"

theorem last_parent_unlisted_witness:
  "\<exists>s'. CalculatePrCherryPick (\<lambda>_. None) None id picked_options picked_sample = (Inr (), s') \<and>
    (\<exists>r \<in> set (ck_picks (cn_data s')). rpParentPrId r = ''p1'' \<and> rpCherrypickPrKeys r = [])"
proof -
  let ?d = "linked id (roRepoId picked_options) (cn_data picked_sample) UNIV"
  have d: "?d = \<lparr>ck_prs = [picked_pr ''p1'' ''fix'' 1, picked_pr ''p2'' ''1'' 2\<lparr>pkParentPrId := ''p1''\<rparr>],
     ck_repos = [\<lparr>pickRepoId = ''r'', pickRepoName = ''repo'', pickRepoUrl = ''u''\<rparr>], ck_picks = []\<rparr>"
    by (simp add: linked_def linked_parent_def with_parent_def picked_sample_def picked_options_def picked_pr_def parent_pr_def Atoi_def
        is_digit_def)
  have picks: "cherry_picks ?d = [cherry_pick_of (picked_pr ''p2'' ''1'' 2\<lparr>pkParentPrId := ''p1''\<rparr>) (Some (picked_pr ''p1'' ''fix'' 1))
      (Some \<lparr>pickRepoId = ''r'', pickRepoName = ''repo'', pickRepoUrl = ''u''\<rparr>)]"
    unfolding d by (simp add: cherry_picks_def left_join_def picked_pr_def)
  have parents: "[''p1''] = picked_parents ?d"
    unfolding picked_parents_def picks by (simp add: cherry_pick_of_def)
  have start: "roProjectName picked_options = []" "cn_faults picked_sample = []" "distinct (map pkId (ck_prs (cn_data picked_sample)))"
    by (simp_all add: picked_options_def picked_sample_def picked_pr_def)
  obtain s' where s': "CalculatePrCherryPick (\<lambda>_. None) None id picked_options picked_sample = (Inr (), s')"
    "pick_of (hd (picks_of ?d ''p1'')) \<in> set (ck_picks (cn_data s'))"
    using last_parent_unlisted [OF start(1) _ start(2,3) refl parents, of "\<lambda>_. None"] by auto
  have "picks_of ?d ''p1'' = cherry_picks ?d" by (simp add: picks_of_def group_of_def picks cherry_pick_of_def)
  then have "rpParentPrId (pick_of (hd (picks_of ?d ''p1''))) = ''p1''" by (simp add: picks pick_of_def cherry_pick_of_def)
  with s' show ?thesis by (auto simp: pick_of_def intro!: bexI [of _ "pick_of (hd (picks_of ?d ''p1''))"])
qed

end
