(* ===== verification/ScopeService.thy ===== *)
theory ScopeService
  imports ApiInput Conn
begin

text \<open>
  The handlers that keep the connections, scopes and transformation rules of a data source: \<open>connection_helper.go\<close>,
  \<open>scope_helper.go\<close> and \<open>transformation_rule_helper.go\<close> of \<open>helpers/pluginhelper/api\<close>. They work on any structure by reflection; the
  record \<open>scope_type\<close> holds what reflection finds in it. The decoding of a request body is an argument: for a new record its result, for
  an existing one what it makes of that.
\<close>

section \<open>Tables\<close>

record 'c connection =
  co_id :: nat
  co_body :: 'c

text \<open>\<open>sc_rule\<close> is \<open>None\<close> for a structure without the field \<open>TransformationRuleId\<close>.\<close>

record 'x scope =
  sc_ConnectionId :: nat
  sc_rule :: "nat option"
  sc_created :: "int option"
  sc_updated :: "int option"
  sc_body :: 'x

record 'y tr_rule =
  tr_id :: nat
  tr_ConnectionId :: "nat option"
  tr_Name :: string
  tr_body :: 'y

record ('c, 'x, 'y) scope_db =
  sd_connections :: "'c connection list"
  sd_scopes :: "'x scope list"
  sd_rules :: "'y tr_rule list"

text \<open>The texts of the fields of the primary key before and after \<open>ConnectionId\<close>, the column that a path names, the validator,
  which dates the structure has, and the text that reflection finds as the name of an empty rule.\<close>

record 'x scope_type =
  keys_before :: "'x \<Rightarrow> string list"
  keys_after :: "'x \<Rightarrow> string list"
  scope_id :: "'x \<Rightarrow> string"
  validate_scope :: "'x scope \<Rightarrow> goerr option"
  has_created :: bool
  has_updated :: bool
  no_rule_name :: string

definition scope_key :: "'x scope_type \<Rightarrow> 'x scope \<Rightarrow> nat \<times> string list \<times> string list" where
  "scope_key T v = (sc_ConnectionId v, keys_before T (sc_body v), keys_after T (sc_body v))"

section \<open>The database\<close>

definition First :: "('d \<Rightarrow> 'a list) \<Rightarrow> ('d, 'a) act" where
  "First rows = act_bind (query rows) (\<lambda>xs. case xs of
     [] \<Rightarrow> act_fail (the (Convert (Some (External ErrRecordNotFound)))) | x # _ \<Rightarrow> act_ret x)"

section \<open>Connections\<close>

definition conn_FirstById :: "nat \<Rightarrow> (('c, 'x, 'y) scope_db, 'c connection) act" where
  "conn_FirstById i = First (\<lambda>d. filter (\<lambda>c. co_id c = i) (sd_connections d))"

definition conn_First :: "params \<Rightarrow> (('c, 'x, 'y) scope_db, 'c connection) act" where
  "conn_First ps =
     (if param ps ''connectionId'' = [] then act_fail (New BadInput ''missing connectionId'')
      else case ParseUint (param ps ''connectionId'') of
        Inl e \<Rightarrow> act_fail (New BadInput ''invalid connectionId'')
      | Inr i \<Rightarrow> if i < 1 then act_fail (New BadInput ''invalid connectionId'') else conn_FirstById i)"

definition conn_save :: "(goerr \<Rightarrow> bool) \<Rightarrow> (('c, 'x, 'y) scope_db \<Rightarrow> 'c connection \<times> ('c, 'x, 'y) scope_db)
    \<Rightarrow> (('c, 'x, 'y) scope_db, 'c connection) act" where
  "conn_save is_dup method =
     on_error (\<lambda>e. if is_dup e then New BadInput ''the connection name already exists'' else e) (stmt method)"

text \<open>A new row without an id gets the next one, and so does the record.\<close>

definition conn_Create :: "(goerr \<Rightarrow> bool) \<Rightarrow> goerr + 'c connection \<Rightarrow> (('c, 'x, 'y) scope_db, 'c connection) act" where
  "conn_Create is_dup merged =
     act_bind (of_sum merged) (\<lambda>c. conn_save is_dup (\<lambda>d.
       let c' = (if co_id c = 0 then c\<lparr>co_id := Suc (Max (insert 0 (co_id ` set (sd_connections d))))\<rparr> else c)
       in (c', d\<lparr>sd_connections := sd_connections d @ [c']\<rparr>)))"

definition conn_Patch :: "(goerr \<Rightarrow> bool) \<Rightarrow> ('c connection \<Rightarrow> goerr + 'c connection) \<Rightarrow> params
    \<Rightarrow> (('c, 'x, 'y) scope_db, 'c connection) act" where
  "conn_Patch is_dup merge ps =
     act_bind (conn_First ps) (\<lambda>c. act_bind (of_sum (merge c)) (\<lambda>c'.
       conn_save is_dup (\<lambda>d. (c', d\<lparr>sd_connections := CreateOrUpdate co_id c' (sd_connections d)\<rparr>))))"

definition conn_List :: "(('c, 'x, 'y) scope_db, 'c connection list) act" where
  "conn_List = query sd_connections"

definition conn_Delete :: "'c connection \<Rightarrow> (('c, 'x, 'y) scope_db, unit) act" where
  "conn_Delete c = exec (\<lambda>d. d\<lparr>sd_connections := filter (\<lambda>x. co_id x \<noteq> co_id c) (sd_connections d)\<rparr>)"

section \<open>Scopes\<close>

definition VerifyConnection :: "nat \<Rightarrow> (('c, 'x, 'y) scope_db, unit) act" where
  "VerifyConnection connId =
     act_bind (on_error (\<lambda>e. if IsSentinel e ErrRecordNotFound then New BadInput ''Invalid Connection Id'' else e) (conn_FirstById connId))
       (\<lambda>_. act_ret ())"

fun join_keys :: "string \<Rightarrow> string list \<Rightarrow> string" where
  "join_keys result [] = result"
| "join_keys result (v # vs) = join_keys (if result = [] then v else result @ ''-'' @ v) vs"

definition returnPrimaryKeyValue :: "'x scope_type \<Rightarrow> 'x scope \<Rightarrow> string" where
  "returnPrimaryKeyValue T v =
     join_keys [] (keys_before T (sc_body v) @ [show_nat (sc_ConnectionId v)] @ keys_after T (sc_body v))"

definition setScopeFields :: "'x scope_type \<Rightarrow> nat \<Rightarrow> int \<Rightarrow> 'x scope \<Rightarrow> 'x scope" where
  "setScopeFields T connectionId now v =
     v\<lparr>sc_ConnectionId := connectionId, sc_created := (if has_created T then Some now else sc_created v),
       sc_updated := (if has_updated T then Some now else sc_updated v)\<rparr>"

definition VerifyScope :: "'x scope_type \<Rightarrow> 'x scope \<Rightarrow> goerr option" where
  "VerifyScope T v = map_option (wrap Default ''error validating target'') (validate_scope T v)"

text \<open>The loop of \<open>Put\<close>: the key is taken before the connection is set.\<close>

fun prepare_scopes :: "'x scope_type \<Rightarrow> nat \<Rightarrow> int \<Rightarrow> string set \<Rightarrow> 'x scope list \<Rightarrow> goerr + 'x scope list" where
  "prepare_scopes T connectionId now keeper [] = Inr []"
| "prepare_scopes T connectionId now keeper (v # vs) =
     (if returnPrimaryKeyValue T v \<in> keeper then Inl (New BadInput ''duplicated item'')
      else case VerifyScope T (setScopeFields T connectionId now v) of
        Some e \<Rightarrow> Inl e
      | None \<Rightarrow>
          (case prepare_scopes T connectionId now (insert (returnPrimaryKeyValue T v) keeper) vs of
             Inl e \<Rightarrow> Inl e | Inr ws \<Rightarrow> Inr (setScopeFields T connectionId now v # ws)))"

definition scope_save :: "(goerr \<Rightarrow> bool) \<Rightarrow> 'x scope_type \<Rightarrow> 'x scope list \<Rightarrow> (('c, 'x, 'y) scope_db, unit) act" where
  "scope_save is_dup T vs =
     on_error (\<lambda>e. if is_dup e then New BadInput ''the scope already exists'' else e)
       (exec (\<lambda>d. d\<lparr>sd_scopes := fold (CreateOrUpdate (scope_key T)) vs (sd_scopes d)\<rparr>))"

definition rule_ids :: "'x scope list \<Rightarrow> nat list" where
  "rule_ids vs = filter (\<lambda>i. 0 < i) (map (the \<circ> sc_rule) (takeWhile (\<lambda>v. sc_rule v \<noteq> None) vs))"

definition addTransformationName :: "'x scope list \<Rightarrow> (('c, 'x, 'y) scope_db, ('x scope \<times> string) list) act" where
  "addTransformationName vs =
     act_bind (if rule_ids vs = [] then act_ret [] else query (\<lambda>d. filter (\<lambda>r. tr_id r \<in> set (rule_ids vs)) (sd_rules d))) (\<lambda>rules.
       let names = map_of (rev (map (\<lambda>r. (tr_id r, tr_Name r)) rules)) in
       act_ret (map (\<lambda>v. (v, case sc_rule v of None \<Rightarrow> [] | Some i \<Rightarrow> (case names i of None \<Rightarrow> [] | Some n \<Rightarrow> n))) vs))"

definition scope_Put :: "(goerr \<Rightarrow> bool) \<Rightarrow> 'x scope_type \<Rightarrow> int \<Rightarrow> goerr + 'x scope list \<Rightarrow> params
    \<Rightarrow> (('c, 'x, 'y) scope_db, ('x scope \<times> string) list) act" where
  "scope_Put is_dup T now decoded ps =
     act_bind (on_error (wrap BadInput ''decoding scope error'') (of_sum decoded)) (\<lambda>data.
       let connectionId = fst (extractFromReqParam ps) in
       if connectionId = 0 then act_fail (New BadInput ''invalid connectionId'')
       else act_bind (VerifyConnection connectionId) (\<lambda>_.
         act_bind (of_sum (prepare_scopes T connectionId now {} data)) (\<lambda>vs.
           act_bind (act_when (vs \<noteq> []) (scope_save is_dup T vs)) (\<lambda>_. addTransformationName vs))))"

datatype 'x scope_answer = PlainScope "'x scope" | NamedScope "'x scope" string

definition answer_scope :: "'x scope_type \<Rightarrow> 'x scope \<Rightarrow> (('c, 'x, 'y) scope_db, 'x scope_answer) act" where
  "answer_scope T v =
     (case sc_rule v of
        None \<Rightarrow> act_ret (PlainScope v)
      | Some i \<Rightarrow>
          if 0 < i
          then act_bind (on_error (\<lambda>_. New NotFound ''transformationRule not found'') (First (\<lambda>d. filter (\<lambda>r. tr_id r = i) (sd_rules d))))
            (\<lambda>r. act_ret (NamedScope v (tr_Name r)))
          else act_ret (NamedScope v (no_rule_name T)))"

definition scope_at :: "'x scope_type \<Rightarrow> nat \<Rightarrow> string \<Rightarrow> (('c, 'x, 'y) scope_db, 'x scope) act" where
  "scope_at T connectionId scopeId =
     First (\<lambda>d. filter (\<lambda>v. sc_ConnectionId v = connectionId \<and> scope_id T (sc_body v) = scopeId) (sd_scopes d))"

text \<open>\<open>db.Update\<close> saves the record under its key, as a new row if there is none.\<close>

definition scope_Update :: "'x scope_type \<Rightarrow> ('x scope \<Rightarrow> goerr + 'x scope) \<Rightarrow> params \<Rightarrow> (('c, 'x, 'y) scope_db, 'x scope_answer) act" where
  "scope_Update T patch ps =
     (case extractFromReqParam ps of (connectionId, scopeId) \<Rightarrow>
        if connectionId = 0 then act_fail (New BadInput ''invalid connectionId'')
        else if scopeId = [] \<or> scopeId = ''0'' then act_fail (New BadInput ''invalid scopeId'')
        else act_bind (VerifyConnection connectionId) (\<lambda>_.
          act_bind (on_error (\<lambda>_. New Default ''getting Scope error'') (scope_at T connectionId scopeId)) (\<lambda>old.
            act_bind (on_error (wrap Default ''patch scope error'') (of_sum (patch old))) (\<lambda>v.
              act_bind (on_error (wrap Default ''Invalid scope'') (of_check (VerifyScope T v))) (\<lambda>_.
                act_bind (on_error (wrap Default ''error on saving Scope'')
                    (exec (\<lambda>d. d\<lparr>sd_scopes := CreateOrUpdate (scope_key T) v (sd_scopes d)\<rparr>)))
                  (\<lambda>_. answer_scope T v))))))"

definition GetScopeList :: "url_values \<Rightarrow> params \<Rightarrow> (('c, 'x, 'y) scope_db, ('x scope \<times> string) list) act" where
  "GetScopeList q ps =
     (let connectionId = fst (extractFromReqParam ps) in
      if connectionId = 0 then act_fail (New BadInput ''invalid path params: \"connectionId\" not set'')
      else act_bind (VerifyConnection connectionId) (\<lambda>_.
        act_bind (query (\<lambda>d. sql_page (GetLimitOffset q ''pageSize'' ''page'') (filter (\<lambda>v. sc_ConnectionId v = connectionId) (sd_scopes d))))
          addTransformationName))"

definition GetScope :: "'x scope_type \<Rightarrow> params \<Rightarrow> (('c, 'x, 'y) scope_db, 'x scope_answer) act" where
  "GetScope T ps =
     (case extractFromReqParam ps of (connectionId, scopeId) \<Rightarrow>
        if connectionId = 0 then act_fail (New BadInput ''invalid path params: \"connectionId\" not set'')
        else if scopeId = [] \<or> scopeId = ''0'' then act_fail (New BadInput ''invalid path params: \"scopeId\" not set/invalid'')
        else act_bind (VerifyConnection connectionId) (\<lambda>_.
          act_bind (on_error (\<lambda>e. if IsSentinel e ErrRecordNotFound then New NotFound ''Scope not found'' else e)
              (scope_at T connectionId scopeId)) (answer_scope T)))"

section \<open>Transformation rules\<close>

text \<open>\<open>Wrap\<close> of a nil error is nil: the handler returns neither an error nor an output, \<open>None\<close>.\<close>

definition rule_connection :: "params \<Rightarrow> (goerr + nat) option" where
  "rule_connection ps =
     (case ParseUint (param ps ''connectionId'') of
        Inl e \<Rightarrow> Some (Inl (wrap Default ''the connection ID should be an non-zero integer'' e))
      | Inr i \<Rightarrow> if i = 0 then (case Wrap Default None ''the connection ID should be an non-zero integer'' None of
            None \<Rightarrow> None | Some e \<Rightarrow> Some (Inl e))
          else Some (Inr i))"

definition save_error :: "(goerr \<Rightarrow> bool) \<Rightarrow> goerr \<Rightarrow> goerr" where
  "save_error is_dup e =
     (if is_dup e then New BadInput ''there was a transformation rule with the same name, please choose another name''
      else wrap BadInput ''error on saving TransformationRule'' e)"

definition rule_Create :: "(goerr \<Rightarrow> bool) \<Rightarrow> ('y tr_rule \<Rightarrow> goerr option) \<Rightarrow> goerr + 'y tr_rule \<Rightarrow> params
    \<Rightarrow> (('c, 'x, 'y) scope_db, 'y tr_rule option) act" where
  "rule_Create is_dup validate decoded ps =
     (case rule_connection ps of
        None \<Rightarrow> act_ret None
      | Some (Inl e) \<Rightarrow> act_fail e
      | Some (Inr connectionId) \<Rightarrow>
          act_bind (on_error (wrap Default ''error in decoding transformation rule'') (of_sum decoded)) (\<lambda>r.
            act_bind (on_error (wrap Default ''error validating transformation rule'') (of_check (validate r))) (\<lambda>_.
              act_bind (on_error (save_error is_dup) (stmt (\<lambda>d.
                  let r' = r\<lparr>tr_id := (if tr_id r = 0 then Suc (Max (insert 0 (tr_id ` set (sd_rules d)))) else tr_id r),
                    tr_ConnectionId := map_option (\<lambda>_. connectionId) (tr_ConnectionId r)\<rparr>
                  in (r', d\<lparr>sd_rules := sd_rules d @ [r']\<rparr>)))) (act_ret \<circ> Some))))"

definition rule_id :: "params \<Rightarrow> goerr + nat" where
  "rule_id ps = (case ParseUint (param ps ''id'') of
     Inl e \<Rightarrow> Inl (wrap Default ''the transformation rule ID should be an integer'' e) | Inr i \<Rightarrow> Inr i)"

definition rule_at :: "nat \<Rightarrow> (('c, 'x, 'y) scope_db, 'y tr_rule) act" where
  "rule_at i = First (\<lambda>d. filter (\<lambda>r. tr_id r = i) (sd_rules d))"

definition rule_Update :: "(goerr \<Rightarrow> bool) \<Rightarrow> ('y tr_rule \<Rightarrow> goerr + 'y tr_rule) \<Rightarrow> params \<Rightarrow> (('c, 'x, 'y) scope_db, 'y tr_rule) act" where
  "rule_Update is_dup patch ps =
     act_bind (of_sum (rule_id ps)) (\<lambda>i.
       act_bind (on_error (wrap Default ''error on saving TransformationRule'') (rule_at i)) (\<lambda>old.
         act_bind (on_error (wrap Default ''error decoding map into transformationRule'') (of_sum (patch old))) (\<lambda>r.
           act_bind (on_error (save_error is_dup) (exec (\<lambda>d. d\<lparr>sd_rules := CreateOrUpdate tr_id r (sd_rules d)\<rparr>))) (\<lambda>_. act_ret r))))"

definition rule_Get :: "params \<Rightarrow> (('c, 'x, 'y) scope_db, 'y tr_rule) act" where
  "rule_Get ps = act_bind (of_sum (rule_id ps)) (\<lambda>i. on_error (wrap Default ''error on get TransformationRule'') (rule_at i))"

definition rule_List :: "url_values \<Rightarrow> params \<Rightarrow> (('c, 'x, 'y) scope_db, 'y tr_rule list option) act" where
  "rule_List q ps =
     (case rule_connection ps of
        None \<Rightarrow> act_ret None
      | Some (Inl e) \<Rightarrow> act_fail e
      | Some (Inr connectionId) \<Rightarrow>
          act_bind (on_error (wrap Default ''error on get TransformationRule list'')
              (query (\<lambda>d. sql_page (GetLimitOffset q ''pageSize'' ''page'')
                (filter (\<lambda>r. tr_ConnectionId r = Some connectionId) (sd_rules d))))) (act_ret \<circ> Some))"

end
