(* ===== verification/ScopeFacts.thy ===== *)
theory ScopeFacts
  imports ScopeService
begin

text \<open>
  What the handlers of scopes and transformation rules keep and store.
\<close>

section \<open>Validity\<close>

definition preserves :: "('d \<Rightarrow> bool) \<Rightarrow> ('d, 'a) act \<Rightarrow> bool" where
  "preserves I m \<longleftrightarrow> (\<forall>s. I (cn_data s) \<longrightarrow> I (cn_data (snd (m s))))"

named_theorems preserved \<open>actions that keep an invariant of the tables\<close>

lemma preserves_ret [preserved]: "preserves I (act_ret x)"
  by (simp add: preserves_def act_ret_def)

lemma preserves_fail [preserved]: "preserves I (act_fail e)"
  by (simp add: preserves_def act_fail_def)

lemma preserves_stmt: "(\<And>d. I d \<Longrightarrow> I (snd (f d))) \<Longrightarrow> preserves I (stmt f)"
  unfolding preserves_def stmt_def by (auto simp: Let_def split: prod.split option.split) (metis snd_conv)+

lemma preserves_query [preserved]: "preserves I (query f)"
  unfolding query_def by (rule preserves_stmt) simp

lemma preserves_exec: "(\<And>d. I d \<Longrightarrow> I (f d)) \<Longrightarrow> preserves I (exec f)"
  unfolding exec_def by (rule preserves_stmt) simp

lemma preserves_bind [preserved]: "preserves I m \<Longrightarrow> (\<And>x. preserves I (f x)) \<Longrightarrow> preserves I (act_bind m f)"
  unfolding preserves_def act_bind_def
  by (force split: prod.split sum.split)

lemma preserves_bind_sum: "(\<And>x. r = Inr x \<Longrightarrow> preserves I (f x)) \<Longrightarrow> preserves I (act_bind (of_sum r) f)"
  by (cases r) (simp_all add: preserves_def act_bind_def of_sum_def act_fail_def act_ret_def)

lemma preserves_on_error [preserved]: "preserves I m \<Longrightarrow> preserves I (on_error f m)"
  unfolding preserves_def on_error_def by (force split: prod.split sum.split)

lemma preserves_of_sum [preserved]: "preserves I (of_sum r)"
  by (cases r) (simp_all add: of_sum_def preserved)

lemma preserves_if [preserved]: "preserves I m \<Longrightarrow> preserves I m' \<Longrightarrow> preserves I (if b then m else m')"
  by simp

lemma preserves_First [preserved]: "preserves I (First f)"
  unfolding First_def by (intro preserved) (simp split: list.split add: preserved)

lemma preserves_VerifyConnection [preserved]: "preserves I (VerifyConnection i)"
  unfolding VerifyConnection_def conn_FirstById_def by (intro preserved)

lemma preserves_names [preserved]: "preserves I (addTransformationName vs)"
  unfolding addTransformationName_def Let_def by (intro preserved)

lemma preserves_answer [preserved]: "preserves I (answer_scope T v)"
  unfolding answer_scope_def by (cases "sc_rule v") (simp_all add: preserved)

definition valid_scopes :: "'x scope_type \<Rightarrow> ('c, 'x, 'y) scope_db \<Rightarrow> bool" where
  "valid_scopes T d \<longleftrightarrow> (\<forall>v \<in> set (sd_scopes d). validate_scope T v = None)"

lemma CreateOrUpdate_subset: "set (CreateOrUpdate k r rows) \<subseteq> insert r (set rows)"
  by (auto simp: CreateOrUpdate_def)

lemma fold_CreateOrUpdate_subset: "set (fold (CreateOrUpdate k) rs rows) \<subseteq> set rs \<union> set rows"
proof (induction rs arbitrary: rows)
  case (Cons r rs)
  then show ?case using Cons [of "CreateOrUpdate k r rows"] CreateOrUpdate_subset [of k r rows] by auto
qed simp

lemma prepared_valid: "prepare_scopes T c now keeper vs = Inr ws \<Longrightarrow> w \<in> set ws \<Longrightarrow> validate_scope T w = None"
  by (induction T c now keeper vs arbitrary: ws rule: prepare_scopes.induct)
    (auto simp: VerifyScope_def split: if_splits option.splits sum.splits)

lemma put_saves_valid:
  fixes I :: "('c, 'x, 'y) scope_db \<Rightarrow> bool"
  assumes I: "I = valid_scopes T"
  shows "preserves I (act_bind (of_sum (prepare_scopes T c now {} data)) (\<lambda>vs.
     act_bind (act_when (vs \<noteq> []) (scope_save is_dup T vs)) (\<lambda>_. addTransformationName vs)))"
proof (rule preserves_bind_sum)
  fix vs assume vs: "prepare_scopes T c now {} data = Inr vs"
  have "I (d\<lparr>sd_scopes := fold (CreateOrUpdate (scope_key T)) vs (sd_scopes d)\<rparr>)" if "I d" for d
    using that prepared_valid [OF vs] fold_CreateOrUpdate_subset [of "scope_key T" vs "sd_scopes d"]
    by (auto simp: I valid_scopes_def)
  then have "preserves I (scope_save is_dup T vs)"
    unfolding scope_save_def by (intro preserved preserves_exec)
  then show "preserves I (act_bind (act_when (vs \<noteq> []) (scope_save is_dup T vs)) (\<lambda>_. addTransformationName vs))"
    by (intro preserves_bind preserves_names) (cases "vs = []", simp_all add: act_when_def preserves_ret)
qed

text \<open>A data source whose scopes have a text as their key.\<close>

definition demo_type :: "string scope_type" where
  "demo_type = \<lparr>keys_before = \<lambda>_. [], keys_after = \<lambda>x. [x], scope_id = \<lambda>x. x, validate_scope = \<lambda>v. if sc_body v = [] then Some (External ''empty'') else None,
     has_created = True, has_updated = True, no_rule_name = []\<rparr>"

definition demo_scope :: "nat \<Rightarrow> string \<Rightarrow> string scope" where
  "demo_scope c x = \<lparr>sc_ConnectionId = c, sc_rule = Some 0, sc_created = None, sc_updated = None, sc_body = x\<rparr>"

definition demo_params :: params where
  "demo_params = [''connectionId'' \<mapsto> ''1'', ''scopeId'' \<mapsto> ''a'']"

definition demo_conn :: "(unit, string, unit) scope_db conn" where
  "demo_conn = \<lparr>cn_data = \<lparr>sd_connections = [\<lparr>co_id = 1, co_body = ()\<rparr>], sd_scopes = [demo_scope 1 ''a''], sd_rules = []\<rparr>,
     cn_faults = [], cn_progress = 0\<rparr>"

lemma demo_id: "fst (extractFromReqParam demo_params) = 1"
  by (simp add: extractFromReqParam_def ParseUint_def demo_params_def param_def is_digit_def)

lemmas demo = demo_type_def demo_scope_def demo_params_def demo_conn_def

text \<open>C23. The table of scopes is well formed: whatever statements fail, \<open>Put\<close> and \<open>Update\<close> leave only scopes in it that the validator of the
  data source accepts.\<close>

theorem scopes_stay_valid:
  assumes "valid_scopes T (cn_data s)"
  shows "valid_scopes T (cn_data (snd (scope_Put is_dup T now decoded ps s))) \<and>
    valid_scopes T (cn_data (snd (scope_Update T patch ps s)))"
proof -
  have "preserves (valid_scopes T) (scope_Put is_dup T now decoded ps)"
    unfolding scope_Put_def Let_def by (intro preserved put_saves_valid refl)
  moreover have "preserves (valid_scopes T) (scope_Update T patch ps)"
  proof -
    have check: "preserves (valid_scopes T) (act_bind (on_error g (of_check (VerifyScope T v))) (\<lambda>_.
        act_bind (on_error h (exec (\<lambda>d. d\<lparr>sd_scopes := CreateOrUpdate (scope_key T) v (sd_scopes d)\<rparr>))) (\<lambda>_. answer_scope T v)))" for g h v
    proof (cases "VerifyScope T v")
      case None
      then have "validate_scope T v = None" by (simp add: VerifyScope_def)
      then show ?thesis
        using CreateOrUpdate_subset by (intro preserved preserves_exec) (auto simp: of_check_def None preserved, fastforce simp: valid_scopes_def)
    next
      case (Some e)
      then show ?thesis by (simp add: of_check_def preserves_def act_bind_def on_error_def act_fail_def)
    qed
    show ?thesis
      unfolding scope_Update_def scope_at_def by (cases "extractFromReqParam ps") (auto intro!: preserved check)
  qed
  ultimately show ?thesis using assms by (auto simp: preserves_def)
qed

theorem scopes_stay_valid_witness: "valid_scopes demo_type (cn_data (snd (scope_Put (\<lambda>_. False) demo_type 9 (Inr [demo_scope 1 ''a'', demo_scope 2 ''b'']) demo_params demo_conn))) \<and>
    valid_scopes demo_type (cn_data (snd (scope_Update demo_type Inr demo_params demo_conn)))"
  by (rule scopes_stay_valid) (simp add: valid_scopes_def demo)

section \<open>What \<open>Put\<close> stores\<close>

lemma prepare_scopes_ok:
  assumes "distinct (map (returnPrimaryKeyValue T) vs)" "returnPrimaryKeyValue T ` set vs \<inter> keeper = {}"
    "\<forall>v \<in> set vs. validate_scope T (setScopeFields T c now v) = None"
  shows "prepare_scopes T c now keeper vs = Inr (map (setScopeFields T c now) vs)"
  using assms
proof (induction vs arbitrary: keeper)
  case (Cons v vs)
  have "prepare_scopes T c now (insert (returnPrimaryKeyValue T v) keeper) vs = Inr (map (setScopeFields T c now) vs)"
    using Cons.prems by (intro Cons.IH) auto
  then show ?case using Cons.prems by (simp add: VerifyScope_def)
qed simp

lemma find_row_replaced:
  "k r \<in> k ` set rows \<Longrightarrow> find (\<lambda>x. k x = k r) (map (\<lambda>x. if k x = k r then r else x) rows) = Some r"
  "i \<noteq> k r \<Longrightarrow> find (\<lambda>x. k x = i) (map (\<lambda>x. if k x = k r then r else x) rows) = find (\<lambda>x. k x = i) rows"
  by (induction rows) auto

lemma find_CreateOrUpdate:
  "find (\<lambda>x. k x = i) (CreateOrUpdate k r rows) = (if k r = i then Some r else find (\<lambda>x. k x = i) rows)"
proof (cases "k r \<in> k ` set rows")
  case True
  then show ?thesis using find_row_replaced(1) [OF True] find_row_replaced(2) [of i k r rows] by (cases "i = k r") (simp_all add: CreateOrUpdate_def)
next
  case False
  then have "find (\<lambda>x. k x = k r) rows = None" by (metis (mono_tags, lifting) find_None_iff image_eqI)
  then have "find (\<lambda>x. k x = i) (rows @ [r]) = (if k r = i then Some r else find (\<lambda>x. k x = i) rows)"
    by (induction rows) (auto split: if_splits)
  with False show ?thesis by (simp add: CreateOrUpdate_def)
qed

lemma find_snoc: "find P (xs @ [x]) = (case find P xs of None \<Rightarrow> (if P x then Some x else None) | Some y \<Rightarrow> Some y)"
  by (induction xs) auto

lemma find_fold_CreateOrUpdate:
  "find (\<lambda>x. k x = i) (fold (CreateOrUpdate k) rs rows) =
     (case find (\<lambda>x. k x = i) (rev rs) of Some r \<Rightarrow> Some r | None \<Rightarrow> find (\<lambda>x. k x = i) rows)"
  by (induction rs arbitrary: rows) (auto simp: find_CreateOrUpdate find_snoc split: option.splits)

definition stored_scope :: "'x scope_type \<Rightarrow> ('c, 'x, 'y) scope_db \<Rightarrow> nat \<times> string list \<times> string list \<Rightarrow> 'x scope option" where
  "stored_scope T d i = find (\<lambda>v. scope_key T v = i) (sd_scopes d)"

lemma stored_scope_saved:
  "stored_scope T (d\<lparr>sd_scopes := fold (CreateOrUpdate (scope_key T)) ws (sd_scopes d)\<rparr>) i =
     (case find (\<lambda>v. scope_key T v = i) (rev ws) of Some v \<Rightarrow> Some v | None \<Rightarrow> stored_scope T d i)"
  using find_fold_CreateOrUpdate [of "scope_key T" i ws] by (simp add: stored_scope_def split: option.split)

lemma First_calm:
  "cn_faults s = [] \<Longrightarrow> rows (cn_data s) \<noteq> [] \<Longrightarrow> First rows s = (Inr (hd (rows (cn_data s))), s)"
  by (cases "rows (cn_data s)") (simp_all add: First_def act_simps)

lemma VerifyConnection_calm:
  "cn_faults s = [] \<Longrightarrow> c \<in> co_id ` set (sd_connections (cn_data s)) \<Longrightarrow> VerifyConnection c s = (Inr (), s)"
  using First_calm [of s "\<lambda>d. filter (\<lambda>x. co_id x = c) (sd_connections d)"]
  by (force simp: VerifyConnection_def conn_FirstById_def on_error_def act_bind_def act_ret_def filter_empty_conv)

lemma addTransformationName_calm:
  "cn_faults s = [] \<Longrightarrow> \<exists>rs. addTransformationName vs s = (Inr rs, s) \<and> map fst rs = vs"
  unfolding addTransformationName_def Let_def
  by (cases "rule_ids vs = []") (simp_all add: act_simps comp_def)

lemma scope_Put_calm:
  assumes calm: "cn_faults s = []"
    and conn: "fst (extractFromReqParam ps) = c" "c \<noteq> 0" "c \<in> co_id ` set (sd_connections (cn_data s))"
    and vs: "distinct (map (returnPrimaryKeyValue T) vs)" "\<forall>v \<in> set vs. validate_scope T (setScopeFields T c now v) = None"
    and ws: "ws = map (setScopeFields T c now) vs"
  shows "\<exists>rs. scope_Put is_dup T now (Inr vs) ps s =
      (Inr rs, s\<lparr>cn_data := (cn_data s)\<lparr>sd_scopes := fold (CreateOrUpdate (scope_key T)) ws (sd_scopes (cn_data s))\<rparr>\<rparr>) \<and> map fst rs = ws"
proof -
  let ?s = "s\<lparr>cn_data := (cn_data s)\<lparr>sd_scopes := fold (CreateOrUpdate (scope_key T)) ws (sd_scopes (cn_data s))\<rparr>\<rparr>"
  obtain rs where rs: "addTransformationName ws ?s = (Inr rs, ?s)" "map fst rs = ws"
    using addTransformationName_calm [of ?s ws] calm by auto
  have save: "act_when (ws \<noteq> []) (scope_save is_dup T ws) s = (Inr (), ?s)"
    using calm by (cases "ws = []") (simp_all add: act_simps scope_save_def on_error_def)
  have "scope_Put is_dup T now (Inr vs) ps s = (Inr rs, ?s)"
    using conn calm rs(1) save prepare_scopes_ok [OF vs(1) _ vs(2), of "{}"]
    by (simp add: scope_Put_def Let_def act_bind_def on_error_def of_sum_def act_ret_def VerifyConnection_calm ws)
  with rs(2) show ?thesis by blast
qed

text \<open>A scope as it is stored for the connection \<open>c\<close> of the path: that connection, the times of the request where its type has them,
  and all else as in the request.\<close>

definition put_as :: "'x scope_type \<Rightarrow> nat \<Rightarrow> int \<Rightarrow> 'x scope \<Rightarrow> 'x scope \<Rightarrow> bool" where
  "put_as T c now v w \<longleftrightarrow> sc_ConnectionId w = c \<and> sc_body w = sc_body v \<and> sc_rule w = sc_rule v \<and>
     (if has_created T then sc_created w = Some now else sc_created w = sc_created v) \<and>
     (if has_updated T then sc_updated w = Some now else sc_updated w = sc_updated v)"

lemma put_as_iff: "put_as T c now v w \<longleftrightarrow> w = setScopeFields T c now v"
proof
  assume "put_as T c now v w"
  then show "w = setScopeFields T c now v"
    by (intro scope.equality) (auto simp: put_as_def setScopeFields_def split: if_splits)
qed (simp add: put_as_def setScopeFields_def)

text \<open>C22. Where no statement fails, \<open>Put\<close> of scopes with different keys for a connection that exists answers every scope and stores it under
  the connection of the path, with the times set and the rest as it was sent: afterwards a key holds the last scope of the request
  that has it, or what it held before, and connections and rules are untouched.\<close>

theorem put_stores_scopes:
  assumes "cn_faults s = []" "fst (extractFromReqParam ps) = c" "c \<noteq> 0" "c \<in> co_id ` set (sd_connections (cn_data s))"
    and "distinct (map (returnPrimaryKeyValue T) vs)" "\<forall>v \<in> set vs. \<forall>w. put_as T c now v w \<longrightarrow> validate_scope T w = None"
  shows "\<exists>rs s' ws. scope_Put is_dup T now (Inr vs) ps s = (Inr rs, s') \<and> map fst rs = ws \<and> list_all2 (put_as T c now) vs ws \<and>
    (\<forall>i. stored_scope T (cn_data s') i = (case find (\<lambda>w. scope_key T w = i) (rev ws) of
        Some w \<Rightarrow> Some w | None \<Rightarrow> stored_scope T (cn_data s) i)) \<and>
    sd_connections (cn_data s') = sd_connections (cn_data s) \<and> sd_rules (cn_data s') = sd_rules (cn_data s)"
proof -
  have "\<forall>v \<in> set vs. validate_scope T (setScopeFields T c now v) = None" using assms(6) put_as_iff by metis
  then obtain rs where "scope_Put is_dup T now (Inr vs) ps s = (Inr rs, s\<lparr>cn_data := (cn_data s)\<lparr>sd_scopes :=
      fold (CreateOrUpdate (scope_key T)) (map (setScopeFields T c now) vs) (sd_scopes (cn_data s))\<rparr>\<rparr>)"
    "map fst rs = map (setScopeFields T c now) vs"
    using scope_Put_calm [OF assms(1-5) _ refl, of now is_dup] by blast
  moreover have "list_all2 (put_as T c now) vs (map (setScopeFields T c now) vs)"
    by (simp add: list_all2_map2 list_all2_same put_as_iff)
  ultimately show ?thesis by (simp add: stored_scope_saved)
qed

theorem put_stores_scopes_witness:
  "\<exists>rs s' w. scope_Put (\<lambda>_. False) demo_type 9 (Inr [demo_scope 0 ''b'']) demo_params demo_conn = (Inr rs, s') \<and>
    map fst rs = [w] \<and> sc_ConnectionId w = 1 \<and> sc_body w = sc_body (demo_scope 0 ''b'') \<and>
    stored_scope demo_type (cn_data s') (1, [], [''b'']) = Some w"
proof -
  have conn: "cn_faults demo_conn = []" "1 \<in> co_id ` set (sd_connections (cn_data demo_conn))" by (simp_all add: demo)
  have valid: "\<forall>v \<in> set [demo_scope 0 ''b'']. \<forall>w. put_as demo_type 1 9 v w \<longrightarrow> validate_scope demo_type w = None"
    by (simp add: put_as_def demo)
  have keys: "distinct (map (returnPrimaryKeyValue demo_type) [demo_scope 0 ''b''])" by simp
  obtain rs s' ws where run: "scope_Put (\<lambda>_. False) demo_type 9 (Inr [demo_scope 0 ''b'']) demo_params demo_conn = (Inr rs, s')"
    and ws: "map fst rs = ws" "list_all2 (put_as demo_type 1 9) [demo_scope 0 ''b''] ws"
    and stored: "\<forall>i. stored_scope demo_type (cn_data s') i = (case find (\<lambda>w. scope_key demo_type w = i) (rev ws) of
        Some w \<Rightarrow> Some w | None \<Rightarrow> stored_scope demo_type (cn_data demo_conn) i)"
    using put_stores_scopes [where is_dup = "\<lambda>_. False", OF conn(1) demo_id one_neq_zero conn(2) keys valid]
    by blast
  from ws(2) obtain w where w: "ws = [w]" "put_as demo_type 1 9 (demo_scope 0 ''b'') w" by (auto simp: list_all2_Cons1)
  from w(2) have "scope_key demo_type w = (1, [], [''b''])" by (simp add: put_as_def scope_key_def demo)
  with run ws(1) w stored show ?thesis
    by (intro exI [of _ rs] exI [of _ s'] exI [of _ w]) (simp add: put_as_def)
qed

text \<open>The check for duplicates of \<open>Put\<close> takes a key before the connection of the path is set (\<open>scope_helper.go\<close>, line 106): two scopes that
  differ in nothing of their key but the connection the body gives pass it, both are answered, and only the second is stored.\<close>

theorem put_loses_duplicate:
  assumes "cn_faults s = []" "fst (extractFromReqParam ps) = c" "c \<noteq> 0" "c \<in> co_id ` set (sd_connections (cn_data s))"
    and "returnPrimaryKeyValue T a \<noteq> returnPrimaryKeyValue T b" "snd (scope_key T a) = snd (scope_key T b)"
    and "validate_scope T (setScopeFields T c now a) = None" "validate_scope T (setScopeFields T c now b) = None"
  shows "\<exists>rs s'. scope_Put is_dup T now (Inr [a, b]) ps s = (Inr rs, s') \<and>
    map fst rs = [setScopeFields T c now a, setScopeFields T c now b] \<and>
    stored_scope T (cn_data s') (c, snd (scope_key T a)) = Some (setScopeFields T c now b)"
proof -
  have "scope_key T (setScopeFields T c now v) = (c, snd (scope_key T v))" for v
    by (simp add: scope_key_def setScopeFields_def)
  then show ?thesis
    using scope_Put_calm [of s ps c T "[a, b]" now, OF assms(1-4) _ _ refl, of is_dup] assms(5-8)
    by (auto simp: stored_scope_def find_CreateOrUpdate)
qed

theorem put_loses_duplicate_witness:
  "\<exists>rs s'. scope_Put (\<lambda>_. False) demo_type 9 (Inr [demo_scope 1 ''b'', (demo_scope 2 ''b'')\<lparr>sc_rule := Some 7\<rparr>]) demo_params demo_conn = (Inr rs, s') \<and>
    map (sc_rule \<circ> fst) rs = [Some 0, Some 7] \<and> map_option sc_rule (stored_scope demo_type (cn_data s') (1, [], [''b''])) = Some (Some 7)"
proof -
  have conn: "cn_faults demo_conn = []" "1 \<in> co_id ` set (sd_connections (cn_data demo_conn))" by (simp_all add: demo)
  have keys: "returnPrimaryKeyValue demo_type (demo_scope 1 ''b'') \<noteq> returnPrimaryKeyValue demo_type ((demo_scope 2 ''b'')\<lparr>sc_rule := Some 7\<rparr>)"
    by (simp add: demo returnPrimaryKeyValue_def show_nat.simps digit_char_def)
  show ?thesis
    using put_loses_duplicate [of demo_conn demo_params 1 demo_type "demo_scope 1 ''b''" "(demo_scope 2 ''b'')\<lparr>sc_rule := Some 7\<rparr>" 9 "\<lambda>_. False",
        OF conn(1) demo_id _ conn(2) keys]
    by (auto simp: demo setScopeFields_def scope_key_def)
qed

section \<open>A connection id of 0\<close>

text \<open>\<open>Create\<close> and \<open>List\<close> of transformation rules wrap the nil error of a successful parse, which is nil: for the connection id 0 they return
  neither an error nor an output (\<open>transformation_rule_helper.go\<close>, lines 58 and 123).\<close>

theorem rules_of_connection_0:
  assumes "ParseUint (param ps ''connectionId'') = Inr 0"
  shows "rule_Create is_dup validate decoded ps s = (Inr None, s) \<and> rule_List q ps s = (Inr None, s)"
  using assms by (simp add: rule_Create_def rule_List_def rule_connection_def Wrap_def act_ret_def)

end
