(* ===== verification/KubeDeployment.thy ===== *)
theory KubeDeployment
  imports Divider ScopeService DoraPlan
begin

text \<open>
  The plugin \<open>kube_deployment\<close>: the connections to clusters with their credentials (\<open>api/connection.go\<close>,
  \<open>helper/kubernetes.go\<close>), the plans (\<open>api/blueprint.go\<close>, \<open>api/blueprint_v200.go\<close>), and the two subtasks that collect the
  revisions of a deployment and extract them (\<open>tasks\<close>). The clients of Azure and Kubernetes, the decoding of structures and the texts of
  JSON are arguments.
\<close>

section \<open>Ids of the domain layer\<close>

text \<open>The generator for an entity: its prefix and the types of its primary key. \<open>Generate\<close> panics on a value of another type and on one
  value too many.\<close>

datatype pk_value = PkUint nat | PkText string | PkWildcard

record DomainIdGenerator =
  dg_prefix :: string
  dg_pk :: "string list"

fun pk_type :: "pk_value \<Rightarrow> string" where
  "pk_type (PkUint n) = ''uint64''"
| "pk_type (PkText s) = ''string''"
| "pk_type PkWildcard = ''WildCard''"

fun pk_text :: "pk_value \<Rightarrow> string" where
  "pk_text (PkUint n) = show_nat n"
| "pk_text (PkText s) = s"
| "pk_text PkWildcard = ''%''"

fun generate_from :: "string list \<Rightarrow> string \<Rightarrow> pk_value list \<Rightarrow> string outcome" where
  "generate_from pk i [] = Fine i"
| "generate_from pk i (v # vs) =
     (if v = PkWildcard then Fine (i @ '':'' @ pk_text v)
      else case pk of
        [] \<Rightarrow> outcome.Panic
      | t # ts \<Rightarrow> if pk_type v = t then generate_from ts (i @ '':'' @ pk_text v) vs else outcome.Panic)"

definition Generate :: "DomainIdGenerator \<Rightarrow> pk_value list \<Rightarrow> string outcome" where
  "Generate g vs = generate_from (dg_pk g) (dg_prefix g) vs"

definition NewDomainIdGenerator :: "(goerr + string) \<Rightarrow> string \<Rightarrow> string list \<Rightarrow> DomainIdGenerator outcome" where
  "NewDomainIdGenerator pluginName structName pk =
     (case pluginName of
        Inl e \<Rightarrow> outcome.Panic
      | Inr p \<Rightarrow> if pk = [] then outcome.Panic else Fine \<lparr>dg_prefix = p @ '':'' @ structName, dg_pk = pk\<rparr>)"

text \<open>The id of a deployment, whose primary key is a connection and an id.\<close>

definition deployment_id :: "nat \<Rightarrow> string \<Rightarrow> string outcome" where
  "deployment_id connectionId name =
     bind_outcome (NewDomainIdGenerator (Inr ''kube_deployment'') ''KubeDeployment'' [''uint64'', ''string''])
       (\<lambda>g. Generate g [PkUint connectionId, PkText name])"

section \<open>Clients\<close>

datatype cred_value = CredText string | CredOther

type_synonym credentials = "string \<rightharpoonup> cred_value"

text \<open>A type assertion of a member: it panics unless the member is a text.\<close>

definition cred_text :: "credentials \<Rightarrow> string \<Rightarrow> string outcome" where
  "cred_text creds k = (case creds k of Some (CredText s) \<Rightarrow> Fine s | _ \<Rightarrow> outcome.Panic)"

text \<open>The libraries: \<open>None\<close> is an error, but a nil pointer in what \<open>admin_credentials\<close> returns.\<close>

record ('auth, 'conf, 'rest, 'k) kube_sdk =
  authorizer :: "string \<Rightarrow> string \<Rightarrow> string \<Rightarrow> 'auth option"
  admin_credentials :: "'auth \<Rightarrow> string \<Rightarrow> string \<Rightarrow> string \<Rightarrow> string option list option option"
  config_from_bytes :: "string \<Rightarrow> 'conf option"
  client_config :: "'conf \<Rightarrow> 'rest option"
  config_from_file :: "string \<Rightarrow> 'rest option"
  new_for_config :: "'rest \<Rightarrow> 'k option"

definition or_fail :: "err_type \<Rightarrow> string \<Rightarrow> 'a option \<Rightarrow> 'a outcome" where
  "or_fail t msg r = (case r of None \<Rightarrow> Fault (New t msg) | Some x \<Rightarrow> Fine x)"

definition or_panic :: "'a option \<Rightarrow> 'a outcome" where
  "or_panic r = (case r of None \<Rightarrow> outcome.Panic | Some x \<Rightarrow> Fine x)"

definition createAzureClientConfig :: "('auth, 'conf, 'rest, 'k) kube_sdk \<Rightarrow> credentials \<Rightarrow> 'k outcome" where
  "createAzureClientConfig sdk creds =
     bind_outcome (cred_text creds ''clientID'') (\<lambda>clientID.
     bind_outcome (cred_text creds ''clientSecret'') (\<lambda>clientSecret.
     bind_outcome (cred_text creds ''tenantID'') (\<lambda>tenantID.
     bind_outcome (cred_text creds ''subscriptionID'') (\<lambda>subscriptionID.
     bind_outcome (cred_text creds ''clusterName'') (\<lambda>clusterName.
     bind_outcome (cred_text creds ''resourceGroupName'') (\<lambda>resourceGroupName.
     bind_outcome (or_panic (authorizer sdk clientID clientSecret tenantID)) (\<lambda>auth.
     bind_outcome (or_fail Default ''Unable to establish connection to Azure Kubernetes Cluster''
         (admin_credentials sdk auth subscriptionID resourceGroupName clusterName)) (\<lambda>found.
     bind_outcome (or_panic found) (\<lambda>kubeConfigs.
     if kubeConfigs = [] then Fault (New Default ''Empty kube config'')
     else bind_outcome (or_panic (hd kubeConfigs)) (\<lambda>kubeConfigAZ.
     bind_outcome (or_fail BadInput ''Unable to establish connection to create client config'' (config_from_bytes sdk kubeConfigAZ)) (\<lambda>conf.
     bind_outcome (or_fail BadInput ''Unable to establish connection to create client config'' (client_config sdk conf)) (\<lambda>config.
     or_panic (new_for_config sdk config)))))))))))))"

definition createClientConfig :: "('auth, 'conf, 'rest, 'k) kube_sdk \<Rightarrow> 'k outcome" where
  "createClientConfig sdk =
     bind_outcome (or_fail Default ''Unable to establish connection to local Kubernetes Cluster'' (config_from_file sdk ''~/.kube/config''))
       (\<lambda>config. or_fail Default ''Unable to establish connection to create client config'' (new_for_config sdk config))"

text \<open>The client set is a nil pointer, \<open>None\<close>, for a provider that is neither \<open>azure\<close> nor \<open>local\<close>.\<close>

definition NewKubeApiClient :: "('auth, 'conf, 'rest, 'k) kube_sdk \<Rightarrow> credentials \<Rightarrow> 'k option outcome" where
  "NewKubeApiClient sdk creds =
     (case creds ''providerType'' of
        Some (CredText providerType) \<Rightarrow>
          if providerType = [] then Fault (New BadInput ''providerType is not defined'')
          else if providerType = ''azure'' then bind_outcome (createAzureClientConfig sdk creds) (Fine \<circ> Some)
          else if providerType = ''local'' then bind_outcome (createClientConfig sdk) (Fine \<circ> Some)
          else Fine None
      | _ \<Rightarrow> Fault (New BadInput ''providerType is not defined''))"

section \<open>Connections\<close>

text \<open>The column \<open>credentials\<close> holds an object as its JSON text, which is empty in a new structure.\<close>

record 'r kube_conn =
  kcCredentials :: "credentials json"
  kcRest :: 'r

type_synonym ('r, 'x, 'y) kube_db = "('r kube_conn, 'x, 'y) scope_db"

definition zero_connection :: "'r \<Rightarrow> 'r kube_conn connection" where
  "zero_connection r = \<lparr>co_id = 0, co_body = \<lparr>kcCredentials = JsonNil, kcRest = r\<rparr>\<rparr>"

text \<open>What the type assertion finds in the member \<open>credentials\<close> of a body.\<close>

datatype body_credentials = NoObject | CredentialsObject credentials

datatype 'r kube_body = TestBody bool string | ConnectionBody "'r kube_conn connection" credentials
  | PlainConnection "'r kube_conn connection" | ConnectionsBody "('r kube_conn connection \<times> credentials) list" | NamesBody "string list"

record 'r api_output =
  out_body :: "'r kube_body"
  out_status :: nat

type_synonym ('d, 'a) handler = "'d conn \<Rightarrow> 'a outcome \<times> 'd conn"

definition handle :: "('d, 'a) act \<Rightarrow> ('d, 'a) handler" where
  "handle m s = (case m s of (Inl e, s') \<Rightarrow> (Fault e, s') | (Inr x, s') \<Rightarrow> (Fine x, s'))"

definition bind_handler :: "('d, 'a) handler \<Rightarrow> ('a \<Rightarrow> ('d, 'b) handler) \<Rightarrow> ('d, 'b) handler" where
  "bind_handler m f s = (case m s of
     (Fine x, s') \<Rightarrow> f x s' | (Fault e, s') \<Rightarrow> (Fault e, s') | (outcome.Panic, s') \<Rightarrow> (outcome.Panic, s'))"

definition give :: "'a outcome \<Rightarrow> ('d, 'a) handler" where
  "give r s = (r, s)"

text \<open>An error that is kept in a variable.\<close>

definition error_of :: "('d, 'a) act \<Rightarrow> ('d, goerr option) handler" where
  "error_of m s = (case m s of (Inl e, s') \<Rightarrow> (Fine (Some e), s') | (Inr _, s') \<Rightarrow> (Fine None, s'))"

text \<open>\<open>json.Unmarshal\<close> of the column.\<close>

definition credentials_of :: "'r kube_conn connection \<Rightarrow> credentials outcome" where
  "credentials_of c = (case kcCredentials (co_body c) of
     JsonVal creds \<Rightarrow> Fine creds | _ \<Rightarrow> Fault (New BadInput ''credentials is not a valid json''))"

definition not_connected :: "'r api_output" where
  "not_connected = \<lparr>out_body = TestBody False ''Unable to establish connection to Kubernetes cluster'', out_status = 400\<rparr>"

definition TestConnection :: "('auth, 'conf, 'rest, 'k) kube_sdk \<Rightarrow> body_credentials \<Rightarrow> 'r api_output outcome" where
  "TestConnection sdk body =
     (case body of
        NoObject \<Rightarrow> Fine \<lparr>out_body = TestBody True ''success'', out_status = 200\<rparr>
      | CredentialsObject creds \<Rightarrow>
          (case NewKubeApiClient sdk creds of
             Fine _ \<Rightarrow> Fine \<lparr>out_body = TestBody True ''success'', out_status = 200\<rparr>
           | Fault e \<Rightarrow> Fine not_connected
           | outcome.Panic \<Rightarrow> outcome.Panic))"

text \<open>\<open>merge rest creds c\<close> decodes the other members of a body and the text of \<open>creds\<close> into the connection \<open>c\<close>.\<close>

type_synonym ('b, 'r) merge = "'b \<Rightarrow> credentials json \<Rightarrow> 'r kube_conn connection \<Rightarrow> goerr + 'r kube_conn connection"

definition PostConnections :: "(goerr \<Rightarrow> bool) \<Rightarrow> ('b, 'r) merge \<Rightarrow> 'r \<Rightarrow> body_credentials \<Rightarrow> 'b
    \<Rightarrow> (('r, 'x, 'y) kube_db, 'r api_output) handler" where
  "PostConnections is_dup merge r body rest =
     (case body of
        NoObject \<Rightarrow> give outcome.Panic
      | CredentialsObject creds \<Rightarrow>
          bind_handler (handle (conn_Create is_dup (merge rest (JsonVal creds) (zero_connection r)))) (\<lambda>c.
            give (Fine \<lparr>out_body = ConnectionBody c creds, out_status = 200\<rparr>)))"

definition PatchConnection :: "(goerr \<Rightarrow> bool) \<Rightarrow> ('b, 'r) merge \<Rightarrow> body_credentials \<Rightarrow> 'b \<Rightarrow> params
    \<Rightarrow> (('r, 'x, 'y) kube_db, 'r api_output) handler" where
  "PatchConnection is_dup merge body rest ps =
     (case body of
        NoObject \<Rightarrow> give outcome.Panic
      | CredentialsObject input \<Rightarrow>
          bind_handler (handle (conn_Patch is_dup (merge rest (JsonVal input)) ps)) (\<lambda>c.
          bind_handler (give (credentials_of c)) (\<lambda>creds.
            give (Fine \<lparr>out_body = ConnectionBody c creds, out_status = 0\<rparr>))))"

definition DeleteConnection :: "params \<Rightarrow> (('r, 'x, 'y) kube_db, 'r api_output) handler" where
  "DeleteConnection ps =
     bind_handler (handle (conn_First ps)) (\<lambda>c.
     bind_handler (handle (conn_Delete c)) (\<lambda>_. give (Fine \<lparr>out_body = PlainConnection c, out_status = 0\<rparr>)))"

definition ListConnections :: "(('r, 'x, 'y) kube_db, 'r api_output) handler" where
  "ListConnections =
     bind_handler (handle conn_List) (\<lambda>cs.
       give (Fine \<lparr>out_body = ConnectionsBody (map (\<lambda>c. (c, case credentials_of c of Fine creds \<Rightarrow> creds | _ \<Rightarrow> Map.empty)) cs),
         out_status = 200\<rparr>))"

text \<open>The error of \<open>First\<close> is looked at last; after it the structure is still the zero value.\<close>

definition GetConnection :: "'r \<Rightarrow> params \<Rightarrow> (('r, 'x, 'y) kube_db, 'r api_output) handler" where
  "GetConnection r ps s =
     (case conn_First ps s of (found, s') \<Rightarrow>
        let c = (case found of Inl e \<Rightarrow> zero_connection r | Inr c \<Rightarrow> c) in
        (case credentials_of c of
           Fine creds \<Rightarrow> (case found of Inl e \<Rightarrow> Fault e | Inr _ \<Rightarrow> Fine \<lparr>out_body = ConnectionBody c creds, out_status = 0\<rparr>)
         | Fault e \<Rightarrow> Fault e | outcome.Panic \<Rightarrow> outcome.Panic, s'))"

text \<open>\<open>GetNameSpaces\<close> and \<open>GetDeployments\<close>: the error of listing is dropped. A call on a nil client set panics, and so does a nil list.\<close>

definition list_names :: "('auth, 'conf, 'rest, 'k) kube_sdk \<Rightarrow> ('k \<Rightarrow> string list option) \<Rightarrow> params
    \<Rightarrow> (('r, 'x, 'y) kube_db, 'r api_output) handler" where
  "list_names sdk items ps =
     bind_handler (handle (on_error (wrap Default ''unable to get KubeDeployment API client instance'') (conn_First ps))) (\<lambda>c.
     bind_handler (give (credentials_of c)) (\<lambda>creds.
       case NewKubeApiClient sdk creds of
         outcome.Panic \<Rightarrow> give outcome.Panic
       | Fault e \<Rightarrow> give (Fine not_connected)
       | Fine client \<Rightarrow>
           bind_handler (give (bind_outcome (or_panic client) (or_panic \<circ> items))) (\<lambda>names.
             give (Fine \<lparr>out_body = NamesBody names, out_status = 200\<rparr>))))"

definition GetNameSpaces :: "('auth, 'conf, 'rest, 'k) kube_sdk \<Rightarrow> ('k \<Rightarrow> string list option) \<Rightarrow> params
    \<Rightarrow> (('r, 'x, 'y) kube_db, 'r api_output) handler" where
  "GetNameSpaces sdk namespaces ps = list_names sdk namespaces ps"

definition GetDeployments :: "('auth, 'conf, 'rest, 'k) kube_sdk \<Rightarrow> (string \<Rightarrow> 'k \<Rightarrow> string list option) \<Rightarrow> params
    \<Rightarrow> (('r, 'x, 'y) kube_db, 'r api_output) handler" where
  "GetDeployments sdk deployments ps =
     list_names sdk (deployments (param ps ''namespace'')) [''connectionId'' \<mapsto> param ps ''connectionId'']"

section \<open>Plans\<close>

definition DOMAIN_TYPES :: "string list" where
  "DOMAIN_TYPES = [''CODE'', ''TICKET'', ''CODEREVIEW'', ''CROSS'', ''CICD'', ''CODEQUALITY'']"

record plan_meta =
  pmName :: string
  pmEnabledByDefault :: bool
  pmDomainTypes :: "string list"

definition MakePipelinePlanSubtasks :: "plan_meta list \<Rightarrow> string list \<Rightarrow> goerr + string list" where
  "MakePipelinePlanSubtasks metas entities =
     (case find (\<lambda>e. e \<notin> set DOMAIN_TYPES) entities of
        Some e \<Rightarrow> Inl (New Default (''invalid entity(domain type): '' @ e))
      | None \<Rightarrow> Inr (map pmName (filter (\<lambda>m. pmEnabledByDefault m \<and> list_ex (\<lambda>t. t \<in> set entities) (pmDomainTypes m)) metas)))"

text \<open>The subtasks of the plugin, for the plans and for the runner.\<close>

definition kube_metas :: "plan_meta list" where
  "kube_metas = [\<lparr>pmName = ''collectKubeDeploymentRevisions'', pmEnabledByDefault = True, pmDomainTypes = []\<rparr>,
     \<lparr>pmName = ''extractKubeDeploymentRevisions'', pmEnabledByDefault = True, pmDomainTypes = []\<rparr>]"

definition kube_SubTaskMetas :: "(string \<Rightarrow> 'd \<Rightarrow> unit svc) \<Rightarrow> 'd SubTaskMeta list" where
  "kube_SubTaskMetas entry = map (\<lambda>m. sub_task entry (pmName m) (pmEnabledByDefault m)) kube_metas"

record KubeDeploymentOptions =
  koConnectionId :: nat
  koTasks :: "string list"
  koCreatedDateAfter :: string
  koNamespace :: string
  koDeploymentName :: string

definition api_Decode :: "goerr + 'a \<Rightarrow> ('a \<Rightarrow> goerr option) option \<Rightarrow> goerr + 'a" where
  "api_Decode decoded vld =
     (case decoded of
        Inl e \<Rightarrow> Inl (wrap Default ''error decoding map into target type'' e)
      | Inr x \<Rightarrow> (case vld of None \<Rightarrow> Inr x | Some check \<Rightarrow>
          (case check x of Some e \<Rightarrow> Inl (wrap Default ''error validating target'' e) | None \<Rightarrow> Inr x)))"

definition DecodeAndValidateTaskOptions :: "(options \<Rightarrow> goerr + KubeDeploymentOptions) \<Rightarrow> options \<Rightarrow> goerr + KubeDeploymentOptions" where
  "DecodeAndValidateTaskOptions decode opts =
     (case api_Decode (decode opts) None of
        Inl e \<Rightarrow> Inl e
      | Inr op \<Rightarrow> if koConnectionId op = 0 then Inl (New Default ''connectionId is invalid'') else Inr op)"

text \<open>Protocol 1.0.0: a scope gives its options and its entities.\<close>

fun MakePipelinePlan_kube :: "(options \<Rightarrow> goerr + KubeDeploymentOptions) \<Rightarrow> nat \<Rightarrow> (options json \<times> string list) list
    \<Rightarrow> goerr + PipelinePlan" where
  "MakePipelinePlan_kube decode connectionId [] = Inr []"
| "MakePipelinePlan_kube decode connectionId ((opts, entities) # scopes) =
     (case json_decode opts of
        Inl e \<Rightarrow> Inl (wrap Default ''error unmarshalling task options'' e)
      | Inr al \<Rightarrow>
          let taskOptions = AList.update ''connectionId'' (show_nat connectionId) al in
          (case DecodeAndValidateTaskOptions decode taskOptions of
             Inl e \<Rightarrow> Inl e
           | Inr _ \<Rightarrow>
               (case MakePipelinePlanSubtasks kube_metas entities of
                  Inl e \<Rightarrow> Inl e
                | Inr subtasks \<Rightarrow>
                    (case MakePipelinePlan_kube decode connectionId scopes of
                       Inl e \<Rightarrow> Inl e
                     | Inr plan \<Rightarrow> Inr ([\<lparr>ptPlugin = ''kube_deployment'', ptSubtasks = subtasks, ptOptions = taskOptions\<rparr>] # plan)))))"

text \<open>Protocol 2.0.0: the deployments are the scopes that the handlers of \<open>ScopeService\<close> keep.\<close>

record KubeDeployment =
  kdId :: string
  kdName :: string

definition kube_scope_type :: "KubeDeployment scope_type" where
  "kube_scope_type = \<lparr>keys_before = \<lambda>_. [], keys_after = \<lambda>k. [kdId k], scope_id = kdId, validate_scope = \<lambda>_. None,
     has_created = True, has_updated = True, no_rule_name = ''<invalid Value>''\<rparr>"

type_synonym ('c, 'y, 'a) kube_act = "(('c, KubeDeployment, 'y) scope_db, 'a) act"

definition find_deployment :: "string \<Rightarrow> nat \<Rightarrow> string \<Rightarrow> ('c, 'y, KubeDeployment scope) kube_act" where
  "find_deployment msg connectionId i = on_error (wrap Default (msg @ i)) (scope_at kube_scope_type connectionId i)"

fun kube_plan_v200 :: "(KubeDeploymentOptions \<Rightarrow> goerr + options) \<Rightarrow> nat \<Rightarrow> BlueprintScope list \<Rightarrow> ('c, 'y, PipelinePlan) kube_act" where
  "kube_plan_v200 encode connectionId [] = act_ret []"
| "kube_plan_v200 encode connectionId (bpScope # bpScopes) =
     act_bind (find_deployment ''fail to find kube deployment details '' connectionId (bsId bpScope)) (\<lambda>v.
     act_bind (of_sum (api_Decode (encode \<lparr>koConnectionId = connectionId, koTasks = [], koCreatedDateAfter = [],
         koNamespace = ''default'', koDeploymentName = kdName (sc_body v)\<rparr>) None)) (\<lambda>opts.
     act_bind (of_sum (MakePipelinePlanSubtasks kube_metas (bsEntities bpScope))) (\<lambda>subtasks.
     act_bind (kube_plan_v200 encode connectionId bpScopes) (\<lambda>plan.
       act_ret ([\<lparr>ptPlugin = ''kube_deployment'', ptSubtasks = subtasks, ptOptions = opts\<rparr>] # plan)))))"

text \<open>A panic of the generator is \<open>None\<close>.\<close>

fun makeScopesV200 :: "nat \<Rightarrow> BlueprintScope list \<Rightarrow> ('c, 'y, scope_row list option) kube_act" where
  "makeScopesV200 connectionId [] = act_ret (Some [])"
| "makeScopesV200 connectionId (bpScope # bpScopes) =
     act_bind (find_deployment ''fail to find deployment '' connectionId (bsId bpScope)) (\<lambda>v.
       if ''CICD'' \<in> set (bsEntities bpScope)
       then case deployment_id (sc_ConnectionId v) (kdName (sc_body v)) of
           Fine i \<Rightarrow> act_bind (makeScopesV200 connectionId bpScopes) (\<lambda>rows.
             act_ret (map_option (Cons \<lparr>scTable = ''cicd_scopes'', scId = i, scName = kdName (sc_body v)\<rparr>) rows))
         | _ \<Rightarrow> act_ret None
       else makeScopesV200 connectionId bpScopes)"

definition MakeDataSourcePipelinePlanV200_kube :: "(KubeDeploymentOptions \<Rightarrow> goerr + options) \<Rightarrow> nat \<Rightarrow> BlueprintScope list
    \<Rightarrow> ('c, 'y, (PipelinePlan \<times> scope_row list) option) kube_act" where
  "MakeDataSourcePipelinePlanV200_kube encode connectionId bpScopes =
     act_bind (kube_plan_v200 encode connectionId bpScopes) (\<lambda>plan.
     act_bind (makeScopesV200 connectionId bpScopes) (\<lambda>scopes. act_ret (map_option (Pair plan) scopes)))"

section \<open>Tasks\<close>

record 'k kube_task_data =
  tdOptions :: KubeDeploymentOptions
  tdClient :: "'k option"
  tdCreatedDateAfter :: "int option"

text \<open>The data are a nil pointer, \<open>None\<close>, when the error that is wrapped is nil. \<open>parse_time\<close> reads a date, the zero time as \<open>None\<close>.\<close>

definition PrepareTaskData_kube :: "('auth, 'conf, 'rest, 'k) kube_sdk \<Rightarrow> (options \<Rightarrow> goerr + KubeDeploymentOptions)
    \<Rightarrow> ('r kube_conn connection \<Rightarrow> goerr option) \<Rightarrow> (string \<Rightarrow> goerr + int option) \<Rightarrow> options
    \<Rightarrow> (('r, 'x, 'y) kube_db, 'k kube_task_data option) handler" where
  "PrepareTaskData_kube sdk decode api_client parse_time opts =
     bind_handler (handle (of_sum (DecodeAndValidateTaskOptions decode opts))) (\<lambda>op.
     bind_handler (handle (on_error (wrap Default ''unable to get KubeDeployment connection by the given connection ID'')
         (conn_FirstById (koConnectionId op)))) (\<lambda>c.
     bind_handler (handle (on_error (wrap Default ''unable to get KubeDeployment API client instance'') (of_check (api_client c)))) (\<lambda>_.
       case credentials_of c of
         Fine creds \<Rightarrow>
           bind_handler (give (NewKubeApiClient sdk creds)) (\<lambda>client.
             if koCreatedDateAfter op = [] then give (Fine (Some \<lparr>tdOptions = op, tdClient = client, tdCreatedDateAfter = None\<rparr>))
             else bind_handler (handle (on_error (wrap BadInput ''invalid value for `createdDateAfter`'') (of_sum (parse_time (koCreatedDateAfter op)))))
               (\<lambda>t. give (Fine (Some \<lparr>tdOptions = op, tdClient = client, tdCreatedDateAfter = t\<rparr>))))
       | _ \<Rightarrow> give (case Wrap Default None ''Error unmarshalling message'' None of None \<Rightarrow> Fine None | Some e \<Rightarrow> Fault e))))"

definition Close_kube :: "'k kube_task_data option \<Rightarrow> string \<Rightarrow> goerr option" where
  "Close_kube taskData ctx_text =
     (case taskData of None \<Rightarrow> Some (New Default (''GetData failed when try to close '' @ ctx_text)) | Some _ \<Rightarrow> None)"

text \<open>A replica set of a cluster; its time is written in whole seconds, the zero time as null.\<close>

record replica_set =
  rsUID :: string
  rsNamespace :: string
  rsAnnotations :: "string \<rightharpoonup> string"
  rsCreationTimestamp :: "int option"

record revision_msg =
  rmId :: string
  rmDeploymentName :: string
  rmNamespace :: string
  rmRevisionNumber :: int
  rmCreationTimestamp :: "int option"
  rmCicdScopeId :: string

definition kube_table :: string where
  "kube_table = ''kube_deployment_revisions''"

definition kube_params :: "(string \<Rightarrow> string) \<Rightarrow> KubeDeploymentOptions \<Rightarrow> string" where
  "kube_params quote op = ''{\"connectionId\":'' @ show_nat (koConnectionId op) @ '',\"namespace\":'' @ quote (koNamespace op) @
     '',\"deploymentName\":'' @ quote (koDeploymentName op) @ ''}''"

definition revision_of :: "KubeDeploymentOptions \<Rightarrow> string \<Rightarrow> replica_set \<Rightarrow> revision_msg" where
  "revision_of op cicdScopeId rs =
     \<lparr>rmId = rsUID rs, rmDeploymentName = koDeploymentName op, rmNamespace = rsNamespace rs,
      rmRevisionNumber = Atoi_value (param (rsAnnotations rs) ''deployment.kubernetes.io/revision''),
      rmCreationTimestamp = rsCreationTimestamp rs, rmCicdScopeId = cicdScopeId\<rparr>"

text \<open>\<open>db.Create\<close> of rows; \<open>empty_err\<close> is the answer of the library to an empty slice.\<close>

definition raw_rows :: "string \<Rightarrow> 'x list \<Rightarrow> 'x input_row list \<Rightarrow> 'x input_row list" where
  "raw_rows params xs raw = raw @ map (\<lambda>(i, x). \<lparr>in_id = i, in_params = params, in_origin = zero_origin, in_data = x\<rparr>)
     (enumerate (Suc (Max (insert 0 (in_id ` set raw)))) xs)"

definition raw_Create :: "goerr option \<Rightarrow> string \<Rightarrow> 'x list \<Rightarrow> ('x input_row list, unit) act" where
  "raw_Create empty_err params xs =
     (if xs = [] then of_check empty_err
      else exec (raw_rows params xs))"

text \<open>The collector. \<open>history client namespace selector\<close> lists the replica sets; the deletion is guarded by a variable that is false. Where
  \<open>AutoMigrate\<close> fails it wraps not that error but \<open>err\<close>, which is nil, and so returns nil.\<close>

definition CollectKubeDeploymentRevision :: "(string \<Rightarrow> string) \<Rightarrow> ('k \<Rightarrow> string \<Rightarrow> string \<Rightarrow> goerr + replica_set list) \<Rightarrow> goerr option
    \<Rightarrow> 'k kube_task_data option \<Rightarrow> (revision_msg input_row list, unit) handler" where
  "CollectKubeDeploymentRevision quote history empty_err taskData =
     bind_handler (give (or_panic taskData)) (\<lambda>data.
       let op = tdOptions data; incremental = False in
       bind_handler (error_of (exec id)) (\<lambda>dbErr.
       if dbErr \<noteq> None
       then give (case Wrap Default None ''error creating table'' None of None \<Rightarrow> Fine () | Some e \<Rightarrow> Fault e)
       else
       bind_handler (handle (act_when incremental (on_error (wrap Default ''error deleting data from collector'')
           (exec (filter (\<lambda>r. in_params r \<noteq> kube_params quote op)))))) (\<lambda>_.
       bind_handler (give (or_panic (tdClient data))) (\<lambda>client.
       bind_handler (handle (on_error (wrap Default ''Failed to get rollout history'')
           (of_sum (history client (koNamespace op) (''app='' @ koDeploymentName op))))) (\<lambda>items.
       bind_handler (give (if items = [] then Fine [] else deployment_id (koConnectionId op) (koDeploymentName op))) (\<lambda>cicdScopeId.
         handle (on_error (wrap Default (''error inserting raw rows into _raw_'' @ kube_table))
           (raw_Create empty_err (kube_params quote op) (map (revision_of op cicdScopeId) items)))))))))"

text \<open>The extractor. A revision number must fit into 32 bits.\<close>

definition revision_type :: slot_type where
  "revision_type = \<lparr>st_name = ''*models.KubeDeploymentRevision'', st_elem = ''KubeDeploymentRevision'', st_ptr = True,
     st_primary = [''ConnectionId'', ''Id''], st_origin = True\<rparr>"

definition KubeDeploymentRevision :: "(int option \<Rightarrow> string) \<Rightarrow> nat \<Rightarrow> revision_msg \<Rightarrow> row" where
  "KubeDeploymentRevision time_text connectionId m =
     \<lparr>r_type = revision_type,
      r_fields = [(''ConnectionId'', FNum (int connectionId)), (''Id'', FStr (rmId m)), (''Namespace'', FStr (rmNamespace m)),
        (''DeploymentName'', FStr (rmDeploymentName m)), (''RevisionNumber'', FNum (rmRevisionNumber m)),
        (''CreationTimestamp'', FOther (time_text (rmCreationTimestamp m))), (''CicdScopeId'', FStr (rmCicdScopeId m))],
      r_embedded = [], r_origin = zero_origin\<rparr>"

definition extract_revision :: "(int option \<Rightarrow> string) \<Rightarrow> nat \<Rightarrow> revision_msg input_row \<Rightarrow> goerr + row list" where
  "extract_revision time_text connectionId inp =
     (let n = rmRevisionNumber (in_data inp) in
      if n < 0 \<or> 2 ^ 32 \<le> n
      then Inl (the (Convert (Some (External (''json: cannot unmarshal number '' @ show_int n @
        '' into Go struct field KubeDeploymentRevision.revision_number of type uint32'')))))
      else Inr [KubeDeploymentRevision time_text connectionId (in_data inp)])"

definition ExtractKubeDeploymentRevisions :: "'db store_fn \<Rightarrow> 'db delete_fn \<Rightarrow> goerr option \<Rightarrow> goerr option \<Rightarrow> (nat \<Rightarrow> goerr option)
    \<Rightarrow> (nat \<Rightarrow> goerr option) \<Rightarrow> (string \<Rightarrow> string) \<Rightarrow> (int option \<Rightarrow> string) \<Rightarrow> 'k kube_task_data option
    \<Rightarrow> revision_msg input_row list \<Rightarrow> 'db \<Rightarrow> (bs_result \<times> 'db \<times> nat)" where
  "ExtractKubeDeploymentRevisions store del count_err cursor_err ctx fetch quote time_text taskData raw stored =
     (case taskData of
        None \<Rightarrow> (BsPanic, stored, 0)
      | Some data \<Rightarrow>
          (case NewRawDataSubTask kube_table (kube_params quote (tdOptions data)) of
             Inl e \<Rightarrow> (BsErr e, stored, 0)
           | Inr (table, params) \<Rightarrow>
               ApiExtractor_Execute store del count_err cursor_err ctx fetch [revision_type] table params 0
                 (extract_revision time_text (koConnectionId (tdOptions data))) raw stored))"

end
