(* ===== verification/KubeFacts.thy ===== *)
theory KubeFacts
  imports KubeDeployment ScopeFacts RefPairs "HOL-Library.Sublist"
begin

text \<open>
  The plugin \<open>kube_deployment\<close>: what becomes of the credentials of a connection, what a plan of protocol 2.0.0 runs, and what
  the revisions table holds after several collections.
\<close>

section \<open>Handlers\<close>

named_theorems handler_simps \<open>running handlers whose actions are known\<close>

lemma handle_run [handler_simps]: "handle m s = (case fst (m s) of Inl e \<Rightarrow> Fault e | Inr x \<Rightarrow> Fine x, snd (m s))"
  by (simp add: handle_def split: prod.split sum.split)

lemma error_of_run [handler_simps]: "error_of m s = (Fine (case fst (m s) of Inl e \<Rightarrow> Some e | Inr x \<Rightarrow> None), snd (m s))"
  by (simp add: error_of_def split: prod.splits sum.splits)

lemma bind_handler_Fine [handler_simps]: "m s = (Fine x, s') \<Longrightarrow> bind_handler m f s = f x s'"
  by (simp add: bind_handler_def)

lemma bind_handler_Fault [handler_simps]: "m s = (Fault e, s') \<Longrightarrow> bind_handler m f s = (Fault e, s')"
  by (simp add: bind_handler_def)

lemma bind_handler_Panic [handler_simps]: "m s = (outcome.Panic, s') \<Longrightarrow> bind_handler m f s = (outcome.Panic, s')"
  by (simp add: bind_handler_def)

lemma give_run [handler_simps]: "give r s = (r, s)"
  by (simp add: give_def)

lemma on_error_run [handler_simps]: "m s = (Inr x, s') \<Longrightarrow> on_error f m s = (Inr x, s')" "m s = (Inl e, s') \<Longrightarrow> on_error f m s = (Inl (f e), s')"
  by (simp_all add: on_error_def)

lemma of_sum_run [handler_simps]: "of_sum (Inr x) s = (Inr x, s)" "of_sum (Inl e) s = (Inl e, s)"
  by (simp_all add: of_sum_def act_ret_def act_fail_def)

lemma of_check_run [handler_simps]: "of_check None s = (Inr (), s)" "of_check (Some e) s = (Inl e, s)"
  by (simp_all add: of_check_def act_ret_def act_fail_def)

section \<open>Samples\<close>

definition demo_options :: KubeDeploymentOptions where
  "demo_options = \<lparr>koConnectionId = 1, koTasks = [], koCreatedDateAfter = [], koNamespace = ''default'', koDeploymentName = ''web''\<rparr>"

definition demo_set :: "string \<Rightarrow> string \<Rightarrow> replica_set" where
  "demo_set u n = \<lparr>rsUID = u, rsNamespace = ''default'', rsAnnotations = [''deployment.kubernetes.io/revision'' \<mapsto> n], rsCreationTimestamp = Some 5\<rparr>"

definition demo_raw :: "revision_msg input_row list conn" where
  "demo_raw = \<lparr>cn_data = [], cn_faults = [], cn_progress = 0\<rparr>"

definition demo_data :: "unit kube_task_data" where
  "demo_data = \<lparr>tdOptions = demo_options, tdClient = Some (), tdCreatedDateAfter = None\<rparr>"

definition demo_sdk :: "(unit, unit, unit, unit) kube_sdk" where
  "demo_sdk = \<lparr>authorizer = \<lambda>_ _ _. None, admin_credentials = \<lambda>_ _ _ _. None, config_from_bytes = \<lambda>_. None,
     client_config = \<lambda>_. None, config_from_file = \<lambda>_. Some (), new_for_config = Some\<rparr>"

definition demo_kube :: "(unit, KubeDeployment, unit) kube_db conn" where
  "demo_kube = \<lparr>cn_data = \<lparr>sd_connections = [], sd_scopes = [\<lparr>sc_ConnectionId = 1, sc_rule = None, sc_created = None, sc_updated = None,
     sc_body = \<lparr>kdId = ''d1'', kdName = ''web''\<rparr>\<rparr>], sd_rules = []\<rparr>, cn_faults = [], cn_progress = 0\<rparr>"

definition demo_creds :: "string \<Rightarrow> credentials" where
  "demo_creds p = [''providerType'' \<mapsto> CredText p]"

definition demo_cluster :: "credentials json \<Rightarrow> unit kube_conn connection" where
  "demo_cluster j = \<lparr>co_id = 1, co_body = \<lparr>kcCredentials = j, kcRest = ()\<rparr>\<rparr>"

definition demo_enc :: "KubeDeploymentOptions \<Rightarrow> options" where
  "demo_enc op = (''connectionId'', show_nat (koConnectionId op)) # (''createdDateAfter'', koCreatedDateAfter op) # (''namespace'', koNamespace op) #
     (''deploymentName'', koDeploymentName op) # map (Pair ''tasks'') (koTasks op)"

definition demo_dec :: "options \<Rightarrow> goerr + KubeDeploymentOptions" where
  "demo_dec al = (case ParseUint (snd (al ! 0)) of Inl e \<Rightarrow> Inl e | Inr n \<Rightarrow> Inr \<lparr>koConnectionId = n, koTasks = map snd (drop 4 al),
     koCreatedDateAfter = snd (al ! 1), koNamespace = snd (al ! 2), koDeploymentName = snd (al ! 3)\<rparr>)"

definition demo_merge :: "(unit, unit) merge" where
  "demo_merge rest creds c = Inr (c\<lparr>co_body := (co_body c)\<lparr>kcCredentials := creds\<rparr>\<rparr>)"

definition with_connection :: "credentials json \<Rightarrow> (unit, KubeDeployment, unit) kube_db conn" where
  "with_connection j = demo_kube\<lparr>cn_data := (cn_data demo_kube)\<lparr>sd_connections := [demo_cluster j]\<rparr>\<rparr>"

section \<open>Credentials\<close>

lemma ParseUint_show:
  assumes "n < 2 ^ 64"
  shows "ParseUint (show_nat n) = Inr n"
proof -
  have "list_all is_digit (show_nat n)" by (auto simp: list_all_iff intro: show_nat_digits)
  moreover have "foldl (\<lambda>n c. 10 * n + (of_char c - 48)) 0 (show_nat n) = n"
    using digits_value_show [of n] by (simp add: digits_value_def)
  ultimately show ?thesis using assms by (simp add: ParseUint_def Let_def not_le)
qed

lemma conn_FirstById_calm:
  "cn_faults s = [] \<Longrightarrow> filter (\<lambda>c. co_id c = i) (sd_connections (cn_data s)) = c # cs \<Longrightarrow> conn_FirstById i s = (Inr c, s)"
  using First_calm [of s "\<lambda>d. filter (\<lambda>c. co_id c = i) (sd_connections d)"] by (simp add: conn_FirstById_def)

lemma conn_First_calm:
  assumes "cn_faults s = []" "filter (\<lambda>c. co_id c = i) (sd_connections (cn_data s)) = c # cs"
    and "param ps ''connectionId'' = show_nat i" "0 < i" "i < 2 ^ 64"
  shows "conn_First ps s = (Inr c, s)"
  using assms(3-5) by (simp add: conn_First_def ParseUint_show conn_FirstById_calm [OF assms(1,2)])

definition new_id :: "nat set \<Rightarrow> nat" where
  "new_id A = Suc (Max (insert 0 A))"

lemma new_id_fresh:
  assumes "x \<in> set cs"
  shows "co_id x \<noteq> new_id (co_id ` set cs)"
proof -
  have "co_id x \<le> Max (insert 0 (co_id ` set cs))" using assms by (intro Max_ge) auto
  then show ?thesis by (simp add: new_id_def)
qed

text \<open>The credentials of a connection survive the database: a connection that \<open>PostConnections\<close> has created with an object as its credentials is
  answered with that object by \<open>GetConnection\<close>, and a task of the connection gets the client made of it.\<close>

theorem posted_credentials_kept:
  assumes "cn_faults s = []" "merge rest (JsonVal creds) (zero_connection r) = Inr c0" "co_id c0 = 0" "kcCredentials (co_body c0) = JsonVal creds"
    and "i = new_id (co_id ` set (sd_connections (cn_data s)))" "i < 2 ^ 64" "c = c0\<lparr>co_id := i\<rparr>"
    and "param ps ''connectionId'' = show_nat i" "decode opts = Inr op" "koConnectionId op = i" "koCreatedDateAfter op = []" "api_client c = None"
    and "NewKubeApiClient sdk creds = Fine client"
  shows "\<exists>s'. PostConnections is_dup merge r (CredentialsObject creds) rest s = (Fine \<lparr>out_body = ConnectionBody c creds, out_status = 200\<rparr>, s') \<and>
    GetConnection r ps s' = (Fine \<lparr>out_body = ConnectionBody c creds, out_status = 0\<rparr>, s') \<and>
    PrepareTaskData_kube sdk decode api_client parse_time opts s' =
      (Fine (Some \<lparr>tdOptions = op, tdClient = client, tdCreatedDateAfter = None\<rparr>), s')"
proof -
  let ?cs = "sd_connections (cn_data s)"
  define s' where "s' = s\<lparr>cn_data := (cn_data s)\<lparr>sd_connections := ?cs @ [c]\<rparr>\<rparr>"
  have i: "0 < i" "filter (\<lambda>x. co_id x = i) ?cs = []"
    using new_id_fresh [of _ ?cs] by (auto simp: assms(5) filter_empty_conv) (simp add: new_id_def)
  have calm: "cn_faults s' = []" and found: "filter (\<lambda>x. co_id x = i) (sd_connections (cn_data s')) = c # []"
    using assms(1) i(2) by (simp_all add: s'_def assms(7))
  have get: "conn_First ps s' = (Inr c, s')" using conn_First_calm [OF calm found assms(8) i(1) assms(6)] .
  have "conn_Create is_dup (merge rest (JsonVal creds) (zero_connection r)) s = (Inr c, s')"
    using assms(1,3) by (simp add: assms(2,5,7) s'_def new_id_def conn_Create_def conn_save_def act_simps handler_simps Let_def)
  then have "PostConnections is_dup merge r (CredentialsObject creds) rest s = (Fine \<lparr>out_body = ConnectionBody c creds, out_status = 200\<rparr>, s')"
    by (simp add: PostConnections_def handler_simps)
  moreover have creds: "credentials_of c = Fine creds" by (simp add: credentials_of_def assms(4,7))
  moreover from get creds have "GetConnection r ps s' = (Fine \<lparr>out_body = ConnectionBody c creds, out_status = 0\<rparr>, s')"
    by (simp add: GetConnection_def)
  moreover have "PrepareTaskData_kube sdk decode api_client parse_time opts s' =
      (Fine (Some \<lparr>tdOptions = op, tdClient = client, tdCreatedDateAfter = None\<rparr>), s')"
    using conn_FirstById_calm [OF calm found] creds assms(9-13) i(1)
    by (simp add: PrepareTaskData_kube_def DecodeAndValidateTaskOptions_def api_Decode_def handler_simps)
  ultimately show ?thesis by blast
qed

theorem posted_credentials_kept_witness:
  "\<exists>s'. PostConnections (\<lambda>_. False) demo_merge () (CredentialsObject (demo_creds ''local'')) () demo_kube =
      (Fine \<lparr>out_body = ConnectionBody (demo_cluster (JsonVal (demo_creds ''local''))) (demo_creds ''local''), out_status = 200\<rparr>, s') \<and>
    GetConnection () [''connectionId'' \<mapsto> show_nat 1] s' =
      (Fine \<lparr>out_body = ConnectionBody (demo_cluster (JsonVal (demo_creds ''local''))) (demo_creds ''local''), out_status = 0\<rparr>, s')"
proof -
  have i: "1 = new_id (co_id ` set (sd_connections (cn_data demo_kube)))" by (simp add: new_id_def demo_kube_def)
  have m: "demo_merge () (JsonVal (demo_creds ''local'')) (zero_connection ()) = Inr (demo_cluster (JsonVal (demo_creds ''local''))\<lparr>co_id := 0\<rparr>)"
    by (simp add: demo_merge_def zero_connection_def demo_cluster_def)
  have client: "NewKubeApiClient demo_sdk (demo_creds ''local'') = Fine (Some ())"
    by (simp add: NewKubeApiClient_def demo_creds_def createClientConfig_def demo_sdk_def or_fail_def)
  show ?thesis
    using posted_credentials_kept [where s = demo_kube and merge = demo_merge and rest = "()" and creds = "demo_creds ''local''" and r = "()"
        and ps = "[''connectionId'' \<mapsto> show_nat 1]" and opts = "[]" and i = 1 and decode = "\<lambda>_. Inr demo_options" and is_dup = "\<lambda>_. False"
        and sdk = demo_sdk and api_client = "\<lambda>_. None" and parse_time = "\<lambda>_. Inr None", OF _ m _ _ i _ refl _ refl _ _ refl client]
    by (auto simp: demo_kube_def demo_cluster_def demo_options_def param_def)
qed

section \<open>Failures that pass for something else\<close>

text \<open>Credentials that name a provider other than \<open>azure\<close> and \<open>local\<close> pass the test of a connection, but the client made of them is a nil
  pointer: listing the namespaces panics, and so does the collector of a task of the connection.\<close>

theorem unknown_provider_panics:
  assumes "creds ''providerType'' = Some (CredText p)" "p \<noteq> []" "p \<noteq> ''azure''" "p \<noteq> ''local''"
    and "conn_First ps s = (Inr c, s)" "kcCredentials (co_body c) = JsonVal creds"
    and "conn_FirstById (koConnectionId op) s = (Inr c, s)" "decode opts = Inr op" "koConnectionId op \<noteq> 0" "koCreatedDateAfter op = []"
    and "api_client c = None" "cn_faults raw = []"
  shows "TestConnection sdk (CredentialsObject creds) = Fine \<lparr>out_body = TestBody True ''success'', out_status = 200\<rparr> \<and>
    GetNameSpaces sdk namespaces ps s = (outcome.Panic, s) \<and>
    (\<exists>taskData. PrepareTaskData_kube sdk decode api_client parse_time opts s = (Fine taskData, s) \<and>
      CollectKubeDeploymentRevision quote history empty_err taskData raw = (outcome.Panic, raw))"
proof -
  have client: "NewKubeApiClient sdk creds = Fine None" using assms(1-4) by (simp add: NewKubeApiClient_def)
  have creds: "credentials_of c = Fine creds" by (simp add: credentials_of_def assms(6))
  have "GetNameSpaces sdk namespaces ps s = (outcome.Panic, s)"
    using assms(5) creds client by (simp add: GetNameSpaces_def list_names_def handler_simps or_panic_def)
  moreover have "PrepareTaskData_kube sdk decode api_client parse_time opts s =
      (Fine (Some \<lparr>tdOptions = op, tdClient = None, tdCreatedDateAfter = None\<rparr>), s)"
    using assms(7-11) creds client by (simp add: PrepareTaskData_kube_def DecodeAndValidateTaskOptions_def api_Decode_def handler_simps)
  moreover have "CollectKubeDeploymentRevision quote history empty_err (Some \<lparr>tdOptions = op, tdClient = None, tdCreatedDateAfter = None\<rparr>) raw =
      (outcome.Panic, raw)"
    using assms(12) by (simp add: CollectKubeDeploymentRevision_def Let_def handler_simps act_simps or_panic_def)
  ultimately show ?thesis using client by (simp add: TestConnection_def)
qed

theorem unknown_provider_panics_witness:
  "TestConnection demo_sdk (CredentialsObject (demo_creds ''google'')) = Fine (\<lparr>out_body = TestBody True ''success'', out_status = 200\<rparr> :: unit api_output) \<and>
    GetNameSpaces demo_sdk (\<lambda>_. Some []) [''connectionId'' \<mapsto> show_nat 1] (with_connection (JsonVal (demo_creds ''google''))) =
      (outcome.Panic, with_connection (JsonVal (demo_creds ''google'')))"
proof -
  let ?s = "with_connection (JsonVal (demo_creds ''google''))" and ?c = "demo_cluster (JsonVal (demo_creds ''google''))"
  have calm: "cn_faults ?s = []" "filter (\<lambda>c. co_id c = 1) (sd_connections (cn_data ?s)) = ?c # []"
    by (simp_all add: with_connection_def demo_kube_def demo_cluster_def)
  have first: "conn_First [''connectionId'' \<mapsto> show_nat 1] ?s = (Inr ?c, ?s)"
    by (rule conn_First_calm [OF calm]) (simp_all add: param_def)
  have by_id: "conn_FirstById (koConnectionId demo_options) ?s = (Inr ?c, ?s)"
    using conn_FirstById_calm [OF calm] by (simp add: demo_options_def)
  show ?thesis
    using unknown_provider_panics [OF _ _ _ _ first _ by_id, of "demo_creds ''google''" "''google''" "\<lambda>_. Inr demo_options" "[]" "\<lambda>_. None" demo_raw
        demo_sdk "\<lambda>_. Some []"]
    by (auto simp: demo_creds_def demo_cluster_def demo_options_def demo_raw_def)
qed

text \<open>A column of credentials that is no JSON object stops a task only by a panic: the preparation wraps an error that is nil, so it returns neither
  data nor an error, and both subtasks fail on the missing data.\<close>

theorem unreadable_credentials_unreported:
  assumes "conn_FirstById (koConnectionId op) s = (Inr c, s)" "credentials_of c = Fault e"
    and "decode opts = Inr op" "koConnectionId op \<noteq> 0" "api_client c = None"
  shows "\<exists>taskData. PrepareTaskData_kube sdk decode api_client parse_time opts s = (Fine taskData, s) \<and>
      CollectKubeDeploymentRevision quote history empty_err taskData raw = (outcome.Panic, raw) \<and>
      ExtractKubeDeploymentRevisions store del count_err cursor_err ctx fetch quote time_text taskData rows stored = (BsPanic, stored, 0) \<and>
      Close_kube taskData ctx_text \<noteq> None"
proof -
  have "PrepareTaskData_kube sdk decode api_client parse_time opts s = (Fine None, s)"
    using assms by (simp add: PrepareTaskData_kube_def DecodeAndValidateTaskOptions_def api_Decode_def handler_simps Wrap_def)
  then show ?thesis
    by (simp add: CollectKubeDeploymentRevision_def ExtractKubeDeploymentRevisions_def Close_kube_def handler_simps or_panic_def)
qed

theorem unreadable_credentials_unreported_witness:
  "\<exists>taskData. PrepareTaskData_kube demo_sdk (\<lambda>_. Inr demo_options) (\<lambda>_. None) (\<lambda>_. Inr None) [] (with_connection (JsonBad ''x'')) =
      (Fine taskData, with_connection (JsonBad ''x'')) \<and>
    CollectKubeDeploymentRevision id (\<lambda>_ _ _. Inr []) None taskData demo_raw = (outcome.Panic, demo_raw)"
proof -
  let ?s = "with_connection (JsonBad ''x'')" and ?c = "demo_cluster (JsonBad ''x'')"
  have calm: "cn_faults ?s = []" "filter (\<lambda>c. co_id c = 1) (sd_connections (cn_data ?s)) = ?c # []"
    by (simp_all add: with_connection_def demo_kube_def demo_cluster_def)
  have by_id: "conn_FirstById (koConnectionId demo_options) ?s = (Inr ?c, ?s)"
    using conn_FirstById_calm [OF calm] by (simp add: demo_options_def)
  have bad: "credentials_of ?c = Fault (New BadInput ''credentials is not a valid json'')" by (simp add: credentials_of_def demo_cluster_def)
  show ?thesis
    using unreadable_credentials_unreported [OF by_id bad, where decode = "\<lambda>_. Inr demo_options" and opts = "[]" and api_client = "\<lambda>_. None" and sdk = demo_sdk
        and parse_time = "\<lambda>_. Inr None" and quote = id and history = "\<lambda>_ _ _. Inr []" and empty_err = None and raw = demo_raw and store = mem_store
        and del = mem_delete and count_err = None and cursor_err = None and ctx = "\<lambda>_. None" and fetch = "\<lambda>_. None" and time_text = "\<lambda>_. []"
        and rows = "[]" and stored = "(0, \<lambda>_. Map.empty)" and ctx_text = "[]"]
    by (auto simp: demo_options_def)
qed

text \<open>\<open>GetConnection\<close> looks at the error of the lookup last: for every connection that is not found, or not named, it answers that the credentials are no
  JSON.\<close>

theorem missing_connection_misreported:
  assumes "conn_First ps s = (Inl e, s')"
  shows "GetConnection r ps s = (Fault (New BadInput ''credentials is not a valid json''), s')"
  using assms by (simp add: GetConnection_def credentials_of_def zero_connection_def)

theorem missing_connection_misreported_witness:
  "GetConnection () Map.empty demo_kube = (Fault (New BadInput ''credentials is not a valid json''), demo_kube)"
  by (rule missing_connection_misreported) (simp add: conn_First_def param_def act_fail_def)

section \<open>The plan of protocol 2.0.0\<close>

definition deployment_at :: "nat \<Rightarrow> ('c, KubeDeployment, 'y) scope_db \<Rightarrow> BlueprintScope \<Rightarrow> KubeDeployment scope" where
  "deployment_at c d b = hd (filter (\<lambda>v. sc_ConnectionId v = c \<and> kdId (sc_body v) = bsId b) (sd_scopes d))"

definition known_scope :: "nat \<Rightarrow> ('c, KubeDeployment, 'y) scope_db \<Rightarrow> BlueprintScope \<Rightarrow> bool" where
  "known_scope c d b \<longleftrightarrow> set (bsEntities b) \<subseteq> set DOMAIN_TYPES \<and> (\<exists>v \<in> set (sd_scopes d). sc_ConnectionId v = c \<and> kdId (sc_body v) = bsId b)"

lemma find_deployment_calm:
  assumes "cn_faults s = []" "known_scope c (cn_data s) b"
  shows "find_deployment msg c (bsId b) s = (Inr (deployment_at c (cn_data s) b), s)"
  using assms First_calm [of s "\<lambda>d. filter (\<lambda>v. sc_ConnectionId v = c \<and> kdId (sc_body v) = bsId b) (sd_scopes d)"]
  by (auto simp: find_deployment_def scope_at_def kube_scope_type_def deployment_at_def known_scope_def filter_empty_conv on_error_def)

lemma deployment_at_connection: "known_scope c d b \<Longrightarrow> sc_ConnectionId (deployment_at c d b) = c"
proof -
  assume "known_scope c d b"
  then have "filter (\<lambda>v. sc_ConnectionId v = c \<and> kdId (sc_body v) = bsId b) (sd_scopes d) \<noteq> []"
    by (auto simp: known_scope_def filter_empty_conv)
  from hd_in_set [OF this] show ?thesis by (simp add: deployment_at_def)
qed

lemma no_subtasks_named: "set entities \<subseteq> set DOMAIN_TYPES \<Longrightarrow> MakePipelinePlanSubtasks kube_metas entities = Inr []"
proof -
  assume "set entities \<subseteq> set DOMAIN_TYPES"
  then have "find (\<lambda>e. e \<notin> set DOMAIN_TYPES) entities = None" by (auto simp: find_None_iff)
  then show ?thesis by (simp add: MakePipelinePlanSubtasks_def kube_metas_def)
qed

lemma deployment_id_eq: "deployment_id c name = Fine (''kube_deployment:KubeDeployment:'' @ show_nat c @ '':'' @ name)"
  by (simp add: deployment_id_def NewDomainIdGenerator_def Generate_def)

definition options_for :: "nat \<Rightarrow> KubeDeployment scope \<Rightarrow> KubeDeploymentOptions" where
  "options_for c v = \<lparr>koConnectionId = c, koTasks = [], koCreatedDateAfter = [], koNamespace = ''default'', koDeploymentName = kdName (sc_body v)\<rparr>"

definition kube_stage :: "(KubeDeploymentOptions \<Rightarrow> options) \<Rightarrow> nat \<Rightarrow> KubeDeployment scope \<Rightarrow> PipelineStage" where
  "kube_stage enc c v = [\<lparr>ptPlugin = ''kube_deployment'', ptSubtasks = [], ptOptions = enc (options_for c v)\<rparr>]"

lemma kube_plan_calm:
  assumes "cn_faults s = []" "\<forall>b \<in> set bs. known_scope c (cn_data s) b"
  shows "kube_plan_v200 (\<lambda>op. Inr (enc op)) c bs s = (Inr (map (kube_stage enc c \<circ> deployment_at c (cn_data s)) bs), s)"
  using assms(2)
proof (induction bs)
  case (Cons b bs)
  have "set (bsEntities b) \<subseteq> set DOMAIN_TYPES" using Cons.prems by (simp add: known_scope_def)
  then show ?case
    using Cons find_deployment_calm [OF assms(1)]
    by (simp add: act_simps handler_simps api_Decode_def no_subtasks_named kube_stage_def options_for_def)
qed (simp add: act_simps)

definition cicd_row :: "nat \<Rightarrow> KubeDeployment scope \<Rightarrow> scope_row" where
  "cicd_row c v = \<lparr>scTable = ''cicd_scopes'', scId = ''kube_deployment:KubeDeployment:'' @ show_nat c @ '':'' @ kdName (sc_body v), scName = kdName (sc_body v)\<rparr>"

lemma makeScopes_calm:
  assumes "cn_faults s = []" "\<forall>b \<in> set bs. known_scope c (cn_data s) b"
  shows "makeScopesV200 c bs s =
    (Inr (Some (map (cicd_row c \<circ> deployment_at c (cn_data s)) (filter (\<lambda>b. ''CICD'' \<in> set (bsEntities b)) bs))), s)"
  using assms(2)
proof (induction bs)
  case (Cons b bs)
  then show ?case
    using find_deployment_calm [OF assms(1)] deployment_at_connection [of c "cn_data s" b]
    by (simp add: act_simps deployment_id_eq cicd_row_def)
qed (simp add: act_simps)

text \<open>C37. The plan of protocol 2.0.0 for scopes that are stored has one stage with one task for each scope, in their order, and the task, which names no
  subtask, runs both subtasks of the plugin on the deployment of the scope in the namespace \<open>default\<close>; for a scope wanted for CICD the id
  that the collector of this task writes into the revisions is that of a row of \<open>cicd_scopes\<close> that the plan brings.\<close>

theorem kube_plan_runs:
  assumes "cn_faults s = []" "\<forall>b \<in> set bs. known_scope c (cn_data s) b" "\<forall>op. koConnectionId op = c \<longrightarrow> decode (enc op) = Inr op" "c \<noteq> 0"
  shows "\<exists>plan rows. MakeDataSourcePipelinePlanV200_kube (\<lambda>op. Inr (enc op)) c bs s = (Inr (Some (plan, rows)), s) \<and>
    length plan = length bs \<and>
    (\<forall>i < length bs. \<exists>t op. plan ! i = [t] \<and> ptPlugin t = ''kube_deployment'' \<and>
      runs (kube_SubTaskMetas entry) (ptSubtasks t) = Inr [''collectKubeDeploymentRevisions'', ''extractKubeDeploymentRevisions''] \<and>
      DecodeAndValidateTaskOptions decode (ptOptions t) = Inr op \<and>
      koConnectionId op = c \<and> koNamespace op = ''default'' \<and> koDeploymentName op = kdName (sc_body (deployment_at c (cn_data s) (bs ! i))) \<and>
      (''CICD'' \<in> set (bsEntities (bs ! i)) \<longrightarrow>
        (\<exists>row \<in> set rows. scTable row = ''cicd_scopes'' \<and> deployment_id (koConnectionId op) (koDeploymentName op) = Fine (scId row))))"
proof -
  let ?at = "deployment_at c (cn_data s)"
  let ?plan = "map (kube_stage enc c \<circ> ?at) bs" and ?rows = "map (cicd_row c \<circ> ?at) (filter (\<lambda>b. ''CICD'' \<in> set (bsEntities b)) bs)"
  have run: "MakeDataSourcePipelinePlanV200_kube (\<lambda>op. Inr (enc op)) c bs s = (Inr (Some (?plan, ?rows)), s)"
    using kube_plan_calm [OF assms(1,2)] makeScopes_calm [OF assms(1,2)]
    by (simp add: MakeDataSourcePipelinePlanV200_kube_def act_simps)
  have names: "runs (kube_SubTaskMetas entry) [] = Inr [''collectKubeDeploymentRevisions'', ''extractKubeDeploymentRevisions'']"
    by (simp add: runs_def subtask_flags_def default_flags_def enable_required_def kube_SubTaskMetas_def kube_metas_def sub_task_def)
  have "DecodeAndValidateTaskOptions decode (enc (options_for c v)) = Inr (options_for c v)" for v
    using assms(3,4) by (simp add: DecodeAndValidateTaskOptions_def api_Decode_def options_for_def)
  moreover have "\<exists>row \<in> set ?rows. scTable row = ''cicd_scopes'' \<and> deployment_id c (kdName (sc_body (?at (bs ! i)))) = Fine (scId row)"
    if "i < length bs" "''CICD'' \<in> set (bsEntities (bs ! i))" for i
    using that by (intro bexI [of _ "cicd_row c (?at (bs ! i))"]) (auto simp: cicd_row_def deployment_id_eq)
  ultimately show ?thesis
    unfolding run by (intro exI [of _ ?plan] exI [of _ ?rows]) (auto simp: kube_stage_def names options_for_def)
qed

definition demo_bp :: "BlueprintScope list" where
  "demo_bp = [\<lparr>bsId = ''d1'', bsName = ''web'', bsEntities = [''CICD'']\<rparr>]"

lemma demo_dec_enc: "\<forall>op. koConnectionId op = 1 \<longrightarrow> demo_dec (demo_enc op) = Inr op"
  by (simp add: demo_dec_def demo_enc_def ParseUint_show comp_def)

theorem kube_plan_runs_witness:
  "\<exists>plan rows. MakeDataSourcePipelinePlanV200_kube (\<lambda>op. Inr (demo_enc op)) 1 demo_bp demo_kube = (Inr (Some (plan, rows)), demo_kube) \<and>
    length plan = length demo_bp \<and>
    (\<forall>i < length demo_bp. \<exists>t op. plan ! i = [t] \<and> ptPlugin t = ''kube_deployment'' \<and>
      runs (kube_SubTaskMetas (\<lambda>_ (_ :: unit). ret ())) (ptSubtasks t) = Inr [''collectKubeDeploymentRevisions'', ''extractKubeDeploymentRevisions''] \<and>
      DecodeAndValidateTaskOptions demo_dec (ptOptions t) = Inr op \<and>
      koConnectionId op = 1 \<and> koNamespace op = ''default'' \<and> koDeploymentName op = kdName (sc_body (deployment_at 1 (cn_data demo_kube) (demo_bp ! i))) \<and>
      (''CICD'' \<in> set (bsEntities (demo_bp ! i)) \<longrightarrow>
        (\<exists>row \<in> set rows. scTable row = ''cicd_scopes'' \<and> deployment_id (koConnectionId op) (koDeploymentName op) = Fine (scId row))))"
  by (rule kube_plan_runs [OF _ _ demo_dec_enc]) (simp_all add: demo_bp_def known_scope_def demo_kube_def DOMAIN_TYPES_def)

section \<open>Collecting again and again\<close>

text \<open>Runs of the collector, in each of which the cluster lists other replica sets, or fails to; each run ends on its own.\<close>

primrec collects :: "(string \<Rightarrow> string) \<Rightarrow> goerr option \<Rightarrow> 'k kube_task_data \<Rightarrow> (goerr + replica_set list) list
    \<Rightarrow> revision_msg input_row list conn \<Rightarrow> unit outcome list \<times> revision_msg input_row list conn" where
  "collects quote empty_err data [] s = ([], s)"
| "collects quote empty_err data (h # hs) s =
     (let (r, s') = CollectKubeDeploymentRevision quote (\<lambda>_ _ _. h) empty_err (Some data) s;
          (rs, s'') = collects quote empty_err data hs s'
      in (r # rs, s''))"

definition listings :: "(goerr + replica_set list) list \<Rightarrow> replica_set list list" where
  "listings hs = concat (map (\<lambda>h. case h of Inl _ \<Rightarrow> [] | Inr L \<Rightarrow> [L]) hs)"

lemma listings_simps [simp]: "listings [] = []" "listings (Inl e # hs) = listings hs" "listings (Inr L # hs) = L # listings hs"
  by (simp_all add: listings_def)

definition scope_id_of :: "KubeDeploymentOptions \<Rightarrow> string" where
  "scope_id_of op = ''kube_deployment:KubeDeployment:'' @ show_nat (koConnectionId op) @ '':'' @ koDeploymentName op"

lemma raw_rows_Nil [simp]: "raw_rows p [] raw = raw"
  by (simp add: raw_rows_def)

lemma raw_rows_append: "\<exists>added. raw_rows p xs raw = raw @ added \<and> map in_data added = xs \<and> (\<forall>r \<in> set added. in_params r = p)"
  by (auto simp: raw_rows_def comp_def case_prod_unfold)

lemma raw_rows_sorted:
  assumes "sorted (map in_id raw)"
  shows "sorted (map in_id (raw_rows p xs raw))"
proof -
  define n where "n = Suc (Max (insert 0 (in_id ` set raw)))"
  have "i \<le> n" if "i \<in> in_id ` set raw" for i
  proof -
    have "i \<le> Max (insert 0 (in_id ` set raw))" using that by (intro Max_ge) auto
    then show ?thesis by (simp add: n_def)
  qed
  moreover have "map in_id (raw_rows p xs raw) = map in_id raw @ [n..<n + length xs]"
    by (simp add: raw_rows_def n_def [symmetric] comp_def case_prod_unfold)
  ultimately show ?thesis using assms by (fastforce simp: sorted_append)
qed

text \<open>A run adds the rows of its listing or, when it fails, none; a run in which no statement fails adds them.\<close>

lemma collect_run:
  assumes "tdClient data = Some k" "CollectKubeDeploymentRevision quote (\<lambda>_ _ _. h) empty_err (Some data) s = (r, s')"
  shows "\<exists>Ls. subseq Ls (listings [h]) \<and>
    cn_data s' = raw_rows (kube_params quote (tdOptions data)) (map (revision_of (tdOptions data) (scope_id_of (tdOptions data))) (concat Ls)) (cn_data s) \<and>
    (cn_faults s = [] \<longrightarrow> cn_faults s' = [] \<and> Ls = listings [h] \<and> (concat Ls \<noteq> [] \<longrightarrow> r = Fine ()))"
proof (cases "cn_faults s = []")
  case True
  then show ?thesis
    using assms by (cases h) (auto simp: CollectKubeDeploymentRevision_def error_of_def raw_Create_def scope_id_of_def deployment_id_eq
        Let_def handler_simps act_simps or_panic_def on_error_def of_sum_def of_check_def act_fail_def split: if_splits option.splits)
next
  case False
  then obtain f fs where f: "cn_faults s = f # fs" by (cases "cn_faults s") auto
  show ?thesis
  proof (cases f)
    case (Some e)
    then have "cn_data s' = cn_data s" using assms(2) f
      by (simp add: CollectKubeDeploymentRevision_def error_of_def exec_def stmt_def Let_def handler_simps or_panic_def give_run Wrap_def)
        (auto simp: give_def)
    with False show ?thesis by (intro exI [of _ "[]"]) simp
  next
    case None
    show ?thesis
    proof (cases h)
      case (Inl e)
      with None f assms have "cn_data s' = cn_data s"
        by (auto simp: CollectKubeDeploymentRevision_def error_of_def exec_def stmt_def Let_def handler_simps act_simps or_panic_def give_def
            on_error_def of_sum_def act_fail_def)
      with False show ?thesis by (intro exI [of _ "[]"]) simp
    next
      case (Inr L)
      with None f assms have "cn_data s' = cn_data s \<or>
          cn_data s' = raw_rows (kube_params quote (tdOptions data)) (map (revision_of (tdOptions data) (scope_id_of (tdOptions data))) L) (cn_data s)"
        by (auto simp: CollectKubeDeploymentRevision_def error_of_def exec_def stmt_def Let_def handler_simps act_simps or_panic_def give_def
            on_error_def of_sum_def of_check_def act_fail_def act_ret_def raw_Create_def scope_id_of_def deployment_id_eq split: if_splits option.splits)
      then show ?thesis
      proof
        assume "cn_data s' = cn_data s"
        with False show ?thesis by (intro exI [of _ "[]"]) simp
      qed (use False Inr in \<open>intro exI [of _ "[L]"]; simp\<close>)
    qed
  qed
qed

lemma collects_runs:
  assumes "tdClient data = Some k" "collects quote empty_err data hs s = (rs, s')" "sorted (map in_id (cn_data s))"
  shows "\<exists>Ls added. subseq Ls (listings hs) \<and> length rs = length hs \<and> cn_data s' = cn_data s @ added \<and>
    (\<forall>r \<in> set added. in_params r = kube_params quote (tdOptions data)) \<and> sorted (map in_id (cn_data s')) \<and>
    map in_data added = map (revision_of (tdOptions data) (scope_id_of (tdOptions data))) (concat Ls) \<and>
    (cn_faults s = [] \<longrightarrow> Ls = listings hs \<and> (\<forall>i L. i < length hs \<and> hs ! i = Inr L \<and> L \<noteq> [] \<longrightarrow> rs ! i = Fine ()))"
  using assms(2,3)
proof (induction hs arbitrary: s rs)
  case (Cons h hs)
  let ?p = "kube_params quote (tdOptions data)" and ?g = "revision_of (tdOptions data) (scope_id_of (tdOptions data))"
  obtain r s1 where one: "CollectKubeDeploymentRevision quote (\<lambda>_ _ _. h) empty_err (Some data) s = (r, s1)" by fastforce
  obtain rs' where rest: "collects quote empty_err data hs s1 = (rs', s')" and rs: "rs = r # rs'"
    using Cons.prems(1) one by (auto split: prod.splits)
  from collect_run [OF assms(1) one] obtain L1 where L1: "subseq L1 (listings [h])"
    "cn_data s1 = raw_rows ?p (map ?g (concat L1)) (cn_data s)"
    "cn_faults s = [] \<longrightarrow> cn_faults s1 = [] \<and> L1 = listings [h] \<and> (concat L1 \<noteq> [] \<longrightarrow> r = Fine ())" by blast
  have "sorted (map in_id (cn_data s1))" unfolding L1(2) by (rule raw_rows_sorted [OF Cons.prems(2)])
  from Cons.IH [OF rest this] obtain Ls added where Ls: "subseq Ls (listings hs)" "length rs' = length hs" "cn_data s' = cn_data s1 @ added"
    "\<forall>r \<in> set added. in_params r = ?p" "sorted (map in_id (cn_data s'))" "map in_data added = map ?g (concat Ls)"
    "cn_faults s1 = [] \<longrightarrow> Ls = listings hs \<and> (\<forall>i L. i < length hs \<and> hs ! i = Inr L \<and> L \<noteq> [] \<longrightarrow> rs' ! i = Fine ())" by blast
  obtain added1 where a1: "cn_data s1 = cn_data s @ added1" "map in_data added1 = map ?g (concat L1)" "\<forall>r \<in> set added1. in_params r = ?p"
    using raw_rows_append [of ?p "map ?g (concat L1)" "cn_data s"] L1(2) by auto
  have all: "listings (h # hs) = listings [h] @ listings hs" by (cases h) simp_all
  have "subseq (L1 @ Ls) (listings (h # hs))" unfolding all using L1(1) Ls(1) by (rule list_emb_append_mono)
  moreover have "rs ! i = Fine ()" if "cn_faults s = []" "i < length (h # hs)" "(h # hs) ! i = Inr L" "L \<noteq> []" for i L
  proof (cases i)
    case 0
    with that L1(3) show ?thesis by (simp add: rs)
  next
    case (Suc j)
    with that L1(3) Ls(7) show ?thesis by (simp add: rs)
  qed
  ultimately show ?case
    using L1(3) Ls a1 by (intro exI [of _ "L1 @ Ls"] exI [of _ "added1 @ added"]) (auto simp: rs all)
qed (intro exI [of _ "[]"], simp)

text \<open>Where \<open>AutoMigrate\<close> fails, the subtask returns nil without having asked the cluster.\<close>

theorem failed_migration_unreported:
  assumes "cn_faults s = Some e # fs"
  shows "CollectKubeDeploymentRevision quote history empty_err (Some data) s = (Fine (), s\<lparr>cn_faults := fs\<rparr>)"
  using assms by (simp add: CollectKubeDeploymentRevision_def error_of_def exec_def stmt_def Let_def bind_handler_def or_panic_def give_def Wrap_def)

definition plain_uid :: "string \<Rightarrow> bool" where
  "plain_uid u \<longleftrightarrow> u \<noteq> [] \<and> CHR '':'' \<notin> set u \<and> CHR 0x00 \<notin> set u"

definition stored_revision :: "(int option \<Rightarrow> string) \<Rightarrow> nat \<Rightarrow> revision_msg input_row \<Rightarrow> row" where
  "stored_revision time_text c inp = stripZeroByte (extract_origin (''_raw_'' @ kube_table) inp (KubeDeploymentRevision time_text c (in_data inp)))"

lemma stored_fields:
  "r_type (stored_revision tt c inp) = revision_type"
  "FieldByName (stored_revision tt c inp) ''ConnectionId'' = Some (FNum (int c))"
  "FieldByName (stored_revision tt c inp) ''Id'' = Some (FStr (strip_nul (rmId (in_data inp))))"
  "FieldByName (stored_revision tt c inp) ''RevisionNumber'' = Some (FNum (rmRevisionNumber (in_data inp)))"
  "FieldByName (stored_revision tt c inp) ''CreationTimestamp'' = Some (FOther (tt (rmCreationTimestamp (in_data inp))))"
  by (simp_all add: stored_revision_def extract_origin_def stripZeroByte_def KubeDeploymentRevision_def FieldByName_def revision_type_def)

lemma strip_plain: "plain_uid u \<Longrightarrow> strip_nul u = u"
  by (auto simp: plain_uid_def strip_nul_def filter_id_conv)

lemma stored_pk: "plain_uid (rmId (in_data inp)) \<Longrightarrow>
    row_pk (stored_revision tt c inp) = [Some (FNum (int c)), Some (FStr (rmId (in_data inp)))]"
  by (simp add: row_pk_def stored_fields strip_plain revision_type_def)

lemma stored_separate:
  assumes "\<forall>inp \<in> set raw. plain_uid (rmId (in_data inp))"
  shows "keys_separate (map (stored_revision tt c) raw)"
proof (rule plain_keys_separate)
  fix r assume "r \<in> set (map (stored_revision tt c) raw)"
  then obtain inp where inp: "r = stored_revision tt c inp" "plain_uid (rmId (in_data inp))" using assms by auto
  have "CHR '':'' \<notin> set (show_int (int c))" using show_nat_digits [of "CHR '':''" c] by (auto simp: show_int_def is_digit_def)
  then show "st_primary (r_type r) \<noteq> [] \<and> list_all (\<lambda>n. plain_value (FieldByName r n)) (st_primary (r_type r))"
    using inp by (simp add: stored_fields strip_plain plain_value_def) (auto simp: revision_type_def stored_fields strip_plain plain_uid_def show_int_def)
qed (auto simp: stored_fields revision_type_def)

lemma find_via: "map h xs = map g ys \<Longrightarrow> map_option h (find (Q \<circ> h) xs) = map_option g (find (Q \<circ> g) ys)"
proof -
  have m: "find Q (map f zs) = map_option f (find (Q \<circ> f) zs)" for f :: "'z \<Rightarrow> 'a" and zs
    by (induction zs) auto
  have m': "find Q (map f zs) = map_option f (find (Q \<circ> f) zs)" for f :: "'y \<Rightarrow> 'a" and zs
    by (induction zs) auto
  assume "map h xs = map g ys"
  then show ?thesis by (metis m m')
qed

lemma find_append_Some: "find P xs = Some x \<Longrightarrow> find P (xs @ ys) = Some x"
  by (induction xs) auto

lemma find_SomeD: "find P xs = Some x \<Longrightarrow> x \<in> set xs \<and> P x"
  by (induction xs) (auto split: if_splits)

lemma upserts_find:
  "upserts (map f xs) m k = (case find (\<lambda>x. row_pk (f x) = k) (rev xs) of Some x \<Rightarrow> Some (f x) | None \<Rightarrow> m k)"
  by (induction xs arbitrary: m) (auto simp: find_snoc split: option.splits)

lemma extracted_output:
  assumes "\<forall>inp \<in> set raw. rmRevisionNumber (in_data inp) \<in> {0..<2 ^ 32}"
  shows "etl_output (extract_etl (''_raw_'' @ kube_table) (extract_revision time_text c)) raw = map (stored_revision time_text c) raw"
proof -
  have rows: "map (\<lambda>inp. case extract_revision time_text c inp of Inl e \<Rightarrow> []
      | Inr rs \<Rightarrow> map (\<lambda>r. stripZeroByte (extract_origin (''_raw_'' @ kube_table) inp r)) rs) raw = map (\<lambda>inp. [stored_revision time_text c inp]) raw"
    using assms by (intro map_cong refl) (auto simp: extract_revision_def Let_def stored_revision_def not_le not_less)
  show ?thesis unfolding etl_output_def extract_etl_def etl.simps rows by (induction raw) simp_all
qed

text \<open>An extraction that returns nil has stored the last row of each id.\<close>

lemma extraction_stores:
  assumes "record_store store look del" "sorted (map in_id rows)" "raw = [r \<leftarrow> rows. in_params r = kube_params quote op]" "c = koConnectionId op"
    and ok: "\<forall>inp \<in> set raw. plain_uid (rmId (in_data inp)) \<and> rmRevisionNumber (in_data inp) \<in> {0..<2 ^ 32}"
    and "tdOptions data = op"
    and "ExtractKubeDeploymentRevisions store del count_err cursor_err ctx fetch quote time_text (Some data) rows stored = (BsOk, stored', n)"
  shows "n = length raw \<and> (\<forall>u. u \<in> (\<lambda>i. rmId (in_data i)) ` set raw \<longrightarrow>
    look stored' (TypeTable revision_type) [Some (FNum (int c)), Some (FStr u)] =
      map_option (stored_revision time_text c) (find (\<lambda>i. rmId (in_data i) = u) (rev raw)))"
proof -
  define p where "p = kube_params quote op"
  define tbl where "tbl = ''_raw_'' @ kube_table"
  define f where "f = stored_revision time_text c"
  have out: "etl_output (extract_etl tbl (extract_revision time_text c)) raw = map f raw"
    unfolding tbl_def f_def using ok by (intro extracted_output) simp
  have "raw_query p rows = raw"
    using assms(2,3) sorted_filter [of in_id rows] by (simp add: raw_query_def p_def sort_key_id_if_sorted)
  then have run: "etl_run store del (extract_etl tbl (extract_revision time_text c)) ctx fetch [revision_type] raw
      (NewBatchSaveDivider (batch_size 0) tbl p) stored = (BsOk, stored', n)"
    using assms(4,6,7) by (auto simp: ExtractKubeDeploymentRevisions_def NewRawDataSubTask_def kube_table_def tbl_def p_def
      ApiExtractor_Execute_def wrap_result_def split: option.splits)
  have "keys_separate (map f raw)" unfolding f_def using ok by (intro stored_separate) simp
  then have look: "look stored' = replaced (NewBatchSaveDivider (batch_size 0) tbl p) (map f raw) (look stored) \<and> n = length raw"
    unfolding out [symmetric]
    by (rule record_store.etl_run_ok [OF assms(1) _ _ _ _ run])
      (unfold out, auto simp: f_def stored_fields batch_size_def extract_etl_def extract_origin_def)
  have rows: "look stored' (TypeTable revision_type) [Some (FNum (int c)), Some (FStr u)] = map_option f (find (\<lambda>i. rmId (in_data i) = u) (rev raw))"
    if "u \<in> (\<lambda>i. rmId (in_data i)) ` set raw" for u
  proof -
    have all: "filter (\<lambda>r. r_type r = revision_type) (map f raw) = map f raw" by (simp add: filter_id_conv f_def stored_fields)
    have found: "find (\<lambda>i. row_pk (f i) = [Some (FNum (int c)), Some (FStr u)]) (rev raw) = find (\<lambda>i. rmId (in_data i) = u) (rev raw)"
      using ok by (intro find_cong refl) (simp add: f_def stored_pk)
    from that obtain i where "u = rmId (in_data i)" "i \<in> set raw" by (rule imageE)
    then obtain inp where "find (\<lambda>i. rmId (in_data i) = u) (rev raw) = Some inp"
      by (cases "find (\<lambda>i. rmId (in_data i) = u) (rev raw)") (auto simp: find_None_iff)
    moreover have "map f raw \<noteq> []" using that by auto
    ultimately show ?thesis
      unfolding look [THEN conjunct1] replaced_def target.case all by (simp only: if_False upserts_find found option.case option.map)
  qed
  show ?thesis using conjunct2 [OF look] rows unfolding f_def by blast
qed

text \<open>C13. No run of the collector deletes the raw rows of an earlier one, since the deletion is guarded by a variable that is false: whatever the
  cluster lists in each run, and whatever fails, the table keeps the rows it has and gets those of some of the listings, of all of them when no
  statement fails. An extraction that returns nil has then read every row of the deployment, and the table of revisions holds every replica
  set of these listings, as it was listed last, and every one that the table had before, those the cluster has removed included.\<close>

theorem removed_revisions_stay:
  assumes "record_store store look del" "tdClient data = Some k" "sorted (map in_id (cn_data s))"
    and "\<forall>m \<in> set (cn_data s). in_params m = kube_params quote (tdOptions data) \<longrightarrow>
      plain_uid (rmId (in_data m)) \<and> rmRevisionNumber (in_data m) \<in> {0..<2 ^ 32}"
    and "\<forall>rs \<in> set (concat (listings hs)). plain_uid (rsUID rs) \<and>
      Atoi_value (param (rsAnnotations rs) ''deployment.kubernetes.io/revision'') \<in> {0..<2 ^ 32}"
    and "collects quote empty_err data hs s = (rs, s')"
    and "ExtractKubeDeploymentRevisions store del count_err cursor_err ctx fetch quote time_text (Some data) (cn_data s') stored = (BsOk, stored', n)"
  shows "\<exists>Ls. subseq Ls (listings hs) \<and>
    (cn_faults s = [] \<longrightarrow> Ls = listings hs \<and> (\<forall>i L. i < length hs \<and> hs ! i = Inr L \<and> L \<noteq> [] \<longrightarrow> rs ! i = Fine ())) \<and>
    prefix (cn_data s) (cn_data s') \<and>
    n = length [m \<leftarrow> cn_data s. in_params m = kube_params quote (tdOptions data)] + length (concat Ls) \<and>
    (\<forall>rs \<in> set (concat Ls). \<exists>x r. find (\<lambda>x. rsUID x = rsUID rs) (rev (concat Ls)) = Some x \<and>
      look stored' (TypeTable revision_type) [Some (FNum (int (koConnectionId (tdOptions data)))), Some (FStr (rsUID rs))] = Some r \<and>
      FieldByName r ''RevisionNumber'' = Some (FNum (Atoi_value (param (rsAnnotations x) ''deployment.kubernetes.io/revision''))) \<and>
      FieldByName r ''CreationTimestamp'' = Some (FOther (time_text (rsCreationTimestamp x)))) \<and>
    (\<forall>m \<in> set (cn_data s). in_params m = kube_params quote (tdOptions data) \<longrightarrow>
      look stored' (TypeTable revision_type) [Some (FNum (int (koConnectionId (tdOptions data)))), Some (FStr (rmId (in_data m)))] \<noteq> None)"
proof -
  define op where "op = tdOptions data"
  define c where "c = koConnectionId op"
  define p where "p = kube_params quote op"
  define g where "g = revision_of op (scope_id_of op)"
  obtain Ls added where Ls: "subseq Ls (listings hs)" "cn_data s' = cn_data s @ added" "\<forall>r \<in> set added. in_params r = p"
    "sorted (map in_id (cn_data s'))" "map in_data added = map g (concat Ls)"
    "cn_faults s = [] \<longrightarrow> Ls = listings hs \<and> (\<forall>i L. i < length hs \<and> hs ! i = Inr L \<and> L \<noteq> [] \<longrightarrow> rs ! i = Fine ())"
    using collects_runs [OF assms(2,6,3)] unfolding op_def p_def g_def by blast
  define old where "old = [m \<leftarrow> cn_data s. in_params m = p]"
  define raw where "raw = old @ added"
  have raw: "raw = [r \<leftarrow> cn_data s'. in_params r = kube_params quote op]"
    using Ls(3) by (simp add: raw_def old_def Ls(2) p_def [symmetric])
  have "set (concat Ls) \<subseteq> set (concat (listings hs))"
    using Ls(1) subseq_order.order_refl by (auto dest: list_emb_set)
  then have g_ok: "plain_uid (rmId (g x)) \<and> rmRevisionNumber (g x) \<in> {0..<2 ^ 32}" if "x \<in> set (concat Ls)" for x
    using that assms(5) by (auto simp: g_def revision_of_def)
  have ok: "\<forall>inp \<in> set raw. plain_uid (rmId (in_data inp)) \<and> rmRevisionNumber (in_data inp) \<in> {0..<2 ^ 32}"
  proof
    fix inp assume "inp \<in> set raw"
    then consider "inp \<in> set old" | "inp \<in> set added" by (auto simp: raw_def)
    then show "plain_uid (rmId (in_data inp)) \<and> rmRevisionNumber (in_data inp) \<in> {0..<2 ^ 32}"
    proof cases
      case 1
      with assms(4) show ?thesis by (simp add: old_def p_def op_def)
    next
      case 2
      then have "in_data inp \<in> set (map g (concat Ls))" unfolding Ls(5) [symmetric] by simp
      then obtain x where "x \<in> set (concat Ls)" "in_data inp = g x" unfolding set_map by (elim imageE)
      with g_ok show ?thesis by simp
    qed
  qed
  note stored = extraction_stores [OF assms(1) Ls(4) raw c_def ok op_def [symmetric] assms(7)]
  have listed: "\<exists>x r. find (\<lambda>x. rsUID x = rsUID rs) (rev (concat Ls)) = Some x \<and>
      look stored' (TypeTable revision_type) [Some (FNum (int c)), Some (FStr (rsUID rs))] = Some r \<and>
      FieldByName r ''RevisionNumber'' = Some (FNum (Atoi_value (param (rsAnnotations x) ''deployment.kubernetes.io/revision''))) \<and>
      FieldByName r ''CreationTimestamp'' = Some (FOther (time_text (rsCreationTimestamp x)))"
    if rs: "rs \<in> set (concat Ls)" for rs
  proof -
    obtain x where x: "find (\<lambda>x. rsUID x = rsUID rs) (rev (concat Ls)) = Some x"
      using rs by (metis (mono_tags, lifting) find_None_iff not_None_eq set_rev)
    have "map_option in_data (find ((\<lambda>m. rmId m = rsUID rs) \<circ> in_data) (rev added)) = map_option g (find ((\<lambda>m. rmId m = rsUID rs) \<circ> g) (rev (concat Ls)))"
      using Ls(5) by (intro find_via) (metis rev_map)
    moreover have "(\<lambda>m. rmId m = rsUID rs) \<circ> g = (\<lambda>x. rsUID x = rsUID rs)" by (auto simp: g_def revision_of_def)
    ultimately obtain inp where inp: "find (\<lambda>i. rmId (in_data i) = rsUID rs) (rev added) = Some inp" "in_data inp = g x"
      using x by (auto simp: comp_def)
    have last_one: "find (\<lambda>i. rmId (in_data i) = rsUID rs) (rev raw) = Some inp" using inp(1) by (simp add: raw_def find_append_Some)
    from find_SomeD [OF this] have "rsUID rs \<in> (\<lambda>i. rmId (in_data i)) ` set raw" by (auto intro: rev_image_eqI)
    then have "look stored' (TypeTable revision_type) [Some (FNum (int c)), Some (FStr (rsUID rs))] = Some (stored_revision time_text c inp)"
      using stored last_one by simp
    then show ?thesis using x by (auto simp: stored_fields inp(2)) (auto simp: g_def revision_of_def)
  qed
  have kept: "look stored' (TypeTable revision_type) [Some (FNum (int c)), Some (FStr (rmId (in_data m)))] \<noteq> None"
    if "m \<in> set (cn_data s)" "in_params m = p" for m
  proof -
    from that have m: "m \<in> set raw" by (simp add: raw_def old_def)
    then have "find (\<lambda>i. rmId (in_data i) = rmId (in_data m)) (rev raw) \<noteq> None" by (auto simp: find_None_iff)
    moreover from m have "rmId (in_data m) \<in> (\<lambda>i. rmId (in_data i)) ` set raw" by (rule imageI)
    ultimately show ?thesis using stored by auto
  qed
  have "length added = length (concat Ls)" using Ls(5) by (metis length_map)
  then have "n = length old + length (concat Ls)" using stored by (simp add: raw_def)
  moreover have "prefix (cn_data s) (cn_data s')" by (simp add: Ls(2))
  ultimately show ?thesis using Ls(1,6) listed kept unfolding old_def p_def c_def op_def by blast
qed

lemma demo_extraction:
  "fst (ExtractKubeDeploymentRevisions mem_store mem_delete None None (\<lambda>_. None) (\<lambda>_. None) id (\<lambda>_. ''t'') (Some demo_data)
     (cn_data (snd (collects id None demo_data [Inr [demo_set ''a'' ''1''], Inr [demo_set ''b'' ''2'']] demo_raw))) (100, \<lambda>_. Map.empty)) = BsOk"
  by code_simp

theorem removed_revisions_stay_witness:
  "\<exists>stored' n r. ExtractKubeDeploymentRevisions mem_store mem_delete None None (\<lambda>_. None) (\<lambda>_. None) id (\<lambda>_. ''t'') (Some demo_data)
      (cn_data (snd (collects id None demo_data [Inr [demo_set ''a'' ''1''], Inr [demo_set ''b'' ''2'']] demo_raw))) (100, \<lambda>_. Map.empty) = (BsOk, stored', n) \<and>
    snd stored' (TypeTable revision_type) [Some (FNum 1), Some (FStr ''a'')] = Some r"
proof -
  let ?hs = "[Inr [demo_set ''a'' ''1''], Inr [demo_set ''b'' ''2'']] :: (goerr + replica_set list) list"
  obtain res s' where c: "collects id None demo_data ?hs demo_raw = (res, s')" by fastforce
  obtain b stored' n where e: "ExtractKubeDeploymentRevisions mem_store mem_delete None None (\<lambda>_. None) (\<lambda>_. None) id (\<lambda>_. ''t'') (Some demo_data)
      (cn_data s') (100, \<lambda>_. Map.empty) = (b, stored', n)" by (metis prod_cases3)
  have "b = BsOk" using demo_extraction unfolding c snd_conv e by simp
  with e have e': "ExtractKubeDeploymentRevisions mem_store mem_delete None None (\<lambda>_. None) (\<lambda>_. None) id (\<lambda>_. ''t'') (Some demo_data)
      (cn_data s') (100, \<lambda>_. Map.empty) = (BsOk, stored', n)" by simp
  have ok: "\<forall>rs \<in> set (concat (listings ?hs)). plain_uid (rsUID rs) \<and>
      Atoi_value (param (rsAnnotations rs) ''deployment.kubernetes.io/revision'') \<in> {0..<2 ^ 32}"
    by (simp add: demo_set_def plain_uid_def param_def Atoi_value_def is_digit_def)
  have client: "tdClient demo_data = Some ()" by (simp add: demo_data_def)
  have sorted: "sorted (map in_id (cn_data demo_raw))" by (simp add: demo_raw_def)
  have old: "\<forall>m \<in> set (cn_data demo_raw). in_params m = kube_params id (tdOptions demo_data) \<longrightarrow>
      plain_uid (rmId (in_data m)) \<and> rmRevisionNumber (in_data m) \<in> {0..<2 ^ 32}" by (simp add: demo_raw_def)
  from removed_revisions_stay [OF memrec.record_store_axioms client sorted old ok c e']
  obtain Ls where all: "cn_faults demo_raw = [] \<longrightarrow> Ls = listings ?hs \<and> (\<forall>i L. i < length ?hs \<and> ?hs ! i = Inr L \<and> L \<noteq> [] \<longrightarrow> res ! i = Fine ())"
    and stored: "\<forall>rs \<in> set (concat Ls). \<exists>x r. find (\<lambda>x. rsUID x = rsUID rs) (rev (concat Ls)) = Some x \<and>
      snd stored' (TypeTable revision_type) [Some (FNum (int (koConnectionId (tdOptions demo_data)))), Some (FStr (rsUID rs))] = Some r \<and>
      FieldByName r ''RevisionNumber'' = Some (FNum (Atoi_value (param (rsAnnotations x) ''deployment.kubernetes.io/revision''))) \<and>
      FieldByName r ''CreationTimestamp'' = Some (FOther ''t'')" by (elim exE conjE) (rule that)
  have "cn_faults demo_raw = []" by (simp add: demo_raw_def)
  with all have "Ls = listings ?hs" by (simp only: simp_thms)
  then have "demo_set ''a'' ''1'' \<in> set (concat Ls)" by simp
  with stored have "\<exists>r. snd stored' (TypeTable revision_type)
      [Some (FNum (int (koConnectionId (tdOptions demo_data)))), Some (FStr (rsUID (demo_set ''a'' ''1'')))] = Some r" by blast
  then have "\<exists>r. snd stored' (TypeTable revision_type) [Some (FNum (int (koConnectionId (tdOptions demo_data)))), Some (FStr ''a'')] = Some r"
    by (simp add: demo_set_def)
  then have "\<exists>r. snd stored' (TypeTable revision_type) [Some (FNum 1), Some (FStr ''a'')] = Some r"
    by (simp add: demo_data_def demo_options_def)
  then show ?thesis unfolding c snd_conv using e' by blast
qed

end
