(* ===== verification/Iterators.thy ===== *)
theory Iterators
  imports LakeErrors
begin

text \<open>
  The iterators of \<open>helpers/pluginhelper/api/iterator.go\<close> that do not rest on the queue: over the rows of a cursor, one by one or in batches,
  and over days. A row is what scanning it gives, an error or a value; a day is its number.
\<close>

section \<open>Cursors\<close>

text \<open>The rows not read yet, and the row that \<open>Next\<close> has stopped at.\<close>

record 'x dal_rows =
  cu_rest :: "(goerr + 'x) list"
  cu_row :: "(goerr + 'x) option"

record 'x DalCursorIterator =
  it_cursor :: "'x dal_rows"
  it_batchSize :: int

definition NewBatchedDalCursorIterator :: "'x dal_rows \<Rightarrow> int \<Rightarrow> 'x DalCursorIterator" where
  "NewBatchedDalCursorIterator c n = \<lparr>it_cursor = c, it_batchSize = n\<rparr>"

definition NewDalCursorIterator :: "'x dal_rows \<Rightarrow> 'x DalCursorIterator" where
  "NewDalCursorIterator c = NewBatchedDalCursorIterator c (- 1)"

definition Cursor_Next :: "'x dal_rows \<Rightarrow> bool \<times> 'x dal_rows" where
  "Cursor_Next c = (case cu_rest c of
     [] \<Rightarrow> (False, c\<lparr>cu_row := None\<rparr>) | r # rs \<Rightarrow> (True, c\<lparr>cu_row := Some r, cu_rest := rs\<rparr>))"

definition Cursor_HasNext :: "'x DalCursorIterator \<Rightarrow> bool \<times> 'x DalCursorIterator" where
  "Cursor_HasNext it = (case Cursor_Next (it_cursor it) of (b, c) \<Rightarrow> (b, it\<lparr>it_cursor := c\<rparr>))"

definition Scan :: "'x dal_rows \<Rightarrow> goerr + 'x" where
  "Scan c = (case cu_row c of
     None \<Rightarrow> Inl (External ''sql: Scan called without calling Next'') | Some (Inl e) \<Rightarrow> Inl e | Some (Inr x) \<Rightarrow> Inr x)"

datatype 'x fetched = One 'x | Batch "'x list"

function batchedFetch :: "nat \<Rightarrow> 'x list \<Rightarrow> 'x DalCursorIterator \<Rightarrow> 'x fetched outcome \<times> 'x DalCursorIterator" where
  "batchedFetch i elems it =
     (case Scan (it_cursor it) of
        Inl e \<Rightarrow> (Fault (the (Convert (Some e))), it)
      | Inr x \<Rightarrow>
          if int i = it_batchSize it then (Fine (Batch (elems @ [x])), it)
          else case Cursor_HasNext it of
              (False, it') \<Rightarrow> (Fine (Batch (elems @ [x])), it')
            | (True, it') \<Rightarrow> batchedFetch (i + 1) (elems @ [x]) it')"
  by pat_completeness auto

termination batchedFetch
  by (relation "measure (\<lambda>(i, elems, it). length (cu_rest (it_cursor it)))")
    (auto simp: Cursor_HasNext_def Cursor_Next_def split: list.splits)

definition Cursor_Fetch :: "'x DalCursorIterator \<Rightarrow> 'x fetched outcome \<times> 'x DalCursorIterator" where
  "Cursor_Fetch it =
     (if 0 < it_batchSize it then batchedFetch 1 [] it
      else if it_batchSize it \<noteq> - 1 then (Panic, it)
      else case Scan (it_cursor it) of Inl e \<Rightarrow> (Fault e, it) | Inr x \<Rightarrow> (Fine (One x), it))"

text \<open>The loop of a caller, \<open>for it.HasNext() { it.Fetch() }\<close>, which ends at an error; a round takes a row at least.\<close>

fun drain :: "nat \<Rightarrow> 'x DalCursorIterator \<Rightarrow> 'x fetched list outcome" where
  "drain 0 it = Fine []"
| "drain (Suc n) it =
     (case Cursor_HasNext it of
        (False, it') \<Rightarrow> Fine []
      | (True, it') \<Rightarrow> bind_outcome (fst (Cursor_Fetch it')) (\<lambda>x.
          bind_outcome (drain n (snd (Cursor_Fetch it'))) (\<lambda>xs. Fine (x # xs))))"

section \<open>Days\<close>

record DateIterator =
  di_startTime :: int
  di_endTime :: int
  di_Days :: int
  di_Current :: int

definition NewDateIterator :: "int \<Rightarrow> int \<Rightarrow> DateIterator" where
  "NewDateIterator today days = \<lparr>di_startTime = today - days - 1, di_endTime = today - days, di_Days = days, di_Current = 0\<rparr>"

definition Date_HasNext :: "DateIterator \<Rightarrow> bool" where
  "Date_HasNext c \<longleftrightarrow> di_Current c < di_Days c"

definition Date_Fetch :: "DateIterator \<Rightarrow> (int \<times> int) \<times> DateIterator" where
  "Date_Fetch c =
     (let c' = c\<lparr>di_Current := di_Current c + 1\<rparr> in ((di_startTime c' + di_Current c', di_endTime c' + di_Current c'), c'))"

function drain_dates :: "DateIterator \<Rightarrow> (int \<times> int) list" where
  "drain_dates c = (if Date_HasNext c then case Date_Fetch c of (p, c') \<Rightarrow> p # drain_dates c' else [])"
  by pat_completeness auto

termination drain_dates
  by (relation "measure (\<lambda>c. nat (di_Days c - di_Current c))") (auto simp: Date_HasNext_def Date_Fetch_def Let_def)

declare batchedFetch.simps [simp del] drain_dates.simps [simp del]

section \<open>Draining\<close>

fun chunks :: "nat \<Rightarrow> 'x list \<Rightarrow> 'x list list" where
  "chunks n [] = []"
| "chunks n (x # xs) = (if n = 0 then [] else take n (x # xs) # chunks n (drop n (x # xs)))"

definition readable :: "'x list \<Rightarrow> 'x dal_rows" where
  "readable xs = \<lparr>cu_rest = map Inr xs, cu_row = None\<rparr>"

definition at_row :: "'x \<Rightarrow> 'x list \<Rightarrow> int \<Rightarrow> 'x DalCursorIterator" where
  "at_row x xs n = \<lparr>it_cursor = \<lparr>cu_rest = map Inr xs, cu_row = Some (Inr x)\<rparr>, it_batchSize = n\<rparr>"

lemma HasNext_readable:
  "Cursor_HasNext \<lparr>it_cursor = \<lparr>cu_rest = map Inr (x # xs), cu_row = r\<rparr>, it_batchSize = n\<rparr> = (True, at_row x xs n)"
  "Cursor_HasNext \<lparr>it_cursor = \<lparr>cu_rest = [], cu_row = r\<rparr>, it_batchSize = n\<rparr> =
     (False, \<lparr>it_cursor = \<lparr>cu_rest = [], cu_row = None\<rparr>, it_batchSize = n\<rparr>)"
  by (simp_all add: Cursor_HasNext_def Cursor_Next_def at_row_def)

text \<open>A batch is the next rows, and the cursor stands behind them.\<close>

lemma batchedFetch_takes:
  assumes "0 < k" "i + k = n + 1"
  shows "\<exists>r. batchedFetch i elems (at_row x xs (int n)) = (Fine (Batch (elems @ take k (x # xs))),
    \<lparr>it_cursor = \<lparr>cu_rest = map Inr (drop k (x # xs)), cu_row = r\<rparr>, it_batchSize = int n\<rparr>)"
  using assms
proof (induction k arbitrary: i elems x xs)
  case (Suc k)
  show ?case
  proof (cases "k = 0 \<or> xs = []")
    case True
    then show ?thesis
      using Suc.prems by (subst batchedFetch.simps) (auto simp: at_row_def Scan_def Cursor_HasNext_def Cursor_Next_def)
  next
    case False
    then obtain y ys where xs: "xs = y # ys" and k: "0 < k" by (cases xs) auto
    have "batchedFetch i elems (at_row x xs (int n)) = batchedFetch (i + 1) (elems @ [x]) (at_row y ys (int n))"
      using Suc.prems k by (subst batchedFetch.simps) (simp add: at_row_def Scan_def Cursor_HasNext_def Cursor_Next_def xs)
    then show ?thesis using Suc.IH [of "i + 1" "elems @ [x]" y ys] k Suc.prems by (simp add: xs)
  qed
qed simp

lemma drain_batches:
  assumes "0 < n" "length xs \<le> fuel"
  shows "drain fuel \<lparr>it_cursor = \<lparr>cu_rest = map Inr xs, cu_row = r\<rparr>, it_batchSize = int n\<rparr> = Fine (map Batch (chunks n xs))"
  using assms(2)
proof (induction fuel arbitrary: xs r)
  case (Suc fuel)
  show ?case
  proof (cases xs)
    case (Cons x ys)
    obtain r' where fetch: "batchedFetch 1 [] (at_row x ys (int n)) = (Fine (Batch (take n xs)),
        \<lparr>it_cursor = \<lparr>cu_rest = map Inr (drop n xs), cu_row = r'\<rparr>, it_batchSize = int n\<rparr>)"
      using batchedFetch_takes [OF assms(1), of 1 n "[]" x ys] by (auto simp: Cons)
    have "length (drop n xs) \<le> fuel" using Suc.prems assms(1) by (simp add: Cons)
    from Suc.IH [OF this] show ?thesis
      using assms(1) by (simp add: Cons HasNext_readable(1) [simplified] Cursor_Fetch_def at_row_def fetch [unfolded Cons at_row_def One_nat_def])
  qed (simp add: HasNext_readable)
qed (use assms in simp)

lemma drain_singles:
  assumes "length xs \<le> fuel"
  shows "drain fuel \<lparr>it_cursor = \<lparr>cu_rest = map Inr xs, cu_row = r\<rparr>, it_batchSize = - 1\<rparr> = Fine (map One xs)"
  using assms
proof (induction fuel arbitrary: xs r)
  case (Suc fuel)
  then show ?case
    by (cases xs) (auto simp: HasNext_readable(1) [simplified] HasNext_readable(2) Cursor_Fetch_def at_row_def Scan_def)
qed simp

text \<open>Draining an iterator over a cursor whose rows can all be read hands over every row once and in order: one by one without batches, and
  with batches of \<open>n\<close> as the rows cut after every \<open>n\<close>th, so that no row is lost between \<open>Fetch\<close>, which looks ahead at the end of a batch, and the
  next \<open>HasNext\<close>.\<close>

theorem iterator_drains:
  assumes "0 < n" "length xs \<le> fuel"
  shows "drain fuel (NewBatchedDalCursorIterator (readable xs) (int n)) = Fine (map Batch (chunks n xs)) \<and>
    drain fuel (NewDalCursorIterator (readable xs)) = Fine (map One xs) \<and> concat (chunks n xs) = xs"
proof -
  have "concat (chunks n xs) = xs" using assms(1) by (induction n xs rule: chunks.induct) auto
  then show ?thesis
    using assms by (simp add: NewBatchedDalCursorIterator_def NewDalCursorIterator_def readable_def drain_batches drain_singles)
qed

theorem iterator_drains_witness:
  "drain 5 (NewBatchedDalCursorIterator (readable [1, 2, 3, 4, 5 :: nat]) (int 2)) = Fine [Batch [1, 2], Batch [3, 4], Batch [5]]"
  using iterator_drains [of 2 "[1, 2, 3, 4, 5 :: nat]" 5] by simp

text \<open>The pairs of a date iterator are the days before today, from the first to the last, each beginning where the one before ends, and the last ends
  today.\<close>

theorem date_pairs_tile:
  "drain_dates (NewDateIterator today days) = map (\<lambda>k. (today - days + int k, today - days + int k + 1)) [0..<nat days]"
proof -
  have "drain_dates \<lparr>di_startTime = s, di_endTime = e, di_Days = days, di_Current = c\<rparr> =
      map (\<lambda>k. (s + c + int k + 1, e + c + int k + 1)) [0..<n]" if "n = nat (days - c)" for s e c n
    using that
  proof (induction n arbitrary: c)
    case 0
    then show ?case by (subst drain_dates.simps) (simp add: Date_HasNext_def)
  next
    case (Suc n)
    then have "n = nat (days - (c + 1))" "c < days" by simp_all
    with Suc.IH [of "c + 1"] show ?case
      by (subst drain_dates.simps) (simp add: Date_HasNext_def Date_Fetch_def Let_def upt_rec [of 0] map_Suc_upt [symmetric] algebra_simps del: upt_Suc)
  qed
  from this [of "nat days" 0] show ?thesis by (simp add: NewDateIterator_def algebra_simps)
qed

end
