(* ===== verification/IssuesDiff.thy ===== *)
theory IssuesDiff
  imports Refdiff Dora
begin

text \<open>
  \<open>CalculateIssuesDiff\<close> (\<open>plugins/refdiff/tasks/ref_issue_diff_calculator.go\<close>): for the pairs of refs of a task, the issues that the pull
  requests of the commits between them are linked to.
\<close>

record PullRequestIssue =
  piPullRequestId :: string
  piIssueId :: string
  piIssueKey :: int

record issue_tables =
  xt_diffs :: "CommitsDiff list"
  xt_prs :: "PullRequest list"
  xt_pr_commits :: "PullRequestCommit list"
  xt_pr_issues :: "PullRequestIssue list"
  xt_refs :: "ref list"

record RefsIssuesDiffs =
  xdNewRefId :: string
  xdOldRefId :: string
  xdNewRefCommitSha :: string
  xdOldRefCommitSha :: string
  xdIssueNumber :: int
  xdIssueId :: string

section \<open>The query\<close>

text \<open>The union of the commits of the pull requests of the repository and of their merge commits, each as a pair of a pull request and a
  commit.\<close>

definition combine_pr :: "string \<Rightarrow> issue_tables \<Rightarrow> (string \<times> string) list" where
  "combine_pr repoId d = remdups
     (concat (map (\<lambda>c. map (\<lambda>_. (prcPullRequestId c, prcCommitSha c))
        (filter (\<lambda>p. prId p = prcPullRequestId c \<and> prBaseRepoId p = repoId) (xt_prs d))) (xt_pr_commits d)) @
      map (\<lambda>p. (prId p, prMergeCommitSha p)) (filter (\<lambda>p. prBaseRepoId p = repoId) (xt_prs d)))"

text \<open>A row of the joins before the condition; \<open>None\<close> is a side that has no partner.\<close>

type_synonym issue_join = "CommitsDiff \<times> (string \<times> string) option \<times> PullRequestIssue option \<times> ref option \<times> ref option"

definition issue_joins :: "string \<Rightarrow> issue_tables \<Rightarrow> issue_join list" where
  "issue_joins repoId d = concat (map (\<lambda>c.
     concat (map (\<lambda>pr. concat (map (\<lambda>issue. concat (map (\<lambda>new. map (\<lambda>old. (c, pr, issue, new, old))
       (left_join (\<lambda>r. refCommitSha r = cdOldCommitSha c) (xt_refs d)))
       (left_join (\<lambda>r. refCommitSha r = cdNewCommitSha c) (xt_refs d))))
       (case pr of None \<Rightarrow> [None] | Some (i, _) \<Rightarrow> left_join (\<lambda>x. piPullRequestId x = i) (xt_pr_issues d))))
       (left_join (\<lambda>(i, sha). sha = cdCommitSha c) (combine_pr repoId d)))) (xt_diffs d))"

text \<open>The condition admits no row with a side missing.\<close>

fun wanted_join :: "string \<Rightarrow> (string \<times> string) list \<Rightarrow> issue_join \<Rightarrow> bool" where
  "wanted_join repoId pairList (c, pr, Some issue, Some new, Some old) \<longleftrightarrow>
     refRepoId new = repoId \<and> 0 < piIssueKey issue \<and> (refId new, refId old) \<in> set pairList"
| "wanted_join repoId pairList _ \<longleftrightarrow> False"

fun selected_issue :: "issue_join \<Rightarrow> RefsIssuesDiffs" where
  "selected_issue (c, pr, issue, new, old) =
     \<lparr>xdNewRefId = refId (the new), xdOldRefId = refId (the old), xdNewRefCommitSha = cdNewCommitSha c, xdOldRefCommitSha = cdOldCommitSha c,
      xdIssueNumber = piIssueKey (the issue), xdIssueId = piIssueId (the issue)\<rparr>"

definition issue_rows :: "string \<Rightarrow> (string \<times> string) list \<Rightarrow> issue_tables \<Rightarrow> RefsIssuesDiffs list" where
  "issue_rows repoId pairList d =
     sort_key (TextKey \<circ> xdNewRefId) (map selected_issue (filter (wanted_join repoId pairList) (issue_joins repoId d)))"

section \<open>The subtask\<close>

definition refs_issues_type :: slot_type where
  "refs_issues_type = \<lparr>st_name = ''*crossdomain.RefsIssuesDiffs'', st_elem = ''RefsIssuesDiffs'', st_ptr = True,
     st_primary = [''NewRefId'', ''OldRefId'', ''IssueId''], st_origin = True\<rparr>"

definition issue_row :: "RefsIssuesDiffs \<Rightarrow> row" where
  "issue_row x =
     \<lparr>r_type = refs_issues_type,
      r_fields = [(''NewRefId'', FStr (xdNewRefId x)), (''OldRefId'', FStr (xdOldRefId x)), (''NewRefCommitSha'', FStr (xdNewRefCommitSha x)),
        (''OldRefCommitSha'', FStr (xdOldRefCommitSha x)), (''IssueNumber'', FStr (show_int (xdIssueNumber x))), (''IssueId'', FStr (xdIssueId x))],
      r_embedded = [], r_origin = zero_origin\<rparr>"

text \<open>The input rows carry no origin. No parameters are given to the converter.\<close>

definition CalculateIssuesDiff :: "'db store_fn \<Rightarrow> 'db delete_fn \<Rightarrow> goerr option \<Rightarrow> (nat \<Rightarrow> goerr option) \<Rightarrow> (nat \<Rightarrow> goerr option)
    \<Rightarrow> RefdiffOptions \<Rightarrow> issue_tables \<Rightarrow> 'db \<Rightarrow> bs_result \<times> 'db \<times> nat" where
  "CalculateIssuesDiff store del cursor_err ctx fetch op d out =
     (let pairList = CaculatePairList (roRepoId op) (roAllPairs op) in
      if roProjectName op \<noteq> [] \<or> pairList = [] then (BsOk, out, 0)
      else case cursor_err of
        Some e \<Rightarrow> (BsErr e, out, 0)
      | None \<Rightarrow>
          (case NewRawDataSubTask ''commits_diffs'' [] of
             Inl e \<Rightarrow> (BsErr e, out, 0)
           | Inr (table, params) \<Rightarrow>
               DataConverter_Execute store del ctx fetch [refs_issues_type] table params 0 (\<lambda>inp. Inr [issue_row (in_data inp)])
                 (map (\<lambda>x. \<lparr>in_id = 0, in_params = [], in_origin = zero_origin, in_data = x\<rparr>) (issue_rows (roRepoId op) pairList d)) out))"

section \<open>What is selected\<close>

text \<open>An issue lies between two refs if a commit between them belongs to a pull request of the repository, or is its merge commit, that is linked
  to the issue.\<close>

definition in_pull_request :: "string \<Rightarrow> issue_tables \<Rightarrow> string \<Rightarrow> string \<Rightarrow> bool" where
  "in_pull_request repoId d i sha \<longleftrightarrow> (\<exists>p \<in> set (xt_prs d). prId p = i \<and> prBaseRepoId p = repoId \<and>
     (prMergeCommitSha p = sha \<or> (\<exists>c \<in> set (xt_pr_commits d). prcPullRequestId c = i \<and> prcCommitSha c = sha)))"

definition issue_between :: "string \<Rightarrow> (string \<times> string) list \<Rightarrow> issue_tables \<Rightarrow> string \<Rightarrow> string \<Rightarrow> string \<Rightarrow> bool" where
  "issue_between repoId pairList d newId oldId issueId \<longleftrightarrow>
     (\<exists>new \<in> set (xt_refs d). \<exists>old \<in> set (xt_refs d). \<exists>c \<in> set (xt_diffs d). \<exists>x \<in> set (xt_pr_issues d).
        refId new = newId \<and> refId old = oldId \<and> piIssueId x = issueId \<and>
        refRepoId new = repoId \<and> (newId, oldId) \<in> set pairList \<and> 0 < piIssueKey x \<and>
        refCommitSha new = cdNewCommitSha c \<and> refCommitSha old = cdOldCommitSha c \<and> in_pull_request repoId d (piPullRequestId x) (cdCommitSha c))"

lemma combine_pr_iff: "(i, sha) \<in> set (combine_pr repoId d) \<longleftrightarrow> in_pull_request repoId d i sha"
  by (fastforce simp: combine_pr_def in_pull_request_def)

lemma left_join_Some: "Some x \<in> set (left_join P xs) \<longleftrightarrow> x \<in> set xs \<and> P x"
  by (auto simp: left_join_def filter_empty_conv)

lemma issue_joins_mem:
  "(c, pr, issue, new, old) \<in> set (issue_joins repoId d) \<longleftrightarrow>
     c \<in> set (xt_diffs d) \<and> pr \<in> set (left_join (\<lambda>(i, sha). sha = cdCommitSha c) (combine_pr repoId d)) \<and>
     issue \<in> set (case pr of None \<Rightarrow> [None] | Some (i, _) \<Rightarrow> left_join (\<lambda>x. piPullRequestId x = i) (xt_pr_issues d)) \<and>
     new \<in> set (left_join (\<lambda>r. refCommitSha r = cdNewCommitSha c) (xt_refs d)) \<and>
     old \<in> set (left_join (\<lambda>r. refCommitSha r = cdOldCommitSha c) (xt_refs d))"
  unfolding issue_joins_def set_concat set_map by (simp add: image_iff)

lemma joins_iff:
  "(c, pr, Some x, Some new, Some old) \<in> set (issue_joins repoId d) \<longleftrightarrow>
     c \<in> set (xt_diffs d) \<and> new \<in> set (xt_refs d) \<and> refCommitSha new = cdNewCommitSha c \<and> old \<in> set (xt_refs d) \<and> refCommitSha old = cdOldCommitSha c \<and>
     x \<in> set (xt_pr_issues d) \<and> pr = Some (piPullRequestId x, cdCommitSha c) \<and> in_pull_request repoId d (piPullRequestId x) (cdCommitSha c)"
  by (cases pr) (auto simp: issue_joins_mem left_join_Some combine_pr_iff)

lemma wanted_cases: "wanted_join repoId pairList j \<Longrightarrow>
    \<exists>c pr x new old. j = (c, pr, Some x, Some new, Some old) \<and> refRepoId new = repoId \<and> 0 < piIssueKey x \<and> (refId new, refId old) \<in> set pairList"
  by (cases "(repoId, pairList, j)" rule: wanted_join.cases) auto

lemma issue_rows_iff:
  "(\<exists>r \<in> set (issue_rows repoId pairList d). xdNewRefId r = newId \<and> xdOldRefId r = oldId \<and> xdIssueId r = issueId) \<longleftrightarrow>
     issue_between repoId pairList d newId oldId issueId"
proof
  assume "\<exists>r \<in> set (issue_rows repoId pairList d). xdNewRefId r = newId \<and> xdOldRefId r = oldId \<and> xdIssueId r = issueId"
  then obtain j where j: "j \<in> set (issue_joins repoId d)" "wanted_join repoId pairList j"
    "xdNewRefId (selected_issue j) = newId" "xdOldRefId (selected_issue j) = oldId" "xdIssueId (selected_issue j) = issueId"
    by (auto simp: issue_rows_def)
  from wanted_cases [OF j(2)] obtain c pr x new old where J: "j = (c, pr, Some x, Some new, Some old)"
    "refRepoId new = repoId" "0 < piIssueKey x" "(refId new, refId old) \<in> set pairList" by blast
  with j show "issue_between repoId pairList d newId oldId issueId"
    unfolding issue_between_def by (intro bexI [of _ new] bexI [of _ old] bexI [of _ c] bexI [of _ x]) (auto simp: joins_iff)
next
  assume "issue_between repoId pairList d newId oldId issueId"
  then obtain new old c x where X: "(c, Some (piPullRequestId x, cdCommitSha c), Some x, Some new, Some old) \<in> set (issue_joins repoId d)"
    "refId new = newId" "refId old = oldId" "piIssueId x = issueId" "refRepoId new = repoId" "(newId, oldId) \<in> set pairList" "0 < piIssueKey x"
    unfolding issue_between_def joins_iff by auto
  then have "selected_issue (c, Some (piPullRequestId x, cdCommitSha c), Some x, Some new, Some old) \<in> set (issue_rows repoId pairList d)"
    by (force simp: issue_rows_def)
  then show "\<exists>r \<in> set (issue_rows repoId pairList d). xdNewRefId r = newId \<and> xdOldRefId r = oldId \<and> xdIssueId r = issueId"
    by (rule bexI [rotated]) (simp add: X)
qed

section \<open>What is stored\<close>

definition stored_issue :: "RefsIssuesDiffs \<Rightarrow> row" where
  "stored_issue x = stripZeroByte (issue_row x)"

definition issue_pk :: "string \<Rightarrow> string \<Rightarrow> string \<Rightarrow> fval option list" where
  "issue_pk newId oldId issueId = [Some (FStr (strip_nul newId)), Some (FStr (strip_nul oldId)), Some (FStr (strip_nul issueId))]"

lemma stored_issue_facts:
  "r_type (stored_issue x) = refs_issues_type" "row_pk (stored_issue x) = issue_pk (xdNewRefId x) (xdOldRefId x) (xdIssueId x)"
  by (simp_all add: stored_issue_def stripZeroByte_def issue_row_def row_pk_def FieldByName_def refs_issues_type_def issue_pk_def)

definition issue_inputs :: "RefdiffOptions \<Rightarrow> issue_tables \<Rightarrow> RefsIssuesDiffs list" where
  "issue_inputs op d = issue_rows (roRepoId op) (CaculatePairList (roRepoId op) (roAllPairs op)) d"

lemma issue_output:
  "etl_output (convert_etl (\<lambda>inp. Inr [issue_row (in_data inp)]))
     (map (\<lambda>x. \<lparr>in_id = 0, in_params = [], in_origin = zero_origin, in_data = x\<rparr>) xs) = map stored_issue xs"
proof -
  have "issue_row x\<lparr>r_origin := zero_origin\<rparr> = issue_row x" for x by (simp add: issue_row_def)
  then show ?thesis by (induction xs) (simp_all add: etl_output_def convert_etl_def convert_origin_def stored_issue_def issue_row_def)
qed

lemma no_pairs_no_rows: "issue_rows repoId [] d = []"
proof -
  have "\<not> wanted_join repoId [] j" for j using wanted_cases [of repoId "[]" j] by auto
  then show ?thesis by (simp add: issue_rows_def)
qed

lemma issues_upserted:
  assumes "record_store store look del" "keys_separate (map stored_issue (issue_inputs op d))" "roProjectName op = []"
    and "CalculateIssuesDiff store del cursor_err ctx fetch op d out = (BsOk, out', n)"
  shows "n = length (issue_inputs op d) \<and>
    look out' = (look out)(TypeTable refs_issues_type := upserts (map stored_issue (issue_inputs op d)) (look out (TypeTable refs_issues_type)))"
proof (cases "CaculatePairList (roRepoId op) (roAllPairs op) = []")
  case True
  then show ?thesis using assms(3,4) by (simp add: CalculateIssuesDiff_def issue_inputs_def no_pairs_no_rows)
next
  case False
  let ?inputs = "map (\<lambda>x. \<lparr>in_id = 0, in_params = [], in_origin = zero_origin, in_data = x\<rparr>) (issue_inputs op d)"
  let ?etl = "convert_etl (\<lambda>inp. Inr [issue_row (in_data inp)])"
  have "etl_run store del ?etl ctx fetch [refs_issues_type] ?inputs (NewBatchSaveDivider (batch_size 0) (''_raw_commits_diffs'') []) out = (BsOk, out', n)"
    using False assms(3,4) by (auto simp: CalculateIssuesDiff_def Let_def NewRawDataSubTask_def DataConverter_Execute_def issue_inputs_def split: option.splits)
  note run = record_store.etl_run_ok [OF assms(1) _ _ _ _ this, unfolded issue_output, OF assms(2)]
  have "look out' = replaced (NewBatchSaveDivider (batch_size 0) (''_raw_commits_diffs'') []) (map stored_issue (issue_inputs op d)) (look out) \<and>
      n = length ?inputs"
    by (rule run) (auto simp: convert_etl_def convert_origin_def batch_size_def stored_issue_facts)
  moreover have "filter (\<lambda>r. r_type r = t) (map stored_issue xs) = (if t = refs_issues_type then map stored_issue xs else [])" for t xs
    by (auto simp: filter_id_conv filter_empty_conv stored_issue_facts)
  ultimately show ?thesis
    by (auto simp: replaced_def outdated_def NewBatchSaveDivider_def fun_eq_iff split: target.splits)
qed

lemma upserts_keys: "upserts rs m k = m k \<or> (\<exists>r \<in> set rs. row_pk r = k)"
  by (induction rs arbitrary: m) (simp_all, metis fun_upd_apply)

lemma upserts_defined: "m k \<noteq> None \<or> k \<in> row_pk ` set rs \<Longrightarrow> upserts rs m k \<noteq> None"
proof (induction rs arbitrary: m)
  case (Cons a rs)
  then have "(m(row_pk a \<mapsto> a)) k \<noteq> None \<or> k \<in> row_pk ` set rs" by auto
  then show ?case unfolding upserts_simps by (rule Cons.IH [of "m(row_pk a \<mapsto> a)"])
qed simp

text \<open>C39. A run that returns nil has stored an issue for a pair of refs of the task exactly if a commit between the refs belongs to a pull request of the
  repository that is linked to the issue by a positive key, and has changed nothing else: since the subtask gives no parameters, the issues
  of an earlier run stay, also those no longer between the refs.\<close>

theorem issues_diff_stores:
  assumes "record_store store look del" "keys_separate (map stored_issue (issue_inputs op d))" "roProjectName op = []"
    and "CalculateIssuesDiff store del cursor_err ctx fetch op d out = (BsOk, out', n)"
  shows "(\<forall>newId oldId issueId. issue_between (roRepoId op) (CaculatePairList (roRepoId op) (roAllPairs op)) d newId oldId issueId \<longrightarrow>
      (\<exists>r. look out' (TypeTable refs_issues_type) (issue_pk newId oldId issueId) = Some r)) \<and>
    (\<forall>t k. look out' t k \<noteq> look out t k \<longrightarrow> t = TypeTable refs_issues_type \<and> (\<exists>newId oldId issueId.
      issue_between (roRepoId op) (CaculatePairList (roRepoId op) (roAllPairs op)) d newId oldId issueId \<and> k = issue_pk newId oldId issueId))"
proof (intro conjI allI impI)
  note look = conjunct2 [OF issues_upserted [OF assms]]
  note rows = issue_rows_iff [of "roRepoId op" "CaculatePairList (roRepoId op) (roAllPairs op)" d, folded issue_inputs_def]
  {
    fix newId oldId issueId assume "issue_between (roRepoId op) (CaculatePairList (roRepoId op) (roAllPairs op)) d newId oldId issueId"
    then obtain x where x: "x \<in> set (issue_inputs op d)" "issue_pk newId oldId issueId = row_pk (stored_issue x)"
      unfolding rows [symmetric] by (auto simp: stored_issue_facts)
    then show "\<exists>r. look out' (TypeTable refs_issues_type) (issue_pk newId oldId issueId) = Some r"
      using upserts_defined [of "look out (TypeTable refs_issues_type)" "row_pk (stored_issue x)" "map stored_issue (issue_inputs op d)"]
      by (auto simp: look)
  next
    fix t k assume "look out' t k \<noteq> look out t k"
    then have "t = TypeTable refs_issues_type" and "\<exists>x \<in> set (issue_inputs op d). row_pk (stored_issue x) = k"
      using upserts_keys [of "map stored_issue (issue_inputs op d)" "look out (TypeTable refs_issues_type)" k]
      by (auto simp: look split: if_splits)
    then show "t = TypeTable refs_issues_type" and "\<exists>newId oldId issueId.
      issue_between (roRepoId op) (CaculatePairList (roRepoId op) (roAllPairs op)) d newId oldId issueId \<and> k = issue_pk newId oldId issueId"
      unfolding rows [symmetric] by (auto simp: stored_issue_facts)
  }
qed

definition sample_issues :: issue_tables where
  "sample_issues =
     \<lparr>xt_diffs = [\<lparr>cdNewCommitSha = ''c2'', cdOldCommitSha = ''c1'', cdCommitSha = ''c2'', cdSortingIndex = 1\<rparr>],
      xt_prs = [\<lparr>prId = ''p'', prBaseRepoId = ''r'', prAuthorId = [], prCreatedDate = 0, prMergedDate = None, prMergeCommitSha = ''c2'',
        prOrigin = zero_origin\<rparr>],
      xt_pr_commits = [],
      xt_pr_issues = [\<lparr>piPullRequestId = ''p'', piIssueId = ''i'', piIssueKey = 7\<rparr>],
      xt_refs = [\<lparr>refId = ''r:v2'', refRepoId = ''r'', refName = ''v2'', refCommitSha = ''c2'', refCreatedDate = None\<rparr>,
        \<lparr>refId = ''r:v1'', refRepoId = ''r'', refName = ''v1'', refCommitSha = ''c1'', refCreatedDate = None\<rparr>]\<rparr>"

definition sample_refs :: RefdiffOptions where
  "sample_refs = \<lparr>roRepoId = ''r'', roPairs = [], roTagsPattern = [], roTagsLimit = 0, roTagsOrder = [],
     roAllPairs = [(''c2'', ''c1'', ''v2'', ''v1'')], roProjectName = []\<rparr>"

lemmas sample_simps = sample_issues_def sample_refs_def

lemma sample_inputs: "issue_inputs sample_refs sample_issues =
    [\<lparr>xdNewRefId = ''r:v2'', xdOldRefId = ''r:v1'', xdNewRefCommitSha = ''c2'', xdOldRefCommitSha = ''c1'', xdIssueNumber = 7, xdIssueId = ''i''\<rparr>]"
  by (simp add: sample_simps issue_inputs_def issue_rows_def issue_joins_def combine_pr_def left_join_def CaculatePairList_def)

lemma sample_diff_run: "fst (CalculateIssuesDiff mem_store mem_delete None (\<lambda>_. None) (\<lambda>_. None) sample_refs sample_issues (100, \<lambda>_. Map.empty)) = BsOk"
  by code_simp

theorem issues_diff_stores_witness:
  "\<exists>out' n r. CalculateIssuesDiff mem_store mem_delete None (\<lambda>_. None) (\<lambda>_. None) sample_refs sample_issues (100, \<lambda>_. Map.empty) = (BsOk, out', n) \<and>
    snd out' (TypeTable refs_issues_type) (issue_pk ''r:v2'' ''r:v1'' ''i'') = Some r"
proof -
  obtain b out' n where run: "CalculateIssuesDiff mem_store mem_delete None (\<lambda>_. None) (\<lambda>_. None) sample_refs sample_issues (100, \<lambda>_. Map.empty) = (b, out', n)"
    by (metis prod_cases3)
  then have "b = BsOk" using sample_diff_run by simp
  with run have ok: "CalculateIssuesDiff mem_store mem_delete None (\<lambda>_. None) (\<lambda>_. None) sample_refs sample_issues (100, \<lambda>_. Map.empty) = (BsOk, out', n)" by simp
  have sep: "keys_separate (map stored_issue (issue_inputs sample_refs sample_issues))"
    by (simp add: sample_inputs keys_separate_def row_key_def getKeyValue_def stored_issue_def stripZeroByte_def issue_row_def FieldByName_def
      refs_issues_type_def strip_nul_def)
  have "issue_between (roRepoId sample_refs) (CaculatePairList (roRepoId sample_refs) (roAllPairs sample_refs)) sample_issues ''r:v2'' ''r:v1'' ''i''"
    unfolding issue_rows_iff [symmetric] issue_inputs_def [symmetric] sample_inputs by simp
  moreover have "roProjectName sample_refs = []" by (simp add: sample_refs_def)
  ultimately have "\<exists>r. snd out' (TypeTable refs_issues_type) (issue_pk ''r:v2'' ''r:v1'' ''i'') = Some r"
    using issues_diff_stores [OF memrec.record_store_axioms sep _ ok] by blast
  with ok show ?thesis by blast
qed

end
