(* ===== verification/StarRocks.thy ===== *)
theory StarRocks
  imports Conn Iterators
begin

text \<open>
  The plugin \<open>starrocks\<close> (\<open>tasks/tasks.go\<close>, \<open>tasks/task_data.go\<close>, \<open>utils/utils.go\<close>, \<open>impl/impl.go\<close>): it copies tables of the lake to StarRocks, each
  into a new table that then takes the place of the old one. The statements run on a connection as in \<open>Conn\<close>; the rows go over HTTP. What
  the source database holds, the HTTP service, the encoding of JSON, regular expressions and the texts of errors are arguments.
\<close>

section \<open>Tables and types\<close>

definition GetTablesByDomainLayer :: "string \<Rightarrow> string list option" where
  "GetTablesByDomainLayer domainLayer =
     (if domainLayer = ''code'' then Some [''commits_diffs'', ''finished_commits_diffs'', ''pull_requests'', ''commits'', ''refs_pr_cherrypicks'',
        ''repos'', ''refs'', ''pull_request_commits'', ''repo_commits'', ''pull_request_labels'', ''commit_parents'', ''notes'',
        ''pull_request_comments'', ''commit_files'']
      else if domainLayer = ''crossdomain'' then Some [''pull_request_issues'', ''users'', ''issue_commits'', ''issue_repo_commits'',
        ''refs_issues_diffs'', ''board_repos'']
      else if domainLayer = ''devops'' then Some [''builds'', ''jobs'']
      else if domainLayer = ''ticket'' then Some [''board_issues'', ''boards'', ''changelogs'', ''issue_comments'', ''issue_labels'', ''issues'',
        ''sprints'', ''issue_worklogs'', ''board_sprints'', ''sprint_issues'']
      else None)"

definition hasPrefixes :: "string \<Rightarrow> string list \<Rightarrow> bool" where
  "hasPrefixes s prefixes = list_ex (HasPrefix s) prefixes"

definition stringIn :: "string \<Rightarrow> string list \<Rightarrow> bool" where
  "stringIn s l = list_ex (\<lambda>item. s = item) l"

definition HasSuffix :: "string \<Rightarrow> string \<Rightarrow> bool" where
  "HasSuffix s p \<longleftrightarrow> length p \<le> length s \<and> drop (length s - length p) s = p"

text \<open>\<open>strings.Split(s, "[]")[0]\<close>.\<close>

fun before_brackets :: "string \<Rightarrow> string" where
  "before_brackets [] = []"
| "before_brackets (c # cs) = (if HasPrefix (c # cs) ''[]'' then [] else c # before_brackets cs)"

lemma HasSuffix_append: "HasSuffix s p \<longleftrightarrow> (\<exists>q. s = q @ p)"
proof
  assume "HasSuffix s p"
  then have "s = take (length s - length p) s @ p" unfolding HasSuffix_def by (metis append_take_drop_id)
  then show "\<exists>q. s = q @ p" ..
qed (auto simp: HasSuffix_def)

lemma before_brackets_shorter: "length (before_brackets (q @ ''[]'')) \<le> length q"
  by (induction q) (auto simp: HasPrefix_def)

function GetStarRocksDataType :: "string \<Rightarrow> string" where
  "GetStarRocksDataType dataType0 =
     (let dataType = to_lower dataType0 in
      if hasPrefixes dataType [''datetime'', ''timestamp''] then ''datetime''
      else if stringIn dataType [''date''] then ''date''
      else if HasPrefix dataType ''bigint'' \<or> stringIn dataType [''bigserial''] then ''bigint''
      else if stringIn dataType [''char''] then ''char''
      else if stringIn dataType [''int'', ''integer'', ''serial''] then ''int''
      else if stringIn dataType [''tinyint(1)'', ''boolean''] then ''boolean''
      else if stringIn dataType [''smallint'', ''smallserial''] then ''smallint''
      else if stringIn dataType [''real''] then ''float''
      else if stringIn dataType [''numeric'', ''double precision''] then ''double''
      else if stringIn dataType [''decimal''] then ''decimal''
      else if stringIn dataType [''json'', ''jsonb''] then ''json''
      else if dataType = ''uuid'' then ''char(36)''
      else if HasSuffix dataType ''[]'' then ''array<'' @ GetStarRocksDataType (before_brackets dataType) @ ''>''
      else ''string'')"
  by pat_completeness auto

lemma to_lower_length [simp]: "length (to_lower s) = length s"
  by (simp add: to_lower_def)

lemma brackets_shorter: "HasSuffix (to_lower s) ''[]'' \<Longrightarrow> length (before_brackets (to_lower s)) < length s"
proof -
  assume "HasSuffix (to_lower s) ''[]''"
  then obtain q where q: "to_lower s = q @ ''[]''" by (auto simp: HasSuffix_append)
  from arg_cong [OF q, of length] have "length s = length q + 2" by simp
  with before_brackets_shorter [of q] show ?thesis unfolding q by simp
qed

termination GetStarRocksDataType
  by (relation "measure length") (auto simp: brackets_shorter)

declare GetStarRocksDataType.simps [simp del]

section \<open>The configuration and the databases\<close>

record StarRocksConfig =
  SourceType :: string
  SourceDsn :: string
  UpdateColumn :: string
  Host :: string
  Port :: int
  User :: string
  Password :: string
  Database :: string
  BeHost :: string
  BePort :: int
  TablePatterns :: "string list"
  BatchSize :: int
  OrderBy :: "string \<rightharpoonup> string"
  DomainLayer :: string
  Extra :: "string \<rightharpoonup> string"

definition PrepareTaskData_star :: "goerr + StarRocksConfig \<Rightarrow> goerr + StarRocksConfig" where
  "PrepareTaskData_star decoded =
     (case decoded of Inl e \<Rightarrow> Inl e | Inr op \<Rightarrow> Inr (if BeHost op = [] then op\<lparr>BeHost := Host op\<rparr> else op))"

text \<open>The metadata of a column; the flags are what the driver knows of it.\<close>

record column_meta =
  cm_name :: string
  cm_type :: "string option"
  cm_primary :: "bool \<times> bool"

text \<open>A cursor gives rows to scan, and may break: \<open>Next\<close> is then false, and \<open>Err\<close> would tell. Its rows depend on the ordering.\<close>

datatype 'x cursor_row = Row 'x | Broken goerr

record 'x src_table =
  ss_columns :: "column_meta list"
  ss_names :: "string list"
  ss_rows :: "string \<Rightarrow> 'x cursor_row list"
  ss_latest :: "string \<Rightarrow> int"
  ss_count :: nat

record 'x src_db =
  so_dialect :: string
  so_all :: "string list"
  so_table :: "string \<Rightarrow> 'x src_table"

text \<open>A table of StarRocks: the texts it was created with and its rows.\<close>

record 'v star_table =
  st_columns :: "string list"
  st_extra :: string
  st_rows :: "(string \<rightharpoonup> 'v) list"

type_synonym 'v star_tables = "string \<rightharpoonup> 'v star_table"

datatype star_log = UpToDate string | CreateFailed string goerr | BadStatus nat | LoadFailed string | LoadDone string
  | CountsDiffer nat nat | Loaded string

record 'v star_db =
  sd_dest :: "'v star_tables"
  sd_log :: "star_log list"
  sd_polls :: nat

record 'b request =
  rq_url :: string
  rq_headers :: "(string \<times> string) list"
  rq_user :: string
  rq_password :: string
  rq_content :: 'b

record response =
  rs_status :: nat
  rs_location :: "goerr + string"
  rs_content :: "goerr + string"

text \<open>The surroundings: the context at each look, the service that loads rows, \<open>json.Marshal\<close>, \<open>http.NewRequest\<close>, \<open>json.Unmarshal\<close> (of the
  text members of an object), scanning with the columns that are arrays, the latest value of a column, \<open>regexp.Match\<close>, the texts of errors, and
  the opening of databases.\<close>

record ('x, 'v, 'b) star_env =
  en_ctx :: "nat \<Rightarrow> goerr option"
  en_send :: "'b request \<Rightarrow> 'v star_tables \<Rightarrow> (goerr + response) \<times> 'v star_tables"
  en_marshal :: "(string \<rightharpoonup> 'v) list \<Rightarrow> goerr + 'b"
  en_new_request :: "string \<Rightarrow> goerr option"
  en_unmarshal :: "string \<Rightarrow> goerr + (string \<rightharpoonup> string)"
  en_scan :: "bool list \<Rightarrow> 'x \<Rightarrow> goerr + 'v list"
  en_latest :: "string \<Rightarrow> (string \<rightharpoonup> 'v) list \<Rightarrow> int"
  en_match :: "string \<Rightarrow> string \<Rightarrow> goerr + bool"
  en_err_text :: "goerr \<Rightarrow> string"
  en_lake :: "'x src_db"
  en_open :: "string \<Rightarrow> string \<Rightarrow> goerr + 'x src_db"
  en_open_star :: "string \<Rightarrow> goerr option"

type_synonym ('v, 'a) star_act = "('v star_db, 'a) act"

section \<open>Actions\<close>

definition tell :: "star_log \<Rightarrow> ('v, unit) star_act" where
  "tell l s = (Inr (), s\<lparr>cn_data := (cn_data s)\<lparr>sd_log := sd_log (cn_data s) @ [l]\<rparr>\<rparr>)"

definition look :: "('x, 'v, 'b) star_env \<Rightarrow> ('v, unit) star_act" where
  "look env s =
     ((case en_ctx env (sd_polls (cn_data s)) of Some e \<Rightarrow> Inl e | None \<Rightarrow> Inr ()),
      s\<lparr>cn_data := (cn_data s)\<lparr>sd_polls := sd_polls (cn_data s) + 1\<rparr>\<rparr>)"

definition Do :: "('x, 'v, 'b) star_env \<Rightarrow> 'b request \<Rightarrow> ('v, response) star_act" where
  "Do env rq s =
     (case en_send env rq (sd_dest (cn_data s)) of (r, dest) \<Rightarrow> (r, s\<lparr>cn_data := (cn_data s)\<lparr>sd_dest := dest\<rparr>\<rparr>))"

definition attempt :: "('d, 'a) act \<Rightarrow> ('d, goerr + 'a) act" where
  "attempt m s = (case m s of (r, s') \<Rightarrow> (Inr r, s'))"

text \<open>The statement is run once more after the error of an outdated plan.\<close>

definition once_more :: "('x, 'v, 'b) star_env \<Rightarrow> ('v, 'a) star_act \<Rightarrow> ('v, 'a) star_act" where
  "once_more env m =
     act_bind (attempt m) (\<lambda>r. case r of
        Inr x \<Rightarrow> act_ret x
      | Inl e \<Rightarrow> if strings_Contains (en_err_text env e) ''cached plan must not change result type'' then m else act_fail e)"

definition on_dest :: "('v star_tables \<Rightarrow> 'v star_tables) \<Rightarrow> 'v star_db \<Rightarrow> 'v star_db" where
  "on_dest f d = d\<lparr>sd_dest := f (sd_dest d)\<rparr>"

text \<open>\<open>None\<close> is a table that is missing.\<close>

definition dest_query :: "string \<Rightarrow> ('v star_table \<Rightarrow> 'a) \<Rightarrow> ('v, 'a) star_act" where
  "dest_query t f = act_bind (query (\<lambda>d. map_option f (sd_dest d t))) (\<lambda>r. case r of
     None \<Rightarrow> act_fail (External (''Unknown table '' @ t)) | Some x \<Rightarrow> act_ret x)"

section \<open>The new table\<close>

text \<open>The texts of the statement that creates it.\<close>

definition quoted :: "string \<Rightarrow> string \<Rightarrow> string" where
  "quoted q name = q @ name @ q"

definition create_text :: "string \<Rightarrow> string list \<Rightarrow> string \<Rightarrow> string" where
  "create_text tmp columns extra = ''DROP TABLE IF EXISTS '' @ tmp @ ''; CREATE TABLE IF NOT EXISTS `'' @ tmp @ ''` ( '' @ strings_join '','' columns
     @ '' ) '' @ extra"

definition create_table :: "string \<Rightarrow> string list \<Rightarrow> string \<Rightarrow> ('v, unit) star_act" where
  "create_table tmp columns extra = exec (on_dest (\<lambda>t. t(tmp \<mapsto> \<lparr>st_columns = columns, st_extra = extra, st_rows = []\<rparr>)))"

record columns_found =
  cf_map :: "string \<rightharpoonup> string"
  cf_columns :: "string list"
  cf_pks :: "string list"
  cf_orders :: "string list"
  cf_first :: string
  cf_firstName :: string

definition no_columns :: columns_found where
  "no_columns = \<lparr>cf_map = Map.empty, cf_columns = [], cf_pks = [], cf_orders = [], cf_first = [], cf_firstName = []\<rparr>"

definition add_column :: "string \<Rightarrow> column_meta \<Rightarrow> string \<Rightarrow> columns_found \<Rightarrow> columns_found" where
  "add_column separator cm columnDatatype f =
     (let name = cm_name cm;
          dataType = GetStarRocksDataType columnDatatype;
          f1 = f\<lparr>cf_map := (cf_map f)(name \<mapsto> dataType), cf_columns := cf_columns f @ [quoted ''`'' name @ '' '' @ dataType]\<rparr>;
          f2 = (if fst (cm_primary cm) \<and> snd (cm_primary cm)
                then f1\<lparr>cf_pks := cf_pks f1 @ [quoted ''`'' name], cf_orders := cf_orders f1 @ [quoted separator name]\<rparr> else f1)
      in if cf_first f2 = [] then f2\<lparr>cf_first := quoted ''`'' name, cf_firstName := quoted separator name\<rparr> else f2)"

text \<open>Whether the column \<open>updateColumn\<close> has the same latest value in both tables; a table that StarRocks does not have yet is not up to date.\<close>

definition up_to_date :: "('x, 'v, 'b) star_env \<Rightarrow> 'x src_db \<Rightarrow> string \<Rightarrow> string \<Rightarrow> string \<Rightarrow> ('v, bool) star_act" where
  "up_to_date env src updateColumn tab starrocksTable =
     act_bind (query (\<lambda>_. ss_latest (so_table src tab) updateColumn)) (\<lambda>updatedFrom.
     act_bind (attempt (dest_query starrocksTable (\<lambda>t. en_latest env updateColumn (st_rows t)))) (\<lambda>r. case r of
        Inl e \<Rightarrow> if \<not> strings_Contains (en_err_text env e) ''Unknown table'' then act_fail e else act_ret False
      | Inr updatedTo \<Rightarrow> act_ret (updatedFrom = updatedTo)))"

text \<open>\<open>None\<close>: the table is skipped.\<close>

fun find_columns :: "('x, 'v, 'b) star_env \<Rightarrow> 'x src_db \<Rightarrow> string \<Rightarrow> string \<Rightarrow> string \<Rightarrow> string \<Rightarrow> column_meta list \<Rightarrow> columns_found
    \<Rightarrow> ('v, columns_found option) star_act" where
  "find_columns env src updateColumn tab starrocksTable separator [] f = act_ret (Some f)"
| "find_columns env src updateColumn tab starrocksTable separator (cm # cms) f =
     act_bind (if cm_name cm = updateColumn then up_to_date env src updateColumn tab starrocksTable else act_ret False) (\<lambda>skip.
       if skip then act_ret None
       else case cm_type cm of
         None \<Rightarrow> act_fail (New Default (''Get ['' @ cm_name cm @ ''] ColumeType Failed''))
       | Some columnDatatype \<Rightarrow>
           find_columns env src updateColumn tab starrocksTable separator cms (add_column separator cm columnDatatype f))"

definition tmp_name :: "string \<Rightarrow> string" where
  "tmp_name starrocksTable = starrocksTable @ ''_tmp''"

definition order_text :: "StarRocksConfig \<Rightarrow> string \<Rightarrow> columns_found \<Rightarrow> string" where
  "order_text config tab f =
     (let orderBy = (case OrderBy config tab of Some v \<Rightarrow> v | None \<Rightarrow> strings_join '', '' (cf_orders f))
      in if orderBy = [] then cf_firstName f else orderBy)"

definition extra_text :: "StarRocksConfig \<Rightarrow> string \<Rightarrow> columns_found \<Rightarrow> string" where
  "extra_text config tab f =
     (case Extra config tab of Some v \<Rightarrow> v
      | None \<Rightarrow> ''engine=olap distributed by hash('' @ strings_join '', '' (if cf_pks f = [] then [cf_first f] else cf_pks f)
          @ '') properties('' @ quoted [CHR 0x22] ''replication_num'' @ '' = '' @ quoted [CHR 0x22] ''1'' @ '')'')"

text \<open>The map of the columns and the ordering, or \<open>None\<close> if the table is skipped.\<close>

definition createTmpTableInStarrocks :: "('x, 'v, 'b) star_env \<Rightarrow> 'x src_db \<Rightarrow> StarRocksConfig \<Rightarrow> string \<Rightarrow> string
    \<Rightarrow> ('v, ((string \<rightharpoonup> string) \<times> string) option) star_act" where
  "createTmpTableInStarrocks env src config tab starrocksTable =
     act_bind (once_more env (query (\<lambda>_. ss_columns (so_table src tab)))) (\<lambda>columnMetas.
       if so_dialect src \<noteq> ''postgres'' \<and> so_dialect src \<noteq> ''mysql''
       then act_fail (New NotFound (''unsupported dialect '' @ so_dialect src))
       else act_bind (find_columns env src (UpdateColumn config) tab starrocksTable
           (if so_dialect src = ''postgres'' then [CHR 0x22] else ''`'') columnMetas no_columns) (\<lambda>r. case r of
         None \<Rightarrow> act_ret None
       | Some f \<Rightarrow> act_bind (create_table (tmp_name starrocksTable) (cf_columns f) (extra_text config tab f)) (\<lambda>_.
           act_ret (Some (cf_map f, order_text config tab f)))))"

section \<open>Loading a batch\<close>

definition load_url :: "StarRocksConfig \<Rightarrow> string \<Rightarrow> string" where
  "load_url config tmp = ''http://'' @ BeHost config @ '':'' @ show_int (BePort config) @ ''/api/'' @ Database config @ ''/'' @ tmp @ ''/_stream_load''"

definition load_request :: "StarRocksConfig \<Rightarrow> 'b \<Rightarrow> string \<Rightarrow> 'b request" where
  "load_request config jsonData url =
     \<lparr>rq_url = url,
      rq_headers = [(''format'', ''json''), (''strip_outer_array'', ''true''), (''Expect'', ''100-continue''), (''ignore_json_size'', ''true''),
        (''Connection'', ''close'')],
      rq_user = User config, rq_password = Password config, rq_content = jsonData\<rparr>"

definition send_to :: "('x, 'v, 'b) star_env \<Rightarrow> StarRocksConfig \<Rightarrow> 'b \<Rightarrow> string \<Rightarrow> ('v, response) star_act" where
  "send_to env config jsonData url =
     act_bind (of_check (en_new_request env url)) (\<lambda>_. Do env (load_request config jsonData url))"

text \<open>A redirected request is sent once more; the answer to it is read, but the status that is looked at later is that of the first.\<close>

definition putBatchData :: "('x, 'v, 'b) star_env \<Rightarrow> StarRocksConfig \<Rightarrow> string \<Rightarrow> string \<Rightarrow> (string \<rightharpoonup> 'v) list \<Rightarrow> ('v, unit) star_act" where
  "putBatchData env config tmp tab batch =
     act_bind (of_sum (en_marshal env batch)) (\<lambda>jsonData.
     act_bind (send_to env config jsonData (load_url config tmp)) (\<lambda>resp.
     act_bind (if rs_status resp = 307
               then act_bind (of_sum (rs_location resp)) (\<lambda>location.
                    act_bind (send_to env config jsonData location) (\<lambda>respRetry. of_sum (rs_content respRetry)))
               else of_sum (rs_content resp)) (\<lambda>b.
     act_bind (of_sum (en_unmarshal env b)) (\<lambda>result.
     act_bind (act_when (rs_status resp \<noteq> 200) (tell (BadStatus (rs_status resp)))) (\<lambda>_.
       if result ''Status'' \<noteq> Some ''Success'' then tell (LoadFailed tab) else tell (LoadDone tab))))))"

section \<open>Copying a table\<close>

definition scan_row :: "('x, 'v, 'b) star_env \<Rightarrow> (string \<rightharpoonup> string) \<Rightarrow> string list \<Rightarrow> 'x \<Rightarrow> goerr + (string \<rightharpoonup> 'v)" where
  "scan_row env columnMap cols x =
     (case en_scan env (map (\<lambda>c. HasPrefix (case columnMap c of Some t \<Rightarrow> t | None \<Rightarrow> []) ''array'') cols) x of
        Inl e \<Rightarrow> Inl e | Inr vs \<Rightarrow> Inr (map_of (rev (zip cols vs))))"

text \<open>The rows that are left at the end wait for the last batch. The loop ends when \<open>Next\<close> is false, whatever the reason.\<close>

fun copy_rows :: "('x, 'v, 'b) star_env \<Rightarrow> StarRocksConfig \<Rightarrow> string \<Rightarrow> string \<Rightarrow> ('x \<Rightarrow> goerr + (string \<rightharpoonup> 'v)) \<Rightarrow> 'x cursor_row list
    \<Rightarrow> (string \<rightharpoonup> 'v) list \<Rightarrow> ('v, (string \<rightharpoonup> 'v) list) star_act" where
  "copy_rows env config tmp tab scan [] batch = act_ret batch"
| "copy_rows env config tmp tab scan (Broken e # rows) batch = act_ret batch"
| "copy_rows env config tmp tab scan (Row x # rows) batch =
     act_bind (look env) (\<lambda>_.
     act_bind (of_sum (scan x)) (\<lambda>row.
       let batch' = batch @ [row] in
       if int (length batch') = BatchSize config
       then act_bind (putBatchData env config tmp tab batch') (\<lambda>_. copy_rows env config tmp tab scan rows [])
       else copy_rows env config tmp tab scan rows batch'))"

definition drop_table :: "string \<Rightarrow> ('v, unit) star_act" where
  "drop_table t = exec (on_dest (\<lambda>d. d(t := None)))"

definition rename_table :: "string \<Rightarrow> string \<Rightarrow> ('v, unit) star_act" where
  "rename_table t u = act_bind (dest_query t id) (\<lambda>content. \<lambda>s.
     (Inr (), s\<lparr>cn_data := on_dest (\<lambda>d. d(t := None, u \<mapsto> content)) (cn_data s)\<rparr>))"

definition copyDataToDst :: "('x, 'v, 'b) star_env \<Rightarrow> 'x src_db \<Rightarrow> StarRocksConfig \<Rightarrow> string \<Rightarrow> string \<Rightarrow> (string \<rightharpoonup> string) \<Rightarrow> string
    \<Rightarrow> ('v, unit) star_act" where
  "copyDataToDst env src config tab starrocksTable columnMap orderBy =
     (let tmp = tmp_name starrocksTable in
      act_bind (once_more env (query (\<lambda>_. ss_rows (so_table src tab) orderBy))) (\<lambda>rows.
      act_bind (query (\<lambda>_. ss_names (so_table src tab))) (\<lambda>cols.
      act_bind (copy_rows env config tmp tab (scan_row env columnMap cols) rows []) (\<lambda>batch.
      act_bind (act_when (batch \<noteq> []) (putBatchData env config tmp tab batch)) (\<lambda>_.
      act_bind (drop_table starrocksTable) (\<lambda>_.
      act_bind (rename_table tmp starrocksTable) (\<lambda>_.
      act_bind (query (\<lambda>_. ss_count (so_table src tab))) (\<lambda>sourceCount.
      act_bind (dest_query starrocksTable (length \<circ> st_rows)) (\<lambda>starrocksCount.
      act_bind (act_when (sourceCount \<noteq> starrocksCount) (tell (CountsDiffer sourceCount starrocksCount))) (\<lambda>_.
        tell (Loaded tab)))))))))))"

section \<open>The subtask\<close>

fun match_patterns :: "('x, 'v, 'b) star_env \<Rightarrow> string \<Rightarrow> string list \<Rightarrow> goerr + string list" where
  "match_patterns env tab [] = Inr []"
| "match_patterns env tab (r # rs) =
     (case en_match env r tab of
        Inl e \<Rightarrow> Inl e
      | Inr ok \<Rightarrow> (case match_patterns env tab rs of Inl e \<Rightarrow> Inl e | Inr found \<Rightarrow> Inr ((if ok then [tab] else []) @ found)))"

fun match_tables :: "('x, 'v, 'b) star_env \<Rightarrow> string list \<Rightarrow> string list \<Rightarrow> goerr + string list" where
  "match_tables env patterns [] = Inr []"
| "match_tables env patterns (tab # tabs) =
     (case match_patterns env tab patterns of
        Inl e \<Rightarrow> Inl e
      | Inr found \<Rightarrow> (case match_tables env patterns tabs of Inl e \<Rightarrow> Inl e | Inr others \<Rightarrow> Inr (found @ others)))"

definition getExportingTables :: "('x, 'v, 'b) star_env \<Rightarrow> 'x src_db \<Rightarrow> StarRocksConfig \<Rightarrow> ('v, string list) star_act" where
  "getExportingTables env src config =
     (if DomainLayer config \<noteq> []
      then (case GetTablesByDomainLayer (DomainLayer config) of
        None \<Rightarrow> act_fail (New NotFound (''no table found by domain layer: '' @ DomainLayer config))
      | Some ts \<Rightarrow> act_ret ts)
      else act_bind (query (\<lambda>_. so_all src)) (\<lambda>allTables.
        if TablePatterns config = [] then act_ret allTables else of_sum (match_tables env (TablePatterns config) allTables)))"

definition getDbInstance :: "('x, 'v, 'b) star_env \<Rightarrow> StarRocksConfig \<Rightarrow> goerr + 'x src_db" where
  "getDbInstance env config =
     (if SourceType config = ''mysql'' \<or> SourceType config = ''postgres'' then en_open env (SourceType config) (SourceDsn config)
      else Inl (New NotFound (''unsupported source type '' @ SourceType config)))"

definition source_db :: "('x, 'v, 'b) star_env \<Rightarrow> StarRocksConfig \<Rightarrow> goerr + 'x src_db" where
  "source_db env config = (if SourceDsn config \<noteq> [] \<and> SourceType config \<noteq> [] then getDbInstance env config else Inr (en_lake env))"

text \<open>\<open>strings.TrimLeft(table, "_")\<close>.\<close>

definition dest_name :: "string \<Rightarrow> string" where
  "dest_name tab = dropWhile (\<lambda>c. c = CHR ''_'') tab"

definition convert :: "goerr \<Rightarrow> goerr" where
  "convert e = the (Convert (Some e))"

definition log_error :: "(goerr \<Rightarrow> star_log) \<Rightarrow> ('v, 'a) star_act \<Rightarrow> ('v, 'a) star_act" where
  "log_error f m = act_bind (attempt m) (\<lambda>r. case r of Inl e \<Rightarrow> act_bind (tell (f e)) (\<lambda>_. act_fail e) | Inr x \<Rightarrow> act_ret x)"

text \<open>The body of the loop over the tables.\<close>

definition export_table :: "('x, 'v, 'b) star_env \<Rightarrow> 'x src_db \<Rightarrow> StarRocksConfig \<Rightarrow> string \<Rightarrow> ('v, unit) star_act" where
  "export_table env src config tab =
     act_bind (look env) (\<lambda>_.
     act_bind (log_error (CreateFailed tab) (createTmpTableInStarrocks env src config tab (dest_name tab))) (\<lambda>r. case r of
        None \<Rightarrow> tell (UpToDate tab)
      | Some (columnMap, orderBy) \<Rightarrow> copyDataToDst env src config tab (dest_name tab) columnMap orderBy))"

definition star_dsn :: "StarRocksConfig \<Rightarrow> string" where
  "star_dsn config = User config @ '':'' @ Password config @ ''@tcp('' @ Host config @ '':'' @ show_int (Port config) @ '')/'' @ Database config
     @ ''?charset=utf8mb4&parseTime=True&loc=Local''"

definition ExportData :: "('x, 'v, 'b) star_env \<Rightarrow> StarRocksConfig \<Rightarrow> ('v, unit) star_act" where
  "ExportData env config = on_error convert
     (act_bind (of_sum (source_db env config)) (\<lambda>src.
      act_bind (getExportingTables env src config) (\<lambda>starrocksTables.
      act_bind (of_check (en_open_star env (star_dsn config))) (\<lambda>_.
        act_each (export_table env src config) starrocksTables))))"

end
