(* ===== verification/StarFacts.thy ===== *)
theory StarFacts
  imports StarRocks
begin

text \<open>
  The export to StarRocks: the types of its columns, what a table holds after it, what happens to the rows of loads that are refused, and what an
  export that fails leaves behind.
\<close>

section \<open>Types of columns\<close>

definition base_types :: "string list" where
  "base_types = [''datetime'', ''date'', ''bigint'', ''char'', ''int'', ''boolean'', ''smallint'', ''float'', ''double'', ''decimal'', ''json'',
     ''char(36)'', ''string'']"

inductive star_type :: "string \<Rightarrow> bool" where
  base: "t \<in> set base_types \<Longrightarrow> star_type t"
| array: "star_type t \<Longrightarrow> star_type (''array<'' @ t @ ''>'')"

text \<open>Every type the columns of a new table are given is a type of StarRocks, or an array of such a type, however deep the brackets nest.\<close>

theorem datatypes_known: "star_type (GetStarRocksDataType d)"
proof (induction d rule: GetStarRocksDataType.induct)
  case (1 d)
  have base: "t \<in> set base_types \<Longrightarrow> star_type t" for t by (rule star_type.base)
  show ?case
    unfolding GetStarRocksDataType.simps [of d] Let_def
    by (intro if_split [of star_type, THEN iffD2] conjI impI star_type.array 1) (auto intro!: base simp: base_types_def)
qed

lemma to_lower_append: "to_lower (s @ t) = to_lower s @ to_lower t"
  by (simp add: to_lower_def)

lemma lower_char: "(if 65 \<le> (of_char c :: nat) \<and> (of_char c :: nat) \<le> 90 then char_of ((of_char c :: nat) + 32) else c) = d \<Longrightarrow>
    (if 65 \<le> (of_char d :: nat) \<and> (of_char d :: nat) \<le> 90 then char_of ((of_char d :: nat) + 32) else d) = d"
  by (auto simp: of_char_of split: if_splits)

lemma to_lower_idem [simp]: "to_lower (to_lower s) = to_lower s"
  by (induction s) (auto simp: to_lower_def intro: lower_char)

lemma datatype_lower: "GetStarRocksDataType (to_lower d) = GetStarRocksDataType d"
  by (simp add: GetStarRocksDataType.simps [of "to_lower d"] GetStarRocksDataType.simps [of d])

lemma before_brackets_append: "CHR ''['' \<notin> set t \<Longrightarrow> before_brackets (t @ ''[]'') = t"
  by (induction t) (auto simp: HasPrefix_def)


lemma HasPrefix_of_append: "HasPrefix s p \<Longrightarrow> HasPrefix (s @ t) p"
  by (metis HasPrefix_append HasPrefix_def append.assoc append_take_drop_id)

lemma HasPrefix_brackets: "CHR ''['' \<notin> set p \<Longrightarrow> HasPrefix (s @ ''[]'') p \<longleftrightarrow> HasPrefix s p"
proof
  assume p: "CHR ''['' \<notin> set p" "HasPrefix (s @ ''[]'') p"
  show "HasPrefix s p"
  proof (cases "length p \<le> length s")
    case False
    then have "CHR ''['' \<in> set (take (length p) (s @ ''[]''))" by (cases "length p - length s") auto
    with p show ?thesis by (simp add: HasPrefix_def)
  qed (use p in \<open>simp add: HasPrefix_def\<close>)
qed (rule HasPrefix_of_append)

lemma brackets_listed: "stringIn (s @ ''[]'') l \<Longrightarrow> CHR '']'' \<in> last ` set l"
  by (force simp: stringIn_def list_ex_iff)

text \<open>C40. A column of a type followed by brackets becomes an array of the type before them, unless that begins like a time stamp, a date with
  a time or a big integer: of such arrays the brackets are ignored, and the values are read as if they were single ones.\<close>

theorem array_datatype:
  assumes "CHR ''['' \<notin> set (to_lower t)"
  shows "GetStarRocksDataType (t @ ''[]'') =
    (if hasPrefixes (to_lower t) [''datetime'', ''timestamp'', ''bigint''] then GetStarRocksDataType t
     else ''array<'' @ GetStarRocksDataType t @ ''>'')"
proof -
  let ?s = "to_lower t"
  have l: "to_lower (t @ ''[]'') = ?s @ ''[]''" by (simp add: to_lower_append, simp add: to_lower_def)
  have no: "\<not> stringIn (?s @ ''[]'') l" if "CHR '']'' \<notin> last ` set l" for l using brackets_listed that by blast
  have ne: "?s @ ''[]'' \<noteq> w" if "last w \<noteq> CHR '']''" for w using that by auto
  have suf: "HasSuffix (?s @ ''[]'') ''[]''" by (simp add: HasSuffix_def)
  have dt: "GetStarRocksDataType t = ''datetime''" if "hasPrefixes ?s [''datetime'', ''timestamp'']"
    using that by (simp add: GetStarRocksDataType.simps [of t])
  have big: "GetStarRocksDataType t = ''bigint''" if "\<not> hasPrefixes ?s [''datetime'', ''timestamp'']" "HasPrefix ?s ''bigint''"
  proof -
    have "?s \<noteq> ''date''" using that(2) by (auto simp: HasPrefix_def)
    with that show ?thesis by (simp add: GetStarRocksDataType.simps [of t] Let_def stringIn_def)
  qed
  show ?thesis
    unfolding GetStarRocksDataType.simps [of "t @ ''[]''"] Let_def l
    using dt big
    by (auto simp: no ne suf hasPrefixes_def HasPrefix_brackets before_brackets_append [OF assms] datatype_lower)
qed

theorem array_datatype_witness:
  "GetStarRocksDataType ''TEXT[]'' = ''array<string>'' \<and> GetStarRocksDataType ''bigint[]'' = ''bigint''"
proof -
  have l: "to_lower ''TEXT'' = ''text''" "to_lower ''bigint'' = ''bigint''" by code_simp+
  have p: "\<not> hasPrefixes ''text'' [''datetime'', ''timestamp'', ''bigint'']" "hasPrefixes ''bigint'' [''datetime'', ''timestamp'', ''bigint'']"
    by code_simp+
  have d: "GetStarRocksDataType ''TEXT'' = ''string''" "GetStarRocksDataType ''bigint'' = ''bigint''" by code_simp+
  from array_datatype [of "''TEXT''"] array_datatype [of "''bigint''"] show ?thesis by (simp add: l p d)
qed


section \<open>Runs that return\<close>

named_theorems run_iff \<open>what a run that returned has done\<close>

lemma act_bind_run [run_iff]: "act_bind m f s = (Inr y, u) \<longleftrightarrow> (\<exists>x t. m s = (Inr x, t) \<and> f x t = (Inr y, u))"
  by (auto simp: act_bind_def split: prod.splits sum.splits)

lemma plain_runs [run_iff]:
  "act_ret x s = (Inr y, u) \<longleftrightarrow> y = x \<and> u = s"
  "act_fail e s \<noteq> (Inr y, u)"
  "of_sum r s = (Inr y, u) \<longleftrightarrow> r = Inr y \<and> u = s"
  "of_check c s = (Inr (), u) \<longleftrightarrow> c = None \<and> u = s"
  "attempt m s = (Inr r, u) \<longleftrightarrow> m s = (r, u)"
  by (auto simp: act_ret_def act_fail_def of_sum_def of_check_def attempt_def split: sum.splits option.splits prod.splits)

lemma when_run [run_iff]: "act_when b m s = (Inr (), u) \<longleftrightarrow> (if b then m s = (Inr (), u) else u = s)"
  by (auto simp: act_when_def act_ret_def)

text \<open>The tables and the log after an action.\<close>

abbreviation dest :: "'v star_db conn \<Rightarrow> 'v star_tables" where
  "dest s \<equiv> sd_dest (cn_data s)"

abbreviation logged :: "'v star_db conn \<Rightarrow> star_log list" where
  "logged s \<equiv> sd_log (cn_data s)"

lemma tell_run [run_iff]:
  "tell l s = (Inr (), u) \<longleftrightarrow> u = s\<lparr>cn_data := (cn_data s)\<lparr>sd_log := logged s @ [l]\<rparr>\<rparr>"
  by (auto simp: tell_def)

lemma look_run [run_iff]:
  "look env s = (Inr (), u) \<longleftrightarrow> en_ctx env (sd_polls (cn_data s)) = None \<and> u = s\<lparr>cn_data := (cn_data s)\<lparr>sd_polls := sd_polls (cn_data s) + 1\<rparr>\<rparr>"
  by (auto simp: look_def split: option.splits)

lemma Do_run [run_iff]:
  "Do env rq s = (Inr r, u) \<longleftrightarrow> (\<exists>d. en_send env rq (dest s) = (Inr r, d) \<and> u = s\<lparr>cn_data := (cn_data s)\<lparr>sd_dest := d\<rparr>\<rparr>)"
  by (auto simp: Do_def split: prod.splits)

section \<open>The service that loads rows\<close>

text \<open>What an answer says: whether it can be read, and whether it reports success.\<close>

definition reply :: "('x, 'v, 'b) star_env \<Rightarrow> response \<Rightarrow> (string \<rightharpoonup> string) option" where
  "reply env resp = (case rs_content resp of Inl e \<Rightarrow> None | Inr b \<Rightarrow> (case en_unmarshal env b of Inl e \<Rightarrow> None | Inr r \<Rightarrow> Some r))"

definition success :: "('x, 'v, 'b) star_env \<Rightarrow> response \<Rightarrow> bool" where
  "success env resp \<longleftrightarrow> (\<exists>r. reply env resp = Some r \<and> r ''Status'' = Some ''Success'')"

definition append_rows :: "string \<Rightarrow> (string \<rightharpoonup> 'v) list \<Rightarrow> 'v star_tables \<Rightarrow> 'v star_tables" where
  "append_rows t rows d = (case d t of None \<Rightarrow> d | Some c \<Rightarrow> d(t \<mapsto> c\<lparr>st_rows := st_rows c @ rows\<rparr>))"

text \<open>The documented behaviour: \<open>named\<close> gives the table that an address loads into, and \<open>content\<close> the rows of a text. Only that table changes. An
  answer that reports success has added the rows; a readable one that reports something else has added them all, as with the status
  \<open>Publish Timeout\<close>, or none; a redirect, which reports no success, changes nothing and gives an address of the same table.\<close>

definition stream_load :: "('x, 'v, 'b) star_env \<Rightarrow> StarRocksConfig \<Rightarrow> (string \<Rightarrow> string) \<Rightarrow> ('b \<Rightarrow> (string \<rightharpoonup> 'v) list) \<Rightarrow> bool" where
  "stream_load env config named content \<longleftrightarrow>
     (\<forall>tmp. named (load_url config tmp) = tmp) \<and>
     (\<forall>rows b. en_marshal env rows = Inr b \<longrightarrow> content b = rows) \<and>
     (\<forall>rq d r d'. en_send env rq d = (r, d') \<longrightarrow>
        (\<forall>t. t \<noteq> named (rq_url rq) \<longrightarrow> d' t = d t) \<and> (\<forall>t. d' t = None \<longleftrightarrow> d t = None) \<and>
        (\<forall>resp. r = Inr resp \<longrightarrow>
           (rs_status resp = 307 \<longrightarrow> d' = d \<and> \<not> success env resp \<and> (\<forall>l. rs_location resp = Inr l \<longrightarrow> named l = named (rq_url rq))) \<and>
           (success env resp \<longrightarrow> d' = append_rows (named (rq_url rq)) (content (rq_content rq)) d) \<and>
           (reply env resp \<noteq> None \<longrightarrow> d' = d \<or> d' = append_rows (named (rq_url rq)) (content (rq_content rq)) d)))"

text \<open>Between two connections rows were added to a table and entries to the log.\<close>

definition ran :: "string \<Rightarrow> (string \<rightharpoonup> 'v) list \<Rightarrow> star_log list \<Rightarrow> 'v star_db conn \<Rightarrow> 'v star_db conn \<Rightarrow> bool" where
  "ran tmp rows L s u \<longleftrightarrow> dest u = append_rows tmp rows (dest s) \<and> logged u = logged s @ L \<and> cn_faults u = cn_faults s"

lemma ran_trans: "ran tmp a L s t \<Longrightarrow> ran tmp b M t u \<Longrightarrow> ran tmp (a @ b) (L @ M) s u"
  by (auto simp: ran_def append_rows_def split: option.splits)

text \<open>The log of loads of the table \<open>tab\<close>, of which those marked \<open>False\<close> did not report success.\<close>

definition load_log :: "string \<Rightarrow> bool list \<Rightarrow> star_log list \<Rightarrow> bool" where
  "load_log tab said L \<longleftrightarrow> (LoadFailed tab \<in> set L \<longleftrightarrow> False \<in> set said) \<and> (\<forall>t. UpToDate t \<notin> set L) \<and> (\<forall>t. LoadFailed t \<in> set L \<longrightarrow> t = tab)"

lemma load_log_append: "load_log tab oks L \<Longrightarrow> load_log tab oks' M \<Longrightarrow> load_log tab (oks @ oks') (L @ M)"
  by (auto simp: load_log_def)

lemma send_to_run:
  "send_to env config b url s = (Inr r, u) \<longleftrightarrow>
     en_new_request env url = None \<and>
     (\<exists>d. en_send env (load_request config b url) (dest s) = (Inr r, d) \<and> u = s\<lparr>cn_data := (cn_data s)\<lparr>sd_dest := d\<rparr>\<rparr>)"
  by (auto simp: send_to_def run_iff)

lemma append_none [simp]: "append_rows t [] d = d"
  by (auto simp: append_rows_def split: option.splits)

lemma send_frame:
  "stream_load env config named content \<Longrightarrow> en_send env rq d = (r, d') \<Longrightarrow>
     (\<forall>t. t \<noteq> named (rq_url rq) \<longrightarrow> d' t = d t) \<and> (\<forall>t. d' t = None \<longleftrightarrow> d t = None)"
  by (simp add: stream_load_def)

lemma send_redirect:
  "stream_load env config named content \<Longrightarrow> en_send env rq d = (Inr resp, d') \<Longrightarrow> rs_status resp = 307 \<Longrightarrow> rs_location resp = Inr l \<Longrightarrow>
     named l = named (rq_url rq)"
  by (auto simp: stream_load_def)

lemma send_answer:
  assumes "stream_load env config named content" "en_send env rq d = (Inr a, d')" "reply env a \<noteq> None"
  shows "\<exists>ok. (success env a \<longrightarrow> ok) \<and> d' = append_rows (named (rq_url rq)) (if ok then content (rq_content rq) else []) d"
proof -
  from assms(1,2) have "success env a \<longrightarrow> d' = append_rows (named (rq_url rq)) (content (rq_content rq)) d"
    "reply env a \<noteq> None \<longrightarrow> d' = d \<or> d' = append_rows (named (rq_url rq)) (content (rq_content rq)) d" unfolding stream_load_def by blast+
  with assms(3) show ?thesis by (cases "success env a") (auto intro: exI [of _ True] exI [of _ False])
qed

text \<open>A call that returns has loaded the batch, or has logged that the answer did not report success.\<close>

lemma put_run:
  assumes "stream_load env config named content" "putBatchData env config tmp tab batch s = (Inr (), u)"
  shows "\<exists>ok said L. (said \<longrightarrow> ok) \<and> ran tmp (if ok then batch else []) L s u \<and> load_log tab [said] L"
proof -
  from assms(2) obtain b resp s1 msg s2 r s3 where b: "en_marshal env batch = Inr b"
    and send: "send_to env config b (load_url config tmp) s = (Inr resp, s1)"
    and msg: "(if rs_status resp = 307
               then act_bind (of_sum (rs_location resp)) (\<lambda>location.
                    act_bind (send_to env config b location) (\<lambda>respRetry. of_sum (rs_content respRetry)))
               else of_sum (rs_content resp)) s1 = (Inr msg, s2)"
    and r: "en_unmarshal env msg = Inr r"
    and status: "act_when (rs_status resp \<noteq> 200) (tell (BadStatus (rs_status resp))) s2 = (Inr (), s3)"
    and out: "(if r ''Status'' \<noteq> Some ''Success'' then tell (LoadFailed tab) else tell (LoadDone tab)) s3 = (Inr (), u)"
    unfolding putBatchData_def by (auto simp: run_iff)
  define said where "said \<longleftrightarrow> r ''Status'' = Some ''Success''"
  define L where "L = (if rs_status resp \<noteq> 200 then [BadStatus (rs_status resp)] else []) @ [if said then LoadDone tab else LoadFailed tab]"
  have content: "content b = batch" and url: "named (load_url config tmp) = tmp"
    using assms(1) b by (auto simp: stream_load_def)
  have answer: "\<exists>ok. (success env a \<longrightarrow> ok) \<and> d' = append_rows (named l) (if ok then batch else []) (dest x)"
    if "en_send env (load_request config b l) (dest x) = (Inr a, d')" "reply env a \<noteq> None" for l x a d'
    using send_answer [OF assms(1) that] unfolding load_request_def by (simp only: request.simps content)
  have redirect: "s1 = s \<and> (\<forall>l. rs_location resp = Inr l \<longrightarrow> named l = tmp)" if "rs_status resp = 307"
    using assms(1) send that unfolding stream_load_def send_to_run by (fastforce simp: load_request_def url)
  have "\<exists>ok. (said \<longrightarrow> ok) \<and> s2 = s\<lparr>cn_data := (cn_data s)\<lparr>sd_dest := append_rows tmp (if ok then batch else []) (dest s)\<rparr>\<rparr>"
  proof (cases "rs_status resp = 307")
    case True
    with msg obtain l a where l: "rs_location resp = Inr l" "send_to env config b l s1 = (Inr a, s2)" "rs_content a = Inr msg"
      by (auto simp: run_iff)
    then have a: "reply env a = Some r" by (simp add: reply_def r)
    from redirect [OF True] l(1) have tmp: "s1 = s" "named l = tmp" by simp_all
    from l(2) obtain d where d: "en_send env (load_request config b l) (dest s) = (Inr a, d)" "s2 = s\<lparr>cn_data := (cn_data s)\<lparr>sd_dest := d\<rparr>\<rparr>"
      by (auto simp: send_to_run tmp(1))
    from answer [OF d(1)] a obtain ok where "success env a \<longrightarrow> ok" "d = append_rows tmp (if ok then batch else []) (dest s)"
      unfolding tmp(2) by auto
    with a d(2) show ?thesis by (intro exI [of _ ok]) (simp add: said_def success_def)
  next
    case False
    with msg have a: "rs_content resp = Inr msg" "s2 = s1" by (auto simp: run_iff)
    then have m: "reply env resp = Some r" by (simp add: reply_def r)
    from send a(2) obtain d where d: "en_send env (load_request config b (load_url config tmp)) (dest s) = (Inr resp, d)"
      "s2 = s\<lparr>cn_data := (cn_data s)\<lparr>sd_dest := d\<rparr>\<rparr>" by (auto simp: send_to_run)
    from answer [OF d(1)] m obtain ok where "success env resp \<longrightarrow> ok" "d = append_rows tmp (if ok then batch else []) (dest s)"
      unfolding url by auto
    with m d(2) show ?thesis by (intro exI [of _ ok]) (simp add: said_def success_def)
  qed
  then obtain ok where ok: "said \<longrightarrow> ok"
    and s2: "s2 = s\<lparr>cn_data := (cn_data s)\<lparr>sd_dest := append_rows tmp (if ok then batch else []) (dest s)\<rparr>\<rparr>" by blast
  have "ran tmp (if ok then batch else []) L s u"
    using status out unfolding s2 by (auto simp: L_def said_def ran_def run_iff split: if_splits)
  moreover have "load_log tab [said] L" by (auto simp: L_def load_log_def)
  ultimately show ?thesis using ok by blast
qed

lemma load_log_more: "load_log tab oks L \<Longrightarrow> \<forall>x \<in> set M. \<forall>t. x \<noteq> LoadFailed t \<and> x \<noteq> UpToDate t \<Longrightarrow> load_log tab oks (L @ M)"
  unfolding load_log_def set_append by blast

section \<open>The rows of a table\<close>

text \<open>The rows that a cursor gives before it ends or breaks, and those of the batches that were loaded.\<close>

fun read_rows :: "'x cursor_row list \<Rightarrow> 'x list" where
  "read_rows [] = []"
| "read_rows (Broken e # rs) = []"
| "read_rows (Row x # rs) = x # read_rows rs"

definition sent_rows :: "bool list \<Rightarrow> 'a list list \<Rightarrow> 'a list" where
  "sent_rows oks bs = concat (map snd (filter fst (zip oks bs)))"

lemma sent_rows_simps [simp]: "sent_rows [] bs = []" "sent_rows (ok # oks) (b # bs) = (if ok then b else []) @ sent_rows oks bs"
  by (simp_all add: sent_rows_def)

lemma sent_rows_all: "length oks = length bs \<Longrightarrow> False \<notin> set oks \<Longrightarrow> sent_rows oks bs = concat bs"
  by (induction oks bs rule: list_induct2) auto

lemma sent_rows_append: "length oks = length bs \<Longrightarrow> sent_rows (oks @ oks') (bs @ bs') = sent_rows oks bs @ sent_rows oks' bs'"
  by (simp add: sent_rows_def)

text \<open>The batches of a table: all of the size that is set but the last.\<close>

definition sized :: "int \<Rightarrow> 'a list list \<Rightarrow> 'a list \<Rightarrow> bool" where
  "sized n bs left \<longleftrightarrow> (\<forall>b \<in> set bs. int (length b) = n) \<and> (0 < n \<longrightarrow> int (length left) < n)"

text \<open>The loads of the batches \<open>bs\<close>: which were committed, what their answers said, and the log.\<close>

definition loaded :: "string \<Rightarrow> bool list \<Rightarrow> 'a list list \<Rightarrow> star_log list \<Rightarrow> bool" where
  "loaded tab oks bs L \<longleftrightarrow> length oks = length bs \<and> (\<exists>said. list_all2 (\<longrightarrow>) said oks \<and> load_log tab said L)"

lemma loaded_append:
  assumes "loaded tab oks bs L" "loaded tab oks' bs' M"
  shows "loaded tab (oks @ oks') (bs @ bs') (L @ M)"
proof -
  from assms obtain said said' where "list_all2 (\<longrightarrow>) said oks" "load_log tab said L" "list_all2 (\<longrightarrow>) said' oks'" "load_log tab said' M"
    "length oks = length bs" "length oks' = length bs'" unfolding loaded_def by blast
  then show ?thesis unfolding loaded_def by (auto intro!: exI [of _ "said @ said'"] list_all2_appendI load_log_append)
qed

lemma loaded_Nil: "loaded tab [] [] []"
  by (simp add: loaded_def load_log_def)

lemma put_loaded:
  assumes "stream_load env config named content" "putBatchData env config tmp tab batch s = (Inr (), u)"
  shows "\<exists>ok L. ran tmp (sent_rows [ok] [batch]) L s u \<and> loaded tab [ok] [batch] L"
proof -
  from put_run [OF assms] obtain ok said L where L: "said \<longrightarrow> ok" "ran tmp (if ok then batch else []) L s u" "load_log tab [said] L" by blast
  then have "loaded tab [ok] [batch] L" unfolding loaded_def by (intro conjI exI [of _ "[said]"]) simp_all
  with L(2) show ?thesis by (intro exI [of _ ok] exI [of _ L]) simp
qed

lemma copy_rows_run:
  assumes "stream_load env config named content"
  shows "copy_rows env config tmp tab scan rows batch s = (Inr left, u) \<Longrightarrow> sized (BatchSize config) [] batch \<Longrightarrow>
    \<exists>vs bs oks L. map scan (read_rows rows) = map Inr vs \<and> concat bs @ left = batch @ vs \<and>
      sized (BatchSize config) bs left \<and> ran tmp (sent_rows oks bs) L s u \<and> loaded tab oks bs L"
proof (induction rows arbitrary: batch s)
  case Nil
  then show ?case
    by (intro exI [of _ "[]"]) (auto simp: run_iff ran_def loaded_Nil)
next
  case (Cons r rows)
  show ?case
  proof (cases r)
    case (Broken e)
    with Cons.prems show ?thesis by (intro exI [of _ "[]"]) (auto simp: run_iff ran_def loaded_Nil)
  next
    case (Row x)
    let ?b = "\<lambda>row. batch @ [row]"
    from Cons.prems(1) obtain s1 row where s1: "look env s = (Inr (), s1)" "scan x = Inr row"
      and go: "(if int (length (?b row)) = BatchSize config
        then act_bind (putBatchData env config tmp tab (?b row)) (\<lambda>_. copy_rows env config tmp tab scan rows [])
        else copy_rows env config tmp tab scan rows (?b row)) s1 = (Inr left, u)"
      by (auto simp: Row run_iff Let_def split: if_splits)
    from s1(1) have look: "ran tmp [] [] s s1" by (auto simp: run_iff ran_def)
    show ?thesis
    proof (cases "int (length (?b row)) = BatchSize config")
      case True
      with go obtain s2 where put: "putBatchData env config tmp tab (?b row) s1 = (Inr (), s2)"
        and rest: "copy_rows env config tmp tab scan rows [] s2 = (Inr left, u)" by (auto simp: run_iff)
      from put_loaded [OF assms put] obtain ok L where ok: "ran tmp (sent_rows [ok] [?b row]) L s1 s2" "loaded tab [ok] [?b row] L" by blast
      have "sized (BatchSize config) [] []" by (simp add: sized_def)
      from Cons.IH [OF rest this] obtain vs bs oks M where IH: "map scan (read_rows rows) = map Inr vs" "concat bs @ left = vs"
        "sized (BatchSize config) bs left" "ran tmp (sent_rows oks bs) M s2 u" "loaded tab oks bs M" by auto
      from ran_trans [OF look ran_trans [OF ok(1) IH(4)]] loaded_append [OF ok(2) IH(5)] IH(1-3) True s1(2) show ?thesis
        by (intro exI [of _ "row # vs"] exI [of _ "?b row # bs"] exI [of _ "ok # oks"] exI [of _ "L @ M"]) (auto simp: Row sized_def)
    next
      case False
      with Cons.prems(2) have "sized (BatchSize config) [] (?b row)" by (auto simp: sized_def)
      with go False obtain vs bs oks M where IH: "map scan (read_rows rows) = map Inr vs" "concat bs @ left = ?b row @ vs"
        "sized (BatchSize config) bs left" "ran tmp (sent_rows oks bs) M s1 u" "loaded tab oks bs M"
        using Cons.IH [of "?b row" s1] by auto
      from ran_trans [OF look IH(4)] IH(1-3,5) s1(2) show ?thesis
        by (intro exI [of _ "row # vs"] exI [of _ bs] exI [of _ oks] exI [of _ M]) (auto simp: Row)
    qed
  qed
qed

text \<open>The columns and the rows that the export of a table goes by.\<close>

definition separator_of :: "'x src_db \<Rightarrow> string" where
  "separator_of src = (if so_dialect src = ''postgres'' then [CHR 0x22] else ''`'')"

definition add_columns :: "string \<Rightarrow> column_meta list \<Rightarrow> columns_found \<Rightarrow> columns_found" where
  "add_columns sep = fold (\<lambda>cm. add_column sep cm (the (cm_type cm)))"

definition source_columns :: "'x src_db \<Rightarrow> string \<Rightarrow> columns_found" where
  "source_columns src tab = add_columns (separator_of src) (ss_columns (so_table src tab)) no_columns"

definition source_rows :: "('x, 'v, 'b) star_env \<Rightarrow> 'x src_db \<Rightarrow> StarRocksConfig \<Rightarrow> string \<Rightarrow> (goerr + (string \<rightharpoonup> 'v)) list" where
  "source_rows env src config tab =
     (let f = source_columns src tab
      in map (scan_row env (cf_map f) (ss_names (so_table src tab))) (read_rows (ss_rows (so_table src tab) (order_text config tab f))))"

text \<open>A statement that only reads, whatever it returns; a statement that changes tables, or fails.\<close>

definition quiet :: "'v star_db conn \<Rightarrow> 'v star_db conn \<Rightarrow> bool" where
  "quiet s u \<longleftrightarrow> cn_data u = cn_data s \<and> (cn_faults s = [] \<longrightarrow> cn_faults u = [])"

lemma quiet_refl [simp]: "quiet s s"
  by (simp add: quiet_def)

lemma quiet_trans: "quiet s t \<Longrightarrow> quiet t u \<Longrightarrow> quiet s u"
  by (simp add: quiet_def)

lemma query_quiet: "query f s = (r, u) \<Longrightarrow> quiet s u \<and> (\<forall>x. r = Inr x \<longrightarrow> x = f (cn_data s)) \<and> (cn_faults s = [] \<longrightarrow> r = Inr (f (cn_data s)))"
  by (auto simp: query_def stmt_def Let_def quiet_def split: if_splits)

lemma exec_done: "exec f s = (r, u) \<Longrightarrow> (cn_faults s = [] \<longrightarrow> cn_faults u = [] \<and> r = Inr ()) \<and>
    cn_data u = (case r of Inl e \<Rightarrow> cn_data s | Inr x \<Rightarrow> f (cn_data s))"
  by (auto simp: exec_def stmt_def Let_def split: if_splits)

lemma dest_query_quiet: "dest_query t f s = (r, u) \<Longrightarrow> quiet s u \<and> (\<forall>x. r = Inr x \<longrightarrow> (\<exists>c. dest s t = Some c \<and> x = f c)) \<and>
    (cn_faults s = [] \<longrightarrow> r = (case dest s t of None \<Rightarrow> Inl (External (''Unknown table '' @ t)) | Some c \<Rightarrow> Inr (f c)))"
  by (auto simp: dest_query_def act_bind_def act_fail_def act_ret_def dest: query_quiet split: prod.splits sum.splits option.splits)

lemma once_more_query: "once_more env (query f) s = (r, u) \<Longrightarrow> quiet s u \<and> (\<forall>x. r = Inr x \<longrightarrow> x = f (cn_data s))"
proof -
  assume run: "once_more env (query f) s = (r, u)"
  obtain r1 s1 where one: "query f s = (r1, s1)" by fastforce
  note 1 = query_quiet [OF one]
  show ?thesis
  proof (cases r1)
    case (Inl e)
    show ?thesis
    proof (cases "strings_Contains (en_err_text env e) ''cached plan must not change result type''")
      case True
      with run one Inl have "query f s1 = (r, u)" by (simp add: once_more_def act_bind_def attempt_def)
      from query_quiet [OF this] 1 show ?thesis by (auto simp: quiet_def)
    qed (use run one Inl 1 in \<open>auto simp: once_more_def act_bind_def attempt_def act_fail_def\<close>)
  qed (use run one 1 in \<open>auto simp: once_more_def act_bind_def attempt_def act_ret_def\<close>)
qed

text \<open>Whether a table that was \<open>before\<close> needs no copy: the column to compare is one of the columns of the source, and its latest value in
  both tables is the same.\<close>

definition current :: "('x, 'v, 'b) star_env \<Rightarrow> 'x src_db \<Rightarrow> string \<Rightarrow> string \<Rightarrow> 'v star_table option \<Rightarrow> bool" where
  "current env src column tab before \<longleftrightarrow> column \<in> cm_name ` set (ss_columns (so_table src tab)) \<and>
     (\<exists>c. before = Some c \<and> ss_latest (so_table src tab) column = en_latest env column (st_rows c))"

lemma up_to_date_run:
  assumes "up_to_date env src c tab t s = (Inr b, u)"
  shows "quiet s u \<and> (cn_faults s = [] \<longrightarrow> (b \<longleftrightarrow> (\<exists>k. dest s t = Some k \<and> ss_latest (so_table src tab) c = en_latest env c (st_rows k))))"
proof -
  from assms obtain n s1 r s2 where n: "query (\<lambda>_. ss_latest (so_table src tab) c) s = (Inr n, s1)"
    and r: "dest_query t (\<lambda>k. en_latest env c (st_rows k)) s1 = (r, s2)"
    and b: "(case r of Inl e \<Rightarrow> if \<not> strings_Contains (en_err_text env e) ''Unknown table'' then act_fail e else act_ret False
      | Inr m \<Rightarrow> act_ret (n = m)) s2 = (Inr b, u)"
    unfolding up_to_date_def by (auto simp: act_bind_run plain_runs)
  from query_quiet [OF n] have 1: "quiet s s1" "n = ss_latest (so_table src tab) c" by simp_all
  note 2 = dest_query_quiet [OF r]
  from b have 3: "u = s2" "b \<longleftrightarrow> (\<exists>m. r = Inr m \<and> n = m)" by (auto simp: run_iff split: sum.splits if_splits)
  have q: "quiet s u" using 1(1) 2 3(1) quiet_trans by blast
  have "b \<longleftrightarrow> (\<exists>k. dest s t = Some k \<and> n = en_latest env c (st_rows k))" if "cn_faults s = []"
  proof -
    from that 1(1) have "cn_faults s1 = []" "dest s1 t = dest s t" by (simp_all add: quiet_def)
    with 2 have "r = (case dest s t of None \<Rightarrow> Inl (External (''Unknown table '' @ t)) | Some k \<Rightarrow> Inr (en_latest env c (st_rows k)))" by simp
    with 3(2) show ?thesis by (cases "dest s t") simp_all
  qed
  with q 1(2) show ?thesis by simp
qed

lemma find_columns_run:
  "find_columns env src c tab t sep cms f s = (Inr r, u) \<Longrightarrow>
     quiet s u \<and> (r = None \<or> r = Some (add_columns sep cms f)) \<and> (cn_faults s = [] \<longrightarrow> (r = None \<longleftrightarrow> c \<in> cm_name ` set cms \<and>
       (\<exists>k. dest s t = Some k \<and> ss_latest (so_table src tab) c = en_latest env c (st_rows k))))"
proof (induction cms arbitrary: f s)
  case (Cons cm cms)
  from Cons.prems obtain skip s1 where skip: "(if cm_name cm = c then up_to_date env src c tab t else act_ret False) s = (Inr skip, s1)"
    and go: "(if skip then act_ret None else case cm_type cm of
         None \<Rightarrow> act_fail (New Default (''Get ['' @ cm_name cm @ ''] ColumeType Failed''))
       | Some d \<Rightarrow> find_columns env src c tab t sep cms (add_column sep cm d f)) s1 = (Inr r, u)"
    by (auto simp: act_bind_run)
  have s1: "quiet s s1 \<and> (cn_faults s = [] \<longrightarrow> (skip \<longleftrightarrow> cm_name cm = c \<and>
      (\<exists>k. dest s t = Some k \<and> ss_latest (so_table src tab) c = en_latest env c (st_rows k))))"
    using skip up_to_date_run [of env src c tab t s skip s1] by (cases "cm_name cm = c") (auto simp: run_iff)
  show ?case
  proof (cases skip)
    case True
    with go s1 show ?thesis by (auto simp: run_iff)
  next
    case False
    with go obtain d where d: "cm_type cm = Some d" "find_columns env src c tab t sep cms (add_column sep cm d f) s1 = (Inr r, u)"
      by (cases "cm_type cm") (auto simp: run_iff)
    have cols: "add_columns sep (cm # cms) f = add_columns sep cms (add_column sep cm d f)" by (simp add: add_columns_def d(1))
    from Cons.IH [OF d(2)] s1 False show ?thesis
      unfolding cols by (auto simp: quiet_def)
  qed
qed (auto simp: run_iff add_columns_def)

lemma create_run:
  fixes s :: "'v star_db conn"
  assumes "createTmpTableInStarrocks env src config tab t s = (Inr r, u)"
  shows "(r = None \<and> quiet s u \<or> r = Some (cf_map (source_columns src tab), order_text config tab (source_columns src tab)) \<and>
      (cn_faults s = [] \<longrightarrow> cn_faults u = []) \<and> logged u = logged s \<and> (\<exists>c. dest u = (dest s)(tmp_name t \<mapsto> c) \<and> st_rows c = [])) \<and>
    (cn_faults s = [] \<longrightarrow> (r = None \<longleftrightarrow> current env src (UpdateColumn config) tab (dest s t)))"
proof -
  let ?f = "source_columns src tab"
  let ?c = "\<lparr>st_columns = cf_columns ?f, st_extra = extra_text config tab ?f, st_rows = []\<rparr> :: 'v star_table"
  from assms obtain cms s0 q s1 where metas: "once_more env (query (\<lambda>_. ss_columns (so_table src tab))) s = (Inr cms, s0)"
    and q: "find_columns env src (UpdateColumn config) tab t (separator_of src) cms no_columns s0 = (Inr q, s1)"
    and go: "(case q of None \<Rightarrow> act_ret None
       | Some f \<Rightarrow> act_bind (create_table (tmp_name t) (cf_columns f) (extra_text config tab f)) (\<lambda>_.
           act_ret (Some (cf_map f, order_text config tab f)))) s1 = (Inr r, u)"
    unfolding createTmpTableInStarrocks_def by (auto simp: separator_of_def act_bind_run plain_runs split: if_splits)
  from once_more_query [OF metas] have 0: "quiet s s0" "cms = ss_columns (so_table src tab)" by simp_all
  from find_columns_run [OF q] 0 have 1: "quiet s s1" "q = None \<or> q = Some ?f"
    "cn_faults s = [] \<longrightarrow> (q = None \<longleftrightarrow> current env src (UpdateColumn config) tab (dest s t))"
    by (auto simp: quiet_def source_columns_def current_def)
  from 1(2) consider "q = None" | "q = Some ?f" by blast
  then show ?thesis
  proof cases
    case 2
    from go 2 have made: "create_table (tmp_name t) (cf_columns ?f) (extra_text config tab ?f) s1 = (Inr (), u)"
      and r: "r = Some (cf_map ?f, order_text config tab ?f)" by (auto simp: act_bind_run plain_runs)
    from exec_done [OF made [unfolded create_table_def]] 1(1)
    have u: "cn_data u = on_dest (\<lambda>m. m(tmp_name t \<mapsto> ?c)) (cn_data s)" "cn_faults s = [] \<longrightarrow> cn_faults u = []" by (auto simp: quiet_def)
    then have "dest u = (dest s)(tmp_name t \<mapsto> ?c) \<and> st_rows ?c = []" "logged u = logged s" by (simp_all add: on_dest_def)
    with r u(2) 1(3) 2 show ?thesis by auto
  qed (use go 1 in \<open>auto simp: plain_runs\<close>)
qed

section \<open>Loading and closing\<close>

lemma act_bind_assoc: "act_bind (act_bind m f) g = act_bind m (\<lambda>x. act_bind (f x) g)"
  by (rule ext) (simp add: act_bind_def split: prod.split sum.split)

text \<open>A copy loads the batches, and then exchanges the tables and compares the numbers of rows.\<close>

definition loading :: "('x, 'v, 'b) star_env \<Rightarrow> 'x src_db \<Rightarrow> StarRocksConfig \<Rightarrow> string \<Rightarrow> string \<Rightarrow> (string \<rightharpoonup> string) \<Rightarrow> string \<Rightarrow> ('v, unit) star_act" where
  "loading env src config tab t columnMap orderBy =
     act_bind (once_more env (query (\<lambda>_. ss_rows (so_table src tab) orderBy))) (\<lambda>rows.
     act_bind (query (\<lambda>_. ss_names (so_table src tab))) (\<lambda>cols.
     act_bind (copy_rows env config (tmp_name t) tab (scan_row env columnMap cols) rows []) (\<lambda>batch.
       act_when (batch \<noteq> []) (putBatchData env config (tmp_name t) tab batch))))"

definition closing :: "string \<Rightarrow> string \<Rightarrow> nat \<Rightarrow> ('v, unit) star_act" where
  "closing tab t n =
     act_bind (drop_table t) (\<lambda>_.
     act_bind (rename_table (tmp_name t) t) (\<lambda>_.
     act_bind (query (\<lambda>_. n)) (\<lambda>sourceCount.
     act_bind (dest_query t (length \<circ> st_rows)) (\<lambda>starrocksCount.
     act_bind (act_when (sourceCount \<noteq> starrocksCount) (tell (CountsDiffer sourceCount starrocksCount))) (\<lambda>_.
       tell (Loaded tab))))))"

lemma copyDataToDst_split:
  "copyDataToDst env src config tab t columnMap orderBy =
     act_bind (loading env src config tab t columnMap orderBy) (\<lambda>_. closing tab t (ss_count (so_table src tab)))"
  by (simp add: copyDataToDst_def loading_def closing_def Let_def act_bind_assoc)

lemma loading_run:
  assumes "stream_load env config named content" "dest s (tmp_name t) = Some c" "st_rows c = []"
    and "loading env src config tab t (cf_map (source_columns src tab)) (order_text config tab (source_columns src tab)) s = (Inr (), u)"
  shows "\<exists>bs oks L c'. source_rows env src config tab = map Inr (concat bs) \<and> st_rows c' = sent_rows oks bs \<and>
    (\<forall>b \<in> set bs. 0 < BatchSize config \<longrightarrow> int (length b) \<le> BatchSize config) \<and> loaded tab oks bs L \<and>
    dest u = (dest s)(tmp_name t \<mapsto> c') \<and> logged u = logged s @ L \<and> (cn_faults s = [] \<longrightarrow> cn_faults u = [])"
proof -
  let ?f = "source_columns src tab" and ?tmp = "tmp_name t"
  let ?scan = "scan_row env (cf_map ?f) (ss_names (so_table src tab))"
  let ?rows = "ss_rows (so_table src tab) (order_text config tab ?f)"
  from assms(4) obtain rows s' cols s0 left s1 where r: "once_more env (query (\<lambda>_. ?rows)) s = (Inr rows, s')"
    and c: "query (\<lambda>_. ss_names (so_table src tab)) s' = (Inr cols, s0)"
    and copied0: "copy_rows env config ?tmp tab (scan_row env (cf_map ?f) cols) rows [] s0 = (Inr left, s1)"
    and rest: "act_when (left \<noteq> []) (putBatchData env config ?tmp tab left) s1 = (Inr (), u)"
    unfolding loading_def by (auto simp: act_bind_run)
  from once_more_query [OF r] query_quiet [OF c] have q: "quiet s s0" "rows = ?rows" "cols = ss_names (so_table src tab)"
    by (auto simp: quiet_def)
  note copied = copied0 [unfolded q(2,3)]
  have "sized (BatchSize config) [] ([] :: (string \<rightharpoonup> 'b) list)" by (simp add: sized_def)
  from copy_rows_run [OF assms(1) copied this] obtain vs bs oks L where 1: "source_rows env src config tab = map Inr vs" "concat bs @ left = vs"
    "sized (BatchSize config) bs left" "ran ?tmp (sent_rows oks bs) L s0 s1" "loaded tab oks bs L"
    by (auto simp: source_rows_def Let_def)
  obtain bs' oks' L' where 2: "concat bs' = vs" "\<forall>b \<in> set bs'. 0 < BatchSize config \<longrightarrow> int (length b) \<le> BatchSize config"
    "ran ?tmp (sent_rows oks' bs') L' s0 u" "loaded tab oks' bs' L'"
  proof (cases "left = []")
    case True
    with rest 1 that [of bs oks L] show ?thesis by (auto simp: run_iff sized_def)
  next
    case False
    with rest have put: "putBatchData env config ?tmp tab left s1 = (Inr (), u)" by (simp add: run_iff)
    from put_loaded [OF assms(1) put] obtain ok M where ok: "ran ?tmp (sent_rows [ok] [left]) M s1 u" "loaded tab [ok] [left] M" by blast
    have "length oks = length bs" using 1(5) by (simp add: loaded_def)
    then have "ran ?tmp (sent_rows (oks @ [ok]) (bs @ [left])) (L @ M) s0 u"
      using ran_trans [OF 1(4) ok(1)] by (simp add: sent_rows_append)
    with that [of "bs @ [left]" "oks @ [ok]" "L @ M"] 1 loaded_append [OF 1(5) ok(2)] show ?thesis
      by (auto simp: sized_def)
  qed
  define c' where "c' = c\<lparr>st_rows := sent_rows oks' bs'\<rparr>"
  have "dest u = (dest s)(?tmp \<mapsto> c') \<and> (cn_faults s = [] \<longrightarrow> cn_faults u = []) \<and> logged u = logged s @ L'"
    using 2(3) assms(2,3) q(1) by (auto simp: ran_def append_rows_def c'_def quiet_def)
  with 1(1) 2(1,2,4) show ?thesis
    by (intro exI [of _ bs'] exI [of _ oks'] exI [of _ L'] exI [of _ c']) (simp add: c'_def)
qed

lemma tell_twice: "act_bind (act_when b (tell x)) (\<lambda>_. tell y) s =
    (Inr (), s\<lparr>cn_data := (cn_data s)\<lparr>sd_log := logged s @ (if b then [x] else []) @ [y]\<rparr>\<rparr>)"
  by (cases b) (simp_all add: act_bind_def tell_def act_when_def act_ret_def)

lemma closing_returns:
  assumes "cn_faults s = []" "dest s (tmp_name t) = Some c"
  shows "\<exists>M. closing tab t n s = (Inr (), s\<lparr>cn_data := (cn_data s)\<lparr>sd_dest := (dest s)(tmp_name t := None, t \<mapsto> c), sd_log := logged s @ M\<rparr>\<rparr>) \<and>
    (\<forall>x \<in> set M. \<forall>t. x \<noteq> LoadFailed t \<and> x \<noteq> UpToDate t)"
proof -
  define b where "b \<longleftrightarrow> n \<noteq> length (st_rows c)"
  define M where "M = (if b then [CountsDiffer n (length (st_rows c))] else []) @ [Loaded tab]"
  have neq: "tmp_name t \<noteq> t" by (simp add: tmp_name_def)
  define s4 where "s4 = s\<lparr>cn_data := (cn_data s)\<lparr>sd_dest := (dest s)(tmp_name t := None, t \<mapsto> c)\<rparr>\<rparr>"
  have dropped: "drop_table t s = (Inr (), s\<lparr>cn_data := on_dest (\<lambda>d. d(t := None)) (cn_data s)\<rparr>)"
    using assms(1) by (simp add: drop_table_def exec_calm)
  moreover have "rename_table (tmp_name t) t (s\<lparr>cn_data := on_dest (\<lambda>d. d(t := None)) (cn_data s)\<rparr>) = (Inr (), s4)"
    using assms neq by (simp add: rename_table_def act_bind_def dest_query_def query_calm act_ret_def on_dest_def s4_def fun_upd_twist)
  moreover have "query (\<lambda>_. n) s4 = (Inr n, s4)" "dest_query t (length \<circ> st_rows) s4 = (Inr (length (st_rows c)), s4)"
    using assms(1) by (simp_all add: query_calm s4_def dest_query_def act_bind_def act_ret_def)
  ultimately have "closing tab t n s = (Inr (), s4\<lparr>cn_data := (cn_data s4)\<lparr>sd_log := logged s4 @ M\<rparr>\<rparr>)"
    unfolding closing_def by (simp add: act_bind_Inr tell_twice M_def b_def)
  then show ?thesis by (intro exI [of _ M]) (auto simp: s4_def M_def split: if_splits)
qed

text \<open>Where a closing statement fails, the old table may be gone, with the new one still under the temporary name, or exchanged.\<close>

lemma closing_fails:
  assumes "closing tab t n s = (Inl e, u)" "dest s (tmp_name t) = Some c"
  shows "dest u = dest s \<or> dest u = (dest s)(t := None) \<or> dest u = (dest s)(tmp_name t := None, t \<mapsto> c)"
proof -
  have neq: "tmp_name t \<noteq> t" by (simp add: tmp_name_def)
  obtain r1 s1 where d: "drop_table t s = (r1, s1)" by fastforce
  note dd = exec_done [OF d [unfolded drop_table_def]]
  show ?thesis
  proof (cases r1)
    case (Inl e1)
    with assms(1) d have "u = s1" by (simp add: closing_def act_bind_def)
    with dd Inl show ?thesis by simp
  next
    case (Inr x1)
    then have s1: "dest s1 = (dest s)(t := None)" using dd by (simp add: on_dest_def)
    obtain r2 s2 where q: "dest_query (tmp_name t) id s1 = (r2, s2)" by fastforce
    note qq = dest_query_quiet [OF q]
    show ?thesis
    proof (cases r2)
      case (Inl e2)
      with assms(1) d q Inr have "u = s2" by (simp add: closing_def act_bind_def rename_table_def)
      with qq s1 show ?thesis by (simp add: quiet_def)
    next
      case (Inr k)
      with qq s1 neq assms(2) have k: "k = c" by simp
      define s3 where "s3 = s2\<lparr>cn_data := on_dest (\<lambda>d. d(tmp_name t := None, t \<mapsto> k)) (cn_data s2)\<rparr>"
      have s3: "dest s3 = (dest s)(tmp_name t := None, t \<mapsto> c)"
        using qq s1 by (simp add: s3_def on_dest_def quiet_def k fun_upd_twist [OF neq])
      have "rename_table (tmp_name t) t s1 = (Inr (), s3)" using q Inr by (simp add: rename_table_def act_bind_def s3_def)
      with assms(1) d \<open>r1 = Inr x1\<close> have "act_bind (query (\<lambda>_. n)) (\<lambda>sc. act_bind (dest_query t (length \<circ> st_rows)) (\<lambda>k.
          act_bind (act_when (sc \<noteq> k) (tell (CountsDiffer sc k))) (\<lambda>_. tell (Loaded tab)))) s3 = (Inl e, u)"
        by (simp add: closing_def act_bind_def)
      then have "cn_data u = cn_data s3"
        by (auto simp: act_bind_def tell_def act_when_def act_ret_def quiet_def dest!: query_quiet dest_query_quiet split: prod.splits sum.splits if_splits)
      with s3 show ?thesis by simp
    qed
  qed
qed

lemma copyDataToDst_run:
  assumes "stream_load env config named content" "cn_faults s = []" "dest s (tmp_name t) = Some c" "st_rows c = []"
    and "copyDataToDst env src config tab t (cf_map (source_columns src tab)) (order_text config tab (source_columns src tab)) s = (Inr (), u)"
  shows "\<exists>bs oks L c'. source_rows env src config tab = map Inr (concat bs) \<and> st_rows c' = sent_rows oks bs \<and>
    (\<forall>b \<in> set bs. 0 < BatchSize config \<longrightarrow> int (length b) \<le> BatchSize config) \<and> loaded tab oks bs L \<and>
    dest u = (dest s)(tmp_name t := None, t \<mapsto> c') \<and> logged u = logged s @ L \<and> cn_faults u = []"
proof -
  from assms(5) obtain s1 where l: "loading env src config tab t (cf_map (source_columns src tab)) (order_text config tab (source_columns src tab)) s = (Inr (), s1)"
    and c: "closing tab t (ss_count (so_table src tab)) s1 = (Inr (), u)"
    unfolding copyDataToDst_split by (auto simp: act_bind_run)
  from loading_run [OF assms(1,3,4) l] obtain bs oks L c' where 1: "source_rows env src config tab = map Inr (concat bs)" "st_rows c' = sent_rows oks bs"
    "\<forall>b \<in> set bs. 0 < BatchSize config \<longrightarrow> int (length b) \<le> BatchSize config" "loaded tab oks bs L"
    "dest s1 = (dest s)(tmp_name t \<mapsto> c')" "logged s1 = logged s @ L" "cn_faults s1 = []" using assms(2) by blast
  have "dest s1 (tmp_name t) = Some c'" by (simp add: 1(5))
  from closing_returns [OF 1(7) this, of tab "ss_count (so_table src tab)"] c 1(5-7) obtain M where
    M: "dest u = (dest s)(tmp_name t := None, t \<mapsto> c')" "logged u = logged s @ L @ M" "cn_faults u = []"
      "\<forall>x \<in> set M. \<forall>t. x \<noteq> LoadFailed t \<and> x \<noteq> UpToDate t" by auto
  have "loaded tab oks bs (L @ M)" using 1(4) load_log_more [OF _ M(4)] unfolding loaded_def by blast
  with 1(1-3) M(1-3) show ?thesis by blast
qed

lemma log_error_run [run_iff]: "log_error f m s = (Inr x, u) \<longleftrightarrow> m s = (Inr x, u)"
  by (auto simp: log_error_def act_bind_def attempt_def act_ret_def act_fail_def tell_def split: prod.splits sum.splits)

text \<open>What an export makes of a table that was \<open>before\<close>, with the entries \<open>L\<close> in the log: nothing exactly if it is current; otherwise the rows of
  the source in their order, without the batches of loads that were not committed, and whose answers did not report success then.\<close>

definition copied :: "('x, 'v, 'b) star_env \<Rightarrow> 'x src_db \<Rightarrow> StarRocksConfig \<Rightarrow> string \<Rightarrow> star_log list \<Rightarrow> 'v star_table option \<Rightarrow> 'v star_table option
    \<Rightarrow> bool" where
  "copied env src config tab L before after \<longleftrightarrow>
     (UpToDate tab \<in> set L \<longleftrightarrow> current env src (UpdateColumn config) tab before) \<and>
     (if current env src (UpdateColumn config) tab before then after = before
      else \<exists>bs oks said c. source_rows env src config tab = map Inr (concat bs) \<and> after = Some c \<and> st_rows c = sent_rows oks bs \<and>
        (\<forall>b \<in> set bs. 0 < BatchSize config \<longrightarrow> int (length b) \<le> BatchSize config) \<and>
        length oks = length bs \<and> list_all2 (\<longrightarrow>) said oks \<and> (LoadFailed tab \<in> set L \<longleftrightarrow> False \<in> set said))"

definition own_entries :: "string set \<Rightarrow> star_log list \<Rightarrow> bool" where
  "own_entries T L \<longleftrightarrow> (\<forall>t. LoadFailed t \<in> set L \<or> UpToDate t \<in> set L \<longrightarrow> t \<in> T)"

lemma export_table_run:
  assumes "stream_load env config named content" "cn_faults s = []" "export_table env src config tab s = (Inr (), u)"
  shows "\<exists>L. logged u = logged s @ L \<and> cn_faults u = [] \<and> own_entries {tab} L \<and> copied env src config tab L (dest s (dest_name tab)) (dest u (dest_name tab)) \<and>
    (\<forall>t. t \<noteq> dest_name tab \<longrightarrow> t \<noteq> tmp_name (dest_name tab) \<longrightarrow> dest u t = dest s t)"
proof -
  let ?t = "dest_name tab" and ?f = "source_columns src tab"
  from assms(3) obtain r s1 s2 where s1: "look env s = (Inr (), s1)"
    and created: "createTmpTableInStarrocks env src config tab ?t s1 = (Inr r, s2)"
    and go: "(case r of None \<Rightarrow> tell (UpToDate tab)
      | Some (columnMap, orderBy) \<Rightarrow> copyDataToDst env src config tab ?t columnMap orderBy) s2 = (Inr (), u)"
    unfolding export_table_def by (auto simp: act_bind_run log_error_run)
  from s1 assms(2) have calm: "cn_faults s1 = []" and same: "dest s1 = dest s" "logged s1 = logged s" by (auto simp: look_run)
  from create_run [OF created] calm same have skipped: "r = None \<longleftrightarrow> current env src (UpdateColumn config) tab (dest s ?t)" by simp
  from create_run [OF created] calm consider "r = None" "quiet s1 s2"
    | c where "r = Some (cf_map ?f, order_text config tab ?f)" "cn_faults s2 = []" "logged s2 = logged s1" "dest s2 = (dest s1)(tmp_name ?t \<mapsto> c)" "st_rows c = []"
    by blast
  then show ?thesis
  proof cases
    case 1
    with go same calm skipped show ?thesis
      by (intro exI [of _ "[UpToDate tab]"]) (auto simp: tell_run own_entries_def copied_def quiet_def)
  next
    case 2
    from go 2(1) have "copyDataToDst env src config tab ?t (cf_map ?f) (order_text config tab ?f) s2 = (Inr (), u)" by simp
    moreover have "dest s2 (tmp_name ?t) = Some c" by (simp add: 2(4))
    ultimately obtain bs oks L c' where c: "source_rows env src config tab = map Inr (concat bs)" "st_rows c' = sent_rows oks bs"
      "\<forall>b \<in> set bs. 0 < BatchSize config \<longrightarrow> int (length b) \<le> BatchSize config" "loaded tab oks bs L"
      "dest u = (dest s2)(tmp_name ?t := None, ?t \<mapsto> c')" "logged u = logged s2 @ L" "cn_faults u = []"
      using copyDataToDst_run [OF assms(1) 2(2) _ 2(5)] by blast
    from c(4) obtain said where said: "length oks = length bs" "list_all2 (\<longrightarrow>) said oks" "load_log tab said L" unfolding loaded_def by blast
    from said(3) have L: "UpToDate tab \<notin> set L" "LoadFailed tab \<in> set L \<longleftrightarrow> False \<in> set said" "own_entries {tab} L"
      by (simp_all add: load_log_def own_entries_def)
    have "\<not> current env src (UpdateColumn config) tab (dest s ?t)" using skipped 2(1) by simp
    moreover have "dest u ?t = Some c'" by (simp add: c(5))
    ultimately have "copied env src config tab L (dest s ?t) (dest u ?t)"
      unfolding copied_def using c(1-3) said(1,2) L(1,2) by simp blast
    with c(6,7) L(3) 2(3,4) same show ?thesis by (intro exI [of _ L]) (simp add: c(5))
  qed
qed

lemma copied_log:
  "(UpToDate tab \<in> set L \<longleftrightarrow> UpToDate tab \<in> set M) \<Longrightarrow> (LoadFailed tab \<in> set L \<longleftrightarrow> LoadFailed tab \<in> set M) \<Longrightarrow>
   copied env src config tab L b a = copied env src config tab M b a"
  by (simp only: copied_def)

lemma tables_run:
  assumes "stream_load env config named content"
  shows "act_each (export_table env src config) tabs s = (Inr (), u) \<Longrightarrow> cn_faults s = [] \<Longrightarrow> distinct (map dest_name tabs) \<Longrightarrow>
    \<forall>t \<in> set tabs. \<forall>v \<in> set tabs. dest_name t \<noteq> tmp_name (dest_name v) \<Longrightarrow>
    \<exists>L. logged u = logged s @ L \<and> own_entries (set tabs) L \<and>
      (\<forall>tab \<in> set tabs. copied env src config tab L (dest s (dest_name tab)) (dest u (dest_name tab))) \<and>
      (\<forall>t. t \<notin> dest_name ` set tabs \<longrightarrow> t \<notin> tmp_name ` dest_name ` set tabs \<longrightarrow> dest u t = dest s t)"
proof (induction tabs arbitrary: s)
  case Nil
  then show ?case by (auto simp: run_iff own_entries_def)
next
  case (Cons h tabs)
  from Cons.prems(1) obtain s1 where h: "export_table env src config h s = (Inr (), s1)"
    and rest: "act_each (export_table env src config) tabs s1 = (Inr (), u)" by (auto simp: run_iff)
  from export_table_run [OF assms Cons.prems(2) h] obtain L where L: "logged s1 = logged s @ L" "cn_faults s1 = []" "own_entries {h} L"
    "copied env src config h L (dest s (dest_name h)) (dest s1 (dest_name h))"
    "\<And>t. t \<noteq> dest_name h \<Longrightarrow> t \<noteq> tmp_name (dest_name h) \<Longrightarrow> dest s1 t = dest s t" by blast
  from Cons.IH [OF rest L(2)] Cons.prems(3,4) obtain M where M: "logged u = logged s1 @ M" "own_entries (set tabs) M"
    "\<And>tab. tab \<in> set tabs \<Longrightarrow> copied env src config tab M (dest s1 (dest_name tab)) (dest u (dest_name tab))"
    "\<And>t. t \<notin> dest_name ` set tabs \<Longrightarrow> t \<notin> tmp_name ` dest_name ` set tabs \<Longrightarrow> dest u t = dest s1 t" by auto
  from Cons.prems(3) have fresh: "h \<notin> set tabs" "dest_name h \<notin> dest_name ` set tabs" by auto
  have h_last: "dest u (dest_name h) = dest s1 (dest_name h)" using fresh Cons.prems(4) by (intro M(4)) auto
  have others: "dest s1 (dest_name tab) = dest s (dest_name tab)" if "tab \<in> set tabs" for tab
  proof (rule L(5))
    show "dest_name tab \<noteq> dest_name h" using fresh(2) imageI [OF that, of dest_name] by metis
  qed (use that Cons.prems(4) in simp)
  have logs: "copied env src config tab (L @ M) b a = copied env src config tab M b a" if "tab \<in> set tabs" for tab b a
    using that fresh L(3) by (intro copied_log) (auto simp: own_entries_def)
  have "copied env src config h (L @ M) b a = copied env src config h L b a" for b a
    using fresh M(2) by (intro copied_log) (auto simp: own_entries_def)
  with L(1,3,4,5) M logs others h_last show ?case
    by (intro exI [of _ "L @ M"]) (auto simp: own_entries_def)
qed


section \<open>A run of the subtask\<close>

lemma on_error_returns [run_iff]: "on_error f m s = (Inr x, u) \<longleftrightarrow> m s = (Inr x, u)"
  by (auto simp: on_error_def split: prod.splits sum.splits)

lemma getExportingTables_calm: "cn_faults s = [] \<Longrightarrow> getExportingTables env src config s = (fst (getExportingTables env src config s), s)"
  by (auto simp: getExportingTables_def act_bind_def query_calm act_fail_def act_ret_def of_sum_def split: option.splits sum.splits)

text \<open>C24. When an export returns without an error, a table that was asked for is skipped exactly if the column to compare is one of its columns,
  StarRocks has the table, and the latest value of the column is the same in both. Every other one holds in StarRocks the rows of the source in
  their order, read in batches of the size that is set, without the batches whose load was not committed; the answer to such a load did not
  report success, which is only an entry of the log: the table with the missing rows takes the place of the old one all the same. The tables that
  were skipped, and all other tables, are as before. The names of the tables, without leading underscores, must differ, and none may be the
  temporary name of another. The rows of the source are those its cursor gave before it ended or broke.\<close>

theorem export_copies:
  assumes "stream_load env config named content" "cn_faults s = []" "ExportData env config s = (Inr (), u)"
    and "source_db env config = Inr src" "fst (getExportingTables env src config s) = Inr tabs"
    and "distinct (map dest_name tabs)" "\<forall>t \<in> set tabs. \<forall>v \<in> set tabs. dest_name t \<noteq> tmp_name (dest_name v)"
  shows "\<exists>L. logged u = logged s @ L \<and>
    (\<forall>tab \<in> set tabs. copied env src config tab L (dest s (dest_name tab)) (dest u (dest_name tab))) \<and>
    (\<forall>t. t \<notin> dest_name ` set tabs \<longrightarrow> t \<notin> tmp_name ` dest_name ` set tabs \<longrightarrow> dest u t = dest s t)"
proof -
  have found: "getExportingTables env src config s = (Inr tabs, s)"
    by (rule trans [OF getExportingTables_calm [OF assms(2)]]) (simp add: assms(5))
  from assms(3) have "act_each (export_table env src config) tabs s = (Inr (), u)"
    unfolding ExportData_def on_error_returns assms(4) by (auto simp: act_bind_run plain_runs found)
  from tables_run [OF assms(1) this assms(2,6,7)] show ?thesis by blast
qed

lemma dest_query_calm: "cn_faults s = [] \<Longrightarrow> dest_query t f s =
    ((case dest s t of None \<Rightarrow> Inl (External (''Unknown table '' @ t)) | Some c \<Rightarrow> Inr (f c)), s)"
  by (simp add: dest_query_def act_bind_def query_calm act_fail_def act_ret_def split: option.splits)

text \<open>A service that answers without a redirect and refuses batches of a single row.\<close>

definition toy_config :: StarRocksConfig where
  "toy_config = \<lparr>SourceType = [], SourceDsn = [], UpdateColumn = ''updated_at'', Host = ''fe'', Port = 9, User = ''root'', Password = [],
     Database = ''lake'', BeHost = ''be'', BePort = 8, TablePatterns = [], BatchSize = 2, OrderBy = Map.empty, DomainLayer = [], Extra = Map.empty\<rparr>"

definition toy_named :: "string \<Rightarrow> string" where
  "toy_named url = take (length url - 34) (drop 21 url)"

definition toy_send :: "(string \<rightharpoonup> nat) list request \<Rightarrow> nat star_tables \<Rightarrow> (goerr + response) \<times> nat star_tables" where
  "toy_send rq d =
     (if length (rq_content rq) = 1 then (Inr \<lparr>rs_status = 200, rs_location = Inl (External ''none''), rs_content = Inr ''Fail''\<rparr>, d)
      else (Inr \<lparr>rs_status = 200, rs_location = Inl (External ''none''), rs_content = Inr ''Success''\<rparr>,
        append_rows (toy_named (rq_url rq)) (rq_content rq) d))"

definition toy_source :: "nat list src_db" where
  "toy_source = \<lparr>so_dialect = ''mysql'', so_all = [''_issues''], so_table = (\<lambda>_.
     \<lparr>ss_columns = [\<lparr>cm_name = ''id'', cm_type = Some ''bigint(20)'', cm_primary = (True, True)\<rparr>], ss_names = [''id''],
      ss_rows = (\<lambda>_. [Row [1], Row [2], Row [3]]), ss_latest = (\<lambda>_. 0), ss_count = 3\<rparr>)\<rparr>"

definition toy_env :: "(nat list, nat, (string \<rightharpoonup> nat) list) star_env" where
  "toy_env = \<lparr>en_ctx = (\<lambda>_. None), en_send = toy_send, en_marshal = Inr, en_new_request = (\<lambda>_. None),
     en_unmarshal = (\<lambda>b. Inr [''Status'' \<mapsto> b]), en_scan = (\<lambda>_. Inr), en_latest = (\<lambda>_ _. 0), en_match = (\<lambda>_ _. Inr True),
     en_err_text = (\<lambda>_. []), en_lake = toy_source, en_open = (\<lambda>_ _. Inr toy_source), en_open_star = (\<lambda>_. None)\<rparr>"

definition toy_start :: "nat star_db conn" where
  "toy_start = \<lparr>cn_data = \<lparr>sd_dest = Map.empty, sd_log = [], sd_polls = 0\<rparr>, cn_faults = [], cn_progress = 0\<rparr>"

lemma toy_stream_load: "stream_load toy_env toy_config toy_named id"
proof -
  have "toy_named (load_url toy_config tmp) = tmp" for tmp
  proof -
    have p: "load_url toy_config tmp = ''http://be:8/api/lake/'' @ tmp @ ''/_stream_load''"
    proof -
      have "show_int 8 = ''8''" by code_simp
      then show ?thesis by (simp add: load_url_def toy_config_def)
    qed
    show ?thesis by (simp add: p toy_named_def)
  qed
  then show ?thesis
    unfolding stream_load_def
    by (auto simp: toy_env_def toy_send_def append_rows_def success_def reply_def split: if_splits option.splits)
qed

lemma toy_create:
  assumes "cn_faults s = []"
  shows "createTmpTableInStarrocks env toy_source toy_config t ''issues'' s =
    (Inr (Some ([''id'' \<mapsto> ''bigint''], ''`id`'')), s\<lparr>cn_data := on_dest (\<lambda>d. d(''issues_tmp'' \<mapsto>
       \<lparr>st_columns = [''`id` bigint''], st_extra = extra_text toy_config t (source_columns toy_source t), st_rows = []\<rparr>)) (cn_data s)\<rparr>)"
proof -
  have d: "GetStarRocksDataType ''bigint(20)'' = ''bigint''" by code_simp
  show ?thesis
    by (simp add: createTmpTableInStarrocks_def once_more_def attempt_def act_bind_def query_calm assms toy_source_def source_columns_def
      add_columns_def separator_of_def act_ret_def toy_config_def no_columns_def add_column_def d Let_def create_table_def exec_calm tmp_name_def
      order_text_def quoted_def)
qed

lemma toy_put:
  "putBatchData toy_env toy_config ''issues_tmp'' tab rows s =
     (if length rows = 1 then tell (LoadFailed tab) s
      else tell (LoadDone tab) (s\<lparr>cn_data := on_dest (append_rows ''issues_tmp'' rows) (cn_data s)\<rparr>))"
proof -
  have "toy_named (load_url toy_config ''issues_tmp'') = ''issues_tmp''" by code_simp
  then show ?thesis
    by (simp add: putBatchData_def toy_env_def act_bind_def of_sum_def act_ret_def send_to_def of_check_def Do_def toy_send_def load_request_def
      act_when_def on_dest_def)
qed

lemma toy_facts:
  "en_ctx toy_env = (\<lambda>_. None)" "en_lake toy_env = toy_source" "en_open_star toy_env = (\<lambda>_. None)" "en_scan toy_env = (\<lambda>_. Inr)"
  "SourceDsn toy_config = []" "DomainLayer toy_config = []" "TablePatterns toy_config = []" "BatchSize toy_config = 2"
  "so_all toy_source = [''_issues'']" "ss_rows (so_table toy_source t) order = [Row [1], Row [2], Row [3]]"
  "ss_names (so_table toy_source t) = [''id'']" "ss_count (so_table toy_source t) = 3"
  by (simp_all add: toy_env_def toy_config_def toy_source_def)

lemma toy_run:
  "\<exists>u. ExportData toy_env toy_config toy_start = (Inr (), u) \<and>
     map_option (\<lambda>c. map (\<lambda>r. r ''id'') (st_rows c)) (dest u ''issues'') = Some [Some 1, Some 2]"
proof -
  have n: "dest_name ''_issues'' = ''issues''" by code_simp
  show ?thesis
    by (simp add: ExportData_def source_db_def getExportingTables_def export_table_def copyDataToDst_def n toy_facts on_error_def act_bind_def of_sum_def
      act_ret_def toy_start_def query_calm of_check_def look_def log_error_def attempt_def toy_create toy_put tmp_name_def once_more_def
      scan_row_def tell_def act_when_def drop_table_def exec_calm rename_table_def dest_query_calm on_dest_def append_rows_def Let_def)
qed

theorem export_copies_witness:
  "\<exists>u L. ExportData toy_env toy_config toy_start = (Inr (), u) \<and> copied toy_env toy_source toy_config ''_issues'' L None (dest u ''issues'') \<and>
     map_option (\<lambda>c. map (\<lambda>r. r ''id'') (st_rows c)) (dest u ''issues'') = Some [Some 1, Some 2]"
proof -
  obtain u where u: "ExportData toy_env toy_config toy_start = (Inr (), u)"
    "map_option (\<lambda>c. map (\<lambda>r. r ''id'') (st_rows c)) (dest u ''issues'') = Some [Some 1, Some 2]" using toy_run by (elim exE conjE) (rule that)
  have tabs: "fst (getExportingTables toy_env toy_source toy_config toy_start) = Inr [''_issues'']"
    by (simp add: getExportingTables_def toy_facts act_bind_def query_calm toy_start_def act_ret_def)
  have src: "source_db toy_env toy_config = Inr toy_source" by (simp add: source_db_def toy_facts)
  have name: "dest_name ''_issues'' = ''issues''" by code_simp
  from export_copies [OF toy_stream_load _ u(1) src tabs] obtain L where
    "copied toy_env toy_source toy_config ''_issues'' L None (dest u ''issues'')"
    by (auto simp: name tmp_name_def toy_start_def)
  with u show ?thesis by (intro exI conjI)
qed


section \<open>An export that fails\<close>

text \<open>An action that touches the table \<open>tmp\<close> only, whether it succeeds or not, and does not remove it.\<close>

definition safe :: "string \<Rightarrow> ('v, 'a) star_act \<Rightarrow> bool" where
  "safe tmp m \<longleftrightarrow> (\<forall>s r u. m s = (r, u) \<longrightarrow> (cn_faults s = [] \<longrightarrow> cn_faults u = []) \<and> (\<forall>t. t \<noteq> tmp \<longrightarrow> dest u t = dest s t))"

lemma safe_bind_run: "safe tmp m \<Longrightarrow> (\<And>s x u. m s = (Inr x, u) \<Longrightarrow> safe tmp (f x)) \<Longrightarrow> safe tmp (act_bind m f)"
  unfolding safe_def act_bind_def by (fastforce split: prod.splits sum.splits)

lemma safe_bind: "safe tmp m \<Longrightarrow> (\<And>x. safe tmp (f x)) \<Longrightarrow> safe tmp (act_bind m f)"
  by (rule safe_bind_run)

named_theorems safe_intros \<open>actions that touch the temporary table only\<close>

lemma safe_quiet: "(\<And>s r u. m s = (r, u) \<Longrightarrow> quiet s u) \<Longrightarrow> safe tmp m"
  unfolding safe_def quiet_def by metis

lemma safe_create_table: "safe tmp (create_table tmp columns extra)"
proof -
  have "(cn_faults s = [] \<longrightarrow> cn_faults u = []) \<and> (\<forall>t. t \<noteq> tmp \<longrightarrow> dest u t = dest s t)"
    if "create_table tmp columns extra s = (r, u)" for s u :: "'v star_db conn" and r
    using exec_done [OF that [unfolded create_table_def]] by (cases r) (auto simp: on_dest_def)
  then show ?thesis unfolding safe_def by blast
qed

lemma safe_plain [safe_intros]:
  "safe tmp (act_ret x)" "safe tmp (act_fail e)" "safe tmp (of_sum r)" "safe tmp (of_check c)" "safe tmp (tell l)" "safe tmp (look env)"
  "safe tmp (query f)" "safe tmp (dest_query t g)" "safe tmp (create_table tmp columns extra)"
proof -
  show "safe tmp (query f)" by (rule safe_quiet) (use query_quiet in blast)
  show "safe tmp (dest_query t g)" by (rule safe_quiet) (use dest_query_quiet in blast)
  show "safe tmp (create_table tmp columns extra)" by (rule safe_create_table)
qed (auto simp: safe_def act_ret_def act_fail_def of_sum_def of_check_def tell_def look_def split: sum.splits option.splits)

lemma safe_attempt [safe_intros]: "safe tmp m \<Longrightarrow> safe tmp (attempt m)"
  by (auto simp: safe_def attempt_def split: prod.splits)

lemma safe_when [safe_intros]: "safe tmp m \<Longrightarrow> safe tmp (act_when b m)"
  by (simp add: act_when_def safe_intros)

lemma safe_once_more: "safe tmp m \<Longrightarrow> safe tmp (once_more env m)"
  unfolding once_more_def by (intro safe_bind safe_attempt) (auto simp: safe_intros split: sum.splits)

lemma safe_log_error: "safe tmp m \<Longrightarrow> safe tmp (log_error f m)"
  unfolding log_error_def by (intro safe_bind safe_attempt) (auto intro!: safe_bind safe_intros split: sum.splits)

lemma safe_find_columns: "safe tmp (find_columns env src c tab t sep cms f)"
proof (induction cms arbitrary: f)
  case (Cons cm cms)
  have "safe tmp (up_to_date env src c tab t)"
    unfolding up_to_date_def by (intro safe_bind safe_attempt) (auto simp: safe_intros split: sum.splits)
  then show ?case
    using Cons.IH by (auto intro!: safe_bind safe_intros split: option.splits)
qed (simp add: safe_intros)

lemma safe_create: "safe (tmp_name t) (createTmpTableInStarrocks env src config tab t)"
  unfolding createTmpTableInStarrocks_def
  by (auto intro!: safe_bind safe_once_more safe_find_columns safe_intros split: option.splits)

text \<open>A redirect gives an address of the same table, so that both requests of a load stay with it.\<close>

lemma safe_send:
  assumes "stream_load env config named content" "named url = tmp"
  shows "safe tmp (send_to env config b url)"
  unfolding send_to_def
proof (intro safe_bind safe_intros)
  let ?rq = "load_request config b url"
  have u: "named (rq_url ?rq) = tmp" by (simp add: load_request_def assms(2))
  have "cn_faults v = cn_faults s \<and> (\<forall>t. t \<noteq> tmp \<longrightarrow> dest v t = dest s t)" if "Do env ?rq s = (r, v)" for s r v
    using that send_frame [OF assms(1), of ?rq "dest s", unfolded u] by (cases "en_send env ?rq (dest s)") (auto simp: Do_def)
  then show "safe tmp (Do env ?rq)" unfolding safe_def by metis
qed

lemma safe_put:
  assumes "stream_load env config named content"
  shows "safe tmp (putBatchData env config tmp tab batch)"
  unfolding putBatchData_def
proof (rule safe_bind [OF safe_plain(3)], rule safe_bind_run)
  have url: "named (load_url config tmp) = tmp" using assms by (simp add: stream_load_def)
  fix b
  show "safe tmp (send_to env config b (load_url config tmp))" by (rule safe_send [OF assms url])
  fix s resp u
  assume "send_to env config b (load_url config tmp) s = (Inr resp, u)"
  then have "rs_status resp = 307 \<Longrightarrow> rs_location resp = Inr l \<Longrightarrow> named l = tmp" for l
    using send_redirect [OF assms] url by (force simp: send_to_run load_request_def)
  then have answer: "safe tmp (if rs_status resp = 307
      then act_bind (of_sum (rs_location resp)) (\<lambda>location. act_bind (send_to env config b location) (\<lambda>respRetry. of_sum (rs_content respRetry)))
      else of_sum (rs_content resp))"
    by (auto intro!: safe_bind_run [OF safe_plain(3)] safe_bind safe_send [OF assms] safe_intros simp: plain_runs)
  show "safe tmp (act_bind (if rs_status resp = 307
        then act_bind (of_sum (rs_location resp)) (\<lambda>location. act_bind (send_to env config b location) (\<lambda>respRetry. of_sum (rs_content respRetry)))
        else of_sum (rs_content resp)) (\<lambda>m. act_bind (of_sum (en_unmarshal env m)) (\<lambda>result.
      act_bind (act_when (rs_status resp \<noteq> 200) (tell (BadStatus (rs_status resp)))) (\<lambda>_.
        if result ''Status'' \<noteq> Some ''Success'' then tell (LoadFailed tab) else tell (LoadDone tab)))))"
    by (intro safe_bind answer safe_intros) (auto simp: safe_intros)
qed

lemma safe_copy_rows:
  assumes "stream_load env config named content"
  shows "safe tmp (copy_rows env config tmp tab scan rows batch)"
proof (induction rows arbitrary: batch)
  case (Cons r rows)
  then show ?case
    by (cases r) (auto simp: Let_def intro!: safe_bind safe_put [OF assms] safe_intros)
qed (simp add: safe_intros)

lemma safe_loading:
  assumes "stream_load env config named content"
  shows "safe (tmp_name t) (loading env src config tab t columnMap orderBy)"
  unfolding loading_def
  by (intro safe_bind safe_once_more safe_copy_rows [OF assms] safe_when safe_put [OF assms] safe_intros)

lemma safeD: "safe tmp m \<Longrightarrow> m s = (r, u) \<Longrightarrow> t \<noteq> tmp \<Longrightarrow> dest u t = dest s t"
  unfolding safe_def by blast

text \<open>C25. An export of a table that ends with an error, whatever statement or request failed, leaves every table of StarRocks as it was but the
  temporary one; or else all batches had been sent and it is a statement of the exchange or of the comparison after it that failed: then the
  old table has been dropped and the new one, with the rows of the loads that were committed, stands under the temporary name or, if the
  renaming succeeded, under its own. Without a failing statement the first holds: the old table is never dropped before all batches are sent.\<close>

theorem failed_export_keeps:
  assumes "stream_load env config named content" "export_table env src config tab s = (Inl e, u)"
  shows "(\<forall>t. t \<noteq> tmp_name (dest_name tab) \<longrightarrow> dest u t = dest s t) \<or>
    cn_faults s \<noteq> [] \<and> (\<exists>bs oks c. source_rows env src config tab = map Inr (concat bs) \<and> length oks = length bs \<and> st_rows c = sent_rows oks bs \<and>
      (dest u = (dest s)(tmp_name (dest_name tab) \<mapsto> c, dest_name tab := None) \<or>
       dest u = (dest s)(tmp_name (dest_name tab) := None, dest_name tab \<mapsto> c)))"
proof -
  let ?t = "dest_name tab" and ?f = "source_columns src tab"
  let ?tmp = "tmp_name ?t"
  obtain r0 s1 where l: "look env s = (r0, s1)" by fastforce
  then have s1: "cn_faults s1 = cn_faults s" "dest s1 = dest s" by (auto simp: look_def)
  obtain r s2 where m: "log_error (CreateFailed tab) (createTmpTableInStarrocks env src config tab ?t) s1 = (r, s2)" by fastforce
  have s2: "dest s2 t = dest s t" if "t \<noteq> ?tmp" for t
    using safeD [OF safe_log_error [OF safe_create] m that] s1(2) by simp
  show ?thesis
  proof (cases "(\<exists>x. r0 = Inl x) \<or> (\<exists>x. r = Inl x) \<or> r = Inr None")
    case True
    with assms(2) l m have "dest u = dest s1 \<or> dest u = dest s2"
      by (cases r0) (auto simp: export_table_def act_bind_def tell_def)
    with s1(2) s2 show ?thesis by auto
  next
    case False
    then obtain x q where ok: "r0 = Inr x" "r = Inr (Some q)" by (metis (no_types, opaque_lifting) not_None_eq sum.exhaust)
    with m have "createTmpTableInStarrocks env src config tab ?t s1 = (Inr (Some q), s2)" by (simp add: log_error_run)
    from create_run [OF this] obtain c where q: "q = (cf_map ?f, order_text config tab ?f)"
      and c: "dest s2 = (dest s)(?tmp \<mapsto> c)" "st_rows c = []" and calm: "cn_faults s = [] \<longrightarrow> cn_faults s2 = []"
      by (auto simp: s1)
    have tmp: "dest s2 ?tmp = Some c" by (simp add: c(1))
    have go: "copyDataToDst env src config tab ?t (cf_map ?f) (order_text config tab ?f) s2 = (Inl e, u)"
      using assms(2) l m ok q by (simp add: export_table_def act_bind_def)
    obtain r3 s3 where load: "loading env src config tab ?t (cf_map ?f) (order_text config tab ?f) s2 = (r3, s3)" by fastforce
    show ?thesis
    proof (cases r3)
      case (Inl e3)
      with go load have "u = s3" by (simp add: copyDataToDst_split act_bind_def)
      with safeD [OF safe_loading [OF assms(1)] load] s2 show ?thesis by simp
    next
      case (Inr y)
      with load have load': "loading env src config tab ?t (cf_map ?f) (order_text config tab ?f) s2 = (Inr (), s3)" by simp
      from loading_run [OF assms(1) tmp c(2) load'] obtain bs oks c' L where b: "source_rows env src config tab = map Inr (concat bs)"
        "st_rows c' = sent_rows oks bs" "loaded tab oks bs L" "dest s3 = (dest s2)(?tmp \<mapsto> c')" "cn_faults s2 = [] \<longrightarrow> cn_faults s3 = []" by blast
      have len: "length oks = length bs" using b(3) by (simp add: loaded_def)
      from go load' have close: "closing tab ?t (ss_count (so_table src tab)) s3 = (Inl e, u)" by (simp add: copyDataToDst_split act_bind_def)
      have tmp3: "dest s3 ?tmp = Some c'" by (simp add: b(4))
      have faults: "cn_faults s \<noteq> []"
      proof
        assume "cn_faults s = []"
        with calm b(5) have "cn_faults s3 = []" by simp
        from closing_returns [OF this tmp3, of tab "ss_count (so_table src tab)"] close show False by auto
      qed
      have s3: "dest s3 = (dest s)(?tmp \<mapsto> c')" by (simp add: b(4) c(1))
      from closing_fails [OF close tmp3] show ?thesis
      proof (elim disjE)
        assume "dest u = dest s3"
        then show ?thesis by (simp add: s3)
      qed (use faults b(1,2) len in \<open>unfold s3 fun_upd_upd; blast\<close>)+
    qed
  qed
qed

definition broken_env :: "(nat list, nat, (string \<rightharpoonup> nat) list) star_env" where
  "broken_env = toy_env\<lparr>en_send := (\<lambda>_ d. (Inl (External ''connection refused''), d))\<rparr>"

definition old_table :: "nat star_table" where
  "old_table = \<lparr>st_columns = [], st_extra = [], st_rows = [[''id'' \<mapsto> 7]]\<rparr>"

definition broken_start :: "nat star_db conn" where
  "broken_start = \<lparr>cn_data = \<lparr>sd_dest = [''issues'' \<mapsto> old_table], sd_log = [], sd_polls = 0\<rparr>, cn_faults = [], cn_progress = 0\<rparr>"

theorem failed_export_keeps_witness:
  "\<exists>u. export_table broken_env toy_source toy_config ''_issues'' broken_start = (Inl (External ''connection refused''), u) \<and> dest u ''issues'' = Some old_table"
proof -
  have n: "dest_name ''_issues'' = ''issues''" by code_simp
  have env: "en_ctx broken_env = (\<lambda>_. None)" "en_scan broken_env = (\<lambda>_. Inr)" "en_marshal broken_env = Inr" "en_new_request broken_env = (\<lambda>_. None)"
    "en_send broken_env = (\<lambda>_ d. (Inl (External ''connection refused''), d))"
    by (simp_all add: broken_env_def toy_env_def)
  have load: "stream_load broken_env toy_config toy_named id"
    using toy_stream_load unfolding stream_load_def by (simp add: env toy_env_def)
  obtain u where u: "export_table broken_env toy_source toy_config ''_issues'' broken_start = (Inl (External ''connection refused''), u)"
    by (simp add: export_table_def copyDataToDst_def n env toy_facts act_bind_def of_sum_def act_ret_def broken_start_def query_calm of_check_def look_def
      log_error_def attempt_def toy_create tmp_name_def once_more_def scan_row_def putBatchData_def send_to_def Do_def Let_def on_dest_def)
  have "cn_faults broken_start = []" by (simp add: broken_start_def)
  with failed_export_keeps [OF load u] have "\<forall>t. t \<noteq> tmp_name (dest_name ''_issues'') \<longrightarrow> dest u t = dest broken_start t" by blast
  then have "dest u ''issues'' = dest broken_start ''issues''" by (simp add: n tmp_name_def)
  with u show ?thesis by (simp add: broken_start_def)
qed

end
