(* ===== verification/Spec2Isabelle.thy ===== *)
theory Spec2Isabelle
  imports CommitGraph LakeErrors PipelineFacts RunnerFacts PipelineQueue PlanMaking BlueprintFacts
    HelperQueue BatchSave Divider ErrorFacts Refdiff DoraFacts DeploymentDiff DoraPlan CollectorFaults RateFacts
    Secrets Migrator RemoteFacts StatefulFacts GraphqlFaults GitStore MetricsFacts
    CherryPickFacts ScopeFacts KubeFacts Iterators IssuesDiff StarFacts
begin

text \<open>
  A verification development of the backend of DevLake (\<open>src/backend\<close>, Go): what the server does with
  blueprints, pipelines and tasks, how a task runs its subtasks, how the helpers of the plugins collect,
  extract and convert records, what a git repository
  is turned into, and what the two metric plugins \<open>refdiff\<close> and \<open>dora\<close> compute from them,
  up to the four DORA metrics that the server reports.

  How the parts interact. A blueprint holds a plan or the settings of connections, from which its plan is
  made; a cron job or a request creates a pipeline from the plan, one task per position of the plan. The
  queue claims waiting pipelines and runs each one in a goroutine; the runner runs the tasks row by row, the
  tasks of a row in parallel, and a task runs the enabled subtasks of its plugin in order. A collecting
  subtask sends requests through a rate limited client whose worker pool saves the raw answers; extracting
  and converting subtasks turn raw rows into records in batches. The subtasks of \<open>refdiff\<close> walk the commit
  graph to store the commits between two refs or two deployments; the subtasks of \<open>dora\<close> use these to
  attribute changes and incidents to deployments.

  Conventions. A table is a list of records in the order of the primary key, an assignment of ids to the
  next free number; a nil pointer or a NULL column is \<open>None\<close>. A function that can fail returns a sum, \<open>Inl\<close>
  the error. Which database statements fail is an oracle of the state where the code handles the failure.
  Time is the number of nanoseconds or seconds since the epoch, as the code has it. Loops that end by
  structure are recursive functions; a depth-first walk has a termination proof.

  Theories and sources (paths below \<open>src/backend\<close>):

  \<^item> \<open>Prelude\<close>: decimal printing, the string functions of the Go library that the code uses, generic lemmas.
  \<^item> \<open>LakeErrors\<close>, \<open>ErrorFacts\<close>: \<open>core/errors\<close>; wrapping keeps type and cause, the codes of HTTP.
  \<^item> \<open>CommitGraph\<close>: \<open>plugins/refdiff/utils/commit_node_graph.go\<close>; the walk finds exactly the commits reachable
    from the new and not from the old one.
  \<^item> \<open>Tables\<close>, \<open>Svc\<close>: the rows of tasks, pipelines, blueprints and projects, the state of the services and
    its database statements (\<open>core/models\<close>, \<open>server/services/base.go\<close>).
  \<^item> \<open>TaskService\<close>, \<open>PipelineService\<close>, \<open>PipelineFacts\<close>: \<open>server/services/task.go\<close>, \<open>pipeline.go\<close>,
    \<open>pipeline_helper.go\<close>, \<open>pipeline_runner.go\<close>; creation, queries, cancel, rerun, and the status of a run.
  \<^item> \<open>PipelineQueue\<close>: the queue of \<open>pipeline.go\<close> as a step relation with the label exclusion and the single
    run of a pipeline as invariants. Every statement of the loop is a step; the run of a pipeline, and a request of the service, which
    holds \<open>cronLocker\<close> throughout, is one step; the labels in use are read as they are at one moment, although the code reads
    them without their lock.
  \<^item> \<open>PluginHub\<close>, \<open>Runner\<close>, \<open>RunnerFacts\<close>: \<open>core/plugin/hub.go\<close>, \<open>core/runner\<close>.
  \<^item> \<open>PlanMaking\<close>, \<open>BlueprintService\<close>, \<open>BlueprintFacts\<close>: \<open>blueprint*.go\<close> and \<open>project.go\<close> of the services.
  \<^item> \<open>Iterators\<close>, \<open>HelperQueue\<close>, \<open>BatchSave\<close>, \<open>Divider\<close>: \<open>helpers/pluginhelper/api\<close>, the linked queue and its workers, the batches
    and the extractor, converter and enricher on top of them; refinements of a list and of single upserts.
  \<^item> \<open>Collector\<close>, \<open>CollectorFacts\<close>, \<open>CollectorPages\<close>, \<open>CollectorRuns\<close>, \<open>CollectorLive\<close>, \<open>CollectorFaults\<close>:
    \<open>api_collector.go\<close>, \<open>api_async_client.go\<close>, \<open>worker_scheduler.go\<close> as a machine of threads. A run is a list of choices of
    the next thread. The tree of requests is the reference: its rows are what a run that did not fail saves,
    its size bounds the runs, and only a sequential collection can block.
  \<^item> \<open>Graphql\<close>, \<open>GraphqlFacts\<close>, \<open>GraphqlFaults\<close>: \<open>graphql_collector.go\<close>, \<open>graphql_async_client.go\<close> in the same way, with the cursors
    of the service in place of the page numbers.
  \<^item> \<open>RateLimit\<close>, \<open>RateFacts\<close>: the size and the pace of the client (\<open>api_ratelimit_calc.go\<close>).
  \<^item> \<open>Stateful\<close>, \<open>StatefulFacts\<close>: \<open>api_collector_with_state.go\<close>; the incremental collections of sorted lists on top of the
    collector, and the runs of one over time as a step relation whose invariant is that nothing is missing.
  \<^item> \<open>ApiInput\<close>, \<open>RemoteScopes\<close>, \<open>RemoteFacts\<close>: \<open>pagenation.go\<close>, \<open>remote_api_helper.go\<close>; what following the tokens lists.
  \<^item> \<open>ScopeService\<close>, \<open>ScopeFacts\<close>: \<open>connection_helper.go\<close>, \<open>scope_helper.go\<close>, \<open>transformation_rule_helper.go\<close>; the table of
    scopes stays valid, and what \<open>Put\<close> stores.
  \<^item> \<open>KubeDeployment\<close>, \<open>KubeFacts\<close>: the plugin \<open>plugins/kube_deployment\<close> from the credentials of a connection to the table of
    revisions, on top of the scopes, the plans, the runner and the extractor; also \<open>didgen/domain_id_generator.go\<close> and \<open>pipeline_plan.go\<close>.
  \<^item> \<open>StarRocks\<close>, \<open>StarFacts\<close>: the plugin \<open>plugins/starrocks\<close>, which copies tables over HTTP; what the tables hold after a run, with
    loads that were not committed, and what a failed one leaves; the service that loads rows is an argument whose documented behaviour is
    \<open>stream_load\<close>: a load adds all its rows or none, and all if the answer reports success.
  \<^item> \<open>Base64\<close>, \<open>Secrets\<close>: \<open>core/plugin/plugin_utils.go\<close> with the encoding of the standard library.
  \<^item> \<open>Migrator\<close>: \<open>core/migration\<close>; applying, recording and resuming migration scripts.
  \<^item> \<open>RefPairs\<close>, \<open>Conn\<close>, \<open>Refdiff\<close>, \<open>DeploymentDiff\<close>, \<open>CherryPick\<close>, \<open>CherryPickFacts\<close>, \<open>IssuesDiff\<close>:
    \<open>plugins/refdiff/tasks\<close>.
  \<^item> \<open>FileBlame\<close>, \<open>GitRepo\<close>, \<open>GitFacts\<close>, \<open>GitStore\<close>: \<open>plugins/gitextractor\<close>; the finger list is a refinement of the lines of a
    file, and from it the snapshot of a repository names a commit that added the line, for each line at its head.
  \<^item> \<open>Dora\<close>, \<open>DoraFacts\<close>, \<open>DoraPlan\<close>: \<open>plugins/dora\<close>, and its plans composed with the runner.
  \<^item> \<open>Metrics\<close>, \<open>MetricsFacts\<close>: \<open>server/services/metrics.go\<close>; the queries of the four DORA metrics over the tables that \<open>dora\<close>
    fills, in terms of lower medians and shares.

  Bounds and fuel. The runs of the collector are bounded by a cost that every step lowers; the depth of the tree
  of requests is the argument \<open>n\<close> of \<open>collected\<close> and \<open>deep\<close>, and \<open>list_depth\<close>, one more than the number of items, is enough
  for an API that serves lists; following the tokens of a remote service takes the number of pages as fuel, and the theorem gives it.
  For GraphQL, \<open>ends\<close> states with the fuel \<open>n\<close> of \<open>follow\<close> that the cursors end after \<open>n\<close> pages.

  Not modelled: HTTP handlers and the configuration files (decoding around the services), gorm and the SQL it emits
  (statements are functions on tables), migration scripts (DDL), the data source plugins apart from the
  reading of rate limits (converters of one record format into another), logging, start-up and
  the lock of the database, and the parts of the repository that are not Go.
\<close>

end
